(* ===== verification/Prelude.thy ===== *)
theory Prelude
  imports Complex_Main "HOL-Library.List_Lexorder" "HOL-Library.Product_Lexorder"
begin

text \<open>
  Shared vocabulary of the development: Python strings as sequences of code points, results
  that are either an error or a value, insertion-ordered dictionaries, the stable
  \<^verbatim>\<open>sorted(..., key=...)\<close>, the first-maximum \<^verbatim>\<open>max(..., key=...)\<close> and negative slices, with
  the lemmas that the component theories use. Lists and pairs carry Python's lexicographic
  order (\<^verbatim>\<open>List_Lexorder\<close>, \<^verbatim>\<open>Product_Lexorder\<close>).
\<close>

named_theorems py_simps \<open>evaluation and characteristic equations of the Python primitives\<close>
named_theorems val_simps \<open>the exact value of a decimal expression\<close>
named_theorems inv_intros \<open>an operation keeps a component's invariant\<close>

subsection \<open>Strings, results\<close>

text \<open>A Python string is its sequence of Unicode code points; comparison is lexicographic.\<close>

type_synonym pystr = "nat list"

definition u :: "string \<Rightarrow> pystr" where
  "u s = map of_char s"

lemma u_Nil [simp]: "u [] = []"
  by (simp add: u_def)

lemma u_Cons [simp]: "u (c # s) = of_char c # u s"
  by (simp add: u_def)

type_synonym ('e, 'a) result = "'e + 'a"

definition rbind :: "('e, 'a) result \<Rightarrow> ('a \<Rightarrow> ('e, 'b) result) \<Rightarrow> ('e, 'b) result" where
  "rbind r f = (case r of Inl e \<Rightarrow> Inl e | Inr a \<Rightarrow> f a)"

lemma rbind_simps [simp, py_simps]:
  "rbind (Inl e) f = Inl e"
  "rbind (Inr a) f = f a"
  by (simp_all add: rbind_def)

lemma rbind_Inr_iff: "rbind r f = Inr b \<longleftrightarrow> (\<exists>a. r = Inr a \<and> f a = Inr b)"
  by (cases r) simp_all

fun map_result :: "('a \<Rightarrow> ('e, 'b) result) \<Rightarrow> 'a list \<Rightarrow> ('e, 'b list) result" where
  "map_result f [] = Inr []"
| "map_result f (x # xs) = rbind (f x) (\<lambda>y. rbind (map_result f xs) (\<lambda>ys. Inr (y # ys)))"

lemma map_result_Inr_iff:
  "map_result f xs = Inr ys \<longleftrightarrow> list_all2 (\<lambda>x y. f x = Inr y) xs ys"
  by (induction xs arbitrary: ys) (auto simp: rbind_Inr_iff list_all2_Cons1)

lemma map_result_map: "(\<And>x. x \<in> set xs \<Longrightarrow> f x = Inr (g x)) \<Longrightarrow> map_result f xs = Inr (map g xs)"
  by (induction xs) simp_all

lemma map_result_length: "map_result f xs = Inr ys \<Longrightarrow> length ys = length xs"
  by (auto simp: map_result_Inr_iff dest: list_all2_lengthD)

subsection \<open>Dictionaries that keep insertion order\<close>

type_synonym ('k, 'v) dict = "('k \<times> 'v) list"

definition dict_get :: "('k, 'v) dict \<Rightarrow> 'k \<Rightarrow> 'v option" where
  "dict_get d k = map_of d k"

fun dict_set :: "('k, 'v) dict \<Rightarrow> 'k \<Rightarrow> 'v \<Rightarrow> ('k, 'v) dict" where
  "dict_set [] k v = [(k, v)]"
| "dict_set ((k', v') # d) k v = (if k' = k then (k, v) # d else (k', v') # dict_set d k v)"

definition dict_pop :: "('k, 'v) dict \<Rightarrow> 'k \<Rightarrow> ('k, 'v) dict" where
  "dict_pop d k = filter (\<lambda>p. fst p \<noteq> k) d"

definition dict_keys :: "('k, 'v) dict \<Rightarrow> 'k list" where
  "dict_keys d = map fst d"

definition dict_wf :: "('k, 'v) dict \<Rightarrow> bool" where
  "dict_wf d \<longleftrightarrow> distinct (map fst d)"

text \<open>\<^verbatim>\<open>d.setdefault(k, []).append(v)\<close>.\<close>

definition dict_append :: "('k, 'v list) dict \<Rightarrow> 'k \<Rightarrow> 'v \<Rightarrow> ('k, 'v list) dict" where
  "dict_append d k v = dict_set d k (case dict_get d k of None \<Rightarrow> [v] | Some vs \<Rightarrow> vs @ [v])"

text \<open>What the components rely on of a dictionary, independently of its representation.\<close>

locale dictionary =
  fixes empty :: 'd
    and get :: "'d \<Rightarrow> 'k \<Rightarrow> 'v option"
    and put :: "'d \<Rightarrow> 'k \<Rightarrow> 'v \<Rightarrow> 'd"
    and pop :: "'d \<Rightarrow> 'k \<Rightarrow> 'd"
    and keys :: "'d \<Rightarrow> 'k list"
    and wf :: "'d \<Rightarrow> bool"
  assumes get_empty: "get empty k = None"
    and wf_empty: "wf empty"
    and get_put: "get (put d k v) k' = (if k' = k then Some v else get d k')"
    and get_pop: "get (pop d k) k' = (if k' = k then None else get d k')"
    and keys_put: "keys (put d k v) = (if k \<in> set (keys d) then keys d else keys d @ [k])"
    and set_keys: "set (keys d) = {k. get d k \<noteq> None}"
    and wf_put: "wf d \<Longrightarrow> wf (put d k v)"
    and wf_pop: "wf d \<Longrightarrow> wf (pop d k)"
    and wf_keys: "wf d \<Longrightarrow> distinct (keys d)"
begin

lemma get_put_same: "get (put d k v) k = Some v"
  by (simp add: get_put)

lemma get_put_other: "k' \<noteq> k \<Longrightarrow> get (put d k v) k' = get d k'"
  by (simp add: get_put)

lemma get_pop_put: "get (pop (put d k v) k) k' = get (pop d k) k'"
  by (simp add: get_pop get_put)

lemma get_fold_put:
  "get (foldl (\<lambda>d p. put d (fst p) (snd p)) d ps) k =
     (case map_of (rev ps) k of None \<Rightarrow> get d k | Some v \<Rightarrow> Some v)"
  by (induction ps arbitrary: d)
    (auto simp: get_put map_add_def split: option.splits)

lemma wf_fold_put: "wf d \<Longrightarrow> wf (foldl (\<lambda>d p. put d (fst p) (snd p)) d ps)"
  by (induction ps arbitrary: d) (auto intro: wf_put)

end

lemma dict_get_set: "dict_get (dict_set d k v) k' = (if k' = k then Some v else dict_get d k')"
  by (induction d k v rule: dict_set.induct) (auto simp: dict_get_def)

lemma dict_get_pop: "dict_get (dict_pop d k) k' = (if k' = k then None else dict_get d k')"
  by (induction d) (auto simp: dict_get_def dict_pop_def)

lemma dict_keys_set:
  "dict_keys (dict_set d k v) = (if k \<in> set (dict_keys d) then dict_keys d else dict_keys d @ [k])"
  by (induction d k v rule: dict_set.induct) (auto simp: dict_keys_def)

lemma set_dict_keys: "set (dict_keys d) = {k. dict_get d k \<noteq> None}"
  by (auto simp: dict_keys_def dict_get_def dom_map_of_conv_image_fst [symmetric])

lemma dict_wf_set: "dict_wf d \<Longrightarrow> dict_wf (dict_set d k v)"
  using dict_keys_set [of d k v] by (auto simp: dict_wf_def dict_keys_def)

lemma dict_wf_pop: "dict_wf d \<Longrightarrow> dict_wf (dict_pop d k)"
  by (auto simp: dict_wf_def dict_pop_def distinct_map_filter)

interpretation dict: dictionary "[]" dict_get dict_set dict_pop dict_keys dict_wf
  by unfold_locales
    (simp_all add: dict_get_set dict_get_pop dict_keys_set set_dict_keys dict_wf_set dict_wf_pop,
     simp_all add: dict_get_def dict_wf_def dict_keys_def)

lemma dict_get_append:
  "dict_get (dict_append d k v) k' =
     (if k' = k then Some (case dict_get d k of None \<Rightarrow> [v] | Some vs \<Rightarrow> vs @ [v])
      else dict_get d k')"
  by (simp add: dict_append_def dict_get_set)

lemma dict_wf_append: "dict_wf d \<Longrightarrow> dict_wf (dict_append d k v)"
  by (simp add: dict_append_def dict_wf_set)

lemma dict_get_mem: "dict_get d k = Some v \<Longrightarrow> (k, v) \<in> set d"
  by (simp add: dict_get_def map_of_SomeD)

lemma dict_mem_get: "dict_wf d \<Longrightarrow> (k, v) \<in> set d \<Longrightarrow> dict_get d k = Some v"
  by (simp add: dict_get_def dict_wf_def)

subsection \<open>Grouping rows by a key\<close>

text \<open>
  \<^verbatim>\<open>for row in rows: d.setdefault(key(row), []).append(row)\<close>, used by the selector and by the
  duplicate policy of the provider parser.
\<close>

definition group_by :: "('a \<Rightarrow> 'k) \<Rightarrow> 'a list \<Rightarrow> ('k, 'a list) dict" where
  "group_by key rows = foldl (\<lambda>d r. dict_append d (key r) r) [] rows"

lemma group_by_snoc: "group_by key (rows @ [r]) = dict_append (group_by key rows) (key r) r"
  by (simp add: group_by_def)

lemma dict_wf_group_by: "dict_wf (group_by key rows)"
  by (induction rows rule: rev_induct)
    (simp_all add: group_by_snoc dict_wf_append, simp add: group_by_def dict_wf_def)

lemma dict_get_group_by:
  "dict_get (group_by key rows) k =
     (if k \<in> key ` set rows then Some (filter (\<lambda>r. key r = k) rows) else None)"
proof (induction rows rule: rev_induct)
  case Nil
  show ?case by (simp add: group_by_def dict_get_def)
next
  case (snoc r rows)
  have "filter (\<lambda>r. key r = k) rows = []" if "k \<notin> key ` set rows"
    using that by (auto simp: filter_empty_conv)
  with snoc show ?case
    by (auto simp: group_by_snoc dict_get_append)
qed

lemma group_by_entry:
  assumes "(k, vs) \<in> set (group_by key rows)"
  shows "vs = filter (\<lambda>r. key r = k) rows" and "vs \<noteq> []" and "k \<in> key ` set rows"
proof -
  have "dict_get (group_by key rows) k = Some vs"
    using assms by (rule dict_mem_get [OF dict_wf_group_by])
  then show "vs = filter (\<lambda>r. key r = k) rows" and "k \<in> key ` set rows"
    by (auto simp: dict_get_group_by split: if_splits)
  then show "vs \<noteq> []"
    by (auto simp: filter_empty_conv)
qed

lemma group_by_has_entry:
  "r \<in> set rows \<Longrightarrow> (key r, filter (\<lambda>s. key s = key r) rows) \<in> set (group_by key rows)"
  by (rule dict_get_mem) (simp add: dict_get_group_by)

lemma group_by_eq_Nil [simp]: "group_by key rows = [] \<longleftrightarrow> rows = []"
proof
  assume "group_by key rows = []"
  then show "rows = []"
    using group_by_has_entry [of _ rows key] by (cases rows) auto
qed (simp add: group_by_def)

subsection \<open>Sorting by a key, first maximum, slices from the end\<close>

text \<open>Two lists sorted by a key that is injective on them agree when their elements do.\<close>

lemma sort_key_unique:
  assumes "inj_on f (set xs)" and "distinct xs" and "distinct ys" and "set xs = set ys"
  shows "sort_key f xs = sort_key f ys"
proof -
  have "inj_on f (set (sort_key f xs))"
    using assms(1) by simp
  moreover have "sorted (map f (sort_key f xs))" "sorted (map f (sort_key f ys))"
    by simp_all
  moreover have "set (map f (sort_key f xs)) = set (map f (sort_key f ys))"
    using assms(4) by simp
  moreover have "distinct (map f (sort_key f xs))" "distinct (map f (sort_key f ys))"
    using assms by (simp_all add: distinct_map)
  ultimately have "map f (sort_key f xs) = map f (sort_key f ys)"
    by (blast intro: sorted_distinct_set_unique)
  then show ?thesis
    using assms(1,4) by (metis inj_on_map_eq_map set_sort Un_absorb)
qed

lemma sorted_wrt_less_key:
  assumes "inj_on f (set xs)" and "distinct xs"
  shows "sorted_wrt (\<lambda>a b. f a < f b) (sort_key f xs)"
proof -
  have "sorted (map f (sort_key f xs))" and "distinct (map f (sort_key f xs))"
    using assms by (simp_all add: distinct_map)
  then have "sorted_wrt (<) (map f (sort_key f xs))"
    by (simp add: strict_sorted_iff)
  then show ?thesis
    by (simp add: sorted_wrt_map)
qed

lemma strictly_sorted_by_unique:
  fixes f :: "'a \<Rightarrow> 'b::linorder"
  assumes "sorted_wrt (\<lambda>a b. f a < f b) xs" and "sorted_wrt (\<lambda>a b. f a < f b) ys" and "set xs = set ys"
  shows "xs = ys"
  using assms
proof (induction xs arbitrary: ys)
  case (Cons x xs)
  then obtain y ys' where ys: "ys = y # ys'" by (cases ys) auto
  have "x \<in> set ys" "y \<in> set (x # xs)"
    using Cons.prems(3) ys by auto
  then have "x = y"
    using Cons.prems(1,2) ys by (auto dest: less_asym)
  moreover have "x \<notin> set xs" "y \<notin> set ys'"
    using Cons.prems(1,2) ys by auto
  then have "set xs = set ys'"
    using Cons.prems(3) ys \<open>x = y\<close> by auto
  ultimately show ?case
    using Cons ys by simp
qed simp

text \<open>\<^verbatim>\<open>max(xs, key=f)\<close>: the first element whose key is maximal; \<open>None\<close> where Python raises.\<close>

definition max_by :: "('a \<Rightarrow> 'k::linorder) \<Rightarrow> 'a list \<Rightarrow> 'a option" where
  "max_by f xs =
     (case xs of [] \<Rightarrow> None
      | y # ys \<Rightarrow> Some (foldl (\<lambda>m z. if f m < f z then z else m) y ys))"

lemma max_by_Nil [simp]: "max_by f [] = None"
  by (simp add: max_by_def)

lemma max_by_eq_None [simp]: "max_by f xs = None \<longleftrightarrow> xs = []"
  by (simp add: max_by_def split: list.splits)

lemma fold_max_mem:
  "foldl (\<lambda>m z. if f m < f z then z else m) y ys \<in> insert y (set ys)"
  by (induction ys arbitrary: y) (auto split: if_splits)

lemma fold_max_ge:
  fixes f :: "'a \<Rightarrow> 'k::linorder"
  shows "z \<in> insert y (set ys) \<Longrightarrow> f z \<le> f (foldl (\<lambda>m z. if f m < f z then z else m) y ys)"
proof (induction ys arbitrary: y z)
  case (Cons w ws)
  let ?y = "if f y < f w then w else y"
  have "f y \<le> f ?y" "f w \<le> f ?y"
    by auto
  moreover have "f v \<le> f (foldl (\<lambda>m z. if f m < f z then z else m) ?y ws)"
    if "v \<in> insert ?y (set ws)" for v
    using Cons.IH that by blast
  ultimately show ?case
    using Cons.prems by (auto intro: order_trans)
qed simp

lemma max_by_mem: "max_by f xs = Some x \<Longrightarrow> x \<in> set xs"
  using fold_max_mem [of f] by (auto simp: max_by_def split: list.splits)

lemma max_by_snoc:
  "max_by f (xs @ [y]) = (case max_by f xs of None \<Rightarrow> Some y | Some m \<Rightarrow> Some (if f m < f y then y else m))"
  by (cases xs) (simp_all add: max_by_def)

lemma max_by_exists: "x \<in> set xs \<Longrightarrow> \<exists>y. max_by f xs = Some y \<and> y \<in> set xs"
  using max_by_mem [of f xs] by (cases "max_by f xs") auto

lemma max_by_ge: "max_by f xs = Some x \<Longrightarrow> y \<in> set xs \<Longrightarrow> f y \<le> f x"
  using fold_max_ge [of y _ _ f] by (auto simp: max_by_def split: list.splits)

lemma max_by_unique:
  assumes "inj_on f (set xs)" and "x \<in> set xs" and "\<And>y. y \<in> set xs \<Longrightarrow> f y \<le> f x"
  shows "max_by f xs = Some x"
proof -
  obtain m where m: "max_by f xs = Some m"
    using assms(2) by (cases "max_by f xs") auto
  have "f m = f x"
    using m assms(2,3) by (meson max_by_ge max_by_mem order_antisym)
  then show ?thesis
    using m assms(1,2) by (auto dest: max_by_mem inj_onD)
qed

text \<open>\<^verbatim>\<open>xs[-n:]\<close> for a positive \<open>n\<close>.\<close>

definition last_n :: "nat \<Rightarrow> 'a list \<Rightarrow> 'a list" where
  "last_n n xs = drop (length xs - n) xs"

lemma length_last_n [simp]: "length (last_n n xs) = min n (length xs)"
  by (simp add: last_n_def min_def)

lemma set_last_n_subset: "set (last_n n xs) \<subseteq> set xs"
  by (simp add: last_n_def set_drop_subset)

lemma last_n_all: "length xs \<le> n \<Longrightarrow> last_n n xs = xs"
  by (simp add: last_n_def)

lemma last_n_last_n: "m \<le> n \<Longrightarrow> last_n m (last_n n xs) = last_n m xs"
  by (auto simp: last_n_def intro: arg_cong [where f = "\<lambda>k. drop k xs"])

subsection \<open>Character tests and stripping\<close>

text \<open>\<^verbatim>\<open>str.isspace\<close> of one code point, and \<^verbatim>\<open>str.strip()\<close>.\<close>

definition py_isspace :: "nat \<Rightarrow> bool" where
  "py_isspace c \<longleftrightarrow> (9 \<le> c \<and> c \<le> 13) \<or> (28 \<le> c \<and> c \<le> 32) \<or> c = 133 \<or> c = 160 \<or> c = 5760
     \<or> (8192 \<le> c \<and> c \<le> 8202) \<or> c = 8232 \<or> c = 8233 \<or> c = 8239 \<or> c = 8287 \<or> c = 12288"

definition py_strip :: "pystr \<Rightarrow> pystr" where
  "py_strip s = rev (dropWhile py_isspace (rev (dropWhile py_isspace s)))"

lemma set_py_strip: "set (py_strip s) \<subseteq> set s"
  by (auto simp: py_strip_def dest!: set_dropWhileD)

lemma dropWhile_idem_iff: "dropWhile P s = s \<longleftrightarrow> (s = [] \<or> \<not> P (hd s))"
  by (cases s) (auto dest: arg_cong [where f = length] simp: length_dropWhile_le Suc_n_not_le_n,
      metis length_dropWhile_le impossible_Cons)

text \<open>
  A string is unchanged by stripping exactly when it is empty or neither starts nor ends with
  white space.
\<close>

lemma py_strip_eq_iff:
  "py_strip s = s \<longleftrightarrow> s = [] \<or> (\<not> py_isspace (hd s) \<and> \<not> py_isspace (last s))"
proof
  assume eq: "py_strip s = s"
  let ?d = "dropWhile py_isspace"
  have "length s \<le> length (?d (rev (?d s)))" "length (?d (rev (?d s))) \<le> length (?d s)"
    using eq length_dropWhile_le [of py_isspace "rev (?d s)"]
    by (simp_all add: py_strip_def) (metis eq length_rev order_refl py_strip_def)
  then have "?d s = s"
    by (metis length_dropWhile_le le_antisym length_takeWhile_le takeWhile_dropWhile_id
        append_self_conv2 length_0_conv add_le_same_cancel2 length_append le_zero_eq order_trans)
  moreover from this eq have "?d (rev s) = rev s"
    by (simp add: py_strip_def) (metis rev_swap)
  ultimately show "s = [] \<or> (\<not> py_isspace (hd s) \<and> \<not> py_isspace (last s))"
    by (auto simp: dropWhile_idem_iff hd_rev)
next
  assume "s = [] \<or> (\<not> py_isspace (hd s) \<and> \<not> py_isspace (last s))"
  then show "py_strip s = s"
    by (auto simp: py_strip_def dropWhile_idem_iff [THEN iffD2] hd_rev)
qed

end
