(* ===== verification/Py_Decimal.thy ===== *)
theory Py_Decimal
  imports Prelude
begin

text \<open>
  Python's \<^verbatim>\<open>decimal.Decimal\<close> under the default context (28 significant digits, ROUND_HALF_EVEN),
  which every amount, price and quantity of the program goes through. A finite decimal is a sign,
  a coefficient and an exponent, so that the sign of zero and trailing zeros are kept. Each
  operation computes the exact result and then rounds it with \<open>dec_fix\<close>; the exponent range
  (\<open>\<plusminus>999999\<close>) is left unbounded. The lemmas give the rational value of each operation: exact when
  the result fits 28 digits, sign preserving, nearest-representable and monotone otherwise.
\<close>

datatype decimal = Dec (dsign: bool) (dcoeff: nat) (dexp: int)

definition PREC :: nat where
  "PREC = 28"

lemma PREC_pos [simp]: "0 < PREC" "Suc 0 \<le> PREC"
  by (simp_all add: PREC_def)

fun ndigits :: "nat \<Rightarrow> nat" where
  "ndigits n = (if n < 10 then 1 else Suc (ndigits (n div 10)))"

declare ndigits.simps [simp del]

definition half_even :: "nat \<Rightarrow> nat \<Rightarrow> nat" where
  "half_even c d =
     (let q = c div d; r = c mod d in if d < 2 * r \<or> (2 * r = d \<and> odd q) then q + 1 else q)"

definition dec_fix :: "decimal \<Rightarrow> decimal" where
  "dec_fix x =
     (case x of Dec s c e \<Rightarrow>
        (if ndigits c \<le> PREC then Dec s c e
         else let k = ndigits c - PREC; q = half_even c (10 ^ k) in
           if PREC < ndigits q then Dec s (q div 10) (e + int k + 1) else Dec s q (e + int k)))"

definition signed :: "bool \<Rightarrow> nat \<Rightarrow> int" where
  "signed s c = (if s then - int c else int c)"

definition scaled :: "int \<Rightarrow> decimal \<Rightarrow> int" where
  "scaled m x = signed (dsign x) (dcoeff x) * 10 ^ nat (dexp x - m)"

definition dec_add :: "decimal \<Rightarrow> decimal \<Rightarrow> decimal" where
  "dec_add x y =
     (let m = min (dexp x) (dexp y); z = scaled m x + scaled m y in
      dec_fix (Dec (if z = 0 then dsign x \<and> dsign y else z < 0) (nat \<bar>z\<bar>) m))"

definition dec_copy_negate :: "decimal \<Rightarrow> decimal" where
  "dec_copy_negate x = Dec (\<not> dsign x) (dcoeff x) (dexp x)"

definition dec_sub :: "decimal \<Rightarrow> decimal \<Rightarrow> decimal" where
  "dec_sub x y = dec_add x (dec_copy_negate y)"

definition dec_minus :: "decimal \<Rightarrow> decimal" where
  "dec_minus x = dec_fix (Dec (dcoeff x \<noteq> 0 \<and> \<not> dsign x) (dcoeff x) (dexp x))"

definition dec_abs :: "decimal \<Rightarrow> decimal" where
  "dec_abs x = dec_fix (Dec False (dcoeff x) (dexp x))"

definition dec_mul :: "decimal \<Rightarrow> decimal \<Rightarrow> decimal" where
  "dec_mul x y = dec_fix (Dec (dsign x \<noteq> dsign y) (dcoeff x * dcoeff y) (dexp x + dexp y))"

text \<open>Strip trailing zeros while the exponent is below the ideal one, as division does.\<close>

fun strip_zeros :: "nat \<Rightarrow> nat \<Rightarrow> nat \<times> nat" where
  "strip_zeros 0 c = (0, c)"
| "strip_zeros (Suc n) c =
     (if c mod 10 = 0 then (let (k, c') = strip_zeros n (c div 10) in (Suc k, c')) else (0, c))"

definition div_coeff :: "nat \<Rightarrow> nat \<Rightarrow> int \<Rightarrow> nat \<times> nat" where
  "div_coeff a b shift =
     (let n = a * 10 ^ nat shift; d = b * 10 ^ nat (- shift); q = n div d in
      if n mod d \<noteq> 0 then (0, if q mod 5 = 0 then q + 1 else q) else strip_zeros (nat shift) q)"

text \<open>
  True division. \<open>None\<close> is Python's \<^verbatim>\<open>DivisionByZero\<close> or \<^verbatim>\<open>InvalidOperation\<close>. The quotient has at
  least 29 digits; an inexact one is kept off the rounding ties by a sticky digit, an exact one
  is brought as close as possible to the ideal exponent.
\<close>

definition dec_div :: "decimal \<Rightarrow> decimal \<Rightarrow> decimal option" where
  "dec_div x y =
     (if dcoeff y = 0 then None
      else if dcoeff x = 0 then Some (dec_fix (Dec (dsign x \<noteq> dsign y) 0 (dexp x - dexp y)))
      else let shift = int (ndigits (dcoeff y)) - int (ndigits (dcoeff x)) + int PREC + 1;
               (k, c) = div_coeff (dcoeff x) (dcoeff y) shift in
        Some (dec_fix (Dec (dsign x \<noteq> dsign y) c (dexp x - dexp y - shift + int k))))"

definition dec_lt :: "decimal \<Rightarrow> decimal \<Rightarrow> bool" where
  "dec_lt x y = (let m = min (dexp x) (dexp y) in scaled m x < scaled m y)"

definition dec_le :: "decimal \<Rightarrow> decimal \<Rightarrow> bool" where
  "dec_le x y = (let m = min (dexp x) (dexp y) in scaled m x \<le> scaled m y)"

definition dec_eq :: "decimal \<Rightarrow> decimal \<Rightarrow> bool" where
  "dec_eq x y = (let m = min (dexp x) (dexp y) in scaled m x = scaled m y)"

definition dec_of_int :: "int \<Rightarrow> decimal" where
  "dec_of_int i = Dec (i < 0) (nat \<bar>i\<bar>) 0"

abbreviation dec_zero :: decimal where
  "dec_zero \<equiv> Dec False 0 0"

abbreviation dec_one :: decimal where
  "dec_one \<equiv> Dec False 1 0"

definition dec_is_zero :: "decimal \<Rightarrow> bool" where
  "dec_is_zero x = (dcoeff x = 0)"

text \<open>\<^verbatim>\<open>sum(xs, start)\<close>; a start of \<^verbatim>\<open>0\<close> is coerced to \<^verbatim>\<open>Decimal(0)\<close> by the first addition.\<close>

definition dec_sum :: "decimal \<Rightarrow> decimal list \<Rightarrow> decimal" where
  "dec_sum start xs = foldl dec_add start xs"

subsection \<open>Exact values\<close>

definition val :: "decimal \<Rightarrow> rat" where
  "val x = of_int (signed (dsign x) (dcoeff x)) * 10 powi dexp x"

lemma signed_simps [simp]: "signed s 0 = 0" "signed False c = int c" "signed True c = - int c"
  by (simp_all add: signed_def)

lemma signed_eq_0 [simp]: "signed s c = 0 \<longleftrightarrow> c = 0"
  by (simp add: signed_def)

lemma signed_of_int: "signed (z < 0) (nat \<bar>z\<bar>) = z"
  by (simp add: signed_def)

lemma val_zero [simp]: "val (Dec s 0 e) = 0"
  by (simp add: val_def)

lemma val_of_int [simp, val_simps]: "val (dec_of_int i) = of_int i"
  by (simp add: val_def dec_of_int_def signed_def)

lemma val_one [simp]: "val dec_one = 1" "val (Dec False (Suc 0) 0) = 1"
  by (simp_all add: val_def)

lemma powi_pos [simp]: "(0::rat) < 10 powi e" "\<not> (10::rat) powi e \<le> 0" "(10::rat) powi e \<noteq> 0"
  by (simp_all add: zero_less_power_int not_le)

lemma powi_split: "m \<le> e \<Longrightarrow> (10::rat) powi e = 10 ^ nat (e - m) * 10 powi m"
  by (subst power_int_of_nat [symmetric]) (simp add: power_int_add [symmetric])

lemma val_scaled: "m \<le> dexp x \<Longrightarrow> val x = of_int (scaled m x) * 10 powi m"
  using powi_split [of m "dexp x"] by (simp add: val_def scaled_def)

lemma scaled_less_iff:
  "m \<le> dexp x \<Longrightarrow> m \<le> dexp y \<Longrightarrow> scaled m x < scaled m y \<longleftrightarrow> val x < val y"
  using powi_pos [of m] by (simp add: val_scaled [of m] mult_less_cancel_right_pos)

lemma dec_lt_val [simp, val_simps]: "dec_lt x y \<longleftrightarrow> val x < val y"
  by (simp add: dec_lt_def Let_def scaled_less_iff)

lemma dec_le_val [simp, val_simps]: "dec_le x y \<longleftrightarrow> val x \<le> val y"
  using scaled_less_iff [of "min (dexp x) (dexp y)" y x] by (simp add: dec_le_def Let_def not_less [symmetric])

lemma dec_eq_val [simp, val_simps]: "dec_eq x y \<longleftrightarrow> val x = val y"
  using dec_le_val [of x y] dec_le_val [of y x]
  unfolding dec_eq_def dec_le_def Let_def min.commute [of "dexp y"] by linarith

lemma dec_is_zero_val [simp, val_simps]: "dec_is_zero x \<longleftrightarrow> val x = 0"
  using powi_pos [of "dexp x"] by (simp add: dec_is_zero_def val_def)

subsection \<open>Digit counts\<close>

lemma ndigits_bounds: "(if n = 0 then 0 else 10 ^ (ndigits n - 1)) \<le> n \<and> n < 10 ^ ndigits n"
proof (induction n rule: ndigits.induct)
  case (1 n)
  show ?case
  proof (cases "n < 10")
    case True
    then show ?thesis by (auto simp: ndigits.simps [of n])
  next
    case False
    with 1 have IH: "10 ^ (ndigits (n div 10) - 1) \<le> n div 10" "n div 10 < 10 ^ ndigits (n div 10)"
      by (auto split: if_splits)
    have pos: "0 < ndigits (n div 10)"
      by (subst ndigits.simps) simp
    from IH(1) have "10 * 10 ^ (ndigits (n div 10) - 1) \<le> n"
      by linarith
    then have "10 ^ ndigits (n div 10) \<le> n"
      using pos by (metis power_eq_if not_less0 gr0_conv_Suc)
    moreover from IH(2) have "n < 10 * 10 ^ ndigits (n div 10)"
      by linarith
    ultimately show ?thesis
      using False by (simp add: ndigits.simps [of n])
  qed
qed

lemma ndigits_pos [simp]: "0 < ndigits n"
  by (subst ndigits.simps) simp

lemma ndigits_0 [simp]: "ndigits 0 = 1"
  by (subst ndigits.simps) simp

lemma less_ndigits: "n < 10 ^ ndigits n"
  using ndigits_bounds by blast

lemma ndigits_le: "0 < n \<Longrightarrow> 10 ^ (ndigits n - 1) \<le> n"
  using ndigits_bounds [of n] by simp

lemma ndigits_le_iff: "0 < k \<Longrightarrow> ndigits n \<le> k \<longleftrightarrow> n < 10 ^ k"
proof
  assume "ndigits n \<le> k"
  then have "(10::nat) ^ ndigits n \<le> 10 ^ k"
    by (simp add: power_increasing)
  then show "n < 10 ^ k"
    using less_ndigits [of n] by linarith
next
  assume k: "0 < k" and n: "n < 10 ^ k"
  show "ndigits n \<le> k"
  proof (cases "n = 0")
    case True
    then show ?thesis using k by (simp add: ndigits.simps)
  next
    case False
    then have "(10::nat) ^ (ndigits n - 1) < 10 ^ k"
      using ndigits_le [of n] n by linarith
    then have "ndigits n - 1 < k"
      by (simp add: power_strict_increasing_iff)
    then show ?thesis by linarith
  qed
qed

text \<open>A decimal is representable when its coefficient has at most 28 digits.\<close>

definition representable :: "decimal \<Rightarrow> bool" where
  "representable x \<longleftrightarrow> ndigits (dcoeff x) \<le> PREC"

lemma representable_iff: "representable x \<longleftrightarrow> dcoeff x < 10 ^ PREC"
  by (simp add: representable_def ndigits_le_iff PREC_def)

lemma dec_fix_representable [simp]: "representable x \<Longrightarrow> dec_fix x = x"
  by (cases x) (simp add: dec_fix_def representable_def)

lemma representable_zero [simp]: "representable (Dec s 0 e)"
  by (simp add: representable_iff)

subsection \<open>Rounding\<close>

lemma half_even_bounds: "c div d \<le> half_even c d" "half_even c d \<le> c div d + 1"
  by (auto simp: half_even_def Let_def)

lemma half_even_close:
  assumes "0 < d"
  shows "2 * \<bar>int (half_even c d * d) - int c\<bar> \<le> int d"
proof -
  have c: "int c = int (c div d * d) + int (c mod d)"
    by (metis div_mult_mod_eq of_nat_add)
  have m: "int (c mod d) < int d"
    using assms by simp
  show ?thesis
    unfolding half_even_def Let_def using c m by (auto simp: algebra_simps)
qed

lemma half_even_exact: "0 < d \<Longrightarrow> half_even (c * d) d = c"
  by (simp add: half_even_def)

lemma half_even_scale: "0 < m \<Longrightarrow> half_even (c * m) (d * m) = half_even c d"
  by (simp add: half_even_def Let_def flip: mult.assoc)

lemma val_Dec: "val (Dec s c e) = of_int (signed s c) * 10 powi e"
  by (simp add: val_def)

text \<open>What rounding does to a coefficient with more than 28 digits.\<close>

lemma half_even_large:
  assumes "PREC < ndigits c"
  defines "k \<equiv> ndigits c - PREC"
  shows "10 ^ (PREC - 1) \<le> half_even c (10 ^ k)" and "half_even c (10 ^ k) \<le> 10 ^ PREC"
proof -
  have n: "ndigits c = PREC + k" and c: "0 < c"
    using assms(1) by (cases "c = 0"; simp add: k_def PREC_def)+
  have "10 ^ (PREC - 1) * 10 ^ k \<le> c"
    using ndigits_le [OF c] n PREC_pos by (simp add: flip: power_add)
  then have "10 ^ (PREC - 1) \<le> c div 10 ^ k"
    by (simp add: less_eq_div_iff_mult_less_eq)
  then show "10 ^ (PREC - 1) \<le> half_even c (10 ^ k)"
    using half_even_bounds(1) by (rule order_trans)
  have "c < 10 ^ PREC * 10 ^ k"
    using less_ndigits [of c] n by (simp add: power_add)
  then have "c div 10 ^ k < 10 ^ PREC"
    by (simp add: less_mult_imp_div_less)
  then show "half_even c (10 ^ k) \<le> 10 ^ PREC"
    using half_even_bounds(2) [of c "10 ^ k"] by linarith
qed

lemma val_dec_fix_large:
  assumes "PREC < ndigits c"
  defines "k \<equiv> ndigits c - PREC"
  shows "val (dec_fix (Dec s c e)) = of_int (signed s (half_even c (10 ^ k))) * 10 powi (e + int k)"
proof (cases "PREC < ndigits (half_even c (10 ^ k))")
  case True
  then have "\<not> half_even c (10 ^ k) < 10 ^ PREC"
    using ndigits_le_iff [of PREC "half_even c (10 ^ k)"] by (simp add: PREC_def)
  then have q: "half_even c (10 ^ k) = 10 ^ PREC"
    using half_even_large(2) [OF assms(1)] by (simp add: k_def)
  have "dec_fix (Dec s c e) = Dec s (10 ^ PREC div 10) (e + int k + 1)"
    using assms(1) True q by (simp add: dec_fix_def Let_def k_def)
  then show ?thesis
    by (simp add: val_Dec q signed_def PREC_def power_int_add)
next
  case False
  then show ?thesis
    using assms(1) by (simp add: dec_fix_def Let_def k_def val_Dec)
qed

lemma representable_dec_fix [simp]: "representable (dec_fix x)"
proof (cases x)
  case (Dec s c e)
  show ?thesis
  proof (cases "ndigits c \<le> PREC")
    case True
    then show ?thesis by (simp add: Dec dec_fix_def representable_def)
  next
    case False
    let ?q = "half_even c (10 ^ (ndigits c - PREC))"
    have "?q \<le> 10 ^ PREC"
      using False by (intro half_even_large(2)) simp
    then have "?q div 10 < 10 ^ PREC"
      by (simp add: PREC_def)
    then have "ndigits (?q div 10) \<le> PREC"
      by (simp add: ndigits_le_iff PREC_def)
    then show ?thesis
      using False by (simp add: Dec dec_fix_def Let_def representable_def)
  qed
qed

lemma dsign_dec_fix [simp]: "dsign (dec_fix x) = dsign x"
  by (cases x) (simp add: dec_fix_def Let_def)

lemma dec_fix_grid_le:
  assumes "PREC < ndigits c"
  shows "10 ^ (PREC - 1) * 10 ^ (ndigits c - PREC) \<le> int c"
proof -
  have "0 < c"
    using assms by (cases "c = 0"; simp add: PREC_def)
  then have "10 ^ (ndigits c - 1) \<le> c"
    by (rule ndigits_le)
  also have "(10::nat) ^ (ndigits c - 1) = 10 ^ (PREC - 1) * 10 ^ (ndigits c - PREC)"
    using assms PREC_pos by (simp flip: power_add)
  finally have "int (10 ^ (PREC - 1) * 10 ^ (ndigits c - PREC)) \<le> int c"
    by (simp only: of_nat_le_iff)
  then show ?thesis
    by (simp only: of_nat_mult of_nat_power of_nat_numeral)
qed

lemma half_even_nearest:
  assumes "0 < d"
  shows "\<bar>int (half_even c d * d) - int c\<bar> \<le> \<bar>N * int d - int c\<bar>"
proof (cases "N = int (half_even c d)")
  case False
  then have "1 \<le> \<bar>N - int (half_even c d)\<bar>"
    by linarith
  then have "int d \<le> \<bar>N - int (half_even c d)\<bar> * int d"
    by (simp add: mult_le_cancel_right1)
  also have "\<dots> = \<bar>N * int d - int (half_even c d * d)\<bar>"
    using abs_mult [of "N - int (half_even c d)" "int d"] by (simp add: left_diff_distrib)
  also have "\<dots> \<le> \<bar>N * int d - int c\<bar> + \<bar>int (half_even c d * d) - int c\<bar>"
    using abs_triangle_ineq4 [of "N * int d - int c" "int (half_even c d * d) - int c"] by simp
  finally have "int d \<le> \<bar>N * int d - int c\<bar> + \<bar>int (half_even c d * d) - int c\<bar>" .
  moreover have "z \<le> n" if "d \<le> n + z" "2 * z \<le> d" for d n z :: int
    using that by linarith
  ultimately show ?thesis
    using half_even_close [OF assms, of c] by blast
qed simp

text \<open>The rounded value is a nearest one among all decimals of at most 28 digits.\<close>

lemma half_even_nearest_signed:
  "0 < d \<Longrightarrow> \<bar>signed s (half_even c d) * int d - signed s c\<bar> \<le> \<bar>N * int d - signed s c\<bar>"
  using half_even_nearest [of d c N] half_even_nearest [of d c "- N"]
  by (cases s) (simp_all add: signed_def abs_minus_commute algebra_simps)

lemma val_dec_fix_diff:
  assumes "PREC < ndigits c"
  defines "k \<equiv> ndigits c - PREC"
  shows "val (dec_fix (Dec s c e)) - val (Dec s c e) =
    of_int (signed s (half_even c (10 ^ k)) * 10 ^ k - signed s c) * 10 powi e"
  unfolding k_def val_dec_fix_large [OF assms(1)]
  by (simp add: val_Dec power_int_add algebra_simps)

lemma abs_val: "\<bar>val x\<bar> = of_nat (dcoeff x) * 10 powi dexp x"
  using powi_pos [of "dexp x"] by (simp add: val_def abs_mult signed_def)

lemma abs_val_representable:
  assumes "representable r"
  shows "\<bar>val r\<bar> \<le> 10 ^ PREC * 10 powi dexp r"
proof -
  have "(of_nat (dcoeff r) :: rat) \<le> of_nat (10 ^ PREC)"
    using assms unfolding representable_iff of_nat_le_iff by (rule less_imp_le)
  then show ?thesis
    unfolding abs_val using powi_pos [of "dexp r"] by (intro mult_right_mono) simp_all
qed

lemma dec_fix_nearest:
  assumes "representable r"
  shows "\<bar>val (dec_fix x) - val x\<bar> \<le> \<bar>val r - val x\<bar>"
proof (cases x)
  case (Dec s c e)
  show ?thesis
  proof (cases "ndigits c \<le> PREC")
    case True
    then show ?thesis by (simp add: Dec representable_def)
  next
    case False
    define k where "k = ndigits c - PREC"
    let ?q = "half_even c (10 ^ k)"
    have lhs: "\<bar>val (dec_fix x) - val x\<bar> = of_int \<bar>signed s ?q * 10 ^ k - signed s c\<bar> * 10 powi e"
      using False powi_pos [of e] by (simp add: Dec val_dec_fix_diff k_def abs_mult)
    have near: "\<bar>signed s ?q * 10 ^ k - signed s c\<bar> \<le> \<bar>N * 10 ^ k - signed s c\<bar>" for N
      using half_even_nearest_signed [of "10 ^ k" s c N] by simp
    show ?thesis
    proof (cases "e + int k \<le> dexp r")
      case True
      have "val r = of_int (scaled (e + int k) r * 10 ^ k) * 10 powi e"
        using val_scaled [OF True] by (simp add: power_int_add)
      then have "val r - val x = of_int (scaled (e + int k) r * 10 ^ k - signed s c) * 10 powi e"
        by (simp add: Dec val_Dec algebra_simps)
      then have "\<bar>val r - val x\<bar> = of_int \<bar>scaled (e + int k) r * 10 ^ k - signed s c\<bar> * 10 powi e"
        using powi_pos [of e] by (simp add: abs_mult)
      then show ?thesis
        unfolding lhs using near powi_pos [of e] by (simp add: mult_right_mono del: of_int_abs)
    next
      case er: False
      have "\<bar>val r\<bar> \<le> 10 ^ PREC * 10 powi dexp r"
        using assms by (rule abs_val_representable)
      also have "\<dots> \<le> 10 ^ PREC * 10 powi (e + int k - 1)"
        using er by (simp add: power_int_increasing)
      also have "\<dots> = of_int (10 ^ (PREC - 1) * 10 ^ k) * 10 powi e"
        by (simp add: power_int_add power_int_diff PREC_def)
      finally have r: "\<bar>val r\<bar> \<le> of_int (10 ^ (PREC - 1) * 10 ^ k) * 10 powi e" .
      have "\<bar>signed s ?q * 10 ^ k - signed s c\<bar> \<le> int c - 10 ^ (PREC - 1) * 10 ^ k"
        using near [of "signed s (10 ^ (PREC - 1))"] dec_fix_grid_le [of c] False
        by (simp add: signed_def k_def split: if_splits)
      then have "of_int \<bar>signed s ?q * 10 ^ k - signed s c\<bar> * 10 powi e
          \<le> (of_int (int c - 10 ^ (PREC - 1) * 10 ^ k) :: rat) * 10 powi e"
        using powi_pos [of e] by (intro mult_right_mono) (simp_all only: of_int_le_iff less_imp_le)
      also have "\<dots> = \<bar>val x\<bar> - of_int (10 ^ (PREC - 1) * 10 ^ k) * 10 powi e"
        using powi_pos [of e] by (simp add: Dec val_Dec abs_mult signed_def left_diff_distrib)
      finally show ?thesis
        unfolding lhs using r by linarith
    qed
  qed
qed

text \<open>The rounded value depends on the exact value only, and rounding is monotone.\<close>

lemma ndigits_scale: "0 < c \<Longrightarrow> ndigits (c * 10 ^ j) = ndigits c + j"
proof (induction j)
  case (Suc j)
  have "ndigits (c * 10 ^ Suc j) = Suc (ndigits (c * 10 ^ Suc j div 10))"
    using Suc.prems by (subst ndigits.simps) (auto simp: not_less)
  also have "c * 10 ^ Suc j div 10 = c * 10 ^ j"
    by simp
  finally show ?case
    using Suc by simp
qed simp

lemma val_dec_fix_scale: "val (dec_fix (Dec s (c * 10 ^ j) (e - int j))) = val (dec_fix (Dec s c e))"
proof (cases "c = 0")
  case False
  then have n: "ndigits (c * 10 ^ j) = ndigits c + j"
    by (simp add: ndigits_scale)
  consider "ndigits c + j \<le> PREC" | "ndigits c \<le> PREC" "PREC < ndigits c + j" | "PREC < ndigits c"
    by linarith
  then show ?thesis
  proof cases
    case 1
    then show ?thesis
      using n by (simp add: representable_def val_Dec signed_def power_int_diff)
  next
    case 2
    let ?k = "ndigits c + j - PREC"
    have "(10::nat) ^ j = 10 ^ (j - ?k) * 10 ^ ?k" and k: "?k \<le> j"
      using 2 by (simp_all flip: power_add)
    then have "half_even (c * 10 ^ j) (10 ^ ?k) = c * 10 ^ (j - ?k)"
      by (metis half_even_exact mult.assoc zero_less_power zero_less_numeral)
    then have "val (dec_fix (Dec s (c * 10 ^ j) (e - int j))) =
        of_int (signed s c) * (10 ^ (j - ?k) * 10 powi (e - int j + int ?k))"
      using n 2 by (subst val_dec_fix_large) (simp_all add: signed_def)
    also have "10 ^ (j - ?k) * 10 powi (e - int j + int ?k) = (10 powi e :: rat)"
      using k by (simp add: power_int_add [symmetric] of_nat_diff flip: power_int_of_nat)
    finally show ?thesis
      using 2(1) by (simp add: representable_def val_Dec)
  next
    case 3
    then have "ndigits c + j - PREC = (ndigits c - PREC) + j"
      by simp
    then have "half_even (c * 10 ^ j) (10 ^ (ndigits c + j - PREC)) = half_even c (10 ^ (ndigits c - PREC))"
      by (simp add: power_add half_even_scale)
    then show ?thesis
      using 3 n by (simp add: val_dec_fix_large)
  qed
qed simp

lemma val_dec_fix_cong:
  assumes "val x = val y"
  shows "val (dec_fix x) = val (dec_fix y)"
proof -
  define m where "m = min (dexp x) (dexp y)"
  have canon: "val (dec_fix z) = val (dec_fix (Dec (scaled m z < 0) (nat \<bar>scaled m z\<bar>) m))"
    if m: "m \<le> dexp z" for z
  proof (cases "dcoeff z = 0")
    case True
    then show ?thesis
      by (cases z) (simp add: scaled_def)
  next
    case False
    then have "nat \<bar>scaled m z\<bar> = dcoeff z * 10 ^ nat (dexp z - m)" "scaled m z < 0 \<longleftrightarrow> dsign z"
      by (auto simp: scaled_def signed_def abs_mult nat_mult_distrib nat_power_eq mult_less_0_iff)
    then show ?thesis
      using val_dec_fix_scale [of "dsign z" "dcoeff z" "nat (dexp z - m)" "dexp z"] m by (cases z) simp
  qed
  have "scaled m x = scaled m y"
    using assms val_scaled [of m x] val_scaled [of m y] powi_pos [of m] by (simp add: m_def)
  then show ?thesis
    using canon [of x] canon [of y] by (simp add: m_def)
qed

lemma nearest_mono:
  fixes a b x y :: rat
  assumes "x < y" and "\<bar>a - x\<bar> \<le> \<bar>b - x\<bar>" and "\<bar>b - y\<bar> \<le> \<bar>a - y\<bar>"
  shows "a \<le> b"
proof (rule ccontr)
  assume "\<not> a \<le> b"
  then have "0 < a - b" by simp
  moreover have "(a - b) * (a + b - 2 * x) \<le> 0" "(b - a) * (a + b - 2 * y) \<le> 0"
    using assms(2,3) by (simp_all add: abs_le_square_iff power2_eq_square algebra_simps)
  ultimately have "a + b - 2 * x \<le> 0" "0 \<le> a + b - 2 * y"
    by (simp_all add: mult_le_0_iff)
  with assms(1) show False by linarith
qed

lemma dec_fix_mono:
  assumes "val x \<le> val y"
  shows "val (dec_fix x) \<le> val (dec_fix y)"
proof (cases "val x = val y")
  case True
  then have "val (dec_fix x) = val (dec_fix y)"
    by (rule val_dec_fix_cong)
  then show ?thesis by simp
next
  case False
  with assms have "val x < val y" by simp
  moreover have "\<bar>val (dec_fix x) - val x\<bar> \<le> \<bar>val (dec_fix y) - val x\<bar>"
    and "\<bar>val (dec_fix y) - val y\<bar> \<le> \<bar>val (dec_fix x) - val y\<bar>"
    by (rule dec_fix_nearest, simp)+
  ultimately show ?thesis
    by (rule nearest_mono)
qed

lemma dec_fix_nonneg [simp]: "0 \<le> val x \<Longrightarrow> 0 \<le> val (dec_fix x)"
  using dec_fix_mono [of dec_zero x] by simp

lemma dec_fix_nonpos [simp]: "val x \<le> 0 \<Longrightarrow> val (dec_fix x) \<le> 0"
  using dec_fix_mono [of x dec_zero] by simp

lemma dec_fix_error: "2 * 10 ^ (PREC - 1) * \<bar>val (dec_fix x) - val x\<bar> \<le> \<bar>val x\<bar>"
proof (cases x)
  case (Dec s c e)
  show ?thesis
  proof (cases "ndigits c \<le> PREC")
    case True
    then show ?thesis by (simp add: Dec representable_def)
  next
    case False
    define k where "k = ndigits c - PREC"
    let ?d = "\<bar>signed s (half_even c (10 ^ k)) * 10 ^ k - signed s c\<bar>"
    have "2 * ?d \<le> 10 ^ k"
      using half_even_close [of "10 ^ k" c] by (cases s) (simp_all add: signed_def abs_minus_commute)
    then have "10 ^ (PREC - 1) * (2 * ?d) \<le> 10 ^ (PREC - 1) * 10 ^ k"
      by (rule mult_left_mono) simp
    also have "\<dots> \<le> int c"
      using dec_fix_grid_le [of c] False by (simp add: k_def)
    finally have "of_int (10 ^ (PREC - 1) * (2 * ?d)) * 10 powi e \<le> (of_int (int c) :: rat) * 10 powi e"
      using powi_pos [of e] by (intro mult_right_mono) (simp_all only: of_int_le_iff less_imp_le)
    moreover have "\<bar>val (dec_fix x) - val x\<bar> = of_int ?d * 10 powi e"
      using False powi_pos [of e] by (simp add: Dec val_dec_fix_diff k_def abs_mult)
    ultimately show ?thesis
      by (simp add: Dec abs_val mult_ac)
  qed
qed

subsection \<open>Rounding as a function on rationals, and the value of each operation\<close>

definition isdec :: "rat \<Rightarrow> bool" where
  "isdec q \<longleftrightarrow> (\<exists>x. val x = q)"

definition rnd :: "rat \<Rightarrow> rat" where
  "rnd q = val (dec_fix (SOME x. val x = q))"

lemma isdec_val [simp]: "isdec (val x)"
  by (auto simp: isdec_def)

lemma rnd_val: "rnd (val x) = val (dec_fix x)"
  unfolding rnd_def by (rule val_dec_fix_cong, rule someI) simp

lemma rnd_representable [simp]: "representable x \<Longrightarrow> rnd (val x) = val x"
  by (simp add: rnd_val)

lemma rnd_0 [simp]: "rnd 0 = 0"
  using rnd_representable [of dec_zero] by (simp del: rnd_representable)

lemma val_exact_sum:
  fixes x y :: decimal
  defines "m \<equiv> min (dexp x) (dexp y)"
  shows "val (Dec (if scaled m x + scaled m y = 0 then b else scaled m x + scaled m y < 0)
      (nat \<bar>scaled m x + scaled m y\<bar>) m) = val x + val y"
proof -
  have "val x + val y = of_int (scaled m x + scaled m y) * 10 powi m"
    using val_scaled [of m x] val_scaled [of m y] by (simp add: m_def distrib_right)
  then show ?thesis
    by (simp add: val_Dec signed_of_int)
qed

lemma val_dec_add [val_simps]: "val (dec_add x y) = rnd (val x + val y)"
  unfolding dec_add_def Let_def rnd_val [symmetric] val_exact_sum ..

lemma isdec_add [simp]: "isdec p \<Longrightarrow> isdec q \<Longrightarrow> isdec (p + q)"
  unfolding isdec_def using val_exact_sum by metis

lemma val_copy_negate [simp, val_simps]: "val (dec_copy_negate x) = - val x"
  by (simp add: dec_copy_negate_def val_def signed_def)

lemma isdec_uminus [simp]: "isdec q \<Longrightarrow> isdec (- q)"
  unfolding isdec_def using val_copy_negate by metis

lemma isdec_diff [simp]: "isdec p \<Longrightarrow> isdec q \<Longrightarrow> isdec (p - q)"
  using isdec_add [of p "- q"] by simp

lemma val_dec_sub [val_simps]: "val (dec_sub x y) = rnd (val x - val y)"
  by (simp add: dec_sub_def val_dec_add)

lemma val_dec_minus [val_simps]: "val (dec_minus x) = rnd (- val x)"
  unfolding dec_minus_def rnd_val [symmetric]
  by (rule arg_cong [where f = rnd]) (simp add: val_def signed_def)

lemma val_dec_abs [val_simps]: "val (dec_abs x) = rnd \<bar>val x\<bar>"
  unfolding dec_abs_def rnd_val [symmetric] abs_val by (simp add: val_def)

lemma val_exact_mul:
  "val (Dec (dsign x \<noteq> dsign y) (dcoeff x * dcoeff y) (dexp x + dexp y)) = val x * val y"
  by (simp add: val_def signed_def power_int_add)

lemma val_dec_mul [val_simps]: "val (dec_mul x y) = rnd (val x * val y)"
  unfolding dec_mul_def rnd_val [symmetric] val_exact_mul ..

lemma isdec_mult [simp]: "isdec p \<Longrightarrow> isdec q \<Longrightarrow> isdec (p * q)"
  unfolding isdec_def using val_exact_mul by metis

lemma isdec_rnd [simp]: "isdec (rnd q)"
  by (simp add: rnd_def)

lemma isdec_numerals [simp]: "isdec 0" "isdec 1" "isdec (numeral n)"
  using isdec_val [of dec_zero] isdec_val [of dec_one] isdec_val [of "dec_of_int (numeral n)"]
  by simp_all

lemma isdec_abs [simp]: "isdec q \<Longrightarrow> isdec \<bar>q\<bar>"
  by (auto simp: abs_if)

lemma rnd_mono: "isdec p \<Longrightarrow> isdec q \<Longrightarrow> p \<le> q \<Longrightarrow> rnd p \<le> rnd q"
  by (auto simp: isdec_def rnd_val dec_fix_mono)

lemma rnd_nonneg [simp]: "isdec q \<Longrightarrow> 0 \<le> q \<Longrightarrow> 0 \<le> rnd q"
  using rnd_mono [of 0 q] by simp

lemma rnd_nonpos [simp]: "isdec q \<Longrightarrow> q \<le> 0 \<Longrightarrow> rnd q \<le> 0"
  using rnd_mono [of q 0] by simp

lemma rnd_rnd [simp]: "rnd (rnd q) = rnd q"
  using rnd_representable [OF representable_dec_fix] by (simp only: rnd_def [of q])

lemma rnd_error: "isdec q \<Longrightarrow> 2 * 10 ^ (PREC - 1) * \<bar>rnd q - q\<bar> \<le> \<bar>q\<bar>"
  using dec_fix_error by (auto simp: isdec_def rnd_val)

lemma rnd_pos: "isdec q \<Longrightarrow> 0 < q \<Longrightarrow> 0 < rnd q"
proof (rule ccontr)
  assume "isdec q" "0 < q" "\<not> 0 < rnd q"
  then have "rnd q = 0"
    using rnd_nonneg [of q] by linarith
  then show False
    using rnd_error [of q] \<open>isdec q\<close> \<open>0 < q\<close> by (simp add: PREC_def)
qed

lemma rnd_uminus: "isdec q \<Longrightarrow> rnd (- q) = - rnd q"
proof -
  have "dec_fix (dec_copy_negate x) = dec_copy_negate (dec_fix x)" for x
    by (cases x) (simp add: dec_fix_def dec_copy_negate_def Let_def)
  then show "isdec q \<Longrightarrow> rnd (- q) = - rnd q"
    unfolding isdec_def by (metis rnd_val val_copy_negate)
qed

lemma dec_sum_simps [simp]:
  "dec_sum s [] = s" "dec_sum s (x # xs) = dec_sum (dec_add s x) xs"
  by (simp_all add: dec_sum_def)

lemma dec_sum_nonneg: "0 \<le> val s \<Longrightarrow> (\<And>x. x \<in> set xs \<Longrightarrow> 0 \<le> val x) \<Longrightarrow> 0 \<le> val (dec_sum s xs)"
  by (induction xs arbitrary: s) (simp_all add: val_dec_add)

subsection \<open>Division\<close>

lemma dec_div_None_iff: "dec_div x y = None \<longleftrightarrow> val y = 0"
  using dec_is_zero_val [of y] unfolding dec_is_zero_def
  by (auto simp: dec_div_def Let_def split: prod.splits)

lemma val_nonneg_iff: "0 \<le> val x \<longleftrightarrow> dcoeff x = 0 \<or> \<not> dsign x"
  using powi_pos [of "dexp x"] by (auto simp: val_def signed_def zero_le_mult_iff)

lemma dec_div_nonneg:
  assumes "dec_div x y = Some z" and "0 \<le> val x" and "0 \<le> val y"
  shows "0 \<le> val z"
proof (cases "dcoeff x = 0")
  case True
  then show ?thesis
    using assms by (auto simp: dec_div_def split: if_splits)
next
  case False
  then have "\<not> dsign x" "\<not> dsign y"
    using assms by (auto simp: val_nonneg_iff dec_div_def)
  then have "\<not> dsign z"
    using assms(1) False by (auto simp: dec_div_def Let_def split: if_splits prod.splits)
  then show ?thesis by (simp add: val_nonneg_iff)
qed

text \<open>The quotient before rounding: exact, or off by less than one unit of a 29-digit coefficient.\<close>

lemma strip_zeros_value: "strip_zeros n c = (k, c') \<Longrightarrow> c = c' * 10 ^ k"
proof (induction n arbitrary: c k c')
  case (Suc n)
  show ?case
  proof (cases "c mod 10 = 0")
    case True
    obtain k\<^sub>1 c\<^sub>1 where s: "strip_zeros n (c div 10) = (k\<^sub>1, c\<^sub>1)" by fastforce
    then have "c div 10 = c\<^sub>1 * 10 ^ k\<^sub>1" by (rule Suc.IH)
    then show ?thesis using True s Suc.prems by (auto simp: mult.commute)
  qed (use Suc.prems in auto)
qed simp

lemma div_coeff_close:
  assumes "div_coeff a b shift = (k, c)" and "0 < b"
  shows "\<bar>of_nat (c * 10 ^ k) - (of_nat a / of_nat b) * 10 powi shift\<bar> \<le> (1::rat)"
proof -
  define n d where "n = a * 10 ^ nat shift" and "d = b * 10 ^ nat (- shift)"
  have d: "0 < d" using assms(2) by (simp add: d_def)
  have Q: "(of_nat a / of_nat b) * 10 powi shift = (of_nat n / of_nat d :: rat)"
    by (cases "0 \<le> shift") (simp_all add: n_def d_def power_int_def field_simps)
  have "(of_nat n :: rat) = of_nat (n div d * d + n mod d)"
    by (simp only: div_mult_mod_eq)
  then have split: "(of_nat n / of_nat d :: rat) = of_nat (n div d) + of_nat (n mod d) / of_nat d"
    using d by (simp only: of_nat_add of_nat_mult add_divide_distrib) simp
  have frac: "0 \<le> (of_nat (n mod d) / of_nat d :: rat)" "(of_nat (n mod d) / of_nat d :: rat) \<le> 1"
    using d by (simp_all add: divide_le_eq_1 less_imp_le)
  show ?thesis
  proof (cases "n mod d = 0")
    case True
    then have "strip_zeros (nat shift) (n div d) = (k, c)"
      using assms(1) by (simp add: div_coeff_def Let_def n_def d_def)
    then have "n div d = c * 10 ^ k" by (rule strip_zeros_value)
    then show ?thesis unfolding Q split using True by simp
  next
    case False
    then have "k = 0" "c = n div d \<or> c = n div d + 1"
      using assms(1) by (auto simp: div_coeff_def Let_def n_def d_def split: if_splits)
    then show ?thesis unfolding Q split using frac by auto
  qed
qed

lemma quotient_large:
  assumes "0 < a" and "0 < b"
  shows "10 ^ PREC \<le> (of_nat a / of_nat b) * (10::rat) powi (int (ndigits b) - int (ndigits a) + int PREC + 1)"
proof -
  have "int (ndigits a) - 1 = int (ndigits a - 1)"
    using ndigits_pos [of a] by linarith
  then have "(10::rat) powi (int (ndigits a) - 1) = of_nat (10 ^ (ndigits a - 1))"
    by (simp only: power_int_of_nat of_nat_power of_nat_numeral)
  also have "\<dots> \<le> of_nat a"
    unfolding of_nat_le_iff by (rule ndigits_le [OF assms(1)])
  finally have "(10::rat) powi (int (ndigits a) - 1) \<le> of_nat a" .
  moreover have "(of_nat b :: rat) \<le> of_nat (10 ^ ndigits b)"
    unfolding of_nat_le_iff using less_ndigits [of b] by (rule less_imp_le)
  then have "(of_nat b :: rat) \<le> 10 powi int (ndigits b)"
    by simp
  ultimately have "(10::rat) powi (int (ndigits a) - 1) / 10 powi int (ndigits b) \<le> of_nat a / of_nat b"
    using assms by (intro frac_le) simp_all
  then have "(10::rat) powi (int (ndigits a) - 1) / 10 powi int (ndigits b)
      * 10 powi (int (ndigits b) - int (ndigits a) + int PREC + 1)
    \<le> (of_nat a / of_nat b) * 10 powi (int (ndigits b) - int (ndigits a) + int PREC + 1)"
    by (rule mult_right_mono) (simp add: less_imp_le)
  moreover have "(10::rat) powi (int (ndigits a) - 1) / 10 powi int (ndigits b)
      * 10 powi (int (ndigits b) - int (ndigits a) + int PREC + 1) = 10 ^ PREC"
    by (simp add: power_int_add power_int_diff field_simps)
  ultimately show ?thesis by simp
qed

lemma val_of_pos: "val (Dec s c e) = (if s then - 1 else 1) * (of_nat c * 10 powi e)"
  by (simp add: val_Dec signed_def)

text \<open>A quotient is within one part in \<open>10\<^sup>2\<^sup>7\<close> of the exact one.\<close>

lemma dec_div_error:
  assumes "dec_div x y = Some z"
  shows "10 ^ (PREC - 1) * \<bar>val z - val x / val y\<bar> \<le> \<bar>val x / val y\<bar>"
proof (cases "dcoeff x = 0")
  case True
  then show ?thesis
    using assms by (cases x) (auto simp: dec_div_def split: if_splits)
next
  case False
  obtain sx a ex sy b ey where x: "x = Dec sx a ex" and y: "y = Dec sy b ey"
    by (cases x, cases y)
  have a: "0 < a" and b: "0 < b"
    using False assms x y by (auto simp: dec_div_def split: if_splits)
  define shift where "shift = int (ndigits b) - int (ndigits a) + int PREC + 1"
  obtain k c where kc: "div_coeff a b shift = (k, c)" by fastforce
  define w where "w = Dec (sx \<noteq> sy) c (ex - ey - shift + int k)"
  have z: "z = dec_fix w"
    using assms a b kc by (simp add: x y dec_div_def Let_def shift_def w_def)
  define g where "g = (10::rat) powi (ex - ey - shift)"
  define Q where "Q = (of_nat a / of_nat b) * (10::rat) powi shift"
  define sgn' where "sgn' = (if sx \<noteq> sy then - 1 else (1::rat))"
  have q: "val x / val y = sgn' * (Q * g)"
    using b by (simp add: x y val_of_pos sgn'_def Q_def g_def power_int_add power_int_diff field_simps)
  have w: "val w = sgn' * (of_nat (c * 10 ^ k) * g)"
    by (simp add: w_def val_of_pos sgn'_def g_def power_int_add)
  have g: "0 < g" by (simp add: g_def)
  have Q: "10 ^ PREC \<le> Q" and C: "\<bar>of_nat (c * 10 ^ k) - Q\<bar> \<le> 1"
    using quotient_large [OF a b] div_coeff_close [OF kc b] by (simp_all add: Q_def shift_def)
  have d1: "\<bar>val w - val x / val y\<bar> = \<bar>of_nat (c * 10 ^ k) - Q\<bar> * g"
    using g by (simp add: w q sgn'_def abs_mult flip: left_diff_distrib) (simp add: abs_minus_commute)
  have d2: "\<bar>val x / val y\<bar> = Q * g"
    using g Q by (simp add: q sgn'_def abs_mult PREC_def)
  have near: "10 ^ PREC * \<bar>val w - val x / val y\<bar> \<le> \<bar>val x / val y\<bar>"
  proof -
    have "10 ^ PREC * \<bar>of_nat (c * 10 ^ k) - Q\<bar> \<le> Q"
      using Q C by (meson mult_left_le order_trans zero_le_numeral zero_le_power)
    then show ?thesis
      unfolding d1 d2 using g by (simp add: mult_right_mono less_imp_le flip: mult.assoc)
  qed
  have fixed: "2 * 10 ^ (PREC - 1) * \<bar>val z - val w\<bar> \<le> \<bar>val w\<bar>"
    unfolding z by (rule dec_fix_error)
  have "\<bar>val w\<bar> \<le> \<bar>val w - val x / val y\<bar> + \<bar>val x / val y\<bar>"
    using abs_triangle_ineq [of "val w - val x / val y" "val x / val y"] by simp
  moreover have "\<bar>val z - val x / val y\<bar> \<le> \<bar>val z - val w\<bar> + \<bar>val w - val x / val y\<bar>"
    using abs_triangle_ineq [of "val z - val w" "val w - val x / val y"] by simp
  moreover have "10 ^ (PREC - 1) * t \<le> q"
    if "10 ^ PREC * e \<le> q" "2 * 10 ^ (PREC - 1) * f \<le> v" "v \<le> e + q" "t \<le> f + e" "0 \<le> q"
    for e f q t v :: rat
    using that by (simp add: PREC_def)
  ultimately show ?thesis
    using near fixed abs_ge_zero by blast
qed

subsection \<open>Evaluation on numerals\<close>

text \<open>
  Rules with which the simplifier computes on concrete decimals: digits are counted by comparing
  with powers of ten, trailing zeros are stripped in blocks.
\<close>

function digits_from :: "nat \<Rightarrow> nat \<Rightarrow> nat \<Rightarrow> nat" where
  "digits_from n p k = (if n < p \<or> p = 0 then k else digits_from n (10 * p) (k + 1))"
  by pat_completeness auto
termination
  by (relation "measure (\<lambda>(n, p, k). n + 1 - p)") auto

declare digits_from.simps [simp del]

lemma digits_from: "0 < k \<Longrightarrow> k \<le> ndigits n \<Longrightarrow> digits_from n (10 ^ k) k = ndigits n"
proof (induction "ndigits n - k" arbitrary: k)
  case 0
  then have "n < 10 ^ k" using less_ndigits [of n] by simp
  then show ?case using 0 by (simp add: digits_from.simps)
next
  case (Suc m)
  then have "\<not> n < 10 ^ k" using ndigits_le_iff [of k n] by linarith
  then have "digits_from n (10 ^ k) k = digits_from n (10 ^ (k + 1)) (k + 1)"
    by (subst digits_from.simps) simp
  moreover have "digits_from n (10 ^ (k + 1)) (k + 1) = ndigits n"
    using Suc.hyps(2) by (intro Suc.hyps(1)) linarith+
  ultimately show ?case by (rule trans)
qed

lemma ndigits_eval: "n < 10 \<Longrightarrow> ndigits n = 1" "10 \<le> n \<Longrightarrow> ndigits n = digits_from n 100 2"
proof -
  assume n: "10 \<le> n"
  then have "2 \<le> ndigits n" using ndigits_le_iff [of 1 n] by simp
  then show "ndigits n = digits_from n 100 2" using digits_from [of 2 n] by simp
qed (subst ndigits.simps, simp)

lemma digits_from_eval:
  "n < numeral p \<Longrightarrow> digits_from n (numeral p) k = k"
  "numeral p \<le> n \<Longrightarrow> digits_from n (numeral p) k = digits_from n (10 * numeral p) (k + 1)"
  by (subst digits_from.simps, simp)+

lemma strip_zeros_block:
  "c mod 10 ^ m = 0 \<Longrightarrow> m \<le> n \<Longrightarrow>
     strip_zeros n c = (case strip_zeros (n - m) (c div 10 ^ m) of (k, c') \<Rightarrow> (k + m, c'))"
proof (induction m arbitrary: n c)
  case (Suc m)
  obtain n' where n: "n = Suc n'" using Suc.prems by (cases n) auto
  have c: "c mod 10 = 0" "c div 10 mod 10 ^ m = 0"
    using Suc.prems(1) by (auto simp: mod_eq_0_iff_dvd dvd_mult_left dvd_div_iff_mult mult.commute
        elim: dvd_trans [OF dvd_triv_left])
  then show ?case
    using Suc.IH [of "c div 10" n'] Suc.prems(2) n by (auto simp: div_mult2_eq split: prod.splits)
qed simp

lemma strip_zeros_step:
  assumes "0 < n"
  shows "strip_zeros n c =
     (if c mod 10 \<noteq> 0 then (0, c)
      else if 16 \<le> n \<and> c mod 10 ^ 16 = 0 then case strip_zeros (n - 16) (c div 10 ^ 16) of (j, c') \<Rightarrow> (j + 16, c')
      else if 4 \<le> n \<and> c mod 10 ^ 4 = 0 then case strip_zeros (n - 4) (c div 10 ^ 4) of (j, c') \<Rightarrow> (j + 4, c')
      else case strip_zeros (n - 1) (c div 10 ^ 1) of (j, c') \<Rightarrow> (j + 1, c'))"
proof -
  have "c mod 10 \<noteq> 0 \<Longrightarrow> strip_zeros n c = (0, c)"
    using assms by (cases n) simp_all
  moreover have "c mod 10 = 0 \<Longrightarrow> strip_zeros n c = (case strip_zeros (n - 1) (c div 10 ^ 1) of (j, c') \<Rightarrow> (j + 1, c'))"
    using strip_zeros_block [of c 1 n] assms by simp
  ultimately show ?thesis
    using strip_zeros_block [of c 16 n] strip_zeros_block [of c 4 n] by presburger
qed

lemmas strip_zeros_eval = strip_zeros.simps(1) strip_zeros_step [of "numeral k" for k, simplified]

lemmas dec_eval = dec_add_def dec_sub_def dec_minus_def dec_abs_def dec_mul_def dec_div_def dec_lt_def dec_le_def
  dec_eq_def dec_copy_negate_def dec_of_int_def scaled_def signed_def dec_fix_def PREC_def half_even_def div_coeff_def
  dec_sum_def ndigits_eval digits_from_eval strip_zeros_eval

end
