(* ===== verification/Serialization.thy ===== *)
theory Serialization
  imports Py_Decimal
begin

text \<open>
  Canonical byte serialization (\<^verbatim>\<open>src/bisfin/snapshots/serialization.py\<close>): timestamps, decimals and
  nested values become compact JSON with sorted keys, encoded as UTF-8. An aware timestamp is its
  instant in microseconds since 1970-01-01T00:00:00Z, a date its proleptic Gregorian ordinal.
  The lemmas show that the rendering of a decimal can be read back, that it identifies exactly the
  value rounded to 28 digits, and that the ordinal of a date round-trips through year, month, day.
\<close>

type_synonym timestamp = int
type_synonym bytes = "nat list"

datatype ser_error =
    TimestampNotAware
  | DecimalNotFinite
  | UnsupportedValue
  | UnicodeEncodeError

subsection \<open>Calendar dates (\<^verbatim>\<open>datetime\<close> of the standard library)\<close>

definition is_leap :: "int \<Rightarrow> bool" where
  "is_leap y \<longleftrightarrow> y mod 4 = 0 \<and> (y mod 100 \<noteq> 0 \<or> y mod 400 = 0)"

definition days_before_year :: "int \<Rightarrow> int" where
  "days_before_year y = (y - 1) * 365 + (y - 1) div 4 - (y - 1) div 100 + (y - 1) div 400"

definition days_before_month_table :: "int list" where
  "days_before_month_table = [0, 0, 31, 59, 90, 120, 151, 181, 212, 243, 273, 304, 334]"

definition days_before_month :: "int \<Rightarrow> int \<Rightarrow> int" where
  "days_before_month y m =
     days_before_month_table ! nat m + (if 2 < m \<and> is_leap y then 1 else 0)"

definition ymd2ord :: "int \<times> int \<times> int \<Rightarrow> int" where
  "ymd2ord ymd = (case ymd of (y, m, d) \<Rightarrow> days_before_year y + days_before_month y m + d)"

definition days_in_month :: "int \<Rightarrow> int \<Rightarrow> int" where
  "days_in_month y m =
     (if m = 2 then (if is_leap y then 29 else 28)
      else if m = 4 \<or> m = 6 \<or> m = 9 \<or> m = 11 then 30 else 31)"

text \<open>Month and day from the day of the year (counted from 0).\<close>

definition month_day :: "bool \<Rightarrow> int \<Rightarrow> int \<times> int" where
  "month_day leap n =
     (let m = (n + 50) div 32;
          before = (\<lambda>m. days_before_month_table ! nat m + (if 2 < m \<and> leap then 1 else 0)) in
      if n < before m then (m - 1, n - before (m - 1) + 1) else (m, n - before m + 1))"

definition ord2ymd :: "int \<Rightarrow> int \<times> int \<times> int" where
  "ord2ymd ord =
     (let n = ord - 1; n400 = n div 146097; n = n mod 146097;
          n100 = n div 36524; n = n mod 36524;
          n4 = n div 1461; n = n mod 1461;
          n1 = n div 365; n = n mod 365;
          year = n400 * 400 + 1 + n100 * 100 + n4 * 4 + n1 in
      if n1 = 4 \<or> n100 = 4 then (year - 1, 12, 31)
      else (year, month_day (n1 = 3 \<and> (n4 \<noteq> 24 \<or> n100 = 3)) n))"

definition EPOCH_ORDINAL :: int where
  "EPOCH_ORDINAL = 719163"

subsection \<open>Digits\<close>

fun digits :: "nat \<Rightarrow> pystr" where
  "digits n = (if n < 10 then [48 + n] else digits (n div 10) @ [48 + n mod 10])"

declare digits.simps [simp del]

text \<open>\<^verbatim>\<open>f"{n:0{w}d}"\<close> for a nonnegative number.\<close>

definition zero_pad :: "nat \<Rightarrow> nat \<Rightarrow> pystr" where
  "zero_pad w n = replicate (w - length (digits n)) 48 @ digits n"

definition str_int :: "int \<Rightarrow> pystr" where
  "str_int i = (if i < 0 then 45 # digits (nat (- i)) else digits (nat i))"

definition rstrip0 :: "pystr \<Rightarrow> pystr" where
  "rstrip0 s = rev (dropWhile (\<lambda>c. c = 48) (rev s))"

subsection \<open>Timestamps and dates\<close>

definition iso_date :: "int \<Rightarrow> pystr" where
  "iso_date ord =
     (case ord2ymd ord of (y, m, d) \<Rightarrow>
        zero_pad 4 (nat y) @ [45] @ zero_pad 2 (nat m) @ [45] @ zero_pad 2 (nat d))"

definition canonical_datetime :: "timestamp \<Rightarrow> pystr" where
  "canonical_datetime t =
     (let us = t mod 1000000; s = t div 1000000; sod = s mod 86400;
          day = iso_date (EPOCH_ORDINAL + s div 86400);
          clock = zero_pad 2 (nat (sod div 3600)) @ [58] @ zero_pad 2 (nat (sod div 60 mod 60)) @ [58]
            @ zero_pad 2 (nat (sod mod 60)) in
      if us = 0 then day @ u ''T'' @ clock @ u ''Z''
      else day @ u ''T'' @ clock @ [46] @ rstrip0 (zero_pad 6 (nat us)) @ u ''Z'')"

subsection \<open>Decimals\<close>

text \<open>Remove trailing zeros of a positive coefficient, counting them.\<close>

function strip_all :: "nat \<Rightarrow> nat \<times> nat" where
  "strip_all c =
     (if 0 < c \<and> c mod 10 = 0 then (case strip_all (c div 10) of (k, c') \<Rightarrow> (Suc k, c')) else (0, c))"
  by pat_completeness auto
termination
  by (relation "measure id") auto

declare strip_all.simps [simp del]

definition dec_normalize :: "decimal \<Rightarrow> decimal" where
  "dec_normalize x =
     (case dec_fix x of Dec s c e \<Rightarrow>
        if c = 0 then Dec s 0 0 else (case strip_all c of (k, c') \<Rightarrow> Dec s c' (e + int k)))"

definition format_f :: "decimal \<Rightarrow> pystr" where
  "format_f x =
     (case x of Dec s c e \<Rightarrow>
        (if s then [45] else []) @
        (if 0 \<le> e then digits (c * 10 ^ nat e)
         else let n = nat (- e); ds = digits c; p = replicate (n + 1 - length ds) 48 @ ds in
           take (length p - n) p @ [46] @ drop (length p - n) p))"

definition canonical_decimal :: "decimal \<Rightarrow> pystr" where
  "canonical_decimal x =
     (let r = format_f (dec_normalize x) in if r = u ''-0'' \<or> r = [] then u ''0'' else r)"

text \<open>\<^verbatim>\<open>str(Decimal)\<close>: scientific notation unless the exponent is nonpositive and small.\<close>

definition dec_str :: "decimal \<Rightarrow> pystr" where
  "dec_str x =
     (case x of Dec s c e \<Rightarrow>
        let ds = digits c; leftdigits = e + int (length ds);
            dotplace = (if e \<le> 0 \<and> -6 < leftdigits then leftdigits else 1);
            body = (if dotplace \<le> 0 then [48, 46] @ replicate (nat (- dotplace)) 48 @ ds
                    else if int (length ds) \<le> dotplace then ds @ replicate (nat dotplace - length ds) 48
                    else take (nat dotplace) ds @ [46] @ drop (nat dotplace) ds);
            ex = leftdigits - dotplace in
        (if s then [45] else []) @ body @
        (if ex = 0 then [] else [69, if ex < 0 then 45 else 43] @ digits (nat \<bar>ex\<bar>)))"

subsection \<open>Nested values\<close>

datatype pyval =
    PyNone
  | PyBool bool
  | PyInt int
  | PyStr pystr
  | PyDec decimal
  | PyNonFinite
  | PyDateTime timestamp
  | PyNaiveDateTime
  | PyDate int
  | PyList "pyval list"
  | PyDict "(pystr \<times> pyval) list"
  | PyOther

datatype json =
    JNull
  | JBool bool
  | JInt int
  | JStr pystr
  | JList "json list"
  | JObj "(pystr \<times> json) list"

fun canonicalize_json :: "pyval \<Rightarrow> (ser_error, json) result"
  and canonicalize_items :: "pyval list \<Rightarrow> (ser_error, json list) result"
  and canonicalize_fields :: "(pystr \<times> pyval) list \<Rightarrow> (ser_error, (pystr \<times> json) list) result" where
  "canonicalize_json PyNone = Inr JNull"
| "canonicalize_json (PyBool b) = Inr (JBool b)"
| "canonicalize_json (PyInt i) = Inr (JInt i)"
| "canonicalize_json (PyStr s) = Inr (JStr s)"
| "canonicalize_json (PyDec d) = Inr (JStr (canonical_decimal d))"
| "canonicalize_json PyNonFinite = Inl DecimalNotFinite"
| "canonicalize_json (PyDateTime t) = Inr (JStr (canonical_datetime t))"
| "canonicalize_json PyNaiveDateTime = Inl TimestampNotAware"
| "canonicalize_json (PyDate d) = Inr (JStr (iso_date d))"
| "canonicalize_json (PyList vs) = rbind (canonicalize_items vs) (\<lambda>js. Inr (JList js))"
| "canonicalize_json (PyDict fs) = rbind (canonicalize_fields fs) (\<lambda>js. Inr (JObj js))"
| "canonicalize_json PyOther = Inl UnsupportedValue"
| "canonicalize_items [] = Inr []"
| "canonicalize_items (v # vs) =
     rbind (canonicalize_json v) (\<lambda>j. rbind (canonicalize_items vs) (\<lambda>js. Inr (j # js)))"
| "canonicalize_fields [] = Inr []"
| "canonicalize_fields ((k, v) # fs) =
     rbind (canonicalize_json v) (\<lambda>j. rbind (canonicalize_fields fs) (\<lambda>js. Inr ((k, j) # js)))"

subsection \<open>\<^verbatim>\<open>json.dumps\<close>, compact, sorted keys, not restricted to ASCII\<close>

definition hex_digit :: "nat \<Rightarrow> nat" where
  "hex_digit d = (if d < 10 then 48 + d else 87 + d)"

definition escape_char :: "nat \<Rightarrow> pystr" where
  "escape_char c =
     (if c = 92 then [92, 92]
      else if c = 34 then [92, 34]
      else if c = 10 then [92, 110]
      else if c = 13 then [92, 114]
      else if c = 9 then [92, 116]
      else if c = 12 then [92, 102]
      else if c = 8 then [92, 98]
      else if c < 32 then [92, 117, 48, 48, hex_digit (c div 16), hex_digit (c mod 16)]
      else [c])"

definition dumps_str :: "pystr \<Rightarrow> pystr" where
  "dumps_str s = [34] @ concat (map escape_char s) @ [34]"

fun join :: "pystr \<Rightarrow> pystr list \<Rightarrow> pystr" where
  "join sep [] = []"
| "join sep [x] = x"
| "join sep (x # y # zs) = x @ sep @ join sep (y # zs)"

fun dumps :: "json \<Rightarrow> pystr" where
  "dumps JNull = u ''null''"
| "dumps (JBool b) = (if b then u ''true'' else u ''false'')"
| "dumps (JInt i) = str_int i"
| "dumps (JStr s) = dumps_str s"
| "dumps (JList js) = [91] @ join [44] (map dumps js) @ [93]"
| "dumps (JObj fs) =
     [123] @ join [44] (map (\<lambda>(k, v). dumps_str k @ [58] @ v)
       (sort_key fst (map (\<lambda>(k, v). (k, dumps v)) fs))) @ [125]"

text \<open>\<^verbatim>\<open>str.encode("utf-8")\<close>; surrogate code points are refused.\<close>

definition utf8_char :: "nat \<Rightarrow> bytes" where
  "utf8_char c =
     (if c < 128 then [c]
      else if c < 2048 then [192 + c div 64, 128 + c mod 64]
      else if c < 65536 then [224 + c div 4096, 128 + c div 64 mod 64, 128 + c mod 64]
      else [240 + c div 262144, 128 + c div 4096 mod 64, 128 + c div 64 mod 64, 128 + c mod 64])"

definition utf8_encode :: "pystr \<Rightarrow> (ser_error, bytes) result" where
  "utf8_encode s =
     (if \<exists>c \<in> set s. 55296 \<le> c \<and> c < 57344 then Inl UnicodeEncodeError
      else Inr (concat (map utf8_char s)))"

definition canonical_json_bytes :: "pyval \<Rightarrow> (ser_error, bytes) result" where
  "canonical_json_bytes v = rbind (canonicalize_json v) (\<lambda>j. utf8_encode (dumps j))"

text \<open>\<^verbatim>\<open>hashlib.sha256(canonical_json_bytes(v)).hexdigest()\<close> for a digest function \<open>sha256\<close>.\<close>

definition json_sha256 :: "(bytes \<Rightarrow> pystr) \<Rightarrow> pyval \<Rightarrow> (ser_error, pystr) result" where
  "json_sha256 sha256 v = rbind (canonical_json_bytes v) (\<lambda>b. Inr (sha256 b))"

subsection \<open>Reading a rendered decimal back\<close>

definition digits_value :: "pystr \<Rightarrow> nat" where
  "digits_value s = foldl (\<lambda>a c. 10 * a + (c - 48)) 0 s"

definition parse_unsigned :: "pystr \<Rightarrow> rat" where
  "parse_unsigned s =
     (let ip = takeWhile (\<lambda>c. c \<noteq> 46) s; fp = drop 1 (dropWhile (\<lambda>c. c \<noteq> 46) s) in
      of_nat (digits_value (ip @ fp)) / 10 ^ length fp)"

definition parse_fixed :: "pystr \<Rightarrow> rat" where
  "parse_fixed s = (if take 1 s = [45] then - parse_unsigned (drop 1 s) else parse_unsigned s)"

lemma digits_value_snoc: "digits_value (s @ [c]) = 10 * digits_value s + (c - 48)"
  by (simp add: digits_value_def)

lemma digits_value_digits [simp]: "digits_value (digits n) = n"
proof (induction n rule: digits.induct)
  case (1 n)
  show ?case
  proof (cases "n < 10")
    case True
    then show ?thesis by (subst digits.simps) (simp add: digits_value_def)
  next
    case False
    then show ?thesis using 1 by (subst digits.simps) (simp add: digits_value_snoc)
  qed
qed

lemma digits_value_zeros [simp]: "digits_value (replicate k 48 @ s) = digits_value s"
  by (induction k) (simp_all add: digits_value_def)

lemma set_digits: "set (digits n) \<subseteq> {48..57}"
proof (induction n rule: digits.induct)
  case (1 n)
  show ?case
  proof (cases "n < 10")
    case True
    then show ?thesis by (subst digits.simps) auto
  next
    case False
    then have "set (digits (n div 10)) \<subseteq> {48..57}" using 1 by simp
    moreover have "48 + n mod 10 \<le> 57" by simp
    ultimately show ?thesis using False by (subst digits.simps) (auto simp del: set_append simp: set_append)
  qed
qed

lemma digits_neq [simp]: "46 \<notin> set (digits n)" "45 \<notin> set (digits n)"
  using set_digits [of n] by auto

lemma digits_nonempty [simp]: "digits n \<noteq> []"
  by (subst digits.simps) simp

lemma span_point:
  assumes "46 \<notin> set a"
  shows "takeWhile (\<lambda>c. c \<noteq> 46) (a @ 46 # b) = a" and "dropWhile (\<lambda>c. c \<noteq> 46) (a @ 46 # b) = 46 # b"
    and "takeWhile (\<lambda>c. c \<noteq> 46) a = a" and "dropWhile (\<lambda>c. c \<noteq> 46) a = []"
  using assms by (induction a) auto

lemma parse_unsigned_plain: "46 \<notin> set s \<Longrightarrow> parse_unsigned s = of_nat (digits_value s)"
  by (simp add: parse_unsigned_def span_point)

lemma parse_unsigned_point:
  "46 \<notin> set a \<Longrightarrow> parse_unsigned (a @ [46] @ b) = of_nat (digits_value (a @ b)) / 10 ^ length b"
  by (simp add: parse_unsigned_def span_point)

lemma parse_fixed_unsigned: "45 \<notin> set s \<Longrightarrow> parse_fixed s = parse_unsigned s"
  by (cases s) (auto simp: parse_fixed_def)

text \<open>Fixed-point text of a decimal reads back as its value.\<close>

definition format_unsigned :: "nat \<Rightarrow> int \<Rightarrow> pystr" where
  "format_unsigned c e =
     (if 0 \<le> e then digits (c * 10 ^ nat e)
      else let n = nat (- e); p = replicate (n + 1 - length (digits c)) 48 @ digits c in
        take (length p - n) p @ [46] @ drop (length p - n) p)"

lemma format_f_unsigned: "format_f (Dec s c e) = (if s then [45] else []) @ format_unsigned c e"
  by (simp add: format_f_def format_unsigned_def Let_def)

lemma format_unsigned_no_minus: "45 \<notin> set (format_unsigned c e)"
  unfolding format_unsigned_def Let_def
  by (auto dest!: in_set_takeD in_set_dropD simp del: take_append drop_append split: if_splits)

lemma parse_format_unsigned: "parse_unsigned (format_unsigned c e) = of_nat c * 10 powi e"
proof (cases "0 \<le> e")
  case True
  then show ?thesis
    by (simp add: format_unsigned_def parse_unsigned_plain) (metis power_int_of_nat int_nat_eq)
next
  case False
  define n where "n = nat (- e)"
  define p where "p = replicate (n + 1 - length (digits c)) 48 @ digits c"
  have len: "n < length p" and e: "e = - int n" and p46: "46 \<notin> set p" and "digits_value p = c"
    using False by (auto simp: p_def n_def)
  have "format_unsigned c e = take (length p - n) p @ [46] @ drop (length p - n) p"
    using False by (simp only: format_unsigned_def Let_def n_def p_def if_False)
  moreover have "46 \<notin> set (take (length p - n) p)"
    using p46 by (auto dest: in_set_takeD)
  ultimately have "parse_unsigned (format_unsigned c e) = of_nat (digits_value p) / 10 ^ n"
    using len parse_unsigned_point [of "take (length p - n) p" "drop (length p - n) p"] by simp
  then show ?thesis
    using \<open>digits_value p = c\<close> by (simp add: e power_int_minus field_simps)
qed

lemma parse_format_f: "parse_fixed (format_f x) = val x"
proof (cases x)
  case (Dec s c e)
  show ?thesis
    using parse_fixed_unsigned [OF format_unsigned_no_minus, of c e]
    by (cases s) (simp_all add: Dec format_f_unsigned parse_fixed_def parse_format_unsigned val_Dec)
qed

lemma strip_all_spec:
  assumes "strip_all c = (k, c')" and "0 < c"
  shows "c = c' * 10 ^ k" and "c' mod 10 \<noteq> 0"
proof -
  have "c = c' * 10 ^ k \<and> c' mod 10 \<noteq> 0"
    using assms
  proof (induction c arbitrary: k rule: strip_all.induct)
    case (1 c)
    show ?case
    proof (cases "c mod 10 = 0")
      case True
      then obtain k' where k: "strip_all (c div 10) = (k', c')" "k = Suc k'"
        using "1.prems" by (subst (asm) strip_all.simps) (auto split: prod.splits)
      have "0 < c div 10"
        using True "1.prems"(2) by auto
      then have "c div 10 = c' * 10 ^ k' \<and> c' mod 10 \<noteq> 0"
        using "1.IH" [OF _ k(1)] True "1.prems"(2) by simp
      then show ?thesis
        using True k by (metis mult.commute mult.left_commute mod_0_imp_dvd dvd_mult_div_cancel power_Suc)
    next
      case False
      then show ?thesis
        using "1.prems" by (subst (asm) strip_all.simps) auto
    qed
  qed
  then show "c = c' * 10 ^ k" and "c' mod 10 \<noteq> 0"
    by blast+
qed

lemma val_dec_normalize: "val (dec_normalize x) = rnd (val x)"
proof (cases "dec_fix x")
  case (Dec s c e)
  obtain k c' where k: "strip_all c = (k, c')"
    by fastforce
  show ?thesis
  proof (cases "c = 0")
    case False
    then have "c = c' * 10 ^ k"
      using strip_all_spec(1) [OF k] by simp
    then show ?thesis
      using False k by (simp add: rnd_val dec_normalize_def Dec val_Dec signed_def power_int_add mult_ac)
  qed (simp add: rnd_val dec_normalize_def Dec)
qed

lemma parse_zero_text [simp]: "parse_fixed [48] = 0" "parse_fixed [45, 48] = 0"
  by (simp_all add: parse_fixed_def parse_unsigned_def digits_value_def)

lemma parse_canonical_decimal: "parse_fixed (canonical_decimal x) = rnd (val x)"
proof -
  have "format_f y \<noteq> []" for y
    by (cases y) (simp add: format_f_unsigned format_unsigned_def Let_def)
  then show ?thesis
    using parse_format_f [of "dec_normalize x"]
    by (auto simp: canonical_decimal_def Let_def val_dec_normalize)
qed

text \<open>Equal rounded values have equal text: the normal form of a nonzero decimal is unique.\<close>

lemma normal_form_unique:
  assumes "val (Dec s c e) = val (Dec s' c' e')" and "c mod 10 \<noteq> 0" and "c' mod 10 \<noteq> 0"
  shows "s = s' \<and> c = c' \<and> e = e'"
proof -
  have *: "e = e' \<and> signed s c = signed s' c'"
    if v: "val (Dec s c e) = val (Dec s' c' e')" and le: "e \<le> e'" and nz: "c mod 10 \<noteq> 0"
    for s c e s' c' e'
  proof -
    have "(of_int (signed s c) :: rat) = of_int (signed s' c' * 10 ^ nat (e' - e))"
      using v powi_split [OF le] by (simp add: val_Dec)
    then have eq: "signed s c = signed s' c' * 10 ^ nat (e' - e)"
      by (simp only: of_int_eq_iff)
    have "e = e'"
    proof (rule ccontr)
      assume "e \<noteq> e'"
      with le have "10 dvd (10::int) ^ nat (e' - e)"
        by (simp add: dvd_power)
      then have "10 dvd signed s c"
        using eq by simp
      then have "10 dvd c"
        by (cases s) (simp_all add: int_dvd_int_iff [symmetric])
      with nz show False by simp
    qed
    with eq show ?thesis by simp
  qed
  have "e = e' \<and> signed s c = signed s' c'"
  proof (cases "e \<le> e'")
    case True
    then show ?thesis using * [OF assms(1)] assms(2) by blast
  next
    case False
    then have "e' \<le> e" by simp
    then show ?thesis using * [OF assms(1) [symmetric]] assms(3) by simp
  qed
  with assms(2,3) show ?thesis
    by (auto simp: signed_def split: if_splits)
qed

lemma dec_normalize_cases:
  obtains (zero) s where "dec_normalize x = Dec s 0 0" and "rnd (val x) = 0"
  | (nonzero) s c e where "dec_normalize x = Dec s c e" and "c mod 10 \<noteq> 0" and "rnd (val x) \<noteq> 0"
proof (cases "dec_fix x")
  case (Dec s c e)
  obtain k c' where k: "strip_all c = (k, c')"
    by fastforce
  show ?thesis
  proof (cases "c = 0")
    case True
    then show ?thesis
      using zero Dec by (simp add: dec_normalize_def rnd_val)
  next
    case False
    then have "c' mod 10 \<noteq> 0"
      using strip_all_spec(2) [OF k] by simp
    moreover have "rnd (val x) \<noteq> 0"
      using False Dec by (simp add: rnd_val val_Dec)
    ultimately show ?thesis
      using nonzero False k Dec by (simp add: dec_normalize_def)
  qed
qed

lemma canonical_decimal_zero: "rnd (val x) = 0 \<Longrightarrow> canonical_decimal x = u ''0''"
  by (cases x rule: dec_normalize_cases)
    (auto simp: canonical_decimal_def Let_def format_f_def digits.simps split: if_splits)

lemma canonical_decimal_eq_iff:
  "canonical_decimal x = canonical_decimal y \<longleftrightarrow> rnd (val x) = rnd (val y)"
proof
  assume "canonical_decimal x = canonical_decimal y"
  then show "rnd (val x) = rnd (val y)"
    by (metis parse_canonical_decimal)
next
  assume eq: "rnd (val x) = rnd (val y)"
  show "canonical_decimal x = canonical_decimal y"
  proof (cases "rnd (val x) = 0")
    case True
    then show ?thesis using eq by (simp add: canonical_decimal_zero)
  next
    case False
    then obtain s c e s' c' e' where nf: "dec_normalize x = Dec s c e" "c mod 10 \<noteq> 0"
        "dec_normalize y = Dec s' c' e'" "c' mod 10 \<noteq> 0"
      using eq by (metis dec_normalize_cases)
    then have "val (Dec s c e) = val (Dec s' c' e')"
      using eq val_dec_normalize [of x] val_dec_normalize [of y] by simp
    then have "dec_normalize x = dec_normalize y"
      using normal_form_unique nf by (simp only: decimal.inject) blast
    then show ?thesis by (simp add: canonical_decimal_def)
  qed
qed

subsection \<open>When serialization fails\<close>

definition encodable :: "pystr \<Rightarrow> bool" where
  "encodable s \<longleftrightarrow> (\<forall>c \<in> set s. \<not> (55296 \<le> c \<and> c < 57344))"

fun json_encodable :: "json \<Rightarrow> bool" where
  "json_encodable (JStr s) = encodable s"
| "json_encodable (JList js) = list_all json_encodable js"
| "json_encodable (JObj fs) = list_all (\<lambda>(k, j). encodable k \<and> json_encodable j) fs"
| "json_encodable _ = True"

text \<open>Values that have a canonical form: aware timestamps, finite decimals, strings without surrogates.\<close>

fun serializable :: "pyval \<Rightarrow> bool" where
  "serializable (PyStr s) = encodable s"
| "serializable (PyList vs) = list_all serializable vs"
| "serializable (PyDict fs) = list_all (\<lambda>(k, v). encodable k \<and> serializable v) fs"
| "serializable PyNonFinite = False"
| "serializable PyNaiveDateTime = False"
| "serializable PyOther = False"
| "serializable _ = True"

lemma encodable_simps [simp]:
  "encodable []" "encodable (c # s) \<longleftrightarrow> \<not> (55296 \<le> c \<and> c < 57344) \<and> encodable s"
  "encodable (s @ t) \<longleftrightarrow> encodable s \<and> encodable t"
  "encodable (concat ss) \<longleftrightarrow> list_all encodable ss"
  by (auto simp: encodable_def list_all_iff)

lemma encodable_subset: "encodable s \<Longrightarrow> set t \<subseteq> set s \<Longrightarrow> encodable t"
  by (auto simp: encodable_def)

lemma encodable_digits [simp]: "encodable (digits n)"
proof (induction n rule: digits.induct)
  case (1 n)
  have "n mod 10 < 10" by simp
  then have "\<not> 55296 \<le> 48 + n mod 10" by linarith
  then show ?case
    using 1 by (subst digits.simps) simp
qed

lemma encodable_replicate [simp]: "encodable (replicate n 48)"
  by (simp add: encodable_def)

lemma encodable_take_drop [simp]: "encodable s \<Longrightarrow> encodable (take n s)" "encodable s \<Longrightarrow> encodable (drop n s)"
  by (erule encodable_subset, rule set_take_subset set_drop_subset)+

lemma encodable_rstrip0 [simp]: "encodable s \<Longrightarrow> encodable (rstrip0 s)"
  by (erule encodable_subset) (auto simp: rstrip0_def dest: set_dropWhileD)

lemma encodable_zero_pad [simp]: "encodable (zero_pad w n)"
  by (simp add: zero_pad_def)

lemma encodable_iso_date [simp]: "encodable (iso_date d)"
  by (simp add: iso_date_def split: prod.split)

lemma encodable_canonical_datetime [simp]: "encodable (canonical_datetime t)"
  by (simp add: canonical_datetime_def Let_def u_def)

lemma encodable_canonical_decimal [simp]: "encodable (canonical_decimal x)"
  by (simp add: canonical_decimal_def format_f_def Let_def u_def split: decimal.split)

lemma encodable_str_int [simp]: "encodable (str_int i)"
  by (simp add: str_int_def)

lemma encodable_escape: "encodable (escape_char c) \<longleftrightarrow> \<not> (55296 \<le> c \<and> c < 57344)"
proof (cases "c < 32")
  case True
  then have "c div 16 < 2" by (simp add: less_mult_imp_div_less)
  moreover have "c mod 16 < 16" by simp
  ultimately show ?thesis
    using True by (auto simp: escape_char_def hex_digit_def)
qed (auto simp: escape_char_def)

lemma encodable_dumps_str [simp]: "encodable (dumps_str s) \<longleftrightarrow> encodable s"
  by (simp add: dumps_str_def list_all_iff encodable_escape) (simp add: encodable_def)

lemma encodable_join: "encodable sep \<Longrightarrow> encodable (join sep xs) \<longleftrightarrow> list_all encodable xs"
  by (induction sep xs rule: join.induct) auto

lemma encodable_dumps: "encodable (dumps j) \<longleftrightarrow> json_encodable j"
proof (induction j)
  case (JList js)
  then show ?case by (simp add: encodable_join list_all_iff)
next
  case (JObj fs)
  then have "(\<forall>p \<in> set fs. case p of (k, v) \<Rightarrow> encodable k \<and> encodable (dumps v)) \<longleftrightarrow>
      (\<forall>p \<in> set fs. case p of (k, v) \<Rightarrow> encodable k \<and> json_encodable v)"
    by fastforce
  then show ?case by (simp add: encodable_join list_all_iff image_iff) (simp add: split_def)
qed (simp_all add: u_def)

lemma canonicalize_serializable:
  "serializable v \<longleftrightarrow> (\<exists>j. canonicalize_json v = Inr j \<and> json_encodable j)"
  "list_all serializable vs \<longleftrightarrow> (\<exists>js. canonicalize_items vs = Inr js \<and> list_all json_encodable js)"
  "list_all (\<lambda>(k, v). encodable k \<and> serializable v) fs \<longleftrightarrow>
     (\<exists>js. canonicalize_fields fs = Inr js \<and> list_all (\<lambda>(k, j). encodable k \<and> json_encodable j) js)"
  by (induction v and vs and fs rule: canonicalize_json_canonicalize_items_canonicalize_fields.induct)
    (auto simp: rbind_Inr_iff)

lemma canonical_json_bytes_Inr_iff: "(\<exists>b. canonical_json_bytes v = Inr b) \<longleftrightarrow> serializable v"
  using encodable_dumps by (auto simp: canonical_json_bytes_def rbind_Inr_iff utf8_encode_def
      canonicalize_serializable(1) encodable_def)

lemma json_sha256_total: "serializable v \<Longrightarrow> \<exists>h. json_sha256 f v = Inr h"
  using canonical_json_bytes_Inr_iff [of v] by (auto simp: json_sha256_def)

subsection \<open>Dates round-trip\<close>

lemma month_day_sum:
  "month_day leap n = (m, d) \<Longrightarrow> days_before_month_table ! nat m + (if 2 < m \<and> leap then 1 else 0) + d = n + 1"
  by (auto simp: month_day_def Let_def split: if_splits)

text \<open>A year counted from its cycles of 400, 100, 4 and 1 years.\<close>

lemma cycles_div:
  fixes a b c d :: int
  assumes "0 \<le> b" "b < 4" "0 \<le> c" "c < 25" "0 \<le> d" "d < 4"
  defines "y \<equiv> a * 400 + 1 + b * 100 + c * 4 + d"
  shows "days_before_year y = 146097 * a + 36524 * b + 1461 * c + 365 * d"
    and "is_leap y \<longleftrightarrow> d = 3 \<and> (c \<noteq> 24 \<or> b = 3)"
proof -
  have "(y - 1) div 4 = 100 * a + 25 * b + c" "(y - 1) div 100 = 4 * a + b" "(y - 1) div 400 = a"
    using assms by (simp_all add: y_def)
  then show "days_before_year y = 146097 * a + 36524 * b + 1461 * c + 365 * d"
    by (simp add: days_before_year_def y_def)
  have split: "y = 4 * (100 * a + 25 * b + c) + (d + 1)" "y = 100 * (4 * a + b) + (4 * c + d + 1)"
      "y = 400 * a + (100 * b + 4 * c + d + 1)"
    by (simp_all add: y_def)
  have range: "0 < d + 1" "d + 1 \<le> 4" "0 < 4 * c + d + 1" "4 * c + d + 1 \<le> 100"
      "0 < 100 * b + 4 * c + d + 1" "100 * b + 4 * c + d + 1 \<le> 400"
    using assms(1-6) by linarith+
  have last: "(k * q + x) mod k = 0 \<longleftrightarrow> x = k" if "0 < x" "x \<le> k" for k q x :: int
    using that zmod_trivial_iff [of x k] by (cases "x = k") auto
  have "y mod 4 = 0 \<longleftrightarrow> d = 3"
    unfolding split(1) last [OF range(1,2)] by linarith
  moreover have "y mod 100 = 0 \<longleftrightarrow> c = 24 \<and> d = 3"
    unfolding split(2) last [OF range(3,4)] using assms(3-6) by linarith
  moreover have "y mod 400 = 0 \<longleftrightarrow> b = 3 \<and> c = 24 \<and> d = 3"
    unfolding split(3) last [OF range(5,6)] using assms(1-6) by linarith
  ultimately show "is_leap y \<longleftrightarrow> d = 3 \<and> (c \<noteq> 24 \<or> b = 3)"
    by (auto simp: is_leap_def)
qed

lemma ymd2ord_ord2ymd: "ymd2ord (ord2ymd n) = n"
proof -
  define a where "a = (n - 1) div 146097"
  define r where "r = (n - 1) mod 146097"
  define b where "b = r div 36524"
  define r' where "r' = r mod 36524"
  define c where "c = r' div 1461"
  define r'' where "r'' = r' mod 1461"
  define d where "d = r'' div 365"
  define e where "e = r'' mod 365"
  have n: "n = 146097 * a + 36524 * b + 1461 * c + 365 * d + e + 1"
    by (simp add: a_def r_def b_def r'_def c_def r''_def d_def e_def)
  have r: "0 \<le> r" "r < 146097" "0 \<le> r'" "r' < 36524" "0 \<le> r''" "r'' < 1461" "0 \<le> e" "e < 365"
    by (simp_all add: r_def r'_def r''_def e_def)
  then have bd: "0 \<le> b" "b \<le> 4" "0 \<le> c" "c \<le> 24" "0 \<le> d" "d \<le> 4"
    by (auto simp: b_def c_def d_def)
  have req: "r = 36524 * b + r'" "r' = 1461 * c + r''" "r'' = 365 * d + e"
    by (simp_all add: b_def r'_def c_def r''_def d_def e_def)
  have ord: "ord2ymd n =
      (if d = 4 \<or> b = 4 then (a * 400 + 1 + b * 100 + c * 4 + d - 1, 12, 31)
       else (a * 400 + 1 + b * 100 + c * 4 + d, month_day (d = 3 \<and> (c \<noteq> 24 \<or> b = 3)) e))"
    by (simp add: ord2ymd_def Let_def a_def r_def b_def r'_def c_def r''_def d_def e_def)
  consider (b4) "b = 4" | (d4) "d = 4" "b < 4" | (mid) "d < 4" "b < 4" using bd by fastforce
  then show ?thesis
  proof cases
    case b4
    then have "c = 0" "d = 0" "e = 0" using r req bd by linarith+
    then have "ord2ymd n = (a * 400 + 400, 12, 31)" "n = 146097 * a + 146097" using b4 n ord by simp_all
    then show ?thesis
      using cycles_div [of 3 24 3 a]
      by (simp add: ymd2ord_def days_before_month_def days_before_month_table_def algebra_simps)
  next
    case d4
    then have e: "e = 0" "c < 24 \<or> b = 3" using r req bd by auto
    let ?y = "a * 400 + 1 + b * 100 + c * 4 + 3"
    have "ord2ymd n = (?y, 12, 31)" using d4 ord by simp
    moreover have "is_leap ?y" "days_before_year ?y = 146097 * a + 36524 * b + 1461 * c + 365 * 3"
      using cycles_div [of b c 3 a] d4 bd e(2) by auto
    ultimately show ?thesis
      using n d4(1) e(1) by (simp add: ymd2ord_def days_before_month_def days_before_month_table_def)
  next
    case mid
    obtain m k where mk: "month_day (d = 3 \<and> (c \<noteq> 24 \<or> b = 3)) e = (m, k)" by fastforce
    let ?y = "a * 400 + 1 + b * 100 + c * 4 + d"
    have "c < 25" using bd by simp
    note y = cycles_div [OF bd(1) mid(2) bd(3) this bd(5) mid(1), of a]
    have "ord2ymd n = (?y, m, k)" using mid ord mk by simp
    then have "ymd2ord (ord2ymd n) = days_before_year ?y + days_before_month ?y m + k"
      by (simp add: ymd2ord_def)
    then show ?thesis
      using n month_day_sum [OF mk] y by (simp add: days_before_month_def)
  qed
qed

end
