(* ===== verification/Backtest_Contracts.thy ===== *)
theory Backtest_Contracts
  imports Serialization
begin

text \<open>
  The contracts of the reference backtest (\<^verbatim>\<open>src/bisfin/backtest/contracts.py\<close> and
  \<^verbatim>\<open>errors.py\<close>): the run request with its nested specifications, the validators that Pydantic runs
  over them, and the bar rows that the engine reads. The validators are modelled after Pydantic's
  own conversion, on typed values; each failing check is an error value carrying the source's
  message. \<open>run_request_ok\<close> is the invariant that a validated request satisfies.
\<close>

subsection \<open>Errors\<close>

datatype backtest_error =
    BacktestManifestError string
  | BacktestValidationError string
  | BacktestRunConflictError string
  | BacktestRunInProgressError string
  | SnapshotArtifactUnavailableError string
  | StrategyVersionConflictError string
  | BacktestExecutionError string
  | BacktestAccountingError string
  | BacktestPersistenceError string
  | ValueError string
  | KeyError
  | AssertionError
  | OverflowError
  | DivisionByZero
  | StopIteration
  | SerializationError ser_error

subsection \<open>Strategy, execution and cost specifications\<close>

datatype reference_strategy_kind = SMA_CROSS_LONG_FLAT_V1

datatype reference_execution_model_kind = NEXT_BAR_CLOSE_AT_AVAILABILITY_V1

datatype param = ParamDec decimal | ParamInt int

record reference_strategy_spec =
  strategy_kind :: reference_strategy_kind
  strategy_parameters :: "(pystr, param) dict"

definition validate_sma_parameters ::
  "reference_strategy_spec \<Rightarrow> (backtest_error, reference_strategy_spec) result" where
  "validate_sma_parameters spec =
     (let ps = strategy_parameters spec in
      if set (dict_keys ps) \<noteq> {u ''fast_window'', u ''slow_window'', u ''target_quantity''}
      then Inl (ValueError ''SMA strategy parameters must be fast_window, slow_window, target_quantity'')
      else
        (case (dict_get ps (u ''fast_window''), dict_get ps (u ''slow_window''),
               dict_get ps (u ''target_quantity'')) of
           (Some (ParamInt fast), Some (ParamInt slow), Some quantity) \<Rightarrow>
             if fast < 1 \<or> slow < 1 \<or> slow \<le> fast
             then Inl (ValueError ''SMA windows must satisfy 1 <= fast_window < slow_window'')
             else (case quantity of
                 ParamDec q \<Rightarrow>
                   if dec_le q dec_zero then Inl (ValueError ''target_quantity must be a positive Decimal'')
                   else Inr spec
               | ParamInt _ \<Rightarrow> Inl (ValueError ''target_quantity must be a positive Decimal''))
         | _ \<Rightarrow> Inl (ValueError ''SMA windows must be integers'')))"

record reference_execution_model_spec =
  execution_kind :: reference_execution_model_kind

record transaction_cost_model_spec =
  commission_bps :: decimal
  slippage_bps :: decimal
  sell_tax_bps :: decimal

definition validate_non_negative_bps :: "decimal \<Rightarrow> (backtest_error, decimal) result" where
  "validate_non_negative_bps v =
     (if dec_lt v dec_zero then Inl (ValueError ''basis points must not be negative'') else Inr v)"

definition validate_cost_model ::
  "transaction_cost_model_spec \<Rightarrow> (backtest_error, transaction_cost_model_spec) result" where
  "validate_cost_model c =
     rbind (validate_non_negative_bps (commission_bps c)) (\<lambda>_.
     rbind (validate_non_negative_bps (slippage_bps c)) (\<lambda>_.
     rbind (validate_non_negative_bps (sell_tax_bps c)) (\<lambda>_. Inr c)))"

subsection \<open>Instruments and the run request\<close>

record run_instrument_spec =
  instrument_id :: int
  signal_component_key :: pystr
  execution_component_key :: pystr
  valuation_component_key :: pystr
  execution_lag_seconds :: int

definition validate_component_key :: "pystr \<Rightarrow> (backtest_error, pystr) result" where
  "validate_component_key v =
     (if py_strip v \<noteq> v \<or> 0 \<in> set v \<or> 13 \<in> set v \<or> 10 \<in> set v
      then Inl (ValueError ''component key must be a bounded single-line value'') else Inr v)"

definition validate_length :: "nat \<Rightarrow> pystr \<Rightarrow> (backtest_error, pystr) result" where
  "validate_length hi v =
     (if length v < 1 \<or> hi < length v then Inl (ValueError ''string length'') else Inr v)"

definition validate_key_field :: "pystr \<Rightarrow> (backtest_error, pystr) result" where
  "validate_key_field v = rbind (validate_length 160 v) validate_component_key"

definition validate_run_instrument ::
  "run_instrument_spec \<Rightarrow> (backtest_error, run_instrument_spec) result" where
  "validate_run_instrument i =
     (if instrument_id i \<le> 0 then Inl (ValueError ''instrument_id'')
      else
        rbind (validate_key_field (signal_component_key i)) (\<lambda>_.
        rbind (validate_key_field (execution_component_key i)) (\<lambda>_.
        rbind (validate_key_field (valuation_component_key i)) (\<lambda>_.
        if execution_lag_seconds i < 0 then Inl (ValueError ''execution_lag_seconds'') else Inr i))))"

record backtest_run_request =
  schema_version :: int
  run_code :: pystr
  snapshot_code :: pystr
  universe_code :: pystr
  base_currency_code :: pystr
  event_from :: timestamp
  event_to :: timestamp
  initial_capital :: decimal
  random_seed :: int
  strategy :: reference_strategy_spec
  execution_model :: reference_execution_model_spec
  transaction_cost_model :: transaction_cost_model_spec
  instruments :: "run_instrument_spec list"

definition validate_initial_capital :: "decimal \<Rightarrow> (backtest_error, decimal) result" where
  "validate_initial_capital v =
     (if dec_le v dec_zero then Inl (ValueError ''initial_capital must be positive'') else Inr v)"

definition validate_request ::
  "backtest_run_request \<Rightarrow> (backtest_error, backtest_run_request) result" where
  "validate_request r =
     (if schema_version r \<noteq> 1 then Inl (ValueError ''unsupported schema_version'')
      else if event_to r \<le> event_from r then Inl (ValueError ''event_from must be before event_to'')
      else if instruments r = [] then Inl (ValueError ''instruments must not be empty'')
      else if length (remdups (map instrument_id (instruments r))) \<noteq> length (instruments r)
      then Inl (ValueError ''instrument_id values must be unique'')
      else Inr r)"

text \<open>All the checks of \<^verbatim>\<open>BacktestRunRequest.model_validate\<close>: the fields first, then the request.\<close>

definition model_validate_request ::
  "backtest_run_request \<Rightarrow> (backtest_error, backtest_run_request) result" where
  "model_validate_request r =
     rbind (validate_length 128 (run_code r)) (\<lambda>_.
     rbind (validate_length 128 (snapshot_code r)) (\<lambda>_.
     rbind (validate_length 160 (universe_code r)) (\<lambda>_.
     rbind (validate_length 12 (base_currency_code r)) (\<lambda>_.
     rbind (validate_initial_capital (initial_capital r)) (\<lambda>_.
     rbind (validate_sma_parameters (strategy r)) (\<lambda>_.
     rbind (validate_cost_model (transaction_cost_model r)) (\<lambda>_.
     rbind (map_result validate_run_instrument (instruments r)) (\<lambda>_.
     validate_request r))))))))"

subsection \<open>Bars, views and intents\<close>

record decision_bar =
  bar_open_ts :: timestamp
  bar_series_id :: int
  revision_no :: int
  available_at :: timestamp
  system_available_at :: timestamp
  effective_available_at :: timestamp
  close_price :: decimal

record decision_view =
  view_instrument_id :: int
  view_decision_ts :: timestamp
  visible_bars_of :: "decision_bar list"
  current_quantity :: decimal
  view_average_cost :: decimal
  view_realized_pnl :: decimal
  view_cash :: decimal
  view_parameters :: reference_strategy_spec

record target_position_intent =
  intent_instrument_id :: int
  intent_decision_ts :: timestamp
  intent_target_quantity :: decimal
  intent_reason_code :: string

subsection \<open>What a validated request satisfies\<close>

definition strategy_ok :: "reference_strategy_spec \<Rightarrow> int \<Rightarrow> int \<Rightarrow> decimal \<Rightarrow> bool" where
  "strategy_ok s fast slow q \<longleftrightarrow>
     dict_get (strategy_parameters s) (u ''fast_window'') = Some (ParamInt fast) \<and>
     dict_get (strategy_parameters s) (u ''slow_window'') = Some (ParamInt slow) \<and>
     dict_get (strategy_parameters s) (u ''target_quantity'') = Some (ParamDec q) \<and>
     1 \<le> fast \<and> fast < slow \<and> 0 < val q"

definition costs_ok :: "transaction_cost_model_spec \<Rightarrow> bool" where
  "costs_ok c \<longleftrightarrow> 0 \<le> val (commission_bps c) \<and> 0 \<le> val (slippage_bps c) \<and> 0 \<le> val (sell_tax_bps c)"

definition run_request_ok :: "backtest_run_request \<Rightarrow> bool" where
  "run_request_ok r \<longleftrightarrow>
     schema_version r = 1 \<and> event_from r < event_to r \<and> 0 < val (initial_capital r) \<and>
     instruments r \<noteq> [] \<and> distinct (map instrument_id (instruments r)) \<and>
     (\<forall>i \<in> set (instruments r). 0 < instrument_id i \<and> 0 \<le> execution_lag_seconds i) \<and>
     costs_ok (transaction_cost_model r) \<and> (\<exists>fast slow q. strategy_ok (strategy r) fast slow q)"

lemma validate_sma_parameters_ok:
  "validate_sma_parameters s = Inr s' \<Longrightarrow> s' = s \<and> (\<exists>fast slow q. strategy_ok s fast slow q)"
  by (auto simp: validate_sma_parameters_def strategy_ok_def Let_def
      split: if_splits option.splits param.splits)

lemma validate_cost_model_ok: "validate_cost_model c = Inr c' \<Longrightarrow> c' = c \<and> costs_ok c"
  by (auto simp: validate_cost_model_def validate_non_negative_bps_def costs_ok_def rbind_Inr_iff
      split: if_splits)

lemma validate_run_instrument_ok:
  "validate_run_instrument i = Inr i' \<Longrightarrow> i' = i \<and> 0 < instrument_id i \<and> 0 \<le> execution_lag_seconds i"
  by (auto simp: validate_run_instrument_def rbind_Inr_iff split: if_splits)

lemma length_remdups_distinct: "length (remdups xs) = length xs \<longleftrightarrow> distinct xs"
  by (metis distinct_remdups length_remdups_eq remdups_id_iff_distinct)

lemma model_validate_request_ok:
  assumes "model_validate_request r = Inr r'"
  shows "r' = r \<and> run_request_ok r"
proof -
  from assms obtain insts where
    cap: "validate_initial_capital (initial_capital r) = Inr (initial_capital r)" and
    strat: "\<exists>s. validate_sma_parameters (strategy r) = Inr s" and
    costs: "\<exists>c. validate_cost_model (transaction_cost_model r) = Inr c" and
    insts: "map_result validate_run_instrument (instruments r) = Inr insts" and
    req: "validate_request r = Inr r'"
    by (auto simp: model_validate_request_def rbind_Inr_iff validate_initial_capital_def split: if_splits)
  have "\<forall>i \<in> set (instruments r). 0 < instrument_id i \<and> 0 \<le> execution_lag_seconds i"
    using insts validate_run_instrument_ok
    by (auto simp: map_result_Inr_iff list_all2_conv_all_nth in_set_conv_nth)
  then show ?thesis
    using cap strat costs req validate_sma_parameters_ok validate_cost_model_ok
    by (auto simp: run_request_ok_def validate_request_def validate_initial_capital_def
        length_remdups_distinct [of "map instrument_id (instruments r)", simplified]
        split: if_splits)
qed

end
