(* ===== verification/Backtest_Selector.thy ===== *)
theory Backtest_Selector
  imports Backtest_Contracts
begin

text \<open>
  Point-in-time selection over the frozen rows of one component
  (\<^verbatim>\<open>src/bisfin/backtest/selector.py\<close>). A selector is the dictionary \<^verbatim>\<open>_rows_by_open\<close>: the
  revisions of each logical bar, sorted by availability. The lemmas show that what is visible at
  an instant is the latest revision available at that instant of every bar that has one, and that
  it does not depend on any row that becomes available later. The locale \<open>point_in_time_source\<close>
  states what the engine relies on.
\<close>

subsection \<open>Operations\<close>

type_synonym selector = "(timestamp, decision_bar list) dict"

abbreviation revision_key :: "decision_bar \<Rightarrow> timestamp \<times> int" where
  "revision_key b \<equiv> (effective_available_at b, revision_no b)"

definition make_selector :: "decision_bar list \<Rightarrow> (backtest_error, selector) result" where
  "make_selector rows =
     (let by_open = group_by bar_open_ts rows in
      if by_open = []
      then Inl (BacktestValidationError ''A reference component must contain at least one bar.'')
      else Inr (map (\<lambda>(open_ts, revisions). (open_ts, sort_key revision_key revisions)) by_open))"

definition first_visibility :: "decision_bar list \<Rightarrow> timestamp" where
  "first_visibility revisions = effective_available_at (hd revisions)"

definition decision_schedule :: "selector \<Rightarrow> (timestamp \<times> timestamp) list" where
  "decision_schedule s = sort (map (\<lambda>(open_ts, revisions). (first_visibility revisions, open_ts)) s)"

definition latest_visible :: "timestamp \<Rightarrow> decision_bar list \<Rightarrow> decision_bar option" where
  "latest_visible ts revisions =
     max_by revision_no (filter (\<lambda>row. effective_available_at row \<le> ts) revisions)"

definition visible_bars :: "selector \<Rightarrow> timestamp \<Rightarrow> decision_bar list" where
  "visible_bars s ts =
     sort_key bar_open_ts
       (concat (map (\<lambda>(_, revisions).
          case latest_visible ts revisions of None \<Rightarrow> [] | Some b \<Rightarrow> [b]) s))"

text \<open>The largest instant a \<^verbatim>\<open>datetime\<close> can hold, and addition of a \<^verbatim>\<open>timedelta\<close> in seconds.\<close>

definition MAX_TS :: timestamp where
  "MAX_TS = 253402300799999999"

definition ts_add_seconds :: "timestamp \<Rightarrow> int \<Rightarrow> (backtest_error, timestamp) result" where
  "ts_add_seconds t secs =
     (if MAX_TS < t + secs * 1000000 then Inl OverflowError else Inr (t + secs * 1000000))"

fun first_executable :: "selector \<Rightarrow> timestamp \<Rightarrow> timestamp \<Rightarrow> timestamp list \<Rightarrow> decision_bar option" where
  "first_executable s signal_open earliest [] = None"
| "first_executable s signal_open earliest (open_ts # opens) =
     (if open_ts \<le> signal_open then first_executable s signal_open earliest opens
      else
        (case dict_get s open_ts of
           None \<Rightarrow> None
         | Some revisions \<Rightarrow>
             if first_visibility revisions < earliest then first_executable s signal_open earliest opens
             else latest_visible (first_visibility revisions) revisions))"

definition next_execution_bar ::
  "selector \<Rightarrow> timestamp \<Rightarrow> timestamp \<Rightarrow> int \<Rightarrow> (backtest_error, decision_bar option) result" where
  "next_execution_bar s signal_bar_open_ts submitted_at lag_seconds =
     rbind (ts_add_seconds submitted_at lag_seconds) (\<lambda>earliest.
       Inr (first_executable s signal_bar_open_ts earliest (sort (dict_keys s))))"

subsection \<open>Well-formed selectors\<close>

definition selector_wf :: "selector \<Rightarrow> bool" where
  "selector_wf s \<longleftrightarrow>
     dict_wf s \<and> s \<noteq> [] \<and>
     (\<forall>(open_ts, revisions) \<in> set s.
        revisions \<noteq> [] \<and> sorted (map revision_key revisions) \<and>
        (\<forall>b \<in> set revisions. bar_open_ts b = open_ts))"

definition selector_rows :: "selector \<Rightarrow> decision_bar set" where
  "selector_rows s = (\<Union>(open_ts, revisions) \<in> set s. set revisions)"

lemma make_selector_entry:
  assumes "make_selector rows = Inr s" and "(o_ts, revs) \<in> set s"
  shows "revs = sort_key revision_key (filter (\<lambda>b. bar_open_ts b = o_ts) rows)"
    and "revs \<noteq> []" and "o_ts \<in> bar_open_ts ` set rows"
proof -
  from assms obtain vs where vs: "(o_ts, vs) \<in> set (group_by bar_open_ts rows)"
      and revs: "revs = sort_key revision_key vs"
    by (auto simp: make_selector_def Let_def split: if_splits)
  show "revs = sort_key revision_key (filter (\<lambda>b. bar_open_ts b = o_ts) rows)"
    using group_by_entry(1) [OF vs] revs by simp
  show "revs \<noteq> []" and "o_ts \<in> bar_open_ts ` set rows"
    using group_by_entry(2,3) [OF vs] revs by (simp_all flip: length_greater_0_conv)
qed

lemma make_selector_has_entry:
  assumes "make_selector rows = Inr s" and "r \<in> set rows"
  shows "(bar_open_ts r, sort_key revision_key (filter (\<lambda>b. bar_open_ts b = bar_open_ts r) rows)) \<in> set s"
  using group_by_has_entry [OF assms(2), of bar_open_ts] assms(1)
  by (force simp: make_selector_def Let_def split: if_splits)

lemma make_selector_keys:
  assumes "make_selector rows = Inr s"
  shows "dict_wf s" and "set (map fst s) = bar_open_ts ` set rows"
proof -
  have "map fst s = map fst (group_by bar_open_ts rows)"
    using assms by (auto simp: make_selector_def Let_def split: if_splits)
  then show "dict_wf s" and "set (map fst s) = bar_open_ts ` set rows"
    using dict_wf_group_by [of bar_open_ts rows]
      set_dict_keys [of "group_by bar_open_ts rows"]
    by (auto simp: dict_wf_def dict_keys_def dict_get_group_by split: if_splits)
qed

lemma make_selector_wf [inv_intros]:
  assumes "make_selector rows = Inr s"
  shows "selector_wf s"
proof -
  have "s \<noteq> []"
    using assms by (auto simp: make_selector_def Let_def split: if_splits)
  moreover have "revs \<noteq> [] \<and> sorted (map revision_key revs) \<and> (\<forall>b \<in> set revs. bar_open_ts b = o_ts)"
    if e: "(o_ts, revs) \<in> set s" for o_ts revs
    using make_selector_entry(2) [OF assms e] unfolding make_selector_entry(1) [OF assms e] by simp
  ultimately show ?thesis
    using make_selector_keys(1) [OF assms] by (auto simp: selector_wf_def)
qed

lemma make_selector_rows:
  assumes "make_selector rows = Inr s"
  shows "selector_rows s = set rows"
proof
  show "selector_rows s \<subseteq> set rows"
    using make_selector_entry(1) [OF assms] by (fastforce simp: selector_rows_def)
  show "set rows \<subseteq> selector_rows s"
  proof
    fix r
    assume r: "r \<in> set rows"
    show "r \<in> selector_rows s"
      unfolding selector_rows_def
      by (rule UN_I [OF make_selector_has_entry [OF assms r]]) (simp add: r)
  qed
qed

lemma selector_wf_revs:
  assumes "selector_wf s" and "(o_ts, revs) \<in> set s"
  shows "revs \<noteq> []" and "sorted (map revision_key revs)" and "\<And>b. b \<in> set revs \<Longrightarrow> bar_open_ts b = o_ts"
  using assms by (auto simp: selector_wf_def)

subsection \<open>Visible bars\<close>

lemma latest_visible_Some:
  assumes "latest_visible ts revs = Some b"
  shows "b \<in> set revs" and "effective_available_at b \<le> ts"
    and "\<And>r. r \<in> set revs \<Longrightarrow> effective_available_at r \<le> ts \<Longrightarrow> revision_no r \<le> revision_no b"
proof -
  show "b \<in> set revs" and "effective_available_at b \<le> ts"
    using max_by_mem [OF assms [unfolded latest_visible_def]] by auto
  show "revision_no r \<le> revision_no b" if "r \<in> set revs" "effective_available_at r \<le> ts" for r
    using max_by_ge [OF assms [unfolded latest_visible_def], of r] that by simp
qed

lemma latest_visible_None_iff:
  "latest_visible ts revs = None \<longleftrightarrow> (\<forall>r \<in> set revs. ts < effective_available_at r)"
  by (auto simp: latest_visible_def filter_empty_conv not_le)

definition visible_unsorted :: "selector \<Rightarrow> timestamp \<Rightarrow> decision_bar list" where
  "visible_unsorted s ts =
     concat (map (\<lambda>(_, revs). case latest_visible ts revs of None \<Rightarrow> [] | Some b \<Rightarrow> [b]) s)"

lemma set_visible:
  "set (visible_bars s ts) = {b. \<exists>o_ts revs. (o_ts, revs) \<in> set s \<and> latest_visible ts revs = Some b}"
  by (force simp: visible_bars_def split: option.splits)

lemma visible_unsorted_distinct:
  "selector_wf s \<Longrightarrow> distinct (map bar_open_ts (visible_unsorted s ts))"
proof (induction s)
  case Nil
  then show ?case by (simp add: visible_unsorted_def)
next
  case (Cons p s)
  obtain o_ts revs where p: "p = (o_ts, revs)" by fastforce
  have head: "bar_open_ts b = o_ts" if "latest_visible ts revs = Some b" for b
    using latest_visible_Some(1) [OF that] Cons.prems p by (auto simp: selector_wf_def)
  have tail: "bar_open_ts b \<in> fst ` set s" if "b \<in> set (visible_unsorted s ts)" for b
  proof -
    from that obtain o' revs' where e: "(o', revs') \<in> set s" "latest_visible ts revs' = Some b"
      by (auto simp: visible_unsorted_def split: option.splits)
    then have "bar_open_ts b = o'"
      using Cons.prems latest_visible_Some(1) [OF e(2)] by (auto simp: selector_wf_def)
    with e show ?thesis by force
  qed
  have "o_ts \<notin> fst ` set s"
    using Cons.prems p by (simp add: selector_wf_def dict_wf_def)
  moreover have "s = [] \<or> selector_wf s"
    using Cons.prems by (auto simp: selector_wf_def dict_wf_def)
  then have "distinct (map bar_open_ts (visible_unsorted s ts))"
    using Cons.IH by (auto simp: visible_unsorted_def)
  ultimately show ?case
    using head tail p by (auto simp: visible_unsorted_def split: option.splits) blast
qed

lemma visible_bars_sorted:
  assumes "selector_wf s"
  shows "sorted_wrt (\<lambda>a b. bar_open_ts a < bar_open_ts b) (visible_bars s ts)"
  using visible_unsorted_distinct [OF assms, of ts]
  unfolding visible_bars_def visible_unsorted_def [symmetric]
  by (simp add: sorted_wrt_less_key distinct_map)

lemma visible_bars_available: "b \<in> set (visible_bars s ts) \<Longrightarrow> effective_available_at b \<le> ts"
  by (auto simp: set_visible dest: latest_visible_Some(2))

lemma visible_bars_rows: "set (visible_bars s ts) \<subseteq> selector_rows s"
  by (force simp: set_visible selector_rows_def dest: latest_visible_Some(1))

lemma visible_bars_latest:
  assumes "make_selector rows = Inr s" and "b \<in> set (visible_bars s ts)"
    and "r \<in> set rows" and "bar_open_ts r = bar_open_ts b" and "effective_available_at r \<le> ts"
  shows "revision_no r \<le> revision_no b"
proof -
  from assms(2) obtain o_ts revs where e: "(o_ts, revs) \<in> set s" "latest_visible ts revs = Some b"
    by (auto simp: set_visible)
  have "bar_open_ts b = o_ts"
    using selector_wf_revs(3) [OF make_selector_wf [OF assms(1)] e(1)] latest_visible_Some(1) [OF e(2)]
    by blast
  then have "r \<in> set revs"
    using make_selector_entry(1) [OF assms(1) e(1)] assms(3,4) by simp
  then show ?thesis
    using latest_visible_Some(3) [OF e(2)] assms(5) by blast
qed

lemma visible_bars_complete:
  assumes "make_selector rows = Inr s" and "r \<in> set rows" and "effective_available_at r \<le> ts"
  shows "\<exists>b \<in> set (visible_bars s ts). bar_open_ts b = bar_open_ts r"
proof -
  let ?revs = "sort_key revision_key (filter (\<lambda>b. bar_open_ts b = bar_open_ts r) rows)"
  have e: "(bar_open_ts r, ?revs) \<in> set s"
    using assms(1,2) by (rule make_selector_has_entry)
  have "latest_visible ts ?revs \<noteq> None"
    using assms(2,3) by (auto simp: latest_visible_None_iff)
  then obtain b where b: "latest_visible ts ?revs = Some b"
    by blast
  then have "b \<in> set ?revs" by (rule latest_visible_Some(1))
  with e b show ?thesis by (force simp: set_visible)
qed

text \<open>
  Rows that become available after an instant do not influence what is visible at it: two row
  lists that agree on the rows available by \<open>ts\<close> give the same view.
\<close>

lemma latest_visible_cong:
  assumes "filter (\<lambda>r. effective_available_at r \<le> ts) rows = filter (\<lambda>r. effective_available_at r \<le> ts) rows'"
  shows "latest_visible ts (sort_key revision_key (filter (\<lambda>b. bar_open_ts b = o_ts) rows)) =
    latest_visible ts (sort_key revision_key (filter (\<lambda>b. bar_open_ts b = o_ts) rows'))"
proof -
  have "filter (\<lambda>r. effective_available_at r \<le> ts) (filter (\<lambda>b. bar_open_ts b = o_ts) xs) =
      filter (\<lambda>b. bar_open_ts b = o_ts) (filter (\<lambda>r. effective_available_at r \<le> ts) xs)" for xs
    by (simp add: conj_commute)
  then have "filter (\<lambda>r. effective_available_at r \<le> ts) (filter (\<lambda>b. bar_open_ts b = o_ts) rows) =
      filter (\<lambda>r. effective_available_at r \<le> ts) (filter (\<lambda>b. bar_open_ts b = o_ts) rows')"
    by (metis (no_types) assms)
  then show ?thesis
    unfolding latest_visible_def by (simp only: filter_sort)
qed

lemma set_visible_rows:
  assumes "make_selector rows = Inr s"
  shows "set (visible_bars s ts) =
    {b. \<exists>o_ts. latest_visible ts (sort_key revision_key (filter (\<lambda>b. bar_open_ts b = o_ts) rows)) = Some b}"
    (is "_ = ?R")
proof
  show "set (visible_bars s ts) \<subseteq> ?R"
    using make_selector_entry(1) [OF assms] by (auto simp: set_visible)
  show "?R \<subseteq> set (visible_bars s ts)"
  proof
    fix b
    assume "b \<in> ?R"
    then obtain o_ts where
      b: "latest_visible ts (sort_key revision_key (filter (\<lambda>b. bar_open_ts b = o_ts) rows)) = Some b"
      by blast
    from latest_visible_Some(1) [OF b] have "b \<in> set rows" "bar_open_ts b = o_ts" by auto
    with make_selector_has_entry [OF assms, of b] b show "b \<in> set (visible_bars s ts)"
      by (auto simp: set_visible)
  qed
qed

lemma visible_bars_no_lookahead:
  assumes "make_selector rows = Inr s" and "make_selector rows' = Inr s'"
    and "filter (\<lambda>r. effective_available_at r \<le> ts) rows = filter (\<lambda>r. effective_available_at r \<le> ts) rows'"
  shows "visible_bars s ts = visible_bars s' ts"
proof (rule strictly_sorted_by_unique [where f = bar_open_ts])
  show "set (visible_bars s ts) = set (visible_bars s' ts)"
    unfolding set_visible_rows [OF assms(1)] set_visible_rows [OF assms(2)]
    by (simp only: latest_visible_cong [OF assms(3)])
qed (use assms in \<open>auto intro: visible_bars_sorted make_selector_wf\<close>)

subsection \<open>Execution bars\<close>

lemma first_visibility_le:
  "selector_wf s \<Longrightarrow> (o_ts, revs) \<in> set s \<Longrightarrow> r \<in> set revs \<Longrightarrow>
     first_visibility revs \<le> effective_available_at r"
  using selector_wf_revs(2) [of s o_ts revs]
  by (cases revs) (auto simp: first_visibility_def less_eq_prod_def dest: less_imp_le)

lemma first_visibility_attained:
  "selector_wf s \<Longrightarrow> (o_ts, revs) \<in> set s \<Longrightarrow> \<exists>r \<in> set revs. effective_available_at r = first_visibility revs"
  using selector_wf_revs(1) [of s o_ts revs] by (cases revs) (auto simp: first_visibility_def)

lemma first_executable_Some:
  assumes "selector_wf s" and "sorted opens" and "set opens \<subseteq> set (dict_keys s)"
    and "first_executable s sig earliest opens = Some b"
  shows "\<exists>revs. (bar_open_ts b, revs) \<in> set s \<and> b \<in> set revs \<and> sig < bar_open_ts b \<and>
     effective_available_at b = first_visibility revs \<and> earliest \<le> effective_available_at b \<and>
     (\<forall>o' revs'. o' \<in> set opens \<and> (o', revs') \<in> set s \<and> sig < o' \<and> o' < bar_open_ts b \<longrightarrow>
        first_visibility revs' < earliest)"
  using assms(2-)
proof (induction opens)
  case (Cons o_ts opens)
  show ?case
  proof (cases "o_ts \<le> sig")
    case True
    then show ?thesis using Cons by auto
  next
    case later: False
    have "o_ts \<in> set (dict_keys s)" using Cons.prems(2) by simp
    then obtain revs where g: "dict_get s o_ts = Some revs" by (auto simp: set_dict_keys)
    then have e: "(o_ts, revs) \<in> set s" by (rule dict_get_mem)
    have uniq: "revs' = revs" if "(o_ts, revs') \<in> set s" for revs'
      using that g assms(1) dict_mem_get [of s o_ts revs'] by (simp add: selector_wf_def)
    show ?thesis
    proof (cases "first_visibility revs < earliest")
      case True
      then have "first_executable s sig earliest opens = Some b"
        using Cons.prems(3) later g by simp
      then obtain revs\<^sub>b where b: "(bar_open_ts b, revs\<^sub>b) \<in> set s" "b \<in> set revs\<^sub>b" "sig < bar_open_ts b"
          "effective_available_at b = first_visibility revs\<^sub>b" "earliest \<le> effective_available_at b"
        and others: "\<forall>o' revs'. o' \<in> set opens \<and> (o', revs') \<in> set s \<and> sig < o' \<and> o' < bar_open_ts b \<longrightarrow>
          first_visibility revs' < earliest"
        using Cons.IH Cons.prems(1,2) by auto
      have "\<forall>o' revs'. o' \<in> set (o_ts # opens) \<and> (o', revs') \<in> set s \<and> sig < o' \<and> o' < bar_open_ts b \<longrightarrow>
          first_visibility revs' < earliest"
        using others True uniq by auto
      with b show ?thesis by blast
    next
      case False
      then have b: "latest_visible (first_visibility revs) revs = Some b"
        using Cons.prems(3) later g by simp
      have "bar_open_ts b = o_ts"
        using latest_visible_Some(1) [OF b] selector_wf_revs(3) [OF assms(1) e] by blast
      moreover have "effective_available_at b = first_visibility revs"
        using latest_visible_Some(1,2) [OF b] first_visibility_le [OF assms(1) e] by (simp add: order_antisym)
      ultimately show ?thesis
        using e latest_visible_Some(1) [OF b] later False Cons.prems(1)
        by (intro exI [of _ revs]) fastforce
    qed
  qed
qed simp

lemma first_executable_None:
  assumes "selector_wf s" and "set opens \<subseteq> set (dict_keys s)"
    and "first_executable s sig earliest opens = None"
  shows "\<forall>o' revs'. o' \<in> set opens \<and> (o', revs') \<in> set s \<and> sig < o' \<longrightarrow> first_visibility revs' < earliest"
  using assms(2-)
proof (induction opens)
  case (Cons o_ts opens)
  have "o_ts \<in> set (dict_keys s)" using Cons.prems(1) by simp
  then obtain revs where g: "dict_get s o_ts = Some revs" by (auto simp: set_dict_keys)
  have e: "(o_ts, revs) \<in> set s" using g by (rule dict_get_mem)
  have uniq: "revs' = revs" if "(o_ts, revs') \<in> set s" for revs'
    using that g assms(1) dict_mem_get [of s o_ts revs'] by (simp add: selector_wf_def)
  have "latest_visible (first_visibility revs) revs \<noteq> None"
    using first_visibility_attained [OF assms(1) e]
    unfolding latest_visible_None_iff by (metis less_irrefl)
  then show ?case
    using Cons g uniq by (auto split: if_splits)
qed simp

lemma next_execution_bar_cases:
  assumes "next_execution_bar s sig submitted lag = Inr ob"
  shows "submitted + lag * 1000000 \<le> MAX_TS"
    and "first_executable s sig (submitted + lag * 1000000) (sort (dict_keys s)) = ob"
  using assms by (auto simp: next_execution_bar_def ts_add_seconds_def rbind_Inr_iff split: if_splits)

text \<open>The bar an order executes on: a later one, not visible before the order may act, and the first such.\<close>

lemma next_execution_bar_Some:
  assumes "selector_wf s" and "next_execution_bar s sig submitted lag = Inr (Some b)"
  shows "b \<in> selector_rows s" and "sig < bar_open_ts b"
    and "submitted + lag * 1000000 \<le> effective_available_at b"
    and "\<And>o' revs'. (o', revs') \<in> set s \<Longrightarrow> sig < o' \<Longrightarrow> o' < bar_open_ts b \<Longrightarrow>
      first_visibility revs' < submitted + lag * 1000000"
    and "\<And>r. r \<in> selector_rows s \<Longrightarrow> bar_open_ts r = bar_open_ts b \<Longrightarrow>
      effective_available_at b \<le> effective_available_at r"
proof -
  note fe = first_executable_Some [OF assms(1) _ _ next_execution_bar_cases(2) [OF assms(2)]]
  obtain revs where e: "(bar_open_ts b, revs) \<in> set s" "b \<in> set revs"
    and sig: "sig < bar_open_ts b" and first: "effective_available_at b = first_visibility revs"
    and early: "submitted + lag * 1000000 \<le> effective_available_at b"
    and others: "\<forall>o' revs'. o' \<in> set (sort (dict_keys s)) \<and> (o', revs') \<in> set s \<and> sig < o' \<and>
       o' < bar_open_ts b \<longrightarrow> first_visibility revs' < submitted + lag * 1000000"
    using fe by auto
  show "b \<in> selector_rows s" "sig < bar_open_ts b" "submitted + lag * 1000000 \<le> effective_available_at b"
    using e sig early by (auto simp: selector_rows_def)
  show "first_visibility revs' < submitted + lag * 1000000"
    if "(o', revs') \<in> set s" "sig < o'" "o' < bar_open_ts b" for o' revs'
    using others that by (force simp: dict_keys_def)
  show "effective_available_at b \<le> effective_available_at r"
    if r: "r \<in> selector_rows s" "bar_open_ts r = bar_open_ts b" for r
  proof -
    from r(1) obtain o' revs' where r': "(o', revs') \<in> set s" "r \<in> set revs'"
      by (auto simp: selector_rows_def)
    then have "o' = bar_open_ts b"
      using selector_wf_revs(3) [OF assms(1) r'(1)] r(2) by auto
    then have "revs' = revs"
      using dict_mem_get [OF _ r'(1)] dict_mem_get [OF _ e(1)] assms(1) by (simp add: selector_wf_def)
    then show ?thesis
      using first first_visibility_le [OF assms(1) r'(1) r'(2)] by simp
  qed
qed

subsection \<open>What the engine relies on\<close>

text \<open>
  A point-in-time source shows, at each instant, bars that are already available, one per open
  time in increasing order; the trailing window that a strategy reads inherits all of it.
\<close>

locale point_in_time_source =
  fixes visible :: "'s \<Rightarrow> timestamp \<Rightarrow> decision_bar list"
    and rows :: "'s \<Rightarrow> decision_bar set"
    and wf :: "'s \<Rightarrow> bool"
  assumes visible_available: "b \<in> set (visible s ts) \<Longrightarrow> effective_available_at b \<le> ts"
    and visible_sorted: "wf s \<Longrightarrow> sorted_wrt (\<lambda>a b. bar_open_ts a < bar_open_ts b) (visible s ts)"
    and visible_rows: "set (visible s ts) \<subseteq> rows s"
begin

lemma window_available: "b \<in> set (last_n n (visible s ts)) \<Longrightarrow> effective_available_at b \<le> ts"
  using set_last_n_subset [of n "visible s ts"] visible_available by (meson subsetD)

lemma window_sorted:
  "wf s \<Longrightarrow> sorted_wrt (\<lambda>a b. bar_open_ts a < bar_open_ts b) (last_n n (visible s ts))"
  unfolding last_n_def by (rule sorted_wrt_drop) (rule visible_sorted)

lemma window_rows: "set (last_n n (visible s ts)) \<subseteq> rows s"
  using set_last_n_subset [of n "visible s ts"] visible_rows [of s ts] by (rule subset_trans)

end

interpretation artifact: point_in_time_source visible_bars selector_rows selector_wf
  by unfold_locales (simp_all add: visible_bars_available visible_bars_sorted visible_bars_rows)

end
