(* ===== verification/Backtest_Accounting.thy ===== *)
theory Backtest_Accounting
  imports Backtest_Contracts
begin

text \<open>
  Decimal accounting of the reference engine (\<^verbatim>\<open>src/bisfin/backtest/accounting.py\<close>): pricing of a
  fill with basis-point costs, and the long-only portfolio that applies fills. All amounts go
  through the rounded decimal operations, so the statements about them are about the rounded
  values. The locale \<open>fallible_ledger\<close> is the contract between a ledger and a caller that skips
  the postings it refuses, as the engine does.
\<close>

subsection \<open>Fills and positions\<close>

datatype order_side = BUY | SELL

record priced_fill =
  fill_side :: order_side
  fill_quantity :: decimal
  fill_reference_price :: decimal
  fill_execution_price :: decimal
  notional :: decimal
  commission_amount :: decimal
  slippage_amount :: decimal
  tax_amount :: decimal

definition cash_delta :: "priced_fill \<Rightarrow> decimal" where
  "cash_delta f =
     (if fill_side f = BUY
      then dec_minus (dec_add (dec_add (notional f) (commission_amount f)) (tax_amount f))
      else dec_sub (dec_sub (notional f) (commission_amount f)) (tax_amount f))"

record position_state =
  quantity :: decimal
  average_cost :: decimal
  realized_pnl :: decimal

definition flat_position :: position_state where
  "flat_position = \<lparr>quantity = dec_zero, average_cost = dec_zero, realized_pnl = dec_zero\<rparr>"

definition BPS_DIVISOR :: decimal where
  "BPS_DIVISOR = Dec False 10000 0"

definition div_or_raise :: "decimal \<Rightarrow> decimal \<Rightarrow> (backtest_error, decimal) result" where
  "div_or_raise x y = (case dec_div x y of None \<Rightarrow> Inl DivisionByZero | Some z \<Rightarrow> Inr z)"

definition price_fill ::
  "order_side \<Rightarrow> decimal \<Rightarrow> decimal \<Rightarrow> transaction_cost_model_spec \<Rightarrow> (backtest_error, priced_fill) result" where
  "price_fill side qty reference_price costs =
     (if dec_le qty dec_zero \<or> dec_le reference_price dec_zero
      then Inl (BacktestValidationError ''Reference fills require positive quantity and price.'')
      else
        let direction = (if side = BUY then dec_one else Dec True 1 0) in
        rbind (div_or_raise (dec_mul direction (slippage_bps costs)) BPS_DIVISOR) (\<lambda>slip.
        let execution_price = dec_mul reference_price (dec_add dec_one slip);
            notional_value = dec_mul execution_price qty in
        rbind (div_or_raise (dec_mul notional_value (commission_bps costs)) BPS_DIVISOR) (\<lambda>commission.
        rbind (if side = SELL then div_or_raise (dec_mul notional_value (sell_tax_bps costs)) BPS_DIVISOR
               else Inr dec_zero) (\<lambda>tax.
        Inr \<lparr>fill_side = side, fill_quantity = qty, fill_reference_price = reference_price,
             fill_execution_price = execution_price, notional = notional_value,
             commission_amount = commission,
             slippage_amount = dec_mul (dec_abs (dec_sub execution_price reference_price)) qty,
             tax_amount = tax\<rparr>))))"

subsection \<open>The long-only portfolio\<close>

record portfolio =
  cash :: decimal
  positions :: "(int, position_state) dict"

definition new_portfolio :: "decimal \<Rightarrow> (backtest_error, portfolio) result" where
  "new_portfolio c =
     (if dec_lt c dec_zero then Inl (BacktestValidationError ''Initial cash must not be negative.'')
      else Inr \<lparr>cash = c, positions = []\<rparr>)"

definition position :: "portfolio \<Rightarrow> int \<Rightarrow> position_state" where
  "position p i = (case dict_get (positions p) i of None \<Rightarrow> flat_position | Some s \<Rightarrow> s)"

definition next_position :: "decimal \<Rightarrow> position_state \<Rightarrow> priced_fill \<Rightarrow> (backtest_error, position_state) result" where
  "next_position available state fill =
     (if fill_side fill = BUY then
        let required_cash = dec_minus (cash_delta fill) in
        if dec_lt available required_cash
        then Inl (BacktestValidationError ''Insufficient cash for deterministic reference buy.'')
        else
          let total_cost = dec_add (dec_mul (average_cost state) (quantity state)) required_cash;
              qty = dec_add (quantity state) (fill_quantity fill) in
          rbind (div_or_raise total_cost qty) (\<lambda>avg.
            Inr \<lparr>quantity = qty, average_cost = avg, realized_pnl = realized_pnl state\<rparr>)
      else
        if dec_lt (quantity state) (fill_quantity fill)
        then Inl (BacktestValidationError ''Long-only reference sell exceeds current position.'')
        else
          let realized_delta =
                dec_sub (dec_sub (dec_mul (dec_sub (fill_execution_price fill) (average_cost state))
                  (fill_quantity fill)) (commission_amount fill)) (tax_amount fill);
              qty = dec_sub (quantity state) (fill_quantity fill) in
          Inr \<lparr>quantity = qty,
               average_cost = (if dec_is_zero qty then dec_zero else average_cost state),
               realized_pnl = dec_add (realized_pnl state) realized_delta\<rparr>)"

definition apply_fill :: "portfolio \<Rightarrow> int \<Rightarrow> priced_fill \<Rightarrow> (backtest_error, portfolio) result" where
  "apply_fill p i fill =
     rbind (next_position (cash p) (position p i) fill) (\<lambda>next_state.
       Inr (p\<lparr>cash := dec_add (cash p) (cash_delta fill),
              positions := dict_set (positions p) i next_state\<rparr>))"

subsection \<open>Pricing\<close>

lemma BPS_val [simp]: "val BPS_DIVISOR = 10000"
  by (simp add: BPS_DIVISOR_def val_Dec)

lemma div_or_raise_Inr: "div_or_raise x y = Inr z \<longleftrightarrow> dec_div x y = Some z"
  by (simp add: div_or_raise_def split: option.splits)

lemma div_bps_total: "\<exists>z. div_or_raise x BPS_DIVISOR = Inr z"
  using dec_div_None_iff [of x BPS_DIVISOR] by (auto simp: div_or_raise_def split: option.splits)

text \<open>Dividing by a positive number keeps the sign and stays within one part in \<open>10\<^sup>2\<^sup>7\<close>.\<close>

definition eps :: rat where
  "eps = 1 / 10 ^ (PREC - 1)"

lemma eps_le: "10 ^ (PREC - 1) * d \<le> q \<Longrightarrow> d \<le> eps * q"
  by (simp add: eps_def le_divide_eq mult.commute)

lemma eps_small: "0 < eps" "eps * 1000000 \<le> 1"
  by (simp_all add: eps_def PREC_def)

lemma within_eps:
  fixes q z :: rat
  assumes "\<bar>z - q\<bar> \<le> eps * q"
  shows "z \<le> (1 + eps) * q" and "(1 - eps) * q \<le> z"
  using assms by (simp_all add: algebra_simps abs_le_iff)

lemma dec_div_bounds:
  assumes "dec_div x y = Some z" and "0 \<le> val x" and "0 < val y"
  shows "val z \<le> (1 + eps) * (val x / val y)" and "(1 - eps) * (val x / val y) \<le> val z"
  using within_eps [OF eps_le, of "val z" "val x / val y"] dec_div_error [OF assms(1)] assms(2,3) by simp_all

lemma rnd_bounds:
  assumes "isdec q" and "0 \<le> q"
  shows "rnd q \<le> (1 + eps) * q" and "(1 - eps) * q \<le> rnd q"
proof -
  have "2 * (10 ^ (PREC - 1) * \<bar>rnd q - q\<bar>) \<le> q"
    using rnd_error [OF assms(1)] assms(2) by simp
  moreover have "0 \<le> 10 ^ (PREC - 1) * \<bar>rnd q - q\<bar>" by simp
  ultimately have "10 ^ (PREC - 1) * \<bar>rnd q - q\<bar> \<le> q" by linarith
  then show "rnd q \<le> (1 + eps) * q" and "(1 - eps) * q \<le> rnd q"
    using within_eps [OF eps_le] by blast+
qed

lemma price_fill_Inr:
  assumes "price_fill side qty price costs = Inr f"
  obtains slip where
    "0 < val qty" "0 < val price" "fill_side f = side" "fill_quantity f = qty" "fill_reference_price f = price"
    "dec_div (dec_mul (if side = BUY then dec_one else Dec True 1 0) (slippage_bps costs)) BPS_DIVISOR = Some slip"
    "fill_execution_price f = dec_mul price (dec_add dec_one slip)"
    "notional f = dec_mul (fill_execution_price f) qty"
    "dec_div (dec_mul (notional f) (commission_bps costs)) BPS_DIVISOR = Some (commission_amount f)"
    "side = SELL \<Longrightarrow> dec_div (dec_mul (notional f) (sell_tax_bps costs)) BPS_DIVISOR = Some (tax_amount f)"
    "side = BUY \<Longrightarrow> tax_amount f = dec_zero"
    "slippage_amount f = dec_mul (dec_abs (dec_sub (fill_execution_price f) price)) qty"
  using assms
  by (auto simp: price_fill_def Let_def rbind_Inr_iff div_or_raise_Inr not_le split: if_splits)

text \<open>
  A fill is priced exactly when quantity and price are positive; there is no other failure.
\<close>

lemma price_fill_total:
  "0 < val qty \<Longrightarrow> 0 < val price \<Longrightarrow> \<exists>f. price_fill side qty price costs = Inr f"
  using div_bps_total by (auto simp: price_fill_def Let_def rbind_Inr_iff not_le) metis+

text \<open>Costs below the whole notional: the condition under which a sale brings cash in.\<close>

definition costs_bounded :: "transaction_cost_model_spec \<Rightarrow> bool" where
  "costs_bounded c \<longleftrightarrow> costs_ok c \<and> val (slippage_bps c) \<le> 9999 \<and>
     val (commission_bps c) + val (sell_tax_bps c) \<le> 9999"

lemma bps_cost_bounds:
  assumes "dec_div (dec_mul n bps) BPS_DIVISOR = Some z" and "0 \<le> val n" and "0 \<le> val bps"
  shows "0 \<le> val z" and "val z \<le> (1 + eps) * ((1 + eps) * (val n * (val bps / 10000)))"
proof -
  have "0 \<le> rnd (val n * val bps)" and r: "rnd (val n * val bps) \<le> (1 + eps) * (val n * val bps)"
    using assms(2,3) by (simp_all add: rnd_bounds)
  then show "0 \<le> val z"
    using dec_div_nonneg [OF assms(1)] by (simp add: val_dec_mul)
  have "val z \<le> (1 + eps) * (rnd (val n * val bps) / 10000)"
    using dec_div_bounds(1) [OF assms(1)] \<open>0 \<le> rnd _\<close> by (simp add: val_dec_mul)
  also have "\<dots> \<le> (1 + eps) * ((1 + eps) * (val n * (val bps / 10000)))"
    using r eps_small by (intro mult_left_mono) (simp_all add: field_simps)
  finally show "val z \<le> (1 + eps) * ((1 + eps) * (val n * (val bps / 10000)))" .
qed

lemma eps_square:
  fixes e :: rat
  assumes "0 < e" and "e * 1000000 \<le> 1"
  shows "(1 + e) * ((1 + e) * 9999) \<le> 9999 + 1 / 2"
proof -
  have "e * e \<le> e" using assms mult_left_mono [of e 1 e] by simp
  moreover have "(1 + e) * ((1 + e) * 9999) = 9999 + 19998 * e + 9999 * (e * e)"
    by (simp add: algebra_simps)
  ultimately have "(1 + e) * ((1 + e) * 9999) \<le> 9999 + 29997 * e" by simp
  also have "\<dots> \<le> 9999 + 1 / 2" using assms by simp
  finally show ?thesis .
qed

lemma sell_slip_bound:
  assumes "dec_div (dec_mul (Dec True 1 0) s) BPS_DIVISOR = Some z" and "0 \<le> val s" and "val s \<le> 9999"
  shows "- 1 \<le> val z"
proof -
  have v: "val (dec_mul (Dec True 1 0) s) = - rnd (val s)"
    by (simp add: val_dec_mul val_Dec rnd_uminus)
  have r: "0 \<le> rnd (val s)" "rnd (val s) \<le> (1 + eps) * 9999"
    using rnd_bounds(1) [of "val s"] assms(2,3) eps_small mult_left_mono [of "val s" 9999 "1 + eps"]
    by (auto intro: order_trans)
  have "\<bar>val z - (- rnd (val s) / 10000)\<bar> \<le> eps * \<bar>rnd (val s) / 10000\<bar>"
    using eps_le [OF dec_div_error [OF assms(1)]] unfolding v by simp
  then have "- (rnd (val s) / 10000) - eps * (rnd (val s) / 10000) \<le> val z"
    using r(1) abs_le_D2 by fastforce
  moreover have "(1 + eps) * (rnd (val s) / 10000) \<le> (1 + eps) * ((1 + eps) * 9999 / 10000)"
    using r eps_small by (intro mult_left_mono divide_right_mono) simp_all
  moreover have "(1 + eps) * ((1 + eps) * 9999 / 10000) \<le> 1"
    using eps_square [OF eps_small] by simp
  ultimately show ?thesis
    using eps_small by (force simp: algebra_simps)
qed

lemma price_fill_nonneg:
  assumes "price_fill side qty price costs = Inr f" and "costs_ok costs"
    and "side = SELL \<Longrightarrow> val (slippage_bps costs) \<le> 9999"
  shows "0 \<le> val (fill_execution_price f)" and "0 \<le> val (notional f)"
proof -
  from assms(1) show "0 \<le> val (fill_execution_price f)"
  proof (rule price_fill_Inr)
    fix slip
    assume pos: "0 < val qty" "0 < val price"
      and slip: "dec_div (dec_mul (if side = BUY then dec_one else Dec True 1 0) (slippage_bps costs))
        BPS_DIVISOR = Some slip"
      and e: "fill_execution_price f = dec_mul price (dec_add dec_one slip)"
    have "0 \<le> 1 + val slip"
    proof (cases side)
      case BUY
      then have "0 \<le> val slip"
        using slip assms(2) by (auto intro!: dec_div_nonneg [OF slip] simp: val_dec_mul costs_ok_def)
      then show ?thesis by simp
    next
      case SELL
      then show ?thesis
        using sell_slip_bound [of "slippage_bps costs" slip] slip assms(2,3) by (simp add: costs_ok_def)
    qed
    then show ?thesis
      using pos by (simp add: e val_dec_mul val_dec_add)
  qed
  with assms(1) show "0 \<le> val (notional f)"
    by (elim price_fill_Inr) (simp add: val_dec_mul)
qed

lemma sell_margin:
  fixes e n c t a b :: rat
  assumes e: "0 < e" "e * 1000000 \<le> 1" and n: "0 \<le> n" and ab: "0 \<le> a" "0 \<le> b" "a + b \<le> 9999"
    and c: "c \<le> (1 + e) * ((1 + e) * (n * (a / 10000)))" and t: "t \<le> (1 + e) * ((1 + e) * (n * (b / 10000)))"
    and "0 \<le> c"
  shows "c \<le> n" and "t \<le> (1 - e) * (n - c)"
proof -
  define k where "k = (1 + e) * (1 + e)"
  have k: "k * 9999 \<le> 9999 + 1 / 2" and k0: "0 \<le> k"
    using eps_square [OF e] e by (simp_all add: k_def field_simps)
  have "c + t \<le> n * (k * (a + b)) / 10000"
    using c t by (simp add: k_def field_simps)
  also have "\<dots> \<le> n * (k * 9999) / 10000"
    using n k0 ab by (intro divide_right_mono mult_left_mono) simp_all
  also have "\<dots> \<le> n * (9999 + 1 / 2) / 10000"
    using n k by (intro divide_right_mono mult_left_mono) simp_all
  finally have ct: "c + t \<le> n * (9999 + 1 / 2) / 10000" .
  have "c \<le> n * (k * a) / 10000"
    using c by (simp add: k_def field_simps)
  also have "\<dots> \<le> n * (k * 9999) / 10000"
    using n k0 ab by (intro divide_right_mono mult_left_mono) simp_all
  also have "\<dots> \<le> n * (9999 + 1 / 2) / 10000"
    using n k by (intro divide_right_mono mult_left_mono) simp_all
  finally show "c \<le> n" using n by (simp add: field_simps)
  have "e * (n - c) \<le> e * n" using e \<open>0 \<le> c\<close> by (intro mult_left_mono) simp_all
  also have "\<dots> \<le> n / 1000000" using e n mult_right_mono [of e "1 / 1000000" n] by (simp add: field_simps)
  finally show "t \<le> (1 - e) * (n - c)" using ct n by (simp add: field_simps)
qed

lemma sell_cash_delta_nonneg:
  assumes f: "price_fill SELL qty price costs = Inr f" and c: "costs_bounded costs"
  shows "0 \<le> val (cash_delta f)"
proof -
  have ok: "costs_ok costs" and s: "val (slippage_bps costs) \<le> 9999"
    and ct: "val (commission_bps costs) + val (sell_tax_bps costs) \<le> 9999"
    using c by (auto simp: costs_bounded_def)
  have n: "0 \<le> val (notional f)"
    using price_fill_nonneg(2) [OF f ok] s by simp
  have side: "fill_side f = SELL"
    and com: "dec_div (dec_mul (notional f) (commission_bps costs)) BPS_DIVISOR = Some (commission_amount f)"
    and tax: "dec_div (dec_mul (notional f) (sell_tax_bps costs)) BPS_DIVISOR = Some (tax_amount f)"
    using f by (auto elim: price_fill_Inr)
  have bps: "0 \<le> val (commission_bps costs)" "0 \<le> val (sell_tax_bps costs)"
    using ok by (simp_all add: costs_ok_def)
  note m = sell_margin [OF eps_small n bps ct bps_cost_bounds(2) [OF com n bps(1)]
      bps_cost_bounds(2) [OF tax n bps(2)] bps_cost_bounds(1) [OF com n bps(1)]]
  have "(1 - eps) * (val (notional f) - val (commission_amount f)) \<le> rnd (val (notional f) - val (commission_amount f))"
    using m(1) by (intro rnd_bounds(2)) simp_all
  then show ?thesis
    using m(2) by (simp add: cash_delta_def side val_dec_sub)
qed

subsection \<open>The portfolio invariant\<close>

definition position_ok :: "position_state \<Rightarrow> bool" where
  "position_ok s \<longleftrightarrow> 0 \<le> val (quantity s) \<and> 0 \<le> val (average_cost s)"

definition portfolio_ok :: "portfolio \<Rightarrow> bool" where
  "portfolio_ok p \<longleftrightarrow> 0 \<le> val (cash p) \<and> (\<forall>i. position_ok (position p i))"

text \<open>A fill whose cash effect has the sign of its side.\<close>

definition fill_ok :: "priced_fill \<Rightarrow> bool" where
  "fill_ok f \<longleftrightarrow> 0 < val (fill_quantity f) \<and>
     (if fill_side f = BUY then val (cash_delta f) \<le> 0 else 0 \<le> val (cash_delta f))"

lemma position_ok_flat [simp]: "position_ok flat_position"
  by (simp add: position_ok_def flat_position_def)

lemma new_portfolio_ok [inv_intros]: "new_portfolio c = Inr p \<Longrightarrow> portfolio_ok p"
  by (auto simp: new_portfolio_def portfolio_ok_def position_def dict_get_def split: if_splits)

lemma price_fill_ok:
  assumes "price_fill side qty price costs = Inr f" and "costs_bounded costs"
  shows "fill_ok f"
proof (cases side)
  case SELL
  then show ?thesis
    using sell_cash_delta_nonneg [of qty price costs f] assms by (auto simp: fill_ok_def elim: price_fill_Inr)
next
  case BUY
  have ok: "costs_ok costs" using assms(2) by (simp add: costs_bounded_def)
  have n: "0 \<le> val (notional f)"
    using price_fill_nonneg(2) [OF assms(1) ok] BUY by simp
  have com: "dec_div (dec_mul (notional f) (commission_bps costs)) BPS_DIVISOR = Some (commission_amount f)"
    and tax: "tax_amount f = dec_zero" and f: "fill_side f = BUY" "0 < val (fill_quantity f)"
    using assms(1) BUY by (auto elim: price_fill_Inr)
  have "0 \<le> val (commission_amount f)"
    using bps_cost_bounds(1) [OF com n] ok by (simp add: costs_ok_def)
  then show ?thesis
    using n f tax by (simp add: fill_ok_def cash_delta_def val_dec_minus val_dec_add)
qed

lemma position_dict_set: "position (p\<lparr>cash := c, positions := dict_set (positions p) i s\<rparr>) j = (if j = i then s else position p j)"
  by (simp add: position_def dict_get_set)

lemma next_position_ok:
  assumes "next_position c s f = Inr s'" and "position_ok s" and "fill_ok f"
  shows "position_ok s'"
proof (cases "fill_side f")
  case BUY
  have req: "0 \<le> val (dec_minus (cash_delta f))"
    using assms(3) BUY by (simp add: fill_ok_def val_dec_minus)
  let ?total = "dec_add (dec_mul (average_cost s) (quantity s)) (dec_minus (cash_delta f))"
  let ?qty = "dec_add (quantity s) (fill_quantity f)"
  have nn: "0 \<le> val ?total" "0 \<le> val ?qty"
    using assms(2,3) req by (simp_all add: position_ok_def fill_ok_def val_dec_add val_dec_mul)
  obtain avg where s': "s' = \<lparr>quantity = ?qty, average_cost = avg, realized_pnl = realized_pnl s\<rparr>"
      and avg: "dec_div ?total ?qty = Some avg"
    using assms(1) BUY
    by (auto simp: next_position_def Let_def rbind_Inr_iff div_or_raise_Inr split: if_splits)
  show ?thesis
    using dec_div_nonneg [OF avg nn] nn(2) by (simp add: s' position_ok_def)
next
  case SELL
  then show ?thesis
    using assms by (auto simp: next_position_def Let_def position_ok_def val_dec_sub split: if_splits)
qed

lemma next_position_BUY_affordable:
  assumes "next_position c s f = Inr s'" and "fill_side f = BUY"
  shows "0 \<le> val c + val (cash_delta f)"
proof -
  have "val (dec_minus (cash_delta f)) \<le> val c"
    using assms by (auto simp: next_position_def Let_def split: if_splits)
  moreover have "val (dec_minus (cash_delta f)) = - val (cash_delta f)"
    using assms(2) by (simp add: val_dec_minus rnd_uminus cash_delta_def val_dec_add)
  ultimately show ?thesis by simp
qed

lemma apply_fill_ok [inv_intros]:
  assumes "apply_fill p i f = Inr p'" and "portfolio_ok p" and "fill_ok f"
  shows "portfolio_ok p'"
proof -
  from assms(1) obtain s' where s': "next_position (cash p) (position p i) f = Inr s'"
    and p': "p' = p\<lparr>cash := dec_add (cash p) (cash_delta f), positions := dict_set (positions p) i s'\<rparr>"
    by (auto simp: apply_fill_def rbind_Inr_iff)
  have "0 \<le> val (cash p) + val (cash_delta f)"
    using next_position_BUY_affordable [OF s'] assms(2,3)
    by (cases "fill_side f") (auto simp: portfolio_ok_def fill_ok_def)
  moreover have "position_ok s'"
    using next_position_ok [OF s'] assms(2,3) by (simp add: portfolio_ok_def)
  ultimately show ?thesis
    using assms(2) by (auto simp: p' portfolio_ok_def position_dict_set val_dec_add simp del: portfolio.update_convs)
qed

text \<open>When a posting is refused, and that a refusal leaves no trace: the result carries no portfolio.\<close>

lemma apply_fill_refused_iff:
  assumes "portfolio_ok p" and "fill_ok f"
  shows "(\<exists>e. apply_fill p i f = Inl e) \<longleftrightarrow>
     (if fill_side f = BUY then val (cash p) < - val (cash_delta f)
      else val (quantity (position p i)) < val (fill_quantity f))"
proof (cases "fill_side f")
  case BUY
  have "val (dec_minus (cash_delta f)) = - val (cash_delta f)"
    using BUY by (simp add: val_dec_minus rnd_uminus cash_delta_def val_dec_add)
  moreover have "0 < val (quantity (position p i)) + val (fill_quantity f)"
    using assms by (auto simp: portfolio_ok_def position_ok_def fill_ok_def add_nonneg_pos)
  then have "val (dec_add (quantity (position p i)) (fill_quantity f)) \<noteq> 0"
    using rnd_pos [of "val (quantity (position p i)) + val (fill_quantity f)"] by (simp add: val_dec_add)
  then have "\<exists>z. div_or_raise x (dec_add (quantity (position p i)) (fill_quantity f)) = Inr z" for x
    using dec_div_None_iff [of x] by (auto simp: div_or_raise_def split: option.splits)
  ultimately show ?thesis
    using BUY by (auto simp: apply_fill_def next_position_def Let_def) (metis rbind_simps(2) sum.distinct(1))
next
  case SELL
  then show ?thesis by (auto simp: apply_fill_def next_position_def Let_def)
qed

subsection \<open>A ledger whose refusals are skipped\<close>

locale fallible_ledger =
  fixes post :: "'s \<Rightarrow> 'f \<Rightarrow> ('e, 's) result"
    and inv :: "'s \<Rightarrow> bool"
    and ok :: "'f \<Rightarrow> bool"
  assumes post_inv: "post s f = Inr s' \<Longrightarrow> inv s \<Longrightarrow> ok f \<Longrightarrow> inv s'"
begin

lemma post_skip_inv: "inv s \<Longrightarrow> ok f \<Longrightarrow> inv (case post s f of Inl e \<Rightarrow> s | Inr s' \<Rightarrow> s')"
  by (auto intro: post_inv split: sum.splits)

lemma run_skip_inv:
  "inv s \<Longrightarrow> (\<And>f. f \<in> set fs \<Longrightarrow> ok f) \<Longrightarrow>
     inv (foldl (\<lambda>s f. case post s f of Inl e \<Rightarrow> s | Inr s' \<Rightarrow> s') s fs)"
  by (induction fs arbitrary: s) (simp_all add: post_skip_inv)

end

interpretation book: fallible_ledger "\<lambda>p (i, f). apply_fill p i f" portfolio_ok "\<lambda>(i, f). fill_ok f"
  by unfold_locales (auto intro: apply_fill_ok)

end
