(* ===== verification/Backtest_Strategy.thy ===== *)
theory Backtest_Strategy
  imports Backtest_Contracts
begin

text \<open>
  The reference strategy (\<^verbatim>\<open>src/bisfin/backtest/strategies.py\<close>): a long/flat crossover of two simple
  moving averages of closing prices. The lemmas give the decision on every branch and show that
  validated parameters never make it fail.
\<close>

definition require_int :: "param option \<Rightarrow> (backtest_error, int) result" where
  "require_int p =
     (case p of None \<Rightarrow> Inl KeyError | Some (ParamInt i) \<Rightarrow> Inr i | Some (ParamDec _) \<Rightarrow> Inl AssertionError)"

definition require_dec :: "param option \<Rightarrow> (backtest_error, decimal) result" where
  "require_dec p =
     (case p of None \<Rightarrow> Inl KeyError | Some (ParamDec d) \<Rightarrow> Inr d | Some (ParamInt _) \<Rightarrow> Inl AssertionError)"

text \<open>\<^verbatim>\<open>xs[-n:]\<close> for any integer: a nonpositive \<open>n\<close> counts from the front.\<close>

definition slice_last :: "int \<Rightarrow> 'a list \<Rightarrow> 'a list" where
  "slice_last n xs = (if 0 < n then last_n (nat n) xs else drop (nat (- n)) xs)"

definition mean_or_raise :: "decimal list \<Rightarrow> int \<Rightarrow> (backtest_error, decimal) result" where
  "mean_or_raise xs n =
     (case dec_div (dec_sum dec_zero xs) (dec_of_int n) of None \<Rightarrow> Inl DivisionByZero | Some m \<Rightarrow> Inr m)"

definition make_intent ::
  "int \<Rightarrow> timestamp \<Rightarrow> decimal \<Rightarrow> string \<Rightarrow> (backtest_error, target_position_intent) result" where
  "make_intent i ts q reason =
     (if dec_lt q dec_zero then Inl (ValueError ''target_quantity'')
      else Inr \<lparr>intent_instrument_id = i, intent_decision_ts = ts, intent_target_quantity = q,
                intent_reason_code = reason\<rparr>)"

definition sma_decide :: "decision_view \<Rightarrow> (backtest_error, target_position_intent) result" where
  "sma_decide ctx =
     (let ps = strategy_parameters (view_parameters ctx); bars = visible_bars_of ctx in
      rbind (require_int (dict_get ps (u ''fast_window''))) (\<lambda>fast.
      rbind (require_int (dict_get ps (u ''slow_window''))) (\<lambda>slow.
      rbind (require_dec (dict_get ps (u ''target_quantity''))) (\<lambda>target.
      if int (length bars) < slow
      then make_intent (view_instrument_id ctx) (view_decision_ts ctx) dec_zero ''SMA_WARMUP''
      else
        let closes = map close_price (slice_last slow bars) in
        rbind (mean_or_raise (slice_last fast closes) fast) (\<lambda>fast_sma.
        rbind (mean_or_raise closes slow) (\<lambda>slow_sma.
        let qty = (if dec_lt slow_sma fast_sma then target else dec_zero) in
        make_intent (view_instrument_id ctx) (view_decision_ts ctx) qty
          (if dec_is_zero qty then ''SMA_CROSS_FLAT'' else ''SMA_CROSS_LONG'')))))))"

lemma mean_or_raise_total: "n \<noteq> 0 \<Longrightarrow> \<exists>m. mean_or_raise xs n = Inr m"
  using dec_div_None_iff [of "dec_sum dec_zero xs" "dec_of_int n"]
  by (auto simp: mean_or_raise_def split: option.splits)

lemma require_ok:
  assumes "strategy_ok s fast slow q"
  shows "require_int (dict_get (strategy_parameters s) (u ''fast_window'')) = Inr fast"
    and "require_int (dict_get (strategy_parameters s) (u ''slow_window'')) = Inr slow"
    and "require_dec (dict_get (strategy_parameters s) (u ''target_quantity'')) = Inr q"
  using assms by (simp_all only: strategy_ok_def require_int_def require_dec_def option.case param.case)

text \<open>With validated parameters the strategy always decides: flat while warming up, then by the averages.\<close>

lemma sma_decide_spec:
  assumes ok: "strategy_ok (view_parameters ctx) fast slow q"
  obtains (warmup) "int (length (visible_bars_of ctx)) < slow"
      "sma_decide ctx = Inr \<lparr>intent_instrument_id = view_instrument_id ctx,
         intent_decision_ts = view_decision_ts ctx, intent_target_quantity = dec_zero,
         intent_reason_code = ''SMA_WARMUP''\<rparr>"
  | (decided) f s where "slow \<le> int (length (visible_bars_of ctx))"
      "mean_or_raise (map close_price (last_n (nat fast) (visible_bars_of ctx))) fast = Inr f"
      "mean_or_raise (map close_price (last_n (nat slow) (visible_bars_of ctx))) slow = Inr s"
      "sma_decide ctx = Inr \<lparr>intent_instrument_id = view_instrument_id ctx,
         intent_decision_ts = view_decision_ts ctx,
         intent_target_quantity = (if val s < val f then q else dec_zero),
         intent_reason_code = (if val s < val f then ''SMA_CROSS_LONG'' else ''SMA_CROSS_FLAT'')\<rparr>"
proof (cases "int (length (visible_bars_of ctx)) < slow")
  case True
  then show ?thesis
    using warmup require_ok [OF ok] by (simp only: sma_decide_def Let_def rbind_simps make_intent_def) simp
next
  case False
  have w: "0 < fast" "0 < slow" "fast < slow" and q: "0 < val q"
    using ok by (auto simp: strategy_ok_def)
  obtain f where f: "mean_or_raise (map close_price (last_n (nat fast) (visible_bars_of ctx))) fast = Inr f"
    using mean_or_raise_total w(1) by fastforce
  obtain s where s: "mean_or_raise (map close_price (last_n (nat slow) (visible_bars_of ctx))) slow = Inr s"
    using mean_or_raise_total w(2) by fastforce
  have fast: "slice_last fast (map close_price (last_n (nat slow) (visible_bars_of ctx))) =
      map close_price (last_n (nat fast) (visible_bars_of ctx))"
    using w last_n_last_n [of "nat fast" "nat slow" "visible_bars_of ctx"]
    by (simp add: slice_last_def last_n_def drop_map)
  have slow: "slice_last slow (visible_bars_of ctx) = last_n (nat slow) (visible_bars_of ctx)"
    using w by (simp add: slice_last_def)
  have "sma_decide ctx = Inr \<lparr>intent_instrument_id = view_instrument_id ctx,
         intent_decision_ts = view_decision_ts ctx,
         intent_target_quantity = (if val s < val f then q else dec_zero),
         intent_reason_code = (if val s < val f then ''SMA_CROSS_LONG'' else ''SMA_CROSS_FLAT'')\<rparr>"
    using False q f s
    by (simp only: sma_decide_def Let_def rbind_simps require_ok [OF ok] fast slow) (simp add: make_intent_def)
  with False f s show ?thesis
    using decided by simp
qed

lemma sma_decide_target:
  assumes "strategy_ok (view_parameters ctx) fast slow q" and "sma_decide ctx = Inr intent"
  shows "intent_target_quantity intent = dec_zero \<or> intent_target_quantity intent = q"
  by (rule sma_decide_spec [OF assms(1)]) (use assms(2) in \<open>auto split: if_splits\<close>)

end
