(* ===== verification/Backtest_Engine.thy ===== *)
theory Backtest_Engine
  imports Backtest_Selector Backtest_Accounting Backtest_Strategy
begin

text \<open>
  The simulator (\<^verbatim>\<open>src/bisfin/backtest/engine.py\<close>): an event loop over decision instants and the
  instants at which orders become executable. The state is a record of the portfolio, the pending
  orders by instant, the journals and the schedule \<^verbatim>\<open>all_times\<close>; an event first fills the orders
  due at its instant and then decides for every bar that becomes visible at it. Digests are a
  parameter \<open>sha256\<close>; Pydantic's JSON-mode dump of a request is the parameter \<open>dump\<close>. The loop is run
  with a fuel of one more than the number of instants that can ever be scheduled, which is
  proved to be enough.
\<close>

subsection \<open>Journals\<close>

record simulated_decision =
  sequence :: int
  decision_instrument_id :: int
  decision_ts :: timestamp
  decision_trigger_bar :: decision_bar
  inputs :: "decision_bar list"
  state_sha256 :: pystr
  input_manifest_sha256 :: pystr

record simulated_signal =
  decision_sequence :: int
  signal_instrument_id :: int
  signal_ts :: timestamp
  target_quantity :: decimal
  reason_code :: string
  signal_trigger_bar :: decision_bar

record simulated_order =
  semantic_key :: pystr
  order_signal :: simulated_signal
  order_side :: order_side
  order_quantity :: decimal
  submitted_at :: timestamp
  execution_bar :: "decision_bar option"
  rejected_reason :: "string option"

record simulated_fill =
  fill_order :: simulated_order
  fill_ts :: timestamp
  reference_bar :: decision_bar
  reference_price :: decimal
  economics :: priced_fill

record simulated_valuation =
  valuation_instrument_id :: int
  snapshot_ts :: timestamp
  valuation_reference_bar :: decision_bar
  valuation_quantity :: decimal
  valuation_average_cost :: decimal
  valuation_realized_pnl :: decimal
  market_value :: decimal
  unrealized_pnl :: decimal

record simulation_result =
  decisions :: "simulated_decision list"
  signals :: "simulated_signal list"
  orders :: "simulated_order list"
  fills :: "simulated_fill list"
  final_cash :: decimal
  final_positions :: "(int \<times> position_state) list"
  valuations :: "simulated_valuation list"
  equity_base :: decimal

text \<open>The local variables of \<^verbatim>\<open>simulate\<close>.\<close>

record sim_state =
  st_portfolio :: portfolio
  st_pending :: "(timestamp, simulated_order list) dict"
  st_decisions :: "simulated_decision list"
  st_signals :: "simulated_signal list"
  st_orders :: "simulated_order list"
  st_fills :: "simulated_fill list"
  st_times :: "timestamp list"

type_synonym selectors = "(int, selector) dict"
type_synonym event = "timestamp \<times> int \<times> decision_bar"

definition lookup_or_raise :: "('k, 'v) dict \<Rightarrow> 'k \<Rightarrow> (backtest_error, 'v) result" where
  "lookup_or_raise d k = (case dict_get d k of None \<Rightarrow> Inl KeyError | Some v \<Rightarrow> Inr v)"

subsection \<open>Hashes and identities\<close>

definition hash_or_raise :: "(bytes \<Rightarrow> pystr) \<Rightarrow> pyval \<Rightarrow> (backtest_error, pystr) result" where
  "hash_or_raise sha256 v = (case json_sha256 sha256 v of Inl e \<Rightarrow> Inl (SerializationError e) | Inr h \<Rightarrow> Inr h)"

definition param_value :: "param \<Rightarrow> pyval" where
  "param_value p = (case p of ParamDec d \<Rightarrow> PyDec d | ParamInt i \<Rightarrow> PyInt i)"

definition parameters_value :: "(pystr, param) dict \<Rightarrow> pyval" where
  "parameters_value ps = PyDict (map (\<lambda>(k, p). (k, param_value p)) ps)"

definition state_hash ::
  "(bytes \<Rightarrow> pystr) \<Rightarrow> backtest_run_request \<Rightarrow> int \<Rightarrow> decimal \<Rightarrow> position_state \<Rightarrow> (backtest_error, pystr) result" where
  "state_hash sha256 request iid c state =
     hash_or_raise sha256 (PyDict
       [(u ''instrument_id'', PyInt iid),
        (u ''cash'', PyDec c),
        (u ''current_quantity'', PyDec (quantity state)),
        (u ''average_cost'', PyDec (average_cost state)),
        (u ''realized_pnl'', PyDec (realized_pnl state)),
        (u ''strategy_parameters'', parameters_value (strategy_parameters (strategy request)))])"

definition input_value :: "decision_bar \<Rightarrow> pyval" where
  "input_value b = PyDict
     [(u ''input_role'', PyStr (u ''SIGNAL'')),
      (u ''bar_open_ts'', PyDateTime (bar_open_ts b)),
      (u ''bar_series_id'', PyInt (bar_series_id b)),
      (u ''revision_no'', PyInt (revision_no b)),
      (u ''available_at'', PyDateTime (available_at b)),
      (u ''effective_available_at'', PyDateTime (effective_available_at b)),
      (u ''close_price'', PyDec (close_price b))]"

definition input_hash :: "(bytes \<Rightarrow> pystr) \<Rightarrow> decision_bar list \<Rightarrow> (backtest_error, pystr) result" where
  "input_hash sha256 bars = hash_or_raise sha256 (PyList (map input_value bars))"

definition run_semantic_identity ::
  "(bytes \<Rightarrow> pystr) \<Rightarrow> (backtest_run_request \<Rightarrow> (pystr, pyval) dict) \<Rightarrow> backtest_run_request
     \<Rightarrow> (backtest_error, pystr) result" where
  "run_semantic_identity sha256 dump request =
     hash_or_raise sha256 (PyDict (dict_pop (dump request) (u ''run_code'')))"

text \<open>What \<^verbatim>\<open>simulate\<close> is called with, apart from the state it builds.\<close>

record sim_config =
  cfg_sha256 :: "bytes \<Rightarrow> pystr"
  cfg_dump :: "backtest_run_request \<Rightarrow> (pystr, pyval) dict"
  cfg_request :: backtest_run_request
  cfg_signal :: selectors
  cfg_execution :: selectors
  cfg_valuation :: selectors
  cfg_run_spec :: "pystr option"

definition identity_or_raise :: "sim_config \<Rightarrow> (backtest_error, pystr) result" where
  "identity_or_raise cfg =
     (case cfg_run_spec cfg of
        Some h \<Rightarrow> if h \<noteq> [] then Inr h
          else run_semantic_identity (cfg_sha256 cfg) (cfg_dump cfg) (cfg_request cfg)
      | None \<Rightarrow> run_semantic_identity (cfg_sha256 cfg) (cfg_dump cfg) (cfg_request cfg))"

subsection \<open>Filling the orders that are due\<close>

definition fill_one :: "sim_config \<Rightarrow> simulated_order \<Rightarrow> sim_state \<Rightarrow> (backtest_error, sim_state) result" where
  "fill_one cfg order st =
     (case execution_bar order of
        None \<Rightarrow> Inr st
      | Some bar \<Rightarrow>
          rbind (price_fill (order_side order) (order_quantity order) (close_price bar)
            (transaction_cost_model (cfg_request cfg))) (\<lambda>priced.
          case apply_fill (st_portfolio st) (signal_instrument_id (order_signal order)) priced of
            Inl (BacktestValidationError m) \<Rightarrow> Inr st
          | Inl e \<Rightarrow> Inl e
          | Inr p \<Rightarrow> Inr (st\<lparr>st_portfolio := p,
              st_fills := st_fills st @ [\<lparr>fill_order = order, fill_ts = effective_available_at bar,
                reference_bar = bar, reference_price = close_price bar, economics = priced\<rparr>]\<rparr>)))"

fun fill_all :: "sim_config \<Rightarrow> simulated_order list \<Rightarrow> sim_state \<Rightarrow> (backtest_error, sim_state) result" where
  "fill_all cfg [] st = Inr st"
| "fill_all cfg (ord # ords) st = rbind (fill_one cfg ord st) (fill_all cfg ords)"

definition due_orders :: "timestamp \<Rightarrow> sim_state \<Rightarrow> simulated_order list" where
  "due_orders ts st =
     sort_key semantic_key (case dict_get (st_pending st) ts of None \<Rightarrow> [] | Some ords \<Rightarrow> ords)"

definition fill_due :: "sim_config \<Rightarrow> timestamp \<Rightarrow> sim_state \<Rightarrow> (backtest_error, sim_state) result" where
  "fill_due cfg ts st =
     fill_all cfg (due_orders ts st) (st\<lparr>st_pending := dict_pop (st_pending st) ts\<rparr>)"

subsection \<open>Deciding for one bar\<close>

text \<open>\<^verbatim>\<open>next(item for item in request.instruments if item.instrument_id == instrument_id)\<close>.\<close>

definition find_instrument :: "backtest_run_request \<Rightarrow> int \<Rightarrow> (backtest_error, run_instrument_spec) result" where
  "find_instrument r iid =
     (case find (\<lambda>i. instrument_id i = iid) (instruments r) of None \<Rightarrow> Inl StopIteration | Some i \<Rightarrow> Inr i)"

definition schedule_time :: "timestamp \<Rightarrow> timestamp list \<Rightarrow> timestamp list" where
  "schedule_time t ts = (if t \<in> set ts then ts else sort (ts @ [t]))"

definition place_order ::
  "sim_config \<Rightarrow> event \<Rightarrow> simulated_decision \<Rightarrow> target_position_intent \<Rightarrow> position_state \<Rightarrow> sim_state
     \<Rightarrow> (backtest_error, sim_state) result" where
  "place_order cfg ev decision intent state st =
     (case ev of (event_ts, iid, trigger_bar) \<Rightarrow>
      let sig = \<lparr>decision_sequence = sequence decision, signal_instrument_id = iid, signal_ts = event_ts,
                 target_quantity = intent_target_quantity intent, reason_code = intent_reason_code intent,
                 signal_trigger_bar = trigger_bar\<rparr>;
          st = st\<lparr>st_signals := st_signals st @ [sig]\<rparr>;
          qty = dec_abs (dec_sub (intent_target_quantity intent) (quantity state));
          side = (if dec_lt (quantity state) (intent_target_quantity intent) then BUY else SELL) in
      rbind (find_instrument (cfg_request cfg) iid) (\<lambda>instrument.
      rbind (lookup_or_raise (cfg_execution cfg) iid) (\<lambda>selector.
      rbind (next_execution_bar selector (bar_open_ts trigger_bar) event_ts
        (execution_lag_seconds instrument)) (\<lambda>exec_bar.
      rbind (identity_or_raise cfg) (\<lambda>identity.
      let key = join [124] [identity, str_int (sequence decision), str_int iid,
                            dec_str (intent_target_quantity intent)];
          order = \<lparr>semantic_key = key, order_signal = sig, order_side = side, order_quantity = qty,
                   submitted_at = event_ts, execution_bar = exec_bar,
                   rejected_reason = (if exec_bar \<noteq> None then None else Some ''NO_ELIGIBLE_EXECUTION_BAR'')\<rparr>;
          st = st\<lparr>st_orders := st_orders st @ [order]\<rparr> in
      case exec_bar of
        None \<Rightarrow> Inr st
      | Some b \<Rightarrow> Inr (st\<lparr>st_pending := dict_append (st_pending st) (effective_available_at b) order,
                       st_times := schedule_time (effective_available_at b) (st_times st)\<rparr>))))))"

definition decide_one :: "sim_config \<Rightarrow> event \<Rightarrow> sim_state \<Rightarrow> (backtest_error, sim_state) result" where
  "decide_one cfg ev st =
     (case ev of (event_ts, iid, trigger_bar) \<Rightarrow>
      rbind (lookup_or_raise (cfg_signal cfg) iid) (\<lambda>selector.
      rbind (require_int (dict_get (strategy_parameters (strategy (cfg_request cfg))) (u ''slow_window''))) (\<lambda>slow_window.
      let visible = visible_bars selector event_ts;
          window = slice_last slow_window visible;
          state = position (st_portfolio st) iid in
      rbind (state_hash (cfg_sha256 cfg) (cfg_request cfg) iid (cash (st_portfolio st)) state) (\<lambda>state_sha.
      rbind (input_hash (cfg_sha256 cfg) window) (\<lambda>input_sha.
      let decision = \<lparr>sequence = int (length (st_decisions st)) + 1, decision_instrument_id = iid,
                      decision_ts = event_ts, decision_trigger_bar = trigger_bar, inputs = window,
                      state_sha256 = state_sha, input_manifest_sha256 = input_sha\<rparr>;
          st = st\<lparr>st_decisions := st_decisions st @ [decision]\<rparr> in
      rbind (sma_decide \<lparr>view_instrument_id = iid, view_decision_ts = event_ts, visible_bars_of = window,
               current_quantity = quantity state, view_average_cost = average_cost state,
               view_realized_pnl = realized_pnl state, view_cash = cash (st_portfolio st),
               view_parameters = strategy (cfg_request cfg)\<rparr>) (\<lambda>intent.
      if dec_eq (intent_target_quantity intent) (quantity state) then Inr st
      else place_order cfg ev decision intent state st))))))"

fun decide_all :: "sim_config \<Rightarrow> event list \<Rightarrow> sim_state \<Rightarrow> (backtest_error, sim_state) result" where
  "decide_all cfg [] st = Inr st"
| "decide_all cfg (ev # evs) st = rbind (decide_one cfg ev st) (decide_all cfg evs)"

subsection \<open>The event loop\<close>

definition process_time ::
  "sim_config \<Rightarrow> event list \<Rightarrow> timestamp \<Rightarrow> sim_state \<Rightarrow> (backtest_error, sim_state) result" where
  "process_time cfg events ts st =
     rbind (fill_due cfg ts st) (decide_all cfg (filter (\<lambda>ev. fst ev = ts) events))"

fun sim_loop ::
  "nat \<Rightarrow> sim_config \<Rightarrow> event list \<Rightarrow> nat \<Rightarrow> sim_state \<Rightarrow> (backtest_error, sim_state) result option" where
  "sim_loop 0 cfg events index st = None"
| "sim_loop (Suc fuel) cfg events index st =
     (if index < length (st_times st)
      then (case process_time cfg events (st_times st ! index) st of
              Inl e \<Rightarrow> Some (Inl e)
            | Inr st' \<Rightarrow> sim_loop fuel cfg events (Suc index) st')
      else Some (Inr st))"

definition validate_bindings :: "sim_config \<Rightarrow> (backtest_error, unit) result" where
  "validate_bindings cfg =
     (let expected = set (map instrument_id (instruments (cfg_request cfg))) in
      if set (dict_keys (cfg_signal cfg)) \<noteq> expected \<or> set (dict_keys (cfg_execution cfg)) \<noteq> expected
      then Inl (BacktestValidationError ''Every explicit run instrument requires signal and execution data.'')
      else Inr ())"

definition instrument_events ::
  "sim_config \<Rightarrow> run_instrument_spec \<Rightarrow> (backtest_error, event list) result" where
  "instrument_events cfg i =
     rbind (lookup_or_raise (cfg_signal cfg) (instrument_id i)) (\<lambda>selector.
       map_result (\<lambda>(ts, open_ts).
           rbind (lookup_or_raise (map (\<lambda>b. (bar_open_ts b, b)) (visible_bars selector ts)) open_ts) (\<lambda>b.
             Inr (ts, instrument_id i, b)))
         (filter (\<lambda>(ts, _). event_from (cfg_request cfg) \<le> ts \<and> ts < event_to (cfg_request cfg))
           (decision_schedule selector)))"

definition decision_events :: "sim_config \<Rightarrow> (backtest_error, event list) result" where
  "decision_events cfg =
     rbind (map_result (instrument_events cfg) (instruments (cfg_request cfg))) (\<lambda>evs.
       Inr (sort_key (\<lambda>(ts, iid, b). (ts, iid, bar_series_id b, bar_open_ts b)) (concat evs)))"

definition final_valuation ::
  "sim_config \<Rightarrow> selectors \<Rightarrow> portfolio \<Rightarrow> run_instrument_spec \<Rightarrow> (backtest_error, simulated_valuation) result" where
  "final_valuation cfg data p i =
     (let state = position p (instrument_id i) in
      rbind (lookup_or_raise data (instrument_id i)) (\<lambda>selector.
      let visible = visible_bars selector (event_to (cfg_request cfg)) in
      if visible = []
      then Inl (BacktestValidationError ''Reference valuation component has no bar visible at event_to.'')
      else
        let reference = last visible in
        Inr \<lparr>valuation_instrument_id = instrument_id i, snapshot_ts = event_to (cfg_request cfg),
             valuation_reference_bar = reference, valuation_quantity = quantity state,
             valuation_average_cost = average_cost state, valuation_realized_pnl = realized_pnl state,
             market_value = dec_mul (quantity state) (close_price reference),
             unrealized_pnl = dec_mul (dec_sub (close_price reference) (average_cost state)) (quantity state)\<rparr>))"

definition final_valuations ::
  "sim_config \<Rightarrow> selectors \<Rightarrow> portfolio \<Rightarrow> (backtest_error, simulated_valuation list) result" where
  "final_valuations cfg data p = map_result (final_valuation cfg data p) (instruments (cfg_request cfg))"

text \<open>The instants that can ever be scheduled: the decisions' and those of execution bars.\<close>

definition loop_fuel :: "sim_config \<Rightarrow> event list \<Rightarrow> nat" where
  "loop_fuel cfg events =
     length (remdups (map fst events @
       map effective_available_at (concat (map snd (concat (map snd (cfg_execution cfg))))))) + 1"

definition finish :: "sim_config \<Rightarrow> selectors \<Rightarrow> sim_state \<Rightarrow> (backtest_error, simulation_result) result" where
  "finish cfg data st =
     rbind (final_valuations cfg data (st_portfolio st)) (\<lambda>vals.
       Inr \<lparr>decisions = st_decisions st, signals = st_signals st, orders = st_orders st,
            fills = st_fills st, final_cash = cash (st_portfolio st),
            final_positions = map (\<lambda>i. (instrument_id i, position (st_portfolio st) (instrument_id i)))
              (instruments (cfg_request cfg)),
            valuations = vals,
            equity_base = dec_add (cash (st_portfolio st)) (dec_sum dec_zero (map market_value vals))\<rparr>)"

definition initial_state :: "portfolio \<Rightarrow> event list \<Rightarrow> sim_state" where
  "initial_state p events =
     \<lparr>st_portfolio = p, st_pending = [], st_decisions = [], st_signals = [], st_orders = [],
      st_fills = [], st_times = sort (remdups (map fst events))\<rparr>"

definition simulate :: "sim_config \<Rightarrow> (backtest_error, simulation_result) result option" where
  "simulate cfg =
     (case validate_bindings cfg of
        Inl e \<Rightarrow> Some (Inl e)
      | Inr _ \<Rightarrow>
          let data = (if cfg_valuation cfg = [] then cfg_execution cfg else cfg_valuation cfg) in
          if set (dict_keys data) \<noteq> set (map instrument_id (instruments (cfg_request cfg)))
          then Some (Inl (BacktestValidationError ''Every explicit run instrument requires valuation data.''))
          else
            (case new_portfolio (initial_capital (cfg_request cfg)) of
               Inl e \<Rightarrow> Some (Inl e)
             | Inr p \<Rightarrow>
                 (case decision_events cfg of
                    Inl e \<Rightarrow> Some (Inl e)
                  | Inr events \<Rightarrow>
                      (case sim_loop (loop_fuel cfg events) cfg events 0 (initial_state p events) of
                         None \<Rightarrow> None
                       | Some (Inl e) \<Rightarrow> Some (Inl e)
                       | Some (Inr st) \<Rightarrow> Some (finish cfg data st)))))"

subsection \<open>What one step does\<close>

lemma lookup_or_raise_Inr: "lookup_or_raise d k = Inr v \<longleftrightarrow> dict_get d k = Some v"
  by (simp add: lookup_or_raise_def split: option.splits)

lemma fill_one_cases:
  assumes "fill_one cfg ord st = Inr st'"
  obtains (skip) "st' = st"
  | (filled) bar priced p where "execution_bar ord = Some bar"
      "price_fill (order_side ord) (order_quantity ord) (close_price bar)
         (transaction_cost_model (cfg_request cfg)) = Inr priced"
      "apply_fill (st_portfolio st) (signal_instrument_id (order_signal ord)) priced = Inr p"
      "st' = st\<lparr>st_portfolio := p,
         st_fills := st_fills st @ [\<lparr>fill_order = ord, fill_ts = effective_available_at bar,
           reference_bar = bar, reference_price = close_price bar, economics = priced\<rparr>]\<rparr>"
proof (cases "execution_bar ord")
  case None
  then show ?thesis using assms skip by (simp add: fill_one_def)
next
  case (Some bar)
  then obtain priced where priced: "price_fill (order_side ord) (order_quantity ord) (close_price bar)
      (transaction_cost_model (cfg_request cfg)) = Inr priced"
    using assms by (auto simp: fill_one_def rbind_Inr_iff)
  show ?thesis
  proof (cases "apply_fill (st_portfolio st) (signal_instrument_id (order_signal ord)) priced")
    case (Inl e)
    then show ?thesis
      using assms Some priced skip by (cases e) (simp_all add: fill_one_def)
  next
    case (Inr p)
    then show ?thesis
      using assms Some priced filled by (simp add: fill_one_def)
  qed
qed

text \<open>The decision taken for an event, the order placed for it, and the state after each.\<close>

definition decision_made :: "sim_config \<Rightarrow> event \<Rightarrow> sim_state \<Rightarrow> simulated_decision \<Rightarrow> bool" where
  "decision_made cfg ev st d \<longleftrightarrow>
     (\<exists>sel slow. dict_get (cfg_signal cfg) (fst (snd ev)) = Some sel \<and>
        require_int (dict_get (strategy_parameters (strategy (cfg_request cfg))) (u ''slow_window'')) = Inr slow \<and>
        inputs d = slice_last slow (visible_bars sel (fst ev))) \<and>
     sequence d = int (length (st_decisions st)) + 1 \<and> decision_instrument_id d = fst (snd ev) \<and>
     decision_ts d = fst ev \<and> decision_trigger_bar d = snd (snd ev)"

definition order_placed :: "sim_config \<Rightarrow> event \<Rightarrow> simulated_decision \<Rightarrow> position_state \<Rightarrow> simulated_order \<Rightarrow> bool" where
  "order_placed cfg ev d s ord \<longleftrightarrow>
     (let sig = order_signal ord; target = target_quantity sig in
      decision_sequence sig = sequence d \<and> signal_instrument_id sig = fst (snd ev) \<and> signal_ts sig = fst ev \<and>
      signal_trigger_bar sig = snd (snd ev) \<and> val target \<noteq> val (quantity s) \<and>
      order_side ord = (if val (quantity s) < val target then BUY else SELL) \<and>
      order_quantity ord = dec_abs (dec_sub target (quantity s)) \<and> submitted_at ord = fst ev \<and>
      (\<exists>i sel. i \<in> set (instruments (cfg_request cfg)) \<and> instrument_id i = fst (snd ev) \<and>
         dict_get (cfg_execution cfg) (fst (snd ev)) = Some sel \<and>
         next_execution_bar sel (bar_open_ts (snd (snd ev))) (fst ev) (execution_lag_seconds i)
           = Inr (execution_bar ord)) \<and>
      (rejected_reason ord = None \<longleftrightarrow> execution_bar ord \<noteq> None))"

definition enqueue :: "simulated_order \<Rightarrow> sim_state \<Rightarrow> sim_state" where
  "enqueue ord st =
     (let st = st\<lparr>st_signals := st_signals st @ [order_signal ord], st_orders := st_orders st @ [ord]\<rparr> in
      case execution_bar ord of
        None \<Rightarrow> st
      | Some b \<Rightarrow> st\<lparr>st_pending := dict_append (st_pending st) (effective_available_at b) ord,
                     st_times := schedule_time (effective_available_at b) (st_times st)\<rparr>)"

lemma place_order_cases:
  assumes "place_order cfg ev d intent s st = Inr st'" and "val (intent_target_quantity intent) \<noteq> val (quantity s)"
  obtains ord where "order_placed cfg ev d s ord" and "st' = enqueue ord st"
proof -
  obtain ts iid trig where ev: "ev = (ts, iid, trig)" by (cases ev)
  from assms(1) obtain i sel xb ident where
    i: "find_instrument (cfg_request cfg) iid = Inr i" and sel: "dict_get (cfg_execution cfg) iid = Some sel" and
    xb: "next_execution_bar sel (bar_open_ts trig) ts (execution_lag_seconds i) = Inr xb" and
    ident: "identity_or_raise cfg = Inr ident"
    by (auto simp: place_order_def ev Let_def rbind_Inr_iff lookup_or_raise_Inr)
  define ord where "ord = \<lparr>semantic_key = join [124] [ident, str_int (sequence d), str_int iid,
        dec_str (intent_target_quantity intent)],
      order_signal = \<lparr>decision_sequence = sequence d, signal_instrument_id = iid, signal_ts = ts,
        target_quantity = intent_target_quantity intent, reason_code = intent_reason_code intent,
        signal_trigger_bar = trig\<rparr>,
      order_side = (if dec_lt (quantity s) (intent_target_quantity intent) then BUY else SELL),
      order_quantity = dec_abs (dec_sub (intent_target_quantity intent) (quantity s)),
      submitted_at = ts, execution_bar = xb,
      rejected_reason = (if xb \<noteq> None then None else Some ''NO_ELIGIBLE_EXECUTION_BAR'')\<rparr>"
  have "i \<in> set (instruments (cfg_request cfg)) \<and> instrument_id i = iid"
    using i by (auto simp: find_instrument_def find_Some_iff split: option.splits)
  then have "order_placed cfg ev d s ord"
    using sel xb assms(2) by (auto simp: order_placed_def ord_def ev Let_def)
  moreover have "st' = enqueue ord st"
    using assms(1) i sel xb ident
    by (cases xb) (auto simp: place_order_def ev Let_def lookup_or_raise_def enqueue_def ord_def
        simp del: join.simps)
  ultimately show ?thesis by (rule that)
qed

lemma decide_one_cases:
  assumes "decide_one cfg ev st = Inr st'"
  obtains (hold) d where "decision_made cfg ev st d" "st' = st\<lparr>st_decisions := st_decisions st @ [d]\<rparr>"
  | (trade) d ord where "decision_made cfg ev st d"
      "order_placed cfg ev d (position (st_portfolio st) (fst (snd ev))) ord"
      "st' = enqueue ord (st\<lparr>st_decisions := st_decisions st @ [d]\<rparr>)"
proof -
  obtain ts iid trig where ev: "ev = (ts, iid, trig)" by (cases ev)
  let ?s = "position (st_portfolio st) iid"
  from assms obtain sel slow h1 h2 intent where
    sel: "dict_get (cfg_signal cfg) iid = Some sel" and
    slow: "require_int (dict_get (strategy_parameters (strategy (cfg_request cfg))) (u ''slow_window'')) = Inr slow" and
    st': "(if dec_eq (intent_target_quantity intent) (quantity ?s)
      then Inr (st\<lparr>st_decisions := st_decisions st @ [\<lparr>sequence = int (length (st_decisions st)) + 1,
        decision_instrument_id = iid, decision_ts = ts, decision_trigger_bar = trig,
        inputs = slice_last slow (visible_bars sel ts), state_sha256 = h1, input_manifest_sha256 = h2\<rparr>]\<rparr>)
      else place_order cfg ev \<lparr>sequence = int (length (st_decisions st)) + 1,
        decision_instrument_id = iid, decision_ts = ts, decision_trigger_bar = trig,
        inputs = slice_last slow (visible_bars sel ts), state_sha256 = h1, input_manifest_sha256 = h2\<rparr> intent ?s
        (st\<lparr>st_decisions := st_decisions st @ [\<lparr>sequence = int (length (st_decisions st)) + 1,
        decision_instrument_id = iid, decision_ts = ts, decision_trigger_bar = trig,
        inputs = slice_last slow (visible_bars sel ts), state_sha256 = h1, input_manifest_sha256 = h2\<rparr>]\<rparr>))
      = Inr st'"
    unfolding decide_one_def ev prod.case Let_def rbind_Inr_iff lookup_or_raise_Inr by blast
  let ?d = "\<lparr>sequence = int (length (st_decisions st)) + 1,
        decision_instrument_id = iid, decision_ts = ts, decision_trigger_bar = trig,
        inputs = slice_last slow (visible_bars sel ts), state_sha256 = h1, input_manifest_sha256 = h2\<rparr>"
  have d: "decision_made cfg ev st ?d"
    unfolding decision_made_def ev using sel slow by auto
  show ?thesis
  proof (cases "dec_eq (intent_target_quantity intent) (quantity ?s)")
    case True
    then show ?thesis using st' hold [OF d] by simp
  next
    case False
    then have p: "place_order cfg ev ?d intent ?s (st\<lparr>st_decisions := st_decisions st @ [?d]\<rparr>) = Inr st'"
      using st' by simp
    show ?thesis
      by (rule place_order_cases [OF p]) (use False trade [OF d] ev in auto)
  qed
qed

end
