(* ===== verification/Backtest_Engine_Inv.thy ===== *)
theory Backtest_Engine_Inv
  imports Backtest_Engine "HOL-Library.Multiset"
begin

text \<open>
  Invariants of the simulator's event loop. The locale \<open>engine_invariant\<close> reduces an invariant of
  the loop to its two kinds of step (filling what is due, deciding for one event); it is
  interpreted for the portfolio, the schedule, the journals, the fills and the ledger replay.
  The theorems about whole simulations follow from these.
\<close>

subsection \<open>From steps to the loop\<close>

locale engine_invariant =
  fixes inv :: "sim_config \<Rightarrow> event list \<Rightarrow> sim_state \<Rightarrow> bool"
  assumes fill_due_inv: "inv cfg evs st \<Longrightarrow> fill_due cfg ts st = Inr st' \<Longrightarrow> inv cfg evs st'"
    and decide_inv: "inv cfg evs st \<Longrightarrow> ev \<in> set evs \<Longrightarrow> decide_one cfg ev st = Inr st' \<Longrightarrow> inv cfg evs st'"
begin

lemma decide_all_inv:
  "inv cfg evs st \<Longrightarrow> set es \<subseteq> set evs \<Longrightarrow> decide_all cfg es st = Inr st' \<Longrightarrow> inv cfg evs st'"
proof (induction es arbitrary: st)
  case (Cons e es)
  from Cons.prems(3) obtain st\<^sub>1 where d: "decide_one cfg e st = Inr st\<^sub>1" "decide_all cfg es st\<^sub>1 = Inr st'"
    by (auto simp: rbind_Inr_iff)
  moreover have "inv cfg evs st\<^sub>1"
    using Cons.prems(2) by (intro decide_inv [OF Cons.prems(1) _ d(1)]) simp
  ultimately show ?case
    using Cons.IH Cons.prems(2) by simp
qed simp

lemma process_time_inv:
  assumes "inv cfg evs st" and "process_time cfg evs ts st = Inr st'"
  shows "inv cfg evs st'"
proof -
  from assms(2) obtain st\<^sub>1 where f: "fill_due cfg ts st = Inr st\<^sub>1"
      and d: "decide_all cfg (filter (\<lambda>ev. fst ev = ts) evs) st\<^sub>1 = Inr st'"
    by (auto simp: process_time_def rbind_Inr_iff)
  show ?thesis
    by (rule decide_all_inv [OF fill_due_inv [OF assms(1) f] _ d]) auto
qed

lemma sim_loop_inv:
  "inv cfg evs st \<Longrightarrow> sim_loop fuel cfg evs k st = Some (Inr st') \<Longrightarrow> inv cfg evs st'"
proof (induction fuel arbitrary: k st)
  case (Suc fuel)
  then show ?case
    by (auto split: if_splits sum.splits dest: process_time_inv)
qed simp

end

text \<open>An invariant that single fills keep is kept by filling all that is due.\<close>

lemma fill_all_keeps:
  assumes "\<And>ord st st'. ord \<in> set ords \<Longrightarrow> P st \<Longrightarrow> fill_one cfg ord st = Inr st' \<Longrightarrow> P st'"
  shows "P st \<Longrightarrow> fill_all cfg ords st = Inr st' \<Longrightarrow> P st'"
  using assms by (induction ords arbitrary: st) (auto simp: rbind_Inr_iff)

lemma fill_due_keeps:
  assumes "P (st\<lparr>st_pending := dict_pop (st_pending st) ts\<rparr>)"
    and "\<And>ord st st'. ord \<in> set (due_orders ts st\<^sub>0) \<Longrightarrow> P st \<Longrightarrow> fill_one cfg ord st = Inr st' \<Longrightarrow> P st'"
    and "fill_due cfg ts st = Inr st'" and "st\<^sub>0 = st"
  shows "P st'"
  using fill_all_keeps [of "due_orders ts st" P cfg] assms by (auto simp: fill_due_def)

lemma fill_due_stable:
  assumes "\<And>st. P st \<Longrightarrow> P (st\<lparr>st_pending := dict_pop (st_pending st) ts\<rparr>)"
    and "\<And>ord st st'. P st \<Longrightarrow> fill_one cfg ord st = Inr st' \<Longrightarrow> P st'"
    and "P st" and "fill_due cfg ts st = Inr st'"
  shows "P st'"
  using assms(1) [OF assms(3)] assms(2,4) by (blast intro: fill_due_keeps)

lemma enqueue_simps [simp]:
  "st_portfolio (enqueue ord st) = st_portfolio st"
  "st_decisions (enqueue ord st) = st_decisions st"
  "st_signals (enqueue ord st) = st_signals st @ [order_signal ord]"
  "st_orders (enqueue ord st) = st_orders st @ [ord]"
  "st_fills (enqueue ord st) = st_fills st"
  "st_times (enqueue ord st) =
     (case execution_bar ord of None \<Rightarrow> st_times st
      | Some b \<Rightarrow> schedule_time (effective_available_at b) (st_times st))"
  "st_pending (enqueue ord st) =
     (case execution_bar ord of None \<Rightarrow> st_pending st
      | Some b \<Rightarrow> dict_append (st_pending st) (effective_available_at b) ord)"
  by (simp_all add: enqueue_def Let_def split: option.splits)

subsection \<open>The portfolio\<close>

definition portfolio_inv :: "sim_config \<Rightarrow> event list \<Rightarrow> sim_state \<Rightarrow> bool" where
  "portfolio_inv cfg evs st \<longleftrightarrow>
     (costs_bounded (transaction_cost_model (cfg_request cfg)) \<longrightarrow> portfolio_ok (st_portfolio st))"

lemma fill_one_portfolio:
  "portfolio_inv cfg evs st \<Longrightarrow> fill_one cfg ord st = Inr st' \<Longrightarrow> portfolio_inv cfg evs st'"
  by (erule fill_one_cases)
    (auto simp: portfolio_inv_def intro: apply_fill_ok price_fill_ok)

interpretation portfolio: engine_invariant portfolio_inv
proof unfold_locales
  fix cfg evs st st' ts
  assume "portfolio_inv cfg evs st" "fill_due cfg ts st = Inr st'"
  then show "portfolio_inv cfg evs st'"
    by (rule fill_due_stable [rotated 2]) (simp add: portfolio_inv_def, erule (1) fill_one_portfolio)
next
  fix cfg evs st st' ev
  assume "portfolio_inv cfg evs st" "decide_one cfg ev st = Inr st'"
  then show "portfolio_inv cfg evs st'"
    by (auto elim!: decide_one_cases simp: portfolio_inv_def)
qed

subsection \<open>The schedule, and that the loop ends\<close>

definition exec_times :: "sim_config \<Rightarrow> timestamp set" where
  "exec_times cfg = effective_available_at ` set (concat (map snd (concat (map snd (cfg_execution cfg)))))"

definition schedule_inv :: "sim_config \<Rightarrow> event list \<Rightarrow> sim_state \<Rightarrow> bool" where
  "schedule_inv cfg evs st \<longleftrightarrow>
     distinct (st_times st) \<and> sorted (st_times st) \<and> set (st_times st) \<subseteq> fst ` set evs \<union> exec_times cfg"

lemma schedule_time_set [simp]: "set (schedule_time t ts) = insert t (set ts)"
  by (auto simp: schedule_time_def)

lemma schedule_time_distinct: "distinct ts \<Longrightarrow> distinct (schedule_time t ts)"
  by (simp add: schedule_time_def)

lemma schedule_time_sorted: "sorted ts \<Longrightarrow> sorted (schedule_time t ts)"
  by (simp add: schedule_time_def)

lemma first_executable_row: "first_executable s sig e opens = Some b \<Longrightarrow> b \<in> set (concat (map snd s))"
proof (induction opens)
  case (Cons o_ts opens)
  show ?case
  proof (cases "o_ts \<le> sig")
    case False
    then obtain revs where "dict_get s o_ts = Some revs"
      using Cons.prems by (auto split: option.splits)
    then show ?thesis
      using Cons False latest_visible_Some(1) [of "first_visibility revs" revs b] dict_get_mem [of s o_ts revs]
      by (force split: if_splits)
  qed (use Cons in simp)
qed simp

lemma order_placed_exec_time:
  "order_placed cfg ev d s ord \<Longrightarrow> execution_bar ord = Some b \<Longrightarrow> effective_available_at b \<in> exec_times cfg"
proof -
  assume "order_placed cfg ev d s ord" "execution_bar ord = Some b"
  then obtain sel lag where sel: "(fst (snd ev), sel) \<in> set (cfg_execution cfg)"
      and xb: "next_execution_bar sel (bar_open_ts (snd (snd ev))) (fst ev) lag = Inr (Some b)"
    by (auto simp: order_placed_def Let_def dest: dict_get_mem)
  have "b \<in> set (concat (map snd sel))"
    using next_execution_bar_cases(2) [OF xb] by (rule first_executable_row)
  with sel show ?thesis
    by (force simp: exec_times_def)
qed

lemma fill_one_schedule:
  "schedule_inv cfg evs st \<Longrightarrow> fill_one cfg ord st = Inr st' \<Longrightarrow> schedule_inv cfg evs st'"
  by (erule fill_one_cases) (simp_all add: schedule_inv_def)

interpretation schedule: engine_invariant schedule_inv
proof unfold_locales
  fix cfg evs st st' ts
  assume "schedule_inv cfg evs st" "fill_due cfg ts st = Inr st'"
  then show "schedule_inv cfg evs st'"
    by (rule fill_due_stable [rotated 2]) (simp add: schedule_inv_def, erule (1) fill_one_schedule)
next
  fix cfg evs st st' ev
  assume "schedule_inv cfg evs st" "decide_one cfg ev st = Inr st'"
  then show "schedule_inv cfg evs st'"
    by (auto elim!: decide_one_cases simp: schedule_inv_def schedule_time_distinct schedule_time_sorted
        order_placed_exec_time split: option.splits)
qed

lemma schedule_inv_initial: "schedule_inv cfg evs (initial_state p evs)"
  by (simp add: schedule_inv_def initial_state_def)

lemma loop_fuel_card: "loop_fuel cfg evs = card (fst ` set evs \<union> exec_times cfg) + 1"
proof -
  have "set (map fst evs @ map effective_available_at (concat (map snd (concat (map snd (cfg_execution cfg))))))
      = fst ` set evs \<union> exec_times cfg"
    by (simp add: exec_times_def)
  then show ?thesis
    by (metis (no_types, lifting) loop_fuel_def length_remdups_card_conv)
qed

lemma schedule_length: "schedule_inv cfg evs st \<Longrightarrow> length (st_times st) \<le> card (fst ` set evs \<union> exec_times cfg)"
  by (metis schedule_inv_def card_mono distinct_card exec_times_def finite_Un finite_imageI finite_set)

lemma sim_loop_enough_fuel:
  assumes "schedule_inv cfg evs st" and "card (fst ` set evs \<union> exec_times cfg) < fuel + k"
    and "k \<le> card (fst ` set evs \<union> exec_times cfg)"
  shows "sim_loop fuel cfg evs k st \<noteq> None"
  using assms
proof (induction fuel arbitrary: k st)
  case (Suc fuel)
  show ?case
  proof (cases "k < length (st_times st)")
    case True
    then have "Suc k \<le> card (fst ` set evs \<union> exec_times cfg)"
      using schedule_length [OF Suc.prems(1)] by simp
    then show ?thesis
      using True Suc.IH [of _ "Suc k"] Suc.prems(1,2) schedule.process_time_inv [of cfg evs st]
      by (simp split: sum.splits)
  qed simp
qed simp

subsection \<open>The journals\<close>

text \<open>
  Decisions are numbered 1, 2, ... in order, read only bars that are available at their instant,
  and every order belongs to the signal at its position, with a strictly increasing decision number.
\<close>

definition selectors_wf :: "selectors \<Rightarrow> bool" where
  "selectors_wf ss \<longleftrightarrow> (\<forall>(iid, s) \<in> set ss. selector_wf s)"

abbreviation exec_wf :: "sim_config \<Rightarrow> bool" where
  "exec_wf cfg \<equiv> selectors_wf (cfg_execution cfg)"

definition order_ok :: "sim_config \<Rightarrow> simulated_order \<Rightarrow> bool" where
  "order_ok cfg ord \<longleftrightarrow>
     submitted_at ord = signal_ts (order_signal ord) \<and> (rejected_reason ord = None \<longleftrightarrow> execution_bar ord \<noteq> None) \<and>
     (\<forall>b. execution_bar ord = Some b \<longrightarrow>
        (\<exists>i \<in> set (instruments (cfg_request cfg)). instrument_id i = signal_instrument_id (order_signal ord) \<and>
           submitted_at ord + execution_lag_seconds i * 1000000 \<le> effective_available_at b) \<and>
        bar_open_ts (signal_trigger_bar (order_signal ord)) < bar_open_ts b)"

abbreviation order_number :: "simulated_order \<Rightarrow> int" where
  "order_number ord \<equiv> decision_sequence (order_signal ord)"

definition journal_inv :: "sim_config \<Rightarrow> event list \<Rightarrow> sim_state \<Rightarrow> bool" where
  "journal_inv cfg evs st \<longleftrightarrow>
     map sequence (st_decisions st) = map int [1..<Suc (length (st_decisions st))] \<and>
     (\<forall>d \<in> set (st_decisions st). (decision_ts d, decision_instrument_id d, decision_trigger_bar d) \<in> set evs \<and>
        (\<forall>b \<in> set (inputs d). effective_available_at b \<le> decision_ts d)) \<and>
     st_signals st = map order_signal (st_orders st) \<and>
     sorted_wrt (<) (map order_number (st_orders st)) \<and>
     (\<forall>ord \<in> set (st_orders st). order_number ord \<le> int (length (st_decisions st))) \<and>
     (exec_wf cfg \<longrightarrow> (\<forall>ord \<in> set (st_orders st). order_ok cfg ord))"

lemma decision_made_inputs:
  assumes "decision_made cfg ev st d" and "b \<in> set (inputs d)"
  shows "effective_available_at b \<le> decision_ts d"
proof -
  from assms obtain sel slow where d: "inputs d = slice_last slow (visible_bars sel (decision_ts d))"
    by (auto simp: decision_made_def)
  have "set (slice_last slow xs) \<subseteq> set xs" for xs :: "decision_bar list"
    by (simp add: slice_last_def set_last_n_subset set_drop_subset)
  then show ?thesis
    using assms(2) d visible_bars_available by (metis subsetD)
qed

lemma order_placed_ok:
  assumes "order_placed cfg ev d s ord" and "exec_wf cfg"
  shows "order_ok cfg ord"
proof -
  from assms(1) obtain i sel where i: "i \<in> set (instruments (cfg_request cfg))" "instrument_id i = fst (snd ev)"
    and sel: "dict_get (cfg_execution cfg) (fst (snd ev)) = Some sel"
    and xb: "next_execution_bar sel (bar_open_ts (snd (snd ev))) (fst ev) (execution_lag_seconds i)
      = Inr (execution_bar ord)"
    by (auto simp: order_placed_def Let_def)
  have wf: "selector_wf sel"
    using dict_get_mem [OF sel] assms(2) by (auto simp: selectors_wf_def)
  have "fst ev + execution_lag_seconds i * 1000000 \<le> effective_available_at b \<and> bar_open_ts (snd (snd ev)) < bar_open_ts b"
    if "execution_bar ord = Some b" for b
    using next_execution_bar_Some(2,3) [OF wf, of "bar_open_ts (snd (snd ev))" "fst ev" "execution_lag_seconds i" b]
      xb that by simp
  then show ?thesis
    using assms(1) i by (auto simp: order_placed_def order_ok_def Let_def)
qed

lemma journal_inv_decision:
  assumes "journal_inv cfg evs st" and "ev \<in> set evs" and "decision_made cfg ev st d"
  shows "journal_inv cfg evs (st\<lparr>st_decisions := st_decisions st @ [d]\<rparr>)"
  using assms decision_made_inputs [OF assms(3)]
  by (force simp: journal_inv_def decision_made_def)

lemma journal_inv_enqueue:
  assumes "journal_inv cfg evs st" and "order_placed cfg ev d s ord"
    and "sequence d = int (length (st_decisions st))" and "\<forall>o' \<in> set (st_orders st). order_number o' < sequence d"
  shows "journal_inv cfg evs (enqueue ord st)"
  using assms order_placed_ok [OF assms(2)]
  by (auto simp: journal_inv_def order_placed_def Let_def sorted_wrt_append)

lemma fill_one_journal:
  "journal_inv cfg evs st \<Longrightarrow> fill_one cfg ord st = Inr st' \<Longrightarrow> journal_inv cfg evs st'"
  by (erule fill_one_cases) (simp_all add: journal_inv_def)

interpretation journal: engine_invariant journal_inv
proof unfold_locales
  fix cfg evs st st' ts
  assume "journal_inv cfg evs st" "fill_due cfg ts st = Inr st'"
  then show "journal_inv cfg evs st'"
    by (rule fill_due_stable [rotated 2]) (simp add: journal_inv_def, erule (1) fill_one_journal)
next
  fix cfg evs st st' ev
  assume inv: "journal_inv cfg evs st" "ev \<in> set evs" "decide_one cfg ev st = Inr st'"
  from inv(3) show "journal_inv cfg evs st'"
  proof (cases rule: decide_one_cases)
    case (hold d)
    then show ?thesis using journal_inv_decision [OF inv(1,2)] by simp
  next
    case (trade d ord)
    have "\<forall>o' \<in> set (st_orders st). order_number o' < sequence d"
      using inv(1) trade(1) by (fastforce simp: journal_inv_def decision_made_def)
    then show ?thesis
      unfolding trade(3) using trade(1)
      by (intro journal_inv_enqueue [OF journal_inv_decision [OF inv(1,2) trade(1)] trade(2)])
        (simp_all add: decision_made_def)
  qed
qed

lemma journal_inv_initial: "journal_inv cfg evs (initial_state p evs)"
  by (simp add: journal_inv_def initial_state_def)

subsection \<open>The fills, and the ledger they replay to\<close>

fun replay :: "portfolio \<Rightarrow> simulated_fill list \<Rightarrow> (backtest_error, portfolio) result" where
  "replay p [] = Inr p"
| "replay p (f # fs) =
     rbind (apply_fill p (signal_instrument_id (order_signal (fill_order f))) (economics f)) (\<lambda>p. replay p fs)"

lemma replay_append: "replay p (fs @ gs) = rbind (replay p fs) (\<lambda>p. replay p gs)"
proof (induction fs arbitrary: p)
  case (Cons f fs)
  then show ?case
    by (cases "apply_fill p (signal_instrument_id (order_signal (fill_order f))) (economics f)") simp_all
qed simp

definition opening_portfolio :: "sim_config \<Rightarrow> portfolio" where
  "opening_portfolio cfg = \<lparr>cash = initial_capital (cfg_request cfg), positions = []\<rparr>"

definition fill_valid :: "sim_config \<Rightarrow> simulated_fill \<Rightarrow> bool" where
  "fill_valid cfg f \<longleftrightarrow>
     execution_bar (fill_order f) = Some (reference_bar f) \<and>
     fill_ts f = effective_available_at (reference_bar f) \<and>
     reference_price f = close_price (reference_bar f) \<and>
     price_fill (order_side (fill_order f)) (order_quantity (fill_order f)) (reference_price f)
       (transaction_cost_model (cfg_request cfg)) = Inr (economics f)"

definition pending_orders :: "sim_state \<Rightarrow> simulated_order list" where
  "pending_orders st = concat (map snd (st_pending st))"

definition ledger_inv :: "sim_config \<Rightarrow> event list \<Rightarrow> sim_state \<Rightarrow> bool" where
  "ledger_inv cfg evs st \<longleftrightarrow>
     replay (opening_portfolio cfg) (st_fills st) = Inr (st_portfolio st) \<and>
     (\<forall>f \<in> set (st_fills st). fill_valid cfg f)"

lemma fill_one_ledger:
  "ledger_inv cfg evs st \<Longrightarrow> fill_one cfg ord st = Inr st' \<Longrightarrow> ledger_inv cfg evs st'"
  by (erule fill_one_cases) (auto simp: ledger_inv_def replay_append fill_valid_def)

interpretation ledger: engine_invariant ledger_inv
proof unfold_locales
  fix cfg evs st st' ts
  assume "ledger_inv cfg evs st" "fill_due cfg ts st = Inr st'"
  then show "ledger_inv cfg evs st'"
    by (rule fill_due_stable [rotated 2]) (simp add: ledger_inv_def, erule (1) fill_one_ledger)
next
  fix cfg evs st st' ev
  assume "ledger_inv cfg evs st" "decide_one cfg ev st = Inr st'"
  then show "ledger_inv cfg evs st'"
    by (auto elim!: decide_one_cases simp: ledger_inv_def)
qed

subsection \<open>Every order is filled at most once\<close>

text \<open>
  The filled and the pending orders together are distinct orders of the journal. The decision
  numbers identify the orders, so counting them is enough.
\<close>

definition once_inv :: "sim_config \<Rightarrow> event list \<Rightarrow> sim_state \<Rightarrow> bool" where
  "once_inv cfg evs st \<longleftrightarrow>
     journal_inv cfg evs st \<and> dict_wf (st_pending st) \<and>
     distinct (map fill_order (st_fills st) @ pending_orders st) \<and>
     set (map fill_order (st_fills st) @ pending_orders st) \<subseteq> set (st_orders st)"

lemma pending_pop:
  assumes "dict_wf d"
  shows "mset (concat (map snd d)) =
    mset (concat (map snd (dict_pop d k))) + mset (case dict_get d k of None \<Rightarrow> [] | Some xs \<Rightarrow> xs)"
  using assms
proof (induction d)
  case (Cons p d)
  obtain k' xs where p: "p = (k', xs)" by fastforce
  have fresh: "dict_pop d k' = d" and wf: "dict_wf d"
    using Cons.prems p by (auto simp: dict_wf_def dict_pop_def filter_id_conv image_iff)
  show ?case
  proof (cases "k' = k")
    case True
    then show ?thesis
      using fresh p by (simp add: dict_get_def dict_pop_def)
  next
    case False
    then show ?thesis
      using Cons.IH [OF wf] p by (simp add: dict_get_def dict_pop_def)
  qed
qed (simp add: dict_get_def dict_pop_def)

lemma pending_append:
  assumes "dict_wf d"
  shows "mset (concat (map snd (dict_append d k x))) = add_mset x (mset (concat (map snd d)))"
proof -
  have "mset (concat (map snd (dict_set d k v))) + mset (case dict_get d k of None \<Rightarrow> [] | Some xs \<Rightarrow> xs)
      = mset (concat (map snd d)) + mset v" for v
    using assms
  proof (induction d k v rule: dict_set.induct)
    case (2 k' v' d k v)
    then show ?case by (auto simp: dict_get_def dict_wf_def)
  qed (simp add: dict_get_def)
  from this [of "case dict_get d k of None \<Rightarrow> [x] | Some xs \<Rightarrow> xs @ [x]"] show ?thesis
    by (cases "dict_get d k") (simp_all add: dict_append_def)
qed

text \<open>While the due orders are being filled, those still to come are disjoint from the rest.\<close>

definition once_aux :: "sim_config \<Rightarrow> event list \<Rightarrow> simulated_order list \<Rightarrow> sim_state \<Rightarrow> bool" where
  "once_aux cfg evs todo st \<longleftrightarrow>
     journal_inv cfg evs st \<and> dict_wf (st_pending st) \<and>
     distinct (map fill_order (st_fills st) @ todo @ pending_orders st) \<and>
     set (map fill_order (st_fills st) @ todo @ pending_orders st) \<subseteq> set (st_orders st)"

lemma once_aux_Nil: "once_aux cfg evs [] st = once_inv cfg evs st"
  by (simp add: once_aux_def once_inv_def)

lemma fill_one_once:
  assumes "once_aux cfg evs (ord # todo) st" and "fill_one cfg ord st = Inr st'"
  shows "once_aux cfg evs todo st'"
proof -
  have j: "journal_inv cfg evs st'"
    using assms fill_one_journal by (auto simp: once_aux_def)
  from assms(2) show ?thesis
    by (cases rule: fill_one_cases) (use j assms(1) in \<open>auto simp: once_aux_def pending_orders_def\<close>)
qed

lemma fill_all_once: "once_aux cfg evs todo st \<Longrightarrow> fill_all cfg todo st = Inr st' \<Longrightarrow> once_inv cfg evs st'"
proof (induction todo arbitrary: st)
  case Nil
  then show ?case by (simp add: once_aux_Nil)
next
  case (Cons ord todo)
  from Cons.prems(2) obtain st\<^sub>1 where "fill_one cfg ord st = Inr st\<^sub>1" "fill_all cfg todo st\<^sub>1 = Inr st'"
    by (auto simp: rbind_Inr_iff)
  then show ?case
    using Cons.IH fill_one_once [OF Cons.prems(1)] by blast
qed

lemma due_orders_mset:
  assumes "dict_wf (st_pending st)"
  shows "mset (pending_orders st) =
    mset (due_orders ts st) + mset (pending_orders (st\<lparr>st_pending := dict_pop (st_pending st) ts\<rparr>))"
  using pending_pop [OF assms, of ts] by (simp add: pending_orders_def due_orders_def add.commute)

lemma fill_due_once:
  assumes "once_inv cfg evs st" and "fill_due cfg ts st = Inr st'"
  shows "once_inv cfg evs st'"
proof -
  let ?st = "st\<lparr>st_pending := dict_pop (st_pending st) ts\<rparr>"
  have wf: "dict_wf (st_pending st)" and j: "journal_inv cfg evs ?st"
    using assms(1) by (auto simp: once_inv_def journal_inv_def)
  have "mset (map fill_order (st_fills st) @ due_orders ts st @ pending_orders ?st) =
      mset (map fill_order (st_fills st) @ pending_orders st)"
    using due_orders_mset [OF wf, of ts] by simp
  then have d: "distinct (map fill_order (st_fills st) @ due_orders ts st @ pending_orders ?st) \<longleftrightarrow>
        distinct (map fill_order (st_fills st) @ pending_orders st)"
      and s: "set (map fill_order (st_fills st) @ due_orders ts st @ pending_orders ?st) =
        set (map fill_order (st_fills st) @ pending_orders st)"
    by (rule mset_eq_imp_distinct_iff, rule mset_eq_setD)
  have "st_fills ?st = st_fills st" "st_orders ?st = st_orders st" "dict_wf (st_pending ?st)"
    using dict_wf_pop [OF wf] by simp_all
  then have "once_aux cfg evs (due_orders ts st) ?st"
    using assms(1) j unfolding once_aux_def once_inv_def by (simp only: d s simp_thms)
  then show ?thesis
    using assms(2) by (auto simp: fill_due_def intro: fill_all_once)
qed

lemma decide_once:
  assumes "once_inv cfg evs st" and "ev \<in> set evs" and "decide_one cfg ev st = Inr st'"
  shows "once_inv cfg evs st'"
proof -
  have j: "journal_inv cfg evs st'"
    using journal.decide_inv [OF _ assms(2,3)] assms(1) by (simp add: once_inv_def)
  from assms(3) show ?thesis
  proof (cases rule: decide_one_cases)
    case (hold d)
    then show ?thesis using assms(1) j by (auto simp: once_inv_def pending_orders_def)
  next
    case (trade d ord)
    have "sorted_wrt (<) (map order_number (st_orders st @ [ord]))"
      using j trade(3) by (simp add: journal_inv_def)
    then have new: "ord \<notin> set (st_orders st)"
      by (auto simp: sorted_wrt_append)
    show ?thesis
    proof (cases "execution_bar ord")
      case None
      then show ?thesis using assms(1) j trade(3) by (auto simp: once_inv_def pending_orders_def)
    next
      case (Some b)
      have wf: "dict_wf (st_pending st)" using assms(1) by (simp add: once_inv_def)
      have "mset (map fill_order (st_fills st') @ pending_orders st') =
          mset (ord # map fill_order (st_fills st) @ pending_orders st)"
        using pending_append [OF wf, of "effective_available_at b" ord] trade(3) Some
        by (simp add: pending_orders_def)
      then have "distinct (map fill_order (st_fills st') @ pending_orders st') \<longleftrightarrow>
            distinct (ord # map fill_order (st_fills st) @ pending_orders st)"
          "set (map fill_order (st_fills st') @ pending_orders st') =
            set (ord # map fill_order (st_fills st) @ pending_orders st)"
        by (rule mset_eq_imp_distinct_iff, rule mset_eq_setD)
      then show ?thesis
        using assms(1) j trade(3) Some new wf unfolding once_inv_def
        by (auto simp: dict_wf_append)
    qed
  qed
qed

interpretation once: engine_invariant once_inv
  by unfold_locales (fact fill_due_once, fact decide_once)

lemma once_inv_initial: "once_inv cfg evs (initial_state p evs)"
  using journal_inv_initial by (simp add: once_inv_def initial_state_def dict_wf_def pending_orders_def)

subsection \<open>Order of time\<close>

text \<open>
  The events of one instant follow those of all earlier instants, fills are journalled in
  chronological order, and an order that becomes executable after its submission is never left
  behind: it is tried when its instant comes.
\<close>

definition lags_ok :: "sim_config \<Rightarrow> bool" where
  "lags_ok cfg \<longleftrightarrow> (\<forall>i \<in> set (instruments (cfg_request cfg)). 0 \<le> execution_lag_seconds i)"

definition event_of :: "simulated_decision \<Rightarrow> event" where
  "event_of d = (decision_ts d, decision_instrument_id d, decision_trigger_bar d)"

definition awaited :: "timestamp list \<Rightarrow> nat \<Rightarrow> timestamp \<Rightarrow> simulated_order \<Rightarrow> bool" where
  "awaited sched k t ord \<longleftrightarrow>
     (\<exists>b. execution_bar ord = Some b \<and> effective_available_at b = t \<and>
        (t \<in> set (drop k sched) \<or> submitted_at ord = t))"

definition pending_inv :: "nat \<Rightarrow> sim_state \<Rightarrow> bool" where
  "pending_inv k st \<longleftrightarrow>
     (\<forall>t ords ord. dict_get (st_pending st) t = Some ords \<longrightarrow> ord \<in> set ords \<longrightarrow> awaited (st_times st) k t ord)"

definition fills_timed :: "nat \<Rightarrow> sim_state \<Rightarrow> bool" where
  "fills_timed k st \<longleftrightarrow>
     sorted (map fill_ts (st_fills st)) \<and> fill_ts ` set (st_fills st) \<subseteq> set (take k (st_times st))"

definition timed :: "sim_config \<Rightarrow> event list \<Rightarrow> nat \<Rightarrow> sim_state \<Rightarrow> bool" where
  "timed cfg evs k st \<longleftrightarrow>
     schedule_inv cfg evs st \<and> fst ` set evs \<subseteq> set (st_times st) \<and> k \<le> length (st_times st) \<and>
     pending_inv k st \<and> fills_timed k st"

text \<open>The insertion of a later instant does not touch the part of the schedule already reached.\<close>

lemma schedule_time_later:
  assumes "sorted ts" and "distinct ts" and "k < length ts" and "ts ! k \<le> t"
  shows "take (Suc k) (schedule_time t ts) = take (Suc k) ts"
    and "set (drop (Suc k) (schedule_time t ts)) =
      set (drop (Suc k) ts) \<union> (if t = ts ! k then {} else {t})"
proof -
  have "take (Suc k) (schedule_time t ts) = take (Suc k) ts \<and>
      (t \<notin> set ts \<longrightarrow> set (drop (Suc k) (schedule_time t ts)) = insert t (set (drop (Suc k) ts)))"
  proof (cases "t \<in> set ts")
    case True
    then show ?thesis by (simp add: schedule_time_def)
  next
    case False
    let ?a = "take (Suc k) ts" and ?b = "drop (Suc k) ts"
    have le: "x \<le> t" if "x \<in> set ?a" for x
    proof -
      from that obtain j where "j < Suc k" "j < length ts" "x = ts ! j"
        by (auto simp: in_set_conv_nth)
      then have "x \<le> ts ! k"
        using assms(1,3) by (simp add: sorted_nth_mono)
      with assms(4) show ?thesis by simp
    qed
    have "sorted ?a" "sorted ?b" using assms(1) by (simp_all add: sorted_wrt_take sorted_wrt_drop)
    have sep: "x \<le> y" if "x \<in> set ?a" "y \<in> set ?b" for x y
      using that assms(1) by (metis append_take_drop_id sorted_append)
    have s: "sort (ts @ [t]) = ?a @ sort (?b @ [t])"
    proof (rule properties_for_sort)
      show "mset (?a @ sort (?b @ [t])) = mset (ts @ [t])"
        by (metis append_assoc append_take_drop_id mset_append mset_sort)
      show "sorted (?a @ sort (?b @ [t]))"
        using \<open>sorted ?a\<close> le sep by (auto simp: sorted_append)
    qed
    have len: "length ?a = Suc k" using assms(3) by simp
    show ?thesis
      using False len by (simp add: schedule_time_def s)
  qed
  moreover have "t \<in> set (drop (Suc k) ts) \<longleftrightarrow> t \<noteq> ts ! k" if "t \<in> set ts"
  proof -
    have split: "ts = take k ts @ ts ! k # drop (Suc k) ts"
      by (rule id_take_nth_drop [OF assms(3)])
    then have "x < ts ! k" if "x \<in> set (take k ts)" for x
      using that assms(1,2) by (metis distinct_append distinct.simps(2) disjoint_iff list.set_intros(1)
          order_le_neq_trans sorted_append)
    moreover have "ts ! k \<notin> set (drop (Suc k) ts)"
      using split assms(2) by (metis distinct.simps(2) distinct_append)
    moreover have "t \<in> set (take k ts) \<or> t = ts ! k \<or> t \<in> set (drop (Suc k) ts)"
      using that split by (metis Un_iff set_ConsD set_append)
    ultimately show ?thesis using assms(4) by force
  qed
  ultimately show "take (Suc k) (schedule_time t ts) = take (Suc k) ts"
    and "set (drop (Suc k) (schedule_time t ts)) = set (drop (Suc k) ts) \<union> (if t = ts ! k then {} else {t})"
    using assms(3) by (cases "t \<in> set ts"; force simp: schedule_time_def)+
qed

lemma fill_one_frame:
  "fill_one cfg ord st = Inr st' \<Longrightarrow>
     st_times st' = st_times st \<and> st_pending st' = st_pending st \<and> st_decisions st' = st_decisions st \<and>
     st_orders st' = st_orders st"
  by (erule fill_one_cases) simp_all

lemma fill_all_frame:
  "fill_all cfg ords st = Inr st' \<Longrightarrow>
     st_times st' = st_times st \<and> st_pending st' = st_pending st \<and> st_decisions st' = st_decisions st \<and>
     st_orders st' = st_orders st"
  by (induction ords arbitrary: st) (auto simp: rbind_Inr_iff dest: fill_one_frame)

lemma fill_all_at:
  assumes "\<forall>ord \<in> set ords. \<forall>b. execution_bar ord = Some b \<longrightarrow> effective_available_at b = ts"
  shows "fill_all cfg ords st = Inr st' \<Longrightarrow>
    \<exists>new. st_fills st' = st_fills st @ new \<and> (\<forall>f \<in> set new. fill_ts f = ts)"
  using assms
proof (induction ords arbitrary: st)
  case (Cons ord ords)
  from Cons.prems(1) obtain st\<^sub>1 where f: "fill_one cfg ord st = Inr st\<^sub>1" "fill_all cfg ords st\<^sub>1 = Inr st'"
    by (auto simp: rbind_Inr_iff)
  from f(1) have "\<exists>new. st_fills st\<^sub>1 = st_fills st @ new \<and> (\<forall>f \<in> set new. fill_ts f = ts)"
    by (cases rule: fill_one_cases) (use Cons.prems(2) in auto)
  moreover have "\<exists>new. st_fills st' = st_fills st\<^sub>1 @ new \<and> (\<forall>f \<in> set new. fill_ts f = ts)"
    using Cons.IH [OF f(2)] Cons.prems(2) by simp
  ultimately show ?case
    by (metis append_assoc Un_iff set_append)
qed simp

lemma due_orders_pending: "ord \<in> set (due_orders ts st) \<Longrightarrow> \<exists>ords. dict_get (st_pending st) ts = Some ords \<and> ord \<in> set ords"
  by (cases "dict_get (st_pending st) ts") (auto simp: due_orders_def)

lemma drop_nth_Suc: "k < length xs \<Longrightarrow> t \<in> set (drop k xs) \<Longrightarrow> t \<noteq> xs ! k \<Longrightarrow> t \<in> set (drop (Suc k) xs)"
  by (metis Cons_nth_drop_Suc set_ConsD)

lemma timed_fill_due:
  assumes inv: "timed cfg evs k st" and k: "k < length (st_times st)"
    and due: "fill_due cfg (st_times st ! k) st = Inr st'"
  shows "timed cfg evs (Suc k) st'" "st_times st' = st_times st" "st_decisions st' = st_decisions st"
proof -
  let ?ts = "st_times st ! k" and ?s = "st\<lparr>st_pending := dict_pop (st_pending st) (st_times st ! k)\<rparr>"
  have run: "fill_all cfg (due_orders ?ts st) ?s = Inr st'"
    using due by (simp add: fill_due_def)
  note frame = fill_all_frame [OF run]
  have pend: "awaited (st_times st) k t ord" if "dict_get (st_pending st) t = Some ords" "ord \<in> set ords" for t ords ord
    using inv that by (auto simp: timed_def pending_inv_def)
  have "\<forall>ord \<in> set (due_orders ?ts st). \<forall>b. execution_bar ord = Some b \<longrightarrow> effective_available_at b = ?ts"
    using due_orders_pending pend by (fastforce simp: awaited_def)
  then obtain new where new: "st_fills st' = st_fills st @ new" "\<forall>f \<in> set new. fill_ts f = ?ts"
    using fill_all_at [of "due_orders ?ts st" ?ts, OF _ run] by auto
  have sorted: "sorted (st_times st)"
    using inv by (simp add: timed_def schedule_inv_def)
  have le: "t \<le> ?ts" if "t \<in> set (take k (st_times st))" for t
    using that sorted k by (auto simp: in_set_conv_nth sorted_nth_mono)
  have mem: "t \<in> set (take (Suc k) (st_times st)) \<longleftrightarrow> t \<in> set (take k (st_times st)) \<or> t = ?ts" for t
    using k by (auto simp: take_Suc_conv_app_nth)
  have "fills_timed (Suc k) st'"
  proof -
    have old: "sorted (map fill_ts (st_fills st))" "fill_ts ` set (st_fills st) \<subseteq> set (take k (st_times st))"
      using inv by (auto simp: timed_def fills_timed_def)
    have "map fill_ts new = replicate (length new) ?ts"
      using new(2) by (simp add: map_eq_conv flip: map_replicate_const)
    then have "sorted (map fill_ts (st_fills st'))"
      using old le new(1) by (auto simp: sorted_append sorted_replicate)
    then show ?thesis
      using old(2) new frame mem by (auto simp: fills_timed_def)
  qed
  moreover have "awaited (st_times st) (Suc k) t ord"
    if "dict_get (dict_pop (st_pending st) ?ts) t = Some ords" "ord \<in> set ords" for t ords ord
    using pend [of t ords ord] that drop_nth_Suc [OF k, of t]
    by (auto simp: dict_get_pop awaited_def split: if_splits)
  then have "pending_inv (Suc k) st'"
    using frame by (simp add: pending_inv_def)
  ultimately show "timed cfg evs (Suc k) st'"
    using inv frame k by (auto simp: timed_def schedule_inv_def)
  show "st_times st' = st_times st" "st_decisions st' = st_decisions st"
    using frame by simp_all
qed

text \<open>Every execution bar chosen for an order becomes available no earlier than the decision.\<close>

lemma order_placed_not_before:
  assumes "order_placed cfg ev d s ord" and "exec_wf cfg" and "lags_ok cfg" and "execution_bar ord = Some b"
  shows "fst ev \<le> effective_available_at b" and "submitted_at ord = fst ev"
proof -
  have "order_ok cfg ord" and sub: "submitted_at ord = fst ev"
    using order_placed_ok [OF assms(1,2)] assms(1) by (auto simp: order_placed_def Let_def)
  then obtain i where "i \<in> set (instruments (cfg_request cfg))"
      "submitted_at ord + execution_lag_seconds i * 1000000 \<le> effective_available_at b"
    using assms(4) by (auto simp: order_ok_def)
  then show "fst ev \<le> effective_available_at b" "submitted_at ord = fst ev"
    using assms(3) sub by (force simp: lags_ok_def)+
qed

lemma timed_enqueue:
  assumes inv: "timed cfg evs (Suc k) st" and k: "k < length (st_times st)" "st_times st ! k = submitted_at ord"
    and t: "\<And>b. execution_bar ord = Some b \<Longrightarrow>
      submitted_at ord \<le> effective_available_at b \<and> effective_available_at b \<in> exec_times cfg"
  shows "timed cfg evs (Suc k) (enqueue ord st)"
    and "take (Suc k) (st_times (enqueue ord st)) = take (Suc k) (st_times st)"
    and "length (st_times st) \<le> length (st_times (enqueue ord st))"
proof -
  consider (none) "execution_bar ord = None" | (some) b where "execution_bar ord = Some b" by fastforce
  then have "timed cfg evs (Suc k) (enqueue ord st) \<and>
      take (Suc k) (st_times (enqueue ord st)) = take (Suc k) (st_times st) \<and>
      length (st_times st) \<le> length (st_times (enqueue ord st))"
  proof cases
    case none
    then show ?thesis
      using inv by (simp add: timed_def schedule_inv_def pending_inv_def fills_timed_def)
  next
    case some
    let ?t = "effective_available_at b"
    have sd: "sorted (st_times st)" "distinct (st_times st)"
      using inv by (auto simp: timed_def schedule_inv_def)
    have le: "st_times st ! k \<le> ?t" using t [OF some] k(2) by simp
    note later = schedule_time_later [OF sd k(1) le]
    have len: "length (st_times st) \<le> length (schedule_time ?t (st_times st))"
      by (simp add: schedule_time_def)
    have mono: "awaited (schedule_time ?t (st_times st)) (Suc k) t' o'"
      if "awaited (st_times st) (Suc k) t' o'" for t' o'
      using that later(2) by (auto simp: awaited_def)
    have new: "awaited (schedule_time ?t (st_times st)) (Suc k) ?t ord"
      using some later(2) k(2) by (auto simp: awaited_def)
    have "pending_inv (Suc k) (enqueue ord st)"
      using inv some mono new
      by (auto simp: timed_def pending_inv_def dict_get_append split: if_splits option.splits)
    moreover have "fills_timed (Suc k) (enqueue ord st)"
      using inv some later(1) by (simp add: timed_def fills_timed_def)
    moreover have "schedule_inv cfg evs (enqueue ord st)"
      using inv some t [OF some]
      by (auto simp: timed_def schedule_inv_def schedule_time_distinct schedule_time_sorted)
    ultimately show ?thesis
      using inv some later(1) len by (auto simp: timed_def)
  qed
  then show "timed cfg evs (Suc k) (enqueue ord st)"
    and "take (Suc k) (st_times (enqueue ord st)) = take (Suc k) (st_times st)"
    and "length (st_times st) \<le> length (st_times (enqueue ord st))"
    by simp_all
qed

lemma timed_decide:
  assumes inv: "timed cfg evs (Suc k) st" and k: "k < length (st_times st)" "fst ev = st_times st ! k"
    and wf: "exec_wf cfg" "lags_ok cfg" and step: "decide_one cfg ev st = Inr st'"
  shows "timed cfg evs (Suc k) st' \<and> take (Suc k) (st_times st') = take (Suc k) (st_times st) \<and>
    k < length (st_times st') \<and> map event_of (st_decisions st') = map event_of (st_decisions st) @ [ev]"
proof -
  have ev: "event_of d = ev" if "decision_made cfg ev st d" for d
    using that by (cases ev) (simp add: decision_made_def event_of_def)
  have keep: "timed cfg evs (Suc k) (st\<lparr>st_decisions := ds\<rparr>)" for ds
    using inv by (simp add: timed_def schedule_inv_def pending_inv_def fills_timed_def)
  from step show ?thesis
  proof (cases rule: decide_one_cases)
    case (hold d)
    then show ?thesis using keep k ev by simp
  next
    case (trade d ord)
    have sub: "st_times (st\<lparr>st_decisions := st_decisions st @ [d]\<rparr>) ! k = submitted_at ord"
      using trade(2) k(2) by (simp add: order_placed_def Let_def)
    have "submitted_at ord \<le> effective_available_at b \<and> effective_available_at b \<in> exec_times cfg"
      if "execution_bar ord = Some b" for b
      using order_placed_not_before [OF trade(2) wf that] order_placed_exec_time [OF trade(2) that] by simp
    note enq = timed_enqueue [OF keep _ sub this]
    show ?thesis
      using enq k(1) trade(3) ev [OF trade(1)] by simp
  qed
qed

lemma timed_decide_all:
  assumes "exec_wf cfg" "lags_ok cfg"
  shows "timed cfg evs (Suc k) st \<Longrightarrow> k < length (st_times st) \<Longrightarrow> \<forall>ev \<in> set es. fst ev = st_times st ! k \<Longrightarrow>
    decide_all cfg es st = Inr st' \<Longrightarrow>
    timed cfg evs (Suc k) st' \<and> take (Suc k) (st_times st') = take (Suc k) (st_times st) \<and>
    map event_of (st_decisions st') = map event_of (st_decisions st) @ es"
proof (induction es arbitrary: st)
  case (Cons e es)
  from Cons.prems(4) obtain st\<^sub>1 where d: "decide_one cfg e st = Inr st\<^sub>1" "decide_all cfg es st\<^sub>1 = Inr st'"
    by (auto simp: rbind_Inr_iff)
  have one: "timed cfg evs (Suc k) st\<^sub>1" "take (Suc k) (st_times st\<^sub>1) = take (Suc k) (st_times st)"
      "k < length (st_times st\<^sub>1)" "map event_of (st_decisions st\<^sub>1) = map event_of (st_decisions st) @ [e]"
    using timed_decide [OF Cons.prems(1,2) _ assms d(1)] Cons.prems(3) by simp_all
  have "st_times st\<^sub>1 ! k = st_times st ! k"
    using one(2) by (metis lessI nth_take)
  then show ?case
    using Cons.IH [OF one(1,3) _ d(2)] Cons.prems(3) one(2,4) by simp
qed simp

text \<open>The decisions taken so far are those of the instants already reached, in the order of the events.\<close>

definition decided :: "event list \<Rightarrow> nat \<Rightarrow> sim_state \<Rightarrow> bool" where
  "decided evs k st \<longleftrightarrow> map event_of (st_decisions st) = filter (\<lambda>ev. fst ev \<in> set (take k (st_times st))) evs"

lemma filter_next_key:
  assumes "sorted (map f xs)" and "\<forall>x \<in> set xs. f x \<in> A \<longrightarrow> f x < t"
  shows "filter (\<lambda>x. f x \<in> A) xs @ filter (\<lambda>x. f x = t) xs = filter (\<lambda>x. f x \<in> insert t A) xs"
  using assms
proof (induction xs)
  case (Cons x xs)
  show ?case
  proof (cases "f x = t")
    case True
    then have "filter (\<lambda>x. f x \<in> A) xs = []"
      using Cons.prems by (fastforce simp: filter_empty_conv)
    then show ?thesis
      using Cons True by auto
  qed (use Cons in auto)
qed simp

lemma timed_process_time:
  assumes inv: "timed cfg evs k st" "decided evs k st" and k: "k < length (st_times st)"
    and wf: "exec_wf cfg" "lags_ok cfg" "sorted (map fst evs)"
    and step: "process_time cfg evs (st_times st ! k) st = Inr st'"
  shows "timed cfg evs (Suc k) st'" "decided evs (Suc k) st'"
proof -
  let ?ts = "st_times st ! k"
  from step obtain st\<^sub>1 where f: "fill_due cfg ?ts st = Inr st\<^sub>1"
      and d: "decide_all cfg (filter (\<lambda>ev. fst ev = ?ts) evs) st\<^sub>1 = Inr st'"
    by (auto simp: process_time_def rbind_Inr_iff)
  note fd = timed_fill_due [OF inv(1) k f]
  have all: "timed cfg evs (Suc k) st'" "take (Suc k) (st_times st') = take (Suc k) (st_times st)"
      "map event_of (st_decisions st') = map event_of (st_decisions st) @ filter (\<lambda>ev. fst ev = ?ts) evs"
    using timed_decide_all [OF wf(1,2) fd(1) _ _ d] fd(2,3) k by simp_all
  have "t < ?ts" if t: "t \<in> set (take k (st_times st))" for t
  proof -
    have "sorted (st_times st)" "distinct (st_times st)"
      using inv(1) by (auto simp: timed_def schedule_inv_def)
    moreover obtain j where "j < k" "j < length (st_times st)" "t = st_times st ! j"
      using t by (auto simp: in_set_conv_nth)
    ultimately show ?thesis
      using k sorted_nth_mono [of "st_times st" j k] nth_eq_iff_index_eq [of "st_times st" j k] by simp
  qed
  then have "decided evs (Suc k) st'"
    using filter_next_key [OF wf(3), of "set (take k (st_times st))" ?ts] inv(2) all(2,3) k
    by (simp add: decided_def take_Suc_conv_app_nth)
  with all(1) show "timed cfg evs (Suc k) st'" "decided evs (Suc k) st'" .
qed

lemma timed_loop:
  assumes "exec_wf cfg" "lags_ok cfg" "sorted (map fst evs)"
  shows "timed cfg evs k st \<Longrightarrow> decided evs k st \<Longrightarrow> sim_loop fuel cfg evs k st = Some (Inr st') \<Longrightarrow>
    timed cfg evs (length (st_times st')) st' \<and> map event_of (st_decisions st') = evs"
proof (induction fuel arbitrary: k st)
  case (Suc fuel)
  show ?case
  proof (cases "k < length (st_times st)")
    case True
    then obtain st\<^sub>1 where p: "process_time cfg evs (st_times st ! k) st = Inr st\<^sub>1"
        "sim_loop fuel cfg evs (Suc k) st\<^sub>1 = Some (Inr st')"
      using Suc.prems(3) by (auto split: sum.splits)
    show ?thesis
      using Suc.IH [OF timed_process_time [OF Suc.prems(1,2) True assms p(1)] p(2)] .
  next
    case False
    then have st: "st' = st" and k: "k = length (st_times st)"
      using Suc.prems(1,3) by (auto simp: timed_def)
    have "filter (\<lambda>ev. fst ev \<in> set (st_times st)) evs = evs"
      using Suc.prems(1) by (auto simp: timed_def filter_id_conv)
    then show ?thesis
      using st k Suc.prems(1,2) by (simp add: decided_def)
  qed
qed simp

lemma timed_initial: "timed cfg evs 0 (initial_state p evs)" "decided evs 0 (initial_state p evs)"
  using schedule_inv_initial [of cfg evs p]
  by (simp_all add: timed_def decided_def pending_inv_def fills_timed_def initial_state_def dict_get_def)

end
