(* ===== verification/Backtest_Example.thy ===== *)
theory Backtest_Example
  imports Backtest_Engine_Inv
begin

text \<open>
  A concrete run, evaluated step by step: one instrument, three bars, a moving-average crossover that
  buys ten units. It shows that the hypotheses of the theorems about runs can be met.
\<close>

subsection \<open>Digests of well-formed values\<close>

lemma input_hash_total: "\<exists>h. input_hash f bars = Inr h"
proof -
  have "serializable (PyList (map input_value bars))"
    by (simp add: list_all_iff input_value_def u_def)
  then show ?thesis
    using json_sha256_total [of _ f] by (fastforce simp: input_hash_def hash_or_raise_def)
qed

lemma state_hash_total:
  assumes "\<forall>(k, v) \<in> set (strategy_parameters (strategy r)). encodable k"
  shows "\<exists>h. state_hash f r iid c s = Inr h"
proof -
  have "serializable (parameters_value (strategy_parameters (strategy r)))"
    using assms by (auto simp: parameters_value_def param_value_def list_all_iff split: param.splits)
  then have "serializable (PyDict
       [(u ''instrument_id'', PyInt iid), (u ''cash'', PyDec c), (u ''current_quantity'', PyDec (quantity s)),
        (u ''average_cost'', PyDec (average_cost s)), (u ''realized_pnl'', PyDec (realized_pnl s)),
        (u ''strategy_parameters'', parameters_value (strategy_parameters (strategy r)))])"
    by (simp add: u_def)
  then show ?thesis
    using json_sha256_total [of _ f] by (fastforce simp: state_hash_def hash_or_raise_def)
qed
subsection \<open>A concrete run\<close>

text \<open>One instrument, three daily bars, moving averages over one and two bars: the run buys on the rise and holds the
  position at the end.\<close>

definition example_bar :: "int \<Rightarrow> int \<Rightarrow> decision_bar" where
  "example_bar t price = \<lparr>bar_open_ts = t, bar_series_id = 7, revision_no = 0, available_at = t + 10,
     system_available_at = t + 10, effective_available_at = t + 10, close_price = dec_of_int price\<rparr>"

definition example_rows :: "decision_bar list" where
  "example_rows = [example_bar 0 100, example_bar 10 110, example_bar 20 120]"

definition example_selector :: selector where
  "example_selector = map (\<lambda>b. (bar_open_ts b, [b])) example_rows"

definition example_request :: backtest_run_request where
  "example_request = \<lparr>schema_version = 1, run_code = u ''R1'', snapshot_code = u ''S1'', universe_code = u ''U1'',
     base_currency_code = u ''IRR'', event_from = 0, event_to = 100, initial_capital = Dec False 10000 0,
     random_seed = 0,
     strategy = \<lparr>strategy_kind = SMA_CROSS_LONG_FLAT_V1, strategy_parameters =
       [(u ''fast_window'', ParamInt 1), (u ''slow_window'', ParamInt 2), (u ''target_quantity'', ParamDec (Dec False 10 0))]\<rparr>,
     execution_model = \<lparr>execution_kind = NEXT_BAR_CLOSE_AT_AVAILABILITY_V1\<rparr>,
     transaction_cost_model = \<lparr>commission_bps = Dec False 10 0, slippage_bps = Dec False 0 0, sell_tax_bps = Dec False 50 0\<rparr>,
     instruments = [\<lparr>instrument_id = 1, signal_component_key = u ''s'', execution_component_key = u ''s'',
       valuation_component_key = u ''s'', execution_lag_seconds = 0\<rparr>]\<rparr>"

definition config_of :: "selector \<Rightarrow> sim_config" where
  "config_of s = \<lparr>cfg_sha256 = (\<lambda>_. []), cfg_dump = (\<lambda>_. []), cfg_request = example_request,
     cfg_signal = [(1, s)], cfg_execution = [(1, s)], cfg_valuation = [],
     cfg_run_spec = Some (u ''x'')\<rparr>"

abbreviation example_config :: sim_config where
  "example_config \<equiv> config_of example_selector"

lemma example_events: "decision_events example_config = Inr [(10, 1, example_bar 0 100), (20, 1, example_bar 10 110), (30, 1, example_bar 20 120)]"
  by code_simp

lemma example_hashes [simp]:
  "state_hash (\<lambda>_. []) example_request i c s = Inr []" "input_hash (\<lambda>_. []) bars = Inr []"
proof -
  have "json_sha256 (\<lambda>_. []) v = Inr h \<Longrightarrow> h = []" for v h
    by (auto simp: json_sha256_def rbind_Inr_iff)
  moreover have "\<forall>(k, v) \<in> set (strategy_parameters (strategy example_request)). encodable k"
    by (simp add: example_request_def u_def)
  ultimately show "state_hash (\<lambda>_. []) example_request i c s = Inr []" "input_hash (\<lambda>_. []) bars = Inr []"
    using state_hash_total [of example_request "\<lambda>_. []" i c s] input_hash_total [of "\<lambda>_. []" bars]
    by (auto simp: state_hash_def input_hash_def hash_or_raise_def split: sum.splits)
qed

lemma example_visible:
  "visible_bars example_selector 10 = [example_bar 0 100]"
  "visible_bars example_selector 20 = [example_bar 0 100, example_bar 10 110]"
  "visible_bars example_selector 30 = [example_bar 0 100, example_bar 10 110, example_bar 20 120]"
  "visible_bars example_selector 100 = [example_bar 0 100, example_bar 10 110, example_bar 20 120]"
  by code_simp+

lemma example_bar_simps [simp]:
  "bar_open_ts (example_bar n p) = n" "effective_available_at (example_bar n p) = n + 10"
  "close_price (example_bar n p) = dec_of_int p" "bar_series_id (example_bar n p) = 7" "revision_no (example_bar n p) = 0"
  by (simp_all add: example_bar_def)

lemma example_params:
  "require_int (dict_get (strategy_parameters (strategy example_request)) (u ''fast_window'')) = Inr 1"
  "require_int (dict_get (strategy_parameters (strategy example_request)) (u ''slow_window'')) = Inr 2"
  "require_dec (dict_get (strategy_parameters (strategy example_request)) (u ''target_quantity'')) = Inr (Dec False 10 0)"
  by code_simp+

lemma example_decide:
  "sma_decide \<lparr>view_instrument_id = 1, view_decision_ts = ts, visible_bars_of = [example_bar 0 100],
    current_quantity = q, view_average_cost = ac, view_realized_pnl = pl, view_cash = c, view_parameters = strategy example_request\<rparr>
   = Inr \<lparr>intent_instrument_id = 1, intent_decision_ts = ts, intent_target_quantity = dec_zero, intent_reason_code = ''SMA_WARMUP''\<rparr>"
  "sma_decide \<lparr>view_instrument_id = 1, view_decision_ts = ts, visible_bars_of = [example_bar 0 100, example_bar 10 110],
    current_quantity = q, view_average_cost = ac, view_realized_pnl = pl, view_cash = c, view_parameters = strategy example_request\<rparr>
   = Inr \<lparr>intent_instrument_id = 1, intent_decision_ts = ts, intent_target_quantity = Dec False 10 0, intent_reason_code = ''SMA_CROSS_LONG''\<rparr>"
  "sma_decide \<lparr>view_instrument_id = 1, view_decision_ts = ts, visible_bars_of = [example_bar 10 110, example_bar 20 120],
    current_quantity = q, view_average_cost = ac, view_realized_pnl = pl, view_cash = c, view_parameters = strategy example_request\<rparr>
   = Inr \<lparr>intent_instrument_id = 1, intent_decision_ts = ts, intent_target_quantity = Dec False 10 0, intent_reason_code = ''SMA_CROSS_LONG''\<rparr>"
  unfolding sma_decide_def decision_view.select_convs Let_def example_params
  by (simp_all add: dec_eval val_def make_intent_def mean_or_raise_def slice_last_def last_n_def dec_is_zero_def)

lemma example_cfg_simps [simp]:
  "cfg_sha256 (config_of s) = (\<lambda>_. [])" "cfg_request (config_of s) = example_request"
  "dict_get (cfg_signal (config_of s)) 1 = Some s" "dict_get (cfg_execution (config_of s)) 1 = Some s"
  "identity_or_raise (config_of s) = Inr (u ''x'')" "cfg_valuation (config_of s) = []"
  "set (dict_keys (cfg_execution (config_of s))) = {1}"
  by (simp_all add: config_of_def dict_get_def identity_or_raise_def u_def dict_keys_def)

lemma example_bindings: "validate_bindings example_config = Inr ()" "loop_fuel example_config
  [(10, 1, example_bar 0 100), (20, 1, example_bar 10 110), (30, 1, example_bar 20 120)] = 4"
  "find_instrument example_request 1 = Inr \<lparr>instrument_id = 1, signal_component_key = u ''s'', execution_component_key = u ''s'',
       valuation_component_key = u ''s'', execution_lag_seconds = 0\<rparr>"
  "next_execution_bar example_selector 10 20 0 = Inr (Some (example_bar 20 120))"
  by code_simp+

lemma example_request_simps [simp]: "initial_capital example_request = Dec False 10000 0" "event_to example_request = 100"
  "transaction_cost_model example_request = \<lparr>commission_bps = Dec False 10 0, slippage_bps = Dec False 0 0, sell_tax_bps = Dec False 50 0\<rparr>"
  "instrument_id ` set (instruments example_request) = {1}" "map instrument_id (instruments example_request) = [1]"
  by (simp_all add: example_request_def)


definition example_events_list :: "event list" where
  "example_events_list = [(10, 1, example_bar 0 100), (20, 1, example_bar 10 110), (30, 1, example_bar 20 120)]"

definition example_decision :: "int \<Rightarrow> timestamp \<Rightarrow> decision_bar list \<Rightarrow> simulated_decision" where
  "example_decision n ts bars = \<lparr>sequence = n, decision_instrument_id = 1, decision_ts = ts, decision_trigger_bar = last bars,
     inputs = bars, state_sha256 = [], input_manifest_sha256 = []\<rparr>"

definition example_order :: simulated_order where
  "example_order = \<lparr>semantic_key = join [124] [u ''x'', str_int 2, str_int 1, dec_str (Dec False 10 0)],
     order_signal = \<lparr>decision_sequence = 2, signal_instrument_id = 1, signal_ts = 20, target_quantity = Dec False 10 0,
       reason_code = ''SMA_CROSS_LONG'', signal_trigger_bar = example_bar 10 110\<rparr>,
     order_side = BUY, order_quantity = Dec False 10 0, submitted_at = 20, execution_bar = Some (example_bar 20 120),
     rejected_reason = None\<rparr>"

definition example_fill :: simulated_fill where
  "example_fill = \<lparr>fill_order = example_order, fill_ts = 30, reference_bar = example_bar 20 120, reference_price = dec_of_int 120,
     economics = \<lparr>fill_side = BUY, fill_quantity = Dec False 10 0, fill_reference_price = dec_of_int 120,
       fill_execution_price = Dec False 120 0, notional = Dec False 1200 0, commission_amount = Dec False 12 (-1),
       slippage_amount = Dec False 0 0, tax_amount = Dec False 0 0\<rparr>\<rparr>"

definition example_portfolio :: portfolio where
  "example_portfolio = \<lparr>cash = Dec False 87988 (-1), positions = [(1,
     \<lparr>quantity = Dec False 10 0, average_cost = Dec False 12012 (-2), realized_pnl = Dec False 0 0\<rparr>)]\<rparr>"

definition example_state :: "nat \<Rightarrow> sim_state" where
  "example_state k = \<lparr>st_portfolio = if k < 3 then \<lparr>cash = Dec False 10000 0, positions = []\<rparr> else example_portfolio,
     st_pending = if k = 2 then [(30, [example_order])] else [],
     st_decisions = take k [example_decision 1 10 [example_bar 0 100],
       example_decision 2 20 [example_bar 0 100, example_bar 10 110], example_decision 3 30 [example_bar 10 110, example_bar 20 120]],
     st_signals = if k < 2 then [] else [order_signal example_order], st_orders = if k < 2 then [] else [example_order],
     st_fills = if k < 3 then [] else [example_fill], st_times = [10, 20, 30]\<rparr>"


lemma example_decide_one:
  "decide_one (config_of sel) (ts, 1, b) st =
     (let window = slice_last 2 (visible_bars sel ts); s = position (st_portfolio st) 1;
          d = \<lparr>sequence = int (length (st_decisions st)) + 1, decision_instrument_id = 1, decision_ts = ts,
               decision_trigger_bar = b, inputs = window, state_sha256 = [], input_manifest_sha256 = []\<rparr>;
          st = st\<lparr>st_decisions := st_decisions st @ [d]\<rparr> in
      rbind (sma_decide \<lparr>view_instrument_id = 1, view_decision_ts = ts, visible_bars_of = window,
               current_quantity = quantity s, view_average_cost = average_cost s,
               view_realized_pnl = realized_pnl s, view_cash = cash (st_portfolio st),
               view_parameters = strategy example_request\<rparr>) (\<lambda>intent.
      if dec_eq (intent_target_quantity intent) (quantity s) then Inr st
      else place_order (config_of sel) (ts, 1, b) d intent s st))"
  unfolding decide_one_def lookup_or_raise_def prod.case example_cfg_simps option.case rbind_simps example_params(2) Let_def
    example_hashes by simp


lemma example_decimals:
  "dec_of_int 120 = Dec False 120 0"
  "dec_abs (dec_sub (Dec False 10 0) (Dec False 0 0)) = Dec False 10 0"
  "dec_mul (Dec False (Suc 0) 0) (Dec False 0 0) = Dec False 0 0"
  "dec_div (Dec False 0 0) (Dec False 10000 0) = Some (Dec False 0 0)"
  "dec_add (Dec False (Suc 0) 0) (Dec False 0 0) = Dec False (Suc 0) 0"
  "dec_mul (Dec False 120 0) (Dec False (Suc 0) 0) = Dec False 120 0"
  "dec_mul (Dec False 120 0) (Dec False 10 0) = Dec False 1200 0"
  "dec_mul (Dec False 1200 0) (Dec False 10 0) = Dec False 12000 0"
  "dec_div (Dec False 12000 0) (Dec False 10000 0) = Some (Dec False 12 (-1))"
  "dec_abs (dec_sub (Dec False 120 0) (Dec False 120 0)) = Dec False 0 0"
  "dec_mul (Dec False 0 0) (Dec False 10 0) = Dec False 0 0"
  "dec_add (Dec False 1200 0) (Dec False 12 (-1)) = Dec False 12012 (-1)"
  "dec_add (Dec False 12012 (-1)) (Dec False 0 0) = Dec False 12012 (-1)"
  "dec_minus (Dec False 12012 (-1)) = Dec True 12012 (-1)"
  "dec_minus (Dec True 12012 (-1)) = Dec False 12012 (-1)"
  "dec_add (Dec False 10000 0) (Dec True 12012 (-1)) = Dec False 87988 (-1)"
  "dec_mul (Dec False 0 0) (Dec False 0 0) = Dec False 0 0"
  "dec_add (Dec False 0 0) (Dec False 12012 (-1)) = Dec False 12012 (-1)"
  "dec_add (Dec False 0 0) (Dec False 10 0) = Dec False 10 0"
  "dec_div (Dec False 12012 (-1)) (Dec False 10 0) = Some (Dec False 12012 (-2))"
  "val (Dec False 12012 (-1)) = 12012 / 10" "val (Dec False 10 0) = 10" "val (Dec False 120 0) = 120" "val (Dec False 10000 0) = 10000"
  by (simp_all add: dec_eval val_def)

lemmas example_step = process_time_def fill_due_def due_orders_def example_decide_one
  example_visible slice_last_def last_n_def example_decide position_def flat_position_def example_state_def
  example_events_list_def example_decision_def Let_def dict_get_def dict_pop_def

lemma example_step1: "process_time example_config example_events_list 10 (example_state 0) = Inr (example_state 1)"
  by (simp add: example_step)
lemma example_step2: "process_time example_config example_events_list 20 (example_state 1) = Inr (example_state 2)"
  by (simp add: example_step place_order_def example_bindings lookup_or_raise_def example_order_def example_decimals dict_append_def schedule_time_def u_def example_cfg_simps(4) [unfolded dict_get_def] del: join.simps)

lemma example_price: "price_fill BUY (Dec False 10 0) (Dec False 120 0) (transaction_cost_model example_request) = Inr (economics example_fill)"
  by (simp add: price_fill_def example_fill_def example_decimals Let_def div_or_raise_def BPS_DIVISOR_def)

lemma example_apply: "apply_fill \<lparr>cash = Dec False 10000 0, positions = []\<rparr> 1 (economics example_fill) = Inr example_portfolio"
  by (simp add: apply_fill_def next_position_def example_fill_def example_portfolio_def cash_delta_def position_def dict_get_def
    flat_position_def example_decimals Let_def div_or_raise_def)

lemma example_step3: "process_time example_config example_events_list 30 (example_state 2) = Inr (example_state 3)"
proof -
  have "fill_due example_config 30 (example_state 2) = Inr ((example_state 2)\<lparr>st_portfolio := example_portfolio, st_pending := [], st_fills := [example_fill]\<rparr>)"
    using example_price example_apply
    by (simp add: fill_due_def due_orders_def example_state_def dict_get_def dict_pop_def fill_one_def example_order_def example_decimals del: join.simps example_request_simps) (simp add: example_fill_def example_order_def example_decimals)
  then show ?thesis
   by (simp add: example_step example_decimals example_portfolio_def)
qed
lemma example_final: "simulate example_config = Some (finish example_config (cfg_execution example_config) (example_state 3))"
proof -
  have "initial_state \<lparr>cash = Dec False 10000 0, positions = []\<rparr> example_events_list = example_state 0"
    by (simp add: initial_state_def example_events_list_def example_state_def)
  moreover have "sim_loop 4 example_config example_events_list 0 (example_state 0) = Some (Inr (example_state 3))"
    using example_step1 example_step2 example_step3 by (simp add: eval_nat_numeral) (simp add: example_state_def)
  moreover have "new_portfolio (Dec False 10000 0) = Inr \<lparr>cash = Dec False 10000 0, positions = []\<rparr>"
     by (simp add: new_portfolio_def example_decimals)
  ultimately show ?thesis
    using example_bindings(1,2) example_events by (simp add: simulate_def example_events_list_def)
qed

lemma example_valuation:
  "\<exists>v. final_valuations example_config (cfg_execution example_config) (st_portfolio (example_state 3)) = Inr v"
proof -
  have "instruments example_request = [\<lparr>instrument_id = 1, signal_component_key = u ''s'',
      execution_component_key = u ''s'', valuation_component_key = u ''s'', execution_lag_seconds = 0\<rparr>]"
    by (simp add: example_request_def)
  then show ?thesis
    by (simp add: final_valuations_def final_valuation_def Let_def lookup_or_raise_def example_visible)
qed

lemma example_run:
  "\<exists>r. simulate example_config = Some (Inr r) \<and>
     decisions r = st_decisions (example_state 3) \<and> orders r = [example_order] \<and> fills r = [example_fill]"
  using example_final example_valuation by (auto simp: finish_def example_state_def)

lemma example_selector_wf: "selector_wf example_selector"
  by (simp add: selector_wf_def example_selector_def example_rows_def dict_wf_def)

lemma example_selectors_wf: "selectors_wf (cfg_signal example_config)" "selectors_wf (cfg_execution example_config)"
  using example_selector_wf by (simp_all add: selectors_wf_def config_of_def)

lemma example_request_ok: "run_request_ok example_request"
proof -
  have "dict_get (strategy_parameters (strategy example_request)) (u ''fast_window'') = Some (ParamInt 1)"
    "dict_get (strategy_parameters (strategy example_request)) (u ''slow_window'') = Some (ParamInt 2)"
    "dict_get (strategy_parameters (strategy example_request)) (u ''target_quantity'') = Some (ParamDec (Dec False 10 0))"
    by code_simp+
  then have "strategy_ok (strategy example_request) 1 2 (Dec False 10 0)"
    by (simp add: strategy_ok_def example_decimals)
  then show ?thesis
    by (auto simp: run_request_ok_def example_request_def costs_ok_def val_def)
qed

subsection \<open>Two bars published at the same instant\<close>

definition late_bar :: "int \<Rightarrow> int \<Rightarrow> decision_bar" where
  "late_bar t price = (example_bar t price)\<lparr>available_at := 20, system_available_at := 20, effective_available_at := 20\<rparr>"

definition late_selector :: selector where
  "late_selector = [(0, [late_bar 0 100]), (10, [late_bar 10 110])]"

definition late_order :: simulated_order where
  "late_order = \<lparr>semantic_key = join [124] [u ''x'', str_int 1, str_int 1, dec_str (Dec False 10 0)],
     order_signal = \<lparr>decision_sequence = 1, signal_instrument_id = 1, signal_ts = 20, target_quantity = Dec False 10 0,
       reason_code = ''SMA_CROSS_LONG'', signal_trigger_bar = late_bar 0 100\<rparr>,
     order_side = BUY, order_quantity = Dec False 10 0, submitted_at = 20, execution_bar = Some (late_bar 10 110),
     rejected_reason = None\<rparr>"

lemma late_bar_simps [simp]:
  "bar_open_ts (late_bar t p) = t" "effective_available_at (late_bar t p) = 20" "close_price (late_bar t p) = dec_of_int p"
  by (simp_all add: late_bar_def)

lemma late_facts:
  "decision_events (config_of late_selector) = Inr [(20, 1, late_bar 0 100), (20, 1, late_bar 10 110)]"
  "visible_bars late_selector 20 = [late_bar 0 100, late_bar 10 110]"
  "visible_bars late_selector 100 = [late_bar 0 100, late_bar 10 110]"
  "validate_bindings (config_of late_selector) = Inr ()"
  "loop_fuel (config_of late_selector) [(20, 1, late_bar 0 100), (20, 1, late_bar 10 110)] = 2"
  "next_execution_bar late_selector 0 20 0 = Inr (Some (late_bar 10 110))"
  "next_execution_bar late_selector 10 20 0 = Inr None"
  by code_simp+

lemma late_decide:
  "sma_decide \<lparr>view_instrument_id = 1, view_decision_ts = ts, visible_bars_of = [late_bar 0 100, late_bar 10 110],
    current_quantity = q, view_average_cost = ac, view_realized_pnl = pl, view_cash = c, view_parameters = strategy example_request\<rparr>
   = Inr \<lparr>intent_instrument_id = 1, intent_decision_ts = ts, intent_target_quantity = Dec False 10 0, intent_reason_code = ''SMA_CROSS_LONG''\<rparr>"
  unfolding sma_decide_def decision_view.select_convs Let_def example_params
  by (simp add: dec_eval val_def make_intent_def mean_or_raise_def slice_last_def last_n_def dec_is_zero_def)

definition late_state :: "simulated_order list \<Rightarrow> sim_state" where
  "late_state rejected = \<lparr>st_portfolio = \<lparr>cash = Dec False 10000 0, positions = []\<rparr>, st_pending = [(20, [late_order])],
     st_decisions = [(example_decision 1 20 [late_bar 0 100, late_bar 10 110])\<lparr>decision_trigger_bar := late_bar 0 100\<rparr>,
       example_decision 2 20 [late_bar 0 100, late_bar 10 110]],
     st_signals = map order_signal (late_order # rejected), st_orders = late_order # rejected, st_fills = [], st_times = [20]\<rparr>"

lemma late_step:
  "\<exists>ords. process_time (config_of late_selector) [(20, 1, late_bar 0 100), (20, 1, late_bar 10 110)] 20
      \<lparr>st_portfolio = \<lparr>cash = Dec False 10000 0, positions = []\<rparr>, st_pending = [], st_decisions = [], st_signals = [],
       st_orders = [], st_fills = [], st_times = [20]\<rparr> = Inr (late_state ords)"
  apply (rule exI [of _ "[late_order\<lparr>semantic_key := join [124] [u ''x'', str_int 2, str_int 1, dec_str (Dec False 10 0)],
     order_signal := (order_signal late_order)\<lparr>decision_sequence := 2, signal_trigger_bar := late_bar 10 110\<rparr>,
     execution_bar := None, rejected_reason := Some ''NO_ELIGIBLE_EXECUTION_BAR''\<rparr>]"])
  by (simp add: process_time_def fill_due_def due_orders_def dict_get_def dict_pop_def late_state_def example_decision_def
      example_decide_one late_facts late_decide slice_last_def last_n_def position_def flat_position_def Let_def
      place_order_def example_bindings lookup_or_raise_def example_decimals dict_append_def schedule_time_def u_def
      example_cfg_simps(4) [unfolded dict_get_def] late_order_def del: join.simps)

lemma late_loop:
  "\<exists>ords. sim_loop 2 (config_of late_selector) [(20, 1, late_bar 0 100), (20, 1, late_bar 10 110)] 0
      (initial_state \<lparr>cash = Dec False 10000 0, positions = []\<rparr> [(20, 1, late_bar 0 100), (20, 1, late_bar 10 110)]) =
        Some (Inr (late_state ords))"
  using late_step by (auto simp: initial_state_def numeral_2_eq_2 late_state_def)

lemma late_run: "\<exists>r ords. simulate (config_of late_selector) = Some (Inr r) \<and> orders r = late_order # ords \<and> fills r = []"
proof -
  have i: "instruments example_request = [\<lparr>instrument_id = 1, signal_component_key = u ''s'',
      execution_component_key = u ''s'', valuation_component_key = u ''s'', execution_lag_seconds = 0\<rparr>]"
    by (simp add: example_request_def)
  obtain ords where ords: "sim_loop 2 (config_of late_selector) [(20, 1, late_bar 0 100), (20, 1, late_bar 10 110)] 0
      (initial_state \<lparr>cash = Dec False 10000 0, positions = []\<rparr> [(20, 1, late_bar 0 100), (20, 1, late_bar 10 110)]) =
        Some (Inr (late_state ords))" using late_loop by auto
  have "new_portfolio (Dec False 10000 0) = Inr \<lparr>cash = Dec False 10000 0, positions = []\<rparr>"
    by (simp add: new_portfolio_def example_decimals)
  then have "simulate (config_of late_selector) = Some (finish (config_of late_selector) (cfg_execution (config_of late_selector)) (late_state ords))"
    using ords late_facts(1,4,5) by (simp add: simulate_def)
  moreover obtain v where "final_valuations (config_of late_selector) (cfg_execution (config_of late_selector))
      (st_portfolio (late_state ords)) = Inr v"
    by (simp add: final_valuations_def final_valuation_def Let_def lookup_or_raise_def late_facts(3) i)
  ultimately show ?thesis
    by (simp add: finish_def) (simp add: late_state_def)
qed

lemma late_selector_wf: "selectors_wf (cfg_signal (config_of late_selector))" "selectors_wf (cfg_execution (config_of late_selector))"
  by (simp_all add: selectors_wf_def config_of_def selector_wf_def late_selector_def dict_wf_def)

end
