(* ===== verification/Backtest_Simulation.thy ===== *)
theory Backtest_Simulation
  imports Backtest_Example
begin

text \<open>
  Whole simulations: what a completed run of \<^verbatim>\<open>simulate\<close> guarantees, from the invariants of its loop,
  and the events it works through.
\<close>

subsection \<open>A completed run\<close>

lemma simulate_run:
  assumes "simulate cfg = Some (Inr r)"
  obtains evs st data vals where
    "validate_bindings cfg = Inr ()"
    "data = (if cfg_valuation cfg = [] then cfg_execution cfg else cfg_valuation cfg)"
    "new_portfolio (initial_capital (cfg_request cfg)) = Inr (opening_portfolio cfg)"
    "decision_events cfg = Inr evs"
    "sim_loop (loop_fuel cfg evs) cfg evs 0 (initial_state (opening_portfolio cfg) evs) = Some (Inr st)"
    "final_valuations cfg data (st_portfolio st) = Inr vals"
    "decisions r = st_decisions st" "signals r = st_signals st" "orders r = st_orders st" "fills r = st_fills st"
    "final_cash r = cash (st_portfolio st)" "valuations r = vals"
    "final_positions r = map (\<lambda>i. (instrument_id i, position (st_portfolio st) (instrument_id i)))
       (instruments (cfg_request cfg))"
    "equity_base r = dec_add (cash (st_portfolio st)) (dec_sum dec_zero (map market_value vals))"
proof -
  define data where "data = (if cfg_valuation cfg = [] then cfg_execution cfg else cfg_valuation cfg)"
  from assms obtain p evs st where b: "validate_bindings cfg = Inr ()"
    and p: "new_portfolio (initial_capital (cfg_request cfg)) = Inr p"
    and evs: "decision_events cfg = Inr evs"
    and run: "sim_loop (loop_fuel cfg evs) cfg evs 0 (initial_state p evs) = Some (Inr st)"
    and fin: "finish cfg data st = Inr r"
    unfolding simulate_def data_def
    by (auto simp: Let_def split: sum.splits option.splits if_splits)
  have "p = opening_portfolio cfg"
    using p by (auto simp: new_portfolio_def opening_portfolio_def split: if_splits)
  moreover obtain vals where "final_valuations cfg data (st_portfolio st) = Inr vals"
    using fin by (auto simp: finish_def rbind_Inr_iff)
  ultimately show ?thesis
    using that [OF b data_def _ evs] p run fin by (auto simp: finish_def)
qed

lemma sorted_events: "decision_events cfg = Inr evs \<Longrightarrow> sorted (map fst evs)"
proof -
  have fst: "sorted (map fst xs)"
    if "sorted (map (\<lambda>(ts, iid, b). (ts, iid, bar_series_id b, bar_open_ts b)) xs)" for xs :: "event list"
    using that by (induction xs) (auto simp: less_eq_prod_def)
  assume "decision_events cfg = Inr evs"
  then obtain es where "evs = sort_key (\<lambda>(ts, iid, b). (ts, iid, bar_series_id b, bar_open_ts b)) es"
    by (auto simp: decision_events_def rbind_Inr_iff)
  then show ?thesis
    by (simp only: fst sorted_sort_key)
qed

lemma opening_ok: "new_portfolio c = Inr p \<Longrightarrow> portfolio_inv cfg evs (initial_state p evs)"
  using new_portfolio_ok by (simp add: portfolio_inv_def initial_state_def)

lemma ledger_inv_initial: "ledger_inv cfg evs (initial_state (opening_portfolio cfg) evs)"
  by (simp add: ledger_inv_def initial_state_def)

subsection \<open>Termination\<close>

text \<open>C8. The simulation always returns: the event loop ends with a result or an error on every
  input, whatever times the orders it places add to its schedule.\<close>

theorem simulate_terminates: "simulate cfg \<noteq> None"
proof -
  have loop: "sim_loop (loop_fuel cfg evs) cfg evs 0 (initial_state p evs) \<noteq> None" for p evs
    using schedule_inv_initial by (rule sim_loop_enough_fuel) (simp_all add: loop_fuel_card)
  show ?thesis
    by (simp add: simulate_def Let_def loop del: not_None_eq split: sum.split option.split)
qed

subsection \<open>The events\<close>

text \<open>A bar is decided on at the instant it first becomes visible, within the window of the run.\<close>

definition due_event :: "sim_config \<Rightarrow> event \<Rightarrow> bool" where
  "due_event cfg ev \<longleftrightarrow>
     (case ev of (ts, iid, b) \<Rightarrow>
        event_from (cfg_request cfg) \<le> ts \<and> ts < event_to (cfg_request cfg) \<and>
        iid \<in> instrument_id ` set (instruments (cfg_request cfg)) \<and>
        (\<exists>s revs. dict_get (cfg_signal cfg) iid = Some s \<and> (bar_open_ts b, revs) \<in> set s \<and>
           first_visibility revs = ts \<and> latest_visible ts revs = Some b))"

lemma visible_lookup:
  assumes wf: "selector_wf s" and e: "(o_ts, revs) \<in> set s" and ts: "ts = first_visibility revs"
  shows "\<exists>b. latest_visible ts revs = Some b \<and> bar_open_ts b = o_ts \<and>
    dict_get (map (\<lambda>b. (bar_open_ts b, b)) (visible_bars s ts)) o_ts = Some b"
proof -
  obtain r where "r \<in> set revs" "effective_available_at r = ts"
    using first_visibility_attained [OF wf e] ts by auto
  then obtain b where b: "latest_visible ts revs = Some b"
    using latest_visible_None_iff [of ts revs] by fastforce
  have o: "bar_open_ts b = o_ts"
    using wf e latest_visible_Some(1) [OF b] by (auto simp: selector_wf_def)
  have "distinct (map bar_open_ts (visible_bars s ts))"
    using visible_bars_sorted(1) [OF wf] by (metis strict_sorted_iff sorted_wrt_map)
  moreover have "b \<in> set (visible_bars s ts)"
    using b e by (auto simp: set_visible)
  ultimately have "dict_get (map (\<lambda>b. (bar_open_ts b, b)) (visible_bars s ts)) o_ts = Some b"
    using o by (force simp: dict_get_def map_of_eq_Some_iff comp_def)
  with b o show ?thesis by blast
qed

lemma mem_decision_schedule:
  "(ts, o_ts) \<in> set (decision_schedule s) \<longleftrightarrow> (\<exists>revs. (o_ts, revs) \<in> set s \<and> first_visibility revs = ts)"
  by (force simp: decision_schedule_def)

lemma schedule_lookup:
  assumes "selector_wf s" and "(ts, o_ts) \<in> set (decision_schedule s)"
  obtains revs b where "(o_ts, revs) \<in> set s" "latest_visible ts revs = Some b" "first_visibility revs = ts"
    "bar_open_ts b = o_ts" "dict_get (map (\<lambda>b. (bar_open_ts b, b)) (visible_bars s ts)) o_ts = Some b"
proof -
  obtain revs where e: "(o_ts, revs) \<in> set s" "first_visibility revs = ts"
    using assms(2) by (auto simp: mem_decision_schedule)
  show ?thesis
    using visible_lookup [OF assms(1) e(1) e(2) [symmetric]] that e by metis
qed

lemma schedule_distinct: "selector_wf s \<Longrightarrow> distinct (decision_schedule s)"
  by (force simp: decision_schedule_def selector_wf_def dict_wf_def distinct_map inj_on_def)

lemma instrument_events_set:
  assumes "selectors_wf (cfg_signal cfg)" and "dict_get (cfg_signal cfg) (instrument_id i) = Some s"
  shows "\<exists>evs. instrument_events cfg i = Inr evs \<and> distinct evs \<and>
    set evs = {(ts, iid, b). iid = instrument_id i \<and> event_from (cfg_request cfg) \<le> ts \<and> ts < event_to (cfg_request cfg) \<and>
      (\<exists>revs. (bar_open_ts b, revs) \<in> set s \<and> first_visibility revs = ts \<and> latest_visible ts revs = Some b)}"
proof -
  have wf: "selector_wf s"
    using assms dict_get_mem by (fastforce simp: selectors_wf_def)
  let ?sched = "filter (\<lambda>(ts, _). event_from (cfg_request cfg) \<le> ts \<and> ts < event_to (cfg_request cfg)) (decision_schedule s)"
  let ?f = "\<lambda>(ts, open_ts). rbind (lookup_or_raise (map (\<lambda>b. (bar_open_ts b, b)) (visible_bars s ts)) open_ts)
      (\<lambda>b. Inr (ts, instrument_id i, b))"
  define g where "g = (\<lambda>(ts, open_ts). (ts, instrument_id i,
      the (dict_get (map (\<lambda>b. (bar_open_ts b, b)) (visible_bars s ts)) open_ts)))"
  note look = schedule_lookup [OF wf]
  have run: "map_result ?f ?sched = Inr (map g ?sched)"
  proof (rule map_result_map)
    fix p assume p: "p \<in> set ?sched"
    obtain ts o_ts where ts: "p = (ts, o_ts)" by fastforce
    then show "?f p = Inr (g p)"
      using p by (auto simp: g_def lookup_or_raise_def elim!: look)
  qed
  have "set (map g ?sched) = {(ts, iid, b). iid = instrument_id i \<and> event_from (cfg_request cfg) \<le> ts \<and>
      ts < event_to (cfg_request cfg) \<and>
      (\<exists>revs. (bar_open_ts b, revs) \<in> set s \<and> first_visibility revs = ts \<and> latest_visible ts revs = Some b)}"
    (is "?L = ?R")
  proof (intro equalityI subsetI)
    fix ev assume "ev \<in> ?L"
    then obtain ts o_ts where p: "(ts, o_ts) \<in> set ?sched" "ev = g (ts, o_ts)" by auto
    then show "ev \<in> ?R" by (auto simp: g_def elim!: look)
  next
    fix ev assume "ev \<in> ?R"
    then obtain ts b revs where e: "ev = (ts, instrument_id i, b)" "event_from (cfg_request cfg) \<le> ts"
        "ts < event_to (cfg_request cfg)" "(bar_open_ts b, revs) \<in> set s" "first_visibility revs = ts"
        "latest_visible ts revs = Some b" by auto
    then have "(ts, bar_open_ts b) \<in> set ?sched" using mem_decision_schedule by auto
    moreover have "g (ts, bar_open_ts b) = ev"
      using visible_lookup [OF wf e(4) e(5) [symmetric]] e(1,6) by (auto simp: g_def)
    ultimately show "ev \<in> ?L" by force
  qed
  moreover have "distinct (map g ?sched)"
    using schedule_distinct [OF wf] by (auto simp: distinct_map inj_on_def g_def elim!: look)
  moreover have "instrument_events cfg i = Inr (map g ?sched)"
    using run assms(2) by (simp add: instrument_events_def lookup_or_raise_def)
  ultimately show ?thesis by blast
qed

definition sim_ready :: "sim_config \<Rightarrow> bool" where
  "sim_ready cfg \<longleftrightarrow> run_request_ok (cfg_request cfg) \<and> selectors_wf (cfg_signal cfg) \<and> selectors_wf (cfg_execution cfg)"

lemma sim_ready_lags: "sim_ready cfg \<Longrightarrow> lags_ok cfg"
  by (simp add: sim_ready_def run_request_ok_def lags_ok_def)

lemma distinct_concat_keyed:
  assumes "distinct (map key xs)" and "\<And>x. x \<in> set xs \<Longrightarrow> distinct (f x)"
    and "\<And>x y. x \<in> set xs \<Longrightarrow> y \<in> set (f x) \<Longrightarrow> k y = key x"
  shows "distinct (concat (map f xs))"
  using assms by (induction xs) (auto, metis image_eqI)

lemma example_ready: "sim_ready example_config"
  using example_request_ok example_selectors_wf by (simp add: sim_ready_def)

lemma decision_events_set:
  assumes "sim_ready cfg" and "validate_bindings cfg = Inr ()"
  shows "\<exists>evs. decision_events cfg = Inr evs \<and> distinct evs \<and> set evs = {ev. due_event cfg ev}"
proof -
  let ?is = "instruments (cfg_request cfg)"
  have sel: "\<exists>s. dict_get (cfg_signal cfg) (instrument_id i) = Some s" if "i \<in> set ?is" for i
  proof -
    have "instrument_id i \<in> set (dict_keys (cfg_signal cfg))"
      using assms(2) that by (auto simp: validate_bindings_def Let_def split: if_splits)
    then show ?thesis by (simp add: set_dict_keys)
  qed
  define f where "f i = (SOME evs. instrument_events cfg i = Inr evs)" for i
  have f: "instrument_events cfg i = Inr (f i) \<and> distinct (f i) \<and>
      set (f i) = {ev. due_event cfg ev \<and> fst (snd ev) = instrument_id i}" if i: "i \<in> set ?is" for i
  proof -
    obtain s where s: "dict_get (cfg_signal cfg) (instrument_id i) = Some s" using sel [OF i] ..
    obtain evs where evs: "instrument_events cfg i = Inr evs" "distinct evs"
      "set evs = {(ts, iid, b). iid = instrument_id i \<and> event_from (cfg_request cfg) \<le> ts \<and> ts < event_to (cfg_request cfg) \<and>
        (\<exists>revs. (bar_open_ts b, revs) \<in> set s \<and> first_visibility revs = ts \<and> latest_visible ts revs = Some b)}"
      using instrument_events_set [OF _ s] assms(1) by (auto simp: sim_ready_def)
    have "set evs = {ev. due_event cfg ev \<and> fst (snd ev) = instrument_id i}"
      using i s unfolding evs(3) by (auto simp: due_event_def)
    then show ?thesis using evs by (simp add: f_def)
  qed
  have run: "map_result (instrument_events cfg) ?is = Inr (map f ?is)"
    using f by (intro map_result_map) simp
  have "distinct (map instrument_id ?is)"
    using assms(1) by (simp add: sim_ready_def run_request_ok_def)
  then have "distinct (concat (map f ?is))"
    by (rule distinct_concat_keyed [where k = "\<lambda>ev. fst (snd ev)"]) (use f in auto)
  moreover have "set (concat (map f ?is)) = {ev. due_event cfg ev}"
    using f by (force simp: due_event_def)
  ultimately show ?thesis
    using run by (simp add: decision_events_def)
qed

subsection \<open>What a completed run guarantees\<close>

text \<open>C9. A completed run decides exactly once on every bar of a run instrument that first becomes visible
  within the event window, and on nothing else; the decisions are in chronological order and
  numbered consecutively from one.\<close>

theorem simulate_decides_every_event:
  assumes "sim_ready cfg" and "simulate cfg = Some (Inr r)"
  shows "set (map event_of (decisions r)) = {ev. due_event cfg ev} \<and> distinct (map event_of (decisions r)) \<and>
    sorted (map decision_ts (decisions r)) \<and>
    map sequence (decisions r) = map int [1..<Suc (length (decisions r))]"
  using assms(2)
proof (cases rule: simulate_run)
  case (1 evs st data vals)
  have wf: "exec_wf cfg" "lags_ok cfg" "sorted (map fst evs)"
    using assms(1) sim_ready_lags sorted_events [OF 1(4)] by (auto simp: sim_ready_def)
  have evs: "map event_of (decisions r) = evs"
    using timed_loop [OF wf timed_initial 1(5)] 1(7) by simp
  moreover have "map decision_ts (decisions r) = map fst evs"
    unfolding evs [symmetric] by (simp add: event_of_def)
  moreover have "map sequence (decisions r) = map int [1..<Suc (length (decisions r))]"
    using journal.sim_loop_inv [OF journal_inv_initial 1(5)] 1(7) by (simp add: journal_inv_def)
  ultimately show ?thesis
    using decision_events_set [OF assms(1) 1(1)] 1(4) wf(3) by auto
qed

theorem simulate_decides_every_event_witness:
  "\<exists>r. simulate example_config = Some (Inr r) \<and> length (decisions r) = 3 \<and>
     set (map event_of (decisions r)) = {ev. due_event example_config ev} \<and> sorted (map decision_ts (decisions r))"
proof -
  obtain r where r: "simulate example_config = Some (Inr r)" "decisions r = st_decisions (example_state 3)"
    using example_run by auto
  then show ?thesis
    using simulate_decides_every_event [OF example_ready r(1)] by (simp add: example_state_def)
qed

text \<open>C2. No look-ahead: everything a decision is based on was available at the decision's instant.\<close>

theorem simulate_no_lookahead:
  assumes "simulate cfg = Some (Inr r)" and "d \<in> set (decisions r)" and "b \<in> set (inputs d)"
  shows "effective_available_at b \<le> decision_ts d"
  using assms(1)
proof (cases rule: simulate_run)
  case (1 evs st data vals)
  then show ?thesis
    using journal.sim_loop_inv [OF journal_inv_initial 1(5)] assms(2,3) by (auto simp: journal_inv_def)
qed

theorem simulate_no_lookahead_witness:
  "\<exists>r d. simulate example_config = Some (Inr r) \<and> d \<in> set (decisions r) \<and>
     example_bar 20 120 \<in> set (inputs d) \<and> effective_available_at (example_bar 20 120) \<le> decision_ts d"
proof -
  obtain r where r: "simulate example_config = Some (Inr r)" "decisions r = st_decisions (example_state 3)"
    using example_run by auto
  define d where "d = example_decision 3 30 [example_bar 10 110, example_bar 20 120]"
  have "d \<in> set (decisions r)" "example_bar 20 120 \<in> set (inputs d)"
    using r(2) by (simp_all add: d_def example_state_def example_decision_def)
  then show ?thesis
    using simulate_no_lookahead [OF r(1)] r(1) by blast
qed

text \<open>C10. With costs below the whole notional, a run never ends with negative cash or a negative
  position: no leverage and no short sale.\<close>

theorem simulate_never_negative:
  assumes "simulate cfg = Some (Inr r)" and "costs_bounded (transaction_cost_model (cfg_request cfg))"
  shows "0 \<le> val (final_cash r) \<and> (\<forall>(i, s) \<in> set (final_positions r). 0 \<le> val (quantity s) \<and> 0 \<le> val (average_cost s))"
  using assms(1)
proof (cases rule: simulate_run)
  case (1 evs st data vals)
  have "portfolio_ok (st_portfolio st)"
    using portfolio.sim_loop_inv [OF opening_ok [OF 1(3)] 1(5)] assms(2) by (simp add: portfolio_inv_def)
  then show ?thesis
    using 1(11,13) by (auto simp: portfolio_ok_def position_ok_def)
qed

theorem simulate_never_negative_witness:
  "costs_bounded (transaction_cost_model example_request) \<and>
     (\<exists>r. simulate example_config = Some (Inr r) \<and> fills r = [example_fill] \<and> 0 \<le> val (final_cash r))"
proof -
  obtain r where r: "simulate example_config = Some (Inr r)" "fills r = [example_fill]"
    using example_run by auto
  have "costs_bounded (transaction_cost_model example_request)"
    by (simp add: costs_bounded_def costs_ok_def val_def)
  then show ?thesis
    using simulate_never_negative [OF r(1)] r by auto
qed

text \<open>C4. The fills account for the result: replaying them in order on the initial capital never fails
  and gives the final cash and positions, and every fill prices its order at the close of its execution bar
  with the cost model of the run.\<close>

theorem simulate_ledger_replays:
  assumes "simulate cfg = Some (Inr r)"
  shows "(\<exists>p. replay (opening_portfolio cfg) (fills r) = Inr p \<and> final_cash r = cash p \<and>
      final_positions r = map (\<lambda>i. (instrument_id i, position p (instrument_id i))) (instruments (cfg_request cfg))) \<and>
    (\<forall>f \<in> set (fills r). fill_valid cfg f)"
  using assms
proof (cases rule: simulate_run)
  case (1 evs st data vals)
  then show ?thesis
    using ledger.sim_loop_inv [OF ledger_inv_initial 1(5)] by (auto simp: ledger_inv_def)
qed

theorem simulate_ledger_replays_witness:
  "\<exists>r p. simulate example_config = Some (Inr r) \<and> fills r = [example_fill] \<and>
     replay (opening_portfolio example_config) [example_fill] = Inr p \<and> final_cash r = cash p"
proof -
  obtain r where r: "simulate example_config = Some (Inr r)" "fills r = [example_fill]"
    using example_run by auto
  then show ?thesis
    using simulate_ledger_replays [OF r(1)] by auto
qed

text \<open>Orders and fills: every signal has exactly one order, no order is filled twice, only orders of the run are
  filled, fills are journalled in chronological order, and a filled order executes on a bar that opens after the
  bar that triggered it, no earlier than the lag of its instrument after its submission.\<close>

theorem simulate_fills_in_order:
  assumes "sim_ready cfg" and "simulate cfg = Some (Inr r)"
  shows "signals r = map order_signal (orders r) \<and> distinct (map fill_order (fills r)) \<and>
    set (map fill_order (fills r)) \<subseteq> set (orders r) \<and> sorted (map fill_ts (fills r)) \<and>
    (\<forall>f \<in> set (fills r). \<exists>i \<in> set (instruments (cfg_request cfg)).
       instrument_id i = signal_instrument_id (order_signal (fill_order f)) \<and>
       submitted_at (fill_order f) + execution_lag_seconds i * 1000000 \<le> fill_ts f \<and>
       bar_open_ts (signal_trigger_bar (order_signal (fill_order f))) < bar_open_ts (reference_bar f))"
  using assms(2)
proof (cases rule: simulate_run)
  case (1 evs st data vals)
  have wf: "exec_wf cfg" "lags_ok cfg" "sorted (map fst evs)"
    using assms(1) sim_ready_lags sorted_events [OF 1(4)] by (auto simp: sim_ready_def)
  have once: "once_inv cfg evs st" by (rule once.sim_loop_inv [OF once_inv_initial 1(5)])
  then have j: "journal_inv cfg evs st" by (simp add: once_inv_def)
  have "ledger_inv cfg evs st" by (rule ledger.sim_loop_inv [OF ledger_inv_initial 1(5)])
  then have v: "fill_valid cfg f" if "f \<in> set (st_fills st)" for f
    using that by (simp add: ledger_inv_def)
  have ok: "order_ok cfg (fill_order f)" if "f \<in> set (st_fills st)" for f
    using once j wf(1) that by (auto simp: once_inv_def journal_inv_def)
  have timed: "fills_timed (length (st_times st)) st"
    using timed_loop [OF wf timed_initial 1(5)] by (simp add: timed_def)
  have "\<forall>f \<in> set (st_fills st). \<exists>i \<in> set (instruments (cfg_request cfg)).
       instrument_id i = signal_instrument_id (order_signal (fill_order f)) \<and>
       submitted_at (fill_order f) + execution_lag_seconds i * 1000000 \<le> fill_ts f \<and>
       bar_open_ts (signal_trigger_bar (order_signal (fill_order f))) < bar_open_ts (reference_bar f)"
    using ok v by (fastforce simp: order_ok_def fill_valid_def)
  then show ?thesis
    using once j timed 1(8,9,10) by (simp add: once_inv_def journal_inv_def fills_timed_def)
qed

theorem simulate_fills_in_order_witness:
  "\<exists>r. simulate example_config = Some (Inr r) \<and> fills r = [example_fill] \<and>
     set (map fill_order (fills r)) \<subseteq> set (orders r) \<and> submitted_at (fill_order example_fill) \<le> fill_ts example_fill"
proof -
  obtain r where r: "simulate example_config = Some (Inr r)" "fills r = [example_fill]"
    using example_run by auto
  have "0 \<le> execution_lag_seconds i" if "i \<in> set (instruments (cfg_request example_config))" for i
    using that example_request_ok by (simp add: run_request_ok_def)
  then show ?thesis
    using simulate_fills_in_order [OF example_ready r(1)] r by fastforce
qed

end
