(* ===== verification/Backtest_Orders.thy ===== *)
theory Backtest_Orders
  imports Backtest_Simulation
begin

text \<open>
  What becomes of the orders of a simulation (\<^verbatim>\<open>src/bisfin/backtest/engine.py\<close>). An order whose bar becomes available after
  the order was submitted is tried once, at that instant and against the portfolio that the fills before it make up;
  an order whose bar becomes available at the instant of its submission is put under a key of \<^verbatim>\<open>pending\<close> that
  has already been popped, and is lost. Both follow from one invariant of the loop.
\<close>

subsection \<open>Tried orders\<close>

text \<open>
  There is a place in the journal of fills at which the order was tried: if the accounting accepts it there, the next
  fill is this order at its bar; if the accounting refuses it, the order is never filled.
\<close>

definition fill_at :: "simulated_order \<Rightarrow> decision_bar \<Rightarrow> priced_fill \<Rightarrow> simulated_fill" where
  "fill_at ord bar priced =
     \<lparr>fill_order = ord, fill_ts = effective_available_at bar, reference_bar = bar, reference_price = close_price bar, economics = priced\<rparr>"

definition tried :: "sim_config \<Rightarrow> simulated_fill list \<Rightarrow> simulated_order \<Rightarrow> decision_bar \<Rightarrow> bool" where
  "tried cfg fs ord bar \<longleftrightarrow>
     (\<exists>before after p priced. fs = before @ after \<and>
        (\<forall>f \<in> set before. fill_ts f \<le> effective_available_at bar) \<and> (\<forall>f \<in> set after. effective_available_at bar \<le> fill_ts f) \<and>
        replay (opening_portfolio cfg) before = Inr p \<and>
        price_fill (order_side ord) (order_quantity ord) (close_price bar) (transaction_cost_model (cfg_request cfg)) = Inr priced \<and>
        (case apply_fill p (signal_instrument_id (order_signal ord)) priced of
           Inr _ \<Rightarrow> after \<noteq> [] \<and> hd after = fill_at ord bar priced
         | Inl e \<Rightarrow> (\<exists>m. e = BacktestValidationError m) \<and> ord \<notin> fill_order ` set fs))"

lemma tried_append:
  assumes "tried cfg fs ord bar" and "\<forall>f \<in> set new. fill_order f \<noteq> ord \<and> effective_available_at bar \<le> fill_ts f"
  shows "tried cfg (fs @ new) ord bar"
proof -
  from assms(1) obtain before after p priced where t: "fs = before @ after"
      "\<forall>f \<in> set before. fill_ts f \<le> effective_available_at bar" "\<forall>f \<in> set after. effective_available_at bar \<le> fill_ts f"
      "replay (opening_portfolio cfg) before = Inr p"
      "price_fill (order_side ord) (order_quantity ord) (close_price bar) (transaction_cost_model (cfg_request cfg)) = Inr priced"
      "case apply_fill p (signal_instrument_id (order_signal ord)) priced of
         Inr _ \<Rightarrow> after \<noteq> [] \<and> hd after = fill_at ord bar priced
       | Inl e \<Rightarrow> (\<exists>m. e = BacktestValidationError m) \<and> ord \<notin> fill_order ` set fs"
    unfolding tried_def by blast
  show ?thesis
    unfolding tried_def
    by (intro exI [of _ before] exI [of _ "after @ new"] exI [of _ p] exI [of _ priced])
      (use t assms(2) in \<open>auto split: sum.splits\<close>)
qed

lemma fill_one_tried:
  assumes "fill_one cfg ord st = Inr st'" and "execution_bar ord = Some bar"
    and "replay (opening_portfolio cfg) (st_fills st) = Inr (st_portfolio st)"
    and "\<forall>f \<in> set (st_fills st). fill_ts f \<le> effective_available_at bar" and "ord \<notin> fill_order ` set (st_fills st)"
  shows "tried cfg (st_fills st') ord bar"
    and "\<exists>new. st_fills st' = st_fills st @ new \<and> (\<forall>f \<in> set new. fill_order f = ord \<and> fill_ts f = effective_available_at bar)"
    and "replay (opening_portfolio cfg) (st_fills st') = Inr (st_portfolio st')"
proof -
  obtain priced where priced: "price_fill (order_side ord) (order_quantity ord) (close_price bar) (transaction_cost_model (cfg_request cfg)) = Inr priced"
    using assms(1,2) by (auto simp: fill_one_def rbind_Inr_iff)
  note step = assms(1) [unfolded fill_one_def assms(2) option.case priced rbind_simps]
  have "tried cfg (st_fills st') ord bar \<and>
      (\<exists>new. st_fills st' = st_fills st @ new \<and> (\<forall>f \<in> set new. fill_order f = ord \<and> fill_ts f = effective_available_at bar)) \<and>
      replay (opening_portfolio cfg) (st_fills st') = Inr (st_portfolio st')"
  proof (cases "apply_fill (st_portfolio st) (signal_instrument_id (order_signal ord)) priced")
    case (Inl e)
    then obtain m where e: "e = BacktestValidationError m" and st': "st' = st" using step by (cases e) auto
    have "tried cfg (st_fills st) ord bar"
      unfolding tried_def
      by (intro exI [of _ "st_fills st"] exI [of _ "[]"] exI [of _ "st_portfolio st"] exI [of _ priced])
        (use assms(3-5) priced Inl e in simp)
    then show ?thesis using st' assms(3) by auto
  next
    case (Inr p)
    then have st': "st' = st\<lparr>st_portfolio := p, st_fills := st_fills st @ [fill_at ord bar priced]\<rparr>"
      using step by (simp add: fill_at_def)
    have "tried cfg (st_fills st') ord bar"
      unfolding tried_def
      by (intro exI [of _ "st_fills st"] exI [of _ "[fill_at ord bar priced]"] exI [of _ "st_portfolio st"] exI [of _ priced])
        (use assms(3-5) priced Inr st' in \<open>simp add: fill_at_def\<close>)
    then show ?thesis using st' assms(3) Inr by (simp add: replay_append fill_at_def)
  qed
  then show "tried cfg (st_fills st') ord bar"
    and "\<exists>new. st_fills st' = st_fills st @ new \<and> (\<forall>f \<in> set new. fill_order f = ord \<and> fill_ts f = effective_available_at bar)"
    and "replay (opening_portfolio cfg) (st_fills st') = Inr (st_portfolio st')"
    by blast+
qed

text \<open>Orders due at one instant are all tried at it, and nothing else is filled.\<close>

lemma fill_all_tried:
  assumes "\<forall>o' \<in> set ords. \<exists>b. execution_bar o' = Some b \<and> effective_available_at b = ts"
  shows "fill_all cfg ords st = Inr st' \<Longrightarrow> replay (opening_portfolio cfg) (st_fills st) = Inr (st_portfolio st) \<Longrightarrow>
    \<forall>f \<in> set (st_fills st). fill_ts f \<le> ts \<Longrightarrow> distinct ords \<Longrightarrow> set ords \<inter> fill_order ` set (st_fills st) = {} \<Longrightarrow>
    (\<forall>o' \<in> set ords. \<forall>b. execution_bar o' = Some b \<longrightarrow> tried cfg (st_fills st') o' b) \<and>
    (\<exists>new. st_fills st' = st_fills st @ new \<and> (\<forall>f \<in> set new. fill_order f \<in> set ords \<and> fill_ts f = ts))"
  using assms
proof (induction ords arbitrary: st)
  case (Cons ord ords)
  from Cons.prems(1) obtain st\<^sub>1 where f: "fill_one cfg ord st = Inr st\<^sub>1" "fill_all cfg ords st\<^sub>1 = Inr st'"
    by (auto simp: rbind_Inr_iff)
  obtain bar where bar: "execution_bar ord = Some bar" "effective_available_at bar = ts"
    using Cons.prems(6) by auto
  note one = fill_one_tried [OF f(1) bar(1) Cons.prems(2), unfolded bar(2)]
  have first: "tried cfg (st_fills st\<^sub>1) ord bar" "replay (opening_portfolio cfg) (st_fills st\<^sub>1) = Inr (st_portfolio st\<^sub>1)"
    using one(1,3) Cons.prems(3,5) by auto
  obtain new\<^sub>1 where new\<^sub>1: "st_fills st\<^sub>1 = st_fills st @ new\<^sub>1" "\<forall>f \<in> set new\<^sub>1. fill_order f = ord \<and> fill_ts f = ts"
    using one(2) Cons.prems(3,5) by auto
  have rest: "(\<forall>o' \<in> set ords. \<forall>b. execution_bar o' = Some b \<longrightarrow> tried cfg (st_fills st') o' b) \<and>
      (\<exists>new. st_fills st' = st_fills st\<^sub>1 @ new \<and> (\<forall>f \<in> set new. fill_order f \<in> set ords \<and> fill_ts f = ts))"
    using Cons.prems(3-6) new\<^sub>1 by (intro Cons.IH [OF f(2) first(2)]) auto
  then obtain new\<^sub>2 where new\<^sub>2: "st_fills st' = st_fills st\<^sub>1 @ new\<^sub>2" "\<forall>f \<in> set new\<^sub>2. fill_order f \<in> set ords \<and> fill_ts f = ts"
    by blast
  have "tried cfg (st_fills st') ord bar"
    unfolding new\<^sub>2(1) using new\<^sub>2(2) Cons.prems(4) bar(2) by (intro tried_append [OF first(1)]) auto
  then show ?case
    using rest bar(1) new\<^sub>1 new\<^sub>2 by auto
qed simp

subsection \<open>The invariant\<close>

text \<open>
  After the first k instants of the schedule: orders were submitted at these instants; an order whose bar is
  still to come is pending under it, and one whose bar came after its submission has been tried.
\<close>

definition order_fate :: "sim_config \<Rightarrow> nat \<Rightarrow> sim_state \<Rightarrow> simulated_order \<Rightarrow> decision_bar \<Rightarrow> bool" where
  "order_fate cfg k st ord b \<longleftrightarrow>
     submitted_at ord \<le> effective_available_at b \<and> effective_available_at b \<in> set (st_times st) \<and>
     (effective_available_at b \<in> set (drop k (st_times st)) \<longrightarrow>
        (\<exists>ords. dict_get (st_pending st) (effective_available_at b) = Some ords \<and> ord \<in> set ords)) \<and>
     (effective_available_at b \<in> set (take k (st_times st)) \<longrightarrow> submitted_at ord < effective_available_at b \<longrightarrow>
        tried cfg (st_fills st) ord b)"

definition fate_inv :: "sim_config \<Rightarrow> nat \<Rightarrow> sim_state \<Rightarrow> bool" where
  "fate_inv cfg k st \<longleftrightarrow>
     (\<forall>ord \<in> set (st_orders st). submitted_at ord \<in> set (take k (st_times st)) \<and>
        (\<forall>b. execution_bar ord = Some b \<longrightarrow> order_fate cfg k st ord b)) \<and>
     (\<forall>f \<in> set (st_fills st). submitted_at (fill_order f) < fill_ts f)"

lemma fate_inv_initial: "fate_inv cfg 0 (initial_state p evs)"
  by (simp add: fate_inv_def initial_state_def)

text \<open>The instants of a schedule.\<close>

lemma strict_schedule:
  assumes "timed cfg evs k st" and "k < length (st_times st)"
  shows "t \<in> set (take k (st_times st)) \<Longrightarrow> t < st_times st ! k"
    and "set (take (Suc k) (st_times st)) = insert (st_times st ! k) (set (take k (st_times st)))"
    and "set (drop (Suc k) (st_times st)) = set (drop k (st_times st)) - {st_times st ! k}"
    and "st_times st ! k \<in> set (drop k (st_times st))"
proof -
  have s: "sorted (st_times st)" "distinct (st_times st)"
    using assms(1) by (auto simp: timed_def schedule_inv_def)
  show "t < st_times st ! k" if t: "t \<in> set (take k (st_times st))"
  proof -
    obtain j where "j < k" "j < length (st_times st)" "t = st_times st ! j"
      using t by (auto simp: in_set_conv_nth)
    then show ?thesis
      using s assms(2) sorted_nth_mono [of "st_times st" j k] nth_eq_iff_index_eq [of "st_times st" j k] by simp
  qed
  show "set (take (Suc k) (st_times st)) = insert (st_times st ! k) (set (take k (st_times st)))"
    using assms(2) by (simp add: take_Suc_conv_app_nth)
  have "drop k (st_times st) = st_times st ! k # drop (Suc k) (st_times st)"
    using assms(2) by (simp add: Cons_nth_drop_Suc)
  moreover have "distinct (drop k (st_times st))" using s(2) by simp
  ultimately show "set (drop (Suc k) (st_times st)) = set (drop k (st_times st)) - {st_times st ! k}"
    and "st_times st ! k \<in> set (drop k (st_times st))"
    by auto
qed

subsection \<open>The steps keep it\<close>

lemma fate_fill_due:
  assumes fate: "fate_inv cfg k st" and timed: "timed cfg evs k st" and k: "k < length (st_times st)"
    and once: "once_inv cfg evs st" and ledger: "ledger_inv cfg evs st"
    and due: "fill_due cfg (st_times st ! k) st = Inr st'"
  shows "fate_inv cfg (Suc k) st'"
proof -
  let ?ts = "st_times st ! k" and ?s = "st\<lparr>st_pending := dict_pop (st_pending st) (st_times st ! k)\<rparr>"
  note sched = strict_schedule [OF timed k]
  have run: "fill_all cfg (due_orders ?ts st) ?s = Inr st'" using due by (simp add: fill_due_def)
  note frame = fill_all_frame [OF run]
  have wf: "dict_wf (st_pending st)" using once by (simp add: once_inv_def)
  have here: "\<forall>o' \<in> set (due_orders ?ts st). \<exists>b. execution_bar o' = Some b \<and> effective_available_at b = ?ts"
    using timed by (fastforce simp: timed_def pending_inv_def awaited_def dest!: due_orders_pending)
  have pend: "mset (pending_orders st) = mset (due_orders ?ts st) + mset (pending_orders ?s)"
    by (rule due_orders_mset [OF wf])
  have dues: "set (due_orders ?ts st) \<subseteq> set (pending_orders st)" "distinct (due_orders ?ts st)"
    "set (due_orders ?ts st) \<inter> fill_order ` set (st_fills st) = {}" "set (due_orders ?ts st) \<subseteq> set (st_orders st)"
  proof -
    show sub: "set (due_orders ?ts st) \<subseteq> set (pending_orders st)"
      using pend by (metis mset_subset_eqD set_mset_mset mset_subset_eq_add_left subsetI)
    have d: "distinct (map fill_order (st_fills st) @ pending_orders st)" "set (pending_orders st) \<subseteq> set (st_orders st)"
      using once by (auto simp: once_inv_def)
    have "distinct (due_orders ?ts st @ pending_orders ?s)"
      using d(1) pend by (metis distinct_append mset_append mset_eq_imp_distinct_iff)
    then show "distinct (due_orders ?ts st)" by simp
    show "set (due_orders ?ts st) \<inter> fill_order ` set (st_fills st) = {}" using d(1) sub by auto
    show "set (due_orders ?ts st) \<subseteq> set (st_orders st)" using d(2) sub by blast
  qed
  have past: "\<forall>f \<in> set (st_fills st). fill_ts f \<le> ?ts"
    using timed sched(1) by (fastforce simp: timed_def fills_timed_def)
  have "replay (opening_portfolio cfg) (st_fills ?s) = Inr (st_portfolio ?s)" using ledger by (simp add: ledger_inv_def)
  from fill_all_tried [OF here run this] past dues(2,3)
  obtain new where now: "\<forall>o' \<in> set (due_orders ?ts st). \<forall>b. execution_bar o' = Some b \<longrightarrow> tried cfg (st_fills st') o' b"
      and new: "st_fills st' = st_fills st @ new" "\<forall>f \<in> set new. fill_order f \<in> set (due_orders ?ts st) \<and> fill_ts f = ?ts"
    by auto
  have "order_fate cfg (Suc k) st' ord b" if ord: "ord \<in> set (st_orders st)" "execution_bar ord = Some b" for ord b
  proof -
    have old: "order_fate cfg k st ord b" using fate ord by (simp add: fate_inv_def)
    have "tried cfg (st_fills st') ord b" if eff: "effective_available_at b \<in> set (take (Suc k) (st_times st))" "submitted_at ord < effective_available_at b"
    proof (cases "effective_available_at b = ?ts")
      case True
      then obtain ords where "dict_get (st_pending st) ?ts = Some ords" "ord \<in> set ords"
        using old sched(4) by (auto simp: order_fate_def)
      then have "ord \<in> set (due_orders ?ts st)" by (simp add: due_orders_def)
      then show ?thesis using now ord(2) by blast
    next
      case False
      then have "effective_available_at b \<in> set (take k (st_times st))" using eff(1) sched(2) by simp
      then have "tried cfg (st_fills st) ord b" "effective_available_at b < ?ts" using old eff(2) sched(1) by (auto simp: order_fate_def)
      moreover have "fill_order f \<noteq> ord" if "f \<in> set new" for f
        using new(2) that here ord(2) False by fastforce
      ultimately show ?thesis
        unfolding new(1) using new(2) by (intro tried_append) auto
    qed
    then show ?thesis
      using old frame sched(3) by (auto simp: order_fate_def dict_get_pop)
  qed
  moreover have "submitted_at (fill_order f) < fill_ts f" if "f \<in> set (st_fills st')" for f
  proof (cases "f \<in> set (st_fills st)")
    case False
    then have f: "fill_order f \<in> set (st_orders st)" "fill_ts f = ?ts" using that new dues(4) by auto
    then show ?thesis using fate sched(1) by (auto simp: fate_inv_def)
  qed (use fate in \<open>simp add: fate_inv_def\<close>)
  ultimately show ?thesis
    using fate frame sched(2) by (auto simp: fate_inv_def)
qed

lemma fate_decide:
  assumes fate: "fate_inv cfg (Suc k) st" and timed: "timed cfg evs (Suc k) st" and k: "k < length (st_times st)" "fst ev = st_times st ! k"
    and wf: "exec_wf cfg" "lags_ok cfg" and step: "decide_one cfg ev st = Inr st'"
  shows "fate_inv cfg (Suc k) st'"
  using step
proof (cases rule: decide_one_cases)
  case (hold d)
  then show ?thesis using fate by (simp add: fate_inv_def order_fate_def)
next
  case (trade d ord)
  have sub: "submitted_at ord = st_times st ! k" using trade(2) k(2) by (simp add: order_placed_def Let_def)
  have now: "st_times st ! k \<in> set (take (Suc k) (st_times st))" using k(1) by (simp add: take_Suc_conv_app_nth)
  show ?thesis
  proof (cases "execution_bar ord")
    case None
    then show ?thesis using fate trade(3) sub now by (auto simp: fate_inv_def order_fate_def)
  next
    case (Some b)
    let ?t = "effective_available_at b"
    have le: "st_times st ! k \<le> ?t" using order_placed_not_before(1) [OF trade(2) wf Some] k(2) by simp
    have sd: "sorted (st_times st)" "distinct (st_times st)" using timed by (auto simp: timed_def schedule_inv_def)
    note later = schedule_time_later [OF sd k(1) le]
    have upto: "t \<le> st_times st ! k" if t: "t \<in> set (take (Suc k) (st_times st))" for t
      using t sd(1) k(1) by (auto simp: in_set_conv_nth sorted_nth_mono)
    have times: "st_times st' = schedule_time ?t (st_times st)" "st_fills st' = st_fills st" "st_orders st' = st_orders st @ [ord]"
      "st_pending st' = dict_append (st_pending st) ?t ord"
      using trade(3) Some by simp_all
    have "order_fate cfg (Suc k) st' o' b'" if "o' \<in> set (st_orders st)" "execution_bar o' = Some b'" for o' b'
    proof -
      have old: "order_fate cfg (Suc k) st o' b'" using fate that by (simp add: fate_inv_def)
      have "effective_available_at b' \<in> set (take (Suc k) (st_times st)) \<or> effective_available_at b' \<in> set (drop (Suc k) (st_times st))"
        using old by (metis Un_iff append_take_drop_id order_fate_def set_append)
      moreover have "distinct (schedule_time ?t (st_times st))" using sd(2) by (rule schedule_time_distinct)
      then have "set (take (Suc k) (st_times st)) \<inter> set (drop (Suc k) (schedule_time ?t (st_times st))) = {}"
        using later(1) by (metis append_take_drop_id distinct_append)
      ultimately show ?thesis
        using old unfolding order_fate_def times later(1) by (auto simp: dict_get_append split: option.splits)
    qed
    moreover have "order_fate cfg (Suc k) st' ord b"
      unfolding order_fate_def times later(1) sub
      using le upto [of ?t] by (auto simp: dict_get_append split: option.splits)
    ultimately show ?thesis
      using fate Some sub now unfolding fate_inv_def times later(1) by auto
  qed
qed

lemma fate_decide_all:
  assumes "exec_wf cfg" "lags_ok cfg"
  shows "fate_inv cfg (Suc k) st \<Longrightarrow> timed cfg evs (Suc k) st \<Longrightarrow> k < length (st_times st) \<Longrightarrow>
    \<forall>ev \<in> set es. fst ev = st_times st ! k \<Longrightarrow> decide_all cfg es st = Inr st' \<Longrightarrow> fate_inv cfg (Suc k) st'"
proof (induction es arbitrary: st)
  case (Cons e es)
  from Cons.prems(5) obtain st\<^sub>1 where d: "decide_one cfg e st = Inr st\<^sub>1" "decide_all cfg es st\<^sub>1 = Inr st'"
    by (auto simp: rbind_Inr_iff)
  have e: "fst e = st_times st ! k" using Cons.prems(4) by simp
  have one: "timed cfg evs (Suc k) st\<^sub>1" "take (Suc k) (st_times st\<^sub>1) = take (Suc k) (st_times st)" "k < length (st_times st\<^sub>1)"
    using timed_decide [OF Cons.prems(2,3) e assms d(1)] by simp_all
  have "st_times st\<^sub>1 ! k = st_times st ! k"
    using one(2) by (metis lessI nth_take)
  then show ?case
    using Cons.prems(4) by (intro Cons.IH [OF fate_decide [OF Cons.prems(1-3) e assms d(1)] one(1,3) _ d(2)]) simp
qed simp

lemma fate_process_time:
  assumes fate: "fate_inv cfg k st" and timed: "timed cfg evs k st" and k: "k < length (st_times st)"
    and inv: "once_inv cfg evs st" "ledger_inv cfg evs st" and wf: "exec_wf cfg" "lags_ok cfg"
    and step: "process_time cfg evs (st_times st ! k) st = Inr st'"
  shows "fate_inv cfg (Suc k) st'"
proof -
  let ?ts = "st_times st ! k"
  from step obtain st\<^sub>1 where f: "fill_due cfg ?ts st = Inr st\<^sub>1"
      and d: "decide_all cfg (filter (\<lambda>ev. fst ev = ?ts) evs) st\<^sub>1 = Inr st'"
    by (auto simp: process_time_def rbind_Inr_iff)
  note fd = timed_fill_due [OF timed k f]
  show ?thesis
    using fd(2) k by (intro fate_decide_all [OF wf fate_fill_due [OF fate timed k inv f] fd(1) _ _ d]) simp_all
qed

lemma fate_loop:
  assumes "exec_wf cfg" "lags_ok cfg" "sorted (map fst evs)"
  shows "fate_inv cfg k st \<Longrightarrow> timed cfg evs k st \<Longrightarrow> decided evs k st \<Longrightarrow> once_inv cfg evs st \<Longrightarrow> ledger_inv cfg evs st \<Longrightarrow>
    sim_loop fuel cfg evs k st = Some (Inr st') \<Longrightarrow> fate_inv cfg (length (st_times st')) st'"
proof (induction fuel arbitrary: k st)
  case (Suc fuel)
  show ?case
  proof (cases "k < length (st_times st)")
    case True
    then obtain st\<^sub>1 where p: "process_time cfg evs (st_times st ! k) st = Inr st\<^sub>1"
        "sim_loop fuel cfg evs (Suc k) st\<^sub>1 = Some (Inr st')"
      using Suc.prems(6) by (auto split: sum.splits)
    show ?thesis
      by (rule Suc.IH [OF fate_process_time [OF Suc.prems(1,2) True Suc.prems(4,5) assms(1,2) p(1)]
            timed_process_time [OF Suc.prems(2,3) True assms p(1)] once.process_time_inv [OF Suc.prems(4) p(1)]
            ledger.process_time_inv [OF Suc.prems(5) p(1)] p(2)])
  next
    case False
    then have "st' = st" "k = length (st_times st)"
      using Suc.prems(2,6) by (auto simp: timed_def)
    then show ?thesis using Suc.prems(1) by simp
  qed
qed simp

text \<open>The order a decision placed, with the inputs it was placed from.\<close>

definition placed_inv :: "sim_config \<Rightarrow> event list \<Rightarrow> sim_state \<Rightarrow> bool" where
  "placed_inv cfg evs st \<longleftrightarrow> (\<forall>ord \<in> set (st_orders st). \<exists>ev d s. order_placed cfg ev d s ord)"

interpretation placed: engine_invariant placed_inv
proof unfold_locales
  fix cfg evs st st' ts
  assume "placed_inv cfg evs st" "fill_due cfg ts st = Inr st'"
  then show "placed_inv cfg evs st'"
    by (auto simp: fill_due_def placed_inv_def dest!: fill_all_frame)
next
  fix cfg evs st st' ev
  assume inv: "placed_inv cfg evs st" and step: "decide_one cfg ev st = Inr st'"
  from step show "placed_inv cfg evs st'"
  proof (cases rule: decide_one_cases)
    case (trade d ord)
    have "\<exists>ev d s. order_placed cfg ev d s ord" using trade(2) by blast
    then show ?thesis using inv trade(3) by (simp add: placed_inv_def del: split_paired_Ex)
  qed (use inv in \<open>simp add: placed_inv_def\<close>)
qed

text \<open>Both for the orders of a completed run.\<close>

lemma simulated_orders:
  assumes "sim_ready cfg" and "simulate cfg = Some (Inr r)" and "ord \<in> set (orders r)"
  shows "order_ok cfg ord" and "\<exists>ev d s. order_placed cfg ev d s ord"
    and "execution_bar ord = Some b \<Longrightarrow> submitted_at ord \<le> effective_available_at b"
    and "execution_bar ord = Some b \<Longrightarrow> submitted_at ord < effective_available_at b \<Longrightarrow> tried cfg (fills r) ord b"
    and "f \<in> set (fills r) \<Longrightarrow> execution_bar (fill_order f) = Some (reference_bar f) \<and> fill_ts f = effective_available_at (reference_bar f) \<and>
      submitted_at (fill_order f) < fill_ts f"
proof -
  have "order_ok cfg ord \<and> (\<exists>ev d s. order_placed cfg ev d s ord) \<and>
      (execution_bar ord = Some b \<longrightarrow> submitted_at ord \<le> effective_available_at b) \<and>
      (execution_bar ord = Some b \<longrightarrow> submitted_at ord < effective_available_at b \<longrightarrow> tried cfg (fills r) ord b) \<and>
      (f \<in> set (fills r) \<longrightarrow> execution_bar (fill_order f) = Some (reference_bar f) \<and>
         fill_ts f = effective_available_at (reference_bar f) \<and> submitted_at (fill_order f) < fill_ts f)"
    using assms(2)
  proof (cases rule: simulate_run)
    case (1 evs st data vals)
    have wf: "exec_wf cfg" "lags_ok cfg" "sorted (map fst evs)"
      using assms(1) sim_ready_lags sorted_events [OF 1(4)] by (auto simp: sim_ready_def)
    have fate: "fate_inv cfg (length (st_times st)) st"
      by (rule fate_loop [OF wf fate_inv_initial timed_initial once_inv_initial ledger_inv_initial 1(5)])
    have "journal_inv cfg evs st" by (rule journal.sim_loop_inv [OF journal_inv_initial 1(5)])
    then have "order_ok cfg ord" using wf(1) assms(3) 1(9) by (simp add: journal_inv_def)
    moreover have "placed_inv cfg evs st"
      by (rule placed.sim_loop_inv [OF _ 1(5)]) (simp add: placed_inv_def initial_state_def)
    moreover have "ledger_inv cfg evs st" by (rule ledger.sim_loop_inv [OF ledger_inv_initial 1(5)])
    ultimately show ?thesis
      using fate assms(3) 1(9,10) by (auto simp: fate_inv_def order_fate_def placed_inv_def ledger_inv_def fill_valid_def)
  qed
  then show "order_ok cfg ord" and "\<exists>ev d s. order_placed cfg ev d s ord"
    and "execution_bar ord = Some b \<Longrightarrow> submitted_at ord \<le> effective_available_at b"
    and "execution_bar ord = Some b \<Longrightarrow> submitted_at ord < effective_available_at b \<Longrightarrow> tried cfg (fills r) ord b"
    and "f \<in> set (fills r) \<Longrightarrow> execution_bar (fill_order f) = Some (reference_bar f) \<and> fill_ts f = effective_available_at (reference_bar f) \<and>
      submitted_at (fill_order f) < fill_ts f"
    by blast+
qed

subsection \<open>What becomes of an order\<close>

text \<open>C11. Every order of a completed run is accounted for. One without an execution bar is rejected and has no fill. One
  with a bar is not rejected when it is placed, and its bar is available no earlier than its submission; if it becomes
  available later, the order was tried when it did, against the portfolio of that moment: it is the next fill if
  the accounting accepts it there, and has no fill at all if the accounting refuses it.\<close>

theorem every_order_is_accounted_for:
  assumes "sim_ready cfg" and "simulate cfg = Some (Inr r)" and "ord \<in> set (orders r)"
  shows "case execution_bar ord of
     None \<Rightarrow> rejected_reason ord \<noteq> None \<and> ord \<notin> fill_order ` set (fills r)
   | Some b \<Rightarrow> rejected_reason ord = None \<and> submitted_at ord \<le> effective_available_at b \<and>
       (submitted_at ord < effective_available_at b \<longrightarrow> tried cfg (fills r) ord b)"
proof (cases "execution_bar ord")
  case None
  then have "ord \<notin> fill_order ` set (fills r)"
    using simulated_orders(5) [OF assms] by fastforce
  then show ?thesis
    using simulated_orders(1) [OF assms] None by (simp add: order_ok_def)
next
  case (Some b)
  then show ?thesis
    using simulated_orders(1,3,4) [OF assms] by (simp add: order_ok_def)
qed

theorem every_order_is_accounted_for_witness:
  "\<exists>r. simulate example_config = Some (Inr r) \<and> orders r = [example_order] \<and> tried example_config (fills r) example_order (example_bar 20 120)"
proof -
  obtain r where r: "simulate example_config = Some (Inr r)" "orders r = [example_order]"
    using example_run by auto
  then have "tried example_config (fills r) example_order (example_bar 20 120)"
    using every_order_is_accounted_for [OF example_ready r(1), of example_order] by (simp add: example_order_def example_bar_def)
  then show ?thesis using r by blast
qed

text \<open>C12. Bars published together lose orders: without an execution lag, when a bar of the instrument that opens after the
  trigger bar first becomes visible at the very instant of the decision, and those between the two were visible before,
  the order is placed for that bar and is neither rejected nor ever filled.\<close>

theorem same_instant_order_lost:
  assumes "sim_ready cfg" and "simulate cfg = Some (Inr r)" and "ord \<in> set (orders r)"
    and "i \<in> set (instruments (cfg_request cfg))" and "instrument_id i = signal_instrument_id (order_signal ord)"
    and "execution_lag_seconds i = 0" and "dict_get (cfg_execution cfg) (instrument_id i) = Some s"
    and "(next_open, revs) \<in> set s" and "bar_open_ts (signal_trigger_bar (order_signal ord)) < next_open"
    and "first_visibility revs = submitted_at ord"
    and "\<forall>(o', revs') \<in> set s. bar_open_ts (signal_trigger_bar (order_signal ord)) < o' \<and> o' < next_open \<longrightarrow> first_visibility revs' < submitted_at ord"
  shows "(\<exists>b. execution_bar ord = Some b \<and> bar_open_ts b = next_open \<and> effective_available_at b = submitted_at ord) \<and>
    rejected_reason ord = None \<and> ord \<notin> fill_order ` set (fills r)"
proof -
  let ?trigger = "bar_open_ts (signal_trigger_bar (order_signal ord))"
  have wf: "selector_wf s"
    using assms(1) dict_get_mem [OF assms(7)] by (auto simp: sim_ready_def selectors_wf_def)
  obtain ev d st where placed: "order_placed cfg ev d st ord" using simulated_orders(2) [OF assms(1-3)] by blast
  then obtain i' where i': "i' \<in> set (instruments (cfg_request cfg))" "instrument_id i' = instrument_id i"
      "next_execution_bar s ?trigger (submitted_at ord) (execution_lag_seconds i') = Inr (execution_bar ord)"
    using assms(5,7) by (auto simp: order_placed_def Let_def)
  have "inj_on instrument_id (set (instruments (cfg_request cfg)))"
    using assms(1) by (simp add: sim_ready_def run_request_ok_def distinct_map)
  then have "i' = i" by (rule inj_onD) (use i'(1,2) assms(4) in auto)
  then have xb: "next_execution_bar s ?trigger (submitted_at ord) 0 = Inr (execution_bar ord)"
    using i'(3) assms(6) by simp
  have open_key: "next_open \<in> set (sort (dict_keys s))" using assms(8) by (force simp: dict_keys_def)
  show ?thesis
  proof (cases "execution_bar ord")
    case None
    then show ?thesis
      using first_executable_None [OF wf _ next_execution_bar_cases(2) [OF xb [unfolded None]]] open_key assms(8-10) by fastforce
  next
    case (Some b)
    note bar = next_execution_bar_Some [OF wf xb [unfolded Some], simplified]
    obtain revs\<^sub>b where revs\<^sub>b: "(bar_open_ts b, revs\<^sub>b) \<in> set s" "effective_available_at b = first_visibility revs\<^sub>b"
      using first_executable_Some [OF wf _ _ next_execution_bar_cases(2) [OF xb [unfolded Some]]] by auto
    have "\<not> next_open < bar_open_ts b" using bar(4) [OF assms(8,9)] assms(10) by auto
    moreover have "\<not> bar_open_ts b < next_open" using assms(11) revs\<^sub>b bar(2,3) by fastforce
    ultimately have o: "bar_open_ts b = next_open" by simp
    then have "revs\<^sub>b = revs" using revs\<^sub>b(1) assms(8) wf dict_mem_get [of s next_open revs] dict_mem_get [of s next_open revs\<^sub>b] by (simp add: selector_wf_def)
    then have eff: "effective_available_at b = submitted_at ord" using revs\<^sub>b(2) assms(10) by simp
    have "ord \<notin> fill_order ` set (fills r)"
      using simulated_orders(5) [OF assms(1-3)] Some eff by fastforce
    then show ?thesis
      using Some o eff simulated_orders(1) [OF assms(1-3)] by (simp add: order_ok_def)
  qed
qed

theorem same_instant_order_lost_witness:
  "\<exists>r. simulate (config_of late_selector) = Some (Inr r) \<and> late_order \<in> set (orders r) \<and> rejected_reason late_order = None \<and>
     late_order \<notin> fill_order ` set (fills r)"
proof -
  obtain r ords where r: "simulate (config_of late_selector) = Some (Inr r)" "orders r = late_order # ords"
    using late_run by auto
  have ready: "sim_ready (config_of late_selector)"
    using example_request_ok late_selector_wf by (simp add: sim_ready_def)
  define i where "i = hd (instruments example_request)"
  have i: "i \<in> set (instruments (cfg_request (config_of late_selector)))" "instrument_id i = 1" "execution_lag_seconds i = 0"
    by (simp_all add: i_def example_request_def)
  have "rejected_reason late_order = None \<and> late_order \<notin> fill_order ` set (fills r)"
    using same_instant_order_lost [OF ready r(1) _ i(1) _ i(3), of late_order late_selector 10 "[late_bar 10 110]"]
    by (auto simp: r(2) i(2) late_order_def config_of_def dict_get_def late_selector_def first_visibility_def)
  then show ?thesis using r by simp
qed

end
