(* ===== verification/Db_Core.thy ===== *)
theory Db_Core
  imports Serialization
begin

text \<open>
  Errors and transaction boundaries of the database layer (\<^verbatim>\<open>src/bisfin/db/errors.py\<close>,
  \<^verbatim>\<open>transaction.py\<close>, \<^verbatim>\<open>unit_of_work.py\<close>): the application errors, the translation of SQLSTATEs, the
  isolation levels, the explicit transaction and the single-use unit of work with its lifecycle. The
  database is a type variable: a transaction works on a copy and either publishes or drops it. The
  lemmas show that a unit of work is atomic and single-use, and that every block of the services is
  a run of its lifecycle.
\<close>

subsection \<open>Errors\<close>

datatype app_error =
    AppValueError string
  | AppTypeError string
  | AppRuntimeError string
  | AppAssertionError
  | AppInvalidOperation
  | AppOSError string
  | ConfigurationError string
  | DatabaseError string
  | DatabaseUnavailableError string
  | RepositoryError string
  | IntegrityViolationError string
  | TemporalOverlapError string
  | InvalidPointInTimeQueryError string
  | EntityNotFoundError string
  | UnsupportedDatabaseOperationError string
  | InvalidStateTransitionError string
  | UnitOfWorkLifecycleError string
  | RequestIdConflictError string
  | DailyBarCanonicalizationError
  | DailyBarIngestionError
  | SnapshotManifestError string
  | SnapshotConflictError string
  | SnapshotInProgressError string
  | SnapshotBuildError string
  | SnapshotArtifactError string
  | SnapshotVerificationError string
  | CatalogConflictError string
  | CalendarConflictError pystr

text \<open>A timestamp argument; \<open>Naive\<close> has no time zone.\<close>

datatype py_datetime = Aware timestamp | Naive

definition require_aware_datetime :: "py_datetime \<Rightarrow> (app_error, timestamp) result" where
  "require_aware_datetime d =
     (case d of Aware t \<Rightarrow> Inr t | Naive \<Rightarrow> Inl (AppValueError ''timestamp must be timezone-aware''))"

definition require_aware_option :: "py_datetime option \<Rightarrow> (app_error, timestamp option) result" where
  "require_aware_option d =
     (case d of None \<Rightarrow> Inr None | Some x \<Rightarrow> rbind (require_aware_datetime x) (\<lambda>t. Inr (Some t)))"

text \<open>\<^verbatim>\<open>map_database_error\<close> on a driver error with the given SQLSTATE (if any); \<open>operational\<close> says whether
  it is one of the driver's \<^verbatim>\<open>OperationalError\<close>s.\<close>

definition starts_with :: "pystr \<Rightarrow> pystr \<Rightarrow> bool" where
  "starts_with p s \<longleftrightarrow> take (length p) s = p"

definition map_database_error :: "pystr option \<Rightarrow> bool \<Rightarrow> app_error" where
  "map_database_error sqlstate operational =
     (if sqlstate = Some (u ''23P01'') then TemporalOverlapError ''Temporal validity intervals overlap.''
      else if sqlstate = Some (u ''22004'')
      then InvalidPointInTimeQueryError ''A required Point-in-Time query argument is null.''
      else if sqlstate = Some (u ''22023'')
      then InvalidPointInTimeQueryError ''Point-in-Time query arguments are invalid.''
      else if sqlstate = Some (u ''P0002'')
      then EntityNotFoundError ''The requested database entity was not found.''
      else if sqlstate = Some (u ''0A000'')
      then UnsupportedDatabaseOperationError ''The requested database operation is not supported by this contract.''
      else if sqlstate \<noteq> None \<and> starts_with (u ''08'') (the sqlstate)
      then DatabaseUnavailableError ''PostgreSQL is unavailable.''
      else if sqlstate \<noteq> None \<and> starts_with (u ''23'') (the sqlstate)
      then IntegrityViolationError ''PostgreSQL rejected an integrity constraint violation.''
      else if operational then DatabaseUnavailableError ''PostgreSQL is unavailable.''
      else DatabaseError ''The database operation failed.'')"

text \<open>What PostgreSQL raises for the constraints the repositories rely on.\<close>

abbreviation unique_violation :: app_error where
  "unique_violation \<equiv> map_database_error (Some (u ''23505'')) False"

abbreviation check_violation :: app_error where
  "check_violation \<equiv> map_database_error (Some (u ''23514'')) False"

abbreviation foreign_key_violation :: app_error where
  "foreign_key_violation \<equiv> map_database_error (Some (u ''23503'')) False"

text \<open>An exception with its causes: \<^verbatim>\<open>extract_sqlstate\<close> searches the chain depth first, last pushed first.\<close>

datatype exc = Exc (exc_sqlstate: "pystr option") (exc_diag: "pystr option") (exc_orig: "exc option")
  (exc_cause: "exc option") (exc_context: "exc option")

definition nonempty_state :: "pystr option \<Rightarrow> pystr option" where
  "nonempty_state s = (case s of Some (c # cs) \<Rightarrow> Some (c # cs) | _ \<Rightarrow> None)"

primrec exc_size :: "exc \<Rightarrow> nat" where
  "exc_size (Exc s d orig cause ctxt) =
     Suc ((case map_option exc_size orig of None \<Rightarrow> 0 | Some n \<Rightarrow> n) +
          (case map_option exc_size cause of None \<Rightarrow> 0 | Some n \<Rightarrow> n) +
          (case map_option exc_size ctxt of None \<Rightarrow> 0 | Some n \<Rightarrow> n))"

definition opt_list :: "'a option \<Rightarrow> 'a list" where
  "opt_list x = (case x of None \<Rightarrow> [] | Some a \<Rightarrow> [a])"

lemma exc_size_children:
  "sum_list (map exc_size (opt_list (exc_context e) @ opt_list (exc_cause e) @ opt_list (exc_orig e))) < exc_size e"
  by (cases e) (simp add: opt_list_def split: option.split)

function extract_sqlstate :: "exc list \<Rightarrow> pystr option" where
  "extract_sqlstate [] = None"
| "extract_sqlstate (e # pending) =
     (case nonempty_state (exc_sqlstate e) of
        Some s \<Rightarrow> Some s
      | None \<Rightarrow>
          (case nonempty_state (exc_diag e) of
             Some s \<Rightarrow> Some s
           | None \<Rightarrow> extract_sqlstate (opt_list (exc_context e) @ opt_list (exc_cause e) @ opt_list (exc_orig e) @ pending)))"
  by pat_completeness auto
termination
proof (relation "measure (\<lambda>es. sum_list (map exc_size es))", simp)
  fix e and pending :: "exc list"
  show "(opt_list (exc_context e) @ opt_list (exc_cause e) @ opt_list (exc_orig e) @ pending, e # pending)
      \<in> measure (\<lambda>es. sum_list (map exc_size es))"
    using exc_size_children [of e] by simp
qed

subsection \<open>Isolation levels\<close>

definition py_upper_ascii :: "pystr \<Rightarrow> pystr" where
  "py_upper_ascii s = map (\<lambda>c. if 97 \<le> c \<and> c \<le> 122 then c - 32 else c) s"

text \<open>\<^verbatim>\<open>s.split()\<close>: the maximal runs of characters that are not white space.\<close>

function py_split :: "pystr \<Rightarrow> pystr list" where
  "py_split [] = []"
| "py_split (c # cs) =
     (if py_isspace c then py_split cs
      else (c # takeWhile (\<lambda>x. \<not> py_isspace x) cs) # py_split (dropWhile (\<lambda>x. \<not> py_isspace x) cs))"
  by pat_completeness auto
termination
  by (relation "measure length") (auto simp: less_Suc_eq_le length_dropWhile_le)

definition supported_isolation_levels :: "pystr list" where
  "supported_isolation_levels =
     [u ''READ COMMITTED'', u ''READ UNCOMMITTED'', u ''REPEATABLE READ'', u ''SERIALIZABLE'']"

definition normalize_isolation_level :: "pystr \<Rightarrow> (app_error, pystr) result" where
  "normalize_isolation_level level =
     (let normalized = join [32] (py_split (map (\<lambda>c. if c = 95 then 32 else c) (py_upper_ascii level))) in
      if normalized \<notin> set supported_isolation_levels
      then Inl (UnsupportedDatabaseOperationError ''Unsupported transaction isolation level.'')
      else Inr normalized)"

subsection \<open>Explicit transactions\<close>

text \<open>
  \<^verbatim>\<open>TransactionManager.begin\<close> around a block of work on a database: the block sees the committed state;
  its changes are published when it returns and dropped when it raises. A read-only transaction that
  writes is refused by PostgreSQL; here its changes are dropped.
\<close>

definition begin_transaction ::
  "pystr \<Rightarrow> bool \<Rightarrow> bool \<Rightarrow> ('d \<Rightarrow> (app_error, 'd \<times> 'a) result) \<Rightarrow> 'd \<Rightarrow> (app_error, 'a) result \<times> 'd" where
  "begin_transaction isolation temporal_write read_only body db =
     (case normalize_isolation_level isolation of
        Inl e \<Rightarrow> (Inl e, db)
      | Inr normalized \<Rightarrow>
          if temporal_write \<and> normalized \<noteq> u ''READ COMMITTED''
          then (Inl (UnsupportedDatabaseOperationError ''Temporal catalog writes require READ COMMITTED isolation.''), db)
          else if temporal_write \<and> read_only
          then (Inl (UnsupportedDatabaseOperationError ''A temporal write transaction cannot be read-only.''), db)
          else (case body db of
                  Inl e \<Rightarrow> (Inl e, db)
                | Inr (db', a) \<Rightarrow> (Inr a, if read_only then db else db')))"

subsection \<open>The unit of work\<close>

datatype lifecycle = NEW | ACTIVE | COMPLETED | CLOSED

text \<open>The committed database, the working copy of the open transaction and the lifecycle.\<close>

record 'd uow =
  uow_state :: lifecycle
  uow_committed :: 'd
  uow_working :: 'd
  uow_transaction_active :: bool

definition uow_new :: "'d \<Rightarrow> 'd uow" where
  "uow_new db = \<lparr>uow_state = NEW, uow_committed = db, uow_working = db, uow_transaction_active = False\<rparr>"

definition require_active :: "'d uow \<Rightarrow> (app_error, unit) result" where
  "require_active w =
     (if uow_state w \<noteq> ACTIVE
      then Inl (UnitOfWorkLifecycleError ''The Unit of Work operation requires an active, uncompleted transaction.'')
      else Inr ())"

definition uow_enter :: "'d uow \<Rightarrow> (app_error, 'd uow) result" where
  "uow_enter w =
     (if uow_state w \<noteq> NEW
      then Inl (UnitOfWorkLifecycleError ''A Unit of Work is single-use and cannot be nested or re-entered.'')
      else Inr (w\<lparr>uow_state := ACTIVE, uow_working := uow_committed w, uow_transaction_active := True\<rparr>))"

text \<open>A repository call: the repository is only reachable while the unit of work is active.\<close>

definition uow_call :: "('d \<Rightarrow> (app_error, 'd \<times> 'a) result) \<Rightarrow> 'd uow \<Rightarrow> (app_error, 'd uow \<times> 'a) result" where
  "uow_call f w =
     rbind (require_active w) (\<lambda>_.
     rbind (f (uow_working w)) (\<lambda>(db, a). Inr (w\<lparr>uow_working := db\<rparr>, a)))"

definition uow_commit :: "'d uow \<Rightarrow> (app_error, 'd uow) result" where
  "uow_commit w =
     rbind (require_active w) (\<lambda>_.
       Inr (w\<lparr>uow_committed := uow_working w, uow_transaction_active := False, uow_state := COMPLETED\<rparr>))"

definition uow_rollback :: "'d uow \<Rightarrow> (app_error, 'd uow) result" where
  "uow_rollback w =
     rbind (require_active w) (\<lambda>_.
       Inr (w\<lparr>uow_working := uow_committed w, uow_transaction_active := False, uow_state := COMPLETED\<rparr>))"

definition uow_exit :: "'d uow \<Rightarrow> (app_error, 'd uow) result" where
  "uow_exit w =
     (if uow_state w = NEW then Inl (UnitOfWorkLifecycleError ''The Unit of Work was never entered.'')
      else if uow_state w = CLOSED then Inl (UnitOfWorkLifecycleError ''The Unit of Work is already closed.'')
      else if uow_state w = ACTIVE \<and> uow_transaction_active w
      then Inr (w\<lparr>uow_working := uow_committed w, uow_transaction_active := False, uow_state := CLOSED\<rparr>)
      else Inr (w\<lparr>uow_state := CLOSED\<rparr>))"

text \<open>
  \<^verbatim>\<open>with factory() as unit_of_work: body; unit_of_work.commit()\<close>, the shape of every block of the
  services; \<open>commit_if\<close> decides from the body's result whether the block commits.
\<close>

definition in_unit_of_work ::
  "('a \<Rightarrow> bool) \<Rightarrow> ('d \<Rightarrow> (app_error, 'd \<times> 'a) result) \<Rightarrow> 'd \<Rightarrow> (app_error, 'a) result \<times> 'd" where
  "in_unit_of_work commit_if body db =
     (case body db of
        Inl e \<Rightarrow> (Inl e, db)
      | Inr (db', a) \<Rightarrow> (Inr a, if commit_if a then db' else db))"

subsection \<open>Lifecycle steps and atomicity\<close>

inductive uow_step :: "'d uow \<Rightarrow> 'd uow \<Rightarrow> bool" where
  step_enter: "uow_enter w = Inr w' \<Longrightarrow> uow_step w w'"
| step_call: "uow_call f w = Inr (w', ()) \<Longrightarrow> uow_step w w'"
| step_commit: "uow_commit w = Inr w' \<Longrightarrow> uow_step w w'"
| step_rollback: "uow_rollback w = Inr w' \<Longrightarrow> uow_step w w'"
| step_exit: "uow_exit w = Inr w' \<Longrightarrow> uow_step w w'"

inductive uow_run :: "'d uow \<Rightarrow> 'd uow list \<Rightarrow> 'd uow \<Rightarrow> bool" where
  run_nil: "uow_run w [] w"
| run_step: "uow_run w ws w' \<Longrightarrow> uow_step w' w'' \<Longrightarrow> uow_run w (ws @ [w']) w''"

text \<open>The same block, spelled out as calls of the lifecycle operations.\<close>

definition uow_block ::
  "('a \<Rightarrow> bool) \<Rightarrow> ('d \<Rightarrow> (app_error, 'd \<times> 'a) result) \<Rightarrow> 'd \<Rightarrow> (app_error, 'a) result \<times> 'd uow" where
  "uow_block commit_if body db =
     (case uow_enter (uow_new db) of
        Inl e \<Rightarrow> (Inl e, uow_new db)
      | Inr w \<Rightarrow>
          (case uow_call body w of
             Inl e \<Rightarrow> (case uow_exit w of Inl e' \<Rightarrow> (Inl e', w) | Inr w' \<Rightarrow> (Inl e, w'))
           | Inr (w, a) \<Rightarrow>
               (case (if commit_if a then uow_commit w else Inr w) of
                  Inl e \<Rightarrow> (Inl e, w)
                | Inr w \<Rightarrow> (case uow_exit w of Inl e \<Rightarrow> (Inl e, w) | Inr w' \<Rightarrow> (Inr a, w')))))"

inductive_cases uow_stepE: "uow_step w w'"

definition rank :: "lifecycle \<Rightarrow> nat" where
  "rank l = (case l of NEW \<Rightarrow> 0 | ACTIVE \<Rightarrow> 1 | COMPLETED \<Rightarrow> 2 | CLOSED \<Rightarrow> 3)"

lemmas uow_defs = uow_enter_def uow_call_def uow_commit_def uow_rollback_def uow_exit_def require_active_def

definition uow_wf :: "'d uow \<Rightarrow> bool" where
  "uow_wf w \<longleftrightarrow> (uow_transaction_active w \<longleftrightarrow> uow_state w = ACTIVE)"

lemma uow_step_wf: "uow_step w w' \<Longrightarrow> uow_wf w \<Longrightarrow> uow_wf w'"
  by (erule uow_stepE) (auto simp: uow_wf_def uow_defs rbind_Inr_iff split: if_splits)

lemma uow_step_rank: "uow_step w w' \<Longrightarrow> rank (uow_state w) \<le> rank (uow_state w')"
  by (erule uow_stepE; cases "uow_state w")
    (auto simp: rank_def uow_defs rbind_Inr_iff split: if_splits)

text \<open>Only a commit changes the committed database, and it does so once: afterwards the unit is no longer active.\<close>

lemma uow_step_committed:
  "uow_step w w' \<Longrightarrow> uow_committed w' = uow_committed w \<or>
     uow_state w = ACTIVE \<and> uow_committed w' = uow_working w \<and> uow_state w' = COMPLETED"
  by (erule uow_stepE) (auto simp: uow_defs rbind_Inr_iff split: if_splits)

lemma uow_run_rank: "uow_run w ws w' \<Longrightarrow> rank (uow_state w) \<le> rank (uow_state w')"
  by (induction rule: uow_run.induct) (auto dest: uow_step_rank)

lemma uow_run_wf: "uow_run w ws w' \<Longrightarrow> uow_wf w \<Longrightarrow> uow_wf w'"
  by (induction rule: uow_run.induct) (auto dest: uow_step_wf)

lemma uow_run_committed:
  assumes "uow_run w ws w'"
  shows "uow_committed w' = uow_committed w \<or>
    (1 < rank (uow_state w') \<and> (\<exists>w'' \<in> set ws. uow_state w'' = ACTIVE \<and> uow_committed w' = uow_working w''))"
  using assms
proof (induction rule: uow_run.induct)
  case (run_step w ws w' w'')
  have r: "rank (uow_state w') \<le> rank (uow_state w'')" by (rule uow_step_rank [OF run_step.hyps(2)])
  from uow_step_committed [OF run_step.hyps(2)] show ?case
  proof
    assume "uow_committed w'' = uow_committed w'"
    then show ?thesis using run_step.IH r by auto
  next
    assume "uow_state w' = ACTIVE \<and> uow_committed w'' = uow_working w' \<and> uow_state w'' = COMPLETED"
    then show ?thesis by (auto simp: rank_def)
  qed
qed simp

text \<open>C28. A unit of work is atomic and single-use: along every sequence of its operations the committed
  database is either untouched or exactly one working state of the transaction, and once that is published
  (or the unit is closed) no later operation can publish anything else or reopen it.\<close>

theorem uow_atomic:
  assumes "uow_run (uow_new db) ws w"
  shows "(uow_committed w = db \<or>
      ((uow_state w = COMPLETED \<or> uow_state w = CLOSED) \<and>
       (\<exists>w' \<in> set ws. uow_state w' = ACTIVE \<and> uow_committed w = uow_working w'))) \<and>
    (\<forall>w'. (uow_state w = COMPLETED \<or> uow_state w = CLOSED) \<and> uow_step w w' \<longrightarrow>
      uow_committed w' = uow_committed w \<and> uow_state w' = CLOSED)"
proof (rule conjI)
  have "1 < rank l \<longleftrightarrow> l = COMPLETED \<or> l = CLOSED" for l by (cases l) (simp_all add: rank_def)
  then show "uow_committed w = db \<or>
    ((uow_state w = COMPLETED \<or> uow_state w = CLOSED) \<and>
     (\<exists>w' \<in> set ws. uow_state w' = ACTIVE \<and> uow_committed w = uow_working w'))"
    using uow_run_committed [OF assms] by (simp add: uow_new_def)
  show "\<forall>w'. (uow_state w = COMPLETED \<or> uow_state w = CLOSED) \<and> uow_step w w' \<longrightarrow>
      uow_committed w' = uow_committed w \<and> uow_state w' = CLOSED"
    by (auto elim!: uow_stepE simp: uow_defs rbind_Inr_iff split: if_splits)
qed

text \<open>Enter, write, commit on a database of one number.\<close>

definition example_uow :: "nat uow" where
  "example_uow = \<lparr>uow_state = COMPLETED, uow_committed = 5, uow_working = 5, uow_transaction_active = False\<rparr>"

lemma example_uow_run: "\<exists>ws. uow_run (uow_new (0::nat)) ws example_uow"
proof -
  let ?a = "\<lparr>uow_state = ACTIVE, uow_committed = 0::nat, uow_working = 0, uow_transaction_active = True\<rparr>"
  have "uow_step (uow_new 0) ?a"
    by (rule step_enter) (simp add: uow_defs uow_new_def)
  moreover have "uow_step ?a (?a\<lparr>uow_working := 5\<rparr>)"
    by (rule step_call [of "\<lambda>_. Inr (5, ())"]) (simp add: uow_defs)
  moreover have "uow_step (?a\<lparr>uow_working := 5\<rparr>) example_uow"
    by (rule step_commit) (simp add: uow_defs example_uow_def)
  ultimately show ?thesis
    by (meson run_nil run_step)
qed

theorem uow_atomic_witness:
  "uow_state example_uow = COMPLETED \<and>
   (\<exists>ws. uow_run (uow_new (0::nat)) ws example_uow \<and>
      (\<exists>w' \<in> set ws. uow_state w' = ACTIVE \<and> uow_committed example_uow = uow_working w'))"
proof -
  obtain ws where "uow_run (uow_new (0::nat)) ws example_uow"
    using example_uow_run by blast
  then show ?thesis
    using uow_atomic [of 0 ws example_uow] by (auto simp: example_uow_def)
qed

text \<open>The blocks of the services refine the lifecycle: running a block inside a fresh unit of work (enter, the
  repository calls, commit when the block says so, exit) gives the result of the block, publishes its working
  state exactly when the block succeeds and commits, and leaves the unit closed.\<close>

theorem uow_block_refines:
  "fst (uow_block c body db) = fst (in_unit_of_work c body db) \<and>
   uow_committed (snd (uow_block c body db)) = snd (in_unit_of_work c body db) \<and>
   uow_state (snd (uow_block c body db)) = CLOSED"
  by (simp add: uow_block_def in_unit_of_work_def uow_defs uow_new_def split: sum.split prod.split)

subsection \<open>Tables whose rows evolve\<close>

text \<open>
  The contract the audit trail rests on: every step of the operations on a table keeps its invariant, and
  every row that was there is still there, in a form it may evolve to. Each table of the program is an
  interpretation; where rows may not evolve at all, the table is append-only.
\<close>

locale evolving_table =
  fixes rows :: "'t \<Rightarrow> 'r set"
    and step :: "'t \<Rightarrow> 't \<Rightarrow> bool"
    and inv :: "'t \<Rightarrow> bool"
    and evolves :: "'r \<Rightarrow> 'r \<Rightarrow> bool"
  assumes evolves_refl: "evolves r r"
    and evolves_trans: "evolves a b \<Longrightarrow> evolves b c \<Longrightarrow> evolves a c"
    and inv_step: "inv t \<Longrightarrow> step t t' \<Longrightarrow> inv t'"
    and step_evolves: "inv t \<Longrightarrow> step t t' \<Longrightarrow> r \<in> rows t \<Longrightarrow> \<exists>r' \<in> rows t'. evolves r r'"
begin

lemma inv_steps: "step\<^sup>*\<^sup>* t t' \<Longrightarrow> inv t \<Longrightarrow> inv t'"
  by (induction rule: rtranclp_induct) (auto intro: inv_step)

lemma steps_evolve:
  assumes "step\<^sup>*\<^sup>* t t'" and "inv t" and "r \<in> rows t"
  shows "\<exists>r' \<in> rows t'. evolves r r'"
  using assms(1)
proof (induction rule: rtranclp_induct)
  case base
  show ?case using assms(3) evolves_refl by blast
next
  case (step y z)
  then obtain r' where r': "r' \<in> rows y" "evolves r r'" by blast
  have "inv y" using step.hyps(1) assms(2) by (rule inv_steps)
  then obtain r'' where "r'' \<in> rows z" "evolves r' r''"
    using step_evolves [OF _ step.hyps(2) r'(1)] by blast
  with r'(2) show ?case by (blast intro: evolves_trans)
qed

lemma steps_keep:
  assumes "step\<^sup>*\<^sup>* t t'" and "inv t" and "r \<in> rows t" and "\<And>r'. evolves r r' \<Longrightarrow> r' = r"
  shows "r \<in> rows t'"
  using steps_evolve [OF assms(1-3)] assms(4) by blast

end

end
