(* ===== verification/Redaction.thy ===== *)
theory Redaction
  imports Serialization
begin

text \<open>
  Redaction of secrets in diagnostics (\<^verbatim>\<open>redact_secrets\<close> of \<^verbatim>\<open>src/bisfin/db/errors.py\<close> and
  \<^verbatim>\<open>_redact_failure_text\<close> of \<^verbatim>\<open>repositories/ingestion_batch_repository.py\<close>). The fragment of Python's
  \<^verbatim>\<open>re\<close> the patterns use is a backtracking matcher that lists its matches in priority order; \<^verbatim>\<open>re.sub\<close>
  replaces the first of them at the leftmost position. Which code points are alphanumeric is the
  Unicode database's, the parameter \<open>alnum\<close>.
\<close>

subsection \<open>Regular expressions\<close>

datatype re =
    RChar "nat \<Rightarrow> bool"
  | RRep nat "nat \<Rightarrow> bool"
  | RSeq re re
  | RAlt re re
  | ROpt re
  | RWordB

definition re_word :: "(nat \<Rightarrow> bool) \<Rightarrow> nat option \<Rightarrow> bool" where
  "re_word alnum c = (case c of None \<Rightarrow> False | Some x \<Rightarrow> alnum x \<or> x = 95)"

definition head_opt :: "'a list \<Rightarrow> 'a option" where
  "head_opt s = (case s of [] \<Rightarrow> None | c # _ \<Rightarrow> Some c)"

definition last_or :: "'a option \<Rightarrow> 'a list \<Rightarrow> 'a option" where
  "last_or prev s = (if s = [] then prev else Some (last s))"

text \<open>The matches at the head of a text, each with what it consumed and what is left. A greedy repetition
  of a character class tries the longest run first.\<close>

fun re_match :: "(nat \<Rightarrow> bool) \<Rightarrow> re \<Rightarrow> nat option \<Rightarrow> pystr \<Rightarrow> (pystr \<times> pystr) list" where
  "re_match w (RChar P) prev s = (case s of [] \<Rightarrow> [] | c # cs \<Rightarrow> if P c then [([c], cs)] else [])"
| "re_match w (RRep n P) prev s =
     map (\<lambda>i. (take i s, drop i s)) (rev [n..<Suc (length (takeWhile P s))])"
| "re_match w (RSeq a b) prev s =
     concat (map (\<lambda>(x, r). map (\<lambda>(y, r'). (x @ y, r')) (re_match w b (last_or prev x) r)) (re_match w a prev s))"
| "re_match w (RAlt a b) prev s = re_match w a prev s @ re_match w b prev s"
| "re_match w (ROpt a) prev s = re_match w a prev s @ [([], s)]"
| "re_match w RWordB prev s = (if re_word w prev \<noteq> re_word w (head_opt s) then [([], s)] else [])"

text \<open>A pattern is a sequence of parts; the replacement refers to what each part matched.\<close>

fun re_parts :: "(nat \<Rightarrow> bool) \<Rightarrow> re list \<Rightarrow> nat option \<Rightarrow> pystr \<Rightarrow> (pystr list \<times> pystr) list" where
  "re_parts w [] prev s = [([], s)]"
| "re_parts w (a # as) prev s =
     concat (map (\<lambda>(x, r). map (\<lambda>(ys, r'). (x # ys, r')) (re_parts w as (last_or prev x) r)) (re_match w a prev s))"

lemma re_match_split: "(x, r) \<in> set (re_match w a prev s) \<Longrightarrow> x @ r = s"
  by (induction a arbitrary: prev s x r) (auto split: list.splits if_splits simp: append_eq_append_conv2)

lemma re_parts_split: "(xs, r) \<in> set (re_parts w as prev s) \<Longrightarrow> concat xs @ r = s"
  by (induction as arbitrary: prev s xs r) (auto dest: re_match_split)

text \<open>\<^verbatim>\<open>pattern.sub(repl, s)\<close> with the character before \<open>s\<close>; an empty match is replaced before the next character.\<close>

function re_sub :: "(nat \<Rightarrow> bool) \<Rightarrow> re list \<Rightarrow> (pystr list \<Rightarrow> pystr) \<Rightarrow> nat option \<Rightarrow> pystr \<Rightarrow> pystr" where
  "re_sub w as repl prev [] = (case re_parts w as prev [] of [] \<Rightarrow> [] | (xs, _) # _ \<Rightarrow> repl xs)"
| "re_sub w as repl prev (c # cs) =
     (case re_parts w as prev (c # cs) of
        [] \<Rightarrow> c # re_sub w as repl (Some c) cs
      | (xs, r) # _ \<Rightarrow>
          (if length r < length (c # cs) then repl xs @ re_sub w as repl (last_or prev (concat xs)) r
           else repl xs @ c # re_sub w as repl (Some c) cs))"
  by pat_completeness auto
termination
  by (relation "measure (\<lambda>(w, as, repl, prev, s). length s)") auto

subsection \<open>Case-insensitive literals\<close>

text \<open>Under \<^verbatim>\<open>(?i)\<close> a letter matches both cases, and the four further code points whose simple case
  folding is an ASCII letter.\<close>

definition re_fold :: "nat \<Rightarrow> nat" where
  "re_fold c =
     (if 65 \<le> c \<and> c \<le> 90 then c + 32
      else if c = 304 \<or> c = 305 then 105
      else if c = 383 then 115
      else if c = 8490 then 107
      else c)"

abbreviation ci_char :: "nat \<Rightarrow> re" where
  "ci_char c \<equiv> RChar (\<lambda>x. re_fold x = re_fold c)"

definition re_lit :: "string \<Rightarrow> re" where
  "re_lit s = foldr (\<lambda>c r. RSeq (ci_char c) r) (u s) (RRep 0 (\<lambda>_. False))"

fun re_alts :: "re list \<Rightarrow> re" where
  "re_alts [] = RChar (\<lambda>_. False)"
| "re_alts [a] = a"
| "re_alts (a # b # as) = RAlt a (re_alts (b # as))"

definition re_digit_or_letter :: "nat \<Rightarrow> bool" where
  "re_digit_or_letter c \<longleftrightarrow> (97 \<le> re_fold c \<and> re_fold c \<le> 122) \<or> (48 \<le> c \<and> c \<le> 57)"

definition re_token_char :: "nat \<Rightarrow> bool" where
  "re_token_char c \<longleftrightarrow> re_digit_or_letter c \<or> c \<in> set (u ''._~+/=-'')"

subsection \<open>The patterns\<close>

definition DATABASE_URL :: "re list" where
  "DATABASE_URL =
     [RWordB, re_lit ''postgres'', ROpt (re_lit ''ql''), ROpt (re_lit ''+psycopg''), re_lit ''://'',
      RRep 1 (\<lambda>c. \<not> py_isspace c \<and> c \<notin> {39, 34, 60, 62})]"

definition assign_sign :: re where
  "assign_sign = RSeq (RRep 0 py_isspace) (RSeq (RChar (\<lambda>c. c = 58 \<or> c = 61)) (RRep 0 py_isspace))"

definition AUTHORIZATION_HEADER :: "re list" where
  "AUTHORIZATION_HEADER = [RWordB, re_lit ''authorization'', assign_sign, RRep 1 (\<lambda>c. c \<notin> {59, 13, 10})]"

definition secret_words :: re where
  "secret_words =
     re_alts [re_lit ''password'', re_lit ''passwd'', re_lit ''pwd'', re_lit ''secret'', re_lit ''token'',
       RSeq (re_lit ''api'') (RSeq (ROpt (RChar (\<lambda>c. c = 95 \<or> c = 45))) (re_lit ''key'')),
       re_lit ''key'', re_lit ''credential'']"

definition secret_sign :: re where
  "secret_sign = RSeq (ROpt (RChar (\<lambda>c. c = 34 \<or> c = 39))) assign_sign"

definition secret_text :: re where
  "secret_text =
     re_alts [RSeq (RChar (\<lambda>c. c = 34)) (RSeq (RRep 0 (\<lambda>c. c \<noteq> 34)) (RChar (\<lambda>c. c = 34))),
       RSeq (RChar (\<lambda>c. c = 39)) (RSeq (RRep 0 (\<lambda>c. c \<noteq> 39)) (RChar (\<lambda>c. c = 39))),
       RRep 1 (\<lambda>c. c \<notin> {44, 59, 125, 13, 10})]"

definition SECRET_ASSIGNMENT :: "re list" where
  "SECRET_ASSIGNMENT = [RWordB, secret_words, secret_sign, secret_text]"

definition AUTHENTICATION_TOKEN :: "re list" where
  "AUTHENTICATION_TOKEN = [RWordB, re_alts [re_lit ''Bearer'', re_lit ''Basic''], RRep 1 py_isspace, RRep 1 re_token_char]"

text \<open>\<^verbatim>\<open>\1\2***\<close> and \<^verbatim>\<open>\1 ***\<close>: the groups are the second and third parts.\<close>

definition keep_two :: "pystr list \<Rightarrow> pystr" where
  "keep_two xs = (case xs of _ # g1 # g2 # _ \<Rightarrow> g1 @ g2 @ u ''***'' | _ \<Rightarrow> [])"

definition keep_one :: "pystr list \<Rightarrow> pystr" where
  "keep_one xs = (case xs of _ # g1 # _ \<Rightarrow> g1 @ u '' ***'' | _ \<Rightarrow> [])"

definition redact_secrets :: "(nat \<Rightarrow> bool) \<Rightarrow> pystr \<Rightarrow> pystr" where
  "redact_secrets alnum s =
     (let s = re_sub alnum DATABASE_URL (\<lambda>_. u ''[REDACTED_DATABASE_URL]'') None s;
          s = re_sub alnum AUTHORIZATION_HEADER keep_two None s;
          s = re_sub alnum SECRET_ASSIGNMENT keep_two None s;
          s = re_sub alnum AUTHENTICATION_TOKEN keep_one None s in
      take 1024 s)"

definition BEARER_VALUE :: "re list" where
  "BEARER_VALUE = [RWordB, re_lit ''Bearer'', RRep 1 py_isspace, RRep 1 re_token_char]"

definition redact_failure_text :: "(nat \<Rightarrow> bool) \<Rightarrow> pystr \<Rightarrow> pystr" where
  "redact_failure_text alnum s =
     redact_secrets alnum (re_sub alnum BEARER_VALUE (\<lambda>_. u ''Bearer ***'') None s)"

definition sensitive_words :: "re" where
  "sensitive_words =
     re_alts [re_lit ''password'', re_lit ''passwd'', re_lit ''pwd'', re_lit ''secret'', re_lit ''token'',
       RSeq (re_lit ''api'') (RSeq (ROpt (RChar (\<lambda>c. c = 95 \<or> c = 45))) (re_lit ''key'')),
       re_lit ''authorization'', re_lit ''credential'']"

text \<open>\<^verbatim>\<open>_SENSITIVE_KEY.search(key)\<close>.\<close>

fun is_sensitive_key :: "pystr \<Rightarrow> bool" where
  "is_sensitive_key [] = False"
| "is_sensitive_key (c # cs) \<longleftrightarrow>
     re_match (\<lambda>_. False) sensitive_words None (c # cs) \<noteq> [] \<or> is_sensitive_key cs"

subsection \<open>What redaction guarantees\<close>

lemma re_parts_boundary:
  "re_parts w (RWordB # as) prev s =
     (if re_word w prev \<noteq> re_word w (head_opt s) then map (\<lambda>(ys, r). ([] # ys, r)) (re_parts w as prev s) else [])"
  by (simp add: last_or_def)

lemma re_parts_hd: "re_parts w as prev s = (xs, r) # ms \<Longrightarrow> concat xs @ r = s"
  using re_parts_split [of xs r w as prev s] by simp

text \<open>Characters of the result come from the text or from the replacements.\<close>

lemma set_re_sub:
  assumes "\<And>xs. set (repl xs) \<subseteq> set (concat xs) \<union> K"
  shows "set (re_sub w as repl prev s) \<subseteq> set s \<union> K"
  using assms
proof (induction w as repl prev s rule: re_sub.induct)
  case (1 w as repl prev)
  show ?case
  proof (cases "re_parts w as prev []")
    case (Cons m ms)
    obtain xs r where m: "m = (xs, r)" by (cases m)
    have "concat xs = []"
      using re_parts_hd [OF Cons [unfolded m]] by simp
    then have "set (repl xs) \<subseteq> K"
      using 1 [of xs] by (metis empty_set sup_bot_left)
    then show ?thesis
      by (simp add: Cons m)
  qed simp
next
  case (2 w as repl prev c cs)
  note IH = "2.IH" and repl = "2.prems"
  show ?case
  proof (cases "re_parts w as prev (c # cs)")
    case Nil
    then show ?thesis using IH(1) repl by auto
  next
    case (Cons m ms)
    obtain xs r where m: "m = (xs, r)" by (cases m)
    have split: "set (c # cs) = set (concat xs) \<union> set r"
      using re_parts_hd [OF Cons [unfolded m]] by (metis set_append)
    have "set (repl xs) \<subseteq> set (c # cs) \<union> K"
      using repl [of xs] unfolding split by blast
    moreover have "set r \<subseteq> set (c # cs)"
      using split by blast
    ultimately show ?thesis
      using IH(2) [OF Cons m [symmetric] _ repl] IH(3) [OF Cons m [symmetric] _ repl]
      by (auto simp: Cons m)
  qed
qed

text \<open>No pattern here matches without consuming its first literal, so a text that starts with a character
  the replacement keeps still starts with it.\<close>

lemma hd_re_sub:
  assumes "s \<noteq> []"
    and "\<And>xs r ms. re_parts w as prev s = (xs, r) # ms \<Longrightarrow> Q (repl xs)"
    and "\<And>t. Q (hd s # t)" and "\<And>p q. Q p \<Longrightarrow> Q (p @ q)"
  shows "Q (re_sub w as repl prev s)"
proof (cases s)
  case (Cons c cs)
  then show ?thesis
    using assms(2-4) by (auto split: list.splits)
qed (use assms(1) in simp)

lemma re_lit_Cons: "re_match w (re_lit (c # s)) prev (x # t) =
   (if re_fold x = re_fold (of_char c) then map (\<lambda>(y, r). (x # y, r)) (re_match w (re_lit s) (Some x) t) else [])"
  by (simp add: re_lit_def last_or_def)

lemma re_lit_Nil: "re_match w (re_lit []) prev s = [([], s)]"
  by (cases s) (simp_all add: re_lit_def)

lemma re_lit_Cons_Nil: "re_match w (re_lit (c # cs)) prev [] = []"
  by (simp add: re_lit_def)

lemmas re_eval = re_lit_Cons re_lit_Nil re_lit_Cons_Nil re_fold_def

text \<open>The value of an assignment: not empty, without delimiters, not starting with a quote or white space.\<close>

definition secret_value :: "pystr \<Rightarrow> bool" where
  "secret_value s \<longleftrightarrow> s \<noteq> [] \<and> \<not> py_isspace (hd s) \<and> hd s \<notin> {34, 39} \<and> list_all (\<lambda>c. c \<notin> {44, 59, 125, 13, 10}) s"

lemma re_parts_length: "(xs, r) \<in> set (re_parts w as prev s) \<Longrightarrow> length xs = length as"
  by (induction as arbitrary: xs prev s) auto

lemma re_parts_lit_hd:
  assumes "re_parts w (RWordB # re_lit (c # cs) # a # as) prev s = (xs, r) # ms"
  shows "\<exists>ys g zs. xs = [] # (hd s # ys) # g # zs"
proof -
  have *: "(xs, r) \<in> set (re_parts w (RWordB # re_lit (c # cs) # a # as) prev s)" using assms by simp
  then have "\<exists>ys zs. xs = [] # (hd s # ys) # zs"
    by (cases s) (auto simp: re_parts_boundary re_lit_Cons re_lit_Cons_Nil split: if_splits)
  then show ?thesis
    using re_parts_length [OF *] by (auto simp: length_Suc_conv)
qed

lemma secret_value_mono:
  assumes "secret_value s" and "t \<noteq> [] \<and> \<not> py_isspace (hd t) \<and> hd t \<notin> {34, 39}"
    and "set t \<subseteq> set s \<union> K" and "\<forall>c \<in> K. c \<notin> {44, 59, 125, 13, 10}"
  shows "secret_value t"
  using assms unfolding secret_value_def list_all_iff by blast

lemma secret_value_constant:
  assumes "secret_value s" and "secret_value k"
  shows "secret_value (re_sub w as (\<lambda>_. k) prev s)" (is "secret_value ?t")
proof (rule secret_value_mono [OF assms(1)])
  show "?t \<noteq> [] \<and> \<not> py_isspace (hd ?t) \<and> hd ?t \<notin> {34, 39}"
    by (rule hd_re_sub [where Q = "\<lambda>t. t \<noteq> [] \<and> \<not> py_isspace (hd t) \<and> hd t \<notin> {34, 39}"])
      (use assms in \<open>simp_all add: secret_value_def\<close>)
  show "set ?t \<subseteq> set s \<union> set k"
    by (rule set_re_sub) blast
  show "\<forall>c \<in> set k. c \<notin> {44, 59, 125, 13, 10}"
    using assms(2) by (simp add: secret_value_def list_all_iff)
qed

lemma secret_value_marker: "secret_value (u ''[REDACTED_DATABASE_URL]'')"
  unfolding secret_value_def by (simp add: py_isspace_def)

lemma secret_value_database_url:
  assumes "secret_value s"
  shows "secret_value (re_sub w DATABASE_URL (\<lambda>_. u ''[REDACTED_DATABASE_URL]'') prev s)"
  by (rule secret_value_constant [OF assms secret_value_marker])

lemma secret_value_authorization:
  assumes "secret_value s"
  shows "secret_value (re_sub w AUTHORIZATION_HEADER keep_two prev s)" (is "secret_value ?t")
proof (rule secret_value_mono [OF assms])
  have "keep_two xs \<noteq> [] \<and> hd (keep_two xs) = hd s" if "re_parts w AUTHORIZATION_HEADER prev s = (xs, r) # ms" for xs r ms
    using re_parts_lit_hd [OF that [unfolded AUTHORIZATION_HEADER_def]] by (auto simp: keep_two_def)
  then have "?t \<noteq> [] \<and> hd ?t = hd s"
    using assms by (intro hd_re_sub [where Q = "\<lambda>t. t \<noteq> [] \<and> hd t = hd s"]) (auto simp: secret_value_def)
  then show "?t \<noteq> [] \<and> \<not> py_isspace (hd ?t) \<and> hd ?t \<notin> {34, 39}"
    using assms by (simp add: secret_value_def)
  show "set ?t \<subseteq> set s \<union> {42}"
    by (rule set_re_sub) (auto simp: keep_two_def split: list.splits)
qed simp

text \<open>A prefix in which the first literal of a pattern fits nowhere is copied.\<close>

fun mismatch :: "string \<Rightarrow> pystr \<Rightarrow> bool" where
  "mismatch (c # l) (x # p) \<longleftrightarrow> re_fold x \<noteq> re_fold (of_char c) \<or> mismatch l p"
| "mismatch _ _ = False"

fun literal_free :: "string \<Rightarrow> pystr \<Rightarrow> bool" where
  "literal_free l [] = True"
| "literal_free l (x # p) \<longleftrightarrow> mismatch l (x # p) \<and> literal_free l p"

lemma mismatch_match: "mismatch l p \<Longrightarrow> re_match w (re_lit l) prev (p @ s) = []"
  by (induction l p arbitrary: prev rule: mismatch.induct) (auto simp: re_lit_Cons)

lemma re_sub_literal_free:
  "literal_free l p \<Longrightarrow>
     re_sub w (RWordB # re_lit l # as) repl prev (p @ s) = p @ re_sub w (RWordB # re_lit l # as) repl (last_or prev p) s"
proof (induction p arbitrary: prev)
  case (Cons x p)
  have "re_parts w (RWordB # re_lit l # as) prev (x # p @ s) = []"
    using mismatch_match [of l "x # p" w prev s] Cons.prems by (simp add: last_or_def)
  then have "re_sub w (RWordB # re_lit l # as) repl prev ((x # p) @ s) =
      x # re_sub w (RWordB # re_lit l # as) repl (Some x) (p @ s)"
    by (simp del: re_parts.simps)
  then show ?case using Cons by (auto simp: last_or_def)
qed (simp add: last_or_def)

lemma password_literal_free:
  "literal_free ''postgres'' (u ''password='')" "literal_free ''authorization'' (u ''password='')"
  by (simp_all add: re_fold_def)

lemma last_or_password: "last_or None (u ''password='') = Some 61"
  by (simp add: last_or_def)

lemma password_database_url:
  "re_sub w DATABASE_URL repl None (u ''password='' @ s) = u ''password='' @ re_sub w DATABASE_URL repl (Some 61) s"
  unfolding DATABASE_URL_def re_sub_literal_free [OF password_literal_free(1)] last_or_password by (rule refl)

lemma password_authorization:
  "re_sub w AUTHORIZATION_HEADER repl None (u ''password='' @ s) =
     u ''password='' @ re_sub w AUTHORIZATION_HEADER repl (Some 61) s"
  unfolding AUTHORIZATION_HEADER_def re_sub_literal_free [OF password_literal_free(2)] last_or_password by (rule refl)

lemma rev_upt_Suc: "m \<le> n \<Longrightarrow> rev [m..<Suc n] = n # rev [m..<n]"
  by simp

lemma takeWhile_secret: "secret_value s \<Longrightarrow> takeWhile (\<lambda>c. c \<notin> {44, 59, 125, 13, 10}) s = s"
  by (simp add: secret_value_def list_all_iff)

lemma re_parts_single:
  "re_match w a prev s = [(x, r)] \<Longrightarrow>
     re_parts w (a # as) prev s = map (\<lambda>(ys, r'). (x # ys, r')) (re_parts w as (last_or prev x) r)"
  by simp

lemma re_parts_last: "re_match w a prev s = (x, r) # ms \<Longrightarrow> \<exists>ms. re_parts w [a] prev s = ([x], r) # ms"
  by simp

lemma password_words: "re_match w secret_words prev (u ''password='' @ s) = [(u ''password'', 61 # s)]"
  by (simp add: secret_words_def re_eval)

lemma password_sign: "secret_value s \<Longrightarrow> re_match w secret_sign prev (61 # s) = [([61], s)]"
  by (cases s) (auto simp: secret_value_def secret_sign_def assign_sign_def py_isspace_def)

lemma password_text:
  assumes "secret_value s"
  shows "\<exists>ms. re_match w secret_text prev s = (s, []) # ms"
proof -
  obtain c cs where s: "s = c # cs" and c: "c \<noteq> 34" "c \<noteq> 39"
    using assms by (cases s) (auto simp: secret_value_def)
  show ?thesis
    using c takeWhile_secret [OF assms] rev_upt_Suc [of 1 "length s"]
    by (simp add: s secret_text_def del: upt_Suc)
qed

lemma password_secret_match:
  assumes "secret_value s" and "alnum 112"
  shows "\<exists>ms. re_parts alnum SECRET_ASSIGNMENT None (u ''password='' @ s) = ([[], u ''password'', [61], s], []) # ms"
proof -
  have "re_match alnum RWordB None (u ''password='' @ s) = [([], u ''password='' @ s)]"
    using assms(2) by (simp add: re_word_def head_opt_def)
  moreover obtain prev where prev: "last_or (last_or (last_or None []) (u ''password'')) [61] = prev" by simp
  obtain ms where "re_parts alnum [secret_text] prev s = ([s], []) # ms"
    using re_parts_last [OF password_text [OF assms(1), THEN someI_ex]] by blast
  ultimately show ?thesis
    unfolding SECRET_ASSIGNMENT_def
    by (simp add: re_parts_single password_words password_sign [OF assms(1)] prev del: re_parts.simps re_match.simps u_Cons append.simps)
qed

lemma re_sub_all:
  assumes "re_parts w as prev s = (xs, []) # ms" and "s \<noteq> []" and "\<And>p. re_parts w as p [] = []"
  shows "re_sub w as repl prev s = repl xs"
  using assms by (cases s) (simp_all del: re_parts.simps)

lemma secret_parts_Nil: "re_parts w SECRET_ASSIGNMENT prev [] = []"
  by (simp add: SECRET_ASSIGNMENT_def secret_words_def re_lit_Cons_Nil)

lemma token_first_letter: "re_fold c \<noteq> 98 \<Longrightarrow> re_parts w AUTHENTICATION_TOKEN prev (c # cs) = []"
  by (simp add: AUTHENTICATION_TOKEN_def re_lit_Cons) (simp add: re_fold_def)

lemma token_parts_Nil: "re_parts w AUTHENTICATION_TOKEN prev [] = []"
  by (simp add: AUTHENTICATION_TOKEN_def re_lit_Cons_Nil)

lemma token_stays:
  "re_sub w AUTHENTICATION_TOKEN repl None (u ''password=***'') = u ''password=***''"
  by (simp add: token_first_letter token_parts_Nil re_fold_def)

text \<open>A secret never survives redaction: whatever text without delimiters, quotes and leading white space
  follows \<^verbatim>\<open>password=\<close>, even one that itself looks like a database URL or an authorization header, the
  redacted text is the same, so it reveals nothing about the secret. The only assumption on the Unicode
  database is that it knows the letter p.\<close>

theorem redact_secrets_hides_password:
  assumes "secret_value s" and "alnum 112"
  shows "redact_secrets alnum (u ''password='' @ s) = u ''password=***''"
proof -
  let ?d = "re_sub alnum DATABASE_URL (\<lambda>_. u ''[REDACTED_DATABASE_URL]'') (Some 61) s"
  let ?a = "re_sub alnum AUTHORIZATION_HEADER keep_two (Some 61) ?d"
  have "secret_value ?a"
    by (intro secret_value_authorization secret_value_database_url assms(1))
  then obtain ms where "re_parts alnum SECRET_ASSIGNMENT None (u ''password='' @ ?a) = ([[], u ''password'', [61], ?a], []) # ms"
    using password_secret_match assms(2) by blast
  then have "re_sub alnum SECRET_ASSIGNMENT keep_two None (u ''password='' @ ?a) = keep_two [[], u ''password'', [61], ?a]"
    by (rule re_sub_all) (simp_all add: secret_parts_Nil)
  also have "\<dots> = u ''password=***''"
    by (simp add: keep_two_def)
  finally show ?thesis
    unfolding redact_secrets_def Let_def password_database_url password_authorization
    by (simp only: token_stays) simp
qed

theorem redact_secrets_hides_password_witness:
  "secret_value (u ''hunter2'') \<and> redact_secrets (\<lambda>c. c = 112) (u ''password='' @ u ''hunter2'') = u ''password=***''"
proof
  show v: "secret_value (u ''hunter2'')"
    unfolding secret_value_def by (simp add: py_isspace_def)
  show "redact_secrets (\<lambda>c. c = 112) (u ''password='' @ u ''hunter2'') = u ''password=***''"
    by (rule redact_secrets_hides_password [OF v]) simp
qed

end
