(* ===== verification/Ingestion_Store.thy ===== *)
theory Ingestion_Store
  imports Db_Core Redaction
begin

text \<open>
  Ingestion batches and raw provider events (\<^verbatim>\<open>src/bisfin/domain/ingestion.py\<close>,
  \<^verbatim>\<open>repositories/ingestion_batch_repository.py\<close>, \<^verbatim>\<open>repositories/raw_event_repository.py\<close>): the two
  tables, every repository operation as a function on them, and the constraints PostgreSQL enforces on
  them (the CHECKs, the unique request identifier, the foreign keys, BIGINT and CHAR(64)). \<open>now\<close> is
  \<^verbatim>\<open>CURRENT_TIMESTAMP\<close>. The lemmas show the lifecycle of a batch: its invariant, that a terminal batch is
  never changed again, that starting is idempotent, and that the evidence in the raw events is append-only.
\<close>

subsection \<open>Records\<close>

datatype ingestion_batch_status = RUNNING | SUCCEEDED | PARTIAL | FAILED | QUARANTINED

datatype raw_event_validation_status = PENDING | ACCEPTED | REJECTED | EVENT_QUARANTINED

type_synonym json_object = "(pystr, json) dict"

record ingestion_batch =
  ingestion_batch_id :: int
  batch_feed_id :: int
  request_id :: "pystr option"
  requested_event_from :: "timestamp option"
  requested_event_to :: "timestamp option"
  started_at :: timestamp
  finished_at :: "timestamp option"
  batch_status :: ingestion_batch_status
  received_row_count :: int
  accepted_row_count :: int
  rejected_row_count :: int
  batch_payload_sha256 :: "pystr option"
  parser_version :: pystr
  source_watermark :: "pystr option"
  error_summary :: "pystr option"
  batch_metadata :: json_object

record batch_table =
  batches :: "ingestion_batch list"
  next_batch_id :: int

subsection \<open>What the table enforces\<close>

definition in_bigint :: "int \<Rightarrow> bool" where
  "in_bigint n \<longleftrightarrow> - (2 ^ 63) \<le> n \<and> n < 2 ^ 63"

text \<open>A value out of the range of its type or too long for it (SQLSTATEs 22003 and 22001).\<close>

abbreviation data_exception :: app_error where
  "data_exception \<equiv> DatabaseError ''The database operation failed.''"

lemma data_exception_mapped:
  "map_database_error (Some (u ''22003'')) False = data_exception" "map_database_error (Some (u ''22001'')) False = data_exception"
  by (simp_all add: map_database_error_def starts_with_def)

text \<open>Storing into CHAR(n): padded with blanks; excess characters must be blanks.\<close>

definition char_n :: "nat \<Rightarrow> pystr \<Rightarrow> (app_error, pystr) result" where
  "char_n n s =
     (if length s \<le> n then Inr (s @ replicate (n - length s) 32)
      else if list_all (\<lambda>c. c = 32) (drop n s) then Inr (take n s)
      else Inl data_exception)"

definition batch_row_ok :: "ingestion_batch \<Rightarrow> bool" where
  "batch_row_ok b \<longleftrightarrow>
     0 \<le> received_row_count b \<and> 0 \<le> accepted_row_count b \<and> 0 \<le> rejected_row_count b \<and>
     (case (requested_event_from b, requested_event_to b) of (Some f, Some t) \<Rightarrow> f < t | _ \<Rightarrow> True) \<and>
     (case finished_at b of None \<Rightarrow> True | Some t \<Rightarrow> started_at b \<le> t) \<and>
     accepted_row_count b + rejected_row_count b \<le> received_row_count b"

definition batch_row_in_range :: "ingestion_batch \<Rightarrow> bool" where
  "batch_row_in_range b \<longleftrightarrow>
     in_bigint (received_row_count b) \<and> in_bigint (accepted_row_count b) \<and> in_bigint (rejected_row_count b)"

text \<open>\<^verbatim>\<open>metadata || patch\<close> on JSON objects.\<close>

definition jsonb_concat :: "json_object \<Rightarrow> json_object \<Rightarrow> json_object" where
  "jsonb_concat a b = foldl (\<lambda>d (k, v). dict_set d k v) a b"

subsection \<open>Failure diagnostics\<close>

definition FAILURE_CODE_LIMIT :: nat where
  "FAILURE_CODE_LIMIT = 128"

definition FAILURE_MESSAGE_LIMIT :: nat where
  "FAILURE_MESSAGE_LIMIT = 2048"

definition FAILURE_DETAILS_LIMIT :: nat where
  "FAILURE_DETAILS_LIMIT = 4096"

definition CONTAINER_ITEM_LIMIT :: nat where
  "CONTAINER_ITEM_LIMIT = 32"

definition DETAIL_STRING_LIMIT :: nat where
  "DETAIL_STRING_LIMIT = 512"

text \<open>\<^verbatim>\<open>datetime.isoformat()\<close> of an instant in UTC.\<close>

definition isoformat :: "timestamp \<Rightarrow> pystr" where
  "isoformat t =
     (let day = t div 86400000000; rest = nat (t mod 86400000000);
          s = rest div 1000000; us = rest mod 1000000 in
      iso_date (day + EPOCH_ORDINAL) @ [84] @ zero_pad 2 (s div 3600) @ [58] @ zero_pad 2 (s div 60 mod 60) @
      [58] @ zero_pad 2 (s mod 60) @ (if us = 0 then [] else [46] @ zero_pad 6 us) @ u ''+00:00'')"

text \<open>
  \<^verbatim>\<open>_sanitize_detail\<close>; \<open>alnum\<close> is the Unicode table of the redaction and \<open>str_of\<close> is \<^verbatim>\<open>str()\<close> of the objects
  the model does not look into. The recursion ends at depth four.
\<close>

function sanitize_detail :: "(nat \<Rightarrow> bool) \<Rightarrow> (pyval \<Rightarrow> pystr) \<Rightarrow> nat \<Rightarrow> pyval \<Rightarrow> json" where
  "sanitize_detail alnum str_of depth v =
     (if 4 \<le> depth then JStr (u ''<max-depth>'')
      else case v of
        PyNone \<Rightarrow> JNull
      | PyBool b \<Rightarrow> JBool b
      | PyInt i \<Rightarrow> JInt i
      | PyDateTime t \<Rightarrow> JStr (isoformat t)
      | PyDate d \<Rightarrow> JStr (iso_date d)
      | PyDec d \<Rightarrow> JStr (dec_str d)
      | PyStr s \<Rightarrow> JStr (take DETAIL_STRING_LIMIT (redact_failure_text alnum s))
      | PyDict items \<Rightarrow>
          JObj (foldl (\<lambda>sanitized (key, item). dict_set sanitized key item) []
            (map (\<lambda>(raw_key, item).
               let key = take 128 raw_key in
               (key, if is_sensitive_key key then JStr (u ''***'') else sanitize_detail alnum str_of (depth + 1) item))
             (take CONTAINER_ITEM_LIMIT items)))
      | PyList items \<Rightarrow> JList (map (sanitize_detail alnum str_of (depth + 1)) (take CONTAINER_ITEM_LIMIT items))
      | other \<Rightarrow> JStr (take DETAIL_STRING_LIMIT (redact_failure_text alnum (str_of other))))"
  by pat_completeness auto
termination
  by (relation "measure (\<lambda>(_, _, depth, _). 4 - depth)") auto

declare sanitize_detail.simps [simp del]

definition failure_payload ::
  "(nat \<Rightarrow> bool) \<Rightarrow> (pyval \<Rightarrow> pystr) \<Rightarrow> pystr \<Rightarrow> pystr \<Rightarrow> (pystr \<times> pyval) list option \<Rightarrow> pystr \<times> json_object" where
  "failure_payload alnum str_of error_code error_message details =
     (let code = take FAILURE_CODE_LIMIT (redact_failure_text alnum error_code);
          message = take FAILURE_MESSAGE_LIMIT (redact_failure_text alnum error_message);
          failure = [(u ''code'', JStr code), (u ''message'', JStr message)] @
            (case details of
               Some (d # ds) \<Rightarrow> [(u ''details'', sanitize_detail alnum str_of 0 (PyDict (d # ds)))]
             | _ \<Rightarrow> []);
          failure = (if FAILURE_DETAILS_LIMIT < length (dumps (JObj failure))
            then [(u ''code'', JStr code), (u ''message'', JStr message), (u ''details_truncated'', JBool True)]
            else failure);
          summary = take FAILURE_MESSAGE_LIMIT (code @ u '': '' @ message) in
      (summary, [(u ''failure'', JObj failure)]))"

subsection \<open>The batch repository\<close>

definition validate_counts :: "int \<Rightarrow> int \<Rightarrow> int \<Rightarrow> (app_error, unit) result" where
  "validate_counts received accepted rejected =
     (if min received (min accepted rejected) < 0 then Inl (AppValueError ''ingestion counts must be nonnegative'')
      else if accepted + rejected > received
      then Inl (AppValueError ''accepted and rejected counts must not exceed received count'')
      else Inr ())"

record new_batch =
  new_feed_id :: int
  new_parser_version :: pystr
  new_request_id :: "pystr option"
  new_event_from :: "py_datetime option"
  new_event_to :: "py_datetime option"
  new_source_watermark :: "pystr option"
  new_metadata :: "json_object option"
  new_started_at :: "py_datetime option"

text \<open>The row an INSERT builds from the arguments, with the column defaults.\<close>

definition batch_row :: "timestamp \<Rightarrow> new_batch \<Rightarrow> int \<Rightarrow> (app_error, ingestion_batch) result" where
  "batch_row now n i =
     rbind (require_aware_option (new_event_from n)) (\<lambda>f.
     rbind (require_aware_option (new_event_to n)) (\<lambda>t.
     rbind (require_aware_option (new_started_at n)) (\<lambda>st.
       Inr \<lparr>ingestion_batch_id = i, batch_feed_id = new_feed_id n, request_id = new_request_id n,
            requested_event_from = f, requested_event_to = t,
            started_at = (case st of None \<Rightarrow> now | Some s \<Rightarrow> s), finished_at = None,
            batch_status = RUNNING, received_row_count = 0, accepted_row_count = 0, rejected_row_count = 0,
            batch_payload_sha256 = None, parser_version = new_parser_version n,
            source_watermark = new_source_watermark n, error_summary = None,
            batch_metadata = (case new_metadata n of None \<Rightarrow> [] | Some m \<Rightarrow> m)\<rparr>)))"

definition same_request :: "ingestion_batch \<Rightarrow> ingestion_batch \<Rightarrow> bool" where
  "same_request a b \<longleftrightarrow> request_id a \<noteq> None \<and> batch_feed_id a = batch_feed_id b \<and> request_id a = request_id b"

definition create_batch ::
  "(int \<Rightarrow> bool) \<Rightarrow> timestamp \<Rightarrow> new_batch \<Rightarrow> batch_table \<Rightarrow> (app_error, batch_table \<times> ingestion_batch) result" where
  "create_batch feed_exists now n t =
     rbind (batch_row now n (next_batch_id t)) (\<lambda>b.
       if \<not> batch_row_ok b then Inl check_violation
       else if \<exists>r \<in> set (batches t). same_request r b then Inl unique_violation
       else if \<not> feed_exists (batch_feed_id b) then Inl foreign_key_violation
       else Inr (t\<lparr>batches := batches t @ [b], next_batch_id := next_batch_id t + 1\<rparr>, b))"

text \<open>\<^verbatim>\<open>INSERT \<dots> ON CONFLICT DO NOTHING RETURNING\<close>, then the existing row; a conflict uses up an identifier.\<close>

definition create_batch_if_absent ::
  "(int \<Rightarrow> bool) \<Rightarrow> timestamp \<Rightarrow> new_batch \<Rightarrow> batch_table \<Rightarrow>
     (app_error, batch_table \<times> ingestion_batch \<times> bool) result" where
  "create_batch_if_absent feed_exists now n t =
     (if new_request_id n = None
      then rbind (create_batch feed_exists now n t) (\<lambda>(t', b). Inr (t', b, True))
      else
        rbind (batch_row now n (next_batch_id t)) (\<lambda>b.
          if \<not> batch_row_ok b then Inl check_violation
          else (case find (same_request b) (batches t) of
                  None \<Rightarrow>
                    (if \<not> feed_exists (batch_feed_id b) then Inl foreign_key_violation
                     else Inr (t\<lparr>batches := batches t @ [b], next_batch_id := next_batch_id t + 1\<rparr>, b, True))
                | Some existing \<Rightarrow> Inr (t\<lparr>next_batch_id := next_batch_id t + 1\<rparr>, existing, False))))"

definition get_by_id :: "int \<Rightarrow> batch_table \<Rightarrow> ingestion_batch option" where
  "get_by_id i t = find (\<lambda>b. ingestion_batch_id b = i) (batches t)"

definition get_by_request_id :: "int \<Rightarrow> pystr \<Rightarrow> batch_table \<Rightarrow> ingestion_batch option" where
  "get_by_request_id feed_id req t = find (\<lambda>b. batch_feed_id b = feed_id \<and> request_id b = Some req) (batches t)"

text \<open>
  \<^verbatim>\<open>UPDATE \<dots> WHERE id = \<dots> AND status = 'RUNNING' RETURNING\<close>; \<open>set_values\<close> builds the new row. When no row
  is running under that identifier, the second query tells a missing batch from a finished one.
\<close>

definition execute_running_transition ::
  "int \<Rightarrow> (ingestion_batch \<Rightarrow> (app_error, ingestion_batch) result) \<Rightarrow> batch_table \<Rightarrow>
     (app_error, batch_table \<times> ingestion_batch) result" where
  "execute_running_transition i set_values t =
     (case find (\<lambda>b. ingestion_batch_id b = i \<and> batch_status b = RUNNING) (batches t) of
        Some b \<Rightarrow>
          rbind (set_values b) (\<lambda>b'.
            if \<not> batch_row_in_range b' then Inl data_exception
            else if \<not> batch_row_ok b' then Inl check_violation
            else Inr (t\<lparr>batches := map (\<lambda>r. if ingestion_batch_id r = i then b' else r) (batches t)\<rparr>, b'))
      | None \<Rightarrow>
          (case get_by_id i t of
             None \<Rightarrow> Inl (EntityNotFoundError ''The requested ingestion batch does not exist.'')
           | Some _ \<Rightarrow> Inl (InvalidStateTransitionError ''Cannot transition ingestion batch.'')))"

definition mark_running :: "int \<Rightarrow> batch_table \<Rightarrow> (app_error, batch_table \<times> ingestion_batch) result" where
  "mark_running i t = execute_running_transition i (\<lambda>b. Inr (b\<lparr>batch_status := RUNNING\<rparr>)) t"

text \<open>Setting the columns that an update only mentions when the argument is given.\<close>

definition set_payload :: "pystr option \<Rightarrow> ingestion_batch \<Rightarrow> (app_error, ingestion_batch) result" where
  "set_payload p b =
     (case p of None \<Rightarrow> Inr b | Some s \<Rightarrow> rbind (char_n 64 s) (\<lambda>c. Inr (b\<lparr>batch_payload_sha256 := Some c\<rparr>)))"

definition set_watermark :: "pystr option \<Rightarrow> ingestion_batch \<Rightarrow> ingestion_batch" where
  "set_watermark w b = (case w of None \<Rightarrow> b | Some _ \<Rightarrow> b\<lparr>source_watermark := w\<rparr>)"

definition patch_metadata :: "json_object option \<Rightarrow> ingestion_batch \<Rightarrow> ingestion_batch" where
  "patch_metadata m b = (case m of None \<Rightarrow> b | Some p \<Rightarrow> b\<lparr>batch_metadata := jsonb_concat (batch_metadata b) p\<rparr>)"

definition record_acquisition ::
  "int \<Rightarrow> pystr \<Rightarrow> int \<Rightarrow> pystr option \<Rightarrow> json_object option \<Rightarrow> batch_table \<Rightarrow>
     (app_error, batch_table \<times> ingestion_batch) result" where
  "record_acquisition i payload received watermark metadata t =
     (if received < 0 then Inl (AppValueError ''received_row_count must be nonnegative'')
      else execute_running_transition i
        (\<lambda>b. rbind (set_payload (Some payload) (b\<lparr>received_row_count := received\<rparr>))
           (\<lambda>b. Inr (patch_metadata metadata (set_watermark watermark b)))) t)"

definition TERMINAL_STATUSES :: "ingestion_batch_status list" where
  "TERMINAL_STATUSES = [SUCCEEDED, PARTIAL, FAILED, QUARANTINED]"

record final_values =
  final_status :: ingestion_batch_status
  final_received :: int
  final_accepted :: int
  final_rejected :: int
  final_payload :: "pystr option"
  final_watermark :: "pystr option"
  final_error :: "pystr option"
  final_metadata :: "json_object option"
  final_finished_at :: "py_datetime option"

definition finalize_row ::
  "(nat \<Rightarrow> bool) \<Rightarrow> timestamp \<Rightarrow> final_values \<Rightarrow> timestamp option \<Rightarrow> ingestion_batch \<Rightarrow> (app_error, ingestion_batch) result" where
  "finalize_row alnum now v finished b =
     rbind (set_payload (final_payload v)
       (b\<lparr>batch_status := final_status v,
          finished_at := Some (case finished of None \<Rightarrow> now | Some x \<Rightarrow> x),
          received_row_count := final_received v,
          accepted_row_count := final_accepted v,
          rejected_row_count := final_rejected v,
          error_summary :=
            (if final_status v = SUCCEEDED then None
             else map_option (\<lambda>e. take FAILURE_MESSAGE_LIMIT (redact_failure_text alnum e)) (final_error v))\<rparr>))
       (\<lambda>b. Inr (patch_metadata (final_metadata v) (set_watermark (final_watermark v) b)))"

definition finalize_batch ::
  "(nat \<Rightarrow> bool) \<Rightarrow> timestamp \<Rightarrow> int \<Rightarrow> final_values \<Rightarrow> batch_table \<Rightarrow> (app_error, batch_table \<times> ingestion_batch) result" where
  "finalize_batch alnum now i v t =
     (if final_status v \<notin> set TERMINAL_STATUSES
      then Inl (AppValueError ''status must be a terminal IngestionBatchStatus'')
      else
        rbind (validate_counts (final_received v) (final_accepted v) (final_rejected v)) (\<lambda>_.
        rbind (require_aware_option (final_finished_at v)) (\<lambda>finished.
          execute_running_transition i (finalize_row alnum now v finished) t)))"

definition mark_succeeded ::
  "(nat \<Rightarrow> bool) \<Rightarrow> timestamp \<Rightarrow> int \<Rightarrow> int \<Rightarrow> int \<Rightarrow> int \<Rightarrow> pystr option \<Rightarrow> pystr option \<Rightarrow> json_object option \<Rightarrow>
     py_datetime option \<Rightarrow> batch_table \<Rightarrow> (app_error, batch_table \<times> ingestion_batch) result" where
  "mark_succeeded alnum now i received accepted rejected payload watermark metadata finished t =
     finalize_batch alnum now i
       \<lparr>final_status = SUCCEEDED, final_received = received, final_accepted = accepted, final_rejected = rejected,
        final_payload = payload, final_watermark = watermark, final_error = None, final_metadata = metadata,
        final_finished_at = finished\<rparr> t"

definition mark_failed ::
  "(nat \<Rightarrow> bool) \<Rightarrow> (pyval \<Rightarrow> pystr) \<Rightarrow> timestamp \<Rightarrow> int \<Rightarrow> pystr \<Rightarrow> pystr \<Rightarrow> (pystr \<times> pyval) list option \<Rightarrow>
     py_datetime option \<Rightarrow> batch_table \<Rightarrow> (app_error, batch_table \<times> ingestion_batch) result" where
  "mark_failed alnum str_of now i error_code error_message details finished t =
     rbind (require_aware_option finished) (\<lambda>finished.
       let (summary, patch) = failure_payload alnum str_of error_code error_message details in
       execute_running_transition i
         (\<lambda>b. Inr (patch_metadata (Some patch)
            (b\<lparr>batch_status := FAILED, finished_at := Some (case finished of None \<Rightarrow> now | Some x \<Rightarrow> x),
               error_summary := Some summary\<rparr>))) t)"

subsection \<open>The lifecycle of a batch\<close>

inductive batch_step :: "batch_table \<Rightarrow> batch_table \<Rightarrow> bool" where
  step_create: "create_batch feed_exists now n t = Inr (t', b) \<Longrightarrow> batch_step t t'"
| step_create_if_absent: "create_batch_if_absent feed_exists now n t = Inr (t', b, created) \<Longrightarrow> batch_step t t'"
| step_mark_running: "mark_running i t = Inr (t', b) \<Longrightarrow> batch_step t t'"
| step_record_acquisition: "record_acquisition i payload received watermark metadata t = Inr (t', b) \<Longrightarrow> batch_step t t'"
| step_finalize: "finalize_batch alnum now i v t = Inr (t', b) \<Longrightarrow> batch_step t t'"
| step_mark_failed:
    "mark_failed alnum str_of now i code message details finished t = Inr (t', b) \<Longrightarrow> batch_step t t'"

inductive_cases batch_stepE: "batch_step t t'"

text \<open>What of a batch never changes.\<close>

definition batch_identity :: "ingestion_batch \<Rightarrow> int \<times> int \<times> pystr option \<times> timestamp \<times> pystr" where
  "batch_identity b = (ingestion_batch_id b, batch_feed_id b, request_id b, started_at b, parser_version b)"

text \<open>A row of the table is well formed: the CHECKs hold, it is running exactly while it has no end, and
  only a finished batch counts accepted or rejected rows.\<close>

definition batch_wf :: "ingestion_batch \<Rightarrow> bool" where
  "batch_wf b \<longleftrightarrow> batch_row_ok b \<and> batch_row_in_range b \<and> (batch_status b = RUNNING \<longleftrightarrow> finished_at b = None) \<and>
     (batch_status b = RUNNING \<longrightarrow> accepted_row_count b = 0 \<and> rejected_row_count b = 0)"

definition batch_inv :: "batch_table \<Rightarrow> bool" where
  "batch_inv t \<longleftrightarrow> distinct (map ingestion_batch_id (batches t)) \<and>
     (\<forall>b \<in> set (batches t). batch_wf b \<and> ingestion_batch_id b < next_batch_id t) \<and>
     (\<forall>a \<in> set (batches t). \<forall>b \<in> set (batches t). same_request a b \<longrightarrow> a = b)"

definition batch_evolves :: "ingestion_batch \<Rightarrow> ingestion_batch \<Rightarrow> bool" where
  "batch_evolves a b \<longleftrightarrow> batch_identity a = batch_identity b \<and> (batch_status a \<noteq> RUNNING \<longrightarrow> a = b)"

definition empty_batches :: batch_table where
  "empty_batches = \<lparr>batches = [], next_batch_id = 1\<rparr>"

text \<open>Every operation either appends a fresh running row, or rewrites_row one running row, or leaves the rows alone.\<close>

lemma batch_row_fresh:
  "batch_row now n i = Inr b \<Longrightarrow> batch_row_ok b \<Longrightarrow>
     ingestion_batch_id b = i \<and> batch_wf b \<and> batch_status b = RUNNING \<and> request_id b = new_request_id n \<and>
     batch_feed_id b = new_feed_id n"
  by (auto simp: batch_row_def rbind_Inr_iff batch_wf_def batch_row_in_range_def in_bigint_def)

definition appends_row :: "batch_table \<Rightarrow> batch_table \<Rightarrow> ingestion_batch \<Rightarrow> bool" where
  "appends_row t t' b \<longleftrightarrow> batches t' = batches t @ [b] \<and> next_batch_id t' = next_batch_id t + 1 \<and>
     ingestion_batch_id b = next_batch_id t \<and> batch_wf b \<and> (\<forall>r \<in> set (batches t). \<not> same_request r b)"

definition rewrites_row :: "batch_table \<Rightarrow> batch_table \<Rightarrow> ingestion_batch \<Rightarrow> ingestion_batch \<Rightarrow> bool" where
  "rewrites_row t t' b b' \<longleftrightarrow> b \<in> set (batches t) \<and> batch_status b = RUNNING \<and> batch_wf b' \<and>
     batch_identity b' = batch_identity b \<and> next_batch_id t' = next_batch_id t \<and>
     batches t' = map (\<lambda>r. if ingestion_batch_id r = ingestion_batch_id b then b' else r) (batches t)"

lemma create_batch_appends:
  "create_batch fe now n t = Inr (t', b) \<Longrightarrow> appends_row t t' b"
  by (auto simp: create_batch_def rbind_Inr_iff appends_row_def dest: batch_row_fresh split: if_splits)

lemma same_request_sym: "same_request a b \<longleftrightarrow> same_request b a"
  by (auto simp: same_request_def)

lemma create_batch_if_absent_cases:
  assumes "create_batch_if_absent fe now n t = Inr (t', b, created)"
  shows "created \<and> appends_row t t' b \<or>
    \<not> created \<and> batches t' = batches t \<and> next_batch_id t' = next_batch_id t + 1 \<and> b \<in> set (batches t) \<and>
      new_request_id n \<noteq> None \<and> batch_feed_id b = new_feed_id n \<and> request_id b = new_request_id n"
proof (cases "new_request_id n = None")
  case True
  then show ?thesis
    using assms by (auto simp: create_batch_if_absent_def rbind_Inr_iff dest: create_batch_appends)
next
  case False
  then obtain b0 where b0: "batch_row now n (next_batch_id t) = Inr b0" "batch_row_ok b0"
    using assms by (auto simp: create_batch_if_absent_def rbind_Inr_iff split: if_splits)
  note fresh = batch_row_fresh [OF b0]
  show ?thesis
  proof (cases "find (same_request b0) (batches t)")
    case None
    then have "\<forall>r \<in> set (batches t). \<not> same_request r b0"
      using same_request_sym by (auto simp: find_None_iff)
    then show ?thesis
      using assms False b0 None fresh by (auto simp: create_batch_if_absent_def appends_row_def split: if_splits)
  next
    case (Some r)
    then have "r \<in> set (batches t)" "same_request b0 r"
      by (auto simp: find_Some_iff)
    then show ?thesis
      using assms False b0 Some fresh by (auto simp: create_batch_if_absent_def same_request_def)
  qed
qed

lemma transition_rewrites:
  assumes "execute_running_transition i f t = Inr (t', b')"
    and "\<And>b b'. f b = Inr b' \<Longrightarrow> batch_wf b \<Longrightarrow> batch_status b = RUNNING \<Longrightarrow> batch_row_ok b' \<Longrightarrow> batch_row_in_range b' \<Longrightarrow>
           batch_wf b' \<and> batch_identity b' = batch_identity b"
    and "batch_inv t"
  shows "\<exists>b. rewrites_row t t' b b'"
proof (cases "find (\<lambda>b. ingestion_batch_id b = i \<and> batch_status b = RUNNING) (batches t)")
  case (Some b)
  then have b: "b \<in> set (batches t)" "ingestion_batch_id b = i" "batch_status b = RUNNING"
    by (auto simp: find_Some_iff)
  moreover have "f b = Inr b'" "batch_row_ok b'" "batch_row_in_range b'"
    "t' = t\<lparr>batches := map (\<lambda>r. if ingestion_batch_id r = i then b' else r) (batches t)\<rparr>"
    using assms(1) Some by (auto simp: execute_running_transition_def rbind_Inr_iff split: if_splits)
  ultimately show ?thesis
    using assms(2) [of b b'] assms(3) by (auto simp: rewrites_row_def batch_inv_def)
qed (use assms(1) in \<open>auto simp: execute_running_transition_def split: option.splits\<close>)

text \<open>The columns that do not take part in the constraints.\<close>

lemma set_payload_updates: "set_payload p b = Inr b' \<Longrightarrow> \<exists>c. b' = b\<lparr>batch_payload_sha256 := c\<rparr>"
  by (cases p) (auto simp: set_payload_def rbind_Inr_iff intro: exI [of _ "batch_payload_sha256 b"])

lemma free_columns [simp]:
  "batch_row_ok (b\<lparr>batch_payload_sha256 := c\<rparr>) = batch_row_ok b"
  "batch_row_ok (b\<lparr>source_watermark := w\<rparr>) = batch_row_ok b"
  "batch_row_ok (b\<lparr>batch_metadata := m\<rparr>) = batch_row_ok b"
  "batch_row_in_range (b\<lparr>batch_payload_sha256 := c\<rparr>) = batch_row_in_range b"
  "batch_row_in_range (b\<lparr>source_watermark := w\<rparr>) = batch_row_in_range b"
  "batch_row_in_range (b\<lparr>batch_metadata := m\<rparr>) = batch_row_in_range b"
  by (simp_all add: batch_row_ok_def batch_row_in_range_def cong: option.case_cong)

lemma identity_columns [simp]:
  "batch_identity (b\<lparr>batch_status := s\<rparr>) = batch_identity b" "batch_identity (b\<lparr>finished_at := f\<rparr>) = batch_identity b"
  "batch_identity (b\<lparr>received_row_count := n\<rparr>) = batch_identity b" "batch_identity (b\<lparr>accepted_row_count := n\<rparr>) = batch_identity b"
  "batch_identity (b\<lparr>rejected_row_count := n\<rparr>) = batch_identity b" "batch_identity (b\<lparr>error_summary := e\<rparr>) = batch_identity b"
  by (simp_all add: batch_identity_def)

lemma set_watermark_wf [simp]:
  "batch_wf (set_watermark w b) = batch_wf b" "batch_row_ok (set_watermark w b) = batch_row_ok b"
  "batch_row_in_range (set_watermark w b) = batch_row_in_range b" "batch_identity (set_watermark w b) = batch_identity b"
  by (simp_all add: set_watermark_def batch_wf_def batch_identity_def split: option.split)

lemma patch_metadata_wf [simp]:
  "batch_wf (patch_metadata m b) = batch_wf b" "batch_row_ok (patch_metadata m b) = batch_row_ok b"
  "batch_row_in_range (patch_metadata m b) = batch_row_in_range b" "batch_identity (patch_metadata m b) = batch_identity b"
  by (simp_all add: patch_metadata_def batch_wf_def batch_identity_def split: option.split)

lemma set_payload_wf:
  assumes "set_payload p b = Inr b'"
  shows "batch_wf b' = batch_wf b" "batch_row_ok b' = batch_row_ok b" "batch_row_in_range b' = batch_row_in_range b"
    "batch_identity b' = batch_identity b"
  using set_payload_updates [OF assms] by (auto simp: batch_wf_def batch_identity_def)

lemma wf_running: "batch_wf b \<Longrightarrow> batch_status b = RUNNING \<Longrightarrow> batch_row_ok (b\<lparr>received_row_count := n\<rparr>) \<Longrightarrow>
    batch_row_in_range (b\<lparr>received_row_count := n\<rparr>) \<Longrightarrow> batch_wf (b\<lparr>received_row_count := n\<rparr>)"
  by (simp add: batch_wf_def)

lemma wf_terminal: "batch_status b \<noteq> RUNNING \<Longrightarrow> finished_at b \<noteq> None \<Longrightarrow> batch_wf b \<longleftrightarrow> batch_row_ok b \<and> batch_row_in_range b"
  by (auto simp: batch_wf_def)

lemma terminal_not_running: "s \<in> set TERMINAL_STATUSES \<longleftrightarrow> s \<noteq> RUNNING"
  by (cases s) (auto simp: TERMINAL_STATUSES_def)

lemma batch_step_cases:
  assumes "batch_step t t'" and "batch_inv t"
  shows "(\<exists>b. appends_row t t' b) \<or> (\<exists>b b'. rewrites_row t t' b b') \<or>
    batches t' = batches t \<and> next_batch_id t \<le> next_batch_id t'"
  using assms(1)
proof (cases rule: batch_step.cases)
  case (step_create feed_exists now n b)
  then show ?thesis by (auto dest: create_batch_appends)
next
  case (step_create_if_absent feed_exists now n b created)
  then show ?thesis by (auto dest: create_batch_if_absent_cases)
next
  case (step_mark_running i b)
  have "\<exists>r. rewrites_row t t' r b"
    by (rule transition_rewrites [OF step_mark_running [unfolded mark_running_def] _ assms(2)])
      (auto simp: batch_wf_def batch_identity_def)
  then show ?thesis by blast
next
  case (step_record_acquisition i payload received watermark metadata b)
  then have "execute_running_transition i
      (\<lambda>b. rbind (set_payload (Some payload) (b\<lparr>received_row_count := received\<rparr>))
           (\<lambda>b. Inr (patch_metadata metadata (set_watermark watermark b)))) t = Inr (t', b)"
    by (auto simp: record_acquisition_def split: if_splits)
  then have "\<exists>r. rewrites_row t t' r b"
    by (rule transition_rewrites [OF _ _ assms(2)])
      (auto simp: rbind_Inr_iff set_payload_wf intro: wf_running)
  then show ?thesis by blast
next
  case (step_finalize alnum now i v b)
  then obtain finished where "final_status v \<in> set TERMINAL_STATUSES"
      and "execute_running_transition i (finalize_row alnum now v finished) t = Inr (t', b)"
    by (auto simp: finalize_batch_def rbind_Inr_iff split: if_splits)
  from this(2) have "\<exists>r. rewrites_row t t' r b"
    by (rule transition_rewrites [OF _ _ assms(2)])
      (use \<open>final_status v \<in> _\<close> in \<open>auto simp: finalize_row_def rbind_Inr_iff terminal_not_running
         set_payload_wf wf_terminal\<close>)
  then show ?thesis by blast
next
  case (step_mark_failed alnum str_of now i code message details finished b)
  then obtain f summary patch where "execute_running_transition i
         (\<lambda>b. Inr (patch_metadata (Some patch)
            (b\<lparr>batch_status := FAILED, finished_at := Some (case f of None \<Rightarrow> now | Some x \<Rightarrow> x),
               error_summary := Some summary\<rparr>))) t = Inr (t', b)"
    by (cases "failure_payload alnum str_of code message details") (auto simp: mark_failed_def rbind_Inr_iff)
  then have "\<exists>r. rewrites_row t t' r b"
    by (rule transition_rewrites [OF _ _ assms(2)]) (auto simp: wf_terminal)
  then show ?thesis by blast
qed

lemma batch_invI:
  assumes "distinct (map ingestion_batch_id (batches t))"
    and "\<And>b. b \<in> set (batches t) \<Longrightarrow> batch_wf b \<and> ingestion_batch_id b < next_batch_id t"
    and "\<And>a b. a \<in> set (batches t) \<Longrightarrow> b \<in> set (batches t) \<Longrightarrow> same_request a b \<Longrightarrow> a = b"
  shows "batch_inv t"
  using assms unfolding batch_inv_def by blast

lemma batch_invD:
  assumes "batch_inv t"
  shows "distinct (map ingestion_batch_id (batches t))"
    and "b \<in> set (batches t) \<Longrightarrow> batch_wf b"
    and "b \<in> set (batches t) \<Longrightarrow> ingestion_batch_id b < next_batch_id t"
    and "a \<in> set (batches t) \<Longrightarrow> b \<in> set (batches t) \<Longrightarrow> same_request a b \<Longrightarrow> a = b"
  using assms unfolding batch_inv_def by blast+

lemma batch_inv_append:
  assumes "batch_inv t" and "appends_row t t' b"
  shows "batch_inv t'"
proof (rule batch_invI)
  note inv = batch_invD [OF assms(1)]
  have t': "batches t' = batches t @ [b]" "next_batch_id t' = next_batch_id t + 1" "ingestion_batch_id b = next_batch_id t"
      "batch_wf b" "\<And>r. r \<in> set (batches t) \<Longrightarrow> \<not> same_request r b"
    using assms(2) by (auto simp: appends_row_def)
  show "distinct (map ingestion_batch_id (batches t'))"
    using inv(1,3) t' by force
  show "batch_wf r \<and> ingestion_batch_id r < next_batch_id t'" if "r \<in> set (batches t')" for r
    using that inv(2,3) [of r] t' by auto
  show "a = c" if "a \<in> set (batches t')" "c \<in> set (batches t')" "same_request a c" for a c
    using that inv(4) [of a c] t'(1,5) same_request_sym by fastforce
qed

lemma same_request_identity:
  "batch_identity a = batch_identity b \<Longrightarrow> same_request a c \<longleftrightarrow> same_request b c"
  by (auto simp: batch_identity_def same_request_def)

lemma rewrite_ids:
  "rewrites_row t t' b b' \<Longrightarrow> map ingestion_batch_id (batches t') = map ingestion_batch_id (batches t)"
  by (auto simp: rewrites_row_def batch_identity_def)

lemma rewrite_row:
  assumes "batch_inv t" and "rewrites_row t t' b b'" and "r \<in> set (batches t)"
  shows "ingestion_batch_id r = ingestion_batch_id b \<longleftrightarrow> r = b"
  using assms by (auto simp: batch_inv_def rewrites_row_def distinct_map inj_on_def)

lemma set_rewrite:
  assumes "batch_inv t" and "rewrites_row t t' b b'"
  shows "set (batches t') = insert b' (set (batches t) - {b})"
proof -
  have "set (batches t') = (\<lambda>r. if ingestion_batch_id r = ingestion_batch_id b then b' else r) ` set (batches t)"
    using assms(2) by (simp add: rewrites_row_def)
  also have "\<dots> = (\<lambda>r. if r = b then b' else r) ` set (batches t)"
    using rewrite_row [OF assms] by (intro image_cong) auto
  also have "\<dots> = insert b' (set (batches t) - {b})"
    using assms(2) by (auto simp: rewrites_row_def)
  finally show ?thesis .
qed

lemma batch_inv_rewrite:
  assumes "batch_inv t" and "rewrites_row t t' b b'"
  shows "batch_inv t'"
proof (rule batch_invI)
  note inv = batch_invD [OF assms(1)] and mem = set_rewrite [OF assms]
  have b: "b \<in> set (batches t)" "batch_wf b'" "batch_identity b' = batch_identity b" "next_batch_id t' = next_batch_id t"
      "ingestion_batch_id b' = ingestion_batch_id b"
    using assms(2) by (auto simp: rewrites_row_def batch_identity_def)
  show "distinct (map ingestion_batch_id (batches t'))"
    using rewrite_ids [OF assms(2)] inv(1) by simp
  show "batch_wf r \<and> ingestion_batch_id r < next_batch_id t'" if "r \<in> set (batches t')" for r
    using that inv(2,3) [of r] inv(3) [OF b(1)] b unfolding mem by auto
  have old: "a = c" if "a \<in> insert b (set (batches t))" "c \<in> insert b (set (batches t))" "same_request a c" for a c
    using that inv(4) [of a c] b(1) by auto
  show "a = c" if "a \<in> set (batches t')" "c \<in> set (batches t')" "same_request a c" for a c
    using that old [of a c] old [of a b] old [of b c] same_request_identity [OF b(3)] same_request_sym
    unfolding mem by blast
qed

interpretation batch_log: evolving_table "\<lambda>t. set (batches t)" batch_step batch_inv batch_evolves
proof
  fix t t' r
  assume inv: "batch_inv t" and step: "batch_step t t'"
  note cases = batch_step_cases [OF step inv]
  show "batch_inv t'"
    using cases
  proof (elim disjE exE)
    assume "batches t' = batches t \<and> next_batch_id t \<le> next_batch_id t'"
    then show ?thesis using inv by (auto simp: batch_inv_def)
  qed (use inv in \<open>blast intro: batch_inv_append batch_inv_rewrite\<close>)+
  assume "r \<in> set (batches t)"
  then show "\<exists>r' \<in> set (batches t'). batch_evolves r r'"
    using cases set_rewrite [OF inv]
    by (auto simp: appends_row_def batch_evolves_def) (auto simp: rewrites_row_def)
qed (auto simp: batch_evolves_def)

lemma batch_inv_empty: "batch_inv empty_batches"
  by (simp add: batch_inv_def empty_batches_def)

text \<open>C24. Whatever sequence of repository operations builds the batch table, its invariant holds: identifiers are
  distinct, a feed has at most one batch per request identifier, the counts are nonnegative with accepted plus
  rejected at most received, a batch ends no earlier than it starts, and it is running exactly while it has no
  end, with no row accepted or rejected yet.\<close>

theorem batch_table_invariant:
  assumes "batch_step\<^sup>*\<^sup>* empty_batches t"
  shows "batch_inv t"
  by (rule batch_log.inv_steps [OF assms batch_inv_empty])

text \<open>C23. Terminal statuses are final: once a batch has succeeded, partly succeeded, failed or been quarantined, no
  later sequence of operations changes anything of its row or removes it; a running batch keeps its identity
  (identifier, feed, request, start and parser version).\<close>

theorem terminal_batch_is_final:
  assumes "batch_step\<^sup>*\<^sup>* empty_batches t" and "batch_step\<^sup>*\<^sup>* t t'" and "b \<in> set (batches t)"
  shows "if batch_status b \<noteq> RUNNING then b \<in> set (batches t')
    else \<exists>b' \<in> set (batches t'). batch_identity b' = batch_identity b"
proof -
  have inv: "batch_inv t" by (rule batch_log.inv_steps [OF assms(1) batch_inv_empty])
  show ?thesis
    using batch_log.steps_evolve [OF assms(2) inv assms(3)] by (auto simp: batch_evolves_def)
qed

text \<open>Starting a batch is idempotent: after a start under a request identifier, however the batch and the others
  evolve in between, another start with the same feed and request creates nothing, returns the same batch and
  leaves every row as it is.\<close>

theorem start_is_idempotent:
  assumes "batch_step\<^sup>*\<^sup>* empty_batches t"
    and "create_batch_if_absent fe now n t = Inr (t1, b, c)" and "new_request_id n \<noteq> None"
    and "batch_step\<^sup>*\<^sup>* t1 t2"
    and "create_batch_if_absent fe' now' n' t2 = Inr (t3, b', c')"
    and "new_feed_id n' = new_feed_id n" and "new_request_id n' = new_request_id n"
  shows "\<not> c' \<and> batch_identity b' = batch_identity b \<and> batches t3 = batches t2"
proof -
  have inv: "batch_inv t" by (rule batch_log.inv_steps [OF assms(1) batch_inv_empty])
  have inv1: "batch_inv t1"
    using batch_log.inv_step [OF inv step_create_if_absent [OF assms(2)]] .
  have b: "b \<in> set (batches t1) \<and> batch_feed_id b = new_feed_id n \<and> request_id b = new_request_id n"
    using create_batch_if_absent_cases [OF assms(2)] assms(2,3)
    by (auto simp: appends_row_def create_batch_if_absent_def rbind_Inr_iff split: option.splits if_splits
        dest: batch_row_fresh)
  then obtain b2 where b2: "b2 \<in> set (batches t2)" "batch_identity b2 = batch_identity b"
    using batch_log.steps_evolve [OF assms(4) inv1, of b] by (metis batch_evolves_def)
  have inv2: "batch_inv t2" by (rule batch_log.inv_steps [OF assms(4) inv1])
  have "same_request b2 r" if "batch_feed_id r = new_feed_id n'" "request_id r = new_request_id n'" for r
    using b2(2) b assms(3,6,7) that by (auto simp: same_request_def batch_identity_def)
  moreover have "batch_feed_id b' = new_feed_id n' \<and> request_id b' = new_request_id n'"
    using create_batch_if_absent_cases [OF assms(5)] assms(3,5,7)
    by (auto simp: create_batch_if_absent_def rbind_Inr_iff split: option.splits if_splits dest: batch_row_fresh)
  ultimately have same: "same_request b2 b'" by blast
  show ?thesis
    using create_batch_if_absent_cases [OF assms(5)] same b2 batch_invD(4) [OF inv2 b2(1)]
    by (auto simp: appends_row_def)
qed

subsection \<open>A concrete run\<close>

definition example_new :: new_batch where
  "example_new = \<lparr>new_feed_id = 7, new_parser_version = u ''v1'', new_request_id = Some (u ''r1''), new_event_from = None,
     new_event_to = None, new_source_watermark = None, new_metadata = None, new_started_at = Some (Aware 100)\<rparr>"

definition example_batch :: ingestion_batch where
  "example_batch = \<lparr>ingestion_batch_id = 1, batch_feed_id = 7, request_id = Some (u ''r1''), requested_event_from = None,
     requested_event_to = None, started_at = 100, finished_at = None, batch_status = RUNNING, received_row_count = 0,
     accepted_row_count = 0, rejected_row_count = 0, batch_payload_sha256 = None, parser_version = u ''v1'',
     source_watermark = None, error_summary = None, batch_metadata = []\<rparr>"

definition example_final :: final_values where
  "example_final = \<lparr>final_status = PARTIAL, final_received = 3, final_accepted = 2, final_rejected = 1, final_payload = None,
     final_watermark = None, final_error = None, final_metadata = None, final_finished_at = Some (Aware 250)\<rparr>"

definition example_finished :: ingestion_batch where
  "example_finished = example_batch\<lparr>batch_status := PARTIAL, finished_at := Some 250, received_row_count := 3,
     accepted_row_count := 2, rejected_row_count := 1\<rparr>"

lemmas example_defs = example_new_def example_batch_def example_final_def example_finished_def empty_batches_def

lemma example_start:
  "create_batch_if_absent (\<lambda>f. f = 7) 0 example_new empty_batches = Inr (\<lparr>batches = [example_batch], next_batch_id = 2\<rparr>, example_batch, True)"
  by (simp add: create_batch_if_absent_def example_defs batch_row_def require_aware_option_def require_aware_datetime_def
      batch_row_ok_def)

lemma example_finalize:
  "finalize_batch (\<lambda>_. False) 0 1 example_final \<lparr>batches = [example_batch], next_batch_id = 2\<rparr> =
     Inr (\<lparr>batches = [example_finished], next_batch_id = 2\<rparr>, example_finished)"
  by (simp add: finalize_batch_def finalize_row_def execute_running_transition_def example_defs TERMINAL_STATUSES_def
      validate_counts_def require_aware_option_def require_aware_datetime_def set_payload_def set_watermark_def
      patch_metadata_def batch_row_ok_def batch_row_in_range_def in_bigint_def)

lemma example_restart:
  "create_batch_if_absent (\<lambda>f. f = 7) 0 example_new \<lparr>batches = [example_finished], next_batch_id = 2\<rparr> =
     Inr (\<lparr>batches = [example_finished], next_batch_id = 3\<rparr>, example_finished, False)"
  by (simp add: create_batch_if_absent_def example_defs batch_row_def require_aware_option_def require_aware_datetime_def
      batch_row_ok_def same_request_def)

lemma example_run_finished:
  "batch_step\<^sup>*\<^sup>* \<lparr>batches = [example_batch], next_batch_id = 2\<rparr> \<lparr>batches = [example_finished], next_batch_id = 2\<rparr>"
  using step_finalize [OF example_finalize] by blast

lemma example_run_started: "batch_step\<^sup>*\<^sup>* empty_batches \<lparr>batches = [example_batch], next_batch_id = 2\<rparr>"
  using step_create_if_absent [OF example_start] by blast

lemmas example_run_all = rtranclp_trans [OF example_run_started example_run_finished]

theorem batch_table_invariant_witness: "batch_inv \<lparr>batches = [example_finished], next_batch_id = 2\<rparr>"
  by (rule batch_table_invariant [OF example_run_all])

theorem terminal_batch_is_final_witness:
  "batch_status example_finished = PARTIAL \<and>
   example_finished \<in> set (batches \<lparr>batches = [example_finished], next_batch_id = 3\<rparr>)"
proof -
  have "batch_step\<^sup>*\<^sup>* \<lparr>batches = [example_finished], next_batch_id = 2\<rparr> \<lparr>batches = [example_finished], next_batch_id = 3\<rparr>"
    using step_create_if_absent [OF example_restart] by blast
  then show ?thesis
    using terminal_batch_is_final [OF example_run_all _, of _ example_finished] by (simp add: example_finished_def)
qed

theorem start_is_idempotent_witness:
  "batch_identity example_finished = batch_identity example_batch"
  using start_is_idempotent [OF rtranclp.rtrancl_refl example_start _ example_run_finished example_restart]
  by (simp add: example_new_def)

subsection \<open>Raw events\<close>

text \<open>
  \<^verbatim>\<open>_json_value\<close>: the text of a payload, decimals written as they are. \<^verbatim>\<open>CAST(\<dots> AS JSONB)\<close> then keeps the value
  (\<open>jsonb_stored\<close>): a number without fraction digits is read back as an integer, any other keeps its digits;
  strings with a NUL are refused.
\<close>

fun json_value :: "pyval \<Rightarrow> (app_error, pystr) result"
  and json_values :: "pyval list \<Rightarrow> (app_error, pystr list) result"
  and json_fields :: "(pystr \<times> pyval) list \<Rightarrow> (app_error, (pystr \<times> pystr) list) result" where
  "json_value PyNone = Inr (u ''null'')"
| "json_value (PyBool b) = Inr (if b then u ''true'' else u ''false'')"
| "json_value (PyStr s) = Inr (dumps_str s)"
| "json_value (PyInt i) = Inr (str_int i)"
| "json_value (PyDec d) = Inr (dec_str d)"
| "json_value PyNonFinite = Inl (AppValueError ''raw JSON Decimal values must be finite'')"
| "json_value (PyDict fs) = rbind (json_fields fs) (\<lambda>items.
     Inr ([123] @ join [44] (map (\<lambda>(k, v). dumps_str k @ [58] @ v) (sort_key fst items)) @ [125]))"
| "json_value (PyList vs) = rbind (json_values vs) (\<lambda>items. Inr ([91] @ join [44] items @ [93]))"
| "json_value (PyDateTime t) = Inl (AppTypeError ''unsupported raw JSON value type'')"
| "json_value PyNaiveDateTime = Inl (AppTypeError ''unsupported raw JSON value type'')"
| "json_value (PyDate d) = Inl (AppTypeError ''unsupported raw JSON value type'')"
| "json_value PyOther = Inl (AppTypeError ''unsupported raw JSON value type'')"
| "json_values [] = Inr []"
| "json_values (v # vs) = rbind (json_value v) (\<lambda>s. rbind (json_values vs) (\<lambda>ss. Inr (s # ss)))"
| "json_fields [] = Inr []"
| "json_fields ((k, v) # fs) = rbind (json_value v) (\<lambda>s. rbind (json_fields fs) (\<lambda>ss. Inr ((k, s) # ss)))"

definition canonical_json_text :: "pyval \<Rightarrow> (app_error, pystr) result" where
  "canonical_json_text v = json_value v"

definition jsonb_number :: "decimal \<Rightarrow> pyval" where
  "jsonb_number d =
     (if 0 \<le> dexp d then PyInt (signed (dsign d) (dcoeff d * 10 ^ nat (dexp d)))
      else PyDec (Dec (dsign d \<and> dcoeff d \<noteq> 0) (dcoeff d) (dexp d)))"

fun jsonb_stored :: "pyval \<Rightarrow> (app_error, pyval) result"
  and jsonb_items :: "pyval list \<Rightarrow> (app_error, pyval list) result"
  and jsonb_fields :: "(pystr \<times> pyval) list \<Rightarrow> (app_error, (pystr \<times> pyval) list) result" where
  "jsonb_stored (PyStr s) = (if 0 \<in> set s then Inl data_exception else Inr (PyStr s))"
| "jsonb_stored (PyDec d) = Inr (jsonb_number d)"
| "jsonb_stored (PyList vs) = rbind (jsonb_items vs) (\<lambda>ws. Inr (PyList ws))"
| "jsonb_stored (PyDict fs) = rbind (jsonb_fields fs) (\<lambda>gs. Inr (PyDict gs))"
| "jsonb_stored PyNone = Inr PyNone"
| "jsonb_stored (PyBool b) = Inr (PyBool b)"
| "jsonb_stored (PyInt i) = Inr (PyInt i)"
| "jsonb_stored v = Inl (AppTypeError ''unsupported raw JSON value type'')"
| "jsonb_items [] = Inr []"
| "jsonb_items (v # vs) = rbind (jsonb_stored v) (\<lambda>w. rbind (jsonb_items vs) (\<lambda>ws. Inr (w # ws)))"
| "jsonb_fields [] = Inr []"
| "jsonb_fields ((k, v) # fs) =
     (if 0 \<in> set k then Inl data_exception
      else rbind (jsonb_stored v) (\<lambda>w. rbind (jsonb_fields fs) (\<lambda>gs. Inr ((k, w) # gs))))"

definition cast_jsonb :: "pyval \<Rightarrow> (app_error, pyval) result" where
  "cast_jsonb v =
     rbind (canonical_json_text v) (\<lambda>text.
       if \<not> encodable text then Inl (AppValueError ''surrogates not allowed'') else jsonb_stored v)"

definition is_sha256 :: "pystr \<Rightarrow> bool" where
  "is_sha256 s \<longleftrightarrow> length s = 64 \<and> list_all (\<lambda>c. (48 \<le> c \<and> c \<le> 57) \<or> (97 \<le> c \<and> c \<le> 102)) s"

definition require_sha256 :: "pystr \<Rightarrow> (app_error, unit) result" where
  "require_sha256 s =
     (if is_sha256 s then Inr () else Inl (AppValueError ''payload_sha256 must be a lowercase hexadecimal SHA-256 digest''))"

record raw_event =
  ingested_at :: timestamp
  raw_event_id :: int
  event_batch_id :: int
  event_feed_id :: int
  source_record_key :: "pystr option"
  source_event_time_text :: "pystr option"
  source_date_text :: "pystr option"
  source_sequence :: "int option"
  observed_at :: "timestamp option"
  event_payload_sha256 :: pystr
  raw_payload :: "(pystr \<times> pyval) list"
  validation_status :: raw_event_validation_status
  validation_errors :: "pyval list"

record raw_event_identity =
  identity_ingested_at :: timestamp
  identity_raw_event_id :: int

definition identity :: "raw_event \<Rightarrow> raw_event_identity" where
  "identity e = \<lparr>identity_ingested_at = ingested_at e, identity_raw_event_id = raw_event_id e\<rparr>"

record raw_event_table =
  raw_events :: "raw_event list"
  next_event_id :: int
  event_months :: "int list"

definition month_of_date :: "int \<Rightarrow> int" where
  "month_of_date day = (let (y, m, d) = ord2ymd day in ymd2ord (y, m, 1))"

definition utc_date :: "timestamp \<Rightarrow> int" where
  "utc_date t = t div 86400000000 + EPOCH_ORDINAL"

definition ensure_month_partition :: "py_datetime \<Rightarrow> raw_event_table \<Rightarrow> (app_error, raw_event_table) result" where
  "ensure_month_partition d t =
     rbind (require_aware_datetime d) (\<lambda>ts.
       let month = month_of_date (utc_date ts) in
       Inr (if month \<in> set (event_months t) then t else t\<lparr>event_months := event_months t @ [month]\<rparr>))"

record new_event =
  ne_ingested_at :: py_datetime
  ne_batch_id :: int
  ne_feed_id :: int
  ne_payload_sha256 :: pystr
  ne_raw_payload :: "(pystr \<times> pyval) list"
  ne_source_record_key :: "pystr option"
  ne_source_event_time_text :: "pystr option"
  ne_source_date_text :: "pystr option"
  ne_source_sequence :: "int option"
  ne_observed_at :: "py_datetime option"
  ne_validation_status :: raw_event_validation_status
  ne_validation_errors :: "pyval list"

definition cast_object :: "(pystr \<times> pyval) list \<Rightarrow> (app_error, (pystr \<times> pyval) list) result" where
  "cast_object fs = rbind (cast_jsonb (PyDict fs)) (\<lambda>v. case v of PyDict gs \<Rightarrow> Inr gs
     | _ \<Rightarrow> Inl (AppValueError ''persisted raw_payload must be a JSON object''))"

definition cast_array :: "pyval list \<Rightarrow> (app_error, pyval list) result" where
  "cast_array vs = rbind (cast_jsonb (PyList vs)) (\<lambda>v. case v of PyList ws \<Rightarrow> Inr ws
     | _ \<Rightarrow> Inl (AppValueError ''persisted validation_errors must be a JSON array''))"

text \<open>\<open>batch_exists\<close> and \<open>feed_exists\<close> are the foreign keys; a row of a month without a partition is refused.\<close>

definition insert_response_record ::
  "(int \<Rightarrow> bool) \<Rightarrow> (int \<Rightarrow> bool) \<Rightarrow> new_event \<Rightarrow> raw_event_table \<Rightarrow> (app_error, raw_event_table \<times> raw_event) result" where
  "insert_response_record batch_exists feed_exists n t =
     rbind (require_aware_datetime (ne_ingested_at n)) (\<lambda>ingested.
     rbind (require_aware_option (ne_observed_at n)) (\<lambda>observed.
     rbind (require_sha256 (ne_payload_sha256 n)) (\<lambda>_.
     rbind (cast_object (ne_raw_payload n)) (\<lambda>payload.
     rbind (cast_array (ne_validation_errors n)) (\<lambda>errors.
       let e = \<lparr>ingested_at = ingested, raw_event_id = next_event_id t, event_batch_id = ne_batch_id n,
                event_feed_id = ne_feed_id n, source_record_key = ne_source_record_key n,
                source_event_time_text = ne_source_event_time_text n, source_date_text = ne_source_date_text n,
                source_sequence = ne_source_sequence n, observed_at = observed,
                event_payload_sha256 = ne_payload_sha256 n, raw_payload = payload,
                validation_status = ne_validation_status n, validation_errors = errors\<rparr> in
       if (case source_sequence e of None \<Rightarrow> False | Some k \<Rightarrow> \<not> in_bigint k) then Inl data_exception
       else if month_of_date (utc_date ingested) \<notin> set (event_months t) then Inl check_violation
       else if \<not> batch_exists (event_batch_id e) \<or> \<not> feed_exists (event_feed_id e) then Inl foreign_key_violation
       else Inr (t\<lparr>raw_events := raw_events t @ [e], next_event_id := next_event_id t + 1\<rparr>, e))))))"

definition update_validation_result ::
  "raw_event_identity \<Rightarrow> raw_event_validation_status \<Rightarrow> pyval list \<Rightarrow> raw_event_table \<Rightarrow>
     (app_error, raw_event_table \<times> raw_event) result" where
  "update_validation_result i status errors t =
     rbind (cast_array errors) (\<lambda>errors.
       case find (\<lambda>e. identity e = i) (raw_events t) of
         None \<Rightarrow> Inl (EntityNotFoundError ''The requested raw event does not exist.'')
       | Some e \<Rightarrow>
           let set_outcome = (\<lambda>r. r\<lparr>validation_status := status, validation_errors := errors\<rparr>) in
           Inr (t\<lparr>raw_events := map (\<lambda>r. if identity r = i then set_outcome r else r) (raw_events t)\<rparr>, set_outcome e))"

definition event_order :: "raw_event \<Rightarrow> timestamp \<times> int" where
  "event_order e = (ingested_at e, raw_event_id e)"

text \<open>\<^verbatim>\<open>ORDER BY ingested_at DESC, raw_event_id DESC LIMIT 1\<close>.\<close>

definition find_identical_record ::
  "int \<Rightarrow> pystr \<Rightarrow> pystr \<Rightarrow> raw_event_table \<Rightarrow> (app_error, raw_event option) result" where
  "find_identical_record feed_id key payload t =
     rbind (require_sha256 payload) (\<lambda>_.
       Inr (max_by event_order
         (filter (\<lambda>e. event_feed_id e = feed_id \<and> source_record_key e = Some key \<and> event_payload_sha256 e = payload)
            (raw_events t))))"

definition list_by_batch :: "int \<Rightarrow> raw_event_table \<Rightarrow> raw_event list" where
  "list_by_batch batch_id t = sort_key event_order (filter (\<lambda>e. event_batch_id e = batch_id) (raw_events t))"

subsection \<open>Raw evidence is append-only\<close>

inductive event_step :: "raw_event_table \<Rightarrow> raw_event_table \<Rightarrow> bool" where
  step_partition: "ensure_month_partition d t = Inr t' \<Longrightarrow> event_step t t'"
| step_insert: "insert_response_record batch_exists feed_exists n t = Inr (t', e) \<Longrightarrow> event_step t t'"
| step_validate: "update_validation_result i status errors t = Inr (t', e) \<Longrightarrow> event_step t t'"

text \<open>Everything of an event but the outcome of its validation.\<close>

definition evidence :: "raw_event \<Rightarrow> raw_event" where
  "evidence e = e\<lparr>validation_status := PENDING, validation_errors := []\<rparr>"

definition event_inv :: "raw_event_table \<Rightarrow> bool" where
  "event_inv t \<longleftrightarrow> distinct (map raw_event_id (raw_events t)) \<and> (\<forall>e \<in> set (raw_events t). raw_event_id e < next_event_id t) \<and>
     (\<forall>e \<in> set (raw_events t). is_sha256 (event_payload_sha256 e) \<and> month_of_date (utc_date (ingested_at e)) \<in> set (event_months t))"

lemma evidence_outcome [simp]: "evidence (e\<lparr>validation_status := s, validation_errors := es\<rparr>) = evidence e"
  by (simp add: evidence_def)

lemma evidence_eqD:
  assumes "evidence a = evidence b"
  shows "raw_event_id a = raw_event_id b" "ingested_at a = ingested_at b" "event_payload_sha256 a = event_payload_sha256 b"
    "event_feed_id a = event_feed_id b" "source_record_key a = source_record_key b" "raw_payload a = raw_payload b"
    "event_batch_id a = event_batch_id b" "identity a = identity b"
  using assms by (cases a; cases b; simp add: evidence_def identity_def)+

lemma insert_response_record_cases:
  assumes "insert_response_record be fe n t = Inr (t', e)"
  shows "raw_events t' = raw_events t @ [e]" "next_event_id t' = next_event_id t + 1" "event_months t' = event_months t"
    "raw_event_id e = next_event_id t" "is_sha256 (event_payload_sha256 e)" "event_payload_sha256 e = ne_payload_sha256 n"
    "month_of_date (utc_date (ingested_at e)) \<in> set (event_months t)" "source_record_key e = ne_source_record_key n"
    "event_feed_id e = ne_feed_id n" "event_batch_id e = ne_batch_id n"
  using assms
  by (auto simp: insert_response_record_def rbind_Inr_iff Let_def require_sha256_def split: if_splits)

lemma update_validation_cases:
  assumes "update_validation_result i s es t = Inr (t', e')"
  shows "map evidence (raw_events t') = map evidence (raw_events t) \<and> next_event_id t' = next_event_id t \<and> event_months t' = event_months t"
  using assms by (auto simp: update_validation_result_def rbind_Inr_iff Let_def split: option.splits)

lemma partition_cases:
  "ensure_month_partition d t = Inr t' \<Longrightarrow>
     raw_events t' = raw_events t \<and> next_event_id t' = next_event_id t \<and> set (event_months t) \<subseteq> set (event_months t')"
  by (auto simp: ensure_month_partition_def rbind_Inr_iff Let_def)

text \<open>The evidence of the events only grows.\<close>

lemma event_step_evidence:
  "event_step t t' \<Longrightarrow> \<exists>es. map evidence (raw_events t') = map evidence (raw_events t) @ es"
  by (erule event_step.cases)
    (auto dest: insert_response_record_cases update_validation_cases partition_cases)

lemma map_evidence_ids: "map evidence xs = map evidence ys \<Longrightarrow> map raw_event_id xs = map raw_event_id ys"
proof -
  have "map raw_event_id zs = map raw_event_id (map evidence zs)" for zs
    by (simp add: evidence_def)
  then show "map evidence xs = map evidence ys \<Longrightarrow> map raw_event_id xs = map raw_event_id ys"
    by metis
qed

lemma map_evidence_member:
  "map evidence xs = map evidence ys \<Longrightarrow> e \<in> set xs \<Longrightarrow> \<exists>e' \<in> set ys. evidence e = evidence e'"
proof -
  assume "map evidence xs = map evidence ys" and "e \<in> set xs"
  then have "evidence e \<in> evidence ` set ys"
    by (metis imageI list.set_map)
  then show ?thesis by blast
qed

lemma event_inv_step: "event_inv t \<Longrightarrow> event_step t t' \<Longrightarrow> event_inv t'"
proof (erule event_step.cases, goal_cases)
  case (1 d t t')
  then show ?case using partition_cases [of d t t'] by (auto simp: event_inv_def)
next
  case (2 be fe n t t' e)
  have "raw_event_id e \<notin> set (map raw_event_id (raw_events t))"
    using 2 insert_response_record_cases(4) [OF 2(4)] by (fastforce simp: event_inv_def)
  then show ?case
    using 2 insert_response_record_cases [OF 2(4)] by (auto simp: event_inv_def)
next
  case (3 i s es t t' e)
  note u = update_validation_cases [OF 3(4)]
  have "\<exists>r \<in> set (raw_events t). evidence r = evidence x" if "x \<in> set (raw_events t')" for x
    using map_evidence_member [OF conjunct1 [OF u] that] by metis
  then have "raw_event_id x < next_event_id t \<and> is_sha256 (event_payload_sha256 x) \<and>
      month_of_date (utc_date (ingested_at x)) \<in> set (event_months t)" if "x \<in> set (raw_events t')" for x
    using that 3(1,2) evidence_eqD(1-3) unfolding event_inv_def by metis
  then show ?case
    using 3(1-3) u map_evidence_ids [OF conjunct1 [OF u]] by (simp add: event_inv_def)
qed

interpretation event_log: evolving_table "\<lambda>t. set (raw_events t)" event_step event_inv "\<lambda>a b. evidence a = evidence b"
proof
  fix t t' r
  assume "event_inv t" and step: "event_step t t'"
  then show "event_inv t'" by (rule event_inv_step)
  assume "r \<in> set (raw_events t)"
  then have "evidence r \<in> set (map evidence (raw_events t'))"
    using event_step_evidence [OF step] by (metis UnCI imageI set_append set_map)
  then show "\<exists>r' \<in> set (raw_events t'). evidence r = evidence r'" by auto
qed simp_all

definition empty_events :: raw_event_table where
  "empty_events = \<lparr>raw_events = [], next_event_id = 1, event_months = []\<rparr>"

lemma event_inv_empty: "event_inv empty_events"
  by (simp add: event_inv_def empty_events_def)

text \<open>C25. Raw evidence is immutable and append-only: along every sequence of operations the events keep their order
  and everything but the outcome of their validation (payload, digest, keys, batch, times), only new events are
  added behind them, and an event that was inserted with a key and a digest is found again by them.\<close>

theorem raw_evidence_is_append_only:
  assumes "event_step\<^sup>*\<^sup>* empty_events t" and "event_step\<^sup>*\<^sup>* t t'"
  shows "(\<exists>es. map evidence (raw_events t') = map evidence (raw_events t) @ es) \<and>
    (\<forall>e \<in> set (raw_events t). \<forall>k. source_record_key e = Some k \<longrightarrow>
       (\<exists>f. find_identical_record (event_feed_id e) k (event_payload_sha256 e) t' = Inr (Some f) \<and>
          source_record_key f = Some k \<and> event_payload_sha256 f = event_payload_sha256 e))"
proof (intro conjI ballI allI impI)
  show "\<exists>es. map evidence (raw_events t') = map evidence (raw_events t) @ es"
    using assms(2)
  proof (induction rule: rtranclp_induct)
    case (step y z)
    then show ?case using event_step_evidence [OF step.hyps(2)] by auto
  qed simp
  fix e k
  assume e: "e \<in> set (raw_events t)" and k: "source_record_key e = Some k"
  have inv: "event_inv t" by (rule event_log.inv_steps [OF assms(1) event_inv_empty])
  then obtain e' where e': "e' \<in> set (raw_events t')" "evidence e = evidence e'"
    using event_log.steps_evolve [OF assms(2) _ e] by blast
  let ?same = "filter (\<lambda>x. event_feed_id x = event_feed_id e \<and> source_record_key x = Some k \<and>
      event_payload_sha256 x = event_payload_sha256 e) (raw_events t')"
  have "e' \<in> set ?same"
    using e' k evidence_eqD [OF e'(2)] by simp
  from max_by_exists [OF this, of event_order]
  obtain f where f: "max_by event_order ?same = Some f" and "f \<in> set ?same" by (elim exE conjE)
  moreover have "require_sha256 (event_payload_sha256 e) = Inr ()"
    using inv e by (simp add: event_inv_def require_sha256_def)
  ultimately show "\<exists>f. find_identical_record (event_feed_id e) k (event_payload_sha256 e) t' = Inr (Some f) \<and>
      source_record_key f = Some k \<and> event_payload_sha256 f = event_payload_sha256 e"
    unfolding find_identical_record_def using f by simp
qed

definition example_digest :: pystr where
  "example_digest = replicate 64 48"

definition example_event :: new_event where
  "example_event = \<lparr>ne_ingested_at = Aware 5, ne_batch_id = 1, ne_feed_id = 7, ne_payload_sha256 = example_digest,
     ne_raw_payload = [(u ''pc'', PyInt 12)], ne_source_record_key = Some (u ''k''), ne_source_event_time_text = None,
     ne_source_date_text = None, ne_source_sequence = Some 1, ne_observed_at = None,
     ne_validation_status = PENDING, ne_validation_errors = []\<rparr>"

definition example_row :: raw_event where
  "example_row = \<lparr>ingested_at = 5, raw_event_id = 1, event_batch_id = 1, event_feed_id = 7, source_record_key = Some (u ''k''),
     source_event_time_text = None, source_date_text = None, source_sequence = Some 1, observed_at = None,
     event_payload_sha256 = example_digest, raw_payload = [(u ''pc'', PyInt 12)], validation_status = PENDING,
     validation_errors = []\<rparr>"

definition example_months :: "int list" where
  "example_months = [month_of_date (utc_date 5)]"

lemma example_digest_ok: "is_sha256 example_digest"
  by (simp add: is_sha256_def example_digest_def list_all_iff)

lemma example_partition:
  "ensure_month_partition (Aware 5) empty_events = Inr \<lparr>raw_events = [], next_event_id = 1, event_months = example_months\<rparr>"
  by (simp add: ensure_month_partition_def require_aware_datetime_def empty_events_def example_months_def)

lemma example_insert:
  "insert_response_record (\<lambda>b. b = 1) (\<lambda>f. f = 7) example_event \<lparr>raw_events = [], next_event_id = 1, event_months = example_months\<rparr> =
     Inr (\<lparr>raw_events = [example_row], next_event_id = 2, event_months = example_months\<rparr>, example_row)"
  by (simp add: insert_response_record_def example_event_def require_aware_datetime_def require_aware_option_def
      require_sha256_def example_digest_ok cast_object_def cast_array_def cast_jsonb_def
      canonical_json_text_def example_row_def example_months_def in_bigint_def Let_def)

lemma example_validate:
  "update_validation_result (identity example_row) ACCEPTED [] \<lparr>raw_events = [example_row], next_event_id = 2, event_months = example_months\<rparr> =
     Inr (\<lparr>raw_events = [example_row\<lparr>validation_status := ACCEPTED\<rparr>], next_event_id = 2, event_months = example_months\<rparr>,
       example_row\<lparr>validation_status := ACCEPTED\<rparr>)"
  by (simp add: update_validation_result_def cast_array_def cast_jsonb_def canonical_json_text_def example_row_def)

theorem raw_evidence_is_append_only_witness:
  "find_identical_record 7 (u ''k'') example_digest
     \<lparr>raw_events = [example_row\<lparr>validation_status := ACCEPTED\<rparr>], next_event_id = 2, event_months = example_months\<rparr> \<noteq> Inr None"
proof -
  have run: "event_step\<^sup>*\<^sup>* empty_events \<lparr>raw_events = [example_row], next_event_id = 2, event_months = example_months\<rparr>"
    by (rule converse_rtranclp_into_rtranclp [of event_step, OF step_partition [OF example_partition]])
      (rule r_into_rtranclp [of event_step, OF step_insert [OF example_insert]])
  have more: "event_step\<^sup>*\<^sup>* \<lparr>raw_events = [example_row], next_event_id = 2, event_months = example_months\<rparr>
      \<lparr>raw_events = [example_row\<lparr>validation_status := ACCEPTED\<rparr>], next_event_id = 2, event_months = example_months\<rparr>"
    using step_validate [OF example_validate] by blast
  show ?thesis
    using raw_evidence_is_append_only [OF run more] by (auto simp: example_row_def)
qed

end
