(* ===== verification/Catalog_Store.thy ===== *)
theory Catalog_Store
  imports Ingestion_Store
begin

text \<open>
  The catalog (\<^verbatim>\<open>src/bisfin/domain/catalog.py\<close>) and its readers (\<^verbatim>\<open>repositories/data_feed_repository.py\<close>,
  \<^verbatim>\<open>repositories/instrument_repository.py\<close>): providers, feeds, time frames, venues, sessions, instruments with
  identifiers and specifications that are valid for half-open intervals of time. The interval tables carry the
  constraint of the database that intervals of one key do not overlap. The lemmas show that resolution is then
  unambiguous and that resolving at the open of a session agrees with resolving at that instant.
\<close>

subsection \<open>Records\<close>

record currency =
  currency_code :: pystr
  currency_display_name :: pystr
  minor_unit :: int
  is_fiat :: bool
  currency_metadata :: json_object

record asset_type =
  asset_type_code :: pystr
  asset_type_display_name :: pystr
  asset_type_description :: "pystr option"

record provider =
  provider_id :: int
  provider_code :: pystr
  provider_display_name :: pystr
  provider_kind :: pystr
  base_url :: "pystr option"
  default_timezone :: "pystr option"
  provider_metadata :: json_object
  provider_created_at :: timestamp

record data_feed =
  feed_id :: int
  feed_provider_id :: int
  feed_code :: pystr
  feed_display_name :: pystr
  data_kind :: pystr
  native_timezone :: "pystr option"
  feed_parser_version :: "pystr option"
  feed_active_from :: "timestamp option"
  feed_active_to :: "timestamp option"
  feed_metadata :: json_object

record timeframe =
  timeframe_id :: int
  timeframe_code :: pystr
  timeframe_display_name :: pystr
  duration_seconds :: "int option"
  calendar_unit :: pystr
  session_aligned :: bool

record venue =
  venue_id :: int
  venue_code :: pystr
  venue_display_name :: pystr
  mic_code :: "pystr option"
  country_code :: "pystr option"
  timezone_name :: pystr
  base_currency_code :: "pystr option"
  venue_metadata :: json_object

record trading_session =
  session_venue_id :: int
  session_trading_date :: int
  trading_session_code :: pystr
  is_trading_day :: bool
  session_open_ts :: "timestamp option"
  session_close_ts :: "timestamp option"
  settlement_date :: "int option"
  session_metadata :: json_object

record instrument =
  instrument_id :: int
  instrument_asset_type :: pystr
  instrument_venue_id :: "int option"
  quote_currency_code :: pystr
  canonical_symbol :: pystr
  instrument_display_name :: pystr
  instrument_status :: pystr
  instrument_active_from :: "timestamp option"
  instrument_active_to :: "timestamp option"
  instrument_metadata :: json_object
  instrument_created_at :: timestamp

text \<open>\<open>valid_from = None\<close> is PostgreSQL's \<^verbatim>\<open>-infinity\<close>.\<close>

record instrument_identifier =
  identifier_provider_id :: int
  identifier_type :: pystr
  identifier_value :: pystr
  valid_from :: "timestamp option"
  valid_to :: "timestamp option"
  identifier_instrument_id :: int
  is_primary :: bool
  identifier_metadata :: json_object

record instrument_specification =
  spec_instrument_id :: int
  effective_from :: timestamp
  effective_to :: "timestamp option"
  price_tick :: "decimal option"
  quantity_step :: "decimal option"
  lot_size :: "decimal option"
  contract_multiplier :: decimal
  price_scale :: "int option"
  quantity_scale :: "int option"
  lower_price_limit :: "decimal option"
  upper_price_limit :: "decimal option"
  shares_outstanding :: "decimal option"
  spec_metadata :: json_object

record resolved_instrument =
  resolved_inst :: instrument
  resolved_identifier :: instrument_identifier

record session_resolved_instrument = resolved_instrument +
  resolved_session :: trading_session

record catalog_tables =
  currencies :: "currency list"
  asset_types :: "asset_type list"
  providers :: "provider list"
  feeds :: "data_feed list"
  timeframes :: "timeframe list"
  venues :: "venue list"
  sessions :: "trading_session list"
  instruments :: "instrument list"
  identifiers :: "instrument_identifier list"
  specs :: "instrument_specification list"

subsection \<open>Feeds, time frames and sessions\<close>

text \<open>\<^verbatim>\<open>one_or_none()\<close>: more than one row is an error of SQLAlchemy, translated like any other.\<close>

definition one_or_none :: "'a list \<Rightarrow> (app_error, 'a option) result" where
  "one_or_none rows =
     (case rows of [] \<Rightarrow> Inr None | [r] \<Rightarrow> Inr (Some r) | _ \<Rightarrow> Inl (DatabaseError ''The database operation failed.''))"

definition required_row :: "'a option \<Rightarrow> (app_error, 'a) result" where
  "required_row row =
     (case row of
        None \<Rightarrow> Inl (EntityNotFoundError ''A required pre-provisioned catalog row does not exist.'')
      | Some r \<Rightarrow> Inr r)"

definition get_provider_by_code :: "pystr \<Rightarrow> catalog_tables \<Rightarrow> (app_error, provider) result" where
  "get_provider_by_code code c =
     rbind (one_or_none (filter (\<lambda>p. provider_code p = code) (providers c))) required_row"

definition get_feed_by_code :: "int \<Rightarrow> pystr \<Rightarrow> catalog_tables \<Rightarrow> (app_error, data_feed) result" where
  "get_feed_by_code pid code c =
     rbind (one_or_none (filter (\<lambda>f. feed_provider_id f = pid \<and> feed_code f = code) (feeds c))) required_row"

definition get_timeframe_by_code :: "pystr \<Rightarrow> catalog_tables \<Rightarrow> (app_error, timeframe) result" where
  "get_timeframe_by_code code c =
     rbind (one_or_none (filter (\<lambda>t. timeframe_code t = code) (timeframes c))) required_row"

definition get_regular_trading_session :: "int \<Rightarrow> int \<Rightarrow> catalog_tables \<Rightarrow> (app_error, trading_session) result" where
  "get_regular_trading_session vid day c =
     rbind (one_or_none (filter (\<lambda>s. session_venue_id s = vid \<and> session_trading_date s = day \<and>
       trading_session_code s = u ''REGULAR'') (sessions c))) required_row"

subsection \<open>Instruments\<close>

definition get_instrument_by_id :: "int \<Rightarrow> catalog_tables \<Rightarrow> (app_error, instrument option) result" where
  "get_instrument_by_id i c = one_or_none (filter (\<lambda>x. instrument_id x = i) (instruments c))"

definition identifier_matches :: "int \<Rightarrow> pystr \<Rightarrow> pystr \<Rightarrow> instrument_identifier \<Rightarrow> bool" where
  "identifier_matches pid kind ident d \<longleftrightarrow>
     identifier_provider_id d = pid \<and> identifier_type d = kind \<and> identifier_value d = ident"

definition identifier_exists :: "int \<Rightarrow> pystr \<Rightarrow> pystr \<Rightarrow> catalog_tables \<Rightarrow> bool" where
  "identifier_exists pid kind ident c \<longleftrightarrow> (\<exists>d \<in> set (identifiers c). identifier_matches pid kind ident d)"

text \<open>\<^verbatim>\<open>valid_from <= as_of AND (valid_to IS NULL OR valid_to > as_of)\<close>.\<close>

definition covers :: "timestamp option \<Rightarrow> timestamp option \<Rightarrow> timestamp \<Rightarrow> bool" where
  "covers f t as_of \<longleftrightarrow>
     (case f of None \<Rightarrow> True | Some x \<Rightarrow> x \<le> as_of) \<and> (case t of None \<Rightarrow> True | Some y \<Rightarrow> as_of < y)"

definition owner :: "catalog_tables \<Rightarrow> instrument_identifier \<Rightarrow> instrument list" where
  "owner c d = filter (\<lambda>i. instrument_id i = identifier_instrument_id d) (instruments c)"

text \<open>More than one row is refused, so the ORDER BY and the LIMIT of the statements do not matter.\<close>

definition find_by_identifier ::
  "int \<Rightarrow> pystr \<Rightarrow> pystr \<Rightarrow> py_datetime \<Rightarrow> catalog_tables \<Rightarrow> (app_error, resolved_instrument option) result" where
  "find_by_identifier pid kind ident as_of c =
     rbind (require_aware_datetime as_of) (\<lambda>instant.
       case concat (map (\<lambda>d. map (\<lambda>i. \<lparr>resolved_inst = i, resolved_identifier = d\<rparr>) (owner c d))
              (filter (\<lambda>d. identifier_matches pid kind ident d \<and> covers (valid_from d) (valid_to d) instant) (identifiers c))) of
         [] \<Rightarrow> Inr None
       | [r] \<Rightarrow> Inr (Some r)
       | _ \<Rightarrow> Inl (IntegrityViolationError ''Multiple active instrument identifiers violate the temporal catalog contract.''))"

text \<open>The join of an identifier with its instrument and the regular sessions of its venue on a day.\<close>

definition regular_sessions :: "catalog_tables \<Rightarrow> int \<Rightarrow> instrument \<Rightarrow> trading_session list" where
  "regular_sessions c day i =
     filter (\<lambda>s. instrument_venue_id i = Some (session_venue_id s) \<and> session_trading_date s = day \<and>
       trading_session_code s = u ''REGULAR'') (sessions c)"

definition session_rows ::
  "int \<Rightarrow> pystr \<Rightarrow> pystr \<Rightarrow> int \<Rightarrow> catalog_tables \<Rightarrow> session_resolved_instrument list" where
  "session_rows pid kind ident day c =
     filter (\<lambda>r. case session_open_ts (resolved_session r) of
         None \<Rightarrow> False
       | Some open_ts \<Rightarrow> covers (valid_from (resolved_identifier r)) (valid_to (resolved_identifier r)) open_ts)
       (concat (map (\<lambda>d. concat (map (\<lambda>i.
            map (\<lambda>s. \<lparr>resolved_inst = i, resolved_identifier = d, resolved_session = s\<rparr>) (regular_sessions c day i)) (owner c d)))
          (filter (identifier_matches pid kind ident) (identifiers c))))"

definition find_by_identifier_for_regular_session ::
  "int \<Rightarrow> pystr \<Rightarrow> pystr \<Rightarrow> int \<Rightarrow> catalog_tables \<Rightarrow> (app_error, session_resolved_instrument option) result" where
  "find_by_identifier_for_regular_session pid kind ident day c =
     (case session_rows pid kind ident day c of
        [] \<Rightarrow> Inr None
      | [r] \<Rightarrow> Inr (Some r)
      | _ \<Rightarrow> Inl (IntegrityViolationError ''Multiple session-valid identifiers violate the temporal catalog contract.''))"

definition get_active_spec ::
  "int \<Rightarrow> py_datetime \<Rightarrow> catalog_tables \<Rightarrow> (app_error, instrument_specification option) result" where
  "get_active_spec i as_of c =
     rbind (require_aware_datetime as_of) (\<lambda>instant.
       case filter (\<lambda>s. spec_instrument_id s = i \<and> covers (Some (effective_from s)) (effective_to s) instant) (specs c) of
         [] \<Rightarrow> Inr None
       | [s] \<Rightarrow> Inr (Some s)
       | _ \<Rightarrow> Inl (IntegrityViolationError ''Multiple active instrument specifications violate the temporal catalog contract.''))"

subsection \<open>The constraints of the catalog tables\<close>

definition overlap :: "timestamp option \<Rightarrow> timestamp option \<Rightarrow> timestamp option \<Rightarrow> timestamp option \<Rightarrow> bool" where
  "overlap f t f' t' \<longleftrightarrow>
     (case (f, t') of (Some x, Some y) \<Rightarrow> x < y | _ \<Rightarrow> True) \<and> (case (f', t) of (Some x, Some y) \<Rightarrow> x < y | _ \<Rightarrow> True)"

text \<open>The primary keys, the foreign key of an identifier, and the triggers against overlapping intervals.\<close>

definition catalog_ok :: "catalog_tables \<Rightarrow> bool" where
  "catalog_ok c \<longleftrightarrow> distinct (map instrument_id (instruments c)) \<and>
     (\<forall>d \<in> set (identifiers c). \<exists>i \<in> set (instruments c). instrument_id i = identifier_instrument_id d) \<and>
     sorted_wrt (\<lambda>d e. identifier_matches (identifier_provider_id d) (identifier_type d) (identifier_value d) e \<longrightarrow>
        \<not> overlap (valid_from d) (valid_to d) (valid_from e) (valid_to e)) (identifiers c) \<and>
     sorted_wrt (\<lambda>s t. spec_instrument_id s = spec_instrument_id t \<longrightarrow>
        \<not> overlap (Some (effective_from s)) (effective_to s) (Some (effective_from t)) (effective_to t)) (specs c)"

lemma covers_overlap: "covers f t x \<Longrightarrow> covers f' t' x \<Longrightarrow> overlap f t f' t'"
  by (auto simp: covers_def overlap_def split: option.splits)

text \<open>A list whose elements exclude one another has at most one element with the excluding property.\<close>

lemma filter_at_most_one:
  assumes "sorted_wrt R xs" and "\<And>x y. P x \<Longrightarrow> P y \<Longrightarrow> \<not> R x y"
  shows "filter P xs = [] \<or> (\<exists>x. filter P xs = [x] \<and> x \<in> set xs \<and> P x)"
  using assms
proof (induction xs)
  case (Cons a xs)
  then show ?case
  proof (cases "P a")
    case True
    then have "filter P xs = []"
      using Cons.prems by (auto simp: filter_empty_conv)
    then show ?thesis using True by simp
  qed auto
qed simp

lemma distinct_sorted_wrt: "distinct (map f xs) \<Longrightarrow> sorted_wrt (\<lambda>x y. f x \<noteq> f y) xs"
  by (induction xs) auto

lemma owner_single:
  assumes "catalog_ok c" and "d \<in> set (identifiers c)"
  shows "\<exists>i. owner c d = [i] \<and> i \<in> set (instruments c) \<and> instrument_id i = identifier_instrument_id d"
proof -
  have "sorted_wrt (\<lambda>i j. instrument_id i \<noteq> instrument_id j) (instruments c)"
    using assms(1) by (simp add: catalog_ok_def distinct_sorted_wrt)
  then have "owner c d = [] \<or> (\<exists>i. owner c d = [i] \<and> i \<in> set (instruments c) \<and> instrument_id i = identifier_instrument_id d)"
    unfolding owner_def by (rule filter_at_most_one) simp
  moreover have "owner c d \<noteq> []"
    using assms by (auto simp: owner_def catalog_ok_def filter_empty_conv)
  ultimately show ?thesis by blast
qed

lemma valid_identifiers:
  assumes "catalog_ok c"
  shows "filter (\<lambda>d. identifier_matches pid kind ident d \<and> covers (valid_from d) (valid_to d) instant) (identifiers c) = [] \<or>
    (\<exists>d. filter (\<lambda>d. identifier_matches pid kind ident d \<and> covers (valid_from d) (valid_to d) instant) (identifiers c) = [d] \<and>
      d \<in> set (identifiers c) \<and> identifier_matches pid kind ident d \<and> covers (valid_from d) (valid_to d) instant)"
  using assms covers_overlap unfolding catalog_ok_def
  by (intro filter_at_most_one) (auto simp: identifier_matches_def)

text \<open>C36. Resolving an identifier at an instant is unambiguous: in a catalog that satisfies the constraints of its tables
  the lookup never raises for an aware instant; it finds an instrument exactly when some identifier of that provider,
  type and value is valid at the instant, and what it returns is that identifier with the instrument it belongs to.\<close>

theorem resolution_is_unambiguous:
  assumes "catalog_ok c"
  shows "\<exists>r. find_by_identifier pid kind ident (Aware instant) c = Inr r \<and>
    (r \<noteq> None \<longleftrightarrow> (\<exists>d \<in> set (identifiers c). identifier_matches pid kind ident d \<and> covers (valid_from d) (valid_to d) instant)) \<and>
    (\<forall>x. r = Some x \<longrightarrow> resolved_identifier x \<in> set (identifiers c) \<and> identifier_matches pid kind ident (resolved_identifier x) \<and>
      covers (valid_from (resolved_identifier x)) (valid_to (resolved_identifier x)) instant \<and>
      resolved_inst x \<in> set (instruments c) \<and> instrument_id (resolved_inst x) = identifier_instrument_id (resolved_identifier x))"
  using valid_identifiers [OF assms, of pid kind ident instant]
proof (elim disjE exE conjE)
  assume "filter (\<lambda>d. identifier_matches pid kind ident d \<and> covers (valid_from d) (valid_to d) instant) (identifiers c) = []"
  then show ?thesis
    by (auto simp: find_by_identifier_def require_aware_datetime_def filter_empty_conv)
next
  fix d
  assume d: "filter (\<lambda>d. identifier_matches pid kind ident d \<and> covers (valid_from d) (valid_to d) instant) (identifiers c) = [d]"
    "d \<in> set (identifiers c)" "identifier_matches pid kind ident d" "covers (valid_from d) (valid_to d) instant"
  obtain i where "owner c d = [i]" "i \<in> set (instruments c)" "instrument_id i = identifier_instrument_id d"
    using owner_single [OF assms d(2)] by (elim exE conjE)
  then show ?thesis
    using d by (auto simp: find_by_identifier_def require_aware_datetime_def)
qed

lemma session_row:
  assumes "r \<in> set (session_rows pid kind ident day c)"
  shows "\<exists>open_ts. session_open_ts (resolved_session r) = Some open_ts \<and>
      covers (valid_from (resolved_identifier r)) (valid_to (resolved_identifier r)) open_ts"
    and "resolved_identifier r \<in> set (identifiers c)" and "identifier_matches pid kind ident (resolved_identifier r)"
    and "resolved_inst r \<in> set (owner c (resolved_identifier r))"
    and "resolved_session r \<in> set (regular_sessions c day (resolved_inst r))"
  using assms by (auto simp: session_rows_def split: option.splits)

text \<open>Resolving an identifier for the regular session of a day is resolving it at the open of that session: in a
  catalog that satisfies its constraints, what is found for a day is a regular session of that day at the venue of the
  instrument, and the plain lookup at the open of the session finds the same instrument through the same identifier.\<close>

theorem session_resolution_agrees:
  assumes "catalog_ok c" and "find_by_identifier_for_regular_session pid kind ident day c = Inr (Some r)"
  shows "\<exists>open_ts. session_open_ts (resolved_session r) = Some open_ts \<and>
    find_by_identifier pid kind ident (Aware open_ts) c =
      Inr (Some \<lparr>resolved_inst = resolved_inst r, resolved_identifier = resolved_identifier r\<rparr>) \<and>
    resolved_session r \<in> set (sessions c) \<and> session_trading_date (resolved_session r) = day \<and>
    trading_session_code (resolved_session r) = u ''REGULAR'' \<and>
    instrument_venue_id (resolved_inst r) = Some (session_venue_id (resolved_session r))"
proof -
  have r: "r \<in> set (session_rows pid kind ident day c)"
    using assms(2) by (auto simp: find_by_identifier_for_regular_session_def split: list.splits)
  obtain open_ts where o: "session_open_ts (resolved_session r) = Some open_ts"
      "covers (valid_from (resolved_identifier r)) (valid_to (resolved_identifier r)) open_ts"
    using session_row(1) [OF r] by (elim exE conjE)
  let ?P = "\<lambda>d. identifier_matches pid kind ident d \<and> covers (valid_from d) (valid_to d) open_ts"
  have mem: "resolved_identifier r \<in> set (filter ?P (identifiers c))"
    using session_row(2,3) [OF r] o(2) by simp
  then have f: "filter ?P (identifiers c) = [resolved_identifier r]"
    using valid_identifiers [OF assms(1), of pid kind ident open_ts] by (elim disjE exE conjE) (simp_all del: set_filter)
  have "owner c (resolved_identifier r) = [resolved_inst r]"
    using owner_single [OF assms(1) session_row(2) [OF r]] session_row(4) [OF r] by auto
  then show ?thesis
    using o(1) f session_row(5) [OF r]
    by (auto simp: find_by_identifier_def require_aware_datetime_def regular_sessions_def)
qed

subsection \<open>A concrete catalog\<close>

definition example_instrument :: instrument where
  "example_instrument = \<lparr>instrument_id = 2, instrument_asset_type = u ''EQUITY'', instrument_venue_id = Some 1,
     quote_currency_code = u ''IRR'', canonical_symbol = u ''S'', instrument_display_name = u ''S'', instrument_status = u ''ACTIVE'',
     instrument_active_from = None, instrument_active_to = None, instrument_metadata = [], instrument_created_at = 0\<rparr>"

definition example_identifier :: instrument_identifier where
  "example_identifier = \<lparr>identifier_provider_id = 5, identifier_type = u ''BRSAPI_L18'', identifier_value = u ''S'',
     valid_from = None, valid_to = Some 1000, identifier_instrument_id = 2, is_primary = True, identifier_metadata = []\<rparr>"

definition example_session :: trading_session where
  "example_session = \<lparr>session_venue_id = 1, session_trading_date = 719163, trading_session_code = u ''REGULAR'',
     is_trading_day = True, session_open_ts = Some 10, session_close_ts = Some 20, settlement_date = None, session_metadata = []\<rparr>"

definition example_catalog :: catalog_tables where
  "example_catalog = \<lparr>currencies = [], asset_types = [],
     providers = [\<lparr>provider_id = 5, provider_code = u ''BRS'', provider_display_name = u ''BrsApi'', provider_kind = u ''VENDOR'',
       base_url = None, default_timezone = None, provider_metadata = [], provider_created_at = 0\<rparr>],
     feeds = [\<lparr>feed_id = 7, feed_provider_id = 5, feed_code = u ''DAILY'', feed_display_name = u ''Daily'', data_kind = u ''BAR'',
       native_timezone = None, feed_parser_version = None, feed_active_from = None, feed_active_to = None, feed_metadata = []\<rparr>],
     timeframes = [\<lparr>timeframe_id = 3, timeframe_code = u ''1d'', timeframe_display_name = u ''Daily'', duration_seconds = None,
       calendar_unit = u ''SESSION'', session_aligned = True\<rparr>],
     venues = [], sessions = [example_session], instruments = [example_instrument], identifiers = [example_identifier], specs = []\<rparr>"

lemmas example_catalog_defs = example_catalog_def example_session_def example_identifier_def example_instrument_def

lemma example_catalog_ok: "catalog_ok example_catalog"
  by (simp add: catalog_ok_def example_catalog_defs)

lemma example_session_resolution:
  "find_by_identifier_for_regular_session 5 (u ''BRSAPI_L18'') (u ''S'') 719163 example_catalog =
     Inr (Some \<lparr>resolved_inst = example_instrument, resolved_identifier = example_identifier, resolved_session = example_session\<rparr>)"
  by (simp add: find_by_identifier_for_regular_session_def session_rows_def owner_def regular_sessions_def
      identifier_matches_def covers_def example_catalog_defs)

theorem resolution_is_unambiguous_witness:
  "\<exists>r. find_by_identifier 5 (u ''BRSAPI_L18'') (u ''S'') (Aware 10) example_catalog = Inr (Some r) \<and>
     identifier_instrument_id (resolved_identifier r) = instrument_id (resolved_inst r)"
proof -
  have "identifier_matches 5 (u ''BRSAPI_L18'') (u ''S'') example_identifier" "covers (valid_from example_identifier) (valid_to example_identifier) 10"
    "example_identifier \<in> set (identifiers example_catalog)"
    by (simp_all add: identifier_matches_def covers_def example_catalog_defs)
  then show ?thesis
    using resolution_is_unambiguous [OF example_catalog_ok, of 5 "u ''BRSAPI_L18''" "u ''S''" 10] by (metis not_None_eq)
qed

theorem session_resolution_agrees_witness:
  "find_by_identifier 5 (u ''BRSAPI_L18'') (u ''S'') (Aware 10) example_catalog =
     Inr (Some \<lparr>resolved_inst = example_instrument, resolved_identifier = example_identifier\<rparr>)"
  using session_resolution_agrees [OF example_catalog_ok example_session_resolution] by (simp add: example_session_def)

end
