(* ===== verification/Bar_Store.thy ===== *)
theory Bar_Store
  imports Catalog_Store
begin

text \<open>
  Market bars (\<^verbatim>\<open>src/bisfin/domain/market_data.py\<close>, \<^verbatim>\<open>repositories/bar_writer_repository.py\<close>,
  \<^verbatim>\<open>bar_repository.py\<close>, \<^verbatim>\<open>snapshot_bar_repository.py\<close>): bar series and append-only bar revisions with the
  constraints of their tables, the writer that appends a revision only when the values changed, and the
  point-in-time reads. NUMERIC(38,18) is modelled with its rounding. The lemmas show that revisions are
  append-only and numbered consecutively, that writing the same values again changes nothing, and that a
  point-in-time read never sees a revision before it was available.
\<close>

subsection \<open>NUMERIC(38,18)\<close>

definition NUMERIC_SCALE :: nat where
  "NUMERIC_SCALE = 18"

text \<open>Rounding to 18 fraction digits, halves away from zero; more than 20 integer digits are refused.\<close>

definition numeric_coeff :: "decimal \<Rightarrow> nat" where
  "numeric_coeff d =
     (let e = dexp d + int NUMERIC_SCALE in
      if 0 \<le> e then dcoeff d * 10 ^ nat e
      else (dcoeff d + 5 * 10 ^ (nat (- e) - 1)) div 10 ^ nat (- e))"

definition to_numeric :: "decimal \<Rightarrow> (app_error, decimal) result" where
  "to_numeric d =
     (let c = numeric_coeff d in
      if 10 ^ 38 \<le> c then Inl data_exception else Inr (Dec (dsign d \<and> c \<noteq> 0) c (- int NUMERIC_SCALE)))"

definition to_numeric_option :: "decimal option \<Rightarrow> (app_error, decimal option) result" where
  "to_numeric_option x = (case x of None \<Rightarrow> Inr None | Some d \<Rightarrow> rbind (to_numeric d) (\<lambda>n. Inr (Some n)))"

subsection \<open>Records\<close>

datatype replay_mode = PUBLIC_REPLAY | ACTUAL_SYSTEM_REPLAY

datatype bar_revision_write_status = INSERTED | CORRECTED | UNCHANGED

record bar_series =
  series_id :: int
  series_feed_id :: int
  series_instrument_id :: int
  series_timeframe_id :: int
  price_basis :: pystr
  adjustment_set_id :: "int option"
  close_semantics :: pystr
  session_code :: pystr
  series_metadata :: json_object
  series_created_at :: timestamp

text \<open>The values a candidate and a stored revision share.\<close>

record bar_revision_candidate =
  r_bar_open_ts :: timestamp
  r_bar_series_id :: int
  r_available_at :: timestamp
  r_system_available_at :: timestamp
  r_bar_close_ts :: timestamp
  r_trading_date :: int
  r_open_price :: decimal
  r_high_price :: decimal
  r_low_price :: decimal
  r_close_price :: decimal
  r_official_close_price :: "decimal option"
  r_settlement_price :: "decimal option"
  r_volume :: "decimal option"
  r_quote_volume :: "decimal option"
  r_trade_count :: "int option"
  r_vwap :: "decimal option"
  r_open_interest :: "decimal option"
  r_is_final :: bool
  r_quality_flags :: int
  r_ingestion_batch_id :: int
  r_previous_close_price :: "decimal option"

record bar_revision = bar_revision_candidate +
  r_revision_no :: int
  r_recorded_at :: timestamp

record bar_revision_write_result =
  write_status :: bar_revision_write_status
  write_revision :: bar_revision

record bar_tables =
  series_rows :: "bar_series list"
  next_series_id :: int
  revisions :: "bar_revision list"
  bar_months :: "int list"

subsection \<open>Series and partitions\<close>

definition ensure_month_partitions :: "int list \<Rightarrow> bar_tables \<Rightarrow> bar_tables" where
  "ensure_month_partitions trading_dates t =
     foldl (\<lambda>t month. if month \<in> set (bar_months t) then t else t\<lparr>bar_months := bar_months t @ [month]\<rparr>) t
       (sorted_list_of_set (set (map month_of_date trading_dates)))"

definition daily_raw_identity :: "int \<Rightarrow> int \<Rightarrow> int \<Rightarrow> bar_series \<Rightarrow> bool" where
  "daily_raw_identity fid iid tf_id s \<longleftrightarrow>
     series_feed_id s = fid \<and> series_instrument_id s = iid \<and> series_timeframe_id s = tf_id \<and>
     price_basis s = u ''RAW'' \<and> adjustment_set_id s = None \<and> close_semantics s = u ''LAST_TRADE'' \<and>
     session_code s = u ''REGULAR''"

text \<open>\<open>tfs\<close> is the catalog table; \<open>feed_exists\<close> and \<open>instrument_exists\<close> are the foreign keys.\<close>

definition get_or_create_daily_raw_series ::
  "timeframe list \<Rightarrow> (int \<Rightarrow> bool) \<Rightarrow> (int \<Rightarrow> bool) \<Rightarrow> timestamp \<Rightarrow> int \<Rightarrow> int \<Rightarrow> int \<Rightarrow> json_object option \<Rightarrow> bar_tables \<Rightarrow>
     (app_error, bar_tables \<times> bar_series) result" where
  "get_or_create_daily_raw_series tfs feed_exists instrument_exists now fid iid tf_id metadata t =
     (if \<not> (\<exists>f \<in> set tfs. timeframe_id f = tf_id \<and> timeframe_code f = u ''1d'' \<and>
              calendar_unit f = u ''SESSION'' \<and> session_aligned f)
      then Inl (EntityNotFoundError ''The required session-aligned 1d timeframe does not exist.'')
      else
        (case find (daily_raw_identity fid iid tf_id) (series_rows t) of
           Some existing \<Rightarrow> Inr (t\<lparr>next_series_id := next_series_id t + 1\<rparr>, existing)
         | None \<Rightarrow>
             if \<not> feed_exists fid \<or> \<not> instrument_exists iid then Inl foreign_key_violation
             else
               let s = \<lparr>series_id = next_series_id t, series_feed_id = fid, series_instrument_id = iid,
                        series_timeframe_id = tf_id, price_basis = u ''RAW'', adjustment_set_id = None,
                        close_semantics = u ''LAST_TRADE'', session_code = u ''REGULAR'',
                        series_metadata = (case metadata of None \<Rightarrow> [] | Some m \<Rightarrow> m), series_created_at = now\<rparr> in
               Inr (t\<lparr>series_rows := series_rows t @ [s], next_series_id := next_series_id t + 1\<rparr>, s)))"

definition get_series_by_id :: "int \<Rightarrow> bar_tables \<Rightarrow> bar_series option" where
  "get_series_by_id i t = find (\<lambda>s. series_id s = i) (series_rows t)"

subsection \<open>Appending a revision\<close>

definition dec_eq_option :: "decimal option \<Rightarrow> decimal option \<Rightarrow> bool" where
  "dec_eq_option x y = (case (x, y) of (None, None) \<Rightarrow> True | (Some a, Some b) \<Rightarrow> dec_eq a b | _ \<Rightarrow> False)"

text \<open>\<^verbatim>\<open>_COMPARISON_FIELDS\<close>: decimals are compared by value.\<close>

definition same_values :: "'a bar_revision_candidate_scheme \<Rightarrow> 'b bar_revision_candidate_scheme \<Rightarrow> bool" where
  "same_values a b \<longleftrightarrow>
     r_bar_close_ts a = r_bar_close_ts b \<and> r_trading_date a = r_trading_date b \<and>
     dec_eq (r_open_price a) (r_open_price b) \<and> dec_eq (r_high_price a) (r_high_price b) \<and>
     dec_eq (r_low_price a) (r_low_price b) \<and> dec_eq (r_close_price a) (r_close_price b) \<and>
     dec_eq_option (r_volume a) (r_volume b) \<and> dec_eq_option (r_official_close_price a) (r_official_close_price b) \<and>
     dec_eq_option (r_settlement_price a) (r_settlement_price b) \<and> dec_eq_option (r_quote_volume a) (r_quote_volume b) \<and>
     r_trade_count a = r_trade_count b \<and> dec_eq_option (r_vwap a) (r_vwap b) \<and>
     dec_eq_option (r_open_interest a) (r_open_interest b) \<and> r_is_final a = r_is_final b \<and>
     r_quality_flags a = r_quality_flags b \<and> dec_eq_option (r_previous_close_price a) (r_previous_close_price b)"

definition in_integer :: "int \<Rightarrow> bool" where
  "in_integer n \<longleftrightarrow> - (2 ^ 31) \<le> n \<and> n < 2 ^ 31"

definition nonnegative_option :: "decimal option \<Rightarrow> bool" where
  "nonnegative_option x = (case x of None \<Rightarrow> True | Some d \<Rightarrow> dec_le dec_zero d)"

text \<open>The CHECKs of \<^verbatim>\<open>market.bar_revision\<close>.\<close>

definition revision_row_ok :: "bar_revision \<Rightarrow> bool" where
  "revision_row_ok r \<longleftrightarrow>
     0 < r_revision_no r \<and> r_bar_open_ts r < r_bar_close_ts r \<and> r_available_at r \<le> r_system_available_at r \<and>
     dec_le (r_low_price r) (r_high_price r) \<and>
     dec_le (r_low_price r) (r_open_price r) \<and> dec_le (r_open_price r) (r_high_price r) \<and>
     dec_le (r_low_price r) (r_close_price r) \<and> dec_le (r_close_price r) (r_high_price r) \<and>
     nonnegative_option (r_volume r) \<and> nonnegative_option (r_quote_volume r) \<and>
     (case r_trade_count r of None \<Rightarrow> True | Some n \<Rightarrow> 0 \<le> n) \<and> nonnegative_option (r_open_interest r) \<and>
     (r_is_final r \<longrightarrow> r_bar_close_ts r \<le> r_available_at r)"

definition revision_row ::
  "timestamp \<Rightarrow> int \<Rightarrow> bar_revision_candidate \<Rightarrow> (app_error, bar_revision) result" where
  "revision_row now no c =
     rbind (to_numeric (r_open_price c)) (\<lambda>op.
     rbind (to_numeric (r_high_price c)) (\<lambda>hi.
     rbind (to_numeric (r_low_price c)) (\<lambda>lo.
     rbind (to_numeric (r_close_price c)) (\<lambda>cl.
     rbind (to_numeric_option (r_official_close_price c)) (\<lambda>oc.
     rbind (to_numeric_option (r_settlement_price c)) (\<lambda>st.
     rbind (to_numeric_option (r_volume c)) (\<lambda>vo.
     rbind (to_numeric_option (r_quote_volume c)) (\<lambda>qv.
     rbind (to_numeric_option (r_vwap c)) (\<lambda>vw.
     rbind (to_numeric_option (r_open_interest c)) (\<lambda>oi.
     rbind (to_numeric_option (r_previous_close_price c)) (\<lambda>pc.
       if \<not> in_integer no \<or> \<not> in_integer (r_quality_flags c) \<or>
          (case r_trade_count c of None \<Rightarrow> False | Some n \<Rightarrow> \<not> in_bigint n)
       then Inl data_exception
       else Inr \<lparr>r_bar_open_ts = r_bar_open_ts c, r_bar_series_id = r_bar_series_id c, r_available_at = r_available_at c,
              r_system_available_at = r_system_available_at c, r_bar_close_ts = r_bar_close_ts c,
              r_trading_date = r_trading_date c, r_open_price = op, r_high_price = hi, r_low_price = lo,
              r_close_price = cl, r_official_close_price = oc, r_settlement_price = st, r_volume = vo,
              r_quote_volume = qv, r_trade_count = r_trade_count c, r_vwap = vw, r_open_interest = oi,
              r_is_final = r_is_final c, r_quality_flags = r_quality_flags c,
              r_ingestion_batch_id = r_ingestion_batch_id c, r_previous_close_price = pc,
              r_revision_no = no, r_recorded_at = now\<rparr>)))))))))))"

definition bar_key :: "'a bar_revision_candidate_scheme \<Rightarrow> int \<times> timestamp" where
  "bar_key r = (r_bar_series_id r, r_bar_open_ts r)"

definition latest_revision :: "int \<times> timestamp \<Rightarrow> bar_tables \<Rightarrow> bar_revision option" where
  "latest_revision k t = max_by r_revision_no (filter (\<lambda>r. bar_key r = k) (revisions t))"

text \<open>Inserting a revision: the partition of its month, the CHECKs, the unique number, the foreign keys.\<close>

definition insert_revision ::
  "(int \<Rightarrow> bool) \<Rightarrow> bar_revision \<Rightarrow> bar_tables \<Rightarrow> (app_error, bar_tables) result" where
  "insert_revision batch_exists r t =
     (if month_of_date (utc_date (r_bar_open_ts r)) \<notin> set (bar_months t) then Inl check_violation
      else if \<not> revision_row_ok r then Inl check_violation
      else if \<exists>x \<in> set (revisions t). bar_key x = bar_key r \<and> r_revision_no x = r_revision_no r then Inl unique_violation
      else if get_series_by_id (r_bar_series_id r) t = None \<or> \<not> batch_exists (r_ingestion_batch_id r)
      then Inl foreign_key_violation
      else Inr (t\<lparr>revisions := revisions t @ [r]\<rparr>))"

definition append_revision_if_changed ::
  "(int \<Rightarrow> bool) \<Rightarrow> timestamp \<Rightarrow> bar_revision_candidate \<Rightarrow> bar_tables \<Rightarrow>
     (app_error, bar_tables \<times> bar_revision_write_result) result" where
  "append_revision_if_changed batch_exists now c t =
     (if r_system_available_at c < r_available_at c
      then Inl (AppValueError ''system_available_at must not precede available_at'')
      else if r_is_final c \<and> r_available_at c < r_bar_close_ts c
      then Inl (AppValueError ''a final bar cannot be available before its canonical close'')
      else
        let latest = latest_revision (bar_key c) t in
        if latest \<noteq> None \<and> same_values (the latest) c
        then Inr (t, \<lparr>write_status = UNCHANGED, write_revision = the latest\<rparr>)
        else
          let no = (case latest of None \<Rightarrow> 1 | Some l \<Rightarrow> r_revision_no l + 1) in
          rbind (revision_row now no c) (\<lambda>r.
          rbind (insert_revision batch_exists r t) (\<lambda>t'.
            Inr (t', \<lparr>write_status = (if latest = None then INSERTED else CORRECTED), write_revision = r\<rparr>))))"

subsection \<open>Point-in-time reads\<close>

definition effective_at :: "replay_mode \<Rightarrow> bar_revision \<Rightarrow> timestamp" where
  "effective_at mode r = (case mode of PUBLIC_REPLAY \<Rightarrow> r_available_at r | ACTUAL_SYSTEM_REPLAY \<Rightarrow> r_system_available_at r)"

text \<open>The WHERE clause of the snapshot queries and of \<^verbatim>\<open>market.bars_as_of\<close>.\<close>

definition eligible :: "replay_mode \<Rightarrow> int \<Rightarrow> timestamp \<Rightarrow> timestamp \<Rightarrow> timestamp \<Rightarrow> bar_revision \<Rightarrow> bool" where
  "eligible mode sid event_from event_to cutoff r \<longleftrightarrow>
     r_bar_series_id r = sid \<and> event_from \<le> r_bar_open_ts r \<and> r_bar_open_ts r < event_to \<and>
     r_bar_close_ts r \<le> cutoff \<and> r_is_final r \<and> effective_at mode r \<le> cutoff"

definition eligible_revisions ::
  "int \<Rightarrow> timestamp \<Rightarrow> timestamp \<Rightarrow> timestamp \<Rightarrow> replay_mode \<Rightarrow> bar_tables \<Rightarrow> bar_revision list" where
  "eligible_revisions sid event_from event_to cutoff mode t =
     sort_key (\<lambda>r. (r_bar_open_ts r, r_bar_series_id r, r_revision_no r))
       (filter (eligible mode sid event_from event_to cutoff) (revisions t))"

text \<open>\<open>adjustment_cutoff\<close> gives the knowledge cutoff of an adjustment set, if it has one.\<close>

definition resolve_series ::
  "(int \<Rightarrow> timestamp option) \<Rightarrow> int \<Rightarrow> timestamp \<Rightarrow> bar_tables \<Rightarrow> (app_error, int) result" where
  "resolve_series adjustment_cutoff sid cutoff t =
     (case get_series_by_id sid t of
        None \<Rightarrow> Inl (EntityNotFoundError ''The requested bar series does not exist.'')
      | Some s \<Rightarrow>
          (case Option.bind (adjustment_set_id s) adjustment_cutoff of
             Some a \<Rightarrow> if cutoff < a then Inl (SnapshotBuildError ''Adjusted series provenance is newer than snapshot cutoff.'')
                         else Inr (series_feed_id s)
           | None \<Rightarrow> Inr (series_feed_id s)))"

text \<open>The ORDER BY of the window in \<^verbatim>\<open>market.bars_as_of\<close>; the first row of each bar is kept.\<close>

definition pit_rank :: "replay_mode \<Rightarrow> bar_revision \<Rightarrow> timestamp \<times> int \<times> timestamp \<times> timestamp \<times> int" where
  "pit_rank mode r =
     (effective_at mode r, r_revision_no r,
      (case mode of PUBLIC_REPLAY \<Rightarrow> r_system_available_at r | ACTUAL_SYSTEM_REPLAY \<Rightarrow> r_available_at r),
      r_recorded_at r, r_ingestion_batch_id r)"

definition invalid_pit_query :: app_error where
  "invalid_pit_query = map_database_error (Some (u ''22023'')) False"

definition bars_as_of ::
  "(int \<Rightarrow> timestamp option) \<Rightarrow> int \<Rightarrow> timestamp \<Rightarrow> timestamp \<Rightarrow> timestamp \<Rightarrow> replay_mode \<Rightarrow> bar_tables \<Rightarrow>
     (app_error, bar_revision list) result" where
  "bars_as_of adjustment_cutoff sid from_ts to_ts cutoff mode t =
     (if to_ts \<le> from_ts \<or> cutoff < to_ts then Inl invalid_pit_query
      else
        (case get_series_by_id sid t of
           None \<Rightarrow> Inl (map_database_error (Some (u ''P0002'')) False)
         | Some s \<Rightarrow>
             if (case adjustment_set_id s of None \<Rightarrow> False
                 | Some a \<Rightarrow> (case adjustment_cutoff a of None \<Rightarrow> True | Some c \<Rightarrow> cutoff < c))
             then Inl invalid_pit_query
             else
               let rows = filter (eligible mode sid from_ts to_ts cutoff) (revisions t) in
               Inr (sort_key r_bar_open_ts
                 (concat (map (\<lambda>(open_ts, rs). case max_by (pit_rank mode) rs of None \<Rightarrow> [] | Some r \<Rightarrow> [r])
                    (group_by r_bar_open_ts rows))))))"

definition get_bars_as_of ::
  "(int \<Rightarrow> timestamp option) \<Rightarrow> int \<Rightarrow> py_datetime \<Rightarrow> py_datetime \<Rightarrow> py_datetime \<Rightarrow> replay_mode \<Rightarrow> bar_tables \<Rightarrow>
     (app_error, bar_revision list) result" where
  "get_bars_as_of adjustment_cutoff sid from_ts to_ts cutoff mode t =
     rbind (require_aware_datetime from_ts) (\<lambda>f.
     rbind (require_aware_datetime to_ts) (\<lambda>e.
     rbind (require_aware_datetime cutoff) (\<lambda>c.
       bars_as_of adjustment_cutoff sid f e c mode t)))"

subsection \<open>Revisions are append-only and numbered consecutively\<close>

inductive bar_step :: "bar_tables \<Rightarrow> bar_tables \<Rightarrow> bool" where
  step_months: "bar_step t (ensure_month_partitions dates t)"
| step_series: "get_or_create_daily_raw_series tfs fe ie now f i tf md t = Inr (t', s) \<Longrightarrow> bar_step t t'"
| step_append: "append_revision_if_changed be now c t = Inr (t', w) \<Longrightarrow> bar_step t t'"

inductive_cases bar_stepE: "bar_step t t'"

definition numbers :: "int \<times> timestamp \<Rightarrow> bar_revision list \<Rightarrow> int list" where
  "numbers k rs = map r_revision_no (filter (\<lambda>r. bar_key r = k) rs)"

definition consecutive :: "int list \<Rightarrow> bool" where
  "consecutive ns \<longleftrightarrow> ns = map int [1..<Suc (length ns)]"

definition bar_inv :: "bar_tables \<Rightarrow> bool" where
  "bar_inv t \<longleftrightarrow> (\<forall>k. consecutive (numbers k (revisions t))) \<and> (\<forall>r \<in> set (revisions t). revision_row_ok r)"

lemma consecutive_snoc: "consecutive ns \<Longrightarrow> consecutive (ns @ [int (length ns) + 1])"
  by (simp add: consecutive_def)

lemma consecutive_Nil [simp]: "consecutive []"
  by (simp add: consecutive_def)

lemma latest_revision_None: "latest_revision k t = None \<longleftrightarrow> numbers k (revisions t) = []"
  by (simp add: latest_revision_def numbers_def)

text \<open>The latest revision of a bar is the one whose number is the number of its revisions.\<close>

lemma latest_revision_no:
  assumes "consecutive (numbers k (revisions t))" and "latest_revision k t = Some l"
  shows "r_revision_no l = int (length (numbers k (revisions t)))" and "bar_key l = k" and "l \<in> set (revisions t)"
proof -
  let ?rs = "filter (\<lambda>r. bar_key r = k) (revisions t)"
  have l: "l \<in> set ?rs" and max: "\<And>r. r \<in> set ?rs \<Longrightarrow> r_revision_no r \<le> r_revision_no l"
    using assms(2) unfolding latest_revision_def by (auto dest: max_by_mem max_by_ge)
  from l show "bar_key l = k" and "l \<in> set (revisions t)" by auto
  have "map r_revision_no ?rs = map int [1..<Suc (length ?rs)]"
    using assms(1) unfolding consecutive_def numbers_def by (simp only: length_map)
  from arg_cong [OF this, of set] have nums: "r_revision_no ` set ?rs = int ` {1..<Suc (length ?rs)}"
    unfolding set_map set_upt .
  have "0 < length ?rs" using l by (cases ?rs) auto
  then have "int (length ?rs) \<in> r_revision_no ` set ?rs"
    unfolding nums by (intro imageI) (simp add: Suc_le_eq del: length_greater_0_conv)
  then have "int (length ?rs) \<le> r_revision_no l"
    using max by auto
  moreover have "r_revision_no l \<in> int ` {1..<Suc (length ?rs)}"
    using l unfolding nums [symmetric] by (rule imageI)
  ultimately show "r_revision_no l = int (length (numbers k (revisions t)))"
    by (auto simp: numbers_def)
qed

lemma revision_row_fields:
  "revision_row now no c = Inr r \<Longrightarrow> r_revision_no r = no \<and> bar_key r = bar_key c \<and> r_available_at r = r_available_at c \<and>
     r_system_available_at r = r_system_available_at c \<and> r_is_final r = r_is_final c"
  by (auto simp: revision_row_def rbind_Inr_iff bar_key_def split: if_splits)

lemma insert_revision_cases:
  "insert_revision be r t = Inr t' \<Longrightarrow> t' = t\<lparr>revisions := revisions t @ [r]\<rparr> \<and> revision_row_ok r"
  by (auto simp: insert_revision_def split: if_splits)

lemma append_cases:
  assumes "append_revision_if_changed be now c t = Inr (t', w)"
  shows "write_status w = UNCHANGED \<and> t' = t \<and> latest_revision (bar_key c) t = Some (write_revision w) \<and>
      same_values (write_revision w) c \<or>
    write_status w \<noteq> UNCHANGED \<and> t' = t\<lparr>revisions := revisions t @ [write_revision w]\<rparr> \<and>
      revision_row_ok (write_revision w) \<and> bar_key (write_revision w) = bar_key c \<and>
      (write_status w = INSERTED \<longleftrightarrow> latest_revision (bar_key c) t = None) \<and>
      r_revision_no (write_revision w) = (case latest_revision (bar_key c) t of None \<Rightarrow> 1 | Some l \<Rightarrow> r_revision_no l + 1) \<and>
      revision_row now (r_revision_no (write_revision w)) c = Inr (write_revision w)"
proof -
  define latest where "latest = latest_revision (bar_key c) t"
  show ?thesis
  proof (cases "latest \<noteq> None \<and> same_values (the latest) c")
    case True
    then show ?thesis
      using assms by (auto simp: append_revision_if_changed_def Let_def latest_def [symmetric] split: if_splits)
  next
    case False
    define no where "no = (case latest of None \<Rightarrow> 1 | Some l \<Rightarrow> r_revision_no l + 1)"
    obtain r where r: "revision_row now no c = Inr r" and "insert_revision be r t = Inr t'"
        and w: "w = \<lparr>write_status = (if latest = None then INSERTED else CORRECTED), write_revision = r\<rparr>"
      using assms False
      unfolding append_revision_if_changed_def Let_def latest_def [symmetric] no_def [symmetric]
      by (auto simp: rbind_Inr_iff simp del: not_None_eq split: if_splits)
    then show ?thesis
      using insert_revision_cases [of be r t t'] revision_row_fields [OF r]
      by (simp add: latest_def [symmetric] no_def [symmetric])
  qed
qed

lemma bar_inv_append:
  assumes "bar_inv t" and "append_revision_if_changed be now c t = Inr (t', w)"
  shows "bar_inv t'"
  using append_cases [OF assms(2)]
proof (elim disjE conjE)
  assume new: "t' = t\<lparr>revisions := revisions t @ [write_revision w]\<rparr>" and ok: "revision_row_ok (write_revision w)"
    and key: "bar_key (write_revision w) = bar_key c"
    and no: "r_revision_no (write_revision w) = (case latest_revision (bar_key c) t of None \<Rightarrow> 1 | Some l \<Rightarrow> r_revision_no l + 1)"
  have con: "consecutive (numbers k (revisions t))" for k
    using assms(1) unfolding bar_inv_def by blast
  have "r_revision_no (write_revision w) = int (length (numbers (bar_key c) (revisions t))) + 1"
    using no latest_revision_no(1) [OF con, of "bar_key c"] latest_revision_None [of "bar_key c" t]
    by (cases "latest_revision (bar_key c) t") auto
  then have "consecutive (numbers k (revisions t @ [write_revision w]))" for k
    using consecutive_snoc [OF con] con key by (auto simp: numbers_def)
  then show ?thesis
    using assms(1) ok new by (simp add: bar_inv_def)
qed (use assms(1) in simp)

lemma months_keep: "revisions (ensure_month_partitions dates t) = revisions t \<and>
    series_rows (ensure_month_partitions dates t) = series_rows t"
proof -
  have "revisions (foldl (\<lambda>t month. if month \<in> set (bar_months t) then t else t\<lparr>bar_months := bar_months t @ [month]\<rparr>) t ms) = revisions t \<and>
     series_rows (foldl (\<lambda>t month. if month \<in> set (bar_months t) then t else t\<lparr>bar_months := bar_months t @ [month]\<rparr>) t ms) = series_rows t" for ms
    by (induction ms arbitrary: t) auto
  then show ?thesis by (simp add: ensure_month_partitions_def)
qed

lemma series_keep: "get_or_create_daily_raw_series tfs fe ie now f i tf md t = Inr (t', s) \<Longrightarrow> revisions t' = revisions t"
  by (auto simp: get_or_create_daily_raw_series_def Let_def split: if_splits option.splits)

lemma bar_step_revisions: "bar_step t t' \<Longrightarrow> \<exists>rs. revisions t' = revisions t @ rs"
  by (erule bar_stepE) (auto simp: months_keep dest: series_keep append_cases)

interpretation bar_log: evolving_table "\<lambda>t. set (revisions t)" bar_step bar_inv "(=)"
proof
  fix t t' r
  assume inv: "bar_inv t" and step: "bar_step t t'"
  show "bar_inv t'"
    using step
  proof (cases rule: bar_step.cases)
    case (step_append be now c w)
    then show ?thesis using bar_inv_append [OF inv] by blast
  qed (use inv in \<open>auto simp: bar_inv_def months_keep dest: series_keep\<close>)
  assume "r \<in> set (revisions t)"
  then show "\<exists>r' \<in> set (revisions t'). r = r'"
    using bar_step_revisions [OF step] by auto
qed simp_all

definition empty_bars :: bar_tables where
  "empty_bars = \<lparr>series_rows = [], next_series_id = 1, revisions = [], bar_months = []\<rparr>"

lemma bar_inv_empty: "bar_inv empty_bars"
  by (simp add: bar_inv_def empty_bars_def numbers_def)

text \<open>C26. Bar revisions are append-only: whatever the repository operations, the revisions already written stay as
  they are, new ones only come behind them, the revisions of every bar are numbered 1, 2, 3 and so on in the
  order they were written, and each satisfies the constraints of the table (a final bar is never available
  before its close, never in the system before it was available, and its prices are ordered).\<close>

theorem revisions_are_append_only:
  assumes "bar_step\<^sup>*\<^sup>* empty_bars t" and "bar_step\<^sup>*\<^sup>* t t'"
  shows "(\<exists>rs. revisions t' = revisions t @ rs) \<and>
    (\<forall>k. consecutive (numbers k (revisions t'))) \<and> (\<forall>r \<in> set (revisions t'). revision_row_ok r)"
proof (intro conjI)
  show "\<exists>rs. revisions t' = revisions t @ rs"
    using assms(2)
  proof (induction rule: rtranclp_induct)
    case (step y z)
    then show ?case using bar_step_revisions [OF step.hyps(2)] by auto
  qed simp
  have "bar_inv t'"
    using bar_log.inv_steps [OF rtranclp_trans [OF assms] bar_inv_empty] .
  then show "\<forall>k. consecutive (numbers k (revisions t'))" and "\<forall>r \<in> set (revisions t'). revision_row_ok r"
    by (simp_all add: bar_inv_def)
qed

subsection \<open>Writing the same values again\<close>

lemma latest_after_append:
  assumes "bar_inv t" and "append_revision_if_changed be now c t = Inr (t', w)"
  shows "latest_revision (bar_key c) t' = Some (write_revision w)"
  using append_cases [OF assms(2)]
  by (auto simp: latest_revision_def max_by_snoc split: option.splits) (simp add: max_by_def)

text \<open>A decimal that NUMERIC(38,18) stores without rounding.\<close>

definition numeric_exact :: "decimal \<Rightarrow> bool" where
  "numeric_exact d \<longleftrightarrow> - int NUMERIC_SCALE \<le> dexp d \<or> 10 ^ nat (- (dexp d + int NUMERIC_SCALE)) dvd dcoeff d"

lemma numeric_coeff_exact:
  assumes "numeric_exact d"
  shows "of_nat (numeric_coeff d) * 10 powi (- int NUMERIC_SCALE) = (of_nat (dcoeff d) * 10 powi dexp d :: rat)"
proof (cases "0 \<le> dexp d + int NUMERIC_SCALE")
  case True
  then have "(10::rat) powi dexp d = 10 ^ nat (dexp d + int NUMERIC_SCALE) * 10 powi (- int NUMERIC_SCALE)"
    using powi_split [of "- int NUMERIC_SCALE" "dexp d"] by simp
  then show ?thesis using True by (simp add: numeric_coeff_def)
next
  case False
  define j where "j = nat (- (dexp d + int NUMERIC_SCALE))"
  have j: "0 < j" "dexp d = - int NUMERIC_SCALE - int j"
    using False by (auto simp: j_def)
  from assms False obtain m where m: "dcoeff d = 10 ^ j * m"
    by (auto simp: numeric_exact_def j_def)
  have "numeric_coeff d = (10 ^ j * m + 5 * 10 ^ (j - 1)) div 10 ^ j"
    using False unfolding numeric_coeff_def Let_def m j_def [symmetric] by simp
  moreover have "5 * 10 ^ (j - 1) < (10::nat) ^ j"
    using j(1) by (cases j) auto
  ultimately have "numeric_coeff d = m"
    by simp
  moreover have "(10::rat) powi (- int NUMERIC_SCALE) = 10 ^ j * 10 powi dexp d"
    using powi_split [of "dexp d" "- int NUMERIC_SCALE"] j by simp
  ultimately show ?thesis
    by (simp add: m)
qed

lemma to_numeric_val:
  assumes "to_numeric d = Inr n" and "numeric_exact d"
  shows "val n = val d"
proof -
  have n: "n = Dec (dsign d \<and> numeric_coeff d \<noteq> 0) (numeric_coeff d) (- int NUMERIC_SCALE)"
    using assms(1) by (auto simp: to_numeric_def Let_def split: if_splits)
  show ?thesis
    using numeric_coeff_exact [OF assms(2)] by (cases d) (auto simp: n val_of_pos)
qed

definition numeric_exact_option :: "decimal option \<Rightarrow> bool" where
  "numeric_exact_option x = (case x of None \<Rightarrow> True | Some d \<Rightarrow> numeric_exact d)"

lemma to_numeric_option_eq:
  "to_numeric_option x = Inr y \<Longrightarrow> numeric_exact_option x \<Longrightarrow> dec_eq_option y x"
  by (auto simp: to_numeric_option_def numeric_exact_option_def dec_eq_option_def rbind_Inr_iff to_numeric_val
      split: option.splits)

definition exact_values :: "bar_revision_candidate \<Rightarrow> bool" where
  "exact_values c \<longleftrightarrow> numeric_exact (r_open_price c) \<and> numeric_exact (r_high_price c) \<and> numeric_exact (r_low_price c) \<and>
     numeric_exact (r_close_price c) \<and> numeric_exact_option (r_official_close_price c) \<and>
     numeric_exact_option (r_settlement_price c) \<and> numeric_exact_option (r_volume c) \<and>
     numeric_exact_option (r_quote_volume c) \<and> numeric_exact_option (r_vwap c) \<and>
     numeric_exact_option (r_open_interest c) \<and> numeric_exact_option (r_previous_close_price c)"

lemma stored_same_values:
  assumes "revision_row now no c = Inr r" and "exact_values c"
  shows "same_values r c"
  using assms
  by (auto simp: revision_row_def rbind_Inr_iff same_values_def exact_values_def to_numeric_val to_numeric_option_eq
      split: if_splits)

lemma same_values_times:
  "same_values r (c\<lparr>r_available_at := a, r_system_available_at := s, r_ingestion_batch_id := b\<rparr>) = same_values r c"
  by (simp add: same_values_def)

text \<open>Writing a bar is idempotent: after a write, writing the same values again, at any later time and from any
  batch, succeeds, reports UNCHANGED with the revision just written, and leaves the tables as they are, provided
  the values fit the 18 fraction digits of the columns.\<close>

theorem rewrite_is_unchanged:
  assumes "bar_step\<^sup>*\<^sup>* empty_bars t" and "append_revision_if_changed be now c t = Inr (t', w)" and "exact_values c"
    and "a \<le> s" and "r_is_final c \<longrightarrow> r_bar_close_ts c \<le> a"
  shows "append_revision_if_changed be' now' (c\<lparr>r_available_at := a, r_system_available_at := s, r_ingestion_batch_id := b\<rparr>) t' =
    Inr (t', \<lparr>write_status = UNCHANGED, write_revision = write_revision w\<rparr>)"
proof -
  have inv: "bar_inv t"
    by (rule bar_log.inv_steps [OF assms(1) bar_inv_empty])
  have "same_values (write_revision w) c"
    using append_cases [OF assms(2)] stored_same_values [OF _ assms(3)] by blast
  then show ?thesis
    using latest_after_append [OF inv assms(2)] assms(4,5)
    by (auto simp: append_revision_if_changed_def bar_key_def same_values_times)
qed


subsection \<open>Concrete writes\<close>

definition example_candidate :: "decimal \<Rightarrow> bar_revision_candidate" where
  "example_candidate price = \<lparr>r_bar_open_ts = 10, r_bar_series_id = 1, r_available_at = 30, r_system_available_at = 31,
     r_bar_close_ts = 20, r_trading_date = 719163, r_open_price = price, r_high_price = price, r_low_price = price,
     r_close_price = price, r_official_close_price = None, r_settlement_price = None, r_volume = None,
     r_quote_volume = None, r_trade_count = None, r_vwap = None, r_open_interest = None, r_is_final = True,
     r_quality_flags = 0, r_ingestion_batch_id = 1, r_previous_close_price = None\<rparr>"

definition example_revision :: "decimal \<Rightarrow> int \<Rightarrow> bar_revision" where
  "example_revision price no = \<lparr>r_bar_open_ts = 10, r_bar_series_id = 1, r_available_at = 30, r_system_available_at = 31,
     r_bar_close_ts = 20, r_trading_date = 719163, r_open_price = price, r_high_price = price, r_low_price = price,
     r_close_price = price, r_official_close_price = None, r_settlement_price = None, r_volume = None,
     r_quote_volume = None, r_trade_count = None, r_vwap = None, r_open_interest = None, r_is_final = True,
     r_quality_flags = 0, r_ingestion_batch_id = 1, r_previous_close_price = None, r_revision_no = no, r_recorded_at = 40\<rparr>"

definition example_timeframe :: timeframe where
  "example_timeframe = \<lparr>timeframe_id = 3, timeframe_code = u ''1d'', timeframe_display_name = u ''Daily'', duration_seconds = None, calendar_unit = u ''SESSION'', session_aligned = True\<rparr>"

definition example_series :: bar_series where
  "example_series = \<lparr>series_id = 1, series_feed_id = 7, series_instrument_id = 2, series_timeframe_id = 3,
     price_basis = u ''RAW'', adjustment_set_id = None, close_semantics = u ''LAST_TRADE'', session_code = u ''REGULAR'',
     series_metadata = [], series_created_at = 0\<rparr>"

definition example_bars :: "bar_revision list \<Rightarrow> bar_tables" where
  "example_bars rs = \<lparr>series_rows = [example_series], next_series_id = 2, revisions = rs,
     bar_months = [month_of_date 719163]\<rparr>"

lemma example_bars_reachable: "bar_step\<^sup>*\<^sup>* empty_bars (example_bars [])"
proof -
  have "get_or_create_daily_raw_series [example_timeframe] (\<lambda>_. True) (\<lambda>_. True) 0 7 2 3 None
      (ensure_month_partitions [719163] empty_bars) = Inr (example_bars [], example_series)"
    by (simp add: get_or_create_daily_raw_series_def ensure_month_partitions_def empty_bars_def example_timeframe_def
        example_bars_def example_series_def Let_def)
  from step_series [OF this] step_months [of empty_bars "[719163]"] show ?thesis
    by (meson converse_rtranclp_into_rtranclp r_into_rtranclp)
qed

lemma example_write:
  assumes "to_numeric price = Inr n" and "latest_revision (1, 10) (example_bars rs) = None \<or>
      (\<exists>l. latest_revision (1, 10) (example_bars rs) = Some l \<and> r_revision_no l = no - 1 \<and> \<not> same_values l (example_candidate price))"
    and "no = (if latest_revision (1, 10) (example_bars rs) = None then 1 else no)" and "0 < no" and "no < 100"
    and "\<forall>r \<in> set rs. r_revision_no r \<noteq> no"
  shows "append_revision_if_changed (\<lambda>_. True) 40 (example_candidate price) (example_bars rs) =
    Inr (example_bars (rs @ [example_revision n no]),
      \<lparr>write_status = (if latest_revision (1, 10) (example_bars rs) = None then INSERTED else CORRECTED),
       write_revision = example_revision n no\<rparr>)"
proof -
  have key: "bar_key (example_candidate price) = (1, 10)"
    by (simp add: bar_key_def example_candidate_def)
  have row: "revision_row 40 no (example_candidate price) = Inr (example_revision n no)"
    using assms(1,4,5) by (simp add: revision_row_def example_candidate_def example_revision_def to_numeric_option_def
        in_integer_def)
  have "utc_date 10 = 719163"
    by (simp add: utc_date_def EPOCH_ORDINAL_def)
  then have ins: "insert_revision (\<lambda>_. True) (example_revision n no) (example_bars rs) = Inr (example_bars (rs @ [example_revision n no]))"
    using assms(4,6) by (auto simp: insert_revision_def example_revision_def example_bars_def revision_row_ok_def
        nonnegative_option_def get_series_by_id_def example_series_def)
  have times: "\<not> r_system_available_at (example_candidate price) < r_available_at (example_candidate price)"
      "\<not> (r_is_final (example_candidate price) \<and> r_available_at (example_candidate price) < r_bar_close_ts (example_candidate price))"
    by (simp_all add: example_candidate_def)
  show ?thesis
    using assms(2,3) times row ins unfolding append_revision_if_changed_def Let_def key
    by (auto split: option.split)
qed

lemma latest_example_Nil: "latest_revision (1, 10) (example_bars []) = None"
  by (simp add: latest_revision_def example_bars_def)

lemma latest_example: "latest_revision (1, 10) (example_bars [example_revision p 1]) = Some (example_revision p 1)"
  by (simp add: latest_revision_def example_bars_def bar_key_def example_revision_def max_by_def)

lemma example_first_write:
  "to_numeric price = Inr n \<Longrightarrow> append_revision_if_changed (\<lambda>_. True) 40 (example_candidate price) (example_bars []) =
    Inr (example_bars [example_revision n 1], \<lparr>write_status = INSERTED, write_revision = example_revision n 1\<rparr>)"
  using example_write [of price n "[]" 1] by (simp add: latest_example_Nil)

lemma to_numeric_twelve: "to_numeric (Dec False 12 0) = Inr (Dec False 12000000000000000000 (- 18))"
  by (simp add: to_numeric_def numeric_coeff_def NUMERIC_SCALE_def)

theorem revisions_are_append_only_witness:
  "consecutive (numbers (1, 10) (revisions (example_bars [example_revision (Dec False 12000000000000000000 (- 18)) 1])))"
proof -
  have "bar_step\<^sup>*\<^sup>* (example_bars []) (example_bars [example_revision (Dec False 12000000000000000000 (- 18)) 1])"
    using step_append [OF example_first_write [OF to_numeric_twelve]] by (rule r_into_rtranclp)
  then show ?thesis
    using revisions_are_append_only [OF example_bars_reachable] by blast
qed

theorem rewrite_is_unchanged_witness:
  "append_revision_if_changed (\<lambda>_. True) 90
     ((example_candidate (Dec False 12 0))\<lparr>r_available_at := 70, r_system_available_at := 71, r_ingestion_batch_id := 5\<rparr>)
     (example_bars [example_revision (Dec False 12000000000000000000 (- 18)) 1]) =
   Inr (example_bars [example_revision (Dec False 12000000000000000000 (- 18)) 1],
     \<lparr>write_status = UNCHANGED, write_revision = example_revision (Dec False 12000000000000000000 (- 18)) 1\<rparr>)"
proof -
  have "exact_values (example_candidate (Dec False 12 0))"
    by (simp add: exact_values_def example_candidate_def numeric_exact_def numeric_exact_option_def NUMERIC_SCALE_def)
  then show ?thesis
    using rewrite_is_unchanged [OF example_bars_reachable example_first_write [OF to_numeric_twelve], of 70 71]
    by (simp add: example_candidate_def)
qed

text \<open>A value with more fraction digits than the column keeps is corrected again and again: the stored, rounded
  value never equals the candidate, so writing the very same candidate a second time appends a second revision
  and reports CORRECTED.\<close>

theorem rounded_value_is_corrected_again:
  "\<exists>t w. append_revision_if_changed (\<lambda>_. True) 40 (example_candidate (Dec False 15 (- 19)))
       (example_bars [example_revision (Dec False 2 (- 18)) 1]) = Inr (t, w) \<and>
     append_revision_if_changed (\<lambda>_. True) 40 (example_candidate (Dec False 15 (- 19))) (example_bars []) =
       Inr (example_bars [example_revision (Dec False 2 (- 18)) 1],
         \<lparr>write_status = INSERTED, write_revision = example_revision (Dec False 2 (- 18)) 1\<rparr>) \<and>
     write_status w = CORRECTED \<and> r_revision_no (write_revision w) = 2"
proof -
  have n: "to_numeric (Dec False 15 (- 19)) = Inr (Dec False 2 (- 18))"
    by (simp add: to_numeric_def numeric_coeff_def NUMERIC_SCALE_def)
  have "val (Dec False 2 (- 18)) \<noteq> val (Dec False 15 (- 19))"
    by (simp add: val_of_pos power_int_def field_simps)
  then have "\<not> same_values (example_revision (Dec False 2 (- 18)) 1) (example_candidate (Dec False 15 (- 19)))"
    by (simp add: same_values_def example_revision_def example_candidate_def)
  moreover have "r_revision_no (example_revision p k) = k" for p k
    by (simp add: example_revision_def)
  ultimately show ?thesis
    using example_write [OF n, of "[example_revision (Dec False 2 (- 18)) 1]" 2] example_first_write [OF n]
    by (simp add: latest_example)
qed

subsection \<open>Point-in-time reads see only what was available\<close>

text \<open>C27. No look-ahead in the store: the bars as of a cutoff, and the revisions a snapshot enumerates, depend only on
  the revisions whose bar has closed and that were available by the cutoff; whatever is written later under a
  later availability changes neither.\<close>

theorem point_in_time_reads_ignore_the_future:
  assumes "\<forall>r \<in> set new. cutoff < effective_at mode r"
  shows "bars_as_of ac sid f e cutoff mode (t\<lparr>revisions := revisions t @ new\<rparr>) = bars_as_of ac sid f e cutoff mode t \<and>
    eligible_revisions sid f e cutoff mode (t\<lparr>revisions := revisions t @ new\<rparr>) = eligible_revisions sid f e cutoff mode t"
proof -
  have "filter (eligible mode sid f e cutoff) new = []"
    using assms by (auto simp: filter_empty_conv eligible_def)
  then show ?thesis
    by (simp add: bars_as_of_def eligible_revisions_def get_series_by_id_def Let_def split: option.split)
qed

theorem point_in_time_reads_ignore_the_future_witness:
  "eligible_revisions 1 0 15 25 PUBLIC_REPLAY (example_bars [example_revision (Dec False 12000000000000000000 (- 18)) 1]) =
   eligible_revisions 1 0 15 25 PUBLIC_REPLAY (example_bars [])"
  using point_in_time_reads_ignore_the_future
    [of "[example_revision (Dec False 12000000000000000000 (- 18)) 1]" 25 PUBLIC_REPLAY "\<lambda>_. None" 1 0 15 "example_bars []"]
  by (simp add: effective_at_def example_revision_def example_bars_def)

end
