(* ===== verification/Json_Loads.thy ===== *)
theory Json_Loads
  imports Serialization
begin

text \<open>
  \<^verbatim>\<open>bytes.decode("utf-8")\<close> and \<^verbatim>\<open>json.loads\<close> of the standard library in the configuration the program uses:
  \<^verbatim>\<open>parse_float=Decimal\<close>, non-finite constants refused, and objects either with the last of two equal names
  winning or, with the program's \<^verbatim>\<open>object_pairs_hook\<close>, duplicates refused. The recursion runs on fuel; the
  lemmas show that the fuel \<open>json_loads\<close> gives is always enough, and that parsing what \<^verbatim>\<open>json.dumps\<close> prints gives
  the value back.
\<close>

subsection \<open>UTF-8\<close>

definition is_continuation :: "nat \<Rightarrow> bool" where
  "is_continuation b \<longleftrightarrow> 128 \<le> b \<and> b < 192"

text \<open>One code point at the head of a byte string; overlong forms, surrogates and values above U+10FFFF are refused.\<close>

definition utf8_head :: "bytes \<Rightarrow> (nat \<times> bytes) option" where
  "utf8_head s =
     (case s of [] \<Rightarrow> None
      | a # s1 \<Rightarrow>
          if a < 128 then Some (a, s1)
          else if a < 194 then None
          else (case s1 of [] \<Rightarrow> None
            | b # s2 \<Rightarrow>
                if \<not> is_continuation b then None
                else if a < 224 then Some ((a - 192) * 64 + (b - 128), s2)
                else (case s2 of [] \<Rightarrow> None
                  | c # s3 \<Rightarrow>
                      if \<not> is_continuation c then None
                      else if a < 240 then
                        (let x = (a - 224) * 4096 + (b - 128) * 64 + (c - 128) in
                         if x < 2048 \<or> (55296 \<le> x \<and> x < 57344) then None else Some (x, s3))
                      else (case s3 of [] \<Rightarrow> None
                        | d # s4 \<Rightarrow>
                            if \<not> is_continuation d \<or> 245 \<le> a then None
                            else
                              (let x = (a - 240) * 262144 + (b - 128) * 4096 + (c - 128) * 64 + (d - 128) in
                               if x < 65536 \<or> 1114112 \<le> x then None else Some (x, s4))))))"

lemma utf8_head_shorter: "utf8_head s = Some (c, r) \<Longrightarrow> length r < length s"
  by (auto simp: utf8_head_def Let_def split: list.splits if_splits)

function utf8_decode :: "bytes \<Rightarrow> pystr option" where
  "utf8_decode s =
     (if s = [] then Some []
      else (case utf8_head s of None \<Rightarrow> None
            | Some (c, r) \<Rightarrow> map_option (\<lambda>t. c # t) (utf8_decode r)))"
  by pat_completeness auto
termination
  by (relation "measure length") (auto dest: utf8_head_shorter)

declare utf8_decode.simps [simp del]

text \<open>
  \<^verbatim>\<open>decode("utf-8", errors="replace")\<close>: an ill-formed sequence becomes one U+FFFD, as long as it is the start of a
  well-formed one.
\<close>

definition second_ok :: "nat \<Rightarrow> nat \<Rightarrow> bool" where
  "second_ok a b \<longleftrightarrow>
     (if a = 224 then 160 \<le> b \<and> b < 192
      else if a = 237 then 128 \<le> b \<and> b < 160
      else if a = 240 then 144 \<le> b \<and> b < 192
      else if a = 244 then 128 \<le> b \<and> b < 144
      else is_continuation b)"

definition ill_formed :: "bytes \<Rightarrow> nat" where
  "ill_formed s =
     (case s of a # b # rest \<Rightarrow>
        if a < 224 \<or> 244 < a \<or> \<not> second_ok a b then 1
        else if a < 240 then 2
        else (case rest of c # _ \<Rightarrow> if is_continuation c then 3 else 2 | [] \<Rightarrow> 2)
      | _ \<Rightarrow> 1)"

function utf8_decode_replace :: "bytes \<Rightarrow> pystr" where
  "utf8_decode_replace s =
     (if s = [] then []
      else (case utf8_head s of
              Some (c, r) \<Rightarrow> c # utf8_decode_replace r
            | None \<Rightarrow> 65533 # utf8_decode_replace (drop (ill_formed s) s)))"
  by pat_completeness auto
termination
  by (relation "measure length") (auto dest: utf8_head_shorter simp: ill_formed_def split: list.split)

declare utf8_decode_replace.simps [simp del]

text \<open>\<^verbatim>\<open>decode("utf-8-sig")\<close> drops one leading byte order mark.\<close>

definition utf8_sig_decode :: "bytes \<Rightarrow> pystr option" where
  "utf8_sig_decode s = utf8_decode (if take 3 s = [239, 187, 191] then drop 3 s else s)"

subsection \<open>Strings and numbers\<close>

datatype json_error = JsonSyntax | JsonConstant | JsonDuplicate | JsonIntTooLong | JsonNumberRange | JsonOutOfFuel

definition hex_value :: "nat \<Rightarrow> nat option" where
  "hex_value c =
     (if 48 \<le> c \<and> c \<le> 57 then Some (c - 48)
      else if 97 \<le> c \<and> c \<le> 102 then Some (c - 87)
      else if 65 \<le> c \<and> c \<le> 70 then Some (c - 55)
      else None)"

definition hex4 :: "pystr \<Rightarrow> (nat \<times> pystr) option" where
  "hex4 s =
     (case s of a # b # c # d # r \<Rightarrow>
        (case (hex_value a, hex_value b, hex_value c, hex_value d) of
           (Some w, Some x, Some y, Some z) \<Rightarrow> Some (w * 4096 + x * 256 + y * 16 + z, r)
         | _ \<Rightarrow> None)
      | _ \<Rightarrow> None)"

definition escaped :: "nat \<Rightarrow> nat option" where
  "escaped c =
     (if c = 34 then Some 34 else if c = 92 then Some 92 else if c = 47 then Some 47
      else if c = 98 then Some 8 else if c = 102 then Some 12 else if c = 110 then Some 10
      else if c = 114 then Some 13 else if c = 116 then Some 9 else None)"

text \<open>After \<^verbatim>\<open>\u\<close>: four hexadecimal digits, and the second half of a surrogate pair when one follows.\<close>

definition unicode_escape :: "pystr \<Rightarrow> (nat \<times> pystr) option" where
  "unicode_escape s =
     (case hex4 s of None \<Rightarrow> None
      | Some (c, r) \<Rightarrow>
          if 55296 \<le> c \<and> c < 56320 \<and> take 2 r = [92, 117]
          then (case hex4 (drop 2 r) of
                  None \<Rightarrow> None
                | Some (c2, r2) \<Rightarrow>
                    if 56320 \<le> c2 \<and> c2 < 57344 then Some (65536 + (c - 55296) * 1024 + (c2 - 56320), r2)
                    else Some (c, r))
          else Some (c, r))"

lemma hex4_shorter: "hex4 s = Some (c, r) \<Longrightarrow> length s = length r + 4"
  by (auto simp: hex4_def split: list.splits option.splits)

lemma unicode_escape_shorter: "unicode_escape s = Some (c, r) \<Longrightarrow> length r < length s"
  by (auto simp: unicode_escape_def dest: hex4_shorter split: option.splits if_splits dest!: hex4_shorter)

function scan_string :: "pystr \<Rightarrow> (pystr \<times> pystr) option" where
  "scan_string [] = None"
| "scan_string (c # cs) =
     (if c = 34 then Some ([], cs)
      else if c = 92 then
        (case cs of [] \<Rightarrow> None
         | e # es \<Rightarrow>
             if e = 117 then
               (case unicode_escape es of None \<Rightarrow> None
                | Some (x, r) \<Rightarrow> map_option (\<lambda>(t, r'). (x # t, r')) (scan_string r))
             else
               (case escaped e of None \<Rightarrow> None
                | Some x \<Rightarrow> map_option (\<lambda>(t, r'). (x # t, r')) (scan_string es)))
      else if c < 32 then None
      else map_option (\<lambda>(t, r'). (c # t, r')) (scan_string cs))"
  by pat_completeness auto
termination
  by (relation "measure length") (auto dest: unicode_escape_shorter)

definition is_digit :: "nat \<Rightarrow> bool" where
  "is_digit c \<longleftrightarrow> 48 \<le> c \<and> c \<le> 57"

text \<open>The number regular expression: sign, integer part, fraction digits, exponent.\<close>

definition scan_fraction :: "pystr \<Rightarrow> pystr option \<times> pystr" where
  "scan_fraction s =
     (case s of c # cs \<Rightarrow>
        if c = 46 \<and> takeWhile is_digit cs \<noteq> [] then (Some (takeWhile is_digit cs), dropWhile is_digit cs) else (None, s)
      | [] \<Rightarrow> (None, s))"

definition scan_exponent :: "pystr \<Rightarrow> int option \<times> pystr" where
  "scan_exponent s =
     (case s of c # cs \<Rightarrow>
        (if c = 101 \<or> c = 69 then
           (let (neg, ds) = (case cs of d # r \<Rightarrow> if d = 45 then (True, r) else if d = 43 then (False, r) else (False, cs)
                             | [] \<Rightarrow> (False, cs));
                e = takeWhile is_digit ds in
            if e = [] then (None, s)
            else (Some (if neg then - int (digits_value e) else int (digits_value e)), dropWhile is_digit ds))
         else (None, s))
      | [] \<Rightarrow> (None, s))"

definition MAX_STR_DIGITS :: nat where
  "MAX_STR_DIGITS = 4300"

definition MAX_EMAX :: int where
  "MAX_EMAX = 999999999999999999"

definition MIN_ETINY :: int where
  "MIN_ETINY = -1999999999999999997"

definition number_value :: "bool \<Rightarrow> pystr \<Rightarrow> pystr option \<Rightarrow> int option \<Rightarrow> (json_error, pyval) result" where
  "number_value neg ip fr ex =
     (case (fr, ex) of
        (None, None) \<Rightarrow>
          if MAX_STR_DIGITS < length ip then Inl JsonIntTooLong
          else Inr (PyInt (if neg then - int (digits_value ip) else int (digits_value ip)))
      | _ \<Rightarrow>
          let fp = (case fr of None \<Rightarrow> [] | Some f \<Rightarrow> f);
              e = (case ex of None \<Rightarrow> 0 | Some x \<Rightarrow> x) - int (length fp);
              c = digits_value (ip @ fp) in
          if MAX_EMAX < e + int (ndigits c) - 1 \<or> e < MIN_ETINY then Inl JsonNumberRange
          else Inr (PyDec (Dec neg c e)))"

definition scan_unsigned :: "bool \<Rightarrow> pystr \<Rightarrow> (json_error, pyval \<times> pystr) result" where
  "scan_unsigned neg ds =
     (if ds = [] \<or> \<not> is_digit (hd ds) then Inl JsonSyntax
      else
        let ip = (if hd ds = 48 then [48] else takeWhile is_digit ds);
            fr = scan_fraction (drop (length ip) ds);
            ex = scan_exponent (snd fr) in
        rbind (number_value neg ip (fst fr) (fst ex)) (\<lambda>v. Inr (v, snd ex)))"

definition scan_number :: "pystr \<Rightarrow> (json_error, pyval \<times> pystr) result" where
  "scan_number s = (if take 1 s = [45] then scan_unsigned True (drop 1 s) else scan_unsigned False s)"

subsection \<open>Values\<close>

definition ws :: "pystr \<Rightarrow> pystr" where
  "ws s = dropWhile (\<lambda>c. c = 32 \<or> c = 9 \<or> c = 10 \<or> c = 13) s"

definition literal :: "string \<Rightarrow> pystr \<Rightarrow> bool" where
  "literal l s \<longleftrightarrow> take (length l) s = u l"

text \<open>\<open>dups\<close> says whether two equal names in one object are refused.\<close>

fun parse_value :: "bool \<Rightarrow> nat \<Rightarrow> pystr \<Rightarrow> (json_error, pyval \<times> pystr) result"
  and parse_items :: "bool \<Rightarrow> nat \<Rightarrow> pystr \<Rightarrow> (json_error, pyval list \<times> pystr) result"
  and parse_members :: "bool \<Rightarrow> nat \<Rightarrow> (pystr, pyval) dict \<Rightarrow> pystr \<Rightarrow> (json_error, (pystr, pyval) dict \<times> pystr) result" where
  "parse_value dups 0 s = Inl JsonOutOfFuel"
| "parse_value dups (Suc n) s =
     (case s of [] \<Rightarrow> Inl JsonSyntax
      | c # cs \<Rightarrow>
          if c = 34 then (case scan_string cs of None \<Rightarrow> Inl JsonSyntax | Some (t, r) \<Rightarrow> Inr (PyStr t, r))
          else if c = 123 then
            (case ws cs of [] \<Rightarrow> Inl JsonSyntax
             | d # ds \<Rightarrow>
                 if d = 125 then Inr (PyDict [], ds)
                 else rbind (parse_members dups n [] (d # ds)) (\<lambda>(fs, r). Inr (PyDict fs, r)))
          else if c = 91 then
            (case ws cs of [] \<Rightarrow> Inl JsonSyntax
             | d # ds \<Rightarrow>
                 if d = 93 then Inr (PyList [], ds)
                 else rbind (parse_items dups n (d # ds)) (\<lambda>(vs, r). Inr (PyList vs, r)))
          else if literal ''null'' s then Inr (PyNone, drop 4 s)
          else if literal ''true'' s then Inr (PyBool True, drop 4 s)
          else if literal ''false'' s then Inr (PyBool False, drop 5 s)
          else if literal ''NaN'' s \<or> literal ''Infinity'' s \<or> literal ''-Infinity'' s then Inl JsonConstant
          else scan_number s)"
| "parse_items dups 0 s = Inl JsonOutOfFuel"
| "parse_items dups (Suc n) s =
     rbind (parse_value dups n s) (\<lambda>(v, r).
       case ws r of [] \<Rightarrow> Inl JsonSyntax
       | c # cs \<Rightarrow>
           if c = 93 then Inr ([v], cs)
           else if c = 44 then rbind (parse_items dups n (ws cs)) (\<lambda>(vs, r). Inr (v # vs, r))
           else Inl JsonSyntax)"
| "parse_members dups 0 acc s = Inl JsonOutOfFuel"
| "parse_members dups (Suc n) acc s =
     (case s of [] \<Rightarrow> Inl JsonSyntax
      | q # qs \<Rightarrow>
          if q \<noteq> 34 then Inl JsonSyntax
          else (case scan_string qs of None \<Rightarrow> Inl JsonSyntax
            | Some (k, r) \<Rightarrow>
                (case ws r of [] \<Rightarrow> Inl JsonSyntax
                 | c # cs \<Rightarrow>
                     if c \<noteq> 58 then Inl JsonSyntax
                     else rbind (parse_value dups n (ws cs)) (\<lambda>(v, r).
                       case ws r of [] \<Rightarrow> Inl JsonSyntax
                       | e # es \<Rightarrow>
                           let acc' = acc @ [(k, v)] in
                           if e = 125 then
                             (if dups \<and> \<not> distinct (map fst acc') then Inl JsonDuplicate
                              else Inr (foldl (\<lambda>d (k, v). dict_set d k v) [] acc', es))
                           else if e = 44 then parse_members dups n acc' (ws es)
                           else Inl JsonSyntax))))"

definition json_loads :: "bool \<Rightarrow> pystr \<Rightarrow> (json_error, pyval) result" where
  "json_loads dups s =
     (if take 1 s = [65279] then Inl JsonSyntax
      else
        rbind (parse_value dups (2 * length s + 2) (ws s)) (\<lambda>(v, r).
          if ws r = [] then Inr v else Inl JsonSyntax))"

subsection \<open>The fuel is enough\<close>

lemma ws_shorter: "length (ws s) \<le> length s"
  by (simp add: ws_def length_dropWhile_le)

lemma ws_Cons_shorter: "ws s = c # cs \<Longrightarrow> length cs < length s"
  using ws_shorter [of s] by simp

lemma scan_string_shorter: "scan_string s = Some (t, r) \<Longrightarrow> length r < length s"
  by (induction s arbitrary: t r rule: scan_string.induct)
    (auto split: if_splits list.splits option.splits dest!: unicode_escape_shorter, fastforce+)

lemma scan_fraction_shorter: "scan_fraction s = (f, r) \<Longrightarrow> length r \<le> length s"
  by (auto simp: scan_fraction_def length_dropWhile_le le_SucI split: list.splits if_splits)

lemma scan_exponent_shorter: "scan_exponent s = (f, r) \<Longrightarrow> length r \<le> length s"
  by (auto simp: scan_exponent_def Let_def length_dropWhile_le le_SucI split: list.splits if_splits prod.splits)

lemma scan_unsigned_shorter:
  assumes "scan_unsigned neg ds = Inr (v, r)"
  shows "length r < length ds"
proof -
  define ip where "ip = (if hd ds = 48 then [48] else takeWhile is_digit ds)"
  have d: "ds \<noteq> []" "is_digit (hd ds)"
    using assms by (auto simp: scan_unsigned_def split: if_splits)
  then have ip: "0 < length ip" by (cases ds) (auto simp: ip_def)
  have "r = snd (scan_exponent (snd (scan_fraction (drop (length ip) ds))))"
    using assms d by (auto simp: scan_unsigned_def ip_def [symmetric] Let_def rbind_Inr_iff)
  then have "length r \<le> length (drop (length ip) ds)"
    using scan_fraction_shorter [OF prod.collapse [symmetric]] scan_exponent_shorter [OF prod.collapse [symmetric]]
    by (meson order_trans)
  moreover have "0 < length ds" using d by simp
  ultimately show ?thesis using ip unfolding length_drop by linarith
qed

lemma scan_number_shorter: "scan_number s = Inr (v, r) \<Longrightarrow> length r < length s"
  by (auto simp: scan_number_def dest!: scan_unsigned_shorter split: if_splits)

lemma number_value_fuel: "number_value neg ip fr ex \<noteq> Inl JsonOutOfFuel"
  by (simp add: number_value_def Let_def split: option.split)

lemma scan_number_fuel: "scan_number s \<noteq> Inl JsonOutOfFuel"
  using number_value_fuel by (auto simp: scan_number_def scan_unsigned_def Let_def rbind_def split: sum.splits)

text \<open>What is left after a value is shorter than what was read.\<close>

lemma parse_shorter:
  "parse_value d n s = Inr (v, r) \<Longrightarrow> length r < length s"
  "parse_items d n s = Inr (vs, r) \<Longrightarrow> length r < length s"
  "parse_members d n acc s = Inr (fs, r) \<Longrightarrow> length r < length s"
proof (induction n arbitrary: s v r vs fs acc)
  case (Suc n)
  {
    case 1
    then obtain c cs where s: "s = c # cs" by (cases s) auto
    from 1 consider t where "scan_string cs = Some (t, r)"
      | d' ds fs where "ws cs = d' # ds" "r = ds \<or> parse_members d n [] (d' # ds) = Inr (fs, r)"
      | d' ds vs where "ws cs = d' # ds" "r = ds \<or> parse_items d n (d' # ds) = Inr (vs, r)"
      | "r = drop 4 s \<or> r = drop 5 s" | "scan_number s = Inr (v, r)"
      by (auto simp: s rbind_Inr_iff split: if_splits list.splits option.splits) blast
    then show ?case
    proof cases
      case 1
      then show ?thesis using scan_string_shorter s by fastforce
    next
      case 2
      then show ?thesis using Suc.IH(3) ws_Cons_shorter [of cs] ws_shorter [of cs] s by fastforce
    next
      case 3
      then show ?thesis using Suc.IH(2) ws_Cons_shorter [of cs] ws_shorter [of cs] s by fastforce
    next
      case 4
      then show ?thesis using s by auto
    next
      case 5
      then show ?thesis by (rule scan_number_shorter)
    qed
  next
    case 2
    then obtain v r1 where v: "parse_value d n s = Inr (v, r1)"
      by (cases "parse_value d n s") auto
    then obtain c cs where c: "ws r1 = c # cs"
      using 2 by (cases "ws r1") auto
    have r: "r = cs \<or> (\<exists>vs. parse_items d n (ws cs) = Inr (vs, r))"
      using 2 v c by (auto simp: rbind_Inr_iff split: if_splits)
    have "length cs < length s"
      using Suc.IH(1) [OF v] ws_Cons_shorter [OF c] by simp
    then show ?case
      using r Suc.IH(2) ws_shorter [of cs] by fastforce
  next
    case 3
    then obtain q qs where s: "s = q # qs" by (cases s) auto
    then obtain k r1 where k: "scan_string qs = Some (k, r1)"
      using 3 by (cases "scan_string qs") (auto split: if_splits)
    then obtain c cs where c: "ws r1 = c # cs"
      using 3 s by (cases "ws r1") (auto split: if_splits)
    then obtain v r2 where v: "parse_value d n (ws cs) = Inr (v, r2)"
      using 3 s k by (cases "parse_value d n (ws cs)") (auto split: if_splits)
    then obtain e es where e: "ws r2 = e # es"
      using 3 s k c by (cases "ws r2") (auto split: if_splits)
    have r: "r = es \<or> (\<exists>acc fs. parse_members d n acc (ws es) = Inr (fs, r))"
      using 3 s k c v e by (auto simp: Let_def split: if_splits)
    have "length es < length s"
      using Suc.IH(1) [OF v] ws_Cons_shorter [OF e] ws_Cons_shorter [OF c] ws_shorter [of cs] scan_string_shorter [OF k]
      by (simp add: s)
    then show ?case
      using r Suc.IH(3) ws_shorter [of es] by fastforce
  }
qed simp_all

lemma rbind_Inl_iff: "rbind r f = Inl e \<longleftrightarrow> r = Inl e \<or> (\<exists>a. r = Inr a \<and> f a = Inl e)"
  by (cases r) simp_all

lemma parse_fuel:
  "2 * length s < n \<Longrightarrow> parse_value d n s \<noteq> Inl JsonOutOfFuel"
  "2 * length s + 1 < n \<Longrightarrow> parse_items d n s \<noteq> Inl JsonOutOfFuel"
  "2 * length s + 1 < n \<Longrightarrow> parse_members d n acc s \<noteq> Inl JsonOutOfFuel"
proof (induction n arbitrary: s acc)
  case (Suc n)
  {
    case 1
    show ?case
    proof (cases s)
      case (Cons c cs)
      have "parse_members d n [] (ws cs) \<noteq> Inl JsonOutOfFuel" "parse_items d n (ws cs) \<noteq> Inl JsonOutOfFuel"
        using 1 ws_shorter [of cs] Cons by (auto intro!: Suc.IH(2,3))
      then show ?thesis
        using scan_number_fuel [of s] Cons by (auto simp: rbind_Inl_iff split: list.splits option.splits)
    qed simp
  next
    case 2
    have v: "parse_value d n s \<noteq> Inl JsonOutOfFuel"
      using 2 by (intro Suc.IH(1)) simp
    have "parse_items d n (ws cs) \<noteq> Inl JsonOutOfFuel" if "parse_value d n s = Inr (w, r)" "ws r = c # cs" for w r c cs
      using 2 parse_shorter(1) [OF that(1)] ws_Cons_shorter [OF that(2)] ws_shorter [of cs] by (intro Suc.IH(2)) simp
    with v show ?case
      by (auto simp: rbind_Inl_iff split: list.splits)
  next
    case 3
    show ?case
    proof (cases s)
      case s: (Cons q qs)
      have v: "parse_value d n (ws cs) \<noteq> Inl JsonOutOfFuel"
        if "scan_string qs = Some (k, r)" "ws r = c # cs" for k r c cs
        using 3 s scan_string_shorter [OF that(1)] ws_Cons_shorter [OF that(2)] ws_shorter [of cs]
        by (intro Suc.IH(1)) simp
      have m: "parse_members d n acc' (ws es) \<noteq> Inl JsonOutOfFuel"
        if "scan_string qs = Some (k, r)" "ws r = c # cs" "parse_value d n (ws cs) = Inr (w, r2)" "ws r2 = e # es"
        for k r c cs w r2 e es acc'
        using 3 s scan_string_shorter [OF that(1)] ws_Cons_shorter [OF that(2)] ws_shorter [of cs]
          parse_shorter(1) [OF that(3)] ws_Cons_shorter [OF that(4)] ws_shorter [of es]
        by (intro Suc.IH(3)) simp
      from v m show ?thesis
        by (auto simp: s rbind_Inl_iff Let_def split: list.splits option.splits)
    qed simp
  }
qed simp_all

lemma json_loads_fuel: "json_loads d s \<noteq> Inl JsonOutOfFuel"
proof -
  have "parse_value d (2 * length s + 2) (ws s) \<noteq> Inl JsonOutOfFuel"
    using ws_shorter [of s] by (intro parse_fuel(1)) simp
  then show ?thesis
    by (auto simp: json_loads_def rbind_Inl_iff split: if_splits)
qed

subsection \<open>Parsing what was printed\<close>

lemma hex_value_digit: "d < 16 \<Longrightarrow> hex_value (hex_digit d) = Some d"
  by (auto simp: hex_value_def hex_digit_def)

lemma scan_escape: "scan_string (escape_char c @ r) = map_option (\<lambda>(t, r'). (c # t, r')) (scan_string r)"
proof (cases "c < 32")
  case True
  have "hex_value 48 = Some 0" by (simp add: hex_value_def)
  moreover have "hex_value (hex_digit (c div 16)) = Some (c div 16)" "hex_value (hex_digit (c mod 16)) = Some (c mod 16)"
    using True by (simp_all add: hex_value_digit)
  ultimately have "unicode_escape (48 # 48 # hex_digit (c div 16) # hex_digit (c mod 16) # r) = Some (c, r)"
    using True by (simp add: unicode_escape_def hex4_def)
  then show ?thesis
    by (simp add: escape_char_def escaped_def)
next
  case False
  then show ?thesis
    by (simp add: escape_char_def escaped_def)
qed

lemma scan_dumped: "scan_string (concat (map escape_char s) @ 34 # r) = Some (s, r)"
  by (induction s) (simp_all add: scan_escape)

lemma hd_digits: "hd (digits n) = 48 \<longleftrightarrow> n = 0"
proof (induction n rule: digits.induct)
  case (1 n)
  then show ?case
    by (subst digits.simps) (auto simp: hd_append)
qed

definition number_stop :: "pystr \<Rightarrow> bool" where
  "number_stop r \<longleftrightarrow> (r = [] \<or> (\<not> is_digit (hd r) \<and> hd r \<notin> {46, 101, 69}))"

lemma digits_all: "c \<in> set (digits n) \<Longrightarrow> is_digit c"
  using set_digits [of n] by (auto simp: is_digit_def)

lemma scan_digits:
  assumes "number_stop r" and "length (digits n) \<le> MAX_STR_DIGITS"
  shows "scan_unsigned neg (digits n @ r) = Inr (PyInt (if neg then - int n else int n), r)"
proof -
  have hd: "is_digit (hd (digits n))" using digits_all [of "hd (digits n)" n] by simp
  have tw: "takeWhile is_digit (digits n @ r) = digits n"
    using assms(1) digits_all by (cases r) (auto simp: number_stop_def takeWhile_append)
  have "(if hd (digits n) = 48 then [48] else takeWhile is_digit (digits n @ r)) = digits n"
    by (cases "n = 0") (simp_all add: hd_digits tw, simp add: digits.simps)
  moreover have "scan_fraction r = (None, r)" "scan_exponent r = (None, r)"
    using assms(1) by (auto simp: scan_fraction_def scan_exponent_def number_stop_def split: list.splits)
  ultimately show ?thesis
    using assms(2) hd by (simp add: scan_unsigned_def Let_def number_value_def)
qed

lemma scan_str_int:
  assumes "number_stop r" and "length (digits (nat \<bar>i\<bar>)) \<le> MAX_STR_DIGITS"
  shows "scan_number (str_int i @ r) = Inr (PyInt i, r)"
proof (cases "i < 0")
  case True
  then show ?thesis
    using scan_digits [OF assms, of True] by (simp add: scan_number_def str_int_def)
next
  case False
  moreover have "take 1 (digits (nat i) @ r) \<noteq> [45]"
    using digits_all [of "hd (digits (nat i))" "nat i"] by (cases "digits (nat i)") (auto simp: is_digit_def)
  ultimately show ?thesis
    using scan_digits [OF assms, of False] by (simp add: scan_number_def str_int_def)
qed

text \<open>The value \<^verbatim>\<open>json.loads\<close> gives for a printed one: objects come back with their names sorted.\<close>

fun loaded :: "json \<Rightarrow> pyval" where
  "loaded JNull = PyNone"
| "loaded (JBool b) = PyBool b"
| "loaded (JInt i) = PyInt i"
| "loaded (JStr s) = PyStr s"
| "loaded (JList js) = PyList (map loaded js)"
| "loaded (JObj fs) = PyDict (sort_key fst (map (\<lambda>(k, v). (k, loaded v)) fs))"

text \<open>Objects with distinct names and integers within the limit for conversion.\<close>

fun printable :: "json \<Rightarrow> bool" where
  "printable (JInt i) = (length (digits (nat \<bar>i\<bar>)) \<le> MAX_STR_DIGITS)"
| "printable (JList js) = list_all printable js"
| "printable (JObj fs) = (distinct (map fst fs) \<and> list_all (\<lambda>(k, v). printable v) fs)"
| "printable _ = True"

lemma insort_key_map: "insort_key f (g x) (map g xs) = map g (insort_key (\<lambda>y. f (g y)) x xs)"
  by (induction xs) simp_all

lemma sort_key_map: "sort_key f (map g xs) = map g (sort_key (\<lambda>y. f (g y)) xs)"
  by (induction xs) (simp_all add: insort_key_map)

lemma sort_fields: "sort_key fst (map (\<lambda>(k, v). (k, h v)) fs) = map (\<lambda>(k, v). (k, h v)) (sort_key fst fs)"
  by (subst sort_key_map) (simp add: case_prod_unfold)

definition value_start :: "nat \<Rightarrow> bool" where
  "value_start c \<longleftrightarrow> c \<notin> {32, 9, 10, 13, 93, 125, 65279}"

lemma dumps_start: "\<exists>c cs. dumps j = c # cs \<and> value_start c"
proof (cases j)
  case (JInt i)
  have "\<exists>c cs. digits n = c # cs \<and> value_start c" for n
    using digits_all [of "hd (digits n)" n] by (cases "digits n") (auto simp: is_digit_def value_start_def)
  then show ?thesis
    by (auto simp: JInt str_int_def value_start_def)
qed (auto simp: dumps_str_def value_start_def)

lemma ws_start: "value_start c \<Longrightarrow> ws (c # cs) = c # cs"
  by (auto simp: ws_def value_start_def)

lemma ws_dumps: "ws (dumps j @ r) = dumps j @ r"
  using dumps_start [of j] by (auto simp: ws_start)

lemma parse_items_dumped:
  assumes "\<And>j r n. j \<in> set js \<Longrightarrow> number_stop r \<Longrightarrow> 2 * length (dumps j @ r) < n \<Longrightarrow>
      parse_value d n (dumps j @ r) = Inr (loaded j, r)"
    and "js \<noteq> []" and "2 * length (join [44] (map dumps js) @ 93 # r) + 1 < n"
  shows "parse_items d n (join [44] (map dumps js) @ 93 # r) = Inr (map loaded js, r)"
  using assms
proof (induction js arbitrary: n)
  case (Cons j js)
  obtain m where n: "n = Suc m" using Cons.prems(3) by (cases n) auto
  show ?case
  proof (cases js)
    case Nil
    have "parse_value d m (dumps j @ 93 # r) = Inr (loaded j, 93 # r)"
      using Cons.prems(3) n Nil by (intro Cons.prems(1)) (simp_all add: number_stop_def is_digit_def)
    then show ?thesis using Nil n by (simp add: ws_def)
  next
    case (Cons j' js')
    let ?rest = "join [44] (map dumps js) @ 93 # r"
    have eq: "join [44] (map dumps (j # js)) @ 93 # r = dumps j @ 44 # ?rest"
      using Cons by simp
    have v: "parse_value d m (dumps j @ 44 # ?rest) = Inr (loaded j, 44 # ?rest)"
      using Cons.prems(3) n unfolding eq by (intro Cons.prems(1)) (simp_all add: number_stop_def is_digit_def)
    have "ws ?rest = ?rest"
      using Cons ws_dumps [of j'] by (cases js') simp_all
    moreover have "parse_items d m ?rest = Inr (map loaded js, r)"
      using Cons.prems n Cons unfolding eq by (intro Cons.IH) simp_all
    ultimately show ?thesis
      unfolding eq n using v by (simp add: ws_def [of "44 # _"])
  qed
qed simp

lemma fold_dict_set_distinct:
  "distinct (map fst (acc @ fs)) \<Longrightarrow> foldl (\<lambda>d (k, v). dict_set d k v) acc fs = acc @ fs"
proof (induction fs arbitrary: acc)
  case (Cons f fs)
  obtain k v where f: "f = (k, v)" by (cases f)
  have "dict_set acc k v = acc @ [(k, v)]" if "k \<notin> fst ` set acc" for acc :: "('a \<times> 'b) list"
    using that by (induction acc) auto
  then have "dict_set acc k v = acc @ [(k, v)]"
    using Cons.prems f by auto
  then show ?case
    using Cons f by simp
qed simp

definition field_text :: "pystr \<times> json \<Rightarrow> pystr" where
  "field_text = (\<lambda>(k, v). dumps_str k @ [58] @ dumps v)"

lemma parse_members_dumped:
  assumes "\<And>k j r n. (k, j) \<in> set fs \<Longrightarrow> number_stop r \<Longrightarrow> 2 * length (dumps j @ r) < n \<Longrightarrow>
      parse_value d n (dumps j @ r) = Inr (loaded j, r)"
    and "fs \<noteq> []" and "2 * length (join [44] (map field_text fs) @ 125 # r) + 1 < n"
    and "distinct (map fst (acc @ map (\<lambda>(k, v). (k, loaded v)) fs))"
  shows "parse_members d n acc (join [44] (map field_text fs) @ 125 # r) =
    Inr (acc @ map (\<lambda>(k, v). (k, loaded v)) fs, r)"
  using assms
proof (induction fs arbitrary: n acc)
  case (Cons f fs)
  obtain k j where f: "f = (k, j)" by (cases f)
  obtain m where n: "n = Suc m" using Cons.prems(3) by (cases n) auto
  have head: "field_text f @ t = 34 # concat (map escape_char k) @ 34 # 58 # dumps j @ t" for t
    by (simp add: field_text_def f dumps_str_def)
  have all: "foldl (\<lambda>d (k, v). dict_set d k v) [] (acc @ [(k, loaded j)]) = acc @ [(k, loaded j)]"
      "distinct (map fst (acc @ [(k, loaded j)]))"
    using Cons.prems(4) f fold_dict_set_distinct [of "[]" "acc @ [(k, loaded j)]"] by auto
  show ?case
  proof (cases fs)
    case Nil
    have "parse_value d m (dumps j @ 125 # r) = Inr (loaded j, 125 # r)"
      using Cons.prems(3) n Nil head [of "125 # r"] f
      by (intro Cons.prems(1) [of k]) (simp_all add: number_stop_def is_digit_def)
    then show ?thesis
      using Nil n all f by (simp add: head [unfolded f] scan_dumped ws_dumps ws_def [of "58 # _"] ws_def [of "125 # _"] Let_def del: foldl_append)
  next
    case (Cons f' fs')
    let ?rest = "join [44] (map field_text fs) @ 125 # r"
    have eq: "join [44] (map field_text (f # fs)) @ 125 # r = field_text f @ 44 # ?rest"
      using Cons by simp
    have v: "parse_value d m (dumps j @ 44 # ?rest) = Inr (loaded j, 44 # ?rest)"
      using Cons.prems(3) n f unfolding eq head by (intro Cons.prems(1) [of k]) (simp_all add: number_stop_def is_digit_def)
    have "ws ?rest = ?rest"
      using Cons by (cases fs') (simp_all add: field_text_def dumps_str_def ws_def split: prod.split)
    moreover have "parse_members d m (acc @ [(k, loaded j)]) ?rest = Inr ((acc @ [(k, loaded j)]) @ map (\<lambda>(k, v). (k, loaded v)) fs, r)"
    proof (rule Cons.IH)
      show "parse_value d n (dumps j @ r) = Inr (loaded j, r)"
        if "(k, j) \<in> set fs" "number_stop r" "2 * length (dumps j @ r) < n" for k j r n
        using that by (intro Cons.prems(1) [of k]) simp_all
      show "2 * length ?rest + 1 < m"
        using Cons.prems(3) unfolding eq n by simp
    qed (use Cons Cons.prems(4) f in simp_all)
    ultimately show ?thesis
      unfolding eq n head using v f
      by (simp add: scan_dumped ws_dumps ws_def [of "44 # _"] ws_def [of "58 # _"] Let_def)
  qed
qed simp

lemma digits_start: "\<exists>c cs. digits n = c # cs \<and> is_digit c"
  using digits_all [of "hd (digits n)" n] by (cases "digits n") auto

lemma str_int_start:
  "\<exists>c cs. str_int i = c # cs \<and> (is_digit c \<or> c = 45 \<and> (\<exists>e es. cs = e # es \<and> is_digit e))"
  using digits_start [of "nat i"] digits_start [of "nat (- i)"] by (cases "i < 0") (auto simp: str_int_def)

lemma literal_hd: "literal l s \<Longrightarrow> l \<noteq> [] \<Longrightarrow> take 1 s = [of_char (hd l)]"
  by (cases s; cases l) (auto simp: literal_def)

lemma literal_second: "literal (x # y # l) (c # e # es) \<Longrightarrow> e = of_char y"
  by (simp add: literal_def)

lemma parse_value_number:
  assumes "c \<notin> {34, 123, 91, 110, 116, 102, 78, 73}" and "\<not> literal ''-Infinity'' (c # cs)"
  shows "parse_value d (Suc n) (c # cs) = scan_number (c # cs)"
proof -
  have "\<not> literal ''null'' (c # cs)" "\<not> literal ''true'' (c # cs)" "\<not> literal ''false'' (c # cs)"
      "\<not> literal ''NaN'' (c # cs)" "\<not> literal ''Infinity'' (c # cs)"
    using assms(1) by (auto dest!: literal_hd)
  then show ?thesis
    using assms by simp
qed

lemma parse_int:
  assumes "number_stop r" and "length (digits (nat \<bar>i\<bar>)) \<le> MAX_STR_DIGITS"
  shows "parse_value d (Suc n) (str_int i @ r) = Inr (PyInt i, r)"
proof -
  from str_int_start [of i]
  obtain c cs where c: "str_int i = c # cs" "is_digit c \<or> c = 45 \<and> (\<exists>e es. cs = e # es \<and> is_digit e)"
    by (elim exE conjE)
  have "\<not> literal ''-Infinity'' (c # cs @ r)"
    using c(2) literal_hd [of "''-Infinity''" "c # cs @ r"]
    by (auto simp: is_digit_def dest!: literal_second)
  moreover have "c \<notin> {34, 123, 91, 110, 116, 102, 78, 73}"
    using c(2) by (auto simp: is_digit_def)
  ultimately show ?thesis
    using scan_str_int [OF assms] parse_value_number [of c "cs @ r" d n] by (simp add: c(1) del: parse_value.simps)
qed

lemma parse_literals:
  "parse_value d (Suc n) (u ''null'' @ r) = Inr (PyNone, r)"
  "parse_value d (Suc n) (u ''true'' @ r) = Inr (PyBool True, r)"
  "parse_value d (Suc n) (u ''false'' @ r) = Inr (PyBool False, r)"
  by (simp_all add: literal_def)

lemma parse_dumped:
  "printable j \<Longrightarrow> number_stop r \<Longrightarrow> 2 * length (dumps j @ r) < n \<Longrightarrow> parse_value d n (dumps j @ r) = Inr (loaded j, r)"
proof (induction j arbitrary: r n)
  case (JInt i)
  then obtain m where "n = Suc m" by (cases n) auto
  then show ?case using JInt parse_int [of r i] by simp
next
  case (JStr s)
  then obtain m where "n = Suc m" by (cases n) auto
  then show ?case by (simp add: dumps_str_def scan_dumped)
next
  case (JList js)
  then obtain m where n: "n = Suc m" by (cases n) auto
  show ?case
  proof (cases js)
    case Nil
    then show ?thesis by (simp add: n ws_def)
  next
    case (Cons j' js')
    let ?t = "join [44] (map dumps js) @ 93 # r"
    have items: "parse_items d m ?t = Inr (map loaded js, r)"
    proof (rule parse_items_dumped)
      fix j r n
      assume "j \<in> set js" and "number_stop r" and "2 * length (dumps j @ r) < n"
      then show "parse_value d n (dumps j @ r) = Inr (loaded j, r)"
        using JList.prems(1) by (intro JList.IH) (simp_all add: list_all_iff)
    qed (use JList.prems(3) n Cons in simp_all)
    obtain c cs where c: "?t = c # cs" "value_start c"
      using dumps_start [of j'] Cons by (cases js') auto
    have "parse_value d n (91 # ?t) = Inr (PyList (map loaded js), r)"
      using items c by (auto simp: n ws_start value_start_def)
    then show ?thesis by simp
  qed
next
  case (JObj fs)
  then obtain m where n: "n = Suc m" by (cases n) auto
  let ?fs = "sort_key fst fs"
  have printed: "dumps (JObj fs) @ r = 123 # join [44] (map field_text ?fs) @ 125 # r"
    unfolding dumps.simps sort_fields field_text_def map_map by (simp add: case_prod_unfold comp_def)
  show ?case
  proof (cases "?fs = []")
    case True
    then have "fs = []" by (metis set_empty set_sort)
    then show ?thesis by (simp add: n ws_def)
  next
    case False
    let ?t = "join [44] (map field_text ?fs) @ 125 # r"
    have members: "parse_members d m [] ?t = Inr ([] @ map (\<lambda>(k, v). (k, loaded v)) ?fs, r)"
    proof (rule parse_members_dumped)
      fix k j r n
      assume "(k, j) \<in> set ?fs" and "number_stop r" and "2 * length (dumps j @ r) < n"
      moreover from this have "(k, j) \<in> set fs" "j \<in> Basic_BNFs.snds (k, j)" by simp_all
      ultimately show "parse_value d n (dumps j @ r) = Inr (loaded j, r)"
        using JObj.prems(1) by (intro JObj.IH [of "(k, j)"]) (auto simp: list_all_iff)
    next
      show "2 * length ?t + 1 < m"
        using JObj.prems(3) unfolding printed n by simp
      have "distinct (map fst ?fs)"
        using JObj.prems(1) by (metis distinct_map distinct_sort printable.simps(3) set_sort)
      then show "distinct (map fst ([] @ map (\<lambda>(k, v). (k, loaded v)) ?fs))"
        by (simp add: comp_def case_prod_unfold)
    qed (rule False)
    obtain k v gs where "?fs = (k, v) # gs" using False by (cases ?fs) auto
    then obtain cs where c: "?t = 34 # cs"
      by (cases gs) (auto simp: field_text_def dumps_str_def split: prod.splits)
    have "parse_value d n (123 # ?t) = Inr (PyDict (map (\<lambda>(k, v). (k, loaded v)) ?fs), r)"
      using members c by (simp add: n ws_start value_start_def)
    then show ?thesis
      unfolding printed by (simp add: sort_fields)
  qed
next
  case JNull
  then obtain m where "n = Suc m" by (cases n) auto
  then show ?case by (simp only: parse_literals dumps.simps loaded.simps)
next
  case (JBool b)
  then obtain m where "n = Suc m" by (cases n) auto
  then show ?case by (cases b) (simp_all only: parse_literals dumps.simps loaded.simps if_True if_False)
qed

lemma json_loads_dumps:
  assumes "printable j"
  shows "json_loads dups (dumps j) = Inr (loaded j)"
proof -
  obtain c cs where c: "dumps j = c # cs" "value_start c"
    using dumps_start by blast
  have "parse_value dups (2 * length (dumps j) + 2) (dumps j @ []) = Inr (loaded j, [])"
    by (rule parse_dumped) (simp_all add: assms number_stop_def)
  moreover have "take 1 (dumps j) \<noteq> [65279]"
    using c by (auto simp: value_start_def)
  ultimately show ?thesis
    using ws_dumps [of j "[]"] by (simp add: json_loads_def ws_def)
qed

subsection \<open>Decoding what was encoded\<close>

lemma base64_split:
  fixes c :: nat
  shows "c div 64 * 64 + c mod 64 = c" and "c div 4096 * 64 + c div 64 mod 64 = c div 64"
    and "c div 262144 * 64 + c div 4096 mod 64 = c div 4096"
proof -
  show "c div 64 * 64 + c mod 64 = c" by simp
  have "c div 64 div 64 = c div 4096" "c div 4096 div 64 = c div 262144"
    by (simp_all add: div_mult2_eq [symmetric])
  then show "c div 4096 * 64 + c div 64 mod 64 = c div 64" "c div 262144 * 64 + c div 4096 mod 64 = c div 4096"
    by (metis div_mult_mod_eq)+
qed

lemma utf8_head_char:
  assumes "c < 1114112" and "\<not> (55296 \<le> c \<and> c < 57344)"
  shows "utf8_head (utf8_char c @ r) = Some (c, r)"
proof -
  consider "c < 128" | "128 \<le> c" "c < 2048" | "2048 \<le> c" "c < 65536" | "65536 \<le> c" by linarith
  then show ?thesis
  proof cases
    case 2
    moreover have "2 \<le> c div 64" "c div 64 < 32" using 2 by auto
    ultimately show ?thesis
      by (simp add: utf8_head_def utf8_char_def is_continuation_def)
  next
    case 3
    have "c div 4096 * 4096 + c div 64 mod 64 * 64 + c mod 64 = c"
      using base64_split(1,2) [of c] by linarith
    moreover have "c div 4096 < 16" using 3 by auto
    ultimately show ?thesis
      using 3 assms by (simp add: utf8_head_def utf8_char_def is_continuation_def Let_def)
  next
    case 4
    have "c div 262144 * 262144 + c div 4096 mod 64 * 4096 + c div 64 mod 64 * 64 + c mod 64 = c"
      using base64_split [of c] by linarith
    moreover have "c div 262144 < 5" using assms(1) by auto
    ultimately show ?thesis
      using 4 assms by (simp add: utf8_head_def utf8_char_def is_continuation_def Let_def)
  qed (simp add: utf8_head_def utf8_char_def)
qed

lemma utf8_char_nonempty: "utf8_char c \<noteq> []"
  by (simp add: utf8_char_def)

lemma utf8_decode_encode:
  assumes "utf8_encode s = Inr b" and "\<forall>c \<in> set s. c < 1114112"
  shows "utf8_decode b = Some s"
proof -
  have ok: "\<forall>c \<in> set s. \<not> (55296 \<le> c \<and> c < 57344)" and b: "b = concat (map utf8_char s)"
    using assms(1) by (auto simp: utf8_encode_def split: if_splits)
  have "utf8_decode (concat (map utf8_char s)) = Some s"
    using ok assms(2)
  proof (induction s)
    case (Cons c s)
    then have "utf8_head (utf8_char c @ concat (map utf8_char s)) = Some (c, concat (map utf8_char s))"
      by (intro utf8_head_char) auto
    then show ?case
      using Cons utf8_char_nonempty by (subst utf8_decode.simps) simp
  qed (simp add: utf8_decode.simps)
  then show ?thesis by (simp add: b)
qed

end
