(* ===== verification/Canonical_Text.thy ===== *)
theory Canonical_Text
  imports Json_Loads
begin

text \<open>
  What the canonical texts of \<^verbatim>\<open>src/bisfin/snapshots/serialization.py\<close> determine. A timestamp can be read back
  from its text, so the text identifies it; the canonical JSON of a value identifies its canonical form up to
  the order of names; and JSON Lines with one value per line (\<^verbatim>\<open>canonical_jsonl_bytes\<close>) split into exactly those
  lines.
\<close>

subsection \<open>Timestamps\<close>

definition in_datetime_range :: "timestamp \<Rightarrow> bool" where
  "in_datetime_range t \<longleftrightarrow> 1 \<le> EPOCH_ORDINAL + t div 86400000000 \<and> EPOCH_ORDINAL + t div 86400000000 \<le> 3652059"

lemma one_to_twelve:
  fixes m :: int
  shows "1 \<le> m \<Longrightarrow> m \<le> 12 \<Longrightarrow> m \<in> {1, 2, 3, 4, 5, 6, 7, 8, 9, 10, 11, 12}"
  by (simp, presburger)

lemma month_day_range:
  assumes "month_day leap n = (m, d)" and "0 \<le> n" and "n < 365"
  shows "1 \<le> m" and "m \<le> 12" and "1 \<le> d" and "d \<le> 31"
proof -
  define k where "k = (n + 50) div 32"
  have k: "32 * k \<le> n + 50" "n + 50 < 32 * k + 32"
    by (simp_all add: k_def)
  then have "k \<in> {1, 2, 3, 4, 5, 6, 7, 8, 9, 10, 11, 12}"
    using assms(2,3) by (intro one_to_twelve) linarith+
  then have "1 \<le> m \<and> m \<le> 12 \<and> 1 \<le> d \<and> d \<le> 31"
    using assms(1) k assms(2,3) unfolding month_day_def k_def [symmetric] Let_def
    by (auto simp: days_before_month_table_def split: if_splits)
  then show "1 \<le> m" and "m \<le> 12" and "1 \<le> d" and "d \<le> 31" by auto
qed

lemma ord2ymd_month_day:
  assumes "ord2ymd n = (y, m, d)"
  shows "1 \<le> m" and "m \<le> 12" and "1 \<le> d" and "d \<le> 31"
proof -
  define e where "e = (n - 1) mod 146097 mod 36524 mod 1461 mod 365"
  have "(m, d) = (12, 31) \<or> (\<exists>leap. month_day leap e = (m, d))"
    using assms by (auto simp: ord2ymd_def Let_def e_def split: if_splits)
  moreover have "0 \<le> e" "e < 365" by (simp_all add: e_def)
  ultimately have "1 \<le> m \<and> m \<le> 12 \<and> 1 \<le> d \<and> d \<le> 31"
    using month_day_range by auto
  then show "1 \<le> m" and "m \<le> 12" and "1 \<le> d" and "d \<le> 31" by auto
qed

lemma days_before_year_mono: "y \<le> y' \<Longrightarrow> days_before_year y \<le> days_before_year y'"
proof -
  assume "y \<le> y'"
  then obtain k where y': "y' = y + int k" by (metis zle_iff_zadd)
  have "days_before_year z \<le> days_before_year (z + 1)" for z
  proof -
    have "z div 100 - (z - 1) div 100 \<le> 1" by linarith
    moreover have "(z - 1) div 4 \<le> z div 4" "(z - 1) div 400 \<le> z div 400" by linarith+
    ultimately show ?thesis by (simp add: days_before_year_def algebra_simps)
  qed
  then have "days_before_year y \<le> days_before_year (y + int k)"
    by (induction k) (simp_all add: algebra_simps, metis (no_types, lifting) add.assoc add.commute order_trans)
  then show ?thesis by (simp add: y')
qed

lemma ord2ymd_year:
  assumes "ord2ymd n = (y, m, d)" and "1 \<le> n" and "n \<le> 3652059"
  shows "1 \<le> y" and "y \<le> 9999"
proof -
  note md = ord2ymd_month_day [OF assms(1)]
  have n: "n = days_before_year y + days_before_month y m + d"
    using ymd2ord_ord2ymd [of n] assms(1) by (simp add: ymd2ord_def)
  have "m \<in> {1, 2, 3, 4, 5, 6, 7, 8, 9, 10, 11, 12}" using md by (intro one_to_twelve)
  then have before: "0 \<le> days_before_month y m" "days_before_month y m \<le> 335"
    by (auto simp: days_before_month_def days_before_month_table_def)
  show "y \<le> 9999"
  proof (rule ccontr)
    assume "\<not> y \<le> 9999"
    then have "days_before_year 10000 \<le> days_before_year y" by (intro days_before_year_mono) simp
    then show False using n before md(3) assms(3) by (simp add: days_before_year_def)
  qed
  show "1 \<le> y"
  proof (rule ccontr)
    assume "\<not> 1 \<le> y"
    then have "days_before_year y \<le> days_before_year 0" by (intro days_before_year_mono) simp
    then show False using n before md(4) assms(2) by (simp add: days_before_year_def)
  qed
qed

lemma length_digits_le: "n < 10 ^ w \<Longrightarrow> 0 < w \<Longrightarrow> length (digits n) \<le> w"
proof (induction n arbitrary: w rule: digits.induct)
  case (1 n)
  show ?case
  proof (cases "n < 10")
    case True
    then show ?thesis using 1(3) by (subst digits.simps) simp
  next
    case False
    then obtain v where w: "w = Suc v" "0 < v"
      using 1(2,3) by (cases w; cases "w - 1") auto
    then have "n div 10 < 10 ^ v" using 1(2) by (simp add: less_mult_imp_div_less)
    then show ?thesis using 1(1) [OF False _ w(2)] False w(1) by (subst digits.simps) simp
  qed
qed

lemma length_zero_pad: "n < 10 ^ w \<Longrightarrow> 0 < w \<Longrightarrow> length (zero_pad w n) = w"
  using length_digits_le [of n w] by (simp add: zero_pad_def)

lemma digits_value_zero_pad [simp]: "digits_value (zero_pad w n) = n"
  by (simp add: zero_pad_def)

text \<open>Reading an instant from its canonical text: fixed positions, and a fraction of up to six digits.\<close>

definition datetime_value :: "pystr \<Rightarrow> timestamp" where
  "datetime_value s =
     (let num = (\<lambda>i k. int (digits_value (take k (drop i s))));
          frac = butlast (drop 20 s);
          us = (if length s = 20 then 0 else int (digits_value (frac @ replicate (6 - length frac) 48))) in
      ((ymd2ord (num 0 4, num 5 2, num 8 2) - EPOCH_ORDINAL) * 86400 + num 11 2 * 3600 + num 14 2 * 60 + num 17 2) * 1000000 + us)"

lemma rstrip0_pad:
  "length s \<le> n \<Longrightarrow> rstrip0 s @ replicate (n - length (rstrip0 s)) 48 = s @ replicate (n - length s) 48"
proof (induction s rule: rev_induct)
  case (snoc c s)
  show ?case
  proof (cases "c = 48")
    case True
    have "rstrip0 (s @ [c]) = rstrip0 s" using True by (simp add: rstrip0_def)
    moreover have "replicate (n - length s) 48 = c # replicate (n - Suc (length s)) 48"
      using snoc.prems True by (metis Suc_diff_Suc Suc_le_lessD length_append_singleton replicate_Suc)
    ultimately show ?thesis using snoc by simp
  qed (simp add: rstrip0_def)
qed (simp add: rstrip0_def)

lemma fixed_fields:
  fixes rest :: pystr
  assumes "length a = 4" "length b = 2" "length c = 2" "length d = 2" "length e = 2" "length f = 2"
    and s: "s = (a @ [45] @ b @ [45] @ c) @ [84] @ (d @ [58] @ e @ [58] @ f) @ rest"
  shows "take 4 (drop 0 s) = a" "take 2 (drop 5 s) = b" "take 2 (drop 8 s) = c" "take 2 (drop 11 s) = d"
    "take 2 (drop 14 s) = e" "take 2 (drop 17 s) = f" "drop 20 s = drop 1 rest" "length s = 19 + length rest"
  using assms(1-6) by (auto simp: s numeral_eq_Suc length_Suc_conv)

lemma datetime_value_canonical:
  assumes "in_datetime_range t"
  shows "datetime_value (canonical_datetime t) = t"
proof -
  define us s where "us = t mod 1000000" and "s = t div 1000000"
  define sod n where "sod = s mod 86400" and "n = EPOCH_ORDINAL + s div 86400"
  note defs = us_def s_def sod_def n_def
  obtain y m d where ymd: "ord2ymd n = (y, m, d)" by (cases "ord2ymd n") auto
  have "s div 86400 = t div 86400000000"
    by (simp add: defs(2) zdiv_zmult2_eq [symmetric])
  then have n: "1 \<le> n" "n \<le> 3652059" using assms by (simp_all add: in_datetime_range_def defs(4))
  note md = ord2ymd_month_day [OF ymd] and yr = ord2ymd_year [OF ymd n]
  have sod: "0 \<le> sod" "sod < 86400" and us: "0 \<le> us" "us < 1000000"
    by (simp_all add: defs)
  define a b c where "a = zero_pad 4 (nat y)" and "b = zero_pad 2 (nat m)" and "c = zero_pad 2 (nat d)"
  define h mi sec where "h = zero_pad 2 (nat (sod div 3600))" and "mi = zero_pad 2 (nat (sod div 60 mod 60))" and "sec = zero_pad 2 (nat (sod mod 60))"
  note pads = a_def b_def c_def h_def mi_def sec_def
  have len: "length a = 4" "length b = 2" "length c = 2" "length h = 2" "length mi = 2" "length sec = 2"
    unfolding pads using yr md sod by (auto intro!: length_zero_pad simp: nat_less_iff)
  define frac where "frac = rstrip0 (zero_pad 6 (nat us))"
  define rest where "rest = (if us = 0 then [90] else [46] @ frac @ [90])"
  have eqn: "canonical_datetime t = (a @ [45] @ b @ [45] @ c) @ [84] @ (h @ [58] @ mi @ [58] @ sec) @ rest"
    by (simp add: canonical_datetime_def Let_def iso_date_def ymd [unfolded defs] pads frac_def rest_def defs)
  note fields = fixed_fields [OF len eqn]
  have "length (zero_pad 6 (nat us)) = 6"
    using us by (intro length_zero_pad) (simp_all add: nat_less_iff)
  then have pad: "frac @ replicate (6 - length frac) 48 = zero_pad 6 (nat us)"
    using rstrip0_pad [of "zero_pad 6 (nat us)" 6] by (simp add: frac_def)
  have frac: "(if length (canonical_datetime t) = 20 then 0
       else int (digits_value (butlast (drop 20 (canonical_datetime t)) @ replicate (6 - length (butlast (drop 20 (canonical_datetime t)))) 48))) = us"
    using us pad by (simp add: fields(7,8) rest_def butlast_append)
  have "ymd2ord (y, m, d) = n" using ymd2ord_ord2ymd [of n] ymd by simp
  then have val: "datetime_value (canonical_datetime t) = ((n - EPOCH_ORDINAL) * 86400 + sod div 3600 * 3600 + sod div 60 mod 60 * 60 + sod mod 60) * 1000000 + us"
    unfolding datetime_value_def Let_def frac fields(1-6) using yr md sod by (simp add: pads)
  have "sod div 3600 * 3600 + sod div 60 mod 60 * 60 + sod mod 60 = sod"
  proof -
    have "sod div 60 div 60 = sod div 3600" by (simp add: zdiv_zmult2_eq [symmetric])
    then show ?thesis using div_mult_mod_eq [of sod 60] div_mult_mod_eq [of "sod div 60" 60] by linarith
  qed
  moreover have "(n - EPOCH_ORDINAL) * 86400 + sod = s"
    by (simp add: n_def sod_def)
  ultimately have "(n - EPOCH_ORDINAL) * 86400 + sod div 3600 * 3600 + sod div 60 mod 60 * 60 + sod mod 60 = s"
    by (metis add.assoc)
  then have "((n - EPOCH_ORDINAL) * 86400 + sod div 3600 * 3600 + sod div 60 mod 60 * 60 + sod mod 60) * 1000000 + us = t"
    using div_mult_mod_eq [of t 1000000] by (simp add: defs(1,2))
  with val show ?thesis by (rule trans)
qed

lemma canonical_datetime_inj:
  "in_datetime_range t \<Longrightarrow> in_datetime_range t' \<Longrightarrow> canonical_datetime t = canonical_datetime t' \<Longrightarrow> t = t'"
  by (metis datetime_value_canonical)

subsection \<open>UTF-8 and JSON determine the canonical value\<close>

lemma div_mod_64_inj: "c div 64 = c' div 64 \<Longrightarrow> c mod 64 = c' mod 64 \<Longrightarrow> c = (c' :: nat)"
  by (metis div_mult_mod_eq)

lemma utf8_char_prefix:
  assumes "utf8_char c @ r = utf8_char c' @ r'"
  shows "c = c' \<and> r = r'"
proof -
  have range: "c < 128 \<or> 128 \<le> c \<and> c < 2048 \<and> 2 \<le> c div 64 \<and> c div 64 < 32 \<or> 2048 \<le> c \<and> c < 65536 \<and> c div 4096 < 16 \<or> 65536 \<le> c" for c :: nat
    by auto
  have split: "c div 4096 = c div 64 div 64" "c div 262144 = c div 64 div 64 div 64" for c :: nat
    by (simp_all add: div_mult2_eq [symmetric])
  show ?thesis
    using assms range [of c] range [of c'] unfolding utf8_char_def
    by (auto split: if_splits simp: split dest!: div_mod_64_inj)
qed

lemma utf8_inj:
  "concat (map utf8_char s) = concat (map utf8_char s') \<Longrightarrow> s = s'"
proof (induction s arbitrary: s')
  case Nil
  then show ?case by (cases s') (auto simp: utf8_char_nonempty)
next
  case (Cons c s)
  then obtain c' t where s': "s' = c' # t" by (cases s') (auto simp: utf8_char_nonempty)
  then show ?case using Cons utf8_char_prefix [of c _ c'] by simp
qed

lemma canonical_json_determines:
  assumes "canonical_json_bytes v = Inr b" and "canonical_json_bytes v' = Inr b"
    and "canonicalize_json v = Inr j" and "canonicalize_json v' = Inr j'" and "printable j" and "printable j'"
  shows "loaded j = loaded j'"
proof -
  have "concat (map utf8_char (dumps j)) = concat (map utf8_char (dumps j'))"
    using assms(1-4) by (simp add: canonical_json_bytes_def utf8_encode_def split: if_splits)
  then have "dumps j = dumps j'" by (rule utf8_inj)
  then show ?thesis
    using json_loads_dumps [OF assms(5), of True] json_loads_dumps [OF assms(6), of True] by simp
qed

subsection \<open>JSON Lines\<close>

definition canonical_jsonl_bytes ::
  "('r \<Rightarrow> timestamp \<times> int \<times> int) \<Rightarrow> ('r \<Rightarrow> pyval) \<Rightarrow> 'r list \<Rightarrow> (ser_error, bytes) result" where
  "canonical_jsonl_bytes key fields_of rows =
     rbind (map_result (\<lambda>r. canonical_json_bytes (fields_of r)) (sort_key key rows)) (\<lambda>ls.
       Inr (concat (map (\<lambda>l. l @ [10]) ls)))"

text \<open>\<^verbatim>\<open>splitlines()\<close> for the line breaks \<open>is_break\<close>; CR LF is one break.\<close>

function splitlines :: "(nat \<Rightarrow> bool) \<Rightarrow> nat list \<Rightarrow> nat list list" where
  "splitlines is_break s =
     (if s = [] then []
      else takeWhile (\<lambda>c. \<not> is_break c) s #
        (case dropWhile (\<lambda>c. \<not> is_break c) s of
           [] \<Rightarrow> []
         | c # cs \<Rightarrow> splitlines is_break (if c = 13 \<and> take 1 cs = [10] then drop 1 cs else cs)))"
  by pat_completeness auto
termination
proof (relation "measure (\<lambda>(_, s). length s)")
  fix is_break :: "nat \<Rightarrow> bool" and s x21 x22
  assume "dropWhile (\<lambda>c. \<not> is_break c) s = x21 # x22"
  then have "length x22 < length s"
    using length_dropWhile_le [of "\<lambda>c. \<not> is_break c" s] by simp
  then show "((is_break, if x21 = 13 \<and> take 1 x22 = [10] then drop 1 x22 else x22), is_break, s) \<in> measure (\<lambda>(_, s). length s)"
    by auto
qed simp

declare splitlines.simps [simp del]

definition bytes_break :: "nat \<Rightarrow> bool" where
  "bytes_break c \<longleftrightarrow> c = 10 \<or> c = 13"

definition str_break :: "nat \<Rightarrow> bool" where
  "str_break c \<longleftrightarrow> c \<in> {10, 11, 12, 13, 28, 29, 30, 133, 8232, 8233}"

lemma splitlines_terminated:
  assumes "is_break 10" and "\<And>l c. l \<in> set ls \<Longrightarrow> c \<in> set l \<Longrightarrow> \<not> is_break c"
  shows "splitlines is_break (concat (map (\<lambda>l. l @ [10]) ls)) = ls"
  using assms(2)
proof (induction ls)
  case (Cons l ls)
  let ?rest = "concat (map (\<lambda>l. l @ [10]) ls)"
  have "takeWhile (\<lambda>c. \<not> is_break c) (l @ 10 # ?rest) = l" "dropWhile (\<lambda>c. \<not> is_break c) (l @ 10 # ?rest) = 10 # ?rest"
    using assms(1) Cons.prems [of l] by (auto simp: takeWhile_append dropWhile_append)
  moreover have "splitlines is_break ?rest = ls"
    using Cons.prems by (intro Cons.IH) auto
  ultimately show ?case
    by (subst splitlines.simps) simp
qed (simp add: splitlines.simps)

lemma escape_char_printing: "d \<in> set (escape_char c) \<Longrightarrow> 32 \<le> d"
  by (auto simp: escape_char_def hex_digit_def split: if_splits)

lemma str_int_printing: "d \<in> set (str_int i) \<Longrightarrow> 32 \<le> d"
  using set_digits by (fastforce simp: str_int_def split: if_splits)

lemma dumps_str_printing: "d \<in> set (dumps_str s) \<Longrightarrow> 32 \<le> d"
  using escape_char_printing by (auto simp: dumps_str_def)

lemma join_set: "set (join sep xs) \<subseteq> set sep \<union> (\<Union>x \<in> set xs. set x)"
  by (induction sep xs rule: join.induct) auto

lemma dumps_printing: "d \<in> set (dumps j) \<Longrightarrow> 32 \<le> d"
proof (induction j arbitrary: d)
  case (JList js)
  then show ?case using join_set [of "[44]" "map dumps js"] by fastforce
next
  case (JObj fs)
  have IH: "32 \<le> d" if "(k, v) \<in> set fs" "d \<in> set (dumps v)" for k v d
    using JObj.IH [of "(k, v)" v] that by auto
  let ?texts = "map (\<lambda>(k, v). dumps_str k @ [58] @ v) (sort_key fst (map (\<lambda>(k, v). (k, dumps v)) fs))"
  have "32 \<le> c" if x: "x \<in> set ?texts" and c: "c \<in> set x" for x c
  proof -
    obtain k v where "(k, v) \<in> set fs" "x = dumps_str k @ [58] @ dumps v"
      using x by auto
    then show ?thesis using c IH dumps_str_printing [of c k] by auto
  qed
  then have "32 \<le> c" if c: "c \<in> set (join [44] ?texts)" for c
    using subsetD [OF join_set c] by (elim UnE UN_E) (simp, blast)
  then show ?case using JObj.prems by auto
qed (auto simp: str_int_printing dumps_str_printing split: if_splits)

text \<open>Characters below a bound: ASCII, or the code points of Unicode.\<close>

definition below :: "nat \<Rightarrow> pystr \<Rightarrow> bool" where
  "below n s \<longleftrightarrow> (\<forall>c \<in> set s. c < n)"

lemma below_simps [simp]:
  "below n []" "below n (c # s) \<longleftrightarrow> c < n \<and> below n s" "below n (s @ t) \<longleftrightarrow> below n s \<and> below n t"
  by (auto simp: below_def)

lemma below_mono: "below n s \<Longrightarrow> n \<le> m \<Longrightarrow> below m s"
  by (auto simp: below_def)

lemma below_digits [simp]: "128 \<le> n \<Longrightarrow> below n (digits i)"
  using set_digits by (fastforce simp: below_def)

fun json_below :: "nat \<Rightarrow> json \<Rightarrow> bool" where
  "json_below n (JStr s) = below n s"
| "json_below n (JList js) = list_all (json_below n) js"
| "json_below n (JObj fs) = list_all (\<lambda>(k, v). below n k \<and> json_below n v) fs"
| "json_below n _ = True"

lemma below_dumps_str:
  assumes "128 \<le> n" and "below n s"
  shows "below n (dumps_str s)"
proof -
  have "hex_digit x < n" if "x < 16" for x
    using that assms(1) by (simp add: hex_digit_def)
  then have "d < n" if "c < n" "d \<in> set (escape_char c)" for c d
    using that assms(1) by (auto simp: escape_char_def less_mult_imp_div_less split: if_splits)
  then show ?thesis using assms by (auto simp: below_def dumps_str_def)
qed

lemma below_join: "below n sep \<Longrightarrow> \<forall>x \<in> set xs. below n x \<Longrightarrow> below n (join sep xs)"
  by (induction sep xs rule: join.induct) auto

lemma below_dumps: "128 \<le> n \<Longrightarrow> json_below n j \<Longrightarrow> below n (dumps j)"
proof (induction j)
  case (JList js)
  then show ?case by (auto simp: list_all_iff intro!: below_join)
next
  case (JObj fs)
  have "below n (dumps_str k @ [58] @ dumps v)" if "(k, v) \<in> set fs" for k v
    using JObj that below_dumps_str by (fastforce simp: list_all_iff)
  then show ?case using JObj.prems by (auto intro!: below_join)
qed (simp_all add: below_dumps_str str_int_def u_def)

lemma utf8_char_printing: "32 \<le> c \<Longrightarrow> b \<in> set (utf8_char c) \<Longrightarrow> 32 \<le> b"
  by (auto simp: utf8_char_def split: if_splits)

lemma canonical_json_printing:
  assumes "canonical_json_bytes v = Inr b" and "c \<in> set b"
  shows "32 \<le> c"
proof -
  obtain j where "b = concat (map utf8_char (dumps j))"
    using assms(1) by (auto simp: canonical_json_bytes_def rbind_Inr_iff utf8_encode_def split: if_splits)
  then show ?thesis using assms(2) dumps_printing utf8_char_printing by auto
qed

lemma list_all2_right: "list_all2 P xs ys \<Longrightarrow> y \<in> set ys \<Longrightarrow> \<exists>x \<in> set xs. P x y"
  by (induction rule: list_all2_induct) auto

lemma jsonl_lines:
  assumes "canonical_jsonl_bytes key fields_of rows = Inr b"
  shows "\<exists>ls. list_all2 (\<lambda>r l. canonical_json_bytes (fields_of r) = Inr l) (sort_key key rows) ls \<and>
    b = concat (map (\<lambda>l. l @ [10]) ls) \<and> splitlines bytes_break b = ls"
proof -
  obtain ls where ls: "list_all2 (\<lambda>r l. canonical_json_bytes (fields_of r) = Inr l) (sort_key key rows) ls" and b: "b = concat (map (\<lambda>l. l @ [10]) ls)"
    using assms by (auto simp: canonical_jsonl_bytes_def rbind_Inr_iff map_result_Inr_iff)
  have "\<not> bytes_break c" if mem: "l \<in> set ls" "c \<in> set l" for l c
  proof -
    obtain r where "canonical_json_bytes (fields_of r) = Inr l"
      using list_all2_right [OF ls mem(1)] by blast
    then show ?thesis using canonical_json_printing [of _ l c] mem(2) by (auto simp: bytes_break_def)
  qed
  then have "splitlines bytes_break b = ls"
    unfolding b by (intro splitlines_terminated) (simp_all add: bytes_break_def)
  then show ?thesis using ls b by blast
qed

lemma jsonl_row_count:
  assumes "canonical_jsonl_bytes key fields_of rows = Inr b"
  shows "length (splitlines bytes_break b) = length rows"
  using jsonl_lines [OF assms] by (auto dest: list_all2_lengthD)

subsection \<open>Fields of a loaded object\<close>

definition field_of :: "pyval \<Rightarrow> pystr \<Rightarrow> pyval option" where
  "field_of v k = (case v of PyDict d \<Rightarrow> dict_get d k | _ \<Rightarrow> None)"

lemma loaded_field:
  assumes "distinct (map fst fs)"
  shows "field_of (loaded (JObj fs)) k = map_option loaded (map_of fs k)"
proof -
  let ?gs = "map (\<lambda>(k, v). (k, loaded v)) fs"
  have g: "distinct (map fst ?gs)"
    using assms by (simp add: comp_def case_prod_unfold)
  then have "distinct (map fst (sort_key fst ?gs))"
    unfolding distinct_map [of fst] by simp
  then have "map_of (sort_key fst ?gs) k = Some v \<longleftrightarrow> map_of ?gs k = Some v" for v
    using g by (simp add: map_of_eq_Some_iff)
  then have "map_of (sort_key fst ?gs) k = map_of ?gs k"
    by (metis option.exhaust)
  then show ?thesis
    by (simp add: field_of_def dict_get_def map_of_map)
qed

end
