(* ===== verification/Snapshot_Store.thy ===== *)
theory Snapshot_Store
  imports Bar_Store Canonical_Text
begin

text \<open>
  Snapshot contracts, the parser of snapshot manifests and the lifecycle of the snapshot tables
  (\<^verbatim>\<open>src/bisfin/snapshots/contracts.py\<close>, \<^verbatim>\<open>snapshots/manifest.py\<close> and
  \<^verbatim>\<open>repositories/snapshot_repository.py\<close> with the tables of \<^verbatim>\<open>db/tables.py\<close>). A snapshot row goes from BUILDING
  to FROZEN or FAILED and never changes again; the lemmas show it for every sequence of repository calls,
  and that the hash of a specification does not depend on the order its components are listed in.
\<close>

subsection \<open>Contracts\<close>

datatype snapshot_status = BUILDING | FROZEN | SNAPSHOT_FAILED | DEPRECATED

datatype snapshot_component_kind = BAR_REVISION

record snapshot_component_spec =
  cs_component_key :: pystr
  cs_kind :: snapshot_component_kind
  cs_bar_series_id :: int
  cs_event_from :: timestamp
  cs_event_to :: timestamp
  cs_allow_empty :: bool

definition validate_snapshot_key :: "pystr \<Rightarrow> bool" where
  "validate_snapshot_key k \<longleftrightarrow> 1 \<le> length k \<and> length k \<le> 160 \<and> py_strip k = k \<and> 0 \<notin> set k \<and> 13 \<notin> set k \<and> 10 \<notin> set k"

definition validate_component_spec :: "snapshot_component_spec \<Rightarrow> bool" where
  "validate_component_spec c \<longleftrightarrow>
     validate_snapshot_key (cs_component_key c) \<and> 0 < cs_bar_series_id c \<and> cs_event_from c < cs_event_to c"

record snapshot_build_request =
  rq_schema_version :: int
  rq_snapshot_code :: pystr
  rq_knowledge_cutoff_ts :: timestamp
  rq_availability_mode :: replay_mode
  rq_components :: "snapshot_component_spec list"

definition validate_snapshot_request :: "snapshot_build_request \<Rightarrow> bool" where
  "validate_snapshot_request r \<longleftrightarrow>
     1 \<le> length (rq_snapshot_code r) \<and> length (rq_snapshot_code r) \<le> 128 \<and> list_all validate_component_spec (rq_components r) \<and>
     rq_schema_version r = 1 \<and> rq_components r \<noteq> [] \<and> distinct (map cs_component_key (rq_components r)) \<and>
     list_all (\<lambda>c. cs_event_to c \<le> rq_knowledge_cutoff_ts r) (rq_components r)"

record snapshot_component_result =
  cr_component_key :: pystr
  cr_kind :: snapshot_component_kind
  cr_bar_series_id :: int
  cr_feed_id :: int
  cr_event_from :: timestamp
  cr_event_to :: timestamp
  cr_row_count :: int
  cr_component_sha256 :: pystr
  cr_storage_uri :: pystr
  cr_relative_storage_path :: pystr
  cr_max_available_at :: "timestamp option"
  cr_max_system_available_at :: "timestamp option"

record snapshot_build_result =
  br_data_snapshot_id :: int
  br_snapshot_code :: pystr
  br_status :: snapshot_status
  br_knowledge_cutoff_ts :: timestamp
  br_availability_mode :: replay_mode
  br_source_manifest_sha256 :: pystr
  br_specification_sha256 :: pystr
  br_manifest_sha256 :: "pystr option"
  br_components :: "snapshot_component_result list"
  br_created_at :: timestamp
  br_frozen_at :: "timestamp option"
  br_idempotent_replay :: bool

subsection \<open>Manifests\<close>

definition mode_value :: "replay_mode \<Rightarrow> pystr" where
  "mode_value m = (case m of PUBLIC_REPLAY \<Rightarrow> u ''PUBLIC_REPLAY'' | ACTUAL_SYSTEM_REPLAY \<Rightarrow> u ''ACTUAL_SYSTEM_REPLAY'')"

definition kind_value :: "snapshot_component_kind \<Rightarrow> pystr" where
  "kind_value k = (case k of BAR_REVISION \<Rightarrow> u ''BAR_REVISION'')"

definition is_code_start :: "nat \<Rightarrow> bool" where
  "is_code_start c \<longleftrightarrow> (65 \<le> c \<and> c \<le> 90) \<or> (97 \<le> c \<and> c \<le> 122) \<or> (48 \<le> c \<and> c \<le> 57)"

definition SAFE_SNAPSHOT_CODE :: "pystr \<Rightarrow> bool" where
  "SAFE_SNAPSHOT_CODE s \<longleftrightarrow>
     (case s of [] \<Rightarrow> False
      | c # cs \<Rightarrow> is_code_start c \<and> length cs \<le> 127 \<and> list_all (\<lambda>d. is_code_start d \<or> d \<in> {46, 95, 45}) cs)"

fun has_dots :: "pystr \<Rightarrow> bool" where
  "has_dots (a # b # s) \<longleftrightarrow> (a = 46 \<and> b = 46) \<or> has_dots (b # s)"
| "has_dots _ \<longleftrightarrow> False"

definition validate_snapshot_code :: "pystr \<Rightarrow> (app_error, pystr) result" where
  "validate_snapshot_code s =
     (if \<not> SAFE_SNAPSHOT_CODE s \<or> has_dots s \<or> take 1 s = [46]
      then Inl (SnapshotManifestError ''snapshot_code is not a safe filesystem component'') else Inr s)"

definition dump_spec :: "snapshot_component_spec \<Rightarrow> pyval" where
  "dump_spec c = PyDict
     [(u ''component_key'', PyStr (cs_component_key c)), (u ''kind'', PyStr (kind_value (cs_kind c))),
      (u ''bar_series_id'', PyInt (cs_bar_series_id c)), (u ''event_from'', PyDateTime (cs_event_from c)),
      (u ''event_to'', PyDateTime (cs_event_to c)), (u ''allow_empty'', PyBool (cs_allow_empty c))]"

definition canonical_specification_bytes :: "snapshot_build_request \<Rightarrow> (ser_error, bytes) result" where
  "canonical_specification_bytes r = canonical_json_bytes (PyDict
     [(u ''schema_version'', PyInt (rq_schema_version r)), (u ''snapshot_code'', PyStr (rq_snapshot_code r)),
      (u ''knowledge_cutoff_ts'', PyDateTime (rq_knowledge_cutoff_ts r)),
      (u ''availability_mode'', PyStr (mode_value (rq_availability_mode r))),
      (u ''components'', PyList (map dump_spec (sort_key cs_component_key (rq_components r))))])"

record snapshot_manifest_document =
  payload_bytes :: bytes
  source_manifest_sha256 :: pystr
  doc_request :: snapshot_build_request
  specification_sha256 :: pystr

text \<open>
  \<open>coerce\<close> stands for what pydantic does with the fields of the decoded object before the validators of the
  contracts run: required and unexpected fields, types, time zones.
\<close>

definition parse_snapshot_manifest_bytes ::
  "(bytes \<Rightarrow> pystr) \<Rightarrow> (pyval \<Rightarrow> snapshot_build_request option) \<Rightarrow> bytes \<Rightarrow> (app_error, snapshot_manifest_document) result" where
  "parse_snapshot_manifest_bytes sha256 coerce payload =
     (case utf8_decode payload of
        None \<Rightarrow> Inl (SnapshotManifestError ''snapshot manifest is not UTF-8'')
      | Some decoded \<Rightarrow>
          (case json_loads True decoded of
             Inl JsonDuplicate \<Rightarrow> Inl (SnapshotManifestError ''snapshot manifest has duplicate JSON fields'')
           | Inl JsonNumberRange \<Rightarrow> Inl AppInvalidOperation
           | Inl _ \<Rightarrow> Inl (SnapshotManifestError ''snapshot manifest is malformed JSON'')
           | Inr (PyDict raw) \<Rightarrow>
               if dict_get raw (u ''schema_version'') \<noteq> Some (PyInt 1)
               then Inl (SnapshotManifestError ''unsupported schema_version'')
               else
                 (case coerce (PyDict raw) of
                    None \<Rightarrow> Inl (SnapshotManifestError ''snapshot manifest is invalid'')
                  | Some r \<Rightarrow>
                      if \<not> validate_snapshot_request r then Inl (SnapshotManifestError ''snapshot manifest is invalid'')
                      else if validate_snapshot_code (rq_snapshot_code r) \<noteq> Inr (rq_snapshot_code r)
                      then Inl (SnapshotManifestError ''snapshot manifest is invalid: snapshot_code is not a safe filesystem component'')
                      else
                        (case canonical_specification_bytes r of
                           Inl _ \<Rightarrow> Inl (AppValueError ''surrogates not allowed'')
                         | Inr semantic \<Rightarrow>
                             Inr \<lparr>payload_bytes = payload, source_manifest_sha256 = sha256 payload,
                                  doc_request = r, specification_sha256 = sha256 semantic\<rparr>))
           | Inr _ \<Rightarrow> Inl (SnapshotManifestError ''snapshot manifest root must be an object'')))"

subsection \<open>Tables\<close>

record snapshot_record =
  sr_data_snapshot_id :: int
  sr_snapshot_code :: pystr
  sr_knowledge_cutoff_ts :: timestamp
  sr_availability_mode :: replay_mode
  sr_manifest_sha256 :: "pystr option"
  sr_status :: snapshot_status
  sr_created_at :: timestamp
  sr_frozen_at :: "timestamp option"
  sr_metadata :: json_object

record component_row =
  sc_data_snapshot_id :: int
  sc_component_key :: pystr
  sc_feed_id :: "int option"
  sc_event_from :: "timestamp option"
  sc_event_to :: "timestamp option"
  sc_max_available_at :: "timestamp option"
  sc_max_system_available_at :: "timestamp option"
  sc_row_count :: "int option"
  sc_component_sha256 :: pystr
  sc_storage_uri :: "pystr option"

record snapshot_tables =
  snapshots :: "snapshot_record list"
  next_snapshot_id :: int
  component_rows :: "component_row list"

text \<open>A JSONB value: PostgreSQL refuses NUL characters and unpaired surrogates.\<close>

definition jsonb_text_ok :: "pystr \<Rightarrow> bool" where
  "jsonb_text_ok s \<longleftrightarrow> 0 \<notin> set s \<and> encodable s"

fun jsonb_ok :: "json \<Rightarrow> bool" where
  "jsonb_ok (JStr s) = jsonb_text_ok s"
| "jsonb_ok (JList js) = list_all jsonb_ok js"
| "jsonb_ok (JObj fs) = list_all (\<lambda>(k, v). jsonb_text_ok k \<and> jsonb_ok v) fs"
| "jsonb_ok _ = True"

text \<open>The CHECK that a frozen snapshot has its hash and its time.\<close>

definition snapshot_row_ok :: "snapshot_record \<Rightarrow> bool" where
  "snapshot_row_ok s \<longleftrightarrow> (sr_status s = FROZEN \<longrightarrow> sr_frozen_at s \<noteq> None \<and> sr_manifest_sha256 s \<noteq> None)"

definition component_row_ok :: "component_row \<Rightarrow> bool" where
  "component_row_ok c \<longleftrightarrow>
     (case sc_row_count c of None \<Rightarrow> True | Some n \<Rightarrow> 0 \<le> n) \<and>
     (case (sc_event_from c, sc_event_to c) of (Some f, Some t) \<Rightarrow> f < t | _ \<Rightarrow> True)"

subsection \<open>Repository operations\<close>

definition get_snapshot_by_code :: "pystr \<Rightarrow> snapshot_tables \<Rightarrow> snapshot_record option" where
  "get_snapshot_by_code code t = find (\<lambda>s. sr_snapshot_code s = code) (snapshots t)"

definition get_snapshot_by_id :: "int \<Rightarrow> snapshot_tables \<Rightarrow> snapshot_record option" where
  "get_snapshot_by_id i t = find (\<lambda>s. sr_data_snapshot_id s = i) (snapshots t)"

definition create_building ::
  "timestamp \<Rightarrow> pystr \<Rightarrow> timestamp \<Rightarrow> replay_mode \<Rightarrow> json_object \<Rightarrow> snapshot_tables \<Rightarrow>
     (app_error, snapshot_tables \<times> snapshot_record) result" where
  "create_building now code cutoff mode md t =
     (let row = \<lparr>sr_data_snapshot_id = next_snapshot_id t, sr_snapshot_code = code, sr_knowledge_cutoff_ts = cutoff,
                 sr_availability_mode = mode, sr_manifest_sha256 = None, sr_status = BUILDING, sr_created_at = now,
                 sr_frozen_at = None, sr_metadata = md\<rparr> in
      if 128 < length code \<or> \<not> jsonb_ok (JObj md) then Inl data_exception
      else if \<exists>s \<in> set (snapshots t). sr_snapshot_code s = code then Inl unique_violation
      else Inr (t\<lparr>snapshots := snapshots t @ [row], next_snapshot_id := next_snapshot_id t + 1\<rparr>, row))"

text \<open>\<open>collation\<close> is the sort key of the database's text ordering.\<close>

definition list_components :: "(pystr \<Rightarrow> pystr) \<Rightarrow> int \<Rightarrow> snapshot_tables \<Rightarrow> component_row list" where
  "list_components collation i t =
     sort_key (\<lambda>c. collation (sc_component_key c)) (filter (\<lambda>c. sc_data_snapshot_id c = i) (component_rows t))"

definition row_of_component :: "int \<Rightarrow> snapshot_component_result \<Rightarrow> component_row" where
  "row_of_component i c =
     \<lparr>sc_data_snapshot_id = i, sc_component_key = cr_component_key c, sc_feed_id = Some (cr_feed_id c),
      sc_event_from = Some (cr_event_from c), sc_event_to = Some (cr_event_to c),
      sc_max_available_at = cr_max_available_at c, sc_max_system_available_at = cr_max_system_available_at c,
      sc_row_count = Some (cr_row_count c), sc_component_sha256 = cr_component_sha256 c,
      sc_storage_uri = Some (cr_storage_uri c)\<rparr>"

definition insert_component_row ::
  "(int \<Rightarrow> bool) \<Rightarrow> component_row \<Rightarrow> snapshot_tables \<Rightarrow> (app_error, snapshot_tables) result" where
  "insert_component_row feed_exists c t =
     rbind (char_n 64 (sc_component_sha256 c)) (\<lambda>digest.
       if 160 < length (sc_component_key c) \<or> \<not> (case sc_row_count c of None \<Rightarrow> True | Some n \<Rightarrow> in_bigint n)
       then Inl data_exception
       else if \<not> component_row_ok c then Inl check_violation
       else if \<exists>r \<in> set (component_rows t). sc_data_snapshot_id r = sc_data_snapshot_id c \<and> sc_component_key r = sc_component_key c
       then Inl unique_violation
       else if (case sc_feed_id c of None \<Rightarrow> False | Some f \<Rightarrow> \<not> feed_exists f) then Inl foreign_key_violation
       else Inr (t\<lparr>component_rows := component_rows t @ [c\<lparr>sc_component_sha256 := digest\<rparr>]\<rparr>))"

fun insert_component_rows ::
  "(int \<Rightarrow> bool) \<Rightarrow> component_row list \<Rightarrow> snapshot_tables \<Rightarrow> (app_error, snapshot_tables) result" where
  "insert_component_rows fe [] t = Inr t"
| "insert_component_rows fe (c # cs) t = rbind (insert_component_row fe c t) (insert_component_rows fe cs)"

definition insert_components ::
  "(int \<Rightarrow> bool) \<Rightarrow> int \<Rightarrow> snapshot_component_result list \<Rightarrow> snapshot_tables \<Rightarrow> (app_error, snapshot_tables) result" where
  "insert_components feed_exists i cs t =
     (case get_snapshot_by_id i t of
        Some s \<Rightarrow>
          if sr_status s \<noteq> BUILDING
          then Inl (InvalidStateTransitionError ''Snapshot components may only be inserted for BUILDING snapshots.'')
          else insert_component_rows feed_exists (map (row_of_component i) cs) t
      | None \<Rightarrow> Inl (InvalidStateTransitionError ''Snapshot components may only be inserted for BUILDING snapshots.''))"

definition update_snapshot :: "int \<Rightarrow> snapshot_record \<Rightarrow> snapshot_tables \<Rightarrow> snapshot_tables" where
  "update_snapshot i s t = t\<lparr>snapshots := map (\<lambda>r. if sr_data_snapshot_id r = i then s else r) (snapshots t)\<rparr>"

definition freeze ::
  "int \<Rightarrow> pystr \<Rightarrow> timestamp \<Rightarrow> json_object \<Rightarrow> snapshot_tables \<Rightarrow> (app_error, snapshot_tables \<times> snapshot_record) result" where
  "freeze i manifest_sha256 frozen_at md t =
     (case get_snapshot_by_id i t of
        Some s \<Rightarrow>
          if sr_status s \<noteq> BUILDING then Inl (InvalidStateTransitionError ''Only a BUILDING snapshot may be frozen.'')
          else
            rbind (char_n 64 manifest_sha256) (\<lambda>digest.
              let row = s\<lparr>sr_status := FROZEN, sr_manifest_sha256 := Some digest, sr_frozen_at := Some frozen_at, sr_metadata := md\<rparr> in
              if \<not> jsonb_ok (JObj md) then Inl data_exception
              else if \<not> snapshot_row_ok row then Inl check_violation
              else Inr (update_snapshot i row t, row))
      | None \<Rightarrow> Inl (InvalidStateTransitionError ''Only a BUILDING snapshot may be frozen.''))"

definition mark_snapshot_failed :: "int \<Rightarrow> json_object \<Rightarrow> snapshot_tables \<Rightarrow> (app_error, snapshot_tables) result" where
  "mark_snapshot_failed i md t =
     (case get_snapshot_by_id i t of
        Some s \<Rightarrow>
          if sr_status s \<noteq> BUILDING then Inr t
          else if \<not> jsonb_ok (JObj md) then Inl data_exception
          else Inr (update_snapshot i (s\<lparr>sr_status := SNAPSHOT_FAILED, sr_metadata := md\<rparr>) t)
      | None \<Rightarrow> Inr t)"

subsection \<open>Snapshots are final once frozen or failed\<close>

inductive snapshot_step :: "snapshot_tables \<Rightarrow> snapshot_tables \<Rightarrow> bool" where
  step_create: "create_building now code cutoff mode md t = Inr (t', s) \<Longrightarrow> snapshot_step t t'"
| step_insert: "insert_components fe i cs t = Inr t' \<Longrightarrow> snapshot_step t t'"
| step_freeze: "freeze i sha at_ts md t = Inr (t', s) \<Longrightarrow> snapshot_step t t'"
| step_fail: "mark_snapshot_failed i md t = Inr t' \<Longrightarrow> snapshot_step t t'"

inductive_cases snapshot_stepE: "snapshot_step t t'"

definition snapshot_inv :: "snapshot_tables \<Rightarrow> bool" where
  "snapshot_inv t \<longleftrightarrow>
     distinct (map sr_data_snapshot_id (snapshots t)) \<and> distinct (map sr_snapshot_code (snapshots t)) \<and>
     (\<forall>s \<in> set (snapshots t). sr_data_snapshot_id s < next_snapshot_id t \<and> snapshot_row_ok s) \<and>
     distinct (map (\<lambda>c. (sc_data_snapshot_id c, sc_component_key c)) (component_rows t)) \<and>
     (\<forall>c \<in> set (component_rows t). \<exists>s \<in> set (snapshots t). sr_data_snapshot_id s = sc_data_snapshot_id c)"

definition empty_snapshots :: snapshot_tables where
  "empty_snapshots = \<lparr>snapshots = [], next_snapshot_id = 1, component_rows = []\<rparr>"

lemma snapshot_inv_empty: "snapshot_inv empty_snapshots"
  by (simp add: snapshot_inv_def empty_snapshots_def)

definition components_of :: "int \<Rightarrow> snapshot_tables \<Rightarrow> component_row list" where
  "components_of i t = filter (\<lambda>c. sc_data_snapshot_id c = i) (component_rows t)"

text \<open>What a step may do: add a row, rewrite one that is building, or add components to one that is building.\<close>

definition snapshots_evolve :: "snapshot_tables \<Rightarrow> snapshot_tables \<Rightarrow> bool" where
  "snapshots_evolve t t' \<longleftrightarrow>
     (\<forall>s \<in> set (snapshots t). sr_status s \<noteq> BUILDING \<longrightarrow>
        s \<in> set (snapshots t') \<and> components_of (sr_data_snapshot_id s) t' = components_of (sr_data_snapshot_id s) t)"

lemma get_snapshot_by_id_Some:
  "get_snapshot_by_id i t = Some s \<Longrightarrow> s \<in> set (snapshots t) \<and> sr_data_snapshot_id s = i"
  by (auto simp: get_snapshot_by_id_def find_Some_iff)

lemma get_snapshot_by_code_None:
  "get_snapshot_by_code c t = None \<longleftrightarrow> (\<forall>s \<in> set (snapshots t). sr_snapshot_code s \<noteq> c)"
  by (auto simp: get_snapshot_by_code_def find_None_iff)

lemma same_snapshot:
  "snapshot_inv t \<Longrightarrow> s \<in> set (snapshots t) \<Longrightarrow> s' \<in> set (snapshots t) \<Longrightarrow>
     sr_data_snapshot_id s = sr_data_snapshot_id s' \<Longrightarrow> s = s'"
  by (auto simp: snapshot_inv_def dest: distinct_map [THEN iffD1] inj_onD)

lemma get_snapshot_by_code_Some:
  assumes "snapshot_inv t" and "s \<in> set (snapshots t)"
  shows "get_snapshot_by_code (sr_snapshot_code s) t = Some s"
proof -
  have inj: "inj_on sr_snapshot_code (set (snapshots t))"
    using assms(1) by (simp add: snapshot_inv_def distinct_map)
  obtain r where r: "get_snapshot_by_code (sr_snapshot_code s) t = Some r"
    using assms(2) get_snapshot_by_code_None [of "sr_snapshot_code s" t] by (cases "get_snapshot_by_code (sr_snapshot_code s) t") auto
  then have "r \<in> set (snapshots t)" "sr_snapshot_code r = sr_snapshot_code s"
    by (auto simp: get_snapshot_by_code_def find_Some_iff)
  then show ?thesis
    using r inj assms(2) by (auto dest: inj_onD)
qed

lemma create_building_Inr:
  assumes "create_building now code cutoff mode md t = Inr (t', s)"
  shows "t' = t\<lparr>snapshots := snapshots t @ [s], next_snapshot_id := next_snapshot_id t + 1\<rparr>"
    and "s = \<lparr>sr_data_snapshot_id = next_snapshot_id t, sr_snapshot_code = code, sr_knowledge_cutoff_ts = cutoff,
                 sr_availability_mode = mode, sr_manifest_sha256 = None, sr_status = BUILDING, sr_created_at = now,
                 sr_frozen_at = None, sr_metadata = md\<rparr>"
    and "\<forall>r \<in> set (snapshots t). sr_snapshot_code r \<noteq> code"
  using assms by (auto simp: create_building_def Let_def split: if_splits)

lemma create_building_inv:
  assumes "snapshot_inv t" and "create_building now code cutoff mode md t = Inr (t', s)"
  shows "snapshot_inv t'" and "snapshots_evolve t t'"
  using create_building_Inr [OF assms(2)] assms(1)
  by (fastforce simp: snapshot_inv_def snapshot_row_ok_def snapshots_evolve_def components_of_def)+

lemma update_snapshot_inv:
  assumes "snapshot_inv t" and "get_snapshot_by_id i t = Some s" and "sr_status s = BUILDING"
    and "sr_data_snapshot_id s' = i" and "sr_snapshot_code s' = sr_snapshot_code s" and "snapshot_row_ok s'"
  shows "snapshot_inv (update_snapshot i s' t)" and "snapshots_evolve t (update_snapshot i s' t)"
proof -
  have s: "s \<in> set (snapshots t)" "sr_data_snapshot_id s = i"
    using get_snapshot_by_id_Some [OF assms(2)] by auto
  have ids: "map sr_data_snapshot_id (snapshots (update_snapshot i s' t)) = map sr_data_snapshot_id (snapshots t)"
    using assms(4) by (auto simp: update_snapshot_def)
  have "sr_snapshot_code (if sr_data_snapshot_id r = i then s' else r) = sr_snapshot_code r" if "r \<in> set (snapshots t)" for r
    using that s assms(5) same_snapshot [OF assms(1), of r s] by auto
  then have codes: "map sr_snapshot_code (snapshots (update_snapshot i s' t)) = map sr_snapshot_code (snapshots t)"
    by (simp add: update_snapshot_def)
  have owner: "(\<exists>r \<in> set (snapshots (update_snapshot i s' t)). sr_data_snapshot_id r = j) \<longleftrightarrow> (\<exists>r \<in> set (snapshots t). sr_data_snapshot_id r = j)" for j
    using arg_cong [OF ids, of set] by (metis (no_types, lifting) image_iff image_set)
  have rest: "component_rows (update_snapshot i s' t) = component_rows t" "next_snapshot_id (update_snapshot i s' t) = next_snapshot_id t"
    by (simp_all add: update_snapshot_def)
  have rows: "sr_data_snapshot_id r < next_snapshot_id t \<and> snapshot_row_ok r" if "r \<in> set (snapshots (update_snapshot i s' t))" for r
    using that assms(1,4,6) s by (auto simp: update_snapshot_def snapshot_inv_def split: if_splits)
  show "snapshot_inv (update_snapshot i s' t)"
    using assms(1) rows unfolding snapshot_inv_def ids codes rest owner by blast
  have "r \<in> set (snapshots (update_snapshot i s' t))" if "r \<in> set (snapshots t)" "sr_status r \<noteq> BUILDING" for r
    using that same_snapshot [OF assms(1) that(1) s(1)] s(2) assms(3) by (force simp: update_snapshot_def)
  then show "snapshots_evolve t (update_snapshot i s' t)"
    by (simp add: snapshots_evolve_def components_of_def rest)
qed

abbreviation component_id :: "component_row \<Rightarrow> int \<times> pystr" where
  "component_id c \<equiv> (sc_data_snapshot_id c, sc_component_key c)"

text \<open>A row as it is stored: the digest as CHAR(64).\<close>

definition stored_as :: "component_row \<Rightarrow> component_row \<Rightarrow> bool" where
  "stored_as c d \<longleftrightarrow> char_n 64 (sc_component_sha256 c) = Inr (sc_component_sha256 d) \<and> d = c\<lparr>sc_component_sha256 := sc_component_sha256 d\<rparr>"

lemma stored_as_id: "stored_as c d \<Longrightarrow> component_id d = component_id c"
  unfolding stored_as_def by (metis (no_types, lifting) component_row.select_convs(1,2) component_row.surjective component_row.update_convs(9))

lemma stored_ids: "list_all2 stored_as cs ds \<Longrightarrow> map component_id ds = map component_id cs"
  by (induction rule: list_all2_induct) (simp_all only: list.map stored_as_id)

lemma insert_component_row_Inr:
  assumes "insert_component_row fe c t = Inr t'"
  obtains d where "char_n 64 (sc_component_sha256 c) = Inr d" "t' = t\<lparr>component_rows := component_rows t @ [c\<lparr>sc_component_sha256 := d\<rparr>]\<rparr>"
    "component_id c \<notin> component_id ` set (component_rows t)"
proof -
  have "\<exists>d. char_n 64 (sc_component_sha256 c) = Inr d \<and> t' = t\<lparr>component_rows := component_rows t @ [c\<lparr>sc_component_sha256 := d\<rparr>]\<rparr> \<and>
      \<not> (\<exists>r \<in> set (component_rows t). sc_data_snapshot_id r = sc_data_snapshot_id c \<and> sc_component_key r = sc_component_key c)"
    using assms by (auto simp: insert_component_row_def rbind_Inr_iff split: if_splits)
  then show ?thesis using that by fastforce
qed

lemma insert_component_rows_Inr:
  assumes "insert_component_rows fe cs t = Inr t'"
  shows "\<exists>ds. t' = t\<lparr>component_rows := component_rows t @ ds\<rparr> \<and>
    list_all2 stored_as cs ds \<and>
    (distinct (map component_id (component_rows t)) \<longrightarrow> distinct (map component_id (component_rows t')))"
  using assms
proof (induction cs arbitrary: t)
  case (Cons c cs)
  obtain t1 where t1: "insert_component_row fe c t = Inr t1" and r: "insert_component_rows fe cs t1 = Inr t'"
    using Cons.prems by (auto simp: rbind_Inr_iff)
  obtain d where d: "char_n 64 (sc_component_sha256 c) = Inr d" "t1 = t\<lparr>component_rows := component_rows t @ [c\<lparr>sc_component_sha256 := d\<rparr>]\<rparr>"
    and new: "component_id c \<notin> component_id ` set (component_rows t)"
    using t1 by (rule insert_component_row_Inr)
  obtain ds where "t' = t1\<lparr>component_rows := component_rows t1 @ ds\<rparr>"
    "list_all2 stored_as cs ds"
    "distinct (map component_id (component_rows t1)) \<longrightarrow> distinct (map component_id (component_rows t'))"
    using Cons.IH [OF r] by (elim exE conjE)
  moreover have "stored_as c (c\<lparr>sc_component_sha256 := d\<rparr>)"
    using d(1) by (simp add: stored_as_def)
  ultimately show ?case
    using d new by (intro exI [of _ "c\<lparr>sc_component_sha256 := d\<rparr> # ds"]) auto
qed simp

lemma insert_components_inv:
  assumes "snapshot_inv t" and "insert_components fe i cs t = Inr t'"
  shows "snapshot_inv t'" and "snapshots_evolve t t'"
proof -
  obtain s where s: "get_snapshot_by_id i t = Some s" "sr_status s = BUILDING"
    and ins: "insert_component_rows fe (map (row_of_component i) cs) t = Inr t'"
    using assms(2) by (auto simp: insert_components_def split: option.splits if_splits)
  have mem: "s \<in> set (snapshots t)" "sr_data_snapshot_id s = i"
    using get_snapshot_by_id_Some [OF s(1)] by auto
  obtain ds where ds: "t' = t\<lparr>component_rows := component_rows t @ ds\<rparr>"
    "list_all2 stored_as
       (map (row_of_component i) cs) ds"
    and dist: "distinct (map component_id (component_rows t'))"
    using insert_component_rows_Inr [OF ins] assms(1) by (auto simp: snapshot_inv_def)
  have ids: "sc_data_snapshot_id d = i" if "d \<in> set ds" for d
  proof -
    have "component_id d \<in> set (map component_id (map (row_of_component i) cs))"
      using that unfolding stored_ids [OF ds(2), symmetric] by simp
    then show ?thesis by (auto simp: row_of_component_def)
  qed
  show "snapshot_inv t'"
    using assms(1) ds(1) dist ids mem by (auto simp: snapshot_inv_def)
  have "components_of (sr_data_snapshot_id r) t' = components_of (sr_data_snapshot_id r) t" if "r \<in> set (snapshots t)" "sr_status r \<noteq> BUILDING" for r
  proof -
    have "sr_data_snapshot_id r \<noteq> i"
      using that s(2) mem same_snapshot [OF assms(1) that(1) mem(1)] by auto
    then show ?thesis using ids ds(1) by (simp add: components_of_def filter_empty_conv)
  qed
  then show "snapshots_evolve t t'"
    by (simp add: snapshots_evolve_def ds(1))
qed

lemma freeze_Inr:
  assumes "freeze i sha at_ts md t = Inr (t', s')"
  obtains s d where "get_snapshot_by_id i t = Some s" "sr_status s = BUILDING" "char_n 64 sha = Inr d"
    "s' = s\<lparr>sr_status := FROZEN, sr_manifest_sha256 := Some d, sr_frozen_at := Some at_ts, sr_metadata := md\<rparr>"
    "t' = update_snapshot i s' t"
  using assms by (auto simp: freeze_def rbind_Inr_iff Let_def split: option.splits if_splits)

lemma snapshot_step_inv:
  assumes "snapshot_inv t" and "snapshot_step t t'"
  shows "snapshot_inv t'" and "snapshots_evolve t t'"
proof -
  have "snapshot_inv t' \<and> snapshots_evolve t t'"
    using assms(2)
  proof (cases rule: snapshot_step.cases)
    case (step_create now code cutoff mode md s)
    then show ?thesis using create_building_inv [OF assms(1)] by blast
  next
    case (step_insert fe i cs)
    then show ?thesis using insert_components_inv [OF assms(1)] by blast
  next
    case (step_freeze i sha at_ts md s)
    then show ?thesis
    proof (rule freeze_Inr)
      fix r d
      assume "get_snapshot_by_id i t = Some r" "sr_status r = BUILDING" and s: "t' = update_snapshot i s t"
        "s = r\<lparr>sr_status := FROZEN, sr_manifest_sha256 := Some d, sr_frozen_at := Some at_ts, sr_metadata := md\<rparr>"
      then show ?thesis
        using update_snapshot_inv [OF assms(1), of i r s] get_snapshot_by_id_Some [of i t r] by (simp add: snapshot_row_ok_def)
    qed
  next
    case (step_fail i md)
    show ?thesis
    proof (cases "t' = t")
      case True
      then show ?thesis using assms(1) by (simp add: snapshots_evolve_def)
    next
      case False
      then obtain r where r: "get_snapshot_by_id i t = Some r" "sr_status r = BUILDING"
          "t' = update_snapshot i (r\<lparr>sr_status := SNAPSHOT_FAILED, sr_metadata := md\<rparr>) t"
        using step_fail by (auto simp: mark_snapshot_failed_def split: option.splits if_splits)
      then show ?thesis
        using update_snapshot_inv [OF assms(1) r(1,2), of "r\<lparr>sr_status := SNAPSHOT_FAILED, sr_metadata := md\<rparr>"] get_snapshot_by_id_Some [OF r(1)]
        by (simp add: snapshot_row_ok_def)
    qed
  qed
  then show "snapshot_inv t'" and "snapshots_evolve t t'" by auto
qed

lemma snapshot_steps_inv:
  assumes "snapshot_step\<^sup>*\<^sup>* t t'" and "snapshot_inv t"
  shows "snapshot_inv t' \<and> snapshots_evolve t t'"
  using assms
proof (induction rule: rtranclp_induct)
  case base
  then show ?case by (simp add: snapshots_evolve_def)
next
  case (step y z)
  then have y: "snapshot_inv y" "snapshots_evolve t y" by auto
  show ?case
    using snapshot_step_inv [OF y(1) step.hyps(2)] y(2) by (auto simp: snapshots_evolve_def)
qed

text \<open>C40. Once a snapshot is frozen or failed, no later sequence of repository operations changes its row or the set of its
  components; codes and component keys stay unique.\<close>

theorem finished_snapshot_is_final:
  assumes "snapshot_inv t" and "snapshot_step\<^sup>*\<^sup>* t t'" and "s \<in> set (snapshots t)" and "sr_status s \<noteq> BUILDING"
  shows "snapshot_inv t' \<and> get_snapshot_by_code (sr_snapshot_code s) t' = Some s \<and>
    list_components collation (sr_data_snapshot_id s) t' = list_components collation (sr_data_snapshot_id s) t"
proof -
  have t': "snapshot_inv t'" "s \<in> set (snapshots t')"
    "components_of (sr_data_snapshot_id s) t' = components_of (sr_data_snapshot_id s) t"
    using snapshot_steps_inv [OF assms(2,1)] assms(3,4) by (auto simp: snapshots_evolve_def)
  then show ?thesis
    using get_snapshot_by_code_Some by (simp add: list_components_def components_of_def)
qed

subsection \<open>The specification hash identifies the request\<close>

definition spec_json :: "snapshot_component_spec \<Rightarrow> json" where
  "spec_json c = JObj
     [(u ''component_key'', JStr (cs_component_key c)), (u ''kind'', JStr (kind_value (cs_kind c))),
      (u ''bar_series_id'', JInt (cs_bar_series_id c)), (u ''event_from'', JStr (canonical_datetime (cs_event_from c))),
      (u ''event_to'', JStr (canonical_datetime (cs_event_to c))), (u ''allow_empty'', JBool (cs_allow_empty c))]"

definition request_json :: "snapshot_build_request \<Rightarrow> json" where
  "request_json r = JObj
     [(u ''schema_version'', JInt (rq_schema_version r)), (u ''snapshot_code'', JStr (rq_snapshot_code r)),
      (u ''knowledge_cutoff_ts'', JStr (canonical_datetime (rq_knowledge_cutoff_ts r))),
      (u ''availability_mode'', JStr (mode_value (rq_availability_mode r))),
      (u ''components'', JList (map spec_json (sort_key cs_component_key (rq_components r))))]"

text \<open>Instants a \<^verbatim>\<open>datetime\<close> can hold, and identifiers short enough to be converted from text.\<close>

definition spec_in_range :: "snapshot_component_spec \<Rightarrow> bool" where
  "spec_in_range c \<longleftrightarrow> in_datetime_range (cs_event_from c) \<and> in_datetime_range (cs_event_to c) \<and>
     length (digits (nat \<bar>cs_bar_series_id c\<bar>)) \<le> MAX_STR_DIGITS"

definition request_in_range :: "snapshot_build_request \<Rightarrow> bool" where
  "request_in_range r \<longleftrightarrow> in_datetime_range (rq_knowledge_cutoff_ts r) \<and> list_all spec_in_range (rq_components r)"

lemma canonicalize_specs: "canonicalize_items (map dump_spec cs) = Inr (map spec_json cs)"
  by (induction cs) (simp_all add: dump_spec_def spec_json_def del: u_Cons)

lemma canonical_specification_json:
  "canonical_specification_bytes r = utf8_encode (dumps (request_json r))"
  by (simp add: canonical_specification_bytes_def canonical_json_bytes_def canonicalize_specs request_json_def del: u_Cons dumps.simps)

lemma u_inj: "u a = u b \<longleftrightarrow> a = b"
proof -
  have "inj (of_char :: char \<Rightarrow> nat)" by (rule injI) (simp add: of_char_eq_iff)
  then show ?thesis by (simp add: u_def inj_map_eq_map)
qed

lemma mode_value_inj: "mode_value m = mode_value m' \<longleftrightarrow> m = m'"
  by (cases m; cases m') (simp_all add: mode_value_def)

lemma printable_request:
  assumes "request_in_range r" and "rq_schema_version r = 1"
  shows "printable (request_json r)"
proof -
  have "printable (spec_json c)" if "spec_in_range c" for c
    using that by (simp add: spec_json_def spec_in_range_def u_inj del: u_Cons)
  moreover have "length (digits 1) \<le> MAX_STR_DIGITS"
    by (simp add: digits.simps MAX_STR_DIGITS_def)
  ultimately show ?thesis
    using assms by (auto simp: request_json_def request_in_range_def list_all_iff u_inj simp del: u_Cons)
qed

lemma loaded_spec_inj:
  assumes eq: "loaded (spec_json c) = loaded (spec_json c')" and "spec_in_range c" and "spec_in_range c'"
  shows "c = c'"
proof -
  have f: "field_of (loaded (spec_json c)) (u k) = field_of (loaded (spec_json c')) (u k)" for k
    using eq by simp
  have "field_of (loaded (spec_json x)) (u k) =
      map_option loaded (map_of [(''component_key'', JStr (cs_component_key x)), (''kind'', JStr (kind_value (cs_kind x))),
      (''bar_series_id'', JInt (cs_bar_series_id x)), (''event_from'', JStr (canonical_datetime (cs_event_from x))),
      (''event_to'', JStr (canonical_datetime (cs_event_to x))), (''allow_empty'', JBool (cs_allow_empty x))] k)" for x k
    unfolding spec_json_def by (subst loaded_field) (simp_all add: u_inj del: u_Cons)
  note g = f [unfolded this]
  have "cs_component_key c = cs_component_key c'" "cs_bar_series_id c = cs_bar_series_id c'" "cs_allow_empty c = cs_allow_empty c'"
    "canonical_datetime (cs_event_from c) = canonical_datetime (cs_event_from c')" "canonical_datetime (cs_event_to c) = canonical_datetime (cs_event_to c')"
    using g [of "''component_key''"] g [of "''bar_series_id''"] g [of "''allow_empty''"] g [of "''event_from''"] g [of "''event_to''"] by simp_all
  moreover have "cs_kind c = cs_kind c'" by (cases "cs_kind c"; cases "cs_kind c'") simp
  ultimately show ?thesis
    using assms(2,3) by (intro snapshot_component_spec.equality) (auto simp: spec_in_range_def intro: canonical_datetime_inj)
qed

lemma loaded_request_inj:
  assumes eq: "loaded (request_json r) = loaded (request_json r')" and "request_in_range r" and "request_in_range r'"
  shows "rq_snapshot_code r = rq_snapshot_code r'" and "rq_knowledge_cutoff_ts r = rq_knowledge_cutoff_ts r'"
    and "rq_availability_mode r = rq_availability_mode r'" and "set (rq_components r) = set (rq_components r')"
proof -
  have f: "field_of (loaded (request_json r)) (u k) = field_of (loaded (request_json r')) (u k)" for k
    using eq by simp
  have "field_of (loaded (request_json x)) (u k) =
      map_option loaded (map_of [(''schema_version'', JInt (rq_schema_version x)), (''snapshot_code'', JStr (rq_snapshot_code x)),
      (''knowledge_cutoff_ts'', JStr (canonical_datetime (rq_knowledge_cutoff_ts x))),
      (''availability_mode'', JStr (mode_value (rq_availability_mode x))),
      (''components'', JList (map spec_json (sort_key cs_component_key (rq_components x))))] k)" for x k
    unfolding request_json_def by (subst loaded_field) (simp_all add: u_inj del: u_Cons)
  note g = f [unfolded this]
  show "rq_snapshot_code r = rq_snapshot_code r'" using g [of "''snapshot_code''"] by simp
  show "rq_availability_mode r = rq_availability_mode r'" using g [of "''availability_mode''"] by (simp add: mode_value_inj)
  show "rq_knowledge_cutoff_ts r = rq_knowledge_cutoff_ts r'"
    using g [of "''knowledge_cutoff_ts''"] assms(2,3) by (auto simp: request_in_range_def intro: canonical_datetime_inj)
  let ?s = "\<lambda>r. sort_key cs_component_key (rq_components r)"
  have "map (loaded \<circ> spec_json) (?s r) = map (loaded \<circ> spec_json) (?s r')"
    using g [of "''components''"] by simp
  moreover have "inj_on (loaded \<circ> spec_json) (set (?s r) \<union> set (?s r'))"
    using assms(2,3) loaded_spec_inj by (auto simp: request_in_range_def list_all_iff inj_on_def)
  ultimately have "?s r = ?s r'" by (simp add: inj_on_map_eq_map)
  then show "set (rq_components r) = set (rq_components r')" by (metis set_sort)
qed

text \<open>The canonical bytes of a specification, and so its hash as far as the hash has no collisions, identify the request:
  two valid requests have the same bytes exactly when they agree on the code, the cutoff, the availability mode and the
  set of components, in whatever order the components are listed.\<close>

theorem specification_identifies_request:
  assumes "validate_snapshot_request r" and "validate_snapshot_request r'" and "request_in_range r" and "request_in_range r'"
    and "canonical_specification_bytes r = Inr b"
  shows "canonical_specification_bytes r' = Inr b \<longleftrightarrow>
    rq_snapshot_code r' = rq_snapshot_code r \<and> rq_knowledge_cutoff_ts r' = rq_knowledge_cutoff_ts r \<and>
    rq_availability_mode r' = rq_availability_mode r \<and> set (rq_components r') = set (rq_components r)"
    (is "?l \<longleftrightarrow> ?r")
proof
  have version: "rq_schema_version r = 1" "rq_schema_version r' = 1"
    using assms(1,2) by (simp_all add: validate_snapshot_request_def)
  {
    assume ?l
    then have "concat (map utf8_char (dumps (request_json r))) = concat (map utf8_char (dumps (request_json r')))"
      using assms(5) by (simp add: canonical_specification_json utf8_encode_def split: if_splits)
    then have "dumps (request_json r) = dumps (request_json r')" by (rule utf8_inj)
    then have "loaded (request_json r) = loaded (request_json r')"
      using json_loads_dumps [of _ True] printable_request [OF assms(3) version(1)] printable_request [OF assms(4) version(2)]
      by (metis sum.inject(2))
    from loaded_request_inj [OF this assms(3,4)] show ?r by simp
  next
    assume ?r
    moreover have "sort_key cs_component_key (rq_components r') = sort_key cs_component_key (rq_components r)"
      using assms(1,2) \<open>?r\<close> by (intro sort_key_unique) (auto simp: validate_snapshot_request_def distinct_map)
    ultimately have "request_json r' = request_json r"
      using version by (simp add: request_json_def)
    then show ?l using assms(5) by (simp add: canonical_specification_json)
  }
qed

subsection \<open>Witnesses\<close>

definition example_spec :: "string \<Rightarrow> int \<Rightarrow> snapshot_component_spec" where
  "example_spec k i = \<lparr>cs_component_key = u k, cs_kind = BAR_REVISION, cs_bar_series_id = i, cs_event_from = 0,
     cs_event_to = 86400000000, cs_allow_empty = False\<rparr>"

definition example_request :: "snapshot_component_spec list \<Rightarrow> snapshot_build_request" where
  "example_request cs = \<lparr>rq_schema_version = 1, rq_snapshot_code = u ''s1'', rq_knowledge_cutoff_ts = 86400000000,
     rq_availability_mode = PUBLIC_REPLAY, rq_components = cs\<rparr>"

lemma example_requests_ok:
  assumes "cs = [example_spec ''a'' 1, example_spec ''b'' 2] \<or> cs = [example_spec ''b'' 2, example_spec ''a'' 1]"
  shows "validate_snapshot_request (example_request cs)" and "request_in_range (example_request cs)"
  using assms
  by (auto simp: validate_snapshot_request_def example_request_def validate_component_spec_def example_spec_def
      validate_snapshot_key_def py_strip_def py_isspace_def request_in_range_def spec_in_range_def in_datetime_range_def
      EPOCH_ORDINAL_def digits.simps MAX_STR_DIGITS_def)

lemma example_request_bytes: "\<exists>b. canonical_specification_bytes (example_request [example_spec ''a'' 1, example_spec ''b'' 2]) = Inr b"
  by (subst canonical_specification_bytes_def, subst canonical_json_bytes_Inr_iff)
    (simp add: example_request_def example_spec_def dump_spec_def mode_value_def kind_value_def)

theorem specification_identifies_request_witness:
  "canonical_specification_bytes (example_request [example_spec ''b'' 2, example_spec ''a'' 1]) =
     canonical_specification_bytes (example_request [example_spec ''a'' 1, example_spec ''b'' 2])"
proof -
  let ?r = "example_request [example_spec ''a'' 1, example_spec ''b'' 2]" and ?r' = "example_request [example_spec ''b'' 2, example_spec ''a'' 1]"
  obtain b where b: "canonical_specification_bytes ?r = Inr b"
    using example_request_bytes by (elim exE)
  have "canonical_specification_bytes ?r' = Inr b"
    using specification_identifies_request [of ?r ?r' b] example_requests_ok b by (auto simp: example_request_def)
  then show ?thesis using b by simp
qed

definition example_frozen :: snapshot_record where
  "example_frozen = \<lparr>sr_data_snapshot_id = 1, sr_snapshot_code = u ''s1'', sr_knowledge_cutoff_ts = 5, sr_availability_mode = PUBLIC_REPLAY,
     sr_manifest_sha256 = Some (replicate 64 48), sr_status = FROZEN, sr_created_at = 0, sr_frozen_at = Some 7, sr_metadata = []\<rparr>"

theorem finished_snapshot_is_final_witness:
  "\<exists>t'. mark_snapshot_failed 1 [] \<lparr>snapshots = [example_frozen], next_snapshot_id = 2, component_rows = []\<rparr> = Inr t' \<and>
     get_snapshot_by_code (u ''s1'') t' = Some example_frozen"
proof -
  let ?t = "\<lparr>snapshots = [example_frozen], next_snapshot_id = 2, component_rows = []\<rparr>"
  have f: "mark_snapshot_failed 1 [] ?t = Inr ?t"
    by (simp add: mark_snapshot_failed_def get_snapshot_by_id_def example_frozen_def)
  have i: "snapshot_inv ?t" by (simp add: snapshot_inv_def snapshot_row_ok_def example_frozen_def)
  have "snapshot_step\<^sup>*\<^sup>* ?t ?t" using step_fail [OF f] by (rule r_into_rtranclp)
  then have "get_snapshot_by_code (sr_snapshot_code example_frozen) ?t = Some example_frozen"
    using finished_snapshot_is_final [OF i, of ?t example_frozen id] by (simp add: example_frozen_def)
  then show ?thesis using f by (auto simp: example_frozen_def)
qed

end
