(* ===== verification/Brsapi_Parser.thy ===== *)
theory Brsapi_Parser
  imports Brsapi_Normalization
begin

text \<open>
  The fail-closed parser of daily candles (\<^verbatim>\<open>src/bisfin/integrations/brsapi/parser.py\<close>): decoding of the
  envelope, validation of each row with its diagnostics in the order of the code, and the policy for
  duplicate dates. \<open>sha256\<close> is the digest function. The lemmas show that every row of the response is kept
  with its payload and its place, that an accepted row is well formed, and that at most one row per
  symbol and date reaches canonicalization.
\<close>

subsection \<open>Hashes\<close>

definition response_payload_sha256 :: "(bytes \<Rightarrow> pystr) \<Rightarrow> bytes \<Rightarrow> pystr" where
  "response_payload_sha256 sha256 body = sha256 body"

definition canonical_decimal_text :: "decimal \<Rightarrow> pystr" where
  "canonical_decimal_text d =
     (if dec_is_zero d then u ''0''
      else
        let rendered = format_f (dec_normalize d) in
        if 46 \<in> set rendered
        then (let r = rev (dropWhile (\<lambda>c. c = 48) (rev rendered)) in rev (dropWhile (\<lambda>c. c = 46) (rev r)))
        else rendered)"

text \<open>\<^verbatim>\<open>_canonical_json_text\<close>; what json.loads never produces has no text here.\<close>

fun canonical_text :: "pyval \<Rightarrow> pystr" where
  "canonical_text PyNone = u ''null''"
| "canonical_text (PyBool b) = (if b then u ''true'' else u ''false'')"
| "canonical_text (PyInt i) = str_int i"
| "canonical_text (PyDec d) = canonical_decimal_text d"
| "canonical_text (PyStr s) = dumps_str s"
| "canonical_text (PyList vs) = [91] @ join [44] (map canonical_text vs) @ [93]"
| "canonical_text (PyDict fs) =
     [123] @ join [44] (map (\<lambda>(k, v). dumps_str k @ [58] @ v)
       (sort_key fst (map (\<lambda>(k, v). (k, canonical_text v)) fs))) @ [125]"
| "canonical_text _ = []"

definition row_payload_sha256 :: "(bytes \<Rightarrow> pystr) \<Rightarrow> json_row \<Rightarrow> (brsapi_error, pystr) result" where
  "row_payload_sha256 sha256 raw_row =
     (case utf8_encode (canonical_text (PyDict raw_row)) of
        Inl _ \<Rightarrow> Inl (EscapedValueError ''surrogates not allowed'')
      | Inr b \<Rightarrow> Inr (sha256 b))"

subsection \<open>The envelope\<close>

definition load_json :: "bytes \<Rightarrow> (brsapi_error, pyval) result" where
  "load_json body =
     (case utf8_sig_decode body of
        None \<Rightarrow> Inl (BrsApiMalformedResponseError ''BrsApi response is not valid UTF-8.'')
      | Some t \<Rightarrow>
          (case json_loads False t of
             Inr v \<Rightarrow> Inr v
           | Inl JsonNumberRange \<Rightarrow> Inl EscapedInvalidOperation
           | Inl _ \<Rightarrow> Inl (BrsApiMalformedResponseError ''BrsApi response is not valid strict JSON.'')))"

fun split_on :: "nat \<Rightarrow> pystr \<Rightarrow> pystr list" where
  "split_on sep [] = [[]]"
| "split_on sep (c # cs) =
     (if c = sep then [] # split_on sep cs
      else (case split_on sep cs of [] \<Rightarrow> [[c]] | p # ps \<Rightarrow> (c # p) # ps))"

definition lower_key :: "nat \<Rightarrow> nat" where
  "lower_key c = (if 65 \<le> c \<and> c \<le> 90 then c + 32 else if c = 8490 then 107 else c)"

definition redact_provider_text :: "pystr option \<Rightarrow> pystr option" where
  "redact_provider_text value =
     (case value of None \<Rightarrow> None
      | Some v \<Rightarrow>
          (case split_on 63 v of
             p0 # p1 # _ \<Rightarrow>
               (let sanitized = map (\<lambda>item. if take 4 (map lower_key item) = u ''key='' then u ''key=***'' else item) (split_on 38 p1) in
                Some (take 512 (p0 @ [63] @ join [38] sanitized)))
           | _ \<Rightarrow> Some (take 512 v)))"

datatype envelope = Candlesticks "json_row list" | NoData brsapi_no_data_response

fun object_rows :: "pyval list \<Rightarrow> json_row list option" where
  "object_rows [] = Some []"
| "object_rows (PyDict fs # vs) = map_option (\<lambda>rs. fs # rs) (object_rows vs)"
| "object_rows (_ # vs) = None"

definition is_failure_status :: "pyval option \<Rightarrow> (brsapi_error, bool) result" where
  "is_failure_status v =
     (case v of
        Some (PyStr s) \<Rightarrow> Inr (s \<in> {u ''error'', u ''failed'', u ''failure''})
      | Some (PyList _) \<Rightarrow> Inl (EscapedTypeError ''unhashable type'')
      | Some (PyDict _) \<Rightarrow> Inl (EscapedTypeError ''unhashable type'')
      | _ \<Rightarrow> Inr False)"

definition parse_status_object :: "json_row \<Rightarrow> (brsapi_error, envelope) result" where
  "parse_status_object payload =
     (let status_value = dict_get payload (u ''status'');
          successful_value = dict_get payload (u ''successful'');
          code_value = dict_get payload (u ''code_http'');
          message_value = (case dict_get payload (u ''message_error'') of Some PyNone \<Rightarrow> None | m \<Rightarrow> m) in
      if status_value = Some (PyStr (u ''no_data'')) then
        (if successful_value \<noteq> Some (PyBool True) \<or> code_value \<noteq> Some (PyInt 200)
         then Inl (BrsApiContractError ''The no-data envelope has invalid success metadata.'')
         else if message_value \<noteq> None
         then Inl (BrsApiContractError ''The no-data envelope must have a null error message.'')
         else Inr (NoData \<lparr>code_http = 200, no_data_payload = payload\<rparr>))
      else
        rbind (if successful_value = Some (PyBool False) \<or> message_value \<noteq> None then Inr True
               else is_failure_status status_value) (\<lambda>failed.
          if failed
          then Inl (BrsApiProviderError
                 (case code_value of Some (PyInt i) \<Rightarrow> Some i | _ \<Rightarrow> None)
                 (case status_value of Some (PyStr s) \<Rightarrow> Some s | _ \<Rightarrow> None)
                 (redact_provider_text (case message_value of Some (PyStr s) \<Rightarrow> Some s | _ \<Rightarrow> None))
                 payload)
          else Inl (BrsApiContractError
                 ''The object response is neither documented no-data nor an explicit provider error.'')))"

definition parse_candlestick_envelope :: "brsapi_raw_response \<Rightarrow> (brsapi_error, envelope) result" where
  "parse_candlestick_envelope response =
     rbind (load_json (body_bytes response)) (\<lambda>payload.
       case payload of
         PyList [] \<Rightarrow> Inl (BrsApiContractError ''Empty arrays are ambiguous; BrsApi no-data must use status=no_data.'')
       | PyList items \<Rightarrow>
           (case object_rows items of
              None \<Rightarrow> Inl (BrsApiContractError ''Candlestick success arrays must contain only JSON objects.'')
            | Some rs \<Rightarrow> Inr (Candlesticks rs))
       | PyDict fs \<Rightarrow> parse_status_object fs
       | _ \<Rightarrow> Inl (BrsApiContractError ''BrsApi response must be a candle array or an explicit status object.''))"

subsection \<open>Fields\<close>

definition issue :: "row_validation_code \<Rightarrow> string option \<Rightarrow> string \<Rightarrow> row_validation_issue" where
  "issue code field message = \<lparr>issue_code = code, issue_field = field, issue_message = message\<rparr>"

type_synonym 'a field_value = "'a option \<times> row_validation_issue list"

definition string_field :: "json_row \<Rightarrow> string \<Rightarrow> pystr field_value" where
  "string_field raw_row field =
     (case dict_get raw_row (u field) of
        None \<Rightarrow> (None, [])
      | Some (PyStr s) \<Rightarrow> (Some s, [])
      | Some _ \<Rightarrow> (None, [issue INVALID_FIELD_TYPE (Some field) ''Field must be a string.'']))"

text \<open>\<^verbatim>\<open>int(s)\<close> of a text for which \<^verbatim>\<open>s.removeprefix("+").isdigit()\<close> holds: every character must be a decimal digit.\<close>

definition integer_text :: "text_env \<Rightarrow> pystr \<Rightarrow> (brsapi_error, int option) result" where
  "integer_text env s =
     (let body = (if take 1 s = [43] then drop 1 s else s) in
      if s = [] \<or> body = [] \<or> \<not> list_all (uni_isdigit env) body then Inr None
      else if MAX_STR_DIGITS < length body then Inl (EscapedValueError ''Exceeds the limit for integer string conversion'')
      else (case digit_group env body of
              None \<Rightarrow> Inl (EscapedValueError ''invalid literal for int()'')
            | Some n \<Rightarrow> Inr (Some (int n))))"

definition integer_field :: "text_env \<Rightarrow> json_row \<Rightarrow> string \<Rightarrow> (brsapi_error, int field_value) result" where
  "integer_field env raw_row field =
     (let wrong = (None, [issue INVALID_FIELD_TYPE (Some field) ''Field must be an integer.'']) in
      case dict_get raw_row (u field) of
        None \<Rightarrow> Inr (None, [])
      | Some (PyInt i) \<Rightarrow> Inr (Some i, [])
      | Some (PyStr s) \<Rightarrow>
          rbind (integer_text env (py_strip (normalize_digits s))) (\<lambda>r.
            Inr (case r of None \<Rightarrow> wrong | Some i \<Rightarrow> (Some i, [])))
      | Some _ \<Rightarrow> Inr wrong)"

text \<open>
  \<^verbatim>\<open>Decimal(text)\<close>: underscores dropped, Unicode digits read as ASCII; \<open>None\<close> for what it refuses and for the
  infinities and NaNs, which the parser refuses next with the same diagnostic.
\<close>

definition decimal_of_text :: "text_env \<Rightarrow> pystr \<Rightarrow> decimal option" where
  "decimal_of_text env text =
     (let s = map (\<lambda>c. case uni_decimal env c of None \<Rightarrow> c | Some d \<Rightarrow> 48 + d) (filter (\<lambda>c. c \<noteq> 95) text);
          neg = (take 1 s = [45]);
          body = (if take 1 s = [45] \<or> take 1 s = [43] then drop 1 s else s);
          ip = takeWhile is_digit body;
          r1 = dropWhile is_digit body;
          fp = (if take 1 r1 = [46] then takeWhile is_digit (drop 1 r1) else []);
          r2 = (if take 1 r1 = [46] then dropWhile is_digit (drop 1 r1) else r1);
          ex = scan_exponent r2 in
      if (ip = [] \<and> fp = []) \<or> snd ex \<noteq> [] then None
      else
        let e = (case fst ex of None \<Rightarrow> 0 | Some x \<Rightarrow> x) - int (length fp);
            c = digits_value (ip @ fp) in
        if MAX_EMAX < e + int (ndigits c) - 1 \<or> e < MIN_ETINY then None else Some (Dec neg c e))"

definition decimal_field :: "text_env \<Rightarrow> json_row \<Rightarrow> string \<Rightarrow> decimal field_value" where
  "decimal_field env raw_row field =
     (let wrong = (None, [issue INVALID_NUMERIC_VALUE (Some field) ''Field must be a finite decimal number.'']) in
      case dict_get raw_row (u field) of
        None \<Rightarrow> (None, [])
      | Some (PyDec d) \<Rightarrow> (Some d, [])
      | Some (PyInt i) \<Rightarrow> (Some (dec_of_int i), [])
      | Some (PyStr s) \<Rightarrow>
          (case decimal_of_text env (py_strip (normalize_digits s)) of None \<Rightarrow> wrong | Some d \<Rightarrow> (Some d, []))
      | Some _ \<Rightarrow> wrong)"

subsection \<open>One row\<close>

definition REQUIRED_ROW_FIELDS :: "string list" where
  "REQUIRED_ROW_FIELDS =
     [''l18'', ''type'', ''count'', ''date'', ''open'', ''high'', ''low'', ''close'', ''volume'']"

definition negative_price :: "string \<Rightarrow> decimal option \<Rightarrow> row_validation_issue list" where
  "negative_price field v =
     (case v of Some d \<Rightarrow> if dec_lt d dec_zero then [issue INVALID_NUMERIC_VALUE (Some field) ''Price cannot be negative.''] else []
      | None \<Rightarrow> [])"

definition outside :: "decimal option \<Rightarrow> decimal option \<Rightarrow> decimal option \<Rightarrow> bool" where
  "outside v low high =
     (case (v, low, high) of (Some x, Some l, Some h) \<Rightarrow> \<not> (dec_le l x \<and> dec_le x h) | _ \<Rightarrow> False)"

definition price_issues ::
  "decimal option \<Rightarrow> decimal option \<Rightarrow> decimal option \<Rightarrow> decimal option \<Rightarrow> decimal option \<Rightarrow> row_validation_issue list" where
  "price_issues op hi lo cl vol =
     negative_price ''open'' op @ negative_price ''high'' hi @ negative_price ''low'' lo @ negative_price ''close'' cl @
     (case vol of Some v \<Rightarrow> if dec_lt v dec_zero then [issue NEGATIVE_VOLUME (Some ''volume'') ''Volume cannot be negative.''] else []
      | None \<Rightarrow> []) @
     (case (hi, lo) of (Some h, Some l) \<Rightarrow>
        if dec_lt h l then [issue INVALID_OHLC None ''High price cannot be below low price.''] else [] | _ \<Rightarrow> []) @
     (if outside op lo hi then [issue INVALID_OHLC (Some ''open'') ''Open price is outside low/high.''] else []) @
     (if outside cl lo hi then [issue INVALID_OHLC (Some ''close'') ''Close price is outside low/high.''] else [])"

definition symbol_issues :: "pystr option \<Rightarrow> pystr \<Rightarrow> pystr \<Rightarrow> row_validation_issue list" where
  "symbol_issues original normalized requested =
     (if original \<noteq> None \<and> normalized = [] then [issue EMPTY_SYMBOL (Some ''l18'') ''Symbol is empty.'']
      else if normalized \<noteq> [] \<and> normalized \<noteq> requested
      then [issue SYMBOL_MISMATCH (Some ''l18'') ''Response symbol does not match the requested normalized symbol.'']
      else [])"

definition time_value :: "text_env \<Rightarrow> json_row \<Rightarrow> pystr option \<times> (nat \<times> nat \<times> nat) option \<times> row_validation_issue list" where
  "time_value env raw_row =
     (case dict_get raw_row (u ''time'') of
        None \<Rightarrow> (None, None, [])
      | Some PyNone \<Rightarrow> (None, None, [])
      | Some _ \<Rightarrow>
          (let (t, es) = string_field raw_row ''time'' in
           case t of None \<Rightarrow> (None, None, es)
           | Some s \<Rightarrow>
               (case parse_source_time env s of
                  Inl _ \<Rightarrow> (Some s, None, es @ [issue INVALID_SOURCE_TIME (Some ''time'') ''Optional source time is invalid.''])
                | Inr x \<Rightarrow> (Some s, Some x, es))))"

text \<open>The candidate of a row without errors, when all required values are there.\<close>

definition build_candidate ::
  "(bytes \<Rightarrow> pystr) \<Rightarrow> json_row \<Rightarrow> int \<Rightarrow> pystr \<Rightarrow> pystr option \<Rightarrow> (nat \<times> nat \<times> nat) option \<Rightarrow>
     pystr option \<times> int option \<times> int option \<times> pystr option \<times> int option \<times> decimal option \<times> decimal option \<times>
       decimal option \<times> decimal option \<times> decimal option \<Rightarrow>
     (brsapi_error, parsed_daily_bar_candidate option) result" where
  "build_candidate sha256 raw_row source_sequence normalized time_text time required =
     (case required of
        (Some osym, Some _, Some _, Some dtext, Some d, Some o', Some h, Some l, Some c, Some v) \<Rightarrow>
          rbind (row_payload_sha256 sha256 raw_row) (\<lambda>digest.
            Inr (Some \<lparr>cand_source_sequence = source_sequence, original_symbol = osym, normalized_symbol = normalized,
              cand_source_date_text = dtext, cand_source_time_text = time_text, source_time = time, trading_date = d,
              cand_open = o', cand_high = h, cand_low = l, cand_close = c, cand_volume = v,
              cand_raw_payload = raw_row, cand_row_payload_sha256 = digest\<rparr>))
      | _ \<Rightarrow> Inr None)"

definition validate_row ::
  "text_env \<Rightarrow> (bytes \<Rightarrow> pystr) \<Rightarrow> json_row \<Rightarrow> int \<Rightarrow> pystr \<Rightarrow> int \<Rightarrow> (brsapi_error, row_validation_result) result" where
  "validate_row env sha256 raw_row source_sequence requested_symbol actual_row_count =
     (let missing = map (\<lambda>f. issue MISSING_FIELD (Some f) ''Required field is absent.'')
            (filter (\<lambda>f. dict_get raw_row (u f) = None) REQUIRED_ROW_FIELDS);
          (original, symbol_errors) = string_field raw_row ''l18'';
          normalized = (case original of Some (c # cs) \<Rightarrow> normalize_brsapi_symbol env (c # cs) | _ \<Rightarrow> []) in
      rbind (integer_field env raw_row ''type'') (\<lambda>(response_type, type_errors).
      rbind (integer_field env raw_row ''count'') (\<lambda>(declared_count, count_errors).
        let type_warnings = (case response_type of
              Some t \<Rightarrow> if t \<noteq> 2 then [issue RESPONSE_TYPE_IGNORED (Some ''type'')
                ''Response type is informational; request type=2 remains authoritative.''] else [] | None \<Rightarrow> []);
            count_negative = (case declared_count of
              Some n \<Rightarrow> if n < 0 then [issue INVALID_NUMERIC_VALUE (Some ''count'') ''Count cannot be negative.''] else [] | None \<Rightarrow> []);
            count_warnings = (case declared_count of
              Some n \<Rightarrow> if 0 \<le> n \<and> n \<noteq> actual_row_count then [issue COUNT_MISMATCH (Some ''count'')
                ''Declared count differs from the actual response row count.''] else [] | None \<Rightarrow> []);
            (date_text, date_errors) = string_field raw_row ''date'';
            day = (case date_text of None \<Rightarrow> None
              | Some s \<Rightarrow> (case parse_jalali_date env s of Inl _ \<Rightarrow> None | Inr d \<Rightarrow> Some d));
            day_errors = (if date_text \<noteq> None \<and> day = None
              then [issue INVALID_JALALI_DATE (Some ''date'') ''Jalali date is invalid.''] else []);
            (time_text, time, time_errors) = time_value env raw_row;
            (op, op_errors) = decimal_field env raw_row ''open'';
            (hi, hi_errors) = decimal_field env raw_row ''high'';
            (lo, lo_errors) = decimal_field env raw_row ''low'';
            (cl, cl_errors) = decimal_field env raw_row ''close'';
            (vol, vol_errors) = decimal_field env raw_row ''volume'';
            errs = missing @ symbol_errors @ symbol_issues original normalized requested_symbol @ type_errors @ count_errors @
              count_negative @ date_errors @ day_errors @ time_errors @ op_errors @ hi_errors @ lo_errors @ cl_errors @ vol_errors @
              price_issues op hi lo cl vol;
            warns = type_warnings @ count_warnings;
            result = (\<lambda>c. \<lparr>row_source_sequence = source_sequence, row_raw_payload = raw_row, candidate = c, row_errors = errs,
              row_warnings = warns, include_in_canonicalization = (c \<noteq> None)\<rparr>) in
        rbind (if errs = []
               then build_candidate sha256 raw_row source_sequence normalized time_text time
                      (original, response_type, declared_count, date_text, day, op, hi, lo, cl, vol)
               else Inr None) (\<lambda>c. Inr (result c)))))"

subsection \<open>Duplicates\<close>

definition row_key :: "row_validation_result \<Rightarrow> (pystr \<times> int) option" where
  "row_key r = (if accepted r then map_option (\<lambda>c. (normalized_symbol c, trading_date c)) (candidate r) else None)"

text \<open>The indexes of the accepted rows of each key, in order of first occurrence.\<close>

definition grouped_indexes :: "row_validation_result list \<Rightarrow> ((pystr \<times> int), nat list) dict" where
  "grouped_indexes results =
     map (\<lambda>(k, ps). (k, map fst ps))
       (group_by (\<lambda>(i, r). the (row_key r)) (filter (\<lambda>(i, r). row_key r \<noteq> None) (enumerate 0 results)))"

definition row_hash :: "row_validation_result \<Rightarrow> pystr option" where
  "row_hash r = map_option cand_row_payload_sha256 (candidate r)"

definition duplicate_warning :: row_validation_issue where
  "duplicate_warning = issue DUPLICATE_IDENTICAL (Some ''date'')
     ''Equivalent duplicate rows are preserved; only the first is canonicalized.''"

definition duplicate_error :: row_validation_issue where
  "duplicate_error = issue DUPLICATE_CONFLICT (Some ''date'')
     ''Conflicting duplicate dates are rejected as one ambiguous group.''"

definition mark_group :: "row_validation_result list \<Rightarrow> nat list \<Rightarrow> row_validation_result list" where
  "mark_group mutable indexes =
     (if length indexes < 2 then mutable
      else if \<forall>i \<in> set indexes. row_hash (mutable ! i) = row_hash (mutable ! hd indexes)
      then foldl (\<lambda>m i. m[i := (m ! i)\<lparr>row_warnings := row_warnings (m ! i) @ [duplicate_warning],
             include_in_canonicalization := (i = hd indexes)\<rparr>]) mutable indexes
      else foldl (\<lambda>m i. m[i := (m ! i)\<lparr>row_errors := row_errors (m ! i) @ [duplicate_error],
             include_in_canonicalization := False\<rparr>]) mutable indexes)"

definition apply_duplicate_policy :: "row_validation_result list \<Rightarrow> row_validation_result list" where
  "apply_duplicate_policy results = foldl mark_group results (map snd (grouped_indexes results))"

fun validate_rows ::
  "text_env \<Rightarrow> (bytes \<Rightarrow> pystr) \<Rightarrow> pystr \<Rightarrow> int \<Rightarrow> int \<Rightarrow> json_row list \<Rightarrow> (brsapi_error, row_validation_result list) result" where
  "validate_rows env sha256 requested n sequence [] = Inr []"
| "validate_rows env sha256 requested n sequence (r # rs) =
     rbind (validate_row env sha256 r sequence requested n) (\<lambda>x.
     rbind (validate_rows env sha256 requested n (sequence + 1) rs) (\<lambda>xs. Inr (x # xs)))"

definition parse_unadjusted_daily_candles ::
  "text_env \<Rightarrow> (bytes \<Rightarrow> pystr) \<Rightarrow> brsapi_raw_response \<Rightarrow> pystr \<Rightarrow> (brsapi_error, daily_bar_parse_result) result" where
  "parse_unadjusted_daily_candles env sha256 response requested_symbol =
     (let requested = normalize_brsapi_symbol env requested_symbol in
      if requested = [] then Inl (EscapedValueError ''requested_symbol must not be empty'')
      else
        let digest = response_payload_sha256 sha256 (body_bytes response) in
        rbind (parse_candlestick_envelope response) (\<lambda>env'.
          case env' of
            NoData nd \<Rightarrow> Inr \<lparr>response_sha256 = digest, no_data = Some nd, parse_rows = []\<rparr>
          | Candlesticks raw_rows \<Rightarrow>
              rbind (validate_rows env sha256 requested (int (length raw_rows)) 1 raw_rows) (\<lambda>results.
                Inr \<lparr>response_sha256 = digest, no_data = None, parse_rows = apply_duplicate_policy results\<rparr>)))"

subsection \<open>What a validated row is\<close>

definition candidate_ok :: "pystr \<Rightarrow> parsed_daily_bar_candidate \<Rightarrow> bool" where
  "candidate_ok requested c \<longleftrightarrow> normalized_symbol c = requested \<and>
     0 \<le> val (cand_low c) \<and> val (cand_low c) \<le> val (cand_open c) \<and> val (cand_open c) \<le> val (cand_high c) \<and>
     val (cand_low c) \<le> val (cand_close c) \<and> val (cand_close c) \<le> val (cand_high c) \<and> 0 \<le> val (cand_volume c)"

definition row_ok :: "pystr \<Rightarrow> row_validation_result \<Rightarrow> bool" where
  "row_ok requested r \<longleftrightarrow>
     (case candidate r of
        None \<Rightarrow> row_errors r \<noteq> [] \<and> \<not> include_in_canonicalization r
      | Some c \<Rightarrow> row_errors r = [] \<and> include_in_canonicalization r \<and> candidate_ok requested c \<and>
          cand_raw_payload c = row_raw_payload r)"

lemma build_candidate_Some:
  assumes "build_candidate sha256 raw sq normalized tt t (osym, rt, dc, dt, d, op, hi, lo, cl, vol) = Inr (Some c)"
  shows "osym \<noteq> None" "normalized_symbol c = normalized" "op = Some (cand_open c)" "hi = Some (cand_high c)"
    "lo = Some (cand_low c)" "cl = Some (cand_close c)" "vol = Some (cand_volume c)" "cand_raw_payload c = raw"
  using assms by (auto simp: build_candidate_def rbind_Inr_iff split: option.splits)

lemma build_candidate_None:
  "build_candidate sha256 raw sq normalized tt t (osym, rt, dc, dt, d, op, hi, lo, cl, vol) = Inr None \<Longrightarrow>
     osym = None \<or> rt = None \<or> dc = None \<or> dt = None \<or> d = None \<or> op = None \<or> hi = None \<or> lo = None \<or> cl = None \<or> vol = None"
  by (auto simp: build_candidate_def rbind_Inr_iff split: option.splits)

lemma price_issues_Nil:
  assumes "price_issues (Some op) (Some hi) (Some lo) (Some cl) (Some vol) = []"
  shows "0 \<le> val lo" "val lo \<le> val op" "val op \<le> val hi" "val lo \<le> val cl" "val cl \<le> val hi" "0 \<le> val vol"
  using assms by (auto simp: price_issues_def negative_price_def outside_def split: if_splits)

lemma string_field_None: "string_field raw f = (None, []) \<Longrightarrow> dict_get raw (u f) = None"
  by (auto simp: string_field_def split: option.splits pyval.splits)

lemma decimal_field_None: "decimal_field env raw f = (None, []) \<Longrightarrow> dict_get raw (u f) = None"
  by (auto simp: decimal_field_def Let_def split: option.splits pyval.splits)

lemma integer_field_None: "integer_field env raw f = Inr (None, []) \<Longrightarrow> dict_get raw (u f) = None"
  by (auto simp: integer_field_def Let_def rbind_Inr_iff split: option.splits pyval.splits)

lemma symbol_issues_Nil: "symbol_issues (Some s) n requested = [] \<Longrightarrow> n = requested"
  by (auto simp: symbol_issues_def split: if_splits)

lemma validate_row_ok:
  assumes "validate_row env sha256 raw sq requested n = Inr r"
  shows "row_source_sequence r = sq \<and> row_raw_payload r = raw \<and> row_ok requested r"
proof -
  obtain original e1 where f1: "string_field raw ''l18'' = (original, e1)" by fastforce
  define normalized where "normalized = (case original of Some (c # cs) \<Rightarrow> normalize_brsapi_symbol env (c # cs) | _ \<Rightarrow> [])"
  obtain rt e2 where f2: "integer_field env raw ''type'' = Inr (rt, e2)"
    using assms by (auto simp: validate_row_def f1 Let_def rbind_Inr_iff)
  obtain dc e3 where f3: "integer_field env raw ''count'' = Inr (dc, e3)"
    using assms by (auto simp: validate_row_def f1 f2 Let_def rbind_Inr_iff)
  obtain dt e4 where f4: "string_field raw ''date'' = (dt, e4)" by fastforce
  obtain tt tm e5 where f5: "time_value env raw = (tt, tm, e5)" by (cases "time_value env raw") auto
  obtain op e6 where f6: "decimal_field env raw ''open'' = (op, e6)" by fastforce
  obtain hi e7 where f7: "decimal_field env raw ''high'' = (hi, e7)" by fastforce
  obtain lo e8 where f8: "decimal_field env raw ''low'' = (lo, e8)" by fastforce
  obtain cl e9 where f9: "decimal_field env raw ''close'' = (cl, e9)" by fastforce
  obtain vol e10 where f10: "decimal_field env raw ''volume'' = (vol, e10)" by fastforce
  define day where "day = (case dt of None \<Rightarrow> None
              | Some s \<Rightarrow> (case parse_jalali_date env s of Inl _ \<Rightarrow> None | Inr d \<Rightarrow> Some d))"
  define errs where "errs = map (\<lambda>f. issue MISSING_FIELD (Some f) ''Required field is absent.'')
            (filter (\<lambda>f. dict_get raw (u f) = None) REQUIRED_ROW_FIELDS) @ e1 @ symbol_issues original normalized requested @
      e2 @ e3 @ (case dc of
              Some n \<Rightarrow> if n < 0 then [issue INVALID_NUMERIC_VALUE (Some ''count'') ''Count cannot be negative.''] else [] | None \<Rightarrow> []) @
      e4 @ (if dt \<noteq> None \<and> day = None then [issue INVALID_JALALI_DATE (Some ''date'') ''Jalali date is invalid.''] else []) @
      e5 @ e6 @ e7 @ e8 @ e9 @ e10 @ price_issues op hi lo cl vol"
  have "\<exists>c warns. r = \<lparr>row_source_sequence = sq, row_raw_payload = raw, candidate = c, row_errors = errs,
      row_warnings = warns, include_in_canonicalization = (c \<noteq> None)\<rparr> \<and>
      (if errs = [] then build_candidate sha256 raw sq normalized tt tm (original, rt, dc, dt, day, op, hi, lo, cl, vol)
       else Inr None) = Inr c"
    using assms
    unfolding validate_row_def f1 f2 f3 f4 f5 f6 f7 f8 f9 f10 Let_def prod.case rbind_simps normalized_def [symmetric]
      day_def [symmetric] errs_def [symmetric] rbind_Inr_iff
    by (elim exE conjE) (intro exI conjI, rule sum.inject(2) [THEN iffD1, symmetric], assumption+)
  then obtain c warns where r: "r = \<lparr>row_source_sequence = sq, row_raw_payload = raw, candidate = c, row_errors = errs,
      row_warnings = warns, include_in_canonicalization = (c \<noteq> None)\<rparr>"
    and c: "(if errs = [] then build_candidate sha256 raw sq normalized tt tm (original, rt, dc, dt, day, op, hi, lo, cl, vol)
       else Inr None) = Inr c"
    by (elim exE conjE)
  have present: "dict_get raw (u f) \<noteq> None" if "errs = []" "f \<in> set REQUIRED_ROW_FIELDS" for f
    using that by (auto simp: errs_def filter_empty_conv)
  show ?thesis
  proof (cases c)
    case None
    have "errs \<noteq> []"
    proof
      assume e: "errs = []"
      then have "original = None \<or> rt = None \<or> dc = None \<or> dt = None \<or> day = None \<or> op = None \<or> hi = None \<or> lo = None \<or> cl = None \<or> vol = None"
        using c None build_candidate_None by simp
      then show False
        using e f1 f2 f3 f4 f6 f7 f8 f9 f10 present [OF e, of "''l18''"] present [OF e, of "''type''"]
          present [OF e, of "''count''"] present [OF e, of "''date''"] present [OF e, of "''open''"] present [OF e, of "''high''"]
          present [OF e, of "''low''"] present [OF e, of "''close''"] present [OF e, of "''volume''"]
        by (auto simp: errs_def REQUIRED_ROW_FIELDS_def simp del: u_Cons not_None_eq dest!: string_field_None decimal_field_None integer_field_None split: if_splits)
    qed
    then show ?thesis by (simp add: r None row_ok_def)
  next
    case (Some cand)
    then have e: "errs = []" using c by (auto split: if_splits)
    then have b: "build_candidate sha256 raw sq normalized tt tm (original, rt, dc, dt, day, op, hi, lo, cl, vol) = Inr (Some cand)"
      using c Some by simp
    note v = build_candidate_Some [OF b]
    have "price_issues op hi lo cl vol = []" "symbol_issues original normalized requested = []"
      using e by (simp_all add: errs_def)
    then have "candidate_ok requested cand"
      using v price_issues_Nil [of "cand_open cand" "cand_high cand" "cand_low cand" "cand_close cand" "cand_volume cand"]
        symbol_issues_Nil by (auto simp: candidate_ok_def)
    then show ?thesis
      using e v(8) by (simp add: r Some row_ok_def)
  qed
qed

subsection \<open>The duplicate policy, row by row\<close>

text \<open>What the policy makes of row \<open>i\<close>: nothing without another row of its key; a warning when all rows of its key have
  the same hash, with only the first kept for canonicalization; an error otherwise.\<close>

definition same_key :: "row_validation_result list \<Rightarrow> nat \<Rightarrow> nat list" where
  "same_key rs i = filter (\<lambda>j. row_key (rs ! j) = row_key (rs ! i)) [0..<length rs]"

definition policy_row :: "row_validation_result list \<Rightarrow> nat \<Rightarrow> row_validation_result" where
  "policy_row rs i =
     (let r = rs ! i in
      if row_key r = None \<or> length (same_key rs i) < 2 then r
      else if \<forall>j \<in> set (same_key rs i). row_hash (rs ! j) = row_hash r
      then r\<lparr>row_warnings := row_warnings r @ [duplicate_warning], include_in_canonicalization := (i = hd (same_key rs i))\<rparr>
      else r\<lparr>row_errors := row_errors r @ [duplicate_error], include_in_canonicalization := False\<rparr>)"

lemma fold_update:
  assumes "distinct js" and "set js \<subseteq> {..<length m}"
  shows "length (foldl (\<lambda>m i. m[i := f i (m ! i)]) m js) = length m \<and>
    (\<forall>j < length m. foldl (\<lambda>m i. m[i := f i (m ! i)]) m js ! j = (if j \<in> set js then f j (m ! j) else m ! j))"
  using assms
proof (induction js arbitrary: m)
  case (Cons a js)
  let ?m = "m[a := f a (m ! a)]"
  have IH: "length (foldl (\<lambda>m i. m[i := f i (m ! i)]) ?m js) = length ?m \<and>
    (\<forall>j < length ?m. foldl (\<lambda>m i. m[i := f i (m ! i)]) ?m js ! j = (if j \<in> set js then f j (?m ! j) else ?m ! j))"
    using Cons.prems by (intro Cons.IH) auto
  show ?case
    using IH Cons.prems by (auto simp: nth_list_update)
qed simp

lemma mark_group_nth:
  assumes "distinct g" and "set g \<subseteq> {..<length m}"
  shows "length (mark_group m g) = length m \<and>
    (\<forall>j < length m. mark_group m g ! j =
      (if j \<notin> set g \<or> length g < 2 then m ! j
       else if \<forall>i \<in> set g. row_hash (m ! i) = row_hash (m ! hd g)
       then (m ! j)\<lparr>row_warnings := row_warnings (m ! j) @ [duplicate_warning], include_in_canonicalization := (j = hd g)\<rparr>
       else (m ! j)\<lparr>row_errors := row_errors (m ! j) @ [duplicate_error], include_in_canonicalization := False\<rparr>))"
  using fold_update [OF assms, of "\<lambda>i r. r\<lparr>row_warnings := row_warnings r @ [duplicate_warning], include_in_canonicalization := (i = hd g)\<rparr>"]
    fold_update [OF assms, of "\<lambda>i r. r\<lparr>row_errors := row_errors r @ [duplicate_error], include_in_canonicalization := False\<rparr>"]
  by (auto simp: mark_group_def)

lemma mark_group_same:
  assumes "distinct h" and "set h \<subseteq> {..<length m}" and "h \<noteq> []" and "length m' = length m"
    and "\<And>i. i \<in> set h \<Longrightarrow> m' ! i = m ! i" and "j \<in> set h"
  shows "mark_group m' h ! j = mark_group m h ! j"
proof -
  have j: "j < length m" and hd: "m' ! hd h = m ! hd h" and mj: "m' ! j = m ! j"
    using assms by auto
  have hash: "(\<forall>i \<in> set h. row_hash (m' ! i) = row_hash (m' ! hd h)) = (\<forall>i \<in> set h. row_hash (m ! i) = row_hash (m ! hd h))"
    unfolding hd using assms(5) by (intro ball_cong) simp_all
  show ?thesis
    using conjunct2 [OF mark_group_nth [OF assms(1,2)], rule_format, OF j]
      conjunct2 [OF mark_group_nth [OF assms(1), of m'], rule_format, of j] assms(2,4) j
    unfolding mj hash by simp
qed

lemma fold_mark_group:
  assumes "\<And>g. g \<in> set gs \<Longrightarrow> distinct g \<and> set g \<subseteq> {..<length m} \<and> g \<noteq> []"
    and "sorted_wrt (\<lambda>g h. set g \<inter> set h = {}) gs"
  shows "length (foldl mark_group m gs) = length m \<and>
    (\<forall>j < length m. foldl mark_group m gs ! j =
       (case find (\<lambda>g. j \<in> set g) gs of None \<Rightarrow> m ! j | Some g \<Rightarrow> mark_group m g ! j))"
  using assms
proof (induction gs arbitrary: m)
  case (Cons g gs)
  let ?m = "mark_group m g"
  have g: "distinct g" "set g \<subseteq> {..<length m}" and disj: "\<And>h. h \<in> set gs \<Longrightarrow> set g \<inter> set h = {}"
    using Cons.prems by auto
  note mg = mark_group_nth [OF g]
  have IH: "length (foldl mark_group ?m gs) = length ?m \<and>
    (\<forall>j < length ?m. foldl mark_group ?m gs ! j =
       (case find (\<lambda>g. j \<in> set g) gs of None \<Rightarrow> ?m ! j | Some g \<Rightarrow> mark_group ?m g ! j))"
    using Cons.prems mg by (intro Cons.IH) auto
  have "foldl mark_group ?m gs ! j =
      (case find (\<lambda>g. j \<in> set g) (g # gs) of None \<Rightarrow> m ! j | Some g \<Rightarrow> mark_group m g ! j)" if j: "j < length m" for j
  proof (cases "j \<in> set g")
    case True
    then have "find (\<lambda>g. j \<in> set g) gs = None"
      using disj by (auto simp: find_None_iff)
    then show ?thesis using IH mg j True by simp
  next
    case False
    then show ?thesis
    proof (cases "find (\<lambda>g. j \<in> set g) gs")
      case None
      then show ?thesis using IH mg j False by simp
    next
      case (Some h)
      then have h: "h \<in> set gs" "j \<in> set h" by (auto simp: find_Some_iff)
      then have hh: "distinct h" "set h \<subseteq> {..<length m}" "h \<noteq> []" using Cons.prems(1) by auto
      have same: "?m ! i = m ! i" if "i \<in> set h" for i
      proof -
        have "i < length m" "i \<notin> set g" using that hh(2) disj [OF h(1)] by auto
        then show ?thesis using mg by simp
      qed
      have "mark_group ?m h ! j = mark_group m h ! j"
        using mark_group_same [OF hh, of ?m j] mg same h(2) by simp
      then show ?thesis using IH mg j False Some by simp
    qed
  qed
  then show ?case using IH mg by simp
qed simp

lemma enumerate_nth: "enumerate 0 xs = map (\<lambda>i. (i, xs ! i)) [0..<length xs]"
  by (rule nth_equalityI) (simp_all add: nth_enumerate_eq)

lemma filter_key_indexes:
  "map fst (filter (\<lambda>(i, r). the (row_key r) = k) (filter (\<lambda>(i, r). row_key r \<noteq> None) (enumerate 0 rs))) =
     filter (\<lambda>i. row_key (rs ! i) = Some k) [0..<length rs]"
proof -
  have "the (row_key (rs ! i)) = k \<and> row_key (rs ! i) \<noteq> None \<longleftrightarrow> row_key (rs ! i) = Some k" for i
    by auto
  then show ?thesis
    by (simp add: enumerate_nth filter_map comp_def case_prod_unfold conj_commute del: not_None_eq)
qed

lemma grouped_entry:
  assumes "(k, g) \<in> set (grouped_indexes rs)"
  shows "g = filter (\<lambda>i. row_key (rs ! i) = Some k) [0..<length rs]" and "g \<noteq> []"
proof -
  let ?rows = "filter (\<lambda>(i, r). row_key r \<noteq> None) (enumerate 0 rs)"
  obtain ps where ps: "(k, ps) \<in> set (group_by (\<lambda>(i, r). the (row_key r)) ?rows)" and g: "g = map fst ps"
    using assms by (auto simp: grouped_indexes_def)
  from group_by_entry(1) [OF ps]
  have "ps = filter (\<lambda>(i, r). the (row_key r) = k) ?rows" by (simp add: case_prod_unfold)
  then show "g = filter (\<lambda>i. row_key (rs ! i) = Some k) [0..<length rs]"
    unfolding g by (simp only: filter_key_indexes)
  show "g \<noteq> []" using group_by_entry(2) [OF ps] by (simp add: g)
qed

lemma grouped_has_entry:
  assumes "i < length rs" and "row_key (rs ! i) = Some k"
  shows "(k, same_key rs i) \<in> set (grouped_indexes rs)"
proof -
  let ?rows = "filter (\<lambda>(i, r). row_key r \<noteq> None) (enumerate 0 rs)"
  have "(i, rs ! i) \<in> set ?rows"
    using assms by (auto simp: enumerate_nth)
  from group_by_has_entry [OF this, of "\<lambda>(i, r). the (row_key r)"]
  have "(k, filter (\<lambda>(i, r). the (row_key r) = k) ?rows) \<in> set (group_by (\<lambda>(i, r). the (row_key r)) ?rows)"
    using assms by (simp add: case_prod_unfold)
  then have "(k, map fst (filter (\<lambda>(i, r). the (row_key r) = k) ?rows)) \<in> set (grouped_indexes rs)"
    by (force simp: grouped_indexes_def)
  then show ?thesis
    unfolding filter_key_indexes by (simp add: same_key_def assms(2))
qed

lemma grouped_wf: "distinct (map fst (grouped_indexes rs))"
  using dict_wf_group_by [of "\<lambda>(i, r). the (row_key r)" "filter (\<lambda>(i, r). row_key r \<noteq> None) (enumerate 0 rs)"]
  by (simp add: grouped_indexes_def dict_wf_def comp_def case_prod_unfold)

lemma groups_disjoint: "sorted_wrt (\<lambda>g h. set g \<inter> set h = {}) (map snd (grouped_indexes rs))"
proof (clarsimp simp: sorted_wrt_iff_nth_less)
  fix i j
  assume ij: "i < j" "j < length (grouped_indexes rs)"
  obtain k g where g: "grouped_indexes rs ! i = (k, g)" by fastforce
  obtain k' h where h: "grouped_indexes rs ! j = (k', h)" by fastforce
  have "k \<noteq> k'"
    using grouped_wf [of rs] ij g h nth_eq_iff_index_eq [of "map fst (grouped_indexes rs)" i j] by simp
  moreover have "(k, g) \<in> set (grouped_indexes rs)" "(k', h) \<in> set (grouped_indexes rs)"
    using ij g h by (metis less_trans nth_mem)+
  ultimately show "set (snd (grouped_indexes rs ! i)) \<inter> set (snd (grouped_indexes rs ! j)) = {}"
    by (auto simp: g h dest!: grouped_entry(1))
qed

lemma find_unique:
  assumes "\<And>y. y \<in> set xs \<Longrightarrow> P y \<Longrightarrow> y = x" and "x \<in> set xs" and "P x"
  shows "find P xs = Some x"
proof (cases "find P xs")
  case None
  then show ?thesis using assms(2,3) by (simp add: find_None_iff)
next
  case (Some y)
  then have "y \<in> set xs" "P y" by (auto simp: find_Some_iff)
  then show ?thesis using assms(1) Some by simp
qed

text \<open>The loop over the groups does to every row what the policy says.\<close>

lemma apply_duplicate_policy_nth:
  "length (apply_duplicate_policy rs) = length rs \<and> (\<forall>i < length rs. apply_duplicate_policy rs ! i = policy_row rs i)"
proof -
  let ?gs = "map snd (grouped_indexes rs)"
  have wf: "distinct g \<and> set g \<subseteq> {..<length rs} \<and> g \<noteq> []" if "g \<in> set ?gs" for g
    using that grouped_entry by fastforce
  note fold = fold_mark_group [of ?gs rs, OF wf groups_disjoint]
  have "(case find (\<lambda>g. i \<in> set g) ?gs of None \<Rightarrow> rs ! i | Some g \<Rightarrow> mark_group rs g ! i) = policy_row rs i"
    if i: "i < length rs" for i
  proof (cases "row_key (rs ! i)")
    case None
    have "find (\<lambda>g. i \<in> set g) ?gs = None"
      using None by (auto simp: find_None_iff dest!: grouped_entry(1))
    then show ?thesis by (simp add: policy_row_def None)
  next
    case (Some k)
    have mem: "same_key rs i \<in> set ?gs" "i \<in> set (same_key rs i)"
      using imageI [OF grouped_has_entry [OF i Some], of snd] i by (simp_all add: same_key_def)
    have "g = same_key rs i" if "g \<in> set ?gs" "i \<in> set g" for g
      using that Some by (auto simp: same_key_def dest!: grouped_entry(1))
    then have f: "find (\<lambda>g. i \<in> set g) ?gs = Some (same_key rs i)"
      using mem by (rule find_unique)
    let ?g = "same_key rs i"
    have g: "distinct ?g" "set ?g \<subseteq> {..<length rs}" "?g \<noteq> []"
      using wf [OF mem(1)] by auto
    have key: "(\<forall>j \<in> set ?g. row_hash (rs ! j) = row_hash (rs ! hd ?g)) \<longleftrightarrow> (\<forall>j \<in> set ?g. row_hash (rs ! j) = row_hash (rs ! i))"
      using mem(2) hd_in_set [OF g(3)] by metis
    show ?thesis
      using mark_group_nth [OF g(1,2)] i mem(2) key by (simp add: f policy_row_def Some Let_def)
  qed
  then show ?thesis
    using fold by (simp add: apply_duplicate_policy_def)
qed

text \<open>C34. The duplicate policy, written in the code as a loop over groups that overwrites rows of a list, is the row by
  row specification: a row is changed only when another accepted row has its symbol and date; if all of them have the
  same hash each gets a warning and only the first stays selected for canonicalization, otherwise each gets an error.\<close>

theorem duplicate_policy_row_by_row:
  "apply_duplicate_policy rs = map (policy_row rs) [0..<length rs]"
  using apply_duplicate_policy_nth [of rs] by (intro nth_equalityI) simp_all

subsection \<open>What a parse result is\<close>

lemma policy_row_keeps [simp]:
  "row_raw_payload (policy_row rs i) = row_raw_payload (rs ! i)"
  "row_source_sequence (policy_row rs i) = row_source_sequence (rs ! i)"
  "candidate (policy_row rs i) = candidate (rs ! i)"
  by (simp_all add: policy_row_def Let_def)

lemma validate_rows_ok:
  assumes "validate_rows env sha256 requested n sq raw_rows = Inr rs"
  shows "map row_raw_payload rs = raw_rows \<and> map row_source_sequence rs = map (\<lambda>i. sq + int i) [0..<length raw_rows] \<and>
    (\<forall>r \<in> set rs. row_ok requested r)"
  using assms
proof (induction raw_rows arbitrary: sq rs)
  case (Cons raw raw_rows)
  then obtain x xs where x: "validate_row env sha256 raw sq requested n = Inr x"
    and xs: "validate_rows env sha256 requested n (sq + 1) raw_rows = Inr xs" and rs: "rs = x # xs"
    by (auto simp: rbind_Inr_iff)
  have "map (\<lambda>i. sq + int i) [0..<length (raw # raw_rows)] = sq # map (\<lambda>i. sq + 1 + int i) [0..<length raw_rows]"
    by (simp add: upt_conv_Cons map_Suc_upt [symmetric] comp_def algebra_simps del: upt_Suc map_Suc_upt)
  then show ?case
    using validate_row_ok [OF x] Cons.IH [OF xs] by (simp add: rs del: upt_Suc)
qed simp

lemma accepted_row_ok: "row_ok requested r \<Longrightarrow> accepted r \<longleftrightarrow> candidate r \<noteq> None"
  by (auto simp: row_ok_def accepted_def split: option.splits)

lemma included_row:
  assumes "\<forall>r \<in> set rs. row_ok requested r" and "i < length rs" and "include_in_canonicalization (policy_row rs i)"
  shows "\<exists>c. candidate (rs ! i) = Some c \<and> candidate_ok requested c \<and> row_key (rs ! i) = Some (normalized_symbol c, trading_date c) \<and>
    (\<forall>j < length rs. row_key (rs ! j) = row_key (rs ! i) \<longrightarrow> row_hash (rs ! j) = row_hash (rs ! i)) \<and> i = hd (same_key rs i)"
proof -
  have ok: "row_ok requested (rs ! i)" using assms by simp
  have inc: "include_in_canonicalization (rs ! i)"
  proof (rule ccontr)
    assume n: "\<not> include_in_canonicalization (rs ! i)"
    then have "row_key (rs ! i) = None"
      using ok by (auto simp: row_ok_def row_key_def split: option.splits)
    then show False using assms(3) n by (simp add: policy_row_def Let_def)
  qed
  then obtain c where c: "candidate (rs ! i) = Some c" "candidate_ok requested c"
    using ok by (auto simp: row_ok_def split: option.splits)
  then have k: "row_key (rs ! i) = Some (normalized_symbol c, trading_date c)"
    using accepted_row_ok [OF ok] by (simp add: row_key_def)
  have mem: "i \<in> set (same_key rs i)" using assms(2) by (simp add: same_key_def)
  have all: "\<forall>j \<in> set (same_key rs i). row_hash (rs ! j) = row_hash (rs ! i)" and hd: "i = hd (same_key rs i)"
  proof -
    show "i = hd (same_key rs i)"
      using assms(3) k mem by (cases "same_key rs i") (auto simp: policy_row_def Let_def split: if_splits)
    show "\<forall>j \<in> set (same_key rs i). row_hash (rs ! j) = row_hash (rs ! i)"
    proof (cases "length (same_key rs i) < 2")
      case True
      then have "same_key rs i = [i]"
        using mem by (cases "same_key rs i") auto
      then show ?thesis by simp
    next
      case False
      then show ?thesis
        using assms(3) k by (auto simp: policy_row_def Let_def split: if_splits)
    qed
  qed
  have "j \<in> set (same_key rs i)" if "j < length rs" "row_key (rs ! j) = row_key (rs ! i)" for j
    using that by (simp add: same_key_def)
  then show ?thesis
    using c k all hd by blast
qed

lemma concat_map_if: "concat (map (\<lambda>i. if P i then [f i] else []) xs) = map f (filter P xs)"
  by (induction xs) auto

lemma canonical_candidates_policy:
  assumes "parse_rows p = map (policy_row rs) [0..<length rs]" and "\<forall>r \<in> set rs. row_ok requested r"
  shows "canonical_candidates p =
    map (\<lambda>i. the (candidate (rs ! i))) (filter (\<lambda>i. include_in_canonicalization (policy_row rs i)) [0..<length rs])"
proof -
  have "(case candidate (rs ! i) of None \<Rightarrow> [] | Some c \<Rightarrow> if include_in_canonicalization (policy_row rs i) then [c] else []) =
      (if include_in_canonicalization (policy_row rs i) then [the (candidate (rs ! i))] else [])" if "i < length rs" for i
    using included_row [OF assms(2) that] by (auto split: option.split)
  then show ?thesis
    unfolding canonical_candidates_def assms(1) concat_map_if [symmetric]
    by (auto intro!: arg_cong [where f = concat])
qed

text \<open>The duplicate policy keeps accepted rows of one hash accepted and rejects the rest of a group.\<close>

lemma policy_row_ok:
  assumes "row_ok requested (rs ! i)"
  shows "(accepted (policy_row rs i) \<longleftrightarrow> row_errors (policy_row rs i) = []) \<and>
    (\<forall>c. candidate (policy_row rs i) = Some c \<longrightarrow> candidate_ok requested c \<and> cand_raw_payload c = row_raw_payload (policy_row rs i))"
  using assms by (auto simp: accepted_def row_ok_def policy_row_def Let_def split: option.splits)

lemma canonical_distinct:
  assumes "parse_rows p = map (policy_row rs) [0..<length rs]" and "\<forall>r \<in> set rs. row_ok requested r"
  shows "distinct (map (\<lambda>c. (normalized_symbol c, trading_date c)) (canonical_candidates p))"
proof -
  have "i = j" if i: "i < length rs" "include_in_canonicalization (policy_row rs i)"
      and j: "j < length rs" "include_in_canonicalization (policy_row rs j)"
      and key: "(normalized_symbol (the (candidate (rs ! i))), trading_date (the (candidate (rs ! i)))) =
        (normalized_symbol (the (candidate (rs ! j))), trading_date (the (candidate (rs ! j))))" for i j
  proof -
    obtain c where c: "candidate (rs ! i) = Some c" "row_key (rs ! i) = Some (normalized_symbol c, trading_date c)" "i = hd (same_key rs i)"
      using included_row [OF assms(2) i] by (elim exE conjE)
    obtain d where d: "candidate (rs ! j) = Some d" "row_key (rs ! j) = Some (normalized_symbol d, trading_date d)" "j = hd (same_key rs j)"
      using included_row [OF assms(2) j] by (elim exE conjE)
    have "same_key rs i = same_key rs j"
      using key c(1,2) d(1,2) by (simp add: same_key_def)
    then show ?thesis using c(3) d(3) by metis
  qed
  then show ?thesis
    unfolding canonical_candidates_policy [OF assms] map_map comp_def distinct_map
    by (simp add: inj_on_def)
qed

lemma canonical_from_accepted:
  assumes "parse_rows p = map (policy_row rs) [0..<length rs]" and "\<forall>r \<in> set rs. row_ok requested r"
  shows "\<forall>c \<in> set (canonical_candidates p). candidate_ok requested c \<and> (\<exists>r \<in> set (parse_rows p). accepted r \<and> candidate r = Some c)"
proof
  fix c assume "c \<in> set (canonical_candidates p)"
  then obtain i where i: "i < length rs" "include_in_canonicalization (policy_row rs i)" and c: "c = the (candidate (rs ! i))"
    by (auto simp: canonical_candidates_policy [OF assms])
  from included_row [OF assms(2) i] c have k: "candidate (rs ! i) = Some c" "candidate_ok requested c" "row_key (rs ! i) \<noteq> None"
    by (auto simp del: not_None_eq)
  then have "accepted (policy_row rs i)"
    using i(2) by (auto simp: accepted_def row_key_def policy_row_def Let_def split: if_splits)
  then show "candidate_ok requested c \<and> (\<exists>r \<in> set (parse_rows p). accepted r \<and> candidate r = Some c)"
    using k i(1) by (auto simp: assms(1) intro!: bexI [of _ "policy_row rs i"])
qed

lemma accepted_is_represented:
  assumes "parse_rows p = map (policy_row rs) [0..<length rs]" and "\<forall>r \<in> set rs. row_ok requested r"
  shows "\<forall>r \<in> set (parse_rows p). accepted r \<longrightarrow> (\<exists>c \<in> set (canonical_candidates p).
    row_key r = Some (normalized_symbol c, trading_date c) \<and> row_hash r = Some (cand_row_payload_sha256 c))"
proof (intro ballI impI)
  fix r assume "r \<in> set (parse_rows p)" and acc: "accepted r"
  then obtain i where i: "i < length rs" and r: "r = policy_row rs i" by (auto simp: assms(1))
  have acc': "accepted (rs ! i)"
    using acc by (auto simp: r accepted_def policy_row_def Let_def split: if_splits)
  then obtain c where c: "candidate (rs ! i) = Some c" "row_key (rs ! i) = Some (normalized_symbol c, trading_date c)"
    by (auto simp: accepted_def row_key_def)
  have g: "same_key rs i \<noteq> []" "i \<in> set (same_key rs i)"
    using i by (auto simp: same_key_def filter_empty_conv)
  define h where "h = hd (same_key rs i)"
  have h: "h \<in> set (same_key rs i)" unfolding h_def by (rule hd_in_set [OF g(1)])
  then have h': "h < length rs" "row_key (rs ! h) = row_key (rs ! i)" by (auto simp: same_key_def)
  then have same: "same_key rs h = same_key rs i" by (simp add: same_key_def)
  have inc: "include_in_canonicalization (rs ! h)"
    using assms(2) h' c(2) by (force simp: row_ok_def row_key_def dest!: bspec [of _ _ "rs ! h"] split: option.splits if_splits)
  have hash: "\<forall>j \<in> set (same_key rs i). row_hash (rs ! j) = row_hash (rs ! i)"
  proof (cases "length (same_key rs i) < 2")
    case True
    then have "same_key rs i = [i]" using g by (cases "same_key rs i") auto
    then show ?thesis by simp
  next
    case False
    then show ?thesis
      using acc c(2) by (auto simp: r accepted_def policy_row_def Let_def split: if_splits)
  qed
  have "\<forall>j \<in> set (same_key rs h). row_hash (rs ! j) = row_hash (rs ! h)"
    using hash h unfolding same by metis
  then have "include_in_canonicalization (policy_row rs h)"
    using inc unfolding policy_row_def Let_def same by (simp add: h_def)
  then have d: "the (candidate (rs ! h)) \<in> set (canonical_candidates p)"
    using h'(1) by (auto simp: canonical_candidates_policy [OF assms])
  obtain e where e: "candidate (rs ! h) = Some e" "row_key (rs ! h) = Some (normalized_symbol e, trading_date e)"
    using h'(2) c(2) by (auto simp: row_key_def split: if_splits)
  have "row_key r = row_key (rs ! i)" "row_hash r = row_hash (rs ! i)"
    using acc acc' by (simp_all add: r row_key_def row_hash_def)
  then show "\<exists>c \<in> set (canonical_candidates p). row_key r = Some (normalized_symbol c, trading_date c) \<and> row_hash r = Some (cand_row_payload_sha256 c)"
    using d e h'(2) bspec [OF hash h] by (intro bexI [of _ e]) (auto simp: row_hash_def)
qed

lemma envelope_cases:
  assumes "(case e of Candlesticks rs \<Rightarrow> f rs | NoData nd \<Rightarrow> g nd) = x"
  obtains rs where "e = Candlesticks rs" "f rs = x" | nd where "e = NoData nd" "g nd = x"
  using assms by (cases e) auto

lemma parse_result_rows:
  assumes "parse_unadjusted_daily_candles env sha256 response requested_symbol = Inr p" and "no_data p = None"
  obtains rs raw_rows where "parse_candlestick_envelope response = Inr (Candlesticks raw_rows)"
    and "map row_raw_payload rs = raw_rows" and "map row_source_sequence rs = map (\<lambda>i. 1 + int i) [0..<length raw_rows]"
    and "\<forall>r \<in> set rs. row_ok (normalize_brsapi_symbol env requested_symbol) r"
    and "parse_rows p = map (policy_row rs) [0..<length rs]"
proof -
  from assms obtain raw_rows rs where e: "parse_candlestick_envelope response = Inr (Candlesticks raw_rows)"
    and v: "validate_rows env sha256 (normalize_brsapi_symbol env requested_symbol) (int (length raw_rows)) 1 raw_rows = Inr rs"
    and p: "parse_rows p = apply_duplicate_policy rs"
    by (auto simp: parse_unadjusted_daily_candles_def Let_def rbind_Inr_iff split: if_splits elim!: envelope_cases)
  have "apply_duplicate_policy rs = map (policy_row rs) [0..<length rs]"
    using apply_duplicate_policy_nth [of rs] by (intro nth_equalityI) simp_all
  then show ?thesis
    using that [OF e, of rs] validate_rows_ok [OF v] p by simp
qed

text \<open>No row of a response is lost or reordered: after a successful parse the rows are those of the envelope with
  their payloads, numbered from 1; a row is accepted exactly when it has no error, its candidate then carries the
  requested symbol, a nonnegative low and volume and open and close within low and high, and the payload of the row; the
  accepted and the rejected rows add up to the rows received.\<close>

theorem parse_keeps_every_row:
  assumes "parse_unadjusted_daily_candles env sha256 response requested_symbol = Inr p"
    and "parse_candlestick_envelope response = Inr (Candlesticks raw_rows)"
  shows "map row_raw_payload (parse_rows p) = raw_rows \<and>
    map row_source_sequence (parse_rows p) = map (\<lambda>i. 1 + int i) [0..<length raw_rows] \<and>
    (\<forall>r \<in> set (parse_rows p). (accepted r \<longleftrightarrow> row_errors r = []) \<and>
      (\<forall>c. candidate r = Some c \<longrightarrow> candidate_ok (normalize_brsapi_symbol env requested_symbol) c \<and> cand_raw_payload c = row_raw_payload r)) \<and>
    accepted_count p + rejected_count p = length raw_rows"
proof -
  have nd: "no_data p = None"
    using assms by (auto simp: parse_unadjusted_daily_candles_def Let_def rbind_Inr_iff split: if_splits)
  obtain rs where r: "map row_raw_payload rs = raw_rows" "map row_source_sequence rs = map (\<lambda>i. 1 + int i) [0..<length raw_rows]"
      "\<forall>r \<in> set rs. row_ok (normalize_brsapi_symbol env requested_symbol) r" "parse_rows p = map (policy_row rs) [0..<length rs]"
    using parse_result_rows [OF assms(1) nd] assms(2) by auto
  have rows: "map row_raw_payload (parse_rows p) = raw_rows"
    unfolding r(4) by (rule trans [OF nth_equalityI r(1)]) simp_all
  moreover have "map row_source_sequence (parse_rows p) = map (\<lambda>i. 1 + int i) [0..<length raw_rows]"
    unfolding r(4) by (rule trans [OF nth_equalityI r(2)]) simp_all
  moreover have "accepted_count p + rejected_count p = length raw_rows"
    using arg_cong [OF rows, of length] length_filter_le [of accepted "parse_rows p"]
    by (simp add: accepted_count_def rejected_count_def)
  moreover have "(accepted x \<longleftrightarrow> row_errors x = []) \<and>
      (\<forall>c. candidate x = Some c \<longrightarrow> candidate_ok (normalize_brsapi_symbol env requested_symbol) c \<and> cand_raw_payload c = row_raw_payload x)"
    if "x \<in> set (parse_rows p)" for x
    using that r(3) by (auto simp: r(4) intro!: policy_row_ok)
  ultimately show ?thesis by blast
qed

text \<open>C33. What reaches canonicalization is unambiguous: the canonical candidates of a parse have pairwise different
  symbol and date, each is well formed for the requested symbol and comes from an accepted row, and every accepted row is
  represented by a canonical candidate of its symbol, date and hash.\<close>

theorem canonical_candidates_unambiguous:
  assumes "parse_unadjusted_daily_candles env sha256 response requested_symbol = Inr p"
  shows "distinct (map (\<lambda>c. (normalized_symbol c, trading_date c)) (canonical_candidates p)) \<and>
    (\<forall>c \<in> set (canonical_candidates p). candidate_ok (normalize_brsapi_symbol env requested_symbol) c \<and>
      (\<exists>r \<in> set (parse_rows p). accepted r \<and> candidate r = Some c)) \<and>
    (\<forall>r \<in> set (parse_rows p). accepted r \<longrightarrow> (\<exists>c \<in> set (canonical_candidates p). row_key r = Some (normalized_symbol c, trading_date c) \<and>
      row_hash r = Some (cand_row_payload_sha256 c)))"
proof (cases "no_data p")
  case None
  obtain rs where r: "\<forall>r \<in> set rs. row_ok (normalize_brsapi_symbol env requested_symbol) r" "parse_rows p = map (policy_row rs) [0..<length rs]"
    by (rule parse_result_rows [OF assms None])
  show ?thesis
    by (intro conjI canonical_distinct [OF r(2,1)] canonical_from_accepted [OF r(2,1)] accepted_is_represented [OF r(2,1)])
next
  case (Some nd)
  then have "parse_rows p = []"
    using assms by (auto simp: parse_unadjusted_daily_candles_def Let_def rbind_Inr_iff split: if_splits elim!: envelope_cases)
  then show ?thesis by (simp add: canonical_candidates_def)
qed

subsection \<open>A concrete response\<close>

text \<open>Two equal candles of one day and one of another day without a volume, read with plain ASCII digits and a calendar
  that numbers days.\<close>

definition example_env :: text_env where
  "example_env = \<lparr>uni_nfkc = (\<lambda>s. s), uni_decimal = (\<lambda>c. if is_digit c then Some (c - 48) else None), uni_isdigit = is_digit,
     jalali = (\<lambda>y m d. if 1 \<le> m \<and> m \<le> 12 \<and> 1 \<le> d \<and> d \<le> 29 then Some (372 * int y + 31 * int m + int d) else None)\<rparr>"

definition example_candle :: "string \<Rightarrow> (pystr \<times> json) list" where
  "example_candle day = [(u ''close'', JInt 12), (u ''count'', JInt 3), (u ''date'', JStr (u day)), (u ''high'', JInt 13),
     (u ''l18'', JStr (u ''S'')), (u ''low'', JInt 9), (u ''open'', JInt 10), (u ''type'', JInt 2)]"

definition example_json :: json where
  "example_json = JList [JObj (example_candle ''1403/01/05'' @ [(u ''volume'', JInt 7)]),
     JObj (example_candle ''1403/01/05'' @ [(u ''volume'', JInt 7)]), JObj (example_candle ''1403/01/06'')]"

definition example_response :: brsapi_raw_response where
  "example_response = \<lparr>status_code = 200, headers = [], body_bytes = concat (map utf8_char (dumps example_json)),
     request_started_at = 0, response_received_at = 1, elapsed = 1\<rparr>"

definition example_rows :: "json_row list" where
  "example_rows = (case loaded example_json of PyList vs \<Rightarrow> (case object_rows vs of Some rs \<Rightarrow> rs | None \<Rightarrow> []) | _ \<Rightarrow> [])"

lemma digits_small: "n < 10 \<Longrightarrow> digits n = [48 + n]"
  by (simp add: digits.simps)

lemma digits_12: "digits 12 = [49, 50]" "digits 13 = [49, 51]" "digits 10 = [49, 48]"
  by (simp_all add: digits.simps)

lemma example_printable: "printable example_json"
  by (simp add: example_json_def example_candle_def digits_small digits_12 MAX_STR_DIGITS_def)

lemma example_ascii: "\<forall>c \<in> set (dumps example_json). c < 128"
  by (simp add: example_json_def example_candle_def dumps_str_def escape_char_def str_int_def digits_small digits_12)

lemma load_json_ascii:
  assumes "printable j" and "\<forall>c \<in> set (dumps j). c < 128"
  shows "load_json (concat (map utf8_char (dumps j))) = Inr (loaded j)"
proof -
  have same: "concat (map utf8_char s) = s" if "\<forall>c \<in> set s. c < 128" for s
    using that by (induction s) (auto simp: utf8_char_def)
  have e: "utf8_encode (dumps j) = Inr (dumps j)"
    using assms(2) same [OF assms(2)] by (auto simp: utf8_encode_def)
  have "utf8_decode (dumps j) = Some (dumps j)"
    using assms(2) by (intro utf8_decode_encode [OF e]) auto
  moreover have "take 3 (dumps j) \<noteq> [239, 187, 191]"
    using bspec [OF assms(2), of 239] in_set_takeD [of 239 3 "dumps j"] by auto
  ultimately show ?thesis
    unfolding load_json_def utf8_sig_decode_def same [OF assms(2)] by (simp add: json_loads_dumps [OF assms(1)])
qed

lemma example_envelope: "parse_candlestick_envelope example_response = Inr (Candlesticks example_rows)"
  using load_json_ascii [OF example_printable example_ascii]
  by (simp add: parse_candlestick_envelope_def example_response_def example_rows_def example_json_def)

lemma example_rows_eq: "example_rows = [
    map (\<lambda>(k, v). (k, loaded v)) (example_candle ''1403/01/05'' @ [(u ''volume'', JInt 7)]),
    map (\<lambda>(k, v). (k, loaded v)) (example_candle ''1403/01/05'' @ [(u ''volume'', JInt 7)]),
    map (\<lambda>(k, v). (k, loaded v)) (example_candle ''1403/01/06'')]"
  by (simp add: example_rows_def example_json_def example_candle_def)

lemma example_row_accepted:
  "\<exists>r. validate_row example_env id (map (\<lambda>(k, v). (k, loaded v)) (example_candle ''1403/01/05'' @ [(u ''volume'', JInt 7)])) sq (u ''S'') 3 = Inr r \<and>
     accepted r"
  by (simp add: example_candle_def validate_row_def string_field_def integer_field_def decimal_field_def time_value_def
      REQUIRED_ROW_FIELDS_def dict_get_def Let_def symbol_issues_def price_issues_def negative_price_def outside_def
      parse_jalali_date_def JALALI_DATE_def stripped_text_def digit_group_def example_env_def normalize_brsapi_symbol_def
      normalize_digits_def normalize_digit_def persian_letter_def py_strip_def py_isspace_def is_digit_def
      dec_of_int_def dec_lt_def dec_le_def val_of_pos accepted_def build_candidate_def row_payload_sha256_def
      dumps_str_def escape_char_def str_int_def digits_small digits_12 utf8_encode_def)

lemma example_row_rejected:
  "\<exists>r. validate_row example_env id (map (\<lambda>(k, v). (k, loaded v)) (example_candle ''1403/01/06'')) sq (u ''S'') 3 = Inr r"
  by (simp add: example_candle_def validate_row_def string_field_def integer_field_def decimal_field_def time_value_def
      REQUIRED_ROW_FIELDS_def dict_get_def Let_def)

lemma example_parses: "\<exists>p. parse_unadjusted_daily_candles example_env id example_response (u ''S'') = Inr p"
proof -
  have s: "normalize_brsapi_symbol example_env (u ''S'') = u ''S''"
    by (simp add: normalize_brsapi_symbol_def example_env_def normalize_digits_def normalize_digit_def persian_letter_def
        py_strip_def py_isspace_def)
  from example_row_accepted [of 1] example_row_accepted [of 2] example_row_rejected [of 3] obtain a b c where
    "validate_row example_env id (map (\<lambda>(k, v). (k, loaded v)) (example_candle ''1403/01/05'' @ [(u ''volume'', JInt 7)])) 1 (u ''S'') 3 = Inr a"
    "validate_row example_env id (map (\<lambda>(k, v). (k, loaded v)) (example_candle ''1403/01/05'' @ [(u ''volume'', JInt 7)])) 2 (u ''S'') 3 = Inr b"
    "validate_row example_env id (map (\<lambda>(k, v). (k, loaded v)) (example_candle ''1403/01/06'')) 3 (u ''S'') 3 = Inr c"
    by (elim exE conjE)
  then have "validate_rows example_env id (u ''S'') (int (length example_rows)) 1 example_rows = Inr [a, b, c]"
    unfolding example_rows_eq by (simp del: u_Cons map_append)
  then show ?thesis
    unfolding parse_unadjusted_daily_candles_def s Let_def example_envelope by simp
qed

theorem parse_keeps_every_row_witness:
  "\<exists>p. parse_unadjusted_daily_candles example_env id example_response (u ''S'') = Inr p \<and>
     map row_raw_payload (parse_rows p) = example_rows \<and> map row_source_sequence (parse_rows p) = [1, 2, 3] \<and>
     accepted_count p + rejected_count p = 3"
proof -
  obtain p where p: "parse_unadjusted_daily_candles example_env id example_response (u ''S'') = Inr p"
    using example_parses by (elim exE)
  have "length example_rows = 3" by (simp add: example_rows_eq)
  then show ?thesis
    using parse_keeps_every_row [OF p example_envelope] p by (intro exI [of _ p]) (simp add: upt_rec)
qed

theorem canonical_candidates_unambiguous_witness:
  "\<exists>p. parse_unadjusted_daily_candles example_env id example_response (u ''S'') = Inr p \<and> length (parse_rows p) = 3 \<and>
     distinct (map (\<lambda>c. (normalized_symbol c, trading_date c)) (canonical_candidates p)) \<and>
     (\<forall>r \<in> set (parse_rows p). accepted r \<longrightarrow>
       (\<exists>c \<in> set (canonical_candidates p). row_key r = Some (normalized_symbol c, trading_date c)))"
proof -
  obtain p where p: "parse_unadjusted_daily_candles example_env id example_response (u ''S'') = Inr p"
    using example_parses by (elim exE)
  have nd: "no_data p = None"
    using p by (auto simp: parse_unadjusted_daily_candles_def Let_def example_envelope rbind_Inr_iff split: if_splits)
  obtain rs raw_rows where "parse_candlestick_envelope example_response = Inr (Candlesticks raw_rows)"
      "map row_raw_payload rs = raw_rows" "parse_rows p = map (policy_row rs) [0..<length rs]"
    by (rule parse_result_rows [OF p nd])
  then have m: "map row_raw_payload rs = example_rows" and l: "length (parse_rows p) = length rs"
    by (simp_all add: example_envelope)
  have "length (parse_rows p) = 3"
    using arg_cong [OF m, of length] l by (simp add: example_rows_eq)
  then show ?thesis
    using canonical_candidates_unambiguous [OF p] p by (intro exI [of _ p]) blast
qed

end
