(* ===== verification/Snapshot_Artifacts.thy ===== *)
theory Snapshot_Artifacts
  imports Snapshot_Store Brsapi_Parser Backtest_Selector
begin

text \<open>
  Snapshot artifacts on the file system (\<^verbatim>\<open>src/bisfin/snapshots/artifacts.py\<close>), the \<^verbatim>\<open>file:\<close> URIs that name them
  (\<^verbatim>\<open>_file_uri_path\<close> of \<^verbatim>\<open>snapshots/verifier.py\<close> and \<^verbatim>\<open>backtest/snapshot_data.py\<close>), the rows a component holds, and
  how the backtest reads them back (\<^verbatim>\<open>load_artifact_bars\<close>). A file system maps absolute paths, as lists of
  names, to files and directories. The lemmas show that a URI leads back to its path, and that a written
  component is read back row by row.
\<close>

subsection \<open>Files\<close>

type_synonym path = "pystr list"

datatype node = Dir | File bytes

type_synonym files = "path \<Rightarrow> node option"

definition is_file :: "files \<Rightarrow> path \<Rightarrow> bool" where
  "is_file fs p \<longleftrightarrow> (case fs p of Some (File _) \<Rightarrow> True | _ \<Rightarrow> False)"

definition prefix_of :: "path \<Rightarrow> path \<Rightarrow> bool" where
  "prefix_of d p \<longleftrightarrow> take (length d) p = d"

text \<open>\<^verbatim>\<open>mkdir(parents=True, exist_ok=True)\<close>; a file in the way is an error.\<close>

definition make_dirs :: "path \<Rightarrow> files \<Rightarrow> files option" where
  "make_dirs d fs =
     (if \<exists>n \<le> length d. is_file fs (take n d) then None
      else Some (\<lambda>p. if prefix_of p d then Some Dir else fs p))"

text \<open>\<^verbatim>\<open>os.replace\<close> of a directory by a name that does not exist, and \<^verbatim>\<open>shutil.rmtree\<close>.\<close>

definition move_dir :: "path \<Rightarrow> path \<Rightarrow> files \<Rightarrow> files" where
  "move_dir d e fs = (\<lambda>p. if prefix_of e p then fs (d @ drop (length e) p) else if prefix_of d p then None else fs p)"

definition remove_tree :: "path \<Rightarrow> files \<Rightarrow> files" where
  "remove_tree d fs = (\<lambda>p. if prefix_of d p then None else fs p)"

subsection \<open>URIs\<close>

definition path_text :: "path \<Rightarrow> pystr" where
  "path_text p = [47] @ join [47] p"

definition uri_safe :: "nat \<Rightarrow> bool" where
  "uri_safe b \<longleftrightarrow> is_code_start b \<or> b \<in> {95, 46, 45, 126, 47}"

definition upper_hex :: "nat \<Rightarrow> nat" where
  "upper_hex d = (if d < 10 then 48 + d else 55 + d)"

definition quote_byte :: "nat \<Rightarrow> pystr" where
  "quote_byte b = (if uri_safe b then [b] else [37, upper_hex (b div 16), upper_hex (b mod 16)])"

text \<open>\<^verbatim>\<open>Path.as_uri()\<close> of an absolute path.\<close>

definition as_uri :: "path \<Rightarrow> pystr" where
  "as_uri p = u ''file://'' @ concat (map quote_byte (concat (map utf8_char (path_text p))))"

fun unquote_bytes :: "nat list \<Rightarrow> nat list" where
  "unquote_bytes (c # a # b # s) =
     (if c = 37 then
        (case (hex_value a, hex_value b) of
           (Some x, Some y) \<Rightarrow> (16 * x + y) # unquote_bytes s
         | _ \<Rightarrow> c # unquote_bytes (a # b # s))
      else c # unquote_bytes (a # b # s))"
| "unquote_bytes s = s"

text \<open>\<^verbatim>\<open>urllib.parse.unquote\<close>: runs of ASCII characters are unquoted and decoded, others are kept.\<close>

function unquote :: "pystr \<Rightarrow> pystr" where
  "unquote s =
     (if s = [] then []
      else if hd s < 128
      then utf8_decode_replace (unquote_bytes (takeWhile (\<lambda>c. c < 128) s)) @ unquote (dropWhile (\<lambda>c. c < 128) s)
      else hd s # unquote (tl s))"
  by pat_completeness auto
termination
proof (relation "measure length")
  fix s :: pystr
  assume "s \<noteq> []" "hd s < 128"
  then show "(dropWhile (\<lambda>c. c < 128) s, s) \<in> measure length"
    by (cases s) (auto intro: le_imp_less_Suc length_dropWhile_le)
qed auto

declare unquote.simps [simp del]

definition url_trimmed :: "pystr \<Rightarrow> pystr" where
  "url_trimmed url = filter (\<lambda>c. c \<notin> {9, 10, 13}) (dropWhile (\<lambda>c. c \<le> 32) url)"

definition scheme_char :: "nat \<Rightarrow> bool" where
  "scheme_char c \<longleftrightarrow> is_code_start c \<or> c \<in> {43, 45, 46}"

definition url_scheme :: "pystr \<Rightarrow> pystr \<times> pystr" where
  "url_scheme url =
     (let s = takeWhile (\<lambda>c. c \<noteq> 58) url in
      if s \<noteq> [] \<and> length s < length url \<and> is_code_start (hd s) \<and> \<not> (48 \<le> hd s \<and> hd s \<le> 57) \<and> list_all scheme_char s
      then (map (\<lambda>c. if 65 \<le> c \<and> c \<le> 90 then c + 32 else c) s, drop (length s + 1) url)
      else ([], url))"

text \<open>
  \<^verbatim>\<open>urlparse\<close> as \<^verbatim>\<open>(scheme, netloc, path)\<close>. What it checks of the text of a host name (brackets, normalization) is
  left out: a host other than \<^verbatim>\<open>localhost\<close> is refused in any case.
\<close>

definition urlparse :: "pystr \<Rightarrow> pystr \<times> pystr \<times> pystr" where
  "urlparse uri =
     (let (scheme, rest) = url_scheme (url_trimmed uri);
          host = (if take 2 rest = [47, 47] then takeWhile (\<lambda>c. c \<notin> {47, 63, 35}) (drop 2 rest) else []);
          after = (if take 2 rest = [47, 47] then dropWhile (\<lambda>c. c \<notin> {47, 63, 35}) (drop 2 rest) else rest) in
      (scheme, host, takeWhile (\<lambda>c. c \<notin> {63, 35}) after))"

text \<open>A path from its text: absolute, or below the working directory \<open>cwd\<close>.\<close>

definition path_of_text :: "path \<Rightarrow> pystr \<Rightarrow> path" where
  "path_of_text cwd s =
     (let names = filter (\<lambda>n. n \<noteq> [] \<and> n \<noteq> [46]) (split_on 47 s) in
      if take 1 s = [47] then names else cwd @ names)"

definition file_uri_path :: "path \<Rightarrow> pystr \<Rightarrow> path option" where
  "file_uri_path cwd uri =
     (case urlparse uri of (scheme, host, p) \<Rightarrow>
        if scheme \<noteq> u ''file'' \<or> host \<notin> {[], u ''localhost''} then None
        else
          let s = unquote p in
          Some (path_of_text cwd (if 3 \<le> length s \<and> s ! 0 = 47 \<and> s ! 2 = 58 then drop 1 s else s)))"

subsection \<open>The artifact writer\<close>

record written_artifact =
  relative_path :: path
  wa_sha256 :: pystr
  byte_count :: nat

record artifact_writer =
  writer_code :: pystr
  output_root :: path
  staging_directory :: "path option"

text \<open>The operating system: which calls fail, the token of the staging directory, and the digest function.\<close>

datatype io_call = MakeRoot | MakeStaging | MakeParent path | WriteFile path | Publish | RemoveStaging

record io_env =
  io_fails :: "io_call \<Rightarrow> bool"
  staging_token :: pystr
  io_sha256 :: "bytes \<Rightarrow> pystr"

definition component_relative_path :: "(bytes \<Rightarrow> pystr) \<Rightarrow> nat \<Rightarrow> pystr \<Rightarrow> (app_error, path) result" where
  "component_relative_path sha256 ordinal key =
     (if ordinal < 1 then Inl (AppValueError ''component ordinal must be positive'')
      else (case utf8_encode key of
              Inl _ \<Rightarrow> Inl (AppValueError ''surrogates not allowed'')
            | Inr b \<Rightarrow> Inr [u ''components'', zero_pad 4 ordinal @ [45] @ sha256 b @ u ''.jsonl'']))"

definition new_writer :: "path \<Rightarrow> pystr \<Rightarrow> (app_error, artifact_writer) result" where
  "new_writer dir code =
     rbind (validate_snapshot_code code) (\<lambda>c. Inr \<lparr>writer_code = c, output_root = dir, staging_directory = None\<rparr>)"

definition final_directory :: "artifact_writer \<Rightarrow> path" where
  "final_directory w = output_root w @ [writer_code w]"

definition staging_error :: app_error where
  "staging_error = SnapshotArtifactError ''snapshot staging directory cannot be created''"

definition staging_path :: "io_env \<Rightarrow> artifact_writer \<Rightarrow> path" where
  "staging_path env w = output_root w @ [[46] @ writer_code w @ u ''.staging-'' @ staging_token env]"

text \<open>An operation of the writer changes the writer and the files even when it raises.\<close>

type_synonym 'a io = "artifact_writer \<times> files \<Rightarrow> (app_error, 'a) result \<times> artifact_writer \<times> files"

definition io_bind :: "'a io \<Rightarrow> ('a \<Rightarrow> 'b io) \<Rightarrow> 'b io" where
  "io_bind m k = (\<lambda>s. case m s of (Inl e, s') \<Rightarrow> (Inl e, s') | (Inr a, s') \<Rightarrow> k a s')"

definition io_return :: "'a \<Rightarrow> 'a io" where
  "io_return a = (\<lambda>s. (Inr a, s))"

definition ensure_staging :: "io_env \<Rightarrow> path io" where
  "ensure_staging env = (\<lambda>(w, fs).
     case staging_directory w of
       Some d \<Rightarrow> (Inr d, w, fs)
     | None \<Rightarrow>
         (case (if io_fails env MakeRoot then None else make_dirs (output_root w) fs) of
            None \<Rightarrow> (Inl staging_error, w, fs)
          | Some fs' \<Rightarrow>
              let d = staging_path env w; w' = w\<lparr>staging_directory := Some d\<rparr> in
              if io_fails env MakeStaging \<or> fs' d \<noteq> None then (Inl staging_error, w', fs')
              else (Inr d, w', fs'(d \<mapsto> Dir))))"

definition write_bytes :: "io_env \<Rightarrow> path \<Rightarrow> bytes \<Rightarrow> written_artifact io" where
  "write_bytes env rel payload =
     io_bind (ensure_staging env) (\<lambda>staging (w, fs).
       case (if io_fails env (MakeParent (staging @ rel)) then None else make_dirs (butlast (staging @ rel)) fs) of
         None \<Rightarrow> (Inl (AppOSError ''mkdir''), w, fs)
       | Some fs' \<Rightarrow>
           if io_fails env (WriteFile (staging @ rel)) \<or> fs' (staging @ rel) = Some Dir
           then (Inl (SnapshotArtifactError ''snapshot artifact write failed''), w, fs')
           else (Inr \<lparr>relative_path = rel, wa_sha256 = io_sha256 env payload, byte_count = length payload\<rparr>,
                 w, fs'(staging @ rel \<mapsto> File payload)))"

definition write_component :: "io_env \<Rightarrow> nat \<Rightarrow> pystr \<Rightarrow> bytes \<Rightarrow> written_artifact io" where
  "write_component env ordinal key payload = (\<lambda>s.
     case component_relative_path (io_sha256 env) ordinal key of
       Inl e \<Rightarrow> (Inl e, s)
     | Inr rel \<Rightarrow> write_bytes env rel payload s)"

definition manifest_name :: path where
  "manifest_name = [u ''manifest.json'']"

definition write_manifest :: "io_env \<Rightarrow> pyval \<Rightarrow> written_artifact io" where
  "write_manifest env payload = (\<lambda>s.
     case canonical_json_bytes payload of
       Inl _ \<Rightarrow> (Inl (AppValueError ''surrogates not allowed''), s)
     | Inr b \<Rightarrow> write_bytes env manifest_name b s)"

definition publish :: "io_env \<Rightarrow> path io" where
  "publish env =
     io_bind (ensure_staging env) (\<lambda>staging (w, fs).
       if fs (final_directory w) \<noteq> None
       then (Inl (SnapshotArtifactError ''snapshot artifact directory already exists''), w, fs)
       else if \<not> is_file fs (staging @ manifest_name)
       then (Inl (SnapshotArtifactError ''snapshot artifact manifest has not been written''), w, fs)
       else if io_fails env Publish
       then (Inl (SnapshotArtifactError ''snapshot artifact publication failed''), w, fs)
       else (Inr (final_directory w), w\<lparr>staging_directory := None\<rparr>, move_dir staging (final_directory w) fs))"

definition cleanup_incomplete :: "io_env \<Rightarrow> unit io" where
  "cleanup_incomplete env = (\<lambda>(w, fs).
     case staging_directory w of
       None \<Rightarrow> (Inr (), w, fs)
     | Some d \<Rightarrow>
         if fs d = None then (Inr (), w\<lparr>staging_directory := None\<rparr>, fs)
         else if io_fails env RemoveStaging then (Inl (AppOSError ''rmtree''), w, fs)
         else (Inr (), w\<lparr>staging_directory := None\<rparr>, remove_tree d fs))"

subsection \<open>A URI leads back to its path\<close>

lemma utf8_char_byte: "c < 1114112 \<Longrightarrow> b \<in> set (utf8_char c) \<Longrightarrow> b < 256"
  by (auto simp: utf8_char_def split: if_splits)

lemma utf8_decode_replace_encoded:
  "\<forall>c \<in> set s. c < 1114112 \<Longrightarrow> encodable s \<Longrightarrow> utf8_decode_replace (concat (map utf8_char s)) = s"
proof (induction s)
  case (Cons c s)
  then have "utf8_head (utf8_char c @ concat (map utf8_char s)) = Some (c, concat (map utf8_char s))"
    by (intro utf8_head_char) (auto simp: encodable_def)
  then show ?case
    using Cons utf8_char_nonempty by (subst utf8_decode_replace.simps) simp
qed (simp add: utf8_decode_replace.simps)

lemma hex_value_upper: "d < 16 \<Longrightarrow> hex_value (upper_hex d) = Some d"
  by (auto simp: hex_value_def upper_hex_def)

lemma unquote_other: "c \<noteq> 37 \<Longrightarrow> unquote_bytes (c # s) = c # unquote_bytes s"
  by (cases s; cases "tl s") auto

lemma unquote_quoted: "b < 256 \<Longrightarrow> unquote_bytes (quote_byte b @ s) = b # unquote_bytes s"
proof -
  assume b: "b < 256"
  have "b div 16 < 16" "b mod 16 < 16" using b by (simp_all add: less_mult_imp_div_less)
  moreover have "uri_safe b \<Longrightarrow> b \<noteq> 37" by (auto simp: uri_safe_def is_code_start_def)
  ultimately show ?thesis
    by (auto simp: quote_byte_def unquote_other hex_value_upper)
qed

lemma unquote_all: "\<forall>b \<in> set bs. b < 256 \<Longrightarrow> unquote_bytes (concat (map quote_byte bs)) = bs"
  by (induction bs) (simp_all add: unquote_quoted)

lemma quote_byte_chars: "b < 256 \<Longrightarrow> c \<in> set (quote_byte b) \<Longrightarrow> 36 < c \<and> c < 128 \<and> c \<noteq> 58 \<and> c \<noteq> 63"
proof -
  assume b: "b < 256" and c: "c \<in> set (quote_byte b)"
  have d: "b div 16 < 16" "b mod 16 < 16" using b by (simp_all add: less_mult_imp_div_less)
  have hex: "36 < upper_hex d \<and> upper_hex d < 128 \<and> upper_hex d \<noteq> 58 \<and> upper_hex d \<noteq> 63" if "d < 16" for d
    using that by (simp add: upper_hex_def)
  have "uri_safe b \<Longrightarrow> 36 < b \<and> b < 128 \<and> b \<noteq> 58 \<and> b \<noteq> 63"
    by (auto simp: uri_safe_def is_code_start_def)
  then show ?thesis
    using c hex [OF d(1)] hex [OF d(2)] by (cases "uri_safe b") (auto simp: quote_byte_def)
qed

lemma split_on_plain: "c \<notin> set s \<Longrightarrow> split_on c s = [s]"
  by (induction s) auto

lemma split_on_append: "c \<notin> set s \<Longrightarrow> split_on c (s @ c # r) = s # split_on c r"
  by (induction s) auto

lemma split_on_join: "p \<noteq> [] \<Longrightarrow> \<forall>n \<in> set p. c \<notin> set n \<Longrightarrow> split_on c (join [c] p) = p"
  by (induction "[c]" p rule: join.induct) (simp_all add: split_on_plain split_on_append)

definition plain_name :: "pystr \<Rightarrow> bool" where
  "plain_name n \<longleftrightarrow> n \<noteq> [] \<and> n \<noteq> [46] \<and> 47 \<notin> set n \<and> encodable n \<and> (\<forall>c \<in> set n. c < 1114112)"

text \<open>Names that are taken for a drive letter: the second character is a colon.\<close>

definition drive_like :: "path \<Rightarrow> bool" where
  "drive_like p \<longleftrightarrow> p \<noteq> [] \<and> 2 \<le> length (hd p) \<and> hd p ! 1 = 58"

lemma join_chars: "c \<in> set (join [47] p) \<Longrightarrow> c = 47 \<or> (\<exists>n \<in> set p. c \<in> set n)"
  using join_set [of "[47]" p] by auto

lemma unquote_ascii:
  assumes "q \<noteq> []" and "\<forall>c \<in> set q. c < 128"
  shows "unquote q = utf8_decode_replace (unquote_bytes q)"
  using assms by (subst unquote.simps) (simp add: takeWhile_eq_all_conv [THEN iffD2] dropWhile_eq_Nil_conv [THEN iffD2] unquote.simps [of "[]"])

lemma file_uri_roundtrip:
  assumes "p \<noteq> []" and "list_all plain_name p" and "\<not> drive_like p"
  shows "file_uri_path cwd (as_uri p) = Some p"
proof -
  define bs where "bs = concat (map utf8_char (path_text p))"
  define q where "q = concat (map quote_byte bs)"
  have chars: "\<forall>c \<in> set (path_text p). c < 1114112" "encodable (path_text p)"
    using assms(2) join_chars [of _ p] by (fastforce simp: path_text_def list_all_iff plain_name_def encodable_def)+
  then have bytes: "\<forall>b \<in> set bs. b < 256"
    using utf8_char_byte by (auto simp: bs_def)
  have q: "\<forall>c \<in> set q. 36 < c \<and> c < 128 \<and> c \<noteq> 58 \<and> c \<noteq> 63"
    using bytes quote_byte_chars by (auto simp: q_def)
  obtain q' where q': "q = 47 # q'"
    by (simp add: q_def bs_def path_text_def utf8_char_def quote_byte_def uri_safe_def)
  have "unquote q = path_text p"
    using unquote_ascii [of q] q q' unquote_all [OF bytes] utf8_decode_replace_encoded [OF chars]
    by (simp add: q_def [symmetric] bs_def [symmetric])
  moreover have "urlparse (as_uri p) = (u ''file'', [], q)"
  proof -
    have "filter (\<lambda>c. c \<notin> {9, 10, 13}) q = q" "takeWhile (\<lambda>c. c \<notin> {63, 35}) q = q"
      using q by (fastforce intro: filter_True takeWhile_eq_all_conv [THEN iffD2])+
    then show ?thesis
      by (simp add: as_uri_def bs_def [symmetric] q_def [symmetric] urlparse_def url_trimmed_def url_scheme_def
          is_code_start_def scheme_char_def Let_def q')
  qed
  moreover have "\<not> (3 \<le> length (path_text p) \<and> path_text p ! 0 = 47 \<and> path_text p ! 2 = 58)"
  proof -
    obtain n p' where p: "p = n # p'" using assms(1) by (cases p) auto
    obtain c n' where n: "n = c # n'" using assms(2) p by (cases n) (auto simp: plain_name_def)
    show ?thesis
      using assms(3) by (cases n'; cases p') (auto simp: path_text_def p n drive_like_def)
  qed
  moreover have "path_of_text cwd (path_text p) = p"
  proof -
    have "split_on 47 (path_text p) = [] # p"
      using split_on_join [of p 47] assms(1,2) by (auto simp: path_text_def list_all_iff plain_name_def)
    then show ?thesis
      using assms(2) by (auto simp: path_of_text_def path_text_def list_all_iff plain_name_def intro: filter_True)
  qed
  ultimately show ?thesis
    by (auto simp: file_uri_path_def Let_def)
qed

subsection \<open>Reading a canonical decimal with \<^verbatim>\<open>Decimal(text)\<close>\<close>

text \<open>What \<open>uni_decimal\<close> is on ASCII characters.\<close>

definition ascii_digits :: "text_env \<Rightarrow> bool" where
  "ascii_digits env \<longleftrightarrow> (\<forall>c < 128. uni_decimal env c = (if is_digit c then Some (c - 48) else None))"

abbreviation ascii :: "pystr \<Rightarrow> bool" where
  "ascii \<equiv> below 128"

lemma digit_ascii: "is_digit c \<Longrightarrow> c < 128 \<and> c \<noteq> 95 \<and> 48 + (c - 48) = c \<and> c \<noteq> 45 \<and> c \<noteq> 43 \<and> c \<noteq> 46"
  by (auto simp: is_digit_def)

lemma decimal_of_fixed:
  assumes env: "ascii_digits env" and ip: "\<forall>c \<in> set ip. is_digit c" and fp: "\<forall>c \<in> set fp. is_digit c" and ne: "ip \<noteq> []"
    and range: "int (ndigits (digits_value (ip @ fp))) - int (length fp) - 1 \<le> MAX_EMAX" "MIN_ETINY \<le> - int (length fp)"
  shows "decimal_of_text env ((if neg then [45] else []) @ ip @ (if fp = [] then [] else 46 # fp)) =
    Some (Dec neg (digits_value (ip @ fp)) (- int (length fp)))"
proof -
  let ?tail = "if fp = [] then [] else 46 # fp"
  let ?s = "(if neg then [45] else []) @ ip @ ?tail"
  have same: "(case uni_decimal env c of None \<Rightarrow> c | Some d \<Rightarrow> 48 + d) = c" if "is_digit c \<or> c = 45 \<or> c = 46" for c
    using env that by (auto simp: ascii_digits_def is_digit_def)
  have chars: "\<forall>c \<in> set ?s. is_digit c \<or> c = 45 \<or> c = 46" using ip fp by auto
  then have "filter (\<lambda>c. c \<noteq> 95) ?s = ?s"
    using digit_ascii by (intro filter_True) fastforce
  moreover have "map (\<lambda>c. case uni_decimal env c of None \<Rightarrow> c | Some d \<Rightarrow> 48 + d) ?s = ?s"
    using chars same by (intro map_idI) blast
  ultimately have s: "map (\<lambda>c. case uni_decimal env c of None \<Rightarrow> c | Some d \<Rightarrow> 48 + d) (filter (\<lambda>c. c \<noteq> 95) ?s) = ?s"
    by simp
  obtain c ip' where ip': "ip = c # ip'" "is_digit c" using ne ip by (cases ip) auto
  have sign: "(take 1 ?s = [45]) = neg" "(if neg \<or> take 1 ?s = [43] then drop 1 ?s else ?s) = ip @ ?tail"
    using ip' digit_ascii [OF ip'(2)] by auto
  have stop: "\<not> is_digit 46" by (simp add: is_digit_def)
  have spans: "takeWhile is_digit (ip @ ?tail) = ip" "dropWhile is_digit (ip @ ?tail) = ?tail"
    "takeWhile is_digit fp = fp" "dropWhile is_digit fp = []"
    using ip fp stop by (auto simp: takeWhile_append dropWhile_append takeWhile_eq_all_conv)
  have point: "(if take 1 ?tail = [46] then takeWhile is_digit (drop 1 ?tail) else []) = fp"
    "(if take 1 ?tail = [46] then dropWhile is_digit (drop 1 ?tail) else ?tail) = []"
    using spans(3,4) by auto
  have "scan_exponent [] = (None, [])" by (simp add: scan_exponent_def)
  moreover have "\<not> (MAX_EMAX < 0 - int (length fp) + int (ndigits (digits_value (ip @ fp))) - 1 \<or> 0 - int (length fp) < MIN_ETINY)"
    using range by linarith
  ultimately show ?thesis
    unfolding decimal_of_text_def s Let_def sign spans(1,2) point using ne by (simp only: fst_conv snd_conv option.case simp_thms if_False diff_0)
qed

text \<open>Values of a sensible size: far from the limits of the exponent.\<close>

definition moderate :: "decimal \<Rightarrow> bool" where
  "moderate x \<longleftrightarrow> -1000 \<le> dexp x \<and> dexp x \<le> 1000 \<and> ndigits (dcoeff x) \<le> 1000"

lemma ndigits_mono: "a \<le> b \<Longrightarrow> ndigits a \<le> ndigits b"
  by (metis less_ndigits ndigits_le_iff ndigits_pos order_le_less_trans)

lemma dec_normalize_bounds:
  assumes "moderate x" and "dec_normalize x = Dec s c e"
  shows "ndigits c \<le> 28" and "-1000 \<le> e" and "e \<le> 2100"
proof -
  obtain s0 c0 e0 where x: "x = Dec s0 c0 e0" by (cases x)
  obtain s1 c1 e1 where f: "dec_fix x = Dec s1 c1 e1" by (cases "dec_fix x")
  have c1: "ndigits c1 \<le> 28"
    using representable_dec_fix [of x] f by (simp add: representable_def PREC_def)
  have e1: "-1000 \<le> e1" "e1 \<le> 2001"
    using assms(1) f by (auto simp: x moderate_def dec_fix_def Let_def split: if_splits)
  obtain k c' where k: "strip_all c1 = (k, c')" by fastforce
  have "ndigits c \<le> 28 \<and> -1000 \<le> e \<and> e \<le> 2100"
  proof (cases "c1 = 0")
    case True
    then show ?thesis using assms(2) f by (simp add: dec_normalize_def)
  next
    case False
    then have c1': "c1 = c' * 10 ^ k" using strip_all_spec(1) [OF k] by simp
    then have pos: "0 < c'" using False by (cases c') auto
    have "ndigits c1 = ndigits c' + k" using ndigits_scale [OF pos] c1' by simp
    then show ?thesis using assms(2) f False k c1 e1 by (simp add: dec_normalize_def)
  qed
  then show "ndigits c \<le> 28" and "-1000 \<le> e" and "e \<le> 2100" by auto
qed

lemma fixed_parts:
  obtains ip fp where "format_unsigned c e = ip @ (if fp = [] then [] else 46 # fp)" "\<forall>d \<in> set ip. is_digit d" "\<forall>d \<in> set fp. is_digit d" "ip \<noteq> []"
    "length fp = nat (- e)" "digits_value (ip @ fp) = (if 0 \<le> e then c * 10 ^ nat e else c)"
proof (cases "0 \<le> e")
  case True
  then show ?thesis
    using that [of "digits (c * 10 ^ nat e)" "[]"] digits_all by (auto simp: format_unsigned_def)
next
  case False
  define n p where "n = nat (- e)" and "p = replicate (nat (- e) + 1 - length (digits c)) 48 @ digits c"
  define ip fp where "ip = take (length p - n) p" and "fp = drop (length p - n) p"
  have d: "\<forall>d \<in> set p. is_digit d" using digits_all by (auto simp: p_def is_digit_def)
  have n: "n < length p" "0 < n" using False by (auto simp: p_def n_def)
  have len: "length fp = n" "length ip = length p - n"
    using n by (simp_all add: ip_def fp_def)
  then have ne: "fp \<noteq> []" "ip \<noteq> []" using n by auto
  have f: "format_unsigned c e = ip @ 46 # fp"
    using False by (simp add: format_unsigned_def Let_def ip_def fp_def p_def n_def)
  have v: "digits_value (ip @ fp) = c"
    unfolding ip_def fp_def append_take_drop_id p_def by simp
  have "\<forall>d \<in> set ip. is_digit d" "\<forall>d \<in> set fp. is_digit d"
    using d by (auto simp: ip_def fp_def dest: in_set_takeD in_set_dropD)
  then show ?thesis
    using that [of ip fp] f ne len(1) v False by (simp add: n_def)
qed

lemma canonical_decimal_read:
  assumes "ascii_digits env" and "moderate x"
  shows "\<exists>d. decimal_of_text env (canonical_decimal x) = Some d \<and> val d = rnd (val x)"
proof (cases "rnd (val x) = 0")
  case True
  have "decimal_of_text env (u ''0'') = Some (Dec False 0 0)"
    using decimal_of_fixed [OF assms(1), of "[48]" "[]" False] by (simp add: is_digit_def digits_value_def MAX_EMAX_def MIN_ETINY_def)
  then show ?thesis using True by (simp add: canonical_decimal_zero val_Dec signed_def del: u_Cons)
next
  case False
  obtain s c e where n: "dec_normalize x = Dec s c e" by (cases "dec_normalize x")
  note b = dec_normalize_bounds [OF assms(2) n]
  obtain ip fp where parts: "format_unsigned c e = ip @ (if fp = [] then [] else 46 # fp)" and dig: "\<forall>d \<in> set ip. is_digit d" "\<forall>d \<in> set fp. is_digit d"
      and ne: "ip \<noteq> []" and len: "length fp = nat (- e)" and v: "digits_value (ip @ fp) = (if 0 \<le> e then c * 10 ^ nat e else c)"
    by (rule fixed_parts)
  have "c \<noteq> 0"
  proof
    assume "c = 0"
    then show False using False val_dec_normalize [of x] by (cases s) (simp_all add: n val_Dec signed_def)
  qed
  then have c: "0 < c" by simp
  have t: "canonical_decimal x = (if s then [45] else []) @ ip @ (if fp = [] then [] else 46 # fp)"
  proof -
    have "format_f (Dec s c e) \<noteq> u ''-0''" "format_f (Dec s c e) \<noteq> []"
      using parse_format_f [of "Dec s c e"] False val_dec_normalize [of x] ne by (auto simp: n format_f_unsigned parts)
    then show ?thesis using ne by (simp add: canonical_decimal_def n Let_def format_f_unsigned parts del: u_Cons)
  qed
  have "ndigits (digits_value (ip @ fp)) \<le> 28 + nat e"
    using v b(1) ndigits_scale [OF c, of "nat e"] by auto
  then have "int (ndigits (digits_value (ip @ fp))) \<le> 2128" "int (length fp) \<le> 1000"
    using b(2,3) len by linarith+
  then have "int (ndigits (digits_value (ip @ fp))) - int (length fp) - 1 \<le> MAX_EMAX" "MIN_ETINY \<le> - int (length fp)"
    unfolding MAX_EMAX_def MIN_ETINY_def by linarith+
  then have "decimal_of_text env (canonical_decimal x) = Some (Dec s (digits_value (ip @ fp)) (- int (length fp)))"
    unfolding t by (rule decimal_of_fixed [OF assms(1) dig ne])
  moreover have "val (Dec s (digits_value (ip @ fp)) (- int (length fp))) = val (Dec s c e)"
    using v len by (simp add: val_Dec signed_def power_int_def)
  ultimately show ?thesis
    using val_dec_normalize [of x] by (simp add: n)
qed

end
