(* ===== verification/Snapshot_Rows.thy ===== *)
theory Snapshot_Rows
  imports Snapshot_Artifacts
begin

text \<open>
  The rows of a snapshot component and how a backtest reads them (\<^verbatim>\<open>src/bisfin/backtest/snapshot_data.py\<close>). A
  component holds, as JSON Lines, every revision of one series that a point-in-time query could have
  returned up to the knowledge cutoff. The theorems show that reading it gives back exactly those revisions,
  with prices as serialized, and that the bars the selector then shows at an instant are those the database
  would have returned at that instant.
\<close>

subsection \<open>Rows\<close>

definition dec_cell :: "decimal option \<Rightarrow> pyval" where
  "dec_cell x = (case x of None \<Rightarrow> PyNone | Some d \<Rightarrow> PyDec d)"

definition int_cell :: "int option \<Rightarrow> pyval" where
  "int_cell x = (case x of None \<Rightarrow> PyNone | Some i \<Rightarrow> PyInt i)"

text \<open>One result row of the queries: the columns of the table and \<^verbatim>\<open>effective_available_at\<close>.\<close>

definition revision_fields :: "replay_mode \<Rightarrow> bar_revision \<Rightarrow> (pystr \<times> pyval) list" where
  "revision_fields mode r =
     [(u ''bar_open_ts'', PyDateTime (r_bar_open_ts r)), (u ''bar_series_id'', PyInt (r_bar_series_id r)),
      (u ''revision_no'', PyInt (r_revision_no r)), (u ''available_at'', PyDateTime (r_available_at r)),
      (u ''system_available_at'', PyDateTime (r_system_available_at r)), (u ''bar_close_ts'', PyDateTime (r_bar_close_ts r)),
      (u ''trading_date'', PyDate (r_trading_date r)), (u ''open_price'', PyDec (r_open_price r)),
      (u ''high_price'', PyDec (r_high_price r)), (u ''low_price'', PyDec (r_low_price r)), (u ''close_price'', PyDec (r_close_price r)),
      (u ''official_close_price'', dec_cell (r_official_close_price r)), (u ''settlement_price'', dec_cell (r_settlement_price r)),
      (u ''volume'', dec_cell (r_volume r)), (u ''quote_volume'', dec_cell (r_quote_volume r)),
      (u ''trade_count'', int_cell (r_trade_count r)), (u ''vwap'', dec_cell (r_vwap r)), (u ''open_interest'', dec_cell (r_open_interest r)),
      (u ''is_final'', PyBool (r_is_final r)), (u ''quality_flags'', PyInt (r_quality_flags r)),
      (u ''ingestion_batch_id'', PyInt (r_ingestion_batch_id r)), (u ''recorded_at'', PyDateTime (r_recorded_at r)),
      (u ''previous_close_price'', dec_cell (r_previous_close_price r)),
      (u ''effective_available_at'', PyDateTime (effective_at mode r))]"

definition revision_order :: "bar_revision \<Rightarrow> timestamp \<times> int \<times> int" where
  "revision_order r = (r_bar_open_ts r, r_bar_series_id r, r_revision_no r)"

definition component_bytes :: "replay_mode \<Rightarrow> bar_revision list \<Rightarrow> (ser_error, bytes) result" where
  "component_bytes mode rows = canonical_jsonl_bytes revision_order (\<lambda>r. PyDict (revision_fields mode r)) rows"

subsection \<open>Reading a component\<close>

text \<open>
  \<open>pd_datetime\<close> and \<open>pd_int\<close> are pydantic's validation of an aware timestamp and of an integer;
  \<open>af_cwd\<close> is the working directory.
\<close>

record artifact_env =
  af_cwd :: path
  af_text :: text_env
  pd_datetime :: "pyval \<Rightarrow> timestamp option"
  pd_int :: "pyval \<Rightarrow> int option"

definition decimal_value :: "text_env \<Rightarrow> pyval \<Rightarrow> decimal option" where
  "decimal_value env v =
     (case v of
        PyDec d \<Rightarrow> Some d
      | PyInt i \<Rightarrow> Some (dec_of_int i)
      | PyBool b \<Rightarrow> Some (dec_of_int (if b then 1 else 0))
      | PyStr s \<Rightarrow> decimal_of_text env (py_strip s)
      | _ \<Rightarrow> None)"

definition field_with :: "(pyval \<Rightarrow> 'a option) \<Rightarrow> (pystr, pyval) dict \<Rightarrow> string \<Rightarrow> 'a option" where
  "field_with f row k = Option.bind (dict_get row (u k)) f"

text \<open>One row; \<open>None\<close> for everything the loop turns into an invalid row.\<close>

definition decode_bar :: "artifact_env \<Rightarrow> pystr \<Rightarrow> decision_bar option" where
  "decode_bar env line =
     (case json_loads False line of
        Inr (PyDict row) \<Rightarrow>
          Option.bind (field_with (pd_datetime env) row ''bar_open_ts'') (\<lambda>open_ts.
          Option.bind (field_with (pd_int env) row ''bar_series_id'') (\<lambda>sid.
          Option.bind (field_with (pd_int env) row ''revision_no'') (\<lambda>no.
          Option.bind (field_with (pd_datetime env) row ''available_at'') (\<lambda>avail.
          Option.bind (field_with (pd_datetime env) row ''system_available_at'') (\<lambda>sys.
          Option.bind (field_with (pd_datetime env) row ''effective_available_at'') (\<lambda>eff.
          Option.bind (field_with (decimal_value (af_text env)) row ''close_price'') (\<lambda>price.
            Some \<lparr>bar_open_ts = open_ts, bar_series_id = sid, revision_no = no, available_at = avail, system_available_at = sys,
                  effective_available_at = eff, close_price = price\<rparr>)))))))
      | _ \<Rightarrow> None)"

definition unavailable :: "string \<Rightarrow> (backtest_error, 'a) result" where
  "unavailable m = Inl (SnapshotArtifactUnavailableError m)"

definition load_row :: "artifact_env \<Rightarrow> int \<Rightarrow> pystr \<Rightarrow> (backtest_error, decision_bar) result" where
  "load_row env expected line =
     (if line = [] then unavailable ''Snapshot component contains a blank JSONL row.''
      else (case decode_bar env line of
              None \<Rightarrow> unavailable ''Snapshot component row is invalid.''
            | Some bar \<Rightarrow>
                if bar_series_id bar \<noteq> expected then unavailable ''Snapshot component bar series does not match binding.''
                else if revision_no bar < 1 then unavailable ''Snapshot component revision number is invalid.''
                else Inr bar))"

definition load_artifact_bars :: "artifact_env \<Rightarrow> files \<Rightarrow> pystr \<Rightarrow> int \<Rightarrow> (backtest_error, decision_bar list) result" where
  "load_artifact_bars env fs uri expected =
     (case Option.bind (file_uri_path (af_cwd env) uri) fs of
        Some (File payload) \<Rightarrow>
          (case utf8_decode payload of
             None \<Rightarrow> Inl (ValueError ''invalid UTF-8'')
           | Some decoded \<Rightarrow>
               rbind (map_result (load_row env expected) (splitlines str_break decoded)) (\<lambda>rows.
                 if rows = [] then unavailable ''Snapshot component has no bar rows.'' else Inr rows))
      | _ \<Rightarrow> unavailable ''Snapshot component artifact is unavailable.'')"

subsection \<open>Rows are plain ASCII lines\<close>

lemma ascii_subset: "ascii s \<Longrightarrow> set t \<subseteq> set s \<Longrightarrow> ascii t"
  by (auto simp: below_def)

lemma ascii_parts [simp]:
  "ascii (replicate n 48)" "ascii s \<Longrightarrow> ascii (take n s)" "ascii s \<Longrightarrow> ascii (drop n s)" "ascii (zero_pad w n)"
  by (auto simp: below_def zero_pad_def dest: in_set_takeD in_set_dropD) (use below_digits [of 128] in \<open>auto simp: below_def\<close>)

lemma ascii_rstrip0 [simp]: "ascii s \<Longrightarrow> ascii (rstrip0 s)"
  by (erule ascii_subset) (auto simp: rstrip0_def dest: set_dropWhileD)

lemma ascii_iso_date [simp]: "ascii (iso_date d)"
  by (simp add: iso_date_def split: prod.split)

lemma ascii_canonical_datetime [simp]: "ascii (canonical_datetime t)"
  by (simp add: canonical_datetime_def Let_def)

lemma ascii_canonical_decimal [simp]: "ascii (canonical_decimal x)"
  by (simp add: canonical_decimal_def format_f_def Let_def split: decimal.split)

subsection \<open>A written component is read back\<close>

definition dec_json :: "decimal option \<Rightarrow> json" where
  "dec_json x = (case x of None \<Rightarrow> JNull | Some d \<Rightarrow> JStr (canonical_decimal d))"

definition int_json :: "int option \<Rightarrow> json" where
  "int_json x = (case x of None \<Rightarrow> JNull | Some i \<Rightarrow> JInt i)"

definition row_values :: "replay_mode \<Rightarrow> bar_revision \<Rightarrow> (string \<times> json) list" where
  "row_values mode r =
     [(''bar_open_ts'', JStr (canonical_datetime (r_bar_open_ts r))), (''bar_series_id'', JInt (r_bar_series_id r)),
      (''revision_no'', JInt (r_revision_no r)), (''available_at'', JStr (canonical_datetime (r_available_at r))),
      (''system_available_at'', JStr (canonical_datetime (r_system_available_at r))),
      (''bar_close_ts'', JStr (canonical_datetime (r_bar_close_ts r))), (''trading_date'', JStr (iso_date (r_trading_date r))),
      (''open_price'', JStr (canonical_decimal (r_open_price r))), (''high_price'', JStr (canonical_decimal (r_high_price r))),
      (''low_price'', JStr (canonical_decimal (r_low_price r))), (''close_price'', JStr (canonical_decimal (r_close_price r))),
      (''official_close_price'', dec_json (r_official_close_price r)), (''settlement_price'', dec_json (r_settlement_price r)),
      (''volume'', dec_json (r_volume r)), (''quote_volume'', dec_json (r_quote_volume r)), (''trade_count'', int_json (r_trade_count r)),
      (''vwap'', dec_json (r_vwap r)), (''open_interest'', dec_json (r_open_interest r)), (''is_final'', JBool (r_is_final r)),
      (''quality_flags'', JInt (r_quality_flags r)), (''ingestion_batch_id'', JInt (r_ingestion_batch_id r)),
      (''recorded_at'', JStr (canonical_datetime (r_recorded_at r))), (''previous_close_price'', dec_json (r_previous_close_price r)),
      (''effective_available_at'', JStr (canonical_datetime (effective_at mode r)))]"

definition row_json :: "replay_mode \<Rightarrow> bar_revision \<Rightarrow> json" where
  "row_json mode r = JObj (map (\<lambda>(k, v). (u k, v)) (row_values mode r))"

lemma canonicalize_cells [simp]:
  "canonicalize_json (dec_cell x) = Inr (dec_json x)" "canonicalize_json (int_cell i) = Inr (int_json i)"
  by (simp_all add: dec_cell_def dec_json_def int_cell_def int_json_def split: option.split)

lemma canonicalize_row: "canonicalize_json (PyDict (revision_fields mode r)) = Inr (row_json mode r)"
  by (simp add: revision_fields_def row_json_def row_values_def del: u_Cons)

lemma ascii_row: "json_below 128 (row_json mode r)"
  by (simp add: row_json_def row_values_def dec_json_def int_json_def split: option.split)

lemma row_names: "distinct (map fst (row_values mode r))"
  by (simp add: row_values_def)

lemma row_field: "field_of (loaded (row_json mode r)) (u k) = map_option loaded (map_of (row_values mode r) k)"
proof -
  have "map_of (map (\<lambda>(k, v). (u k, v)) kvs) (u k) = map_of kvs k" for kvs :: "(string \<times> json) list"
    by (induction kvs) (auto simp: u_inj)
  moreover have "distinct (map fst (map (\<lambda>(k, v). (u k, v)) (row_values mode r)))"
    using row_names [of mode r] by (simp add: comp_def case_prod_unfold distinct_map inj_on_def u_inj)
  ultimately show ?thesis
    unfolding row_json_def by (subst loaded_field) simp_all
qed

text \<open>Columns of the sizes the table has.\<close>

definition row_in_range :: "bar_revision \<Rightarrow> bool" where
  "row_in_range r \<longleftrightarrow>
     in_datetime_range (r_bar_open_ts r) \<and> in_datetime_range (r_available_at r) \<and> in_datetime_range (r_system_available_at r) \<and>
     in_bigint (r_bar_series_id r) \<and> in_bigint (r_revision_no r) \<and> in_bigint (r_quality_flags r) \<and> in_bigint (r_ingestion_batch_id r) \<and>
     (case r_trade_count r of None \<Rightarrow> True | Some n \<Rightarrow> in_bigint n) \<and> moderate (r_close_price r)"

lemma bigint_digits: "in_bigint i \<Longrightarrow> length (digits (nat \<bar>i\<bar>)) \<le> MAX_STR_DIGITS"
proof -
  assume "in_bigint i"
  then have "nat \<bar>i\<bar> < 10 ^ 19" by (auto simp: in_bigint_def nat_less_iff abs_if)
  then have "length (digits (nat \<bar>i\<bar>)) \<le> 19" by (rule length_digits_le) simp
  then show ?thesis by (simp add: MAX_STR_DIGITS_def)
qed

lemma printable_row:
  assumes "row_in_range r"
  shows "printable (row_json mode r)"
proof -
  have "distinct (map fst (map (\<lambda>(k, v). (u k, v)) (row_values mode r)))"
    using row_names [of mode r] by (simp add: comp_def case_prod_unfold distinct_map inj_on_def u_inj)
  moreover have "list_all (\<lambda>(k, v). printable v) (row_values mode r)"
    using assms bigint_digits by (simp add: row_values_def row_in_range_def dec_json_def int_json_def split: option.splits)
  ultimately show ?thesis
    by (simp add: row_json_def list_all_iff case_prod_unfold comp_def)
qed

text \<open>What reading relies on of pydantic and of the Unicode tables.\<close>

definition reads_canonical :: "artifact_env \<Rightarrow> bool" where
  "reads_canonical env \<longleftrightarrow> (\<forall>t. in_datetime_range t \<longrightarrow> pd_datetime env (PyStr (canonical_datetime t)) = Some t) \<and>
     (\<forall>i. pd_int env (PyInt i) = Some i) \<and> ascii_digits (af_text env)"

definition frozen_price :: "artifact_env \<Rightarrow> decimal \<Rightarrow> decimal" where
  "frozen_price env x = the (decimal_of_text (af_text env) (canonical_decimal x))"

definition frozen_bar :: "artifact_env \<Rightarrow> replay_mode \<Rightarrow> bar_revision \<Rightarrow> decision_bar" where
  "frozen_bar env mode r =
     \<lparr>bar_open_ts = r_bar_open_ts r, bar_series_id = r_bar_series_id r, revision_no = r_revision_no r, available_at = r_available_at r,
      system_available_at = r_system_available_at r, effective_available_at = effective_at mode r, close_price = frozen_price env (r_close_price r)\<rparr>"

lemma frozen_price_val: "reads_canonical env \<Longrightarrow> moderate x \<Longrightarrow> val (frozen_price env x) = rnd (val x)"
  using canonical_decimal_read [of "af_text env" x] by (auto simp: reads_canonical_def frozen_price_def)

lemma strip_canonical_decimal: "py_strip (canonical_decimal x) = canonical_decimal x"
proof -
  have "\<not> py_isspace c" if "c \<in> set (digits n)" for c n
    using set_digits [of n] that by (auto simp: py_isspace_def)
  then have "\<forall>c \<in> set (format_f y). \<not> py_isspace c" for y
    by (auto simp: format_f_def py_isspace_def Let_def dest!: in_set_takeD in_set_dropD split: decimal.splits if_splits)
  then have "\<forall>c \<in> set (canonical_decimal x). \<not> py_isspace c"
    by (simp add: canonical_decimal_def Let_def) (simp add: py_isspace_def)
  then show ?thesis unfolding py_strip_eq_iff by auto
qed

lemma decode_bar_row:
  assumes "reads_canonical env" and "row_in_range r"
  shows "decode_bar env (dumps (row_json mode r)) = Some (frozen_bar env mode r)"
proof -
  obtain row where row: "loaded (row_json mode r) = PyDict row"
    by (simp add: row_json_def)
  have get: "dict_get row (u k) = map_option loaded (map_of (row_values mode r) k)" for k
    using row_field [of mode r k] by (simp add: row field_of_def)
  have "in_datetime_range (effective_at mode r)"
    using assms(2) by (cases mode) (simp_all add: row_in_range_def effective_at_def)
  moreover have "decimal_value (af_text env) (PyStr (canonical_decimal (r_close_price r))) = Some (frozen_price env (r_close_price r))"
    using canonical_decimal_read [of "af_text env" "r_close_price r"] assms
    by (auto simp: decimal_value_def strip_canonical_decimal frozen_price_def reads_canonical_def row_in_range_def)
  ultimately show ?thesis
    using assms json_loads_dumps [OF printable_row [OF assms(2)], of False mode]
    by (simp add: decode_bar_def row field_with_def get row_values_def reads_canonical_def row_in_range_def frozen_bar_def del: u_Cons)
qed

lemma ascii_utf8: "ascii s \<Longrightarrow> concat (map utf8_char s) = s"
  by (induction s) (simp_all add: utf8_char_def)

lemma ascii_encode: "ascii s \<Longrightarrow> utf8_encode s = Inr s"
  using ascii_utf8 [of s] by (auto simp: utf8_encode_def below_def)

lemma ascii_decode: "ascii s \<Longrightarrow> utf8_decode s = Some s"
  using utf8_decode_encode [OF ascii_encode] by (fastforce simp: below_def)

lemma row_bytes: "canonical_json_bytes (PyDict (revision_fields mode r)) = Inr (dumps (row_json mode r))"
  unfolding canonical_json_bytes_def canonicalize_row using ascii_encode [OF below_dumps [OF order_refl ascii_row]] by simp

lemma component_bytes_lines:
  "component_bytes mode rows = Inr (concat (map (\<lambda>l. l @ [10]) (map (\<lambda>r. dumps (row_json mode r)) (sort_key revision_order rows))))"
  unfolding component_bytes_def canonical_jsonl_bytes_def row_bytes
  by (subst map_result_map [where g = "\<lambda>r. dumps (row_json mode r)"]) simp_all

lemma row_not_broken: "c \<in> set (dumps (row_json mode r)) \<Longrightarrow> \<not> str_break c"
proof -
  assume c: "c \<in> set (dumps (row_json mode r))"
  have "32 \<le> c" "c < 128"
    using dumps_printing [OF c] below_dumps [OF order_refl ascii_row, of mode r] c by (auto simp: below_def)
  then show ?thesis by (auto simp: str_break_def)
qed

lemma load_written_component:
  assumes "reads_canonical env" and "component_bytes mode rows = Inr b" and "file_uri_path (af_cwd env) uri = Some p"
    and "fs p = Some (File b)" and "rows \<noteq> []"
    and rows: "\<And>r. r \<in> set rows \<Longrightarrow> row_in_range r \<and> r_bar_series_id r = sid \<and> 1 \<le> r_revision_no r"
  shows "load_artifact_bars env fs uri sid = Inr (map (frozen_bar env mode) (sort_key revision_order rows))"
proof -
  let ?rows = "sort_key revision_order rows" and ?line = "\<lambda>r. dumps (row_json mode r)"
  have b: "b = concat (map (\<lambda>l. l @ [10]) (map ?line ?rows))"
    using assms(2) by (simp add: component_bytes_lines)
  have "ascii b"
    using below_dumps [OF order_refl ascii_row, of mode] by (auto simp: b below_def)
  then have dec: "utf8_decode b = Some b" by (rule ascii_decode)
  have lines: "splitlines str_break b = map ?line ?rows"
    unfolding b by (rule splitlines_terminated) (auto simp: str_break_def [of 10] dest: row_not_broken)
  have "load_row env sid (?line r) = Inr (frozen_bar env mode r)" if r: "r \<in> set ?rows" for r
  proof -
    have "?line r \<noteq> []" using dumps_start [of "row_json mode r"] by auto
    then show ?thesis
      using rows [of r] r decode_bar_row [OF assms(1), of r mode] by (simp add: load_row_def frozen_bar_def)
  qed
  then have "map_result (load_row env sid \<circ> ?line) ?rows = Inr (map (frozen_bar env mode) ?rows)"
    by (intro map_result_map) simp
  moreover have "map_result f (map g xs) = map_result (f \<circ> g) xs" for f :: "pystr \<Rightarrow> (backtest_error, decision_bar) result" and g :: "bar_revision \<Rightarrow> pystr" and xs
    by (induction xs) simp_all
  moreover have "?rows \<noteq> []" using assms(5) by (metis length_0_conv length_sort)
  ultimately show ?thesis
    by (simp add: load_artifact_bars_def assms(3,4) dec lines)
qed

subsection \<open>The greatest element of each group\<close>

definition pick_groups :: "('a \<Rightarrow> 'k::linorder) \<Rightarrow> ('a \<Rightarrow> 'm::linorder) \<Rightarrow> 'a list \<Rightarrow> 'a list" where
  "pick_groups key rnk xs =
     sort_key key (concat (map (\<lambda>(k, vs). case max_by rnk vs of None \<Rightarrow> [] | Some r \<Rightarrow> [r]) (group_by key xs)))"

lemma set_pick_groups:
  "set (pick_groups key rnk xs) = {r. \<exists>k vs. (k, vs) \<in> set (group_by key xs) \<and> max_by rnk vs = Some r}"
  by (force simp: pick_groups_def split: option.splits)

lemma pick_groups_mem:
  assumes "r \<in> set (pick_groups key rnk xs)"
  shows "r \<in> set xs" and "\<And>r'. r' \<in> set xs \<Longrightarrow> key r' = key r \<Longrightarrow> rnk r' \<le> rnk r"
proof -
  obtain k vs where g: "(k, vs) \<in> set (group_by key xs)" "max_by rnk vs = Some r"
    using assms by (auto simp: set_pick_groups)
  note vs = group_by_entry(1) [OF g(1)]
  have "r \<in> set vs" by (rule max_by_mem [OF g(2)])
  then show "r \<in> set xs" using vs by auto
  show "rnk r' \<le> rnk r" if "r' \<in> set xs" "key r' = key r" for r'
    using max_by_ge [OF g(2), of r'] that vs \<open>r \<in> set vs\<close> by auto
qed

lemma pick_groups_complete:
  assumes "r \<in> set xs"
  shows "\<exists>r' \<in> set (pick_groups key rnk xs). key r' = key r"
proof -
  let ?vs = "filter (\<lambda>s. key s = key r) xs"
  have "r \<in> set ?vs" using assms by simp
  from max_by_exists [OF this, of rnk] obtain y where y: "max_by rnk ?vs = Some y" "y \<in> set ?vs" by (elim exE conjE)
  then show ?thesis
    using group_by_has_entry [OF assms, of key] by (auto simp: set_pick_groups)
qed

lemma pick_groups_distinct:
  assumes "dict_wf d" and "\<And>k vs v. (k, vs) \<in> set d \<Longrightarrow> v \<in> set vs \<Longrightarrow> key v = k"
  shows "distinct (map key (concat (map (\<lambda>(k, vs). case max_by rnk vs of None \<Rightarrow> [] | Some r \<Rightarrow> [r]) d)))"
  using assms
proof (induction d)
  case (Cons p d)
  obtain k vs where p: "p = (k, vs)" by fastforce
  let ?f = "\<lambda>(k, vs). case max_by rnk vs of None \<Rightarrow> [] | Some r \<Rightarrow> [r]"
  have IH: "distinct (map key (concat (map ?f d)))"
    using Cons.prems by (intro Cons.IH) (auto simp: dict_wf_def)
  have "key v \<in> fst ` set d" if v: "v \<in> set (concat (map ?f d))" for v
  proof -
    obtain k' ws where w: "(k', ws) \<in> set d" "max_by rnk ws = Some v"
      using v by (auto split: option.splits)
    then have "key v = k'" using Cons.prems(2) [of k' ws v] max_by_mem [OF w(2)] by simp
    then show ?thesis using w(1) by force
  qed
  moreover have "k \<notin> fst ` set d" using Cons.prems(1) p by (auto simp: dict_wf_def)
  moreover have "key v = k" if "max_by rnk vs = Some v" for v
    using max_by_mem [OF that] Cons.prems(2) [of k vs v] p by simp
  ultimately show ?case
    using IH p by (auto split: option.splits)
qed simp

lemma pick_groups_sorted: "sorted_wrt (\<lambda>a b. key a < key b) (pick_groups key rnk xs)"
proof -
  have "distinct (map key (concat (map (\<lambda>(k, vs). case max_by rnk vs of None \<Rightarrow> [] | Some r \<Rightarrow> [r]) (group_by key xs))))"
    by (rule pick_groups_distinct [OF dict_wf_group_by]) (use group_by_entry(1) in fastforce)
  then show ?thesis
    unfolding pick_groups_def by (intro sorted_wrt_less_key) (simp_all add: distinct_map)
qed

subsection \<open>The selector shows what the database would have returned\<close>

text \<open>Later revisions of a bar become available no earlier than the ones they replace.\<close>

definition availability_ordered :: "replay_mode \<Rightarrow> bar_tables \<Rightarrow> bool" where
  "availability_ordered mode t \<longleftrightarrow>
     (\<forall>r \<in> set (revisions t). \<forall>r' \<in> set (revisions t). bar_key r = bar_key r' \<longrightarrow> r_revision_no r < r_revision_no r' \<longrightarrow>
        effective_at mode r \<le> effective_at mode r')"

lemma revision_unique:
  assumes "bar_inv t" and "r \<in> set (revisions t)" and "r' \<in> set (revisions t)" and "bar_key r = bar_key r'" and "r_revision_no r = r_revision_no r'"
  shows "r = r'"
proof -
  have "consecutive (numbers (bar_key r) (revisions t))" using assms(1) unfolding bar_inv_def by blast
  then have "distinct (numbers (bar_key r) (revisions t))"
    by (metis consecutive_def distinct_map distinct_upt inj_on_of_nat)
  then have "inj_on r_revision_no (set (filter (\<lambda>x. bar_key x = bar_key r) (revisions t)))"
    by (simp add: numbers_def distinct_map)
  then show ?thesis using assms by (auto dest: inj_onD)
qed

lemma eligible_at:
  assumes "bar_inv t" and "r \<in> set (revisions t)" and "ts \<le> cutoff"
  shows "eligible mode sid ef (min et ts) ts r \<longleftrightarrow> eligible mode sid ef et cutoff r \<and> effective_at mode r \<le> ts"
proof -
  have ok: "revision_row_ok r" using assms(1,2) by (simp add: bar_inv_def)
  then have "r_bar_open_ts r < r_bar_close_ts r" "r_available_at r \<le> effective_at mode r" "r_is_final r \<Longrightarrow> r_bar_close_ts r \<le> r_available_at r"
    by (auto simp: revision_row_ok_def effective_at_def split: replay_mode.splits)
  then show ?thesis using assms(3) by (auto simp: eligible_def)
qed

lemma bars_as_of_picks:
  "bars_as_of ac sid f e c mode t = Inr out \<Longrightarrow> out = pick_groups r_bar_open_ts (pit_rank mode) (filter (eligible mode sid f e c) (revisions t))"
  by (auto simp: bars_as_of_def pick_groups_def Let_def split: if_splits option.splits)

lemma frozen_bar_keys [simp]:
  "bar_open_ts (frozen_bar env mode r) = r_bar_open_ts r" "revision_no (frozen_bar env mode r) = r_revision_no r"
  "effective_available_at (frozen_bar env mode r) = effective_at mode r"
  by (simp_all add: frozen_bar_def)

lemma pit_rank_order:
  "effective_at mode r < effective_at mode r' \<Longrightarrow> pit_rank mode r < pit_rank mode r'"
  "effective_at mode r \<le> effective_at mode r' \<Longrightarrow> r_revision_no r < r_revision_no r' \<Longrightarrow> pit_rank mode r < pit_rank mode r'"
  by (auto simp: pit_rank_def less_prod_def)

lemma selector_agrees_with_database:
  assumes inv: "bar_inv t" and ord: "availability_ordered mode t" and ts: "ts \<le> cutoff"
    and rows: "set rows = set (filter (eligible mode sid ef et cutoff) (revisions t))"
    and sel: "make_selector (map (frozen_bar env mode) rows) = Inr s"
    and db: "bars_as_of ac sid ef (min et ts) ts mode t = Inr out"
  shows "visible_bars s ts = map (frozen_bar env mode) out"
proof (rule strictly_sorted_by_unique [where f = bar_open_ts])
  let ?E = "filter (eligible mode sid ef (min et ts) ts) (revisions t)"
  note out = bars_as_of_picks [OF db]
  have E: "r \<in> set ?E \<longleftrightarrow> r \<in> set rows \<and> effective_at mode r \<le> ts" for r
    using eligible_at [OF inv _ ts] rows by auto
  have same: "r = r'" if "r \<in> set rows" "r' \<in> set rows" "r_bar_open_ts r = r_bar_open_ts r'" "r_revision_no r = r_revision_no r'" for r r'
    using revision_unique [OF inv, of r r'] that rows by (auto simp: bar_key_def eligible_def)
  have mono: "effective_at mode r \<le> effective_at mode r'"
    if "r \<in> set rows" "r' \<in> set rows" "r_bar_open_ts r = r_bar_open_ts r'" "r_revision_no r < r_revision_no r'" for r r'
    using that rows ord by (auto simp: availability_ordered_def bar_key_def eligible_def)
  show "sorted_wrt (\<lambda>a b. bar_open_ts a < bar_open_ts b) (visible_bars s ts)"
    by (rule visible_bars_sorted [OF make_selector_wf [OF sel]])
  show "sorted_wrt (\<lambda>a b. bar_open_ts a < bar_open_ts b) (map (frozen_bar env mode) out)"
    unfolding out using pick_groups_sorted [of r_bar_open_ts "pit_rank mode" ?E] by (simp add: sorted_wrt_map)
  show "set (visible_bars s ts) = set (map (frozen_bar env mode) out)"
  proof (intro equalityI subsetI)
    fix b assume b: "b \<in> set (visible_bars s ts)"
    then obtain r where r: "r \<in> set rows" "b = frozen_bar env mode r"
      using visible_bars_rows [of s ts] make_selector_rows [OF sel] by auto
    have "effective_at mode r \<le> ts" using visible_bars_available [OF b] r(2) by simp
    then have rE: "r \<in> set ?E" using E r(1) by blast
    from pick_groups_complete [OF rE, of r_bar_open_ts "pit_rank mode"] obtain o' where o': "o' \<in> set out" "r_bar_open_ts o' = r_bar_open_ts r"
      unfolding out by (elim bexE)
    have oE: "o' \<in> set rows" "effective_at mode o' \<le> ts" using pick_groups_mem(1) [OF o'(1) [unfolded out]] E by blast+
    have "r_revision_no o' \<le> r_revision_no r"
      using visible_bars_latest [OF sel b, of "frozen_bar env mode o'"] oE o'(2) r(2) by simp
    moreover have "\<not> r_revision_no o' < r_revision_no r"
      using pick_groups_mem(2) [OF o'(1) [unfolded out] rE] mono [OF oE(1) r(1) o'(2)] pit_rank_order(2) [of mode o' r] o'(2) by auto
    ultimately have "o' = r" using same oE(1) r(1) o'(2) by simp
    then show "b \<in> set (map (frozen_bar env mode) out)" using r(2) o'(1) by simp
  next
    fix b assume "b \<in> set (map (frozen_bar env mode) out)"
    then obtain r where r: "r \<in> set out" "b = frozen_bar env mode r" by auto
    note rp = pick_groups_mem [OF r(1) [unfolded out]]
    have rows': "r \<in> set rows" "effective_at mode r \<le> ts" using rp(1) E by blast+
    have "frozen_bar env mode r \<in> set (map (frozen_bar env mode) rows)" using rows'(1) by simp
    from visible_bars_complete [OF sel this, of ts] obtain v where v: "v \<in> set (visible_bars s ts)" "bar_open_ts v = r_bar_open_ts r"
      using rows'(2) by auto
    obtain q where q: "q \<in> set rows" "v = frozen_bar env mode q"
      using v(1) visible_bars_rows [of s ts] make_selector_rows [OF sel] by auto
    have qt: "effective_at mode q \<le> ts" using visible_bars_available [OF v(1)] q(2) by simp
    have "r_revision_no r \<le> r_revision_no q"
      using visible_bars_latest [OF sel v(1), of "frozen_bar env mode r"] rows' v(2) q(2) by simp
    moreover have "\<not> r_revision_no r < r_revision_no q"
      using rp(2) [of q] E [of q] qt q v(2) mono [OF rows'(1) q(1)] pit_rank_order(2) [of mode r q] by auto
    ultimately have "r = q" using same rows'(1) q v(2) by simp
    then show "b \<in> set (visible_bars s ts)" using v(1) q(2) r(2) by simp
  qed
qed

lemma sorted_eligible: "sort_key revision_order (eligible_revisions sid ef et cutoff mode t) = eligible_revisions sid ef et cutoff mode t"
proof -
  have "revision_order = (\<lambda>r. (r_bar_open_ts r, r_bar_series_id r, r_revision_no r))"
    by (simp add: fun_eq_iff revision_order_def)
  moreover have "sort_key f xs = xs" if "sorted (map f xs)" for f :: "bar_revision \<Rightarrow> timestamp \<times> int \<times> int" and xs
    using that by (induction xs) (simp_all add: insort_is_Cons)
  ultimately show ?thesis by (simp add: eligible_revisions_def)
qed

lemma load_eligible:
  assumes "bar_inv t" and "reads_canonical env" and "\<forall>r \<in> set (eligible_revisions sid ef et cutoff mode t). row_in_range r"
    and "component_bytes mode (eligible_revisions sid ef et cutoff mode t) = Inr b"
    and "file_uri_path (af_cwd env) uri = Some p" and "fs p = Some (File b)"
    and "eligible_revisions sid ef et cutoff mode t \<noteq> []"
  shows "load_artifact_bars env fs uri sid = Inr (map (frozen_bar env mode) (eligible_revisions sid ef et cutoff mode t))"
proof -
  let ?rows = "eligible_revisions sid ef et cutoff mode t"
  have "row_in_range r \<and> r_bar_series_id r = sid \<and> 1 \<le> r_revision_no r" if "r \<in> set ?rows" for r
    using that assms(1,3) by (auto simp: eligible_revisions_def eligible_def bar_inv_def revision_row_ok_def)
  from load_written_component [where fs = fs and p = p, OF assms(2,4,5,6,7) this] show ?thesis
    by (simp add: sorted_eligible)
qed

text \<open>A component is read back as it was written: loading the artifact of all eligible revisions of a series gives
  those revisions in order, with their instants and numbers unchanged and every price equal to the stored one
  rounded to the 28 significant digits of the serialization.\<close>

theorem component_round_trips:
  assumes "bar_inv t" and "reads_canonical env" and "\<forall>r \<in> set (eligible_revisions sid ef et cutoff mode t). row_in_range r"
    and "component_bytes mode (eligible_revisions sid ef et cutoff mode t) = Inr b"
    and "file_uri_path (af_cwd env) uri = Some p" and "fs p = Some (File b)"
    and "eligible_revisions sid ef et cutoff mode t \<noteq> []"
  shows "\<exists>bars. load_artifact_bars env fs uri sid = Inr bars \<and>
    list_all2 (\<lambda>bar r. bar_open_ts bar = r_bar_open_ts r \<and> revision_no bar = r_revision_no r \<and> available_at bar = r_available_at r \<and>
       system_available_at bar = r_system_available_at r \<and> effective_available_at bar = effective_at mode r \<and>
       val (close_price bar) = rnd (val (r_close_price r))) bars (eligible_revisions sid ef et cutoff mode t)"
proof (intro exI conjI)
  show "load_artifact_bars env fs uri sid = Inr (map (frozen_bar env mode) (eligible_revisions sid ef et cutoff mode t))"
    using assms by (rule load_eligible)
qed (use frozen_price_val [OF assms(2)] assms(3) in \<open>auto simp: list_all2_map1 list_all2_same frozen_bar_def row_in_range_def\<close>)

text \<open>C39. The frozen artifact answers point-in-time questions as the database does: at any instant up to the knowledge
  cutoff, the bars visible to a strategy through the selector are, bar by bar, the revisions the database function
  \<^verbatim>\<open>market.bars_as_of\<close> returns at that instant (with prices as serialized), provided that later revisions of a bar
  do not become available before the ones they replace.\<close>

theorem artifact_replays_the_database:
  assumes "bar_inv t" and "availability_ordered mode t" and "reads_canonical env" and "ts \<le> cutoff"
    and "\<forall>r \<in> set (eligible_revisions sid ef et cutoff mode t). row_in_range r"
    and "component_bytes mode (eligible_revisions sid ef et cutoff mode t) = Inr b"
    and "file_uri_path (af_cwd env) uri = Some p" and "fs p = Some (File b)"
    and "load_artifact_bars env fs uri sid = Inr bars" and "make_selector bars = Inr s"
    and "bars_as_of ac sid ef (min et ts) ts mode t = Inr out"
  shows "list_all2 (\<lambda>bar r. bar_open_ts bar = r_bar_open_ts r \<and> revision_no bar = r_revision_no r \<and>
    effective_available_at bar = effective_at mode r \<and> val (close_price bar) = rnd (val (r_close_price r))) (visible_bars s ts) out"
proof -
  let ?rows = "eligible_revisions sid ef et cutoff mode t"
  have "?rows \<noteq> []"
    using assms(6-9) by (auto simp: component_bytes_lines load_artifact_bars_def utf8_decode.simps splitlines.simps unavailable_def)
  then have "bars = map (frozen_bar env mode) ?rows"
    using load_eligible [where fs = fs and p = p, OF assms(1,3,5-8)] assms(9) by simp
  then have eq: "visible_bars s ts = map (frozen_bar env mode) out"
    using assms(10,11) by (intro selector_agrees_with_database [OF assms(1,2,4), of ?rows sid ef et]) (simp_all add: eligible_revisions_def)
  have "row_in_range r" if "r \<in> set out" for r
  proof -
    have "r \<in> set (revisions t)" "eligible mode sid ef (min et ts) ts r"
      using pick_groups_mem(1) that bars_as_of_picks [OF assms(11)] by fastforce+
    then show ?thesis
      using assms(5) eligible_at [OF assms(1) _ assms(4)] by (auto simp: eligible_revisions_def)
  qed
  then show ?thesis
    unfolding eq using frozen_price_val [OF assms(3)] by (auto simp: list_all2_map1 list_all2_same frozen_bar_def row_in_range_def)
qed

subsection \<open>A concrete component\<close>

definition example_reader :: artifact_env where
  "example_reader = \<lparr>af_cwd = [], af_text = example_env, pd_datetime = (\<lambda>v. case v of PyStr s \<Rightarrow> Some (datetime_value s) | _ \<Rightarrow> None),
     pd_int = (\<lambda>v. case v of PyInt i \<Rightarrow> Some i | _ \<Rightarrow> None)\<rparr>"

definition frozen_row :: bar_revision where
  "frozen_row = example_revision (Dec False 2 (- 18)) 1"

lemma example_reads: "reads_canonical example_reader"
  by (simp add: reads_canonical_def example_reader_def datetime_value_canonical ascii_digits_def example_env_def)

lemma example_uri: "file_uri_path (af_cwd example_reader) (as_uri [u ''x'']) = Some [u ''x'']"
  by (rule file_uri_roundtrip) (simp_all add: plain_name_def drive_like_def)

lemma frozen_table:
  "bar_inv (example_bars [frozen_row])" "availability_ordered PUBLIC_REPLAY (example_bars [frozen_row])"
  "eligible_revisions 1 0 25 50 PUBLIC_REPLAY (example_bars [frozen_row]) = [frozen_row]" "row_in_range frozen_row"
  by (simp_all add: bar_inv_def example_bars_def numbers_def consecutive_def frozen_row_def example_revision_def revision_row_ok_def
      dec_le_val nonnegative_option_def availability_ordered_def eligible_revisions_def eligible_def effective_at_def row_in_range_def
      in_datetime_range_def EPOCH_ORDINAL_def in_bigint_def moderate_def ndigits_eval bar_key_def)

theorem component_round_trips_witness:
  "\<exists>b bars. load_artifact_bars example_reader (\<lambda>p. if p = [u ''x''] then Some (File b) else None) (as_uri [u ''x'']) 1 = Inr bars \<and>
     map revision_no bars = [1]"
proof -
  obtain b where b: "component_bytes PUBLIC_REPLAY [frozen_row] = Inr b"
    by (simp add: component_bytes_lines)
  let ?fs = "\<lambda>p. if p = [u ''x''] then Some (File b) else None"
  obtain bars where "load_artifact_bars example_reader ?fs (as_uri [u ''x'']) 1 = Inr bars"
    "map revision_no bars = [r_revision_no frozen_row]"
    using component_round_trips [OF frozen_table(1) example_reads, of 1 0 25 50 PUBLIC_REPLAY b "as_uri [u ''x'']" "[u ''x'']" ?fs] b example_uri
    unfolding frozen_table(3) using frozen_table(4) by (auto simp: list_all2_Cons2 simp del: u_Cons)
  then show ?thesis
    by (intro exI [of _ b] exI [of _ bars]) (simp add: frozen_row_def example_revision_def del: u_Cons)
qed

theorem artifact_replays_the_database_witness:
  "\<exists>b bars s. load_artifact_bars example_reader (\<lambda>p. if p = [u ''x''] then Some (File b) else None) (as_uri [u ''x'']) 1 = Inr bars \<and>
     make_selector bars = Inr s \<and> map revision_no (visible_bars s 35) = [1]"
proof -
  obtain b where b: "component_bytes PUBLIC_REPLAY [frozen_row] = Inr b"
    by (simp add: component_bytes_lines)
  let ?fs = "\<lambda>p. if p = [u ''x''] then Some (File b) else None"
  have l: "load_artifact_bars example_reader ?fs (as_uri [u ''x'']) 1 = Inr [frozen_bar example_reader PUBLIC_REPLAY frozen_row]"
    using load_eligible [OF frozen_table(1) example_reads, of 1 0 25 50 PUBLIC_REPLAY b "as_uri [u ''x'']" "[u ''x'']" ?fs] b example_uri
    unfolding frozen_table(3) using frozen_table(4) by (simp del: u_Cons)
  obtain s where s: "make_selector [frozen_bar example_reader PUBLIC_REPLAY frozen_row] = Inr s"
    by (simp add: make_selector_def Let_def)
  have db: "bars_as_of (\<lambda>_. None) 1 0 (min 25 35) 35 PUBLIC_REPLAY (example_bars [frozen_row]) = Inr [frozen_row]"
    by (simp add: bars_as_of_def get_series_by_id_def example_bars_def example_series_def frozen_row_def eligible_def example_revision_def
        effective_at_def group_by_def dict_append_def dict_get_def max_by_def)
  have "map revision_no (visible_bars s 35) = [r_revision_no frozen_row]"
    using artifact_replays_the_database [OF frozen_table(1,2) example_reads, of 35 50 1 0 25 b "as_uri [u ''x'']" "[u ''x'']" ?fs
        "[frozen_bar example_reader PUBLIC_REPLAY frozen_row]" s "\<lambda>_. None" "[frozen_row]"] b example_uri l s db
    unfolding frozen_table(3) using frozen_table(4) by (auto simp: list_all2_Cons2 simp del: u_Cons)
  then have "map revision_no (visible_bars s 35) = [1]"
    by (simp add: frozen_row_def example_revision_def)
  then show ?thesis using l s by (intro exI conjI)
qed

text \<open>
  Without that order the two disagree: when the second revision of a bar became available before the first, the
  selector shows the second (the greatest number) and the database returns the first (the latest availability).
\<close>

definition late_table :: bar_tables where
  "late_table = example_bars [frozen_row\<lparr>r_available_at := 40, r_system_available_at := 40\<rparr>, frozen_row\<lparr>r_revision_no := 2\<rparr>]"

lemma unordered_revisions_disagree:
  "bar_inv late_table \<and>
   (\<exists>s. make_selector (map (frozen_bar example_reader PUBLIC_REPLAY) (eligible_revisions 1 0 25 50 PUBLIC_REPLAY late_table)) = Inr s \<and>
      map revision_no (visible_bars s 50) = [2]) \<and>
   (\<exists>out. bars_as_of (\<lambda>_. None) 1 0 25 50 PUBLIC_REPLAY late_table = Inr out \<and> map r_revision_no out = [1])"
proof (intro conjI)
  let ?a = "frozen_row\<lparr>r_available_at := 40, r_system_available_at := 40\<rparr>" and ?b = "frozen_row\<lparr>r_revision_no := 2\<rparr>"
  show "bar_inv late_table"
    by (auto simp: bar_inv_def late_table_def example_bars_def numbers_def consecutive_def frozen_row_def example_revision_def
        revision_row_ok_def dec_le_val nonnegative_option_def bar_key_def upt_rec)
  have "eligible_revisions 1 0 25 50 PUBLIC_REPLAY late_table = [?a, ?b]"
    by (simp add: eligible_revisions_def late_table_def example_bars_def eligible_def frozen_row_def example_revision_def effective_at_def less_eq_prod_def)
  then show "\<exists>s. make_selector (map (frozen_bar example_reader PUBLIC_REPLAY) (eligible_revisions 1 0 25 50 PUBLIC_REPLAY late_table)) = Inr s \<and>
      map revision_no (visible_bars s 50) = [2]"
    by (simp add: make_selector_def group_by_def dict_append_def dict_get_def visible_bars_def latest_visible_def frozen_row_def
        example_revision_def effective_at_def max_by_def Let_def less_eq_prod_def)
  show "\<exists>out. bars_as_of (\<lambda>_. None) 1 0 25 50 PUBLIC_REPLAY late_table = Inr out \<and> map r_revision_no out = [1]"
    by (simp add: bars_as_of_def get_series_by_id_def late_table_def example_bars_def example_series_def frozen_row_def eligible_def
        example_revision_def effective_at_def group_by_def dict_append_def dict_get_def max_by_def pit_rank_def less_prod_def)
qed

end
