(* ===== verification/Canonical_Value.thy ===== *)
theory Canonical_Value
  imports Snapshot_Rows
begin

text \<open>
  What can be read back from the canonical bytes of a value (\<^verbatim>\<open>src/bisfin/snapshots/serialization.py\<close>). \<open>reads_back\<close> compares a
  Python value with what \<^verbatim>\<open>json.loads\<close> gives, without reference to the serialization: numbers, strings and nesting
  as they were, a decimal as a plain numeral of its value, a timestamp and a date as texts of their instant and day.
\<close>

subsection \<open>Texts of decimals and dates\<close>

text \<open>A numeral without an exponent.\<close>

definition plain_numeral :: "pystr \<Rightarrow> bool" where
  "plain_numeral s \<longleftrightarrow> s \<noteq> [] \<and> set s \<subseteq> {45, 46} \<union> {48..57}"

lemma plain_canonical_decimal: "plain_numeral (canonical_decimal d)"
proof -
  have body: "set (take n (replicate m 48 @ digits c)) \<subseteq> {48..57}" "set (drop n (replicate m 48 @ digits c)) \<subseteq> {48..57}" for n m c
    using set_digits [of c] by (fastforce dest: in_set_takeD in_set_dropD)+
  have "set (format_f y) \<subseteq> {45, 46} \<union> {48..57}" for y
    using set_digits body unfolding format_f_def
    by (cases y) (auto simp: Let_def subset_iff simp del: take_append drop_append take_replicate drop_replicate)
  then show ?thesis by (auto simp: plain_numeral_def canonical_decimal_def Let_def)
qed

text \<open>Reading a day from \<^verbatim>\<open>YYYY-MM-DD\<close>.\<close>

definition date_value :: "pystr \<Rightarrow> int" where
  "date_value s =
     (let num = (\<lambda>i k. int (digits_value (take k (drop i s)))) in ymd2ord (num 0 4, num 5 2, num 8 2))"

definition in_date_range :: "int \<Rightarrow> bool" where
  "in_date_range d \<longleftrightarrow> 1 \<le> d \<and> d \<le> 3652059"

lemma date_fields:
  assumes "length a = 4" "length b = 2" "length c = 2"
  shows "take 4 (drop 0 (a @ [45] @ b @ [45] @ c)) = a" "take 2 (drop 5 (a @ [45] @ b @ [45] @ c)) = b"
    "take 2 (drop 8 (a @ [45] @ b @ [45] @ c)) = c" "length (a @ [45] @ b @ [45] @ c) = 10"
  using assms by (auto simp: numeral_eq_Suc length_Suc_conv)

lemma date_value_iso:
  assumes "in_date_range d"
  shows "date_value (iso_date d) = d" and "length (iso_date d) = 10"
proof -
  obtain y m k where ymd: "ord2ymd d = (y, m, k)" by (cases "ord2ymd d") auto
  note md = ord2ymd_month_day [OF ymd] and yr = ord2ymd_year [OF ymd]
  have len: "length (zero_pad 4 (nat y)) = 4" "length (zero_pad 2 (nat m)) = 2" "length (zero_pad 2 (nat k)) = 2"
    using yr md assms by (auto intro!: length_zero_pad simp: nat_less_iff in_date_range_def)
  have iso: "iso_date d = zero_pad 4 (nat y) @ [45] @ zero_pad 2 (nat m) @ [45] @ zero_pad 2 (nat k)"
    by (simp add: iso_date_def ymd)
  note f = date_fields [OF len]
  have "ymd2ord (y, m, k) = d" using ymd2ord_ord2ymd [of d] ymd by simp
  then show "date_value (iso_date d) = d"
    unfolding date_value_def Let_def iso f(1-3) using md yr assms by (simp add: in_date_range_def)
  show "length (iso_date d) = 10" unfolding iso by (rule f(4))
qed

subsection \<open>Reading back\<close>

text \<open>The ranges of Python's types: code points, distinct keys, dates and times; integers that \<^verbatim>\<open>int\<close> converts back.\<close>

fun python_value :: "pyval \<Rightarrow> bool" where
  "python_value (PyInt i) = (length (digits (nat \<bar>i\<bar>)) \<le> MAX_STR_DIGITS)"
| "python_value (PyStr s) = below 1114112 s"
| "python_value (PyDateTime t) = in_datetime_range t"
| "python_value (PyDate d) = in_date_range d"
| "python_value (PyList vs) = list_all python_value vs"
| "python_value (PyDict fs) = (distinct (map fst fs) \<and> list_all (\<lambda>(k, v). below 1114112 k \<and> python_value v) fs)"
| "python_value _ = True"

function reads_back :: "pyval \<Rightarrow> pyval \<Rightarrow> bool" where
  "reads_back v w =
     (case (v, w) of
        (PyNone, PyNone) \<Rightarrow> True
      | (PyBool a, PyBool b) \<Rightarrow> a = b
      | (PyInt i, PyInt j) \<Rightarrow> i = j
      | (PyStr s, PyStr s') \<Rightarrow> s = s'
      | (PyDec d, PyStr s) \<Rightarrow> plain_numeral s \<and> parse_fixed s = rnd (val d)
      | (PyDateTime t, PyStr s) \<Rightarrow> datetime_value s = t
      | (PyDate d, PyStr s) \<Rightarrow> length s = 10 \<and> date_value s = d
      | (PyList xs, PyList ys) \<Rightarrow> length xs = length ys \<and> list_all (\<lambda>(x, y). reads_back x y) (zip xs ys)
      | (PyDict fs, PyDict gs) \<Rightarrow>
          sorted (map fst gs) \<and> distinct (map fst gs) \<and> set (map fst gs) = set (map fst fs) \<and>
          list_all (\<lambda>(k, x). case dict_get gs k of None \<Rightarrow> False | Some y \<Rightarrow> reads_back x y) fs
      | _ \<Rightarrow> False)"
  by pat_completeness auto
termination
proof (relation "measure (\<lambda>(v, _). size v)", goal_cases)
  case 1
  then show ?case by simp
next
  case (2 v w a b vs ws z x y)
  then show ?case by (auto dest!: set_zip_leftD simp: less_Suc_eq_le intro: size_list_estimation')
next
  case (3 v w a b fs gs z k x y)
  have "size_prod (\<lambda>x. 0) size (k, x) \<le> size_list (size_prod (\<lambda>x. 0) size) fs"
    using 3 by (intro size_list_estimation' [of "(k, x)"]) auto
  then show ?case using 3 by (auto simp: less_Suc_eq_le)
qed

declare reads_back.simps [simp del]

lemma reads_back_simps [simp]:
  "reads_back PyNone PyNone" "reads_back (PyBool a) (PyBool b) \<longleftrightarrow> a = b" "reads_back (PyInt i) (PyInt j) \<longleftrightarrow> i = j"
  "reads_back (PyStr s) (PyStr s') \<longleftrightarrow> s = s'"
  "reads_back (PyDec d) (PyStr s) \<longleftrightarrow> plain_numeral s \<and> parse_fixed s = rnd (val d)"
  "reads_back (PyDateTime t) (PyStr s) \<longleftrightarrow> datetime_value s = t"
  "reads_back (PyDate n) (PyStr s) \<longleftrightarrow> length s = 10 \<and> date_value s = n"
  "reads_back (PyList xs) (PyList ys) \<longleftrightarrow> list_all2 reads_back xs ys"
  by (subst reads_back.simps, simp add: list_all2_iff list_all_iff)+

lemma reads_back_object:
  "reads_back (PyDict fs) (PyDict gs) \<longleftrightarrow>
     sorted (map fst gs) \<and> distinct (map fst gs) \<and> set (map fst gs) = set (map fst fs) \<and>
     (\<forall>(k, x) \<in> set fs. \<exists>y. dict_get gs k = Some y \<and> reads_back x y)"
  by (subst reads_back.simps) (auto simp: list_all_iff split: option.splits)

text \<open>A value, and its canonical form as it is printed and loaded.\<close>

definition stored_as :: "pyval \<Rightarrow> json \<Rightarrow> bool" where
  "stored_as v j \<longleftrightarrow> printable j \<and> json_below 1114112 j \<and> reads_back v (loaded j)"

lemma stored_object:
  assumes fs: "list_all2 (\<lambda>(k, v) (k', j). k' = k \<and> below 1114112 k \<and> stored_as v j) fs js" and d: "distinct (map fst fs)"
  shows "stored_as (PyDict fs) (JObj js)"
proof -
  have keys: "map fst js = map fst fs"
    using fs by (induction rule: list_all2_induct) auto
  then have dj: "distinct (map fst js)" using d by simp
  have parts: "\<exists>v. (k, v) \<in> set fs \<and> below 1114112 k \<and> stored_as v j" if "(k, j) \<in> set js" for k j
    using list_all2_right [OF fs that] by auto
  have "\<exists>j. (k, j) \<in> set js \<and> stored_as v j" if "(k, v) \<in> set fs" for k v
    using fs that by (induction rule: list_all2_induct) auto
  then have "\<exists>y. dict_get (sort_key fst (map (\<lambda>(k, v). (k, loaded v)) js)) k = Some y \<and> reads_back v y" if "(k, v) \<in> set fs" for k v
    using that dj loaded_field [OF dj, of k] by (fastforce simp: field_of_def stored_as_def)
  moreover have "map fst (sort_key fst (map (\<lambda>(k, v). (k, loaded v)) js)) = sort (map fst fs)"
    unfolding keys [symmetric] by (simp add: sort_key_map comp_def case_prod_unfold)
  ultimately have "reads_back (PyDict fs) (loaded (JObj js))"
    using d by (auto simp: reads_back_object)
  then show ?thesis
    using dj parts unfolding stored_as_def by (fastforce simp: list_all_iff)
qed

lemma canonical_stored:
  "canonicalize_json v = Inr j \<Longrightarrow> python_value v \<Longrightarrow> stored_as v j"
  "canonicalize_items vs = Inr js \<Longrightarrow> list_all python_value vs \<Longrightarrow> list_all2 stored_as vs js"
  "canonicalize_fields fs = Inr gs \<Longrightarrow> list_all (\<lambda>(k, v). below 1114112 k \<and> python_value v) fs \<Longrightarrow>
     list_all2 (\<lambda>(k, v) (k', j). k' = k \<and> below 1114112 k \<and> stored_as v j) fs gs"
proof (induction v and vs and fs arbitrary: j and js and gs rule: canonicalize_json_canonicalize_items_canonicalize_fields.induct)
  case (5 d)
  have "below 1114112 (canonical_decimal d)" using ascii_canonical_decimal by (rule below_mono) simp
  then show ?case using 5 by (auto simp: stored_as_def plain_canonical_decimal parse_canonical_decimal)
next
  case (7 t)
  have "below 1114112 (canonical_datetime t)" using ascii_canonical_datetime by (rule below_mono) simp
  then show ?case using 7 by (auto simp: stored_as_def datetime_value_canonical)
next
  case (9 d)
  have "below 1114112 (iso_date d)" using ascii_iso_date by (rule below_mono) simp
  then show ?case using 9 by (auto simp: stored_as_def date_value_iso)
next
  case (10 vs)
  then obtain js where js: "canonicalize_items vs = Inr js" "j = JList js" by (auto simp: rbind_Inr_iff)
  then have "list_all2 stored_as vs js" using 10 by simp
  then have "list_all2 reads_back vs (map loaded js) \<and> list_all printable js \<and> list_all (json_below 1114112) js"
    by (induction rule: list_all2_induct) (auto simp: stored_as_def)
  then show ?case using js(2) by (simp add: stored_as_def)
next
  case (11 fs)
  then obtain js where js: "canonicalize_fields fs = Inr js" "j = JObj js" by (auto simp: rbind_Inr_iff)
  then show ?case using 11 stored_object by simp
qed (auto simp: stored_as_def rbind_Inr_iff)

text \<open>C35. Canonical bytes can be read back: every Python value (with integers short enough to convert) either has no canonical
  form, which is when it holds a naive timestamp, a non-finite decimal, a lone surrogate or a value of another type, or
  its canonical bytes are UTF-8 that \<^verbatim>\<open>json.loads\<close> turns into the value again: null, booleans, integers, strings and
  lists as they were, mappings with the same keys in sorted order, a timestamp and a date as the text of that instant and
  day, and a decimal as a plain numeral of its value rounded to 28 digits.\<close>

theorem canonical_json_roundtrip:
  assumes "python_value v"
  shows "case canonical_json_bytes v of
     Inl _ \<Rightarrow> \<not> serializable v
   | Inr b \<Rightarrow> serializable v \<and> (\<exists>text w. utf8_decode b = Some text \<and> json_loads dups text = Inr w \<and> reads_back v w)"
proof (cases "canonical_json_bytes v")
  case (Inl e)
  then show ?thesis using canonical_json_bytes_Inr_iff [of v] by auto
next
  case (Inr b)
  then obtain j where j: "canonicalize_json v = Inr j" "utf8_encode (dumps j) = Inr b"
    by (auto simp: canonical_json_bytes_def rbind_Inr_iff)
  have s: "printable j" "json_below 1114112 j" "reads_back v (loaded j)"
    using canonical_stored(1) [OF j(1) assms] by (simp_all add: stored_as_def)
  have "utf8_decode b = Some (dumps j)"
    using below_dumps [OF _ s(2)] by (intro utf8_decode_encode [OF j(2)]) (simp add: below_def)
  then show ?thesis
    using Inr s(3) json_loads_dumps [OF s(1)] canonical_json_bytes_Inr_iff [of v] by auto
qed

definition example_value :: pyval where
  "example_value = PyDict [(u ''b'', PyDec (Dec False 1250 (- 3))), (u ''a'', PyList [PyNone, PyBool True, PyStr (u ''x''), PyDate 719163])]"

theorem canonical_json_roundtrip_witness:
  "\<exists>b text w. canonical_json_bytes example_value = Inr b \<and> utf8_decode b = Some text \<and> json_loads True text = Inr w \<and>
     reads_back example_value w"
proof -
  have "python_value example_value" "serializable example_value"
    by (simp_all add: example_value_def in_date_range_def)
  then show ?thesis
    using canonical_json_roundtrip [of example_value True] by (auto split: sum.splits)
qed

end
