(* ===== verification/Ingestion_Safety.thy ===== *)
theory Ingestion_Safety
  imports Ingestion_Service
begin

text \<open>
  What the ingestion service guarantees. A locale collects how a reflexive and transitive relation between
  databases is carried through repository calls, transactions and the phases of the service; it is interpreted for
  the steps of the repositories, for leaving the batches alone and for leaving the bars alone. The properties
  follow: the service only takes repository steps, its result accounts for every row, a failed canonicalization
  keeps the evidence and writes no bar, and a repeated request is answered from the batch it started.
\<close>

subsection \<open>Relations carried through the service\<close>

definition keeps :: "(ingestion_db \<Rightarrow> ingestion_db \<Rightarrow> bool) \<Rightarrow> 'a db_op \<Rightarrow> bool" where
  "keeps R m \<longleftrightarrow> (\<forall>db db' a. m db = Inr (db', a) \<longrightarrow> R db db')"

lemma keepsI: "(\<And>db db' a. m db = Inr (db', a) \<Longrightarrow> R db db') \<Longrightarrow> keeps R m"
  by (simp add: keeps_def)

lemma keepsD: "keeps R m \<Longrightarrow> m db = Inr (db', a) \<Longrightarrow> R db db'"
  by (simp add: keeps_def)

lemma keeps_fail: "keeps R (db_fail e)"
  by (simp add: keeps_def db_fail_def)

locale db_relation =
  fixes R :: "ingestion_db \<Rightarrow> ingestion_db \<Rightarrow> bool"
  assumes R_refl: "R db db"
    and R_trans: "R a b \<Longrightarrow> R b c \<Longrightarrow> R a c"
begin

lemma keeps_return: "keeps R (db_return a)"
  by (simp add: keeps_def db_return_def R_refl)

lemma keeps_lift: "keeps R (db_lift r)"
  by (auto simp: keeps_def db_lift_def rbind_Inr_iff R_refl)

lemma keeps_read: "keeps R (db_read f)"
  by (auto simp: keeps_def db_read_def rbind_Inr_iff R_refl)

lemma keeps_bind:
  assumes "keeps R m" and "\<And>a. keeps R (f a)"
  shows "keeps R (db_bind m f)"
proof (rule keepsI)
  fix db db' b
  assume "db_bind m f db = Inr (db', b)"
  then obtain db1 a where "m db = Inr (db1, a)" "f a db1 = Inr (db', b)"
    by (auto simp: db_bind_def rbind_Inr_iff)
  then show "R db db'"
    using keepsD [OF assms(1)] keepsD [OF assms(2)] R_trans by metis
qed

lemma keeps_current_feed: "keeps R (current_feed env)"
  unfolding current_feed_def by (intro keeps_bind keeps_read keeps_return)

lemma in_unit_of_work_R: "keeps R body \<Longrightarrow> R db (snd (in_unit_of_work c body db))"
  by (auto simp: in_unit_of_work_def R_refl split: sum.split dest: keepsD)

lemma transaction_R: "keeps R body \<Longrightarrow> R db (snd (transaction env st c body db))"
  by (simp add: transaction_def R_refl in_unit_of_work_R)

lemma unexpected_R: "R db (snd x) \<Longrightarrow> R db (snd (unexpected x))"
  by (cases x) (auto simp: unexpected_def split: sum.split)

lemma and_then_R:
  assumes "R db (snd x)" and "\<And>a db. R db (snd (f a db))"
  shows "R db (snd (and_then x f))"
  using assms by (cases x) (auto simp: and_then_def split: sum.split intro: R_trans)

end

text \<open>Operations that call the repositories, given what the relation says of one call.\<close>

locale service_relation = db_relation R for R :: "ingestion_db \<Rightarrow> ingestion_db \<Rightarrow> bool" +
  assumes R_partition: "ensure_month_partition d (db_events db) = Inr t \<Longrightarrow> R db (db\<lparr>db_events := t\<rparr>)"
    and R_insert: "insert_response_record be fe n (db_events db) = Inr (t, e) \<Longrightarrow> R db (db\<lparr>db_events := t\<rparr>)"
begin

lemma keeps_insert_row: "keeps R (insert_row env f b symbol response row)"
  by (auto simp: insert_row_def keeps_def db_fail_def on_events_def rbind_Inr_iff R_insert split: sum.split)

lemma keeps_insert_rows: "keeps R (insert_rows env f b symbol response rows)"
  by (induction rows) (simp_all add: keeps_return keeps_bind keeps_insert_row)

lemma keeps_event_month: "keeps R (ensure_event_month t)"
  by (auto simp: ensure_event_month_def keeps_def on_events_def rbind_Inr_iff R_partition)

end

locale bar_relation = db_relation R for R :: "ingestion_db \<Rightarrow> ingestion_db \<Rightarrow> bool" +
  assumes R_outcome: "update_validation_result i st es (db_events db) = Inr (t, e) \<Longrightarrow> R db (db\<lparr>db_events := t\<rparr>)"
    and R_months: "R db (db\<lparr>db_bars := ensure_month_partitions days (db_bars db)\<rparr>)"
    and R_series: "get_or_create_daily_raw_series tfs fe ie ts fid iid tfid md (db_bars db) = Inr (bt, s) \<Longrightarrow> R db (db\<lparr>db_bars := bt\<rparr>)"
    and R_append: "append_revision_if_changed be ts c (db_bars db) = Inr (bt, w) \<Longrightarrow> R db (db\<lparr>db_bars := bt\<rparr>)"
begin

lemma keeps_set_outcome: "keeps R (set_outcome e st es)"
  by (auto simp: set_outcome_def keeps_def on_events_def rbind_Inr_iff R_outcome)

lemma keeps_reject: "keeps R (reject_row e es s)"
  unfolding reject_row_def by (cases s) (simp add: keeps_bind keeps_set_outcome keeps_return)

lemma keeps_accept: "keeps R (accept_duplicate e es s)"
  unfolding accept_duplicate_def by (cases s) (simp add: keeps_bind keeps_set_outcome keeps_return)

lemma keeps_resolve_row: "keeps R (resolve_row env p received row e s)"
  unfolding resolve_row_def Let_def
  by (cases s) (auto intro!: keeps_bind keeps_read keeps_return keeps_reject keeps_accept keeps_fail split: option.split)

lemma keeps_resolve_rows: "keeps R (resolve_rows env p received rows s)"
proof (induction rows arbitrary: s)
  case (Cons x rows)
  then show ?case by (cases x) (simp add: keeps_bind keeps_resolve_row)
qed (simp add: keeps_return)


lemma keeps_months: "keeps R (on_bars (\<lambda>_ t. Inr (ensure_month_partitions days t, ())))"
  by (auto simp: keeps_def on_bars_def R_months)

lemma keeps_write_bar: "keeps R (write_bar env p f b tf received sys item)"
proof -
  have "keeps R (on_bars (\<lambda>db. get_or_create_daily_raw_series (tfs db) (fe db) (ie db) ts fid iid tfid md))" for tfs fe ie ts fid iid tfid md
    by (auto simp: keeps_def on_bars_def rbind_Inr_iff R_series)
  moreover have "keeps R (on_bars (\<lambda>db. append_revision_if_changed (be db) ts c))" for be ts c
    by (auto simp: keeps_def on_bars_def rbind_Inr_iff R_append)
  ultimately show ?thesis
    unfolding write_bar_def Let_def by (auto intro!: keeps_bind keeps_return keeps_fail split: option.split)
qed

lemma keeps_write_row: "keeps R (write_row env p f b tf received i item n)"
  unfolding write_row_def Let_def
  by (auto intro!: keeps_bind keeps_lift keeps_set_outcome keeps_return keeps_write_bar keeps_fail)

lemma keeps_write_rows: "keeps R (write_rows env p f b tf received i items n)"
  by (induction items arbitrary: i n) (simp_all add: keeps_return keeps_bind keeps_write_row)

end

text \<open>The whole service, given what the relation says of the operations on batches.\<close>

locale repository_relation = service_relation R + bar_relation R for R :: "ingestion_db \<Rightarrow> ingestion_db \<Rightarrow> bool"

locale ingestion_relation = repository_relation R for R :: "ingestion_db \<Rightarrow> ingestion_db \<Rightarrow> bool" +
  assumes R_create: "create_batch_if_absent fe ts n (db_batches db) = Inr (t, b, c) \<Longrightarrow> R db (db\<lparr>db_batches := t\<rparr>)"
    and R_record: "record_acquisition i pay rec w md (db_batches db) = Inr (t, b) \<Longrightarrow> R db (db\<lparr>db_batches := t\<rparr>)"
    and R_finalize: "finalize_batch alnum ts i v (db_batches db) = Inr (t, b) \<Longrightarrow> R db (db\<lparr>db_batches := t\<rparr>)"
begin

lemma keeps_record: "keeps R (on_batches (\<lambda>db. record_acquisition i pay rec w md))"
  by (auto simp: keeps_def on_batches_def rbind_Inr_iff R_record)

lemma keeps_finalize: "keeps R (finalize env st b v)"
  unfolding finalize_def
  by (intro keeps_bind keeps_lift) (auto simp: keeps_def on_batches_def rbind_Inr_iff R_finalize)

lemma keeps_start: "keeps R (start_body env symbol rid started)"
  unfolding start_body_def
  by (auto intro!: keeps_bind keeps_current_feed keeps_return simp: split_beta)
    (auto simp: keeps_def on_batches_def rbind_Inr_iff R_create)

lemma keeps_acquisition: "keeps R (acquisition_body env f b symbol response parsed)"
  unfolding acquisition_body_def
  by (auto intro!: keeps_bind keeps_event_month keeps_insert_rows keeps_record keeps_return)

lemma keeps_canonicalize: "keeps R (canonicalize_body env p f b acq)"
  unfolding canonicalize_body_def Let_def
  by (auto intro!: keeps_bind keeps_current_feed keeps_read keeps_fail keeps_resolve_rows keeps_months keeps_write_rows
      keeps_lift keeps_finalize split: prod.split)

lemma keeps_failures:
  "keeps R (expected_failure_body env b st code m resp)" "keeps R (started_failure_body env b e)"
  unfolding expected_failure_body_def started_failure_body_def
  by (auto intro!: keeps_bind keeps_read keeps_fail keeps_finalize keeps_return split: option.split)

lemma start_R: "R db (snd (start_batch env symbol rid db))"
  unfolding start_batch_def
  by (auto intro!: and_then_R transaction_R keeps_start simp: R_refl split: sum.split prod.split)

lemma finish_R:
  "R db (snd (finalize_no_data env p f b symbol acq db))"
  "R db (snd (finalize_expected_failure env p f b symbol st code m resp db))"
  "R db (snd (mark_unexpected_canonicalization_failure env b acq e db))"
  "R db (snd (persist_empty_acquisition env b response ps preview db))"
  "R db (snd (persist_acquisition env f b symbol response parsed db))"
  "R db (snd (canonicalize env p f b symbol acq db))"
  unfolding finalize_no_data_def finalize_expected_failure_def mark_unexpected_canonicalization_failure_def
    persist_empty_acquisition_def persist_acquisition_def canonicalize_def
  by (auto intro!: and_then_R transaction_R keeps_finalize keeps_failures keeps_record keeps_acquisition keeps_canonicalize simp: R_refl)

lemma process_R: "R db (snd (process_response env p f b symbol response parsed db))"
proof -
  have "R db' (snd (case canonicalize env p f b symbol acq db' of (Inr res, d) \<Rightarrow> (Inr res, d)
      | (Inl e, d) \<Rightarrow> and_then (unexpected (mark_unexpected_canonicalization_failure env b acq e d)) (\<lambda>_ d. (Inl CanonicalizationFailed, d))))" for acq db'
  proof (cases "canonicalize env p f b symbol acq db'")
    case (Pair r d)
    have d: "R db' d" using finish_R(6) [of db' env p f b symbol acq] by (simp add: Pair)
    have "R d (snd (and_then (unexpected (mark_unexpected_canonicalization_failure env b acq e d)) (\<lambda>_ d. (Inl CanonicalizationFailed, d))))" for e
      by (intro and_then_R unexpected_R finish_R) (simp add: R_refl)
    then show ?thesis
      using d R_trans by (cases r) (auto simp: Pair)
  qed
  then show ?thesis
    unfolding process_response_def by (intro and_then_R unexpected_R finish_R) (auto intro: unexpected_R finish_R)
qed

lemma fail_with_response_R: "R db (snd (fail_with_response env p f b symbol response ps preview status code message db))"
  unfolding fail_with_response_def by (intro unexpected_R and_then_R finish_R)

lemma run_R: "R db (snd (run_started_batch env p f b symbol db))"
  unfolding run_started_batch_def Let_def
  by (auto intro!: unexpected_R finish_R fail_with_response_R process_R simp: R_refl split: sum.split brsapi_error.split)

lemma mark_R: "R db (mark_unexpected_started_failure env b e db)"
  unfolding mark_unexpected_started_failure_def by (intro transaction_R keeps_failures)

lemma ingest_R: "R db (snd (ingest env symbol rid db))"
proof -
  have "R db' (snd (case run_started_batch env p f b n db' of (Inr res, d) \<Rightarrow> (Inr res, d)
      | (Inl CanonicalizationFailed, d) \<Rightarrow> (Inl DailyBarCanonicalizationError, d)
      | (Inl (Unexpected e), d) \<Rightarrow> (Inl DailyBarIngestionError, mark_unexpected_started_failure env b e d)))" for p f b n db'
  proof (cases "run_started_batch env p f b n db'")
    case (Pair r d)
    have "R db' d" using run_R [of db' env p f b n] by (simp add: Pair)
    then show ?thesis
      using R_trans [OF _ mark_R] by (cases r) (auto simp: Pair split: run_error.split)
  qed
  then show ?thesis
    unfolding ingest_def Let_def by (auto intro!: and_then_R start_R simp: R_refl split: prod.split)
qed

end

subsection \<open>The service only takes steps of the repositories\<close>

definition db_steps :: "ingestion_db \<Rightarrow> ingestion_db \<Rightarrow> bool" where
  "db_steps a b \<longleftrightarrow> batch_step\<^sup>*\<^sup>* (db_batches a) (db_batches b) \<and> event_step\<^sup>*\<^sup>* (db_events a) (db_events b) \<and>
     bar_step\<^sup>*\<^sup>* (db_bars a) (db_bars b) \<and> db_catalog b = db_catalog a"

interpretation steps: ingestion_relation db_steps
proof
  show "db_steps a c" if "db_steps a b" "db_steps b c" for a b c
    using that by (auto simp: db_steps_def)
qed (auto simp: db_steps_def intro: r_into_rtranclp event_step.intros bar_step.intros batch_step.intros)

text \<open>C29. The ingestion service touches the tables only through the repositories: whatever the provider answers, whatever
  the clock reads and whichever transactions the database refuses, the batches, raw events and bars after an ingestion
  are reached from those before by steps of their repositories, and the catalog is unchanged. So the invariants of the
  three tables are kept and every finished batch, every piece of raw evidence and every bar revision is still there.\<close>

theorem ingest_keeps_the_stores:
  assumes "batch_inv (db_batches db)" and "event_inv (db_events db)" and "bar_inv (db_bars db)"
    and "db' = snd (ingest env symbol rid db)"
  shows "db_steps db db' \<and> batch_inv (db_batches db') \<and> event_inv (db_events db') \<and> bar_inv (db_bars db') \<and>
    (\<forall>b \<in> set (batches (db_batches db)). batch_status b \<noteq> RUNNING \<longrightarrow> b \<in> set (batches (db_batches db'))) \<and>
    (\<forall>e \<in> set (raw_events (db_events db)). \<exists>e' \<in> set (raw_events (db_events db')). evidence e' = evidence e) \<and>
    set (revisions (db_bars db)) \<subseteq> set (revisions (db_bars db'))"
proof -
  have s: "db_steps db db'" unfolding assms(4) by (rule steps.ingest_R)
  then have st: "batch_step\<^sup>*\<^sup>* (db_batches db) (db_batches db')" "event_step\<^sup>*\<^sup>* (db_events db) (db_events db')"
      "bar_step\<^sup>*\<^sup>* (db_bars db) (db_bars db')"
    by (auto simp: db_steps_def)
  show ?thesis
  proof (intro conjI ballI impI subsetI)
    show "b \<in> set (batches (db_batches db'))" if "b \<in> set (batches (db_batches db))" "batch_status b \<noteq> RUNNING" for b
      using batch_log.steps_keep [OF st(1) assms(1) that(1)] that(2) by (simp add: batch_evolves_def)
    show "\<exists>e' \<in> set (raw_events (db_events db')). evidence e' = evidence e" if "e \<in> set (raw_events (db_events db))" for e
      using event_log.steps_evolve [OF st(2) assms(2) that] by metis
    show "r \<in> set (revisions (db_bars db'))" if "r \<in> set (revisions (db_bars db))" for r
      using bar_log.steps_keep [OF st(3) assms(3) that] by simp
  qed (rule s batch_log.inv_steps [OF st(1) assms(1)] event_log.inv_steps [OF st(2) assms(2)] bar_log.inv_steps [OF st(3) assms(3)])+
qed

subsection \<open>Taking a run apart\<close>

interpretation same_batches: repository_relation "\<lambda>a b. db_batches b = db_batches a"
  by unfold_locales auto

interpretation same_bars: service_relation "\<lambda>a b. db_bars b = db_bars a"
  by unfold_locales auto

lemma and_then_Inr: "and_then x f = (Inr r, db') \<longleftrightarrow> (\<exists>a d. x = (Inr a, d) \<and> f a d = (Inr r, db'))"
  by (cases x) (auto simp: and_then_def split: sum.split)

lemma transaction_Inr:
  "transaction env st c body db = (Inr a, db') \<longleftrightarrow> \<not> outage env st \<and> (\<exists>d. body db = Inr (d, a) \<and> db' = (if c a then d else db))"
  by (auto simp: transaction_def in_unit_of_work_def split: sum.split)

lemma transaction_Inl: "transaction env st c body db = (Inl e, db') \<Longrightarrow> db' = db"
  by (auto simp: transaction_def in_unit_of_work_def split: if_splits sum.splits)

lemma unexpected_Inr: "unexpected x = (Inr a, db') \<longleftrightarrow> x = (Inr a, db')"
  by (cases x) (auto simp: unexpected_def split: sum.split)

lemma unexpected_failed: "unexpected x \<noteq> (Inl CanonicalizationFailed, db')"
  by (cases x) (auto simp: unexpected_def split: sum.split)

lemma db_bind_Inr: "db_bind m f db = Inr (db', b) \<longleftrightarrow> (\<exists>d a. m db = Inr (d, a) \<and> f a d = Inr (db', b))"
  by (auto simp: db_bind_def rbind_Inr_iff)

lemma finalize_Inr:
  "finalize env st b v db = Inr (db', b') \<longleftrightarrow>
     (\<exists>ts t. read_clock env (AtFinish st) = Inr ts \<and>
       finalize_batch (svc_alnum env) (tx_now env st) (ingestion_batch_id b) (v ts) (db_batches db) = Inr (t, b') \<and> db' = db\<lparr>db_batches := t\<rparr>)"
  by (auto simp: finalize_def db_bind_Inr db_lift_def on_batches_def rbind_Inr_iff)

lemma db_return_Inr: "db_return a db = Inr (db', b) \<longleftrightarrow> db' = db \<and> b = a"
  by (auto simp: db_return_def)

text \<open>The row of a batch under the two operations on a running batch.\<close>

lemma transition_row:
  assumes "batch_inv t" and "b \<in> set (batches t)" and "execute_running_transition (ingestion_batch_id b) f t = Inr (t', b')"
  shows "f b = Inr b' \<and> b' \<in> set (batches t') \<and> batch_status b = RUNNING"
proof -
  obtain r where r: "find (\<lambda>x. ingestion_batch_id x = ingestion_batch_id b \<and> batch_status x = RUNNING) (batches t) = Some r"
    and f: "f r = Inr b'" and t': "t' = t\<lparr>batches := map (\<lambda>x. if ingestion_batch_id x = ingestion_batch_id b then b' else x) (batches t)\<rparr>"
    using assms(3) by (auto simp: execute_running_transition_def rbind_Inr_iff split: option.splits if_splits)
  have "r \<in> set (batches t)" "ingestion_batch_id r = ingestion_batch_id b" "batch_status r = RUNNING"
    using r by (auto simp: find_Some_iff)
  then have "r = b"
    using batch_invD(1) [OF assms(1)] assms(2) by (metis distinct_map inj_on_eq_iff)
  then show ?thesis
    using f t' assms(2) \<open>batch_status r = RUNNING\<close> by auto
qed

lemma record_row:
  assumes "batch_inv t" and "b \<in> set (batches t)" and "record_acquisition (ingestion_batch_id b) pay rec w (Some md) t = Inr (t', b')"
  shows "b' \<in> set (batches t') \<and> batch_identity b' = batch_identity b \<and> batch_metadata b' = jsonb_concat (batch_metadata b) md \<and>
    received_row_count b' = rec"
proof -
  have "execute_running_transition (ingestion_batch_id b) (\<lambda>b. rbind (set_payload (Some pay) (b\<lparr>received_row_count := rec\<rparr>))
      (\<lambda>b. Inr (patch_metadata (Some md) (set_watermark w b)))) t = Inr (t', b')"
    using assms(3) by (simp add: record_acquisition_def split: if_splits)
  from transition_row [OF assms(1,2) this] obtain x where "set_payload (Some pay) (b\<lparr>received_row_count := rec\<rparr>) = Inr x"
    and b': "b' = patch_metadata (Some md) (set_watermark w x)" and mem: "b' \<in> set (batches t')"
    by (auto simp: rbind_Inr_iff)
  from set_payload_updates [OF this(1)] mem show ?thesis
    by (auto simp: b' patch_metadata_def set_watermark_def batch_identity_def split: option.split)
qed

lemma finalize_batch_row:
  assumes "batch_inv t" and "b \<in> set (batches t)" and "finalize_batch alnum ts (ingestion_batch_id b) v t = Inr (t', b')"
    and "final_metadata v = Some md"
  shows "b' \<in> set (batches t') \<and> batch_identity b' = batch_identity b \<and> batch_metadata b' = jsonb_concat (batch_metadata b) md \<and>
    batch_status b' = final_status v \<and> final_status v \<noteq> RUNNING \<and> received_row_count b' = final_received v \<and>
    accepted_row_count b' = final_accepted v \<and> rejected_row_count b' = final_rejected v"
proof -
  have tr: "\<exists>fin. execute_running_transition (ingestion_batch_id b) (finalize_row alnum ts v fin) t = Inr (t', b')"
    and terminal: "final_status v \<in> set TERMINAL_STATUSES"
    using assms(3) by (auto simp: finalize_batch_def rbind_Inr_iff split: if_splits)
  then obtain fin where row: "finalize_row alnum ts v fin b = Inr b'" "b' \<in> set (batches t')"
    using transition_row [OF assms(1,2)] by blast
  obtain x where x: "set_payload (final_payload v) (b\<lparr>batch_status := final_status v,
          finished_at := Some (case fin of None \<Rightarrow> ts | Some x \<Rightarrow> x), received_row_count := final_received v,
          accepted_row_count := final_accepted v, rejected_row_count := final_rejected v,
          error_summary := (if final_status v = SUCCEEDED then None
             else map_option (\<lambda>e. take FAILURE_MESSAGE_LIMIT (redact_failure_text alnum e)) (final_error v))\<rparr>) = Inr x"
    and b': "b' = patch_metadata (final_metadata v) (set_watermark (final_watermark v) x)"
    using row(1) by (auto simp: finalize_row_def rbind_Inr_iff)
  from set_payload_updates [OF x] show ?thesis
    using row(2) terminal assms(4)
    by (auto simp: b' patch_metadata_def set_watermark_def batch_identity_def terminal_not_running split: option.split)
qed

subsection \<open>The batch of a run\<close>

abbreviation symbol_of :: "ingestion_batch \<Rightarrow> json option" where
  "symbol_of b \<equiv> dict_get (batch_metadata b) (u ''symbol'')"

definition same_batch :: "ingestion_batch \<Rightarrow> ingestion_batch \<Rightarrow> bool" where
  "same_batch b r \<longleftrightarrow> batch_identity r = batch_identity b \<and> symbol_of r = symbol_of b"

definition holds_batch :: "ingestion_batch \<Rightarrow> ingestion_db \<Rightarrow> bool" where
  "holds_batch b db \<longleftrightarrow> batch_inv (db_batches db) \<and> (\<exists>r \<in> set (batches (db_batches db)). same_batch b r)"

text \<open>The outcome recorded in a finished batch: all rows received are accepted or rejected and the status says which, or
  the run failed or the response was quarantined before any row was looked at.\<close>

definition accounted :: "ingestion_batch \<Rightarrow> bool" where
  "accounted b \<longleftrightarrow>
     (accepted_row_count b + rejected_row_count b = received_row_count b \<and>
        (batch_status b = SUCCEEDED \<longrightarrow> rejected_row_count b = 0) \<and>
        (batch_status b = PARTIAL \<longrightarrow> accepted_row_count b \<noteq> 0 \<and> rejected_row_count b \<noteq> 0) \<and>
        (batch_status b = QUARANTINED \<longrightarrow> accepted_row_count b = 0)) \<or>
     ((batch_status b = FAILED \<or> batch_status b = QUARANTINED) \<and> accepted_row_count b = 0 \<and> rejected_row_count b = 0)"

definition finished_as :: "ingestion_batch \<Rightarrow> ingestion_batch \<Rightarrow> ingestion_db \<Rightarrow> bool" where
  "finished_as b fin db \<longleftrightarrow> fin \<in> set (batches (db_batches db)) \<and> same_batch b fin \<and> batch_status fin \<noteq> RUNNING \<and> accounted fin"

lemma same_batch_id: "same_batch b r \<Longrightarrow> ingestion_batch_id r = ingestion_batch_id b"
  by (simp add: same_batch_def batch_identity_def)

lemma jsonb_concat_get: "k \<notin> fst ` set patch \<Longrightarrow> dict_get (jsonb_concat m patch) k = dict_get m k"
  unfolding jsonb_concat_def by (induction patch arbitrary: m) (auto simp: dict_get_set)

lemma holds_batches: "holds_batch b db \<Longrightarrow> db_batches db' = db_batches db \<Longrightarrow> holds_batch b db'"
  by (simp add: holds_batch_def)

lemma holds_record:
  assumes "holds_batch b db" and "on_batches (\<lambda>_. record_acquisition (ingestion_batch_id b) pay rec w (Some md)) db = Inr (db', x)"
    and "u ''symbol'' \<notin> fst ` set md"
  shows "holds_batch b db'"
proof -
  obtain r where r: "r \<in> set (batches (db_batches db))" "same_batch b r" and inv: "batch_inv (db_batches db)"
    using assms(1) by (auto simp: holds_batch_def)
  obtain t where t: "record_acquisition (ingestion_batch_id b) pay rec w (Some md) (db_batches db) = Inr (t, x)" and db': "db' = db\<lparr>db_batches := t\<rparr>"
    using assms(2) by (auto simp: on_batches_def rbind_Inr_iff)
  have "batch_inv t"
    using batch_log.inv_step [OF inv batch_step.step_record_acquisition [OF t]] .
  moreover have "x \<in> set (batches t) \<and> same_batch b x"
    using record_row [OF inv r(1), of pay rec w md t x] t r(2) assms(3)
    by (simp add: same_batch_id [OF r(2)] same_batch_def jsonb_concat_get)
  ultimately show ?thesis by (auto simp: holds_batch_def db')
qed

lemma holds_finalize:
  assumes "holds_batch b db" and "finalize env st b v db = Inr (db', fin)" and "\<And>ts. final_metadata (v ts) = Some md"
    and "u ''symbol'' \<notin> fst ` set md"
  shows "\<exists>ts. fin \<in> set (batches (db_batches db')) \<and> same_batch b fin \<and> batch_status fin = final_status (v ts) \<and>
    batch_status fin \<noteq> RUNNING \<and> received_row_count fin = final_received (v ts) \<and> accepted_row_count fin = final_accepted (v ts) \<and>
    rejected_row_count fin = final_rejected (v ts)"
proof -
  obtain r where r: "r \<in> set (batches (db_batches db))" "same_batch b r" and inv: "batch_inv (db_batches db)"
    using assms(1) by (auto simp: holds_batch_def)
  obtain ts t where t: "finalize_batch (svc_alnum env) (tx_now env st) (ingestion_batch_id r) (v ts) (db_batches db) = Inr (t, fin)"
    and db': "db' = db\<lparr>db_batches := t\<rparr>"
    using assms(2) by (auto simp: finalize_Inr same_batch_id [OF r(2)])
  from finalize_batch_row [OF inv r(1) t assms(3)] r(2) assms(4) show ?thesis
    by (intro exI [of _ ts]) (simp add: db' same_batch_def jsonb_concat_get)
qed

lemma completion_keys: "u ''symbol'' \<notin> fst ` set (completion_metadata n a r i c q)"
  by (simp add: completion_metadata_def)

lemma acquisition_keys: "u ''symbol'' \<notin> fst ` set (acquisition_metadata resp ps n preview)"
  by (cases preview) (simp_all add: acquisition_metadata_def)

lemma holds_acquisition:
  assumes "holds_batch b db" and "acquisition_body env f b symbol response parsed db = Inr (db', es)"
  shows "holds_batch b db'"
proof -
  let ?md = "acquisition_metadata response (if no_data parsed \<noteq> None then ''no_data'' else ''rows'') (length es) None"
  obtain d1 d2 x where d1: "(if parse_rows parsed \<noteq> [] then ensure_event_month (response_received_at response) else db_return ()) db = Inr (d1, ())"
    and d2: "insert_rows env f b symbol response (parse_rows parsed) d1 = Inr (d2, es)"
    and rec: "on_batches (\<lambda>_. record_acquisition (ingestion_batch_id b) (response_sha256 parsed) (int (length (parse_rows parsed)))
      (watermark_of parsed) (Some ?md)) d2 = Inr (db', x)"
    using assms(2) by (auto simp: acquisition_body_def db_bind_Inr db_return_Inr)
  have "db_batches d1 = db_batches db"
    using d1 keepsD [OF same_batches.keeps_event_month] by (auto simp: db_return_Inr split: if_splits)
  then have "holds_batch b d2"
    using keepsD [OF same_batches.keeps_insert_rows d2] holds_batches [OF assms(1)] by simp
  then show ?thesis
    by (rule holds_record [OF _ rec acquisition_keys])
qed

subsection \<open>Every row is counted\<close>

definition yields :: "('a \<Rightarrow> bool) \<Rightarrow> 'a db_op \<Rightarrow> bool" where
  "yields P m \<longleftrightarrow> (\<forall>db db' a. m db = Inr (db', a) \<longrightarrow> P a)"

lemma yields_rules:
  "P a \<Longrightarrow> yields P (db_return a)" "yields P (db_fail e)" "(\<And>a. yields P (g a)) \<Longrightarrow> yields P (db_bind m g)"
  by (auto simp: yields_def db_return_def db_fail_def db_bind_Inr)

abbreviation total :: "first_pass \<Rightarrow> int" where
  "total s \<equiv> fst s + fst (snd s) + int (length (snd (snd s)))"

lemma resolve_row_counts: "yields (\<lambda>s'. total s' = total s + 1) (resolve_row env p received row e s)"
  unfolding resolve_row_def Let_def reject_row_def accept_duplicate_def
  by (cases s) (auto intro!: yields_rules split: option.split)

lemma resolve_rows_counts:
  assumes "resolve_rows env p received rows (acc, rej, rs) db = Inr (db', acc', rej', rs')"
  shows "acc' + rej' + int (length rs') = acc + rej + int (length rs) + int (length rows)"
  using assms
proof (induction rows arbitrary: acc rej rs db)
  case (Cons x rows)
  obtain row e where x: "x = (row, e)" by fastforce
  obtain d a r q where "resolve_row env p received row e (acc, rej, rs) db = Inr (d, a, r, q)"
    "resolve_rows env p received rows (a, r, q) d = Inr (db', acc', rej', rs')"
    using Cons.prems by (auto simp: x db_bind_Inr)
  then show ?case
    using resolve_row_counts [of "(acc, rej, rs)" env p received row e] Cons.IH by (fastforce simp: yields_def)
qed (auto simp: db_return_Inr)

lemma write_row_counts:
  "yields (\<lambda>n'. wc_accepted n' + wc_rejected n' = wc_accepted n + wc_rejected n + 1) (write_row env p f b tf received i item n)"
  unfolding write_row_def Let_def
  by (auto intro!: yields_rules simp: count_write_def split: bar_revision_write_status.split)

lemma write_rows_counts:
  assumes "write_rows env p f b tf received i items n db = Inr (db', n')"
  shows "wc_accepted n' + wc_rejected n' = wc_accepted n + wc_rejected n + int (length items)"
  using assms
proof (induction items arbitrary: i n db)
  case (Cons item items)
  then obtain d m where m: "write_row env p f b tf received i item n db = Inr (d, m)"
    and "write_rows env p f b tf received (i + 1) items m d = Inr (db', n')"
    by (auto simp: db_bind_Inr)
  then show ?case
    using write_row_counts [of n env p f b tf received i item] Cons.IH by (fastforce simp: yields_def)
qed (auto simp: db_return_Inr)

lemma terminal_status_cases:
  assumes "terminal_status acc rej = Inr st"
  shows "(st = SUCCEEDED \<longrightarrow> rej = 0) \<and> (st = PARTIAL \<longrightarrow> acc \<noteq> 0 \<and> rej \<noteq> 0) \<and> (st = QUARANTINED \<longrightarrow> acc = 0)"
  using assms by (auto simp: terminal_status_def split: if_splits)

lemma canonicalize_finishes:
  assumes "holds_batch b db" and "canonicalize_body env p f b acq db = Inr (db', fin)"
    and "length (acq_raw_events acq) = length (parse_rows (acq_parsed acq))"
  shows "finished_as b fin db' \<and> accepted_row_count fin + rejected_row_count fin = received_row_count fin \<and>
    received_row_count fin = int (length (parse_rows (acq_parsed acq)))"
proof -
  let ?rows = "parse_rows (acq_parsed acq)"
  obtain d1 pf tf d2 acc rej rs d3 d4 n st where d1: "current_feed env db = Inr (d1, pf)"
    and d2: "resolve_rows env p (response_received_at (acq_response acq)) (zip ?rows (acq_raw_events acq)) (0, 0, []) d1 = Inr (d2, acc, rej, rs)"
    and d3: "on_bars (\<lambda>_ t. Inr (ensure_month_partitions (map (\<lambda>i. trading_date (rr_candidate i)) rs) t, ())) d2 = Inr (d3, ())"
    and d4: "write_rows env p f b tf (response_received_at (acq_response acq)) 0 rs
        \<lparr>wc_accepted = acc, wc_rejected = rej, wc_inserted = 0, wc_corrected = 0, wc_unchanged = 0\<rparr> d3 = Inr (d4, n)"
    and st: "terminal_status (wc_accepted n) (wc_rejected n) = Inr st"
    and fin: "finalize env CanonicalizeTx b (\<lambda>finished.
              \<lparr>final_status = st, final_received = int (length ?rows), final_accepted = wc_accepted n,
               final_rejected = wc_rejected n, final_payload = Some (response_sha256 (acq_parsed acq)),
               final_watermark = acq_watermark acq,
               final_error = (if st = SUCCEEDED then None else Some (u ''One or more rows were rejected.'')),
               final_metadata = Some (completion_metadata (length (acq_raw_events acq)) (wc_accepted n) (wc_rejected n)
                 (wc_inserted n) (wc_corrected n) (wc_unchanged n)),
               final_finished_at = Some (Aware finished)\<rparr>) d4 = Inr (db', fin)"
    using assms(2)
    by (auto simp: canonicalize_body_def Let_def db_bind_Inr db_read_def db_lift_def db_fail_def rbind_Inr_iff split: if_splits)
  have "db_batches d4 = db_batches db"
    using keepsD [OF same_batches.keeps_current_feed d1] keepsD [OF same_batches.keeps_resolve_rows d2]
      keepsD [OF same_batches.keeps_months d3] keepsD [OF same_batches.keeps_write_rows d4] by simp
  then have "holds_batch b d4" by (rule holds_batches [OF assms(1)])
  from holds_finalize [OF this fin refl [THEN trans, OF final_values.simps(8)] completion_keys]
  have f: "fin \<in> set (batches (db_batches db'))" "same_batch b fin" "batch_status fin = st" "batch_status fin \<noteq> RUNNING"
    "received_row_count fin = int (length ?rows)" "accepted_row_count fin = wc_accepted n" "rejected_row_count fin = wc_rejected n"
    by auto
  have "wc_accepted n + wc_rejected n = int (length ?rows)"
    using resolve_rows_counts [OF d2] write_rows_counts [OF d4] assms(3) by simp
  then show ?thesis
    using f terminal_status_cases [OF st] by (simp add: finished_as_def accounted_def)
qed

lemma no_data_finishes:
  assumes "holds_batch b db" and "finalize_no_data env p f b symbol acq db = (Inr res, db')"
  shows "\<exists>fin. finished_as b fin db' \<and> res = result_from_batch fin (provider_code p) (feed_code f) symbol False"
proof -
  obtain fin where fin: "finalize env NoDataTx b (\<lambda>finished. \<lparr>final_status = SUCCEEDED, final_received = 0, final_accepted = 0,
      final_rejected = 0, final_payload = Some (response_sha256 (acq_parsed acq)), final_watermark = None, final_error = None,
      final_metadata = Some (no_rows_metadata 0), final_finished_at = Some (Aware finished)\<rparr>) db = Inr (db', fin)"
    and res: "res = result_from_batch fin (provider_code p) (feed_code f) symbol False"
    using assms(2) by (auto simp: finalize_no_data_def and_then_Inr transaction_Inr)
  from holds_finalize [OF assms(1) fin refl [THEN trans, OF final_values.simps(8)] completion_keys [of 0 0 0 0 0 0, folded no_rows_metadata_def]] res
  show ?thesis
    by (intro exI [of _ fin]) (auto simp: finished_as_def accounted_def)
qed

lemma expected_failure_finishes:
  assumes "holds_batch b db" and "finalize_expected_failure env p f b symbol st code m resp db = (Inr res, db')"
    and "st = FAILED \<or> st = QUARANTINED"
  shows "\<exists>fin. finished_as b fin db' \<and> res = result_from_batch fin (provider_code p) (feed_code f) symbol False"
proof -
  obtain fin where body: "expected_failure_body env b st code m resp db = Inr (db', fin)"
    and res: "res = result_from_batch fin (provider_code p) (feed_code f) symbol False"
    using assms(2) by (auto simp: finalize_expected_failure_def and_then_Inr transaction_Inr)
  obtain cur where cur: "get_by_id (ingestion_batch_id b) (db_batches db) = Some cur"
    using body by (cases "get_by_id (ingestion_batch_id b) (db_batches db)")
      (auto simp: expected_failure_body_def db_bind_def db_read_def db_fail_def)
  note fin = body [unfolded expected_failure_body_def db_bind_def db_read_def rbind_simps prod.case cur option.case]
  have "u ''symbol'' \<notin> fst ` set (no_rows_metadata 0 @ [(u ''failure_code'', JStr (u code))])"
    using completion_keys by (simp add: no_rows_metadata_def)
  from holds_finalize [OF assms(1) fin refl [THEN trans, OF final_values.simps(8)] this] res assms(3) show ?thesis
    by (intro exI [of _ fin]) (auto simp: finished_as_def accounted_def)
qed

lemma fail_with_response_finishes:
  assumes "holds_batch b db" and "fail_with_response env p f b symbol response ps preview st code m db = (Inr res, db')"
    and "st = FAILED \<or> st = QUARANTINED"
  shows "\<exists>fin. finished_as b fin db' \<and> res = result_from_batch fin (provider_code p) (feed_code f) symbol False"
proof -
  obtain x d where d: "persist_empty_acquisition env b response ps preview db = (Inr x, d)"
    and fin: "finalize_expected_failure env p f b symbol st code m (Some response) d = (Inr res, db')"
    using assms(2) by (auto simp: fail_with_response_def unexpected_Inr and_then_Inr)
  have "holds_batch b d"
    using d by (auto simp: persist_empty_acquisition_def transaction_Inr intro: holds_record [OF assms(1) _ acquisition_keys])
  then show ?thesis
    by (rule expected_failure_finishes [OF _ fin assms(3)])
qed

lemma process_finishes:
  assumes "holds_batch b db" and "process_response env p f b symbol response parsed db = (Inr res, db')"
  shows "\<exists>fin. finished_as b fin db' \<and> res = result_from_batch fin (provider_code p) (feed_code f) symbol False"
proof -
  obtain acq d es where acq: "acq = \<lparr>acq_response = response, acq_parsed = parsed, acq_raw_events = es, acq_watermark = watermark_of parsed\<rparr>"
    and body: "acquisition_body env f b symbol response parsed db = Inr (d, es)"
    and rest: "(if no_data parsed \<noteq> None then unexpected (finalize_no_data env p f b symbol acq d)
       else (case canonicalize env p f b symbol acq d of (Inr res, db) \<Rightarrow> (Inr res, db)
             | (Inl e, db) \<Rightarrow> and_then (unexpected (mark_unexpected_canonicalization_failure env b acq e db)) (\<lambda>_ db. (Inl CanonicalizationFailed, db)))) = (Inr res, db')"
    using assms(2) by (auto simp: process_response_def persist_acquisition_def and_then_Inr unexpected_Inr transaction_Inr)
  note h = holds_acquisition [OF assms(1) body]
  show ?thesis
  proof (cases "no_data parsed")
    case None
    then have "canonicalize env p f b symbol acq d = (Inr res, db')"
      using rest by (auto simp: and_then_Inr split: prod.splits sum.splits)
    then obtain fin where "canonicalize_body env p f b acq d = Inr (db', fin)"
      and "length (acq_raw_events acq) = length (parse_rows (acq_parsed acq))"
      and "res = result_from_batch fin (provider_code p) (feed_code f) symbol False"
      by (auto simp: canonicalize_def and_then_Inr transaction_Inr split: if_splits)
    then show ?thesis using canonicalize_finishes [OF h] by blast
  next
    case (Some nd)
    then show ?thesis using rest no_data_finishes [OF h] by (simp add: unexpected_Inr)
  qed
qed

lemma run_finishes:
  assumes "holds_batch b db" and "run_started_batch env p f b symbol db = (Inr res, db')"
  shows "\<exists>fin. finished_as b fin db' \<and> res = result_from_batch fin (provider_code p) (feed_code f) symbol False"
proof (cases "fetch env symbol")
  case (Inl e)
  then show ?thesis
    using assms(2) fail_with_response_finishes [OF assms(1)] expected_failure_finishes [OF assms(1)]
    by (cases e) (simp_all add: run_started_batch_def unexpected_Inr)
next
  case (Inr response)
  show ?thesis
  proof (cases "parse_unadjusted_daily_candles (svc_text env) (svc_sha256 env) response symbol")
    case (Inl e)
    then show ?thesis
      using assms(2) Inr fail_with_response_finishes [OF assms(1)]
      by (cases e) (simp_all add: run_started_batch_def)
  next
    case (Inr parsed)
    then show ?thesis
      using assms(2) \<open>fetch env symbol = Inr response\<close> process_finishes [OF assms(1)] by (simp add: run_started_batch_def)
  qed
qed

subsection \<open>Starting\<close>

definition resolves_feed :: "service_env \<Rightarrow> ingestion_db \<Rightarrow> provider \<Rightarrow> data_feed \<Rightarrow> bool" where
  "resolves_feed env db p f \<longleftrightarrow> get_provider_by_code (brsapi_provider_code env) (db_catalog db) = Inr p \<and>
     get_feed_by_code (provider_id p) (brsapi_daily_raw_feed_code env) (db_catalog db) = Inr f"

lemma start_body_Inr:
  "start_body env symbol rid started db = Inr (d, p, f, b, created) \<longleftrightarrow> resolves_feed env db p f \<and>
     (\<exists>t. create_batch_if_absent (feed_exists db) (tx_now env StartTx) (start_request p f symbol rid started) (db_batches db) = Inr (t, b, created) \<and>
       d = db\<lparr>db_batches := t\<rparr>)"
  by (auto simp: start_body_def current_feed_def resolves_feed_def db_bind_Inr db_return_Inr db_read_def on_batches_def rbind_Inr_iff)

lemma start_batch_Inr:
  assumes "start_batch env symbol rid db = (Inr (p, f, b, replay), db')"
  shows "\<exists>started d created. read_clock env AtStart = Inr started \<and> \<not> outage env StartTx \<and>
    start_body env symbol rid started db = Inr (d, p, f, b, created) \<and>
    (if created then \<not> replay \<and> db' = d else replay \<and> db' = db \<and> symbol_of b = Some (JStr symbol) \<and> batch_status b \<noteq> RUNNING)"
proof -
  obtain started where c: "read_clock env AtStart = Inr started"
    using assms by (cases "read_clock env AtStart") (auto simp: start_batch_def)
  obtain p' f' b' created d where t: "transaction env StartTx (\<lambda>(p, f, b, created). created) (start_body env symbol rid started) db = (Inr (p', f', b', created), d)"
    and rest: "(if created then (Inr (p', f', b', False), d)
            else if symbol_of b' \<noteq> Some (JStr symbol)
            then (Inl (RequestIdConflictError ''The request_id already belongs to a different normalized symbol.''), d)
            else if batch_status b' = RUNNING
            then (Inl (RequestIdConflictError ''The request_id already has a RUNNING batch.''), d)
            else (Inr (p', f', b', True), d)) = (Inr (p, f, b, replay), db')"
    using assms unfolding start_batch_def c sum.case and_then_Inr by (elim exE conjE) (simp split: prod.splits)
  obtain d' where "\<not> outage env StartTx" "start_body env symbol rid started db = Inr (d', p', f', b', created)" "d = (if created then d' else db)"
    using t by (auto simp: transaction_Inr)
  moreover have "p' = p \<and> f' = f \<and> b' = b \<and> d = db'"
    using rest by (simp split: if_splits)
  ultimately show ?thesis
    using c rest by (intro exI [of _ started] exI [of _ d'] exI [of _ created]) (simp split: if_splits)
qed

lemma appends_holds:
  assumes "batch_inv t" and "appends_row t t' b" and "db_batches db = t'"
  shows "holds_batch b db"
  using batch_inv_append [OF assms(1,2)] assms(2,3) by (auto simp: holds_batch_def same_batch_def appends_row_def)

lemma batch_row_request:
  assumes "batch_row ts (start_request p f symbol rid started) i = Inr b"
  shows "symbol_of b = Some (JStr symbol)" "started_at b = started" "batch_status b = RUNNING" "batch_row_ok b"
    "request_id b = Some rid" "batch_feed_id b = feed_id f"
  using assms
  by (auto simp: start_request_def batch_row_def require_aware_option_def require_aware_datetime_def dict_get_def batch_row_ok_def)

lemma start_request_fields:
  assumes "create_batch_if_absent fe ts (start_request p f symbol rid started) t = Inr (t', b, c)"
  shows "batch_feed_id b = feed_id f \<and> request_id b = Some rid \<and>
    (c \<longrightarrow> symbol_of b = Some (JStr symbol) \<and> started_at b = started \<and> batch_status b = RUNNING)"
proof -
  have rid: "new_request_id (start_request p f symbol rid started) = Some rid" "new_feed_id (start_request p f symbol rid started) = feed_id f"
    by (simp_all add: start_request_def)
  obtain r where r: "batch_row ts (start_request p f symbol rid started) (next_batch_id t) = Inr r"
    and c: "c \<Longrightarrow> b = r"
    using assms by (auto simp: create_batch_if_absent_def rid rbind_Inr_iff split: if_splits option.splits)
  show ?thesis
  proof (cases c)
    case True
    then show ?thesis using c batch_row_request [OF r] by simp
  next
    case False
    then show ?thesis using create_batch_if_absent_cases [OF assms] rid by simp
  qed
qed

lemma start_cases:
  assumes "batch_inv (db_batches db)" and "start_batch env symbol rid db = (Inr (p, f, b, replay), db')"
  shows "resolves_feed env db p f \<and> batch_feed_id b = feed_id f \<and> request_id b = Some rid \<and> symbol_of b = Some (JStr symbol) \<and>
    db_events db' = db_events db \<and> db_bars db' = db_bars db \<and> db_catalog db' = db_catalog db \<and>
    (if replay then db' = db \<and> b \<in> set (batches (db_batches db)) \<and> batch_status b \<noteq> RUNNING
     else holds_batch b db' \<and> b \<in> set (batches (db_batches db')) \<and> batch_status b = RUNNING \<and>
       batches (db_batches db') = batches (db_batches db) @ [b])"
proof -
  obtain started d created where sb: "start_body env symbol rid started db = Inr (d, p, f, b, created)"
    and c: "if created then \<not> replay \<and> db' = d else replay \<and> db' = db \<and> symbol_of b = Some (JStr symbol) \<and> batch_status b \<noteq> RUNNING"
    using start_batch_Inr [OF assms(2)] by (elim exE conjE)
  obtain t where r: "resolves_feed env db p f"
    and t: "create_batch_if_absent (feed_exists db) (tx_now env StartTx) (start_request p f symbol rid started) (db_batches db) = Inr (t, b, created)"
    and d: "d = db\<lparr>db_batches := t\<rparr>"
    using sb by (auto simp: start_body_Inr)
  note fields = start_request_fields [OF t]
  show ?thesis
  proof (cases created)
    case True
    then have a: "appends_row (db_batches db) t b"
      using create_batch_if_absent_cases [OF t] by simp
    then show ?thesis
      using True c r fields d a appends_holds [OF assms(1) a, of db'] by (simp add: appends_row_def)
  next
    case False
    then show ?thesis
      using c r fields create_batch_if_absent_cases [OF t] by auto
  qed
qed

lemma ingest_Inr:
  assumes "ingest env symbol rid db = (Inr res, db')"
  defines "n \<equiv> normalize_brsapi_symbol (svc_text env) symbol"
  shows "n \<noteq> [] \<and> (\<exists>p f b replay d. start_batch env n (effective_request_id env rid) db = (Inr (p, f, b, replay), d) \<and>
    (if replay then res = result_from_batch b (provider_code p) (feed_code f) n True \<and> db' = d
     else run_started_batch env p f b n d = (Inr res, db')))"
proof -
  have n: "n \<noteq> []" using assms(1) by (auto simp: ingest_def n_def Let_def)
  obtain p f b replay d where st: "start_batch env n (effective_request_id env rid) db = (Inr (p, f, b, replay), d)"
    and rest: "(if replay then (Inr (result_from_batch b (provider_code p) (feed_code f) n True), d)
          else (case run_started_batch env p f b n d of
                  (Inr res, db) \<Rightarrow> (Inr res, db)
                | (Inl CanonicalizationFailed, db) \<Rightarrow> (Inl DailyBarCanonicalizationError, db)
                | (Inl (Unexpected e), db) \<Rightarrow> (Inl DailyBarIngestionError, mark_unexpected_started_failure env b e db))) = (Inr res, db')"
    using assms(1) n unfolding ingest_def n_def [symmetric] Let_def by (auto simp: and_then_Inr)
  obtain r d' where run: "run_started_batch env p f b n d = (r, d')" by fastforce
  have "if replay then res = result_from_batch b (provider_code p) (feed_code f) n True \<and> db' = d
     else run_started_batch env p f b n d = (Inr res, db')"
    using rest by (cases r) (auto simp: run split: if_splits run_error.splits)
  then show ?thesis using n st by blast
qed

lemma ingest_finishes:
  assumes "batch_inv (db_batches db)" and "ingest env symbol rid db = (Inr res, db')"
  defines "n \<equiv> normalize_brsapi_symbol (svc_text env) symbol"
  shows "n \<noteq> [] \<and> (\<exists>p f fin. resolves_feed env db p f \<and> fin \<in> set (batches (db_batches db')) \<and> batch_status fin \<noteq> RUNNING \<and>
    batch_feed_id fin = feed_id f \<and> request_id fin = Some (effective_request_id env rid) \<and> symbol_of fin = Some (JStr n) \<and>
    res = result_from_batch fin (provider_code p) (feed_code f) n (res_idempotent_replay res) \<and>
    (if res_idempotent_replay res then db' = db else accounted fin))"
proof -
  obtain p f b replay d where st: "start_batch env n (effective_request_id env rid) db = (Inr (p, f, b, replay), d)" and n: "n \<noteq> []"
    and run: "if replay then res = result_from_batch b (provider_code p) (feed_code f) n True \<and> db' = d
      else run_started_batch env p f b n d = (Inr res, db')"
    using ingest_Inr [OF assms(2)] unfolding n_def by (elim exE conjE)
  note s = start_cases [OF assms(1) st]
  show ?thesis
  proof (cases replay)
    case True
    then show ?thesis
      using s run n by (intro conjI exI [of _ p] exI [of _ f] exI [of _ b]) (auto simp: result_from_batch_def)
  next
    case False
    then have h: "holds_batch b d" and r: "run_started_batch env p f b n d = (Inr res, db')" using s run by auto
    obtain fin where fin: "finished_as b fin db'" "res = result_from_batch fin (provider_code p) (feed_code f) n False"
      using run_finishes [OF h r] by (elim exE conjE)
    then have "same_batch b fin" by (simp add: finished_as_def)
    then have "batch_feed_id fin = batch_feed_id b" "request_id fin = request_id b" "symbol_of fin = symbol_of b"
      by (auto simp: same_batch_def batch_identity_def)
    then show ?thesis
      using s fin n by (intro conjI exI [of _ p] exI [of _ f] exI [of _ fin]) (auto simp: result_from_batch_def finished_as_def)
  qed
qed

text \<open>C30. A result of the ingestion service is the record of a finished batch and accounts for every row: the batch is in
  the table with a terminal status, the result carries its counts, and unless it repeats an earlier run either accepted
  and rejected rows add up to the rows received (nothing is rejected when it succeeded, some rows are accepted and some
  rejected when it is partial, none is accepted when it is quarantined), or the run failed before looking at a row.\<close>

theorem ingest_accounts_for_every_row:
  assumes "batch_inv (db_batches db)" and "ingest env symbol rid db = (Inr res, db')"
  shows "\<exists>fin \<in> set (batches (db_batches db')).
    res = result_from_batch fin (res_provider_code res) (res_feed_code res) (res_symbol res) (res_idempotent_replay res) \<and>
    res_status res \<noteq> RUNNING \<and> request_id fin = Some (effective_request_id env rid) \<and>
    (if res_idempotent_replay res then db' = db
     else (res_accepted_count res + res_rejected_count res = res_received_count res \<and>
          (res_status res = SUCCEEDED \<longrightarrow> res_rejected_count res = 0) \<and>
          (res_status res = PARTIAL \<longrightarrow> res_accepted_count res \<noteq> 0 \<and> res_rejected_count res \<noteq> 0) \<and>
          (res_status res = QUARANTINED \<longrightarrow> res_accepted_count res = 0)) \<or>
        ((res_status res = FAILED \<or> res_status res = QUARANTINED) \<and> res_accepted_count res = 0 \<and> res_rejected_count res = 0))"
proof -
  obtain p f fin where "resolves_feed env db p f"
    and fin: "fin \<in> set (batches (db_batches db'))" "batch_status fin \<noteq> RUNNING" "request_id fin = Some (effective_request_id env rid)"
    and res: "res = result_from_batch fin (provider_code p) (feed_code f) (normalize_brsapi_symbol (svc_text env) symbol) (res_idempotent_replay res)"
    and acc: "if res_idempotent_replay res then db' = db else accounted fin"
    using ingest_finishes [OF assms] by (elim exE conjE)
  have "res_provider_code res = provider_code p" "res_feed_code res = feed_code f"
    "res_symbol res = normalize_brsapi_symbol (svc_text env) symbol" "res_status res = batch_status fin"
    "res_received_count res = received_row_count fin" "res_accepted_count res = accepted_row_count fin"
    "res_rejected_count res = rejected_row_count fin"
    by (subst res, simp add: result_from_batch_def)+
  then show ?thesis
    using fin res acc [unfolded accounted_def] by (intro bexI [of _ fin]) (simp_all split: if_splits)
qed

lemma create_finds:
  assumes "batch_inv t" and "fin \<in> set (batches t)" and "batch_feed_id fin = feed_id f" and "request_id fin = Some rid"
  shows "\<exists>t'. create_batch_if_absent fe ts (start_request p f symbol rid started) t = Inr (t', fin, False)"
proof -
  obtain r where r: "batch_row ts (start_request p f symbol rid started) (next_batch_id t) = Inr r"
    by (simp add: batch_row_def start_request_def require_aware_option_def require_aware_datetime_def)
  have same: "same_request r fin"
    using batch_row_request [OF r] assms(3,4) by (simp add: same_request_def)
  have "find (same_request r) (batches t) = Some fin"
  proof (rule find_unique)
    show "y = fin" if "y \<in> set (batches t)" "same_request r y" for y
      using batch_invD(4) [OF assms(1) that(1) assms(2)] that(2) same by (auto simp: same_request_def)
  qed (use assms(2) same in auto)
  then show ?thesis
    using r batch_row_request(4) [OF r] by (simp add: create_batch_if_absent_def start_request_def)
qed

text \<open>A repeated request is answered from the record: once an ingestion has returned a result, ingesting the same
  symbol under the same request identifier again (with whatever client and whatever clock, as long as the database is
  there) returns the same result marked as a replay, fetches nothing and leaves every table as it is.\<close>

theorem repeated_request_is_replayed:
  assumes "batch_inv (db_batches db)" and "ingest env symbol rid db = (Inr res, db')"
    and "normalize_brsapi_symbol (svc_text env') symbol' = normalize_brsapi_symbol (svc_text env) symbol"
    and "effective_request_id env' rid' = effective_request_id env rid"
    and "brsapi_provider_code env' = brsapi_provider_code env" and "brsapi_daily_raw_feed_code env' = brsapi_daily_raw_feed_code env"
    and "clock env' AtStart = Aware started" and "\<not> outage env' StartTx"
  shows "ingest env' symbol' rid' db' = (Inr (res\<lparr>res_idempotent_replay := True\<rparr>), db')"
proof -
  let ?n = "normalize_brsapi_symbol (svc_text env) symbol" and ?rid = "effective_request_id env rid"
  obtain p f fin where n: "?n \<noteq> []" and r: "resolves_feed env db p f" and fin: "fin \<in> set (batches (db_batches db'))"
    "batch_status fin \<noteq> RUNNING" "batch_feed_id fin = feed_id f" "request_id fin = Some ?rid" "symbol_of fin = Some (JStr ?n)"
    and res: "res = result_from_batch fin (provider_code p) (feed_code f) ?n (res_idempotent_replay res)"
    using ingest_finishes [OF assms(1,2)] by (elim exE conjE)
  have steps: "db_steps db db'" using steps.ingest_R [of db env symbol rid] by (simp add: assms(2))
  then have inv: "batch_inv (db_batches db')" and cat: "db_catalog db' = db_catalog db"
    using batch_log.inv_steps assms(1) by (auto simp: db_steps_def)
  have r': "resolves_feed env' db' p f" using r by (simp add: resolves_feed_def cat assms(5,6))
  obtain t where "create_batch_if_absent (feed_exists db') (tx_now env' StartTx) (start_request p f ?n ?rid started) (db_batches db') = Inr (t, fin, False)"
    using create_finds [OF inv fin(1,3,4)] by blast
  then have "start_body env' ?n ?rid started db' = Inr (db'\<lparr>db_batches := t\<rparr>, p, f, fin, False)"
    using r' by (simp add: start_body_Inr)
  then have "start_batch env' ?n ?rid db' = (Inr (p, f, fin, True), db')"
    using fin(2,5) assms(7,8)
    by (simp add: start_batch_def read_clock_def require_aware_datetime_def and_then_def transaction_def in_unit_of_work_def)
  moreover have "res\<lparr>res_idempotent_replay := True\<rparr> = result_from_batch fin (provider_code p) (feed_code f) ?n True"
    by (subst res) (simp add: result_from_batch_def)
  ultimately show ?thesis
    using n by (simp add: ingest_def assms(3,4) and_then_def)
qed

subsection \<open>A failed canonicalization\<close>

lemma and_then_Inl:
  "and_then x f = (Inl e, db') \<longleftrightarrow> x = (Inl e, db') \<or> (\<exists>a d. x = (Inr a, d) \<and> f a d = (Inl e, db'))"
  by (cases x) (auto simp: and_then_def split: sum.split)

text \<open>How a row of the response is kept as a raw event.\<close>

definition preserved_as :: "service_env \<Rightarrow> ingestion_batch \<Rightarrow> row_validation_result \<Rightarrow> raw_event \<Rightarrow> bool" where
  "preserved_as env b row e \<longleftrightarrow> event_batch_id e = ingestion_batch_id b \<and> source_sequence e = Some (row_source_sequence row) \<and>
     cast_object (row_raw_payload row) = Inr (raw_payload e) \<and>
     row_payload_sha256 (svc_sha256 env) (row_raw_payload row) = Inr (event_payload_sha256 e) \<and> validation_status e = PENDING"

lemma insert_record_row:
  assumes "insert_response_record be fe n t = Inr (t', e)"
  shows "raw_events t' = raw_events t @ [e] \<and> cast_object (ne_raw_payload n) = Inr (raw_payload e) \<and>
    validation_status e = ne_validation_status n \<and> event_batch_id e = ne_batch_id n \<and> source_sequence e = ne_source_sequence n \<and>
    event_payload_sha256 e = ne_payload_sha256 n"
  using assms by (auto simp: insert_response_record_def Let_def rbind_Inr_iff split: if_splits)

lemma insert_row_event:
  assumes "insert_row env f b symbol response row db = Inr (db', e)"
  shows "raw_events (db_events db') = raw_events (db_events db) @ [e] \<and> preserved_as env b row e"
proof -
  obtain digest where "row_payload_sha256 (svc_sha256 env) (row_raw_payload row) = Inr digest"
    using assms by (cases "row_payload_sha256 (svc_sha256 env) (row_raw_payload row)") (auto simp: insert_row_def db_fail_def)
  then show ?thesis
    using assms
    by (auto simp: insert_row_def on_events_def rbind_Inr_iff preserved_as_def row_event_def Let_def dest!: insert_record_row)
qed

lemma insert_rows_events:
  assumes "insert_rows env f b symbol response rows db = Inr (db', es)"
  shows "raw_events (db_events db') = raw_events (db_events db) @ es \<and> list_all2 (preserved_as env b) rows es"
  using assms
proof (induction rows arbitrary: db es)
  case (Cons row rows)
  then obtain d e rest where "insert_row env f b symbol response row db = Inr (d, e)"
    and "insert_rows env f b symbol response rows d = Inr (db', rest)" and "es = e # rest"
    by (auto simp: db_bind_Inr db_return_Inr)
  then show ?case
    using insert_row_event Cons.IH by fastforce
qed (auto simp: db_return_Inr)

lemma acquisition_events:
  assumes "acquisition_body env f b symbol response parsed db = Inr (db', es)"
  shows "raw_events (db_events db') = raw_events (db_events db) @ es \<and> list_all2 (preserved_as env b) (parse_rows parsed) es \<and>
    db_bars db' = db_bars db"
proof -
  obtain d1 d2 where d1: "(if parse_rows parsed \<noteq> [] then ensure_event_month (response_received_at response) else db_return ()) db = Inr (d1, ())"
    and d2: "insert_rows env f b symbol response (parse_rows parsed) d1 = Inr (d2, es)"
    and d: "db_events db' = db_events d2" "db_bars db' = db_bars d2"
    using assms by (auto simp: acquisition_body_def db_bind_Inr db_return_Inr on_batches_def rbind_Inr_iff)
  have "raw_events (db_events d1) = raw_events (db_events db) \<and> db_bars d1 = db_bars db"
    using d1 by (auto simp: ensure_event_month_def on_events_def rbind_Inr_iff ensure_month_partition_def Let_def db_return_Inr split: if_splits)
  then show ?thesis
    using insert_rows_events [OF d2] keepsD [OF same_bars.keeps_insert_rows d2] d by simp
qed

lemma run_failed:
  assumes "run_started_batch env p f b symbol db = (Inl CanonicalizationFailed, db')"
  shows "\<exists>response parsed. fetch env symbol = Inr response \<and>
    parse_unadjusted_daily_candles (svc_text env) (svc_sha256 env) response symbol = Inr parsed \<and>
    process_response env p f b symbol response parsed db = (Inl CanonicalizationFailed, db')"
proof (cases "fetch env symbol")
  case (Inl e)
  then show ?thesis
    using assms by (cases e) (simp_all add: run_started_batch_def unexpected_failed fail_with_response_def)
next
  case (Inr response)
  show ?thesis
  proof (cases "parse_unadjusted_daily_candles (svc_text env) (svc_sha256 env) response symbol")
    case (Inl e)
    then show ?thesis
      using assms Inr by (cases e) (simp_all add: run_started_batch_def unexpected_failed fail_with_response_def)
  next
    case (Inr parsed)
    then show ?thesis
      using assms \<open>fetch env symbol = Inr response\<close> by (simp add: run_started_batch_def)
  qed
qed

lemma process_failed:
  assumes "process_response env p f b symbol response parsed db = (Inl CanonicalizationFailed, db')"
  shows "\<exists>es d e fin acq. acquisition_body env f b symbol response parsed db = Inr (d, es) \<and>
    acq = \<lparr>acq_response = response, acq_parsed = parsed, acq_raw_events = es, acq_watermark = watermark_of parsed\<rparr> \<and>
    mark_unexpected_canonicalization_failure env b acq e d = (Inr fin, db')"
proof -
  obtain acq d where acq: "persist_acquisition env f b symbol response parsed db = (Inr acq, d)"
    and rest: "(if no_data parsed \<noteq> None then unexpected (finalize_no_data env p f b symbol acq d)
       else (case canonicalize env p f b symbol acq d of (Inr res, db) \<Rightarrow> (Inr res, db)
             | (Inl e, db) \<Rightarrow> and_then (unexpected (mark_unexpected_canonicalization_failure env b acq e db)) (\<lambda>_ db. (Inl CanonicalizationFailed, db)))) =
        (Inl CanonicalizationFailed, db')"
    using assms by (auto simp: process_response_def and_then_Inl unexpected_failed unexpected_Inr)
  obtain e d' where c: "canonicalize env p f b symbol acq d = (Inl e, d')"
    and m: "and_then (unexpected (mark_unexpected_canonicalization_failure env b acq e d')) (\<lambda>_ db. (Inl CanonicalizationFailed, db)) =
        (Inl CanonicalizationFailed :: (run_error, daily_bar_ingestion_result) result, db')"
    using rest by (cases "canonicalize env p f b symbol acq d"; cases "fst (canonicalize env p f b symbol acq d)")
      (auto simp: unexpected_failed split: if_splits)
  have "d' = d"
    using c by (auto simp: canonicalize_def and_then_Inl dest: transaction_Inl split: if_splits)
  then show ?thesis
    using acq m by (auto simp: persist_acquisition_def and_then_Inr transaction_Inr and_then_Inl unexpected_failed unexpected_Inr)
qed

lemma start_never_canonicalizes: "start_batch env symbol rid db \<noteq> (Inl DailyBarCanonicalizationError, db')"
proof -
  have provider: "get_provider_by_code code c \<noteq> Inl DailyBarCanonicalizationError"
    and feed: "get_feed_by_code i code c \<noteq> Inl DailyBarCanonicalizationError" for code i c
    by (auto simp: get_provider_by_code_def get_feed_by_code_def one_or_none_def required_row_def rbind_def split: sum.split list.split option.split)
  have create: "create_batch_if_absent fe ts (start_request p f symbol rid started) t \<noteq> Inl DailyBarCanonicalizationError" for fe ts p f started t
    by (auto simp: create_batch_if_absent_def create_batch_def start_request_def batch_row_def require_aware_option_def require_aware_datetime_def
        map_database_error_def rbind_def split: option.split)
  have "start_body env symbol rid started db \<noteq> Inl DailyBarCanonicalizationError" for started
    using provider feed create
    by (auto simp: start_body_def current_feed_def db_bind_def db_read_def db_return_def on_batches_def rbind_def split: sum.split)
  then have "transaction env StartTx c (start_body env symbol rid started) db \<noteq> (Inl DailyBarCanonicalizationError, d)" for c started d
    by (auto simp: transaction_def in_unit_of_work_def split: sum.split)
  then show ?thesis
    by (auto simp: start_batch_def and_then_Inl read_clock_def require_aware_datetime_def split: py_datetime.split)
qed

lemma failed_canonicalization_marked:
  assumes "holds_batch b d" and "run_started_batch env p f b n d = (Inl CanonicalizationFailed, db')"
  shows "\<exists>response parsed es d2 fin. fetch env n = Inr response \<and>
    parse_unadjusted_daily_candles (svc_text env) (svc_sha256 env) response n = Inr parsed \<and>
    acquisition_body env f b n response parsed d = Inr (d2, es) \<and> db_events db' = db_events d2 \<and> db_bars db' = db_bars d2 \<and>
    fin \<in> set (batches (db_batches db')) \<and> same_batch b fin \<and> batch_status fin = FAILED \<and>
    received_row_count fin = int (length (parse_rows parsed)) \<and> accepted_row_count fin = 0 \<and> rejected_row_count fin = 0"
proof -
  obtain response parsed where rp: "fetch env n = Inr response"
      "parse_unadjusted_daily_candles (svc_text env) (svc_sha256 env) response n = Inr parsed"
    and pr: "process_response env p f b n response parsed d = (Inl CanonicalizationFailed, db')"
    using run_failed [OF assms(2)] by (elim exE conjE)
  obtain es d2 e fin acq where body: "acquisition_body env f b n response parsed d = Inr (d2, es)"
    and acq: "acq = \<lparr>acq_response = response, acq_parsed = parsed, acq_raw_events = es, acq_watermark = watermark_of parsed\<rparr>"
    and mark: "mark_unexpected_canonicalization_failure env b acq e d2 = (Inr fin, db')"
    using process_failed [OF pr] by (elim exE conjE)
  have m: "finalize env CanonicalizationFailureTx b (\<lambda>finished.
       \<lparr>final_status = FAILED, final_received = int (length (parse_rows (acq_parsed acq))), final_accepted = 0, final_rejected = 0,
        final_payload = Some (response_sha256 (acq_parsed acq)), final_watermark = acq_watermark acq,
        final_error = Some (failure_summary env ''CANONICALIZATION_FAILED'' (str_error env e)),
        final_metadata = Some (no_rows_metadata (length (acq_raw_events acq)) @ [(u ''failure_code'', JStr (u ''CANONICALIZATION_FAILED''))]),
        final_finished_at = Some (Aware finished)\<rparr>) d2 = Inr (db', fin)"
    using mark by (simp add: mark_unexpected_canonicalization_failure_def transaction_Inr)
  have keys: "u ''symbol'' \<notin> fst ` set (no_rows_metadata (length (acq_raw_events acq)) @ [(u ''failure_code'', JStr (u ''CANONICALIZATION_FAILED''))])"
    using completion_keys by (simp add: no_rows_metadata_def)
  have "fin \<in> set (batches (db_batches db'))" "same_batch b fin" "batch_status fin = FAILED"
    "received_row_count fin = int (length (parse_rows parsed))" "accepted_row_count fin = 0" "rejected_row_count fin = 0"
    using holds_finalize [OF holds_acquisition [OF assms(1) body] m refl [THEN trans, OF final_values.simps(8)] keys] by (auto simp: acq)
  moreover have "db_events db' = db_events d2" "db_bars db' = db_bars d2"
    using m by (auto simp: finalize_Inr)
  ultimately show ?thesis using rp body by blast
qed

text \<open>C31. When canonicalization fails, for whatever reason, the evidence survives and no bar is written: the bars are as
  they were before the ingestion, every row of the response is a raw event of the batch with its payload, digest and
  place, still awaiting validation, behind all earlier events, and the batch has failed with every row received and none
  accepted or rejected.\<close>

theorem failed_canonicalization_keeps_evidence:
  assumes "batch_inv (db_batches db)" and "ingest env symbol rid db = (Inl DailyBarCanonicalizationError, db')"
  shows "\<exists>response parsed es fin. fetch env (normalize_brsapi_symbol (svc_text env) symbol) = Inr response \<and>
    parse_unadjusted_daily_candles (svc_text env) (svc_sha256 env) response (normalize_brsapi_symbol (svc_text env) symbol) = Inr parsed \<and>
    db_bars db' = db_bars db \<and> raw_events (db_events db') = raw_events (db_events db) @ es \<and>
    list_all2 (preserved_as env fin) (parse_rows parsed) es \<and>
    fin \<in> set (batches (db_batches db')) \<and> batch_status fin = FAILED \<and> request_id fin = Some (effective_request_id env rid) \<and>
    received_row_count fin = int (length (parse_rows parsed)) \<and> accepted_row_count fin = 0 \<and> rejected_row_count fin = 0"
proof -
  let ?n = "normalize_brsapi_symbol (svc_text env) symbol"
  obtain p f b d where st: "start_batch env ?n (effective_request_id env rid) db = (Inr (p, f, b, False), d)"
    and run: "run_started_batch env p f b ?n d = (Inl CanonicalizationFailed, db')"
  proof -
    obtain p f b replay d where "start_batch env ?n (effective_request_id env rid) db = (Inr (p, f, b, replay), d)"
      and "(if replay then (Inr (result_from_batch b (provider_code p) (feed_code f) ?n True), d)
          else (case run_started_batch env p f b ?n d of
                  (Inr res, db) \<Rightarrow> (Inr res, db)
                | (Inl CanonicalizationFailed, db) \<Rightarrow> (Inl DailyBarCanonicalizationError, db)
                | (Inl (Unexpected e), db) \<Rightarrow> (Inl DailyBarIngestionError, mark_unexpected_started_failure env b e db))) =
        (Inl DailyBarCanonicalizationError, db')"
      using assms(2) by (auto simp: ingest_def Let_def and_then_Inl start_never_canonicalizes split: if_splits)
    then show ?thesis
      using that by (cases "run_started_batch env p f b ?n d"; cases "fst (run_started_batch env p f b ?n d)")
        (auto split: if_splits run_error.splits)
  qed
  note s = start_cases [OF assms(1) st, simplified]
  obtain response parsed es d2 fin where rp: "fetch env ?n = Inr response"
      "parse_unadjusted_daily_candles (svc_text env) (svc_sha256 env) response ?n = Inr parsed"
    and body: "acquisition_body env f b ?n response parsed d = Inr (d2, es)" and db': "db_events db' = db_events d2" "db_bars db' = db_bars d2"
    and f: "fin \<in> set (batches (db_batches db'))" "same_batch b fin" "batch_status fin = FAILED"
      "received_row_count fin = int (length (parse_rows parsed))" "accepted_row_count fin = 0" "rejected_row_count fin = 0"
    using failed_canonicalization_marked [OF _ run] s by (elim exE conjE) blast
  have same: "preserved_as env fin = preserved_as env b"
    using same_batch_id [OF f(2)] by (intro ext) (simp add: preserved_as_def)
  have "request_id fin = request_id b"
    using f(2) by (simp add: same_batch_def batch_identity_def)
  then show ?thesis
    using rp f s db' acquisition_events [OF body] by (intro exI [of _ response] exI [of _ parsed] exI [of _ es] exI [of _ fin]) (simp add: same)
qed

subsection \<open>No batch is left running\<close>

definition payload_ok :: "ingestion_batch \<Rightarrow> bool" where
  "payload_ok b \<longleftrightarrow> (case batch_payload_sha256 b of None \<Rightarrow> True | Some s \<Rightarrow> length s = 64)"

definition payload_inv :: "batch_table \<Rightarrow> bool" where
  "payload_inv t \<longleftrightarrow> (\<forall>b \<in> set (batches t). payload_ok b)"

lemma char_n_length: "char_n n s = Inr c \<Longrightarrow> length c = n"
  by (auto simp: char_n_def split: if_splits)

lemma set_payload_ok: "set_payload p b = Inr b' \<Longrightarrow> payload_ok b \<Longrightarrow> payload_ok b'"
  by (auto simp: set_payload_def payload_ok_def rbind_Inr_iff dest!: char_n_length split: option.splits)

lemma payload_ok_columns [simp]:
  "payload_ok (b\<lparr>batch_status := s\<rparr>) = payload_ok b" "payload_ok (b\<lparr>finished_at := x\<rparr>) = payload_ok b"
  "payload_ok (b\<lparr>received_row_count := n\<rparr>) = payload_ok b" "payload_ok (b\<lparr>accepted_row_count := n\<rparr>) = payload_ok b"
  "payload_ok (b\<lparr>rejected_row_count := n\<rparr>) = payload_ok b" "payload_ok (b\<lparr>error_summary := e\<rparr>) = payload_ok b"
  "payload_ok (set_watermark w b) = payload_ok b" "payload_ok (patch_metadata m b) = payload_ok b"
  by (simp_all add: payload_ok_def set_watermark_def patch_metadata_def split: option.split)

lemma transition_payload:
  assumes "execute_running_transition i g t = Inr (t', b')" and "payload_inv t"
    and "\<And>b b'. g b = Inr b' \<Longrightarrow> payload_ok b \<Longrightarrow> payload_ok b'"
  shows "payload_inv t'"
proof -
  obtain r where "find (\<lambda>x. ingestion_batch_id x = i \<and> batch_status x = RUNNING) (batches t) = Some r" and "g r = Inr b'"
    and t': "t' = t\<lparr>batches := map (\<lambda>x. if ingestion_batch_id x = i then b' else x) (batches t)\<rparr>"
    using assms(1) by (auto simp: execute_running_transition_def rbind_Inr_iff split: option.splits if_splits)
  then have "payload_ok b'"
    using assms(2,3) by (auto simp: find_Some_iff payload_inv_def)
  then show ?thesis
    using assms(2) by (auto simp: t' payload_inv_def)
qed

lemma payload_inv_step:
  assumes "batch_step t t'" and inv: "payload_inv t"
  shows "payload_inv t'"
  using assms(1)
proof cases
  case step_create
  then show ?thesis
    using inv by (auto simp: create_batch_def batch_row_def rbind_Inr_iff payload_inv_def payload_ok_def split: if_splits)
next
  case step_create_if_absent
  then show ?thesis
    using inv by (auto simp: create_batch_if_absent_def create_batch_def batch_row_def rbind_Inr_iff payload_inv_def payload_ok_def
        split: if_splits option.splits)
next
  case step_mark_running
  then show ?thesis using inv by (auto simp: mark_running_def elim!: transition_payload)
next
  case step_record_acquisition
  then show ?thesis
    using inv by (auto simp: record_acquisition_def rbind_Inr_iff split: if_splits elim!: transition_payload dest!: set_payload_ok)
next
  case step_finalize
  then show ?thesis
    using inv by (auto simp: finalize_batch_def finalize_row_def rbind_Inr_iff split: if_splits elim!: transition_payload dest!: set_payload_ok)
next
  case step_mark_failed
  then show ?thesis
    using inv by (auto simp: mark_failed_def Let_def rbind_Inr_iff split_beta elim!: transition_payload)
qed

lemma payload_inv_steps: "batch_step\<^sup>*\<^sup>* t t' \<Longrightarrow> payload_inv t \<Longrightarrow> payload_inv t'"
  by (induction rule: rtranclp_induct) (auto dest: payload_inv_step)

lemma get_by_id_row:
  assumes "batch_inv t" and "r \<in> set (batches t)"
  shows "get_by_id (ingestion_batch_id r) t = Some r"
  unfolding get_by_id_def
proof (rule find_unique)
  show "y = r" if "y \<in> set (batches t)" "ingestion_batch_id y = ingestion_batch_id r" for y
    using batch_invD(1) [OF assms(1)] that assms(2) by (metis distinct_map inj_on_eq_iff)
qed (use assms in auto)

text \<open>Values that satisfy the constraints of the table finish a running row.\<close>

lemma finalize_running_row:
  assumes "batch_inv t" and "r \<in> set (batches t)" and "batch_status r = RUNNING" and "started_at r \<le> finished"
    and "final_status v \<noteq> RUNNING" and "final_finished_at v = Some (Aware finished)"
    and "0 \<le> final_accepted v" and "0 \<le> final_rejected v" and "final_accepted v + final_rejected v \<le> final_received v"
    and "in_bigint (final_received v)" and "\<And>s. final_payload v = Some s \<Longrightarrow> length s = 64"
  shows "\<exists>t' b'. finalize_batch alnum ts (ingestion_batch_id r) v t = Inr (t', b')"
proof -
  let ?x = "r\<lparr>batch_status := final_status v, finished_at := Some finished, received_row_count := final_received v,
      accepted_row_count := final_accepted v, rejected_row_count := final_rejected v,
      error_summary := if final_status v = SUCCEEDED then None
        else map_option (\<lambda>e. take FAILURE_MESSAGE_LIMIT (redact_failure_text alnum e)) (final_error v)\<rparr>"
  obtain c where c: "set_payload (final_payload v) ?x = Inr (?x\<lparr>batch_payload_sha256 := c\<rparr>)"
  proof (cases "final_payload v")
    case None
    then show ?thesis using that [of "batch_payload_sha256 r"] by (simp add: set_payload_def)
  next
    case (Some s)
    then show ?thesis using that [of "Some s"] assms(11) by (simp add: set_payload_def char_n_def)
  qed
  have ok: "batch_row_ok ?x" "batch_row_in_range ?x"
    using batch_invD(2) [OF assms(1,2)] assms(4,7-10)
    by (auto simp: batch_wf_def batch_row_ok_def batch_row_in_range_def in_bigint_def split: option.splits)
  have row: "finalize_row alnum ts v (Some finished) r =
      Inr (patch_metadata (final_metadata v) (set_watermark (final_watermark v) (?x\<lparr>batch_payload_sha256 := c\<rparr>)))"
    using c by (simp add: finalize_row_def)
  have "find (\<lambda>b. ingestion_batch_id b = ingestion_batch_id r \<and> batch_status b = RUNNING) (batches t) = Some r"
  proof (rule find_unique)
    show "y = r" if "y \<in> set (batches t)" "ingestion_batch_id y = ingestion_batch_id r \<and> batch_status y = RUNNING" for y
      using batch_invD(1) [OF assms(1)] that assms(2) by (metis distinct_map inj_on_eq_iff)
  qed (use assms in auto)
  then have "\<exists>t' b'. execute_running_transition (ingestion_batch_id r) (finalize_row alnum ts v (Some finished)) t = Inr (t', b')"
    using row ok by (simp add: execute_running_transition_def)
  then show ?thesis
    using assms(5-9)
    by (simp add: finalize_batch_def terminal_not_running validate_counts_def require_aware_option_def require_aware_datetime_def)
qed

lemma started_failure_ends:
  assumes "batch_inv (db_batches db)" and "payload_inv (db_batches db)" and "r \<in> set (batches (db_batches db))"
    and "batch_identity r = batch_identity b" and "\<not> outage env StartedFailureTx"
    and "clock env (AtFinish StartedFailureTx) = Aware finished" and "started_at b \<le> finished"
  shows "\<exists>fin \<in> set (batches (db_batches (mark_unexpected_started_failure env b e db))).
    ingestion_batch_id fin = ingestion_batch_id b \<and> batch_status fin \<noteq> RUNNING"
proof -
  have id: "ingestion_batch_id r = ingestion_batch_id b" "started_at r = started_at b"
    using assms(4) by (auto simp: batch_identity_def)
  have get: "get_by_id (ingestion_batch_id b) (db_batches db) = Some r"
    using get_by_id_row [OF assms(1,3)] by (simp add: id)
  show ?thesis
  proof (cases "batch_status r = RUNNING")
    case False
    then have "mark_unexpected_started_failure env b e db = db"
      by (simp add: mark_unexpected_started_failure_def started_failure_body_def transaction_def in_unit_of_work_def db_bind_def db_read_def
          get db_return_def assms(5))
    then show ?thesis using False assms(3) id by auto
  next
    case True
    define v where "v = \<lparr>final_status = FAILED, final_received = received_row_count r, final_accepted = accepted_row_count r,
       final_rejected = rejected_row_count r, final_payload = batch_payload_sha256 r, final_watermark = source_watermark r,
       final_error = Some (failure_summary env ''INGESTION_FAILED'' (str_error env e)),
       final_metadata = Some [(u ''failure_code'', JStr (u ''INGESTION_FAILED''))], final_finished_at = Some (Aware finished)\<rparr>"
    have "length s = 64" if "batch_payload_sha256 r = Some s" for s
      using assms(2,3) that by (auto simp: payload_inv_def payload_ok_def)
    then obtain t' b' where f: "finalize_batch (svc_alnum env) (tx_now env StartedFailureTx) (ingestion_batch_id r) v (db_batches db) = Inr (t', b')"
      using finalize_running_row [OF assms(1,3) True, of finished v "svc_alnum env" "tx_now env StartedFailureTx"]
        assms(7) id True batch_invD(2) [OF assms(1,3)]
      by (auto simp: v_def batch_wf_def batch_row_ok_def batch_row_in_range_def)
    then have "mark_unexpected_started_failure env b e db = db\<lparr>db_batches := t'\<rparr>"
      using True assms(5,6)
      by (simp add: mark_unexpected_started_failure_def started_failure_body_def transaction_def in_unit_of_work_def db_bind_def db_read_def
          get db_return_def finalize_def db_lift_def read_clock_def require_aware_datetime_def on_batches_def id v_def)
    moreover have "b' \<in> set (batches t') \<and> batch_identity b' = batch_identity r \<and> batch_status b' = FAILED"
      using finalize_batch_row [OF assms(1,3) f, of "[(u ''failure_code'', JStr (u ''INGESTION_FAILED''))]"] by (simp add: v_def)
    ultimately show ?thesis
      using id by (intro bexI [of _ b']) (auto simp: batch_identity_def)
  qed
qed

text \<open>C32. No started batch is left running: whatever happens after the batch has been started (an error of the provider, an
  exception of the parser, a transaction that the database refuses or cannot carry out), when the ingestion returns or
  raises the batch has a terminal status, provided the best-effort transaction that marks failures can run and the clock
  has not gone back.\<close>

theorem started_batch_ends:
  assumes "batch_inv (db_batches db)" and "payload_inv (db_batches db)"
    and "start_batch env (normalize_brsapi_symbol (svc_text env) symbol) (effective_request_id env rid) db = (Inr (p, f, b, False), d)"
    and "normalize_brsapi_symbol (svc_text env) symbol \<noteq> []"
    and "\<not> outage env StartedFailureTx" and "clock env (AtFinish StartedFailureTx) = Aware finished" and "started_at b \<le> finished"
  shows "\<exists>fin \<in> set (batches (db_batches (snd (ingest env symbol rid db)))).
    ingestion_batch_id fin = ingestion_batch_id b \<and> batch_status fin \<noteq> RUNNING"
proof -
  let ?n = "normalize_brsapi_symbol (svc_text env) symbol"
  obtain r d' where run: "run_started_batch env p f b ?n d = (r, d')" by fastforce
  have ing: "ingest env symbol rid db = (case r of Inr res \<Rightarrow> (Inr res, d')
      | Inl CanonicalizationFailed \<Rightarrow> (Inl DailyBarCanonicalizationError, d')
      | Inl (Unexpected e) \<Rightarrow> (Inl DailyBarIngestionError, mark_unexpected_started_failure env b e d'))"
    using assms(3,4) by (simp add: ingest_def Let_def and_then_def run split: sum.split run_error.split)
  note s = start_cases [OF assms(1,3), simplified]
  have inv: "batch_inv (db_batches d)" using s by (simp add: holds_batch_def)
  have "db_steps db d" using steps.start_R [of db env ?n "effective_request_id env rid"] by (simp add: assms(3))
  moreover have "db_steps d d'" using steps.run_R [of d env p f b ?n] by (simp add: run)
  ultimately have st: "batch_step\<^sup>*\<^sup>* (db_batches d) (db_batches d')" and pay: "payload_inv (db_batches d')"
    using payload_inv_steps [OF _ assms(2)] payload_inv_steps by (auto simp: db_steps_def)
  note inv' = batch_log.inv_steps [OF st inv]
  obtain x where x: "x \<in> set (batches (db_batches d'))" "batch_identity x = batch_identity b"
    using batch_log.steps_evolve [OF st inv, of b] s by (auto simp: batch_evolves_def)
  show ?thesis
  proof (cases r)
    case (Inr res)
    then obtain fin where "finished_as b fin d'"
      using run_finishes [of b d env p f ?n res d'] s run by auto
    then show ?thesis
      using Inr ing same_batch_id by (auto simp: finished_as_def intro!: bexI [of _ fin])
  next
    case (Inl e)
    show ?thesis
    proof (cases e)
      case CanonicalizationFailed
      then show ?thesis
        using failed_canonicalization_marked [of b d env p f ?n d'] s run Inl ing by (force dest: same_batch_id)
    next
      case (Unexpected e')
      then show ?thesis
        using started_failure_ends [OF inv' pay x assms(5-7), of e'] Inl ing by simp
    qed
  qed
qed

end
