(* ===== verification/Ingestion_Example.thy ===== *)
theory Ingestion_Example
  imports Ingestion_Safety
begin

text \<open>
  A concrete ingestion: the provider answers with one row without any field. With a complete catalog the row is
  rejected and the batch quarantined; without the daily time frame canonicalization fails. The witnesses of the
  properties of the service apply them here.
\<close>

definition tiny_response :: brsapi_raw_response where
  "tiny_response = \<lparr>status_code = 200, headers = [], body_bytes = concat (map utf8_char (dumps (JList [JObj []]))),
     request_started_at = 50, response_received_at = 60, elapsed = 10\<rparr>"

definition tiny_env :: service_env where
  "tiny_env = \<lparr>svc_text = example_env, svc_sha256 = (\<lambda>_. replicate 64 48), svc_alnum = (\<lambda>_. False), str_error = (\<lambda>_. []),
     brsapi_provider_code = u ''BRS'', brsapi_daily_raw_feed_code = u ''DAILY'', brsapi_identifier_type = u ''BRSAPI_L18'',
     fetch = (\<lambda>_. Inr tiny_response), clock = (\<lambda>_. Aware 100), new_uuid = u ''id'', tx_now = (\<lambda>_. 100), outage = (\<lambda>_. False)\<rparr>"

definition tiny_db :: "timeframe list \<Rightarrow> ingestion_db" where
  "tiny_db tfs = \<lparr>db_catalog = example_catalog\<lparr>timeframes := tfs\<rparr>, db_batches = empty_batches,
     db_events = \<lparr>raw_events = [], next_event_id = 1, event_months = []\<rparr>, db_bars = empty_bars\<rparr>"

definition tiny_row :: row_validation_result where
  "tiny_row = \<lparr>row_source_sequence = 1, row_raw_payload = [], candidate = None,
     row_errors = map (\<lambda>f. issue MISSING_FIELD (Some f) ''Required field is absent.'') REQUIRED_ROW_FIELDS, row_warnings = [],
     include_in_canonicalization = False\<rparr>"

definition tiny_parsed :: daily_bar_parse_result where
  "tiny_parsed = \<lparr>response_sha256 = replicate 64 48, no_data = None, parse_rows = [tiny_row]\<rparr>"

lemma tiny_normalize: "normalize_brsapi_symbol example_env (u ''S'') = u ''S''"
  by (simp add: normalize_brsapi_symbol_def example_env_def normalize_digits_def normalize_digit_def persian_letter_def
      py_strip_def py_isspace_def)

lemma tiny_envelope: "parse_candlestick_envelope tiny_response = Inr (Candlesticks [[]])"
  using load_json_ascii [of "JList [JObj []]"]
  by (simp add: parse_candlestick_envelope_def tiny_response_def)

lemma tiny_parse: "parse_unadjusted_daily_candles example_env (\<lambda>_. replicate 64 48) tiny_response (u ''S'') = Inr tiny_parsed"
proof -
  have "validate_row example_env (\<lambda>_. replicate 64 48) [] 1 (u ''S'') 1 = Inr tiny_row"
    by (simp add: validate_row_def tiny_row_def string_field_def integer_field_def decimal_field_def time_value_def dict_get_def Let_def
        REQUIRED_ROW_FIELDS_def symbol_issues_def price_issues_def negative_price_def outside_def)
  moreover have "apply_duplicate_policy [tiny_row] = [tiny_row]"
    by (simp add: apply_duplicate_policy_def grouped_indexes_def group_by_def row_key_def accepted_def tiny_row_def)
  ultimately show ?thesis
    unfolding parse_unadjusted_daily_candles_def Let_def tiny_normalize tiny_envelope
    by (simp add: tiny_parsed_def response_payload_sha256_def)
qed

definition tiny_batch :: ingestion_batch where
  "tiny_batch = \<lparr>ingestion_batch_id = 1, batch_feed_id = 7, request_id = Some (u ''r1''), requested_event_from = None,
     requested_event_to = None, started_at = 100, finished_at = None, batch_status = RUNNING, received_row_count = 0,
     accepted_row_count = 0, rejected_row_count = 0, batch_payload_sha256 = None, parser_version = PARSER_VERSION,
     source_watermark = None, error_summary = None,
     batch_metadata = [(u ''provider_code'', JStr (u ''BRS'')), (u ''feed_code'', JStr (u ''DAILY'')),
        (u ''symbol'', JStr (u ''S'')), (u ''request_type'', JInt 2), (u ''endpoint'', JStr (u ''Tsetmc/Candlestick.php''))]\<rparr>"

definition tiny_started :: "timeframe list \<Rightarrow> ingestion_db" where
  "tiny_started tfs = (tiny_db tfs)\<lparr>db_batches := \<lparr>batches = [tiny_batch], next_batch_id = 2\<rparr>\<rparr>"

abbreviation tiny_provider :: provider where
  "tiny_provider \<equiv> hd (providers example_catalog)"

abbreviation tiny_feed :: data_feed where
  "tiny_feed \<equiv> hd (feeds example_catalog)"

lemma tiny_lookups:
  "get_provider_by_code (u ''BRS'') (example_catalog\<lparr>timeframes := tfs\<rparr>) = Inr tiny_provider"
  "get_feed_by_code 5 (u ''DAILY'') (example_catalog\<lparr>timeframes := tfs\<rparr>) = Inr tiny_feed"
  "provider_id tiny_provider = 5" "feed_id tiny_feed = 7" "provider_code tiny_provider = u ''BRS''" "feed_code tiny_feed = u ''DAILY''"
  "feed_exists (tiny_db tfs) 7"
  by (simp_all add: get_provider_by_code_def get_feed_by_code_def one_or_none_def required_row_def example_catalog_def feed_exists_def tiny_db_def)

lemma tiny_current_feed:
  "db_catalog db = example_catalog\<lparr>timeframes := tfs\<rparr> \<Longrightarrow> current_feed tiny_env db = Inr (db, tiny_provider, tiny_feed)"
  using tiny_lookups by (simp add: current_feed_def db_bind_def db_read_def db_return_def tiny_env_def del: u_Cons)

lemma tiny_start:
  "start_batch tiny_env (u ''S'') (u ''r1'') (tiny_db tfs) = (Inr (tiny_provider, tiny_feed, tiny_batch, False), tiny_started tfs)"
proof -
  have "create_batch_if_absent (feed_exists (tiny_db tfs)) 100 (start_request tiny_provider tiny_feed (u ''S'') (u ''r1'') 100) empty_batches =
      Inr (\<lparr>batches = [tiny_batch], next_batch_id = 2\<rparr>, tiny_batch, True)"
    using tiny_lookups(4-7)
    by (simp add: create_batch_if_absent_def start_request_def batch_row_def batch_row_ok_def require_aware_option_def
        require_aware_datetime_def empty_batches_def tiny_batch_def del: u_Cons)
  then have "start_body tiny_env (u ''S'') (u ''r1'') 100 (tiny_db tfs) = Inr (tiny_started tfs, tiny_provider, tiny_feed, tiny_batch, True)"
    using tiny_current_feed [of "tiny_db tfs" tfs]
    by (simp add: start_body_def db_bind_def on_batches_def db_return_def tiny_db_def tiny_started_def tiny_env_def del: u_Cons)
  then show ?thesis
    by (simp add: start_batch_def read_clock_def require_aware_datetime_def and_then_def transaction_def in_unit_of_work_def tiny_env_def del: u_Cons)
qed

definition tiny_event :: raw_event where
  "tiny_event = \<lparr>ingested_at = 60, raw_event_id = 1, event_batch_id = 1, event_feed_id = 7,
     source_record_key = Some (record_key (u ''S'') None), source_event_time_text = None, source_date_text = None,
     source_sequence = Some 1, observed_at = Some 60, event_payload_sha256 = replicate 64 48, raw_payload = [],
     validation_status = PENDING, validation_errors = []\<rparr>"

definition tiny_events :: "raw_event list \<Rightarrow> raw_event_table" where
  "tiny_events es = \<lparr>raw_events = es, next_event_id = 2, event_months = [month_of_date (utc_date 60)]\<rparr>"

definition tiny_received :: ingestion_batch where
  "tiny_received = tiny_batch\<lparr>received_row_count := 1, batch_payload_sha256 := Some (replicate 64 48),
     batch_metadata := jsonb_concat (batch_metadata tiny_batch) (acquisition_metadata tiny_response ''rows'' 1 None)\<rparr>"

definition tiny_acquired :: "timeframe list \<Rightarrow> ingestion_db" where
  "tiny_acquired tfs = (tiny_started tfs)\<lparr>db_events := tiny_events [tiny_event],
     db_batches := \<lparr>batches = [tiny_received], next_batch_id = 2\<rparr>\<rparr>"

lemma tiny_digest: "row_payload_sha256 (\<lambda>_. replicate 64 48) [] = Inr (replicate 64 48)"
  by (simp add: row_payload_sha256_def utf8_encode_def)

lemma tiny_sha256: "is_sha256 (replicate 64 48)"
  by (simp add: is_sha256_def list_all_iff)

lemma tiny_casts: "cast_object [] = Inr []" "cast_array [] = Inr []"
  by (simp_all add: cast_object_def cast_array_def cast_jsonb_def canonical_json_text_def encodable_def)

lemma tiny_insert:
  "insert_row tiny_env tiny_feed tiny_batch (u ''S'') tiny_response tiny_row
     ((tiny_started tfs)\<lparr>db_events := \<lparr>raw_events = [], next_event_id = 1, event_months = [month_of_date (utc_date 60)]\<rparr>\<rparr>) =
   Inr ((tiny_started tfs)\<lparr>db_events := tiny_events [tiny_event]\<rparr>, tiny_event)"
proof -
  have "batch_exists (tiny_started tfs) 1" "feed_exists (tiny_started tfs) 7"
    by (simp_all add: batch_exists_def get_by_id_def feed_exists_def tiny_started_def tiny_db_def tiny_batch_def example_catalog_def)
  then show ?thesis
    using tiny_lookups(4)
    by (simp add: insert_row_def tiny_env_def tiny_digest tiny_row_def on_events_def insert_response_record_def row_event_def Let_def
        raw_string_def dict_get_def tiny_response_def require_aware_option_def require_aware_datetime_def require_sha256_def tiny_sha256
        tiny_casts tiny_batch_def tiny_event_def tiny_events_def in_bigint_def batch_exists_def feed_exists_def del: u_Cons)
qed

lemma tiny_record:
  "record_acquisition 1 (replicate 64 48) 1 None (Some (acquisition_metadata tiny_response ''rows'' 1 None)) \<lparr>batches = [tiny_batch], next_batch_id = 2\<rparr> =
     Inr (\<lparr>batches = [tiny_received], next_batch_id = 2\<rparr>, tiny_received)"
  by (simp add: record_acquisition_def execute_running_transition_def tiny_batch_def tiny_received_def set_payload_def char_n_def
      patch_metadata_def set_watermark_def batch_row_in_range_def batch_row_ok_def in_bigint_def del: u_Cons)

lemma tiny_acquire:
  "acquisition_body tiny_env tiny_feed tiny_batch (u ''S'') tiny_response tiny_parsed (tiny_started tfs) = Inr (tiny_acquired tfs, [tiny_event])"
proof -
  have "ensure_event_month 60 (tiny_started tfs) =
      Inr ((tiny_started tfs)\<lparr>db_events := \<lparr>raw_events = [], next_event_id = 1, event_months = [month_of_date (utc_date 60)]\<rparr>\<rparr>, ())"
    by (simp add: ensure_event_month_def on_events_def ensure_month_partition_def require_aware_datetime_def tiny_started_def tiny_db_def)
  then show ?thesis
    using tiny_insert tiny_record
    by (simp add: acquisition_body_def db_bind_def db_return_def tiny_parsed_def on_batches_def watermark_of_def tiny_row_def
        tiny_acquired_def tiny_started_def tiny_response_def tiny_batch_def del: u_Cons)
qed

text \<open>Diagnostics whose texts have no NUL can always be stored.\<close>

definition storable :: "pyval \<Rightarrow> bool" where
  "storable v \<longleftrightarrow> (\<exists>t. json_value v = Inr t \<and> encodable t) \<and> (\<exists>w. jsonb_stored v = Inr w)"

lemma encodable_u: "encodable (u s)"
proof -
  have "of_char c < (55296 :: nat)" for c :: char
    using less_trans [OF nat_of_char_less_256 [of c]] by simp
  then show ?thesis
    by (fastforce simp: encodable_def u_def dest: leD)
qed

lemma storable_audit:
  assumes "0 \<notin> set (u code)" and "0 \<notin> set (u field)" and "0 \<notin> set (u message)" and "0 \<notin> set (u severity)"
  shows "storable (audit_object code (Some field) message severity)"
proof -
  have keys: "0 \<notin> set (u ''code'')" "0 \<notin> set (u ''field'')" "0 \<notin> set (u ''message'')" "0 \<notin> set (u ''severity'')"
    by simp_all
  have "encodable [91]" "encodable [44]" "encodable [123]" "encodable [125]" "encodable [58]" by simp_all
  then show ?thesis
    using assms keys encodable_u
    by (auto simp: storable_def audit_object_def encodable_join list_all_iff simp del: u_Cons)
qed

lemma cast_storable:
  assumes "\<forall>v \<in> set vs. storable v"
  shows "\<exists>ws. cast_array vs = Inr ws"
proof -
  have "\<exists>ts. json_values vs = Inr ts \<and> list_all encodable ts"
    using assms by (induction vs) (auto simp: storable_def)
  moreover have "\<exists>ws. jsonb_items vs = Inr ws"
    using assms by (induction vs) (auto simp: storable_def)
  ultimately show ?thesis
    by (auto simp: cast_array_def cast_jsonb_def canonical_json_text_def encodable_join)
qed

lemma tiny_diagnostics: "\<exists>vs. cast_array (issue_payloads (row_errors tiny_row) []) = Inr vs"
proof (rule cast_storable)
  show "\<forall>v \<in> set (issue_payloads (row_errors tiny_row) []). storable v"
    by (simp add: issue_payloads_def tiny_row_def REQUIRED_ROW_FIELDS_def issue_def row_validation_code_value_def storable_audit)
qed

abbreviation daily_timeframe :: timeframe where
  "daily_timeframe \<equiv> \<lparr>timeframe_id = 3, timeframe_code = u ''1d'', timeframe_display_name = u ''Daily'', duration_seconds = None,
     calendar_unit = u ''SESSION'', session_aligned = True\<rparr>"

definition tiny_acquisition :: acquisition where
  "tiny_acquisition = \<lparr>acq_response = tiny_response, acq_parsed = tiny_parsed, acq_raw_events = [tiny_event], acq_watermark = None\<rparr>"

lemma tiny_persist:
  "persist_acquisition tiny_env tiny_feed tiny_batch (u ''S'') tiny_response tiny_parsed (tiny_started tfs) = (Inr tiny_acquisition, tiny_acquired tfs)"
  using tiny_acquire [of tfs]
  by (simp add: persist_acquisition_def and_then_def transaction_def in_unit_of_work_def tiny_acquisition_def watermark_of_def tiny_parsed_def tiny_row_def)
    (simp add: tiny_env_def)

lemma tiny_run:
  "run_started_batch tiny_env p f b (u ''S'') db = process_response tiny_env p f b (u ''S'') tiny_response tiny_parsed db"
  using tiny_parse by (simp add: run_started_batch_def tiny_env_def del: u_Cons)

lemma tiny_catalogs: "db_catalog (tiny_acquired tfs) = example_catalog\<lparr>timeframes := tfs\<rparr>"
  by (simp add: tiny_acquired_def tiny_started_def tiny_db_def)

lemma tiny_received_inv: "batch_inv \<lparr>batches = [tiny_received], next_batch_id = 2\<rparr>"
  by (auto simp: batch_inv_def batch_wf_def batch_row_ok_def batch_row_in_range_def in_bigint_def tiny_received_def tiny_batch_def simp del: u_Cons)

lemma tiny_finalize:
  assumes "\<And>ts. final_status (v ts) \<noteq> RUNNING" and "\<And>ts. final_received (v ts) = 1" and "\<And>ts. final_accepted (v ts) = 0"
    and "\<And>ts. final_rejected (v ts) = n" and "n = 0 \<or> n = 1"
    and "\<And>ts. final_payload (v ts) = Some (replicate 64 48)" and "\<And>ts. final_finished_at (v ts) = Some (Aware ts)"
    and "db_batches db = \<lparr>batches = [tiny_received], next_batch_id = 2\<rparr>"
  shows "\<exists>db' fin. finalize tiny_env st tiny_batch v db = Inr (db', fin)"
proof -
  have c: "read_clock tiny_env (AtFinish st) = Inr 100"
    by (simp add: read_clock_def tiny_env_def require_aware_datetime_def)
  have r: "ingestion_batch_id tiny_batch = ingestion_batch_id tiny_received" "batch_status tiny_received = RUNNING" "started_at tiny_received \<le> 100"
    by (simp_all add: tiny_batch_def tiny_received_def)
  have "\<exists>t fin. finalize_batch (svc_alnum tiny_env) (tx_now tiny_env st) (ingestion_batch_id tiny_received) (v 100) \<lparr>batches = [tiny_received], next_batch_id = 2\<rparr> = Inr (t, fin)"
    using assms(5) by (intro finalize_running_row [OF tiny_received_inv _ r(2,3)]) (auto simp: assms(1-4,6-8) in_bigint_def)
  then show ?thesis
    by (auto simp: finalize_Inr c r(1) assms(8))
qed

lemma tiny_ids:
  "normalize_brsapi_symbol (svc_text tiny_env) (u ''S'') = u ''S''" "effective_request_id tiny_env (Some (u ''r1'')) = u ''r1''" "u ''S'' \<noteq> []"
  using tiny_normalize by (simp_all add: tiny_env_def effective_request_id_def py_strip_def py_isspace_def)

lemma tiny_outage: "\<not> outage tiny_env st"
  by (simp add: tiny_env_def)

lemma tiny_fails:
  "\<exists>db'. ingest tiny_env (u ''S'') (Some (u ''r1'')) (tiny_db []) = (Inl DailyBarCanonicalizationError, db')"
proof -
  have "canonicalize_body tiny_env tiny_provider tiny_feed tiny_batch tiny_acquisition (tiny_acquired []) =
      Inl (EntityNotFoundError ''A required pre-provisioned catalog row does not exist.'')"
    using tiny_current_feed [of "tiny_acquired []" "[]"]
    by (simp add: canonicalize_body_def db_bind_def db_read_def tiny_catalogs get_timeframe_by_code_def one_or_none_def required_row_def
        Let_def del: u_Cons)
  then have c: "canonicalize tiny_env tiny_provider tiny_feed tiny_batch (u ''S'') tiny_acquisition (tiny_acquired []) =
      (Inl (EntityNotFoundError ''A required pre-provisioned catalog row does not exist.''), tiny_acquired [])"
    by (simp add: canonicalize_def tiny_acquisition_def tiny_parsed_def and_then_def transaction_def in_unit_of_work_def tiny_outage)
  have "\<exists>db' fin. mark_unexpected_canonicalization_failure tiny_env tiny_batch tiny_acquisition e (tiny_acquired []) = (Inr fin, db')" for e
    using tiny_finalize [of "\<lambda>finished. \<lparr>final_status = FAILED, final_received = int (length (parse_rows (acq_parsed tiny_acquisition))),
        final_accepted = 0, final_rejected = 0, final_payload = Some (response_sha256 (acq_parsed tiny_acquisition)),
        final_watermark = acq_watermark tiny_acquisition,
        final_error = Some (failure_summary tiny_env ''CANONICALIZATION_FAILED'' (str_error tiny_env e)),
        final_metadata = Some (no_rows_metadata (length (acq_raw_events tiny_acquisition)) @ [(u ''failure_code'', JStr (u ''CANONICALIZATION_FAILED''))]),
        final_finished_at = Some (Aware finished)\<rparr>" 0 "tiny_acquired []" CanonicalizationFailureTx]
    unfolding mark_unexpected_canonicalization_failure_def transaction_Inr
    by (auto simp: tiny_acquisition_def tiny_parsed_def tiny_acquired_def tiny_outage simp del: u_Cons)
  then obtain db' fin where "mark_unexpected_canonicalization_failure tiny_env tiny_batch tiny_acquisition
      (EntityNotFoundError ''A required pre-provisioned catalog row does not exist.'') (tiny_acquired []) = (Inr fin, db')"
    by blast
  then show ?thesis
    using tiny_start [of "[]"] tiny_persist [of "[]"] c
    by (auto simp: ingest_def Let_def tiny_ids and_then_def tiny_run process_response_def unexpected_def tiny_parsed_def simp del: u_Cons)
qed

lemma tiny_reject:
  "\<exists>es. set_outcome tiny_event REJECTED (issue_payloads (row_errors tiny_row) []) (tiny_acquired tfs) =
     Inr ((tiny_acquired tfs)\<lparr>db_events := tiny_events [tiny_event\<lparr>validation_status := REJECTED, validation_errors := es\<rparr>]\<rparr>,
       tiny_event\<lparr>validation_status := REJECTED, validation_errors := es\<rparr>)"
proof -
  obtain es where "cast_array (issue_payloads (row_errors tiny_row) []) = Inr es"
    using tiny_diagnostics by (elim exE)
  then show ?thesis
    by (intro exI [of _ es]) (simp add: set_outcome_def on_events_def update_validation_result_def tiny_acquired_def tiny_events_def)
qed

lemma tiny_succeeds:
  "\<exists>res db'. ingest tiny_env (u ''S'') (Some (u ''r1'')) (tiny_db [daily_timeframe]) = (Inr res, db')"
proof -
  let ?tfs = "[daily_timeframe]" and ?now = "response_received_at tiny_response"
  obtain es where out: "set_outcome tiny_event REJECTED (issue_payloads (row_errors tiny_row) []) (tiny_acquired ?tfs) =
     Inr ((tiny_acquired ?tfs)\<lparr>db_events := tiny_events [tiny_event\<lparr>validation_status := REJECTED, validation_errors := es\<rparr>]\<rparr>,
       tiny_event\<lparr>validation_status := REJECTED, validation_errors := es\<rparr>)"
    using tiny_reject [of ?tfs] by (elim exE)
  define d where "d = (tiny_acquired ?tfs)\<lparr>db_events := tiny_events [tiny_event\<lparr>validation_status := REJECTED, validation_errors := es\<rparr>]\<rparr>"
  have tf: "get_timeframe_by_code (u ''1d'') (db_catalog (tiny_acquired ?tfs)) = Inr daily_timeframe"
    by (simp add: tiny_catalogs get_timeframe_by_code_def one_or_none_def required_row_def del: u_Cons)
  have rows: "resolve_rows tiny_env tiny_provider ?now (zip (parse_rows tiny_parsed) [tiny_event]) (0, 0, []) (tiny_acquired ?tfs) = Inr (d, 0, 1, [])"
  proof -
    have "candidate tiny_row = None" "row_warnings tiny_row = []" by (simp_all add: tiny_row_def)
    then show ?thesis
      using out by (simp add: tiny_parsed_def resolve_row_def reject_row_def db_bind_def db_return_def d_def del: u_Cons)
  qed
  define d' where "d' = d\<lparr>db_bars := ensure_month_partitions [] (db_bars d)\<rparr>"
  have "\<exists>db' fin. canonicalize_body tiny_env tiny_provider tiny_feed tiny_batch tiny_acquisition (tiny_acquired ?tfs) = Inr (db', fin)"
    using tiny_finalize [of "\<lambda>finished. \<lparr>final_status = QUARANTINED, final_received = 1, final_accepted = 0,
               final_rejected = 1, final_payload = Some (replicate 64 48), final_watermark = None,
               final_error = Some (u ''One or more rows were rejected.''),
               final_metadata = Some (completion_metadata 1 0 1 0 0 0), final_finished_at = Some (Aware finished)\<rparr>" 1 d' CanonicalizeTx]
      rows tf tiny_current_feed [of "tiny_acquired ?tfs" ?tfs]
    by (auto simp: canonicalize_body_def Let_def db_bind_def db_read_def db_lift_def db_return_def tiny_catalogs tiny_acquisition_def on_bars_def
        terminal_status_def d'_def [symmetric] tiny_parsed_def simp del: u_Cons)
      (auto simp: d'_def d_def tiny_acquired_def)
  then obtain db' fin where "canonicalize tiny_env tiny_provider tiny_feed tiny_batch (u ''S'') tiny_acquisition (tiny_acquired ?tfs) =
      (Inr (result_from_batch fin (provider_code tiny_provider) (feed_code tiny_feed) (u ''S'') False), db')"
    by (auto simp: canonicalize_def tiny_acquisition_def tiny_parsed_def and_then_def transaction_def in_unit_of_work_def tiny_outage simp del: u_Cons)
  then show ?thesis
    using tiny_start [of ?tfs] tiny_persist [of ?tfs]
    by (auto simp: ingest_def Let_def tiny_ids and_then_def tiny_run process_response_def unexpected_def tiny_parsed_def simp del: u_Cons)
qed

subsection \<open>The properties at the concrete ingestion\<close>

lemma tiny_db_inv:
  "batch_inv (db_batches (tiny_db tfs))" "event_inv (db_events (tiny_db tfs))" "bar_inv (db_bars (tiny_db tfs))" "payload_inv (db_batches (tiny_db tfs))"
  using batch_inv_empty bar_inv_empty
  by (simp_all add: tiny_db_def event_inv_def payload_inv_def empty_batches_def)

theorem ingest_keeps_the_stores_witness:
  "db_steps (tiny_db []) (snd (ingest tiny_env (u ''S'') (Some (u ''r1'')) (tiny_db []))) \<and>
   event_inv (db_events (snd (ingest tiny_env (u ''S'') (Some (u ''r1'')) (tiny_db []))))"
  using ingest_keeps_the_stores [OF tiny_db_inv(1-3) refl] by blast

theorem ingest_accounts_for_every_row_witness:
  "\<exists>res db'. ingest tiny_env (u ''S'') (Some (u ''r1'')) (tiny_db [daily_timeframe]) = (Inr res, db') \<and>
     (\<exists>fin \<in> set (batches (db_batches db')). request_id fin = Some (u ''r1'')) \<and> res_status res \<noteq> RUNNING"
proof -
  obtain res db' where r: "ingest tiny_env (u ''S'') (Some (u ''r1'')) (tiny_db [daily_timeframe]) = (Inr res, db')"
    using tiny_succeeds by (elim exE)
  show ?thesis
    using ingest_accounts_for_every_row [OF tiny_db_inv(1) r] r tiny_ids(2) by (intro exI [of _ res] exI [of _ db']) auto
qed

theorem repeated_request_is_replayed_witness:
  "\<exists>res db'. ingest tiny_env (u ''S'') (Some (u ''r1'')) (tiny_db [daily_timeframe]) = (Inr res, db') \<and>
     ingest (tiny_env\<lparr>fetch := (\<lambda>_. Inl (BrsApiTimeoutError ''late''))\<rparr>) (u ''S'') (Some (u '' r1'')) db' = (Inr (res\<lparr>res_idempotent_replay := True\<rparr>), db')"
proof -
  let ?env = "tiny_env\<lparr>fetch := (\<lambda>_. Inl (BrsApiTimeoutError ''late''))\<rparr>"
  obtain res db' where r: "ingest tiny_env (u ''S'') (Some (u ''r1'')) (tiny_db [daily_timeframe]) = (Inr res, db')"
    using tiny_succeeds by (elim exE)
  have "effective_request_id ?env (Some (u '' r1'')) = effective_request_id tiny_env (Some (u ''r1''))"
    by (simp add: effective_request_id_def py_strip_def py_isspace_def)
  then have "ingest ?env (u ''S'') (Some (u '' r1'')) db' = (Inr (res\<lparr>res_idempotent_replay := True\<rparr>), db')"
    by (intro repeated_request_is_replayed [OF tiny_db_inv(1) r, where started = 100]) (simp_all add: tiny_env_def)
  then show ?thesis using r by blast
qed

theorem failed_canonicalization_keeps_evidence_witness:
  "\<exists>db'. ingest tiny_env (u ''S'') (Some (u ''r1'')) (tiny_db []) = (Inl DailyBarCanonicalizationError, db') \<and> db_bars db' = empty_bars \<and>
     length (raw_events (db_events db')) = 1"
proof -
  obtain db' where r: "ingest tiny_env (u ''S'') (Some (u ''r1'')) (tiny_db []) = (Inl DailyBarCanonicalizationError, db')"
    using tiny_fails by (elim exE)
  have f: "fetch tiny_env n = Inr tiny_response" "svc_text tiny_env = example_env" "svc_sha256 tiny_env = (\<lambda>_. replicate 64 48)" for n
    by (simp_all add: tiny_env_def)
  obtain response parsed es fin where "fetch tiny_env (normalize_brsapi_symbol (svc_text tiny_env) (u ''S'')) = Inr response"
    "parse_unadjusted_daily_candles (svc_text tiny_env) (svc_sha256 tiny_env) response (normalize_brsapi_symbol (svc_text tiny_env) (u ''S'')) = Inr parsed"
    and b: "db_bars db' = db_bars (tiny_db [])" and e: "raw_events (db_events db') = raw_events (db_events (tiny_db [])) @ es"
    and p: "list_all2 (preserved_as tiny_env fin) (parse_rows parsed) es"
    using failed_canonicalization_keeps_evidence [OF tiny_db_inv(1) r] by (elim exE conjE)
  then have "parsed = tiny_parsed"
    using tiny_parse by (simp add: f tiny_normalize del: u_Cons)
  then have "length es = 1"
    using list_all2_lengthD [OF p] by (simp add: tiny_parsed_def)
  then show ?thesis
    using r b e by (intro exI [of _ db']) (simp add: tiny_db_def)
qed

theorem started_batch_ends_witness:
  "\<exists>fin \<in> set (batches (db_batches (snd (ingest tiny_env (u ''S'') (Some (u ''r1'')) (tiny_db []))))).
     ingestion_batch_id fin = 1 \<and> batch_status fin \<noteq> RUNNING"
proof -
  let ?n = "normalize_brsapi_symbol (svc_text tiny_env) (u ''S'')"
  have st: "start_batch tiny_env ?n (effective_request_id tiny_env (Some (u ''r1''))) (tiny_db []) =
      (Inr (tiny_provider, tiny_feed, tiny_batch, False), tiny_started [])"
    unfolding tiny_ids by (rule tiny_start)
  have n: "?n \<noteq> []" unfolding tiny_ids by simp
  have c: "clock tiny_env (AtFinish StartedFailureTx) = Aware 100" and t: "started_at tiny_batch \<le> 100" and i: "ingestion_batch_id tiny_batch = 1"
    by (simp_all add: tiny_env_def tiny_batch_def)
  show ?thesis
    using started_batch_ends [OF tiny_db_inv(1,4) st n tiny_outage c t] unfolding i .
qed

end
