(* ===== verification/Snapshot_Builder.thy ===== *)
theory Snapshot_Builder
  imports Snapshot_Rows
begin

text \<open>
  Building and verifying snapshots (\<^verbatim>\<open>src/bisfin/snapshots/builder.py\<close> and \<^verbatim>\<open>snapshots/verifier.py\<close>). Building
  reserves the code in one transaction, writes the components and the manifest to a staging directory while
  reading under one repeatable-read transaction, publishes the directory, and freezes the row in a third
  transaction; whatever fails in between marks the row as failed. Verification recomputes the hashes, and on
  request re-enumerates the database.
\<close>

subsection \<open>Environment\<close>

datatype snapshot_stage = CreateTx | ReadTx | FreezeTx | FailTx | VerifyTx | DriftTx

text \<open>
  Pydantic's JSON form of a timestamp (\<open>pd_json_datetime\<close>) and its validation of stored components and
  specifications; \<open>exception_name\<close> is \<^verbatim>\<open>type(error).__name__\<close>; \<open>snapshot_outage\<close> says which transactions fail;
  \<open>py_repr\<close> is \<^verbatim>\<open>str()\<close> of a value that is no string.
\<close>

record builder_env =
  b_io :: io_env
  b_created_at :: timestamp
  b_clock :: timestamp
  snapshot_outage :: "snapshot_stage \<Rightarrow> bool"
  pd_json_datetime :: "timestamp \<Rightarrow> pystr"
  pd_component :: "json \<Rightarrow> snapshot_component_result option"
  pd_spec :: "json \<Rightarrow> snapshot_component_spec option"
  exception_name :: "app_error \<Rightarrow> pystr"
  adjustment_cutoffs :: "int \<Rightarrow> timestamp option"
  known_feed :: "int \<Rightarrow> bool"
  text_order :: "pystr \<Rightarrow> pystr"
  b_cwd :: path
  py_repr :: "pyval \<Rightarrow> pystr"

record snapshot_world =
  w_snapshots :: snapshot_tables
  w_bars :: bar_tables
  w_files :: files

definition snapshot_tx ::
  "builder_env \<Rightarrow> snapshot_stage \<Rightarrow> string \<Rightarrow> bool \<Rightarrow> ('d \<Rightarrow> (app_error, 'd \<times> 'a) result) \<Rightarrow> 'd \<Rightarrow> (app_error, 'a) result \<times> 'd" where
  "snapshot_tx env stage isolation read_only body db =
     (if snapshot_outage env stage then (Inl (DatabaseUnavailableError ''The database is unavailable.''), db)
      else begin_transaction (u isolation) False read_only body db)"

subsection \<open>Documents\<close>

definition opt_datetime :: "builder_env \<Rightarrow> timestamp option \<Rightarrow> json" where
  "opt_datetime env t = (case t of None \<Rightarrow> JNull | Some x \<Rightarrow> JStr (pd_json_datetime env x))"

definition spec_dump :: "builder_env \<Rightarrow> snapshot_component_spec \<Rightarrow> json" where
  "spec_dump env c = JObj
     [(u ''component_key'', JStr (cs_component_key c)), (u ''kind'', JStr (kind_value (cs_kind c))),
      (u ''bar_series_id'', JInt (cs_bar_series_id c)), (u ''event_from'', JStr (pd_json_datetime env (cs_event_from c))),
      (u ''event_to'', JStr (pd_json_datetime env (cs_event_to c))), (u ''allow_empty'', JBool (cs_allow_empty c))]"

definition component_dump :: "builder_env \<Rightarrow> snapshot_component_result \<Rightarrow> json_object" where
  "component_dump env c =
     [(u ''component_key'', JStr (cr_component_key c)), (u ''kind'', JStr (kind_value (cr_kind c))),
      (u ''bar_series_id'', JInt (cr_bar_series_id c)), (u ''feed_id'', JInt (cr_feed_id c)),
      (u ''event_from'', JStr (pd_json_datetime env (cr_event_from c))), (u ''event_to'', JStr (pd_json_datetime env (cr_event_to c))),
      (u ''row_count'', JInt (cr_row_count c)), (u ''component_sha256'', JStr (cr_component_sha256 c)),
      (u ''storage_uri'', JStr (cr_storage_uri c)), (u ''relative_storage_path'', JStr (cr_relative_storage_path c)),
      (u ''max_available_at'', opt_datetime env (cr_max_available_at c)),
      (u ''max_system_available_at'', opt_datetime env (cr_max_system_available_at c))]"

fun py_of_json :: "json \<Rightarrow> pyval" where
  "py_of_json JNull = PyNone"
| "py_of_json (JBool b) = PyBool b"
| "py_of_json (JInt i) = PyInt i"
| "py_of_json (JStr s) = PyStr s"
| "py_of_json (JList js) = PyList (map py_of_json js)"
| "py_of_json (JObj fs) = PyDict (map (\<lambda>(k, v). (k, py_of_json v)) fs)"

definition without_uri :: "json_object \<Rightarrow> json_object" where
  "without_uri fs = filter (\<lambda>(k, v). k \<noteq> u ''storage_uri'') fs"

definition manifest_payload :: "builder_env \<Rightarrow> snapshot_manifest_document \<Rightarrow> snapshot_component_result list \<Rightarrow> pyval" where
  "manifest_payload env doc cs =
     (let r = doc_request doc in PyDict
       [(u ''artifact_schema_version'', PyInt 1), (u ''snapshot_code'', PyStr (rq_snapshot_code r)),
        (u ''knowledge_cutoff_ts'', PyDateTime (rq_knowledge_cutoff_ts r)),
        (u ''availability_mode'', PyStr (mode_value (rq_availability_mode r))),
        (u ''specification_sha256'', PyStr (specification_sha256 doc)),
        (u ''components'', PyList (map (\<lambda>c. py_of_json (JObj (without_uri (component_dump env c)))) cs))])"

definition BUILDER_VERSION :: pystr where
  "BUILDER_VERSION = u ''pr-07''"

definition building_metadata :: "builder_env \<Rightarrow> snapshot_manifest_document \<Rightarrow> json_object" where
  "building_metadata env doc =
     [(u ''source_manifest_sha256'', JStr (source_manifest_sha256 doc)), (u ''specification_sha256'', JStr (specification_sha256 doc)),
      (u ''builder_version'', JStr BUILDER_VERSION), (u ''requested_component_count'', JInt (int (length (rq_components (doc_request doc))))),
      (u ''component_specs'', JList (map (spec_dump env) (rq_components (doc_request doc))))]"

definition build_result ::
  "snapshot_record \<Rightarrow> snapshot_component_result list \<Rightarrow> bool \<Rightarrow> (app_error, snapshot_build_result) result" where
  "build_result s cs replay =
     (case (dict_get (sr_metadata s) (u ''source_manifest_sha256''), dict_get (sr_metadata s) (u ''specification_sha256'')) of
        (Some (JStr source), Some (JStr specification)) \<Rightarrow>
          if \<not> is_sha256 source \<or> \<not> is_sha256 specification \<or> (case sr_manifest_sha256 s of None \<Rightarrow> False | Some m \<Rightarrow> \<not> is_sha256 m)
          then Inl (AppValueError ''ValidationError'')
          else Inr \<lparr>br_data_snapshot_id = sr_data_snapshot_id s, br_snapshot_code = sr_snapshot_code s, br_status = sr_status s,
                 br_knowledge_cutoff_ts = sr_knowledge_cutoff_ts s, br_availability_mode = sr_availability_mode s,
                 br_source_manifest_sha256 = source, br_specification_sha256 = specification,
                 br_manifest_sha256 = sr_manifest_sha256 s, br_components = cs, br_created_at = sr_created_at s,
                 br_frozen_at = sr_frozen_at s, br_idempotent_replay = replay\<rparr>
      | _ \<Rightarrow> Inl (SnapshotBuildError ''Snapshot metadata is missing reproducibility hashes.''))"

definition stored_components :: "builder_env \<Rightarrow> snapshot_record \<Rightarrow> (app_error, snapshot_component_result list) result" where
  "stored_components env s =
     (case dict_get (sr_metadata s) (u ''components'') of
        Some (JList items) \<Rightarrow>
          map_result (\<lambda>i. case pd_component env i of None \<Rightarrow> Inl (AppValueError ''ValidationError'') | Some c \<Rightarrow> Inr c)
            (filter (\<lambda>i. case i of JObj _ \<Rightarrow> True | _ \<Rightarrow> False) items)
      | _ \<Rightarrow> Inr [])"

definition resolve_existing ::
  "builder_env \<Rightarrow> snapshot_record \<Rightarrow> snapshot_manifest_document \<Rightarrow> (app_error, snapshot_build_result) result" where
  "resolve_existing env s doc =
     (if sr_status s = FROZEN then
        (if dict_get (sr_metadata s) (u ''specification_sha256'') \<noteq> Some (JStr (specification_sha256 doc))
         then Inl (SnapshotConflictError ''Snapshot code is already frozen for another specification.'')
         else rbind (stored_components env s) (\<lambda>cs. build_result s cs True))
      else if sr_status s = BUILDING then Inl (SnapshotInProgressError ''Snapshot code is already BUILDING.'')
      else Inl (SnapshotConflictError ''Snapshot code is already FAILED or DEPRECATED.''))"

subsection \<open>Components\<close>

definition max_time :: "timestamp list \<Rightarrow> timestamp option" where
  "max_time ts = max_by id ts"

definition eligible_rows :: "snapshot_build_request \<Rightarrow> snapshot_component_spec \<Rightarrow> bar_tables \<Rightarrow> bar_revision list" where
  "eligible_rows rq c bars =
     eligible_revisions (cs_bar_series_id c) (cs_event_from c) (cs_event_to c) (rq_knowledge_cutoff_ts rq) (rq_availability_mode rq) bars"

definition component_result ::
  "artifact_writer \<Rightarrow> snapshot_component_spec \<Rightarrow> int \<Rightarrow> bar_revision list \<Rightarrow> written_artifact \<Rightarrow> snapshot_component_result" where
  "component_result w c feed rows a =
     \<lparr>cr_component_key = cs_component_key c, cr_kind = cs_kind c, cr_bar_series_id = cs_bar_series_id c, cr_feed_id = feed,
      cr_event_from = cs_event_from c, cr_event_to = cs_event_to c, cr_row_count = int (length rows),
      cr_component_sha256 = wa_sha256 a, cr_storage_uri = as_uri (final_directory w @ relative_path a),
      cr_relative_storage_path = join [47] (relative_path a),
      cr_max_available_at = max_time (map r_available_at rows), cr_max_system_available_at = max_time (map r_system_available_at rows)\<rparr>"

definition build_component ::
  "builder_env \<Rightarrow> snapshot_build_request \<Rightarrow> bar_tables \<Rightarrow> nat \<Rightarrow> snapshot_component_spec \<Rightarrow> snapshot_component_result io" where
  "build_component env rq bars ordinal c = (\<lambda>st.
     case resolve_series (adjustment_cutoffs env) (cs_bar_series_id c) (rq_knowledge_cutoff_ts rq) bars of
       Inl e \<Rightarrow> (Inl e, st)
     | Inr feed \<Rightarrow>
         let rows = eligible_rows rq c bars in
         if rows = [] \<and> \<not> cs_allow_empty c
         then (Inl (SnapshotBuildError ''Component has no eligible final revisions.''), st)
         else
           (case component_bytes (rq_availability_mode rq) rows of
              Inl _ \<Rightarrow> (Inl (AppValueError ''unsupported value''), st)
            | Inr payload \<Rightarrow>
                io_bind (write_component (b_io env) ordinal (cs_component_key c) payload) (\<lambda>a (w, fs).
                  if is_sha256 (wa_sha256 a) then (Inr (component_result w c feed rows a), w, fs)
                  else (Inl (AppValueError ''ValidationError''), w, fs)) st))"

fun build_components ::
  "builder_env \<Rightarrow> snapshot_build_request \<Rightarrow> bar_tables \<Rightarrow> nat \<Rightarrow> snapshot_component_spec list \<Rightarrow> snapshot_component_result list io" where
  "build_components env rq bars ordinal [] = io_return []"
| "build_components env rq bars ordinal (c # cs) =
     io_bind (build_component env rq bars ordinal c) (\<lambda>r.
     io_bind (build_components env rq bars (Suc ordinal) cs) (\<lambda>rs. io_return (r # rs)))"

text \<open>The body of the \<^verbatim>\<open>try\<close> up to the publication of the directory.\<close>

definition build_artifacts ::
  "builder_env \<Rightarrow> snapshot_manifest_document \<Rightarrow> bar_tables \<Rightarrow> (snapshot_component_result list \<times> written_artifact \<times> path) io" where
  "build_artifacts env doc bars = (\<lambda>st.
     if snapshot_outage env ReadTx then (Inl (DatabaseUnavailableError ''The database is unavailable.''), st)
     else
       io_bind (build_components env (doc_request doc) bars 1 (sort_key cs_component_key (rq_components (doc_request doc)))) (\<lambda>cs.
       io_bind (write_manifest (b_io env) (manifest_payload env doc cs)) (\<lambda>m.
       io_bind (publish (b_io env)) (\<lambda>d.
         io_return (map (\<lambda>c. c\<lparr>cr_storage_uri := as_uri (d @ split_on 47 (cr_relative_storage_path c))\<rparr>) cs, m, d)))) st)"

subsection \<open>Building\<close>

definition create_body ::
  "builder_env \<Rightarrow> snapshot_manifest_document \<Rightarrow> snapshot_tables \<Rightarrow>
     (app_error, snapshot_tables \<times> (snapshot_build_result + snapshot_record)) result" where
  "create_body env doc t =
     (let rq = doc_request doc in
      case get_snapshot_by_code (rq_snapshot_code rq) t of
        Some s \<Rightarrow> rbind (resolve_existing env s doc) (\<lambda>r. Inr (t, Inl r))
      | None \<Rightarrow>
          rbind (create_building (b_created_at env) (rq_snapshot_code rq) (rq_knowledge_cutoff_ts rq) (rq_availability_mode rq)
                   (building_metadata env doc) t) (\<lambda>(t', s). Inr (t', Inr s)))"

definition completed_metadata :: "builder_env \<Rightarrow> snapshot_manifest_document \<Rightarrow> snapshot_component_result list \<Rightarrow> json_object" where
  "completed_metadata env doc cs =
     building_metadata env doc @ [(u ''components'', JList (map (\<lambda>c. JObj (component_dump env c)) cs))]"

definition freeze_body ::
  "builder_env \<Rightarrow> snapshot_manifest_document \<Rightarrow> int \<Rightarrow> snapshot_component_result list \<Rightarrow> written_artifact \<Rightarrow> snapshot_tables \<Rightarrow>
     (app_error, snapshot_tables \<times> snapshot_record) result" where
  "freeze_body env doc i cs m t =
     rbind (insert_components (known_feed env) i cs t) (\<lambda>t'.
       freeze i (wa_sha256 m) (b_clock env) (completed_metadata env doc cs) t')"

definition mark_build_failed :: "builder_env \<Rightarrow> snapshot_manifest_document \<Rightarrow> int \<Rightarrow> app_error \<Rightarrow> snapshot_tables \<Rightarrow> snapshot_tables" where
  "mark_build_failed env doc i e t =
     snd (snapshot_tx env FailTx ''READ COMMITTED'' False (\<lambda>t.
       rbind (mark_snapshot_failed i
         (building_metadata env doc @ [(u ''failure'', JObj [(u ''code'', JStr (exception_name env e))])]) t) (\<lambda>t'. Inr (t', ()))) t)"

definition raised :: "app_error \<Rightarrow> app_error" where
  "raised e = (case e of SnapshotBuildError m \<Rightarrow> e | SnapshotArtifactError m \<Rightarrow> e | _ \<Rightarrow> SnapshotBuildError ''Snapshot build failed.'')"

text \<open>The \<^verbatim>\<open>except BaseException\<close> of \<^verbatim>\<open>build\<close>; an error while removing the staging directory escapes.\<close>

definition fail_build ::
  "builder_env \<Rightarrow> snapshot_manifest_document \<Rightarrow> int \<Rightarrow> app_error \<Rightarrow> bool \<Rightarrow> artifact_writer \<Rightarrow> snapshot_world \<Rightarrow>
     (app_error, snapshot_build_result) result \<times> snapshot_world" where
  "fail_build env doc i e published w world =
     (case (if published then (Inr (), w, w_files world) else cleanup_incomplete (b_io env) (w, w_files world)) of
        (Inl os, _, fs) \<Rightarrow> (Inl os, world\<lparr>w_files := fs\<rparr>)
      | (Inr _, _, fs) \<Rightarrow>
          (Inl (raised e), world\<lparr>w_files := fs, w_snapshots := mark_build_failed env doc i e (w_snapshots world)\<rparr>))"

definition build_created ::
  "builder_env \<Rightarrow> snapshot_manifest_document \<Rightarrow> artifact_writer \<Rightarrow> int \<Rightarrow> snapshot_world \<Rightarrow>
     (app_error, snapshot_build_result) result \<times> snapshot_world" where
  "build_created env doc writer i world =
     (case build_artifacts env doc (w_bars world) (writer, w_files world) of
        (Inl e, w, fs) \<Rightarrow> fail_build env doc i e False w (world\<lparr>w_files := fs\<rparr>)
      | (Inr (cs, m, d), w, fs) \<Rightarrow>
          (case snapshot_tx env FreezeTx ''READ COMMITTED'' False (freeze_body env doc i cs m) (w_snapshots world) of
             (Inl e, t) \<Rightarrow> fail_build env doc i e True w (world\<lparr>w_files := fs, w_snapshots := t\<rparr>)
           | (Inr frozen, t) \<Rightarrow>
               (case build_result frozen cs False of
                  Inl e \<Rightarrow> fail_build env doc i e True w (world\<lparr>w_files := fs, w_snapshots := t\<rparr>)
                | Inr r \<Rightarrow> (Inr r, world\<lparr>w_files := fs, w_snapshots := t\<rparr>))))"

definition build ::
  "builder_env \<Rightarrow> snapshot_manifest_document \<Rightarrow> path \<Rightarrow> snapshot_world \<Rightarrow> (app_error, snapshot_build_result) result \<times> snapshot_world" where
  "build env doc output_dir world =
     (case snapshot_tx env CreateTx ''READ COMMITTED'' False (create_body env doc) (w_snapshots world) of
        (Inl e, t) \<Rightarrow> (Inl e, world\<lparr>w_snapshots := t\<rparr>)
      | (Inr (Inl r), t) \<Rightarrow> (Inr r, world\<lparr>w_snapshots := t\<rparr>)
      | (Inr (Inr s), t) \<Rightarrow>
          (case new_writer output_dir (rq_snapshot_code (doc_request doc)) of
             Inl e \<Rightarrow> (Inl e, world\<lparr>w_snapshots := t\<rparr>)
           | Inr writer \<Rightarrow> build_created env doc writer (sr_data_snapshot_id s) (world\<lparr>w_snapshots := t\<rparr>)))"

end
