(* ===== verification/Snapshot_Verifier.thy ===== *)
theory Snapshot_Verifier
  imports Snapshot_Builder
begin

text \<open>
  Verification of a frozen snapshot (\<^verbatim>\<open>src/bisfin/snapshots/verifier.py\<close>): first the files, whose hashes, line
  counts and manifest are compared with the database record, then on request the live bar revisions, which are
  enumerated again and hashed.
\<close>

datatype issue_code =
    MISSING_MANIFEST_HASH | MISSING_STORAGE_URI | MISSING_COMPONENT | COMPONENT_HASH_MISMATCH | COMPONENT_ROW_COUNT_MISMATCH
  | MISSING_MANIFEST | MANIFEST_HASH_MISMATCH | INVALID_MANIFEST | MANIFEST_METADATA_MISMATCH | MANIFEST_COMPONENT_MISMATCH
  | MISSING_SPECIFICATION | MISSING_COMPONENT_SPEC | DATABASE_DRIFT

record verification_issue =
  vi_code :: issue_code
  vi_component_key :: "pystr option"
  vi_message :: string

record verification_result =
  vr_snapshot_code :: pystr
  vr_verified :: bool
  vr_artifact_verified :: bool
  vr_database_verified :: "bool option"
  vr_database_drift :: bool
  vr_issues :: "verification_issue list"

definition found_issue :: "issue_code \<Rightarrow> string \<Rightarrow> verification_issue" where
  "found_issue code m = \<lparr>vi_code = code, vi_component_key = None, vi_message = m\<rparr>"

definition component_issue :: "issue_code \<Rightarrow> component_row \<Rightarrow> string \<Rightarrow> verification_issue" where
  "component_issue code c m = \<lparr>vi_code = code, vi_component_key = Some (sc_component_key c), vi_message = m\<rparr>"

subsection \<open>Files\<close>

text \<open>
  One component: its issues, and where the manifest should be. \<^verbatim>\<open>path.parent.parent\<close> stops at the working directory
  when the path is relative; \<open>file_uri_path []\<close> is the part of the path that the URI names.
\<close>

definition manifest_beside :: "pystr \<Rightarrow> path \<Rightarrow> path" where
  "manifest_beside uri p =
     (case file_uri_path [] uri of
        None \<Rightarrow> manifest_name
      | Some named \<Rightarrow> take (length p - length named) p @ butlast (butlast named) @ manifest_name)"

definition check_component ::
  "builder_env \<Rightarrow> files \<Rightarrow> component_row \<Rightarrow> verification_issue list \<times> path option" where
  "check_component env fs c =
     (case sc_storage_uri c of
        None \<Rightarrow> ([found_issue MISSING_STORAGE_URI ''Missing component URI.''], None)
      | Some uri \<Rightarrow>
          (case file_uri_path (b_cwd env) uri of
             None \<Rightarrow> ([found_issue MISSING_COMPONENT ''Component file is missing.''], None)
           | Some p \<Rightarrow>
               (case fs p of
                  Some (File payload) \<Rightarrow>
                    ((if io_sha256 (b_io env) payload \<noteq> sc_component_sha256 c
                      then [component_issue COMPONENT_HASH_MISMATCH c ''Component hash mismatch.''] else []) @
                     (if Some (int (length (splitlines bytes_break payload))) \<noteq> sc_row_count c
                      then [component_issue COMPONENT_ROW_COUNT_MISMATCH c ''Component row count mismatch.''] else []),
                     Some (manifest_beside uri p))
                | _ \<Rightarrow> ([found_issue MISSING_COMPONENT ''Component file is missing.''], None))))"

fun check_components ::
  "builder_env \<Rightarrow> files \<Rightarrow> component_row list \<Rightarrow> path option \<Rightarrow> verification_issue list \<times> path option" where
  "check_components env fs [] mp = ([], mp)"
| "check_components env fs (c # cs) mp =
     (case check_component env fs c of (issues, mp') \<Rightarrow>
        (case check_components env fs cs (if mp' = None then mp else mp') of (rest, final) \<Rightarrow> (issues @ rest, final)))"

subsection \<open>The manifest\<close>

text \<open>Python's \<^verbatim>\<open>==\<close> between a decoded value and a stored one: numbers by value, dictionaries without order.\<close>

function py_eq :: "pyval \<Rightarrow> json \<Rightarrow> bool" where
  "py_eq v j =
     (case (v, j) of
        (PyNone, JNull) \<Rightarrow> True
      | (PyBool a, JBool b) \<Rightarrow> a = b
      | (PyBool a, JInt i) \<Rightarrow> of_bool a = i
      | (PyInt i, JBool b) \<Rightarrow> i = of_bool b
      | (PyInt i, JInt k) \<Rightarrow> i = k
      | (PyDec d, JInt i) \<Rightarrow> dec_eq d (dec_of_int i)
      | (PyDec d, JBool b) \<Rightarrow> dec_eq d (dec_of_int (of_bool b))
      | (PyStr s, JStr r) \<Rightarrow> s = r
      | (PyList vs, JList js) \<Rightarrow> length vs = length js \<and> (\<forall>p \<in> set (zip vs js). py_eq (fst p) (snd p))
      | (PyDict a, JObj b) \<Rightarrow>
          length a = length b \<and>
          (\<forall>p \<in> set a. case map_of b (fst p) of None \<Rightarrow> False | Some w \<Rightarrow> py_eq (snd p) w)
      | _ \<Rightarrow> False)"
  by pat_completeness auto
termination
proof (relation "measure (\<lambda>(v, j). size v)", goal_cases)
  case (2 v j x y vs js p)
  then have "fst p \<in> set vs" by (cases p) (auto dest: set_zip_leftD)
  then show ?case using 2 size_list_estimation' [of "fst p" vs "size (fst p)" size] by (cases p) auto
next
  case (3 v j x y a b p w)
  then have "size (snd p) \<le> size_list (size_prod (\<lambda>_. 0) size) a"
    by (intro size_list_estimation' [of p]) (auto simp: size_prod_simp)
  then show ?case using 3 by auto
qed auto

declare py_eq.simps [simp del]

definition manifest_field :: "(pystr \<times> pyval) list \<Rightarrow> string \<Rightarrow> pyval" where
  "manifest_field m k = (case dict_get m (u k) of None \<Rightarrow> PyNone | Some v \<Rightarrow> v)"

text \<open>The components as the metadata of the record has them, without their URIs; an item that is no object has no
  \<^verbatim>\<open>items\<close>.\<close>

definition expected_components :: "json_object \<Rightarrow> (app_error, json) result" where
  "expected_components md =
     (case dict_get md (u ''components'') of
        Some (JList items) \<Rightarrow>
          rbind (map_result (\<lambda>i. case i of JObj fs \<Rightarrow> Inr (JObj (without_uri fs)) | _ \<Rightarrow> Inl (AppTypeError ''AttributeError'')) items)
            (\<lambda>js. Inr (JList js))
      | _ \<Rightarrow> Inr JNull)"

definition py_str :: "builder_env \<Rightarrow> pyval \<Rightarrow> pystr" where
  "py_str env v = (case v of PyStr s \<Rightarrow> s | _ \<Rightarrow> py_repr env v)"

definition manifest_keys :: "builder_env \<Rightarrow> pyval list \<Rightarrow> pystr set" where
  "manifest_keys env items =
     set (map (py_str env) (filter (\<lambda>v. v \<noteq> PyNone)
       (map (\<lambda>i. case i of PyDict d \<Rightarrow> manifest_field d ''component_key'' | _ \<Rightarrow> PyNone) items)))"

text \<open>
  The decoder is that of \<^verbatim>\<open>Json_Loads\<close>: it keeps numbers with a fraction exactly and refuses \<^verbatim>\<open>NaN\<close>. A manifest as
  \<open>write_manifest\<close> prints it has neither.
\<close>

definition verify_manifest_metadata ::
  "builder_env \<Rightarrow> snapshot_record \<Rightarrow> component_row list \<Rightarrow> bytes \<Rightarrow> (app_error, verification_issue list) result" where
  "verify_manifest_metadata env s cs b =
     (case utf8_decode b of
        None \<Rightarrow> Inr [found_issue INVALID_MANIFEST ''Manifest is not valid UTF-8 JSON.'']
      | Some decoded \<Rightarrow>
          (case json_loads False decoded of
             Inl JsonIntTooLong \<Rightarrow> Inl (AppValueError ''Exceeds the limit for integer string conversion'')
           | Inl _ \<Rightarrow> Inr [found_issue INVALID_MANIFEST ''Manifest is not valid UTF-8 JSON.'']
           | Inr (PyDict m) \<Rightarrow>
               (case manifest_field m ''components'' of
                  PyList items \<Rightarrow>
                    rbind (expected_components (sr_metadata s)) (\<lambda>expected.
                      if \<not> py_eq (manifest_field m ''snapshot_code'') (JStr (sr_snapshot_code s)) \<or>
                         \<not> py_eq (manifest_field m ''knowledge_cutoff_ts'') (JStr (canonical_datetime (sr_knowledge_cutoff_ts s))) \<or>
                         \<not> py_eq (manifest_field m ''availability_mode'') (JStr (mode_value (sr_availability_mode s))) \<or>
                         \<not> py_eq (manifest_field m ''specification_sha256'')
                             (case dict_get (sr_metadata s) (u ''specification_sha256'') of None \<Rightarrow> JNull | Some j \<Rightarrow> j) \<or>
                         \<not> py_eq (PyList items) expected
                      then Inr [found_issue MANIFEST_METADATA_MISMATCH ''Manifest metadata does not match the frozen database record.'']
                      else if manifest_keys env items \<noteq> set (map sc_component_key cs)
                      then Inr [found_issue MANIFEST_COMPONENT_MISMATCH ''Manifest components do not match the frozen database components.'']
                      else Inr [])
                | _ \<Rightarrow> Inr [found_issue INVALID_MANIFEST ''Manifest components are not a list.''])
           | Inr _ \<Rightarrow> Inr [found_issue INVALID_MANIFEST ''Manifest root is not an object.'']))"

definition verify_artifacts ::
  "builder_env \<Rightarrow> files \<Rightarrow> snapshot_record \<Rightarrow> component_row list \<Rightarrow> (app_error, verification_issue list) result" where
  "verify_artifacts env fs s cs =
     (case sr_manifest_sha256 s of
        None \<Rightarrow> Inr [found_issue MISSING_MANIFEST_HASH ''Missing manifest hash.'']
      | Some digest \<Rightarrow>
          (case check_components env fs cs None of (issues, mp) \<Rightarrow>
             (case Option.bind mp fs of
                Some (File b) \<Rightarrow>
                  if io_sha256 (b_io env) b \<noteq> digest
                  then Inr (issues @ [found_issue MANIFEST_HASH_MISMATCH ''Manifest hash mismatch.''])
                  else rbind (verify_manifest_metadata env s cs b) (\<lambda>more. Inr (issues @ more))
              | _ \<Rightarrow> Inr (issues @ [found_issue MISSING_MANIFEST ''Manifest file is missing.'']))))"

subsection \<open>The live database\<close>

definition stored_spec :: "builder_env \<Rightarrow> json \<Rightarrow> (app_error, snapshot_component_spec) result" where
  "stored_spec env j =
     (case pd_spec env j of
        None \<Rightarrow> Inl (AppValueError ''ValidationError'')
      | Some c \<Rightarrow> if validate_component_spec c then Inr c else Inl (AppValueError ''ValidationError''))"

definition check_drift ::
  "builder_env \<Rightarrow> bar_tables \<Rightarrow> snapshot_record \<Rightarrow> (pystr, snapshot_component_spec) dict \<Rightarrow> component_row \<Rightarrow>
     (app_error, verification_issue list) result" where
  "check_drift env bars s by_key c =
     (case dict_get by_key (sc_component_key c) of
        None \<Rightarrow> Inr [found_issue MISSING_COMPONENT_SPEC ''Component spec missing.'']
      | Some spec \<Rightarrow>
          (case component_bytes (sr_availability_mode s)
                  (eligible_revisions (cs_bar_series_id spec) (cs_event_from spec) (cs_event_to spec)
                     (sr_knowledge_cutoff_ts s) (sr_availability_mode s) bars) of
             Inl _ \<Rightarrow> Inl (AppValueError ''unsupported value'')
           | Inr b \<Rightarrow>
               Inr (if io_sha256 (b_io env) b \<noteq> sc_component_sha256 c
                    then [component_issue DATABASE_DRIFT c ''Live candidate hash differs.''] else [])))"

definition verify_database ::
  "builder_env \<Rightarrow> bar_tables \<Rightarrow> snapshot_record \<Rightarrow> component_row list \<Rightarrow> (app_error, verification_issue list) result" where
  "verify_database env bars s cs =
     (case (case dict_get (sr_metadata s) (u ''component_specs'') of None \<Rightarrow> JList [] | Some j \<Rightarrow> j) of
        JList items \<Rightarrow>
          rbind (map_result (stored_spec env) items) (\<lambda>found_specs.
            if snapshot_outage env DriftTx then Inl (DatabaseUnavailableError ''The database is unavailable.'')
            else
              rbind (map_result (check_drift env bars s (foldl (\<lambda>d c. dict_set d (cs_component_key c) c) [] found_specs)) cs)
                (\<lambda>found. Inr (concat found)))
      | _ \<Rightarrow> Inr [found_issue MISSING_SPECIFICATION ''Missing component specs.''])"

definition verification_lookup ::
  "builder_env \<Rightarrow> pystr \<Rightarrow> snapshot_tables \<Rightarrow> (app_error, snapshot_tables \<times> (snapshot_record \<times> component_row list)) result" where
  "verification_lookup env code t =
     (case get_snapshot_by_code code t of
        Some s \<Rightarrow>
          if sr_status s \<noteq> FROZEN then Inl (SnapshotVerificationError ''Only a FROZEN snapshot can be verified.'')
          else Inr (t, s, list_components (text_order env) (sr_data_snapshot_id s) t)
      | None \<Rightarrow> Inl (SnapshotVerificationError ''Only a FROZEN snapshot can be verified.''))"

definition verify :: "builder_env \<Rightarrow> pystr \<Rightarrow> bool \<Rightarrow> snapshot_world \<Rightarrow> (app_error, verification_result) result" where
  "verify env code against_db world =
     rbind (fst (snapshot_tx env VerifyTx ''READ COMMITTED'' True (verification_lookup env code) (w_snapshots world))) (\<lambda>(s, cs).
     rbind (verify_artifacts env (w_files world) s cs) (\<lambda>issues.
       if issues \<noteq> [] then
         Inr \<lparr>vr_snapshot_code = code, vr_verified = False, vr_artifact_verified = False, vr_database_verified = None,
              vr_database_drift = False, vr_issues = issues\<rparr>
       else if \<not> against_db then
         Inr \<lparr>vr_snapshot_code = code, vr_verified = True, vr_artifact_verified = True, vr_database_verified = None,
              vr_database_drift = False, vr_issues = []\<rparr>
       else
         rbind (verify_database env (w_bars world) s cs) (\<lambda>drift.
           Inr \<lparr>vr_snapshot_code = code, vr_verified = (drift = []), vr_artifact_verified = True,
                vr_database_verified = Some (drift = []), vr_database_drift = (drift \<noteq> []), vr_issues = drift\<rparr>)))"

end
