(* ===== verification/Run_Manifest.thy ===== *)
theory Run_Manifest
  imports Snapshot_Verifier Backtest_Engine
begin

text \<open>
  Run manifests (\<^verbatim>\<open>src/bisfin/backtest/manifest.py\<close>): the parser of a manifest, the names a run may have and
  the bytes whose hashes identify an experiment. The specification leaves out the name of the run and sorts the
  instruments; the lemmas show what two requests with the same bytes share.
\<close>

subsection \<open>Errors of the backtest service\<close>

text \<open>
  The service raises the errors of the backtest and of the database layer; \<open>Driver\<close> is an exception of the database
  driver that nobody translates, as from connecting or committing.
\<close>

datatype run_error = Bt backtest_error | App app_error | Driver string

text \<open>\<^verbatim>\<open>isinstance(error, BisfinError)\<close>.\<close>

definition is_bisfin :: "run_error \<Rightarrow> bool" where
  "is_bisfin e =
     (case e of
        Bt b \<Rightarrow>
          (case b of
             BacktestManifestError _ \<Rightarrow> True | BacktestValidationError _ \<Rightarrow> True | BacktestRunConflictError _ \<Rightarrow> True
           | BacktestRunInProgressError _ \<Rightarrow> True | SnapshotArtifactUnavailableError _ \<Rightarrow> True
           | StrategyVersionConflictError _ \<Rightarrow> True | BacktestExecutionError _ \<Rightarrow> True | BacktestAccountingError _ \<Rightarrow> True
           | BacktestPersistenceError _ \<Rightarrow> True | _ \<Rightarrow> False)
      | App a \<Rightarrow>
          (case a of
             AppValueError _ \<Rightarrow> False | AppTypeError _ \<Rightarrow> False | AppRuntimeError _ \<Rightarrow> False | AppAssertionError \<Rightarrow> False
           | AppInvalidOperation \<Rightarrow> False | AppOSError _ \<Rightarrow> False | _ \<Rightarrow> True)
      | Driver _ \<Rightarrow> False)"

definition lift_bt :: "(backtest_error, 'a) result \<Rightarrow> (run_error, 'a) result" where
  "lift_bt r = (case r of Inl e \<Rightarrow> Inl (Bt e) | Inr a \<Rightarrow> Inr a)"

definition lift_app :: "(app_error, 'a) result \<Rightarrow> (run_error, 'a) result" where
  "lift_app r = (case r of Inl e \<Rightarrow> Inl (App e) | Inr a \<Rightarrow> Inr a)"

definition lift_ser :: "(ser_error, 'a) result \<Rightarrow> (run_error, 'a) result" where
  "lift_ser r = (case r of Inl e \<Rightarrow> Inl (Bt (SerializationError e)) | Inr a \<Rightarrow> Inr a)"

lemma lift_simps [simp]:
  "lift_bt (Inl e) = Inl (Bt e)" "lift_bt (Inr a) = Inr a" "lift_app (Inl e') = Inl (App e')" "lift_app (Inr a) = Inr a"
  "lift_ser (Inl e'') = Inl (Bt (SerializationError e''))" "lift_ser (Inr a) = Inr a"
  by (simp_all add: lift_bt_def lift_app_def lift_ser_def)

lemma lift_Inr [simp]:
  "lift_bt r = Inr a \<longleftrightarrow> r = Inr a" "lift_app r' = Inr a \<longleftrightarrow> r' = Inr a" "lift_ser r'' = Inr a \<longleftrightarrow> r'' = Inr a"
  by (cases r; simp; fail | cases r'; simp; fail | cases r''; simp; fail)+

subsection \<open>Names\<close>

definition SAFE_RUN_CODE :: "pystr \<Rightarrow> bool" where
  "SAFE_RUN_CODE s \<longleftrightarrow>
     (case s of [] \<Rightarrow> False
      | c # cs \<Rightarrow> is_code_start c \<and> length cs \<le> 127 \<and> list_all (\<lambda>d. is_code_start d \<or> d \<in> {46, 95, 45}) cs)"

definition validate_run_code :: "pystr \<Rightarrow> (run_error, pystr) result" where
  "validate_run_code s =
     (if \<not> SAFE_RUN_CODE s \<or> has_dots s \<or> take 1 s = [46]
      then Inl (Bt (BacktestManifestError ''run_code is not a safe identifier'')) else Inr s)"

subsection \<open>What a request is hashed as\<close>

definition strategy_kind_value :: "reference_strategy_kind \<Rightarrow> pystr" where
  "strategy_kind_value k = (case k of SMA_CROSS_LONG_FLAT_V1 \<Rightarrow> u ''SMA_CROSS_LONG_FLAT_V1'')"

definition execution_kind_value :: "reference_execution_model_kind \<Rightarrow> pystr" where
  "execution_kind_value k = (case k of NEXT_BAR_CLOSE_AT_AVAILABILITY_V1 \<Rightarrow> u ''NEXT_BAR_CLOSE_AT_AVAILABILITY_V1'')"

definition execution_dump :: "reference_execution_model_spec \<Rightarrow> pyval" where
  "execution_dump x = PyDict [(u ''kind'', PyStr (execution_kind_value (execution_kind x)))]"

definition costs_dump :: "transaction_cost_model_spec \<Rightarrow> pyval" where
  "costs_dump c = PyDict
     [(u ''commission_bps'', PyDec (commission_bps c)), (u ''slippage_bps'', PyDec (slippage_bps c)),
      (u ''sell_tax_bps'', PyDec (sell_tax_bps c))]"

definition strategy_dump :: "reference_strategy_spec \<Rightarrow> pyval" where
  "strategy_dump s = PyDict
     [(u ''kind'', PyStr (strategy_kind_value (strategy_kind s))), (u ''parameters'', parameters_value (strategy_parameters s))]"

definition instrument_dump :: "run_instrument_spec \<Rightarrow> pyval" where
  "instrument_dump i = PyDict
     [(u ''instrument_id'', PyInt (run_instrument_spec.instrument_id i)),
      (u ''signal_component_key'', PyStr (signal_component_key i)),
      (u ''execution_component_key'', PyStr (execution_component_key i)),
      (u ''valuation_component_key'', PyStr (valuation_component_key i)),
      (u ''execution_lag_seconds'', PyInt (execution_lag_seconds i))]"

text \<open>\<^verbatim>\<open>request.model_dump()\<close> in Python mode: the fields with their values, nested models as dictionaries.\<close>

definition request_dump :: "backtest_run_request \<Rightarrow> (pystr, pyval) dict" where
  "request_dump r =
     [(u ''schema_version'', PyInt (schema_version r)), (u ''run_code'', PyStr (run_code r)),
      (u ''snapshot_code'', PyStr (snapshot_code r)), (u ''universe_code'', PyStr (universe_code r)),
      (u ''base_currency_code'', PyStr (backtest_run_request.base_currency_code r)),
      (u ''event_from'', PyDateTime (event_from r)), (u ''event_to'', PyDateTime (event_to r)),
      (u ''initial_capital'', PyDec (initial_capital r)), (u ''random_seed'', PyInt (random_seed r)),
      (u ''strategy'', strategy_dump (strategy r)), (u ''execution_model'', execution_dump (execution_model r)),
      (u ''transaction_cost_model'', costs_dump (transaction_cost_model r)),
      (u ''instruments'', PyList (map instrument_dump (backtest_run_request.instruments r)))]"

definition canonical_run_specification_bytes :: "backtest_run_request \<Rightarrow> (ser_error, bytes) result" where
  "canonical_run_specification_bytes r =
     canonical_json_bytes (PyDict (dict_set (dict_pop (request_dump r) (u ''run_code'')) (u ''instruments'')
       (PyList (map instrument_dump (sort_key run_instrument_spec.instrument_id (backtest_run_request.instruments r))))))"

definition canonical_parameter_bytes :: "backtest_run_request \<Rightarrow> (ser_error, bytes) result" where
  "canonical_parameter_bytes r = canonical_json_bytes (parameters_value (strategy_parameters (strategy r)))"

subsection \<open>The parser\<close>

record backtest_manifest_document =
  bd_payload_bytes :: bytes
  bd_source_manifest_sha256 :: pystr
  bd_request :: backtest_run_request
  bd_run_spec_sha256 :: pystr
  bd_parameter_sha256 :: pystr

definition manifest_error :: "string \<Rightarrow> (run_error, 'a) result" where
  "manifest_error m = Inl (Bt (BacktestManifestError m))"

text \<open>
  \<open>coerce\<close> stands for what pydantic does with the fields of the decoded object before the validators of the
  contracts run. Text that UTF-8 cannot encode is only found when the request is hashed, outside every \<^verbatim>\<open>try\<close>.
\<close>

definition parse_backtest_manifest_bytes ::
  "(bytes \<Rightarrow> pystr) \<Rightarrow> (pyval \<Rightarrow> backtest_run_request option) \<Rightarrow> bytes \<Rightarrow> (run_error, backtest_manifest_document) result" where
  "parse_backtest_manifest_bytes sha256 coerce payload =
     (case utf8_decode payload of
        None \<Rightarrow> manifest_error ''backtest manifest is not UTF-8''
      | Some decoded \<Rightarrow>
          (case json_loads True decoded of
             Inl JsonDuplicate \<Rightarrow> manifest_error ''backtest manifest has duplicate JSON fields''
           | Inl JsonNumberRange \<Rightarrow> Inl (App AppInvalidOperation)
           | Inl _ \<Rightarrow> manifest_error ''backtest manifest is malformed JSON''
           | Inr (PyDict raw) \<Rightarrow>
               if dict_get raw (u ''schema_version'') \<noteq> Some (PyInt 1) then manifest_error ''unsupported schema_version''
               else
                 (case coerce (PyDict raw) of
                    None \<Rightarrow> manifest_error ''backtest manifest is invalid''
                  | Some r \<Rightarrow>
                      (case model_validate_request r of
                         Inl _ \<Rightarrow> manifest_error ''backtest manifest is invalid''
                       | Inr request \<Rightarrow>
                           rbind (validate_run_code (run_code request)) (\<lambda>_.
                           rbind (lift_ser (canonical_run_specification_bytes request)) (\<lambda>semantic.
                           rbind (lift_ser (canonical_parameter_bytes request)) (\<lambda>parameters.
                             Inr \<lparr>bd_payload_bytes = payload, bd_source_manifest_sha256 = sha256 payload, bd_request = request,
                                  bd_run_spec_sha256 = sha256 semantic, bd_parameter_sha256 = sha256 parameters\<rparr>)))))
           | Inr _ \<Rightarrow> manifest_error ''backtest manifest root must be an object''))"

subsection \<open>What a parsed manifest guarantees\<close>

lemma validate_run_code_Inr: "validate_run_code s = Inr t \<longleftrightarrow> t = s \<and> SAFE_RUN_CODE s \<and> \<not> has_dots s \<and> take 1 s \<noteq> [46]"
  by (auto simp: validate_run_code_def)

lemma parsed_manifest:
  assumes "parse_backtest_manifest_bytes sha256 coerce payload = Inr doc"
  shows "run_request_ok (bd_request doc)" and "SAFE_RUN_CODE (run_code (bd_request doc))"
    and "\<exists>b. canonical_run_specification_bytes (bd_request doc) = Inr b \<and> bd_run_spec_sha256 doc = sha256 b"
    and "\<exists>b. canonical_parameter_bytes (bd_request doc) = Inr b \<and> bd_parameter_sha256 doc = sha256 b"
    and "bd_source_manifest_sha256 doc = sha256 payload"
proof -
  obtain r req where m: "model_validate_request r = Inr req"
    and c: "rbind (validate_run_code (run_code req)) (\<lambda>_.
      rbind (lift_ser (canonical_run_specification_bytes req)) (\<lambda>semantic.
      rbind (lift_ser (canonical_parameter_bytes req)) (\<lambda>parameters.
        Inr \<lparr>bd_payload_bytes = payload, bd_source_manifest_sha256 = sha256 payload, bd_request = req,
             bd_run_spec_sha256 = sha256 semantic, bd_parameter_sha256 = sha256 parameters\<rparr>))) = Inr doc"
    using assms
    by (auto simp: parse_backtest_manifest_bytes_def manifest_error_def
        split: option.splits sum.splits json_error.splits pyval.splits if_splits)
  then show "run_request_ok (bd_request doc)" "SAFE_RUN_CODE (run_code (bd_request doc))" "bd_source_manifest_sha256 doc = sha256 payload"
    "\<exists>b. canonical_run_specification_bytes (bd_request doc) = Inr b \<and> bd_run_spec_sha256 doc = sha256 b"
    "\<exists>b. canonical_parameter_bytes (bd_request doc) = Inr b \<and> bd_parameter_sha256 doc = sha256 b"
    using model_validate_request_ok [OF m] by (auto simp: rbind_Inr_iff validate_run_code_Inr)
qed

text \<open>The name of the run is not part of what is hashed.\<close>

lemma specification_ignores_run_code:
  "canonical_run_specification_bytes (r\<lparr>run_code := c\<rparr>) = canonical_run_specification_bytes r"
  by (simp add: canonical_run_specification_bytes_def request_dump_def dict_pop_def u_inj del: u_Cons)

text \<open>Nor is the order in which the instruments are listed.\<close>

lemma specification_ignores_order:
  assumes "distinct (map run_instrument_spec.instrument_id (backtest_run_request.instruments r))"
    and "distinct is" and "set is = set (backtest_run_request.instruments r)"
  shows "canonical_run_specification_bytes (r\<lparr>backtest_run_request.instruments := is\<rparr>) = canonical_run_specification_bytes r"
proof -
  have "sort_key run_instrument_spec.instrument_id is = sort_key run_instrument_spec.instrument_id (backtest_run_request.instruments r)"
    using assms by (intro sort_key_unique) (auto simp: distinct_map)
  then show ?thesis
    by (simp add: canonical_run_specification_bytes_def request_dump_def dict_pop_def u_inj del: u_Cons)
qed

end
