(* ===== verification/Run_Store.thy ===== *)
theory Run_Store
  imports Run_Manifest
begin

text \<open>
  The lifecycle tables of backtest runs and their repository
  (\<^verbatim>\<open>src/bisfin/repositories/backtest_run_repository.py\<close> with \<^verbatim>\<open>db/backtest_tables.py\<close>): strategies and their
  versions, runs, and the instruments and bar series bound to a run. A run goes from QUEUED to RUNNING to SUCCEEDED
  or FAILED; the lemmas show that every operation keeps the constraints of the tables and changes no finished run.
\<close>

subsection \<open>Tables\<close>

text \<open>A table with an identity column.\<close>

record 'a table =
  tbl_rows :: "'a list"
  tbl_next :: int

definition empty_table :: "'a table" where
  "empty_table = \<lparr>tbl_rows = [], tbl_next = 1\<rparr>"

definition add_row :: "(int \<Rightarrow> 'a) \<Rightarrow> 'a table \<Rightarrow> 'a table \<times> int" where
  "add_row mk t = (t\<lparr>tbl_rows := tbl_rows t @ [mk (tbl_next t)], tbl_next := tbl_next t + 1\<rparr>, tbl_next t)"

datatype run_status = RUN_QUEUED | RUN_RUNNING | RUN_SUCCEEDED | RUN_FAILED | RUN_CANCELLED

datatype series_role = SIGNAL | EXECUTION | VALUATION

record strategy_row =
  sg_strategy_id :: int
  sg_strategy_code :: pystr
  sg_display_name :: pystr
  sg_description :: "pystr option"

record strategy_version_row =
  sv_strategy_version_id :: int
  sv_strategy_id :: int
  sv_version_no :: int
  sv_class_path :: pystr
  sv_code_sha256 :: pystr

text \<open>What a run is created from, and its row.\<close>

record queued_run =
  qr_run_code :: pystr
  qr_strategy_version_id :: int
  qr_data_snapshot_id :: int
  qr_universe_id :: int
  qr_timeframe_id :: "int option"
  qr_base_currency_code :: pystr
  qr_event_from :: timestamp
  qr_event_to :: timestamp
  qr_knowledge_cutoff_ts :: timestamp
  qr_availability_mode :: replay_mode
  qr_initial_capital :: decimal
  qr_parameters :: json
  qr_parameter_sha256 :: pystr
  qr_execution_model :: json
  qr_transaction_cost_model :: json
  qr_random_seed :: int
  qr_metadata :: json

record run_row = queued_run +
  rn_run_id :: int
  rn_status :: run_status
  rn_started_at :: "timestamp option"
  rn_finished_at :: "timestamp option"
  rn_error_summary :: "pystr option"

record run_instrument_row =
  ri_run_id :: int
  ri_instrument_id :: int

record run_series_row =
  rs_run_id :: int
  rs_bar_series_id :: int
  rs_series_role :: series_role
  rs_is_primary :: bool
  rs_execution_lag_seconds :: int
  rs_metadata :: json

record run_tables =
  strategies :: "strategy_row table"
  strategy_versions :: "strategy_version_row table"
  runs :: "run_row table"
  run_instruments :: "run_instrument_row list"
  run_series :: "run_series_row list"

definition empty_runs :: run_tables where
  "empty_runs = \<lparr>strategies = empty_table, strategy_versions = empty_table, runs = empty_table, run_instruments = [], run_series = []\<rparr>"

text \<open>
  What the constraints look at outside these tables: the catalog, the universes, the bar series, and the snapshots that
  a run may point to.
\<close>

record run_context =
  rc_catalog :: catalog_tables
  rc_universes :: "(pystr, int) dict"
  rc_bars :: bar_tables
  rc_snapshots :: snapshot_tables

definition instrument_exists :: "run_context \<Rightarrow> int \<Rightarrow> bool" where
  "instrument_exists ctx i \<longleftrightarrow> (\<exists>x \<in> set (catalog_tables.instruments (rc_catalog ctx)). instrument.instrument_id x = i)"

definition currency_exists :: "run_context \<Rightarrow> pystr \<Rightarrow> bool" where
  "currency_exists ctx c \<longleftrightarrow> (\<exists>x \<in> set (currencies (rc_catalog ctx)). currency_code x = c)"

definition timeframe_exists :: "run_context \<Rightarrow> int option \<Rightarrow> bool" where
  "timeframe_exists ctx t \<longleftrightarrow> (case t of None \<Rightarrow> True | Some i \<Rightarrow> \<exists>x \<in> set (timeframes (rc_catalog ctx)). timeframe_id x = i)"

definition series_exists :: "run_context \<Rightarrow> int \<Rightarrow> bool" where
  "series_exists ctx i \<longleftrightarrow> (\<exists>x \<in> set (series_rows (rc_bars ctx)). series_id x = i)"

text \<open>What a trigger's \<^verbatim>\<open>RAISE EXCEPTION\<close> becomes.\<close>

abbreviation raise_exception :: app_error where
  "raise_exception \<equiv> map_database_error (Some (u ''P0001'')) False"

text \<open>\<^verbatim>\<open>CAST(:x AS jsonb)\<close> of the canonical text of a value.\<close>

definition json_text :: "pyval \<Rightarrow> (run_error, json) result" where
  "json_text v = rbind (lift_ser (canonical_json_bytes v)) (\<lambda>_. lift_ser (canonicalize_json v))"

definition jsonb_cast :: "json \<Rightarrow> (app_error, json) result" where
  "jsonb_cast j = (if jsonb_ok j then Inr j else Inl data_exception)"

subsection \<open>Reading\<close>

definition run_by_code :: "pystr \<Rightarrow> run_tables \<Rightarrow> run_row option" where
  "run_by_code code t = find (\<lambda>r. qr_run_code r = code) (tbl_rows (runs t))"

definition run_by_id :: "int \<Rightarrow> run_tables \<Rightarrow> run_row option" where
  "run_by_id i t = find (\<lambda>r. rn_run_id r = i) (tbl_rows (runs t))"

definition metadata_field :: "run_row \<Rightarrow> string \<Rightarrow> json option" where
  "metadata_field r k = (case qr_metadata r of JObj fs \<Rightarrow> dict_get fs (u k) | _ \<Rightarrow> None)"

definition require_runnable :: "pystr \<Rightarrow> pystr \<Rightarrow> run_tables \<Rightarrow> (run_error, run_row option) result" where
  "require_runnable code spec_sha256 t =
     (case run_by_code code t of
        None \<Rightarrow> Inr None
      | Some r \<Rightarrow>
          if rn_status r = RUN_SUCCEEDED \<and> metadata_field r ''run_spec_sha256'' = Some (JStr spec_sha256) then Inr (Some r)
          else if rn_status r = RUN_QUEUED \<or> rn_status r = RUN_RUNNING
          then Inl (Bt (BacktestRunInProgressError ''Backtest run code is already queued or running.''))
          else Inl (Bt (BacktestRunConflictError ''Backtest run code cannot be reused for another run.'')))"

definition resolve_universe_id :: "run_context \<Rightarrow> pystr \<Rightarrow> (run_error, int) result" where
  "resolve_universe_id ctx code =
     (case dict_get (rc_universes ctx) code of
        None \<Rightarrow> Inl (Bt (ValueError ''Backtest universe code was not found.'')) | Some i \<Rightarrow> Inr i)"

text \<open>The rows of the query come in the order of the table; the first one gives the time frame.\<close>

definition validate_instrument_series :: "run_context \<Rightarrow> int \<Rightarrow> int list \<Rightarrow> pystr \<Rightarrow> (run_error, int) result" where
  "validate_instrument_series ctx iid sids base_currency =
     (if sids = [] then Inl (Bt (ValueError ''Backtest instrument has no artifact bar-series binding.''))
      else
        rbind (lift_app (get_instrument_by_id iid (rc_catalog ctx))) (\<lambda>inst.
        let rows = filter (\<lambda>s. series_instrument_id s = iid \<and> series_id s \<in> set sids) (series_rows (rc_bars ctx)) in
        if map_option quote_currency_code inst \<noteq> Some base_currency
        then Inl (Bt (ValueError ''Instrument quote currency must equal the reference run base currency.''))
        else if length rows \<noteq> card (set sids) \<or> (\<exists>s \<in> set rows. price_basis s \<noteq> u ''RAW'')
        then Inl (Bt (ValueError ''All reference run series must exist for the instrument and use RAW prices.''))
        else Inr (series_timeframe_id (hd rows))))"

subsection \<open>Writing\<close>

definition STRATEGY_CODE :: pystr where
  "STRATEGY_CODE = u ''BISFIN_SMA_CROSS_LONG_FLAT''"

text \<open>\<^verbatim>\<open>INSERT ... ON CONFLICT (strategy_code) DO NOTHING\<close> and the identifier of the row.\<close>

definition ensure_strategy :: "run_tables \<Rightarrow> run_tables \<times> int" where
  "ensure_strategy t =
     (case find (\<lambda>s. sg_strategy_code s = STRATEGY_CODE) (tbl_rows (strategies t)) of
        Some s \<Rightarrow> (t, sg_strategy_id s)
      | None \<Rightarrow>
          (case add_row (\<lambda>i. \<lparr>sg_strategy_id = i, sg_strategy_code = STRATEGY_CODE,
                  sg_display_name = u ''Bisfin SMA cross long/flat reference'',
                  sg_description = Some (u ''Deterministic artifact-backed reference strategy.'')\<rparr>) (strategies t) of
             (s, i) \<Rightarrow> (t\<lparr>strategies := s\<rparr>, i)))"

definition ensure_strategy_version :: "pystr \<Rightarrow> pystr \<Rightarrow> run_tables \<Rightarrow> (run_error, run_tables \<times> int) result" where
  "ensure_strategy_version class_path code_sha256 t =
     (case ensure_strategy t of
        (t, sid) \<Rightarrow>
          (case find (\<lambda>v. sv_strategy_id v = sid \<and> sv_version_no v = 1) (tbl_rows (strategy_versions t)) of
             Some v \<Rightarrow>
               if sv_class_path v \<noteq> class_path \<or> sv_code_sha256 v \<noteq> code_sha256
               then Inl (Bt (StrategyVersionConflictError ''Reference strategy version 1 has a different immutable source hash.''))
               else Inr (t, sv_strategy_version_id v)
           | None \<Rightarrow>
               rbind (lift_app (char_n 64 code_sha256)) (\<lambda>digest.
                 if \<exists>v \<in> set (tbl_rows (strategy_versions t)). sv_strategy_id v = sid \<and> sv_code_sha256 v = digest
                 then Inl (App unique_violation)
                 else
                   (case add_row (\<lambda>i. \<lparr>sv_strategy_version_id = i, sv_strategy_id = sid, sv_version_no = 1,
                           sv_class_path = class_path, sv_code_sha256 = digest\<rparr>) (strategy_versions t) of
                      (v, i) \<Rightarrow> Inr (t\<lparr>strategy_versions := v\<rparr>, i)))))"

text \<open>The trigger \<^verbatim>\<open>enforce_run_snapshot\<close>.\<close>

definition enforce_run_snapshot :: "run_context \<Rightarrow> queued_run \<Rightarrow> bool" where
  "enforce_run_snapshot ctx q \<longleftrightarrow>
     (case get_snapshot_by_id (qr_data_snapshot_id q) (rc_snapshots ctx) of
        None \<Rightarrow> False
      | Some s \<Rightarrow> sr_status s = FROZEN \<and> sr_knowledge_cutoff_ts s = qr_knowledge_cutoff_ts q \<and>
          sr_availability_mode s = qr_availability_mode q)"

definition stored_run :: "queued_run \<Rightarrow> int \<Rightarrow> decimal \<Rightarrow> pystr \<Rightarrow> run_row" where
  "stored_run q i capital digest = queued_run.extend (q\<lparr>qr_initial_capital := capital, qr_parameter_sha256 := digest\<rparr>)
     (run_row.fields i RUN_QUEUED None None None)"

definition create_queued :: "run_context \<Rightarrow> queued_run \<Rightarrow> run_tables \<Rightarrow> (app_error, run_tables \<times> int) result" where
  "create_queued ctx q t =
     rbind (to_numeric (qr_initial_capital q)) (\<lambda>capital.
     rbind (char_n 64 (qr_parameter_sha256 q)) (\<lambda>digest.
     rbind (jsonb_cast (qr_parameters q)) (\<lambda>_.
     rbind (jsonb_cast (qr_execution_model q)) (\<lambda>_.
     rbind (jsonb_cast (qr_transaction_cost_model q)) (\<lambda>_.
     rbind (jsonb_cast (qr_metadata q)) (\<lambda>_.
       if 128 < length (qr_run_code q) \<or> 12 < length (qr_base_currency_code q) \<or> \<not> in_bigint (qr_random_seed q)
       then Inl data_exception
       else if \<not> enforce_run_snapshot ctx q then Inl raise_exception
       else if val capital < 0 \<or> qr_event_to q \<le> qr_event_from q then Inl check_violation
       else if \<exists>r \<in> set (tbl_rows (runs t)). qr_run_code r = qr_run_code q then Inl unique_violation
       else if (\<forall>v \<in> set (tbl_rows (strategy_versions t)). sv_strategy_version_id v \<noteq> qr_strategy_version_id q) \<or>
               qr_universe_id q \<notin> snd ` set (rc_universes ctx) \<or> \<not> timeframe_exists ctx (qr_timeframe_id q) \<or>
               \<not> currency_exists ctx (qr_base_currency_code q)
       then Inl foreign_key_violation
       else
         (case add_row (\<lambda>i. stored_run q i capital digest) (runs t) of (r, i) \<Rightarrow> Inr (t\<lparr>runs := r\<rparr>, i))))))))"

definition bind_instrument :: "run_context \<Rightarrow> int \<Rightarrow> int \<Rightarrow> run_tables \<Rightarrow> (app_error, run_tables) result" where
  "bind_instrument ctx i iid t =
     (if \<exists>r \<in> set (run_instruments t). ri_run_id r = i \<and> ri_instrument_id r = iid then Inl unique_violation
      else if run_by_id i t = None \<or> \<not> instrument_exists ctx iid then Inl foreign_key_violation
      else Inr (t\<lparr>run_instruments := run_instruments t @ [\<lparr>ri_run_id = i, ri_instrument_id = iid\<rparr>]\<rparr>))"

record series_binding =
  sb_instrument_id :: int
  sb_bar_series_id :: int
  sb_role :: series_role
  sb_lag_seconds :: int
  sb_is_primary :: bool

definition bind_series :: "run_context \<Rightarrow> int \<Rightarrow> series_binding \<Rightarrow> run_tables \<Rightarrow> (app_error, run_tables) result" where
  "bind_series ctx i b t =
     (if sb_lag_seconds b < 0 then Inl check_violation
      else if \<exists>r \<in> set (run_series t). rs_run_id r = i \<and> rs_series_role r = sb_role b \<and>
              (rs_bar_series_id r = sb_bar_series_id b \<or> rs_is_primary r \<and> sb_is_primary b)
      then Inl unique_violation
      else if run_by_id i t = None \<or> \<not> series_exists ctx (sb_bar_series_id b) then Inl foreign_key_violation
      else Inr (t\<lparr>run_series := run_series t @
        [\<lparr>rs_run_id = i, rs_bar_series_id = sb_bar_series_id b, rs_series_role = sb_role b, rs_is_primary = sb_is_primary b,
          rs_execution_lag_seconds = sb_lag_seconds b, rs_metadata = JObj [(u ''instrument_id'', JInt (sb_instrument_id b))]\<rparr>]\<rparr>))"

fun fold_result :: "('a \<Rightarrow> 's \<Rightarrow> ('e, 's) result) \<Rightarrow> 'a list \<Rightarrow> 's \<Rightarrow> ('e, 's) result" where
  "fold_result f [] s = Inr s"
| "fold_result f (x # xs) s = rbind (f x s) (fold_result f xs)"

definition insert_bindings ::
  "run_context \<Rightarrow> int \<Rightarrow> int list \<Rightarrow> series_binding list \<Rightarrow> run_tables \<Rightarrow> (app_error, run_tables) result" where
  "insert_bindings ctx i iids bs t =
     rbind (fold_result (bind_instrument ctx i) iids t) (fold_result (bind_series ctx i) bs)"

definition update_run :: "int \<Rightarrow> run_row \<Rightarrow> run_tables \<Rightarrow> run_tables" where
  "update_run i r t = t\<lparr>runs := (runs t)\<lparr>tbl_rows := map (\<lambda>x. if rn_run_id x = i then r else x) (tbl_rows (runs t))\<rparr>\<rparr>"

text \<open>The CHECK that a run does not finish before it starts.\<close>

definition run_times_ok :: "run_row \<Rightarrow> bool" where
  "run_times_ok r \<longleftrightarrow>
     (case (rn_started_at r, rn_finished_at r) of (Some s, Some f) \<Rightarrow> s \<le> f | _ \<Rightarrow> True)"

definition transition ::
  "int \<Rightarrow> run_status \<Rightarrow> run_status \<Rightarrow> timestamp \<Rightarrow> json option \<Rightarrow> run_tables \<Rightarrow> (run_error, run_tables) result" where
  "transition i expected status now md t =
     (case run_by_id i t of
        None \<Rightarrow> Inl (Bt (BacktestRunInProgressError ''Backtest lifecycle state changed concurrently.''))
      | Some r \<Rightarrow>
          if rn_status r \<noteq> expected then Inl (Bt (BacktestRunInProgressError ''Backtest lifecycle state changed concurrently.''))
          else
            let r = r\<lparr>rn_status := status\<rparr>;
                r = (if status = RUN_RUNNING then r\<lparr>rn_started_at := Some now\<rparr> else r\<lparr>rn_finished_at := Some now\<rparr>);
                r = (case md of None \<Rightarrow> r | Some j \<Rightarrow> r\<lparr>qr_metadata := j\<rparr>) in
            if (case md of None \<Rightarrow> False | Some j \<Rightarrow> \<not> jsonb_ok j) then Inl (App data_exception)
            else if \<not> run_times_ok r then Inl (App check_violation)
            else Inr (update_run i r t))"

definition mark_run_running :: "int \<Rightarrow> timestamp \<Rightarrow> run_tables \<Rightarrow> (run_error, run_tables) result" where
  "mark_run_running i now t = transition i RUN_QUEUED RUN_RUNNING now None t"

definition mark_run_succeeded :: "int \<Rightarrow> timestamp \<Rightarrow> json \<Rightarrow> run_tables \<Rightarrow> (run_error, run_tables) result" where
  "mark_run_succeeded i now md t = transition i RUN_RUNNING RUN_SUCCEEDED now (Some md) t"

text \<open>The UPDATE only touches a running row, and nobody looks at how many rows it touched.\<close>

definition mark_run_failed :: "int \<Rightarrow> timestamp \<Rightarrow> pystr \<Rightarrow> json \<Rightarrow> run_tables \<Rightarrow> (app_error, run_tables) result" where
  "mark_run_failed i now summary md t =
     (case run_by_id i t of
        None \<Rightarrow> Inr t
      | Some r \<Rightarrow>
          if rn_status r \<noteq> RUN_RUNNING then Inr t
          else
            let r = r\<lparr>rn_status := RUN_FAILED, rn_finished_at := Some now, rn_error_summary := Some (take 512 summary), qr_metadata := md\<rparr> in
            if \<not> jsonb_ok md \<or> \<not> jsonb_text_ok (take 512 summary) then Inl data_exception
            else if \<not> run_times_ok r then Inl check_violation
            else Inr (update_run i r t))"

subsection \<open>Finished runs are final\<close>

definition finished :: "run_status \<Rightarrow> bool" where
  "finished s \<longleftrightarrow> s = RUN_SUCCEEDED \<or> s = RUN_FAILED \<or> s = RUN_CANCELLED"

text \<open>Where a run has its times.\<close>

definition run_row_ok :: "run_row \<Rightarrow> bool" where
  "run_row_ok r \<longleftrightarrow> run_times_ok r \<and>
     (case rn_status r of
        RUN_QUEUED \<Rightarrow> rn_started_at r = None \<and> rn_finished_at r = None
      | RUN_RUNNING \<Rightarrow> rn_started_at r \<noteq> None \<and> rn_finished_at r = None
      | RUN_SUCCEEDED \<Rightarrow> rn_started_at r \<noteq> None \<and> rn_finished_at r \<noteq> None
      | RUN_FAILED \<Rightarrow> rn_started_at r \<noteq> None \<and> rn_finished_at r \<noteq> None
      | RUN_CANCELLED \<Rightarrow> True)"

definition run_inv :: "run_tables \<Rightarrow> bool" where
  "run_inv t \<longleftrightarrow>
     distinct (map rn_run_id (tbl_rows (runs t))) \<and> distinct (map qr_run_code (tbl_rows (runs t))) \<and>
     (\<forall>r \<in> set (tbl_rows (runs t)). rn_run_id r < tbl_next (runs t) \<and> run_row_ok r) \<and>
     distinct (map (\<lambda>s. (rs_run_id s, rs_bar_series_id s, rs_series_role s)) (run_series t)) \<and>
     (\<forall>s \<in> set (run_series t). \<exists>r \<in> set (tbl_rows (runs t)). rn_run_id r = rs_run_id s) \<and>
     (\<forall>s \<in> set (run_instruments t). \<exists>r \<in> set (tbl_rows (runs t)). rn_run_id r = ri_run_id s)"

lemma run_inv_empty: "run_inv empty_runs"
  by (simp add: run_inv_def empty_runs_def empty_table_def)

text \<open>What may become of a row: its inputs stay, a running one has been queued, a finished one stays as it is.\<close>

definition run_follows :: "run_row \<Rightarrow> run_row \<Rightarrow> bool" where
  "run_follows r r' \<longleftrightarrow>
     rn_run_id r' = rn_run_id r \<and> queued_run.truncate (r'\<lparr>qr_metadata := qr_metadata r\<rparr>) = queued_run.truncate r \<and>
     (finished (rn_status r) \<longrightarrow> r' = r) \<and> (rn_status r = RUN_RUNNING \<longrightarrow> rn_status r' \<noteq> RUN_QUEUED)"

definition runs_evolve :: "run_tables \<Rightarrow> run_tables \<Rightarrow> bool" where
  "runs_evolve t t' \<longleftrightarrow>
     (\<forall>r \<in> set (tbl_rows (runs t)). \<exists>r' \<in> set (tbl_rows (runs t')). run_follows r r') \<and>
     tbl_next (runs t) \<le> tbl_next (runs t')"

lemma run_follows_refl: "run_follows r r"
  by (simp add: run_follows_def)

lemma run_follows_code: "run_follows r r' \<Longrightarrow> qr_run_code r' = qr_run_code r"
  by (auto simp: run_follows_def queued_run.truncate_def)

lemma run_follows_trans:
  assumes "run_follows r r'" and "run_follows r' r''"
  shows "run_follows r r''"
proof -
  have "queued_run.truncate (r''\<lparr>qr_metadata := qr_metadata r\<rparr>) = queued_run.truncate r"
    using assms by (auto simp: run_follows_def queued_run.truncate_def)
  then show ?thesis
    using assms by (auto simp: run_follows_def finished_def) (metis run_status.exhaust)
qed

lemma runs_evolve_refl: "runs_evolve t t"
  using run_follows_refl by (auto simp: runs_evolve_def)

lemma runs_evolve_trans: "runs_evolve t t' \<Longrightarrow> runs_evolve t' t'' \<Longrightarrow> runs_evolve t t''"
  unfolding runs_evolve_def by (meson order_trans run_follows_trans)

lemma run_by_id_Some: "run_by_id i t = Some r \<Longrightarrow> r \<in> set (tbl_rows (runs t)) \<and> rn_run_id r = i"
  by (auto simp: run_by_id_def find_Some_iff)

lemma run_by_id_None: "run_by_id i t = None \<longleftrightarrow> (\<forall>r \<in> set (tbl_rows (runs t)). rn_run_id r \<noteq> i)"
  by (auto simp: run_by_id_def find_None_iff)

lemma run_by_code_Some: "run_by_code c t = Some r \<Longrightarrow> r \<in> set (tbl_rows (runs t)) \<and> qr_run_code r = c"
  by (auto simp: run_by_code_def find_Some_iff)

lemma find_by_key:
  assumes "distinct (map f xs)" and "x \<in> set xs"
  shows "find (\<lambda>y. f y = f x) xs = Some x"
  using assms by (induction xs) (auto simp: image_iff)

lemma run_lookups:
  assumes "run_inv t" and "r \<in> set (tbl_rows (runs t))"
  shows "run_by_id (rn_run_id r) t = Some r" and "run_by_code (qr_run_code r) t = Some r"
  using assms by (simp_all add: run_inv_def run_by_id_def run_by_code_def find_by_key)

lemma update_run_keeps:
  assumes inv: "run_inv t" and r: "run_by_id i t = Some r" and f: "run_follows r r'" and ok: "run_row_ok r'"
  shows "run_inv (update_run i r' t)" and "runs_evolve t (update_run i r' t)"
proof -
  let ?rows = "tbl_rows (runs t)" and ?up = "\<lambda>x. if rn_run_id x = i then r' else x"
  have r: "r \<in> set ?rows" "rn_run_id r = i" using run_by_id_Some [OF r] by simp_all
  have r': "rn_run_id r' = i" "qr_run_code r' = qr_run_code r"
    using f r(2) run_follows_code [OF f] by (simp_all add: run_follows_def)
  have same: "x = r" if "x \<in> set ?rows" "rn_run_id x = i" for x
    using inv that r by (auto simp: run_inv_def distinct_map dest: inj_onD)
  have ids: "map rn_run_id (map ?up ?rows) = map rn_run_id ?rows" using r'(1) by auto
  have "\<forall>x \<in> set ?rows. qr_run_code (?up x) = qr_run_code x" using same r'(2) by auto
  then have codes: "map qr_run_code (map ?up ?rows) = map qr_run_code ?rows" by simp
  have owner: "(\<exists>x \<in> set (map ?up ?rows). rn_run_id x = j) \<longleftrightarrow> (\<exists>x \<in> set ?rows. rn_run_id x = j)" for j
    using arg_cong [OF ids, of set] by (metis (no_types, lifting) image_iff image_set)
  have rows: "rn_run_id x < tbl_next (runs t) \<and> run_row_ok x" if "x \<in> set (map ?up ?rows)" for x
    using that inv ok r r'(1) by (auto simp: run_inv_def split: if_splits)
  have parts: "tbl_rows (runs (update_run i r' t)) = map ?up ?rows" "tbl_next (runs (update_run i r' t)) = tbl_next (runs t)"
    "run_series (update_run i r' t) = run_series t" "run_instruments (update_run i r' t) = run_instruments t"
    by (simp_all add: update_run_def)
  show "run_inv (update_run i r' t)"
    using inv rows unfolding run_inv_def parts ids codes owner by blast
  have "\<exists>y \<in> set (map ?up ?rows). run_follows x y" if "x \<in> set ?rows" for x
  proof (cases "rn_run_id x = i")
    case True
    then show ?thesis using that same f by auto
  next
    case False
    then show ?thesis using that run_follows_refl [of x] by force
  qed
  then show "runs_evolve t (update_run i r' t)"
    by (simp add: runs_evolve_def update_run_def)
qed

lemma transition_Inr:
  assumes "transition i expected status now md t = Inr t'"
  obtains r where "run_by_id i t = Some r" "rn_status r = expected"
    "t' = update_run i ((case md of None \<Rightarrow> id | Some j \<Rightarrow> qr_metadata_update (\<lambda>_. j))
       ((if status = RUN_RUNNING then rn_started_at_update (\<lambda>_. Some now) else rn_finished_at_update (\<lambda>_. Some now)) (r\<lparr>rn_status := status\<rparr>))) t"
    "run_times_ok ((if status = RUN_RUNNING then rn_started_at_update (\<lambda>_. Some now) else rn_finished_at_update (\<lambda>_. Some now)) r)"
  using assms
  by (auto simp: transition_def Let_def run_times_ok_def split: option.splits if_splits)

lemma mark_running_Inr:
  assumes "mark_run_running i now t = Inr t'"
  obtains r where "run_by_id i t = Some r" "rn_status r = RUN_QUEUED"
    "t' = update_run i (r\<lparr>rn_status := RUN_RUNNING, rn_started_at := Some now\<rparr>) t" "run_times_ok (r\<lparr>rn_started_at := Some now\<rparr>)"
  using assms unfolding mark_run_running_def by (rule transition_Inr) (use that in simp)

lemma mark_succeeded_Inr:
  assumes "mark_run_succeeded i now md t = Inr t'"
  obtains r where "run_by_id i t = Some r" "rn_status r = RUN_RUNNING"
    "t' = update_run i (r\<lparr>rn_status := RUN_SUCCEEDED, rn_finished_at := Some now, qr_metadata := md\<rparr>) t"
    "run_times_ok (r\<lparr>rn_finished_at := Some now\<rparr>)"
  using assms unfolding mark_run_succeeded_def by (rule transition_Inr) (use that in simp)

lemma mark_failed_Inr:
  assumes "mark_run_failed i now summary md t = Inr t'"
  obtains "t' = t" "\<forall>r. run_by_id i t = Some r \<longrightarrow> rn_status r \<noteq> RUN_RUNNING"
  | r where "run_by_id i t = Some r" "rn_status r = RUN_RUNNING"
    "t' = update_run i (r\<lparr>rn_status := RUN_FAILED, rn_finished_at := Some now, rn_error_summary := Some (take 512 summary), qr_metadata := md\<rparr>) t"
    "run_times_ok (r\<lparr>rn_finished_at := Some now\<rparr>)"
  using assms by (auto simp: mark_run_failed_def Let_def run_times_ok_def split: option.splits if_splits)

lemma create_queued_Inr:
  assumes "create_queued ctx q t = Inr (t', i)"
  obtains capital digest where "to_numeric (qr_initial_capital q) = Inr capital" "char_n 64 (qr_parameter_sha256 q) = Inr digest"
    "enforce_run_snapshot ctx q" "i = tbl_next (runs t)"
    "t' = t\<lparr>runs := (runs t)\<lparr>tbl_rows := tbl_rows (runs t) @ [stored_run q i capital digest], tbl_next := i + 1\<rparr>\<rparr>"
    "\<forall>r \<in> set (tbl_rows (runs t)). qr_run_code r \<noteq> qr_run_code q"
  using assms by (auto simp: create_queued_def rbind_Inr_iff add_row_def split: if_splits)

lemma stored_run_select [simp]:
  "rn_run_id (stored_run q i c d) = i" "rn_status (stored_run q i c d) = RUN_QUEUED" "rn_started_at (stored_run q i c d) = None"
  "rn_finished_at (stored_run q i c d) = None" "qr_run_code (stored_run q i c d) = qr_run_code q"
  "qr_metadata (stored_run q i c d) = qr_metadata q" "qr_data_snapshot_id (stored_run q i c d) = qr_data_snapshot_id q"
  "qr_knowledge_cutoff_ts (stored_run q i c d) = qr_knowledge_cutoff_ts q" "qr_availability_mode (stored_run q i c d) = qr_availability_mode q"
  by (simp_all add: stored_run_def queued_run.extend_def run_row.fields_def)

lemma create_queued_keeps:
  assumes "run_inv t" and "create_queued ctx q t = Inr (t', i)"
  shows "run_inv t'" and "runs_evolve t t'"
proof -
  obtain capital digest where t': "i = tbl_next (runs t)"
    "t' = t\<lparr>runs := (runs t)\<lparr>tbl_rows := tbl_rows (runs t) @ [stored_run q i capital digest], tbl_next := i + 1\<rparr>\<rparr>"
    and new: "\<forall>r \<in> set (tbl_rows (runs t)). qr_run_code r \<noteq> qr_run_code q"
    using create_queued_Inr [OF assms(2)] by metis
  have "run_row_ok (stored_run q i capital digest)" by (simp add: run_row_ok_def run_times_ok_def)
  then show "run_inv t'"
    using assms(1) new unfolding run_inv_def t' by fastforce
  show "runs_evolve t t'"
    using run_follows_refl by (auto simp: runs_evolve_def t')
qed

lemma run_by_id_owner: "run_by_id i t \<noteq> None \<Longrightarrow> \<exists>r \<in> set (tbl_rows (runs t)). rn_run_id r = i"
  by (auto simp: run_by_id_None)

lemma bind_instrument_keeps:
  assumes "run_inv t" and "bind_instrument ctx i iid t = Inr t'"
  shows "run_inv t'" and "runs t' = runs t"
proof -
  have t': "run_by_id i t \<noteq> None" "t' = t\<lparr>run_instruments := run_instruments t @ [\<lparr>ri_run_id = i, ri_instrument_id = iid\<rparr>]\<rparr>"
    using assms(2) by (auto simp: bind_instrument_def split: if_splits)
  then show "run_inv t'" "runs t' = runs t"
    using assms(1) run_by_id_owner [OF t'(1)] by (simp_all add: run_inv_def)
qed

lemma bind_series_keeps:
  assumes "run_inv t" and "bind_series ctx i b t = Inr t'"
  shows "run_inv t'" and "runs t' = runs t"
proof -
  let ?row = "\<lparr>rs_run_id = i, rs_bar_series_id = sb_bar_series_id b, rs_series_role = sb_role b, rs_is_primary = sb_is_primary b,
    rs_execution_lag_seconds = sb_lag_seconds b, rs_metadata = JObj [(u ''instrument_id'', JInt (sb_instrument_id b))]\<rparr>"
  have t': "run_by_id i t \<noteq> None" "t' = t\<lparr>run_series := run_series t @ [?row]\<rparr>"
    "\<forall>r \<in> set (run_series t). (rs_run_id r, rs_bar_series_id r, rs_series_role r) \<noteq> (i, sb_bar_series_id b, sb_role b)"
    using assms(2) by (auto simp: bind_series_def simp del: u_Cons split: if_splits)
  then show "run_inv t'" "runs t' = runs t"
    using assms(1) run_by_id_owner [OF t'(1)] by (auto simp: run_inv_def simp del: u_Cons)
qed

text \<open>What holds before a loop and is kept by each turn holds after it.\<close>

lemma fold_result_keeps:
  assumes "fold_result f xs s = Inr s'" and "P s" and "\<And>x s s'. x \<in> set xs \<Longrightarrow> f x s = Inr s' \<Longrightarrow> P s \<Longrightarrow> P s'"
  shows "P s'"
  using assms
proof (induction xs arbitrary: s)
  case (Cons x xs)
  then obtain s1 where "f x s = Inr s1" "fold_result f xs s1 = Inr s'" by (auto simp: rbind_Inr_iff)
  moreover have "P s1" by (rule Cons.prems(3) [OF _ \<open>f x s = Inr s1\<close> Cons.prems(2)]) simp
  ultimately show ?case using Cons.prems(3) by (intro Cons.IH) auto
qed simp

lemma insert_bindings_keeps:
  assumes inv: "run_inv t" and ins: "insert_bindings ctx i iids bs t = Inr t'"
  shows "run_inv t'" and "runs t' = runs t"
proof -
  obtain t1 where t1: "fold_result (bind_instrument ctx i) iids t = Inr t1" "fold_result (bind_series ctx i) bs t1 = Inr t'"
    using ins by (auto simp: insert_bindings_def rbind_Inr_iff)
  have "run_inv t1 \<and> runs t1 = runs t"
    by (rule fold_result_keeps [where P = "\<lambda>t1. run_inv t1 \<and> runs t1 = runs t", OF t1(1)])
      (simp_all add: inv, use bind_instrument_keeps in metis)
  then have "run_inv t' \<and> runs t' = runs t"
    by (intro fold_result_keeps [where P = "\<lambda>t'. run_inv t' \<and> runs t' = runs t", OF t1(2)])
      (simp_all, use bind_series_keeps in metis)
  then show "run_inv t'" and "runs t' = runs t" by simp_all
qed

lemma ensure_strategy_version_keeps:
  assumes "ensure_strategy_version p c t = Inr (t', i)"
  shows "runs t' = runs t" and "run_inv t \<Longrightarrow> run_inv t'"
proof -
  obtain t1 sid where t1: "ensure_strategy t = (t1, sid)" by fastforce
  have same: "runs t1 = runs t" "run_series t1 = run_series t" "run_instruments t1 = run_instruments t"
    using t1 by (auto simp: ensure_strategy_def add_row_def split: option.splits)
  have "t' = t1 \<or> (\<exists>v. t' = t1\<lparr>strategy_versions := v\<rparr>)"
    using assms by (auto simp: ensure_strategy_version_def t1 add_row_def rbind_Inr_iff split: option.splits if_splits)
  then show "runs t' = runs t" and "run_inv t \<Longrightarrow> run_inv t'"
    using same by (auto simp: run_inv_def)
qed

lemma run_updates_keep:
  assumes "run_inv t"
  shows "mark_run_running i now t = Inr t' \<Longrightarrow> run_inv t' \<and> runs_evolve t t'"
    and "mark_run_succeeded i now md t = Inr t' \<Longrightarrow> run_inv t' \<and> runs_evolve t t'"
    and "mark_run_failed i now summary md t = Inr t' \<Longrightarrow> run_inv t' \<and> runs_evolve t t'"
proof -
  have ok: "run_row_ok r" if "run_by_id i t = Some r" for r
    using assms run_by_id_Some [OF that] by (simp add: run_inv_def)
  show "run_inv t' \<and> runs_evolve t t'" if r: "mark_run_running i now t = Inr t'"
  proof (rule mark_running_Inr [OF r])
    fix r assume r: "run_by_id i t = Some r" "rn_status r = RUN_QUEUED"
      "t' = update_run i (r\<lparr>rn_status := RUN_RUNNING, rn_started_at := Some now\<rparr>) t" "run_times_ok (r\<lparr>rn_started_at := Some now\<rparr>)"
    show ?thesis unfolding r(3)
      by (intro conjI update_run_keeps [OF assms r(1)])
        (use ok [OF r(1)] r in \<open>simp_all add: run_follows_def finished_def queued_run.truncate_def run_row_ok_def run_times_ok_def\<close>)
  qed
  show "run_inv t' \<and> runs_evolve t t'" if r: "mark_run_succeeded i now md t = Inr t'"
  proof (rule mark_succeeded_Inr [OF r])
    fix r assume r: "run_by_id i t = Some r" "rn_status r = RUN_RUNNING"
      "t' = update_run i (r\<lparr>rn_status := RUN_SUCCEEDED, rn_finished_at := Some now, qr_metadata := md\<rparr>) t"
      "run_times_ok (r\<lparr>rn_finished_at := Some now\<rparr>)"
    show ?thesis unfolding r(3)
      by (intro conjI update_run_keeps [OF assms r(1)])
        (use ok [OF r(1)] r in \<open>simp_all add: run_follows_def finished_def queued_run.truncate_def run_row_ok_def run_times_ok_def\<close>)
  qed
  show "run_inv t' \<and> runs_evolve t t'" if r: "mark_run_failed i now summary md t = Inr t'"
  proof (rule mark_failed_Inr [OF r])
    assume "t' = t" then show ?thesis using assms runs_evolve_refl by simp
  next
    fix r assume r: "run_by_id i t = Some r" "rn_status r = RUN_RUNNING"
      "t' = update_run i (r\<lparr>rn_status := RUN_FAILED, rn_finished_at := Some now, rn_error_summary := Some (take 512 summary), qr_metadata := md\<rparr>) t"
      "run_times_ok (r\<lparr>rn_finished_at := Some now\<rparr>)"
    show ?thesis unfolding r(3)
      by (intro conjI update_run_keeps [OF assms r(1)])
        (use ok [OF r(1)] r in \<open>simp_all add: run_follows_def finished_def queued_run.truncate_def run_row_ok_def run_times_ok_def\<close>)
  qed
qed

end
