(* ===== verification/Run_Ledger.thy ===== *)
theory Run_Ledger
  imports Run_Store
begin

text \<open>
  The ledger of a completed run (\<^verbatim>\<open>src/bisfin/repositories/backtest_ledger_repository.py\<close> with the tables of
  \<^verbatim>\<open>db/backtest_tables.py\<close>): decisions with the exact bars they saw, signals, orders with their events, fills,
  round trips, cash and position entries, valuations and the summary, each insert with the constraints and the
  point-in-time triggers of its table. Everything is written in the journal's order within one transaction.
  Columns of type DOUBLE PRECISION keep the decimal they are given.
\<close>

subsection \<open>Rows\<close>

record bar_ref =
  bf_bar_open_ts :: timestamp
  bf_bar_series_id :: int
  bf_revision_no :: int
  bf_available_at :: timestamp
  bf_effective_at :: timestamp

datatype input_role = INPUT_SIGNAL | INPUT_WARMUP
datatype signal_type = ENTRY | EXIT
datatype signal_direction = LONG | FLAT
datatype order_status = ORDER_FILLED | ORDER_REJECTED
datatype order_event_type = EV_SUBMITTED | EV_ACCEPTED | EV_FILLED | EV_REJECTED
datatype order_status_after = AFTER_ACCEPTED | AFTER_FILLED | AFTER_REJECTED
datatype leg_type = LEG_ENTRY | LEG_EXIT
datatype cash_entry_type = INITIAL_CAPITAL | TRADE_NOTIONAL | COMMISSION | TAX

record decision_row =
  dc_id :: int
  dc_run_id :: int
  dc_seq :: int
  dc_ts :: timestamp
  dc_state_sha256 :: pystr
  dc_input_sha256 :: pystr
  dc_metadata :: json

record decision_input_row =
  di_context_id :: int
  di_input_no :: nat
  di_role :: input_role
  di_bar :: bar_ref

record signal_row =
  sl_id :: int
  sl_run_id :: int
  sl_instrument_id :: int
  sl_ts :: timestamp
  sl_type :: signal_type
  sl_direction :: signal_direction
  sl_target_quantity :: decimal
  sl_reason_code :: string
  sl_payload :: json
  sl_context_id :: int

record order_row =
  od_id :: int
  od_run_id :: int
  od_signal_id :: int
  od_instrument_id :: int
  od_key :: pystr
  od_submitted_at :: timestamp
  od_side :: order_side
  od_quantity :: decimal
  od_status :: order_status
  od_reject_reason :: "string option"
  od_metadata :: json

record fill_row =
  fl_id :: int
  fl_run_id :: int
  fl_order_id :: int
  fl_instrument_id :: int
  fl_ts :: timestamp
  fl_price :: decimal
  fl_quantity :: decimal
  fl_commission :: decimal
  fl_slippage :: decimal
  fl_tax :: decimal
  fl_currency :: pystr
  fl_execution_reference :: json
  fl_execution_key :: pystr

record fill_reference_row =
  fr_fill_id :: int
  fr_run_id :: int
  fr_instrument_id :: int
  fr_bar :: bar_ref

record trade_row =
  tr_id :: int
  tr_run_id :: int
  tr_instrument_id :: int
  tr_entry_signal_id :: int
  tr_exit_signal_id :: "int option"
  tr_entry_ts :: timestamp
  tr_exit_ts :: "timestamp option"
  tr_quantity :: decimal
  tr_entry_price :: decimal
  tr_exit_price :: "decimal option"
  tr_gross_pnl :: "decimal option"
  tr_commission :: decimal
  tr_slippage :: decimal
  tr_tax :: decimal
  tr_net_pnl :: "decimal option"
  tr_return_fraction :: "decimal option"
  tr_closed :: bool

record allocation_row =
  al_trade_id :: int
  al_fill_id :: int
  al_leg :: leg_type
  al_quantity :: decimal

record order_event_row =
  oe_id :: int
  oe_run_id :: int
  oe_order_id :: int
  oe_instrument_id :: int
  oe_seq :: int
  oe_key :: pystr
  oe_ts :: timestamp
  oe_type :: order_event_type
  oe_status_after :: order_status_after
  oe_source_fill_id :: "int option"
  oe_filled_delta :: "decimal option"
  oe_remaining :: decimal
  oe_price :: "decimal option"
  oe_reason_code :: "string option"

record cash_row =
  ca_id :: int
  ca_run_id :: int
  ca_ts :: timestamp
  ca_currency :: pystr
  ca_type :: cash_entry_type
  ca_amount :: decimal
  ca_fill_id :: "int option"
  ca_key :: pystr

record position_row =
  po_id :: int
  po_run_id :: int
  po_instrument_id :: int
  po_ts :: timestamp
  po_delta :: decimal
  po_unit_cost :: decimal
  po_fill_id :: int
  po_key :: pystr

record position_snapshot_row =
  ps_run_id :: int
  ps_instrument_id :: int
  ps_ts :: timestamp
  ps_quantity :: decimal
  ps_average_cost :: decimal
  ps_market_price :: decimal
  ps_market_value :: decimal
  ps_realized_pnl :: decimal
  ps_unrealized_pnl :: decimal

record valuation_reference_row =
  pv_run_id :: int
  pv_instrument_id :: int
  pv_ts :: timestamp
  pv_bar :: bar_ref

record equity_row =
  eq_run_id :: int
  eq_ts :: timestamp
  eq_cash :: decimal
  eq_equity :: decimal
  eq_gross_exposure :: decimal
  eq_net_exposure :: decimal

text \<open>The summary as the service computes it, and its row.\<close>

record run_summary =
  sm_total_return :: decimal
  sm_max_drawdown :: decimal
  sm_trade_count :: int
  sm_winning_trade_count :: int
  sm_losing_trade_count :: int
  sm_win_rate :: "decimal option"
  sm_gross_pnl_base :: decimal
  sm_net_pnl_base :: decimal
  sm_total_cost_base :: decimal
  sm_realized_pnl_base :: decimal

record summary_row =
  su_run_id :: int
  su_total_return :: decimal
  su_max_drawdown :: decimal
  su_trade_count :: int
  su_winning_trade_count :: int
  su_losing_trade_count :: int
  su_win_rate :: "decimal option"
  su_gross_pnl :: decimal
  su_net_pnl :: decimal
  su_total_cost :: decimal

record ledger =
  ld_decisions :: "decision_row table"
  ld_inputs :: "decision_input_row list"
  ld_signals :: "signal_row table"
  ld_orders :: "order_row table"
  ld_fills :: "fill_row table"
  ld_fill_references :: "fill_reference_row list"
  ld_trades :: "trade_row table"
  ld_allocations :: "allocation_row list"
  ld_order_events :: "order_event_row table"
  ld_cash :: "cash_row table"
  ld_positions :: "position_row table"
  ld_snapshots :: "position_snapshot_row list"
  ld_valuation_references :: "valuation_reference_row list"
  ld_equity :: "equity_row list"
  ld_summaries :: "summary_row list"

definition empty_ledger :: ledger where
  "empty_ledger = \<lparr>ld_decisions = empty_table, ld_inputs = [], ld_signals = empty_table, ld_orders = empty_table,
     ld_fills = empty_table, ld_fill_references = [], ld_trades = empty_table, ld_allocations = [],
     ld_order_events = empty_table, ld_cash = empty_table, ld_positions = empty_table, ld_snapshots = [],
     ld_valuation_references = [], ld_equity = [], ld_summaries = []\<rparr>"

text \<open>The run the ledger is written for, the series bound to it, and what the constraints look at elsewhere.\<close>

record ledger_context =
  lx_run :: run_row
  lx_series :: "run_series_row list"
  lx_context :: run_context

abbreviation lx_run_id :: "ledger_context \<Rightarrow> int" where
  "lx_run_id lx \<equiv> rn_run_id (lx_run lx)"

subsection \<open>Bars that a run refers to\<close>

definition bar_ref_of :: "decision_bar \<Rightarrow> bar_ref" where
  "bar_ref_of b = \<lparr>bf_bar_open_ts = bar_open_ts b, bf_bar_series_id = bar_series_id b, bf_revision_no = revision_no b,
     bf_available_at = available_at b, bf_effective_at = effective_available_at b\<rparr>"

definition bar_payload :: "decision_bar \<Rightarrow> pyval" where
  "bar_payload b = PyDict
     [(u ''bar_open_ts'', PyDateTime (bar_open_ts b)), (u ''bar_series_id'', PyInt (bar_series_id b)),
      (u ''revision_no'', PyInt (revision_no b)), (u ''available_at'', PyDateTime (available_at b)),
      (u ''effective_available_at'', PyDateTime (effective_available_at b))]"

definition referenced_bar :: "run_context \<Rightarrow> bar_ref \<Rightarrow> bar_revision option" where
  "referenced_bar ctx b =
     find (\<lambda>r. r_bar_open_ts r = bf_bar_open_ts b \<and> r_bar_series_id r = bf_bar_series_id b \<and>
               r_revision_no r = bf_revision_no b \<and> r_available_at r = bf_available_at b) (revisions (rc_bars ctx))"

definition series_instrument :: "run_context \<Rightarrow> int \<Rightarrow> int option" where
  "series_instrument ctx sid =
     (case find (\<lambda>s. series_id s = sid) (series_rows (rc_bars ctx)) of None \<Rightarrow> None | Some s \<Rightarrow> Some (series_instrument_id s))"

definition series_bound :: "ledger_context \<Rightarrow> (series_role \<Rightarrow> bool) \<Rightarrow> int \<Rightarrow> bool" where
  "series_bound lx role sid \<longleftrightarrow>
     (\<exists>s \<in> set (lx_series lx). rs_run_id s = lx_run_id lx \<and> rs_bar_series_id s = sid \<and> role (rs_series_role s))"

text \<open>
  The three point-in-time triggers: the exact revision exists, its series is bound to the run in an allowed role, it
  was available by \<open>limit\<close> and by the cutoff of the run; the stored availability is the one of the revision.
  \<open>whose\<close> is the instrument the series must belong to, where the trigger asks.
\<close>

definition point_in_time ::
  "ledger_context \<Rightarrow> (series_role \<Rightarrow> bool) \<Rightarrow> int option \<Rightarrow> timestamp \<Rightarrow> bar_ref \<Rightarrow> (app_error, bar_ref) result" where
  "point_in_time lx role whose limit b =
     (case referenced_bar (lx_context lx) b of
        None \<Rightarrow> Inl raise_exception
      | Some r \<Rightarrow>
          let effective = effective_at (qr_availability_mode (lx_run lx)) r in
          if \<not> series_bound lx role (bf_bar_series_id b) then Inl raise_exception
          else if whose \<noteq> None \<and> series_instrument (lx_context lx) (bf_bar_series_id b) \<noteq> whose then Inl raise_exception
          else if limit < effective \<or> qr_knowledge_cutoff_ts (lx_run lx) < effective then Inl raise_exception
          else Inr (b\<lparr>bf_effective_at := effective\<rparr>))"

subsection \<open>Decisions and signals\<close>

definition insert_input ::
  "ledger_context \<Rightarrow> int \<Rightarrow> timestamp \<Rightarrow> nat \<Rightarrow> nat \<times> decision_bar \<Rightarrow> ledger \<Rightarrow> (run_error, ledger) result" where
  "insert_input lx cid ts last_input nb l =
     (case nb of (n, b) \<Rightarrow>
        rbind (lift_app (point_in_time lx (\<lambda>_. True) None ts (bar_ref_of b))) (\<lambda>ref.
          if \<exists>r \<in> set (ld_inputs l). di_context_id r = cid \<and>
               (di_input_no r = n \<or>
                bf_bar_series_id (di_bar r) = bf_bar_series_id ref \<and> bf_bar_open_ts (di_bar r) = bf_bar_open_ts ref \<and>
                bf_revision_no (di_bar r) = bf_revision_no ref)
          then Inl (App unique_violation)
          else Inr (l\<lparr>ld_inputs := ld_inputs l @
            [\<lparr>di_context_id = cid, di_input_no = n, di_role = (if n = last_input then INPUT_SIGNAL else INPUT_WARMUP),
              di_bar = ref\<rparr>]\<rparr>)))"

definition insert_decision ::
  "ledger_context \<Rightarrow> simulated_decision \<Rightarrow> ledger \<times> (int, int) dict \<Rightarrow> (run_error, ledger \<times> (int, int) dict) result" where
  "insert_decision lx d s =
     (case s of (l, ids) \<Rightarrow>
        rbind (json_text (PyDict [(u ''trigger_bar'', bar_payload (decision_trigger_bar d))])) (\<lambda>md.
        rbind (lift_app (char_n 64 (state_sha256 d))) (\<lambda>state.
        rbind (lift_app (char_n 64 (input_manifest_sha256 d))) (\<lambda>manifest.
          if sequence d \<le> 0 then Inl (App check_violation)
          else if \<exists>r \<in> set (tbl_rows (ld_decisions l)). dc_run_id r = lx_run_id lx \<and> dc_seq r = sequence d
          then Inl (App unique_violation)
          else
            (case add_row (\<lambda>i. \<lparr>dc_id = i, dc_run_id = lx_run_id lx, dc_seq = sequence d, dc_ts = decision_ts d,
                     dc_state_sha256 = state, dc_input_sha256 = manifest, dc_metadata = md\<rparr>) (ld_decisions l) of
               (t, cid) \<Rightarrow>
                 rbind (fold_result (insert_input lx cid (decision_ts d) (length (inputs d) - 1))
                          (List.enumerate 0 (inputs d)) (l\<lparr>ld_decisions := t\<rparr>)) (\<lambda>l'.
                   Inr (l', dict_set ids (sequence d) cid)))))))"

definition insert_signal ::
  "ledger_context \<Rightarrow> (int, int) dict \<Rightarrow> simulated_signal \<Rightarrow> ledger \<times> (int, int) dict \<Rightarrow>
     (run_error, ledger \<times> (int, int) dict) result" where
  "insert_signal lx context_ids sig s =
     (case s of (l, ids) \<Rightarrow>
        let entry = dec_lt dec_zero (target_quantity sig) in
        rbind (json_text (PyDict [(u ''trigger_bar'', bar_payload (signal_trigger_bar sig))])) (\<lambda>payload.
        rbind (lift_bt (lookup_or_raise context_ids (decision_sequence sig))) (\<lambda>cid.
        rbind (lift_app (to_numeric (target_quantity sig))) (\<lambda>target.
          if \<not> instrument_exists (lx_context lx) (signal_instrument_id sig) then Inl (App foreign_key_violation)
          else
            (case add_row (\<lambda>i. \<lparr>sl_id = i, sl_run_id = lx_run_id lx, sl_instrument_id = signal_instrument_id sig,
                     sl_ts = signal_ts sig, sl_type = (if entry then ENTRY else EXIT),
                     sl_direction = (if entry then LONG else FLAT), sl_target_quantity = target,
                     sl_reason_code = reason_code sig, sl_payload = payload, sl_context_id = cid\<rparr>) (ld_signals l) of
               (t, i) \<Rightarrow> Inr (l\<lparr>ld_signals := t\<rparr>, dict_set ids (decision_sequence sig) i))))))"

subsection \<open>Orders and fills\<close>

definition insert_order ::
  "ledger_context \<Rightarrow> pystr list \<Rightarrow> (int, int) dict \<Rightarrow> simulated_order \<Rightarrow> ledger \<times> (pystr, int) dict \<Rightarrow>
     (run_error, ledger \<times> (pystr, int) dict) result" where
  "insert_order lx filled_keys signal_ids ord s =
     (case s of (l, ids) \<Rightarrow>
        let filled = semantic_key ord \<in> set filled_keys; sig = order_signal ord in
        rbind (lift_bt (lookup_or_raise signal_ids (decision_sequence sig))) (\<lambda>sid.
        rbind (json_text (PyDict [(u ''target_quantity'', PyDec (target_quantity sig))])) (\<lambda>md.
        rbind (lift_app (to_numeric (order_quantity ord))) (\<lambda>qty.
          if val qty \<le> 0 then Inl (App check_violation)
          else if \<exists>r \<in> set (tbl_rows (ld_orders l)). od_run_id r = lx_run_id lx \<and> od_key r = semantic_key ord
          then Inl (App unique_violation)
          else if \<forall>r \<in> set (tbl_rows (ld_signals l)). sl_id r \<noteq> sid \<or> sl_run_id r \<noteq> lx_run_id lx \<or> sl_instrument_id r \<noteq> signal_instrument_id sig
          then Inl (App foreign_key_violation)
          else
            (case add_row (\<lambda>i. \<lparr>od_id = i, od_run_id = lx_run_id lx, od_signal_id = sid, od_instrument_id = signal_instrument_id sig,
                     od_key = semantic_key ord, od_submitted_at = submitted_at ord, od_side = order_side ord, od_quantity = qty,
                     od_status = (if filled then ORDER_FILLED else ORDER_REJECTED),
                     od_reject_reason = (case rejected_reason ord of Some m \<Rightarrow> Some m
                       | None \<Rightarrow> if filled then None else Some ''INSUFFICIENT_CASH''),
                     od_metadata = md\<rparr>) (ld_orders l) of
               (t, i) \<Rightarrow> Inr (l\<lparr>ld_orders := t\<rparr>, dict_set ids (semantic_key ord) i))))))"

definition insert_fill_reference ::
  "ledger_context \<Rightarrow> int \<Rightarrow> simulated_fill \<Rightarrow> ledger \<Rightarrow> (run_error, ledger) result" where
  "insert_fill_reference lx fid f l =
     (let iid = signal_instrument_id (order_signal (fill_order f)) in
      rbind (lift_app (point_in_time lx (\<lambda>r. r = EXECUTION) (Some iid) (fill_ts f) (bar_ref_of (reference_bar f)))) (\<lambda>ref.
        Inr (l\<lparr>ld_fill_references := ld_fill_references l @
          [\<lparr>fr_fill_id = fid, fr_run_id = lx_run_id lx, fr_instrument_id = iid, fr_bar = ref\<rparr>]\<rparr>)))"

definition insert_fill ::
  "ledger_context \<Rightarrow> pystr \<Rightarrow> (pystr, int) dict \<Rightarrow> simulated_fill \<Rightarrow> ledger \<times> (pystr, int) dict \<Rightarrow>
     (run_error, ledger \<times> (pystr, int) dict) result" where
  "insert_fill lx currency order_ids f s =
     (case s of (l, ids) \<Rightarrow>
        let key = semantic_key (fill_order f); e = economics f; iid = signal_instrument_id (order_signal (fill_order f)) in
        rbind (lift_bt (lookup_or_raise order_ids key)) (\<lambda>oid.
        rbind (json_text (bar_payload (reference_bar f))) (\<lambda>reference.
        rbind (lift_app (to_numeric (fill_execution_price e))) (\<lambda>price.
        rbind (lift_app (to_numeric (fill_quantity e))) (\<lambda>qty.
        rbind (lift_app (to_numeric (commission_amount e))) (\<lambda>commission.
        rbind (lift_app (to_numeric (slippage_amount e))) (\<lambda>slippage.
        rbind (lift_app (to_numeric (tax_amount e))) (\<lambda>tax.
          if val qty \<le> 0 \<or> val commission < 0 \<or> val tax < 0 then Inl (App check_violation)
          else if \<exists>r \<in> set (tbl_rows (ld_fills l)). fl_run_id r = lx_run_id lx \<and> fl_execution_key r = key
          then Inl (App unique_violation)
          else if (\<forall>r \<in> set (tbl_rows (ld_orders l)). od_id r \<noteq> oid \<or> od_run_id r \<noteq> lx_run_id lx \<or> od_instrument_id r \<noteq> iid) \<or>
                  \<not> currency_exists (lx_context lx) currency
          then Inl (App foreign_key_violation)
          else
            (case add_row (\<lambda>i. \<lparr>fl_id = i, fl_run_id = lx_run_id lx, fl_order_id = oid, fl_instrument_id = iid, fl_ts = fill_ts f,
                     fl_price = price, fl_quantity = qty, fl_commission = commission, fl_slippage = slippage, fl_tax = tax,
                     fl_currency = currency, fl_execution_reference = reference, fl_execution_key = key\<rparr>) (ld_fills l) of
               (t, fid) \<Rightarrow>
                 rbind (insert_fill_reference lx fid f (l\<lparr>ld_fills := t\<rparr>)) (\<lambda>l'. Inr (l', dict_set ids key fid)))))))))))"

subsection \<open>Order events\<close>

definition order_events :: "bool \<Rightarrow> (int \<times> order_event_type \<times> order_status_after) list" where
  "order_events filled =
     [(1, EV_SUBMITTED, AFTER_ACCEPTED), (2, EV_ACCEPTED, AFTER_ACCEPTED),
      (if filled then (3, EV_FILLED, AFTER_FILLED) else (3, EV_REJECTED, AFTER_REJECTED))]"

text \<open>The price of a fill event is the close of the execution bar, not the price of the fill.\<close>

definition insert_order_event ::
  "ledger_context \<Rightarrow> simulated_order \<Rightarrow> int \<Rightarrow> int option \<Rightarrow> int \<times> order_event_type \<times> order_status_after \<Rightarrow> ledger \<Rightarrow>
     (run_error, ledger) result" where
  "insert_order_event lx ord oid fid ev l =
     (case ev of (no, typ, after) \<Rightarrow>
        let filled = (typ = EV_FILLED); key = semantic_key ord @ [124] @ str_int no; source = (if filled then fid else None) in
        rbind (lift_app (to_numeric_option (if filled then Some (order_quantity ord) else None))) (\<lambda>delta.
        rbind (lift_app (to_numeric (if filled then dec_zero else order_quantity ord))) (\<lambda>remaining.
        rbind (lift_app (to_numeric_option (if filled then map_option close_price (execution_bar ord) else None))) (\<lambda>price.
          if (case delta of None \<Rightarrow> False | Some d \<Rightarrow> val d < 0) \<or> val remaining < 0 \<or> filled \<and> source = None
          then Inl (App check_violation)
          else if (\<exists>r \<in> set (tbl_rows (ld_order_events l)). oe_order_id r = oid \<and> oe_seq r = no \<or>
                     oe_run_id r = lx_run_id lx \<and> oe_key r = key \<or> source \<noteq> None \<and> oe_source_fill_id r = source)
          then Inl (App unique_violation)
          else
            (case add_row (\<lambda>i. \<lparr>oe_id = i, oe_run_id = lx_run_id lx, oe_order_id = oid,
                     oe_instrument_id = signal_instrument_id (order_signal ord), oe_seq = no, oe_key = key,
                     oe_ts = (case execution_bar ord of Some b \<Rightarrow> if no = 3 then effective_available_at b else submitted_at ord
                       | None \<Rightarrow> submitted_at ord),
                     oe_type = typ, oe_status_after = after, oe_source_fill_id = source, oe_filled_delta = delta,
                     oe_remaining = remaining, oe_price = price,
                     oe_reason_code = (if typ = EV_REJECTED then rejected_reason ord else None)\<rparr>) (ld_order_events l) of
               (t, _) \<Rightarrow> Inr (l\<lparr>ld_order_events := t\<rparr>))))))"

definition insert_order_events ::
  "ledger_context \<Rightarrow> (pystr, int) dict \<Rightarrow> (pystr, int) dict \<Rightarrow> simulated_order \<Rightarrow> ledger \<Rightarrow> (run_error, ledger) result" where
  "insert_order_events lx order_ids fill_ids ord l =
     rbind (lift_bt (lookup_or_raise order_ids (semantic_key ord))) (\<lambda>oid.
       let fid = dict_get fill_ids (semantic_key ord) in
       fold_result (insert_order_event lx ord oid fid) (order_events (fid \<noteq> None)) l)"

subsection \<open>Round trips\<close>

text \<open>PostgreSQL adds numbers exactly; the sum is rounded when it is stored.\<close>

definition numeric_plus :: "decimal \<Rightarrow> decimal \<Rightarrow> decimal" where
  "numeric_plus x y =
     (let m = min (dexp x) (dexp y); z = scaled m x + scaled m y in Dec (z < 0) (nat \<bar>z\<bar>) m)"

definition fill_costs :: "simulated_fill \<Rightarrow> decimal" where
  "fill_costs f = dec_add (dec_add (commission_amount (economics f)) (slippage_amount (economics f))) (tax_amount (economics f))"

definition insert_allocation :: "int \<Rightarrow> int \<Rightarrow> leg_type \<Rightarrow> decimal \<Rightarrow> ledger \<Rightarrow> (run_error, ledger) result" where
  "insert_allocation tid fid leg qty l =
     rbind (lift_app (to_numeric qty)) (\<lambda>q.
       if val q \<le> 0 then Inl (App check_violation)
       else if \<exists>r \<in> set (ld_allocations l). al_trade_id r = tid \<and> al_fill_id r = fid \<and> al_leg r = leg then Inl (App unique_violation)
       else Inr (l\<lparr>ld_allocations := ld_allocations l @
         [\<lparr>al_trade_id = tid, al_fill_id = fid, al_leg = leg, al_quantity = q\<rparr>]\<rparr>))"

type_synonym open_trades = "(int, int \<times> simulated_fill) dict"

definition open_round_trip ::
  "ledger_context \<Rightarrow> int \<Rightarrow> int \<Rightarrow> simulated_fill \<Rightarrow> ledger \<times> open_trades \<Rightarrow> (run_error, ledger \<times> open_trades) result" where
  "open_round_trip lx fid sid f s =
     (case s of (l, trades) \<Rightarrow>
        let e = economics f; iid = signal_instrument_id (order_signal (fill_order f)) in
        rbind (lift_app (to_numeric (fill_quantity e))) (\<lambda>qty.
        rbind (lift_app (to_numeric (fill_execution_price e))) (\<lambda>price.
        rbind (lift_app (to_numeric (commission_amount e))) (\<lambda>commission.
        rbind (lift_app (to_numeric (slippage_amount e))) (\<lambda>slippage.
        rbind (lift_app (to_numeric (tax_amount e))) (\<lambda>tax.
          if val qty \<le> 0 then Inl (App check_violation)
          else
            (case add_row (\<lambda>i. \<lparr>tr_id = i, tr_run_id = lx_run_id lx, tr_instrument_id = iid, tr_entry_signal_id = sid,
                     tr_exit_signal_id = None, tr_entry_ts = fill_ts f, tr_exit_ts = None, tr_quantity = qty, tr_entry_price = price,
                     tr_exit_price = None, tr_gross_pnl = None, tr_commission = commission, tr_slippage = slippage, tr_tax = tax,
                     tr_net_pnl = None, tr_return_fraction = None, tr_closed = False\<rparr>) (ld_trades l) of
               (t, tid) \<Rightarrow>
                 rbind (insert_allocation tid fid LEG_ENTRY (fill_quantity e) (l\<lparr>ld_trades := t\<rparr>)) (\<lambda>l'.
                   Inr (l', dict_set trades iid (tid, f))))))))))"

text \<open>The result of a round trip before and after costs.\<close>

definition gross_pnl :: "simulated_fill \<Rightarrow> simulated_fill \<Rightarrow> decimal" where
  "gross_pnl entry f =
     dec_mul (dec_sub (fill_execution_price (economics f)) (fill_execution_price (economics entry))) (fill_quantity (economics f))"

definition net_pnl :: "simulated_fill \<Rightarrow> simulated_fill \<Rightarrow> decimal" where
  "net_pnl entry f = dec_sub (dec_sub (gross_pnl entry f) (fill_costs entry)) (fill_costs f)"

definition update_trade :: "int \<Rightarrow> (trade_row \<Rightarrow> trade_row) \<Rightarrow> ledger \<Rightarrow> ledger" where
  "update_trade tid g l =
     l\<lparr>ld_trades := (ld_trades l)\<lparr>tbl_rows := map (\<lambda>r. if tr_id r = tid \<and> \<not> tr_closed r then g r else r) (tbl_rows (ld_trades l))\<rparr>\<rparr>"

definition close_round_trip ::
  "ledger_context \<Rightarrow> int \<Rightarrow> int \<Rightarrow> simulated_fill \<Rightarrow> ledger \<times> open_trades \<Rightarrow> (run_error, ledger \<times> open_trades) result" where
  "close_round_trip lx fid sid f s =
     (case s of (l, trades) \<Rightarrow>
        let e = economics f; iid = signal_instrument_id (order_signal (fill_order f)) in
        (case dict_get trades iid of
           None \<Rightarrow> Inl (Bt (ValueError ''Reference long-only sell has no open round-trip trade.''))
         | Some (tid, entry) \<Rightarrow>
             rbind (lift_bt (div_or_raise (net_pnl entry f)
               (dec_mul (fill_execution_price (economics entry)) (fill_quantity (economics entry))))) (\<lambda>return_fraction.
             rbind (lift_app (to_numeric (fill_execution_price e))) (\<lambda>price.
             rbind (lift_app (to_numeric (gross_pnl entry f))) (\<lambda>gross.
             rbind (lift_app (to_numeric (net_pnl entry f))) (\<lambda>net.
               case find (\<lambda>r. tr_id r = tid \<and> \<not> tr_closed r) (tbl_rows (ld_trades l)) of
                 None \<Rightarrow>
                   rbind (insert_allocation tid fid LEG_EXIT (fill_quantity e) l) (\<lambda>l'. Inr (l', dict_pop trades iid))
               | Some row \<Rightarrow>
                   rbind (lift_app (to_numeric (numeric_plus (tr_commission row) (commission_amount e)))) (\<lambda>commission.
                   rbind (lift_app (to_numeric (numeric_plus (tr_slippage row) (slippage_amount e)))) (\<lambda>slippage.
                   rbind (lift_app (to_numeric (numeric_plus (tr_tax row) (tax_amount e)))) (\<lambda>tax.
                     if fill_ts f < tr_entry_ts row then Inl (App check_violation)
                     else
                       rbind (insert_allocation tid fid LEG_EXIT (fill_quantity e)
                         (update_trade tid (\<lambda>r. r\<lparr>tr_exit_signal_id := Some sid, tr_exit_ts := Some (fill_ts f),
                            tr_exit_price := Some price, tr_gross_pnl := Some gross, tr_commission := commission,
                            tr_slippage := slippage, tr_tax := tax, tr_net_pnl := Some net,
                            tr_return_fraction := Some return_fraction, tr_closed := True\<rparr>) l)) (\<lambda>l'.
                         Inr (l', dict_pop trades iid)))))))))))"

definition insert_round_trip ::
  "ledger_context \<Rightarrow> (pystr, int) dict \<Rightarrow> (int, int) dict \<Rightarrow> simulated_fill \<Rightarrow> ledger \<times> open_trades \<Rightarrow>
     (run_error, ledger \<times> open_trades) result" where
  "insert_round_trip lx fill_ids signal_ids f s =
     rbind (lift_bt (lookup_or_raise fill_ids (semantic_key (fill_order f)))) (\<lambda>fid.
       if fill_side (economics f) = BUY then
         rbind (lift_bt (lookup_or_raise signal_ids (decision_sequence (order_signal (fill_order f))))) (\<lambda>sid.
           open_round_trip lx fid sid f s)
       else if dict_get (snd s) (signal_instrument_id (order_signal (fill_order f))) = None
       then Inl (Bt (ValueError ''Reference long-only sell has no open round-trip trade.''))
       else
         rbind (lift_bt (lookup_or_raise signal_ids (decision_sequence (order_signal (fill_order f))))) (\<lambda>sid.
           close_round_trip lx fid sid f s))"

subsection \<open>Cash and positions\<close>

definition insert_cash ::
  "ledger_context \<Rightarrow> timestamp \<Rightarrow> pystr \<Rightarrow> cash_entry_type \<Rightarrow> decimal \<Rightarrow> pystr \<Rightarrow> int option \<Rightarrow> ledger \<Rightarrow>
     (run_error, ledger) result" where
  "insert_cash lx ts currency typ amt key fid l =
     rbind (lift_app (to_numeric amt)) (\<lambda>amount.
       if 12 < length currency then Inl (App data_exception)
       else if \<exists>r \<in> set (tbl_rows (ld_cash l)). ca_run_id r = lx_run_id lx \<and> ca_key r = key then Inl (App unique_violation)
       else if \<not> currency_exists (lx_context lx) currency then Inl (App foreign_key_violation)
       else
         (case add_row (\<lambda>i. \<lparr>ca_id = i, ca_run_id = lx_run_id lx, ca_ts = ts, ca_currency = currency, ca_type = typ,
                  ca_amount = amount, ca_fill_id = fid, ca_key = key\<rparr>) (ld_cash l) of
            (t, _) \<Rightarrow> Inr (l\<lparr>ld_cash := t\<rparr>)))"

text \<open>The entries of one fill: type, amount and suffix of the key. A tax of zero has no entry.\<close>

definition fill_cash_entries :: "simulated_fill \<Rightarrow> (cash_entry_type \<times> decimal \<times> pystr) list" where
  "fill_cash_entries f =
     (let e = economics f; key = semantic_key (fill_order f) in
      [(TRADE_NOTIONAL, dec_mul (if fill_side e = BUY then Dec True 1 0 else dec_one) (notional e), key @ u ''|notional''),
       (COMMISSION, dec_minus (commission_amount e), key @ u ''|commission'')] @
      (if dec_is_zero (tax_amount e) then [] else [(TAX, dec_minus (tax_amount e), key @ u ''|tax'')]))"

definition insert_fill_cash ::
  "ledger_context \<Rightarrow> pystr \<Rightarrow> simulated_fill \<Rightarrow> int \<Rightarrow> cash_entry_type \<times> decimal \<times> pystr \<Rightarrow> ledger \<Rightarrow> (run_error, ledger) result" where
  "insert_fill_cash lx currency f fid entry l =
     (case entry of (typ, amt, key) \<Rightarrow> insert_cash lx (fill_ts f) currency typ amt key (Some fid) l)"

definition insert_position :: "ledger_context \<Rightarrow> simulated_fill \<Rightarrow> int \<Rightarrow> ledger \<Rightarrow> (run_error, ledger) result" where
  "insert_position lx f fid l =
     (let e = economics f; key = semantic_key (fill_order f) @ u ''|position'' in
      rbind (lift_app (to_numeric (if fill_side e = BUY then fill_quantity e else dec_minus (fill_quantity e)))) (\<lambda>delta.
      rbind (lift_app (to_numeric (fill_execution_price e))) (\<lambda>unit_cost.
        if val delta = 0 then Inl (App check_violation)
        else if \<exists>r \<in> set (tbl_rows (ld_positions l)). po_run_id r = lx_run_id lx \<and> po_key r = key then Inl (App unique_violation)
        else
          (case add_row (\<lambda>i. \<lparr>po_id = i, po_run_id = lx_run_id lx, po_instrument_id = signal_instrument_id (order_signal (fill_order f)),
                   po_ts = fill_ts f, po_delta = delta, po_unit_cost = unit_cost, po_fill_id = fid, po_key = key\<rparr>) (ld_positions l) of
             (t, _) \<Rightarrow> Inr (l\<lparr>ld_positions := t\<rparr>)))))"

definition insert_cash_and_position ::
  "ledger_context \<Rightarrow> (pystr, int) dict \<Rightarrow> pystr \<Rightarrow> simulated_fill \<Rightarrow> ledger \<Rightarrow> (run_error, ledger) result" where
  "insert_cash_and_position lx fill_ids currency f l =
     rbind (lift_bt (lookup_or_raise fill_ids (semantic_key (fill_order f)))) (\<lambda>fid.
     rbind (fold_result (insert_fill_cash lx currency f fid) (fill_cash_entries f) l) (\<lambda>l.
       insert_position lx f fid l))"

subsection \<open>Valuations and the summary\<close>

definition first_event_ts :: "simulation_result \<Rightarrow> (run_error, timestamp) result" where
  "first_event_ts result =
     (case decisions result of
        d # _ \<Rightarrow> Inr (decision_ts d)
      | [] \<Rightarrow>
          (case fills result of
             f # _ \<Rightarrow> Inr (fill_ts f)
           | [] \<Rightarrow> Inl (Bt (ValueError ''Reference simulation must contain at least one decision or fill.''))))"

definition insert_valuation :: "ledger_context \<Rightarrow> simulated_valuation \<Rightarrow> ledger \<Rightarrow> (run_error, ledger) result" where
  "insert_valuation lx v l =
     (let i = valuation_instrument_id v; ts = snapshot_ts v in
      rbind (lift_app (to_numeric (valuation_quantity v))) (\<lambda>qty.
      rbind (lift_app (to_numeric (valuation_average_cost v))) (\<lambda>cost.
      rbind (lift_app (to_numeric (close_price (valuation_reference_bar v)))) (\<lambda>price.
      rbind (lift_app (to_numeric (market_value v))) (\<lambda>worth.
      rbind (lift_app (to_numeric (valuation_realized_pnl v))) (\<lambda>realized.
      rbind (lift_app (to_numeric (unrealized_pnl v))) (\<lambda>unrealized.
        if \<exists>r \<in> set (ld_snapshots l). ps_run_id r = lx_run_id lx \<and> ps_instrument_id r = i \<and> ps_ts r = ts then Inl (App unique_violation)
        else if \<not> instrument_exists (lx_context lx) i then Inl (App foreign_key_violation)
        else
          rbind (lift_app (point_in_time lx (\<lambda>r. r = VALUATION) (Some i) ts (bar_ref_of (valuation_reference_bar v)))) (\<lambda>ref.
            Inr (l\<lparr>ld_snapshots := ld_snapshots l @
                [\<lparr>ps_run_id = lx_run_id lx, ps_instrument_id = i, ps_ts = ts, ps_quantity = qty, ps_average_cost = cost,
                  ps_market_price = price, ps_market_value = worth, ps_realized_pnl = realized, ps_unrealized_pnl = unrealized\<rparr>],
              ld_valuation_references := ld_valuation_references l @
                [\<lparr>pv_run_id = lx_run_id lx, pv_instrument_id = i, pv_ts = ts, pv_bar = ref\<rparr>]\<rparr>)))))))))"

definition insert_equity_point :: "ledger_context \<Rightarrow> simulation_result \<Rightarrow> ledger \<Rightarrow> (run_error, ledger) result" where
  "insert_equity_point lx result l =
     rbind (case valuations result of v # _ \<Rightarrow> Inr (snapshot_ts v) | [] \<Rightarrow> first_event_ts result) (\<lambda>ts.
     let exposure = dec_sum dec_zero (map market_value (valuations result)) in
     rbind (lift_app (to_numeric (final_cash result))) (\<lambda>c.
     rbind (lift_app (to_numeric (equity_base result))) (\<lambda>equity.
     rbind (lift_app (to_numeric exposure)) (\<lambda>gross.
       if \<exists>r \<in> set (ld_equity l). eq_run_id r = lx_run_id lx \<and> eq_ts r = ts then Inl (App unique_violation)
       else Inr (l\<lparr>ld_equity := ld_equity l @
         [\<lparr>eq_run_id = lx_run_id lx, eq_ts = ts, eq_cash = c, eq_equity = equity, eq_gross_exposure = gross,
           eq_net_exposure = gross\<rparr>]\<rparr>)))))"

definition insert_valuations :: "ledger_context \<Rightarrow> simulation_result \<Rightarrow> ledger \<Rightarrow> (run_error, ledger) result" where
  "insert_valuations lx result l =
     rbind (fold_result (insert_valuation lx) (valuations result) l) (insert_equity_point lx result)"

definition insert_summary :: "ledger_context \<Rightarrow> run_summary \<Rightarrow> ledger \<Rightarrow> (run_error, ledger) result" where
  "insert_summary lx s l =
     rbind (lift_app (to_numeric (sm_gross_pnl_base s))) (\<lambda>gross.
     rbind (lift_app (to_numeric (sm_net_pnl_base s))) (\<lambda>net.
     rbind (lift_app (to_numeric (sm_total_cost_base s))) (\<lambda>cost.
       if sm_trade_count s < 0 \<or> sm_winning_trade_count s < 0 \<or> sm_losing_trade_count s < 0 \<or> val (sm_max_drawdown s) < 0 \<or>
          (case sm_win_rate s of None \<Rightarrow> False | Some w \<Rightarrow> val w < 0 \<or> 1 < val w)
       then Inl (App check_violation)
       else if \<exists>r \<in> set (ld_summaries l). su_run_id r = lx_run_id lx then Inl (App unique_violation)
       else Inr (l\<lparr>ld_summaries := ld_summaries l @
         [\<lparr>su_run_id = lx_run_id lx, su_total_return = sm_total_return s, su_max_drawdown = sm_max_drawdown s,
           su_trade_count = sm_trade_count s, su_winning_trade_count = sm_winning_trade_count s,
           su_losing_trade_count = sm_losing_trade_count s, su_win_rate = sm_win_rate s, su_gross_pnl = gross,
           su_net_pnl = net, su_total_cost = cost\<rparr>]\<rparr>))))"

subsection \<open>The whole ledger\<close>

definition persist ::
  "ledger_context \<Rightarrow> simulation_result \<Rightarrow> decimal \<Rightarrow> pystr \<Rightarrow> run_summary \<Rightarrow> ledger \<Rightarrow> (run_error, ledger) result" where
  "persist lx result capital currency summary l =
     rbind (first_event_ts result) (\<lambda>ts.
     rbind (insert_cash lx ts currency INITIAL_CAPITAL capital (u ''initial-capital'') None l) (\<lambda>l.
     rbind (fold_result (insert_decision lx) (decisions result) (l, [])) (\<lambda>(l, context_ids).
     rbind (fold_result (insert_signal lx context_ids) (signals result) (l, [])) (\<lambda>(l, signal_ids).
     rbind (fold_result (insert_order lx (map (semantic_key \<circ> fill_order) (fills result)) signal_ids) (orders result) (l, [])) (\<lambda>(l, order_ids).
     rbind (fold_result (insert_fill lx currency order_ids) (fills result) (l, [])) (\<lambda>(l, fill_ids).
     rbind (fold_result (insert_order_events lx order_ids fill_ids) (orders result) l) (\<lambda>l.
     rbind (fold_result (insert_round_trip lx fill_ids signal_ids) (fills result) (l, [])) (\<lambda>(l, _).
     rbind (fold_result (insert_cash_and_position lx fill_ids currency) (fills result) l) (\<lambda>l.
     rbind (insert_valuations lx result l) (insert_summary lx summary))))))))))"

text \<open>
  The deferred trigger \<^verbatim>\<open>validate_order_fill_totals\<close>: when the transaction commits, every order it wrote agrees with its
  fills.
\<close>

definition order_totals_ok :: "ledger \<Rightarrow> order_row \<Rightarrow> bool" where
  "order_totals_ok l ord \<longleftrightarrow>
     (let fs = filter (\<lambda>f. fl_order_id f = od_id ord) (tbl_rows (ld_fills l)); total = sum_list (map (val \<circ> fl_quantity) fs) in
      (\<forall>f \<in> set fs. od_submitted_at ord \<le> fl_ts f) \<and> total \<le> val (od_quantity ord) \<and>
      (od_status ord = ORDER_FILLED \<longrightarrow> total = val (od_quantity ord)) \<and> (od_status ord = ORDER_REJECTED \<longrightarrow> total = 0))"

definition deferred_checks :: "int \<Rightarrow> ledger \<Rightarrow> bool" where
  "deferred_checks i l \<longleftrightarrow> (\<forall>ord \<in> set (tbl_rows (ld_orders l)). od_run_id ord = i \<longrightarrow> order_totals_ok l ord)"

end
