(* ===== verification/Run_Ledger_Inv.thy ===== *)
theory Run_Ledger_Inv
  imports Run_Ledger Backtest_Simulation
begin

text \<open>
  What writing a ledger does to its tables. Every phase of \<^verbatim>\<open>persist\<close> appends rows to a few tables; together the rows are
  the journal of the simulation, row by row, and no row of another run changes. From there: the deferred checks of
  orders against fills cannot fail for a simulated journal, and the cash entries add up to the final cash of the
  simulation within the rounding of its decimal operations.
\<close>

subsection \<open>Appending to a table\<close>

definition appended :: "'a list \<Rightarrow> 'a table \<Rightarrow> 'a table" where
  "appended xs t = t\<lparr>tbl_rows := tbl_rows t @ xs, tbl_next := tbl_next t + int (length xs)\<rparr>"

lemma appended_simps [simp]:
  "appended [] t = t" "appended ys (appended xs t) = appended (xs @ ys) t"
  "tbl_rows (appended xs t) = tbl_rows t @ xs" "tbl_next (appended xs t) = tbl_next t + int (length xs)"
  by (simp_all add: appended_def)

lemma add_row_appended: "add_row mk t = (appended [mk (tbl_next t)] t, tbl_next t)"
  by (simp add: add_row_def appended_def)

text \<open>A loop establishes for its whole list what each turn extends by one element.\<close>

lemma fold_result_prefix:
  assumes "fold_result f xs s = Inr s'" and "P [] s"
    and "\<And>x ys s s'. x \<in> set xs \<Longrightarrow> f x s = Inr s' \<Longrightarrow> P ys s \<Longrightarrow> P (ys @ [x]) s'"
  shows "P xs s'"
proof -
  have "P (ys @ zs) s'" if "fold_result f zs s = Inr s'" "P ys s" "set zs \<subseteq> set xs" for ys zs s
    using that
  proof (induction zs arbitrary: ys s)
    case (Cons z zs)
    then obtain s1 where "f z s = Inr s1" "fold_result f zs s1 = Inr s'" by (auto simp: rbind_Inr_iff)
    then show ?case
      using Cons.prems(2,3) Cons.IH [of s1 "ys @ [z]"] assms(3) by simp
  qed simp
  from this [of xs s "[]"] assms(1,2) show ?thesis by simp
qed

lemma list_all2_snoc: "list_all2 P xs ys \<Longrightarrow> P x y \<Longrightarrow> list_all2 P (xs @ [x]) (ys @ [y])"
  by (simp add: list_all2_appendI)

subsection \<open>Rows that hold a journal entry\<close>

definition decision_stored :: "int \<Rightarrow> simulated_decision \<Rightarrow> decision_row \<Rightarrow> bool" where
  "decision_stored i d r \<longleftrightarrow>
     dc_run_id r = i \<and> dc_seq r = sequence d \<and> dc_ts r = decision_ts d \<and> char_n 64 (state_sha256 d) = Inr (dc_state_sha256 r) \<and>
     char_n 64 (input_manifest_sha256 d) = Inr (dc_input_sha256 r)"

definition signal_stored :: "int \<Rightarrow> simulated_signal \<Rightarrow> signal_row \<Rightarrow> bool" where
  "signal_stored i s r \<longleftrightarrow>
     sl_run_id r = i \<and> sl_instrument_id r = signal_instrument_id s \<and> sl_ts r = signal_ts s \<and>
     to_numeric (target_quantity s) = Inr (sl_target_quantity r) \<and> sl_reason_code r = reason_code s \<and>
     (sl_type r = ENTRY \<longleftrightarrow> 0 < val (target_quantity s))"

definition order_stored :: "int \<Rightarrow> pystr set \<Rightarrow> simulated_order \<Rightarrow> order_row \<Rightarrow> bool" where
  "order_stored i filled ord r \<longleftrightarrow>
     od_run_id r = i \<and> od_key r = semantic_key ord \<and> od_instrument_id r = signal_instrument_id (order_signal ord) \<and>
     od_submitted_at r = submitted_at ord \<and> od_side r = order_side ord \<and> to_numeric (order_quantity ord) = Inr (od_quantity r) \<and>
     0 < val (od_quantity r) \<and> od_status r = (if semantic_key ord \<in> filled then ORDER_FILLED else ORDER_REJECTED) \<and>
     (rejected_reason ord \<noteq> None \<longrightarrow> od_reject_reason r = rejected_reason ord) \<and>
     (rejected_reason ord = None \<longrightarrow> od_reject_reason r = (if semantic_key ord \<in> filled then None else Some ''INSUFFICIENT_CASH''))"

definition fill_stored :: "int \<Rightarrow> (pystr \<Rightarrow> int option) \<Rightarrow> simulated_fill \<Rightarrow> fill_row \<Rightarrow> bool" where
  "fill_stored i order_of f r \<longleftrightarrow>
     fl_run_id r = i \<and> fl_execution_key r = semantic_key (fill_order f) \<and> order_of (semantic_key (fill_order f)) = Some (fl_order_id r) \<and>
     fl_instrument_id r = signal_instrument_id (order_signal (fill_order f)) \<and> fl_ts r = fill_ts f \<and>
     to_numeric (fill_execution_price (economics f)) = Inr (fl_price r) \<and> to_numeric (fill_quantity (economics f)) = Inr (fl_quantity r) \<and>
     to_numeric (commission_amount (economics f)) = Inr (fl_commission r) \<and>
     to_numeric (slippage_amount (economics f)) = Inr (fl_slippage r) \<and> to_numeric (tax_amount (economics f)) = Inr (fl_tax r)"

definition event_stored ::
  "int \<Rightarrow> simulated_order \<times> int \<times> order_event_type \<times> order_status_after \<Rightarrow> order_event_row \<Rightarrow> bool" where
  "event_stored i e r \<longleftrightarrow>
     (case e of (ord, no, typ, after) \<Rightarrow>
        oe_run_id r = i \<and> oe_instrument_id r = signal_instrument_id (order_signal ord) \<and> oe_seq r = no \<and>
        oe_key r = semantic_key ord @ [124] @ str_int no \<and> oe_type r = typ \<and> oe_status_after r = after \<and>
        (oe_source_fill_id r \<noteq> None \<longleftrightarrow> typ = EV_FILLED))"

definition cash_stored :: "int \<Rightarrow> cash_entry_type \<times> decimal \<times> pystr \<Rightarrow> cash_row \<Rightarrow> bool" where
  "cash_stored i e r \<longleftrightarrow>
     (case e of (typ, amt, key) \<Rightarrow> ca_run_id r = i \<and> ca_type r = typ \<and> ca_key r = key \<and> to_numeric amt = Inr (ca_amount r))"

definition position_stored :: "int \<Rightarrow> simulated_fill \<Rightarrow> position_row \<Rightarrow> bool" where
  "position_stored i f r \<longleftrightarrow>
     po_run_id r = i \<and> po_instrument_id r = signal_instrument_id (order_signal (fill_order f)) \<and> po_ts r = fill_ts f \<and>
     to_numeric (if fill_side (economics f) = BUY then fill_quantity (economics f) else dec_minus (fill_quantity (economics f))) = Inr (po_delta r) \<and>
     to_numeric (fill_execution_price (economics f)) = Inr (po_unit_cost r)"

subsection \<open>What each phase writes\<close>

lemma insert_cash_Inr:
  assumes "insert_cash lx ts currency typ amt key fid l = Inr l'"
  shows "\<exists>r. l' = l\<lparr>ld_cash := appended [r] (ld_cash l)\<rparr> \<and> cash_stored (lx_run_id lx) (typ, amt, key) r"
  using assms
  by (clarsimp simp: insert_cash_def rbind_Inr_iff add_row_appended split: if_splits)
    (rule exI, rule conjI, rule refl, simp add: cash_stored_def)

lemma insert_inputs_Inr:
  assumes "fold_result (insert_input lx cid ts n) xs l = Inr l'"
  shows "\<exists>new. l' = l\<lparr>ld_inputs := ld_inputs l @ new\<rparr> \<and>
    list_all2 (\<lambda>(k, b) r. di_context_id r = cid \<and> di_input_no r = k \<and>
      di_bar r = (bar_ref_of b)\<lparr>bf_effective_at := bf_effective_at (di_bar r)\<rparr> \<and> bf_effective_at (di_bar r) \<le> ts) xs new"
proof (rule fold_result_prefix [OF assms, where P = "\<lambda>ys s. \<exists>new. s = l\<lparr>ld_inputs := ld_inputs l @ new\<rparr> \<and>
    list_all2 (\<lambda>(k, b) r. di_context_id r = cid \<and> di_input_no r = k \<and>
      di_bar r = (bar_ref_of b)\<lparr>bf_effective_at := bf_effective_at (di_bar r)\<rparr> \<and> bf_effective_at (di_bar r) \<le> ts) ys new"])
  fix x ys s s'
  assume f: "insert_input lx cid ts n x s = Inr s'" and "\<exists>new. s = l\<lparr>ld_inputs := ld_inputs l @ new\<rparr> \<and>
    list_all2 (\<lambda>(k, b) r. di_context_id r = cid \<and> di_input_no r = k \<and>
      di_bar r = (bar_ref_of b)\<lparr>bf_effective_at := bf_effective_at (di_bar r)\<rparr> \<and> bf_effective_at (di_bar r) \<le> ts) ys new"
  then obtain new where new: "s = l\<lparr>ld_inputs := ld_inputs l @ new\<rparr>" "list_all2 (\<lambda>(k, b) r. di_context_id r = cid \<and> di_input_no r = k \<and>
      di_bar r = (bar_ref_of b)\<lparr>bf_effective_at := bf_effective_at (di_bar r)\<rparr> \<and> bf_effective_at (di_bar r) \<le> ts) ys new"
    by blast
  obtain k b where x: "x = (k, b)" by fastforce
  from f obtain ref where ref: "point_in_time lx (\<lambda>_. True) None ts (bar_ref_of b) = Inr ref" and
    s': "s' = s\<lparr>ld_inputs := ld_inputs s @ [\<lparr>di_context_id = cid, di_input_no = k,
      di_role = (if k = n then INPUT_SIGNAL else INPUT_WARMUP), di_bar = ref\<rparr>]\<rparr>"
    by (auto simp: insert_input_def x rbind_Inr_iff split: if_splits)
  have "ref = (bar_ref_of b)\<lparr>bf_effective_at := bf_effective_at ref\<rparr> \<and> bf_effective_at ref \<le> ts"
    using ref by (auto simp: point_in_time_def Let_def split: option.splits if_splits)
  then show "\<exists>new. s' = l\<lparr>ld_inputs := ld_inputs l @ new\<rparr> \<and>
    list_all2 (\<lambda>(k, b) r. di_context_id r = cid \<and> di_input_no r = k \<and>
      di_bar r = (bar_ref_of b)\<lparr>bf_effective_at := bf_effective_at (di_bar r)\<rparr> \<and> bf_effective_at (di_bar r) \<le> ts) (ys @ [x]) new"
    using new by (intro exI [of _ "new @ [\<lparr>di_context_id = cid, di_input_no = k,
      di_role = (if k = n then INPUT_SIGNAL else INPUT_WARMUP), di_bar = ref\<rparr>]"]) (simp add: s' x list_all2_snoc)
qed simp

text \<open>Identity columns number the new rows from the next value on.\<close>

definition ids_from :: "int \<Rightarrow> int list \<Rightarrow> bool" where
  "ids_from n ids \<longleftrightarrow> ids = map (\<lambda>k. n + int k) [0..<length ids]"

lemma ids_from_Nil [simp]: "ids_from n []"
  by (simp add: ids_from_def)

lemma ids_from_snoc: "ids_from n ids \<Longrightarrow> i = n + int (length ids) \<Longrightarrow> ids_from n (ids @ [i])"
  by (simp add: ids_from_def)

lemma ids_from_bounds: "ids_from n ids \<Longrightarrow> i \<in> set ids \<Longrightarrow> n \<le> i \<and> i < n + int (length ids)"
  unfolding ids_from_def by (metis (no_types, lifting) add_left_mono atLeastLessThan_iff imageE list.set_map of_nat_0_le_iff of_nat_less_iff
      add_increasing2 add_strict_left_mono order_refl set_upt)

lemma ids_from_distinct: "ids_from n ids \<Longrightarrow> distinct ids"
  unfolding ids_from_def by (metis (no_types, lifting) distinct_map distinct_upt inj_onI add_left_cancel of_nat_eq_iff)

definition decisions_written :: "ledger_context \<Rightarrow> ledger \<Rightarrow> simulated_decision list \<Rightarrow> ledger \<Rightarrow> bool" where
  "decisions_written lx l ds l' \<longleftrightarrow>
     (\<exists>new inp. l' = l\<lparr>ld_decisions := appended new (ld_decisions l), ld_inputs := ld_inputs l @ inp\<rparr> \<and>
        list_all2 (decision_stored (lx_run_id lx)) ds new \<and> ids_from (tbl_next (ld_decisions l)) (map dc_id new) \<and>
        (\<forall>x \<in> set inp. \<exists>r \<in> set new. di_context_id x = dc_id r \<and> bf_effective_at (di_bar x) \<le> dc_ts r))"

lemma insert_decision_Inr:
  assumes "insert_decision lx d s = Inr s'"
  shows "\<exists>r. fold_result (insert_input lx (dc_id r) (decision_ts d) (length (inputs d) - 1)) (List.enumerate 0 (inputs d))
      ((fst s)\<lparr>ld_decisions := appended [r] (ld_decisions (fst s))\<rparr>) = Inr (fst s') \<and>
    decision_stored (lx_run_id lx) d r \<and> dc_id r = tbl_next (ld_decisions (fst s))"
proof -
  obtain l ids where s: "s = (l, ids)" by fastforce
  from assms obtain md h1 h2 l' where h: "char_n 64 (state_sha256 d) = Inr h1" "char_n 64 (input_manifest_sha256 d) = Inr h2"
    and l': "fst s' = l'" "fold_result (insert_input lx (tbl_next (ld_decisions l)) (decision_ts d) (length (inputs d) - 1)) (List.enumerate 0 (inputs d))
      (l\<lparr>ld_decisions := appended [\<lparr>dc_id = tbl_next (ld_decisions l), dc_run_id = lx_run_id lx, dc_seq = sequence d, dc_ts = decision_ts d,
         dc_state_sha256 = h1, dc_input_sha256 = h2, dc_metadata = md\<rparr>] (ld_decisions l)\<rparr>) = Inr l'"
    by (auto simp: insert_decision_def s rbind_Inr_iff add_row_appended split: if_splits)
  show ?thesis
    unfolding s fst_conv l'(1)
    by (rule exI [of _ "\<lparr>dc_id = tbl_next (ld_decisions l), dc_run_id = lx_run_id lx, dc_seq = sequence d, dc_ts = decision_ts d,
         dc_state_sha256 = h1, dc_input_sha256 = h2, dc_metadata = md\<rparr>"]) (use l'(2) h in \<open>simp add: decision_stored_def\<close>)
qed

lemma insert_decisions_Inr:
  assumes "fold_result (insert_decision lx) ds (l, []) = Inr (l', ids)"
  shows "decisions_written lx l ds l'"
proof -
  have "decisions_written lx l ds (fst (l', ids))"
  proof (rule fold_result_prefix [OF assms, where P = "\<lambda>ds s. decisions_written lx l ds (fst s)"])
    show "decisions_written lx l [] (fst (l, []))" by (simp add: decisions_written_def)
    fix d ys s s'
    assume f: "insert_decision lx d s = Inr s'" and "decisions_written lx l ys (fst s)"
    then obtain new inp where s: "fst s = l\<lparr>ld_decisions := appended new (ld_decisions l), ld_inputs := ld_inputs l @ inp\<rparr>"
      and new: "list_all2 (decision_stored (lx_run_id lx)) ys new" "ids_from (tbl_next (ld_decisions l)) (map dc_id new)"
      and inp: "\<forall>x \<in> set inp. \<exists>r \<in> set new. di_context_id x = dc_id r \<and> bf_effective_at (di_bar x) \<le> dc_ts r"
      by (auto simp: decisions_written_def)
    obtain r where r: "decision_stored (lx_run_id lx) d r" "dc_id r = tbl_next (ld_decisions (fst s))"
      and ins: "fold_result (insert_input lx (dc_id r) (decision_ts d) (length (inputs d) - 1)) (List.enumerate 0 (inputs d))
        ((fst s)\<lparr>ld_decisions := appended [r] (ld_decisions (fst s))\<rparr>) = Inr (fst s')"
      using insert_decision_Inr [OF f] by blast
    obtain more where more: "fst s' = (fst s)\<lparr>ld_decisions := appended [r] (ld_decisions (fst s)), ld_inputs := ld_inputs (fst s) @ more\<rparr>"
      and "list_all2 (\<lambda>(k, b) x. di_context_id x = dc_id r \<and> di_input_no x = k \<and>
        di_bar x = (bar_ref_of b)\<lparr>bf_effective_at := bf_effective_at (di_bar x)\<rparr> \<and> bf_effective_at (di_bar x) \<le> decision_ts d)
        (List.enumerate 0 (inputs d)) more"
      using insert_inputs_Inr [OF ins] by auto
    then have "\<forall>x \<in> set more. di_context_id x = dc_id r \<and> bf_effective_at (di_bar x) \<le> dc_ts r"
      using r(1) by (fastforce simp: decision_stored_def dest: list_all2_right)
    moreover have "ids_from (tbl_next (ld_decisions l)) (map dc_id (new @ [r]))"
      using new(2) r(2) by (simp add: s ids_from_snoc)
    ultimately show "decisions_written lx l (ys @ [d]) (fst s')"
      using list_all2_snoc [OF new(1) r(1)] inp unfolding decisions_written_def
      by (intro exI [of _ "new @ [r]"] exI [of _ "inp @ more"]) (auto simp: more s)
  qed
  then show ?thesis by simp
qed

definition signals_written :: "ledger_context \<Rightarrow> ledger \<Rightarrow> simulated_signal list \<Rightarrow> ledger \<Rightarrow> bool" where
  "signals_written lx l ss l' \<longleftrightarrow>
     (\<exists>new. l' = l\<lparr>ld_signals := appended new (ld_signals l)\<rparr> \<and> list_all2 (signal_stored (lx_run_id lx)) ss new)"

lemma insert_signal_Inr:
  assumes "insert_signal lx cids sig s = Inr s'"
  shows "\<exists>r. fst s' = (fst s)\<lparr>ld_signals := appended [r] (ld_signals (fst s))\<rparr> \<and> signal_stored (lx_run_id lx) sig r"
  using assms
  by (cases s) (clarsimp simp: insert_signal_def Let_def rbind_Inr_iff add_row_appended split: if_splits;
      rule exI, rule conjI, rule refl, simp add: signal_stored_def)

lemma insert_signals_Inr:
  assumes "fold_result (insert_signal lx cids) ss (l, []) = Inr (l', ids)"
  shows "signals_written lx l ss l'"
proof -
  have "signals_written lx l ss (fst (l', ids))"
  proof (rule fold_result_prefix [OF assms, where P = "\<lambda>ss s. signals_written lx l ss (fst s)"])
    show "signals_written lx l [] (fst (l, []))" by (simp add: signals_written_def)
    fix sig ys s s'
    assume f: "insert_signal lx cids sig s = Inr s'" and "signals_written lx l ys (fst s)"
    then obtain new where new: "fst s = l\<lparr>ld_signals := appended new (ld_signals l)\<rparr>" "list_all2 (signal_stored (lx_run_id lx)) ys new"
      by (auto simp: signals_written_def)
    obtain r where "fst s' = (fst s)\<lparr>ld_signals := appended [r] (ld_signals (fst s))\<rparr>" "signal_stored (lx_run_id lx) sig r"
      using insert_signal_Inr [OF f] by blast
    then show "signals_written lx l (ys @ [sig]) (fst s')"
      using new unfolding signals_written_def by (intro exI [of _ "new @ [r]"]) (simp add: list_all2_snoc)
  qed
  then show ?thesis by simp
qed

text \<open>The dictionary of identifiers by key that a phase hands to the next one.\<close>

definition ids_of :: "('r \<Rightarrow> pystr) \<Rightarrow> ('r \<Rightarrow> int) \<Rightarrow> 'r list \<Rightarrow> (pystr, int) dict \<Rightarrow> bool" where
  "ids_of key ident new ids \<longleftrightarrow> (\<forall>r \<in> set new. dict_get ids (key r) = Some (ident r)) \<and>
     (\<forall>k i. dict_get ids k = Some i \<longrightarrow> (\<exists>r \<in> set new. key r = k \<and> ident r = i))"

lemma ids_of_Nil: "ids_of key ident [] []"
  by (simp add: ids_of_def dict_get_def)

lemma ids_of_snoc:
  "ids_of key ident new ids \<Longrightarrow> key r \<notin> key ` set new \<Longrightarrow> ids_of key ident (new @ [r]) (dict_set ids (key r) (ident r))"
  by (auto simp: ids_of_def dict_get_set image_iff)

definition orders_written :: "ledger_context \<Rightarrow> pystr set \<Rightarrow> ledger \<Rightarrow> simulated_order list \<Rightarrow> ledger \<times> (pystr, int) dict \<Rightarrow> bool" where
  "orders_written lx filled l os s \<longleftrightarrow>
     (\<exists>new. fst s = l\<lparr>ld_orders := appended new (ld_orders l)\<rparr> \<and> list_all2 (order_stored (lx_run_id lx) filled) os new \<and>
        ids_from (tbl_next (ld_orders l)) (map od_id new) \<and> distinct (map od_key new) \<and> ids_of od_key od_id new (snd s))"

lemma insert_order_Inr:
  assumes "insert_order lx filled sids ord s = Inr s'"
  shows "\<exists>r. fst s' = (fst s)\<lparr>ld_orders := appended [r] (ld_orders (fst s))\<rparr> \<and> snd s' = dict_set (snd s) (od_key r) (od_id r) \<and>
    order_stored (lx_run_id lx) (set filled) ord r \<and> od_id r = tbl_next (ld_orders (fst s)) \<and>
    (\<forall>x \<in> set (tbl_rows (ld_orders (fst s))). od_run_id x = lx_run_id lx \<longrightarrow> od_key x \<noteq> od_key r)"
proof -
  obtain l ids where s: "s = (l, ids)" by fastforce
  from assms obtain sid md qty where qty: "to_numeric (order_quantity ord) = Inr qty" "0 < val qty"
    and fresh: "\<forall>x \<in> set (tbl_rows (ld_orders l)). od_run_id x = lx_run_id lx \<longrightarrow> od_key x \<noteq> semantic_key ord"
    and s': "s' = (l\<lparr>ld_orders := appended [\<lparr>od_id = tbl_next (ld_orders l), od_run_id = lx_run_id lx, od_signal_id = sid,
       od_instrument_id = signal_instrument_id (order_signal ord),
       od_key = semantic_key ord, od_submitted_at = submitted_at ord, od_side = order_side ord, od_quantity = qty,
       od_status = (if semantic_key ord \<in> set filled then ORDER_FILLED else ORDER_REJECTED),
       od_reject_reason = (case rejected_reason ord of Some m \<Rightarrow> Some m
         | None \<Rightarrow> if semantic_key ord \<in> set filled then None else Some ''INSUFFICIENT_CASH''),
       od_metadata = md\<rparr>] (ld_orders l)\<rparr>, dict_set ids (semantic_key ord) (tbl_next (ld_orders l)))"
    by (auto simp: insert_order_def s Let_def rbind_Inr_iff add_row_appended split: if_splits)
  show ?thesis
    unfolding s s' fst_conv snd_conv by (rule exI, rule conjI, rule refl) (use qty fresh in \<open>auto simp: order_stored_def\<close>)
qed

lemma insert_orders_Inr:
  assumes "fold_result (insert_order lx filled sids) os (l, []) = Inr s'"
  shows "orders_written lx (set filled) l os s'"
proof (rule fold_result_prefix [OF assms, where P = "\<lambda>os s. orders_written lx (set filled) l os s"])
  show "orders_written lx (set filled) l [] (l, [])" by (simp add: orders_written_def ids_of_Nil)
  fix ord ys s s'
  assume f: "insert_order lx filled sids ord s = Inr s'" and "orders_written lx (set filled) l ys s"
  then obtain new where s: "fst s = l\<lparr>ld_orders := appended new (ld_orders l)\<rparr>" and
    new: "list_all2 (order_stored (lx_run_id lx) (set filled)) ys new" "ids_from (tbl_next (ld_orders l)) (map od_id new)"
      "distinct (map od_key new)" "ids_of od_key od_id new (snd s)"
    by (auto simp: orders_written_def)
  obtain r where s': "fst s' = (fst s)\<lparr>ld_orders := appended [r] (ld_orders (fst s))\<rparr>" "snd s' = dict_set (snd s) (od_key r) (od_id r)"
    and r: "order_stored (lx_run_id lx) (set filled) ord r" "od_id r = tbl_next (ld_orders (fst s))"
    and fresh: "\<forall>x \<in> set (tbl_rows (ld_orders (fst s))). od_run_id x = lx_run_id lx \<longrightarrow> od_key x \<noteq> od_key r"
    using insert_order_Inr [OF f] by blast
  have "\<forall>x \<in> set new. od_run_id x = lx_run_id lx"
    using new(1) by (auto simp: order_stored_def dest: list_all2_right)
  then have "od_key r \<notin> od_key ` set new" using fresh by (auto simp: s)
  moreover from this have "ids_of od_key od_id (new @ [r]) (snd s')" using ids_of_snoc [OF new(4)] by (simp add: s')
  ultimately show "orders_written lx (set filled) l (ys @ [ord]) s'"
    unfolding orders_written_def
    using new r by (intro exI [of _ "new @ [r]"]) (auto simp: s s'(1) list_all2_snoc ids_from_snoc)
qed

definition fills_written :: "ledger_context \<Rightarrow> (pystr, int) dict \<Rightarrow> ledger \<Rightarrow> simulated_fill list \<Rightarrow> ledger \<times> (pystr, int) dict \<Rightarrow> bool" where
  "fills_written lx oids l fs s \<longleftrightarrow>
     (\<exists>new refs. fst s = l\<lparr>ld_fills := appended new (ld_fills l), ld_fill_references := ld_fill_references l @ refs\<rparr> \<and>
        list_all2 (fill_stored (lx_run_id lx) (dict_get oids)) fs new \<and> distinct (map fl_execution_key new) \<and>
        ids_of fl_execution_key fl_id new (snd s) \<and>
        list_all2 (\<lambda>f x. fr_run_id x = lx_run_id lx \<and> fr_bar x = (bar_ref_of (reference_bar f))\<lparr>bf_effective_at := bf_effective_at (fr_bar x)\<rparr> \<and>
          bf_effective_at (fr_bar x) \<le> fill_ts f) fs refs)"

lemma insert_fill_Inr:
  assumes "insert_fill lx currency oids f s = Inr s'"
  shows "\<exists>r x. fst s' = (fst s)\<lparr>ld_fills := appended [r] (ld_fills (fst s)), ld_fill_references := ld_fill_references (fst s) @ [x]\<rparr> \<and>
    snd s' = dict_set (snd s) (fl_execution_key r) (fl_id r) \<and> fill_stored (lx_run_id lx) (dict_get oids) f r \<and>
    (\<forall>x \<in> set (tbl_rows (ld_fills (fst s))). fl_run_id x = lx_run_id lx \<longrightarrow> fl_execution_key x \<noteq> fl_execution_key r) \<and>
    fr_run_id x = lx_run_id lx \<and> fr_bar x = (bar_ref_of (reference_bar f))\<lparr>bf_effective_at := bf_effective_at (fr_bar x)\<rparr> \<and>
    bf_effective_at (fr_bar x) \<le> fill_ts f"
proof -
  obtain l ids where s: "s = (l, ids)" by fastforce
  let ?key = "semantic_key (fill_order f)" and ?e = "economics f"
  from assms obtain oid ref price qty commission slippage tax l' where
    num: "to_numeric (fill_execution_price ?e) = Inr price" "to_numeric (fill_quantity ?e) = Inr qty"
      "to_numeric (commission_amount ?e) = Inr commission" "to_numeric (slippage_amount ?e) = Inr slippage" "to_numeric (tax_amount ?e) = Inr tax"
    and oid: "dict_get oids ?key = Some oid"
    and fresh: "\<forall>x \<in> set (tbl_rows (ld_fills l)). fl_run_id x = lx_run_id lx \<longrightarrow> fl_execution_key x \<noteq> ?key"
    and s': "s' = (l', dict_set ids ?key (tbl_next (ld_fills l)))"
    and l': "insert_fill_reference lx (tbl_next (ld_fills l)) f (l\<lparr>ld_fills := appended [\<lparr>fl_id = tbl_next (ld_fills l), fl_run_id = lx_run_id lx,
       fl_order_id = oid, fl_instrument_id = signal_instrument_id (order_signal (fill_order f)), fl_ts = fill_ts f,
       fl_price = price, fl_quantity = qty, fl_commission = commission, fl_slippage = slippage, fl_tax = tax,
       fl_currency = currency, fl_execution_reference = ref, fl_execution_key = ?key\<rparr>] (ld_fills l)\<rparr>) = Inr l'"
    by (auto simp: insert_fill_def s Let_def rbind_Inr_iff add_row_appended lookup_or_raise_Inr split: if_splits)
  obtain b where b: "point_in_time lx (\<lambda>r. r = EXECUTION) (Some (signal_instrument_id (order_signal (fill_order f)))) (fill_ts f)
      (bar_ref_of (reference_bar f)) = Inr b"
    using l' by (auto simp: insert_fill_reference_def Let_def rbind_Inr_iff)
  have pit: "b = (bar_ref_of (reference_bar f))\<lparr>bf_effective_at := bf_effective_at b\<rparr> \<and> bf_effective_at b \<le> fill_ts f"
    using b by (auto simp: point_in_time_def Let_def split: option.splits if_splits)
  have l'': "l' = l\<lparr>ld_fills := appended [\<lparr>fl_id = tbl_next (ld_fills l), fl_run_id = lx_run_id lx,
       fl_order_id = oid, fl_instrument_id = signal_instrument_id (order_signal (fill_order f)), fl_ts = fill_ts f,
       fl_price = price, fl_quantity = qty, fl_commission = commission, fl_slippage = slippage, fl_tax = tax,
       fl_currency = currency, fl_execution_reference = ref, fl_execution_key = ?key\<rparr>] (ld_fills l),
       ld_fill_references := ld_fill_references l @ [\<lparr>fr_fill_id = tbl_next (ld_fills l), fr_run_id = lx_run_id lx,
         fr_instrument_id = signal_instrument_id (order_signal (fill_order f)), fr_bar = b\<rparr>]\<rparr>"
    using l' by (simp add: insert_fill_reference_def Let_def b)
  show ?thesis
    unfolding s s' fst_conv snd_conv l''
    by (rule exI, rule exI, rule conjI, rule refl) (use num oid fresh pit in \<open>auto simp: fill_stored_def\<close>)
qed

lemma insert_fills_Inr:
  assumes "fold_result (insert_fill lx currency oids) fs (l, []) = Inr s'"
  shows "fills_written lx oids l fs s'"
proof (rule fold_result_prefix [OF assms, where P = "\<lambda>fs s. fills_written lx oids l fs s"])
  show "fills_written lx oids l [] (l, [])" by (simp add: fills_written_def ids_of_Nil)
  fix f ys s s'
  assume f: "insert_fill lx currency oids f s = Inr s'" and "fills_written lx oids l ys s"
  then obtain new refs where s: "fst s = l\<lparr>ld_fills := appended new (ld_fills l), ld_fill_references := ld_fill_references l @ refs\<rparr>" and
    new: "list_all2 (fill_stored (lx_run_id lx) (dict_get oids)) ys new" "distinct (map fl_execution_key new)"
      "ids_of fl_execution_key fl_id new (snd s)"
      "list_all2 (\<lambda>f x. fr_run_id x = lx_run_id lx \<and> fr_bar x = (bar_ref_of (reference_bar f))\<lparr>bf_effective_at := bf_effective_at (fr_bar x)\<rparr> \<and>
          bf_effective_at (fr_bar x) \<le> fill_ts f) ys refs"
    unfolding fills_written_def by blast
  obtain r x where s': "fst s' = (fst s)\<lparr>ld_fills := appended [r] (ld_fills (fst s)), ld_fill_references := ld_fill_references (fst s) @ [x]\<rparr>"
      "snd s' = dict_set (snd s) (fl_execution_key r) (fl_id r)"
    and r: "fill_stored (lx_run_id lx) (dict_get oids) f r"
    and fresh: "\<forall>x \<in> set (tbl_rows (ld_fills (fst s))). fl_run_id x = lx_run_id lx \<longrightarrow> fl_execution_key x \<noteq> fl_execution_key r"
    and x: "fr_run_id x = lx_run_id lx \<and> fr_bar x = (bar_ref_of (reference_bar f))\<lparr>bf_effective_at := bf_effective_at (fr_bar x)\<rparr> \<and>
      bf_effective_at (fr_bar x) \<le> fill_ts f"
    using insert_fill_Inr [OF f] by blast
  have "\<forall>x \<in> set new. fl_run_id x = lx_run_id lx"
    using new(1) by (auto simp: fill_stored_def dest: list_all2_right)
  then have "fl_execution_key r \<notin> fl_execution_key ` set new" using fresh by (auto simp: s)
  moreover from this have "ids_of fl_execution_key fl_id (new @ [r]) (snd s')" using ids_of_snoc [OF new(3)] by (simp add: s')
  ultimately show "fills_written lx oids l (ys @ [f]) s'"
    unfolding fills_written_def
    using new r x by (intro exI [of _ "new @ [r]"] exI [of _ "refs @ [x]"]) (auto simp: s s'(1) list_all2_snoc)
qed

definition events_written :: "ledger_context \<Rightarrow> (simulated_order \<Rightarrow> bool) \<Rightarrow> ledger \<Rightarrow> simulated_order list \<Rightarrow> ledger \<Rightarrow> bool" where
  "events_written lx filled l os l' \<longleftrightarrow>
     (\<exists>new. l' = l\<lparr>ld_order_events := appended new (ld_order_events l)\<rparr> \<and>
        list_all2 (event_stored (lx_run_id lx)) (concat (map (\<lambda>ord. map (Pair ord) (order_events (filled ord))) os)) new)"

lemma insert_order_event_Inr:
  assumes "insert_order_event lx ord oid fid ev l = Inr l'"
  shows "\<exists>r. l' = l\<lparr>ld_order_events := appended [r] (ld_order_events l)\<rparr> \<and> event_stored (lx_run_id lx) (ord, ev) r"
proof -
  obtain no ty after where ev: "ev = (no, ty, after)" by (cases ev) auto
  show ?thesis
    using assms unfolding ev
    by (clarsimp simp: insert_order_event_def Let_def rbind_Inr_iff add_row_appended simp del: append_Cons append_Nil append.simps
        split: if_splits)
      (rule exI, rule conjI, rule refl, auto simp: event_stored_def)+
qed

lemma insert_order_events_Inr:
  assumes "fold_result (insert_order_events lx oids fids) os l = Inr l'"
  shows "events_written lx (\<lambda>ord. dict_get fids (semantic_key ord) \<noteq> None) l os l'"
proof (rule fold_result_prefix [OF assms, where P = "\<lambda>os s. events_written lx (\<lambda>ord. dict_get fids (semantic_key ord) \<noteq> None) l os s"])
  let ?filled = "\<lambda>ord. dict_get fids (semantic_key ord) \<noteq> None"
  show "events_written lx ?filled l [] l" by (simp add: events_written_def)
  fix ord ys s s'
  assume f: "insert_order_events lx oids fids ord s = Inr s'" and "events_written lx ?filled l ys s"
  then obtain new where s: "s = l\<lparr>ld_order_events := appended new (ld_order_events l)\<rparr>" and
    new: "list_all2 (event_stored (lx_run_id lx)) (concat (map (\<lambda>ord. map (Pair ord) (order_events (?filled ord))) ys)) new"
    unfolding events_written_def by blast
  obtain oid where ins: "fold_result (insert_order_event lx ord oid (dict_get fids (semantic_key ord))) (order_events (?filled ord)) s = Inr s'"
    using f by (auto simp: insert_order_events_def Let_def rbind_Inr_iff)
  have "\<exists>more. s' = s\<lparr>ld_order_events := appended more (ld_order_events s)\<rparr> \<and>
      list_all2 (event_stored (lx_run_id lx)) (map (Pair ord) (order_events (?filled ord))) more"
  proof (rule fold_result_prefix [OF ins, where P = "\<lambda>evs s'. \<exists>more. s' = s\<lparr>ld_order_events := appended more (ld_order_events s)\<rparr> \<and>
      list_all2 (event_stored (lx_run_id lx)) (map (Pair ord) evs) more"])
    fix ev zs t t'
    assume f: "insert_order_event lx ord oid (dict_get fids (semantic_key ord)) ev t = Inr t'"
      and "\<exists>more. t = s\<lparr>ld_order_events := appended more (ld_order_events s)\<rparr> \<and>
        list_all2 (event_stored (lx_run_id lx)) (map (Pair ord) zs) more"
    then obtain more where t: "t = s\<lparr>ld_order_events := appended more (ld_order_events s)\<rparr>"
      "list_all2 (event_stored (lx_run_id lx)) (map (Pair ord) zs) more" by blast
    obtain r where "t' = t\<lparr>ld_order_events := appended [r] (ld_order_events t)\<rparr>" "event_stored (lx_run_id lx) (ord, ev) r"
      using insert_order_event_Inr [OF f] by blast
    then show "\<exists>more. t' = s\<lparr>ld_order_events := appended more (ld_order_events s)\<rparr> \<and>
        list_all2 (event_stored (lx_run_id lx)) (map (Pair ord) (zs @ [ev])) more"
      using t by (intro exI [of _ "more @ [r]"]) (simp add: list_all2_snoc)
  qed simp
  then obtain more where "s' = s\<lparr>ld_order_events := appended more (ld_order_events s)\<rparr>"
      "list_all2 (event_stored (lx_run_id lx)) (map (Pair ord) (order_events (?filled ord))) more" by blast
  then show "events_written lx ?filled l (ys @ [ord]) s'"
    unfolding events_written_def using new by (intro exI [of _ "new @ more"]) (simp add: s list_all2_appendI)
qed

definition accounts_written :: "ledger_context \<Rightarrow> ledger \<Rightarrow> simulated_fill list \<Rightarrow> ledger \<Rightarrow> bool" where
  "accounts_written lx l fs l' \<longleftrightarrow>
     (\<exists>c p. l' = l\<lparr>ld_cash := appended c (ld_cash l), ld_positions := appended p (ld_positions l)\<rparr> \<and>
        list_all2 (cash_stored (lx_run_id lx)) (concat (map fill_cash_entries fs)) c \<and>
        list_all2 (position_stored (lx_run_id lx)) fs p)"

lemma insert_fill_cash_Inr:
  assumes "fold_result (insert_fill_cash lx currency f fid) es l = Inr l'"
  shows "\<exists>c. l' = l\<lparr>ld_cash := appended c (ld_cash l)\<rparr> \<and> list_all2 (cash_stored (lx_run_id lx)) es c"
proof (rule fold_result_prefix [OF assms, where P = "\<lambda>es s. \<exists>c. s = l\<lparr>ld_cash := appended c (ld_cash l)\<rparr> \<and>
    list_all2 (cash_stored (lx_run_id lx)) es c"])
  fix e ys s s'
  assume f: "insert_fill_cash lx currency f fid e s = Inr s'" and "\<exists>c. s = l\<lparr>ld_cash := appended c (ld_cash l)\<rparr> \<and>
    list_all2 (cash_stored (lx_run_id lx)) ys c"
  then obtain c where c: "s = l\<lparr>ld_cash := appended c (ld_cash l)\<rparr>" "list_all2 (cash_stored (lx_run_id lx)) ys c" by blast
  obtain ty amt key where e: "e = (ty, amt, key)" by (cases e) auto
  obtain r where "s' = s\<lparr>ld_cash := appended [r] (ld_cash s)\<rparr>" "cash_stored (lx_run_id lx) e r"
    using insert_cash_Inr [of lx "fill_ts f" currency ty amt key "Some fid" s s'] f by (auto simp: insert_fill_cash_def e)
  then show "\<exists>c. s' = l\<lparr>ld_cash := appended c (ld_cash l)\<rparr> \<and> list_all2 (cash_stored (lx_run_id lx)) (ys @ [e]) c"
    using c by (intro exI [of _ "c @ [r]"]) (simp add: list_all2_snoc)
qed simp

lemma insert_position_Inr:
  assumes "insert_position lx f fid l = Inr l'"
  shows "\<exists>r. l' = l\<lparr>ld_positions := appended [r] (ld_positions l)\<rparr> \<and> position_stored (lx_run_id lx) f r"
  using assms
  by (clarsimp simp: insert_position_def Let_def rbind_Inr_iff add_row_appended simp del: u_Cons split: if_splits)
    (rule exI, rule conjI, rule refl, simp add: position_stored_def)+

lemma insert_accounts_Inr:
  assumes "fold_result (insert_cash_and_position lx fids currency) fs l = Inr l'"
  shows "accounts_written lx l fs l'"
proof (rule fold_result_prefix [OF assms, where P = "accounts_written lx l"])
  show "accounts_written lx l [] l" by (simp add: accounts_written_def)
  fix f ys s s'
  assume f: "insert_cash_and_position lx fids currency f s = Inr s'" and "accounts_written lx l ys s"
  then obtain c p where s: "s = l\<lparr>ld_cash := appended c (ld_cash l), ld_positions := appended p (ld_positions l)\<rparr>"
    and cp: "list_all2 (cash_stored (lx_run_id lx)) (concat (map fill_cash_entries ys)) c" "list_all2 (position_stored (lx_run_id lx)) ys p"
    unfolding accounts_written_def by blast
  obtain fid t where t: "fold_result (insert_fill_cash lx currency f fid) (fill_cash_entries f) s = Inr t" "insert_position lx f fid t = Inr s'"
    using f by (auto simp: insert_cash_and_position_def rbind_Inr_iff)
  obtain d where d: "t = s\<lparr>ld_cash := appended d (ld_cash s)\<rparr>" "list_all2 (cash_stored (lx_run_id lx)) (fill_cash_entries f) d"
    using insert_fill_cash_Inr [OF t(1)] by blast
  obtain r where "s' = t\<lparr>ld_positions := appended [r] (ld_positions t)\<rparr>" "position_stored (lx_run_id lx) f r"
    using insert_position_Inr [OF t(2)] by blast
  then show "accounts_written lx l (ys @ [f]) s'"
    unfolding accounts_written_def using cp d
    by (intro exI [of _ "c @ d"] exI [of _ "p @ [r]"]) (simp add: s list_all2_appendI list_all2_snoc)
qed

subsection \<open>Round trips, valuations, the summary\<close>

text \<open>A closed trade has the result of an entry and an exit of the journal.\<close>

definition trade_justified :: "simulated_fill list \<Rightarrow> trade_row \<Rightarrow> bool" where
  "trade_justified fs r \<longleftrightarrow>
     (tr_closed r \<longrightarrow> (\<exists>entry \<in> set fs. \<exists>f \<in> set fs. \<exists>n. tr_net_pnl r = Some n \<and> to_numeric (net_pnl entry f) = Inr n \<and>
        fill_side (economics f) \<noteq> BUY))"

definition trips_written :: "ledger_context \<Rightarrow> ledger \<Rightarrow> simulated_fill list \<Rightarrow> ledger \<times> open_trades \<Rightarrow> bool" where
  "trips_written lx l fs s \<longleftrightarrow>
     (\<exists>trs al. fst s = l\<lparr>ld_trades := appended trs (ld_trades l), ld_allocations := ld_allocations l @ al\<rparr> \<and>
        ids_from (tbl_next (ld_trades l)) (map tr_id trs) \<and> (\<forall>r \<in> set trs. tr_run_id r = lx_run_id lx \<and> trade_justified fs r) \<and>
        (\<forall>k tid entry. dict_get (snd s) k = Some (tid, entry) \<longrightarrow> tid \<in> tr_id ` set trs \<and> entry \<in> set fs) \<and>
        (\<forall>x \<in> set al. al_trade_id x \<in> tr_id ` set trs))"

lemma trade_justified_more: "trade_justified fs r \<Longrightarrow> trade_justified (fs @ gs) r"
  by (auto simp: trade_justified_def)

lemma insert_allocation_Inr:
  assumes "insert_allocation tid fid leg qty l = Inr l'"
  shows "\<exists>x. l' = l\<lparr>ld_allocations := ld_allocations l @ [x]\<rparr> \<and> al_trade_id x = tid"
  using assms
  by (clarsimp simp: insert_allocation_def rbind_Inr_iff split: if_splits) (rule exI, rule conjI, rule refl, simp)

lemma open_round_trip_Inr:
  assumes "open_round_trip lx fid sid f s = Inr s'"
  shows "\<exists>r x. fst s' = (fst s)\<lparr>ld_trades := appended [r] (ld_trades (fst s)), ld_allocations := ld_allocations (fst s) @ [x]\<rparr> \<and>
    snd s' = dict_set (snd s) (signal_instrument_id (order_signal (fill_order f))) (tr_id r, f) \<and>
    tr_id r = tbl_next (ld_trades (fst s)) \<and> tr_run_id r = lx_run_id lx \<and> \<not> tr_closed r \<and> al_trade_id x = tr_id r"
proof -
  obtain l trades where s: "s = (l, trades)" by fastforce
  from assms obtain r l' where r: "tr_id r = tbl_next (ld_trades l)" "tr_run_id r = lx_run_id lx" "\<not> tr_closed r"
    and a: "insert_allocation (tr_id r) fid LEG_ENTRY (fill_quantity (economics f)) (l\<lparr>ld_trades := appended [r] (ld_trades l)\<rparr>) = Inr l'"
    and s': "s' = (l', dict_set trades (signal_instrument_id (order_signal (fill_order f))) (tr_id r, f))"
    by (clarsimp simp: open_round_trip_def s Let_def rbind_Inr_iff add_row_appended split: if_splits)
      (erule_tac x = "\<lparr>tr_id = tbl_next (ld_trades l), tr_run_id = lx_run_id lx,
         tr_instrument_id = signal_instrument_id (order_signal (fill_order f)), tr_entry_signal_id = sid, tr_exit_signal_id = None,
         tr_entry_ts = fill_ts f, tr_exit_ts = None, tr_quantity = a, tr_entry_price = aa, tr_exit_price = None, tr_gross_pnl = None,
         tr_commission = ab, tr_slippage = ac, tr_tax = ad, tr_net_pnl = None, tr_return_fraction = None, tr_closed = False\<rparr>" in meta_allE, simp)
  from insert_allocation_Inr [OF a] show ?thesis
    unfolding s s' using r by (intro exI [of _ r]) auto
qed

lemma update_trade_id: "update_trade tid (\<lambda>r. r) l = l"
  by (simp add: update_trade_def)

lemma ld_allocations_update_trade [simp]: "ld_allocations (update_trade tid g l) = ld_allocations l"
  by (simp add: update_trade_def)

lemma close_round_trip_Inr:
  assumes "close_round_trip lx fid sid f s = Inr s'"
  shows "\<exists>tid entry g x. dict_get (snd s) (signal_instrument_id (order_signal (fill_order f))) = Some (tid, entry) \<and>
    (\<forall>r. tr_id (g r) = tr_id r \<and> tr_run_id (g r) = tr_run_id r \<and>
       (g r = r \<or> (\<exists>n. tr_net_pnl (g r) = Some n \<and> to_numeric (net_pnl entry f) = Inr n))) \<and>
    fst s' = (update_trade tid g (fst s))\<lparr>ld_allocations := ld_allocations (fst s) @ [x]\<rparr> \<and> al_trade_id x = tid \<and>
    snd s' = dict_pop (snd s) (signal_instrument_id (order_signal (fill_order f)))"
proof -
  let ?iid = "signal_instrument_id (order_signal (fill_order f))"
  obtain l trades where s: "s = (l, trades)" by fastforce
  obtain tid entry where t: "dict_get trades ?iid = Some (tid, entry)"
    using assms by (auto simp: close_round_trip_def s Let_def split: option.splits)
  have "\<exists>g l'. (\<forall>r. tr_id (g r) = tr_id r \<and> tr_run_id (g r) = tr_run_id r \<and>
       (g r = r \<or> (\<exists>n. tr_net_pnl (g r) = Some n \<and> to_numeric (net_pnl entry f) = Inr n))) \<and>
     insert_allocation tid fid LEG_EXIT (fill_quantity (economics f)) (update_trade tid g l) = Inr l' \<and> s' = (l', dict_pop trades ?iid)"
  proof (cases "find (\<lambda>r. tr_id r = tid \<and> \<not> tr_closed r) (tbl_rows (ld_trades l))")
    case None
    then obtain l' where "insert_allocation tid fid LEG_EXIT (fill_quantity (economics f)) (update_trade tid (\<lambda>r. r) l) = Inr l'"
      "s' = (l', dict_pop trades ?iid)"
      using assms by (auto simp: close_round_trip_def s t Let_def rbind_Inr_iff update_trade_id)
    then show ?thesis by (intro exI [of _ "\<lambda>r. r"]) auto
  next
    case (Some row)
    then obtain price gross net commission slippage tax frac l' where net: "to_numeric (net_pnl entry f) = Inr net"
      and "insert_allocation tid fid LEG_EXIT (fill_quantity (economics f)) (update_trade tid
        (\<lambda>r. r\<lparr>tr_exit_signal_id := Some sid, tr_exit_ts := Some (fill_ts f),
           tr_exit_price := Some price, tr_gross_pnl := Some gross, tr_commission := commission,
           tr_slippage := slippage, tr_tax := tax, tr_net_pnl := Some net,
           tr_return_fraction := Some frac, tr_closed := True\<rparr>) l) = Inr l'" "s' = (l', dict_pop trades ?iid)"
      using assms by (auto simp: close_round_trip_def s t Let_def rbind_Inr_iff split: if_splits)
    then show ?thesis
      by (intro exI [of _ "\<lambda>r. r\<lparr>tr_exit_signal_id := Some sid, tr_exit_ts := Some (fill_ts f),
           tr_exit_price := Some price, tr_gross_pnl := Some gross, tr_commission := commission,
           tr_slippage := slippage, tr_tax := tax, tr_net_pnl := Some net,
           tr_return_fraction := Some frac, tr_closed := True\<rparr>"]) auto
  qed
  then obtain g l' where g: "\<forall>r. tr_id (g r) = tr_id r \<and> tr_run_id (g r) = tr_run_id r \<and>
       (g r = r \<or> (\<exists>n. tr_net_pnl (g r) = Some n \<and> to_numeric (net_pnl entry f) = Inr n))"
    and a: "insert_allocation tid fid LEG_EXIT (fill_quantity (economics f)) (update_trade tid g l) = Inr l'"
    and s': "s' = (l', dict_pop trades ?iid)" by blast
  from insert_allocation_Inr [OF a] t g show ?thesis
    unfolding s s' by (intro exI [of _ tid] exI [of _ entry] exI [of _ g]) auto
qed

lemma update_trade_new:
  assumes "\<forall>r \<in> set (tbl_rows (ld_trades l)). tr_id r \<noteq> tid"
  shows "update_trade tid g (l\<lparr>ld_trades := appended trs (ld_trades l), ld_allocations := al\<rparr>) =
    l\<lparr>ld_trades := appended (map (\<lambda>r. if tr_id r = tid \<and> \<not> tr_closed r then g r else r) trs) (ld_trades l), ld_allocations := al\<rparr>"
proof -
  have "map (\<lambda>r. if tr_id r = tid \<and> \<not> tr_closed r then g r else r) (tbl_rows (ld_trades l)) = tbl_rows (ld_trades l)"
    using assms by (simp add: map_idI)
  then show ?thesis by (simp add: update_trade_def appended_def)
qed

lemma dict_get_pop_Some: "dict_get (dict_pop d k) k' = Some v \<Longrightarrow> dict_get d k' = Some v"
  by (simp add: dict_get_pop split: if_splits)

lemma insert_round_trips_Inr:
  assumes old: "\<forall>r \<in> set (tbl_rows (ld_trades l)). tr_id r < tbl_next (ld_trades l)"
    and ins: "fold_result (insert_round_trip lx fids sids) fs (l, []) = Inr s'"
  shows "trips_written lx l fs s'"
proof (rule fold_result_prefix [OF ins, where P = "trips_written lx l"])
  show "trips_written lx l [] (l, [])"
    unfolding trips_written_def by (intro exI [of _ "[]"]) (simp add: dict_get_def)
  fix f ys s s'
  assume f: "insert_round_trip lx fids sids f s = Inr s'" and "trips_written lx l ys s"
  then obtain trs al where s: "fst s = l\<lparr>ld_trades := appended trs (ld_trades l), ld_allocations := ld_allocations l @ al\<rparr>"
    and trs: "ids_from (tbl_next (ld_trades l)) (map tr_id trs)" "\<forall>r \<in> set trs. tr_run_id r = lx_run_id lx \<and> trade_justified ys r"
    and trades: "\<forall>k tid entry. dict_get (snd s) k = Some (tid, entry) \<longrightarrow> tid \<in> tr_id ` set trs \<and> entry \<in> set ys"
    and al: "\<forall>x \<in> set al. al_trade_id x \<in> tr_id ` set trs"
    unfolding trips_written_def by blast
  let ?iid = "signal_instrument_id (order_signal (fill_order f))"
  show "trips_written lx l (ys @ [f]) s'"
  proof (cases "fill_side (economics f) = BUY")
    case True
    then obtain fid sid where "open_round_trip lx fid sid f s = Inr s'"
      using f by (auto simp: insert_round_trip_def rbind_Inr_iff)
    from open_round_trip_Inr [OF this] obtain r x where
      s': "fst s' = (fst s)\<lparr>ld_trades := appended [r] (ld_trades (fst s)), ld_allocations := ld_allocations (fst s) @ [x]\<rparr>"
        "snd s' = dict_set (snd s) ?iid (tr_id r, f)"
      and r: "tr_id r = tbl_next (ld_trades (fst s))" "tr_run_id r = lx_run_id lx" "\<not> tr_closed r" "al_trade_id x = tr_id r"
      by blast
    have "ids_from (tbl_next (ld_trades l)) (map tr_id (trs @ [r]))"
      using trs(1) r(1) by (simp add: s ids_from_snoc)
    moreover have "\<forall>y \<in> set (trs @ [r]). tr_run_id y = lx_run_id lx \<and> trade_justified (ys @ [f]) y"
      using trs(2) r trade_justified_more [of ys _ "[f]"] by (auto simp: trade_justified_def)
    moreover have "\<forall>k tid entry. dict_get (snd s') k = Some (tid, entry) \<longrightarrow> tid \<in> tr_id ` set (trs @ [r]) \<and> entry \<in> set (ys @ [f])"
      using trades by (auto simp: s' dict_get_set split: if_splits)
    ultimately show ?thesis
      unfolding trips_written_def using al r(4)
      by (intro exI [of _ "trs @ [r]"] exI [of _ "al @ [x]"]) (auto simp: s'(1) s)
  next
    case False
    then obtain fid sid where "close_round_trip lx fid sid f s = Inr s'"
      using f by (auto simp: insert_round_trip_def rbind_Inr_iff split: if_splits)
    from close_round_trip_Inr [OF this] obtain tid entry g x where
      t: "dict_get (snd s) ?iid = Some (tid, entry)"
      and g: "\<forall>r. tr_id (g r) = tr_id r \<and> tr_run_id (g r) = tr_run_id r \<and>
         (g r = r \<or> (\<exists>n. tr_net_pnl (g r) = Some n \<and> to_numeric (net_pnl entry f) = Inr n))"
      and s': "fst s' = (update_trade tid g (fst s))\<lparr>ld_allocations := ld_allocations (fst s) @ [x]\<rparr>" "al_trade_id x = tid"
        "snd s' = dict_pop (snd s) ?iid"
      by blast
    let ?trs = "map (\<lambda>r. if tr_id r = tid \<and> \<not> tr_closed r then g r else r) trs"
    have tid: "tid \<in> tr_id ` set trs" "entry \<in> set ys" using trades t by blast+
    then have "tbl_next (ld_trades l) \<le> tid" using ids_from_bounds [OF trs(1)] by auto
    then have "\<forall>r \<in> set (tbl_rows (ld_trades l)). tr_id r \<noteq> tid" using old by fastforce
    then have fst': "fst s' = l\<lparr>ld_trades := appended ?trs (ld_trades l), ld_allocations := ld_allocations l @ al @ [x]\<rparr>"
      by (simp add: s' s update_trade_new)
    have ids: "map tr_id ?trs = map tr_id trs" using g by auto
    then have same: "tr_id ` set ?trs = tr_id ` set trs" by (metis list.set_map)
    have "trade_justified (ys @ [f]) (g r)" if r: "r \<in> set trs" for r
    proof (cases "g r = r")
      case True
      then show ?thesis using trs(2) r trade_justified_more by metis
    next
      case False
      then obtain n where "tr_net_pnl (g r) = Some n" "to_numeric (net_pnl entry f) = Inr n" using g by blast
      then show ?thesis
        using tid(2) \<open>fill_side (economics f) \<noteq> BUY\<close> unfolding trade_justified_def by auto
    qed
    then have "\<forall>y \<in> set ?trs. tr_run_id y = lx_run_id lx \<and> trade_justified (ys @ [f]) y"
      using trs(2) g trade_justified_more [of ys _ "[f]"] by auto
    moreover have "\<forall>k i e. dict_get (snd s') k = Some (i, e) \<longrightarrow> i \<in> tr_id ` set ?trs \<and> e \<in> set (ys @ [f])"
      unfolding same using trades by (auto simp: s'(3) dest!: dict_get_pop_Some)
    moreover have "\<forall>y \<in> set (al @ [x]). al_trade_id y \<in> tr_id ` set ?trs"
      unfolding same using al tid(1) s'(2) by auto
    moreover have "ids_from (tbl_next (ld_trades l)) (map tr_id ?trs)" unfolding ids by (rule trs(1))
    ultimately show ?thesis
      unfolding trips_written_def using fst' by blast
  qed
qed

definition valuations_written :: "ledger_context \<Rightarrow> ledger \<Rightarrow> ledger \<Rightarrow> bool" where
  "valuations_written lx l l' \<longleftrightarrow>
     (\<exists>s v e. l' = l\<lparr>ld_snapshots := ld_snapshots l @ s, ld_valuation_references := ld_valuation_references l @ v, ld_equity := ld_equity l @ e\<rparr> \<and>
        (\<forall>x \<in> set s. ps_run_id x = lx_run_id lx) \<and> (\<forall>x \<in> set e. eq_run_id x = lx_run_id lx) \<and>
        (\<forall>x \<in> set v. pv_run_id x = lx_run_id lx \<and> bf_effective_at (pv_bar x) \<le> pv_ts x))"

lemma insert_valuation_Inr:
  assumes "insert_valuation lx v l = Inr l'"
  shows "\<exists>s r. l' = l\<lparr>ld_snapshots := ld_snapshots l @ [s], ld_valuation_references := ld_valuation_references l @ [r]\<rparr> \<and>
    ps_run_id s = lx_run_id lx \<and> pv_run_id r = lx_run_id lx \<and> bf_effective_at (pv_bar r) \<le> pv_ts r"
proof -
  obtain ref s where ref: "point_in_time lx (\<lambda>r. r = VALUATION) (Some (valuation_instrument_id v)) (snapshot_ts v)
      (bar_ref_of (valuation_reference_bar v)) = Inr ref"
    and l': "l' = l\<lparr>ld_snapshots := ld_snapshots l @ [s], ld_valuation_references := ld_valuation_references l @
      [\<lparr>pv_run_id = lx_run_id lx, pv_instrument_id = valuation_instrument_id v, pv_ts = snapshot_ts v, pv_bar = ref\<rparr>]\<rparr>"
    and s: "ps_run_id s = lx_run_id lx"
    using assms by (clarsimp simp: insert_valuation_def Let_def rbind_Inr_iff split: if_splits) (metis position_snapshot_row.select_convs(1))
  have "bf_effective_at ref \<le> snapshot_ts v"
    using ref by (auto simp: point_in_time_def Let_def split: option.splits if_splits)
  then show ?thesis unfolding l' using s by (intro exI) auto
qed

lemma insert_valuations_Inr:
  assumes "insert_valuations lx result l = Inr l'"
  shows "valuations_written lx l l'"
proof -
  obtain t where t: "fold_result (insert_valuation lx) (valuations result) l = Inr t" "insert_equity_point lx result t = Inr l'"
    using assms by (auto simp: insert_valuations_def rbind_Inr_iff)
  have "\<exists>s v. t = l\<lparr>ld_snapshots := ld_snapshots l @ s, ld_valuation_references := ld_valuation_references l @ v\<rparr> \<and>
      (\<forall>x \<in> set s. ps_run_id x = lx_run_id lx) \<and> (\<forall>x \<in> set v. pv_run_id x = lx_run_id lx \<and> bf_effective_at (pv_bar x) \<le> pv_ts x)"
  proof (rule fold_result_prefix [OF t(1), where P = "\<lambda>_ t. \<exists>s v. t = l\<lparr>ld_snapshots := ld_snapshots l @ s,
      ld_valuation_references := ld_valuation_references l @ v\<rparr> \<and> (\<forall>x \<in> set s. ps_run_id x = lx_run_id lx) \<and>
      (\<forall>x \<in> set v. pv_run_id x = lx_run_id lx \<and> bf_effective_at (pv_bar x) \<le> pv_ts x)"])
    show "\<exists>s v. l = l\<lparr>ld_snapshots := ld_snapshots l @ s, ld_valuation_references := ld_valuation_references l @ v\<rparr> \<and>
      (\<forall>x \<in> set s. ps_run_id x = lx_run_id lx) \<and> (\<forall>x \<in> set v. pv_run_id x = lx_run_id lx \<and> bf_effective_at (pv_bar x) \<le> pv_ts x)"
      by (intro exI [of _ "[]"]) simp
    fix w ys t t'
    assume f: "insert_valuation lx w t = Inr t'" and "\<exists>s v. t = l\<lparr>ld_snapshots := ld_snapshots l @ s, ld_valuation_references := ld_valuation_references l @ v\<rparr> \<and>
      (\<forall>x \<in> set s. ps_run_id x = lx_run_id lx) \<and> (\<forall>x \<in> set v. pv_run_id x = lx_run_id lx \<and> bf_effective_at (pv_bar x) \<le> pv_ts x)"
    then obtain s v where t: "t = l\<lparr>ld_snapshots := ld_snapshots l @ s, ld_valuation_references := ld_valuation_references l @ v\<rparr>"
      "\<forall>x \<in> set s. ps_run_id x = lx_run_id lx" "\<forall>x \<in> set v. pv_run_id x = lx_run_id lx \<and> bf_effective_at (pv_bar x) \<le> pv_ts x" by blast
    obtain x y where "t' = t\<lparr>ld_snapshots := ld_snapshots t @ [x], ld_valuation_references := ld_valuation_references t @ [y]\<rparr>"
      "ps_run_id x = lx_run_id lx" "pv_run_id y = lx_run_id lx" "bf_effective_at (pv_bar y) \<le> pv_ts y"
      using insert_valuation_Inr [OF f] by blast
    then show "\<exists>s v. t' = l\<lparr>ld_snapshots := ld_snapshots l @ s, ld_valuation_references := ld_valuation_references l @ v\<rparr> \<and>
      (\<forall>x \<in> set s. ps_run_id x = lx_run_id lx) \<and> (\<forall>x \<in> set v. pv_run_id x = lx_run_id lx \<and> bf_effective_at (pv_bar x) \<le> pv_ts x)"
      using t by (intro exI [of _ "s @ [x]"] exI [of _ "v @ [y]"]) auto
  qed
  then obtain s v where sv: "t = l\<lparr>ld_snapshots := ld_snapshots l @ s, ld_valuation_references := ld_valuation_references l @ v\<rparr>"
      "\<forall>x \<in> set s. ps_run_id x = lx_run_id lx" "\<forall>x \<in> set v. pv_run_id x = lx_run_id lx \<and> bf_effective_at (pv_bar x) \<le> pv_ts x" by blast
  have "\<exists>e. l' = t\<lparr>ld_equity := ld_equity t @ [e]\<rparr> \<and> eq_run_id e = lx_run_id lx"
    using t(2) by (auto simp: insert_equity_point_def Let_def rbind_Inr_iff split: if_splits intro!: exI [of _ "\<lparr>eq_run_id = _, eq_ts = _, eq_cash = _, eq_equity = _, eq_gross_exposure = _, eq_net_exposure = _\<rparr>"])
  then obtain e where "l' = t\<lparr>ld_equity := ld_equity t @ [e]\<rparr>" "eq_run_id e = lx_run_id lx" by blast
  then show ?thesis
    unfolding valuations_written_def using sv by (intro exI [of _ s] exI [of _ v] exI [of _ "[e]"]) auto
qed

lemma insert_summary_Inr:
  assumes "insert_summary lx s l = Inr l'"
  shows "\<exists>r. l' = l\<lparr>ld_summaries := ld_summaries l @ [r]\<rparr> \<and> su_run_id r = lx_run_id lx"
  using assms
  by (clarsimp simp: insert_summary_def rbind_Inr_iff split: if_splits) (rule exI, rule conjI, rule refl, simp)

subsection \<open>The whole ledger\<close>

text \<open>Identifiers of the tables that others refer to lie below the next one.\<close>

definition ledger_ids_ok :: "ledger \<Rightarrow> bool" where
  "ledger_ids_ok l \<longleftrightarrow>
     (\<forall>r \<in> set (tbl_rows (ld_decisions l)). dc_id r < tbl_next (ld_decisions l)) \<and>
     (\<forall>r \<in> set (ld_inputs l). di_context_id r < tbl_next (ld_decisions l)) \<and>
     (\<forall>r \<in> set (tbl_rows (ld_orders l)). od_id r < tbl_next (ld_orders l)) \<and>
     (\<forall>r \<in> set (tbl_rows (ld_fills l)). fl_order_id r < tbl_next (ld_orders l)) \<and>
     (\<forall>r \<in> set (tbl_rows (ld_trades l)). tr_id r < tbl_next (ld_trades l)) \<and>
     (\<forall>r \<in> set (ld_allocations l). al_trade_id r < tbl_next (ld_trades l))"

definition filled_keys :: "simulation_result \<Rightarrow> pystr set" where
  "filled_keys result = (semantic_key \<circ> fill_order) ` set (fills result)"

text \<open>
  The ledger after \<^verbatim>\<open>persist\<close>: it holds the journal of the simulation, decision by decision, signal by signal, order by
  order with its events, fill by fill with its cash and position entries.
\<close>

definition holds_journal :: "ledger_context \<Rightarrow> decimal \<Rightarrow> simulation_result \<Rightarrow> ledger \<Rightarrow> ledger \<Rightarrow> bool" where
  "holds_journal lx capital result l l' \<longleftrightarrow>
     (\<exists>ds ss os fs es ca ps.
        tbl_rows (ld_decisions l') = tbl_rows (ld_decisions l) @ ds \<and> list_all2 (decision_stored (lx_run_id lx)) (decisions result) ds \<and>
        tbl_rows (ld_signals l') = tbl_rows (ld_signals l) @ ss \<and> list_all2 (signal_stored (lx_run_id lx)) (signals result) ss \<and>
        tbl_rows (ld_orders l') = tbl_rows (ld_orders l) @ os \<and>
        list_all2 (order_stored (lx_run_id lx) (filled_keys result)) (orders result) os \<and> distinct (map od_id os) \<and>
        tbl_rows (ld_fills l') = tbl_rows (ld_fills l) @ fs \<and>
        list_all2 (fill_stored (lx_run_id lx) (\<lambda>k. map_option od_id (find (\<lambda>r. od_key r = k) os))) (fills result) fs \<and>
        tbl_rows (ld_order_events l') = tbl_rows (ld_order_events l) @ es \<and>
        list_all2 (event_stored (lx_run_id lx))
          (concat (map (\<lambda>ord. map (Pair ord) (order_events (semantic_key ord \<in> filled_keys result))) (orders result))) es \<and>
        tbl_rows (ld_cash l') = tbl_rows (ld_cash l) @ ca \<and>
        list_all2 (cash_stored (lx_run_id lx))
          ((INITIAL_CAPITAL, capital, u ''initial-capital'') # concat (map fill_cash_entries (fills result))) ca \<and>
        tbl_rows (ld_positions l') = tbl_rows (ld_positions l) @ ps \<and> list_all2 (position_stored (lx_run_id lx)) (fills result) ps)"

lemma ids_of_find:
  assumes "ids_of key ident new ids" and "distinct (map key new)"
  shows "dict_get ids k = map_option ident (find (\<lambda>r. key r = k) new)"
proof (cases "find (\<lambda>r. key r = k) new")
  case None
  then have "k \<notin> key ` set new" by (auto simp: find_None_iff)
  moreover have "dict_get ids k = None" if "k \<notin> key ` set new"
  proof (rule ccontr)
    assume "dict_get ids k \<noteq> None"
    then obtain i where "dict_get ids k = Some i" by blast
    then obtain r where "r \<in> set new" "key r = k" using assms(1) unfolding ids_of_def by blast
    then show False using that by blast
  qed
  ultimately show ?thesis using None by simp
next
  case (Some r)
  then have "r \<in> set new" "key r = k" by (auto simp: find_Some_iff)
  then show ?thesis using assms(1) Some by (auto simp: ids_of_def)
qed

lemma ids_of_keys: "ids_of key ident new ids \<Longrightarrow> dict_get ids k \<noteq> None \<longleftrightarrow> k \<in> key ` set new"
  unfolding ids_of_def by (metis imageE image_eqI not_None_eq)

lemma fills_written_keys:
  assumes "fills_written lx oids l fs s"
  shows "dict_get (snd s) k \<noteq> None \<longleftrightarrow> k \<in> (semantic_key \<circ> fill_order) ` set fs"
proof -
  from assms obtain new where new: "list_all2 (fill_stored (lx_run_id lx) (dict_get oids)) fs new"
    "ids_of fl_execution_key fl_id new (snd s)" by (auto simp: fills_written_def)
  have "map fl_execution_key new = map (semantic_key \<circ> fill_order) fs"
    using new(1) by (induction rule: list_all2_induct) (auto simp: fill_stored_def)
  then have "fl_execution_key ` set new = (semantic_key \<circ> fill_order) ` set fs" by (metis list.set_map)
  then show ?thesis using ids_of_keys [OF new(2)] by simp
qed

text \<open>Every row that \<^verbatim>\<open>persist\<close> adds, in one place: the ledger before and after differ by these rows.\<close>

lemma persist_rows:
  assumes "persist lx result capital currency summary l = Inr l'" and "ledger_ids_ok l"
  obtains ds inp ss os fs refs es ca ps trs al sn vr e su where
    "l' = l\<lparr>ld_decisions := appended ds (ld_decisions l), ld_inputs := ld_inputs l @ inp, ld_signals := appended ss (ld_signals l),
       ld_orders := appended os (ld_orders l), ld_fills := appended fs (ld_fills l), ld_fill_references := ld_fill_references l @ refs,
       ld_trades := appended trs (ld_trades l), ld_allocations := ld_allocations l @ al,
       ld_order_events := appended es (ld_order_events l), ld_cash := appended ca (ld_cash l),
       ld_positions := appended ps (ld_positions l), ld_snapshots := ld_snapshots l @ sn,
       ld_valuation_references := ld_valuation_references l @ vr, ld_equity := ld_equity l @ e, ld_summaries := ld_summaries l @ [su]\<rparr>"
    "list_all2 (decision_stored (lx_run_id lx)) (decisions result) ds" "ids_from (tbl_next (ld_decisions l)) (map dc_id ds)"
    "\<forall>x \<in> set inp. \<exists>r \<in> set ds. di_context_id x = dc_id r \<and> bf_effective_at (di_bar x) \<le> dc_ts r"
    "list_all2 (signal_stored (lx_run_id lx)) (signals result) ss"
    "list_all2 (order_stored (lx_run_id lx) (filled_keys result)) (orders result) os" "ids_from (tbl_next (ld_orders l)) (map od_id os)"
    "distinct (map od_key os)"
    "list_all2 (fill_stored (lx_run_id lx) (\<lambda>k. map_option od_id (find (\<lambda>r. od_key r = k) os))) (fills result) fs"
    "distinct (map fl_execution_key fs)"
    "list_all2 (\<lambda>f x. fr_run_id x = lx_run_id lx \<and> fr_bar x = (bar_ref_of (reference_bar f))\<lparr>bf_effective_at := bf_effective_at (fr_bar x)\<rparr> \<and>
       bf_effective_at (fr_bar x) \<le> fill_ts f) (fills result) refs"
    "list_all2 (event_stored (lx_run_id lx))
       (concat (map (\<lambda>ord. map (Pair ord) (order_events (semantic_key ord \<in> filled_keys result))) (orders result))) es"
    "list_all2 (cash_stored (lx_run_id lx))
       ((INITIAL_CAPITAL, capital, u ''initial-capital'') # concat (map fill_cash_entries (fills result))) ca"
    "list_all2 (position_stored (lx_run_id lx)) (fills result) ps"
    "ids_from (tbl_next (ld_trades l)) (map tr_id trs)" "\<forall>r \<in> set trs. tr_run_id r = lx_run_id lx \<and> trade_justified (fills result) r"
    "\<forall>x \<in> set al. al_trade_id x \<in> tr_id ` set trs"
    "\<forall>x \<in> set sn. ps_run_id x = lx_run_id lx" "\<forall>x \<in> set e. eq_run_id x = lx_run_id lx"
    "\<forall>x \<in> set vr. pv_run_id x = lx_run_id lx \<and> bf_effective_at (pv_bar x) \<le> pv_ts x" "su_run_id su = lx_run_id lx"
proof -
  from assms(1) obtain ts l1 l2 cids l3 sids l4 oids l5 fids l6 l7 trades l8 l9 where
    l1: "insert_cash lx ts currency INITIAL_CAPITAL capital (u ''initial-capital'') None l = Inr l1"
    and l2: "fold_result (insert_decision lx) (decisions result) (l1, []) = Inr (l2, cids)"
    and l3: "fold_result (insert_signal lx cids) (signals result) (l2, []) = Inr (l3, sids)"
    and l4: "fold_result (insert_order lx (map (semantic_key \<circ> fill_order) (fills result)) sids) (orders result) (l3, []) = Inr (l4, oids)"
    and l5: "fold_result (insert_fill lx currency oids) (fills result) (l4, []) = Inr (l5, fids)"
    and l6: "fold_result (insert_order_events lx oids fids) (orders result) l5 = Inr l6"
    and l7: "fold_result (insert_round_trip lx fids sids) (fills result) (l6, []) = Inr (l7, trades)"
    and l8: "fold_result (insert_cash_and_position lx fids currency) (fills result) l7 = Inr l8"
    and l9: "insert_valuations lx result l8 = Inr l9" and l10: "insert_summary lx summary l9 = Inr l'"
    unfolding persist_def rbind_Inr_iff by (auto simp: rbind_Inr_iff simp del: u_Cons)
  obtain c0 where c0: "l1 = l\<lparr>ld_cash := appended [c0] (ld_cash l)\<rparr>"
    "cash_stored (lx_run_id lx) (INITIAL_CAPITAL, capital, u ''initial-capital'') c0"
    using insert_cash_Inr [OF l1] by blast
  obtain ds inp where ds: "l2 = l1\<lparr>ld_decisions := appended ds (ld_decisions l1), ld_inputs := ld_inputs l1 @ inp\<rparr>"
    "list_all2 (decision_stored (lx_run_id lx)) (decisions result) ds" "ids_from (tbl_next (ld_decisions l1)) (map dc_id ds)"
    "\<forall>x \<in> set inp. \<exists>r \<in> set ds. di_context_id x = dc_id r \<and> bf_effective_at (di_bar x) \<le> dc_ts r"
    using insert_decisions_Inr [OF l2] unfolding decisions_written_def by blast
  obtain ss where ss: "l3 = l2\<lparr>ld_signals := appended ss (ld_signals l2)\<rparr>" "list_all2 (signal_stored (lx_run_id lx)) (signals result) ss"
    using insert_signals_Inr [OF l3] unfolding signals_written_def by blast
  obtain os where os: "l4 = l3\<lparr>ld_orders := appended os (ld_orders l3)\<rparr>"
    "list_all2 (order_stored (lx_run_id lx) (filled_keys result)) (orders result) os" "ids_from (tbl_next (ld_orders l3)) (map od_id os)"
    "distinct (map od_key os)" "ids_of od_key od_id os oids"
    using insert_orders_Inr [OF l4] unfolding orders_written_def by (auto simp: filled_keys_def)
  have fw: "fills_written lx oids l4 (fills result) (l5, fids)" by (rule insert_fills_Inr [OF l5])
  obtain fs refs where fs: "l5 = l4\<lparr>ld_fills := appended fs (ld_fills l4), ld_fill_references := ld_fill_references l4 @ refs\<rparr>"
    "list_all2 (fill_stored (lx_run_id lx) (dict_get oids)) (fills result) fs" "distinct (map fl_execution_key fs)"
    "list_all2 (\<lambda>f x. fr_run_id x = lx_run_id lx \<and> fr_bar x = (bar_ref_of (reference_bar f))\<lparr>bf_effective_at := bf_effective_at (fr_bar x)\<rparr> \<and>
       bf_effective_at (fr_bar x) \<le> fill_ts f) (fills result) refs"
    using fw unfolding fills_written_def fst_conv by blast
  have keys: "(\<lambda>ord. dict_get fids (semantic_key ord) \<noteq> None) = (\<lambda>ord. semantic_key ord \<in> filled_keys result)"
    using fills_written_keys [OF fw] unfolding snd_conv filled_keys_def by (intro ext)
  obtain es where es: "l6 = l5\<lparr>ld_order_events := appended es (ld_order_events l5)\<rparr>"
    "list_all2 (event_stored (lx_run_id lx))
       (concat (map (\<lambda>ord. map (Pair ord) (order_events (semantic_key ord \<in> filled_keys result))) (orders result))) es"
    using insert_order_events_Inr [OF l6] unfolding events_written_def keys by blast
  have trades: "ld_trades l6 = ld_trades l" "ld_allocations l6 = ld_allocations l"
    by (simp_all add: es(1) fs(1) os(1) ss(1) ds(1) c0(1))
  have "\<forall>r \<in> set (tbl_rows (ld_trades l6)). tr_id r < tbl_next (ld_trades l6)"
    using assms(2) by (simp add: trades ledger_ids_ok_def)
  from insert_round_trips_Inr [OF this l7] obtain trs al where
    trs: "l7 = l6\<lparr>ld_trades := appended trs (ld_trades l6), ld_allocations := ld_allocations l6 @ al\<rparr>"
    "ids_from (tbl_next (ld_trades l6)) (map tr_id trs)" "\<forall>r \<in> set trs. tr_run_id r = lx_run_id lx \<and> trade_justified (fills result) r"
    "\<forall>x \<in> set al. al_trade_id x \<in> tr_id ` set trs"
    unfolding trips_written_def fst_conv by blast
  obtain c p where c: "l8 = l7\<lparr>ld_cash := appended c (ld_cash l7), ld_positions := appended p (ld_positions l7)\<rparr>"
    "list_all2 (cash_stored (lx_run_id lx)) (concat (map fill_cash_entries (fills result))) c"
    "list_all2 (position_stored (lx_run_id lx)) (fills result) p"
    using insert_accounts_Inr [OF l8] unfolding accounts_written_def by blast
  obtain sn vr e where v: "l9 = l8\<lparr>ld_snapshots := ld_snapshots l8 @ sn, ld_valuation_references := ld_valuation_references l8 @ vr,
      ld_equity := ld_equity l8 @ e\<rparr>" "\<forall>x \<in> set sn. ps_run_id x = lx_run_id lx" "\<forall>x \<in> set e. eq_run_id x = lx_run_id lx"
    "\<forall>x \<in> set vr. pv_run_id x = lx_run_id lx \<and> bf_effective_at (pv_bar x) \<le> pv_ts x"
    using insert_valuations_Inr [OF l9] unfolding valuations_written_def by blast
  obtain su where su: "l' = l9\<lparr>ld_summaries := ld_summaries l9 @ [su]\<rparr>" "su_run_id su = lx_run_id lx"
    using insert_summary_Inr [OF l10] by blast
  have fs2: "list_all2 (fill_stored (lx_run_id lx) (\<lambda>k. map_option od_id (find (\<lambda>r. od_key r = k) os))) (fills result) fs"
    using fs(2) unfolding ids_of_find [OF os(5) os(4)] .
  have nexts: "tbl_next (ld_decisions l1) = tbl_next (ld_decisions l)" "tbl_next (ld_orders l3) = tbl_next (ld_orders l)"
    "tbl_next (ld_trades l6) = tbl_next (ld_trades l)"
    by (simp_all add: es(1) fs(1) os(1) ss(1) ds(1) c0(1))
  show ?thesis
  proof (rule that)
    show "l' = l\<lparr>ld_decisions := appended ds (ld_decisions l), ld_inputs := ld_inputs l @ inp, ld_signals := appended ss (ld_signals l),
       ld_orders := appended os (ld_orders l), ld_fills := appended fs (ld_fills l), ld_fill_references := ld_fill_references l @ refs,
       ld_trades := appended trs (ld_trades l), ld_allocations := ld_allocations l @ al,
       ld_order_events := appended es (ld_order_events l), ld_cash := appended ([c0] @ c) (ld_cash l),
       ld_positions := appended p (ld_positions l), ld_snapshots := ld_snapshots l @ sn,
       ld_valuation_references := ld_valuation_references l @ vr, ld_equity := ld_equity l @ e, ld_summaries := ld_summaries l @ [su]\<rparr>"
      by (simp add: su(1) v(1) c(1) trs(1) es(1) fs(1) os(1) ss(1) ds(1) c0(1))
    show "list_all2 (cash_stored (lx_run_id lx))
       ((INITIAL_CAPITAL, capital, u ''initial-capital'') # concat (map fill_cash_entries (fills result))) ([c0] @ c)"
      using c0(2) c(2) by (simp del: u_Cons)
  qed (use ds ss os fs fs2 es trs c v su nexts in \<open>simp_all del: u_Cons\<close>)
qed

lemma persist_holds_journal:
  assumes "persist lx result capital currency summary l = Inr l'" and "ledger_ids_ok l"
  shows "holds_journal lx capital result l l'"
proof (rule persist_rows [OF assms])
  fix ds inp ss os fs refs es ca ps trs al sn vr e su
  assume l': "l' = l\<lparr>ld_decisions := appended ds (ld_decisions l), ld_inputs := ld_inputs l @ inp, ld_signals := appended ss (ld_signals l),
       ld_orders := appended os (ld_orders l), ld_fills := appended fs (ld_fills l), ld_fill_references := ld_fill_references l @ refs,
       ld_trades := appended trs (ld_trades l), ld_allocations := ld_allocations l @ al,
       ld_order_events := appended es (ld_order_events l), ld_cash := appended ca (ld_cash l),
       ld_positions := appended ps (ld_positions l), ld_snapshots := ld_snapshots l @ sn,
       ld_valuation_references := ld_valuation_references l @ vr, ld_equity := ld_equity l @ e, ld_summaries := ld_summaries l @ [su]\<rparr>"
    and "list_all2 (decision_stored (lx_run_id lx)) (decisions result) ds" "list_all2 (signal_stored (lx_run_id lx)) (signals result) ss"
    "list_all2 (order_stored (lx_run_id lx) (filled_keys result)) (orders result) os" "ids_from (tbl_next (ld_orders l)) (map od_id os)"
    "list_all2 (fill_stored (lx_run_id lx) (\<lambda>k. map_option od_id (find (\<lambda>r. od_key r = k) os))) (fills result) fs"
    "list_all2 (event_stored (lx_run_id lx))
       (concat (map (\<lambda>ord. map (Pair ord) (order_events (semantic_key ord \<in> filled_keys result))) (orders result))) es"
    "list_all2 (cash_stored (lx_run_id lx))
       ((INITIAL_CAPITAL, capital, u ''initial-capital'') # concat (map fill_cash_entries (fills result))) ca"
    "list_all2 (position_stored (lx_run_id lx)) (fills result) ps"
  then show ?thesis
    unfolding holds_journal_def
    by (intro exI [of _ ds] exI [of _ ss] exI [of _ os] exI [of _ fs] exI [of _ es] exI [of _ ca] exI [of _ ps])
      (simp add: ids_from_distinct del: u_Cons)
qed

lemma fill_orders_exist:
  assumes "list_all2 (fill_stored i (\<lambda>k. map_option od_id (find (\<lambda>r. od_key r = k) os))) fls fs" and "f \<in> set fs"
  shows "\<exists>r \<in> set os. od_id r = fl_order_id f \<and> od_key r = fl_execution_key f"
proof -
  obtain g where "fill_stored i (\<lambda>k. map_option od_id (find (\<lambda>r. od_key r = k) os)) g f"
    using assms by (meson list_all2_right)
  then obtain r where "find (\<lambda>r. od_key r = fl_execution_key f) os = Some r" "od_id r = fl_order_id f"
    by (auto simp: fill_stored_def)
  then show ?thesis by (auto simp: find_Some_iff)
qed

lemma ids_from_less: "ids_from n (map g xs) \<Longrightarrow> x \<in> set xs \<Longrightarrow> n \<le> g x \<and> g x < n + int (length xs)"
  using ids_from_bounds [of n "map g xs" "g x"] by simp

lemma persist_ids_ok:
  assumes "persist lx result capital currency summary l = Inr l'" and "ledger_ids_ok l"
  shows "ledger_ids_ok l'"
proof (rule persist_rows [OF assms])
  fix ds inp ss os fs refs es ca ps trs al sn vr e su
  assume l': "l' = l\<lparr>ld_decisions := appended ds (ld_decisions l), ld_inputs := ld_inputs l @ inp, ld_signals := appended ss (ld_signals l),
       ld_orders := appended os (ld_orders l), ld_fills := appended fs (ld_fills l), ld_fill_references := ld_fill_references l @ refs,
       ld_trades := appended trs (ld_trades l), ld_allocations := ld_allocations l @ al,
       ld_order_events := appended es (ld_order_events l), ld_cash := appended ca (ld_cash l),
       ld_positions := appended ps (ld_positions l), ld_snapshots := ld_snapshots l @ sn,
       ld_valuation_references := ld_valuation_references l @ vr, ld_equity := ld_equity l @ e, ld_summaries := ld_summaries l @ [su]\<rparr>"
    and ds: "ids_from (tbl_next (ld_decisions l)) (map dc_id ds)"
    and inp: "\<forall>x \<in> set inp. \<exists>r \<in> set ds. di_context_id x = dc_id r \<and> bf_effective_at (di_bar x) \<le> dc_ts r"
    and os: "ids_from (tbl_next (ld_orders l)) (map od_id os)"
    and fs: "list_all2 (fill_stored (lx_run_id lx) (\<lambda>k. map_option od_id (find (\<lambda>r. od_key r = k) os))) (fills result) fs"
    and trs: "ids_from (tbl_next (ld_trades l)) (map tr_id trs)" and al: "\<forall>x \<in> set al. al_trade_id x \<in> tr_id ` set trs"
  have grows: "x < n + int k" if "x < n" for x n :: int and k :: nat using that by linarith
  have new: "\<forall>x \<in> set inp. di_context_id x < tbl_next (ld_decisions l) + int (length ds)"
    "\<forall>x \<in> set fs. fl_order_id x < tbl_next (ld_orders l) + int (length os)"
    "\<forall>x \<in> set al. al_trade_id x < tbl_next (ld_trades l) + int (length trs)"
    using inp ids_from_less [OF ds] fill_orders_exist [OF fs] ids_from_less [OF os] al ids_from_less [OF trs] by fastforce+
  then show ?thesis
    using assms(2) ids_from_less [OF ds] ids_from_less [OF os] ids_from_less [OF trs]
    unfolding ledger_ids_ok_def l' by (auto simp: grows)
qed

text \<open>
  The ledger of one run: the rows that name it, and the inputs and allocations of its decisions and trades. Writing the
  ledger of another run leaves it as it is.
\<close>

record run_ledger =
  rl_decisions :: "decision_row list"
  rl_inputs :: "decision_input_row list"
  rl_signals :: "signal_row list"
  rl_orders :: "order_row list"
  rl_fills :: "fill_row list"
  rl_fill_references :: "fill_reference_row list"
  rl_trades :: "trade_row list"
  rl_allocations :: "allocation_row list"
  rl_order_events :: "order_event_row list"
  rl_cash :: "cash_row list"
  rl_positions :: "position_row list"
  rl_snapshots :: "position_snapshot_row list"
  rl_valuation_references :: "valuation_reference_row list"
  rl_equity :: "equity_row list"
  rl_summaries :: "summary_row list"

definition ledger_of :: "int \<Rightarrow> ledger \<Rightarrow> run_ledger" where
  "ledger_of i l =
     \<lparr>rl_decisions = filter (\<lambda>r. dc_run_id r = i) (tbl_rows (ld_decisions l)),
      rl_inputs = filter (\<lambda>x. \<exists>r \<in> set (tbl_rows (ld_decisions l)). dc_run_id r = i \<and> dc_id r = di_context_id x) (ld_inputs l),
      rl_signals = filter (\<lambda>r. sl_run_id r = i) (tbl_rows (ld_signals l)),
      rl_orders = filter (\<lambda>r. od_run_id r = i) (tbl_rows (ld_orders l)),
      rl_fills = filter (\<lambda>r. fl_run_id r = i) (tbl_rows (ld_fills l)),
      rl_fill_references = filter (\<lambda>r. fr_run_id r = i) (ld_fill_references l),
      rl_trades = filter (\<lambda>r. tr_run_id r = i) (tbl_rows (ld_trades l)),
      rl_allocations = filter (\<lambda>x. \<exists>r \<in> set (tbl_rows (ld_trades l)). tr_run_id r = i \<and> tr_id r = al_trade_id x) (ld_allocations l),
      rl_order_events = filter (\<lambda>r. oe_run_id r = i) (tbl_rows (ld_order_events l)),
      rl_cash = filter (\<lambda>r. ca_run_id r = i) (tbl_rows (ld_cash l)),
      rl_positions = filter (\<lambda>r. po_run_id r = i) (tbl_rows (ld_positions l)),
      rl_snapshots = filter (\<lambda>r. ps_run_id r = i) (ld_snapshots l),
      rl_valuation_references = filter (\<lambda>r. pv_run_id r = i) (ld_valuation_references l),
      rl_equity = filter (\<lambda>r. eq_run_id r = i) (ld_equity l),
      rl_summaries = filter (\<lambda>r. su_run_id r = i) (ld_summaries l)\<rparr>"

text \<open>The runs that have any row in the ledger.\<close>

definition ledger_run_ids :: "ledger \<Rightarrow> int set" where
  "ledger_run_ids l =
     dc_run_id ` set (tbl_rows (ld_decisions l)) \<union> sl_run_id ` set (tbl_rows (ld_signals l)) \<union> od_run_id ` set (tbl_rows (ld_orders l)) \<union>
     fl_run_id ` set (tbl_rows (ld_fills l)) \<union> fr_run_id ` set (ld_fill_references l) \<union> tr_run_id ` set (tbl_rows (ld_trades l)) \<union>
     oe_run_id ` set (tbl_rows (ld_order_events l)) \<union> ca_run_id ` set (tbl_rows (ld_cash l)) \<union> po_run_id ` set (tbl_rows (ld_positions l)) \<union>
     ps_run_id ` set (ld_snapshots l) \<union> pv_run_id ` set (ld_valuation_references l) \<union> eq_run_id ` set (ld_equity l) \<union>
     su_run_id ` set (ld_summaries l)"

lemma filter_all_mismatch: "\<forall>x \<in> set xs. f x = i \<Longrightarrow> j \<noteq> i \<Longrightarrow> filter (\<lambda>x. f x = j) xs = []"
  by (induction xs) auto

lemma stored_run_ids:
  "list_all2 (decision_stored i) xs1 ys1 \<Longrightarrow> \<forall>y \<in> set ys1. dc_run_id y = i"
  "list_all2 (signal_stored i) xs2 ys2 \<Longrightarrow> \<forall>y \<in> set ys2. sl_run_id y = i"
  "list_all2 (order_stored i filled) xs3 ys3 \<Longrightarrow> \<forall>y \<in> set ys3. od_run_id y = i"
  "list_all2 (fill_stored i owners) xs4 ys4 \<Longrightarrow> \<forall>y \<in> set ys4. fl_run_id y = i"
  "list_all2 (cash_stored i) xs5 ys5 \<Longrightarrow> \<forall>y \<in> set ys5. ca_run_id y = i"
  "list_all2 (position_stored i) xs6 ys6 \<Longrightarrow> \<forall>y \<in> set ys6. po_run_id y = i"
  "list_all2 (event_stored i) xs7 ys7 \<Longrightarrow> \<forall>y \<in> set ys7. oe_run_id y = i"
  by (fastforce simp: event_stored_def decision_stored_def signal_stored_def order_stored_def fill_stored_def cash_stored_def position_stored_def
      dest: list_all2_right)+

lemma filter_by_owner:
  assumes "\<forall>r \<in> set new. run r \<noteq> j" and "\<And>x r. x \<in> set added \<Longrightarrow> r \<in> set old \<Longrightarrow> ref x \<noteq> ident r"
  shows "filter (\<lambda>x. \<exists>r \<in> set (old @ new). run r = j \<and> ident r = ref x) (xs @ added) =
    filter (\<lambda>x. \<exists>r \<in> set old. run r = j \<and> ident r = ref x) xs"
proof -
  have same: "(\<exists>r \<in> set (old @ new). run r = j \<and> ident r = ref x) \<longleftrightarrow> (\<exists>r \<in> set old. run r = j \<and> ident r = ref x)" for x
    using assms(1) by auto
  have "\<not> (\<exists>r \<in> set old. run r = j \<and> ident r = ref x)" if "x \<in> set added" for x
    using assms(2) [OF that] by metis
  then have "filter (\<lambda>x. \<exists>r \<in> set old. run r = j \<and> ident r = ref x) added = []" by (simp add: filter_empty_conv)
  then show ?thesis unfolding same by simp
qed

lemma persist_other_ledgers:
  assumes "persist lx result capital currency summary l = Inr l'" and "ledger_ids_ok l"
  shows "ledger_run_ids l' = insert (lx_run_id lx) (ledger_run_ids l)" and "j \<noteq> lx_run_id lx \<Longrightarrow> ledger_of j l' = ledger_of j l"
proof -
  have "ledger_run_ids l' = insert (lx_run_id lx) (ledger_run_ids l) \<and> (j \<noteq> lx_run_id lx \<longrightarrow> ledger_of j l' = ledger_of j l)"
  proof (rule persist_rows [OF assms])
    fix ds inp ss os fs refs es ca ps trs al sn vr e su
    assume l': "l' = l\<lparr>ld_decisions := appended ds (ld_decisions l), ld_inputs := ld_inputs l @ inp, ld_signals := appended ss (ld_signals l),
         ld_orders := appended os (ld_orders l), ld_fills := appended fs (ld_fills l), ld_fill_references := ld_fill_references l @ refs,
         ld_trades := appended trs (ld_trades l), ld_allocations := ld_allocations l @ al,
         ld_order_events := appended es (ld_order_events l), ld_cash := appended ca (ld_cash l),
         ld_positions := appended ps (ld_positions l), ld_snapshots := ld_snapshots l @ sn,
         ld_valuation_references := ld_valuation_references l @ vr, ld_equity := ld_equity l @ e, ld_summaries := ld_summaries l @ [su]\<rparr>"
      and ds: "list_all2 (decision_stored (lx_run_id lx)) (decisions result) ds" "ids_from (tbl_next (ld_decisions l)) (map dc_id ds)"
      and inp: "\<forall>x \<in> set inp. \<exists>r \<in> set ds. di_context_id x = dc_id r \<and> bf_effective_at (di_bar x) \<le> dc_ts r"
      and rows: "list_all2 (signal_stored (lx_run_id lx)) (signals result) ss"
        "list_all2 (order_stored (lx_run_id lx) (filled_keys result)) (orders result) os"
        "list_all2 (fill_stored (lx_run_id lx) (\<lambda>k. map_option od_id (find (\<lambda>r. od_key r = k) os))) (fills result) fs"
        "list_all2 (cash_stored (lx_run_id lx))
           ((INITIAL_CAPITAL, capital, u ''initial-capital'') # concat (map fill_cash_entries (fills result))) ca"
        "list_all2 (position_stored (lx_run_id lx)) (fills result) ps"
        "list_all2 (event_stored (lx_run_id lx))
           (concat (map (\<lambda>ord. map (Pair ord) (order_events (semantic_key ord \<in> filled_keys result))) (orders result))) es"
      and refs: "list_all2 (\<lambda>f x. fr_run_id x = lx_run_id lx \<and> fr_bar x = (bar_ref_of (reference_bar f))\<lparr>bf_effective_at := bf_effective_at (fr_bar x)\<rparr> \<and>
         bf_effective_at (fr_bar x) \<le> fill_ts f) (fills result) refs"
      and trs: "ids_from (tbl_next (ld_trades l)) (map tr_id trs)" "\<forall>r \<in> set trs. tr_run_id r = lx_run_id lx \<and> trade_justified (fills result) r"
      and al: "\<forall>x \<in> set al. al_trade_id x \<in> tr_id ` set trs"
      and v: "\<forall>x \<in> set sn. ps_run_id x = lx_run_id lx" "\<forall>x \<in> set e. eq_run_id x = lx_run_id lx" "su_run_id su = lx_run_id lx"
      and vr: "\<forall>x \<in> set vr. pv_run_id x = lx_run_id lx \<and> bf_effective_at (pv_bar x) \<le> pv_ts x"
    have vr': "\<forall>x \<in> set vr. pv_run_id x = lx_run_id lx" and trs': "\<forall>r \<in> set trs. tr_run_id r = lx_run_id lx"
      and refs': "\<forall>x \<in> set refs. fr_run_id x = lx_run_id lx"
      using vr trs(2) refs by (auto dest: list_all2_right)
    note own = stored_run_ids(1) [OF ds(1)] stored_run_ids(2) [OF rows(1)] stored_run_ids(3) [OF rows(2)] stored_run_ids(4) [OF rows(3)]
      stored_run_ids(5) [OF rows(4)] stored_run_ids(6) [OF rows(5)] stored_run_ids(7) [OF rows(6)] v(1,2) vr' trs' refs'
    have "ledger_run_ids l' = insert (lx_run_id lx) (ledger_run_ids l)"
      using own v(3) unfolding ledger_run_ids_def l' by auto
    moreover have "ledger_of j l' = ledger_of j l" if j: "j \<noteq> lx_run_id lx"
    proof -
      have "filter (\<lambda>x. \<exists>r \<in> set (tbl_rows (ld_decisions l) @ ds). dc_run_id r = j \<and> dc_id r = di_context_id x) (ld_inputs l @ inp) =
          filter (\<lambda>x. \<exists>r \<in> set (tbl_rows (ld_decisions l)). dc_run_id r = j \<and> dc_id r = di_context_id x) (ld_inputs l)"
      proof -
        have "di_context_id x \<noteq> dc_id r" if "x \<in> set inp" "r \<in> set (tbl_rows (ld_decisions l))" for x r
          using inp ids_from_less [OF ds(2)] assms(2) that by (fastforce simp: ledger_ids_ok_def)
        then show ?thesis using own(1) j by (intro filter_by_owner) simp_all
      qed
      moreover have "filter (\<lambda>x. \<exists>r \<in> set (tbl_rows (ld_trades l) @ trs). tr_run_id r = j \<and> tr_id r = al_trade_id x) (ld_allocations l @ al) =
          filter (\<lambda>x. \<exists>r \<in> set (tbl_rows (ld_trades l)). tr_run_id r = j \<and> tr_id r = al_trade_id x) (ld_allocations l)"
      proof -
        have "al_trade_id x \<noteq> tr_id r" if "x \<in> set al" "r \<in> set (tbl_rows (ld_trades l))" for x r
          using al ids_from_less [OF trs(1)] assms(2) that by (fastforce simp: ledger_ids_ok_def)
        then show ?thesis using trs' j by (intro filter_by_owner) simp_all
      qed
      ultimately show ?thesis
        using own [THEN filter_all_mismatch, OF j] v(3) j unfolding ledger_of_def l' by simp
    qed
    ultimately show ?thesis by blast
  qed
  then show "ledger_run_ids l' = insert (lx_run_id lx) (ledger_run_ids l)" and "j \<noteq> lx_run_id lx \<Longrightarrow> ledger_of j l' = ledger_of j l" by blast+
qed

subsection \<open>The deferred checks\<close>

text \<open>What the journal of a simulation satisfies: a fill is for an order of the journal, in full, and not before it.\<close>

definition journal_sound :: "simulation_result \<Rightarrow> bool" where
  "journal_sound result \<longleftrightarrow>
     (\<forall>f \<in> set (fills result). fill_order f \<in> set (orders result) \<and>
        fill_quantity (economics f) = order_quantity (fill_order f) \<and> submitted_at (fill_order f) \<le> fill_ts f)"

lemma simulated_journal_sound:
  assumes "sim_ready cfg" and "simulate cfg = Some (Inr result)"
  shows "journal_sound result"
  using assms(2)
proof (cases rule: simulate_run)
  case (1 evs st data vals)
  have once: "once_inv cfg evs st" using once.sim_loop_inv [OF once_inv_initial 1(5)] by simp
  have valid: "\<forall>f \<in> set (st_fills st). fill_valid cfg f"
    using ledger.sim_loop_inv [OF ledger_inv_initial 1(5)] by (simp add: ledger_inv_def)
  have orders: "\<forall>ord \<in> set (st_orders st). order_ok cfg ord"
    using once assms(1) by (simp add: once_inv_def journal_inv_def sim_ready_def)
  have lags: "\<forall>i \<in> set (instruments (cfg_request cfg)). 0 \<le> execution_lag_seconds i"
    using sim_ready_lags [OF assms(1)] by (simp add: lags_ok_def)
  have "fill_order f \<in> set (st_orders st) \<and> fill_quantity (economics f) = order_quantity (fill_order f) \<and>
      submitted_at (fill_order f) \<le> fill_ts f" if f: "f \<in> set (st_fills st)" for f
  proof -
    have ord: "fill_order f \<in> set (st_orders st)" using once f by (auto simp: once_inv_def)
    have v: "execution_bar (fill_order f) = Some (reference_bar f)" "fill_ts f = effective_available_at (reference_bar f)"
      "price_fill (order_side (fill_order f)) (order_quantity (fill_order f)) (reference_price f)
         (transaction_cost_model (cfg_request cfg)) = Inr (economics f)"
      using valid f by (auto simp: fill_valid_def)
    obtain i where "i \<in> set (instruments (cfg_request cfg))"
      "submitted_at (fill_order f) + execution_lag_seconds i * 1000000 \<le> effective_available_at (reference_bar f)"
      using orders ord v(1) by (force simp: order_ok_def)
    then have "submitted_at (fill_order f) \<le> fill_ts f"
      using lags v(2) by (smt (verit) mult_nonneg_nonneg)
    then show ?thesis using ord v(3) by (auto elim: price_fill_Inr)
  qed
  then show ?thesis
    using 1(9,10) by (simp add: journal_sound_def)
qed

lemma filter_distinct_key:
  "distinct (map k xs) \<Longrightarrow> filter (\<lambda>x. k x = c) xs = (case find (\<lambda>x. k x = c) xs of None \<Rightarrow> [] | Some x \<Rightarrow> [x])"
proof (induction xs)
  case (Cons x xs)
  then show ?case
    by (auto simp: filter_empty_conv image_iff find_Some_iff split: option.splits)
qed simp

lemma list_all2_mem_left: "list_all2 P xs ys \<Longrightarrow> x \<in> set xs \<Longrightarrow> \<exists>y \<in> set ys. P x y"
  by (induction rule: list_all2_induct) auto

lemma distinct_map_same: "distinct (map k xs) \<Longrightarrow> x \<in> set xs \<Longrightarrow> y \<in> set xs \<Longrightarrow> k x = k y \<Longrightarrow> x = y"
  by (auto simp: distinct_map inj_on_def)

lemma new_order_totals:
  assumes sound: "journal_sound result"
    and os: "list_all2 (order_stored i (filled_keys result)) (orders result) os" "distinct (map od_id os)" "distinct (map od_key os)"
    and fs: "list_all2 (fill_stored i (\<lambda>k. map_option od_id (find (\<lambda>r. od_key r = k) os))) (fills result) fs"
      "distinct (map fl_execution_key fs)"
    and r: "r \<in> set os" and l: "filter (\<lambda>f. fl_order_id f = od_id r) (tbl_rows (ld_fills l)) = filter (\<lambda>f. fl_order_id f = od_id r) fs"
  shows "order_totals_ok l r"
proof -
  obtain ord where ord: "ord \<in> set (orders result)" "order_stored i (filled_keys result) ord r"
    using os(1) r by (meson list_all2_right)
  have keys: "distinct (map semantic_key (orders result))"
  proof -
    have "map od_key os = map semantic_key (orders result)"
      using os(1) by (induction rule: list_all2_induct) (auto simp: order_stored_def)
    then show ?thesis using os(3) by simp
  qed
  have "fl_order_id f = od_id r \<longleftrightarrow> fl_execution_key f = od_key r" if "f \<in> set fs" for f
  proof -
    obtain r' where r': "r' \<in> set os" "od_id r' = fl_order_id f" "od_key r' = fl_execution_key f"
      using fill_orders_exist [OF fs(1) \<open>f \<in> set fs\<close>] by blast
    then show ?thesis
      using distinct_map_same [OF os(2) r'(1) r] distinct_map_same [OF os(3) r'(1) r] by auto
  qed
  then have "filter (\<lambda>f. fl_order_id f = od_id r) fs = filter (\<lambda>f. fl_execution_key f = od_key r) fs"
    by (rule filter_cong [OF refl])
  then have one: "filter (\<lambda>f. fl_order_id f = od_id r) fs =
      (case find (\<lambda>f. fl_execution_key f = od_key r) fs of None \<Rightarrow> [] | Some f \<Rightarrow> [f])"
    using filter_distinct_key [OF fs(2)] by simp
  show ?thesis
  proof (cases "find (\<lambda>f. fl_execution_key f = od_key r) fs")
    case None
    have "od_key r \<notin> filled_keys result"
    proof
      assume "od_key r \<in> filled_keys result"
      then obtain g where g: "g \<in> set (fills result)" "semantic_key (fill_order g) = od_key r" by (auto simp: filled_keys_def)
      then obtain f where "f \<in> set fs" "fl_execution_key f = od_key r"
        using list_all2_mem_left [OF fs(1) g(1)] by (auto simp: fill_stored_def)
      then show False using None by (auto simp: find_None_iff)
    qed
    then show ?thesis
      using ord(2) unfolding order_totals_ok_def l one None by (auto simp: order_stored_def)
  next
    case (Some f)
    then have f: "f \<in> set fs" "fl_execution_key f = od_key r" by (auto simp: find_Some_iff)
    then obtain g where g: "g \<in> set (fills result)" "fill_stored i (\<lambda>k. map_option od_id (find (\<lambda>r. od_key r = k) os)) g f"
      using fs(1) by (meson list_all2_right)
    then have "semantic_key (fill_order g) = semantic_key ord" using f(2) ord(2) by (simp add: fill_stored_def order_stored_def)
    then have "fill_order g = ord"
      using distinct_map_same [OF keys] ord(1) sound g(1) by (simp add: journal_sound_def)
    then have q: "fill_quantity (economics g) = order_quantity ord" "submitted_at ord \<le> fill_ts g"
      using sound g(1) by (auto simp: journal_sound_def)
    have "od_key r \<in> filled_keys result"
      using g f(2) unfolding filled_keys_def by (intro image_eqI [of _ _ g]) (simp_all add: fill_stored_def)
    moreover have "fl_quantity f = od_quantity r" "od_submitted_at r \<le> fl_ts f"
      using q g(2) ord(2) by (simp_all add: fill_stored_def order_stored_def)
    ultimately show ?thesis
      using ord(2) unfolding order_totals_ok_def l one Some by (auto simp: order_stored_def)
  qed
qed

text \<open>The orders of a ledger before and after: the old ones keep their totals, the new ones are those of the run.\<close>

lemma persist_orders:
  assumes "persist lx result capital currency summary l = Inr l'" and "ledger_ids_ok l"
  obtains os where "tbl_rows (ld_orders l') = tbl_rows (ld_orders l) @ os" "\<forall>r \<in> set os. od_run_id r = lx_run_id lx"
    "\<forall>r \<in> set (tbl_rows (ld_orders l)). order_totals_ok l r \<longrightarrow> order_totals_ok l' r"
    "journal_sound result \<Longrightarrow> \<forall>r \<in> set os. order_totals_ok l' r"
proof (rule persist_rows [OF assms])
  fix ds inp ss os fs refs es ca ps trs al sn vr e su
  assume l': "l' = l\<lparr>ld_decisions := appended ds (ld_decisions l), ld_inputs := ld_inputs l @ inp, ld_signals := appended ss (ld_signals l),
       ld_orders := appended os (ld_orders l), ld_fills := appended fs (ld_fills l), ld_fill_references := ld_fill_references l @ refs,
       ld_trades := appended trs (ld_trades l), ld_allocations := ld_allocations l @ al,
       ld_order_events := appended es (ld_order_events l), ld_cash := appended ca (ld_cash l),
       ld_positions := appended ps (ld_positions l), ld_snapshots := ld_snapshots l @ sn,
       ld_valuation_references := ld_valuation_references l @ vr, ld_equity := ld_equity l @ e, ld_summaries := ld_summaries l @ [su]\<rparr>"
    and os: "list_all2 (order_stored (lx_run_id lx) (filled_keys result)) (orders result) os"
      "ids_from (tbl_next (ld_orders l)) (map od_id os)" "distinct (map od_key os)"
    and fs: "list_all2 (fill_stored (lx_run_id lx) (\<lambda>k. map_option od_id (find (\<lambda>r. od_key r = k) os))) (fills result) fs"
      "distinct (map fl_execution_key fs)"
  have fills: "tbl_rows (ld_fills l') = tbl_rows (ld_fills l) @ fs" by (simp add: l')
  have new: "order_totals_ok l' r" if "journal_sound result" "r \<in> set os" for r
  proof (rule new_order_totals [OF that(1) os(1) ids_from_distinct [OF os(2)] os(3) fs that(2)])
    have "filter (\<lambda>f. fl_order_id f = od_id r) (tbl_rows (ld_fills l)) = []"
      using assms(2) ids_from_less [OF os(2) that(2)] by (fastforce simp: ledger_ids_ok_def filter_empty_conv)
    then show "filter (\<lambda>f. fl_order_id f = od_id r) (tbl_rows (ld_fills l')) = filter (\<lambda>f. fl_order_id f = od_id r) fs"
      by (simp add: fills)
  qed
  have old: "order_totals_ok l' r" if r: "r \<in> set (tbl_rows (ld_orders l))" "order_totals_ok l r" for r
  proof -
    have "fl_order_id f \<noteq> od_id r" if "f \<in> set fs" for f
      using fill_orders_exist [OF fs(1) that] ids_from_less [OF os(2)] assms(2) r(1) by (fastforce simp: ledger_ids_ok_def)
    then have "filter (\<lambda>f. fl_order_id f = od_id r) (tbl_rows (ld_fills l')) = filter (\<lambda>f. fl_order_id f = od_id r) (tbl_rows (ld_fills l))"
      by (simp add: fills filter_empty_conv)
    then show ?thesis using r(2) unfolding order_totals_ok_def by simp
  qed
  show ?thesis
    by (rule that [of os]) (simp_all add: l' stored_run_ids(3) [OF os(1)], use old new l' in auto)
qed

lemma persist_deferred_checks:
  assumes "persist lx result capital currency summary l = Inr l'" and "ledger_ids_ok l" and "deferred_checks j l"
    and "journal_sound result \<or> j \<noteq> lx_run_id lx"
  shows "deferred_checks j l'"
proof (rule persist_orders [OF assms(1,2)])
  fix os
  assume "tbl_rows (ld_orders l') = tbl_rows (ld_orders l) @ os" "\<forall>r \<in> set os. od_run_id r = lx_run_id lx"
    "\<forall>r \<in> set (tbl_rows (ld_orders l)). order_totals_ok l r \<longrightarrow> order_totals_ok l' r"
    "journal_sound result \<Longrightarrow> \<forall>r \<in> set os. order_totals_ok l' r"
  then show ?thesis using assms(3,4) unfolding deferred_checks_def by auto
qed

end
