(* ===== verification/Run_Cash.thy ===== *)
theory Run_Cash
  imports Run_Ledger_Inv
begin

text \<open>
  The cash entries of a finished run against the cash its simulation ended with. The portfolio adds up with 28-digit
  decimal operations, the ledger keeps one rounded number per entry; the two differ by no more than an explicit bound in
  the number of fills and the turnover.
\<close>

subsection \<open>Approximation by rounded operations\<close>

text \<open>One rounding changes a number by at most this fraction of it.\<close>

definition rounding_unit :: rat where
  "rounding_unit = 1 / (2 * 10 ^ (PREC - 1))"

text \<open>\<open>x\<close> is within \<open>m\<close> nested roundings of \<open>X\<close>, all of them of numbers of size at most \<open>S\<close> or so.\<close>

definition approx :: "nat \<Rightarrow> rat \<Rightarrow> rat \<Rightarrow> rat \<Rightarrow> bool" where
  "approx m S x X \<longleftrightarrow> \<bar>X\<bar> \<le> S \<and> \<bar>x - X\<bar> \<le> ((1 + rounding_unit) ^ m - 1) * S"

lemma rounding_unit_pos: "0 < rounding_unit"
  by (simp add: rounding_unit_def)

lemma rnd_error_unit: "isdec q \<Longrightarrow> \<bar>rnd q - q\<bar> \<le> rounding_unit * \<bar>q\<bar>"
  using rnd_error [of q] by (simp add: rounding_unit_def field_simps)

lemma growth_ge_1: "1 \<le> (1 + rounding_unit) ^ m"
  using rounding_unit_pos by simp

lemma approx_exact: "approx 0 \<bar>x\<bar> x x"
  by (simp add: approx_def)

lemma approx_size: "approx m S x X \<Longrightarrow> 0 \<le> S"
  unfolding approx_def using abs_ge_zero order_trans by blast

lemma approx_mono:
  assumes "approx m S x X" and "m \<le> n"
  shows "approx n S x X"
proof -
  have "(1 + rounding_unit) ^ m \<le> (1 + rounding_unit) ^ n"
    using assms(2) rounding_unit_pos by (intro power_increasing) simp_all
  then have "((1 + rounding_unit) ^ m - 1) * S \<le> ((1 + rounding_unit) ^ n - 1) * S"
    using approx_size [OF assms(1)] by (intro mult_right_mono) simp_all
  then show ?thesis using assms(1) by (auto simp: approx_def)
qed

lemma approx_uminus: "approx m S x X \<Longrightarrow> approx m S (- x) (- X)"
  by (simp add: approx_def abs_minus_commute)

lemma approx_rnd_add:
  assumes "approx m S x X" and "approx m T y Y" and "isdec (x + y)"
  shows "approx (Suc m) (S + T) (rnd (x + y)) (X + Y)"
proof -
  let ?g = "(1 + rounding_unit) ^ m"
  have x: "\<bar>X\<bar> \<le> S" "\<bar>x - X\<bar> \<le> (?g - 1) * S" and y: "\<bar>Y\<bar> \<le> T" "\<bar>y - Y\<bar> \<le> (?g - 1) * T"
    using assms(1,2) by (simp_all add: approx_def)
  have sum: "\<bar>(x + y) - (X + Y)\<bar> \<le> (?g - 1) * (S + T)"
    using x(2) y(2) by (simp add: distrib_left)
  have "\<bar>x + y\<bar> \<le> S + T + (?g - 1) * (S + T)" using sum x(1) y(1) by linarith
  then have "\<bar>x + y\<bar> \<le> ?g * (S + T)" by (simp add: algebra_simps)
  then have "rounding_unit * \<bar>x + y\<bar> \<le> rounding_unit * (?g * (S + T))"
    using rounding_unit_pos by (intro mult_left_mono) simp_all
  then have "\<bar>rnd (x + y) - (X + Y)\<bar> \<le> rounding_unit * (?g * (S + T)) + (?g - 1) * (S + T)"
    using rnd_error_unit [OF assms(3)] sum by linarith
  moreover have "((1 + rounding_unit) ^ Suc m - 1) * (S + T) = rounding_unit * (?g * (S + T)) + (?g - 1) * (S + T)"
    by (simp add: algebra_simps)
  moreover have "\<bar>X + Y\<bar> \<le> S + T" using x(1) y(1) by linarith
  ultimately show ?thesis by (simp add: approx_def)
qed

lemma approx_rnd_diff:
  "approx m S x X \<Longrightarrow> approx m T y Y \<Longrightarrow> isdec (x - y) \<Longrightarrow> approx (Suc m) (S + T) (rnd (x - y)) (X - Y)"
  using approx_rnd_add [of m S x X T "- y" "- Y"] approx_uminus by simp

subsection \<open>Rounding to NUMERIC\<close>

lemma numeric_coeff_error:
  assumes "dexp d + int NUMERIC_SCALE < 0"
  shows "2 * \<bar>int (numeric_coeff d) * 10 ^ nat (- (dexp d + int NUMERIC_SCALE)) - int (dcoeff d)\<bar> \<le>
    10 ^ nat (- (dexp d + int NUMERIC_SCALE))"
proof -
  define j where "j = nat (- (dexp d + int NUMERIC_SCALE))"
  define c where "c = dcoeff d + 5 * 10 ^ (j - 1)"
  have j: "0 < j" using assms by (simp add: j_def)
  have ten: "10 ^ j = 10 * (10::nat) ^ (j - 1)" using j by (cases j) simp_all
  have coeff: "numeric_coeff d = c div 10 ^ j"
    using assms by (simp add: numeric_coeff_def Let_def c_def j_def)
  have near: "q + r = e \<Longrightarrow> r < t \<Longrightarrow> 0 \<le> r \<Longrightarrow> 2 * e = 2 * f + t \<Longrightarrow> 2 * \<bar>q - f\<bar> \<le> t" for q r e f t :: int
    by (cases "q \<le> f") simp_all
  have "int (c div 10 ^ j) * 10 ^ j + int c mod 10 ^ j = int c"
    using div_mult_mod_eq [of "int c" "10 ^ j"] by (simp add: zdiv_int)
  moreover have "int c mod 10 ^ j < 10 ^ j" "0 \<le> int c mod 10 ^ j" by simp_all
  moreover have "2 * int c = 2 * int (dcoeff d) + 10 ^ j"
  proof -
    have "2 * c = 2 * dcoeff d + 10 ^ j" unfolding ten c_def by simp
    then have "int (2 * c) = int (2 * dcoeff d + 10 ^ j)" by (rule arg_cong)
    then show ?thesis by simp
  qed
  ultimately have "2 * \<bar>int (c div 10 ^ j) * 10 ^ j - int (dcoeff d)\<bar> \<le> 10 ^ j"
    by (rule near)
  then show ?thesis by (simp add: coeff j_def)
qed

lemma to_numeric_error:
  assumes "to_numeric d = Inr n"
  shows "\<bar>val n - val d\<bar> \<le> 1 / (2 * 10 ^ NUMERIC_SCALE)"
proof (cases "dexp d + int NUMERIC_SCALE < 0")
  case True
  define j where "j = nat (- (dexp d + int NUMERIC_SCALE))"
  have n: "n = Dec (dsign d \<and> numeric_coeff d \<noteq> 0) (numeric_coeff d) (- int NUMERIC_SCALE)"
    using assms by (auto simp: to_numeric_def Let_def split: if_splits)
  have scale: "(10::rat) powi (- int NUMERIC_SCALE) = 10 ^ j * 10 powi dexp d"
    using powi_split [of "dexp d" "- int NUMERIC_SCALE"] True by (simp add: j_def)
  have err: "2 * \<bar>int (numeric_coeff d) * 10 ^ j - int (dcoeff d)\<bar> \<le> 10 ^ j"
    using numeric_coeff_error [OF True] by (simp add: j_def)
  then have rat: "2 * \<bar>rat_of_nat (numeric_coeff d) * 10 ^ j - rat_of_nat (dcoeff d)\<bar> \<le> 10 ^ j"
  proof -
    have "rat_of_int (2 * \<bar>int (numeric_coeff d) * 10 ^ j - int (dcoeff d)\<bar>) \<le> rat_of_int (10 ^ j)"
      using err by (simp only: of_int_le_iff)
    then show ?thesis by simp
  qed
  have "val n - val d = (if dsign d then - 1 else 1) * ((rat_of_nat (numeric_coeff d) * 10 ^ j - rat_of_nat (dcoeff d)) * 10 powi dexp d)"
  proof -
    have "val n = (if dsign d then - 1 else 1) * (rat_of_nat (numeric_coeff d) * (10 ^ j * 10 powi dexp d))"
      unfolding scale [symmetric] by (auto simp: n val_of_pos)
    moreover have "val d = (if dsign d then - 1 else 1) * (rat_of_nat (dcoeff d) * 10 powi dexp d)"
      by (cases d) (simp add: val_of_pos)
    ultimately show ?thesis by (simp add: algebra_simps)
  qed
  then have "2 * \<bar>val n - val d\<bar> = 2 * \<bar>rat_of_nat (numeric_coeff d) * 10 ^ j - rat_of_nat (dcoeff d)\<bar> * 10 powi dexp d"
    by (simp add: abs_mult)
  also have "\<dots> \<le> 10 ^ j * 10 powi dexp d"
    using rat by (intro mult_right_mono) (simp_all add: less_imp_le)
  finally have "2 * \<bar>val n - val d\<bar> \<le> 10 powi (- int NUMERIC_SCALE)" by (simp add: scale)
  then show ?thesis by (simp add: power_int_minus field_simps)
next
  case False
  then have "val n = val d" using to_numeric_val [OF assms] by (simp add: numeric_exact_def)
  then show ?thesis by simp
qed

subsection \<open>The cash of a replay\<close>

text \<open>What the fills move, in exact numbers: with sign as the cash entries have it, and in size.\<close>

definition fill_flow :: "simulated_fill \<Rightarrow> rat" where
  "fill_flow f =
     (let e = economics f in
      (if fill_side e = BUY then - val (notional e) else val (notional e)) - val (commission_amount e) - val (tax_amount e))"

definition fill_turnover :: "simulated_fill \<Rightarrow> rat" where
  "fill_turnover f = (let e = economics f in \<bar>val (notional e)\<bar> + \<bar>val (commission_amount e)\<bar> + \<bar>val (tax_amount e)\<bar>)"

definition turnover :: "decimal \<Rightarrow> simulation_result \<Rightarrow> rat" where
  "turnover capital result = \<bar>val capital\<bar> + sum_list (map fill_turnover (fills result))"

lemma cash_delta_approx: "approx 3 (fill_turnover f) (val (cash_delta (economics f))) (fill_flow f)"
proof -
  let ?n = "val (notional (economics f))" and ?c = "val (commission_amount (economics f))" and ?t = "val (tax_amount (economics f))"
  have exact: "approx m \<bar>x\<bar> x x" for m x using approx_mono [OF approx_exact] by simp
  show ?thesis
  proof (cases "fill_side (economics f) = BUY")
    case True
    have "approx 2 (\<bar>?n\<bar> + \<bar>?c\<bar> + \<bar>?t\<bar>) (rnd (rnd (?n + ?c) + ?t)) (?n + ?c + ?t)"
      using approx_rnd_add [OF approx_rnd_add [OF exact [of 0 ?n] exact [of 0 ?c]] exact [of "Suc 0" ?t]]
      by (simp add: numeral_2_eq_2)
    then have "approx 3 (fill_turnover f) (- rnd (rnd (?n + ?c) + ?t)) (- (?n + ?c + ?t))"
      unfolding fill_turnover_def Let_def by (intro approx_uminus) (erule approx_mono, simp)
    moreover have "val (cash_delta (economics f)) = - rnd (rnd (?n + ?c) + ?t)"
      using True by (simp add: cash_delta_def val_dec_minus val_dec_add rnd_uminus)
    moreover have "fill_flow f = - (?n + ?c + ?t)"
      using True by (simp add: fill_flow_def Let_def)
    ultimately show ?thesis by simp
  next
    case False
    have "approx 2 (\<bar>?n\<bar> + \<bar>?c\<bar> + \<bar>?t\<bar>) (rnd (rnd (?n - ?c) - ?t)) (?n - ?c - ?t)"
      using approx_rnd_diff [OF approx_rnd_diff [OF exact [of 0 ?n] exact [of 0 ?c]] exact [of "Suc 0" ?t]]
      by (simp add: numeral_2_eq_2)
    then show ?thesis
      using False approx_mono [of 2 _ _ _ 3]
      by (simp add: fill_turnover_def fill_flow_def cash_delta_def val_dec_sub Let_def)
  qed
qed

lemma replay_cash_approx:
  assumes "replay p fs = Inr p'" and "approx m S (val (cash p)) X" and "3 \<le> m"
  shows "approx (m + length fs) (S + sum_list (map fill_turnover fs)) (val (cash p')) (X + sum_list (map fill_flow fs))"
  using assms
proof (induction fs arbitrary: p m S X)
  case (Cons f fs)
  from Cons.prems(1) obtain q where q: "apply_fill p (signal_instrument_id (order_signal (fill_order f))) (economics f) = Inr q"
    "replay q fs = Inr p'" by (auto simp: rbind_Inr_iff)
  then have "val (cash q) = rnd (val (cash p) + val (cash_delta (economics f)))"
    by (auto simp: apply_fill_def rbind_Inr_iff val_dec_add)
  then have "approx (Suc m) (S + fill_turnover f) (val (cash q)) (X + fill_flow f)"
    using approx_rnd_add [OF Cons.prems(2) approx_mono [OF cash_delta_approx Cons.prems(3)]] by simp
  from Cons.IH [OF q(2) this] Cons.prems(3) show ?case by (simp add: add.assoc)
qed simp

text \<open>The entries of the ledger have exactly these sums: notional, commission and tax are rounded already.\<close>

lemma dec_fix_rnd: "rnd (val (dec_fix x)) = val (dec_fix x)"
  by simp

lemma dec_div_rounded: "dec_div x y = Some z \<Longrightarrow> rnd (val z) = val z"
  by (auto simp: dec_div_def Let_def split: if_splits prod.splits)

lemma priced_amounts_rounded:
  assumes "price_fill side qty price costs = Inr e"
  shows "rnd (val (notional e)) = val (notional e)" and "rnd (val (commission_amount e)) = val (commission_amount e)"
    and "rnd (val (tax_amount e)) = val (tax_amount e)"
  using assms by (auto elim!: price_fill_Inr simp: val_dec_mul dec_div_rounded) (cases side; simp add: dec_div_rounded)

definition entry_total :: "(cash_entry_type \<times> decimal \<times> pystr) list \<Rightarrow> rat" where
  "entry_total es = sum_list (map (\<lambda>(typ, amt, key). val amt) es)"

lemma fill_entries_total:
  assumes "fill_valid cfg f"
  shows "entry_total (fill_cash_entries f) = fill_flow f"
proof -
  note rounded = priced_amounts_rounded [of "order_side (fill_order f)" "order_quantity (fill_order f)" "reference_price f"
      "transaction_cost_model (cfg_request cfg)" "economics f"]
  have "rnd (val (notional (economics f))) = val (notional (economics f))"
    "rnd (val (commission_amount (economics f))) = val (commission_amount (economics f))"
    "rnd (val (tax_amount (economics f))) = val (tax_amount (economics f))"
    using assms rounded by (auto simp: fill_valid_def)
  then show ?thesis
    by (simp add: entry_total_def fill_cash_entries_def fill_flow_def Let_def val_dec_mul val_dec_minus rnd_uminus val_Dec del: u_Cons)
qed

lemma entries_total:
  assumes "\<forall>f \<in> set fs. fill_valid cfg f"
  shows "entry_total (concat (map fill_cash_entries fs)) = sum_list (map fill_flow fs)"
  using assms
proof (induction fs)
  case (Cons f fs)
  have "entry_total (es @ es') = entry_total es + entry_total es'" for es es' by (simp add: entry_total_def)
  moreover have "entry_total (fill_cash_entries f) = fill_flow f" using Cons.prems by (intro fill_entries_total [of cfg]) simp
  ultimately show ?case using Cons by simp
qed (simp add: entry_total_def)

lemma stored_total:
  assumes "list_all2 (cash_stored i) es rows"
  shows "\<bar>sum_list (map (val \<circ> ca_amount) rows) - entry_total es\<bar> \<le> of_nat (length rows) / (2 * 10 ^ NUMERIC_SCALE)"
  using assms
proof (induction rule: list_all2_induct)
  case (Cons e es r rows)
  obtain ty amt key where e: "e = (ty, amt, key)" by (cases e) auto
  have "\<bar>val (ca_amount r) - val amt\<bar> \<le> 1 / (2 * 10 ^ NUMERIC_SCALE)"
    using Cons.hyps(1) to_numeric_error by (simp add: cash_stored_def e)
  then show ?case
    using Cons.IH by (simp add: e entry_total_def add_divide_distrib)
qed (simp add: entry_total_def)

text \<open>The cash rows of a run, and the bound.\<close>

definition cash_ledger_total :: "int \<Rightarrow> ledger \<Rightarrow> rat" where
  "cash_ledger_total i l = sum_list (map (val \<circ> ca_amount) (filter (\<lambda>r. ca_run_id r = i) (tbl_rows (ld_cash l))))"

definition cash_entry_count :: "int \<Rightarrow> ledger \<Rightarrow> nat" where
  "cash_entry_count i l = length (filter (\<lambda>r. ca_run_id r = i) (tbl_rows (ld_cash l)))"

lemma cash_ledger_bound:
  assumes "holds_journal lx (initial_capital (cfg_request cfg)) result l l'" and "\<forall>r \<in> set (tbl_rows (ld_cash l)). ca_run_id r \<noteq> lx_run_id lx"
    and "replay (opening_portfolio cfg) (fills result) = Inr p" and "\<forall>f \<in> set (fills result). fill_valid cfg f" and "final_cash result = cash p"
  shows "\<bar>cash_ledger_total (lx_run_id lx) l' - val (final_cash result)\<bar> \<le>
    ((1 + rounding_unit) ^ (3 + length (fills result)) - 1) * turnover (initial_capital (cfg_request cfg)) result +
    of_nat (cash_entry_count (lx_run_id lx) l') / (2 * 10 ^ NUMERIC_SCALE)"
proof -
  let ?capital = "initial_capital (cfg_request cfg)"
  obtain ca where ca: "tbl_rows (ld_cash l') = tbl_rows (ld_cash l) @ ca"
    "list_all2 (cash_stored (lx_run_id lx)) ((INITIAL_CAPITAL, ?capital, u ''initial-capital'') # concat (map fill_cash_entries (fills result))) ca"
    using assms(1) unfolding holds_journal_def by blast
  have "filter (\<lambda>r. ca_run_id r = lx_run_id lx) (tbl_rows (ld_cash l')) = ca"
    using assms(2) stored_run_ids(5) [OF ca(2)] by (simp add: ca(1) filter_id_conv)
  then have total: "cash_ledger_total (lx_run_id lx) l' = sum_list (map (val \<circ> ca_amount) ca)" "cash_entry_count (lx_run_id lx) l' = length ca"
    by (simp_all add: cash_ledger_total_def cash_entry_count_def)
  have "entry_total ((INITIAL_CAPITAL, ?capital, u ''initial-capital'') # concat (map fill_cash_entries (fills result))) =
      val ?capital + sum_list (map fill_flow (fills result))"
    using entries_total [OF assms(4)] by (simp add: entry_total_def del: u_Cons)
  then have "\<bar>cash_ledger_total (lx_run_id lx) l' - (val ?capital + sum_list (map fill_flow (fills result)))\<bar> \<le>
      of_nat (cash_entry_count (lx_run_id lx) l') / (2 * 10 ^ NUMERIC_SCALE)"
    using stored_total [OF ca(2)] by (simp only: total)
  moreover have "approx 3 \<bar>val ?capital\<bar> (val (cash (opening_portfolio cfg))) (val ?capital)"
    using approx_mono [OF approx_exact, of 3] by (simp add: opening_portfolio_def)
  then have "\<bar>val (final_cash result) - (val ?capital + sum_list (map fill_flow (fills result)))\<bar> \<le>
      ((1 + rounding_unit) ^ (3 + length (fills result)) - 1) * turnover ?capital result"
    using replay_cash_approx [OF assms(3)] by (simp add: approx_def turnover_def assms(5))
  ultimately show ?thesis by linarith
qed

end
