(* ===== verification/Run_Service.thy ===== *)
theory Run_Service
  imports Run_Cash
begin

text \<open>
  The backtest service (\<^verbatim>\<open>src/bisfin/backtest/service.py\<close> and \<^verbatim>\<open>backtest/results.py\<close>): it verifies the snapshot,
  loads its bars, queues the run in one transaction, marks it running in a second, simulates, and writes the ledger
  and the final status in a third; whatever fails after queueing marks the run failed in a fourth. Every transaction
  may be refused, lost, or committed without the service learning of it.
\<close>

subsection \<open>Environment and world\<close>

datatype run_stage = SnapshotTx | QueueTx | RunningTx | FinishTx | FailedTx | ShowTx

text \<open>
  What can happen to a transaction: no connection can be had, the commit is refused or lost, or the commit is applied and
  its acknowledgement lost.
\<close>

datatype tx_fault = Working | NoConnection | CommitLost | Unacknowledged

text \<open>
  \<open>re_builder\<close> and \<open>re_artifacts\<close> are what verification and the artifact reader depend on; \<open>re_running_at\<close>,
  \<open>re_succeeded_at\<close> and \<open>re_failed_at\<close> the readings of the clock; \<open>re_strategy_sha256\<close> the hash of the strategy's source;
  \<open>re_exception_name\<close> is \<^verbatim>\<open>type(error).__name__\<close>.
\<close>

record run_env =
  re_builder :: builder_env
  re_artifacts :: artifact_env
  re_running_at :: timestamp
  re_succeeded_at :: timestamp
  re_failed_at :: timestamp
  re_strategy_sha256 :: pystr
  re_fault :: "run_stage \<Rightarrow> tx_fault"
  re_exception_name :: "run_error \<Rightarrow> pystr"

record run_world =
  rw_files :: files
  rw_context :: run_context
  rw_runs :: run_tables
  rw_ledger :: ledger

text \<open>A transaction over tables \<open>'d\<close>; \<open>deferred\<close> is what the constraints check when it commits.\<close>

definition run_tx ::
  "run_env \<Rightarrow> run_stage \<Rightarrow> ('d \<Rightarrow> bool) \<Rightarrow> ('d \<Rightarrow> (run_error, 'd \<times> 'a) result) \<Rightarrow> 'd \<Rightarrow> (run_error, 'a) result \<times> 'd" where
  "run_tx env stage deferred body db =
     (if re_fault env stage = NoConnection then (Inl (Driver ''OperationalError''), db)
      else
        (case body db of
           Inl e \<Rightarrow> (Inl e, db)
         | Inr (db', a) \<Rightarrow>
             if re_fault env stage = CommitLost then (Inl (Driver ''OperationalError''), db)
             else if \<not> deferred db' then (Inl (Driver ''InternalError''), db)
             else if re_fault env stage = Unacknowledged then (Inl (Driver ''OperationalError''), db')
             else (Inr a, db')))"

subsection \<open>Preflight and selectors\<close>

definition artifact_unavailable :: "(run_error, 'a) result" where
  "artifact_unavailable = Inl (Bt (SnapshotArtifactUnavailableError ''Frozen snapshot artifact verification failed.''))"

definition snapshot_components :: "builder_env \<Rightarrow> snapshot_record \<Rightarrow> (run_error, snapshot_component_result list) result" where
  "snapshot_components env s =
     (case dict_get (sr_metadata s) (u ''components'') of
        Some (JList items) \<Rightarrow>
          map_result (\<lambda>i. case pd_component env i of
             None \<Rightarrow> Inl (Bt (SnapshotArtifactUnavailableError ''Frozen snapshot component metadata is invalid.''))
           | Some c \<Rightarrow> Inr c) items
      | _ \<Rightarrow> Inl (Bt (SnapshotArtifactUnavailableError ''Frozen snapshot component metadata is unavailable.'')))"

definition snapshot_view :: "run_world \<Rightarrow> snapshot_world" where
  "snapshot_view w = \<lparr>w_snapshots = rc_snapshots (rw_context w), w_bars = rc_bars (rw_context w), w_files = rw_files w\<rparr>"

definition preflight :: "run_env \<Rightarrow> pystr \<Rightarrow> run_world \<Rightarrow> (run_error, snapshot_record \<times> snapshot_component_result list) result" where
  "preflight env code w =
     (case verify (re_builder env) code False (snapshot_view w) of
        Inl (SnapshotVerificationError _) \<Rightarrow> artifact_unavailable
      | Inl e \<Rightarrow> Inl (App e)
      | Inr v \<Rightarrow>
          if \<not> vr_verified v \<or> \<not> vr_artifact_verified v then artifact_unavailable
          else
            rbind (fst (run_tx env SnapshotTx (\<lambda>_. True) (\<lambda>t. Inr (t, get_snapshot_by_code code t)) (rc_snapshots (rw_context w))))
              (\<lambda>found.
                case found of
                  None \<Rightarrow> Inl (Bt (BacktestValidationError ''Reference backtests require a FROZEN snapshot.''))
                | Some s \<Rightarrow>
                    if sr_status s \<noteq> FROZEN
                    then Inl (Bt (BacktestValidationError ''Reference backtests require a FROZEN snapshot.''))
                    else rbind (snapshot_components (re_builder env) s) (\<lambda>cs. Inr (s, cs))))"

type_synonym component_keys = "(pystr, snapshot_component_result) dict"

type_synonym role_selectors = "series_role \<Rightarrow> selectors"

definition component_by_key :: "snapshot_component_result list \<Rightarrow> component_keys" where
  "component_by_key cs = foldl (\<lambda>d c. dict_set d (cr_component_key c) c) [] cs"

definition role_keys :: "run_instrument_spec \<Rightarrow> (series_role \<times> pystr) list" where
  "role_keys i =
     [(SIGNAL, signal_component_key i), (EXECUTION, execution_component_key i), (VALUATION, valuation_component_key i)]"

definition load_selector ::
  "run_env \<Rightarrow> files \<Rightarrow> backtest_run_request \<Rightarrow> component_keys \<Rightarrow> int \<Rightarrow> series_role \<times> pystr \<Rightarrow> role_selectors \<Rightarrow>
     (run_error, role_selectors) result" where
  "load_selector env fs request by_key iid rk sel =
     (case rk of (role, key) \<Rightarrow>
        (case dict_get by_key key of
           None \<Rightarrow> Inl (Bt (BacktestValidationError ''Run manifest references an unknown frozen component key.''))
         | Some c \<Rightarrow>
             rbind (lift_bt (load_artifact_bars (re_artifacts env) fs (cr_storage_uri c) (cr_bar_series_id c))) (\<lambda>rows.
               if list_all (\<lambda>r. \<not> (event_from request \<le> bar_open_ts r \<and> bar_open_ts r < event_to request)) rows
               then Inl (Bt (BacktestValidationError ''Frozen component does not cover the requested event range.''))
               else
                 rbind (lift_bt (make_selector rows)) (\<lambda>s. Inr (sel(role := dict_set (sel role) iid s))))))"

definition load_selectors ::
  "run_env \<Rightarrow> files \<Rightarrow> backtest_run_request \<Rightarrow> component_keys \<Rightarrow> (run_error, role_selectors) result" where
  "load_selectors env fs request by_key =
     fold_result (\<lambda>i. fold_result (load_selector env fs request by_key (run_instrument_spec.instrument_id i)) (role_keys i))
       (backtest_run_request.instruments request) (\<lambda>_. [])"

subsection \<open>Queueing\<close>

text \<open>The largest number of seconds a \<^verbatim>\<open>timedelta\<close> can hold is just below 10^9 days.\<close>

definition lag_or_raise :: "int \<Rightarrow> (run_error, int) result" where
  "lag_or_raise seconds = (if 999999999 < seconds div 86400 then Inl (Bt OverflowError) else Inr seconds)"

definition role_binding ::
  "component_keys \<Rightarrow> run_instrument_spec \<Rightarrow> series_role \<times> pystr \<Rightarrow> series_binding list \<times> series_role list \<Rightarrow>
     (run_error, series_binding list \<times> series_role list) result" where
  "role_binding by_key i rk s =
     (case (rk, s) of ((role, key), bs, seen) \<Rightarrow>
        rbind (lift_bt (lookup_or_raise by_key key)) (\<lambda>c.
        rbind (if role = EXECUTION then lag_or_raise (execution_lag_seconds i) else Inr 0) (\<lambda>lag.
          Inr (bs @ [\<lparr>sb_instrument_id = run_instrument_spec.instrument_id i, sb_bar_series_id = cr_bar_series_id c, sb_role = role,
                      sb_lag_seconds = lag, sb_is_primary = (role \<notin> set seen)\<rparr>], role # seen))))"

definition instrument_bindings ::
  "run_context \<Rightarrow> pystr \<Rightarrow> component_keys \<Rightarrow> run_instrument_spec \<Rightarrow> series_binding list \<times> series_role list \<times> int option \<Rightarrow>
     (run_error, series_binding list \<times> series_role list \<times> int option) result" where
  "instrument_bindings ctx currency by_key i s =
     (case s of (bs, seen, timeframe) \<Rightarrow>
        rbind (map_result (\<lambda>(role, key). lift_bt (lookup_or_raise by_key key)) (role_keys i)) (\<lambda>cs.
        rbind (validate_instrument_series ctx (run_instrument_spec.instrument_id i) (map cr_bar_series_id cs) currency) (\<lambda>candidate.
        rbind (fold_result (role_binding by_key i) (role_keys i) (bs, seen)) (\<lambda>(bs, seen).
          Inr (bs, seen, if timeframe = None then Some candidate else timeframe)))))"

definition series_bindings ::
  "run_context \<Rightarrow> backtest_run_request \<Rightarrow> component_keys \<Rightarrow> (run_error, series_binding list \<times> int option) result" where
  "series_bindings ctx request by_key =
     rbind (fold_result (instrument_bindings ctx (backtest_run_request.base_currency_code request) by_key)
         (backtest_run_request.instruments request) ([], [], None)) (\<lambda>(bs, _, timeframe). Inr (bs, timeframe))"

definition run_metadata :: "backtest_manifest_document \<Rightarrow> (pystr \<times> pyval) list \<Rightarrow> pyval" where
  "run_metadata doc extra = PyDict
     ([(u ''run_spec_sha256'', PyStr (bd_run_spec_sha256 doc)), (u ''source_manifest_sha256'', PyStr (bd_source_manifest_sha256 doc)),
       (u ''snapshot_code'', PyStr (backtest_run_request.snapshot_code (bd_request doc)))] @ extra)"

definition CLASS_PATH :: pystr where
  "CLASS_PATH = u ''bisfin.backtest.strategies:SmaCrossLongFlatStrategy''"

datatype queue_outcome = Replayed run_row | Queued int

text \<open>The first transaction up to the row of the run, with the bindings that are still to be inserted.\<close>

definition queue_run ::
  "run_env \<Rightarrow> run_context \<Rightarrow> backtest_manifest_document \<Rightarrow> snapshot_record \<Rightarrow> component_keys \<Rightarrow> run_tables \<Rightarrow>
     (run_error, run_tables \<times> queue_outcome \<times> series_binding list) result" where
  "queue_run env ctx doc snapshot by_key t =
     (let request = bd_request doc in
      rbind (require_runnable (run_code request) (bd_run_spec_sha256 doc) t) (\<lambda>existing.
        case existing of
          Some r \<Rightarrow> Inr (t, Replayed r, [])
        | None \<Rightarrow>
            rbind (ensure_strategy_version CLASS_PATH (re_strategy_sha256 env) t) (\<lambda>(t, version).
            rbind (resolve_universe_id ctx (backtest_run_request.universe_code request)) (\<lambda>universe.
            rbind (series_bindings ctx request by_key) (\<lambda>(bs, timeframe).
            rbind (json_text (parameters_value (strategy_parameters (strategy request)))) (\<lambda>ps.
            rbind (json_text (execution_dump (execution_model request))) (\<lambda>execution.
            rbind (json_text (costs_dump (transaction_cost_model request))) (\<lambda>costs.
            rbind (json_text (run_metadata doc [])) (\<lambda>md.
            rbind (lift_app (create_queued ctx
                \<lparr>qr_run_code = run_code request, qr_strategy_version_id = version, qr_data_snapshot_id = sr_data_snapshot_id snapshot,
                 qr_universe_id = universe, qr_timeframe_id = timeframe,
                 qr_base_currency_code = backtest_run_request.base_currency_code request,
                 qr_event_from = event_from request, qr_event_to = event_to request,
                 qr_knowledge_cutoff_ts = sr_knowledge_cutoff_ts snapshot, qr_availability_mode = sr_availability_mode snapshot,
                 qr_initial_capital = initial_capital request, qr_parameters = ps, qr_parameter_sha256 = bd_parameter_sha256 doc,
                 qr_execution_model = execution, qr_transaction_cost_model = costs, qr_random_seed = random_seed request,
                 qr_metadata = md\<rparr> t)) (\<lambda>(t, i).
              Inr (t, Queued i, bs)))))))))))"

definition queue_body ::
  "run_env \<Rightarrow> run_context \<Rightarrow> backtest_manifest_document \<Rightarrow> snapshot_record \<Rightarrow> component_keys \<Rightarrow> run_tables \<Rightarrow>
     (run_error, run_tables \<times> queue_outcome) result" where
  "queue_body env ctx doc snapshot by_key t =
     rbind (queue_run env ctx doc snapshot by_key t) (\<lambda>(t, out, bs).
       case out of
         Replayed r \<Rightarrow> Inr (t, out)
       | Queued i \<Rightarrow>
           rbind (lift_app (insert_bindings ctx i
               (map run_instrument_spec.instrument_id (backtest_run_request.instruments (bd_request doc))) bs t)) (\<lambda>t. Inr (t, out)))"

text \<open>Whether \<^verbatim>\<open>run_id\<close> was assigned before the first transaction failed.\<close>

definition assigned_run_id ::
  "run_env \<Rightarrow> run_context \<Rightarrow> backtest_manifest_document \<Rightarrow> snapshot_record \<Rightarrow> component_keys \<Rightarrow> run_tables \<Rightarrow> int option" where
  "assigned_run_id env ctx doc snapshot by_key t =
     (if re_fault env QueueTx = NoConnection then None
      else (case queue_run env ctx doc snapshot by_key t of Inr (_, Queued i, _) \<Rightarrow> Some i | _ \<Rightarrow> None))"

subsection \<open>Results\<close>

text \<open>The net results of the closed trades, in the order of the exits.\<close>

fun closed_trade_pnls :: "(int, simulated_fill) dict \<Rightarrow> simulated_fill list \<Rightarrow> (run_error, decimal list) result" where
  "closed_trade_pnls entries [] = Inr []"
| "closed_trade_pnls entries (f # fs) =
     (let iid = signal_instrument_id (order_signal (fill_order f)) in
      if fill_side (economics f) = BUY then closed_trade_pnls (dict_set entries iid f) fs
      else
        (case dict_get entries iid of
           None \<Rightarrow> Inl (Bt (BacktestPersistenceError ''Reference sell has no matching entry fill.''))
         | Some entry \<Rightarrow> rbind (closed_trade_pnls (dict_pop entries iid) fs) (\<lambda>ps. Inr (net_pnl entry f # ps))))"

definition summary_of :: "backtest_run_request \<Rightarrow> simulation_result \<Rightarrow> (run_error, run_summary) result" where
  "summary_of request result =
     (let initial = initial_capital request; net = dec_sub (equity_base result) initial; zero = dec_mul initial dec_zero;
          costs = dec_sum zero (map fill_costs (fills result));
          realized = dec_sum zero (map (realized_pnl \<circ> snd) (final_positions result)) in
      rbind (closed_trade_pnls [] (fills result)) (\<lambda>pnls.
      let winning = int (length (filter (\<lambda>p. dec_lt dec_zero p) pnls)); losing = int (length (filter (\<lambda>p. dec_lt p dec_zero) pnls));
          count = int (length pnls) in
      rbind (lift_bt (div_or_raise net initial)) (\<lambda>total_return.
      rbind (if pnls = [] then Inr None
             else lift_bt (rbind (div_or_raise (dec_of_int winning) (dec_of_int count)) (\<lambda>r. Inr (Some r)))) (\<lambda>rate.
        Inr \<lparr>sm_total_return = total_return, sm_max_drawdown = dec_zero, sm_trade_count = count, sm_winning_trade_count = winning,
             sm_losing_trade_count = losing, sm_win_rate = rate, sm_gross_pnl_base = dec_add net costs, sm_net_pnl_base = net,
             sm_total_cost_base = costs, sm_realized_pnl_base = realized\<rparr>))))"

text \<open>The journal that is hashed: market and accounting values only, no identifier of a database row.\<close>

definition bar_input :: "decision_bar \<Rightarrow> pyval" where
  "bar_input b = (case bar_payload b of PyDict fs \<Rightarrow> PyDict (fs @ [(u ''close_price'', PyDec (close_price b))]) | v \<Rightarrow> v)"

definition decision_payload :: "simulated_decision \<Rightarrow> pyval" where
  "decision_payload d = PyDict
     [(u ''sequence'', PyInt (sequence d)), (u ''instrument_id'', PyInt (decision_instrument_id d)),
      (u ''decision_ts'', PyDateTime (decision_ts d)), (u ''trigger_bar'', bar_payload (decision_trigger_bar d)),
      (u ''inputs'', PyList (map bar_input (inputs d))), (u ''strategy_state_sha256'', PyStr (state_sha256 d)),
      (u ''input_manifest_sha256'', PyStr (input_manifest_sha256 d))]"

definition signal_payload :: "simulated_signal \<Rightarrow> pyval" where
  "signal_payload s = PyDict
     [(u ''decision_sequence'', PyInt (decision_sequence s)), (u ''instrument_id'', PyInt (signal_instrument_id s)),
      (u ''signal_ts'', PyDateTime (signal_ts s)), (u ''target_quantity'', PyDec (target_quantity s)),
      (u ''reason_code'', PyStr (u (reason_code s))), (u ''trigger_bar'', bar_payload (signal_trigger_bar s))]"

definition side_value :: "order_side \<Rightarrow> pystr" where
  "side_value side = (case side of BUY \<Rightarrow> u ''BUY'' | SELL \<Rightarrow> u ''SELL'')"

definition order_payload :: "simulated_order \<Rightarrow> pyval" where
  "order_payload ord = PyDict
     [(u ''semantic_key'', PyStr (semantic_key ord)), (u ''decision_sequence'', PyInt (decision_sequence (order_signal ord))),
      (u ''instrument_id'', PyInt (signal_instrument_id (order_signal ord))), (u ''side'', PyStr (side_value (order_side ord))),
      (u ''quantity'', PyDec (order_quantity ord)), (u ''submitted_at'', PyDateTime (submitted_at ord)),
      (u ''execution_bar'', case execution_bar ord of None \<Rightarrow> PyNone | Some b \<Rightarrow> bar_payload b),
      (u ''rejected_reason'', case rejected_reason ord of None \<Rightarrow> PyNone | Some m \<Rightarrow> PyStr (u m))]"

definition fill_payload :: "simulated_fill \<Rightarrow> pyval" where
  "fill_payload f = PyDict
     [(u ''order_key'', PyStr (semantic_key (fill_order f))), (u ''fill_ts'', PyDateTime (fill_ts f)),
      (u ''reference_bar'', bar_payload (reference_bar f)), (u ''reference_price'', PyDec (reference_price f)),
      (u ''execution_price'', PyDec (fill_execution_price (economics f))), (u ''quantity'', PyDec (fill_quantity (economics f))),
      (u ''commission_amount'', PyDec (commission_amount (economics f))),
      (u ''slippage_amount'', PyDec (slippage_amount (economics f))), (u ''tax_amount'', PyDec (tax_amount (economics f))),
      (u ''cash_delta'', PyDec (cash_delta (economics f)))]"

definition position_payload :: "int \<times> position_state \<Rightarrow> pystr \<times> pyval" where
  "position_payload p = (str_int (fst p), PyDict
     [(u ''quantity'', PyDec (quantity (snd p))), (u ''average_cost'', PyDec (average_cost (snd p))),
      (u ''realized_pnl'', PyDec (realized_pnl (snd p)))])"

definition valuation_payload :: "simulated_valuation \<Rightarrow> pyval" where
  "valuation_payload v = PyDict
     [(u ''instrument_id'', PyInt (valuation_instrument_id v)), (u ''snapshot_ts'', PyDateTime (snapshot_ts v)),
      (u ''reference_bar'', bar_payload (valuation_reference_bar v)), (u ''quantity'', PyDec (valuation_quantity v)),
      (u ''average_cost'', PyDec (valuation_average_cost v)), (u ''realized_pnl'', PyDec (valuation_realized_pnl v)),
      (u ''market_value'', PyDec (market_value v)), (u ''unrealized_pnl'', PyDec (unrealized_pnl v))]"

definition summary_payload :: "run_summary \<Rightarrow> pyval" where
  "summary_payload s = PyDict
     [(u ''total_return'', PyDec (sm_total_return s)), (u ''max_drawdown'', PyDec (sm_max_drawdown s)),
      (u ''trade_count'', PyInt (sm_trade_count s)), (u ''winning_trade_count'', PyInt (sm_winning_trade_count s)),
      (u ''losing_trade_count'', PyInt (sm_losing_trade_count s)),
      (u ''win_rate'', case sm_win_rate s of None \<Rightarrow> PyNone | Some r \<Rightarrow> PyDec r),
      (u ''gross_pnl_base'', PyDec (sm_gross_pnl_base s)), (u ''net_pnl_base'', PyDec (sm_net_pnl_base s)),
      (u ''total_cost_base'', PyDec (sm_total_cost_base s)), (u ''realized_pnl_base'', PyDec (sm_realized_pnl_base s))]"

definition result_payload :: "simulation_result \<Rightarrow> run_summary \<Rightarrow> pyval" where
  "result_payload result summary = PyDict
     [(u ''decisions'', PyList (map decision_payload (decisions result))), (u ''signals'', PyList (map signal_payload (signals result))),
      (u ''orders'', PyList (map order_payload (orders result))), (u ''fills'', PyList (map fill_payload (fills result))),
      (u ''cash'', PyDec (final_cash result)), (u ''positions'', PyDict (map position_payload (sort_key fst (final_positions result)))),
      (u ''valuations'', PyList (map valuation_payload (valuations result))), (u ''equity_base'', PyDec (equity_base result)),
      (u ''summary'', summary_payload summary)]"

definition result_sha256 :: "(bytes \<Rightarrow> pystr) \<Rightarrow> simulation_result \<Rightarrow> run_summary \<Rightarrow> (run_error, pystr) result" where
  "result_sha256 sha256 result summary = rbind (lift_ser (canonical_json_bytes (result_payload result summary))) (\<lambda>b. Inr (sha256 b))"

subsection \<open>Running\<close>

definition sim_config_of :: "run_env \<Rightarrow> backtest_manifest_document \<Rightarrow> role_selectors \<Rightarrow> sim_config" where
  "sim_config_of env doc sel =
     \<lparr>cfg_sha256 = io_sha256 (b_io (re_builder env)), cfg_dump = request_dump, cfg_request = bd_request doc, cfg_signal = sel SIGNAL,
      cfg_execution = sel EXECUTION, cfg_valuation = sel VALUATION, cfg_run_spec = Some (bd_run_spec_sha256 doc)\<rparr>"

text \<open>The simulation always returns, so that its first case never arises.\<close>

definition simulated :: "sim_config \<Rightarrow> (run_error, simulation_result) result" where
  "simulated cfg = (case simulate cfg of None \<Rightarrow> Inl (Driver ''no result'') | Some r \<Rightarrow> lift_bt r)"

definition computed ::
  "run_env \<Rightarrow> backtest_manifest_document \<Rightarrow> role_selectors \<Rightarrow> (run_error, simulation_result \<times> run_summary \<times> pystr) result" where
  "computed env doc sel =
     rbind (simulated (sim_config_of env doc sel)) (\<lambda>result.
     rbind (summary_of (bd_request doc) result) (\<lambda>summary.
     rbind (result_sha256 (io_sha256 (b_io (re_builder env))) result summary) (\<lambda>digest. Inr (result, summary, digest))))"

definition finish_body ::
  "run_env \<Rightarrow> run_context \<Rightarrow> backtest_manifest_document \<Rightarrow> int \<Rightarrow> simulation_result \<times> run_summary \<times> pystr \<Rightarrow> run_tables \<times> ledger \<Rightarrow>
     (run_error, (run_tables \<times> ledger) \<times> unit) result" where
  "finish_body env ctx doc i c db =
     (case (c, db) of ((result, summary, digest), (t, l)) \<Rightarrow>
        (case run_by_id i t of
           None \<Rightarrow> Inl (App foreign_key_violation)
         | Some r \<Rightarrow>
             rbind (persist \<lparr>lx_run = r, lx_series = run_series t, lx_context = ctx\<rparr> result (initial_capital (bd_request doc))
                 (backtest_run_request.base_currency_code (bd_request doc)) summary l) (\<lambda>l.
             rbind (json_text (run_metadata doc [(u ''result_sha256'', PyStr digest)])) (\<lambda>md.
             rbind (mark_run_succeeded i (re_succeeded_at env) md t) (\<lambda>t. Inr ((t, l), ()))))))"

definition failure_metadata :: "backtest_manifest_document \<Rightarrow> pystr \<Rightarrow> pyval" where
  "failure_metadata doc name = PyDict
     [(u ''run_spec_sha256'', PyStr (bd_run_spec_sha256 doc)), (u ''failure'', PyDict [(u ''code'', PyStr name)])]"

definition fail_body :: "run_env \<Rightarrow> backtest_manifest_document \<Rightarrow> int \<Rightarrow> run_error \<Rightarrow> run_tables \<Rightarrow> (run_error, run_tables \<times> unit) result" where
  "fail_body env doc i e t =
     rbind (json_text (failure_metadata doc (re_exception_name env e))) (\<lambda>md.
     rbind (lift_app (mark_run_failed i (re_failed_at env) (re_exception_name env e) md t)) (\<lambda>t. Inr (t, ())))"

text \<open>\<^verbatim>\<open>_mark_failed\<close> swallows whatever goes wrong in it.\<close>

definition fail_run :: "run_env \<Rightarrow> backtest_manifest_document \<Rightarrow> int option \<Rightarrow> run_error \<Rightarrow> run_world \<Rightarrow> run_world" where
  "fail_run env doc i e w =
     (case i of None \<Rightarrow> w
      | Some i \<Rightarrow> w\<lparr>rw_runs := snd (run_tx env FailedTx (\<lambda>_. True) (fail_body env doc i e) (rw_runs w))\<rparr>)"

definition reported :: "run_error \<Rightarrow> run_error" where
  "reported e = (if is_bisfin e then e else Bt (BacktestPersistenceError ''Reference backtest execution failed.''))"

record run_result =
  ru_run_id :: int
  ru_run_code :: pystr
  ru_status :: run_status
  ru_result_sha256 :: "pystr option"

definition replay_result :: "run_row \<Rightarrow> run_result" where
  "replay_result r = \<lparr>ru_run_id = rn_run_id r, ru_run_code = qr_run_code r, ru_status = rn_status r,
     ru_result_sha256 = (case metadata_field r ''result_sha256'' of Some (JStr h) \<Rightarrow> Some h | _ \<Rightarrow> None)\<rparr>"

definition execute_run ::
  "run_env \<Rightarrow> backtest_manifest_document \<Rightarrow> role_selectors \<Rightarrow> int \<Rightarrow> run_world \<Rightarrow> (run_error, run_result) result \<times> run_world" where
  "execute_run env doc sel i w =
     (case run_tx env RunningTx (\<lambda>_. True) (\<lambda>t. rbind (mark_run_running i (re_running_at env) t) (\<lambda>t. Inr (t, ()))) (rw_runs w) of
        (Inl e, t) \<Rightarrow> (Inl (reported e), fail_run env doc (Some i) e (w\<lparr>rw_runs := t\<rparr>))
      | (Inr _, t) \<Rightarrow>
          (case computed env doc sel of
             Inl e \<Rightarrow> (Inl (reported e), fail_run env doc (Some i) e (w\<lparr>rw_runs := t\<rparr>))
           | Inr c \<Rightarrow>
               (case run_tx env FinishTx (\<lambda>(t, l). deferred_checks i l) (finish_body env (rw_context w) doc i c) (t, rw_ledger w) of
                  (Inl e, t, l) \<Rightarrow> (Inl (reported e), fail_run env doc (Some i) e (w\<lparr>rw_runs := t, rw_ledger := l\<rparr>))
                | (Inr _, t, l) \<Rightarrow>
                    (Inr \<lparr>ru_run_id = i, ru_run_code = run_code (bd_request doc), ru_status = RUN_SUCCEEDED,
                          ru_result_sha256 = Some (snd (snd c))\<rparr>, w\<lparr>rw_runs := t, rw_ledger := l\<rparr>))))"

definition run_document :: "run_env \<Rightarrow> backtest_manifest_document \<Rightarrow> run_world \<Rightarrow> (run_error, run_result) result \<times> run_world" where
  "run_document env doc w =
     (case preflight env (backtest_run_request.snapshot_code (bd_request doc)) w of
        Inl e \<Rightarrow> (Inl e, w)
      | Inr (snapshot, cs) \<Rightarrow>
          let by_key = component_by_key cs in
          (case load_selectors env (rw_files w) (bd_request doc) by_key of
             Inl e \<Rightarrow> (Inl e, w)
           | Inr sel \<Rightarrow>
               (case run_tx env QueueTx (\<lambda>_. True) (queue_body env (rw_context w) doc snapshot by_key) (rw_runs w) of
                  (Inl e, t) \<Rightarrow>
                    (Inl (reported e), fail_run env doc (assigned_run_id env (rw_context w) doc snapshot by_key (rw_runs w)) e (w\<lparr>rw_runs := t\<rparr>))
                | (Inr (Replayed r), t) \<Rightarrow> (Inr (replay_result r), w\<lparr>rw_runs := t\<rparr>)
                | (Inr (Queued i), t) \<Rightarrow> execute_run env doc sel i (w\<lparr>rw_runs := t\<rparr>))))"

definition show_run :: "run_env \<Rightarrow> pystr \<Rightarrow> run_world \<Rightarrow> (run_error, run_row option) result" where
  "show_run env code w = fst (run_tx env ShowTx (\<lambda>_. True) (\<lambda>t. Inr (t, run_by_code code t)) (rw_runs w))"

end
