(* ===== verification/Run_Safety.thy ===== *)
theory Run_Safety
  imports Run_Service
begin

text \<open>
  What the service guarantees across runs. Its transactions are the steps of a relation on the world, interleaved in any
  order and with any fault; a run of the service is a sequence of such steps. On every reachable world a run has rows in
  the ledger exactly when it has succeeded, a finished run and its ledger never change, and the totals of orders agree
  with their fills. From there: what a caller is told is what was stored, and a finished run is replayed.
\<close>

subsection \<open>Transactions\<close>

lemma run_tx_cases:
  assumes "run_tx env stage deferred body db = (r, db')"
  obtains e where "r = Inl e" "db' = db"
  | e a where "r = Inl e" "body db = Inr (db', a)" "deferred db'" "re_fault env stage = Unacknowledged"
  | a where "r = Inr a" "body db = Inr (db', a)" "deferred db'" "re_fault env stage = Working"
  using assms unfolding run_tx_def by (cases "re_fault env stage") (auto split: sum.splits if_splits)

lemma run_tx_db:
  assumes "run_tx env stage deferred body db = (r, db')"
  shows "db' = db \<or> (\<exists>a. body db = Inr (db', a) \<and> deferred db')"
  using assms by (rule run_tx_cases) auto

subsection \<open>Steps\<close>

inductive run_step :: "run_world \<Rightarrow> run_world \<Rightarrow> bool" where
  step_queue: "run_tx env QueueTx (\<lambda>_. True) (queue_body env (rw_context w) doc s by_key) (rw_runs w) = (r, t) \<Longrightarrow>
    run_step w (w\<lparr>rw_runs := t\<rparr>)"
| step_running: "run_tx env RunningTx (\<lambda>_. True) (\<lambda>t. rbind (mark_run_running i (re_running_at env) t) (\<lambda>t. Inr (t, ()))) (rw_runs w) = (r, t) \<Longrightarrow>
    run_step w (w\<lparr>rw_runs := t\<rparr>)"
| step_finish: "run_tx env FinishTx (\<lambda>(t, l). deferred_checks i l) (finish_body env (rw_context w) doc i c) (rw_runs w, rw_ledger w) = (r, t, l) \<Longrightarrow>
    run_step w (w\<lparr>rw_runs := t, rw_ledger := l\<rparr>)"
| step_fail: "run_tx env FailedTx (\<lambda>_. True) (fail_body env doc i e) (rw_runs w) = (r, t) \<Longrightarrow> run_step w (w\<lparr>rw_runs := t\<rparr>)"
| step_outside: "run_step w (w\<lparr>rw_files := fs, rw_context := ctx\<rparr>)"

inductive_cases run_stepE: "run_step w w'"

text \<open>The runs that have succeeded.\<close>

definition succeeded_ids :: "run_tables \<Rightarrow> int set" where
  "succeeded_ids t = rn_run_id ` {r \<in> set (tbl_rows (runs t)). rn_status r = RUN_SUCCEEDED}"

definition run_world_inv :: "run_world \<Rightarrow> bool" where
  "run_world_inv w \<longleftrightarrow>
     run_inv (rw_runs w) \<and> ledger_ids_ok (rw_ledger w) \<and> ledger_run_ids (rw_ledger w) = succeeded_ids (rw_runs w) \<and>
     (\<forall>j. deferred_checks j (rw_ledger w))"

definition run_views :: "run_world \<Rightarrow> (run_row \<times> run_ledger) set" where
  "run_views w = (\<lambda>r. (r, ledger_of (rn_run_id r) (rw_ledger w))) ` set (tbl_rows (runs (rw_runs w)))"

definition view_evolves :: "run_row \<times> run_ledger \<Rightarrow> run_row \<times> run_ledger \<Rightarrow> bool" where
  "view_evolves v v' \<longleftrightarrow> run_follows (fst v) (fst v') \<and> (finished (rn_status (fst v)) \<longrightarrow> snd v' = snd v)"

lemma run_world_inv_empty:
  "run_world_inv \<lparr>rw_files = fs, rw_context = ctx, rw_runs = empty_runs, rw_ledger = empty_ledger\<rparr>"
  using run_inv_empty
  by (simp add: run_world_inv_def ledger_ids_ok_def ledger_run_ids_def succeeded_ids_def deferred_checks_def empty_runs_def
      empty_ledger_def empty_table_def)

lemma succeeded_update:
  assumes "run_inv t" and "run_by_id i t = Some r" and "rn_status r \<noteq> RUN_SUCCEEDED" and "rn_run_id r' = i"
  shows "succeeded_ids (update_run i r' t) = (if rn_status r' = RUN_SUCCEEDED then insert i (succeeded_ids t) else succeeded_ids t)"
proof -
  have r: "r \<in> set (tbl_rows (runs t))" "rn_run_id r = i" using run_by_id_Some [OF assms(2)] by simp_all
  have same: "x = r" if "x \<in> set (tbl_rows (runs t))" "rn_run_id x = i" for x
    using assms(1) that r by (auto simp: run_inv_def distinct_map dest: inj_onD)
  have rows: "set (tbl_rows (runs (update_run i r' t))) = insert r' {x \<in> set (tbl_rows (runs t)). rn_run_id x \<noteq> i}"
    using r by (auto simp: update_run_def)
  show ?thesis
    unfolding succeeded_ids_def rows using same assms(3,4) by auto
qed

lemma queue_body_Inr:
  assumes "queue_body env ctx doc s by_key t = Inr (t', out)"
  shows "(out = Replayed r \<longrightarrow> t' = t) \<and>
    (\<forall>i. out = Queued i \<longrightarrow> (\<exists>t1 t2 q bs. ensure_strategy_version CLASS_PATH (re_strategy_sha256 env) t = Inr t1 \<and>
       create_queued ctx q (fst t1) = Inr (t2, i) \<and> qr_run_code q = run_code (bd_request doc) \<and>
       json_text (run_metadata doc []) = Inr (qr_metadata q) \<and>
       insert_bindings ctx i (map run_instrument_spec.instrument_id (backtest_run_request.instruments (bd_request doc))) bs t2 = Inr t'))"
proof -
  obtain t1 out1 bs where q: "queue_run env ctx doc s by_key t = Inr (t1, out1, bs)"
    and b: "(case out1 of Replayed r \<Rightarrow> Inr (t1, out1)
       | Queued i \<Rightarrow> rbind (lift_app (insert_bindings ctx i
           (map run_instrument_spec.instrument_id (backtest_run_request.instruments (bd_request doc))) bs t1)) (\<lambda>t. Inr (t, out1))) = Inr (t', out)"
    using assms by (auto simp: queue_body_def rbind_Inr_iff)
  show ?thesis
  proof (cases out1)
    case (Replayed r')
    then have "out = Replayed r'" "t' = t1" using b by simp_all
    moreover have "t1 = t" using q Replayed by (auto simp: queue_run_def Let_def rbind_Inr_iff split: option.splits)
    ultimately show ?thesis by simp
  next
    case (Queued i)
    then have out: "out = Queued i" and ins: "insert_bindings ctx i
        (map run_instrument_spec.instrument_id (backtest_run_request.instruments (bd_request doc))) bs t1 = Inr t'"
      using b by (auto simp: rbind_Inr_iff)
    obtain t0 q' where t0: "ensure_strategy_version CLASS_PATH (re_strategy_sha256 env) t = Inr t0"
      "create_queued ctx q' (fst t0) = Inr (t1, i)" "qr_run_code q' = run_code (bd_request doc)"
      "json_text (run_metadata doc []) = Inr (qr_metadata q')"
      using q Queued unfolding queue_run_def Let_def
      by (auto simp: rbind_Inr_iff simp del: u_Cons split: option.splits)
    show ?thesis using out ins t0 by blast
  qed
qed

lemma queue_keeps:
  assumes "run_inv t" and "queue_body env ctx doc s by_key t = Inr (t', out)"
  shows "run_inv t' \<and> runs_evolve t t' \<and> succeeded_ids t' = succeeded_ids t"
proof (cases out)
  case (Replayed r)
  then show ?thesis using queue_body_Inr [OF assms(2), of r] assms(1) runs_evolve_refl by simp
next
  case (Queued i)
  then obtain t1 t2 q bs where t1: "ensure_strategy_version CLASS_PATH (re_strategy_sha256 env) t = Inr t1"
    and t2: "create_queued ctx q (fst t1) = Inr (t2, i)"
    and t': "insert_bindings ctx i (map run_instrument_spec.instrument_id (backtest_run_request.instruments (bd_request doc))) bs t2 = Inr t'"
    using queue_body_Inr [OF assms(2)] by blast
  obtain u v where u: "t1 = (u, v)" by fastforce
  have inv1: "run_inv u" and same: "runs u = runs t"
    using ensure_strategy_version_keeps [of CLASS_PATH "re_strategy_sha256 env" t u v] t1 assms(1) by (simp_all add: u)
  have t2: "create_queued ctx q u = Inr (t2, i)" using t2 u by simp
  note inv2 = create_queued_keeps [OF inv1 t2] and inv3 = insert_bindings_keeps [OF create_queued_keeps(1) [OF inv1 t2] t']
  have "succeeded_ids t2 = succeeded_ids u"
  proof (rule create_queued_Inr [OF t2])
    fix capital digest
    assume "t2 = u\<lparr>runs := (runs u)\<lparr>tbl_rows := tbl_rows (runs u) @ [stored_run q i capital digest], tbl_next := i + 1\<rparr>\<rparr>"
    then have "set (tbl_rows (runs t2)) = insert (stored_run q i capital digest) (set (tbl_rows (runs u)))" by simp
    moreover have "rn_status (stored_run q i capital digest) \<noteq> RUN_SUCCEEDED" by simp
    ultimately show ?thesis unfolding succeeded_ids_def by (metis (mono_tags, lifting) insert_iff Collect_cong)
  qed
  then have "succeeded_ids t' = succeeded_ids t" by (simp add: succeeded_ids_def inv3(2) same)
  moreover have "runs_evolve t t'" using inv2(2) by (simp add: runs_evolve_def inv3(2) same)
  ultimately show ?thesis using inv3(1) by simp
qed

lemma running_keeps:
  assumes "run_inv t" and "mark_run_running i now t = Inr t'"
  shows "run_inv t' \<and> runs_evolve t t' \<and> succeeded_ids t' = succeeded_ids t"
proof (rule mark_running_Inr [OF assms(2)])
  fix r assume r: "run_by_id i t = Some r" "rn_status r = RUN_QUEUED"
    "t' = update_run i (r\<lparr>rn_status := RUN_RUNNING, rn_started_at := Some now\<rparr>) t"
  then show ?thesis
    using run_updates_keep(1) [OF assms] run_by_id_Some [OF r(1)] succeeded_update [OF assms(1) r(1)] by simp
qed

lemma failing_keeps:
  assumes "run_inv t" and "mark_run_failed i now summary md t = Inr t'"
  shows "run_inv t' \<and> runs_evolve t t' \<and> succeeded_ids t' = succeeded_ids t"
proof (rule mark_failed_Inr [OF assms(2)])
  assume "t' = t" then show ?thesis using assms(1) runs_evolve_refl by simp
next
  fix r assume r: "run_by_id i t = Some r" "rn_status r = RUN_RUNNING"
    "t' = update_run i (r\<lparr>rn_status := RUN_FAILED, rn_finished_at := Some now, rn_error_summary := Some (take 512 summary), qr_metadata := md\<rparr>) t"
  then show ?thesis
    using run_updates_keep(3) [OF assms] run_by_id_Some [OF r(1)] succeeded_update [OF assms(1) r(1)] by simp
qed

lemma finish_body_Inr:
  assumes "finish_body env ctx doc i (result, summary, digest) (t, l) = Inr ((t', l'), a)"
  obtains r md where "run_by_id i t = Some r"
    "persist \<lparr>lx_run = r, lx_series = run_series t, lx_context = ctx\<rparr> result (initial_capital (bd_request doc))
       (backtest_run_request.base_currency_code (bd_request doc)) summary l = Inr l'"
    "json_text (run_metadata doc [(u ''result_sha256'', PyStr digest)]) = Inr md" "mark_run_succeeded i (re_succeeded_at env) md t = Inr t'"
  using assms by (auto simp: finish_body_def rbind_Inr_iff simp del: u_Cons split: option.splits)

lemma finish_keeps:
  assumes "run_inv t" and "ledger_ids_ok l" and "finish_body env ctx doc i c (t, l) = Inr ((t', l'), a)"
  shows "run_inv t' \<and> runs_evolve t t' \<and> succeeded_ids t' = insert i (succeeded_ids t) \<and> i \<notin> succeeded_ids t"
    and "ledger_ids_ok l' \<and> ledger_run_ids l' = insert i (ledger_run_ids l)" and "j \<noteq> i \<Longrightarrow> ledger_of j l' = ledger_of j l"
    and "j \<noteq> i \<Longrightarrow> deferred_checks j l \<Longrightarrow> deferred_checks j l'"
    and "\<exists>r. run_by_id i t = Some r \<and> rn_status r = RUN_RUNNING"
proof -
  obtain result summary digest where c: "c = (result, summary, digest)" by (cases c) auto
  obtain r md where r: "run_by_id i t = Some r"
    and p: "persist \<lparr>lx_run = r, lx_series = run_series t, lx_context = ctx\<rparr> result (initial_capital (bd_request doc))
       (backtest_run_request.base_currency_code (bd_request doc)) summary l = Inr l'"
    and m: "mark_run_succeeded i (re_succeeded_at env) md t = Inr t'"
    using finish_body_Inr assms(3) unfolding c by metis
  have i: "rn_run_id r = i" using run_by_id_Some [OF r] by simp
  obtain x where x: "run_by_id i t = Some x" "rn_status x = RUN_RUNNING"
    "t' = update_run i (x\<lparr>rn_status := RUN_SUCCEEDED, rn_finished_at := Some (re_succeeded_at env), qr_metadata := md\<rparr>) t"
    using mark_succeeded_Inr [OF m] by metis
  have "i \<notin> succeeded_ids t"
  proof
    assume "i \<in> succeeded_ids t"
    then obtain y where y: "y \<in> set (tbl_rows (runs t))" "rn_run_id y = i" "rn_status y = RUN_SUCCEEDED" by (auto simp: succeeded_ids_def)
    then have "run_by_id i t = Some y" using run_lookups(1) [OF assms(1) y(1)] by simp
    then show False using x y by simp
  qed
  then show "run_inv t' \<and> runs_evolve t t' \<and> succeeded_ids t' = insert i (succeeded_ids t) \<and> i \<notin> succeeded_ids t"
    using run_updates_keep(2) [OF assms(1) m] succeeded_update [OF assms(1) x(1)] run_by_id_Some [OF x(1)] x(2,3) by simp
  show "ledger_ids_ok l' \<and> ledger_run_ids l' = insert i (ledger_run_ids l)"
    using persist_ids_ok [OF p assms(2)] persist_other_ledgers(1) [OF p assms(2)] i by simp
  show "ledger_of j l' = ledger_of j l" if "j \<noteq> i" using persist_other_ledgers(2) [OF p assms(2)] i that by simp
  show "deferred_checks j l'" if "j \<noteq> i" "deferred_checks j l"
    using persist_deferred_checks [OF p assms(2) that(2)] i that(1) by simp
  show "\<exists>r. run_by_id i t = Some r \<and> rn_status r = RUN_RUNNING" using x(1,2) by blast
qed

text \<open>What becomes of the tables in a step, and of the ledgers of the runs it does not finish.\<close>

lemma run_step_effect:
  assumes inv: "run_world_inv w" and step: "run_step w w'"
  shows "run_world_inv w' \<and> runs_evolve (rw_runs w) (rw_runs w') \<and>
    (\<forall>r \<in> set (tbl_rows (runs (rw_runs w))). finished (rn_status r) \<longrightarrow> ledger_of (rn_run_id r) (rw_ledger w') = ledger_of (rn_run_id r) (rw_ledger w))"
proof -
  have runs: "run_inv (rw_runs w)" and ids: "ledger_ids_ok (rw_ledger w)" and ledgers: "ledger_run_ids (rw_ledger w) = succeeded_ids (rw_runs w)"
    and totals: "\<And>j. deferred_checks j (rw_ledger w)"
    using inv by (auto simp: run_world_inv_def)
  have only_runs: ?thesis if "w' = w\<lparr>rw_runs := t\<rparr>" "run_inv t \<and> runs_evolve (rw_runs w) t \<and> succeeded_ids t = succeeded_ids (rw_runs w)" for t
    using that ids ledgers totals by (simp add: run_world_inv_def)
  have same: "run_inv (rw_runs w) \<and> runs_evolve (rw_runs w) (rw_runs w) \<and> succeeded_ids (rw_runs w) = succeeded_ids (rw_runs w)"
    using runs runs_evolve_refl by simp
  show ?thesis
    using step
  proof (cases rule: run_step.cases)
    case (step_queue env doc s by_key r t)
    from run_tx_db [OF step_queue(2)] have "run_inv t \<and> runs_evolve (rw_runs w) t \<and> succeeded_ids t = succeeded_ids (rw_runs w)"
      using same queue_keeps [OF runs] by blast
    then show ?thesis by (rule only_runs [OF step_queue(1)])
  next
    case (step_running env i r t)
    have "t = rw_runs w \<or> mark_run_running i (re_running_at env) (rw_runs w) = Inr t"
      using run_tx_db [OF step_running(2)] by (auto simp: rbind_Inr_iff)
    then have "run_inv t \<and> runs_evolve (rw_runs w) t \<and> succeeded_ids t = succeeded_ids (rw_runs w)"
      using same running_keeps [OF runs] by blast
    then show ?thesis by (rule only_runs [OF step_running(1)])
  next
    case (step_fail env doc i e r t)
    have "t = rw_runs w \<or> (\<exists>md. mark_run_failed i (re_failed_at env) (re_exception_name env e) md (rw_runs w) = Inr t)"
      using run_tx_db [OF step_fail(2)] by (auto simp: rbind_Inr_iff fail_body_def)
    then have "run_inv t \<and> runs_evolve (rw_runs w) t \<and> succeeded_ids t = succeeded_ids (rw_runs w)"
      using same failing_keeps [OF runs] by blast
    then show ?thesis by (rule only_runs [OF step_fail(1)])
  next
    case (step_outside fs ctx)
    then show ?thesis using inv runs_evolve_refl by (simp add: run_world_inv_def)
  next
    case (step_finish env i doc c r t l)
    from run_tx_db [OF step_finish(2)] consider "(t, l) = (rw_runs w, rw_ledger w)"
      | a where "finish_body env (rw_context w) doc i c (rw_runs w, rw_ledger w) = Inr ((t, l), a)" "deferred_checks i l" by auto
    then show ?thesis
    proof cases
      case 1
      then show ?thesis using step_finish(1) inv runs_evolve_refl by (simp add: run_world_inv_def)
    next
      case 2
      note f = finish_keeps [OF runs ids 2(1)]
      have "deferred_checks j l" for j using f(4) [of j] totals 2(2) by (cases "j = i") simp_all
      then have "run_world_inv w'"
        using f(1,2) ledgers step_finish(1) by (simp add: run_world_inv_def)
      moreover have "ledger_of (rn_run_id r) l = ledger_of (rn_run_id r) (rw_ledger w)"
        if r: "r \<in> set (tbl_rows (runs (rw_runs w)))" "finished (rn_status r)" for r
      proof -
        have "rn_run_id r \<noteq> i"
        proof
          assume "rn_run_id r = i"
          then have "run_by_id i (rw_runs w) = Some r" using run_lookups(1) [OF runs r(1)] by simp
          then show False using f(5) r(2) by (auto simp: finished_def)
        qed
        then show ?thesis by (rule f(3))
      qed
      ultimately show ?thesis using f(1) step_finish(1) by simp
    qed
  qed
qed

interpretation run_history: evolving_table run_views run_step run_world_inv view_evolves
proof unfold_locales
  show "view_evolves v v" for v by (simp add: view_evolves_def run_follows_refl)
  show "view_evolves a c" if "view_evolves a b" "view_evolves b c" for a b c
    using that run_follows_trans [of "fst a" "fst b" "fst c"] by (auto simp: view_evolves_def run_follows_def)
  show "run_world_inv w'" if "run_world_inv w" "run_step w w'" for w w'
    using run_step_effect [OF that] by simp
  fix w w' v
  assume w: "run_world_inv w" "run_step w w'" and "v \<in> run_views w"
  then obtain r where r: "r \<in> set (tbl_rows (runs (rw_runs w)))" "v = (r, ledger_of (rn_run_id r) (rw_ledger w))"
    by (auto simp: run_views_def)
  then obtain r' where r': "r' \<in> set (tbl_rows (runs (rw_runs w')))" "run_follows r r'"
    using run_step_effect [OF w] unfolding runs_evolve_def by blast
  have "view_evolves v (r', ledger_of (rn_run_id r') (rw_ledger w'))"
    using run_step_effect [OF w] r r'(2) by (auto simp: view_evolves_def run_follows_def)
  then show "\<exists>v' \<in> run_views w'. view_evolves v v'"
    using r'(1) unfolding run_views_def by blast
qed

subsection \<open>A run is a sequence of steps\<close>

lemma fail_run_steps: "run_step\<^sup>*\<^sup>* w (fail_run env doc i e w)"
proof (cases i)
  case None
  then show ?thesis by (simp add: fail_run_def)
next
  case (Some k)
  obtain r t where "run_tx env FailedTx (\<lambda>_. True) (fail_body env doc k e) (rw_runs w) = (r, t)" by fastforce
  then show ?thesis using step_fail by (auto simp: fail_run_def Some)
qed

lemma steps_then: "run_step w w1 \<Longrightarrow> run_step\<^sup>*\<^sup>* w1 w2 \<Longrightarrow> run_step\<^sup>*\<^sup>* w w2"
  by (rule converse_rtranclp_into_rtranclp)

text \<open>The ways \<^verbatim>\<open>run\<close> can go once the run is queued.\<close>

lemma execute_run_cases:
  assumes "execute_run env doc sel i w = (out, w')"
  obtains (running_failed) e t where
    "run_tx env RunningTx (\<lambda>_. True) (\<lambda>t. rbind (mark_run_running i (re_running_at env) t) (\<lambda>t. Inr (t, ()))) (rw_runs w) = (Inl e, t)"
    "out = Inl (reported e)" "w' = fail_run env doc (Some i) e (w\<lparr>rw_runs := t\<rparr>)"
  | (not_computed) e a t where
    "run_tx env RunningTx (\<lambda>_. True) (\<lambda>t. rbind (mark_run_running i (re_running_at env) t) (\<lambda>t. Inr (t, ()))) (rw_runs w) = (Inr a, t)"
    "computed env doc sel = Inl e" "out = Inl (reported e)" "w' = fail_run env doc (Some i) e (w\<lparr>rw_runs := t\<rparr>)"
  | (not_finished) e a c t t' l where
    "run_tx env RunningTx (\<lambda>_. True) (\<lambda>t. rbind (mark_run_running i (re_running_at env) t) (\<lambda>t. Inr (t, ()))) (rw_runs w) = (Inr a, t)"
    "computed env doc sel = Inr c"
    "run_tx env FinishTx (\<lambda>(t, l). deferred_checks i l) (finish_body env (rw_context w) doc i c) (t, rw_ledger w) = (Inl e, t', l)"
    "out = Inl (reported e)" "w' = fail_run env doc (Some i) e (w\<lparr>rw_runs := t', rw_ledger := l\<rparr>)"
  | (succeeded) a b c t t' l where
    "run_tx env RunningTx (\<lambda>_. True) (\<lambda>t. rbind (mark_run_running i (re_running_at env) t) (\<lambda>t. Inr (t, ()))) (rw_runs w) = (Inr a, t)"
    "computed env doc sel = Inr c"
    "run_tx env FinishTx (\<lambda>(t, l). deferred_checks i l) (finish_body env (rw_context w) doc i c) (t, rw_ledger w) = (Inr b, t', l)"
    "out = Inr \<lparr>ru_run_id = i, ru_run_code = run_code (bd_request doc), ru_status = RUN_SUCCEEDED, ru_result_sha256 = Some (snd (snd c))\<rparr>"
    "w' = w\<lparr>rw_runs := t', rw_ledger := l\<rparr>"
  using assms unfolding execute_run_def by (auto split: prod.splits sum.splits)

lemma execute_run_steps: "run_step\<^sup>*\<^sup>* w (snd (execute_run env doc sel i w))"
proof -
  obtain out w' where x: "execute_run env doc sel i w = (out, w')" by fastforce
  have "run_step\<^sup>*\<^sup>* w w'"
    using x
  proof (cases rule: execute_run_cases)
    case (running_failed e t)
    show ?thesis unfolding running_failed(3) by (rule steps_then [OF step_running [OF running_failed(1)] fail_run_steps])
  next
    case (not_computed e a t)
    show ?thesis unfolding not_computed(4) by (rule steps_then [OF step_running [OF not_computed(1)] fail_run_steps])
  next
    case (not_finished e a c t t' l)
    have "run_step (w\<lparr>rw_runs := t\<rparr>) (w\<lparr>rw_runs := t', rw_ledger := l\<rparr>)"
      using step_finish [of env i "w\<lparr>rw_runs := t\<rparr>" doc c "Inl e" t' l] not_finished(3) by simp
    then show ?thesis
      unfolding not_finished(5) using steps_then [OF step_running [OF not_finished(1)]] steps_then fail_run_steps by blast
  next
    case (succeeded a b c t t' l)
    have "run_step (w\<lparr>rw_runs := t\<rparr>) (w\<lparr>rw_runs := t', rw_ledger := l\<rparr>)"
      using step_finish [of env i "w\<lparr>rw_runs := t\<rparr>" doc c "Inr b" t' l] succeeded(3) by simp
    then show ?thesis
      unfolding succeeded(5) using steps_then [OF step_running [OF succeeded(1)]] by blast
  qed
  then show ?thesis by (simp add: x)
qed

text \<open>The ways it can go before.\<close>

lemma run_document_cases:
  assumes "run_document env doc w = (out, w')"
  obtains (refused) e where "out = Inl e" "w' = w"
  | (not_queued) snapshot cs sel e t where
    "preflight env (backtest_run_request.snapshot_code (bd_request doc)) w = Inr (snapshot, cs)"
    "load_selectors env (rw_files w) (bd_request doc) (component_by_key cs) = Inr sel"
    "run_tx env QueueTx (\<lambda>_. True) (queue_body env (rw_context w) doc snapshot (component_by_key cs)) (rw_runs w) = (Inl e, t)"
    "out = Inl (reported e)"
    "w' = fail_run env doc (assigned_run_id env (rw_context w) doc snapshot (component_by_key cs) (rw_runs w)) e (w\<lparr>rw_runs := t\<rparr>)"
  | (replayed) snapshot cs sel r t where
    "preflight env (backtest_run_request.snapshot_code (bd_request doc)) w = Inr (snapshot, cs)"
    "load_selectors env (rw_files w) (bd_request doc) (component_by_key cs) = Inr sel"
    "run_tx env QueueTx (\<lambda>_. True) (queue_body env (rw_context w) doc snapshot (component_by_key cs)) (rw_runs w) = (Inr (Replayed r), t)"
    "out = Inr (replay_result r)" "w' = w\<lparr>rw_runs := t\<rparr>"
  | (queued) snapshot cs sel i t where
    "preflight env (backtest_run_request.snapshot_code (bd_request doc)) w = Inr (snapshot, cs)"
    "load_selectors env (rw_files w) (bd_request doc) (component_by_key cs) = Inr sel"
    "run_tx env QueueTx (\<lambda>_. True) (queue_body env (rw_context w) doc snapshot (component_by_key cs)) (rw_runs w) = (Inr (Queued i), t)"
    "execute_run env doc sel i (w\<lparr>rw_runs := t\<rparr>) = (out, w')"
  using assms unfolding run_document_def Let_def by (auto split: prod.splits sum.splits queue_outcome.splits)

lemma run_document_steps: "run_step\<^sup>*\<^sup>* w (snd (run_document env doc w))"
proof -
  obtain out w' where x: "run_document env doc w = (out, w')" by fastforce
  have "run_step\<^sup>*\<^sup>* w w'"
    using x
  proof (cases rule: run_document_cases)
    case (not_queued snapshot cs sel e t)
    show ?thesis unfolding not_queued(5) by (rule steps_then [OF step_queue [OF not_queued(3)] fail_run_steps])
  next
    case (replayed snapshot cs sel r t)
    show ?thesis unfolding replayed(5) by (rule r_into_rtranclp [where r = run_step, OF step_queue [OF replayed(3)]])
  next
    case (queued snapshot cs sel i t)
    show ?thesis
      using steps_then [OF step_queue [OF queued(3)] execute_run_steps] queued(4) by (metis snd_conv)
  qed simp
  then show ?thesis by (simp add: x)
qed

subsection \<open>What a run stores\<close>

lemma run_metadata_json:
  "json_text (run_metadata doc (map (\<lambda>(k, s). (k, PyStr s)) fs)) = Inr md \<Longrightarrow>
    md = JObj ([(u ''run_spec_sha256'', JStr (bd_run_spec_sha256 doc)), (u ''source_manifest_sha256'', JStr (bd_source_manifest_sha256 doc)),
      (u ''snapshot_code'', JStr (backtest_run_request.snapshot_code (bd_request doc)))] @ map (\<lambda>(k, s). (k, JStr s)) fs)"
proof -
  have "canonicalize_fields (map (\<lambda>(k, s). (k, PyStr s)) fs) = Inr (map (\<lambda>(k, s). (k, JStr s)) fs)"
    by (induction fs) auto
  then show "json_text (run_metadata doc (map (\<lambda>(k, s). (k, PyStr s)) fs)) = Inr md \<Longrightarrow> ?thesis"
    by (simp add: json_text_def run_metadata_def rbind_Inr_iff del: u_Cons)
qed

lemma queued_row:
  assumes "run_inv t" and "queue_body env ctx doc s by_key t = Inr (t', Queued i)"
  obtains r where "run_by_id i t' = Some r" "qr_run_code r = run_code (bd_request doc)" "rn_status r = RUN_QUEUED"
    "run_by_code (run_code (bd_request doc)) t = None" "i = tbl_next (runs t)" "set (tbl_rows (runs t')) = insert r (set (tbl_rows (runs t)))"
proof -
  obtain t1 t2 q bs where t1: "ensure_strategy_version CLASS_PATH (re_strategy_sha256 env) t = Inr t1"
    and t2: "create_queued ctx q (fst t1) = Inr (t2, i)" and code: "qr_run_code q = run_code (bd_request doc)"
    and t': "insert_bindings ctx i (map run_instrument_spec.instrument_id (backtest_run_request.instruments (bd_request doc))) bs t2 = Inr t'"
    using queue_body_Inr [OF assms(2)] by blast
  obtain v where u: "t1 = (fst t1, v)" by (metis prod.collapse)
  have inv1: "run_inv (fst t1)" and same: "runs (fst t1) = runs t"
    using ensure_strategy_version_keeps [of CLASS_PATH "re_strategy_sha256 env" t "fst t1" v] t1 u assms(1) by simp_all
  have inv': "run_inv t'" and same': "runs t' = runs t2"
    using insert_bindings_keeps [OF create_queued_keeps(1) [OF inv1 t2] t'] by simp_all
  show ?thesis
  proof (rule create_queued_Inr [OF t2])
    fix capital digest
    assume r: "i = tbl_next (runs (fst t1))" "t2 = (fst t1)\<lparr>runs := (runs (fst t1))\<lparr>tbl_rows := tbl_rows (runs (fst t1)) @ [stored_run q i capital digest], tbl_next := i + 1\<rparr>\<rparr>"
      "\<forall>r \<in> set (tbl_rows (runs (fst t1))). qr_run_code r \<noteq> qr_run_code q"
    have "stored_run q i capital digest \<in> set (tbl_rows (runs t'))" by (simp add: same' r(2))
    then have "run_by_id i t' = Some (stored_run q i capital digest)" using run_lookups(1) [OF inv'] by fastforce
    moreover have "run_by_code (run_code (bd_request doc)) t = None"
      using r(3) by (simp add: run_by_code_def find_None_iff same code)
    ultimately show ?thesis using that r(1,2) by (simp add: code same same')
  qed
qed

lemma replayed_row:
  assumes "queue_body env ctx doc s by_key t = Inr (t', Replayed r)"
  shows "t' = t" and "run_by_code (run_code (bd_request doc)) t = Some r" and "rn_status r = RUN_SUCCEEDED"
    and "metadata_field r ''run_spec_sha256'' = Some (JStr (bd_run_spec_sha256 doc))"
proof -
  obtain bs where "queue_run env ctx doc s by_key t = Inr (t', Replayed r, bs)"
    using assms by (auto simp: queue_body_def rbind_Inr_iff split: queue_outcome.splits) (metis queue_outcome.exhaust)
  then have r: "require_runnable (run_code (bd_request doc)) (bd_run_spec_sha256 doc) t = Inr (Some r)" and t: "t' = t"
    by (auto simp: queue_run_def Let_def rbind_Inr_iff simp del: u_Cons split: option.splits)
  show "t' = t" by (rule t)
  show "run_by_code (run_code (bd_request doc)) t = Some r" "rn_status r = RUN_SUCCEEDED"
    "metadata_field r ''run_spec_sha256'' = Some (JStr (bd_run_spec_sha256 doc))"
    using r by (auto simp: require_runnable_def split: option.splits if_splits)
qed

text \<open>What the third transaction leaves behind.\<close>

lemma finished_row:
  assumes inv: "run_inv t" and r: "run_by_id i t = Some r"
    and fin: "finish_body env ctx doc i (result, summary, digest) (t, l) = Inr ((t', l'), a)"
  obtains r' x where "run_by_code (qr_run_code r) t' = Some r'" "rn_status r' = RUN_SUCCEEDED" "rn_run_id r' = i"
    "metadata_field r' ''run_spec_sha256'' = Some (JStr (bd_run_spec_sha256 doc))" "metadata_field r' ''result_sha256'' = Some (JStr digest)"
    "persist \<lparr>lx_run = r, lx_series = run_series t, lx_context = ctx\<rparr> result (initial_capital (bd_request doc))
       (backtest_run_request.base_currency_code (bd_request doc)) summary l = Inr l'"
proof (rule finish_body_Inr [OF fin])
  fix r0 md
  assume r0: "run_by_id i t = Some r0" and p: "persist \<lparr>lx_run = r0, lx_series = run_series t, lx_context = ctx\<rparr> result (initial_capital (bd_request doc))
       (backtest_run_request.base_currency_code (bd_request doc)) summary l = Inr l'"
    and md: "json_text (run_metadata doc [(u ''result_sha256'', PyStr digest)]) = Inr md" and m: "mark_run_succeeded i (re_succeeded_at env) md t = Inr t'"
  have r0: "r0 = r" using r0 r by simp
  have md: "md = JObj [(u ''run_spec_sha256'', JStr (bd_run_spec_sha256 doc)), (u ''source_manifest_sha256'', JStr (bd_source_manifest_sha256 doc)),
      (u ''snapshot_code'', JStr (backtest_run_request.snapshot_code (bd_request doc))), (u ''result_sha256'', JStr digest)]"
    using run_metadata_json [of doc "[(u ''result_sha256'', digest)]"] md by (simp del: u_Cons)
  define r' where "r' = r\<lparr>rn_status := RUN_SUCCEEDED, rn_finished_at := Some (re_succeeded_at env), qr_metadata := md\<rparr>"
  have t': "t' = update_run i r' t"
    using mark_succeeded_Inr [OF m] r by (metis option.inject r'_def)
  have "run_inv t'" using run_updates_keep(2) [OF inv m] by simp
  moreover have "r' \<in> set (tbl_rows (runs t'))"
    using run_by_id_Some [OF r] by (auto simp: t' update_run_def intro!: image_eqI [of _ _ r])
  ultimately have "run_by_code (qr_run_code r') t' = Some r'" by (rule run_lookups(2))
  then have code: "run_by_code (qr_run_code r) t' = Some r'" by (simp add: r'_def)
  have fields: "metadata_field r' ''run_spec_sha256'' = Some (JStr (bd_run_spec_sha256 doc))" "metadata_field r' ''result_sha256'' = Some (JStr digest)"
    unfolding metadata_field_def r'_def by (simp_all add: md dict_get_def u_inj del: u_Cons)
  have "rn_status r' = RUN_SUCCEEDED" "rn_run_id r' = i"
    using run_by_id_Some [OF r] by (simp_all add: r'_def)
  then show ?thesis using that code fields p unfolding r0 by blast
qed

text \<open>A new run that returns: its simulation, its row and its ledger.\<close>

lemma new_run_stored:
  assumes inv: "run_world_inv w" and run: "run_document env doc w = (Inr res, w')"
    and new: "run_by_code (run_code (bd_request doc)) (rw_runs w) = None"
  obtains snapshot cs sel i result summary digest r' lx where
    "preflight env (backtest_run_request.snapshot_code (bd_request doc)) w = Inr (snapshot, cs)"
    "load_selectors env (rw_files w) (bd_request doc) (component_by_key cs) = Inr sel"
    "computed env doc sel = Inr (result, summary, digest)"
    "res = \<lparr>ru_run_id = i, ru_run_code = run_code (bd_request doc), ru_status = RUN_SUCCEEDED, ru_result_sha256 = Some digest\<rparr>"
    "run_by_code (run_code (bd_request doc)) (rw_runs w') = Some r'" "rn_status r' = RUN_SUCCEEDED" "rn_run_id r' = i"
    "metadata_field r' ''run_spec_sha256'' = Some (JStr (bd_run_spec_sha256 doc))" "metadata_field r' ''result_sha256'' = Some (JStr digest)"
    "lx_run_id lx = i" "i \<notin> ledger_run_ids (rw_ledger w)"
    "persist lx result (initial_capital (bd_request doc)) (backtest_run_request.base_currency_code (bd_request doc)) summary (rw_ledger w) = Inr (rw_ledger w')"
  using run
proof (cases rule: run_document_cases)
  case (replayed snapshot cs sel r t)
  have "queue_body env (rw_context w) doc snapshot (component_by_key cs) (rw_runs w) = Inr (t, Replayed r)"
    using replayed(3) by (rule run_tx_cases) auto
  from replayed_row(2) [OF this] show ?thesis using new by simp
next
  case (queued snapshot cs sel i t)
  have q: "queue_body env (rw_context w) doc snapshot (component_by_key cs) (rw_runs w) = Inr (t, Queued i)"
    using queued(3) by (rule run_tx_cases) auto
  have runs: "run_inv (rw_runs w)" using inv by (simp add: run_world_inv_def)
  obtain r where r: "run_by_id i t = Some r" "qr_run_code r = run_code (bd_request doc)" "i = tbl_next (runs (rw_runs w))"
    using queued_row [OF runs q] by metis
  have inv_t: "run_inv t" using queue_keeps [OF runs q] by simp
  from queued(4) show ?thesis
  proof (cases rule: execute_run_cases)
    case (succeeded a b c t1 t2 l)
    have running: "mark_run_running i (re_running_at env) t = Inr t1"
      using succeeded(1) by (rule run_tx_cases) (auto simp: rbind_Inr_iff)
    have inv1: "run_inv t1" using running_keeps [OF inv_t running] by simp
    obtain result summary digest where c: "c = (result, summary, digest)" by (cases c) auto
    have fin: "finish_body env (rw_context w) doc i (result, summary, digest) (t1, rw_ledger w) = Inr ((t2, l), b)"
      using succeeded(3) unfolding c by (rule run_tx_cases) auto
    obtain r1 where r1: "run_by_id i t1 = Some r1" "qr_run_code r1 = run_code (bd_request doc)"
    proof (rule mark_running_Inr [OF running])
      fix x assume x: "run_by_id i t = Some x" "t1 = update_run i (x\<lparr>rn_status := RUN_RUNNING, rn_started_at := Some (re_running_at env)\<rparr>) t"
      let ?r = "x\<lparr>rn_status := RUN_RUNNING, rn_started_at := Some (re_running_at env)\<rparr>"
      have "x = r" using x(1) r(1) by simp
      then have "?r \<in> set (tbl_rows (runs t1))"
        using run_by_id_Some [OF r(1)] by (auto simp: x(2) update_run_def intro!: image_eqI [of _ _ r])
      then have "run_by_id (rn_run_id ?r) t1 = Some ?r" by (rule run_lookups(1) [OF inv1])
      then show ?thesis using that [of ?r] run_by_id_Some [OF r(1)] r(2) \<open>x = r\<close> by simp
    qed
    obtain r' where r': "run_by_code (run_code (bd_request doc)) t2 = Some r'" "rn_status r' = RUN_SUCCEEDED" "rn_run_id r' = i"
      "metadata_field r' ''run_spec_sha256'' = Some (JStr (bd_run_spec_sha256 doc))" "metadata_field r' ''result_sha256'' = Some (JStr digest)"
      "persist \<lparr>lx_run = r1, lx_series = run_series t1, lx_context = rw_context w\<rparr> result (initial_capital (bd_request doc))
         (backtest_run_request.base_currency_code (bd_request doc)) summary (rw_ledger w) = Inr l"
      using finished_row [OF inv1 r1(1) fin] unfolding r1(2) by metis
    have "\<forall>x \<in> set (tbl_rows (runs (rw_runs w))). rn_run_id x < i" using runs r(3) by (simp add: run_inv_def)
    then have "i \<notin> succeeded_ids (rw_runs w)" by (auto simp: succeeded_ids_def)
    then have "i \<notin> ledger_run_ids (rw_ledger w)" using inv by (simp add: run_world_inv_def)
    then show ?thesis
      by (intro that [of snapshot cs sel result summary digest i r' "\<lparr>lx_run = r1, lx_series = run_series t1, lx_context = rw_context w\<rparr>"])
        (use queued(1,2) succeeded(2,4,5) r' run_by_id_Some [OF r1(1)] c in simp_all)
  qed simp_all
qed simp_all

subsection \<open>The service\<close>

lemma mem_dict_set: "p \<in> set (dict_set d k v) \<Longrightarrow> p = (k, v) \<or> p \<in> set d"
  by (induction d k v rule: dict_set.induct) (auto split: if_splits)

lemma load_selectors_wf:
  assumes "load_selectors env fs request by_key = Inr sel"
  shows "selectors_wf (sel role)"
proof -
  have turn: "\<forall>role. selectors_wf (s' role)"
    if one: "load_selector env fs request by_key iid rk s = Inr s'" and old: "\<forall>role. selectors_wf (s role)" for iid rk s s'
  proof -
    obtain role key where rk: "rk = (role, key)" by fastforce
    obtain rows x where x: "make_selector rows = Inr x" "s' = s(role := dict_set (s role) iid x)"
      using one by (auto simp: load_selector_def rk rbind_Inr_iff split: option.splits if_splits)
    have "selector_wf x" by (rule make_selector_wf [OF x(1)])
    then show ?thesis using old mem_dict_set unfolding x(2) selectors_wf_def by (fastforce split: if_splits)
  qed
  have "\<forall>role. selectors_wf (sel role)"
    by (rule fold_result_keeps [OF assms [unfolded load_selectors_def], where P = "\<lambda>s. \<forall>role. selectors_wf (s role)"])
      (simp add: selectors_wf_def, erule fold_result_keeps [where P = "\<lambda>s. \<forall>role. selectors_wf (s role)"], assumption, rule turn)
  then show ?thesis by simp
qed

lemma computed_Inr:
  "computed env doc sel = Inr (result, summary, digest) \<Longrightarrow> simulate (sim_config_of env doc sel) = Some (Inr result) \<and>
     summary_of (bd_request doc) result = Inr summary \<and> result_sha256 (io_sha256 (b_io (re_builder env))) result summary = Inr digest"
  by (auto simp: computed_def simulated_def rbind_Inr_iff split: option.splits)

text \<open>What a caller is told is what the tables say.\<close>

lemma returned_row:
  assumes inv: "run_world_inv w" and run: "run_document env doc w = (Inr res, w')"
  obtains r where "run_by_code (run_code (bd_request doc)) (rw_runs w') = Some r" "rn_status r = RUN_SUCCEEDED"
    "metadata_field r ''run_spec_sha256'' = Some (JStr (bd_run_spec_sha256 doc))" "res = replay_result r"
proof (cases "run_by_code (run_code (bd_request doc)) (rw_runs w)")
  case None
  show ?thesis
  proof (rule new_run_stored [OF inv run None])
    fix i digest r'
    assume res: "res = \<lparr>ru_run_id = i, ru_run_code = run_code (bd_request doc), ru_status = RUN_SUCCEEDED, ru_result_sha256 = Some digest\<rparr>"
      and r': "run_by_code (run_code (bd_request doc)) (rw_runs w') = Some r'" "rn_status r' = RUN_SUCCEEDED" "rn_run_id r' = i"
        "metadata_field r' ''run_spec_sha256'' = Some (JStr (bd_run_spec_sha256 doc))" "metadata_field r' ''result_sha256'' = Some (JStr digest)"
    have "res = replay_result r'" using run_by_code_Some [OF r'(1)] r' by (simp add: res replay_result_def)
    then show ?thesis using that r' by blast
  qed
next
  case (Some x)
  have runs: "run_inv (rw_runs w)" using inv by (simp add: run_world_inv_def)
  show ?thesis
    using run
  proof (cases rule: run_document_cases)
    case (replayed snapshot cs sel r t)
    have "queue_body env (rw_context w) doc snapshot (component_by_key cs) (rw_runs w) = Inr (t, Replayed r)"
      using replayed(3) by (rule run_tx_cases) auto
    note row = replayed_row [OF this]
    show ?thesis using that [of r] row replayed(4,5) by simp
  next
    case (queued snapshot cs sel i t)
    have "queue_body env (rw_context w) doc snapshot (component_by_key cs) (rw_runs w) = Inr (t, Queued i)"
      using queued(3) by (rule run_tx_cases) auto
    then show ?thesis using queued_row [OF runs] Some by (metis option.distinct(1))
  qed simp_all
qed

lemma final_row:
  assumes inv: "run_world_inv w" and steps: "run_step\<^sup>*\<^sup>* w w'" and r: "run_by_code code (rw_runs w) = Some r" "finished (rn_status r)"
  shows "run_by_code code (rw_runs w') = Some r \<and> ledger_of (rn_run_id r) (rw_ledger w') = ledger_of (rn_run_id r) (rw_ledger w)"
proof -
  let ?v = "(r, ledger_of (rn_run_id r) (rw_ledger w))"
  have "?v \<in> run_views w" using run_by_code_Some [OF r(1)] by (auto simp: run_views_def)
  moreover have "v' = ?v" if "view_evolves ?v v'" for v'
    using that r(2) by (cases v') (simp add: view_evolves_def run_follows_def)
  ultimately have "?v \<in> run_views w'" by (rule run_history.steps_keep [OF steps inv])
  then have "r \<in> set (tbl_rows (runs (rw_runs w')))" "ledger_of (rn_run_id r) (rw_ledger w') = ledger_of (rn_run_id r) (rw_ledger w)"
    by (auto simp: run_views_def)
  moreover have "run_inv (rw_runs w')"
    using run_history.inv_steps [OF steps inv] by (simp add: run_world_inv_def)
  ultimately show ?thesis using run_lookups(2) run_by_code_Some [OF r(1)] by metis
qed

lemma replayed_run:
  assumes r: "run_by_code (run_code (bd_request doc)) (rw_runs w) = Some r" "rn_status r = RUN_SUCCEEDED"
    and pre: "preflight env (backtest_run_request.snapshot_code (bd_request doc)) w = Inr (snapshot, cs)"
      "load_selectors env (rw_files w) (bd_request doc) (component_by_key cs) = Inr sel" "re_fault env QueueTx = Working"
  shows "run_document env doc w =
    (if metadata_field r ''run_spec_sha256'' = Some (JStr (bd_run_spec_sha256 doc)) then Inr (replay_result r)
     else Inl (Bt (BacktestRunConflictError ''Backtest run code cannot be reused for another run.'')), w)"
  using assms
  by (simp add: run_document_def run_tx_def queue_body_def queue_run_def assigned_run_id_def Let_def require_runnable_def fail_run_def
      reported_def is_bisfin_def)

subsection \<open>Errors\<close>

lemma fail_run_frame:
  assumes "run_inv (rw_runs w)"
  shows "rw_ledger (fail_run env doc i e w) = rw_ledger w" and "succeeded_ids (rw_runs (fail_run env doc i e w)) = succeeded_ids (rw_runs w)"
proof -
  have "rw_ledger (fail_run env doc i e w) = rw_ledger w \<and> succeeded_ids (rw_runs (fail_run env doc i e w)) = succeeded_ids (rw_runs w)"
  proof (cases i)
    case (Some k)
    obtain r t where t: "run_tx env FailedTx (\<lambda>_. True) (fail_body env doc k e) (rw_runs w) = (r, t)" by fastforce
    have "t = rw_runs w \<or> (\<exists>md. mark_run_failed k (re_failed_at env) (re_exception_name env e) md (rw_runs w) = Inr t)"
      using run_tx_db [OF t] by (auto simp: rbind_Inr_iff fail_body_def)
    then have "succeeded_ids t = succeeded_ids (rw_runs w)" using failing_keeps [OF assms] by blast
    then show ?thesis by (simp add: fail_run_def Some t)
  qed (simp add: fail_run_def)
  then show "rw_ledger (fail_run env doc i e w) = rw_ledger w" "succeeded_ids (rw_runs (fail_run env doc i e w)) = succeeded_ids (rw_runs w)"
    by simp_all
qed

lemma error_leaves_no_ledger:
  assumes inv: "run_world_inv w" and run: "run_document env doc w = (Inl e, w')" and ack: "re_fault env FinishTx \<noteq> Unacknowledged"
  shows "rw_ledger w' = rw_ledger w \<and> succeeded_ids (rw_runs w') = succeeded_ids (rw_runs w)"
  using run
proof (cases rule: run_document_cases)
  case (not_queued snapshot cs sel e' t)
  have "t = rw_runs w \<or> (\<exists>a. queue_body env (rw_context w) doc snapshot (component_by_key cs) (rw_runs w) = Inr (t, a))"
    using run_tx_db [OF not_queued(3)] by blast
  then have "run_inv t \<and> succeeded_ids t = succeeded_ids (rw_runs w)"
    using queue_keeps inv by (fastforce simp: run_world_inv_def)
  then show ?thesis using fail_run_frame by (simp add: not_queued(5))
next
  case (queued snapshot cs sel i t)
  have runs: "run_inv (rw_runs w)" using inv by (simp add: run_world_inv_def)
  have q: "queue_body env (rw_context w) doc snapshot (component_by_key cs) (rw_runs w) = Inr (t, Queued i)"
    using queued(3) by (rule run_tx_cases) auto
  note t = queue_keeps [OF runs q]
  have step: "run_inv t1 \<and> succeeded_ids t1 = succeeded_ids (rw_runs w)"
    if "run_tx env RunningTx (\<lambda>_. True) (\<lambda>t. rbind (mark_run_running i (re_running_at env) t) (\<lambda>t. Inr (t, ()))) (rw_runs (w\<lparr>rw_runs := t\<rparr>)) = (r, t1)" for r t1
    using run_tx_db [OF that] t running_keeps [of t i "re_running_at env" t1] by (auto simp: rbind_Inr_iff)
  from queued(4) show ?thesis
  proof (cases rule: execute_run_cases)
    case (running_failed e t1)
    then show ?thesis using step [OF running_failed(1)] fail_run_frame by simp
  next
    case (not_computed e a t1)
    then show ?thesis using step [OF not_computed(1)] fail_run_frame by simp
  next
    case (not_finished e a c t1 t2 l)
    from not_finished(3) have "(t2, l) = (t1, rw_ledger w)"
      by (rule run_tx_cases) (use ack in auto)
    then show ?thesis using step [OF not_finished(1)] fail_run_frame not_finished(5) by simp
  qed simp
qed simp_all

definition open_runs :: "run_tables \<Rightarrow> run_row set" where
  "open_runs t = {r \<in> set (tbl_rows (runs t)). rn_status r = RUN_QUEUED \<or> rn_status r = RUN_RUNNING}"

text \<open>Names of exceptions and hashes can be stored in JSON columns.\<close>

definition names_storable :: "run_env \<Rightarrow> backtest_manifest_document \<Rightarrow> bool" where
  "names_storable env doc \<longleftrightarrow>
     (\<forall>e. \<exists>md. json_text (failure_metadata doc (re_exception_name env e)) = Inr md \<and> jsonb_ok md \<and>
        jsonb_text_ok (take 512 (re_exception_name env e)))"

lemma open_runs_update:
  assumes "rn_run_id r' = i"
  shows "open_runs (update_run i r' t) \<subseteq> {x \<in> open_runs t. rn_run_id x \<noteq> i} \<union> (if finished (rn_status r') then {} else {r'})"
  using assms by (auto simp: open_runs_def update_run_def finished_def)

lemma fail_run_closes:
  assumes fault: "re_fault env FailedTx = Working" and names: "names_storable env doc" and r: "run_by_id i (rw_runs w) = Some r" "rn_status r = RUN_RUNNING"
    and time: "rn_started_at r = Some s" "s \<le> re_failed_at env"
  shows "open_runs (rw_runs (fail_run env doc (Some i) e w)) \<subseteq> {x \<in> open_runs (rw_runs w). rn_run_id x \<noteq> i}"
proof -
  obtain md where md: "json_text (failure_metadata doc (re_exception_name env e)) = Inr md" "jsonb_ok md"
      "jsonb_text_ok (take 512 (re_exception_name env e))"
    using names unfolding names_storable_def by blast
  let ?r = "r\<lparr>rn_status := RUN_FAILED, rn_finished_at := Some (re_failed_at env),
    rn_error_summary := Some (take 512 (re_exception_name env e)), qr_metadata := md\<rparr>"
  have "mark_run_failed i (re_failed_at env) (re_exception_name env e) md (rw_runs w) = Inr (update_run i ?r (rw_runs w))"
    using r md time by (simp add: mark_run_failed_def run_times_ok_def)
  then have "rw_runs (fail_run env doc (Some i) e w) = update_run i ?r (rw_runs w)"
    by (simp add: fail_run_def run_tx_def fault fail_body_def md(1))
  then show ?thesis
    using open_runs_update [of ?r i "rw_runs w"] run_by_id_Some [OF r(1)] by (simp add: finished_def)
qed

lemma fail_run_opens_none: "open_runs (rw_runs (fail_run env doc i e w)) \<subseteq> open_runs (rw_runs w)"
proof (cases i)
  case (Some k)
  obtain x t where t: "run_tx env FailedTx (\<lambda>_. True) (fail_body env doc k e) (rw_runs w) = (x, t)" by fastforce
  have "t = rw_runs w \<or> (\<exists>md. mark_run_failed k (re_failed_at env) (re_exception_name env e) md (rw_runs w) = Inr t)"
    using run_tx_db [OF t] by (auto simp: rbind_Inr_iff fail_body_def)
  then have "open_runs t \<subseteq> open_runs (rw_runs w)"
  proof
    assume "\<exists>md. mark_run_failed k (re_failed_at env) (re_exception_name env e) md (rw_runs w) = Inr t"
    then obtain md where "mark_run_failed k (re_failed_at env) (re_exception_name env e) md (rw_runs w) = Inr t" by blast
    then show ?thesis
    proof (rule mark_failed_Inr)
      fix r assume r: "run_by_id k (rw_runs w) = Some r" and t: "t = update_run k (r\<lparr>rn_status := RUN_FAILED, rn_finished_at := Some (re_failed_at env),
        rn_error_summary := Some (take 512 (re_exception_name env e)), qr_metadata := md\<rparr>) (rw_runs w)"
      then show ?thesis
        using open_runs_update [of "r\<lparr>rn_status := RUN_FAILED, rn_finished_at := Some (re_failed_at env),
          rn_error_summary := Some (take 512 (re_exception_name env e)), qr_metadata := md\<rparr>" k "rw_runs w"] run_by_id_Some [OF r]
        by (auto simp: finished_def)
    qed simp
  qed simp
  then show ?thesis by (simp add: fail_run_def Some t)
qed (simp add: fail_run_def)

lemma mark_running_queued:
  assumes "run_inv t" and "run_by_id i t = Some r" and "rn_status r = RUN_QUEUED"
  shows "mark_run_running i now t = Inr (update_run i (r\<lparr>rn_status := RUN_RUNNING, rn_started_at := Some now\<rparr>) t)"
proof -
  have "rn_finished_at r = None" using assms run_by_id_Some [OF assms(2)] by (auto simp: run_inv_def run_row_ok_def)
  then show ?thesis using assms(2,3) by (simp add: mark_run_running_def transition_def run_times_ok_def)
qed

lemma no_open_run_left:
  assumes inv: "run_world_inv w" and run: "run_document env doc w = (out, w')"
    and faults: "\<forall>stage. re_fault env stage = Working" and names: "names_storable env doc" and clock: "re_running_at env \<le> re_failed_at env"
  shows "open_runs (rw_runs w') \<subseteq> open_runs (rw_runs w)"
  using run
proof (cases rule: run_document_cases)
  case (not_queued snapshot cs sel e t)
  have "t = rw_runs w" using not_queued(3) by (rule run_tx_cases) (use faults in auto)
  then show ?thesis using fail_run_opens_none unfolding not_queued(5) by fastforce
next
  case (replayed snapshot cs sel r t)
  have "queue_body env (rw_context w) doc snapshot (component_by_key cs) (rw_runs w) = Inr (t, Replayed r)"
    using replayed(3) by (rule run_tx_cases) auto
  from replayed_row(1) [OF this] show ?thesis by (simp add: replayed(5))
next
  case (queued snapshot cs sel i t)
  have runs: "run_inv (rw_runs w)" using inv by (simp add: run_world_inv_def)
  have q: "queue_body env (rw_context w) doc snapshot (component_by_key cs) (rw_runs w) = Inr (t, Queued i)"
    using queued(3) by (rule run_tx_cases) auto
  have inv_t: "run_inv t" using queue_keeps [OF runs q] by simp
  obtain r where r: "run_by_id i t = Some r" "rn_status r = RUN_QUEUED" "set (tbl_rows (runs t)) = insert r (set (tbl_rows (runs (rw_runs w))))"
    using queued_row [OF runs q] by metis
  let ?r = "r\<lparr>rn_status := RUN_RUNNING, rn_started_at := Some (re_running_at env)\<rparr>"
  let ?t = "update_run i ?r t"
  have running: "mark_run_running i (re_running_at env) t = Inr ?t" by (rule mark_running_queued [OF inv_t r(1,2)])
  have inv1: "run_inv ?t" using running_keeps [OF inv_t running] by simp
  have id: "rn_run_id r = i" using run_by_id_Some [OF r(1)] by simp
  have row: "run_by_id i ?t = Some ?r"
  proof -
    have "?r \<in> set (tbl_rows (runs ?t))" using run_by_id_Some [OF r(1)] by (auto simp: update_run_def intro!: image_eqI [of _ _ r])
    from run_lookups(1) [OF inv1 this] show ?thesis by (simp add: id)
  qed
  have others: "{x \<in> open_runs ?t. rn_run_id x \<noteq> i} \<subseteq> open_runs (rw_runs w)"
    using r(3) id by (auto simp: open_runs_def update_run_def)
  have first: "run_tx env RunningTx (\<lambda>_. True) (\<lambda>t. rbind (mark_run_running i (re_running_at env) t) (\<lambda>t. Inr (t, ()))) (rw_runs (w\<lparr>rw_runs := t\<rparr>)) = (Inr (), ?t)"
    using faults running by (simp add: run_tx_def)
  have closes: "open_runs (rw_runs (fail_run env doc (Some i) e (w\<lparr>rw_runs := ?t, rw_ledger := l\<rparr>))) \<subseteq> open_runs (rw_runs w)" for e l
    using fail_run_closes [of env doc i "w\<lparr>rw_runs := ?t, rw_ledger := l\<rparr>" ?r "re_running_at env" e] faults names row clock others by auto
  from queued(4) show ?thesis
  proof (cases rule: execute_run_cases)
    case (running_failed e t1)
    then show ?thesis using first by simp
  next
    case (not_computed e a t1)
    then show ?thesis using first closes [of e "rw_ledger w"] by simp
  next
    case (not_finished e a c t1 t2 l)
    have "t1 = ?t" using first not_finished(1) by simp
    moreover from not_finished(3) have "(t2, l) = (t1, rw_ledger w)"
      by (rule run_tx_cases) (use faults in auto)
    ultimately show ?thesis using not_finished(5) closes [of e "rw_ledger w"] by simp
  next
    case (succeeded a b c t1 t2 l)
    have t1: "t1 = ?t" using first succeeded(1) by simp
    obtain result summary digest where c: "c = (result, summary, digest)" by (cases c) auto
    have "finish_body env (rw_context w) doc i (result, summary, digest) (?t, rw_ledger w) = Inr ((t2, l), b)"
      using succeeded(3) unfolding c t1 by (rule run_tx_cases) auto
    then obtain md where m: "mark_run_succeeded i (re_succeeded_at env) md ?t = Inr t2" using finish_body_Inr by metis
    have "t2 = update_run i (?r\<lparr>rn_status := RUN_SUCCEEDED, rn_finished_at := Some (re_succeeded_at env), qr_metadata := md\<rparr>) ?t"
      using mark_succeeded_Inr [OF m] row by (metis option.inject)
    then have "open_runs t2 \<subseteq> {x \<in> open_runs ?t. rn_run_id x \<noteq> i}"
      using open_runs_update [of "?r\<lparr>rn_status := RUN_SUCCEEDED, rn_finished_at := Some (re_succeeded_at env), qr_metadata := md\<rparr>" i ?t] id
      by (simp add: finished_def)
    then show ?thesis using others succeeded(5) by auto
  qed
qed simp_all

lemma fail_run_lookup:
  assumes "run_inv (rw_runs w)"
  shows "run_by_code code (rw_runs w) = Some r \<Longrightarrow> rn_status r \<noteq> RUN_RUNNING \<Longrightarrow> run_by_code code (rw_runs (fail_run env doc i e w)) = Some r"
    and "run_by_code code (rw_runs w) = None \<Longrightarrow> run_by_code code (rw_runs (fail_run env doc i e w)) = None"
proof -
  obtain t where t: "rw_runs (fail_run env doc i e w) = t" by simp
  have eff: "t = rw_runs w \<or> (\<exists>k md. mark_run_failed k (re_failed_at env) (re_exception_name env e) md (rw_runs w) = Inr t)"
  proof (cases i)
    case (Some k)
    obtain x t' where t': "run_tx env FailedTx (\<lambda>_. True) (fail_body env doc k e) (rw_runs w) = (x, t')" by fastforce
    then have "t = t'" using t by (simp add: fail_run_def Some)
    then show ?thesis using run_tx_db [OF t'] by (auto simp: rbind_Inr_iff fail_body_def)
  qed (use t in \<open>simp add: fail_run_def\<close>)
  have "(\<forall>x \<in> set (tbl_rows (runs (rw_runs w))). rn_status x \<noteq> RUN_RUNNING \<longrightarrow> x \<in> set (tbl_rows (runs t))) \<and>
      qr_run_code ` set (tbl_rows (runs t)) \<subseteq> qr_run_code ` set (tbl_rows (runs (rw_runs w))) \<and> run_inv t"
    using eff
  proof (elim disjE exE)
    fix k md
    assume m: "mark_run_failed k (re_failed_at env) (re_exception_name env e) md (rw_runs w) = Inr t"
    have inv: "run_inv t" using run_updates_keep(3) [OF assms m] by simp
    from m show ?thesis
    proof (rule mark_failed_Inr)
      assume "t = rw_runs w" then show ?thesis using assms by simp
    next
      fix r assume r: "run_by_id k (rw_runs w) = Some r" "rn_status r = RUN_RUNNING"
        and up: "t = update_run k (r\<lparr>rn_status := RUN_FAILED, rn_finished_at := Some (re_failed_at env),
          rn_error_summary := Some (take 512 (re_exception_name env e)), qr_metadata := md\<rparr>) (rw_runs w)"
      have same: "x = r" if "x \<in> set (tbl_rows (runs (rw_runs w)))" "rn_run_id x = k" for x
        using run_lookups(1) [OF assms that(1)] r(1) that(2) by simp
      then have "\<forall>x \<in> set (tbl_rows (runs (rw_runs w))). rn_status x \<noteq> RUN_RUNNING \<longrightarrow> x \<in> set (tbl_rows (runs t))"
        using r(2) by (auto simp: up update_run_def image_iff)
      moreover have "qr_run_code ` set (tbl_rows (runs t)) \<subseteq> qr_run_code ` set (tbl_rows (runs (rw_runs w)))"
        using run_by_id_Some [OF r(1)] by (auto simp: up update_run_def)
      ultimately show ?thesis using inv by blast
    qed
  qed (use assms in simp)
  then have keep: "\<forall>x \<in> set (tbl_rows (runs (rw_runs w))). rn_status x \<noteq> RUN_RUNNING \<longrightarrow> x \<in> set (tbl_rows (runs t))"
    and codes: "qr_run_code ` set (tbl_rows (runs t)) \<subseteq> qr_run_code ` set (tbl_rows (runs (rw_runs w)))" and inv: "run_inv t" by blast+
  show "run_by_code code (rw_runs (fail_run env doc i e w)) = Some r" if "run_by_code code (rw_runs w) = Some r" "rn_status r \<noteq> RUN_RUNNING"
    using run_lookups(2) [OF inv, of r] keep run_by_code_Some [OF that(1)] that(2) by (auto simp: t)
  show "run_by_code code (rw_runs (fail_run env doc i e w)) = None" if "run_by_code code (rw_runs w) = None"
    using that codes unfolding t run_by_code_def find_None_iff by (metis image_iff subsetD)
qed

lemma queued_lookup:
  assumes "run_inv t" and "queue_body env ctx doc s by_key t = Inr (t', Queued i)"
  shows "\<exists>r. run_by_code (run_code (bd_request doc)) t' = Some r \<and> rn_status r = RUN_QUEUED"
proof (rule queued_row [OF assms])
  fix r assume r: "run_by_id i t' = Some r" "qr_run_code r = run_code (bd_request doc)" "rn_status r = RUN_QUEUED"
  have "run_by_code (qr_run_code r) t' = Some r"
    using run_lookups(2) [of t' r] queue_keeps [OF assms] run_by_id_Some [OF r(1)] by simp
  then show ?thesis using r(2,3) by auto
qed

subsection \<open>Properties\<close>

text \<open>C3. A run has rows in the ledger exactly when it has succeeded, and every order of the ledger agrees with its
  fills: whatever transactions run, in whatever order and with whatever faults, there is no partial ledger.\<close>

theorem ledger_exactly_of_succeeded_runs:
  assumes "run_step\<^sup>*\<^sup>* \<lparr>rw_files = fs, rw_context = ctx, rw_runs = empty_runs, rw_ledger = empty_ledger\<rparr> w"
  shows "ledger_run_ids (rw_ledger w) = succeeded_ids (rw_runs w) \<and> (\<forall>i. deferred_checks i (rw_ledger w)) \<and> run_inv (rw_runs w)"
  using run_history.inv_steps [OF assms run_world_inv_empty] by (simp add: run_world_inv_def)

text \<open>C5. A finished run is final: no sequence of transactions of the service, with whatever faults and whatever
  happens to files, catalog and snapshots, changes its row or any row of its ledger.\<close>

theorem finished_run_is_final:
  assumes "run_world_inv w" and "run_step\<^sup>*\<^sup>* w w'" and "run_by_code code (rw_runs w) = Some r" and "finished (rn_status r)"
  shows "run_by_code code (rw_runs w') = Some r \<and> ledger_of (rn_run_id r) (rw_ledger w') = ledger_of (rn_run_id r) (rw_ledger w)"
  using assms by (rule final_row)

text \<open>C1. A new run that returns has stored what it reports: the simulation of its manifest on the bars of the frozen
  snapshot, its hash in the row of the run, and row by row in the ledger its decisions, signals, orders, fills, order events,
  cash entries and positions.\<close>

theorem new_run_holds_journal:
  assumes "run_world_inv w" and "run_document env doc w = (Inr res, w')" and "run_by_code (run_code (bd_request doc)) (rw_runs w) = None"
  shows "\<exists>snapshot cs sel result summary digest lx.
    preflight env (backtest_run_request.snapshot_code (bd_request doc)) w = Inr (snapshot, cs) \<and>
    load_selectors env (rw_files w) (bd_request doc) (component_by_key cs) = Inr sel \<and>
    simulate (sim_config_of env doc sel) = Some (Inr result) \<and> summary_of (bd_request doc) result = Inr summary \<and>
    result_sha256 (io_sha256 (b_io (re_builder env))) result summary = Inr digest \<and>
    (\<exists>r. run_by_code (run_code (bd_request doc)) (rw_runs w') = Some r \<and> rn_status r = RUN_SUCCEEDED \<and> res = replay_result r \<and>
       metadata_field r ''result_sha256'' = Some (JStr digest)) \<and>
    lx_run_id lx = ru_run_id res \<and> holds_journal lx (initial_capital (bd_request doc)) result (rw_ledger w) (rw_ledger w')"
proof (rule new_run_stored [OF assms])
  fix snapshot cs sel i result summary digest r lx
  assume s: "preflight env (backtest_run_request.snapshot_code (bd_request doc)) w = Inr (snapshot, cs)"
      "load_selectors env (rw_files w) (bd_request doc) (component_by_key cs) = Inr sel"
    and c: "computed env doc sel = Inr (result, summary, digest)"
    and res: "res = \<lparr>ru_run_id = i, ru_run_code = run_code (bd_request doc), ru_status = RUN_SUCCEEDED, ru_result_sha256 = Some digest\<rparr>"
    and r: "run_by_code (run_code (bd_request doc)) (rw_runs w') = Some r" "rn_status r = RUN_SUCCEEDED" "rn_run_id r = i"
      "metadata_field r ''result_sha256'' = Some (JStr digest)" and lx: "lx_run_id lx = i"
    and p: "persist lx result (initial_capital (bd_request doc)) (backtest_run_request.base_currency_code (bd_request doc)) summary (rw_ledger w) =
      Inr (rw_ledger w')"
  have "ledger_ids_ok (rw_ledger w)" using assms(1) by (simp add: run_world_inv_def)
  from persist_holds_journal [OF p this] have "holds_journal lx (initial_capital (bd_request doc)) result (rw_ledger w) (rw_ledger w')" .
  moreover have "res = replay_result r" using run_by_code_Some [OF r(1)] r by (simp add: res replay_result_def)
  moreover have "lx_run_id lx = ru_run_id res" by (simp add: lx res)
  ultimately show ?thesis using s computed_Inr [OF c] r by blast
qed

text \<open>C13. Running a finished manifest again, at any later time, returns the same result and changes nothing; the same
  name for another experiment is refused. Snapshot and artifacts must still verify.\<close>

theorem finished_run_is_replayed:
  assumes "run_world_inv w" and "run_document env doc w = (Inr res, w')" and "run_step\<^sup>*\<^sup>* w' w''"
    and "run_code (bd_request doc') = run_code (bd_request doc)"
    and "preflight env' (backtest_run_request.snapshot_code (bd_request doc')) w'' = Inr (snapshot, cs)"
    and "load_selectors env' (rw_files w'') (bd_request doc') (component_by_key cs) = Inr sel" and "re_fault env' QueueTx = Working"
  shows "run_document env' doc' w'' =
    (if bd_run_spec_sha256 doc' = bd_run_spec_sha256 doc then Inr res
     else Inl (Bt (BacktestRunConflictError ''Backtest run code cannot be reused for another run.'')), w'')"
proof (rule returned_row [OF assms(1,2)])
  fix r
  assume r: "run_by_code (run_code (bd_request doc)) (rw_runs w') = Some r" "rn_status r = RUN_SUCCEEDED"
    "metadata_field r ''run_spec_sha256'' = Some (JStr (bd_run_spec_sha256 doc))" "res = replay_result r"
  have "run_world_inv w'"
    using run_history.inv_steps [OF run_document_steps assms(1), of env doc] assms(2) by simp
  from final_row [OF this assms(3) r(1)] have "run_by_code (run_code (bd_request doc')) (rw_runs w'') = Some r"
    using r(2) by (simp add: finished_def assms(4))
  from replayed_run [OF this r(2) assms(5-7)] show ?thesis using r(3,4) by auto
qed

text \<open>C14. A run that reports an error leaves no row in the ledger and no new success, unless the last commit was
  applied without an acknowledgement.\<close>

theorem failed_run_leaves_no_ledger:
  assumes "run_world_inv w" and "run_document env doc w = (Inl e, w')" and "re_fault env FinishTx \<noteq> Unacknowledged"
  shows "rw_ledger w' = rw_ledger w \<and> succeeded_ids (rw_runs w') = succeeded_ids (rw_runs w)"
  using assms by (rule error_leaves_no_ledger)

text \<open>C15. With a working database and a clock that does not run backwards, no run is left open: whatever goes wrong in
  the simulation or the ledger, the run ends as succeeded or failed.\<close>

theorem run_never_left_open:
  assumes "run_world_inv w" and "run_document env doc w = (out, w')" and "\<forall>stage. re_fault env stage = Working"
    and "names_storable env doc" and "re_running_at env \<le> re_failed_at env"
  shows "open_runs (rw_runs w') \<subseteq> open_runs (rw_runs w)"
  using assms by (rule no_open_run_left)

text \<open>C16. A run whose second transaction cannot start, or whose first was committed without the service learning of it,
  stays queued: the attempt to mark it failed touches running rows only, and from then on its name is refused as in
  progress.\<close>

theorem lost_start_blocks_code:
  assumes "run_world_inv w" and "run_document env doc w = (out, w')"
    and "re_fault env RunningTx = NoConnection \<or> re_fault env QueueTx = Unacknowledged"
    and "run_by_code (run_code (bd_request doc)) (rw_runs w) = None" and "run_by_code (run_code (bd_request doc)) (rw_runs w') \<noteq> None"
  shows "(\<exists>r. run_by_code (run_code (bd_request doc)) (rw_runs w') = Some r \<and> rn_status r = RUN_QUEUED) \<and>
    require_runnable (run_code (bd_request doc)) spec (rw_runs w') =
      Inl (Bt (BacktestRunInProgressError ''Backtest run code is already queued or running.''))"
proof -
  let ?code = "run_code (bd_request doc)"
  have runs: "run_inv (rw_runs w)" using assms(1) by (simp add: run_world_inv_def)
  have stays: "run_by_code ?code (rw_runs w') = Some r" if "queue_body env (rw_context w) doc s by_key (rw_runs w) = Inr (t, Queued i)"
      "w' = fail_run env doc k e (w\<lparr>rw_runs := t\<rparr>)" "run_by_code ?code t = Some r" "rn_status r = RUN_QUEUED" for s by_key t i k e r
    using fail_run_lookup(1) [of "w\<lparr>rw_runs := t\<rparr>" ?code r] queue_keeps [OF runs that(1)] that by simp
  have "\<exists>r. run_by_code ?code (rw_runs w') = Some r \<and> rn_status r = RUN_QUEUED"
    using assms(2)
  proof (cases rule: run_document_cases)
    case (refused e)
    then show ?thesis using assms(4,5) by simp
  next
    case (replayed snapshot cs sel r t)
    have "queue_body env (rw_context w) doc snapshot (component_by_key cs) (rw_runs w) = Inr (t, Replayed r)"
      using replayed(3) by (rule run_tx_cases) auto
    from replayed_row(2) [OF this] show ?thesis using assms(4) by simp
  next
    case (queued snapshot cs sel i t)
    have q: "queue_body env (rw_context w) doc snapshot (component_by_key cs) (rw_runs w) = Inr (t, Queued i)"
      and "re_fault env QueueTx = Working"
      using queued(3) by (rule run_tx_cases; simp)+
    then have "w' = fail_run env doc (Some i) (Driver ''OperationalError'') (w\<lparr>rw_runs := t\<rparr>)"
      using queued(4) assms(3) by (simp add: execute_run_def run_tx_def)
    from stays [OF q this] show ?thesis using queued_row(1) [OF runs q] queued_lookup [OF runs q] by blast
  next
    case (not_queued snapshot cs sel e t)
    from run_tx_db [OF not_queued(3)] show ?thesis
    proof
      assume "t = rw_runs w"
      then show ?thesis using fail_run_lookup(2) [of w ?code] runs assms(4,5) by (simp add: not_queued(5))
    next
      assume "\<exists>a. queue_body env (rw_context w) doc snapshot (component_by_key cs) (rw_runs w) = Inr (t, a) \<and> True"
      then obtain a where a: "queue_body env (rw_context w) doc snapshot (component_by_key cs) (rw_runs w) = Inr (t, a)" by blast
      show ?thesis
      proof (cases a)
        case (Replayed r)
        then show ?thesis using replayed_row(2) a assms(4) by fastforce
      next
        case (Queued i)
        with a have q: "queue_body env (rw_context w) doc snapshot (component_by_key cs) (rw_runs w) = Inr (t, Queued i)" by simp
        from stays [OF q not_queued(5)] show ?thesis using queued_lookup [OF runs q] by blast
      qed
    qed
  qed
  then show ?thesis by (auto simp: require_runnable_def)
qed

text \<open>C7. The cash entries of a new run that returns add up to the final cash of its simulation, within one unit in the
  28th digit per operation on the turnover and half a unit in the 18th decimal place per entry.\<close>

theorem cash_ledger_adds_up:
  assumes "run_world_inv w" and "run_document env doc w = (Inr res, w')" and "run_by_code (run_code (bd_request doc)) (rw_runs w) = None"
  shows "\<exists>snapshot cs sel result. preflight env (backtest_run_request.snapshot_code (bd_request doc)) w = Inr (snapshot, cs) \<and>
    load_selectors env (rw_files w) (bd_request doc) (component_by_key cs) = Inr sel \<and> simulate (sim_config_of env doc sel) = Some (Inr result) \<and>
    \<bar>cash_ledger_total (ru_run_id res) (rw_ledger w') - val (final_cash result)\<bar> \<le>
      ((1 + rounding_unit) ^ (3 + length (fills result)) - 1) * turnover (initial_capital (bd_request doc)) result +
      of_nat (cash_entry_count (ru_run_id res) (rw_ledger w')) / (2 * 10 ^ NUMERIC_SCALE)"
proof (rule new_run_stored [OF assms])
  fix snapshot cs sel i result summary digest r lx
  assume s: "preflight env (backtest_run_request.snapshot_code (bd_request doc)) w = Inr (snapshot, cs)"
      "load_selectors env (rw_files w) (bd_request doc) (component_by_key cs) = Inr sel"
    and c: "computed env doc sel = Inr (result, summary, digest)"
    and res: "res = \<lparr>ru_run_id = i, ru_run_code = run_code (bd_request doc), ru_status = RUN_SUCCEEDED, ru_result_sha256 = Some digest\<rparr>"
    and lx: "lx_run_id lx = i" "i \<notin> ledger_run_ids (rw_ledger w)"
    and p: "persist lx result (initial_capital (bd_request doc)) (backtest_run_request.base_currency_code (bd_request doc)) summary (rw_ledger w) =
      Inr (rw_ledger w')"
  have sim: "simulate (sim_config_of env doc sel) = Some (Inr result)" using computed_Inr [OF c] by simp
  have request: "cfg_request (sim_config_of env doc sel) = bd_request doc" by (simp add: sim_config_of_def)
  have "ledger_ids_ok (rw_ledger w)" using assms(1) by (simp add: run_world_inv_def)
  from persist_holds_journal [OF p this]
  have journal: "holds_journal lx (initial_capital (cfg_request (sim_config_of env doc sel))) result (rw_ledger w) (rw_ledger w')"
    by (simp only: request)
  have fresh: "\<forall>r \<in> set (tbl_rows (ld_cash (rw_ledger w))). ca_run_id r \<noteq> lx_run_id lx"
    using lx unfolding ledger_run_ids_def by (metis UnCI image_eqI)
  from sim have "\<exists>q. replay (opening_portfolio (sim_config_of env doc sel)) (fills result) = Inr q \<and>
      (\<forall>f \<in> set (fills result). fill_valid (sim_config_of env doc sel) f) \<and> final_cash result = cash q"
  proof (cases rule: simulate_run)
    case (1 evs st data vals)
    then show ?thesis
      using ledger.sim_loop_inv [OF ledger_inv_initial 1(5)] by (auto simp: ledger_inv_def)
  qed
  then obtain q where "replay (opening_portfolio (sim_config_of env doc sel)) (fills result) = Inr q"
    "\<forall>f \<in> set (fills result). fill_valid (sim_config_of env doc sel) f" "final_cash result = cash q" by blast
  from cash_ledger_bound [OF journal fresh this] s sim show ?thesis
    unfolding request by (auto simp: lx(1) res)
qed

text \<open>The deferred constraints never refuse the ledger of a run: for a valid manifest, every order that
  \<^verbatim>\<open>persist\<close> writes is filled in full or not at all, and not before it was submitted.\<close>

theorem deferred_checks_never_fail:
  assumes "run_world_inv w" and "run_request_ok (bd_request doc)" and "load_selectors env fs (bd_request doc) by_key = Inr sel"
    and "computed env doc sel = Inr c" and "finish_body env ctx doc i c (t, rw_ledger w) = Inr ((t', l'), a)"
  shows "deferred_checks i l'"
proof -
  obtain result summary digest where c: "c = (result, summary, digest)" by (cases c) auto
  have "sim_ready (sim_config_of env doc sel)"
    using assms(2) load_selectors_wf [OF assms(3)] by (simp add: sim_ready_def sim_config_of_def)
  then have sound: "journal_sound result"
    using simulated_journal_sound computed_Inr assms(4) unfolding c by blast
  show ?thesis
  proof (rule finish_body_Inr [OF assms(5) [unfolded c]])
    fix r md
    assume "persist \<lparr>lx_run = r, lx_series = run_series t, lx_context = ctx\<rparr> result (initial_capital (bd_request doc))
       (backtest_run_request.base_currency_code (bd_request doc)) summary (rw_ledger w) = Inr l'"
    from persist_deferred_checks [OF this] sound assms(1) show ?thesis by (auto simp: run_world_inv_def)
  qed
qed

end
