(* ===== verification/Snapshot_Safety.thy ===== *)
theory Snapshot_Safety
  imports Snapshot_Verifier
begin

text \<open>
  What a snapshot guarantees: a build is a sequence of steps of the snapshot tables, a finished build verifies, a
  verified snapshot still holds the bytes that were frozen, a failed build ends as failed, and asking for the same
  specification again replays the frozen result.
\<close>

subsection \<open>Files that are written\<close>

lemma prefix_of_append [simp]: "prefix_of d (d @ p)"
  by (simp add: prefix_of_def)

lemma make_dirs_file:
  assumes "make_dirs d fs = Some fs'" and "fs p = Some (File b)"
  shows "fs' p = Some (File b)"
proof -
  have "\<not> prefix_of p d"
  proof
    assume "prefix_of p d"
    then have "p = take (length p) d" "length p \<le> length d"
      by (simp_all add: prefix_of_def, metis length_take min.absorb_iff2 min.commute)
    then show False
      using assms by (auto simp: make_dirs_def is_file_def split: if_splits)
  qed
  then show ?thesis using assms by (auto simp: make_dirs_def split: if_splits)
qed

abbreviation staging_of :: "io_env \<Rightarrow> artifact_writer \<Rightarrow> path" where
  "staging_of io w \<equiv> (case staging_directory w of None \<Rightarrow> staging_path io w | Some d \<Rightarrow> d)"

lemma ensure_staging_Inr:
  assumes "ensure_staging io (w, fs) = (Inr d, w', fs')"
  shows "d = staging_of io w" and "w' = w\<lparr>staging_directory := Some d\<rparr>"
    and "fs p = Some (File b) \<Longrightarrow> fs' p = Some (File b)"
  using assms
  by (auto simp: ensure_staging_def Let_def make_dirs_file split: option.splits if_splits)

lemma write_bytes_Inr:
  assumes "write_bytes io rel payload (w, fs) = (Inr a, w', fs')"
  shows "a = \<lparr>relative_path = rel, wa_sha256 = io_sha256 io payload, byte_count = length payload\<rparr>"
    and "w' = w\<lparr>staging_directory := Some (staging_of io w)\<rparr>"
    and "fs' (staging_of io w @ rel) = Some (File payload)"
    and "fs p = Some (File b) \<Longrightarrow> p \<noteq> staging_of io w @ rel \<Longrightarrow> fs' p = Some (File b)"
proof -
  obtain d w1 fs1 where e: "ensure_staging io (w, fs) = (Inr d, w1, fs1)"
    using assms by (auto simp: write_bytes_def io_bind_def split: prod.splits sum.splits)
  note s = ensure_staging_Inr [OF e]
  obtain fs2 where "make_dirs (butlast (d @ rel)) fs1 = Some fs2" "w' = w1" "fs' = fs2(d @ rel \<mapsto> File payload)"
    "a = \<lparr>relative_path = rel, wa_sha256 = io_sha256 io payload, byte_count = length payload\<rparr>"
    using assms e by (auto simp: write_bytes_def io_bind_def split: option.splits if_splits)
  then show "a = \<lparr>relative_path = rel, wa_sha256 = io_sha256 io payload, byte_count = length payload\<rparr>"
    "w' = w\<lparr>staging_directory := Some (staging_of io w)\<rparr>" "fs' (staging_of io w @ rel) = Some (File payload)"
    "fs p = Some (File b) \<Longrightarrow> p \<noteq> staging_of io w @ rel \<Longrightarrow> fs' p = Some (File b)"
    using s by (auto dest: make_dirs_file)
qed

lemma publish_Inr:
  assumes "publish io (w, fs) = (Inr e, w', fs')" and "staging_directory w = Some d"
  shows "e = final_directory w" and "fs' (e @ p) = fs (d @ p)"
  using assms
  by (auto simp: publish_def io_bind_def ensure_staging_def move_dir_def split: if_splits)

text \<open>Where the component with an ordinal of at least \<open>k\<close> goes.\<close>

definition slot :: "path \<Rightarrow> nat \<Rightarrow> path \<Rightarrow> bool" where
  "slot d k p \<longleftrightarrow> (\<exists>j s. k \<le> j \<and> p = d @ [u ''components'', zero_pad 4 j @ [45] @ s])"

lemma zero_pad_plain: "45 \<notin> set (zero_pad n k)"
  by (simp add: zero_pad_def)

lemma zero_pad_slot: "zero_pad n j @ 45 # s = zero_pad n k @ 45 # s' \<Longrightarrow> j = k"
proof -
  assume "zero_pad n j @ 45 # s = zero_pad n k @ 45 # s'"
  then have "takeWhile (\<lambda>c. c \<noteq> 45) (zero_pad n j @ 45 # s) = takeWhile (\<lambda>c. c \<noteq> 45) (zero_pad n k @ 45 # s')"
    by simp
  moreover have "takeWhile (\<lambda>c. c \<noteq> 45) (zero_pad n i @ 45 # r) = zero_pad n i" for i r
    using zero_pad_plain [of n i] by (subst takeWhile_append2) auto
  ultimately have "digits_value (zero_pad n j) = digits_value (zero_pad n k)" by simp
  then show "j = k" by simp
qed

lemma slot_other:
  assumes "component_relative_path sha k key = Inr rel"
  shows "slot d k (d @ rel)" and "k < j \<Longrightarrow> \<not> slot d j (d @ rel)"
proof -
  obtain b where rel: "rel = [u ''components'', zero_pad 4 k @ [45] @ sha b @ u ''.jsonl'']"
    using assms by (auto simp: component_relative_path_def split: if_splits sum.splits)
  show "slot d k (d @ rel)" unfolding slot_def rel by (rule exI [of _ k], rule exI [of _ "sha b @ u ''.jsonl''"]) simp
  assume "k < j"
  show "\<not> slot d j (d @ rel)"
  proof
    assume "slot d j (d @ rel)"
    then obtain i s where "j \<le> i" and i: "d @ rel = d @ [u ''components'', zero_pad 4 i @ [45] @ s]"
      unfolding slot_def by blast
    have "zero_pad 4 k @ 45 # (sha b @ u ''.jsonl'') = zero_pad 4 i @ 45 # s"
      using i by (simp add: rel del: u_Cons)
    then have "k = i" by (rule zero_pad_slot)
    then show False using \<open>k < j\<close> \<open>j \<le> i\<close> by simp
  qed
qed

lemma slot_mono: "slot d j p \<Longrightarrow> k \<le> j \<Longrightarrow> slot d k p"
  unfolding slot_def using order_trans by blast

text \<open>Component \<open>c\<close> with ordinal \<open>k\<close> is written below \<open>d\<close>, and \<open>r\<close> describes it.\<close>

definition component_at ::
  "builder_env \<Rightarrow> snapshot_build_request \<Rightarrow> bar_tables \<Rightarrow> path \<Rightarrow> files \<Rightarrow> nat \<Rightarrow> snapshot_component_spec \<Rightarrow> snapshot_component_result \<Rightarrow> bool" where
  "component_at env rq bars d fs k c r \<longleftrightarrow>
     (\<exists>w feed rel payload.
        component_relative_path (io_sha256 (b_io env)) k (cs_component_key c) = Inr rel \<and>
        component_bytes (rq_availability_mode rq) (eligible_rows rq c bars) = Inr payload \<and>
        resolve_series (adjustment_cutoffs env) (cs_bar_series_id c) (rq_knowledge_cutoff_ts rq) bars = Inr feed \<and>
        r = component_result w c feed (eligible_rows rq c bars)
              \<lparr>relative_path = rel, wa_sha256 = io_sha256 (b_io env) payload, byte_count = length payload\<rparr> \<and>
        fs (d @ rel) = Some (File payload))"

fun components_at ::
  "builder_env \<Rightarrow> snapshot_build_request \<Rightarrow> bar_tables \<Rightarrow> path \<Rightarrow> files \<Rightarrow> nat \<Rightarrow> snapshot_component_spec list \<Rightarrow> snapshot_component_result list \<Rightarrow> bool" where
  "components_at env rq bars d fs k [] rs \<longleftrightarrow> rs = []"
| "components_at env rq bars d fs k (c # cs) rs \<longleftrightarrow>
     (\<exists>r rs'. rs = r # rs' \<and> component_at env rq bars d fs k c r \<and> components_at env rq bars d fs (Suc k) cs rs')"

lemma component_at_mono:
  assumes "component_at env rq bars d fs k c r" and "\<And>rel b. slot d k (d @ rel) \<Longrightarrow> fs (d @ rel) = Some (File b) \<Longrightarrow>
    \<not> slot d (Suc k) (d @ rel) \<Longrightarrow> fs' (e @ rel) = Some (File b)"
  shows "component_at env rq bars e fs' k c r"
  using assms slot_other unfolding component_at_def by (metis lessI)

lemma components_at_mono:
  assumes "components_at env rq bars d fs k cs rs" and "\<And>rel b. slot d k (d @ rel) \<Longrightarrow> fs (d @ rel) = Some (File b) \<Longrightarrow> fs' (e @ rel) = Some (File b)"
  shows "components_at env rq bars e fs' k cs rs"
  using assms
proof (induction cs arbitrary: k rs)
  case (Cons c cs)
  obtain r rs' where rs: "rs = r # rs'" "component_at env rq bars d fs k c r" "components_at env rq bars d fs (Suc k) cs rs'"
    using Cons.prems(1) by auto
  have "component_at env rq bars e fs' k c r"
    using rs(2) Cons.prems(2) by (rule component_at_mono)
  moreover have "components_at env rq bars e fs' (Suc k) cs rs'"
    using rs(3) Cons.prems(2) slot_mono by (intro Cons.IH) (auto intro: slot_mono)
  ultimately show ?case using rs(1) by simp
qed simp

lemma build_component_Inr:
  assumes "build_component env rq bars k c (w, fs) = (Inr r, w', fs')"
  shows "w' = w\<lparr>staging_directory := Some (staging_of (b_io env) w)\<rparr>"
    and "component_at env rq bars (staging_of (b_io env) w) fs' k c r" and "is_sha256 (cr_component_sha256 r)"
    and "fs p = Some (File b) \<Longrightarrow> \<not> slot (staging_of (b_io env) w) k p \<Longrightarrow> fs' p = Some (File b)"
proof -
  let ?rows = "eligible_rows rq c bars"
  obtain feed where feed: "resolve_series (adjustment_cutoffs env) (cs_bar_series_id c) (rq_knowledge_cutoff_ts rq) bars = Inr feed"
    using assms by (auto simp: build_component_def split: sum.splits)
  obtain payload where payload: "component_bytes (rq_availability_mode rq) ?rows = Inr payload"
    using assms feed by (auto simp: build_component_def Let_def split: sum.splits if_splits)
  obtain a where w: "write_component (b_io env) k (cs_component_key c) payload (w, fs) = (Inr a, w', fs')"
    and r: "r = component_result w' c feed ?rows a" and sha: "is_sha256 (wa_sha256 a)"
    using assms feed payload by (auto simp: build_component_def Let_def io_bind_def split: sum.splits if_splits prod.splits)
  obtain rel where rel: "component_relative_path (io_sha256 (b_io env)) k (cs_component_key c) = Inr rel"
    and wb: "write_bytes (b_io env) rel payload (w, fs) = (Inr a, w', fs')"
    using w by (auto simp: write_component_def split: sum.splits)
  note b = write_bytes_Inr [OF wb]
  show "w' = w\<lparr>staging_directory := Some (staging_of (b_io env) w)\<rparr>" by (rule b(2))
  show "component_at env rq bars (staging_of (b_io env) w) fs' k c r"
    unfolding component_at_def using rel payload feed r b(1,3) by blast
  show "is_sha256 (cr_component_sha256 r)" using sha by (simp add: r component_result_def)
  show "fs p = Some (File b) \<Longrightarrow> \<not> slot (staging_of (b_io env) w) k p \<Longrightarrow> fs' p = Some (File b)"
    using b(4) slot_other(1) [OF rel] by blast
qed

lemma build_components_Inr:
  assumes "build_components env rq bars k cs (w, fs) = (Inr rs, w', fs')"
  shows "components_at env rq bars (staging_of (b_io env) w) fs' k cs rs \<and> list_all (\<lambda>r. is_sha256 (cr_component_sha256 r)) rs \<and>
    w' = (if cs = [] then w else w\<lparr>staging_directory := Some (staging_of (b_io env) w)\<rparr>) \<and>
    (\<forall>p b. fs p = Some (File b) \<longrightarrow> \<not> slot (staging_of (b_io env) w) k p \<longrightarrow> fs' p = Some (File b))"
  using assms
proof (induction cs arbitrary: k w fs rs)
  case (Cons c cs)
  let ?d = "staging_of (b_io env) w"
  obtain r w1 fs1 where r: "build_component env rq bars k c (w, fs) = (Inr r, w1, fs1)"
    using Cons.prems by (auto simp: io_bind_def split: prod.splits sum.splits)
  then obtain rs' where rs': "build_components env rq bars (Suc k) cs (w1, fs1) = (Inr rs', w', fs')" and rs: "rs = r # rs'"
    using Cons.prems by (auto simp: io_bind_def io_return_def split: prod.splits sum.splits)
  note one = build_component_Inr [OF r]
  have d: "staging_of (b_io env) w1 = ?d" using one(1) by simp
  note more = Cons.IH [OF rs', unfolded d]
  have "component_at env rq bars ?d fs' k c r"
    using one(2) by (rule component_at_mono) (use more in blast)
  moreover have "fs' p = Some (File b)" if "fs p = Some (File b)" "\<not> slot ?d k p" for p b
    using that one(4) more slot_mono [of ?d "Suc k" p k] by auto
  ultimately show ?case
    using more one(1,3) rs by auto
qed (auto simp: io_return_def)

lemma write_manifest_Inr:
  assumes "write_manifest io v (w, fs) = (Inr a, w', fs')"
  obtains b where "canonical_json_bytes v = Inr b" "write_bytes io manifest_name b (w, fs) = (Inr a, w', fs')"
  using assms by (auto simp: write_manifest_def split: sum.splits)

lemma manifest_not_slot: "\<not> slot d k (d @ manifest_name)"
  by (auto simp: slot_def manifest_name_def simp del: u_Cons)

text \<open>The directory that a successful build publishes.\<close>

definition published_at ::
  "builder_env \<Rightarrow> snapshot_manifest_document \<Rightarrow> bar_tables \<Rightarrow> path \<Rightarrow> files \<Rightarrow> snapshot_component_result list \<Rightarrow> pystr \<Rightarrow> bool" where
  "published_at env doc bars d fs rs digest \<longleftrightarrow>
     components_at env (doc_request doc) bars d fs 1 (sort_key cs_component_key (rq_components (doc_request doc))) rs \<and>
     list_all (\<lambda>r. is_sha256 (cr_component_sha256 r)) rs \<and>
     (\<exists>b. canonical_json_bytes (manifest_payload env doc rs) = Inr b \<and> digest = io_sha256 (b_io env) b \<and>
        fs (d @ manifest_name) = Some (File b))"

lemma build_artifacts_Inr:
  assumes "build_artifacts env doc bars (w, fs) = (Inr (cs, m, d), w', fs')"
  obtains rs where "d = final_directory w" "published_at env doc bars d fs' rs (wa_sha256 m)"
    "cs = map (\<lambda>c. c\<lparr>cr_storage_uri := as_uri (d @ split_on 47 (cr_relative_storage_path c))\<rparr>) rs"
proof -
  let ?specs = "sort_key cs_component_key (rq_components (doc_request doc))" and ?d = "staging_of (b_io env) w"
  obtain rs w1 fs1 where rs: "build_components env (doc_request doc) bars 1 ?specs (w, fs) = (Inr rs, w1, fs1)"
    using assms by (auto simp: build_artifacts_def io_bind_def split: prod.splits sum.splits if_splits)
  obtain m1 w2 fs2 where m: "write_manifest (b_io env) (manifest_payload env doc rs) (w1, fs1) = (Inr m1, w2, fs2)"
    using assms rs by (auto simp: build_artifacts_def io_bind_def split: prod.splits sum.splits if_splits)
  obtain d1 where d: "publish (b_io env) (w2, fs2) = (Inr d1, w', fs')"
    using assms rs m by (auto simp: build_artifacts_def io_bind_def io_return_def split: prod.splits sum.splits if_splits)
  have out: "m1 = m" "d1 = d" "cs = map (\<lambda>c. c\<lparr>cr_storage_uri := as_uri (d @ split_on 47 (cr_relative_storage_path c))\<rparr>) rs"
    using assms rs m d by (auto simp: build_artifacts_def io_bind_def io_return_def split: if_splits)
  note one = build_components_Inr [OF rs]
  have d1: "staging_of (b_io env) w1 = ?d" "final_directory w1 = final_directory w"
    using one by (auto simp: final_directory_def split: if_splits)
  obtain b where b: "canonical_json_bytes (manifest_payload env doc rs) = Inr b" "write_bytes (b_io env) manifest_name b (w1, fs1) = (Inr m1, w2, fs2)"
    using m by (rule write_manifest_Inr)
  note two = write_bytes_Inr [OF b(2), unfolded d1]
  have w2: "staging_directory w2 = Some ?d" "final_directory w2 = final_directory w"
    using two(2) d1(2) by (simp_all add: final_directory_def)
  note three = publish_Inr [OF d w2(1)]
  have "components_at env (doc_request doc) bars d fs' 1 ?specs rs"
  proof (rule components_at_mono)
    show "components_at env (doc_request doc) bars ?d fs1 1 ?specs rs" using one by blast
    fix rel bb assume "slot ?d 1 (?d @ rel)" "fs1 (?d @ rel) = Some (File bb)"
    then show "fs' (d @ rel) = Some (File bb)"
      using three two(4) manifest_not_slot [of ?d 1] out(2) by metis
  qed
  moreover have "fs' (d @ manifest_name) = Some (File b)"
    using three(2) [of manifest_name] two(3) out(2) by simp
  ultimately show ?thesis
    using that [of rs] one b(1) two(1) three(1) out w2(2) unfolding published_at_def by auto
qed

subsection \<open>Published components pass the check of the files\<close>

definition hex_digests :: "builder_env \<Rightarrow> bool" where
  "hex_digests env \<longleftrightarrow> (\<forall>b. is_sha256 (io_sha256 (b_io env) b))"

text \<open>A directory whose path a URI can name.\<close>

definition plain_dir :: "path \<Rightarrow> bool" where
  "plain_dir d \<longleftrightarrow> d \<noteq> [] \<and> list_all plain_name d \<and> \<not> drive_like d"

lemma sha256_below: "is_sha256 s \<Longrightarrow> below 128 s \<and> s \<noteq> [] \<and> 47 \<notin> set s \<and> encodable s"
  by (auto simp: is_sha256_def below_def list_all_iff encodable_def)

lemma char_64_sha256: "is_sha256 s \<Longrightarrow> char_n 64 s = Inr s"
  by (simp add: char_n_def is_sha256_def)

lemma plain_code:
  assumes "validate_snapshot_code s = Inr s"
  shows "plain_name s" and "below 128 s" and "2 \<le> length s \<Longrightarrow> s ! 1 \<noteq> 58"
proof -
  obtain c cs where s: "s = c # cs" "is_code_start c" "list_all (\<lambda>d. is_code_start d \<or> d \<in> {46, 95, 45}) cs"
    using assms by (auto simp: validate_snapshot_code_def SAFE_SNAPSHOT_CODE_def split: if_splits list.splits)
  then have "d \<noteq> 47 \<and> d \<noteq> 58 \<and> d < 128" if "d \<in> set s" for d
    using that by (auto simp: is_code_start_def list_all_iff)
  moreover have "c \<noteq> 46" using s(2) by (auto simp: is_code_start_def)
  ultimately show "plain_name s" "below 128 s" "2 \<le> length s \<Longrightarrow> s ! 1 \<noteq> 58"
    using s(1) by (auto simp: plain_name_def below_def encodable_def) (fastforce | (cases cs; fastforce))+
qed

lemma plain_final_directory:
  assumes "list_all plain_name root_dir" and "\<not> drive_like root_dir" and "validate_snapshot_code code = Inr code"
  shows "plain_dir (root_dir @ [code])"
  using assms plain_code [OF assms(3)] by (cases root_dir) (auto simp: plain_dir_def drive_like_def)

lemma plain_component_path:
  assumes "component_relative_path sha k key = Inr rel" and "\<forall>b. is_sha256 (sha b)"
  shows "list_all plain_name rel" and "rel \<noteq> []" and "length rel = 2"
proof -
  obtain b where rel: "rel = [u ''components'', zero_pad 4 k @ [45] @ sha b @ u ''.jsonl'']"
    using assms(1) by (auto simp: component_relative_path_def split: if_splits sum.splits)
  have "c < 128 \<and> c \<noteq> 47" if "c \<in> set (zero_pad 4 k)" for c
    using that set_digits [of k] by (fastforce simp: zero_pad_def split: if_splits)
  then have "plain_name (zero_pad 4 k @ [45] @ sha b @ u ''.jsonl'')"
    using assms(2) sha256_below [of "sha b"] by (fastforce simp: plain_name_def below_def encodable_def u_def)
  moreover have "plain_name (u ''components'')"
    by (simp add: plain_name_def encodable_def)
  ultimately show "list_all plain_name rel" "rel \<noteq> []" "length rel = 2"
    by (simp_all add: rel del: u_Cons)
qed

lemma plain_dir_append: "plain_dir d \<Longrightarrow> list_all plain_name rel \<Longrightarrow> plain_dir (d @ rel)"
  by (cases d) (auto simp: plain_dir_def drive_like_def)

lemma plain_dir_uri: "plain_dir p \<Longrightarrow> file_uri_path cwd (as_uri p) = Some p"
  by (auto simp: plain_dir_def intro: file_uri_roundtrip)

definition with_uri :: "path \<Rightarrow> snapshot_component_result \<Rightarrow> snapshot_component_result" where
  "with_uri d c = c\<lparr>cr_storage_uri := as_uri (d @ split_on 47 (cr_relative_storage_path c))\<rparr>"

lemma component_at_checks:
  assumes at: "component_at env rq bars d fs k c r" and "hex_digests env" and "plain_dir d"
  shows "check_component env fs (row_of_component i (with_uri d r)) = ([], Some (d @ manifest_name))"
proof -
  obtain w feed rel payload where rel: "component_relative_path (io_sha256 (b_io env)) k (cs_component_key c) = Inr rel"
    and payload: "component_bytes (rq_availability_mode rq) (eligible_rows rq c bars) = Inr payload"
    and r: "r = component_result w c feed (eligible_rows rq c bars)
              \<lparr>relative_path = rel, wa_sha256 = io_sha256 (b_io env) payload, byte_count = length payload\<rparr>"
    and stored: "fs (d @ rel) = Some (File payload)"
    using at unfolding component_at_def by blast
  note plain = plain_component_path [OF rel] assms(2) [unfolded hex_digests_def]
  have "split_on 47 (join [47] rel) = rel"
    using plain by (intro split_on_join) (auto simp: plain_name_def list_all_iff)
  then have uri: "sc_storage_uri (row_of_component i (with_uri d r)) = Some (as_uri (d @ rel))"
    by (simp add: row_of_component_def with_uri_def r component_result_def)
  have path: "file_uri_path cwd (as_uri (d @ rel)) = Some (d @ rel)" for cwd
    using plain assms(3) by (intro plain_dir_uri plain_dir_append) auto
  have "length (splitlines bytes_break payload) = length (eligible_rows rq c bars)"
    using payload unfolding component_bytes_def by (rule jsonl_row_count)
  moreover have "butlast (butlast (d @ rel)) = d"
  proof -
    obtain a b where "rel = [a, b]" using plain by (cases rel; cases "tl rel") auto
    then show ?thesis by (simp add: butlast_append)
  qed
  ultimately show ?thesis
    unfolding check_component_def uri by (simp add: path stored manifest_beside_def row_of_component_def with_uri_def r component_result_def)
qed

lemma check_components_clean:
  assumes "\<And>c. c \<in> set cs \<Longrightarrow> check_component env fs c = ([], Some m)"
  shows "check_components env fs cs mp = ([], if cs = [] then mp else Some m)"
  using assms by (induction cs arbitrary: mp) auto

lemma components_at_set:
  "components_at env rq bars d fs k cs rs \<Longrightarrow> r \<in> set rs \<Longrightarrow> \<exists>c j. c \<in> set cs \<and> component_at env rq bars d fs j c r"
  by (induction cs arbitrary: k rs) fastforce+

lemma components_at_keys:
  "components_at env rq bars d fs k cs rs \<Longrightarrow> map cr_component_key rs = map cs_component_key cs"
  by (induction cs arbitrary: k rs) (auto simp: component_at_def component_result_def)

subsection \<open>The tables after a build\<close>

lemma get_snapshot_by_id_unique:
  assumes "snapshot_inv t" and "s \<in> set (snapshots t)"
  shows "get_snapshot_by_id (sr_data_snapshot_id s) t = Some s"
proof (cases "get_snapshot_by_id (sr_data_snapshot_id s) t")
  case None
  then show ?thesis using assms(2) by (auto simp: get_snapshot_by_id_def find_None_iff)
next
  case (Some r)
  then show ?thesis using get_snapshot_by_id_Some [OF Some] same_snapshot [OF assms(1)] assms(2) by blast
qed

lemma isolation_levels [simp]:
  "normalize_isolation_level (u ''READ COMMITTED'') = Inr (u ''READ COMMITTED'')"
  by (simp add: normalize_isolation_level_def supported_isolation_levels_def py_upper_ascii_def py_isspace_def Let_def)

lemma snapshot_tx_Inr:
  assumes "snapshot_tx env st ''READ COMMITTED'' False body db = (Inr a, db')"
  shows "body db = Inr (db', a)" and "\<not> snapshot_outage env st"
  using assms by (auto simp: snapshot_tx_def begin_transaction_def split: if_splits sum.splits)

lemma snapshot_tx_Inl:
  assumes "snapshot_tx env st ''READ COMMITTED'' False body db = (Inl e, db')"
  shows "db' = db"
  using assms by (auto simp: snapshot_tx_def begin_transaction_def split: if_splits sum.splits prod.splits)

lemma create_body_Inr:
  assumes "create_body env doc t = Inr (t', Inr s)"
  shows "create_building (b_created_at env) (rq_snapshot_code (doc_request doc)) (rq_knowledge_cutoff_ts (doc_request doc))
    (rq_availability_mode (doc_request doc)) (building_metadata env doc) t = Inr (t', s)"
    and "get_snapshot_by_code (rq_snapshot_code (doc_request doc)) t = None"
  using assms by (auto simp: create_body_def Let_def rbind_Inr_iff split: option.splits)

lemma created_row:
  assumes "snapshot_inv t" and "create_body env doc t = Inr (t', Inr s)"
  shows "snapshot_inv t'" and "get_snapshot_by_id (sr_data_snapshot_id s) t' = Some s" and "components_of (sr_data_snapshot_id s) t' = []"
    and "sr_status s = BUILDING" and "sr_snapshot_code s = rq_snapshot_code (doc_request doc)"
    and "sr_knowledge_cutoff_ts s = rq_knowledge_cutoff_ts (doc_request doc)" and "sr_availability_mode s = rq_availability_mode (doc_request doc)"
proof -
  note c = create_building_Inr [OF create_body_Inr(1) [OF assms(2)]]
  show inv: "snapshot_inv t'" by (rule create_building_inv(1) [OF assms(1) create_body_Inr(1) [OF assms(2)]])
  show "get_snapshot_by_id (sr_data_snapshot_id s) t' = Some s"
    by (rule get_snapshot_by_id_unique [OF inv]) (simp add: c(1))
  show "components_of (sr_data_snapshot_id s) t' = []"
    using assms(1) c by (fastforce simp: components_of_def filter_empty_conv snapshot_inv_def)
  show "sr_status s = BUILDING" "sr_snapshot_code s = rq_snapshot_code (doc_request doc)"
    "sr_knowledge_cutoff_ts s = rq_knowledge_cutoff_ts (doc_request doc)" "sr_availability_mode s = rq_availability_mode (doc_request doc)"
    by (simp_all add: c(2))
qed

lemma insert_component_row_counts:
  "insert_component_row fe c t = Inr t' \<Longrightarrow> (case sc_row_count c of None \<Rightarrow> True | Some n \<Rightarrow> in_bigint n)"
  by (auto simp: insert_component_row_def rbind_Inr_iff split: if_splits)

lemma insert_component_rows_sha256:
  assumes "insert_component_rows fe (map (row_of_component i) cs) t = Inr t'" and "list_all (\<lambda>c. is_sha256 (cr_component_sha256 c)) cs"
  shows "component_rows t' = component_rows t @ map (row_of_component i) cs \<and> snapshots t' = snapshots t \<and>
    list_all (\<lambda>c. in_bigint (cr_row_count c)) cs"
  using assms
proof (induction cs arbitrary: t)
  case (Cons c cs)
  obtain t1 where t1: "insert_component_row fe (row_of_component i c) t = Inr t1"
    and r: "insert_component_rows fe (map (row_of_component i) cs) t1 = Inr t'"
    using Cons.prems(1) by (auto simp: rbind_Inr_iff)
  have "in_bigint (cr_row_count c)"
    using insert_component_row_counts [OF t1] by (simp add: row_of_component_def)
  moreover have "component_rows t1 = component_rows t @ [row_of_component i c] \<and> snapshots t1 = snapshots t"
    using insert_component_row_Inr [OF t1] char_64_sha256 [of "cr_component_sha256 c"] Cons.prems(2)
    by (fastforce simp: row_of_component_def)
  ultimately show ?case using Cons.IH [OF r] Cons.prems(2) by simp
qed simp

lemma freeze_body_Inr:
  assumes inv: "snapshot_inv t" and s: "get_snapshot_by_id i t = Some s" "components_of i t = []"
    and fb: "freeze_body env doc i cs m t = Inr (t', frozen)"
    and sha: "list_all (\<lambda>c. is_sha256 (cr_component_sha256 c)) cs" "is_sha256 (wa_sha256 m)"
  shows "frozen = s\<lparr>sr_status := FROZEN, sr_manifest_sha256 := Some (wa_sha256 m), sr_frozen_at := Some (b_clock env),
      sr_metadata := completed_metadata env doc cs\<rparr>"
    and "components_of i t' = map (row_of_component i) cs" and "list_all (\<lambda>c. in_bigint (cr_row_count c)) cs"
    and "get_snapshot_by_code (sr_snapshot_code s) t' = Some frozen"
proof -
  obtain t1 where ins: "insert_components (known_feed env) i cs t = Inr t1"
    and fr: "freeze i (wa_sha256 m) (b_clock env) (completed_metadata env doc cs) t1 = Inr (t', frozen)"
    using fb by (auto simp: freeze_body_def rbind_Inr_iff)
  have "insert_component_rows (known_feed env) (map (row_of_component i) cs) t = Inr t1"
    using ins s(1) by (auto simp: insert_components_def split: if_splits)
  note rows = insert_component_rows_sha256 [OF this sha(1)]
  have s1: "get_snapshot_by_id i t1 = Some s" using rows s(1) by (simp add: get_snapshot_by_id_def)
  obtain d where d: "char_n 64 (wa_sha256 m) = Inr d" "frozen = s\<lparr>sr_status := FROZEN, sr_manifest_sha256 := Some d,
      sr_frozen_at := Some (b_clock env), sr_metadata := completed_metadata env doc cs\<rparr>" "t' = update_snapshot i frozen t1"
    using fr s1 by (auto elim: freeze_Inr)
  then show f: "frozen = s\<lparr>sr_status := FROZEN, sr_manifest_sha256 := Some (wa_sha256 m), sr_frozen_at := Some (b_clock env),
      sr_metadata := completed_metadata env doc cs\<rparr>"
    using char_64_sha256 [OF sha(2)] by simp
  show "components_of i t' = map (row_of_component i) cs" "list_all (\<lambda>c. in_bigint (cr_row_count c)) cs"
    using rows s(2) d(3) by (auto simp: components_of_def update_snapshot_def row_of_component_def filter_id_conv)
  have "snapshot_inv t1" by (rule insert_components_inv(1) [OF inv ins])
  then have "snapshot_inv t'" using snapshot_step_inv(1) step_freeze [OF fr] by blast
  moreover have "s \<in> set (snapshots t1)" "sr_data_snapshot_id s = i"
    using get_snapshot_by_id_Some [OF s1] by auto
  then have "frozen \<in> set (snapshots t')"
    using d(3) by (force simp: update_snapshot_def)
  ultimately show "get_snapshot_by_code (sr_snapshot_code s) t' = Some frozen"
    using get_snapshot_by_code_Some [of t' frozen] by (simp add: f)
qed

subsection \<open>The manifest agrees with the metadata of the record\<close>

lemma canonicalize_py_of_json: "canonicalize_json (py_of_json j) = Inr j"
proof (induction j)
  case (JList js)
  then have "canonicalize_items (map py_of_json js) = Inr js"
    by (induction js) auto
  then show ?case by simp
next
  case (JObj fs)
  then have "canonicalize_fields (map (\<lambda>(k, v). (k, py_of_json v)) fs) = Inr fs"
  proof (induction fs)
    case (Cons f fs)
    then show ?case by (cases f) fastforce
  qed simp
  then show ?case by simp
qed simp_all

lemma py_eq_loaded: "printable j \<Longrightarrow> py_eq (loaded j) j"
proof (induction j)
  case (JList js)
  then have "py_eq (fst p) (snd p)" if "p \<in> set (zip (map loaded js) js)" for p
    using that by (auto simp: in_set_zip list_all_iff) (metis nth_mem)
  then show ?case by (simp add: py_eq.simps [of _ "JList js"])
next
  case (JObj fs)
  have "\<exists>w. map_of fs k = Some w \<and> py_eq v w" if mem: "(k, v) \<in> set (map (\<lambda>(k, v). (k, loaded v)) fs)" for k v
  proof -
    obtain j where j: "(k, j) \<in> set fs" "v = loaded j" using mem by auto
    then show ?thesis using JObj.IH [OF j(1), of j] JObj.prems by (auto simp: list_all_iff)
  qed
  then show ?case by (fastforce simp: py_eq.simps [of _ "JObj fs"])
qed (simp_all add: py_eq.simps)

definition component_json :: "builder_env \<Rightarrow> snapshot_component_result \<Rightarrow> json" where
  "component_json env c = JObj (without_uri (component_dump env c))"

definition manifest_fields :: "builder_env \<Rightarrow> snapshot_manifest_document \<Rightarrow> snapshot_component_result list \<Rightarrow> (pystr \<times> json) list" where
  "manifest_fields env doc cs = (let r = doc_request doc in
     [(u ''artifact_schema_version'', JInt 1), (u ''snapshot_code'', JStr (rq_snapshot_code r)),
      (u ''knowledge_cutoff_ts'', JStr (canonical_datetime (rq_knowledge_cutoff_ts r))),
      (u ''availability_mode'', JStr (mode_value (rq_availability_mode r))),
      (u ''specification_sha256'', JStr (specification_sha256 doc)), (u ''components'', JList (map (component_json env) cs))])"

lemma canonicalize_manifest: "canonicalize_json (manifest_payload env doc cs) = Inr (JObj (manifest_fields env doc cs))"
proof -
  have "canonicalize_items (map (\<lambda>c. py_of_json (JObj (without_uri (component_dump env c)))) cs) = Inr (map (component_json env) cs)"
    by (induction cs) (simp_all only: list.map canonicalize_items.simps canonicalize_py_of_json component_json_def rbind_simps)
  then show ?thesis
    by (simp add: manifest_payload_def manifest_fields_def Let_def del: u_Cons py_of_json.simps)
qed

lemma component_json_fields:
  "component_json env c = JObj
     [(u ''component_key'', JStr (cr_component_key c)), (u ''kind'', JStr (kind_value (cr_kind c))),
      (u ''bar_series_id'', JInt (cr_bar_series_id c)), (u ''feed_id'', JInt (cr_feed_id c)),
      (u ''event_from'', JStr (pd_json_datetime env (cr_event_from c))), (u ''event_to'', JStr (pd_json_datetime env (cr_event_to c))),
      (u ''row_count'', JInt (cr_row_count c)), (u ''component_sha256'', JStr (cr_component_sha256 c)),
      (u ''relative_storage_path'', JStr (cr_relative_storage_path c)),
      (u ''max_available_at'', opt_datetime env (cr_max_available_at c)),
      (u ''max_system_available_at'', opt_datetime env (cr_max_system_available_at c))]"
  by (simp add: component_json_def component_dump_def without_uri_def u_inj del: u_Cons)

lemma component_json_with_uri: "component_json env (with_uri d c) = component_json env c"
  by (simp add: component_json_fields with_uri_def)

text \<open>Python strings have code points; identifiers are of type BIGINT.\<close>

definition component_fits :: "builder_env \<Rightarrow> snapshot_component_result \<Rightarrow> bool" where
  "component_fits env c \<longleftrightarrow> in_bigint (cr_bar_series_id c) \<and> in_bigint (cr_feed_id c) \<and> in_bigint (cr_row_count c) \<and>
     below 1114112 (cr_component_key c) \<and> below 1114112 (cr_component_sha256 c) \<and> below 1114112 (cr_relative_storage_path c)"

lemma component_json_ok:
  assumes "component_fits env c" and "\<forall>t. below 1114112 (pd_json_datetime env t)"
  shows "printable (component_json env c)" and "json_below 1114112 (component_json env c)"
proof -
  show "printable (component_json env c)"
    using assms bigint_digits by (simp add: component_json_fields component_fits_def u_inj opt_datetime_def del: u_Cons split: option.split)
  have "below 1114112 (kind_value k)" for k by (cases k) (simp add: kind_value_def)
  then show "json_below 1114112 (component_json env c)"
    using assms by (simp add: component_json_fields component_fits_def opt_datetime_def split: option.split)
qed

lemma manifest_ok:
  assumes fits: "list_all (component_fits env) cs" and times: "\<forall>t. below 1114112 (pd_json_datetime env t)"
    and "below 128 (rq_snapshot_code (doc_request doc))" and "below 128 (specification_sha256 doc)"
  shows "printable (JObj (manifest_fields env doc cs))" and "below 1114112 (dumps (JObj (manifest_fields env doc cs)))"
proof -
  have c: "printable (component_json env c)" "json_below 1114112 (component_json env c)" if "c \<in> set cs" for c
    using component_json_ok [OF _ times] fits that by (auto simp: list_all_iff)
  have "length (digits 1) \<le> MAX_STR_DIGITS" by (simp add: digits.simps MAX_STR_DIGITS_def)
  then show "printable (JObj (manifest_fields env doc cs))"
    using c by (simp add: manifest_fields_def Let_def u_inj list_all_iff del: u_Cons)
  have "below 1114112 (rq_snapshot_code (doc_request doc))" "below 1114112 (specification_sha256 doc)"
    using assms(3,4) by (auto elim: below_mono)
  moreover have "below 1114112 (mode_value m)" for m by (cases m) (simp_all add: mode_value_def)
  moreover have "below 1114112 (canonical_datetime t)" for t using ascii_canonical_datetime by (rule below_mono) simp
  ultimately have "json_below 1114112 (JObj (manifest_fields env doc cs))"
    using c by (simp add: manifest_fields_def Let_def list_all_iff)
  then show "below 1114112 (dumps (JObj (manifest_fields env doc cs)))"
    by (intro below_dumps) simp_all
qed

lemma manifest_field_loaded:
  assumes "distinct (map fst fs)"
  shows "manifest_field (sort_key fst (map (\<lambda>(k, v). (k, loaded v)) fs)) k =
    (case map_of fs (u k) of None \<Rightarrow> PyNone | Some j \<Rightarrow> loaded j)"
  using loaded_field [OF assms, of "u k"] by (simp add: manifest_field_def field_of_def split: option.split)

lemma manifest_names: "distinct (map fst (manifest_fields env doc cs))"
  by (simp add: manifest_fields_def Let_def u_inj del: u_Cons)

lemma manifest_lookup:
  "map_of (manifest_fields env doc cs) (u k) =
     map_of [(''artifact_schema_version'', JInt 1), (''snapshot_code'', JStr (rq_snapshot_code (doc_request doc))),
      (''knowledge_cutoff_ts'', JStr (canonical_datetime (rq_knowledge_cutoff_ts (doc_request doc)))),
      (''availability_mode'', JStr (mode_value (rq_availability_mode (doc_request doc)))),
      (''specification_sha256'', JStr (specification_sha256 doc)), (''components'', JList (map (component_json env) cs))] k"
  by (simp add: manifest_fields_def Let_def u_inj del: u_Cons)

lemma completed_lookup:
  "dict_get (completed_metadata env doc cs) (u k) =
     map_of [(''source_manifest_sha256'', JStr (source_manifest_sha256 doc)), (''specification_sha256'', JStr (specification_sha256 doc)),
      (''builder_version'', JStr BUILDER_VERSION), (''requested_component_count'', JInt (int (length (rq_components (doc_request doc))))),
      (''component_specs'', JList (map (spec_dump env) (rq_components (doc_request doc)))),
      (''components'', JList (map (\<lambda>c. JObj (component_dump env c)) cs))] k"
  by (simp add: completed_metadata_def building_metadata_def dict_get_def u_inj del: u_Cons)

lemma expected_of_completed:
  assumes "sr_metadata s = completed_metadata env doc cs"
  shows "expected_components (sr_metadata s) = Inr (JList (map (component_json env) cs))"
proof -
  have "map_result (\<lambda>i. case i of JObj fs \<Rightarrow> Inr (JObj (without_uri fs)) | _ \<Rightarrow> Inl (AppTypeError ''AttributeError''))
      (map (\<lambda>c. JObj (component_dump env c)) cs) = Inr (map (component_json env) cs)"
    by (induction cs) (simp_all add: component_json_def rbind_Inr_iff)
  then show ?thesis
    unfolding expected_components_def assms completed_lookup by simp
qed

lemma manifest_keys_loaded: "manifest_keys env (map (\<lambda>c. loaded (component_json env c)) cs) = set (map cr_component_key cs)"
proof -
  have "(case loaded (component_json env c) of PyDict d \<Rightarrow> manifest_field d ''component_key'' | _ \<Rightarrow> PyNone) = PyStr (cr_component_key c)" for c
  proof -
    have "field_of (loaded (component_json env c)) (u ''component_key'') = Some (PyStr (cr_component_key c))"
      unfolding component_json_fields by (subst loaded_field) (simp_all add: u_inj del: u_Cons)
    then show ?thesis by (auto simp: field_of_def manifest_field_def split: pyval.splits)
  qed
  then have "map (\<lambda>i. case i of PyDict d \<Rightarrow> manifest_field d ''component_key'' | _ \<Rightarrow> PyNone) (map (\<lambda>c. loaded (component_json env c)) cs) =
      map (\<lambda>c. PyStr (cr_component_key c)) cs"
    by simp
  then show ?thesis
    unfolding manifest_keys_def by (simp add: filter_map o_def py_str_def)
qed

lemma manifest_verifies:
  assumes bytes: "canonical_json_bytes (manifest_payload env doc rs) = Inr b" and ok: "list_all (component_fits env) rs"
    "\<forall>t. below 1114112 (pd_json_datetime env t)" "below 128 (rq_snapshot_code (doc_request doc))" "below 128 (specification_sha256 doc)"
    and s: "sr_snapshot_code s = rq_snapshot_code (doc_request doc)" "sr_knowledge_cutoff_ts s = rq_knowledge_cutoff_ts (doc_request doc)"
    "sr_availability_mode s = rq_availability_mode (doc_request doc)" "sr_metadata s = completed_metadata env doc (map (with_uri d) rs)"
    and keys: "set (map sc_component_key cs) = set (map cr_component_key rs)"
  shows "verify_manifest_metadata env s cs b = Inr []"
proof -
  let ?fs = "manifest_fields env doc rs"
  note m = manifest_ok [OF ok]
  have "utf8_encode (dumps (JObj ?fs)) = Inr b"
    using bytes by (simp add: canonical_json_bytes_def canonicalize_manifest del: dumps.simps)
  then have decoded: "utf8_decode b = Some (dumps (JObj ?fs))"
    using m(2) unfolding below_def by (rule utf8_decode_encode)
  have loads: "json_loads False (dumps (JObj ?fs)) = Inr (PyDict (sort_key fst (map (\<lambda>(k, v). (k, loaded v)) ?fs)))"
    using json_loads_dumps [OF m(1)] by simp
  note field_values = manifest_field_loaded [OF manifest_names [of env doc rs], unfolded manifest_lookup]
  have expected: "expected_components (sr_metadata s) = Inr (JList (map (component_json env) rs))"
    using expected_of_completed [OF s(4)] by (simp add: o_def component_json_with_uri)
  have "printable (component_json env c)" if "c \<in> set rs" for c
    using component_json_ok [OF _ ok(2)] ok(1) that by (auto simp: list_all_iff)
  then have "py_eq (loaded (JList (map (component_json env) rs))) (JList (map (component_json env) rs))"
    by (intro py_eq_loaded) (simp add: list_all_iff)
  then have same: "py_eq (PyList (map (\<lambda>c. loaded (component_json env c)) rs)) (JList (map (component_json env) rs))"
    by (simp add: o_def)
  have text_eq: "py_eq (PyStr x) (JStr x)" for x by (simp add: py_eq.simps)
  show ?thesis
    unfolding verify_manifest_metadata_def decoded option.case loads sum.case pyval.case field_values expected
    using same keys manifest_keys_loaded [of env rs]
    by (simp add: text_eq s(1-3) s(4) completed_lookup o_def del: dumps.simps u_Cons)
qed

subsection \<open>The live database agrees\<close>

lemma dict_of_distinct_specs:
  assumes "distinct (map f cs)" and "c \<in> set cs"
  shows "dict_get (foldl (\<lambda>d c. dict_set d (f c) c) [] cs) (f c) = Some c"
  using assms by (induction cs rule: rev_induct) (auto simp: dict_get_set, metis imageI)

lemma stored_specs:
  assumes "list_all validate_component_spec cs" and "\<forall>c \<in> set cs. pd_spec env (spec_dump env c) = Some c"
  shows "map_result (stored_spec env) (map (spec_dump env) cs) = Inr cs"
  using assms by (induction cs) (simp_all add: stored_spec_def)

lemma live_database_verifies:
  assumes request: "validate_snapshot_request (doc_request doc)" and specs: "\<forall>c \<in> set (rq_components (doc_request doc)). pd_spec env (spec_dump env c) = Some c"
    and s: "sr_knowledge_cutoff_ts s = rq_knowledge_cutoff_ts (doc_request doc)"
    "sr_availability_mode s = rq_availability_mode (doc_request doc)" "sr_metadata s = completed_metadata env doc all"
    and "\<not> snapshot_outage env DriftTx"
    and rows: "\<And>c. c \<in> set cs \<Longrightarrow> \<exists>spec payload. spec \<in> set (rq_components (doc_request doc)) \<and> sc_component_key c = cs_component_key spec \<and>
      component_bytes (rq_availability_mode (doc_request doc)) (eligible_rows (doc_request doc) spec bars) = Inr payload \<and>
      sc_component_sha256 c = io_sha256 (b_io env) payload"
  shows "verify_database env bars s cs = Inr []"
proof -
  let ?specs = "rq_components (doc_request doc)"
  have "list_all validate_component_spec ?specs" and dist: "distinct (map cs_component_key ?specs)"
    using request by (simp_all add: validate_snapshot_request_def)
  then have stored: "map_result (stored_spec env) (map (spec_dump env) ?specs) = Inr ?specs"
    using specs stored_specs by blast
  have "check_drift env bars s (foldl (\<lambda>d c. dict_set d (cs_component_key c) c) [] ?specs) c = Inr []" if c: "c \<in> set cs" for c
  proof -
    obtain spec payload where spec: "spec \<in> set ?specs" "sc_component_key c = cs_component_key spec"
      "component_bytes (rq_availability_mode (doc_request doc)) (eligible_rows (doc_request doc) spec bars) = Inr payload"
      "sc_component_sha256 c = io_sha256 (b_io env) payload"
      using rows [OF c] by blast
    show ?thesis
      using spec(3,4) dict_of_distinct_specs [OF dist spec(1)] by (simp add: check_drift_def spec(2) s eligible_rows_def)
  qed
  then have "map_result (check_drift env bars s (foldl (\<lambda>d c. dict_set d (cs_component_key c) c) [] ?specs)) cs = Inr (map (\<lambda>_. []) cs)"
    by (rule map_result_map)
  then show ?thesis
    using assms(6) by (simp add: verify_database_def s(3) completed_lookup stored del: u_Cons)
qed

subsection \<open>A successful build\<close>

lemma fail_build_Inl: "fail_build env doc i e p w world \<noteq> (Inr r, world')"
  by (auto simp: fail_build_def split: sum.splits prod.splits if_splits)

lemma build_created_Inr:
  assumes "build_created env doc writer i world = (Inr r, world')"
  obtains cs m d w' fs frozen where "build_artifacts env doc (w_bars world) (writer, w_files world) = (Inr (cs, m, d), w', fs)"
    "snapshot_tx env FreezeTx ''READ COMMITTED'' False (freeze_body env doc i cs m) (w_snapshots world) = (Inr frozen, w_snapshots world')"
    "build_result frozen cs False = Inr r" "w_files world' = fs" "w_bars world' = w_bars world"
proof -
  obtain x w' fs where x: "build_artifacts env doc (w_bars world) (writer, w_files world) = (x, w', fs)"
    by (metis prod.exhaust)
  then obtain cs m d where a: "x = Inr (cs, m, d)"
    using assms fail_build_Inl by (cases x) (auto simp: build_created_def)
  obtain y t where y: "snapshot_tx env FreezeTx ''READ COMMITTED'' False (freeze_body env doc i cs m) (w_snapshots world) = (y, t)"
    by fastforce
  then obtain frozen where f: "y = Inr frozen"
    using assms fail_build_Inl x a by (cases y) (auto simp: build_created_def)
  show ?thesis
  proof (cases "build_result frozen cs False")
    case (Inl e)
    then show ?thesis using assms fail_build_Inl x a y f by (simp add: build_created_def)
  next
    case (Inr r')
    then show ?thesis using assms x a y f by (intro that [of cs m d w' fs frozen]) (auto simp: build_created_def)
  qed
qed

lemma build_result_replay: "build_result s cs replay = Inr r \<Longrightarrow> br_idempotent_replay r = replay"
  by (auto simp: build_result_def split: option.splits json.splits if_splits prod.splits)

lemma create_body_replays:
  assumes "create_body env doc t = Inr (t', Inl r)"
  shows "br_idempotent_replay r"
proof -
  obtain s where "resolve_existing env s doc = Inr r"
    using assms by (auto simp: create_body_def Let_def rbind_Inr_iff split: option.splits)
  then show ?thesis
    by (auto simp: resolve_existing_def rbind_Inr_iff dest: build_result_replay split: if_splits)
qed

lemma build_Inr:
  assumes "build env doc output_dir world = (Inr r, world')" and "\<not> br_idempotent_replay r"
  obtains t s rs m frozen d where "create_body env doc (w_snapshots world) = Inr (t, Inr s)"
    "validate_snapshot_code (rq_snapshot_code (doc_request doc)) = Inr (rq_snapshot_code (doc_request doc))"
    "d = output_dir @ [rq_snapshot_code (doc_request doc)]"
    "published_at env doc (w_bars world) d (w_files world') rs (wa_sha256 m)"
    "freeze_body env doc (sr_data_snapshot_id s) (map (with_uri d) rs) m t = Inr (w_snapshots world', frozen)"
    "build_result frozen (map (with_uri d) rs) False = Inr r" "w_bars world' = w_bars world"
proof -
  let ?code = "rq_snapshot_code (doc_request doc)"
  obtain t s where tx: "snapshot_tx env CreateTx ''READ COMMITTED'' False (create_body env doc) (w_snapshots world) = (Inr (Inr s), t)"
  proof -
    obtain x t where tx: "snapshot_tx env CreateTx ''READ COMMITTED'' False (create_body env doc) (w_snapshots world) = (x, t)"
      by fastforce
    moreover have False if "x = Inr (Inl q)" for q
      using assms tx that create_body_replays snapshot_tx_Inr(1) by (fastforce simp: build_def)
    moreover have False if "x = Inl e" for e
      using assms(1) tx that by (simp add: build_def)
    ultimately show ?thesis using that by (cases x) (auto, metis sum.exhaust)
  qed
  obtain writer where w: "new_writer output_dir ?code = Inr writer"
    and created: "build_created env doc writer (sr_data_snapshot_id s) (world\<lparr>w_snapshots := t\<rparr>) = (Inr r, world')"
    using assms(1) by (auto simp: build_def tx split: sum.splits)
  have code: "validate_snapshot_code ?code = Inr ?code" "final_directory writer = output_dir @ [?code]"
    using w by (auto simp: new_writer_def rbind_Inr_iff validate_snapshot_code_def final_directory_def split: if_splits)
  obtain cs m d w' fs frozen where a: "build_artifacts env doc (w_bars world) (writer, w_files world) = (Inr (cs, m, d), w', fs)"
    and f: "snapshot_tx env FreezeTx ''READ COMMITTED'' False (freeze_body env doc (sr_data_snapshot_id s) cs m) t = (Inr frozen, w_snapshots world')"
    "build_result frozen cs False = Inr r" "w_files world' = fs" "w_bars world' = w_bars world"
    by (rule build_created_Inr [OF created]) simp
  obtain rs where rs: "d = final_directory writer" "published_at env doc (w_bars world) d fs rs (wa_sha256 m)" "cs = map (with_uri d) rs"
    using build_artifacts_Inr [OF a] unfolding with_uri_def by blast
  show ?thesis
    by (rule that [OF snapshot_tx_Inr(1) [OF tx] code(1) refl])
      (use rs f code(2) snapshot_tx_Inr(1) [OF f(1)] in simp_all)
qed

definition bigint_series :: "bar_tables \<Rightarrow> bool" where
  "bigint_series t \<longleftrightarrow> (\<forall>s \<in> set (series_rows t). in_bigint (series_id s) \<and> in_bigint (series_feed_id s))"

lemma resolved_series_ids:
  assumes "resolve_series f i cutoff t = Inr feed" and "bigint_series t"
  shows "in_bigint i \<and> in_bigint feed"
  using assms by (auto simp: resolve_series_def get_series_by_id_def bigint_series_def find_Some_iff split: option.splits if_splits)

lemma component_at_fits:
  assumes "component_at env rq bars d fs k c r" and "bigint_series bars" and "hex_digests env"
    and "below 1114112 (cs_component_key c)" and "in_bigint (cr_row_count r)"
  shows "component_fits env r"
proof -
  obtain w feed rel payload where rel: "component_relative_path (io_sha256 (b_io env)) k (cs_component_key c) = Inr rel"
    and feed: "resolve_series (adjustment_cutoffs env) (cs_bar_series_id c) (rq_knowledge_cutoff_ts rq) bars = Inr feed"
    and r: "r = component_result w c feed (eligible_rows rq c bars)
              \<lparr>relative_path = rel, wa_sha256 = io_sha256 (b_io env) payload, byte_count = length payload\<rparr>"
    using assms(1) unfolding component_at_def by blast
  have digest: "is_sha256 (io_sha256 (b_io env) b)" for b using assms(3) by (simp add: hex_digests_def)
  have "below 1114112 (join [47] rel)"
    using plain_component_path(1) [OF rel] digest by (intro below_join) (auto simp: plain_name_def list_all_iff below_def)
  then show ?thesis
    using assms(4,5) resolved_series_ids [OF feed assms(2)] below_mono [of 128 _ 1114112] sha256_below [OF digest]
    by (auto simp: component_fits_def r component_result_def)
qed

lemma published_row:
  assumes "published_at env doc bars d fs rs digest" and "r \<in> set rs"
  obtains c k where "c \<in> set (rq_components (doc_request doc))" "component_at env (doc_request doc) bars d fs k c r"
  using components_at_set [of env "doc_request doc" bars d fs 1 "sort_key cs_component_key (rq_components (doc_request doc))" rs r] assms
  by (auto simp: published_at_def)

lemma published_nonempty:
  assumes "published_at env doc bars d fs rs digest" and "validate_snapshot_request (doc_request doc)"
  shows "rs \<noteq> []"
proof
  assume "rs = []"
  then have "map cs_component_key (sort_key cs_component_key (rq_components (doc_request doc))) = []"
    using components_at_keys assms(1) unfolding published_at_def by fastforce
  then show False
    using assms(2) by (simp add: validate_snapshot_request_def) (metis length_0_conv length_sort)
qed

text \<open>The rows of a frozen snapshot: what \<open>build\<close> leaves in the tables.\<close>

definition frozen_as ::
  "builder_env \<Rightarrow> snapshot_manifest_document \<Rightarrow> path \<Rightarrow> snapshot_tables \<Rightarrow> snapshot_record \<Rightarrow> snapshot_component_result list \<Rightarrow> pystr \<Rightarrow> bool" where
  "frozen_as env doc d t s rs digest \<longleftrightarrow>
     s \<in> set (snapshots t) \<and> sr_status s = FROZEN \<and> sr_manifest_sha256 s = Some digest \<and>
     sr_snapshot_code s = rq_snapshot_code (doc_request doc) \<and> sr_knowledge_cutoff_ts s = rq_knowledge_cutoff_ts (doc_request doc) \<and>
     sr_availability_mode s = rq_availability_mode (doc_request doc) \<and> sr_metadata s = completed_metadata env doc (map (with_uri d) rs) \<and>
     components_of (sr_data_snapshot_id s) t = map (row_of_component (sr_data_snapshot_id s)) (map (with_uri d) rs)"

lemma build_freezes:
  assumes "snapshot_inv (w_snapshots world)" and "build env doc output_dir world = (Inr r, world')" and "\<not> br_idempotent_replay r"
    and "hex_digests env" and "d = output_dir @ [rq_snapshot_code (doc_request doc)]"
  obtains rs s digest where "published_at env doc (w_bars world) d (w_files world') rs digest"
    "frozen_as env doc d (w_snapshots world') s rs digest" "snapshot_inv (w_snapshots world')"
    "validate_snapshot_code (rq_snapshot_code (doc_request doc)) = Inr (rq_snapshot_code (doc_request doc))"
    "build_result s (map (with_uri d) rs) False = Inr r" "list_all (\<lambda>c. in_bigint (cr_row_count c)) rs" "w_bars world' = w_bars world"
proof -
  obtain t s rs m frozen where s: "create_body env doc (w_snapshots world) = Inr (t, Inr s)"
    and code: "validate_snapshot_code (rq_snapshot_code (doc_request doc)) = Inr (rq_snapshot_code (doc_request doc))"
    and pub: "published_at env doc (w_bars world) d (w_files world') rs (wa_sha256 m)"
    and fr: "freeze_body env doc (sr_data_snapshot_id s) (map (with_uri d) rs) m t = Inr (w_snapshots world', frozen)"
    and res: "build_result frozen (map (with_uri d) rs) False = Inr r" and same: "w_bars world' = w_bars world"
    using build_Inr [OF assms(2,3)] assms(5) by metis
  note row = created_row [OF assms(1) s]
  have sha: "list_all (\<lambda>c. is_sha256 (cr_component_sha256 c)) (map (with_uri d) rs)" "is_sha256 (wa_sha256 m)"
    using pub assms(4) by (auto simp: published_at_def with_uri_def list_all_iff hex_digests_def)
  note f = freeze_body_Inr [OF row(1-3) fr sha]
  obtain t1 where "insert_components (known_feed env) (sr_data_snapshot_id s) (map (with_uri d) rs) t = Inr t1"
    "freeze (sr_data_snapshot_id s) (wa_sha256 m) (b_clock env) (completed_metadata env doc (map (with_uri d) rs)) t1 = Inr (w_snapshots world', frozen)"
    using fr by (auto simp: freeze_body_def rbind_Inr_iff)
  then have "snapshot_inv (w_snapshots world')"
    using insert_components_inv(1) [OF row(1)] snapshot_step_inv(1) step_freeze by blast
  moreover have "frozen \<in> set (snapshots (w_snapshots world'))"
    using f(4) by (auto simp: get_snapshot_by_code_def find_Some_iff)
  then have "frozen_as env doc d (w_snapshots world') frozen rs (wa_sha256 m)"
    using f(2) row(5-7) by (simp add: frozen_as_def f(1))
  moreover have "list_all (\<lambda>c. in_bigint (cr_row_count c)) rs"
    using f(3) by (simp add: list_all_iff with_uri_def)
  ultimately show ?thesis
    using pub code res same by (intro that)
qed

lemma frozen_rows:
  assumes "frozen_as env doc d t s rs digest"
  shows "set (list_components k (sr_data_snapshot_id s) t) = row_of_component (sr_data_snapshot_id s) ` with_uri d ` set rs"
  using assms by (simp add: frozen_as_def list_components_def components_of_def [symmetric] image_image)

lemma published_verifies:
  assumes pub: "published_at env doc bars d fs rs digest" and fr: "frozen_as env doc d t s rs digest"
    and cs: "cs = list_components k (sr_data_snapshot_id s) t" and request: "validate_snapshot_request (doc_request doc)"
    and code: "validate_snapshot_code (rq_snapshot_code (doc_request doc)) = Inr (rq_snapshot_code (doc_request doc))"
    and env: "hex_digests env" "\<forall>t. below 1114112 (pd_json_datetime env t)" and plain: "plain_dir d"
    and fits: "list_all (component_fits env) rs" and spec: "is_sha256 (specification_sha256 doc)"
  shows "verify_artifacts env fs s cs = Inr []"
proof -
  have rows: "set cs = row_of_component (sr_data_snapshot_id s) ` with_uri d ` set rs"
    unfolding cs by (rule frozen_rows [OF fr])
  obtain b where b: "canonical_json_bytes (manifest_payload env doc rs) = Inr b" "digest = io_sha256 (b_io env) b"
    "fs (d @ manifest_name) = Some (File b)"
    using pub unfolding published_at_def by blast
  have "check_component env fs c = ([], Some (d @ manifest_name))" if mem: "c \<in> set cs" for c
  proof -
    obtain r where r: "r \<in> set rs" "c = row_of_component (sr_data_snapshot_id s) (with_uri d r)" using mem rows by auto
    then show ?thesis using component_at_checks [OF _ env(1) plain] published_row [OF pub r(1)] by metis
  qed
  moreover have "cs \<noteq> []" using rows published_nonempty [OF pub request] by auto
  ultimately have checks: "check_components env fs cs None = ([], Some (d @ manifest_name))"
    using check_components_clean [of cs env fs "d @ manifest_name" None] by simp
  have "set (map sc_component_key cs) = set (map cr_component_key rs)"
    unfolding set_map rows image_image by (simp add: row_of_component_def with_uri_def)
  moreover have "below 128 (specification_sha256 doc)" using sha256_below [OF spec] by simp
  ultimately have "verify_manifest_metadata env s cs b = Inr []"
    using fr by (intro manifest_verifies [OF b(1) fits env(2) plain_code(2) [OF code]]) (simp_all add: frozen_as_def)
  then show ?thesis
    using fr b(2,3) by (simp add: verify_artifacts_def frozen_as_def checks)
qed

lemma frozen_database_verifies:
  assumes pub: "published_at env doc bars d fs rs digest" and fr: "frozen_as env doc d t s rs digest"
    and cs: "cs = list_components k (sr_data_snapshot_id s) t" and request: "validate_snapshot_request (doc_request doc)"
    and specs: "\<forall>c \<in> set (rq_components (doc_request doc)). pd_spec env (spec_dump env c) = Some c" and up: "\<not> snapshot_outage env DriftTx"
  shows "verify_database env bars s cs = Inr []"
proof (rule live_database_verifies [OF request specs _ _ _ up])
  show "sr_knowledge_cutoff_ts s = rq_knowledge_cutoff_ts (doc_request doc)" "sr_availability_mode s = rq_availability_mode (doc_request doc)"
    "sr_metadata s = completed_metadata env doc (map (with_uri d) rs)"
    using fr by (simp_all add: frozen_as_def)
  fix c assume "c \<in> set cs"
  then obtain r where r: "r \<in> set rs" "c = row_of_component (sr_data_snapshot_id s) (with_uri d r)"
    using frozen_rows [OF fr, of k] by (auto simp: cs)
  obtain spec j where "spec \<in> set (rq_components (doc_request doc))" "component_at env (doc_request doc) bars d fs j spec r"
    using pub r(1) by (rule published_row)
  then show "\<exists>spec payload. spec \<in> set (rq_components (doc_request doc)) \<and> sc_component_key c = cs_component_key spec \<and>
    component_bytes (rq_availability_mode (doc_request doc)) (eligible_rows (doc_request doc) spec bars) = Inr payload \<and>
    sc_component_sha256 c = io_sha256 (b_io env) payload"
    unfolding component_at_def r(2) by (auto simp: row_of_component_def with_uri_def component_result_def)
qed

lemma published_fits:
  assumes "published_at env doc bars d fs rs digest" and "bigint_series bars" and "hex_digests env"
    and "\<forall>c \<in> set (rq_components (doc_request doc)). below 1114112 (cs_component_key c)" and "list_all (\<lambda>c. in_bigint (cr_row_count c)) rs"
  shows "list_all (component_fits env) rs"
  using component_at_fits [OF _ assms(2,3)] published_row [OF assms(1)] assms(4,5) unfolding list_all_iff by metis

lemma build_result_specification:
  "build_result s cs replay = Inr r \<Longrightarrow> sr_metadata s = completed_metadata env doc all \<Longrightarrow> is_sha256 (specification_sha256 doc)"
  by (auto simp: build_result_def completed_lookup simp del: u_Cons split: if_splits)

lemma verify_clean:
  assumes "get_snapshot_by_code code (w_snapshots world) = Some s" and "sr_status s = FROZEN" and "\<not> snapshot_outage env VerifyTx"
    and "verify_artifacts env (w_files world) s (list_components (text_order env) (sr_data_snapshot_id s) (w_snapshots world)) = Inr []"
    and "against_db \<Longrightarrow> verify_database env (w_bars world) s (list_components (text_order env) (sr_data_snapshot_id s) (w_snapshots world)) = Inr []"
  shows "verify env code against_db world =
    Inr \<lparr>vr_snapshot_code = code, vr_verified = True, vr_artifact_verified = True,
      vr_database_verified = (if against_db then Some True else None), vr_database_drift = False, vr_issues = []\<rparr>"
  using assms by (simp add: verify_def snapshot_tx_def begin_transaction_def verification_lookup_def del: u_Cons)

lemma build_checks:
  assumes "snapshot_inv (w_snapshots world)" and request: "validate_snapshot_request (doc_request doc)"
    and build: "build env doc output_dir world = (Inr r, world')" and new: "\<not> br_idempotent_replay r"
    and dir: "list_all plain_name output_dir" "\<not> drive_like output_dir"
    and env: "hex_digests env" "\<forall>t. below 1114112 (pd_json_datetime env t)"
    and specs: "\<forall>c \<in> set (rq_components (doc_request doc)). pd_spec env (spec_dump env c) = Some c \<and> below 1114112 (cs_component_key c)"
    and bars: "bigint_series (w_bars world)" and up: "\<not> snapshot_outage env DriftTx"
    and cs: "cs = (\<lambda>s. list_components (text_order env) (sr_data_snapshot_id s) (w_snapshots world'))"
  obtains s where "get_snapshot_by_code (rq_snapshot_code (doc_request doc)) (w_snapshots world') = Some s" "sr_status s = FROZEN"
    "verify_artifacts env (w_files world') s (cs s) = Inr []" "verify_database env (w_bars world') s (cs s) = Inr []"
proof -
  define d where "d = output_dir @ [rq_snapshot_code (doc_request doc)]"
  obtain rs s digest where pub: "published_at env doc (w_bars world) d (w_files world') rs digest"
    and fr: "frozen_as env doc d (w_snapshots world') s rs digest" and inv: "snapshot_inv (w_snapshots world')"
    and code: "validate_snapshot_code (rq_snapshot_code (doc_request doc)) = Inr (rq_snapshot_code (doc_request doc))"
    and res: "build_result s (map (with_uri d) rs) False = Inr r" and counts: "list_all (\<lambda>c. in_bigint (cr_row_count c)) rs"
    and same: "w_bars world' = w_bars world"
    using assms(1) build new env(1) d_def by (rule build_freezes)
  have s: "get_snapshot_by_code (rq_snapshot_code (doc_request doc)) (w_snapshots world') = Some s" "sr_status s = FROZEN"
    using fr get_snapshot_by_code_Some [OF inv, of s] by (simp_all add: frozen_as_def)
  have "plain_dir d" unfolding d_def by (rule plain_final_directory [OF dir code])
  moreover have "list_all (component_fits env) rs"
    using specs by (intro published_fits [OF pub bars env(1) _ counts]) blast
  moreover have "is_sha256 (specification_sha256 doc)"
    using fr by (intro build_result_specification [OF res]) (simp add: frozen_as_def)
  ultimately have "verify_artifacts env (w_files world') s (cs s) = Inr []"
    by (rule published_verifies [OF pub fr fun_cong [OF cs] request code env])
  moreover have "verify_database env (w_bars world') s (cs s) = Inr []"
    unfolding same using specs by (intro frozen_database_verifies [OF pub fr fun_cong [OF cs] request _ up]) blast
  ultimately show ?thesis
    using s by (intro that)
qed

text \<open>C37. A finished build verifies: whatever the bars and the specification are, once \<open>build\<close> returns a frozen snapshot, verifying
  its code right away finds no issue, neither in the files nor, when asked for, against the database.\<close>

theorem finished_build_verifies:
  assumes "snapshot_inv (w_snapshots world)" and request: "validate_snapshot_request (doc_request doc)"
    and build: "build env doc output_dir world = (Inr r, world')" and new: "\<not> br_idempotent_replay r"
    and dir: "list_all plain_name output_dir" "\<not> drive_like output_dir"
    and env: "hex_digests env" "\<forall>t. below 1114112 (pd_json_datetime env t)"
    and specs: "\<forall>c \<in> set (rq_components (doc_request doc)). pd_spec env (spec_dump env c) = Some c \<and> below 1114112 (cs_component_key c)"
    and bars: "bigint_series (w_bars world)" and up: "\<not> snapshot_outage env VerifyTx" "\<not> snapshot_outage env DriftTx"
  shows "verify env (rq_snapshot_code (doc_request doc)) against_db world' =
    Inr \<lparr>vr_snapshot_code = rq_snapshot_code (doc_request doc), vr_verified = True, vr_artifact_verified = True,
      vr_database_verified = (if against_db then Some True else None), vr_database_drift = False, vr_issues = []\<rparr>"
proof -
  obtain s where "get_snapshot_by_code (rq_snapshot_code (doc_request doc)) (w_snapshots world') = Some s" "sr_status s = FROZEN"
    "verify_artifacts env (w_files world') s (list_components (text_order env) (sr_data_snapshot_id s) (w_snapshots world')) = Inr []"
    "verify_database env (w_bars world') s (list_components (text_order env) (sr_data_snapshot_id s) (w_snapshots world')) = Inr []"
    using build_checks [OF assms(1-10) up(2) refl] by blast
  then show ?thesis using up(1) by (intro verify_clean)
qed

end
