(* ===== verification/Snapshot_Lifecycle.thy ===== *)
theory Snapshot_Lifecycle
  imports Snapshot_Safety
begin

text \<open>
  The life of a snapshot: every call of \<^verbatim>\<open>build\<close> is a sequence of repository steps; a failed one leaves no artifact
  behind and marks its row; a finished one is replayed when it is asked for again, and for as long as it verifies
  the backtest reads from it exactly the revisions that were eligible when it was built.
\<close>

subsection \<open>A build is a sequence of repository steps\<close>

lemma snapshot_tx_steps:
  assumes "\<And>t' a. body t = Inr (t', a) \<Longrightarrow> snapshot_step\<^sup>*\<^sup>* t t'"
  shows "snapshot_step\<^sup>*\<^sup>* t (snd (snapshot_tx env st ''READ COMMITTED'' False body t))"
  using assms by (auto simp: snapshot_tx_def begin_transaction_def split: sum.split prod.split)

lemma create_body_steps: "create_body env doc t = Inr (t', x) \<Longrightarrow> snapshot_step\<^sup>*\<^sup>* t t'"
  by (auto simp: create_body_def Let_def rbind_Inr_iff intro: step_create r_into_rtranclp split: option.splits)

lemma freeze_body_steps: "freeze_body env doc i cs m t = Inr (t', s) \<Longrightarrow> snapshot_step\<^sup>*\<^sup>* t t'"
  by (auto simp: freeze_body_def rbind_Inr_iff dest!: step_insert step_freeze)

lemma mark_build_failed_steps: "snapshot_step\<^sup>*\<^sup>* t (mark_build_failed env doc i e t)"
  unfolding mark_build_failed_def by (rule snapshot_tx_steps) (auto simp: rbind_Inr_iff intro: step_fail r_into_rtranclp)

lemma fail_build_steps: "snapshot_step\<^sup>*\<^sup>* (w_snapshots world) (w_snapshots (snd (fail_build env doc i e p w world)))"
  using mark_build_failed_steps by (auto simp: fail_build_def split: sum.split prod.split)

lemma build_created_steps: "snapshot_step\<^sup>*\<^sup>* (w_snapshots world) (w_snapshots (snd (build_created env doc w i world)))"
proof -
  obtain x w' fs where x: "build_artifacts env doc (w_bars world) (w, w_files world) = (x, w', fs)"
    by (metis prod.exhaust)
  show ?thesis
  proof (cases x)
    case (Inl e)
    then show ?thesis using fail_build_steps [of "world\<lparr>w_files := fs\<rparr>"] by (simp add: build_created_def x)
  next
    case (Inr a)
    obtain cs m d where a: "a = (cs, m, d)" by (metis prod.exhaust)
    obtain y t where y: "snapshot_tx env FreezeTx ''READ COMMITTED'' False (freeze_body env doc i cs m) (w_snapshots world) = (y, t)"
      by fastforce
    have "snapshot_step\<^sup>*\<^sup>* (w_snapshots world) (snd (snapshot_tx env FreezeTx ''READ COMMITTED'' False (freeze_body env doc i cs m) (w_snapshots world)))"
      by (rule snapshot_tx_steps) (rule freeze_body_steps)
    then have "snapshot_step\<^sup>*\<^sup>* (w_snapshots world) t" by (simp add: y)
    moreover have "snapshot_step\<^sup>*\<^sup>* t (w_snapshots (snd (fail_build env doc i e p w' (world\<lparr>w_files := fs, w_snapshots := t\<rparr>))))" for e p
      using fail_build_steps [of "world\<lparr>w_files := fs, w_snapshots := t\<rparr>"] by simp
    ultimately have "snapshot_step\<^sup>*\<^sup>* (w_snapshots world) (w_snapshots (snd (fail_build env doc i e p w' (world\<lparr>w_files := fs, w_snapshots := t\<rparr>))))" for e p
      by (rule rtranclp_trans)
    then show ?thesis
      using \<open>snapshot_step\<^sup>*\<^sup>* (w_snapshots world) t\<close> by (auto simp: build_created_def x Inr a y split: sum.split)
  qed
qed

lemma build_bars: "w_bars (snd (build env doc output_dir world)) = w_bars world"
proof -
  have f: "w_bars (snd (fail_build env doc i e p w v)) = w_bars v" for i e p w v
    by (simp add: fail_build_def split: sum.split prod.split)
  have "w_bars (snd (build_created env doc w i v)) = w_bars v" for w i v
    using f by (simp add: build_created_def split: sum.split prod.split)
  then show ?thesis by (simp add: build_def split: sum.split prod.split)
qed

lemma build_steps: "snapshot_step\<^sup>*\<^sup>* (w_snapshots world) (w_snapshots (snd (build env doc output_dir world)))"
proof -
  obtain x t where x: "snapshot_tx env CreateTx ''READ COMMITTED'' False (create_body env doc) (w_snapshots world) = (x, t)"
    by fastforce
  have "snapshot_step\<^sup>*\<^sup>* (w_snapshots world) (snd (snapshot_tx env CreateTx ''READ COMMITTED'' False (create_body env doc) (w_snapshots world)))"
    by (rule snapshot_tx_steps) (rule create_body_steps)
  then have t: "snapshot_step\<^sup>*\<^sup>* (w_snapshots world) t" by (simp add: x)
  have "snapshot_step\<^sup>*\<^sup>* t (w_snapshots (snd (build_created env doc w i (world\<lparr>w_snapshots := t\<rparr>))))" for w i
    using build_created_steps [of "world\<lparr>w_snapshots := t\<rparr>"] by simp
  then show ?thesis
    using t rtranclp_trans [of snapshot_step] by (auto simp: build_def x split: sum.split)
qed

text \<open>Whatever happens during a build, failures included, its effect on the snapshot tables is a sequence of the repository's
  operations, so that codes stay unique and finished snapshots stay as they are; the market data is not touched.\<close>

theorem build_refines_steps:
  "snapshot_step\<^sup>*\<^sup>* (w_snapshots world) (w_snapshots (snd (build env doc output_dir world))) \<and>
     w_bars (snd (build env doc output_dir world)) = w_bars world"
  using build_steps build_bars by blast

subsection \<open>A verified snapshot still holds what was frozen\<close>

lemma frozen_as_steps:
  assumes "frozen_as env doc d t s rs digest" and "snapshot_inv t" and "snapshot_step\<^sup>*\<^sup>* t t'"
  shows "frozen_as env doc d t' s rs digest" and "snapshot_inv t'"
  using snapshot_steps_inv [OF assms(3,2)] assms(1) by (auto simp: frozen_as_def snapshots_evolve_def)

lemma check_components_parts:
  "check_components env fs cs mp = ([], m) \<Longrightarrow> c \<in> set cs \<Longrightarrow> fst (check_component env fs c) = []"
  by (induction cs arbitrary: mp) (auto split: prod.splits)

lemma clean_component:
  assumes "fst (check_component env fs c) = []" and "sc_storage_uri c = Some uri" and "file_uri_path (b_cwd env) uri = Some p"
  shows "\<exists>b. fs p = Some (File b) \<and> io_sha256 (b_io env) b = sc_component_sha256 c"
  using assms by (auto simp: check_component_def split: option.splits node.splits if_splits)

lemma verify_artifact_checks:
  assumes "verify env code against_db world = Inr v" and "vr_artifact_verified v"
    and "get_snapshot_by_code code (w_snapshots world) = Some s" and "sr_status s = FROZEN"
    and "c \<in> set (list_components (text_order env) (sr_data_snapshot_id s) (w_snapshots world))"
  shows "fst (check_component env (w_files world) c) = []"
proof -
  let ?cs = "list_components (text_order env) (sr_data_snapshot_id s) (w_snapshots world)"
  have "verify_artifacts env (w_files world) s ?cs = Inr []"
    using assms(1-4)
    by (auto simp: verify_def snapshot_tx_def begin_transaction_def verification_lookup_def rbind_Inr_iff simp del: u_Cons split: if_splits)
  then obtain m where "check_components env (w_files world) ?cs None = ([], m)"
    by (auto simp: verify_artifacts_def found_issue_def rbind_Inr_iff split: option.splits prod.splits node.splits if_splits)
  then show ?thesis using assms(5) by (rule check_components_parts)
qed

text \<open>No other file content has the digest of a component that was frozen.\<close>

definition no_second_preimage :: "builder_env \<Rightarrow> snapshot_build_request \<Rightarrow> bar_tables \<Rightarrow> bool" where
  "no_second_preimage env rq bars \<longleftrightarrow>
     (\<forall>c \<in> set (rq_components rq). \<forall>payload b. component_bytes (rq_availability_mode rq) (eligible_rows rq c bars) = Inr payload \<longrightarrow>
        io_sha256 (b_io env) b = io_sha256 (b_io env) payload \<longrightarrow> b = payload)"

lemma component_at_uri:
  assumes "component_at env rq bars d fs k c r" and "hex_digests env" and "plain_dir d"
  obtains p payload where "\<forall>cwd. file_uri_path cwd (cr_storage_uri (with_uri d r)) = Some p"
    "component_bytes (rq_availability_mode rq) (eligible_rows rq c bars) = Inr payload"
    "cr_component_sha256 r = io_sha256 (b_io env) payload" "cr_bar_series_id r = cs_bar_series_id c" "fs p = Some (File payload)"
proof -
  obtain w feed rel payload where rel: "component_relative_path (io_sha256 (b_io env)) k (cs_component_key c) = Inr rel"
    and payload: "component_bytes (rq_availability_mode rq) (eligible_rows rq c bars) = Inr payload" "fs (d @ rel) = Some (File payload)"
    and r: "r = component_result w c feed (eligible_rows rq c bars)
              \<lparr>relative_path = rel, wa_sha256 = io_sha256 (b_io env) payload, byte_count = length payload\<rparr>"
    using assms(1) unfolding component_at_def by blast
  note plain = plain_component_path [OF rel] assms(2) [unfolded hex_digests_def]
  have "split_on 47 (join [47] rel) = rel"
    using plain by (intro split_on_join) (auto simp: plain_name_def list_all_iff)
  then have uri: "cr_storage_uri (with_uri d r) = as_uri (d @ rel)"
    by (simp add: with_uri_def r component_result_def)
  have "file_uri_path cwd (as_uri (d @ rel)) = Some (d @ rel)" for cwd
    using plain assms(3) by (intro plain_dir_uri plain_dir_append) auto
  moreover have "cr_component_sha256 r = io_sha256 (b_io env) payload" "cr_bar_series_id r = cs_bar_series_id c"
    by (simp_all add: r component_result_def)
  ultimately show ?thesis
    using payload by (intro that [of "d @ rel" payload]) (simp_all add: uri)
qed

text \<open>C6. Tampering is noticed: take a snapshot that was built, any later state of its tables, of the market data and of the files
  in which it still verifies. Then every component that had rows loads as the backtest's bars exactly as frozen: the
  revisions that were eligible at the time of the build, unless someone found other bytes with the same digest.\<close>

theorem verified_snapshot_is_unchanged:
  assumes "snapshot_inv (w_snapshots world)" and "bar_inv (w_bars world)"
    and build: "build env doc output_dir world = (Inr r, world')" and new: "\<not> br_idempotent_replay r"
    and dir: "list_all plain_name output_dir" "\<not> drive_like output_dir" and env: "hex_digests env"
    and later: "snapshot_step\<^sup>*\<^sup>* (w_snapshots world') (w_snapshots world'')"
    and verified: "verify env (rq_snapshot_code (doc_request doc)) against_db world'' = Inr v" "vr_artifact_verified v"
    and digests: "no_second_preimage env (doc_request doc) (w_bars world)"
    and reader: "reads_canonical reader" "\<forall>x \<in> set (revisions (w_bars world)). row_in_range x"
  shows "\<forall>c \<in> set (br_components r). \<exists>spec \<in> set (rq_components (doc_request doc)).
    cs_component_key spec = cr_component_key c \<and>
    (eligible_rows (doc_request doc) spec (w_bars world) \<noteq> [] \<longrightarrow>
     load_artifact_bars reader (w_files world'') (cr_storage_uri c) (cr_bar_series_id c) =
       Inr (map (frozen_bar reader (rq_availability_mode (doc_request doc))) (eligible_rows (doc_request doc) spec (w_bars world))))"
proof
  let ?rq = "doc_request doc" and ?bars = "w_bars world"
  define d where "d = output_dir @ [rq_snapshot_code ?rq]"
  obtain rs s digest where pub: "published_at env doc ?bars d (w_files world') rs digest"
    and fr: "frozen_as env doc d (w_snapshots world') s rs digest" and inv: "snapshot_inv (w_snapshots world')"
    and code: "validate_snapshot_code (rq_snapshot_code ?rq) = Inr (rq_snapshot_code ?rq)"
    and res: "build_result s (map (with_uri d) rs) False = Inr r"
    using assms(1) build new env d_def by (rule build_freezes)
  note now = frozen_as_steps [OF fr inv later]
  have s: "get_snapshot_by_code (rq_snapshot_code ?rq) (w_snapshots world'') = Some s" "sr_status s = FROZEN"
    using now get_snapshot_by_code_Some [OF now(2), of s] by (simp_all add: frozen_as_def)
  have plain: "plain_dir d" unfolding d_def by (rule plain_final_directory [OF dir code])
  fix c assume "c \<in> set (br_components r)"
  then obtain q where q: "q \<in> set rs" "c = with_uri d q"
    using res by (auto simp: build_result_def split: option.splits json.splits if_splits prod.splits)
  obtain spec k where spec: "spec \<in> set (rq_components ?rq)" "component_at env ?rq ?bars d (w_files world') k spec q"
    using pub q(1) by (rule published_row)
  obtain p payload where p: "\<forall>cwd. file_uri_path cwd (cr_storage_uri c) = Some p"
    "component_bytes (rq_availability_mode ?rq) (eligible_rows ?rq spec ?bars) = Inr payload"
    "cr_component_sha256 q = io_sha256 (b_io env) payload" "cr_bar_series_id q = cs_bar_series_id spec" "w_files world' p = Some (File payload)"
    unfolding q(2) using spec(2) env plain by (rule component_at_uri)
  let ?row = "row_of_component (sr_data_snapshot_id s) c"
  have "?row \<in> set (list_components (text_order env) (sr_data_snapshot_id s) (w_snapshots world''))"
    using frozen_rows [OF now(1), of "text_order env"] q by auto
  then have "fst (check_component env (w_files world'') ?row) = []"
    by (rule verify_artifact_checks [OF verified s])
  moreover have "sc_storage_uri ?row = Some (cr_storage_uri c)" by (simp add: row_of_component_def)
  ultimately obtain b where "w_files world'' p = Some (File b)" "io_sha256 (b_io env) b = sc_component_sha256 ?row"
    using clean_component p(1) by blast
  moreover have "sc_component_sha256 ?row = io_sha256 (b_io env) payload"
    by (simp add: row_of_component_def q(2) with_uri_def p(3))
  ultimately have file_now: "w_files world'' p = Some (File payload)"
    using digests spec(1) p(2) unfolding no_second_preimage_def by metis
  have "cs_component_key spec = cr_component_key c" "cr_bar_series_id c = cs_bar_series_id spec"
    using spec(2) p(4) by (auto simp: component_at_def component_result_def q(2) with_uri_def)
  moreover have "\<forall>x \<in> set (eligible_rows ?rq spec ?bars). row_in_range x"
    using reader(2) by (auto simp: eligible_rows_def eligible_revisions_def)
  ultimately show "\<exists>spec \<in> set (rq_components ?rq). cs_component_key spec = cr_component_key c \<and>
    (eligible_rows ?rq spec ?bars \<noteq> [] \<longrightarrow> load_artifact_bars reader (w_files world'') (cr_storage_uri c) (cr_bar_series_id c) =
       Inr (map (frozen_bar reader (rq_availability_mode ?rq)) (eligible_rows ?rq spec ?bars)))"
    using spec(1) load_eligible [where fs = "w_files world''" and p = p, OF assms(2) reader(1) _ _ p(1) [rule_format] file_now,
        of "cs_bar_series_id spec" "cs_event_from spec" "cs_event_to spec" "rq_knowledge_cutoff_ts ?rq" "rq_availability_mode ?rq"] p(2)
    by (auto simp: eligible_rows_def intro!: bexI [of _ spec])
qed

subsection \<open>Asking again\<close>

lemma get_of_frozen:
  assumes "frozen_as env doc d t s rs digest" and "snapshot_inv t"
  shows "get_snapshot_by_code (rq_snapshot_code (doc_request doc)) t = Some s"
  using get_snapshot_by_code_Some [OF assms(2), of s] assms(1) by (simp add: frozen_as_def)

lemma frozen_specification:
  "frozen_as env doc d t s rs digest \<Longrightarrow> dict_get (sr_metadata s) (u ''specification_sha256'') = Some (JStr (specification_sha256 doc))"
  by (simp add: frozen_as_def completed_lookup del: u_Cons)

lemma stored_components_frozen:
  assumes "frozen_as env doc d t s rs digest"
    and "\<forall>c \<in> set (map (with_uri d) rs). pd_component env' (JObj (component_dump env c)) = Some c"
  shows "stored_components env' s = Inr (map (with_uri d) rs)"
proof -
  have md: "dict_get (sr_metadata s) (u ''components'') = Some (JList (map (\<lambda>c. JObj (component_dump env c)) (map (with_uri d) rs)))"
    using assms(1) by (simp add: frozen_as_def completed_lookup del: u_Cons)
  have "map_result (\<lambda>i. case pd_component env' i of None \<Rightarrow> Inl (AppValueError ''ValidationError'') | Some c \<Rightarrow> Inr c)
      (filter (\<lambda>i. case i of JObj _ \<Rightarrow> True | _ \<Rightarrow> False) (map (\<lambda>c. JObj (component_dump env c)) cs)) = Inr cs"
    if "\<forall>c \<in> set cs. pd_component env' (JObj (component_dump env c)) = Some c" for cs
    using that by (induction cs) simp_all
  from this [OF assms(2)] show ?thesis
    unfolding stored_components_def md option.case json.case .
qed

lemma build_result_flag: "build_result s cs b = Inr r \<Longrightarrow> build_result s cs b' = Inr (r\<lparr>br_idempotent_replay := b'\<rparr>)"
  by (auto simp: build_result_def split: option.splits json.splits if_splits)

text \<open>Building is idempotent: as long as a finished snapshot is in the tables, building the same specification under its code
  again, in whatever directory and whatever the market data and files have become, returns the first result marked as a
  replay and changes nothing; another specification under the code is refused, and changes nothing either.\<close>

theorem finished_build_is_replayed:
  assumes "snapshot_inv (w_snapshots world)" and "build env doc output_dir world = (Inr r, world')" and "\<not> br_idempotent_replay r"
    and "hex_digests env" and later: "snapshot_step\<^sup>*\<^sup>* (w_snapshots world') (w_snapshots world'')"
    and stored: "\<forall>c \<in> set (br_components r). pd_component env' (JObj (component_dump env c)) = Some c"
    and up: "\<not> snapshot_outage env' CreateTx" and same: "rq_snapshot_code (doc_request doc') = rq_snapshot_code (doc_request doc)"
  shows "build env' doc' output_dir' world'' =
    (if specification_sha256 doc' = specification_sha256 doc then Inr (r\<lparr>br_idempotent_replay := True\<rparr>)
     else Inl (SnapshotConflictError ''Snapshot code is already frozen for another specification.''), world'')"
proof -
  define d where "d = output_dir @ [rq_snapshot_code (doc_request doc)]"
  obtain rs s digest where fr: "frozen_as env doc d (w_snapshots world') s rs digest" and inv: "snapshot_inv (w_snapshots world')"
    and res: "build_result s (map (with_uri d) rs) False = Inr r"
    using assms(1-4) d_def by (rule build_freezes)
  note now = frozen_as_steps [OF fr inv later]
  have found: "get_snapshot_by_code (rq_snapshot_code (doc_request doc')) (w_snapshots world'') = Some s"
    unfolding same by (rule get_of_frozen [OF now])
  have "br_components r = map (with_uri d) rs"
    using res by (auto simp: build_result_def split: option.splits json.splits if_splits)
  then have "stored_components env' s = Inr (map (with_uri d) rs)"
    using stored by (intro stored_components_frozen [OF now(1)]) simp
  then have "resolve_existing env' s doc' =
      (if specification_sha256 doc' = specification_sha256 doc then Inr (r\<lparr>br_idempotent_replay := True\<rparr>)
       else Inl (SnapshotConflictError ''Snapshot code is already frozen for another specification.''))"
    using now(1) frozen_specification [OF now(1)] build_result_flag [OF res, of True]
    by (simp add: resolve_existing_def frozen_as_def del: u_Cons)
  then have "create_body env' doc' (w_snapshots world'') =
      (if specification_sha256 doc' = specification_sha256 doc then Inr (w_snapshots world'', Inl (r\<lparr>br_idempotent_replay := True\<rparr>))
       else Inl (SnapshotConflictError ''Snapshot code is already frozen for another specification.''))"
    by (simp add: create_body_def Let_def found)
  then show ?thesis
    using up by (simp add: build_def snapshot_tx_def begin_transaction_def del: u_Cons)
qed

subsection \<open>A build that fails\<close>

definition no_new :: "files \<Rightarrow> files \<Rightarrow> bool" where
  "no_new fs0 fs \<longleftrightarrow> (\<forall>p b. fs p = Some (File b) \<longrightarrow> fs0 p = Some (File b))"

definition staged :: "files \<Rightarrow> artifact_writer \<Rightarrow> files \<Rightarrow> bool" where
  "staged fs0 w fs \<longleftrightarrow>
     (case staging_directory w of
        None \<Rightarrow> no_new fs0 fs
      | Some d \<Rightarrow> (\<forall>p b. fs p = Some (File b) \<longrightarrow> prefix_of d p \<or> fs0 p = Some (File b)) \<and> (fs d = None \<longrightarrow> no_new fs0 fs))"

text \<open>An operation that adds files only below the staging directory.\<close>

definition keeps_staged :: "'a io \<Rightarrow> bool" where
  "keeps_staged m \<longleftrightarrow> (\<forall>fs0 w fs x w' fs'. m (w, fs) = (x, w', fs') \<longrightarrow> staged fs0 w fs \<longrightarrow> staged fs0 w' fs')"

lemma keeps_staged_return: "keeps_staged (io_return a)"
  by (simp add: keeps_staged_def io_return_def)

lemma keeps_staged_bind:
  assumes "keeps_staged m" and "\<And>a. keeps_staged (k a)"
  shows "keeps_staged (io_bind m k)"
  using assms unfolding keeps_staged_def io_bind_def by (fastforce split: prod.splits sum.splits)

lemma keeps_staged_case:
  assumes "\<And>e. keeps_staged (f e)" and "\<And>a. keeps_staged (g a)"
  shows "keeps_staged (\<lambda>st. case r of Inl e \<Rightarrow> f e st | Inr a \<Rightarrow> g a st)"
  using assms by (cases r) simp_all

lemma keeps_staged_fail: "keeps_staged (\<lambda>st. (Inl e, st))"
  by (simp add: keeps_staged_def)

lemma make_dirs_no_new: "make_dirs d fs = Some fs' \<Longrightarrow> fs' p = Some (File b) \<Longrightarrow> fs p = Some (File b)"
  by (auto simp: make_dirs_def split: if_splits)

lemma make_dirs_keeps: "make_dirs d fs = Some fs' \<Longrightarrow> fs p \<noteq> None \<Longrightarrow> fs' p \<noteq> None"
  by (auto simp: make_dirs_def split: if_splits)

lemma make_dirs_prefix: "make_dirs (d @ e) fs = Some fs' \<Longrightarrow> fs' d \<noteq> None"
  by (auto simp: make_dirs_def split: if_splits)

lemma keeps_staged_ensure: "keeps_staged (ensure_staging io)"
  unfolding keeps_staged_def
proof (intro allI impI)
  fix fs0 w fs x w' fs'
  assume run: "ensure_staging io (w, fs) = (x, w', fs')" and st: "staged fs0 w fs"
  show "staged fs0 w' fs'"
  proof (cases "staging_directory w")
    case None
    then have "no_new fs0 fs" using st by (simp add: staged_def)
    then show ?thesis
      using run None make_dirs_no_new
      by (auto simp: ensure_staging_def Let_def staged_def no_new_def split: option.splits if_splits)
  qed (use run st in \<open>auto simp: ensure_staging_def\<close>)
qed

lemma keeps_staged_write: "rel \<noteq> [] \<Longrightarrow> keeps_staged (write_bytes io rel payload)"
  unfolding keeps_staged_def
proof (intro allI impI)
  fix fs0 w fs x w' fs'
  assume rel: "rel \<noteq> []" and run: "write_bytes io rel payload (w, fs) = (x, w', fs')" and st: "staged fs0 w fs"
  obtain y w1 fs1 where e: "ensure_staging io (w, fs) = (y, w1, fs1)" by (metis prod.exhaust)
  have st1: "staged fs0 w1 fs1" using keeps_staged_ensure e st unfolding keeps_staged_def by blast
  show "staged fs0 w' fs'"
  proof (cases y)
    case (Inr d)
    note d = ensure_staging_Inr [OF e [unfolded Inr]]
    have w1: "staging_directory w1 = Some d" using d(2) by simp
    show ?thesis
    proof (cases "if io_fails io (MakeParent (d @ rel)) then None else make_dirs (butlast (d @ rel)) fs1")
      case None
      then show ?thesis using run st1 e Inr by (auto simp: write_bytes_def io_bind_def)
    next
      case (Some fs2)
      then have m: "make_dirs (d @ butlast rel) fs1 = Some fs2" using rel by (simp add: butlast_append split: if_splits)
      have old: "prefix_of d p \<or> fs0 p = Some (File b)" if "fs2 p = Some (File b)" for p b
        using make_dirs_no_new [OF m that] st1 w1 by (auto simp: staged_def)
      have "fs2 d \<noteq> None" by (rule make_dirs_prefix [OF m])
      then show ?thesis
        using run e Inr Some old w1 rel by (auto simp: write_bytes_def io_bind_def staged_def split: if_splits) blast+
    qed
  qed (use run st1 e in \<open>auto simp: write_bytes_def io_bind_def\<close>)
qed

lemma keeps_staged_component: "keeps_staged (build_component env rq bars k c)"
proof -
  have "keeps_staged (write_component (b_io env) k (cs_component_key c) payload)" for payload
    unfolding write_component_def
  proof (cases "component_relative_path (io_sha256 (b_io env)) k (cs_component_key c)")
    case (Inr rel)
    then have "rel \<noteq> []" by (auto simp: component_relative_path_def split: if_splits sum.splits)
    then show "keeps_staged (\<lambda>s. case component_relative_path (io_sha256 (b_io env)) k (cs_component_key c) of
        Inl e \<Rightarrow> (Inl e, s) | Inr rel \<Rightarrow> write_bytes (b_io env) rel payload s)"
      using keeps_staged_write by (simp add: Inr)
  qed (simp add: keeps_staged_fail)
  then have "keeps_staged (io_bind (write_component (b_io env) k (cs_component_key c) payload) (\<lambda>a (w, fs).
      if is_sha256 (wa_sha256 a) then (Inr (component_result w c feed rows a), w, fs) else (Inl (AppValueError ''ValidationError''), w, fs)))"
    for payload feed rows
    by (rule keeps_staged_bind) (auto simp: keeps_staged_def)
  then show ?thesis
    unfolding build_component_def Let_def
    by (cases "resolve_series (adjustment_cutoffs env) (cs_bar_series_id c) (rq_knowledge_cutoff_ts rq) bars";
        cases "component_bytes (rq_availability_mode rq) (eligible_rows rq c bars)"; cases "cs_allow_empty c";
        cases "eligible_rows rq c bars = []") (simp_all add: keeps_staged_fail)
qed

lemma keeps_staged_components: "keeps_staged (build_components env rq bars k cs)"
  by (induction cs arbitrary: k)
    (simp_all add: keeps_staged_return keeps_staged_bind keeps_staged_component)

lemma keeps_staged_manifest: "keeps_staged (write_manifest io v)"
proof (cases "canonical_json_bytes v")
  case (Inr b)
  then show ?thesis using keeps_staged_write [of manifest_name] by (simp add: write_manifest_def manifest_name_def)
qed (simp add: write_manifest_def keeps_staged_fail)

lemma failed_publish:
  assumes "publish io (w, fs) = (Inl e, w', fs')" and "staged fs0 w fs"
  shows "staged fs0 w' fs'"
proof -
  obtain y w1 fs1 where e: "ensure_staging io (w, fs) = (y, w1, fs1)" by (metis prod.exhaust)
  then have "staged fs0 w1 fs1" using keeps_staged_ensure assms(2) unfolding keeps_staged_def by blast
  then show ?thesis
    using assms(1) e by (cases y) (auto simp: publish_def io_bind_def split: if_splits)
qed

lemma failed_artifacts:
  assumes "build_artifacts env doc bars (w, fs) = (Inl e, w', fs')" and "staged fs0 w fs"
  shows "staged fs0 w' fs'"
proof (cases "snapshot_outage env ReadTx")
  case False
  let ?specs = "sort_key cs_component_key (rq_components (doc_request doc))"
  obtain x w1 fs1 where x: "build_components env (doc_request doc) bars 1 ?specs (w, fs) = (x, w1, fs1)" by (metis prod.exhaust)
  have s1: "staged fs0 w1 fs1" using keeps_staged_components x assms(2) unfolding keeps_staged_def by blast
  show ?thesis
  proof (cases x)
    case (Inr rs)
    obtain y w2 fs2 where y: "write_manifest (b_io env) (manifest_payload env doc rs) (w1, fs1) = (y, w2, fs2)" by (metis prod.exhaust)
    have s2: "staged fs0 w2 fs2" using keeps_staged_manifest y s1 unfolding keeps_staged_def by blast
    show ?thesis
    proof (cases y)
      case (Inr m)
      obtain z w3 fs3 where z: "publish (b_io env) (w2, fs2) = (z, w3, fs3)" by (metis prod.exhaust)
      then have "z = Inl e" "w3 = w'" "fs3 = fs'"
        using assms(1) False x y \<open>x = Inr rs\<close> Inr by (auto simp: build_artifacts_def io_bind_def io_return_def split: sum.splits)
      then show ?thesis using failed_publish z s2 by blast
    qed (use assms(1) False x y \<open>x = Inr rs\<close> s2 in \<open>auto simp: build_artifacts_def io_bind_def\<close>)
  qed (use assms(1) False x s1 in \<open>auto simp: build_artifacts_def io_bind_def\<close>)
qed (use assms in \<open>simp add: build_artifacts_def\<close>)

lemma cleanup_staged:
  assumes "staged fs0 w fs" and "\<not> io_fails io RemoveStaging"
  shows "\<exists>w' fs'. cleanup_incomplete io (w, fs) = (Inr (), w', fs') \<and> no_new fs0 fs'"
  using assms by (auto simp: cleanup_incomplete_def staged_def no_new_def remove_tree_def split: option.splits)

text \<open>The row of a failed build.\<close>

definition failed_row :: "pystr \<Rightarrow> snapshot_tables \<Rightarrow> bool" where
  "failed_row code t \<longleftrightarrow> (\<exists>s. get_snapshot_by_code code t = Some s \<and> sr_status s = SNAPSHOT_FAILED \<and> components_of (sr_data_snapshot_id s) t = [])"

lemma mark_build_failed_row:
  assumes inv: "snapshot_inv t" and s: "get_snapshot_by_id i t = Some s" "sr_status s = BUILDING" "components_of i t = []"
    and up: "\<not> snapshot_outage env FailTx" and json: "jsonb_ok (JObj (building_metadata env doc))" "\<forall>e. jsonb_text_ok (exception_name env e)"
  shows "failed_row (sr_snapshot_code s) (mark_build_failed env doc i e t)"
proof -
  let ?md = "building_metadata env doc @ [(u ''failure'', JObj [(u ''code'', JStr (exception_name env e))])]"
  let ?s' = "s\<lparr>sr_status := SNAPSHOT_FAILED, sr_metadata := ?md\<rparr>"
  have "jsonb_ok (JObj ?md)"
    using json by (simp add: jsonb_text_ok_def encodable_def)
  then have m: "mark_snapshot_failed i ?md t = Inr (update_snapshot i ?s' t)"
    using s by (simp add: mark_snapshot_failed_def)
  then have t': "mark_build_failed env doc i e t = update_snapshot i ?s' t"
    using up by (simp add: mark_build_failed_def snapshot_tx_def begin_transaction_def del: u_Cons)
  have "snapshot_inv (update_snapshot i ?s' t)"
    using snapshot_step_inv(1) [OF inv step_fail [OF m]] .
  moreover have "s \<in> set (snapshots t)" "sr_data_snapshot_id s = i"
    using get_snapshot_by_id_Some [OF s(1)] by auto
  then have "?s' \<in> set (snapshots (update_snapshot i ?s' t))"
    by (force simp: update_snapshot_def)
  ultimately have "get_snapshot_by_code (sr_snapshot_code s) (update_snapshot i ?s' t) = Some ?s'"
    using get_snapshot_by_code_Some [of "update_snapshot i ?s' t" ?s'] by simp
  then show ?thesis
    using s(3) \<open>sr_data_snapshot_id s = i\<close> by (auto simp: failed_row_def t' components_of_def update_snapshot_def)
qed

lemma create_metadata: "create_body env doc t = Inr (t', Inr s) \<Longrightarrow> jsonb_ok (JObj (building_metadata env doc))"
  by (drule create_body_Inr(1)) (simp add: create_building_def Let_def split: if_splits)

lemma fail_build_records:
  assumes row: "snapshot_inv (w_snapshots v)" "get_snapshot_by_id i (w_snapshots v) = Some s" "sr_status s = BUILDING" "components_of i (w_snapshots v) = []"
    and env: "\<not> snapshot_outage env FailTx" "jsonb_ok (JObj (building_metadata env doc))" "\<forall>e. jsonb_text_ok (exception_name env e)"
    and clean: "\<not> io_fails (b_io env) RemoveStaging" and st: "p \<or> staged fs0 w (w_files v)"
  shows "\<exists>world'. fail_build env doc i e p w v = (Inl (raised e), world') \<and> failed_row (sr_snapshot_code s) (w_snapshots world') \<and>
    (if p then w_files world' = w_files v else no_new fs0 (w_files world'))"
proof -
  have r: "failed_row (sr_snapshot_code s) (mark_build_failed env doc i e (w_snapshots v))"
    by (rule mark_build_failed_row [OF row env])
  show ?thesis
  proof (cases p)
    case False
    then obtain w' fs' where "cleanup_incomplete (b_io env) (w, w_files v) = (Inr (), w', fs')" "no_new fs0 fs'"
      using st cleanup_staged [OF _ clean] by blast
    then show ?thesis using r False by (simp add: fail_build_def)
  qed (simp add: fail_build_def r)
qed

lemma build_result_frozen:
  assumes "sr_metadata s = completed_metadata env doc all" and "is_sha256 (source_manifest_sha256 doc)" and "is_sha256 (specification_sha256 doc)"
    and "sr_manifest_sha256 s = Some m" and "is_sha256 m"
  shows "\<exists>r. build_result s cs replay = Inr r"
  using assms by (simp add: build_result_def completed_lookup del: u_Cons)

text \<open>
  The state a failed build leaves, after its first transaction gave the tables \<open>t\<close> with the row \<open>i\<close>: the row has failed
  and a build error is raised. Unless the artifacts could be published there is no new file; otherwise
  the final transaction is what failed, and the published directory stays, complete.
\<close>

definition build_failed ::
  "builder_env \<Rightarrow> snapshot_manifest_document \<Rightarrow> artifact_writer \<Rightarrow> int \<Rightarrow> snapshot_tables \<Rightarrow> snapshot_world \<Rightarrow> app_error \<Rightarrow> snapshot_world \<Rightarrow> bool" where
  "build_failed env doc writer i t world e world' \<longleftrightarrow>
     (\<exists>m. e = SnapshotBuildError m \<or> e = SnapshotArtifactError m) \<and>
     failed_row (rq_snapshot_code (doc_request doc)) (w_snapshots world') \<and>
     (case fst (build_artifacts env doc (w_bars world) (writer, w_files world)) of
        Inl e' \<Rightarrow> e = raised e' \<and> no_new (w_files world) (w_files world')
      | Inr (cs, m, d) \<Rightarrow>
          (\<exists>e' t'. snapshot_tx env FreezeTx ''READ COMMITTED'' False (freeze_body env doc i cs m) t = (Inl e', t') \<and> e = raised e') \<and>
          d = final_directory writer \<and>
          (\<exists>rs. cs = map (with_uri d) rs \<and> published_at env doc (w_bars world) d (w_files world') rs (wa_sha256 m)))"

lemma raised_error: "\<exists>m. raised e = SnapshotBuildError m \<or> raised e = SnapshotArtifactError m"
  by (cases e) (auto simp: raised_def)

lemma build_created_fails:
  assumes row: "snapshot_inv (w_snapshots v)" "get_snapshot_by_id i (w_snapshots v) = Some s" "sr_status s = BUILDING" "components_of i (w_snapshots v) = []"
    and env: "\<not> snapshot_outage env FailTx" "jsonb_ok (JObj (building_metadata env doc))" "\<forall>e. jsonb_text_ok (exception_name env e)"
    and clean: "\<not> io_fails (b_io env) RemoveStaging" and code: "sr_snapshot_code s = rq_snapshot_code (doc_request doc)"
    and hex: "hex_digests env" "is_sha256 (source_manifest_sha256 doc)" "is_sha256 (specification_sha256 doc)"
    and fails: "build_created env doc w i v = (Inl e, world')" and w: "staging_directory w = None"
  shows "build_failed env doc w i (w_snapshots v) v e world'"
proof -
  obtain x w' fs where x: "build_artifacts env doc (w_bars v) (w, w_files v) = (x, w', fs)" by (metis prod.exhaust)
  note records = fail_build_records [OF _ _ row(3) _ env clean]
  show ?thesis
  proof (cases x)
    case (Inl e')
    have "staged (w_files v) w' fs"
      using failed_artifacts [OF x [unfolded Inl], of "w_files v"] w by (simp add: staged_def no_new_def)
    then obtain u' where "fail_build env doc i e' False w' (v\<lparr>w_files := fs\<rparr>) = (Inl (raised e'), u')"
      "failed_row (sr_snapshot_code s) (w_snapshots u')" "no_new (w_files v) (w_files u')"
      using records [of "v\<lparr>w_files := fs\<rparr>" i False "w_files v" w' e'] row by auto
    then show ?thesis
      using fails code raised_error [of e'] by (simp add: build_created_def x Inl build_failed_def)
  next
    case (Inr a)
    obtain cs m d where a: "a = (cs, m, d)" by (metis prod.exhaust)
    obtain rs where rs: "d = final_directory w" "published_at env doc (w_bars v) d fs rs (wa_sha256 m)" "cs = map (with_uri d) rs"
      using build_artifacts_Inr [OF x [unfolded Inr a]] unfolding with_uri_def by blast
    obtain y t where y: "snapshot_tx env FreezeTx ''READ COMMITTED'' False (freeze_body env doc i cs m) (w_snapshots v) = (y, t)" by fastforce
    show ?thesis
    proof (cases y)
      case (Inl e')
      have "t = w_snapshots v" by (rule snapshot_tx_Inl [OF y [unfolded Inl]])
      then obtain u' where u': "fail_build env doc i e' True w' (v\<lparr>w_files := fs, w_snapshots := t\<rparr>) = (Inl (raised e'), u')"
        "failed_row (sr_snapshot_code s) (w_snapshots u')" "w_files u' = fs"
        using records [of "v\<lparr>w_files := fs, w_snapshots := t\<rparr>" i True "w_files v" w' e'] row by auto
      have "e = raised e'" "world' = u'"
        using fails by (simp_all add: build_created_def x \<open>x = Inr a\<close> a y Inl u'(1))
      then show ?thesis
        using u'(2,3) code raised_error [of e'] rs y Inl by (auto simp: build_failed_def x \<open>x = Inr a\<close> a)
    next
      case (Inr frozen)
      have sha: "list_all (\<lambda>c. is_sha256 (cr_component_sha256 c)) cs" "is_sha256 (wa_sha256 m)"
        using rs hex(1) by (auto simp: published_at_def with_uri_def list_all_iff hex_digests_def)
      note f = freeze_body_Inr(1) [OF row(1,2,4) snapshot_tx_Inr(1) [OF y [unfolded Inr]] sha]
      obtain r where "build_result frozen cs False = Inr r"
        using build_result_frozen [of frozen env doc cs "wa_sha256 m"] f hex(2,3) sha(2) by auto
      then show ?thesis
        using fails by (simp add: build_created_def x \<open>x = Inr a\<close> a y Inr)
    qed
  qed
qed


end
