(* ===== verification/Snapshot_Example.thy ===== *)
theory Snapshot_Example
  imports Snapshot_Lifecycle
begin

text \<open>
  A small snapshot carried through: one bar series with one revision is built, verified, built again, and built
  against a full disk. The runs discharge the hypotheses of the properties of snapshots at concrete inputs.
\<close>

definition tiny_spec :: snapshot_component_spec where
  "tiny_spec = \<lparr>cs_component_key = u ''k'', cs_kind = BAR_REVISION, cs_bar_series_id = 1, cs_event_from = 0, cs_event_to = 25,
     cs_allow_empty = False\<rparr>"

definition tiny_request :: snapshot_build_request where
  "tiny_request = \<lparr>rq_schema_version = 1, rq_snapshot_code = u ''s'', rq_knowledge_cutoff_ts = 50, rq_availability_mode = PUBLIC_REPLAY,
     rq_components = [tiny_spec]\<rparr>"

definition tiny_payload :: bytes where
  "tiny_payload = dumps (row_json PUBLIC_REPLAY frozen_row) @ [10]"

text \<open>A digest function that tells the payload from everything else.\<close>

definition tiny_sha256 :: "bytes \<Rightarrow> pystr" where
  "tiny_sha256 b = replicate 64 (if b = tiny_payload then 97 else 98)"

definition tiny_document :: snapshot_manifest_document where
  "tiny_document = \<lparr>payload_bytes = [], source_manifest_sha256 = replicate 64 48, doc_request = tiny_request, specification_sha256 = replicate 64 49\<rparr>"

definition tiny_io :: "bool \<Rightarrow> io_env" where
  "tiny_io full = \<lparr>io_fails = (\<lambda>c. full \<and> (\<exists>p. c = WriteFile p)), staging_token = u ''t'', io_sha256 = tiny_sha256\<rparr>"

definition tiny_env :: "bool \<Rightarrow> (json \<Rightarrow> snapshot_component_result option) \<Rightarrow> builder_env" where
  "tiny_env full component = \<lparr>b_io = tiny_io full, b_created_at = 60, b_clock = 70, snapshot_outage = (\<lambda>_. False), pd_json_datetime = str_int,
     pd_component = component, pd_spec = (\<lambda>_. Some tiny_spec), exception_name = (\<lambda>_. u ''Error''), adjustment_cutoffs = (\<lambda>_. None),
     known_feed = (\<lambda>_. True), text_order = id, b_cwd = [], py_repr = (\<lambda>_. u ''?'')\<rparr>"

definition no_component :: "json \<Rightarrow> snapshot_component_result option" where
  "no_component _ = None"

definition tiny_world :: snapshot_world where
  "tiny_world = \<lparr>w_snapshots = empty_snapshots, w_bars = example_bars [frozen_row], w_files = (\<lambda>_. None)\<rparr>"

lemma tiny_selects [simp]:
  "b_io (tiny_env f c) = tiny_io f" "b_created_at (tiny_env f c) = 60" "b_clock (tiny_env f c) = 70" "snapshot_outage (tiny_env f c) st = False"
  "pd_json_datetime (tiny_env f c) = str_int" "pd_component (tiny_env f c) = c" "pd_spec (tiny_env f c) j = Some tiny_spec"
  "exception_name (tiny_env f c) e = u ''Error''" "adjustment_cutoffs (tiny_env f c) = (\<lambda>_. None)" "known_feed (tiny_env f c) = (\<lambda>_. True)"
  "b_cwd (tiny_env f c) = []" "io_sha256 (tiny_io f) = tiny_sha256" "staging_token (tiny_io f) = u ''t''" "\<not> io_fails (tiny_io False) call"
  "io_fails (tiny_io True) (WriteFile p)" "\<not> io_fails (tiny_io f) RemoveStaging" "\<not> io_fails (tiny_io f) MakeRoot"
  "\<not> io_fails (tiny_io f) MakeStaging" "\<not> io_fails (tiny_io f) (MakeParent p)"
  by (simp_all add: tiny_env_def tiny_io_def)

lemma tiny_digests: "is_sha256 (tiny_sha256 b)" "hex_digests (tiny_env f c)"
  by (simp_all add: tiny_sha256_def is_sha256_def hex_digests_def list_all_iff)

lemma tiny_bars: "eligible_rows tiny_request tiny_spec (w_bars tiny_world) = [frozen_row]"
  using frozen_table(3) by (simp add: eligible_rows_def tiny_request_def tiny_spec_def tiny_world_def del: u_Cons)

lemma tiny_bytes: "component_bytes PUBLIC_REPLAY [frozen_row] = Inr tiny_payload"
  by (simp add: component_bytes_lines tiny_payload_def)

definition tiny_writer :: artifact_writer where
  "tiny_writer = \<lparr>writer_code = u ''s'', output_root = [u ''x''], staging_directory = None\<rparr>"

definition tiny_staging :: path where
  "tiny_staging = [u ''x'', u ''.s.staging-t'']"

definition tiny_path :: path where
  "tiny_path = [u ''components'', zero_pad 4 1 @ [45] @ tiny_sha256 (u ''k'') @ u ''.jsonl'']"

lemma tiny_relative: "component_relative_path tiny_sha256 1 (u ''k'') = Inr tiny_path"
  by (simp add: component_relative_path_def utf8_encode_def utf8_char_def tiny_path_def)

lemma tiny_ensure: "ensure_staging (tiny_io f) (tiny_writer, \<lambda>_. None) =
    (Inr tiny_staging, tiny_writer\<lparr>staging_directory := Some tiny_staging\<rparr>, \<lambda>p. if prefix_of p tiny_staging then Some Dir else None)"
proof -
  have p: "prefix_of p tiny_staging \<longleftrightarrow> p = tiny_staging \<or> prefix_of p [u ''x'']" for p
    by (cases p; cases "tl p") (auto simp: prefix_of_def tiny_staging_def)
  have n: "\<not> prefix_of tiny_staging [u ''x'']" by (simp add: prefix_of_def tiny_staging_def)
  have "staging_path (tiny_io f) tiny_writer = tiny_staging"
    by (simp add: staging_path_def tiny_writer_def tiny_staging_def)
  then show ?thesis
    using n by (auto simp: ensure_staging_def Let_def make_dirs_def is_file_def tiny_writer_def p fun_eq_iff)
qed

definition tiny_files :: files where
  "tiny_files = (\<lambda>p. if p = tiny_staging @ tiny_path then Some (File tiny_payload)
     else if prefix_of p (tiny_staging @ [u ''components'']) then Some Dir else None)"

lemma tiny_prefix: "prefix_of p tiny_staging \<longleftrightarrow> p = [] \<or> p = [u ''x''] \<or> p = tiny_staging"
  by (cases p; cases "tl p"; cases "tl (tl p)") (auto simp: prefix_of_def tiny_staging_def)

lemma tiny_prefix_components:
  "prefix_of p (tiny_staging @ [u ''components'']) \<longleftrightarrow> p = [] \<or> p = [u ''x''] \<or> p = tiny_staging \<or> p = tiny_staging @ [u ''components'']"
  unfolding tiny_staging_def append_Cons append_Nil prefix_of_def
  by (cases p; cases "tl p"; cases "tl (tl p)"; cases "tl (tl (tl p))") auto

abbreviation tiny_started :: artifact_writer where
  "tiny_started \<equiv> tiny_writer\<lparr>staging_directory := Some tiny_staging\<rparr>"

lemma tiny_write: "write_bytes (tiny_io False) tiny_path tiny_payload (tiny_writer, \<lambda>_. None) =
    (Inr \<lparr>relative_path = tiny_path, wa_sha256 = tiny_sha256 tiny_payload, byte_count = length tiny_payload\<rparr>, tiny_started, tiny_files)"
proof -
  have "butlast (tiny_staging @ tiny_path) = tiny_staging @ [u ''components'']"
    by (simp add: tiny_path_def butlast_append)
  moreover have "make_dirs (tiny_staging @ [u ''components'']) (\<lambda>p. if prefix_of p tiny_staging then Some Dir else None) =
      Some (\<lambda>p. if prefix_of p (tiny_staging @ [u ''components'']) then Some Dir else None)"
    by (auto simp: make_dirs_def is_file_def tiny_prefix tiny_prefix_components fun_eq_iff simp del: u_Cons)
  moreover have "\<not> prefix_of (tiny_staging @ tiny_path) (tiny_staging @ [u ''components''])"
    by (simp add: tiny_prefix_components del: u_Cons) (simp add: tiny_staging_def tiny_path_def)
  ultimately show ?thesis
    by (auto simp: write_bytes_def io_bind_def tiny_ensure tiny_files_def fun_eq_iff)
qed

lemma tiny_series: "resolve_series (\<lambda>_. None) 1 50 (w_bars tiny_world) = Inr 7"
  by (simp add: resolve_series_def get_series_by_id_def tiny_world_def example_bars_def example_series_def)

definition tiny_result :: snapshot_component_result where
  "tiny_result = component_result tiny_started tiny_spec 7 [frozen_row]
     \<lparr>relative_path = tiny_path, wa_sha256 = tiny_sha256 tiny_payload, byte_count = length tiny_payload\<rparr>"

lemma tiny_components: "build_components (tiny_env False c) tiny_request (w_bars tiny_world) 1 [tiny_spec] (tiny_writer, \<lambda>_. None) =
    (Inr [tiny_result], tiny_started, tiny_files)"
proof -
  have fields: "cs_bar_series_id tiny_spec = 1" "rq_knowledge_cutoff_ts tiny_request = 50" "rq_availability_mode tiny_request = PUBLIC_REPLAY"
    "cs_component_key tiny_spec = u ''k''"
    by (simp_all add: tiny_spec_def tiny_request_def)
  have "build_component (tiny_env False c) tiny_request (w_bars tiny_world) 1 tiny_spec (tiny_writer, \<lambda>_. None) =
      (Inr tiny_result, tiny_started, tiny_files)"
    by (simp add: build_component_def fields tiny_series tiny_bars tiny_bytes write_component_def tiny_relative tiny_write io_bind_def
        tiny_digests(1) tiny_result_def del: u_Cons One_nat_def)
  then show ?thesis by (simp add: io_bind_def io_return_def)
qed

lemma tiny_manifest:
  obtains b where "canonical_json_bytes (manifest_payload (tiny_env f c) tiny_document [tiny_result]) = Inr b"
proof -
  have "encodable (pd_json_datetime (tiny_env f c) t)" for t
    by (simp add: str_int_def encodable_def) (use set_digits in \<open>fastforce\<close>)
  then have "json_encodable (component_json (tiny_env f c) tiny_result)"
    by (simp add: component_json_fields tiny_result_def component_result_def tiny_spec_def kind_value_def tiny_path_def opt_datetime_def
        encodable_join sha256_below [OF tiny_digests(1)] split: option.split)
  then have "json_encodable (JObj (manifest_fields (tiny_env f c) tiny_document [tiny_result]))"
    by (simp add: manifest_fields_def tiny_document_def tiny_request_def mode_value_def) (simp add: encodable_def)
  then show ?thesis
    using that by (auto simp: canonical_json_bytes_def canonicalize_manifest utf8_encode_def encodable_dumps [symmetric] encodable_def)
qed

lemma tiny_write_manifest:
  obtains b where "canonical_json_bytes (manifest_payload (tiny_env False c) tiny_document [tiny_result]) = Inr b"
    "write_manifest (tiny_io False) (manifest_payload (tiny_env False c) tiny_document [tiny_result]) (tiny_started, tiny_files) =
      (Inr \<lparr>relative_path = manifest_name, wa_sha256 = tiny_sha256 b, byte_count = length b\<rparr>, tiny_started, tiny_files(tiny_staging @ manifest_name \<mapsto> File b))"
proof -
  obtain b where b: "canonical_json_bytes (manifest_payload (tiny_env False c) tiny_document [tiny_result]) = Inr b"
    by (rule tiny_manifest)
  have there: "tiny_files p = Some Dir" if "prefix_of p tiny_staging" for p
  proof -
    have "length p \<noteq> length (tiny_staging @ tiny_path)"
      using that unfolding tiny_prefix by (elim disjE) (simp_all add: tiny_staging_def tiny_path_def)
    moreover have "prefix_of p (tiny_staging @ [u ''components''])"
      using that unfolding tiny_prefix tiny_prefix_components by blast
    ultimately show ?thesis by (auto simp: tiny_files_def)
  qed
  have "make_dirs tiny_staging tiny_files = Some tiny_files"
  proof -
    have "prefix_of (take n tiny_staging) tiny_staging" for n
      by (simp add: prefix_of_def min_def)
    then have "\<not> is_file tiny_files (take n tiny_staging)" for n
      using there [of "take n tiny_staging"] by (simp add: is_file_def)
    moreover have "(\<lambda>p. if prefix_of p tiny_staging then Some Dir else tiny_files p) = tiny_files"
      by (rule ext) (simp add: there)
    ultimately show ?thesis by (simp add: make_dirs_def)
  qed
  moreover have "tiny_files (tiny_staging @ manifest_name) \<noteq> Some Dir"
    by (simp add: tiny_files_def tiny_prefix_components manifest_name_def del: u_Cons) (simp add: tiny_staging_def tiny_path_def)
  moreover have "butlast (tiny_staging @ manifest_name) = tiny_staging" by (simp add: manifest_name_def butlast_append)
  ultimately show ?thesis
    using that [OF b] b by (simp add: write_manifest_def write_bytes_def io_bind_def ensure_staging_def)
qed

lemma tiny_artifacts:
  obtains m fs where "build_artifacts (tiny_env False c) tiny_document (w_bars tiny_world) (tiny_writer, \<lambda>_. None) =
    (Inr ([with_uri [u ''x'', u ''s''] tiny_result], m, [u ''x'', u ''s'']), tiny_writer, fs)" "is_sha256 (wa_sha256 m)"
proof -
  obtain b where b: "write_manifest (tiny_io False) (manifest_payload (tiny_env False c) tiny_document [tiny_result]) (tiny_started, tiny_files) =
      (Inr \<lparr>relative_path = manifest_name, wa_sha256 = tiny_sha256 b, byte_count = length b\<rparr>, tiny_started, tiny_files(tiny_staging @ manifest_name \<mapsto> File b))"
    by (rule tiny_write_manifest)
  let ?fs = "tiny_files(tiny_staging @ manifest_name \<mapsto> File b)"
  have final: "final_directory tiny_started = [u ''x'', u ''s'']" by (simp add: final_directory_def tiny_writer_def)
  have "?fs [u ''x'', u ''s''] = None"
    by (simp add: tiny_files_def tiny_prefix_components manifest_name_def del: u_Cons) (simp add: tiny_staging_def tiny_path_def)
  then have "publish (tiny_io False) (tiny_started, ?fs) =
      (Inr [u ''x'', u ''s''], tiny_started\<lparr>staging_directory := None\<rparr>, move_dir tiny_staging [u ''x'', u ''s''] ?fs)"
    by (simp add: publish_def io_bind_def ensure_staging_def final is_file_def del: u_Cons)
  moreover have "sort_key cs_component_key (rq_components (doc_request tiny_document)) = [tiny_spec]" "doc_request tiny_document = tiny_request"
    by (simp_all add: tiny_document_def tiny_request_def)
  moreover have "tiny_started\<lparr>staging_directory := None\<rparr> = tiny_writer" by (simp add: tiny_writer_def)
  ultimately show ?thesis
    using that tiny_digests(1) by (simp add: build_artifacts_def io_bind_def tiny_components b io_return_def with_uri_def
        del: u_Cons One_nat_def build_components.simps)
qed

lemma tiny_request_ok: "validate_snapshot_request (doc_request tiny_document)"
  by (simp add: tiny_document_def validate_snapshot_request_def tiny_request_def validate_component_spec_def tiny_spec_def
      validate_snapshot_key_def py_strip_def py_isspace_def)

lemma tiny_code: "validate_snapshot_code (u ''s'') = Inr (u ''s'')"
  by (simp add: validate_snapshot_code_def SAFE_SNAPSHOT_CODE_def is_code_start_def)

definition tiny_row :: "bool \<Rightarrow> (json \<Rightarrow> snapshot_component_result option) \<Rightarrow> snapshot_record" where
  "tiny_row f c = \<lparr>sr_data_snapshot_id = 1, sr_snapshot_code = u ''s'', sr_knowledge_cutoff_ts = 50, sr_availability_mode = PUBLIC_REPLAY,
     sr_manifest_sha256 = None, sr_status = BUILDING, sr_created_at = 60, sr_frozen_at = None,
     sr_metadata = building_metadata (tiny_env f c) tiny_document\<rparr>"

lemma jsonb_digits: "jsonb_text_ok (str_int i)"
  using set_digits by (fastforce simp: jsonb_text_ok_def str_int_def encodable_def)

lemma jsonb_replicate: "0 < c \<Longrightarrow> c < 128 \<Longrightarrow> jsonb_text_ok (replicate n c)"
  by (simp add: jsonb_text_ok_def encodable_def)

lemma tiny_metadata: "jsonb_ok (JObj (building_metadata (tiny_env f c) tiny_document))"
  using jsonb_replicate [of 48 64] jsonb_replicate [of 49 64] jsonb_digits
  by (simp add: building_metadata_def tiny_document_def tiny_request_def spec_dump_def tiny_spec_def kind_value_def BUILDER_VERSION_def)
    (simp add: jsonb_text_ok_def encodable_def)

lemma tiny_created: "snapshot_tx (tiny_env f c) CreateTx ''READ COMMITTED'' False (create_body (tiny_env f c) tiny_document) empty_snapshots =
    (Inr (Inr (tiny_row f c)), empty_snapshots\<lparr>snapshots := [tiny_row f c], next_snapshot_id := 2\<rparr>)"
proof -
  have "doc_request tiny_document = tiny_request" by (simp add: tiny_document_def)
  then show ?thesis
    using tiny_metadata by (simp add: snapshot_tx_def begin_transaction_def create_body_def Let_def get_snapshot_by_code_def empty_snapshots_def
        create_building_def tiny_request_def tiny_row_def del: u_Cons jsonb_ok.simps) (simp add: tiny_request_def)
qed

lemma jsonb_append [simp]: "jsonb_text_ok (s @ t) \<longleftrightarrow> jsonb_text_ok s \<and> jsonb_text_ok t"
  by (auto simp: jsonb_text_ok_def encodable_def)

lemma jsonb_uri:
  assumes "list_all plain_name p"
  shows "jsonb_text_ok (as_uri p)"
proof -
  have "\<forall>c \<in> set (path_text p). c < 1114112"
    using assms join_chars [of _ p] by (fastforce simp: path_text_def list_all_iff plain_name_def)
  then have "36 < c \<and> c < 128" if "c \<in> set (concat (map quote_byte (concat (map utf8_char (path_text p)))))" for c
    using that utf8_char_byte quote_byte_chars by fastforce
  then have "jsonb_text_ok (concat (map quote_byte (concat (map utf8_char (path_text p)))))"
    unfolding jsonb_text_ok_def encodable_def by fastforce
  moreover have "jsonb_text_ok (u ''file://'')" by (simp add: jsonb_text_ok_def encodable_def)
  ultimately show ?thesis by (simp add: as_uri_def del: u_Cons)
qed

lemma jsonb_relative: "jsonb_text_ok (join [47] tiny_path)"
proof -
  have "jsonb_text_ok (zero_pad 4 1)"
    using set_digits [of 1] by (fastforce simp: jsonb_text_ok_def zero_pad_def encodable_def)
  moreover have "jsonb_text_ok (tiny_sha256 b)" for b
    using jsonb_replicate [of 97 64] jsonb_replicate [of 98 64] by (simp add: tiny_sha256_def)
  ultimately show ?thesis
    by (simp add: tiny_path_def del: u_Cons One_nat_def) (auto simp: jsonb_text_ok_def encodable_def)
qed

definition tiny_final :: snapshot_component_result where
  "tiny_final = with_uri [u ''x'', u ''s''] tiny_result"

lemma tiny_row_of: "row_of_component 1 tiny_final = \<lparr>sc_data_snapshot_id = 1, sc_component_key = u ''k'', sc_feed_id = Some 7, sc_event_from = Some 0,
    sc_event_to = Some 25, sc_max_available_at = Some 30, sc_max_system_available_at = Some 31, sc_row_count = Some 1,
    sc_component_sha256 = tiny_sha256 tiny_payload, sc_storage_uri = Some (cr_storage_uri tiny_final)\<rparr>"
  by (simp add: row_of_component_def tiny_final_def with_uri_def tiny_result_def component_result_def tiny_spec_def max_time_def max_by_def
      frozen_row_def example_revision_def del: u_Cons)

lemma tiny_uri: "jsonb_text_ok (cr_storage_uri tiny_final)"
proof -
  have plain: "list_all plain_name tiny_path"
    using plain_component_path(1) [OF tiny_relative] tiny_digests(1) by blast
  then have "split_on 47 (join [47] tiny_path) = tiny_path"
    by (intro split_on_join) (auto simp: plain_name_def list_all_iff tiny_path_def simp del: u_Cons)
  then have "cr_storage_uri tiny_final = as_uri ([u ''x'', u ''s''] @ tiny_path)"
    by (simp add: tiny_final_def with_uri_def tiny_result_def component_result_def del: u_Cons)
  moreover have "list_all plain_name ([u ''x'', u ''s''] @ tiny_path)"
    using plain by (simp add: plain_name_def encodable_def)
  ultimately show ?thesis using jsonb_uri by metis
qed

lemma tiny_completed: "jsonb_ok (JObj (completed_metadata (tiny_env f c) tiny_document [tiny_final]))"
proof -
  have final: "cr_component_key tiny_final = u ''k''" "kind_value (cr_kind tiny_final) = u ''BAR_REVISION''"
    "cr_component_sha256 tiny_final = tiny_sha256 tiny_payload" "cr_relative_storage_path tiny_final = join [47] tiny_path"
    by (simp_all add: tiny_final_def with_uri_def tiny_result_def component_result_def tiny_spec_def kind_value_def del: u_Cons)
  have "jsonb_text_ok (tiny_sha256 tiny_payload)"
    using jsonb_replicate [of 97 64] by (simp add: tiny_sha256_def)
  then have "jsonb_ok (JObj (component_dump (tiny_env f c) tiny_final))"
    using jsonb_digits jsonb_relative tiny_uri
    by (simp add: component_dump_def final opt_datetime_def del: u_Cons split: option.split) (simp add: jsonb_text_ok_def encodable_def)
  then show ?thesis
    using tiny_metadata [of f c] by (simp add: completed_metadata_def) (simp add: jsonb_text_ok_def encodable_def)
qed

lemma tiny_frozen:
  assumes "is_sha256 (wa_sha256 m)"
  obtains frozen t' where "snapshot_tx (tiny_env False c) FreezeTx ''READ COMMITTED'' False
      (freeze_body (tiny_env False c) tiny_document 1 [tiny_final] m)
      (empty_snapshots\<lparr>snapshots := [tiny_row False c], next_snapshot_id := 2\<rparr>) = (Inr frozen, t')"
    "sr_metadata frozen = completed_metadata (tiny_env False c) tiny_document [tiny_final]"
    "sr_manifest_sha256 frozen = Some (wa_sha256 m)"
proof -
  let ?t = "empty_snapshots\<lparr>snapshots := [tiny_row False c], next_snapshot_id := 2\<rparr>"
  have s: "get_snapshot_by_id 1 ?t = Some (tiny_row False c)" "sr_status (tiny_row False c) = BUILDING"
    by (simp_all add: get_snapshot_by_id_def tiny_row_def)
  have "insert_component_row (\<lambda>_. True) (row_of_component 1 tiny_final) ?t = Inr (?t\<lparr>component_rows := [row_of_component 1 tiny_final]\<rparr>)"
    using char_64_sha256 [OF tiny_digests(1)]
    by (simp add: insert_component_row_def tiny_row_of component_row_ok_def in_bigint_def empty_snapshots_def)
  then have ins: "insert_components (\<lambda>_. True) 1 [tiny_final] ?t = Inr (?t\<lparr>component_rows := [row_of_component 1 tiny_final]\<rparr>)"
    by (simp add: insert_components_def s)
  define frozen where "frozen = (tiny_row False c)\<lparr>sr_status := FROZEN, sr_manifest_sha256 := Some (wa_sha256 m), sr_frozen_at := Some 70,
        sr_metadata := completed_metadata (tiny_env False c) tiny_document [tiny_final]\<rparr>"
  have "\<exists>t'. freeze 1 (wa_sha256 m) 70 (completed_metadata (tiny_env False c) tiny_document [tiny_final]) (?t\<lparr>component_rows := [row_of_component 1 tiny_final]\<rparr>) =
      Inr (t', frozen)"
    using s char_64_sha256 [OF assms] tiny_completed [of False c]
    by (simp add: freeze_def get_snapshot_by_id_def snapshot_row_ok_def Let_def frozen_def del: jsonb_ok.simps)
  then obtain t' where "freeze_body (tiny_env False c) tiny_document 1 [tiny_final] m ?t = Inr (t', frozen)"
    by (auto simp: freeze_body_def ins)
  then show ?thesis
    by (intro that [of frozen t']) (simp_all add: snapshot_tx_def begin_transaction_def frozen_def del: u_Cons)
qed

lemma tiny_build:
  obtains r world' where "build (tiny_env False c) tiny_document [u ''x''] tiny_world = (Inr r, world')" "\<not> br_idempotent_replay r"
    "br_components r = [tiny_final]" "w_bars world' = w_bars tiny_world"
proof -
  obtain m fs where a: "build_artifacts (tiny_env False c) tiny_document (w_bars tiny_world) (tiny_writer, \<lambda>_. None) =
    (Inr ([tiny_final], m, [u ''x'', u ''s'']), tiny_writer, fs)" "is_sha256 (wa_sha256 m)"
    unfolding tiny_final_def by (rule tiny_artifacts)
  obtain frozen t' where f: "snapshot_tx (tiny_env False c) FreezeTx ''READ COMMITTED'' False
      (freeze_body (tiny_env False c) tiny_document 1 [tiny_final] m)
      (empty_snapshots\<lparr>snapshots := [tiny_row False c], next_snapshot_id := 2\<rparr>) = (Inr frozen, t')"
    "sr_metadata frozen = completed_metadata (tiny_env False c) tiny_document [tiny_final]"
    "sr_manifest_sha256 frozen = Some (wa_sha256 m)"
    using a(2) by (rule tiny_frozen)
  have shas: "is_sha256 (source_manifest_sha256 tiny_document)" "is_sha256 (specification_sha256 tiny_document)"
    by (simp_all add: tiny_document_def is_sha256_def list_all_iff)
  obtain r where r: "build_result frozen [tiny_final] False = Inr r"
    using build_result_frozen [OF f(2) shas f(3) a(2)] by blast
  then have "br_components r = [tiny_final]"
    by (auto simp: build_result_def split: option.splits json.splits if_splits)
  moreover have "build (tiny_env False c) tiny_document [u ''x''] tiny_world = (Inr r, tiny_world\<lparr>w_files := fs, w_snapshots := t'\<rparr>)"
  proof -
    have "rq_snapshot_code (doc_request tiny_document) = u ''s''" by (simp add: tiny_document_def tiny_request_def)
    moreover have "new_writer [u ''x''] (u ''s'') = Inr tiny_writer" by (simp add: new_writer_def tiny_code tiny_writer_def del: u_Cons)
    moreover have "sr_data_snapshot_id (tiny_row False c) = 1" by (simp add: tiny_row_def)
    ultimately show ?thesis
      using a f(1) r tiny_created [of False c] by (simp add: build_def build_created_def tiny_world_def del: u_Cons)
  qed
  ultimately show ?thesis
    using build_result_replay [OF r] that by auto
qed

subsection \<open>Witnesses\<close>

lemma tiny_hypotheses:
  "snapshot_inv (w_snapshots tiny_world)" "bar_inv (w_bars tiny_world)" "list_all plain_name [u ''x'']" "\<not> drive_like [u ''x'']"
  "rq_snapshot_code (doc_request tiny_document) = u ''s''" "rq_components (doc_request tiny_document) = [tiny_spec]"
  "bigint_series (w_bars tiny_world)" "below 1114112 (str_int t)" "below 1114112 (cs_component_key tiny_spec)"
  using frozen_table(1) snapshot_inv_empty below_digits [of 1114112]
  by (simp_all add: tiny_world_def plain_name_def encodable_def drive_like_def tiny_document_def tiny_request_def bigint_series_def
      example_bars_def example_series_def in_bigint_def tiny_spec_def str_int_def)

theorem finished_build_verifies_witness:
  "\<exists>r world'. build (tiny_env False no_component) tiny_document [u ''x''] tiny_world = (Inr r, world') \<and>
     verify (tiny_env False no_component) (u ''s'') True world' = Inr \<lparr>vr_snapshot_code = u ''s'', vr_verified = True, vr_artifact_verified = True,
      vr_database_verified = Some True, vr_database_drift = False, vr_issues = []\<rparr>"
proof -
  obtain r world' where b: "build (tiny_env False no_component) tiny_document [u ''x''] tiny_world = (Inr r, world')" "\<not> br_idempotent_replay r"
    by (rule tiny_build)
  have "verify (tiny_env False no_component) (rq_snapshot_code (doc_request tiny_document)) True world' =
    Inr \<lparr>vr_snapshot_code = rq_snapshot_code (doc_request tiny_document), vr_verified = True, vr_artifact_verified = True,
      vr_database_verified = (if True then Some True else None), vr_database_drift = False, vr_issues = []\<rparr>"
    by (rule finished_build_verifies [OF tiny_hypotheses(1) tiny_request_ok b tiny_hypotheses(3,4) tiny_digests(2) _ _ tiny_hypotheses(7)])
      (simp_all add: tiny_hypotheses(6,8,9))
  then show ?thesis using b(1) by (simp add: tiny_hypotheses(5) del: u_Cons)
qed

theorem verified_snapshot_is_unchanged_witness:
  "\<exists>r world'. build (tiny_env False no_component) tiny_document [u ''x''] tiny_world = (Inr r, world') \<and>
     (\<exists>q \<in> set (br_components r). load_artifact_bars example_reader (w_files world') (cr_storage_uri q) (cr_bar_series_id q) =
        Inr [frozen_bar example_reader PUBLIC_REPLAY frozen_row])"
proof -
  obtain r world' where b: "build (tiny_env False no_component) tiny_document [u ''x''] tiny_world = (Inr r, world')" "\<not> br_idempotent_replay r"
    and q: "br_components r = [tiny_final]"
    by (rule tiny_build)
  have digests: "no_second_preimage (tiny_env False no_component) (doc_request tiny_document) (w_bars tiny_world)"
    using tiny_bars tiny_bytes
    by (auto simp: no_second_preimage_def tiny_document_def tiny_request_def tiny_sha256_def simp del: u_Cons split: if_splits)
  obtain s where s: "get_snapshot_by_code (rq_snapshot_code (doc_request tiny_document)) (w_snapshots world') = Some s" "sr_status s = FROZEN"
    "verify_artifacts (tiny_env False no_component) (w_files world') s (list_components (text_order (tiny_env False no_component)) (sr_data_snapshot_id s) (w_snapshots world')) = Inr []"
    by (rule build_checks [OF tiny_hypotheses(1) tiny_request_ok b tiny_hypotheses(3,4) tiny_digests(2) _ _ tiny_hypotheses(7) _ refl])
      (simp_all add: tiny_hypotheses(6,8,9))
  obtain v where v: "verify (tiny_env False no_component) (rq_snapshot_code (doc_request tiny_document)) False world' = Inr v" "vr_artifact_verified v"
    using verify_clean [OF s(1,2) _ s(3), of False] by auto
  have "\<forall>x \<in> set (revisions (w_bars tiny_world)). row_in_range x"
    using frozen_table(4) by (simp add: tiny_world_def example_bars_def)
  then have "\<forall>q \<in> set (br_components r). \<exists>spec \<in> set (rq_components (doc_request tiny_document)). cs_component_key spec = cr_component_key q \<and>
    (eligible_rows (doc_request tiny_document) spec (w_bars tiny_world) \<noteq> [] \<longrightarrow>
     load_artifact_bars example_reader (w_files world') (cr_storage_uri q) (cr_bar_series_id q) =
       Inr (map (frozen_bar example_reader (rq_availability_mode (doc_request tiny_document))) (eligible_rows (doc_request tiny_document) spec (w_bars tiny_world))))"
    by (rule verified_snapshot_is_unchanged [OF tiny_hypotheses(1,2) b tiny_hypotheses(3,4) tiny_digests(2) rtranclp.rtrancl_refl v digests example_reads])
  then show ?thesis
    using b(1) q tiny_bars by (auto simp: tiny_document_def tiny_request_def simp del: u_Cons)
qed

theorem finished_build_is_replayed_witness:
  "\<exists>r world'. build (tiny_env False no_component) tiny_document [u ''x''] tiny_world = (Inr r, world') \<and>
     build (tiny_env False (\<lambda>_. Some tiny_final)) tiny_document [u ''y''] world' = (Inr (r\<lparr>br_idempotent_replay := True\<rparr>), world')"
proof -
  obtain r world' where b: "build (tiny_env False no_component) tiny_document [u ''x''] tiny_world = (Inr r, world')" "\<not> br_idempotent_replay r"
    and q: "br_components r = [tiny_final]"
    by (rule tiny_build)
  have "build (tiny_env False (\<lambda>_. Some tiny_final)) tiny_document [u ''y''] world' =
    (if specification_sha256 tiny_document = specification_sha256 tiny_document then Inr (r\<lparr>br_idempotent_replay := True\<rparr>)
     else Inl (SnapshotConflictError ''Snapshot code is already frozen for another specification.''), world')"
    by (rule finished_build_is_replayed [OF tiny_hypotheses(1) b tiny_digests(2) rtranclp.rtrancl_refl]) (simp_all add: q)
  then show ?thesis using b(1) by auto
qed

text \<open>Every write fails: the disk is full.\<close>

lemma full_disk: "\<exists>e w fs. build_artifacts (tiny_env True c) tiny_document (w_bars tiny_world) (tiny_writer, \<lambda>_. None) = (Inl e, w, fs)"
proof -
  have fields: "cs_bar_series_id tiny_spec = 1" "rq_knowledge_cutoff_ts tiny_request = 50" "rq_availability_mode tiny_request = PUBLIC_REPLAY"
    "cs_component_key tiny_spec = u ''k''" "rq_components tiny_request = [tiny_spec]" "doc_request tiny_document = tiny_request"
    by (simp_all add: tiny_spec_def tiny_request_def tiny_document_def)
  have "\<exists>e w fs. write_bytes (tiny_io True) tiny_path tiny_payload (tiny_writer, \<lambda>_. None) = (Inl e, w, fs)"
    by (simp add: write_bytes_def io_bind_def tiny_ensure split: option.split)
  then have "\<exists>e w fs. build_component (tiny_env True c) tiny_request (w_bars tiny_world) 1 tiny_spec (tiny_writer, \<lambda>_. None) = (Inl e, w, fs)"
    by (auto simp: build_component_def fields tiny_series tiny_bars tiny_bytes write_component_def tiny_relative io_bind_def simp del: u_Cons One_nat_def)
  then show ?thesis
    by (auto simp: build_artifacts_def fields io_bind_def simp del: One_nat_def)
qed

lemma fail_build_count: "length (snapshots (w_snapshots (snd (fail_build env doc i e p w v)))) = length (snapshots (w_snapshots v))"
proof -
  have "length (snapshots (mark_build_failed env doc i e t)) = length (snapshots t)" for t
    by (simp add: mark_build_failed_def snapshot_tx_def begin_transaction_def mark_snapshot_failed_def update_snapshot_def del: u_Cons
        split: option.split sum.split)
  then show ?thesis by (simp add: fail_build_def split: sum.split prod.split)
qed

lemma full_build:
  obtains e world' where "build (tiny_env True c) tiny_document [u ''x''] tiny_world = (Inl e, world')" "world' \<noteq> tiny_world"
proof -
  obtain e w fs where a: "build_artifacts (tiny_env True c) tiny_document (w_bars tiny_world) (tiny_writer, \<lambda>_. None) = (Inl e, w, fs)"
    using full_disk by blast
  have "rq_snapshot_code (doc_request tiny_document) = u ''s''" by (simp add: tiny_document_def tiny_request_def)
  moreover have "new_writer [u ''x''] (u ''s'') = Inr tiny_writer" by (simp add: new_writer_def tiny_code tiny_writer_def del: u_Cons)
  ultimately obtain i where run: "build (tiny_env True c) tiny_document [u ''x''] tiny_world =
      fail_build (tiny_env True c) tiny_document i e False w
        (tiny_world\<lparr>w_snapshots := empty_snapshots\<lparr>snapshots := [tiny_row True c], next_snapshot_id := 2\<rparr>, w_files := fs\<rparr>)"
    using a tiny_created [of True c] by (simp add: build_def build_created_def tiny_world_def del: u_Cons)
  obtain x world' where x: "build (tiny_env True c) tiny_document [u ''x''] tiny_world = (x, world')" by fastforce
  then obtain e' where "x = Inl e'" using run fail_build_Inl by (cases x) metis+
  moreover have "length (snapshots (w_snapshots world')) = 1"
    using fail_build_count [of "tiny_env True c" tiny_document i e False w
        "tiny_world\<lparr>w_snapshots := empty_snapshots\<lparr>snapshots := [tiny_row True c], next_snapshot_id := 2\<rparr>, w_files := fs\<rparr>"] run x [symmetric]
    by (simp del: u_Cons) (metis snd_conv)
  then have "world' \<noteq> tiny_world" by (auto simp: tiny_world_def empty_snapshots_def)
  ultimately show ?thesis using that x by blast
qed


end
