(* ===== verification/Run_Example.thy ===== *)
theory Run_Example
  imports Run_Safety Snapshot_Example Backtest_Example
begin

text \<open>
  A run carried through: the small snapshot is built, a manifest with one instrument is run on it, run again, and run
  with a lost acknowledgement. The single bar is not enough for the moving averages, so that the run makes one
  decision and no order. The runs discharge the hypotheses of the properties of runs at concrete inputs.
\<close>

subsection \<open>Inputs\<close>

definition some_component :: "json \<Rightarrow> snapshot_component_result option" where
  "some_component _ = Some tiny_final"

definition small_env :: "(run_stage \<Rightarrow> tx_fault) \<Rightarrow> run_env" where
  "small_env fault = \<lparr>re_builder = tiny_env False some_component, re_artifacts = example_reader, re_running_at = 100, re_succeeded_at = 200,
     re_failed_at = 200, re_strategy_sha256 = replicate 64 99, re_fault = fault, re_exception_name = (\<lambda>_. u ''Error'')\<rparr>"

definition small_instrument :: run_instrument_spec where
  "small_instrument = run_instrument_spec.make 2 (u ''k'') (u ''k'') (u ''k'') 0"

definition small_request :: backtest_run_request where
  "small_request = backtest_run_request.make 1 (u ''R'') (u ''s'') (u ''U'') (u ''IRR'') 0 40 (Dec False 100 0) 0
     \<lparr>strategy_kind = SMA_CROSS_LONG_FLAT_V1, strategy_parameters =
       [(u ''fast_window'', ParamInt 1), (u ''slow_window'', ParamInt 2), (u ''target_quantity'', ParamDec (Dec False 10 0))]\<rparr>
     \<lparr>execution_kind = NEXT_BAR_CLOSE_AT_AVAILABILITY_V1\<rparr>
     \<lparr>commission_bps = dec_zero, slippage_bps = dec_zero, sell_tax_bps = dec_zero\<rparr> [small_instrument]"

definition small_manifest :: backtest_manifest_document where
  "small_manifest = \<lparr>bd_payload_bytes = [], bd_source_manifest_sha256 = replicate 64 48, bd_request = small_request,
     bd_run_spec_sha256 = replicate 64 49, bd_parameter_sha256 = replicate 64 50\<rparr>"

definition small_catalog :: catalog_tables where
  "small_catalog = catalog_tables.make [\<lparr>currency_code = u ''IRR'', currency_display_name = u ''Rial'', minor_unit = 0, is_fiat = True,
       currency_metadata = []\<rparr>] [] [] [] [example_timeframe] [] []
     [instrument.make 2 (u ''EQUITY'') None (u ''IRR'') (u ''X'') (u ''X'') (u ''ACTIVE'') None None [] 0] [] []"

definition small_context :: "snapshot_tables \<Rightarrow> run_context" where
  "small_context t = \<lparr>rc_catalog = small_catalog, rc_universes = [(u ''U'', 1)], rc_bars = w_bars tiny_world, rc_snapshots = t\<rparr>"

definition small_world :: "files \<Rightarrow> snapshot_tables \<Rightarrow> run_world" where
  "small_world fs t = \<lparr>rw_files = fs, rw_context = small_context t, rw_runs = empty_runs, rw_ledger = empty_ledger\<rparr>"

definition small_bar :: decision_bar where
  "small_bar = frozen_bar example_reader PUBLIC_REPLAY frozen_row"

lemmas small_records = run_instrument_spec.defs backtest_run_request.defs catalog_tables.defs instrument.defs

lemma small_instrument_simps [simp]:
  "run_instrument_spec.instrument_id small_instrument = 2" "signal_component_key small_instrument = u ''k''"
  "execution_component_key small_instrument = u ''k''" "valuation_component_key small_instrument = u ''k''"
  "execution_lag_seconds small_instrument = 0"
  by (simp_all add: small_instrument_def small_records)

lemma small_request_simps [simp]:
  "schema_version small_request = 1" "run_code small_request = u ''R''" "backtest_run_request.snapshot_code small_request = u ''s''"
  "backtest_run_request.universe_code small_request = u ''U''" "backtest_run_request.base_currency_code small_request = u ''IRR''"
  "event_from small_request = 0" "event_to small_request = 40" "initial_capital small_request = Dec False 100 0" "random_seed small_request = 0"
  "strategy small_request = \<lparr>strategy_kind = SMA_CROSS_LONG_FLAT_V1, strategy_parameters =
       [(u ''fast_window'', ParamInt 1), (u ''slow_window'', ParamInt 2), (u ''target_quantity'', ParamDec (Dec False 10 0))]\<rparr>"
  "execution_model small_request = \<lparr>execution_kind = NEXT_BAR_CLOSE_AT_AVAILABILITY_V1\<rparr>"
  "transaction_cost_model small_request = \<lparr>commission_bps = dec_zero, slippage_bps = dec_zero, sell_tax_bps = dec_zero\<rparr>"
  "backtest_run_request.instruments small_request = [small_instrument]"
  by (simp_all add: small_request_def small_records)

lemma small_manifest_simps [simp]:
  "bd_request small_manifest = small_request" "bd_run_spec_sha256 small_manifest = replicate 64 49"
  "bd_source_manifest_sha256 small_manifest = replicate 64 48" "bd_parameter_sha256 small_manifest = replicate 64 50"
  by (simp_all add: small_manifest_def)

lemma small_env_simps [simp]:
  "re_builder (small_env fault) = tiny_env False some_component" "re_artifacts (small_env fault) = example_reader"
  "re_running_at (small_env fault) = 100" "re_succeeded_at (small_env fault) = 200" "re_failed_at (small_env fault) = 200"
  "re_strategy_sha256 (small_env fault) = replicate 64 99" "re_fault (small_env fault) = fault" "re_exception_name (small_env fault) e = u ''Error''"
  by (simp_all add: small_env_def)

lemma small_world_simps [simp]:
  "rw_files (small_world fs t) = fs" "rw_context (small_world fs t) = small_context t" "rw_runs (small_world fs t) = empty_runs"
  "rw_ledger (small_world fs t) = empty_ledger" "run_world_inv (small_world fs t)"
  using run_world_inv_empty by (simp_all add: small_world_def)

subsection \<open>The snapshot\<close>

definition small_snapshot :: "files \<Rightarrow> snapshot_tables \<Rightarrow> snapshot_record \<Rightarrow> bool" where
  "small_snapshot fs t s \<longleftrightarrow>
     get_snapshot_by_code (u ''s'') t = Some s \<and> get_snapshot_by_id (sr_data_snapshot_id s) t = Some s \<and> sr_status s = FROZEN \<and>
     sr_knowledge_cutoff_ts s = 50 \<and> sr_availability_mode s = PUBLIC_REPLAY \<and>
     snapshot_components (tiny_env False some_component) s = Inr [tiny_final] \<and>
     verify (tiny_env False some_component) (u ''s'') False \<lparr>w_snapshots = t, w_bars = w_bars tiny_world, w_files = fs\<rparr> =
       Inr \<lparr>vr_snapshot_code = u ''s'', vr_verified = True, vr_artifact_verified = True, vr_database_verified = None,
            vr_database_drift = False, vr_issues = []\<rparr> \<and>
     load_artifact_bars example_reader fs (cr_storage_uri tiny_final) (cr_bar_series_id tiny_final) = Inr [small_bar]"

lemma small_frozen: "\<exists>fs t s. small_snapshot fs t s"
proof -
  let ?env = "tiny_env False some_component"
  obtain r world' where b: "build ?env tiny_document [u ''x''] tiny_world = (Inr r, world')" "\<not> br_idempotent_replay r"
    and q: "br_components r = [tiny_final]" and bars: "w_bars world' = w_bars tiny_world"
    by (rule tiny_build)
  define d where "d = [u ''x''] @ [rq_snapshot_code (doc_request tiny_document)]"
  obtain rs s digest where pub: "published_at ?env tiny_document (w_bars tiny_world) d (w_files world') rs digest"
    and fr: "frozen_as ?env tiny_document d (w_snapshots world') s rs digest" and inv: "snapshot_inv (w_snapshots world')"
    and code: "validate_snapshot_code (rq_snapshot_code (doc_request tiny_document)) = Inr (rq_snapshot_code (doc_request tiny_document))"
    and res: "build_result s (map (with_uri d) rs) False = Inr r"
    by (rule build_freezes [OF tiny_hypotheses(1) b tiny_digests(2) d_def])
  have rs: "map (with_uri d) rs = [tiny_final]"
    using res q by (auto simp: build_result_def split: option.splits json.splits if_splits)
  have s: "get_snapshot_by_code (u ''s'') (w_snapshots world') = Some s" "sr_status s = FROZEN" "sr_knowledge_cutoff_ts s = 50"
    "sr_availability_mode s = PUBLIC_REPLAY"
    using get_of_frozen [OF fr inv] fr by (simp_all add: frozen_as_def tiny_hypotheses(5) del: u_Cons) (simp_all add: tiny_document_def tiny_request_def)
  have id: "get_snapshot_by_id (sr_data_snapshot_id s) (w_snapshots world') = Some s"
    using get_snapshot_by_id_unique [OF inv, of s] fr by (simp add: frozen_as_def)
  have cs: "snapshot_components ?env s = Inr [tiny_final]"
    using fr unfolding frozen_as_def rs by (simp add: snapshot_components_def completed_lookup some_component_def del: u_Cons)
  have v: "verify ?env (u ''s'') False world' = Inr \<lparr>vr_snapshot_code = u ''s'', vr_verified = True, vr_artifact_verified = True,
      vr_database_verified = None, vr_database_drift = False, vr_issues = []\<rparr>"
  proof (rule build_checks [OF tiny_hypotheses(1) tiny_request_ok b tiny_hypotheses(3,4) tiny_digests(2) _ _ tiny_hypotheses(7) _ refl])
    fix s' assume "get_snapshot_by_code (rq_snapshot_code (doc_request tiny_document)) (w_snapshots world') = Some s'" "sr_status s' = FROZEN"
      "verify_artifacts ?env (w_files world') s' (list_components (text_order ?env) (sr_data_snapshot_id s') (w_snapshots world')) = Inr []"
    from verify_clean [OF this(1,2) _ this(3), of False] show ?thesis by (simp add: tiny_hypotheses(5) del: u_Cons)
  qed (simp_all add: tiny_hypotheses(6,8,9))
  obtain q' where q': "rs = [q']" "with_uri d q' = tiny_final" using rs by (cases rs) auto
  then obtain spec k where spec: "spec \<in> set (rq_components (doc_request tiny_document))"
    "component_at ?env (doc_request tiny_document) (w_bars tiny_world) d (w_files world') k spec q'"
    using published_row [OF pub, of q'] by auto
  have "spec = tiny_spec" using spec(1) by (simp add: tiny_hypotheses(6))
  have plain: "plain_dir d" unfolding d_def by (rule plain_final_directory [OF tiny_hypotheses(3,4) code])
  have fields: "rq_availability_mode (doc_request tiny_document) = PUBLIC_REPLAY" "cs_bar_series_id tiny_spec = 1"
    "eligible_rows (doc_request tiny_document) tiny_spec (w_bars tiny_world) = [frozen_row]"
    using tiny_bars by (simp_all add: tiny_document_def tiny_request_def tiny_spec_def)
  obtain p payload where p: "\<forall>cwd. file_uri_path cwd (cr_storage_uri tiny_final) = Some p"
    "component_bytes PUBLIC_REPLAY [frozen_row] = Inr payload" "cr_bar_series_id q' = 1" "w_files world' p = Some (File payload)"
    using component_at_uri [OF spec(2) tiny_digests(2) plain] unfolding q'(2) \<open>spec = tiny_spec\<close> fields by metis
  have "cr_bar_series_id tiny_final = 1" using p(3) unfolding q'(2) [symmetric] by (simp add: with_uri_def)
  then have "load_artifact_bars example_reader (w_files world') (cr_storage_uri tiny_final) (cr_bar_series_id tiny_final) = Inr [small_bar]"
    using load_eligible [OF frozen_table(1) example_reads, of 1 0 25 50 PUBLIC_REPLAY payload "cr_storage_uri tiny_final" p "w_files world'"] p frozen_table(4)
    unfolding frozen_table(3) by (simp add: small_bar_def)
  moreover have "world' = \<lparr>w_snapshots = w_snapshots world', w_bars = w_bars tiny_world, w_files = w_files world'\<rparr>"
    using bars by simp
  ultimately have "small_snapshot (w_files world') (w_snapshots world') s"
    using s id cs v unfolding small_snapshot_def by metis
  then show ?thesis by blast
qed

lemma small_price: "frozen_price example_reader (Dec False 2 (- 18)) = Dec False 2 (- 18)"
  by code_simp

lemma small_bar_eq: "small_bar = \<lparr>bar_open_ts = 10, bar_series_id = 1, revision_no = 1, available_at = 30, system_available_at = 31,
    effective_available_at = 30, close_price = Dec False 2 (- 18)\<rparr>"
  by (simp add: small_bar_def frozen_bar_def frozen_row_def example_revision_def effective_at_def small_price)

lemma small_bar_simps [simp]:
  "bar_open_ts small_bar = 10" "bar_series_id small_bar = 1" "revision_no small_bar = 1" "available_at small_bar = 30"
  "effective_available_at small_bar = 30" "close_price small_bar = Dec False 2 (- 18)"
  by (simp_all add: small_bar_eq)

subsection \<open>The bars and the simulation\<close>

definition small_selector :: selector where
  "small_selector = [(10, [small_bar])]"

definition small_selectors :: role_selectors where
  "small_selectors = (\<lambda>_. [(2, small_selector)])"

lemma small_preflight:
  assumes "small_snapshot fs t s" and "fault SnapshotTx = Working"
  shows "preflight (small_env fault) (u ''s'') (small_world fs t) = Inr (s, [tiny_final])"
proof -
  have "snapshot_view (small_world fs t) = \<lparr>w_snapshots = t, w_bars = w_bars tiny_world, w_files = fs\<rparr>"
    by (simp add: snapshot_view_def small_context_def)
  then show ?thesis
    using assms by (simp add: preflight_def small_snapshot_def run_tx_def small_context_def del: u_Cons)
qed

lemma small_load:
  assumes "small_snapshot fs t s"
  shows "load_selectors (small_env fault) fs small_request (component_by_key [tiny_final]) = Inr small_selectors"
proof -
  have key: "component_by_key [tiny_final] = [(u ''k'', tiny_final)]"
    by (simp add: component_by_key_def dict_set.simps tiny_final_def with_uri_def tiny_result_def component_result_def tiny_spec_def del: u_Cons)
  have sel: "make_selector [small_bar] = Inr small_selector"
    by (simp add: make_selector_def group_by_def small_selector_def dict_append_def dict_get_def)
  have load: "load_artifact_bars example_reader fs (cr_storage_uri tiny_final) (cr_bar_series_id tiny_final) = Inr [small_bar]"
    using assms by (simp add: small_snapshot_def)
  have one: "load_selector (small_env fault) fs small_request [(u ''k'', tiny_final)] 2 (role, u ''k'') sl =
      Inr (sl(role := dict_set (sl role) 2 small_selector))" for role sl
    by (simp add: load_selector_def dict_get_def load sel del: u_Cons)
  have "(\<lambda>_. [])(SIGNAL := [(2, small_selector)], EXECUTION := [(2, small_selector)], VALUATION := [(2, small_selector)]) = small_selectors"
    by (rule ext) (case_tac x, simp_all add: small_selectors_def)
  then show ?thesis
    unfolding load_selectors_def key by (simp add: role_keys_def one dict_set.simps del: u_Cons)
qed

definition small_config :: sim_config where
  "small_config = \<lparr>cfg_sha256 = tiny_sha256, cfg_dump = request_dump, cfg_request = small_request, cfg_signal = [(2, small_selector)],
     cfg_execution = [(2, small_selector)], cfg_valuation = [(2, small_selector)], cfg_run_spec = Some (replicate 64 49)\<rparr>"

lemma small_config: "sim_config_of (small_env fault) small_manifest small_selectors = small_config"
  by (simp add: sim_config_of_def small_config_def small_selectors_def)

lemma small_config_simps [simp]:
  "cfg_sha256 small_config = tiny_sha256" "cfg_request small_config = small_request" "cfg_signal small_config = [(2, small_selector)]"
  "cfg_execution small_config = [(2, small_selector)]" "cfg_valuation small_config = [(2, small_selector)]"
  by (simp_all add: small_config_def)

lemma small_visible: "visible_bars small_selector 30 = [small_bar]" "visible_bars small_selector 40 = [small_bar]"
  by (simp_all add: visible_bars_def latest_visible_def small_selector_def max_by_def)

lemma small_schedule: "decision_schedule small_selector = [(30, 10)]"
  by (simp add: decision_schedule_def small_selector_def first_visibility_def)

lemma small_events: "decision_events small_config = Inr [(30, 2, small_bar)]"
  by (simp add: decision_events_def instrument_events_def lookup_or_raise_def dict_get_def small_schedule small_visible)

definition small_decision :: "pystr \<Rightarrow> pystr \<Rightarrow> simulated_decision" where
  "small_decision h g = \<lparr>sequence = 1, decision_instrument_id = 2, decision_ts = 30, decision_trigger_bar = small_bar, inputs = [small_bar],
     state_sha256 = h, input_manifest_sha256 = g\<rparr>"

definition small_valuation :: simulated_valuation where
  "small_valuation = \<lparr>valuation_instrument_id = 2, snapshot_ts = 40, valuation_reference_bar = small_bar, valuation_quantity = dec_zero,
     valuation_average_cost = dec_zero, valuation_realized_pnl = dec_zero, market_value = Dec False 0 (- 18), unrealized_pnl = Dec False 0 (- 18)\<rparr>"

definition small_result :: "pystr \<Rightarrow> pystr \<Rightarrow> simulation_result" where
  "small_result h g = \<lparr>decisions = [small_decision h g], signals = [], orders = [], fills = [], final_cash = Dec False 100 0,
     final_positions = [(2, flat_position)], valuations = [small_valuation], equity_base = Dec False 100000000000000000000 (- 18)\<rparr>"

lemma small_decimals:
  "dec_mul dec_zero (Dec False 2 (- 18)) = Dec False 0 (- 18)" "dec_mul (dec_sub (Dec False 2 (- 18)) dec_zero) dec_zero = Dec False 0 (- 18)"
  "dec_add dec_zero (Dec False 0 (- 18)) = Dec False 0 (- 18)"
  "dec_add (Dec False 100 0) (Dec False 0 (- 18)) = Dec False 100000000000000000000 (- 18)"
  by (simp_all add: dec_eval ndigits_eval)

lemma small_hashes:
  "\<exists>h. state_hash tiny_sha256 small_request 2 c s = Inr h \<and> is_sha256 h" "\<exists>g. input_hash tiny_sha256 bars = Inr g \<and> is_sha256 g"
proof -
  have sha: "json_sha256 tiny_sha256 v = Inr h \<Longrightarrow> is_sha256 h" for v h
    by (auto simp: json_sha256_def rbind_Inr_iff tiny_digests(1))
  have "\<forall>(k, v) \<in> set (strategy_parameters (strategy small_request)). encodable k"
    by (simp add: encodable_def)
  then show "\<exists>h. state_hash tiny_sha256 small_request 2 c s = Inr h \<and> is_sha256 h" "\<exists>g. input_hash tiny_sha256 bars = Inr g \<and> is_sha256 g"
    using state_hash_total [of small_request tiny_sha256 2 c s] input_hash_total [of tiny_sha256 bars] sha
    by (fastforce simp: state_hash_def input_hash_def hash_or_raise_def split: sum.splits)+
qed

lemma small_params:
  "require_int (dict_get (strategy_parameters (strategy small_request)) (u ''fast_window'')) = Inr 1"
  "require_int (dict_get (strategy_parameters (strategy small_request)) (u ''slow_window'')) = Inr 2"
  "require_dec (dict_get (strategy_parameters (strategy small_request)) (u ''target_quantity'')) = Inr (Dec False 10 0)"
  unfolding small_request_simps by code_simp+

lemma small_simulation:
  obtains h g where "simulate small_config = Some (Inr (small_result h g))" "is_sha256 h" "is_sha256 g"
proof -
  let ?p = "\<lparr>cash = Dec False 100 0, positions = []\<rparr>"
  obtain h where h: "state_hash tiny_sha256 small_request 2 (Dec False 100 0) flat_position = Inr h" "is_sha256 h"
    using small_hashes(1) by blast
  obtain g where g: "input_hash tiny_sha256 [small_bar] = Inr g" "is_sha256 g" using small_hashes(2) by blast
  let ?st = "(initial_state ?p [(30, 2, small_bar)])\<lparr>st_decisions := [small_decision h g]\<rparr>"
  have "sma_decide \<lparr>view_instrument_id = 2, view_decision_ts = 30, visible_bars_of = [small_bar], current_quantity = dec_zero,
      view_average_cost = dec_zero, view_realized_pnl = dec_zero, view_cash = Dec False 100 0, view_parameters = strategy small_request\<rparr> =
    Inr \<lparr>intent_instrument_id = 2, intent_decision_ts = 30, intent_target_quantity = dec_zero, intent_reason_code = ''SMA_WARMUP''\<rparr>"
    unfolding sma_decide_def decision_view.select_convs Let_def small_params by (simp add: make_intent_def)
  then have "decide_one small_config (30, 2, small_bar) (initial_state ?p [(30, 2, small_bar)]) = Inr ?st"
    using h g small_params(2)
    by (simp add: decide_one_def lookup_or_raise_def dict_get_def small_visible slice_last_def last_n_def position_def initial_state_def
        flat_position_def small_decision_def del: u_Cons small_request_simps)
  then have "process_time small_config [(30, 2, small_bar)] 30 (initial_state ?p [(30, 2, small_bar)]) = Inr ?st"
    by (simp add: process_time_def fill_due_def due_orders_def initial_state_def dict_get_def dict_pop_def)
  then have loop: "sim_loop 2 small_config [(30, 2, small_bar)] 0 (initial_state ?p [(30, 2, small_bar)]) = Some (Inr ?st)"
    by (simp add: eval_nat_numeral) (simp add: initial_state_def)
  have "loop_fuel small_config [(30, 2, small_bar)] = 2" by (simp add: loop_fuel_def small_selector_def)
  moreover have "validate_bindings small_config = Inr ()" by (simp add: validate_bindings_def dict_keys_def)
  moreover have "new_portfolio (Dec False 100 0) = Inr ?p" by (simp add: new_portfolio_def dec_eval val_def)
  moreover have "finish small_config [(2, small_selector)] ?st = Inr (small_result h g)"
    by (simp add: finish_def final_valuations_def final_valuation_def lookup_or_raise_def dict_get_def small_visible position_def flat_position_def
        initial_state_def small_decimals small_result_def small_valuation_def)
  ultimately have "simulate small_config = Some (Inr (small_result h g))"
    using loop small_events by (simp add: simulate_def dict_keys_def)
  then show ?thesis using h(2) g(2) that by blast
qed

definition small_summary :: run_summary where
  "small_summary = \<lparr>sm_total_return = Dec False 0 (- 18), sm_max_drawdown = dec_zero, sm_trade_count = 0, sm_winning_trade_count = 0,
     sm_losing_trade_count = 0, sm_win_rate = None, sm_gross_pnl_base = Dec False 0 (- 18), sm_net_pnl_base = Dec False 0 (- 18),
     sm_total_cost_base = dec_zero, sm_realized_pnl_base = dec_zero\<rparr>"

lemma small_summary_decimals:
  "dec_sub (Dec False 100000000000000000000 (- 18)) (Dec False 100 0) = Dec False 0 (- 18)" "dec_mul (Dec False 100 0) dec_zero = dec_zero"
  "div_or_raise (Dec False 0 (- 18)) (Dec False 100 0) = Inr (Dec False 0 (- 18))" "dec_add (Dec False 0 (- 18)) dec_zero = Dec False 0 (- 18)"
  "dec_add dec_zero dec_zero = dec_zero"
  by (simp_all add: div_or_raise_def dec_eval ndigits_eval)

lemma small_summarized: "summary_of small_request (small_result h g) = Inr small_summary"
  by (simp add: summary_of_def small_result_def Let_def small_summary_decimals flat_position_def small_summary_def)

lemma small_serializable:
  assumes "is_sha256 h" and "is_sha256 g"
  shows "serializable (result_payload (small_result h g) small_summary)"
proof -
  have "encodable h" "encodable g" using sha256_below [OF assms(1)] sha256_below [OF assms(2)] by (auto simp: encodable_def below_def)
  moreover have "encodable (str_int 2)" using jsonb_digits [of 2] by (simp add: jsonb_text_ok_def)
  ultimately show ?thesis
    by (simp add: result_payload_def small_result_def decision_payload_def small_decision_def bar_input_def bar_payload_def position_payload_def
        valuation_payload_def small_valuation_def summary_payload_def small_summary_def flat_position_def encodable_def)
qed

lemma small_computed:
  obtains h g digest where "computed (small_env fault) small_manifest small_selectors = Inr (small_result h g, small_summary, digest)"
    "simulate small_config = Some (Inr (small_result h g))" "is_sha256 h" "is_sha256 g" "is_sha256 digest"
proof -
  obtain h g where r: "simulate small_config = Some (Inr (small_result h g))" and hg: "is_sha256 h" "is_sha256 g"
    by (rule small_simulation)
  obtain b where "canonical_json_bytes (result_payload (small_result h g) small_summary) = Inr b"
    using small_serializable [OF hg] canonical_json_bytes_Inr_iff by blast
  then have "computed (small_env fault) small_manifest small_selectors = Inr (small_result h g, small_summary, tiny_sha256 b)"
    using r by (simp add: computed_def simulated_def small_config small_summarized result_sha256_def)
  then show ?thesis using r hg tiny_digests(1) that by blast
qed

subsection \<open>Queueing the run\<close>

lemma json_text_of: "serializable v \<Longrightarrow> canonicalize_json v = Inr j \<Longrightarrow> json_text v = Inr j"
  using canonical_json_bytes_Inr_iff [of v] by (auto simp: json_text_def)

lemma small_digits: "canonical_decimal (Dec False 10 0) = [49, 48]" "canonical_decimal dec_zero = [48]"
  by code_simp+

definition small_parameters :: json where
  "small_parameters = JObj [(u ''fast_window'', JInt 1), (u ''slow_window'', JInt 2), (u ''target_quantity'', JStr [49, 48])]"

definition small_execution :: json where
  "small_execution = JObj [(u ''kind'', JStr (u ''NEXT_BAR_CLOSE_AT_AVAILABILITY_V1''))]"

definition small_costs :: json where
  "small_costs = JObj [(u ''commission_bps'', JStr [48]), (u ''slippage_bps'', JStr [48]), (u ''sell_tax_bps'', JStr [48])]"

definition small_metadata :: "(pystr \<times> json) list \<Rightarrow> json" where
  "small_metadata extra = JObj ([(u ''run_spec_sha256'', JStr (replicate 64 49)), (u ''source_manifest_sha256'', JStr (replicate 64 48)),
     (u ''snapshot_code'', JStr (u ''s''))] @ extra)"

lemma small_json:
  "json_text (parameters_value (strategy_parameters (strategy small_request))) = Inr small_parameters"
  "json_text (execution_dump (execution_model small_request)) = Inr small_execution"
  "json_text (costs_dump (transaction_cost_model small_request)) = Inr small_costs"
  "json_text (run_metadata small_manifest []) = Inr (small_metadata [])"
  "is_sha256 digest \<Longrightarrow> json_text (run_metadata small_manifest [(u ''result_sha256'', PyStr digest)]) =
     Inr (small_metadata [(u ''result_sha256'', JStr digest)])"
  by (rule json_text_of; simp add: parameters_value_def param_value_def small_parameters_def small_digits execution_dump_def execution_kind_value_def
      small_execution_def costs_dump_def small_costs_def run_metadata_def small_metadata_def encodable_def sha256_below;
      fastforce dest: sha256_below simp: encodable_def)+

lemma small_jsonb:
  "jsonb_ok small_parameters" "jsonb_ok small_execution" "jsonb_ok small_costs" "jsonb_ok (small_metadata [])"
  "is_sha256 digest \<Longrightarrow> jsonb_ok (small_metadata [(u ''result_sha256'', JStr digest)])"
  by (auto simp: small_parameters_def small_execution_def small_costs_def small_metadata_def jsonb_text_ok_def encodable_def is_sha256_def
      list_all_iff)

definition small_queued :: "snapshot_record \<Rightarrow> queued_run" where
  "small_queued s = queued_run.make (u ''R'') 1 (sr_data_snapshot_id s) 1 (Some 3) (u ''IRR'') 0 40 50 PUBLIC_REPLAY (Dec False 100 0)
     small_parameters (replicate 64 50) small_execution small_costs 0 (small_metadata [])"

lemma small_queued_simps [simp]:
  "qr_run_code (small_queued s) = u ''R''" "qr_strategy_version_id (small_queued s) = 1" "qr_data_snapshot_id (small_queued s) = sr_data_snapshot_id s"
  "qr_universe_id (small_queued s) = 1" "qr_timeframe_id (small_queued s) = Some 3" "qr_base_currency_code (small_queued s) = u ''IRR''"
  "qr_event_from (small_queued s) = 0" "qr_event_to (small_queued s) = 40" "qr_knowledge_cutoff_ts (small_queued s) = 50"
  "qr_availability_mode (small_queued s) = PUBLIC_REPLAY" "qr_initial_capital (small_queued s) = Dec False 100 0"
  "qr_parameters (small_queued s) = small_parameters" "qr_parameter_sha256 (small_queued s) = replicate 64 50"
  "qr_execution_model (small_queued s) = small_execution" "qr_transaction_cost_model (small_queued s) = small_costs"
  "qr_random_seed (small_queued s) = 0" "qr_metadata (small_queued s) = small_metadata []"
  by (simp_all add: small_queued_def queued_run.defs)

definition small_binding :: "series_role \<Rightarrow> series_binding" where
  "small_binding role = \<lparr>sb_instrument_id = 2, sb_bar_series_id = 1, sb_role = role, sb_lag_seconds = 0, sb_is_primary = True\<rparr>"

definition small_capital :: decimal where
  "small_capital = Dec False 100000000000000000000 (- 18)"

lemma small_numeric: "to_numeric (Dec False 100 0) = Inr small_capital" "val small_capital = 100"
  by (simp_all add: small_capital_def to_numeric_def Let_def numeric_coeff_def NUMERIC_SCALE_def half_even_def val_def)

definition small_strategy :: run_tables where
  "small_strategy = \<lparr>strategies = \<lparr>tbl_rows = [\<lparr>sg_strategy_id = 1, sg_strategy_code = STRATEGY_CODE,
       sg_display_name = u ''Bisfin SMA cross long/flat reference'',
       sg_description = Some (u ''Deterministic artifact-backed reference strategy.'')\<rparr>], tbl_next = 2\<rparr>,
     strategy_versions = \<lparr>tbl_rows = [\<lparr>sv_strategy_version_id = 1, sv_strategy_id = 1, sv_version_no = 1, sv_class_path = CLASS_PATH,
       sv_code_sha256 = replicate 64 99\<rparr>], tbl_next = 2\<rparr>,
     runs = empty_table, run_instruments = [], run_series = []\<rparr>"

lemma small_version: "ensure_strategy_version CLASS_PATH (replicate 64 99) empty_runs = Inr (small_strategy, 1)"
  by (simp add: ensure_strategy_version_def ensure_strategy_def empty_runs_def empty_table_def add_row_def char_n_def small_strategy_def del: u_Cons)

lemma small_bindings:
  "series_bindings (small_context t) small_request (component_by_key [tiny_final]) =
     Inr ([small_binding SIGNAL, small_binding EXECUTION, small_binding VALUATION], Some 3)"
proof -
  have key: "component_by_key [tiny_final] = [(u ''k'', tiny_final)]" "cr_bar_series_id tiny_final = 1"
    by (simp_all add: component_by_key_def dict_set.simps tiny_final_def with_uri_def tiny_result_def component_result_def tiny_spec_def del: u_Cons)
  have "get_instrument_by_id 2 small_catalog = Inr (Some (instrument.make 2 (u ''EQUITY'') None (u ''IRR'') (u ''X'') (u ''X'') (u ''ACTIVE'') None None [] 0))"
    by (simp add: get_instrument_by_id_def one_or_none_def small_catalog_def small_records del: u_Cons)
  then have "validate_instrument_series (small_context t) 2 [1, 1, 1] (u ''IRR'') = Inr 3"
    by (simp add: validate_instrument_series_def small_context_def tiny_world_def example_bars_def example_series_def small_records del: u_Cons)
  then show ?thesis
    by (simp add: series_bindings_def instrument_bindings_def key role_keys_def lookup_or_raise_def dict_get_def role_binding_def lag_or_raise_def
        small_binding_def del: u_Cons)
qed

definition small_row :: "snapshot_record \<Rightarrow> run_row" where
  "small_row s = stored_run (small_queued s) 1 small_capital (replicate 64 50)"

definition small_tables :: "run_row \<Rightarrow> run_tables" where
  "small_tables r = small_strategy\<lparr>runs := \<lparr>tbl_rows = [r], tbl_next = 2\<rparr>, run_instruments := [\<lparr>ri_run_id = 1, ri_instrument_id = 2\<rparr>],
     run_series := map (\<lambda>role. \<lparr>rs_run_id = 1, rs_bar_series_id = 1, rs_series_role = role, rs_is_primary = True,
       rs_execution_lag_seconds = 0, rs_metadata = JObj [(u ''instrument_id'', JInt 2)]\<rparr>) [SIGNAL, EXECUTION, VALUATION]\<rparr>"

lemma small_create:
  assumes "small_snapshot fs t s"
  shows "create_queued (small_context t) (small_queued s) small_strategy = Inr (small_strategy\<lparr>runs := \<lparr>tbl_rows = [small_row s], tbl_next = 2\<rparr>\<rparr>, 1)"
proof -
  have "enforce_run_snapshot (small_context t) (small_queued s)"
    using assms by (simp add: enforce_run_snapshot_def small_snapshot_def small_context_def)
  moreover have "timeframe_exists (small_context t) (Some 3)" "currency_exists (small_context t) (u ''IRR'')"
    by (simp_all add: timeframe_exists_def currency_exists_def small_context_def small_catalog_def small_records example_timeframe_def del: u_Cons)
  ultimately show ?thesis
    using small_jsonb(1-4)
    by (simp add: create_queued_def small_numeric char_n_def jsonb_cast_def in_bigint_def small_strategy_def empty_table_def add_row_def
        small_context_def small_row_def del: u_Cons) (simp add: small_context_def)
qed

lemma small_row_simps [simp]:
  "rn_run_id (small_row s) = 1" "rn_status (small_row s) = RUN_QUEUED" "qr_run_code (small_row s) = u ''R''" "rn_started_at (small_row s) = None"
  "rn_finished_at (small_row s) = None" "qr_availability_mode (small_row s) = PUBLIC_REPLAY" "qr_knowledge_cutoff_ts (small_row s) = 50"
  by (simp_all add: small_row_def stored_run_def queued_run.defs run_row.defs)

lemma small_insert:
  "insert_bindings (small_context t) 1 [2] [small_binding SIGNAL, small_binding EXECUTION, small_binding VALUATION]
     (small_strategy\<lparr>runs := \<lparr>tbl_rows = [r], tbl_next = 2\<rparr>\<rparr>) = Inr (small_tables r)"
  if "rn_run_id r = 1"
proof -
  have "instrument_exists (small_context t) 2" "series_exists (small_context t) 1"
    by (simp_all add: instrument_exists_def series_exists_def small_context_def small_catalog_def small_records tiny_world_def example_bars_def
        example_series_def del: u_Cons)
  then show ?thesis
    using that by (simp add: insert_bindings_def bind_instrument_def bind_series_def small_binding_def run_by_id_def small_strategy_def small_tables_def)
qed

lemma small_queue:
  assumes "small_snapshot fs t s"
  shows "queue_body (small_env fault) (small_context t) small_manifest s (component_by_key [tiny_final]) empty_runs = Inr (small_tables (small_row s), Queued 1)"
    and "queue_run (small_env fault) (small_context t) small_manifest s (component_by_key [tiny_final]) empty_runs =
      Inr (small_strategy\<lparr>runs := \<lparr>tbl_rows = [small_row s], tbl_next = 2\<rparr>\<rparr>, Queued 1,
        [small_binding SIGNAL, small_binding EXECUTION, small_binding VALUATION])"
proof -
  have q: "\<lparr>qr_run_code = u ''R'', qr_strategy_version_id = 1, qr_data_snapshot_id = sr_data_snapshot_id s, qr_universe_id = 1,
      qr_timeframe_id = Some 3, qr_base_currency_code = u ''IRR'', qr_event_from = 0, qr_event_to = 40,
      qr_knowledge_cutoff_ts = sr_knowledge_cutoff_ts s, qr_availability_mode = sr_availability_mode s, qr_initial_capital = Dec False 100 0,
      qr_parameters = small_parameters, qr_parameter_sha256 = replicate 64 50, qr_execution_model = small_execution,
      qr_transaction_cost_model = small_costs, qr_random_seed = 0, qr_metadata = small_metadata []\<rparr> = small_queued s"
    using assms by (simp add: small_snapshot_def small_queued_def queued_run.defs)
  have "resolve_universe_id (small_context t) (u ''U'') = Inr 1"
    by (simp add: resolve_universe_id_def small_context_def dict_get_def del: u_Cons)
  moreover have "require_runnable (u ''R'') digest empty_runs = Inr None" for digest
    by (simp add: require_runnable_def run_by_code_def empty_runs_def empty_table_def)
  ultimately show queue: "queue_run (small_env fault) (small_context t) small_manifest s (component_by_key [tiny_final]) empty_runs =
      Inr (small_strategy\<lparr>runs := \<lparr>tbl_rows = [small_row s], tbl_next = 2\<rparr>\<rparr>, Queued 1,
        [small_binding SIGNAL, small_binding EXECUTION, small_binding VALUATION])"
    using small_json(1-4) by (simp add: queue_run_def Let_def small_version small_bindings q small_create [OF assms] del: u_Cons)
  show "queue_body (small_env fault) (small_context t) small_manifest s (component_by_key [tiny_final]) empty_runs = Inr (small_tables (small_row s), Queued 1)"
    using small_insert [of "small_row s" t] by (simp add: queue_body_def queue del: u_Cons)
qed

definition small_running :: "snapshot_record \<Rightarrow> run_row" where
  "small_running s = (small_row s)\<lparr>rn_status := RUN_RUNNING, rn_started_at := Some 100\<rparr>"

lemma small_running_simps [simp]:
  "rn_run_id (small_running s) = 1" "rn_status (small_running s) = RUN_RUNNING" "rn_started_at (small_running s) = Some 100"
  "rn_finished_at (small_running s) = None" "qr_availability_mode (small_running s) = PUBLIC_REPLAY" "qr_knowledge_cutoff_ts (small_running s) = 50"
  by (simp_all add: small_running_def)

lemma small_tables_simps [simp]:
  "rn_run_id r = 1 \<Longrightarrow> run_by_id 1 (small_tables r) = Some r" "rn_run_id r' = 1 \<Longrightarrow> rn_run_id r = 1 \<Longrightarrow> update_run 1 r (small_tables r') = small_tables r"
  by (simp_all add: run_by_id_def small_tables_def update_run_def)

lemma small_mark_running: "mark_run_running 1 100 (small_tables (small_row s)) = Inr (small_tables (small_running s))"
  by (simp add: mark_run_running_def transition_def run_times_ok_def small_running_def)

subsection \<open>The ledger of the run\<close>

definition small_ledger_context :: "snapshot_tables \<Rightarrow> snapshot_record \<Rightarrow> ledger_context" where
  "small_ledger_context t s = \<lparr>lx_run = small_running s, lx_series = run_series (small_tables (small_running s)), lx_context = small_context t\<rparr>"

lemma small_point:
  "point_in_time (small_ledger_context t s) (\<lambda>_. True) None 30 (bar_ref_of small_bar) = Inr (bar_ref_of small_bar)"
  "point_in_time (small_ledger_context t s) (\<lambda>r. r = VALUATION) (Some 2) 40 (bar_ref_of small_bar) = Inr (bar_ref_of small_bar)"
proof -
  have "referenced_bar (small_context t) (bar_ref_of small_bar) = Some frozen_row"
    by (simp add: referenced_bar_def small_context_def tiny_world_def example_bars_def frozen_row_def example_revision_def bar_ref_of_def)
  moreover have "effective_at PUBLIC_REPLAY frozen_row = 30" by (simp add: effective_at_def frozen_row_def example_revision_def)
  moreover have "series_instrument (small_context t) 1 = Some 2"
    by (simp add: series_instrument_def small_context_def tiny_world_def example_bars_def example_series_def)
  moreover have "series_bound (small_ledger_context t s) (\<lambda>_. True) 1" "series_bound (small_ledger_context t s) (\<lambda>r. r = VALUATION) 1"
    by (simp_all add: series_bound_def small_ledger_context_def small_tables_def)
  ultimately show "point_in_time (small_ledger_context t s) (\<lambda>_. True) None 30 (bar_ref_of small_bar) = Inr (bar_ref_of small_bar)"
    "point_in_time (small_ledger_context t s) (\<lambda>r. r = VALUATION) (Some 2) 40 (bar_ref_of small_bar) = Inr (bar_ref_of small_bar)"
    by (simp_all add: point_in_time_def Let_def bar_ref_of_def small_ledger_context_def)
qed

lemma small_numerics:
  "to_numeric dec_zero = Inr (Dec False 0 (- 18))" "to_numeric (Dec False 2 (- 18)) = Inr (Dec False 2 (- 18))"
  "to_numeric (Dec False 0 (- 18)) = Inr (Dec False 0 (- 18))" "to_numeric small_capital = Inr small_capital" "val (Dec False 0 (- 18)) = 0"
  by (simp_all add: small_capital_def to_numeric_def Let_def numeric_coeff_def NUMERIC_SCALE_def half_even_def val_def)

definition small_cash_ledger :: ledger where
  "small_cash_ledger = empty_ledger\<lparr>ld_cash := \<lparr>tbl_rows = [\<lparr>ca_id = 1, ca_run_id = 1, ca_ts = 30, ca_currency = u ''IRR'',
     ca_type = INITIAL_CAPITAL, ca_amount = small_capital, ca_fill_id = None, ca_key = u ''initial-capital''\<rparr>], tbl_next = 2\<rparr>\<rparr>"

lemma small_cash:
  "insert_cash (small_ledger_context t s) 30 (u ''IRR'') INITIAL_CAPITAL (Dec False 100 0) (u ''initial-capital'') None empty_ledger = Inr small_cash_ledger"
proof -
  have "currency_exists (small_context t) (u ''IRR'')"
    by (simp add: currency_exists_def small_context_def small_catalog_def small_records del: u_Cons)
  then show ?thesis
    by (simp add: insert_cash_def small_numeric empty_ledger_def empty_table_def add_row_def small_cash_ledger_def small_ledger_context_def del: u_Cons)
      (simp add: u_def)
qed

lemma small_insert_decision:
  assumes "is_sha256 h" and "is_sha256 g"
  obtains l where "insert_decision (small_ledger_context t s) (small_decision h g) (small_cash_ledger, []) = Inr (l, [(1, 1)])"
    "ld_snapshots l = []" "ld_equity l = []" "ld_summaries l = []" "ld_orders l = empty_table"
proof -
  have "serializable (PyDict [(u ''trigger_bar'', bar_payload small_bar)])"
    by (simp add: bar_payload_def encodable_def)
  then obtain md where md: "json_text (PyDict [(u ''trigger_bar'', bar_payload small_bar)]) = Inr md"
    using json_text_of canonicalize_serializable(1) by blast
  have "\<exists>l. insert_decision (small_ledger_context t s) (small_decision h g) (small_cash_ledger, []) = Inr (l, [(1, 1)]) \<and>
      ld_snapshots l = [] \<and> ld_equity l = [] \<and> ld_summaries l = [] \<and> ld_orders l = empty_table"
    using md char_64_sha256 [OF assms(1)] char_64_sha256 [OF assms(2)] small_point(1)
    by (simp add: insert_decision_def small_decision_def small_cash_ledger_def empty_ledger_def empty_table_def add_row_def insert_input_def
        dict_set.simps del: u_Cons)
  then show ?thesis using that by blast
qed

lemma small_persist:
  assumes "is_sha256 h" and "is_sha256 g"
  obtains l where "persist (small_ledger_context t s) (small_result h g) (Dec False 100 0) (u ''IRR'') small_summary empty_ledger = Inr l"
    "deferred_checks 1 l"
proof -
  obtain l where l: "insert_decision (small_ledger_context t s) (small_decision h g) (small_cash_ledger, []) = Inr (l, [(1, 1)])"
    "ld_snapshots l = []" "ld_equity l = []" "ld_summaries l = []" "ld_orders l = empty_table"
    by (rule small_insert_decision [OF assms])
  have result: "first_event_ts (small_result h g) = Inr 30" "decisions (small_result h g) = [small_decision h g]" "signals (small_result h g) = []"
    "orders (small_result h g) = []" "fills (small_result h g) = []" "valuations (small_result h g) = [small_valuation]"
    "final_cash (small_result h g) = Dec False 100 0" "equity_base (small_result h g) = small_capital"
    by (simp_all add: small_result_def first_event_ts_def small_decision_def small_capital_def)
  have there: "instrument_exists (small_context t) 2"
    by (simp add: instrument_exists_def small_context_def small_catalog_def small_records del: u_Cons)
  have lctx: "lx_context (small_ledger_context t s) = small_context t" "lx_run_id (small_ledger_context t s) = 1"
    by (simp_all add: small_ledger_context_def)
  have "\<exists>l'. insert_valuation (small_ledger_context t s) small_valuation l = Inr l' \<and> ld_equity l' = [] \<and> ld_summaries l' = [] \<and> ld_orders l' = empty_table"
    using l(2-5) small_point(2) there by (simp add: insert_valuation_def small_valuation_def small_numerics Let_def lctx)
  then obtain l' where v: "insert_valuation (small_ledger_context t s) small_valuation l = Inr l'" "ld_equity l' = []" "ld_summaries l' = []"
    "ld_orders l' = empty_table" by blast
  have "\<exists>l''. insert_equity_point (small_ledger_context t s) (small_result h g) l' = Inr l'' \<and> ld_summaries l'' = [] \<and> ld_orders l'' = empty_table"
    using v(2-4) by (simp add: insert_equity_point_def result small_valuation_def small_decimals small_numerics small_numeric)
  then obtain l'' where e: "insert_equity_point (small_ledger_context t s) (small_result h g) l' = Inr l''" "ld_summaries l'' = []"
    "ld_orders l'' = empty_table" by blast
  have "\<exists>l3. insert_summary (small_ledger_context t s) small_summary l'' = Inr l3 \<and> ld_orders l3 = empty_table"
    using e(2,3) by (simp add: insert_summary_def small_summary_def small_numerics val_def)
  then obtain l3 where "insert_summary (small_ledger_context t s) small_summary l'' = Inr l3" "ld_orders l3 = empty_table" by blast
  moreover from this(1) have "persist (small_ledger_context t s) (small_result h g) (Dec False 100 0) (u ''IRR'') small_summary empty_ledger = Inr l3"
    using l(1) v(1) e(1) by (simp add: persist_def insert_valuations_def result small_cash del: u_Cons)
  ultimately show ?thesis using that by (simp add: deferred_checks_def empty_table_def)
qed

subsection \<open>The run\<close>

lemma small_document:
  assumes "small_snapshot fs t s" and "fault SnapshotTx = Working" and "fault QueueTx = Working"
  shows "run_document (small_env fault) small_manifest (small_world fs t) =
    execute_run (small_env fault) small_manifest small_selectors 1 ((small_world fs t)\<lparr>rw_runs := small_tables (small_row s)\<rparr>)"
  using small_preflight [where fault = fault, OF assms(1,2)] small_load [where fault = fault, OF assms(1)]
    small_queue(1) [where fault = fault, OF assms(1)] assms(3)
  by (simp add: run_document_def run_tx_def del: u_Cons)

lemma small_finish:
  assumes "small_snapshot fs t s"
  obtains c tables l where "computed (small_env fault) small_manifest small_selectors = Inr c"
    "finish_body (small_env fault) (small_context t) small_manifest 1 c (small_tables (small_running s), empty_ledger) = Inr ((tables, l), ())"
    "deferred_checks 1 l"
proof -
  obtain h g digest where c: "computed (small_env fault) small_manifest small_selectors = Inr (small_result h g, small_summary, digest)"
    "is_sha256 h" "is_sha256 g" "is_sha256 digest"
    by (rule small_computed)
  obtain l where l: "persist (small_ledger_context t s) (small_result h g) (Dec False 100 0) (u ''IRR'') small_summary empty_ledger = Inr l"
    "deferred_checks 1 l"
    by (rule small_persist [OF c(2,3)])
  have "\<exists>tables. mark_run_succeeded 1 200 (small_metadata [(u ''result_sha256'', JStr digest)]) (small_tables (small_running s)) = Inr tables"
    using small_jsonb(5) [OF c(4)] by (simp add: mark_run_succeeded_def transition_def run_times_ok_def del: u_Cons)
  then obtain tables where "mark_run_succeeded 1 200 (small_metadata [(u ''result_sha256'', JStr digest)]) (small_tables (small_running s)) = Inr tables" ..
  then have "finish_body (small_env fault) (small_context t) small_manifest 1 (small_result h g, small_summary, digest) (small_tables (small_running s), empty_ledger) =
      Inr ((tables, l), ())"
    using l(1) small_json(5) [OF c(4)] by (simp add: finish_body_def small_ledger_context_def del: u_Cons)
  then show ?thesis using c(1) l(2) that by blast
qed

lemma small_run:
  assumes "small_snapshot fs t s"
  obtains res w' where "run_document (small_env (\<lambda>_. Working)) small_manifest (small_world fs t) = (Inr res, w')"
    "rw_files w' = fs" "rw_context w' = small_context t"
proof -
  obtain c tables l where c: "computed (small_env (\<lambda>_. Working)) small_manifest small_selectors = Inr c"
    "finish_body (small_env (\<lambda>_. Working)) (small_context t) small_manifest 1 c (small_tables (small_running s), empty_ledger) = Inr ((tables, l), ())"
    "deferred_checks 1 l"
    by (rule small_finish [OF assms])
  then show ?thesis
    using small_document [OF assms, of "\<lambda>_. Working"] that
    by (simp add: execute_run_def run_tx_def small_mark_running)
qed

text \<open>The same run, when the last commit is lost.\<close>

abbreviation lost_commit :: "run_stage \<Rightarrow> tx_fault" where
  "lost_commit stage \<equiv> (if stage = FinishTx then CommitLost else Working)"

lemma lost_run:
  assumes "small_snapshot fs t s"
  obtains e w' where "run_document (small_env lost_commit) small_manifest (small_world fs t) = (Inl e, w')"
proof -
  obtain c tables l where c: "computed (small_env lost_commit) small_manifest small_selectors = Inr c"
    "finish_body (small_env lost_commit) (small_context t) small_manifest 1 c (small_tables (small_running s), empty_ledger) = Inr ((tables, l), ())"
    by (rule small_finish [OF assms])
  then show ?thesis
    using small_document [OF assms, of lost_commit] that
    by (simp add: execute_run_def run_tx_def small_mark_running)
qed

text \<open>The second transaction finds no connection.\<close>

abbreviation no_start :: "run_stage \<Rightarrow> tx_fault" where
  "no_start stage \<equiv> (if stage = RunningTx then NoConnection else Working)"

lemma stuck_run:
  assumes "small_snapshot fs t s"
  obtains e w' where "run_document (small_env no_start) small_manifest (small_world fs t) = (Inl e, w')" "run_by_code (u ''R'') (rw_runs w') \<noteq> None"
proof -
  have "run_inv (rw_runs (small_world fs t))" using run_inv_empty by simp
  then have inv: "run_inv (small_tables (small_row s))" using queue_keeps small_queue(1) [OF assms] by fastforce
  have "run_by_code (u ''R'') (small_tables (small_row s)) = Some (small_row s)"
    by (simp add: run_by_code_def small_tables_def del: u_Cons)
  then show ?thesis
    using small_document [OF assms, of no_start] that fail_run_lookup(1) [of "(small_world fs t)\<lparr>rw_runs := small_tables (small_row s)\<rparr>" "u ''R''" "small_row s"] inv
    by (simp add: execute_run_def run_tx_def del: u_Cons)
qed

lemma small_request_ok: "run_request_ok small_request"
proof -
  have "strategy_ok (strategy small_request) 1 2 (Dec False 10 0)"
    unfolding strategy_ok_def small_request_simps by (intro conjI; code_simp)
  then show ?thesis
    by (auto simp: run_request_ok_def costs_ok_def val_def)
qed

lemma small_names: "names_storable (small_env fault) small_manifest"
proof -
  have "json_text (failure_metadata small_manifest (u ''Error'')) = Inr (JObj [(u ''run_spec_sha256'', JStr (replicate 64 49)),
      (u ''failure'', JObj [(u ''code'', JStr (u ''Error''))])])"
    by (rule json_text_of) (simp_all add: failure_metadata_def encodable_def)
  then show ?thesis
    by (simp add: names_storable_def del: u_Cons) (simp add: jsonb_text_ok_def encodable_def)
qed

subsection \<open>Witnesses\<close>

theorem ledger_exactly_of_succeeded_runs_witness:
  "\<exists>fs t res w. run_document (small_env (\<lambda>_. Working)) small_manifest (small_world fs t) = (Inr res, w) \<and>
     ledger_run_ids (rw_ledger w) = succeeded_ids (rw_runs w)"
proof -
  obtain fs t s where s: "small_snapshot fs t s" using small_frozen by blast
  obtain res w where w: "run_document (small_env (\<lambda>_. Working)) small_manifest (small_world fs t) = (Inr res, w)"
    by (rule small_run [OF s])
  have "run_step\<^sup>*\<^sup>* (small_world fs t) w"
    using run_document_steps [of "small_world fs t" "small_env (\<lambda>_. Working)" small_manifest] w by simp
  from ledger_exactly_of_succeeded_runs [OF this [unfolded small_world_def]] show ?thesis using w by blast
qed

theorem new_run_holds_journal_witness:
  "\<exists>fs t res w. run_document (small_env (\<lambda>_. Working)) small_manifest (small_world fs t) = (Inr res, w) \<and>
     (\<exists>r. run_by_code (u ''R'') (rw_runs w) = Some r \<and> rn_status r = RUN_SUCCEEDED \<and> res = replay_result r)"
proof -
  obtain fs t s where s: "small_snapshot fs t s" using small_frozen by blast
  obtain res w where w: "run_document (small_env (\<lambda>_. Working)) small_manifest (small_world fs t) = (Inr res, w)"
    by (rule small_run [OF s])
  have "run_by_code (run_code (bd_request small_manifest)) (rw_runs (small_world fs t)) = None"
    by (simp add: run_by_code_def empty_runs_def empty_table_def)
  from new_run_holds_journal [OF small_world_simps(5) w this] w show ?thesis
    by (simp del: u_Cons) blast
qed

theorem cash_ledger_adds_up_witness:
  "\<exists>fs t res w result. run_document (small_env (\<lambda>_. Working)) small_manifest (small_world fs t) = (Inr res, w) \<and>
     simulate small_config = Some (Inr result) \<and>
     \<bar>cash_ledger_total (ru_run_id res) (rw_ledger w) - val (final_cash result)\<bar> \<le>
      ((1 + rounding_unit) ^ (3 + length (fills result)) - 1) * turnover (Dec False 100 0) result +
      of_nat (cash_entry_count (ru_run_id res) (rw_ledger w)) / (2 * 10 ^ NUMERIC_SCALE)"
proof -
  obtain fs t s where s: "small_snapshot fs t s" using small_frozen by blast
  obtain res w where w: "run_document (small_env (\<lambda>_. Working)) small_manifest (small_world fs t) = (Inr res, w)"
    by (rule small_run [OF s])
  have new: "run_by_code (run_code (bd_request small_manifest)) (rw_runs (small_world fs t)) = None"
    by (simp add: run_by_code_def empty_runs_def empty_table_def)
  have known: "preflight (small_env (\<lambda>_. Working)) (u ''s'') (small_world fs t) = Inr (s, [tiny_final])"
    by (rule small_preflight [OF s]) simp
  have "\<exists>result. simulate small_config = Some (Inr result) \<and>
     \<bar>cash_ledger_total (ru_run_id res) (rw_ledger w) - val (final_cash result)\<bar> \<le>
      ((1 + rounding_unit) ^ (3 + length (fills result)) - 1) * turnover (Dec False 100 0) result +
      of_nat (cash_entry_count (ru_run_id res) (rw_ledger w)) / (2 * 10 ^ NUMERIC_SCALE)"
    using cash_ledger_adds_up [OF small_world_simps(5) w new] small_load [OF s, of "\<lambda>_. Working"]
    by (auto simp: known small_config simp del: u_Cons)
  then show ?thesis using w by blast
qed

theorem finished_run_is_replayed_witness:
  "\<exists>fs t res w. run_document (small_env (\<lambda>_. Working)) small_manifest (small_world fs t) = (Inr res, w) \<and>
     run_document (small_env (\<lambda>_. Working)) small_manifest w = (Inr res, w)"
proof -
  obtain fs t s where s: "small_snapshot fs t s" using small_frozen by blast
  obtain res w where w: "run_document (small_env (\<lambda>_. Working)) small_manifest (small_world fs t) = (Inr res, w)"
    and same: "rw_files w = fs" "rw_context w = small_context t"
    by (rule small_run [OF s])
  have "preflight (small_env (\<lambda>_. Working)) (u ''s'') w = preflight (small_env (\<lambda>_. Working)) (u ''s'') (small_world fs t)"
    by (simp only: preflight_def snapshot_view_def same small_world_simps)
  then have "preflight (small_env (\<lambda>_. Working)) (backtest_run_request.snapshot_code (bd_request small_manifest)) w = Inr (s, [tiny_final])"
    using small_preflight [OF s, of "\<lambda>_. Working"] by (simp del: u_Cons)
  moreover have "load_selectors (small_env (\<lambda>_. Working)) (rw_files w) (bd_request small_manifest) (component_by_key [tiny_final]) = Inr small_selectors"
    using small_load [OF s] same by simp
  ultimately have "run_document (small_env (\<lambda>_. Working)) small_manifest w =
    (if bd_run_spec_sha256 small_manifest = bd_run_spec_sha256 small_manifest then Inr res
     else Inl (Bt (BacktestRunConflictError ''Backtest run code cannot be reused for another run.'')), w)"
    by (rule finished_run_is_replayed [OF small_world_simps(5) w rtranclp.rtrancl_refl refl]) simp
  then show ?thesis using w by auto
qed

theorem finished_run_is_final_witness:
  "\<exists>fs t res w r. run_document (small_env (\<lambda>_. Working)) small_manifest (small_world fs t) = (Inr res, w) \<and> rn_status r = RUN_SUCCEEDED \<and>
     run_by_code (u ''R'') (rw_runs (snd (run_document (small_env (\<lambda>_. Working)) small_manifest (w\<lparr>rw_files := (\<lambda>_. None)\<rparr>)))) = Some r"
proof -
  let ?env = "small_env (\<lambda>_. Working)"
  obtain fs t s where s: "small_snapshot fs t s" using small_frozen by blast
  obtain res w where w: "run_document ?env small_manifest (small_world fs t) = (Inr res, w)"
    by (rule small_run [OF s])
  have "\<exists>r. run_by_code (u ''R'') (rw_runs w) = Some r \<and> rn_status r = RUN_SUCCEEDED"
    by (rule returned_row [OF small_world_simps(5) w]) (simp del: u_Cons)
  then obtain r where r: "run_by_code (u ''R'') (rw_runs w) = Some r" "rn_status r = RUN_SUCCEEDED" by blast
  have "run_world_inv w"
    using run_history.inv_steps [OF run_document_steps, of "small_world fs t" ?env small_manifest] small_world_simps(5) w by simp
  moreover have "run_step w (w\<lparr>rw_files := (\<lambda>_. None), rw_context := rw_context w\<rparr>)" by (rule step_outside)
  then have "run_step\<^sup>*\<^sup>* w (snd (run_document ?env small_manifest (w\<lparr>rw_files := (\<lambda>_. None)\<rparr>)))"
    using run_document_steps by (simp add: converse_rtranclp_into_rtranclp)
  ultimately have "run_by_code (u ''R'') (rw_runs (snd (run_document ?env small_manifest (w\<lparr>rw_files := (\<lambda>_. None)\<rparr>)))) = Some r \<and>
      ledger_of (rn_run_id r) (rw_ledger (snd (run_document ?env small_manifest (w\<lparr>rw_files := (\<lambda>_. None)\<rparr>)))) = ledger_of (rn_run_id r) (rw_ledger w)"
    by (rule finished_run_is_final [OF _ _ r(1)]) (simp add: finished_def r(2))
  then show ?thesis using w r(2) by blast
qed

theorem failed_run_leaves_no_ledger_witness:
  "\<exists>fs t e w. run_document (small_env lost_commit) small_manifest (small_world fs t) = (Inl e, w) \<and> rw_ledger w = empty_ledger"
proof -
  obtain fs t s where s: "small_snapshot fs t s" using small_frozen by blast
  obtain e w where w: "run_document (small_env lost_commit) small_manifest (small_world fs t) = (Inl e, w)"
    by (rule lost_run [OF s])
  have "rw_ledger w = rw_ledger (small_world fs t) \<and> succeeded_ids (rw_runs w) = succeeded_ids (rw_runs (small_world fs t))"
    by (rule failed_run_leaves_no_ledger [OF small_world_simps(5) w]) simp
  then show ?thesis using w by auto
qed

theorem run_never_left_open_witness:
  "\<exists>fs t res w. run_document (small_env (\<lambda>_. Working)) small_manifest (small_world fs t) = (Inr res, w) \<and> open_runs (rw_runs w) = {}"
proof -
  obtain fs t s where s: "small_snapshot fs t s" using small_frozen by blast
  obtain res w where w: "run_document (small_env (\<lambda>_. Working)) small_manifest (small_world fs t) = (Inr res, w)"
    by (rule small_run [OF s])
  have "open_runs (rw_runs w) \<subseteq> open_runs (rw_runs (small_world fs t))"
    by (rule run_never_left_open [OF small_world_simps(5) w _ small_names]) simp_all
  then show ?thesis using w by (auto simp: open_runs_def empty_runs_def empty_table_def)
qed

theorem lost_start_blocks_code_witness:
  "\<exists>fs t e w. run_document (small_env no_start) small_manifest (small_world fs t) = (Inl e, w) \<and>
     (\<exists>r. run_by_code (u ''R'') (rw_runs w) = Some r \<and> rn_status r = RUN_QUEUED)"
proof -
  obtain fs t s where s: "small_snapshot fs t s" using small_frozen by blast
  obtain e w where w: "run_document (small_env no_start) small_manifest (small_world fs t) = (Inl e, w)" "run_by_code (u ''R'') (rw_runs w) \<noteq> None"
    by (rule stuck_run [OF s])
  have "(\<exists>r. run_by_code (run_code (bd_request small_manifest)) (rw_runs w) = Some r \<and> rn_status r = RUN_QUEUED) \<and>
    require_runnable (run_code (bd_request small_manifest)) [] (rw_runs w) =
      Inl (Bt (BacktestRunInProgressError ''Backtest run code is already queued or running.''))"
    by (rule lost_start_blocks_code [OF small_world_simps(5) w(1)])
      (use w(2) in \<open>simp_all add: run_by_code_def empty_runs_def empty_table_def del: u_Cons\<close>)
  then have "\<exists>r. run_by_code (u ''R'') (rw_runs w) = Some r \<and> rn_status r = RUN_QUEUED" by (simp del: u_Cons)
  then show ?thesis using w(1) by blast
qed

theorem deferred_checks_never_fail_witness:
  "\<exists>t s c tables l. computed (small_env (\<lambda>_. Working)) small_manifest small_selectors = Inr c \<and>
     finish_body (small_env (\<lambda>_. Working)) (small_context t) small_manifest 1 c (small_tables (small_running s), empty_ledger) = Inr ((tables, l), ()) \<and>
     deferred_checks 1 l"
proof -
  let ?env = "small_env (\<lambda>_. Working)"
  obtain fs t s where s: "small_snapshot fs t s" using small_frozen by blast
  obtain c tables l where c: "computed ?env small_manifest small_selectors = Inr c"
    "finish_body ?env (small_context t) small_manifest 1 c (small_tables (small_running s), empty_ledger) = Inr ((tables, l), ())"
    by (rule small_finish [OF s])
  have ok: "run_request_ok (bd_request small_manifest)" using small_request_ok by simp
  have loaded: "load_selectors ?env fs (bd_request small_manifest) (component_by_key [tiny_final]) = Inr small_selectors"
    using small_load [OF s] by simp
  have "deferred_checks 1 l"
    by (rule deferred_checks_never_fail [OF small_world_simps(5) [of fs t] ok loaded c(1) c(2) [folded small_world_simps(4) [of fs t]]])
  then show ?thesis using c by blast
qed

end
