(* ===== verification/Calendar_Zone.thy ===== *)
theory Calendar_Zone
  imports Canonical_Text
begin

text \<open>
  Local times of a calendar (\<^verbatim>\<open>_to_utc\<close> of \<^verbatim>\<open>src/bisfin/calendar/manifest.py\<close>) on \<^verbatim>\<open>zoneinfo\<close> of the standard library.
  A zone is its offset before the first transition and the transitions in order, each with the offset after it; the
  offset of a local time depends on its fold (PEP 495), and a local time may have no instant or two of them. The
  lemmas characterize the answer of \<^verbatim>\<open>_to_utc\<close> by the instants at which the clocks of the zone show that time.
\<close>

subsection \<open>Time zones\<close>

text \<open>Offsets, instants and naive local times in microseconds; local times count from 1970-01-01T00:00.\<close>

record time_zone =
  tz_before :: int
  tz_transitions :: "(timestamp \<times> int) list"

text \<open>\<^verbatim>\<open>ZoneInfo.fromutc\<close>: the offset after the last transition that is not after the instant.\<close>

fun utc_offset :: "int \<Rightarrow> (timestamp \<times> int) list \<Rightarrow> timestamp \<Rightarrow> int" where
  "utc_offset offset [] t = offset"
| "utc_offset offset ((since, after) # ts) t = (if since \<le> t then utc_offset after ts t else offset)"

text \<open>
  \<^verbatim>\<open>ZoneInfo.utcoffset\<close> of a naive local time: a transition is in force from its local time on, read with the larger of
  the two offsets for fd 0 and with the smaller one for fd 1.
\<close>

fun wall_offset :: "nat \<Rightarrow> int \<Rightarrow> (timestamp \<times> int) list \<Rightarrow> int \<Rightarrow> int" where
  "wall_offset fd offset [] n = offset"
| "wall_offset fd offset ((since, after) # ts) n =
     (if since + (if fd = 0 then max offset after else min offset after) \<le> n then wall_offset fd after ts n else offset)"

definition local_time :: "time_zone \<Rightarrow> timestamp \<Rightarrow> int" where
  "local_time z t = t + utc_offset (tz_before z) (tz_transitions z) t"

text \<open>The instant of a naive local time read with a fold.\<close>

definition wall_instant :: "time_zone \<Rightarrow> nat \<Rightarrow> int \<Rightarrow> timestamp" where
  "wall_instant z fd n = n - wall_offset fd (tz_before z) (tz_transitions z) n"

subsection \<open>Errors\<close>

datatype calendar_manifest_error_code =
    INVALID_UTF8 | MALFORMED_JSON | DUPLICATE_JSON_FIELD | UNSUPPORTED_SCHEMA_VERSION | INVALID_MANIFEST

text \<open>\<^verbatim>\<open>CalendarManifestError\<close> with its message. An \<^verbatim>\<open>OverflowError\<close> of \<^verbatim>\<open>datetime\<close>, a failed assertion and an error of
  \<^verbatim>\<open>ZoneInfo\<close> pass through.\<close>

datatype calendar_error =
    CalendarManifestError calendar_manifest_error_code pystr
  | CalendarOverflow
  | CalendarAssertion
  | CalendarZoneError

abbreviation invalid_manifest :: "string \<Rightarrow> calendar_error" where
  "invalid_manifest message \<equiv> CalendarManifestError INVALID_MANIFEST (u message)"

subsection \<open>From local time to UTC\<close>

text \<open>\<^verbatim>\<open>candidate.astimezone(UTC)\<close> and back; arithmetic out of the years 1 to 9999 overflows.\<close>

definition fold_round_trip :: "time_zone \<Rightarrow> int \<Rightarrow> nat \<Rightarrow> (calendar_error, timestamp \<times> int) result" where
  "fold_round_trip z naive fd =
     (let utc_value = wall_instant z fd naive; round_trip = local_time z utc_value in
      if \<not> in_datetime_range utc_value \<or> \<not> in_datetime_range round_trip then Inl CalendarOverflow
      else Inr (utc_value, round_trip))"

text \<open>The dictionary of candidates: equal instants share an entry, which keeps the later fold.\<close>

fun fold_candidates ::
  "time_zone \<Rightarrow> int \<Rightarrow> nat list \<Rightarrow> (timestamp, nat) dict \<Rightarrow> (calendar_error, (timestamp, nat) dict) result" where
  "fold_candidates z naive [] candidates = Inr candidates"
| "fold_candidates z naive (fd # folds) candidates =
     rbind (fold_round_trip z naive fd) (\<lambda>(utc_value, round_trip).
       fold_candidates z naive folds (if round_trip = naive then dict_set candidates utc_value fd else candidates))"

definition choose_candidate :: "nat option \<Rightarrow> (timestamp, nat) dict \<Rightarrow> (calendar_error, timestamp) result" where
  "choose_candidate fd candidates =
     (if candidates = [] then Inl (invalid_manifest ''local time is nonexistent'')
      else if 1 < length candidates \<and> fd = None then Inl (invalid_manifest ''local time is ambiguous'')
      else case fd of
        Some f \<Rightarrow>
          (case find (\<lambda>(utc_value, candidate_fold). candidate_fold = f) candidates of
             Some (utc_value, _) \<Rightarrow> Inr utc_value
           | None \<Rightarrow> Inl (invalid_manifest ''requested local-time fold is invalid''))
      | None \<Rightarrow> Inr (fst (hd candidates)))"

definition to_utc :: "time_zone \<Rightarrow> int \<Rightarrow> nat option \<Rightarrow> (calendar_error, timestamp) result" where
  "to_utc z naive fd = rbind (fold_candidates z naive [0, 1] []) (choose_candidate fd)"

subsection \<open>Zones whose gaps and folds stay apart\<close>

text \<open>Transitions in order, and no two of them shift the same local time: the later gap or fold begins after the earlier ends.\<close>

fun spaced :: "int \<Rightarrow> (timestamp \<times> int) list \<Rightarrow> bool" where
  "spaced offset [] \<longleftrightarrow> True"
| "spaced offset ((since, after) # ts) \<longleftrightarrow>
     (case ts of [] \<Rightarrow> True | (since', after') # _ \<Rightarrow> since < since' \<and> since + max offset after \<le> since' + min after after') \<and> spaced after ts"

definition zone_ok :: "time_zone \<Rightarrow> bool" where
  "zone_ok z \<longleftrightarrow> spaced (tz_before z) (tz_transitions z)"

lemma local_after:
  assumes "spaced b ((since, offset) # ts)" and "since \<le> t"
  shows "since + min b offset \<le> t + utc_offset offset ts t"
  using assms
proof (induction ts arbitrary: since b offset)
  case (Cons p ts)
  obtain since' after' where p: "p = (since', after')" by (cases p)
  show ?case
  proof (cases "since' \<le> t")
    case True
    have "since' + min offset after' \<le> t + utc_offset after' ts t"
      by (rule Cons.IH) (use Cons.prems p True in auto)
    then show ?thesis using Cons.prems p True by auto
  qed (use Cons.prems(2) p in simp)
qed simp

text \<open>A local time before the end of a gap or fold is not touched by the transitions after it.\<close>

lemma wall_stops:
  assumes "spaced b ((since, offset) # ts)" and "n < since + max b offset"
  shows "wall_offset fd offset ts n = offset"
  using assms by (cases ts) (auto split: if_splits)

lemma utc_stops:
  assumes "spaced b ((since, offset) # ts)" and "t + utc_offset offset ts t < since + max b offset"
  shows "utc_offset offset ts t = offset"
proof (cases ts)
  case (Cons p ts')
  obtain since' after' where p: "p = (since', after')" by (cases p)
  have "\<not> since' \<le> t"
    using local_after [of offset since' after' ts' t] assms Cons p by auto
  then show ?thesis using Cons p by simp
qed simp

lemma utc_before:
  assumes "spaced b ((since, offset) # ts)" and "t < since"
  shows "utc_offset offset ts t = offset"
  using assms by (cases ts) auto

lemma utc_within:
  assumes "spaced b ((since, offset) # ts)" and "t + offset < since + max b offset"
  shows "utc_offset offset ts t = offset"
  using assms by (cases ts) auto

text \<open>When the clocks show a local time at all, both folds name an instant at which they do, the fold 0 the earlier
  one, and there is no other.\<close>

lemma readings:
  assumes "spaced offset ts" and "t + utc_offset offset ts t = n"
  defines "s f \<equiv> n - wall_offset f offset ts n"
  shows "s f + utc_offset offset ts (s f) = n \<and> s 0 \<le> s 1 \<and> (t = s 0 \<or> t = s 1)"
  unfolding s_def using assms(1,2)
proof (induction ts arbitrary: offset)
  case (Cons p ts)
  obtain since after where p: "p = (since, after)" by (cases p)
  have sp: "spaced offset ((since, after) # ts)" and sp': "spaced after ts" using Cons.prems(1) p by simp_all
  note stop = wall_stops [OF sp]
  show ?case
  proof (cases "since \<le> t")
    case True
    then have n: "t + utc_offset after ts t = n" using Cons.prems(2) p by simp
    have low: "since + min offset after \<le> n" using local_after [OF sp True] n by simp
    show ?thesis
    proof (cases "since + max offset after \<le> n")
      case True
      note IH = Cons.IH [OF sp' n]
      have "since \<le> n - wall_offset g after ts n"
        if valid: "n - wall_offset g after ts n + utc_offset after ts (n - wall_offset g after ts n) = n" for g
      proof (rule ccontr)
        assume "\<not> since \<le> n - wall_offset g after ts n"
        then have early: "n - wall_offset g after ts n < since" by simp
        then have "n = n - wall_offset g after ts n + after"
          using valid utc_before [OF sp early] by simp
        then show False using early True by (simp add: max_def split: if_splits)
      qed
      moreover have "min offset after \<le> max offset after" by simp
      ultimately show ?thesis using IH p True low by auto
    next
      case False
      then have after: "utc_offset after ts t = after" using utc_stops [OF sp] n by simp
      have "after < offset" using False n after \<open>since \<le> t\<close> by (auto simp: max_def split: if_splits)
      then show ?thesis using p False low stop after n \<open>since \<le> t\<close> by (auto simp: max_def min_def)
    qed
  next
    case False
    then have n: "t + offset = n" using Cons.prems(2) p by simp
    show ?thesis
    proof (cases "since + min offset after \<le> n")
      case True
      then have "after < offset" using False n by (auto simp: min_def split: if_splits)
      moreover from this have "utc_offset after ts (n - after) = after"
        by (intro utc_within [OF sp]) (use False n in simp)
      ultimately show ?thesis using p False n True stop by (auto simp: max_def min_def)
    qed (use p False n in \<open>auto simp: max_def min_def\<close>)
  qed
qed simp

lemma wall_readings:
  assumes "zone_ok z" and "local_time z t = n"
  shows "local_time z (wall_instant z f n) = n" and "wall_instant z 0 n \<le> wall_instant z 1 n"
    and "t = wall_instant z 0 n \<or> t = wall_instant z 1 n"
  using readings [of "tz_before z" "tz_transitions z" t n f] assms
  by (simp_all add: zone_ok_def local_time_def wall_instant_def)

text \<open>The candidates, when nothing overflows: none without a reading; otherwise the two folds, sharing an entry when they agree.\<close>

definition candidate_folds :: "time_zone \<Rightarrow> int \<Rightarrow> (timestamp, nat) dict" where
  "candidate_folds z n =
     (if local_time z (wall_instant z 0 n) \<noteq> n then []
      else if wall_instant z 0 n = wall_instant z 1 n then [(wall_instant z 0 n, 1)]
      else [(wall_instant z 0 n, 0), (wall_instant z 1 n, 1)])"

lemma fold_candidates_eq:
  assumes "zone_ok z" and "fold_candidates z n [0, 1] [] \<noteq> Inl CalendarOverflow"
  shows "fold_candidates z n [0, 1] [] = Inr (candidate_folds z n)"
proof -
  have no: "local_time z (wall_instant z f n) \<noteq> n" if "local_time z (wall_instant z 0 n) \<noteq> n" for f
    using wall_readings(1) [OF assms(1), of "wall_instant z f n" n 0] that by blast
  have yes: "local_time z (wall_instant z 1 n) = n" if "local_time z (wall_instant z 0 n) = n"
    using wall_readings(1) [OF assms(1) that] by blast
  have trip: "fold_round_trip z n f = Inl CalendarOverflow \<or>
      fold_round_trip z n f = Inr (wall_instant z f n, local_time z (wall_instant z f n))" for f
    by (simp add: fold_round_trip_def Let_def)
  have zero: "fold_round_trip z n 0 = Inr (wall_instant z 0 n, local_time z (wall_instant z 0 n))"
    using trip [of 0] assms(2) by (elim disjE) simp_all
  have one: "fold_round_trip z n 1 = Inr (wall_instant z 1 n, local_time z (wall_instant z 1 n))"
    using trip [of 1] assms(2) zero by (elim disjE) (simp_all split: if_splits)
  show ?thesis
  proof (cases "local_time z (wall_instant z 0 n) = n")
    case True
    show ?thesis
      by (simp add: zero one [simplified] yes [OF True, simplified] True candidate_folds_def)
  next
    case False
    show ?thesis
      by (simp add: zero one [simplified] no [OF False] False candidate_folds_def)
  qed
qed

text \<open>C17. The UTC instant of a local session time is right across every change of the clocks: in a zone whose gaps and folds
  are apart, and unless the date arithmetic overflows, an instant is returned exactly when the clocks of the zone show
  that local time at it, and it is the only such instant (no fold given), the earlier of two (fold 0) or the last one
  (fold 1); a time the clocks skip is refused as nonexistent. Fold 0 is refused for a local time that occurs once.\<close>

theorem local_time_resolves:
  assumes "zone_ok z" and "fd = None \<or> fd = Some 0 \<or> fd = Some 1" and "to_utc z n fd \<noteq> Inl CalendarOverflow"
  shows "(to_utc z n fd = Inr t \<longleftrightarrow> local_time z t = n \<and>
      (case fd of None \<Rightarrow> \<forall>t'. local_time z t' = n \<longrightarrow> t' = t
       | Some f \<Rightarrow> if f = 0 then \<exists>t' > t. local_time z t' = n else \<forall>t'. local_time z t' = n \<longrightarrow> t' \<le> t)) \<and>
    (to_utc z n fd = Inl (invalid_manifest ''local time is nonexistent'') \<longleftrightarrow> (\<forall>t. local_time z t \<noteq> n))"
proof -
  have safe: "fold_candidates z n [0, 1] [] \<noteq> Inl CalendarOverflow"
    using assms(3) unfolding to_utc_def by (metis rbind_simps(1))
  then have result: "to_utc z n fd = choose_candidate fd (candidate_folds z n)"
    unfolding to_utc_def by (simp only: fold_candidates_eq [OF assms(1) safe] rbind_simps)
  show ?thesis
  proof (cases "local_time z (wall_instant z 0 n) = n")
    case False
    then have "local_time z t' \<noteq> n" for t'
      using wall_readings(1) [OF assms(1), of t' n 0] by blast
    then show ?thesis
      using False by (simp add: result choose_candidate_def candidate_folds_def)
  next
    case True
    define a b where "a = wall_instant z 0 n" and "b = wall_instant z 1 n"
    have order: "a \<le> b" and cands: "candidate_folds z n = (if a = b then [(a, 1)] else [(a, 0), (b, 1)])"
      using wall_readings(2) [OF assms(1) True] True by (simp_all add: a_def b_def candidate_folds_def)
    have reading: "local_time z t' = n \<longleftrightarrow> t' = a \<or> t' = b" for t'
      using wall_readings [OF assms(1), of t' n] wall_readings(1) [OF assms(1) True] unfolding a_def b_def by blast
    have "a = b \<or> a < b" using order by auto
    then show ?thesis
      using assms(2) unfolding result reading cands choose_candidate_def by (elim disjE) auto
  qed
qed

text \<open>New York in the autumn of 2026: at 06:00 UTC on November 1 the offset changes from -4 to -5 hours.\<close>

definition new_york_2026 :: time_zone where
  "new_york_2026 = \<lparr>tz_before = - 14400000000, tz_transitions = [(1793512800000000, - 18000000000)]\<rparr>"

text \<open>01:30 on that day.\<close>

definition ambiguous_time :: int where
  "ambiguous_time = 1793496600000000"

lemma ambiguous_time_value:
  "to_utc new_york_2026 ambiguous_time (Some 1) = Inr 1793514600000000"
  by (simp add: to_utc_def choose_candidate_def fold_round_trip_def wall_instant_def local_time_def new_york_2026_def ambiguous_time_def
      in_datetime_range_def EPOCH_ORDINAL_def Let_def)

theorem local_time_resolves_witness:
  "local_time new_york_2026 1793514600000000 = ambiguous_time \<and>
   {t. local_time new_york_2026 t = ambiguous_time} \<subseteq> {..1793514600000000}"
proof -
  have "zone_ok new_york_2026" by (simp add: zone_ok_def new_york_2026_def)
  from local_time_resolves [OF this, of "Some 1" ambiguous_time 1793514600000000]
  show ?thesis unfolding ambiguous_time_value by (simp only: option.simps option.case one_neq_zero) (simp add: subset_iff)
qed

end
