(* ===== verification/Calendar_Manifest.thy ===== *)
theory Calendar_Manifest
  imports Calendar_Zone Brsapi_Normalization
begin

text \<open>
  Calendar files (\<^verbatim>\<open>src/bisfin/calendar/manifest.py\<close>): strict JSON, the validators of the pydantic models, and the
  validation that every date of the declared range has exactly one session, whose local times become instants. The
  coercions of pydantic itself, SHA-256, the Unicode tables and the time zone database are the parameters of a record.
  A binary float of the JSON text is \<open>PyOther\<close>: nothing here looks at its value. The lemmas show what a loaded
  manifest and a validated calendar look like, and how validation fails.
\<close>

subsection \<open>The models\<close>

text \<open>A time of day in microseconds, a date as its ordinal.\<close>

record calendar_session =
  cs_trading_date :: int
  cs_session_code :: pystr
  cs_is_trading_day :: bool
  cs_open_local_time :: "int option"
  cs_close_local_time :: "int option"
  cs_source_status :: pystr
  cs_settlement_date :: "int option"
  cs_open_fold :: "nat option"
  cs_close_fold :: "nat option"
  cs_metadata :: json_row

record calendar_manifest =
  calendar_id :: pystr
  manifest_venue_code :: pystr
  manifest_timezone :: pystr
  date_from :: int
  date_to :: int
  manifest_sessions :: "calendar_session list"

record calendar_manifest_document =
  document_bytes :: bytes
  document_sha256 :: pystr
  document_raw :: json_row
  document_manifest :: calendar_manifest

record validated_calendar_session =
  vs_trading_date :: int
  vs_session_code :: pystr
  vs_is_trading_day :: bool
  vs_open_local_time :: "int option"
  vs_close_local_time :: "int option"
  vs_session_open_ts :: "timestamp option"
  vs_session_close_ts :: "timestamp option"
  vs_settlement_date :: "int option"
  vs_source_status :: pystr
  vs_metadata :: json_row

record calendar_validation_result =
  validated_document :: calendar_manifest_document
  validated_sessions :: "validated_calendar_session list"

subsection \<open>What the validators use\<close>

datatype zone_error = ZoneInfoNotFound | ZoneValueError pystr

text \<open>
  \<open>pyd_date\<close>, \<open>pyd_bool\<close>, \<open>pyd_fold\<close> and \<open>pyd_str\<close> are pydantic's conversions to \<^verbatim>\<open>date\<close>, \<^verbatim>\<open>bool\<close>, \<^verbatim>\<open>Literal[0, 1]\<close> and
  a string with bounds on its length, \<open>None\<close> when it refuses; \<open>pyd_message\<close> is its message for a kind of refusal.
  \<open>zone_info\<close> is the constructor of \<^verbatim>\<open>ZoneInfo\<close>.
\<close>

record manifest_env =
  man_text :: text_env
  man_sha256 :: "bytes \<Rightarrow> pystr"
  pyd_date :: "pyval \<Rightarrow> int option"
  pyd_bool :: "pyval \<Rightarrow> bool option"
  pyd_fold :: "pyval \<Rightarrow> nat option"
  pyd_str :: "nat \<Rightarrow> nat \<Rightarrow> pyval \<Rightarrow> pystr option"
  pyd_message :: "string \<Rightarrow> pystr"
  zone_info :: "pystr \<Rightarrow> (zone_error, time_zone) result"

definition normalize_digits_value :: "pyval \<Rightarrow> pyval" where
  "normalize_digits_value v = (case v of PyStr s \<Rightarrow> PyStr (normalize_digits s) | _ \<Rightarrow> v)"

text \<open>\<^verbatim>\<open>^(\d{2}):(\d{2})(?::(\d{2})(?:\.(\d{1,6}))?)?$\<close>: hour, minute, second and microsecond.\<close>

definition LOCAL_TIME :: "text_env \<Rightarrow> pystr \<Rightarrow> (nat \<times> nat \<times> nat \<times> nat) option" where
  "LOCAL_TIME env s =
     (if length s = 5 \<and> s ! 2 = 58
      then (case (digit_group env (take 2 s), digit_group env (drop 3 s)) of
              (Some h, Some m) \<Rightarrow> Some (h, m, 0, 0) | _ \<Rightarrow> None)
      else if length s = 8 \<and> s ! 2 = 58 \<and> s ! 5 = 58
      then (case (digit_group env (take 2 s), digit_group env (take 2 (drop 3 s)), digit_group env (drop 6 s)) of
              (Some h, Some m, Some x) \<Rightarrow> Some (h, m, x, 0) | _ \<Rightarrow> None)
      else if 10 \<le> length s \<and> length s \<le> 15 \<and> s ! 2 = 58 \<and> s ! 5 = 58 \<and> s ! 8 = 46
      then (case (digit_group env (take 2 s), digit_group env (take 2 (drop 3 s)), digit_group env (take 2 (drop 6 s)),
                  digit_group env (drop 9 s)) of
              (Some h, Some m, Some x, Some f) \<Rightarrow> Some (h, m, x, f * 10 ^ (15 - length s)) | _ \<Rightarrow> None)
      else None)"

definition parse_local_time :: "text_env \<Rightarrow> pyval \<Rightarrow> (string, int option) result" where
  "parse_local_time env v =
     (case v of
        PyNone \<Rightarrow> Inr None
      | PyStr s \<Rightarrow>
          (case LOCAL_TIME env (py_strip (normalize_digits s)) of
             None \<Rightarrow> Inl ''local time must use HH:MM[:SS[.ffffff]]''
           | Some (h, m, x, f) \<Rightarrow>
               if 24 \<le> h \<or> 60 \<le> m \<or> 60 \<le> x then Inl ''local time is invalid''
               else Inr (Some (int (((h * 60 + m) * 60 + x) * 1000000 + f))))
      | _ \<Rightarrow> Inl ''local time must be a string or null'')"

subsection \<open>Fields\<close>

text \<open>Pydantic reports the errors of all fields: a value, or the messages.\<close>

type_synonym 'a checked = "(pystr list, 'a) result"

definition both :: "'a checked \<Rightarrow> 'b checked \<Rightarrow> ('a \<times> 'b) checked" where
  "both x y =
     (case (x, y) of
        (Inr a, Inr b) \<Rightarrow> Inr (a, b)
      | (Inl es, Inl es') \<Rightarrow> Inl (es @ es')
      | (Inl es, Inr _) \<Rightarrow> Inl es
      | (Inr _, Inl es) \<Rightarrow> Inl es)"

fun all_checked :: "('a \<Rightarrow> 'b checked) \<Rightarrow> 'a list \<Rightarrow> 'b list checked" where
  "all_checked f [] = Inr []"
| "all_checked f (x # xs) = (case both (f x) (all_checked f xs) of Inl es \<Rightarrow> Inl es | Inr (y, ys) \<Rightarrow> Inr (y # ys))"

definition coerced :: "manifest_env \<Rightarrow> string \<Rightarrow> 'a option \<Rightarrow> 'a checked" where
  "coerced env kind v = (case v of Some a \<Rightarrow> Inr a | None \<Rightarrow> Inl [pyd_message env kind])"

definition value_error :: "pystr \<Rightarrow> pystr" where
  "value_error message = u ''Value error, '' @ message"

definition required :: "manifest_env \<Rightarrow> json_row \<Rightarrow> string \<Rightarrow> (pyval \<Rightarrow> 'a checked) \<Rightarrow> 'a checked" where
  "required env row name f =
     (case dict_get row (u name) of None \<Rightarrow> Inl [pyd_message env ''missing''] | Some v \<Rightarrow> f v)"

definition optional :: "json_row \<Rightarrow> string \<Rightarrow> 'a \<Rightarrow> (pyval \<Rightarrow> 'a checked) \<Rightarrow> 'a checked" where
  "optional row name absent f = (case dict_get row (u name) of None \<Rightarrow> Inr absent | Some v \<Rightarrow> f v)"

text \<open>\<^verbatim>\<open>extra="forbid"\<close>.\<close>

definition no_extra :: "manifest_env \<Rightarrow> string list \<Rightarrow> json_row \<Rightarrow> unit checked" where
  "no_extra env names row =
     (let extra = filter (\<lambda>k. k \<notin> set (map u names)) (dict_keys row) in
      if extra = [] then Inr () else Inl (map (\<lambda>_. pyd_message env ''extra_forbidden'') extra))"

definition date_value :: "manifest_env \<Rightarrow> pyval \<Rightarrow> int checked" where
  "date_value env v = coerced env ''date'' (pyd_date env (normalize_digits_value v))"

definition nullable :: "(pyval \<Rightarrow> 'a checked) \<Rightarrow> pyval \<Rightarrow> 'a option checked" where
  "nullable f v = (if v = PyNone then Inr None else case f v of Inl es \<Rightarrow> Inl es | Inr a \<Rightarrow> Inr (Some a))"

definition local_time_value :: "manifest_env \<Rightarrow> pyval \<Rightarrow> int option checked" where
  "local_time_value env v =
     (case parse_local_time (man_text env) v of Inl m \<Rightarrow> Inl [value_error (u m)] | Inr t \<Rightarrow> Inr t)"

definition regular_code :: "manifest_env \<Rightarrow> pyval \<Rightarrow> pystr checked" where
  "regular_code env v =
     (case v of PyStr s \<Rightarrow> if s = u ''REGULAR'' then Inr s else Inl [pyd_message env ''literal_error'']
      | _ \<Rightarrow> Inl [pyd_message env ''literal_error''])"

definition object_value :: "manifest_env \<Rightarrow> pyval \<Rightarrow> json_row checked" where
  "object_value env v = (case v of PyDict fs \<Rightarrow> Inr fs | _ \<Rightarrow> Inl [pyd_message env ''dict_type''])"

subsection \<open>A session and the manifest\<close>

definition session_fields :: "string list" where
  "session_fields = [''trading_date'', ''session_code'', ''is_trading_day'', ''open_local_time'', ''close_local_time'',
     ''source_status'', ''settlement_date'', ''open_fold'', ''close_fold'', ''metadata'']"

definition validate_open_closed_shape :: "calendar_session \<Rightarrow> calendar_session checked" where
  "validate_open_closed_shape s =
     (if cs_is_trading_day s
      then (if cs_open_local_time s = None \<or> cs_close_local_time s = None
            then Inl [value_error (u ''open trading days require both local times'')] else Inr s)
      else if cs_open_local_time s \<noteq> None \<or> cs_close_local_time s \<noteq> None
      then Inl [value_error (u ''closed days require both local times to be null'')]
      else Inr s)"

definition validate_session :: "manifest_env \<Rightarrow> pyval \<Rightarrow> calendar_session checked" where
  "validate_session env v =
     (case v of
        PyDict fs \<Rightarrow>
          (case both (required env fs ''trading_date'' (date_value env))
                (both (required env fs ''session_code'' (regular_code env))
                (both (required env fs ''is_trading_day'' (\<lambda>v. coerced env ''bool'' (pyd_bool env v)))
                (both (required env fs ''open_local_time'' (local_time_value env))
                (both (required env fs ''close_local_time'' (local_time_value env))
                (both (required env fs ''source_status'' (\<lambda>v. coerced env ''str'' (pyd_str env 1 128 v)))
                (both (optional fs ''settlement_date'' None (nullable (date_value env)))
                (both (optional fs ''open_fold'' None (nullable (\<lambda>v. coerced env ''fold'' (pyd_fold env v))))
                (both (optional fs ''close_fold'' None (nullable (\<lambda>v. coerced env ''fold'' (pyd_fold env v))))
                (both (optional fs ''metadata'' [] (object_value env))
                      (no_extra env session_fields fs)))))))))) of
             Inl es \<Rightarrow> Inl es
           | Inr (day, code, trading, opens, closes, status, settlement, open_fold, close_fold, meta, _) \<Rightarrow>
               validate_open_closed_shape
                 \<lparr>cs_trading_date = day, cs_session_code = code, cs_is_trading_day = trading, cs_open_local_time = opens,
                  cs_close_local_time = closes, cs_source_status = status, cs_settlement_date = settlement,
                  cs_open_fold = open_fold, cs_close_fold = close_fold, cs_metadata = meta\<rparr>)
      | _ \<Rightarrow> Inl [pyd_message env ''model_type''])"

definition calendar_fields :: "string list" where
  "calendar_fields = [''schema_version'', ''calendar_id'', ''venue_code'', ''timezone'', ''date_from'', ''date_to'', ''sessions'']"

definition session_list :: "manifest_env \<Rightarrow> pyval \<Rightarrow> calendar_session list checked" where
  "session_list env v =
     (case v of PyList vs \<Rightarrow> all_checked (validate_session env) vs | _ \<Rightarrow> Inl [pyd_message env ''tuple_type''])"

definition validate_shape :: "manifest_env \<Rightarrow> calendar_manifest \<Rightarrow> calendar_manifest checked" where
  "validate_shape env m =
     (if date_to m < date_from m then Inl [value_error (u ''date_to must not precede date_from'')]
      else if manifest_sessions m = [] then Inl [value_error (u ''sessions must not be empty'')]
      else case zone_info env (manifest_timezone m) of
        Inl ZoneInfoNotFound \<Rightarrow> Inl [value_error (u ''timezone must be a valid IANA timezone'')]
      | Inl (ZoneValueError message) \<Rightarrow> Inl [value_error message]
      | Inr _ \<Rightarrow> Inr m)"

text \<open>The root is an object whose \<^verbatim>\<open>schema_version\<close> is 1, which the caller has checked.\<close>

definition model_validate :: "manifest_env \<Rightarrow> json_row \<Rightarrow> calendar_manifest checked" where
  "model_validate env fs =
     (case both (required env fs ''calendar_id'' (\<lambda>v. coerced env ''str'' (pyd_str env 1 128 v)))
           (both (required env fs ''venue_code'' (\<lambda>v. coerced env ''str'' (pyd_str env 1 32 v)))
           (both (required env fs ''timezone'' (\<lambda>v. coerced env ''str'' (pyd_str env 1 64 v)))
           (both (required env fs ''date_from'' (date_value env))
           (both (required env fs ''date_to'' (date_value env))
           (both (required env fs ''sessions'' (session_list env))
                 (no_extra env calendar_fields fs)))))) of
        Inl es \<Rightarrow> Inl es
      | Inr (cid, venue, zone, d_from, d_to, sessions, _) \<Rightarrow>
          validate_shape env
            \<lparr>calendar_id = cid, manifest_venue_code = venue, manifest_timezone = zone, date_from = d_from, date_to = d_to,
             manifest_sessions = sessions\<rparr>)"

subsection \<open>Loading\<close>

text \<open>\<^verbatim>\<open>json.loads\<close> without \<^verbatim>\<open>parse_float\<close>: a number with a fraction or an exponent is a binary float.\<close>

fun binary_floats :: "pyval \<Rightarrow> pyval" where
  "binary_floats (PyDec d) = PyOther"
| "binary_floats (PyList vs) = PyList (map binary_floats vs)"
| "binary_floats (PyDict fs) = PyDict (map (\<lambda>(k, v). (k, binary_floats v)) fs)"
| "binary_floats v = v"

definition error_summary_text :: "pystr list \<Rightarrow> pystr" where
  "error_summary_text messages =
     (let message = join (u ''; '') (take 3 messages) in if message = [] then u ''calendar is invalid'' else message)"

text \<open>\<open>file\<close> is what \<^verbatim>\<open>read_bytes\<close> gives, \<open>None\<close> when it raises.\<close>

definition load_calendar_manifest :: "manifest_env \<Rightarrow> bytes option \<Rightarrow> (calendar_error, calendar_manifest_document) result" where
  "load_calendar_manifest env file =
     (case file of
        None \<Rightarrow> Inl (invalid_manifest ''calendar cannot be read'')
      | Some payload \<Rightarrow>
          (case utf8_decode payload of
             None \<Rightarrow> Inl (CalendarManifestError INVALID_UTF8 (u ''calendar is not UTF-8''))
           | Some decoded \<Rightarrow>
               (case json_loads True decoded of
                  Inl JsonDuplicate \<Rightarrow> Inl (CalendarManifestError DUPLICATE_JSON_FIELD (u ''duplicate JSON field''))
                | Inl _ \<Rightarrow> Inl (CalendarManifestError MALFORMED_JSON (u ''calendar JSON is malformed''))
                | Inr v \<Rightarrow>
                    (case binary_floats v of
                       PyDict raw \<Rightarrow>
                         if dict_get raw (u ''schema_version'') \<noteq> Some (PyInt 1)
                         then Inl (CalendarManifestError UNSUPPORTED_SCHEMA_VERSION (u ''unsupported schema_version''))
                         else (case model_validate env raw of
                                 Inl messages \<Rightarrow> Inl (CalendarManifestError INVALID_MANIFEST (error_summary_text messages))
                               | Inr m \<Rightarrow> Inr \<lparr>document_bytes = payload, document_sha256 = man_sha256 env payload,
                                   document_raw = raw, document_manifest = m\<rparr>)
                     | _ \<Rightarrow> Inl (invalid_manifest ''calendar root must be an object'')))))"

subsection \<open>Validation\<close>

definition MAX_ORDINAL :: int where
  "MAX_ORDINAL = 3652059"

text \<open>\<^verbatim>\<open>while current <= date_to\<close>: after the last date of \<^verbatim>\<open>datetime\<close>, adding a day overflows.\<close>

function expected_dates :: "int \<Rightarrow> int \<Rightarrow> (calendar_error, int list) result" where
  "expected_dates current last_date =
     (if last_date < current then Inr []
      else if MAX_ORDINAL \<le> current then Inl CalendarOverflow
      else rbind (expected_dates (current + 1) last_date) (\<lambda>dates. Inr (current # dates)))"
  by pat_completeness auto
termination
  by (relation "measure (\<lambda>(current, last_date). nat (last_date - current + 1))") auto

declare expected_dates.simps [simp del]

fun seen_dates :: "calendar_manifest \<Rightarrow> int list \<Rightarrow> calendar_session list \<Rightarrow> (calendar_error, int list) result" where
  "seen_dates m seen [] = Inr seen"
| "seen_dates m seen (item # items) =
     (if cs_trading_date item \<in> set seen then Inl (invalid_manifest ''duplicate trading_date'')
      else if cs_trading_date item < date_from m \<or> date_to m < cs_trading_date item
      then Inl (invalid_manifest ''trading_date outside declared range'')
      else seen_dates m (cs_trading_date item # seen) items)"

text \<open>\<^verbatim>\<open>datetime.combine\<close>.\<close>

definition combine :: "int \<Rightarrow> int \<Rightarrow> int" where
  "combine day time_of_day = (day - EPOCH_ORDINAL) * 86400000000 + time_of_day"

definition session_instants :: "time_zone \<Rightarrow> calendar_session \<Rightarrow> (calendar_error, timestamp option \<times> timestamp option) result" where
  "session_instants z item =
     (if \<not> cs_is_trading_day item then Inr (None, None)
      else case (cs_open_local_time item, cs_close_local_time item) of
        (Some opens, Some closes) \<Rightarrow>
          rbind (to_utc z (combine (cs_trading_date item) opens) (cs_open_fold item)) (\<lambda>open_ts.
          rbind (to_utc z (combine (cs_trading_date item) closes) (cs_close_fold item)) (\<lambda>close_ts.
            if close_ts \<le> open_ts then Inl (invalid_manifest ''close must be after open'')
            else Inr (Some open_ts, Some close_ts)))
      | _ \<Rightarrow> Inl CalendarAssertion)"

definition validated_session :: "time_zone \<Rightarrow> calendar_session \<Rightarrow> (calendar_error, validated_calendar_session) result" where
  "validated_session z item =
     rbind (session_instants z item) (\<lambda>(open_ts, close_ts).
       Inr \<lparr>vs_trading_date = cs_trading_date item, vs_session_code = cs_session_code item,
            vs_is_trading_day = cs_is_trading_day item, vs_open_local_time = cs_open_local_time item,
            vs_close_local_time = cs_close_local_time item, vs_session_open_ts = open_ts, vs_session_close_ts = close_ts,
            vs_settlement_date = cs_settlement_date item, vs_source_status = cs_source_status item,
            vs_metadata = cs_metadata item\<rparr>)"

definition validate_calendar_manifest ::
  "manifest_env \<Rightarrow> calendar_manifest_document \<Rightarrow> (calendar_error, calendar_validation_result) result" where
  "validate_calendar_manifest env document =
     (let m = document_manifest document in
      rbind (expected_dates (date_from m) (date_to m)) (\<lambda>expected.
      rbind (seen_dates m [] (manifest_sessions m)) (\<lambda>seen.
        if set seen \<noteq> set expected then Inl (invalid_manifest ''calendar range must be complete'')
        else case zone_info env (manifest_timezone m) of
          Inl _ \<Rightarrow> Inl CalendarZoneError
        | Inr z \<Rightarrow>
            rbind (map_result (validated_session z) (sort_key cs_trading_date (manifest_sessions m))) (\<lambda>validated.
              Inr \<lparr>validated_document = document, validated_sessions = validated\<rparr>))))"

definition calendar_source_record_key :: "calendar_manifest \<Rightarrow> validated_calendar_session \<Rightarrow> pystr" where
  "calendar_source_record_key m s =
     u ''bisfin|calendar|'' @ calendar_id m @ [124] @ manifest_venue_code m @ [124] @ vs_session_code s @ [124] @
     iso_date (vs_trading_date s)"

subsection \<open>What validation gives\<close>

lemma expected_dates_eq:
  "expected_dates d e = (if e < d then Inr [] else if MAX_ORDINAL \<le> e then Inl CalendarOverflow else Inr [d..e])"
proof (induction d e rule: expected_dates.induct)
  case (1 d e)
  show ?case
    by (subst expected_dates.simps) (use 1 in \<open>auto simp: upto_rec1\<close>)
qed

lemma seen_dates_cases:
  assumes "seen_dates m seen items = Inr ds" and "distinct seen"
  shows "ds = rev (map cs_trading_date items) @ seen \<and> distinct ds"
  using assms by (induction items arbitrary: seen) (auto split: if_splits)

lemma seen_dates_error:
  "seen_dates m seen items = Inl e \<Longrightarrow> \<exists>message. e = CalendarManifestError INVALID_MANIFEST message"
  by (induction items arbitrary: seen) (auto split: if_splits)

text \<open>The sessions in the order of their dates are one for each date of the range.\<close>

lemma complete_range:
  assumes "seen_dates m [] items = Inr ds" and "set ds = {a..b}"
  shows "map cs_trading_date (sort_key cs_trading_date items) = [a..b]" and "distinct (map cs_trading_date items)"
proof -
  have ds: "ds = rev (map cs_trading_date items)" "distinct ds"
    using seen_dates_cases [OF assms(1) distinct.simps(1) [THEN iffD2, OF TrueI]] by auto
  show dist: "distinct (map cs_trading_date items)"
    using ds(2) unfolding ds(1) by simp
  then have "distinct (map cs_trading_date (sort_key cs_trading_date items))"
    by (simp add: distinct_map)
  then show "map cs_trading_date (sort_key cs_trading_date items) = [a..b]"
    using ds assms(2) by (intro sorted_distinct_set_unique) (auto simp: sorted_upto)
qed

text \<open>What a validated session keeps of its item, and what its instants are.\<close>

definition session_of :: "time_zone \<Rightarrow> calendar_session \<Rightarrow> validated_calendar_session \<Rightarrow> bool" where
  "session_of z item v \<longleftrightarrow>
     vs_trading_date v = cs_trading_date item \<and> vs_session_code v = cs_session_code item \<and>
     vs_is_trading_day v = cs_is_trading_day item \<and> vs_settlement_date v = cs_settlement_date item \<and>
     vs_source_status v = cs_source_status item \<and> vs_metadata v = cs_metadata item \<and>
     (if cs_is_trading_day item
      then \<exists>opens closes open_ts close_ts. cs_open_local_time item = Some opens \<and> cs_close_local_time item = Some closes \<and>
        vs_session_open_ts v = Some open_ts \<and> vs_session_close_ts v = Some close_ts \<and> open_ts < close_ts \<and>
        local_time z open_ts = combine (cs_trading_date item) opens \<and>
        local_time z close_ts = combine (cs_trading_date item) closes
      else vs_session_open_ts v = None \<and> vs_session_close_ts v = None)"

lemma candidates_read:
  "fold_candidates z n folds c = Inr c' \<Longrightarrow> (t, f) \<in> set c' \<Longrightarrow> (t, f) \<in> set c \<or> local_time z t = n"
proof (induction folds arbitrary: c)
  case (Cons g folds)
  obtain t' n' where trip: "fold_round_trip z n g = Inr (t', n')" and n': "n' = local_time z t'"
    using Cons.prems(1) by (auto simp: rbind_Inr_iff fold_round_trip_def Let_def split: if_splits)
  have mem: "p \<in> set (dict_set c t' g) \<Longrightarrow> p \<in> set c \<or> p = (t', g)" for p
    by (induction c t' g rule: dict_set.induct) (auto split: if_splits)
  show ?case
    using Cons.IH [OF _ Cons.prems(2)] Cons.prems(1) trip n' mem [of "(t, f)"] by (auto split: if_splits)
qed simp

lemma to_utc_reads:
  assumes "to_utc z n fd = Inr t"
  shows "local_time z t = n"
proof -
  obtain c where c: "fold_candidates z n [0, 1] [] = Inr c" "choose_candidate fd c = Inr t"
    using assms by (auto simp: to_utc_def rbind_Inr_iff simp del: fold_candidates.simps)
  have "\<exists>f. (t, f) \<in> set c"
  proof (cases fd)
    case None
    then have "c \<noteq> []" "t = fst (hd c)" using c(2) by (auto simp: choose_candidate_def split: if_splits)
    then show ?thesis by (metis hd_in_set prod.collapse)
  next
    case (Some f)
    then have "find (\<lambda>(utc_value, candidate_fold). candidate_fold = f) c = Some (t, f)"
      using c(2) by (auto simp: choose_candidate_def find_Some_iff split: if_splits option.splits)
    then show ?thesis by (metis find_Some_iff nth_mem)
  qed
  then show ?thesis using candidates_read [OF c(1)] by auto
qed

lemma validated_session_of: "validated_session z item = Inr v \<Longrightarrow> session_of z item v"
  by (auto simp: validated_session_def session_instants_def rbind_Inr_iff session_of_def to_utc_reads
      split: if_splits option.splits)

text \<open>C18. A validated calendar is complete: it has exactly one session for every date of the declared range, in the
  order of the dates; each carries what the manifest says of its date; a trading day opens before it closes, at
  instants at which the clocks of the zone show the declared local times, and a closed day has no instants.\<close>

theorem validated_calendar_is_complete:
  assumes "validate_calendar_manifest env document = Inr r"
  defines "m \<equiv> document_manifest document"
  shows "map vs_trading_date (validated_sessions r) = [date_from m..date_to m] \<and>
    distinct (map cs_trading_date (manifest_sessions m)) \<and>
    (\<exists>z. zone_info env (manifest_timezone m) = Inr z \<and>
       list_all2 (session_of z) (sort_key cs_trading_date (manifest_sessions m)) (validated_sessions r))"
proof -
  obtain ds z where steps: "expected_dates (date_from m) (date_to m) \<noteq> Inl CalendarOverflow"
    "seen_dates m [] (manifest_sessions m) = Inr ds" "set ds = {date_from m..date_to m}"
    "zone_info env (manifest_timezone m) = Inr z"
    "map_result (validated_session z) (sort_key cs_trading_date (manifest_sessions m)) = Inr (validated_sessions r)"
    using assms(1) unfolding validate_calendar_manifest_def Let_def m_def [symmetric]
    by (auto simp: rbind_Inr_iff expected_dates_eq split: if_splits sum.splits)
  have rows: "list_all2 (session_of z) (sort_key cs_trading_date (manifest_sessions m)) (validated_sessions r)"
    using steps(5) by (auto simp: map_result_Inr_iff intro: validated_session_of elim: list_all2_mono)
  then have "map vs_trading_date (validated_sessions r) = map cs_trading_date (sort_key cs_trading_date (manifest_sessions m))"
    by (induction rule: list_all2_induct) (simp_all add: session_of_def)
  then show ?thesis
    using complete_range [OF steps(2,3)] rows steps(4) by auto
qed

subsection \<open>What loading gives, and how validation fails\<close>

definition session_shape :: "calendar_session \<Rightarrow> bool" where
  "session_shape s \<longleftrightarrow> (cs_is_trading_day s \<longleftrightarrow> cs_open_local_time s \<noteq> None) \<and>
     (cs_is_trading_day s \<longleftrightarrow> cs_close_local_time s \<noteq> None)"

definition calendar_ok :: "manifest_env \<Rightarrow> calendar_manifest \<Rightarrow> bool" where
  "calendar_ok env m \<longleftrightarrow> date_from m \<le> date_to m \<and> manifest_sessions m \<noteq> [] \<and>
     (\<exists>z. zone_info env (manifest_timezone m) = Inr z) \<and> (\<forall>s \<in> set (manifest_sessions m). session_shape s)"

lemma both_Inr_iff: "both x y = Inr (a, b) \<longleftrightarrow> x = Inr a \<and> y = Inr b"
  by (auto simp: both_def split: sum.splits)

lemma all_checked_member: "all_checked f xs = Inr ys \<Longrightarrow> y \<in> set ys \<Longrightarrow> \<exists>x. f x = Inr y"
  by (induction xs arbitrary: ys) (auto simp: both_Inr_iff split: sum.splits)

lemma validate_session_shape: "validate_session env v = Inr s \<Longrightarrow> session_shape s"
  by (auto simp: validate_session_def validate_open_closed_shape_def session_shape_def split: pyval.splits sum.splits if_splits)

lemma session_list_shape: "session_list env v = Inr ss \<Longrightarrow> s \<in> set ss \<Longrightarrow> session_shape s"
  by (auto simp: session_list_def split: pyval.splits dest!: all_checked_member dest: validate_session_shape)

lemma required_Inr: "required env row name f = Inr a \<Longrightarrow> \<exists>v. f v = Inr a"
  by (auto simp: required_def split: option.splits)

lemma validate_shape_Inr:
  "validate_shape env m = Inr m' \<Longrightarrow>
     m' = m \<and> date_from m \<le> date_to m \<and> manifest_sessions m \<noteq> [] \<and> (\<exists>z. zone_info env (manifest_timezone m) = Inr z)"
  by (auto simp: validate_shape_def split: sum.splits if_splits zone_error.splits)

lemma model_validate_ok:
  assumes "model_validate env fs = Inr m"
  shows "calendar_ok env m"
proof -
  obtain ss where "required env fs ''sessions'' (session_list env) = Inr ss" "manifest_sessions m = ss"
    and shape: "date_from m \<le> date_to m" "manifest_sessions m \<noteq> []" "\<exists>z. zone_info env (manifest_timezone m) = Inr z"
    using assms by (auto simp: model_validate_def both_Inr_iff split: sum.splits dest!: validate_shape_Inr)
  then obtain v where "session_list env v = Inr (manifest_sessions m)" by (auto dest: required_Inr)
  then show ?thesis using shape session_list_shape by (simp add: calendar_ok_def)
qed

lemma load_calendar_ok: "load_calendar_manifest env file = Inr document \<Longrightarrow> calendar_ok env (document_manifest document)"
  by (auto simp: load_calendar_manifest_def model_validate_ok split: option.splits sum.splits json_error.splits pyval.splits if_splits)

lemma to_utc_error: "to_utc z n fd = Inl e \<Longrightarrow> e = CalendarOverflow \<or> (\<exists>message. e = CalendarManifestError INVALID_MANIFEST message)"
proof -
  have "fold_candidates z n folds c = Inl e \<Longrightarrow> e = CalendarOverflow" for folds c
    by (induction folds arbitrary: c) (auto simp: rbind_def fold_round_trip_def Let_def split: sum.splits if_splits)
  then show "to_utc z n fd = Inl e \<Longrightarrow> ?thesis"
    by (auto simp: to_utc_def rbind_def choose_candidate_def simp del: fold_candidates.simps split: sum.splits if_splits option.splits)
qed

lemma validated_session_error:
  "session_shape item \<Longrightarrow> validated_session z item = Inl e \<Longrightarrow>
     e = CalendarOverflow \<or> (\<exists>message. e = CalendarManifestError INVALID_MANIFEST message)"
  by (auto simp: validated_session_def session_instants_def session_shape_def rbind_def dest: to_utc_error
      split: sum.splits if_splits option.splits)

lemma map_result_error: "map_result f xs = Inl e \<Longrightarrow> \<exists>x \<in> set xs. f x = Inl e"
  by (induction xs) (auto simp: rbind_def split: sum.splits)

text \<open>What loads is well formed, and validating it fails only in the declared way: the range is not reversed, there
  are sessions, the zone is known, and a session has both local times exactly when it is a trading day; a failure of
  the validation is a manifest error or an overflow of the date arithmetic, never a failed assertion or a zone error.
  The range that ends on the last date of the calendar always overflows.\<close>

theorem loaded_calendar_fails_only_as_declared:
  assumes "load_calendar_manifest env file = Inr document"
  shows "calendar_ok env (document_manifest document) \<and>
    (case validate_calendar_manifest env document of
       Inl e \<Rightarrow> e = CalendarOverflow \<or> (\<exists>message. e = CalendarManifestError INVALID_MANIFEST message)
     | Inr r \<Rightarrow> validated_document r = document) \<and>
    (MAX_ORDINAL \<le> date_to (document_manifest document) \<longrightarrow> validate_calendar_manifest env document = Inl CalendarOverflow)"
proof -
  define m where "m = document_manifest document"
  have ok: "calendar_ok env m" unfolding m_def by (rule load_calendar_ok [OF assms])
  then obtain z where z: "zone_info env (manifest_timezone m) = Inr z" by (auto simp: calendar_ok_def)
  have rows: "map_result (validated_session z) (sort_key cs_trading_date (manifest_sessions m)) = Inl e \<Longrightarrow>
      e = CalendarOverflow \<or> (\<exists>message. e = CalendarManifestError INVALID_MANIFEST message)" for e
    using ok by (auto simp: calendar_ok_def dest!: map_result_error validated_session_error)
  have "case validate_calendar_manifest env document of
       Inl e \<Rightarrow> e = CalendarOverflow \<or> (\<exists>message. e = CalendarManifestError INVALID_MANIFEST message)
     | Inr r \<Rightarrow> validated_document r = document"
    unfolding validate_calendar_manifest_def Let_def m_def [symmetric]
    using rows by (auto simp: expected_dates_eq z rbind_def dest: seen_dates_error split: sum.splits)
  moreover have "MAX_ORDINAL \<le> date_to m \<Longrightarrow> validate_calendar_manifest env document = Inl CalendarOverflow"
    unfolding validate_calendar_manifest_def Let_def m_def [symmetric]
    using ok by (simp add: expected_dates_eq calendar_ok_def)
  ultimately show ?thesis using ok unfolding m_def by blast
qed

end
