(* ===== verification/Calendar_Import.thy ===== *)
theory Calendar_Import
  imports Calendar_Manifest Ingestion_Safety
begin

text \<open>
  The import of a validated calendar (\<^verbatim>\<open>src/bisfin/calendar/importer.py\<close>, \<^verbatim>\<open>results.py\<close>, \<^verbatim>\<open>errors.py\<close>) and the repository of
  the trading sessions (\<^verbatim>\<open>repositories/trading_calendar_repository.py\<close>), with the two lookups of
  \<^verbatim>\<open>catalog_writer_repository.py\<close> it calls. The database is the one of the ingestion service. Four transactions: start
  a batch, preserve one raw event per session, write the sessions and finish the batch, and, when a session
  conflicts, record the failure. The clock, a fresh identifier, SHA-256, the Unicode table of the redaction and outages
  are the parameters of a record.
\<close>

subsection \<open>Stored metadata\<close>

text \<open>The JSON value of an object read from JSON text; a binary float has none here (\<open>load\<close> makes it \<open>PyOther\<close>).
  Values without a stored form, binary floats and NUL or lone surrogates in strings, do not get to a session in an import: the raw event
  before it has refused them.\<close>

fun json_of :: "pyval \<Rightarrow> json option"
  and json_items_of :: "pyval list \<Rightarrow> json list option"
  and json_fields_of :: "(pystr \<times> pyval) list \<Rightarrow> (pystr \<times> json) list option" where
  "json_of PyNone = Some JNull"
| "json_of (PyBool b) = Some (JBool b)"
| "json_of (PyInt i) = Some (JInt i)"
| "json_of (PyStr s) = Some (JStr s)"
| "json_of (PyList vs) = map_option JList (json_items_of vs)"
| "json_of (PyDict fs) = map_option JObj (json_fields_of fs)"
| "json_of _ = None"
| "json_items_of [] = Some []"
| "json_items_of (v # vs) = (case (json_of v, json_items_of vs) of (Some j, Some js) \<Rightarrow> Some (j # js) | _ \<Rightarrow> None)"
| "json_fields_of [] = Some []"
| "json_fields_of ((k, v) # fs) =
     (case (json_of v, json_fields_of fs) of (Some j, Some js) \<Rightarrow> Some ((k, j) # js) | _ \<Rightarrow> None)"

definition metadata_value :: "json_row \<Rightarrow> (app_error, json_object) result" where
  "metadata_value fs =
     rbind (jsonb_fields fs) (\<lambda>gs.
       case json_fields_of gs of
         None \<Rightarrow> Inl (AppTypeError ''unsupported raw JSON value type'')
       | Some js \<Rightarrow> if json_encodable (JObj js) then Inr js else Inl data_exception)"

lemma field_size: "(k, v) \<in> set fs \<Longrightarrow> size v \<le> size_list (size_prod (\<lambda>x. 0) size) fs"
  by (rule size_list_estimation' [of "(k, v)"]) simp_all

text \<open>Python's \<^verbatim>\<open>==\<close> on decoded JSON: the order of names does not matter, and \<^verbatim>\<open>True == 1\<close>.\<close>

function py_json_eq :: "json \<Rightarrow> json \<Rightarrow> bool" where
  "py_json_eq a b =
     (case (a, b) of
        (JNull, JNull) \<Rightarrow> True
      | (JBool x, JBool y) \<Rightarrow> x = y
      | (JBool x, JInt i) \<Rightarrow> i = of_bool x
      | (JInt i, JBool x) \<Rightarrow> i = of_bool x
      | (JInt i, JInt j) \<Rightarrow> i = j
      | (JStr s, JStr t) \<Rightarrow> s = t
      | (JList xs, JList ys) \<Rightarrow> length xs = length ys \<and> list_all (\<lambda>(x, y). py_json_eq x y) (zip xs ys)
      | (JObj fs, JObj gs) \<Rightarrow>
          length fs = length gs \<and>
          list_all (\<lambda>(k, v). case map_of gs k of None \<Rightarrow> False | Some w \<Rightarrow> py_json_eq v w) fs
      | _ \<Rightarrow> False)"
  by pat_completeness auto
termination
  by (relation "measure (\<lambda>(a, _). size a)")
    (auto dest!: set_zip_leftD simp: less_Suc_eq_le intro: size_list_estimation' field_size)

declare py_json_eq.simps [simp del]

subsection \<open>The sessions\<close>

definition session_key :: "trading_session \<Rightarrow> int \<times> int \<times> pystr" where
  "session_key s = (session_venue_id s, session_trading_date s, trading_session_code s)"

text \<open>\<^verbatim>\<open>get_session\<close> and \<^verbatim>\<open>list_sessions\<close>.\<close>

definition get_session :: "int \<Rightarrow> int \<Rightarrow> pystr \<Rightarrow> catalog_tables \<Rightarrow> (app_error, trading_session option) result" where
  "get_session vid day code c = one_or_none (filter (\<lambda>s. session_key s = (vid, day, code)) (sessions c))"

definition list_sessions :: "int \<Rightarrow> int \<Rightarrow> int \<Rightarrow> pystr \<Rightarrow> catalog_tables \<Rightarrow> trading_session list" where
  "list_sessions vid d_from d_to code c =
     sort_key session_trading_date
       (filter (\<lambda>s. session_venue_id s = vid \<and> d_from \<le> session_trading_date s \<and> session_trading_date s \<le> d_to \<and>
          trading_session_code s = code) (sessions c))"

definition expected_session :: "int \<Rightarrow> validated_calendar_session \<Rightarrow> (app_error, trading_session) result" where
  "expected_session vid v =
     rbind (metadata_value (dict_set (vs_metadata v) (u ''source_status'') (PyStr (vs_source_status v)))) (\<lambda>md.
       Inr \<lparr>session_venue_id = vid, session_trading_date = vs_trading_date v, trading_session_code = vs_session_code v,
            is_trading_day = vs_is_trading_day v, session_open_ts = vs_session_open_ts v,
            session_close_ts = vs_session_close_ts v, settlement_date = vs_settlement_date v, session_metadata = md\<rparr>)"

definition session_differences :: "trading_session \<Rightarrow> trading_session \<Rightarrow> string list" where
  "session_differences actual expected =
     map fst (filter snd
       [(''venue_id'', session_venue_id actual \<noteq> session_venue_id expected),
        (''trading_date'', session_trading_date actual \<noteq> session_trading_date expected),
        (''session_code'', trading_session_code actual \<noteq> trading_session_code expected),
        (''is_trading_day'', is_trading_day actual \<noteq> is_trading_day expected),
        (''session_open_ts'', session_open_ts actual \<noteq> session_open_ts expected),
        (''session_close_ts'', session_close_ts actual \<noteq> session_close_ts expected),
        (''settlement_date'', settlement_date actual \<noteq> settlement_date expected),
        (''metadata'', \<not> py_json_eq (JObj (session_metadata actual)) (JObj (session_metadata expected)))])"

text \<open>The constraints of the table: CHECK, primary key and the foreign key of the venue.\<close>

definition session_check :: "trading_session \<Rightarrow> bool" where
  "session_check s \<longleftrightarrow> \<not> is_trading_day s \<or>
     (case (session_open_ts s, session_close_ts s) of (Some op, Some cl) \<Rightarrow> op < cl | _ \<Rightarrow> False)"

definition insert_session :: "trading_session \<Rightarrow> catalog_tables \<Rightarrow> (app_error, catalog_tables \<times> trading_session) result" where
  "insert_session s c =
     (if \<not> session_check s then Inl check_violation
      else if session_key s \<in> session_key ` set (sessions c) then Inl unique_violation
      else if \<forall>v \<in> set (venues c). venue_id v \<noteq> session_venue_id s then Inl foreign_key_violation
      else Inr (c\<lparr>sessions := sessions c @ [s]\<rparr>, s))"

text \<open>\<^verbatim>\<open>ensure_session\<close>: the row, and whether it was created.\<close>

definition ensure_session ::
  "int \<Rightarrow> validated_calendar_session \<Rightarrow> catalog_tables \<Rightarrow> (app_error, catalog_tables \<times> trading_session \<times> bool) result" where
  "ensure_session vid v c =
     rbind (get_session vid (vs_trading_date v) (vs_session_code v) c) (\<lambda>existing.
     rbind (expected_session vid v) (\<lambda>expected.
       case existing of
         Some actual \<Rightarrow>
           (let differences = session_differences actual expected in
            if differences \<noteq> []
            then Inl (CalendarConflictError (u ''Conflicting existing session '' @ iso_date (vs_trading_date v) @ u '': '' @
                   join (u '', '') (map u differences)))
            else Inr (c, actual, False))
       | None \<Rightarrow> rbind (insert_session expected c) (\<lambda>(c', s). Inr (c', s, True))))"

text \<open>The keys of the advisory locks, in the order in which they are taken.\<close>

definition session_lock_keys :: "int \<Rightarrow> validated_calendar_session list \<Rightarrow> pystr list" where
  "session_lock_keys vid vs =
     map (\<lambda>v. u ''bisfin|calendar-session|'' @ str_int vid @ [124] @ iso_date (vs_trading_date v) @ [124] @ vs_session_code v)
       (sort_key (\<lambda>v. (vs_trading_date v, vs_session_code v)) vs)"

subsection \<open>The catalog\<close>

text \<open>The codes are left out of the messages.\<close>

definition get_venue_by_code :: "pystr \<Rightarrow> catalog_tables \<Rightarrow> (app_error, venue) result" where
  "get_venue_by_code code c =
     rbind (one_or_none (filter (\<lambda>v. venue_code v = code) (venues c))) (\<lambda>row.
       case row of None \<Rightarrow> Inl (CatalogConflictError ''Required venue is not bootstrapped.'') | Some v \<Rightarrow> Inr v)"

definition get_feed_by_codes :: "pystr \<Rightarrow> pystr \<Rightarrow> catalog_tables \<Rightarrow> (app_error, data_feed) result" where
  "get_feed_by_codes pcode fcode c =
     rbind (one_or_none (concat (map (\<lambda>f. map (\<lambda>_. f)
         (filter (\<lambda>p. provider_id p = feed_provider_id f \<and> provider_code p = pcode) (providers c)))
       (filter (\<lambda>f. feed_code f = fcode) (feeds c))))) (\<lambda>row.
       case row of None \<Rightarrow> Inl (CatalogConflictError ''Required feed is not bootstrapped.'') | Some f \<Rightarrow> Inr f)"

definition get_calendar_feed :: "catalog_tables \<Rightarrow> (app_error, data_feed) result" where
  "get_calendar_feed c = get_feed_by_codes (u ''BISFIN'') (u ''BISFIN_TRADING_CALENDAR'') c"

subsection \<open>The service\<close>

datatype calendar_stage = BatchTx | AuditTx | SessionTx | ConflictTx

datatype calendar_clock = ImportStart | ImportFinish calendar_stage

text \<open>A naive reading of the clock is taken as UTC, so every reading is an instant.\<close>

record calendar_env =
  cal_sha256 :: "bytes \<Rightarrow> pystr"
  cal_alnum :: "nat \<Rightarrow> bool"
  cal_uuid :: pystr
  cal_clock :: "calendar_clock \<Rightarrow> timestamp"
  cal_tx_now :: "calendar_stage \<Rightarrow> timestamp"
  cal_outage :: "calendar_stage \<Rightarrow> bool"

record calendar_import_result =
  import_batch_id :: int
  import_calendar_id :: pystr
  import_venue_code :: pystr
  import_status :: ingestion_batch_status
  import_date_from :: pystr
  import_date_to :: pystr
  sessions_received :: int
  trading_days_inserted :: int
  closed_days_inserted :: int
  sessions_unchanged :: int
  sessions_rejected :: int
  import_started_at :: timestamp
  import_finished_at :: timestamp
  import_payload_sha256 :: pystr
  import_idempotent_replay :: bool

definition calendar_transaction ::
  "calendar_env \<Rightarrow> calendar_stage \<Rightarrow> ('a \<Rightarrow> bool) \<Rightarrow> 'a db_op \<Rightarrow> ingestion_db \<Rightarrow> (app_error, 'a) result \<times> ingestion_db" where
  "calendar_transaction env st commit_if body db =
     (if cal_outage env st then (Inl (DatabaseUnavailableError ''PostgreSQL is unavailable.''), db)
      else in_unit_of_work commit_if body db)"

definition calendar_request_id :: "calendar_env \<Rightarrow> pystr option \<Rightarrow> pystr" where
  "calendar_request_id env rid =
     (let stripped = (case rid of None \<Rightarrow> [] | Some s \<Rightarrow> py_strip s) in if stripped = [] then cal_uuid env else stripped)"

definition calendar_metadata :: "calendar_manifest \<Rightarrow> json_object" where
  "calendar_metadata m = [(u ''calendar_id'', JStr (calendar_id m)), (u ''venue_code'', JStr (manifest_venue_code m))]"

text \<open>Transaction A.\<close>

definition batch_body ::
  "calendar_env \<Rightarrow> calendar_manifest \<Rightarrow> pystr \<Rightarrow> timestamp \<Rightarrow> (ingestion_batch \<times> bool) db_op" where
  "batch_body env m rid started =
     db_bind (db_read (\<lambda>db. get_venue_by_code (manifest_venue_code m) (db_catalog db))) (\<lambda>v.
       if timezone_name v \<noteq> manifest_timezone m
       then db_fail (CalendarConflictError (u ''calendar timezone conflicts with venue configuration''))
       else
         db_bind (db_read (\<lambda>db. get_calendar_feed (db_catalog db))) (\<lambda>f.
         db_bind (on_batches (\<lambda>db. create_batch_if_absent (feed_exists db) (cal_tx_now env BatchTx)
             \<lparr>new_feed_id = feed_id f, new_parser_version = u ''trading-calendar-v1'', new_request_id = Some rid,
              new_event_from = None, new_event_to = None, new_source_watermark = None,
              new_metadata = Some (calendar_metadata m), new_started_at = Some (Aware started)\<rparr>)) (\<lambda>(b, created).
           if \<not> created \<and> batch_status b = RUNNING
           then db_fail (CalendarConflictError (u ''calendar request_id is already running''))
           else db_return (b, created))))"

definition time_isoformat :: "int \<Rightarrow> pystr" where
  "time_isoformat t =
     (let s = nat t div 1000000; us = nat t mod 1000000 in
      zero_pad 2 (s div 3600) @ [58] @ zero_pad 2 (s div 60 mod 60) @ [58] @ zero_pad 2 (s mod 60) @
      (if us = 0 then [] else [46] @ zero_pad 6 us))"

definition calendar_raw :: "calendar_manifest \<Rightarrow> validated_calendar_session \<Rightarrow> json_row" where
  "calendar_raw m v =
     (let local_text = (\<lambda>t. case t of None \<Rightarrow> PyNone | Some x \<Rightarrow> PyStr (time_isoformat x)) in
      [(u ''calendar_id'', PyStr (calendar_id m)), (u ''venue_code'', PyStr (manifest_venue_code m)),
       (u ''timezone'', PyStr (manifest_timezone m)), (u ''trading_date'', PyStr (iso_date (vs_trading_date v))),
       (u ''session_code'', PyStr (vs_session_code v)), (u ''is_trading_day'', PyBool (vs_is_trading_day v)),
       (u ''open_local_time'', local_text (vs_open_local_time v)),
       (u ''close_local_time'', local_text (vs_close_local_time v)),
       (u ''source_status'', PyStr (vs_source_status v)), (u ''metadata'', PyDict (vs_metadata v))])"

definition sha256_json :: "calendar_env \<Rightarrow> pyval \<Rightarrow> (app_error, pystr) result" where
  "sha256_json env v =
     rbind (canonical_json_text v) (\<lambda>text.
       case utf8_encode text of Inl _ \<Rightarrow> Inl (AppValueError ''surrogates not allowed'') | Inr bs \<Rightarrow> Inr (cal_sha256 env bs))"

text \<open>Transaction B.\<close>

definition insert_session_event ::
  "calendar_env \<Rightarrow> ingestion_batch \<Rightarrow> data_feed \<Rightarrow> calendar_manifest \<Rightarrow> timestamp \<Rightarrow> validated_calendar_session \<Rightarrow> raw_event db_op" where
  "insert_session_event env b f m started v =
     db_bind (db_lift (sha256_json env (PyDict (calendar_raw m v)))) (\<lambda>digest.
       on_events (\<lambda>db. insert_response_record (batch_exists db) (feed_exists db)
         \<lparr>ne_ingested_at = Aware started, ne_batch_id = ingestion_batch_id b, ne_feed_id = feed_id f,
          ne_payload_sha256 = digest, ne_raw_payload = calendar_raw m v,
          ne_source_record_key = Some (calendar_source_record_key m v), ne_source_event_time_text = None,
          ne_source_date_text = Some (iso_date (vs_trading_date v)), ne_source_sequence = None, ne_observed_at = None,
          ne_validation_status = ACCEPTED, ne_validation_errors = []\<rparr>))"

fun insert_session_events ::
  "calendar_env \<Rightarrow> ingestion_batch \<Rightarrow> data_feed \<Rightarrow> calendar_manifest \<Rightarrow> timestamp \<Rightarrow> validated_calendar_session list \<Rightarrow> unit db_op" where
  "insert_session_events env b f m started [] = db_return ()"
| "insert_session_events env b f m started (v # vs) =
     db_bind (insert_session_event env b f m started v) (\<lambda>_. insert_session_events env b f m started vs)"

definition audit_body ::
  "calendar_env \<Rightarrow> ingestion_batch \<Rightarrow> calendar_manifest \<Rightarrow> timestamp \<Rightarrow> validated_calendar_session list \<Rightarrow> unit db_op" where
  "audit_body env b m started vs =
     db_bind (db_read (\<lambda>db. get_calendar_feed (db_catalog db))) (\<lambda>f.
     db_bind (ensure_event_month started) (\<lambda>_.
       insert_session_events env b f m started vs))"

text \<open>Transaction C. The counts are the open and the closed days inserted and the sessions left unchanged.\<close>

type_synonym session_counts = "int \<times> int \<times> int"

definition on_catalog :: "(catalog_tables \<Rightarrow> (app_error, catalog_tables \<times> 'a) result) \<Rightarrow> 'a db_op" where
  "on_catalog f db = rbind (f (db_catalog db)) (\<lambda>(c, a). Inr (db\<lparr>db_catalog := c\<rparr>, a))"

definition count_session :: "validated_calendar_session \<Rightarrow> bool \<Rightarrow> session_counts \<Rightarrow> session_counts" where
  "count_session v created n =
     (case n of (opened, shut, unchanged) \<Rightarrow>
        if created then (if vs_is_trading_day v then (opened + 1, shut, unchanged) else (opened, shut + 1, unchanged))
        else (opened, shut, unchanged + 1))"

fun ensure_sessions :: "int \<Rightarrow> validated_calendar_session list \<Rightarrow> session_counts \<Rightarrow> session_counts db_op" where
  "ensure_sessions vid [] n = db_return n"
| "ensure_sessions vid (v # vs) n =
     db_bind (on_catalog (ensure_session vid v)) (\<lambda>(s, created). ensure_sessions vid vs (count_session v created n))"

definition acquire_session_locks :: "int \<Rightarrow> validated_calendar_session list \<Rightarrow> pystr list db_op" where
  "acquire_session_locks vid vs = db_return (session_lock_keys vid vs)"

definition session_body ::
  "calendar_env \<Rightarrow> ingestion_batch \<Rightarrow> calendar_validation_result \<Rightarrow> (session_counts \<times> timestamp) db_op" where
  "session_body env b validated =
     (let document = validated_document validated; m = document_manifest document; vs = validated_sessions validated in
      db_bind (db_read (\<lambda>db. get_venue_by_code (manifest_venue_code m) (db_catalog db))) (\<lambda>v.
      db_bind (acquire_session_locks (venue_id v) vs) (\<lambda>_.
      db_bind (ensure_sessions (venue_id v) vs (0, 0, 0)) (\<lambda>n.
        let finished = cal_clock env (ImportFinish SessionTx) in
        db_bind (on_batches (\<lambda>_. finalize_batch (cal_alnum env) (cal_tx_now env SessionTx) (ingestion_batch_id b)
            \<lparr>final_status = SUCCEEDED, final_received = int (length vs), final_accepted = int (length vs),
             final_rejected = 0, final_payload = Some (document_sha256 document), final_watermark = None,
             final_error = None, final_metadata = Some (calendar_metadata m),
             final_finished_at = Some (Aware finished)\<rparr>)) (\<lambda>_.
          db_return (n, finished))))))"

text \<open>Transaction D.\<close>

definition conflict_body ::
  "calendar_env \<Rightarrow> ingestion_batch \<Rightarrow> calendar_validation_result \<Rightarrow> pystr \<Rightarrow> ingestion_batch db_op" where
  "conflict_body env b validated message =
     (let m = document_manifest (validated_document validated); n = int (length (validated_sessions validated)) in
      on_batches (\<lambda>_. finalize_batch (cal_alnum env) (cal_tx_now env ConflictTx) (ingestion_batch_id b)
        \<lparr>final_status = FAILED, final_received = n, final_accepted = 0, final_rejected = n, final_payload = None,
         final_watermark = None, final_error = Some message,
         final_metadata = Some (calendar_metadata m @ [(u ''failure_code'', JStr (u ''CALENDAR_CONFLICT''))]),
         final_finished_at = Some (Aware (cal_clock env (ImportFinish ConflictTx)))\<rparr>))"

definition calendar_replay_result :: "ingestion_batch \<Rightarrow> calendar_validation_result \<Rightarrow> calendar_import_result" where
  "calendar_replay_result b validated =
     (let m = document_manifest (validated_document validated) in
      \<lparr>import_batch_id = ingestion_batch_id b, import_calendar_id = calendar_id m,
       import_venue_code = manifest_venue_code m, import_status = batch_status b,
       import_date_from = iso_date (date_from m), import_date_to = iso_date (date_to m),
       sessions_received = int (length (validated_sessions validated)), trading_days_inserted = 0,
       closed_days_inserted = 0, sessions_unchanged = 0, sessions_rejected = rejected_row_count b,
       import_started_at = started_at b,
       import_finished_at = (case finished_at b of None \<Rightarrow> started_at b | Some t \<Rightarrow> t),
       import_payload_sha256 = (case batch_payload_sha256 b of None \<Rightarrow> [] | Some s \<Rightarrow> s),
       import_idempotent_replay = True\<rparr>)"

definition imported_result ::
  "ingestion_batch \<Rightarrow> calendar_validation_result \<Rightarrow> timestamp \<Rightarrow> session_counts \<times> timestamp \<Rightarrow> calendar_import_result" where
  "imported_result b validated started outcome =
     (case outcome of ((opened, shut, unchanged), finished) \<Rightarrow>
        let document = validated_document validated; m = document_manifest document in
        \<lparr>import_batch_id = ingestion_batch_id b, import_calendar_id = calendar_id m,
         import_venue_code = manifest_venue_code m, import_status = SUCCEEDED,
         import_date_from = iso_date (date_from m), import_date_to = iso_date (date_to m),
         sessions_received = int (length (validated_sessions validated)), trading_days_inserted = opened,
         closed_days_inserted = shut, sessions_unchanged = unchanged, sessions_rejected = 0,
         import_started_at = started, import_finished_at = finished,
         import_payload_sha256 = document_sha256 document, import_idempotent_replay = False\<rparr>)"

text \<open>Only a \<^verbatim>\<open>CalendarConflictError\<close> of transaction C is caught; it is raised again once D has recorded it.\<close>

definition write_calendar ::
  "calendar_env \<Rightarrow> ingestion_batch \<Rightarrow> calendar_validation_result \<Rightarrow> timestamp \<Rightarrow> ingestion_db \<Rightarrow>
     (app_error, calendar_import_result) result \<times> ingestion_db" where
  "write_calendar env b validated started db =
     (case calendar_transaction env SessionTx (\<lambda>_. True) (session_body env b validated) db of
        (Inr outcome, db) \<Rightarrow> (Inr (imported_result b validated started outcome), db)
      | (Inl (CalendarConflictError message), db) \<Rightarrow>
          and_then (calendar_transaction env ConflictTx (\<lambda>_. True) (conflict_body env b validated message) db) (\<lambda>_ db.
            (Inl (CalendarConflictError message), db))
      | (Inl e, db) \<Rightarrow> (Inl e, db))"

definition import_calendar ::
  "calendar_env \<Rightarrow> calendar_validation_result \<Rightarrow> pystr option \<Rightarrow> ingestion_db \<Rightarrow>
     (app_error, calendar_import_result) result \<times> ingestion_db" where
  "import_calendar env validated rid db =
     (let m = document_manifest (validated_document validated); started = cal_clock env ImportStart in
      and_then (calendar_transaction env BatchTx snd (batch_body env m (calendar_request_id env rid) started) db) (\<lambda>(b, created) db.
        if \<not> created then (Inr (calendar_replay_result b validated), db)
        else and_then (calendar_transaction env AuditTx (\<lambda>_. True) (audit_body env b m started (validated_sessions validated)) db) (\<lambda>_.
          write_calendar env b validated started)))"

end
