(* ===== verification/Calendar_Safety.thy ===== *)
theory Calendar_Safety
  imports Calendar_Import
begin

text \<open>
  What the calendar import guarantees. The session table is append-only with one row per key, an instance of the
  contract of evolving tables. A case rule follows an import through its transactions; from it: an import writes all
  of its sessions or none, what it wrote is found unchanged after every later import, a conflict is recorded with the
  evidence preserved, and an import that ends in any other error leaves its batch running and its request blocked.
\<close>

subsection \<open>The session table\<close>

inductive session_step :: "catalog_tables \<Rightarrow> catalog_tables \<Rightarrow> bool" where
  step_ensure: "ensure_session vid v c = Inr (c', s, created) \<Longrightarrow> session_step c c'"

inductive_cases session_stepE: "session_step c c'"

definition session_inv :: "catalog_tables \<Rightarrow> bool" where
  "session_inv c \<longleftrightarrow> distinct (map session_key (sessions c)) \<and> (\<forall>s \<in> set (sessions c). session_check s)"

lemma one_or_none_Inr: "one_or_none rows = Inr (Some r) \<longleftrightarrow> rows = [r]" "one_or_none rows = Inr None \<longleftrightarrow> rows = []"
  by (auto simp: one_or_none_def split: list.splits)

lemma get_session_Some:
  "get_session vid day code c = Inr (Some s) \<Longrightarrow> s \<in> set (sessions c) \<and> session_key s = (vid, day, code)"
  by (auto simp: get_session_def one_or_none_Inr filter_eq_Cons_iff)

lemma get_session_member:
  assumes "session_inv c" and "s \<in> set (sessions c)"
  shows "get_session (session_venue_id s) (session_trading_date s) (trading_session_code s) c = Inr (Some s)"
proof -
  have "sorted_wrt (\<lambda>a b. session_key a \<noteq> session_key b) (sessions c)"
    using assms(1) by (simp add: session_inv_def distinct_sorted_wrt)
  then have "filter (\<lambda>x. session_key x = session_key s) (sessions c) = [s]"
    using filter_at_most_one [of "\<lambda>a b. session_key a \<noteq> session_key b" "sessions c" "\<lambda>x. session_key x = session_key s"]
      assms by (auto simp: filter_empty_conv session_inv_def distinct_map inj_on_def)
  then show ?thesis by (simp add: get_session_def one_or_none_Inr session_key_def)
qed

text \<open>The two outcomes of \<^verbatim>\<open>ensure_session\<close>.\<close>

definition kept_session :: "trading_session \<Rightarrow> trading_session \<Rightarrow> bool" where
  "kept_session s expected \<longleftrightarrow> session_key s = session_key expected \<and> is_trading_day s = is_trading_day expected \<and>
     session_open_ts s = session_open_ts expected \<and> session_close_ts s = session_close_ts expected \<and>
     settlement_date s = settlement_date expected"

lemma no_differences: "session_differences s expected = [] \<Longrightarrow> kept_session s expected"
  by (auto simp: session_differences_def kept_session_def session_key_def split: if_splits)

lemma expected_key: "expected_session vid v = Inr e \<Longrightarrow> session_key e = (vid, vs_trading_date v, vs_session_code v)"
  by (auto simp: expected_session_def rbind_Inr_iff session_key_def)

lemma ensure_session_cases:
  assumes "ensure_session vid v c = Inr (c', s, created)"
  obtains e where "expected_session vid v = Inr e" "\<not> created" "c' = c" "s \<in> set (sessions c)" "session_differences s e = []"
  | "expected_session vid v = Inr s" "created" "c' = c\<lparr>sessions := sessions c @ [s]\<rparr>" "session_check s"
    "session_key s \<notin> session_key ` set (sessions c)"
proof -
  obtain existing e where got: "get_session vid (vs_trading_date v) (vs_session_code v) c = Inr existing"
    and e: "expected_session vid v = Inr e"
    using assms by (auto simp: ensure_session_def rbind_Inr_iff)
  show ?thesis
  proof (cases existing)
    case (Some a)
    then have "session_differences a e = [] \<and> c' = c \<and> s = a \<and> \<not> created"
      using assms got e by (simp add: ensure_session_def Let_def split: if_splits)
    then show ?thesis using that(1) [OF e] got Some by (auto dest: get_session_Some)
  next
    case None
    then show ?thesis
      using assms got e that(2) by (auto simp: ensure_session_def insert_session_def split: if_splits)
  qed
qed

interpretation session_log: evolving_table "\<lambda>c. set (sessions c)" session_step session_inv "(=)"
proof
  fix c c' s
  assume inv: "session_inv c" and step: "session_step c c'"
  show "session_inv c'"
    using step inv by (elim session_stepE ensure_session_cases) (auto simp: session_inv_def)
  assume "s \<in> set (sessions c)"
  then show "\<exists>s' \<in> set (sessions c'). s = s'"
    using step by (elim session_stepE ensure_session_cases) auto
qed simp_all

text \<open>A run of \<^verbatim>\<open>ensure_sessions\<close> appends rows and leaves a row for every session of the calendar.\<close>

definition wrote :: "int \<Rightarrow> validated_calendar_session list \<Rightarrow> catalog_tables \<Rightarrow> catalog_tables \<Rightarrow> trading_session list \<Rightarrow> bool" where
  "wrote vid vs c c' new \<longleftrightarrow> c' = c\<lparr>sessions := sessions c @ new\<rparr> \<and>
     (\<forall>v \<in> set vs. \<exists>s \<in> set (sessions c'). \<exists>e. expected_session vid v = Inr e \<and> kept_session s e)"

lemma ensure_sessions_wrote:
  assumes "ensure_sessions vid vs n db = Inr (db', n')"
  shows "\<exists>new. wrote vid vs (db_catalog db) (db_catalog db') new \<and> db' = db\<lparr>db_catalog := db_catalog db'\<rparr> \<and>
    session_step\<^sup>*\<^sup>* (db_catalog db) (db_catalog db') \<and>
    fst n' = fst n + int (length (filter is_trading_day new)) \<and>
    fst (snd n') = fst (snd n) + int (length (filter (\<lambda>s. \<not> is_trading_day s) new)) \<and>
    snd (snd n') = snd (snd n) + int (length vs) - int (length new)"
  using assms
proof (induction vs arbitrary: n db)
  case Nil
  then show ?case by (intro exI [of _ "[]"]) (auto simp: db_return_def wrote_def)
next
  case (Cons v vs)
  obtain c s created where first: "ensure_session vid v (db_catalog db) = Inr (c, s, created)"
    and rest: "ensure_sessions vid vs (count_session v created n) (db\<lparr>db_catalog := c\<rparr>) = Inr (db', n')"
    using Cons.prems by (auto simp: db_bind_def on_catalog_def rbind_Inr_iff)
  from Cons.IH [OF rest] obtain new where new: "wrote vid vs c (db_catalog db') new"
    and upd: "db' = db\<lparr>db_catalog := db_catalog db'\<rparr>" and steps: "session_step\<^sup>*\<^sup>* c (db_catalog db')"
    and counts: "fst n' = fst (count_session v created n) + int (length (filter is_trading_day new))"
      "fst (snd n') = fst (snd (count_session v created n)) + int (length (filter (\<lambda>s. \<not> is_trading_day s) new))"
      "snd (snd n') = snd (snd (count_session v created n)) + int (length vs) - int (length new)"
    by auto
  have all: "session_step\<^sup>*\<^sup>* (db_catalog db) (db_catalog db')"
    using step_ensure [OF first] steps by (rule converse_rtranclp_into_rtranclp)
  show ?case
    using first
  proof (cases rule: ensure_session_cases)
    case (1 e)
    have "wrote vid (v # vs) (db_catalog db) (db_catalog db') new"
      using new 1 no_differences unfolding wrote_def by fastforce
    then show ?thesis
      using upd all counts 1(2) by (intro exI [of _ new]) (auto simp: count_session_def split: prod.splits)
  next
    case 2
    have "wrote vid (v # vs) (db_catalog db) (db_catalog db') (s # new)"
      using new 2 unfolding wrote_def by (force simp: kept_session_def)
    moreover have "is_trading_day s = vs_is_trading_day v"
      using 2(1) by (auto simp: expected_session_def rbind_Inr_iff)
    ultimately show ?thesis
      using upd all counts 2(2) by (intro exI [of _ "s # new"]) (auto simp: count_session_def split: prod.splits)
  qed
qed

subsection \<open>The transactions of an import\<close>

lemma calendar_transaction_Inr:
  "calendar_transaction env st commit_if body db = (Inr a, db') \<Longrightarrow>
     \<exists>db1. body db = Inr (db1, a) \<and> db' = (if commit_if a then db1 else db)"
  by (auto simp: calendar_transaction_def in_unit_of_work_def split: if_splits sum.splits prod.splits)

lemma calendar_transaction_Inl:
  "calendar_transaction env st commit_if body db = (Inl e, db') \<Longrightarrow>
     db' = db \<and> (body db = Inl e \<or> e = DatabaseUnavailableError ''PostgreSQL is unavailable.'')"
  by (auto simp: calendar_transaction_def in_unit_of_work_def split: if_splits sum.splits prod.splits)

definition is_conflict :: "app_error \<Rightarrow> bool" where
  "is_conflict e \<longleftrightarrow> (\<exists>message. e = CalendarConflictError message)"

abbreviation batch_step_of :: "calendar_env \<Rightarrow> calendar_validation_result \<Rightarrow> pystr option \<Rightarrow> (ingestion_batch \<times> bool) db_op" where
  "batch_step_of env validated rid \<equiv>
     batch_body env (document_manifest (validated_document validated)) (calendar_request_id env rid) (cal_clock env ImportStart)"

abbreviation audit_step_of :: "calendar_env \<Rightarrow> calendar_validation_result \<Rightarrow> ingestion_batch \<Rightarrow> unit db_op" where
  "audit_step_of env validated b \<equiv>
     audit_body env b (document_manifest (validated_document validated)) (cal_clock env ImportStart) (validated_sessions validated)"

text \<open>The last two transactions.\<close>

lemma write_cases:
  assumes "write_calendar env b validated started db = (r, db')"
  obtains (written) outcome where "session_body env b validated db = Inr (db', outcome)"
      "r = Inr (imported_result b validated started outcome)"
  | (conflicting) message b' where "session_body env b validated db = Inl (CalendarConflictError message)"
      "conflict_body env b validated message db = Inr (db', b')" "r = Inl (CalendarConflictError message)"
  | (abandoned) e where "r = Inl e" "db' = db" "\<not> is_conflict e \<or> (\<exists>message. conflict_body env b validated message db = Inl e)"
proof -
  obtain rs dbs where S: "calendar_transaction env SessionTx (\<lambda>_. True) (session_body env b validated) db = (rs, dbs)"
    by fastforce
  show thesis
  proof (cases rs)
    case (Inr outcome)
    then show thesis
      using S assms written calendar_transaction_Inr [OF S [unfolded Inr]] by (auto simp: write_calendar_def)
  next
    case (Inl e)
    note s = calendar_transaction_Inl [OF S [unfolded Inl]]
    show thesis
    proof (cases "is_conflict e")
      case False
      then have "(r, db') = (Inl e, db)"
        using S Inl s assms by (cases e) (auto simp: write_calendar_def is_conflict_def)
      then show thesis using False abandoned by simp
    next
      case True
      then obtain message where e: "e = CalendarConflictError message" by (auto simp: is_conflict_def)
      obtain rd dbd where D: "calendar_transaction env ConflictTx (\<lambda>_. True) (conflict_body env b validated message) db = (rd, dbd)"
        by fastforce
      have eq: "(r, db') = and_then (rd, dbd) (\<lambda>_ db. (Inl (CalendarConflictError message), db))"
        using S Inl s e D assms by (simp add: write_calendar_def)
      show thesis
      proof (cases rd)
        case (Inl e')
        then show thesis
          using calendar_transaction_Inl [OF D [unfolded Inl]] eq abandoned by (auto simp: and_then_def is_conflict_def)
      next
        case (Inr b')
        then show thesis
          using calendar_transaction_Inr [OF D [unfolded Inr]] eq s e conflicting by (auto simp: and_then_def)
      qed
    qed
  qed
qed

text \<open>How an import goes, by the transactions that were committed.\<close>

lemma import_cases:
  assumes "import_calendar env validated rid db = (r, db')"
  obtains (refused) e where "r = Inl e" "db' = db"
  | (replayed) b db1 where "batch_step_of env validated rid db = Inr (db1, b, False)" "r = Inr (calendar_replay_result b validated)" "db' = db"
  | (no_audit) b db1 e where "batch_step_of env validated rid db = Inr (db1, b, True)" "r = Inl e" "db' = db1"
      "audit_step_of env validated b db1 = Inl e \<or> \<not> is_conflict e"
  | (abandoned) b db1 db2 e where "batch_step_of env validated rid db = Inr (db1, b, True)"
      "audit_step_of env validated b db1 = Inr (db2, ())" "r = Inl e" "db' = db2"
      "\<not> is_conflict e \<or> (\<exists>message. conflict_body env b validated message db2 = Inl e)"
  | (conflicting) b db1 db2 message b' where "batch_step_of env validated rid db = Inr (db1, b, True)"
      "audit_step_of env validated b db1 = Inr (db2, ())" "session_body env b validated db2 = Inl (CalendarConflictError message)"
      "conflict_body env b validated message db2 = Inr (db', b')" "r = Inl (CalendarConflictError message)"
  | (written) b db1 db2 outcome where "batch_step_of env validated rid db = Inr (db1, b, True)"
      "audit_step_of env validated b db1 = Inr (db2, ())" "session_body env b validated db2 = Inr (db', outcome)"
      "r = Inr (imported_result b validated (cal_clock env ImportStart) outcome)"
proof -
  let ?A = "calendar_transaction env BatchTx snd (batch_step_of env validated rid) db"
  have import_eq: "(r, db') = and_then ?A (\<lambda>(b, created) db.
        if \<not> created then (Inr (calendar_replay_result b validated), db)
        else and_then (calendar_transaction env AuditTx (\<lambda>_. True) (audit_step_of env validated b) db) (\<lambda>_.
          write_calendar env b validated (cal_clock env ImportStart)))"
    using assms by (simp add: import_calendar_def Let_def)
  show thesis
  proof (cases ?A)
    case (Pair ra dba)
    show thesis
    proof (cases ra)
      case (Inl e)
      then show thesis
        using import_eq Pair calendar_transaction_Inl [OF Pair [unfolded Inl]] refused by (simp add: and_then_def)
    next
      case (Inr bc)
      obtain b created where bc: "bc = (b, created)" by (cases bc)
      obtain db1 where a: "batch_step_of env validated rid db = Inr (db1, b, created)" "dba = (if created then db1 else db)"
        using calendar_transaction_Inr [OF Pair [unfolded Inr bc]] by auto
      show thesis
      proof (cases created)
        case False
        then show thesis using import_eq Pair Inr bc a replayed by (simp add: and_then_def)
      next
        case True
        let ?B = "calendar_transaction env AuditTx (\<lambda>_. True) (audit_step_of env validated b) db1"
        have next_eq: "(r, db') = and_then ?B (\<lambda>_. write_calendar env b validated (cal_clock env ImportStart))"
          using import_eq Pair Inr bc a True by (simp add: and_then_def)
        obtain rb dbb where B: "?B = (rb, dbb)" by (cases ?B)
        show thesis
        proof (cases rb)
          case (Inl e)
          then show thesis
            using next_eq B a True calendar_transaction_Inl [of env AuditTx] no_audit
            by (fastforce simp: and_then_def is_conflict_def)
        next
          case (Inr x)
          then obtain db2 where b2: "audit_step_of env validated b db1 = Inr (db2, ())" "dbb = db2"
            using calendar_transaction_Inr [of env AuditTx] B by fastforce
          have last: "(r, db') = write_calendar env b validated (cal_clock env ImportStart) db2"
            using next_eq B Inr b2(2) by (simp add: and_then_def)
          have a': "batch_step_of env validated rid db = Inr (db1, b, True)" using a(1) True by simp
          from last [symmetric] show thesis
          proof (cases rule: write_cases)
            case (written outcome)
            then show thesis using that(6) [OF a' b2(1)] by blast
          next
            case (conflicting message b')
            then show thesis using that(5) [OF a' b2(1)] by blast
          next
            case (abandoned e)
            then show thesis using that(4) [OF a' b2(1)] by blast
          qed
        qed
      qed
    qed
  qed
qed

subsection \<open>What each transaction does\<close>

abbreviation calendar_of :: "calendar_validation_result \<Rightarrow> calendar_manifest" where
  "calendar_of validated \<equiv> document_manifest (validated_document validated)"

text \<open>The feed and the venue of a calendar, as transaction A finds them.\<close>

definition calendar_ready :: "calendar_manifest \<Rightarrow> catalog_tables \<Rightarrow> data_feed \<Rightarrow> bool" where
  "calendar_ready m c f \<longleftrightarrow> get_calendar_feed c = Inr f \<and>
     (\<exists>v. get_venue_by_code (manifest_venue_code m) c = Inr v \<and> timezone_name v = manifest_timezone m)"

lemma batch_body_facts:
  assumes "batch_body env m rid started db = Inr (db1, b, created)"
  obtains f where "calendar_ready m (db_catalog db) f" "db1 = db\<lparr>db_batches := db_batches db1\<rparr>"
    "batch_step (db_batches db) (db_batches db1)" "batch_feed_id b = feed_id f" "request_id b = Some rid"
    "created \<Longrightarrow> appends_row (db_batches db) (db_batches db1) b \<and> batch_status b = RUNNING"
    "\<not> created \<Longrightarrow> b \<in> set (batches (db_batches db)) \<and> batch_status b \<noteq> RUNNING"
proof -
  let ?new = "\<lambda>f. \<lparr>new_feed_id = feed_id f, new_parser_version = u ''trading-calendar-v1'', new_request_id = Some rid,
      new_event_from = None, new_event_to = None, new_source_watermark = None,
      new_metadata = Some (calendar_metadata m), new_started_at = Some (Aware started)\<rparr>"
  obtain f t where ready: "calendar_ready m (db_catalog db) f"
    and create: "create_batch_if_absent (feed_exists db) (cal_tx_now env BatchTx) (?new f) (db_batches db) = Inr (t, b, created)"
    and db1: "db1 = db\<lparr>db_batches := t\<rparr>" and running: "created \<or> batch_status b \<noteq> RUNNING"
    using assms
    by (auto simp: batch_body_def db_bind_def db_read_def on_batches_def db_fail_def db_return_def rbind_Inr_iff
        calendar_ready_def split: if_splits)
  have cases: "created \<and> appends_row (db_batches db) t b \<or> \<not> created \<and> b \<in> set (batches (db_batches db))"
    using create_batch_if_absent_cases [OF create] by blast
  have row: "batch_feed_id b = feed_id f \<and> request_id b = Some rid \<and> (created \<longrightarrow> batch_status b = RUNNING)"
    using create_batch_if_absent_cases [OF create] create
    by (auto simp: create_batch_if_absent_def rbind_Inr_iff split: option.splits if_splits dest: batch_row_fresh)
  show thesis
    using that [OF ready] db1 step_create_if_absent [OF create] row cases running by auto
qed

lemma insert_session_event_facts:
  assumes "insert_session_event env b f m started v db = Inr (db', e)"
  shows "db' = db\<lparr>db_events := db_events db'\<rparr> \<and> event_step (db_events db) (db_events db') \<and>
    raw_events (db_events db') = raw_events (db_events db) @ [e] \<and>
    source_record_key e = Some (calendar_source_record_key m v) \<and> event_batch_id e = ingestion_batch_id b"
proof -
  obtain n t where ins: "insert_response_record (batch_exists db) (feed_exists db) n (db_events db) = Inr (t, e)"
    and n: "ne_source_record_key n = Some (calendar_source_record_key m v)" "ne_batch_id n = ingestion_batch_id b"
    and db': "db' = db\<lparr>db_events := t\<rparr>"
    using assms by (auto simp: insert_session_event_def db_bind_def db_lift_def on_events_def rbind_Inr_iff)
  show ?thesis
    using insert_response_record_cases [OF ins] n db' step_insert [OF ins] by simp
qed

lemma insert_session_events_facts:
  assumes "insert_session_events env b f m started vs db = Inr (db', ())"
  shows "db' = db\<lparr>db_events := db_events db'\<rparr> \<and> event_step\<^sup>*\<^sup>* (db_events db) (db_events db') \<and>
    (\<exists>es. raw_events (db_events db') = raw_events (db_events db) @ es \<and>
       map source_record_key es = map (\<lambda>v. Some (calendar_source_record_key m v)) vs \<and>
       (\<forall>e \<in> set es. event_batch_id e = ingestion_batch_id b))"
  using assms
proof (induction vs arbitrary: db)
  case (Cons v vs)
  obtain db1 e where one: "insert_session_event env b f m started v db = Inr (db1, e)"
    and rest: "insert_session_events env b f m started vs db1 = Inr (db', ())"
    using Cons.prems by (auto simp: db_bind_def rbind_Inr_iff)
  note first = insert_session_event_facts [OF one]
  from Cons.IH [OF rest] obtain es where es: "raw_events (db_events db') = raw_events (db_events db1) @ es"
      "map source_record_key es = map (\<lambda>v. Some (calendar_source_record_key m v)) vs"
      "\<forall>e \<in> set es. event_batch_id e = ingestion_batch_id b"
    and db': "db' = db1\<lparr>db_events := db_events db'\<rparr>" "event_step\<^sup>*\<^sup>* (db_events db1) (db_events db')"
    by blast
  have "db' = db\<lparr>db_events := db_events db'\<rparr>"
    using first db'(1) by (metis ingestion_db.surjective ingestion_db.update_convs(3))
  moreover have "event_step\<^sup>*\<^sup>* (db_events db) (db_events db')"
    using first db'(2) by (blast intro: converse_rtranclp_into_rtranclp)
  ultimately show ?case
    using first es by (intro conjI exI [of _ "e # es"]) auto
qed (simp add: db_return_def)

lemma audit_body_facts:
  assumes "audit_body env b m started vs db = Inr (db', ())"
  shows "db' = db\<lparr>db_events := db_events db'\<rparr> \<and> event_step\<^sup>*\<^sup>* (db_events db) (db_events db') \<and>
    (\<exists>es. raw_events (db_events db') = raw_events (db_events db) @ es \<and>
       map source_record_key es = map (\<lambda>v. Some (calendar_source_record_key m v)) vs \<and>
       (\<forall>e \<in> set es. event_batch_id e = ingestion_batch_id b))"
proof -
  obtain f t where month: "ensure_month_partition (Aware started) (db_events db) = Inr t"
    and rest: "insert_session_events env b f m started vs (db\<lparr>db_events := t\<rparr>) = Inr (db', ())"
    using assms
    by (auto simp: audit_body_def db_bind_def db_read_def ensure_event_month_def on_events_def rbind_Inr_iff)
  have "event_step (db_events db) t" by (rule step_partition [OF month])
  then show ?thesis
    using insert_session_events_facts [OF rest] partition_cases [OF month]
    by (auto intro: converse_rtranclp_into_rtranclp)
qed

lemma outcome_columns:
  "batch_status (patch_metadata m b) = batch_status b" "accepted_row_count (patch_metadata m b) = accepted_row_count b"
  "rejected_row_count (patch_metadata m b) = rejected_row_count b" "received_row_count (patch_metadata m b) = received_row_count b"
  "finished_at (patch_metadata m b) = finished_at b" "ingestion_batch_id (patch_metadata m b) = ingestion_batch_id b"
  "batch_status (set_watermark w b) = batch_status b" "accepted_row_count (set_watermark w b) = accepted_row_count b"
  "rejected_row_count (set_watermark w b) = rejected_row_count b" "received_row_count (set_watermark w b) = received_row_count b"
  "finished_at (set_watermark w b) = finished_at b" "ingestion_batch_id (set_watermark w b) = ingestion_batch_id b"
  by (simp_all add: patch_metadata_def set_watermark_def split: option.split)

lemma finalize_row_columns:
  assumes "finalize_row alnum now v fin b = Inr b'"
  shows "ingestion_batch_id b' = ingestion_batch_id b" "batch_status b' = final_status v" "accepted_row_count b' = final_accepted v"
    "rejected_row_count b' = final_rejected v" "received_row_count b' = final_received v" "finished_at b' \<noteq> None"
proof -
  obtain c where "b' = patch_metadata (final_metadata v) (set_watermark (final_watermark v) c)"
    and "ingestion_batch_id c = ingestion_batch_id b \<and> batch_status c = final_status v \<and> accepted_row_count c = final_accepted v \<and>
      rejected_row_count c = final_rejected v \<and> received_row_count c = final_received v \<and> finished_at c \<noteq> None"
    using assms unfolding finalize_row_def rbind_Inr_iff by (auto dest!: set_payload_updates)
  then show "ingestion_batch_id b' = ingestion_batch_id b" "batch_status b' = final_status v"
    "accepted_row_count b' = final_accepted v" "rejected_row_count b' = final_rejected v"
    "received_row_count b' = final_received v" "finished_at b' \<noteq> None"
    by (simp_all add: outcome_columns)
qed

lemma finalize_facts:
  assumes "finalize_batch alnum now i v t = Inr (t', b')"
  shows "batch_step t t'" "b' \<in> set (batches t')" "ingestion_batch_id b' = i" "batch_status b' = final_status v"
    "accepted_row_count b' = final_accepted v" "rejected_row_count b' = final_rejected v"
    "received_row_count b' = final_received v" "finished_at b' \<noteq> None"
proof -
  show "batch_step t t'" by (rule step_finalize [OF assms])
  obtain fin b where upd: "execute_running_transition i (finalize_row alnum now v fin) t = Inr (t', b')"
    using assms by (auto simp: finalize_batch_def rbind_Inr_iff split: if_splits)
  then obtain b where b: "b \<in> set (batches t)" "ingestion_batch_id b = i" "finalize_row alnum now v fin b = Inr b'"
    and t': "batches t' = map (\<lambda>r. if ingestion_batch_id r = i then b' else r) (batches t)"
    by (auto simp: execute_running_transition_def rbind_Inr_iff split: option.splits if_splits)
      (auto simp: find_Some_iff intro: nth_mem)
  show "b' \<in> set (batches t')" using b t' by (auto intro: image_eqI [of _ _ b])
  show "ingestion_batch_id b' = i" "batch_status b' = final_status v" "accepted_row_count b' = final_accepted v"
    "rejected_row_count b' = final_rejected v" "received_row_count b' = final_received v" "finished_at b' \<noteq> None"
    using b(2) finalize_row_columns [OF b(3)] by simp_all
qed

lemma session_body_facts:
  assumes "session_body env b validated db = Inr (db', outcome)"
  obtains v new opened shut unchanged where "get_venue_by_code (manifest_venue_code (calendar_of validated)) (db_catalog db) = Inr v"
    "wrote (venue_id v) (validated_sessions validated) (db_catalog db) (db_catalog db') new"
    "session_step\<^sup>*\<^sup>* (db_catalog db) (db_catalog db')" "batch_step (db_batches db) (db_batches db')"
    "db_events db' = db_events db" "db_bars db' = db_bars db"
    "outcome = ((opened, shut, unchanged), cal_clock env (ImportFinish SessionTx))"
    "opened = int (length (filter is_trading_day new))" "shut = int (length (filter (\<lambda>s. \<not> is_trading_day s) new))"
    "opened + shut + unchanged = int (length (validated_sessions validated))"
    "\<exists>b' \<in> set (batches (db_batches db')). ingestion_batch_id b' = ingestion_batch_id b \<and> batch_status b' = SUCCEEDED"
proof -
  obtain v n db1 fv t b' where v: "get_venue_by_code (manifest_venue_code (calendar_of validated)) (db_catalog db) = Inr v"
    and ens: "ensure_sessions (venue_id v) (validated_sessions validated) (0, 0, 0) db = Inr (db1, n)"
    and fin: "finalize_batch (cal_alnum env) (cal_tx_now env SessionTx) (ingestion_batch_id b) fv (db_batches db1) = Inr (t, b')"
      "final_status fv = SUCCEEDED"
    and out: "db' = db1\<lparr>db_batches := t\<rparr>" "outcome = (n, cal_clock env (ImportFinish SessionTx))"
    using assms
    by (auto simp: session_body_def Let_def db_bind_def db_read_def acquire_session_locks_def db_return_def on_batches_def
        rbind_Inr_iff)
  from ensure_sessions_wrote [OF ens] obtain new where w:
    "wrote (venue_id v) (validated_sessions validated) (db_catalog db) (db_catalog db1) new"
    "db1 = db\<lparr>db_catalog := db_catalog db1\<rparr>" "session_step\<^sup>*\<^sup>* (db_catalog db) (db_catalog db1)"
    "fst n = int (length (filter is_trading_day new))" "fst (snd n) = int (length (filter (\<lambda>s. \<not> is_trading_day s) new))"
    "snd (snd n) = int (length (validated_sessions validated)) - int (length new)"
    by auto
  obtain opened shut unchanged where n: "n = (opened, shut, unchanged)" by (cases n)
  have total: "opened + shut = int (length new)"
    using sum_length_filter_compl [of is_trading_day new] w(4,5) n by simp
  have same: "db_batches db1 = db_batches db" "db_events db1 = db_events db" "db_bars db1 = db_bars db"
    using w(2) by (metis ingestion_db.select_convs ingestion_db.surjective ingestion_db.update_convs(1))+
  show thesis
    by (rule that [of v new opened shut unchanged])
      (use v w n total same out finalize_facts [OF fin(1)] fin(2) in auto)
qed

lemma conflict_body_facts:
  assumes "conflict_body env b validated message db = Inr (db', b')"
  shows "db' = db\<lparr>db_batches := db_batches db'\<rparr>" "batch_step (db_batches db) (db_batches db')"
    "b' \<in> set (batches (db_batches db'))" "ingestion_batch_id b' = ingestion_batch_id b" "batch_status b' = FAILED"
    "accepted_row_count b' = 0" "rejected_row_count b' = int (length (validated_sessions validated))"
  using assms
  by (auto simp: conflict_body_def Let_def on_batches_def rbind_Inr_iff dest: finalize_facts)

text \<open>An import only takes steps of the repositories, and leaves the bars alone.\<close>

definition calendar_steps :: "ingestion_db \<Rightarrow> ingestion_db \<Rightarrow> bool" where
  "calendar_steps db db' \<longleftrightarrow> db_bars db' = db_bars db \<and> batch_step\<^sup>*\<^sup>* (db_batches db) (db_batches db') \<and>
     event_step\<^sup>*\<^sup>* (db_events db) (db_events db') \<and> session_step\<^sup>*\<^sup>* (db_catalog db) (db_catalog db')"

interpretation calendar_db: db_relation calendar_steps
  by unfold_locales (auto simp: calendar_steps_def)

lemma only_batches:
  "db' = db\<lparr>db_batches := t\<rparr> \<Longrightarrow> db_catalog db' = db_catalog db \<and> db_events db' = db_events db \<and> db_bars db' = db_bars db"
  by simp

lemma only_events:
  "db' = db\<lparr>db_events := t\<rparr> \<Longrightarrow> db_catalog db' = db_catalog db \<and> db_batches db' = db_batches db \<and> db_bars db' = db_bars db"
  by simp

lemma batch_body_steps:
  "batch_body env m rid started db = Inr (db1, b, created) \<Longrightarrow>
     calendar_steps db db1 \<and> db_catalog db1 = db_catalog db \<and> db_events db1 = db_events db"
  by (erule batch_body_facts, drule only_batches) (simp add: calendar_steps_def r_into_rtranclp)

lemma audit_body_steps:
  "audit_body env b m started vs db = Inr (db1, ()) \<Longrightarrow>
     calendar_steps db db1 \<and> db_catalog db1 = db_catalog db \<and> db_batches db1 = db_batches db"
  using only_events [OF conjunct1 [OF audit_body_facts]] audit_body_facts unfolding calendar_steps_def by (metis rtranclp.rtrancl_refl)

lemma conflict_body_steps:
  "conflict_body env b validated message db = Inr (db1, b') \<Longrightarrow>
     calendar_steps db db1 \<and> db_catalog db1 = db_catalog db \<and> db_events db1 = db_events db"
  using only_batches [OF conflict_body_facts(1)] conflict_body_facts(2) by (simp add: calendar_steps_def r_into_rtranclp)

subsection \<open>All or nothing\<close>

text \<open>What an import that was carried out leaves behind.\<close>

definition calendar_written :: "calendar_validation_result \<Rightarrow> catalog_tables \<Rightarrow> catalog_tables \<Rightarrow> calendar_import_result \<Rightarrow> bool" where
  "calendar_written validated c c' res \<longleftrightarrow>
     (\<exists>v new. get_venue_by_code (manifest_venue_code (calendar_of validated)) c = Inr v \<and>
        wrote (venue_id v) (validated_sessions validated) c c' new \<and>
        trading_days_inserted res = int (length (filter is_trading_day new)) \<and>
        closed_days_inserted res = int (length (filter (\<lambda>s. \<not> is_trading_day s) new)) \<and>
        trading_days_inserted res + closed_days_inserted res + sessions_unchanged res = sessions_received res)"

lemma import_outcome:
  "case import_calendar env validated rid db of
     (Inl e, db') \<Rightarrow> calendar_steps db db' \<and> db_catalog db' = db_catalog db
   | (Inr res, db') \<Rightarrow> calendar_steps db db' \<and>
       (if import_idempotent_replay res then db' = db
        else calendar_written validated (db_catalog db) (db_catalog db') res)"
proof (cases "import_calendar env validated rid db")
  case (Pair r db')
  show ?thesis
    using Pair
  proof (cases rule: import_cases)
    case (written b db1 db2 outcome)
    note ab = batch_body_steps [OF written(1)] audit_body_steps [OF written(2)]
    obtain v new opened shut unchanged where s: "get_venue_by_code (manifest_venue_code (calendar_of validated)) (db_catalog db2) = Inr v"
      "wrote (venue_id v) (validated_sessions validated) (db_catalog db2) (db_catalog db') new"
      "session_step\<^sup>*\<^sup>* (db_catalog db2) (db_catalog db')" "batch_step (db_batches db2) (db_batches db')"
      "db_events db' = db_events db2" "db_bars db' = db_bars db2"
      "outcome = ((opened, shut, unchanged), cal_clock env (ImportFinish SessionTx))"
      "opened = int (length (filter is_trading_day new))" "shut = int (length (filter (\<lambda>s. \<not> is_trading_day s) new))"
      "opened + shut + unchanged = int (length (validated_sessions validated))"
      using session_body_facts [OF written(3)] by metis
    have "calendar_steps db2 db'" using s(3-6) by (simp add: calendar_steps_def)
    then have "calendar_steps db db'" using ab calendar_db.R_trans by blast
    have cat: "db_catalog db2 = db_catalog db" using ab by simp
    have "calendar_written validated (db_catalog db) (db_catalog db') (imported_result b validated (cal_clock env ImportStart) outcome)"
      unfolding calendar_written_def
      by (rule exI [of _ v], rule exI [of _ new]) (use s cat in \<open>simp add: imported_result_def Let_def\<close>)
    moreover have "\<not> import_idempotent_replay (imported_result b validated (cal_clock env ImportStart) outcome)"
      using s(7) by (simp add: imported_result_def Let_def)
    ultimately show ?thesis
      using Pair written(4) \<open>calendar_steps db db'\<close> by simp
  next
    case (conflicting b db1 db2 message b')
    note steps = batch_body_steps [OF conflicting(1)] audit_body_steps [OF conflicting(2)] conflict_body_steps [OF conflicting(4)]
    then have "calendar_steps db db'" by (blast intro: calendar_db.R_trans)
    then show ?thesis using Pair conflicting(5) steps by simp
  next
    case (abandoned b db1 db2 e)
    note steps = batch_body_steps [OF abandoned(1)] audit_body_steps [OF abandoned(2)]
    then have "calendar_steps db db2" by (blast intro: calendar_db.R_trans)
    then show ?thesis using Pair abandoned(3,4) steps by simp
  next
    case (no_audit b db1 e)
    then show ?thesis using Pair batch_body_steps [OF no_audit(1)] by auto
  next
    case (replayed b db1)
    then show ?thesis using Pair calendar_db.R_refl by (simp add: calendar_replay_result_def Let_def)
  next
    case (refused e)
    then show ?thesis using Pair calendar_db.R_refl by simp
  qed
qed

lemma import_all_or_nothing_success:
  "import_calendar env validated rid db = (Inr res, db') \<Longrightarrow> \<not> import_idempotent_replay res \<Longrightarrow>
     calendar_written validated (db_catalog db) (db_catalog db') res \<and> calendar_steps db db'"
  using import_outcome [where env = env and validated = validated and rid = rid and db = db] by simp

lemma import_calendar_steps: "import_calendar env validated rid db = (r, db') \<Longrightarrow> calendar_steps db db'"
  using import_outcome [where env = env and validated = validated and rid = rid and db = db] by (simp split: sum.splits)

text \<open>C19. A calendar import is all or nothing and touches nothing else: it takes only steps of the batch, event and
  session repositories and never touches a bar; when it returns without being a replay, every session of the calendar
  has a row that agrees with it, rows were only appended, and the counts of the result add up to the sessions received;
  on every error, a conflict included, and on a replay the catalog is exactly what it was.\<close>

theorem import_is_all_or_nothing:
  "case import_calendar env validated rid db of
     (Inl e, db') \<Rightarrow> calendar_steps db db' \<and> db_catalog db' = db_catalog db
   | (Inr res, db') \<Rightarrow> calendar_steps db db' \<and>
       (if import_idempotent_replay res then db' = db
        else calendar_written validated (db_catalog db) (db_catalog db') res)"
  by (rule import_outcome)

subsection \<open>Imported sessions stay\<close>

inductive import_step :: "ingestion_db \<Rightarrow> ingestion_db \<Rightarrow> bool" where
  step_import: "import_calendar env validated rid db = (r, db') \<Longrightarrow> import_step db db'"

lemma import_step_sessions: "import_step db db' \<Longrightarrow> session_step\<^sup>*\<^sup>* (db_catalog db) (db_catalog db')"
  by (auto elim!: import_step.cases dest: import_calendar_steps simp: calendar_steps_def)

lemma imports_sessions: "import_step\<^sup>*\<^sup>* db db' \<Longrightarrow> session_step\<^sup>*\<^sup>* (db_catalog db) (db_catalog db')"
  by (induction rule: rtranclp_induct) (auto dest: import_step_sessions intro: rtranclp_trans)

text \<open>What the readers of the catalog see of a session.\<close>

lemma get_regular_session:
  "get_session vid day (u ''REGULAR'') c = Inr (Some s) \<Longrightarrow> get_regular_trading_session vid day c = Inr s"
  by (simp add: get_session_def get_regular_trading_session_def session_key_def required_row_def del: u_Cons)

text \<open>C20. What was imported stays: in a catalog that satisfies the constraints of its session table, once an import has
  returned (not as a replay) the session of each of its dates is found at its venue under every later state of the
  catalog, whatever calendars are imported in between, with the very instants that were validated; and the constraints
  (one row per venue, date and code; a trading day opens before it closes) still hold.\<close>

theorem imported_sessions_stay:
  assumes "session_inv (db_catalog db)" and "import_calendar env validated rid db = (Inr res, db1)"
    and "\<not> import_idempotent_replay res" and "import_step\<^sup>*\<^sup>* db1 db2" and "v \<in> set (validated_sessions validated)"
  shows "session_inv (db_catalog db2) \<and>
    (\<exists>w s. get_venue_by_code (manifest_venue_code (calendar_of validated)) (db_catalog db) = Inr w \<and>
       get_session (venue_id w) (vs_trading_date v) (vs_session_code v) (db_catalog db2) = Inr (Some s) \<and>
       is_trading_day s = vs_is_trading_day v \<and> session_open_ts s = vs_session_open_ts v \<and>
       session_close_ts s = vs_session_close_ts v \<and> settlement_date s = vs_settlement_date v)"
proof -
  have written: "calendar_written validated (db_catalog db) (db_catalog db1) res" and steps: "calendar_steps db db1"
    using import_all_or_nothing_success [OF assms(2,3)] by simp_all
  have later: "session_step\<^sup>*\<^sup>* (db_catalog db1) (db_catalog db2)" by (rule imports_sessions [OF assms(4)])
  have inv1: "session_inv (db_catalog db1)"
    using steps session_log.inv_steps [OF _ assms(1)] by (simp add: calendar_steps_def)
  have inv2: "session_inv (db_catalog db2)" by (rule session_log.inv_steps [OF later inv1])
  obtain w s e where w: "get_venue_by_code (manifest_venue_code (calendar_of validated)) (db_catalog db) = Inr w"
    and s: "s \<in> set (sessions (db_catalog db1))" "expected_session (venue_id w) v = Inr e" "kept_session s e"
    using written assms(5) unfolding calendar_written_def wrote_def by blast
  have s2: "s \<in> set (sessions (db_catalog db2))"
    by (rule session_log.steps_keep [OF later inv1 s(1)]) simp
  have key: "session_key s = (venue_id w, vs_trading_date v, vs_session_code v)"
    using s expected_key by (simp add: kept_session_def)
  have "is_trading_day s = vs_is_trading_day v \<and> session_open_ts s = vs_session_open_ts v \<and>
      session_close_ts s = vs_session_close_ts v \<and> settlement_date s = vs_settlement_date v"
    using s(2,3) by (auto simp: expected_session_def rbind_Inr_iff kept_session_def)
  then show ?thesis
    using inv2 w key get_session_member [OF inv2 s2] by (auto simp: session_key_def)
qed

subsection \<open>Conflicts\<close>

lemma json_value_not_conflict:
  "json_value v = Inl e \<Longrightarrow> \<not> is_conflict e"
  "json_values vs = Inl e \<Longrightarrow> \<not> is_conflict e"
  "json_fields fs = Inl e \<Longrightarrow> \<not> is_conflict e"
  by (induction v and vs and fs rule: json_value_json_values_json_fields.induct)
    (auto simp: rbind_def is_conflict_def split: sum.splits)

lemma jsonb_not_conflict:
  "jsonb_stored v = Inl e \<Longrightarrow> \<not> is_conflict e"
  "jsonb_items vs = Inl e \<Longrightarrow> \<not> is_conflict e"
  "jsonb_fields fs = Inl e \<Longrightarrow> \<not> is_conflict e"
  by (induction v and vs and fs rule: jsonb_stored_jsonb_items_jsonb_fields.induct)
    (auto simp: rbind_def is_conflict_def split: sum.splits if_splits)

lemma cast_not_conflict: "cast_jsonb v = Inl e \<Longrightarrow> \<not> is_conflict e"
  by (auto simp: cast_jsonb_def canonical_json_text_def rbind_def is_conflict_def split: sum.splits if_splits
      dest: json_value_not_conflict jsonb_not_conflict)

lemma is_conflict_simps [simp]:
  "\<not> is_conflict (AppValueError m)" "\<not> is_conflict (AppTypeError m)" "\<not> is_conflict (DatabaseError m)"
  "\<not> is_conflict (CatalogConflictError m)" "\<not> is_conflict (EntityNotFoundError m)"
  "\<not> is_conflict (InvalidStateTransitionError m)" "is_conflict (CalendarConflictError t)"
  "\<not> is_conflict (map_database_error state operational)"
  by (auto simp: is_conflict_def map_database_error_def)

lemma require_not_conflict:
  "require_aware_datetime d = Inl e \<Longrightarrow> \<not> is_conflict e" "require_aware_option o' = Inl e \<Longrightarrow> \<not> is_conflict e"
  "require_sha256 s = Inl e \<Longrightarrow> \<not> is_conflict e"
  by (auto simp: require_aware_option_def require_aware_datetime_def require_sha256_def rbind_Inl_iff
      split: py_datetime.splits option.splits if_splits)

lemma cast_object_not_conflict: "cast_object fs = Inl e \<Longrightarrow> \<not> is_conflict e"
proof (cases "cast_jsonb (PyDict fs)")
  case (Inr v)
  then show "cast_object fs = Inl e \<Longrightarrow> \<not> is_conflict e" by (cases v) (auto simp: cast_object_def)
qed (auto simp: cast_object_def dest: cast_not_conflict)

lemma cast_array_not_conflict: "cast_array vs = Inl e \<Longrightarrow> \<not> is_conflict e"
proof (cases "cast_jsonb (PyList vs)")
  case (Inr v)
  then show "cast_array vs = Inl e \<Longrightarrow> \<not> is_conflict e" by (cases v) (auto simp: cast_array_def)
qed (auto simp: cast_array_def dest: cast_not_conflict)

lemma insert_not_conflict:
  assumes "insert_response_record be fe n t = Inl e"
  shows "\<not> is_conflict e"
  using assms unfolding insert_response_record_def Let_def
  by (auto simp: rbind_Inl_iff dest: require_not_conflict cast_object_not_conflict cast_array_not_conflict split: if_splits)

lemma db_bind_Inl_iff:
  "db_bind m f db = Inl e \<longleftrightarrow> m db = Inl e \<or> (\<exists>db1 a. m db = Inr (db1, a) \<and> f a db1 = Inl e)"
  by (auto simp: db_bind_def rbind_Inl_iff)

lemma one_or_none_not_conflict: "one_or_none rows = Inl e \<Longrightarrow> \<not> is_conflict e"
  by (auto simp: one_or_none_def split: list.splits)

lemma calendar_feed_not_conflict: "get_calendar_feed c = Inl e \<Longrightarrow> \<not> is_conflict e"
  by (auto simp: get_calendar_feed_def get_feed_by_codes_def rbind_Inl_iff dest: one_or_none_not_conflict split: option.splits)

lemma sha256_json_not_conflict: "sha256_json env v = Inl e \<Longrightarrow> \<not> is_conflict e"
  unfolding sha256_json_def canonical_json_text_def rbind_Inl_iff
proof (elim disjE exE conjE)
  fix out
  show "(case utf8_encode out of Inl _ \<Rightarrow> Inl (AppValueError ''surrogates not allowed'') | Inr bs \<Rightarrow> Inr (cal_sha256 env bs)) = Inl e \<Longrightarrow>
      \<not> is_conflict e"
    by (cases "utf8_encode out") auto
qed (rule json_value_not_conflict)

lemma session_event_not_conflict: "insert_session_event env b f m started v db = Inl e \<Longrightarrow> \<not> is_conflict e"
  by (auto simp: insert_session_event_def db_bind_Inl_iff db_lift_def on_events_def rbind_Inl_iff
      dest: sha256_json_not_conflict insert_not_conflict)

lemma session_events_not_conflict: "insert_session_events env b f m started vs db = Inl e \<Longrightarrow> \<not> is_conflict e"
  by (induction vs arbitrary: db)
    (auto simp: db_return_def db_bind_Inl_iff dest: session_event_not_conflict)

lemma audit_not_conflict: "audit_body env b m started vs db = Inl e \<Longrightarrow> \<not> is_conflict e"
  by (auto simp: audit_body_def db_bind_Inl_iff db_read_def ensure_event_month_def on_events_def ensure_month_partition_def
      require_aware_datetime_def rbind_Inl_iff Let_def dest: calendar_feed_not_conflict session_events_not_conflict)

lemma transition_not_conflict:
  assumes "execute_running_transition i f t = Inl e" and "\<And>b e. f b = Inl e \<Longrightarrow> \<not> is_conflict e"
  shows "\<not> is_conflict e"
proof (cases "find (\<lambda>b. ingestion_batch_id b = i \<and> batch_status b = RUNNING) (batches t)")
  case (Some b)
  then show ?thesis
    using assms by (cases "f b") (auto simp: execute_running_transition_def split: if_splits)
qed (use assms(1) in \<open>auto simp: execute_running_transition_def split: option.splits\<close>)

lemma finalize_row_not_conflict: "finalize_row alnum now v finished b = Inl e \<Longrightarrow> \<not> is_conflict e"
  by (auto simp: finalize_row_def rbind_Inl_iff set_payload_def char_n_def split: option.splits if_splits)

lemma finalize_not_conflict: "finalize_batch alnum now i v t = Inl e \<Longrightarrow> \<not> is_conflict e"
  by (auto simp: finalize_batch_def validate_counts_def rbind_Inl_iff dest: require_not_conflict
      dest!: transition_not_conflict [OF _ finalize_row_not_conflict] split: if_splits)

lemma conflict_body_not_conflict: "conflict_body env b validated message db = Inl e \<Longrightarrow> \<not> is_conflict e"
  by (auto simp: conflict_body_def Let_def on_batches_def rbind_Inl_iff dest: finalize_not_conflict)

text \<open>C21. A conflict is recorded with its evidence: when an import raises a conflict, either it was refused before it
  started anything, or the batch it started has failed with every session counted as rejected, the raw events of all
  sessions of the file are preserved under that batch in their order, and the catalog is as it was.\<close>

theorem conflict_is_recorded:
  assumes "import_calendar env validated rid db = (Inl (CalendarConflictError message), db')"
  shows "db' = db \<or>
    (\<exists>b es. b \<in> set (batches (db_batches db')) \<and> ingestion_batch_id b = next_batch_id (db_batches db) \<and>
       batch_status b = FAILED \<and> accepted_row_count b = 0 \<and>
       rejected_row_count b = int (length (validated_sessions validated)) \<and>
       raw_events (db_events db') = raw_events (db_events db) @ es \<and>
       map source_record_key es = map (\<lambda>v. Some (calendar_source_record_key (calendar_of validated) v)) (validated_sessions validated) \<and>
       (\<forall>e \<in> set es. event_batch_id e = ingestion_batch_id b) \<and> db_catalog db' = db_catalog db)"
  using assms
proof (cases rule: import_cases)
  case (conflicting b db1 db2 message' b')
  have b: "ingestion_batch_id b = next_batch_id (db_batches db)"
    by (rule batch_body_facts [OF conflicting(1)]) (simp add: appends_row_def)
  have ev: "db_events db1 = db_events db"
    using batch_body_steps [OF conflicting(1)] by simp
  obtain es where es: "raw_events (db_events db2) = raw_events (db_events db1) @ es"
      "map source_record_key es = map (\<lambda>v. Some (calendar_source_record_key (calendar_of validated) v)) (validated_sessions validated)"
      "\<forall>e \<in> set es. event_batch_id e = ingestion_batch_id b"
    using audit_body_facts [OF conflicting(2)] by blast
  note c = conflict_body_facts [OF conflicting(4)] conflict_body_steps [OF conflicting(4)]
  show ?thesis
    by (rule disjI2, rule exI [of _ b'], rule exI [of _ es])
      (use b ev es c batch_body_steps [OF conflicting(1)] audit_body_steps [OF conflicting(2)] in simp)
next
  case (no_audit b db1 e)
  then show ?thesis using audit_not_conflict by fastforce
next
  case (abandoned b db1 db2 e)
  then show ?thesis using conflict_body_not_conflict by fastforce
qed simp_all

subsection \<open>Abandoned imports\<close>

lemma find_append_fresh:
  "\<forall>x \<in> set xs. \<not> P x \<Longrightarrow> P y \<Longrightarrow> find P (xs @ [y]) = Some y"
  by (induction xs) auto

text \<open>C22. An import that ends in an error other than a conflict leaves its request blocked: whatever went wrong after its
  batch was started (metadata that cannot be serialized, an outage, a venue that disappeared), the batch stays
  RUNNING, and from that state every import of that venue and zone under the same request identifier is refused as
  already running and changes nothing.\<close>

theorem abandoned_import_blocks_request:
  assumes "import_calendar env validated rid db = (Inl e, db')" and "\<not> is_conflict e" and "db' \<noteq> db"
    and "manifest_venue_code (calendar_of validated') = manifest_venue_code (calendar_of validated)"
    and "manifest_timezone (calendar_of validated') = manifest_timezone (calendar_of validated)"
    and "calendar_request_id env' rid' = calendar_request_id env rid" and "\<not> cal_outage env' BatchTx"
  shows "(\<exists>b \<in> set (batches (db_batches db')). request_id b = Some (calendar_request_id env rid) \<and> batch_status b = RUNNING) \<and>
    import_calendar env' validated' rid' db' =
      (Inl (CalendarConflictError (u ''calendar request_id is already running'')), db')"
proof -
  obtain b db1 where started: "batch_step_of env validated rid db = Inr (db1, b, True)"
    and same: "db_batches db' = db_batches db1" "db_catalog db' = db_catalog db1"
    using assms(1)
  proof (cases rule: import_cases)
    case (no_audit b db1 e')
    then show thesis using that by blast
  next
    case (abandoned b db1 db2 e')
    then show thesis using that [OF abandoned(1)] audit_body_steps [OF abandoned(2)] by simp
  qed (use assms(2,3) in \<open>auto simp: is_conflict_def\<close>)
  obtain f where ready: "calendar_ready (calendar_of validated) (db_catalog db) f"
    and row: "batch_feed_id b = feed_id f" "request_id b = Some (calendar_request_id env rid)"
      "appends_row (db_batches db) (db_batches db1) b" "batch_status b = RUNNING"
    by (rule batch_body_facts [OF started]) blast
  have ready': "calendar_ready (calendar_of validated') (db_catalog db') f"
    using ready same(2) batch_body_steps [OF started] assms(4,5) by (simp add: calendar_ready_def)
  have rows: "batches (db_batches db') = batches (db_batches db) @ [b]" and fresh: "\<forall>r \<in> set (batches (db_batches db)). \<not> same_request r b"
    using row(3) same(1) by (auto simp: appends_row_def)
  have again: "\<exists>t. create_batch_if_absent (feed_exists db') now n (db_batches db') = Inr (t, b, False)"
    if n: "new_feed_id n = feed_id f" "new_request_id n = Some (calendar_request_id env rid)" "new_event_from n = None"
      "new_event_to n = None" "new_started_at n = Some (Aware s)" for now n s
  proof -
    obtain b' where b': "batch_row now n (next_batch_id (db_batches db')) = Inr b'" "batch_row_ok b'"
      and b'_row: "batch_feed_id b' = feed_id f" "request_id b' = Some (calendar_request_id env rid)"
      using n by (auto simp: batch_row_def require_aware_option_def require_aware_datetime_def batch_row_ok_def)
    have "same_request b' = same_request b"
      using row b'_row by (auto simp: same_request_def fun_eq_iff)
    then have "find (same_request b') (batches (db_batches db')) = Some b"
      using fresh same_request_sym row(2) unfolding rows by (intro find_append_fresh) (auto simp: same_request_def)
    then show ?thesis
      using b' n by (auto simp: create_batch_if_absent_def)
  qed
  let ?new = "\<lparr>new_feed_id = feed_id f, new_parser_version = u ''trading-calendar-v1'',
      new_request_id = Some (calendar_request_id env rid), new_event_from = None, new_event_to = None, new_source_watermark = None,
      new_metadata = Some (calendar_metadata (calendar_of validated')), new_started_at = Some (Aware (cal_clock env' ImportStart))\<rparr>"
  obtain t where "create_batch_if_absent (feed_exists db') (cal_tx_now env' BatchTx) ?new (db_batches db') = Inr (t, b, False)"
    using again [of ?new] by auto
  then have "batch_step_of env' validated' rid' db' = Inl (CalendarConflictError (u ''calendar request_id is already running''))"
    using ready' row(4) assms(6)
    by (auto simp: batch_body_def db_bind_def db_read_def on_batches_def db_fail_def calendar_ready_def)
  then show ?thesis
    using assms(7) rows row(2,4)
    by (simp add: import_calendar_def Let_def calendar_transaction_def in_unit_of_work_def and_then_def)
qed

end
