(* ===== verification/Calendar_Example.thy ===== *)
theory Calendar_Example
  imports Calendar_Safety
begin

text \<open>
  A concrete calendar: a file with one trading day and one closed day at a venue in UTC, loaded, validated and imported
  into a small catalog; a catalog in which the day is already there and differs; and a calendar whose metadata carries
  a binary float. The witnesses of the properties of the calendar apply them here.
\<close>

subsection \<open>The file\<close>

definition day_env :: manifest_env where
  "day_env = \<lparr>man_text = \<lparr>uni_nfkc = (\<lambda>s. s), uni_decimal = (\<lambda>c. if 48 \<le> c \<and> c \<le> 57 then Some (c - 48) else None),
       uni_isdigit = (\<lambda>_. False), jalali = (\<lambda>_ _ _. None)\<rparr>,
     man_sha256 = (\<lambda>_. replicate 64 48),
     pyd_date = (\<lambda>v. if v = PyStr (u ''1970-01-01'') then Some 719163 else if v = PyStr (u ''1970-01-02'') then Some 719164 else None),
     pyd_bool = (\<lambda>v. case v of PyBool b \<Rightarrow> Some b | _ \<Rightarrow> None), pyd_fold = (\<lambda>_. None),
     pyd_str = (\<lambda>_ _ v. case v of PyStr s \<Rightarrow> Some s | _ \<Rightarrow> None), pyd_message = u,
     zone_info = (\<lambda>_. Inr \<lparr>tz_before = 0, tz_transitions = []\<rparr>)\<rparr>"

lemma day_env_simps:
  "pyd_bool day_env (PyBool b) = Some b" "pyd_str day_env n m (PyStr s) = Some s"
  "pyd_date day_env (PyStr s) = (if s = u ''1970-01-01'' then Some 719163 else if s = u ''1970-01-02'' then Some 719164 else None)"
  "zone_info day_env z = Inr \<lparr>tz_before = 0, tz_transitions = []\<rparr>" "man_sha256 day_env x = replicate 64 48"
  "uni_decimal (man_text day_env) c = (if 48 \<le> c \<and> c \<le> 57 then Some (c - 48) else None)"
  by (simp_all add: day_env_def)

definition closed_json :: "(pystr \<times> json) list" where
  "closed_json = [(u ''trading_date'', JStr (u ''1970-01-02'')), (u ''session_code'', JStr (u ''REGULAR'')),
     (u ''is_trading_day'', JBool False), (u ''open_local_time'', JNull), (u ''close_local_time'', JNull),
     (u ''source_status'', JStr (u ''C''))]"

definition open_json :: "(pystr \<times> json) list" where
  "open_json = [(u ''trading_date'', JStr (u ''1970-01-01'')), (u ''session_code'', JStr (u ''REGULAR'')),
     (u ''is_trading_day'', JBool True), (u ''open_local_time'', JStr (u ''09:00'')), (u ''close_local_time'', JStr (u ''12:30:00'')),
     (u ''source_status'', JStr (u ''O''))]"

definition calendar_json :: json where
  "calendar_json = JObj [(u ''schema_version'', JInt 1), (u ''calendar_id'', JStr (u ''c'')), (u ''venue_code'', JStr (u ''V'')),
     (u ''timezone'', JStr (u ''UTC'')), (u ''date_from'', JStr (u ''1970-01-01'')), (u ''date_to'', JStr (u ''1970-01-02'')),
     (u ''sessions'', JList [JObj closed_json, JObj open_json])]"

definition closed_session :: calendar_session where
  "closed_session = \<lparr>cs_trading_date = 719164, cs_session_code = u ''REGULAR'', cs_is_trading_day = False,
     cs_open_local_time = None, cs_close_local_time = None, cs_source_status = u ''C'', cs_settlement_date = None,
     cs_open_fold = None, cs_close_fold = None, cs_metadata = []\<rparr>"

definition open_session :: calendar_session where
  "open_session = \<lparr>cs_trading_date = 719163, cs_session_code = u ''REGULAR'', cs_is_trading_day = True,
     cs_open_local_time = Some 32400000000, cs_close_local_time = Some 45000000000, cs_source_status = u ''O'',
     cs_settlement_date = None, cs_open_fold = None, cs_close_fold = None, cs_metadata = []\<rparr>"

definition day_manifest :: calendar_manifest where
  "day_manifest = \<lparr>calendar_id = u ''c'', manifest_venue_code = u ''V'', manifest_timezone = u ''UTC'', date_from = 719163,
     date_to = 719164, manifest_sessions = [closed_session, open_session]\<rparr>"

definition day_raw :: json_row where
  "day_raw = (case binary_floats (loaded calendar_json) of PyDict raw \<Rightarrow> raw | _ \<Rightarrow> [])"

definition day_loaded :: calendar_manifest_document where
  "day_loaded = \<lparr>document_bytes = dumps calendar_json, document_sha256 = replicate 64 48, document_raw = day_raw,
     document_manifest = day_manifest\<rparr>"

lemma calendar_printable: "printable calendar_json"
  by (simp add: calendar_json_def closed_json_def open_json_def digits.simps MAX_STR_DIGITS_def)

lemma calendar_ascii: "\<forall>c \<in> set (dumps calendar_json). c < 128"
  by (simp add: calendar_json_def closed_json_def open_json_def dumps_str_def escape_char_def str_int_def digits.simps)

lemma calendar_bytes: "utf8_decode (dumps calendar_json) = Some (dumps calendar_json)"
proof -
  have "concat (map utf8_char s) = s" if "\<forall>c \<in> set s. c < 128" for s
    using that by (induction s) (auto simp: utf8_char_def)
  then have "utf8_encode (dumps calendar_json) = Inr (dumps calendar_json)"
    using calendar_ascii by (auto simp: utf8_encode_def)
  then show ?thesis
    by (rule utf8_decode_encode) (use calendar_ascii in fastforce)
qed

lemma day_sessions:
  "validate_session day_env (binary_floats (loaded (JObj closed_json))) = Inr closed_session"
  "validate_session day_env (binary_floats (loaded (JObj open_json))) = Inr open_session"
  by (simp_all add: validate_session_def both_def required_def optional_def no_extra_def session_fields_def dict_keys_def dict_get_def
      date_value_def coerced_def normalize_digits_value_def normalize_digits_def normalize_digit_def regular_code_def
      local_time_value_def parse_local_time_def LOCAL_TIME_def digit_group_def py_strip_def py_isspace_def nullable_def
      object_value_def validate_open_closed_shape_def day_env_simps closed_json_def open_json_def closed_session_def open_session_def)

lemma day_raw_values:
  "dict_get day_raw (u ''schema_version'') = Some (PyInt 1)" "model_validate day_env day_raw = Inr day_manifest"
proof -
  have raw: "day_raw = [(u ''calendar_id'', PyStr (u ''c'')), (u ''date_from'', PyStr (u ''1970-01-01'')),
      (u ''date_to'', PyStr (u ''1970-01-02'')), (u ''schema_version'', PyInt 1),
      (u ''sessions'', PyList [binary_floats (loaded (JObj closed_json)), binary_floats (loaded (JObj open_json))]),
      (u ''timezone'', PyStr (u ''UTC'')), (u ''venue_code'', PyStr (u ''V''))]"
    by (simp add: day_raw_def calendar_json_def)
  show "dict_get day_raw (u ''schema_version'') = Some (PyInt 1)" unfolding raw by (simp add: dict_get_def)
  show "model_validate day_env day_raw = Inr day_manifest"
    unfolding raw
    by (simp add: model_validate_def both_def required_def no_extra_def calendar_fields_def dict_keys_def dict_get_def
        session_list_def day_sessions date_value_def coerced_def normalize_digits_value_def normalize_digits_def normalize_digit_def
        validate_shape_def day_env_simps day_manifest_def del: loaded.simps binary_floats.simps)
qed

lemma day_load: "load_calendar_manifest day_env (Some (dumps calendar_json)) = Inr day_loaded"
proof -
  have "binary_floats (loaded calendar_json) = PyDict day_raw"
    by (simp add: day_raw_def calendar_json_def)
  then show ?thesis
    using day_raw_values calendar_bytes json_loads_dumps [OF calendar_printable, of True]
    by (simp add: load_calendar_manifest_def day_loaded_def day_env_simps del: u_Cons)
qed

definition open_validated :: validated_calendar_session where
  "open_validated = \<lparr>vs_trading_date = 719163, vs_session_code = u ''REGULAR'', vs_is_trading_day = True,
     vs_open_local_time = Some 32400000000, vs_close_local_time = Some 45000000000, vs_session_open_ts = Some 32400000000,
     vs_session_close_ts = Some 45000000000, vs_settlement_date = None, vs_source_status = u ''O'', vs_metadata = []\<rparr>"

definition closed_validated :: validated_calendar_session where
  "closed_validated = \<lparr>vs_trading_date = 719164, vs_session_code = u ''REGULAR'', vs_is_trading_day = False,
     vs_open_local_time = None, vs_close_local_time = None, vs_session_open_ts = None,
     vs_session_close_ts = None, vs_settlement_date = None, vs_source_status = u ''C'', vs_metadata = []\<rparr>"

definition day_calendar :: calendar_validation_result where
  "day_calendar = \<lparr>validated_document = day_loaded, validated_sessions = [open_validated, closed_validated]\<rparr>"

lemma day_validated: "validate_calendar_manifest day_env day_loaded = Inr day_calendar"
proof -
  have "document_manifest day_loaded = day_manifest" by (simp add: day_loaded_def)
  moreover have "map_result (validated_session \<lparr>tz_before = 0, tz_transitions = []\<rparr>) [open_session, closed_session] =
      Inr [open_validated, closed_validated]"
    by code_simp
  moreover have "sort_key cs_trading_date [closed_session, open_session] = [open_session, closed_session]"
    by code_simp
  moreover have "{719163..719164} = {719163, 719164::int}" by auto
  ultimately show ?thesis
    by (simp add: validate_calendar_manifest_def expected_dates_eq MAX_ORDINAL_def day_manifest_def day_env_simps
        day_calendar_def closed_session_def open_session_def upto.simps insert_commute)
qed

theorem validated_calendar_is_complete_witness:
  "map vs_trading_date (validated_sessions day_calendar) = [719163..719164] \<and>
   local_time \<lparr>tz_before = 0, tz_transitions = []\<rparr> 32400000000 = combine 719163 32400000000"
proof -
  from validated_calendar_is_complete [OF day_validated]
  have "map vs_trading_date (validated_sessions day_calendar) = [719163..719164]"
    by (simp add: day_loaded_def day_manifest_def)
  moreover have "local_time \<lparr>tz_before = 0, tz_transitions = []\<rparr> 32400000000 = combine 719163 32400000000"
    by (simp add: local_time_def combine_def EPOCH_ORDINAL_def)
  ultimately show ?thesis ..
qed

theorem loaded_calendar_fails_only_as_declared_witness:
  "calendar_ok day_env day_manifest \<and> validated_document day_calendar = day_loaded"
proof -
  from loaded_calendar_fails_only_as_declared [OF day_load]
  have "calendar_ok day_env (document_manifest day_loaded) \<and> validated_document day_calendar = day_loaded"
    by (simp add: day_validated)
  then show ?thesis by (simp add: day_loaded_def)
qed

subsection \<open>Imports\<close>

definition cal_provider :: provider where
  "cal_provider = \<lparr>provider_id = 9, provider_code = u ''BISFIN'', provider_display_name = [], provider_kind = [], base_url = None,
     default_timezone = None, provider_metadata = [], provider_created_at = 0\<rparr>"

definition cal_feed :: data_feed where
  "cal_feed = \<lparr>feed_id = 4, feed_provider_id = 9, feed_code = u ''BISFIN_TRADING_CALENDAR'', feed_display_name = [],
     data_kind = [], native_timezone = None, feed_parser_version = None, feed_active_from = None, feed_active_to = None,
     feed_metadata = []\<rparr>"

definition cal_venue :: venue where
  "cal_venue = \<lparr>venue_id = 2, venue_code = u ''V'', venue_display_name = [], mic_code = None, country_code = None,
     timezone_name = u ''UTC'', base_currency_code = None, venue_metadata = []\<rparr>"

definition cal_catalog :: "trading_session list \<Rightarrow> catalog_tables" where
  "cal_catalog ss = \<lparr>currencies = [], asset_types = [], providers = [cal_provider], feeds = [cal_feed], timeframes = [],
     venues = [cal_venue], sessions = ss, instruments = [], identifiers = [], specs = []\<rparr>"

definition cal_db :: "trading_session list \<Rightarrow> ingestion_db" where
  "cal_db ss = \<lparr>db_catalog = cal_catalog ss, db_batches = empty_batches, db_events = empty_events, db_bars = empty_bars\<rparr>"

definition cal_env :: calendar_env where
  "cal_env = \<lparr>cal_sha256 = (\<lambda>_. replicate 64 48), cal_alnum = (\<lambda>_. False), cal_uuid = u ''id'', cal_clock = (\<lambda>_. 100),
     cal_tx_now = (\<lambda>_. 100), cal_outage = (\<lambda>_. False)\<rparr>"

text \<open>A calendar of one closed day; \<open>md\<close> is the metadata of its session.\<close>

definition closed_day :: "json_row \<Rightarrow> calendar_validation_result" where
  "closed_day md = \<lparr>validated_document = day_loaded, validated_sessions = [closed_validated\<lparr>vs_metadata := md\<rparr>]\<rparr>"

definition closed_row :: trading_session where
  "closed_row = \<lparr>session_venue_id = 2, session_trading_date = 719164, trading_session_code = u ''REGULAR'', is_trading_day = False,
     session_open_ts = None, session_close_ts = None, settlement_date = None,
     session_metadata = [(u ''source_status'', JStr (u ''C''))]\<rparr>"

text \<open>The same day, settled later.\<close>

definition other_row :: trading_session where
  "other_row = closed_row\<lparr>settlement_date := Some 719170\<rparr>"

definition cal_batch :: ingestion_batch where
  "cal_batch = \<lparr>ingestion_batch_id = 1, batch_feed_id = 4, request_id = Some (u ''r''), requested_event_from = None,
     requested_event_to = None, started_at = 100, finished_at = None, batch_status = RUNNING, received_row_count = 0,
     accepted_row_count = 0, rejected_row_count = 0, batch_payload_sha256 = None, parser_version = u ''trading-calendar-v1'',
     source_watermark = None, error_summary = None, batch_metadata = calendar_metadata day_manifest\<rparr>"

definition cal_started :: "trading_session list \<Rightarrow> ingestion_db" where
  "cal_started ss = (cal_db ss)\<lparr>db_batches := \<lparr>batches = [cal_batch], next_batch_id = 2\<rparr>\<rparr>"

lemma cal_lookups:
  "get_venue_by_code (manifest_venue_code day_manifest) (cal_catalog ss) = Inr cal_venue" "get_calendar_feed (cal_catalog ss) = Inr cal_feed"
  "timezone_name cal_venue = manifest_timezone day_manifest" "feed_id cal_feed = 4" "venue_id cal_venue = 2"
  "calendar_request_id cal_env (Some (u ''r'')) = u ''r''"
  by (simp_all add: get_venue_by_code_def get_calendar_feed_def get_feed_by_codes_def one_or_none_def cal_catalog_def cal_provider_def
      cal_feed_def cal_venue_def day_manifest_def calendar_request_id_def py_strip_def py_isspace_def)

lemma cal_start: "batch_body cal_env day_manifest (u ''r'') 100 (cal_db ss) = Inr (cal_started ss, cal_batch, True)"
  using cal_lookups
  by (simp add: batch_body_def db_bind_def db_read_def on_batches_def db_return_def cal_db_def cal_started_def
      create_batch_if_absent_def batch_row_def batch_row_ok_def require_aware_option_def require_aware_datetime_def empty_batches_def
      cal_batch_def feed_exists_def cal_catalog_def del: u_Cons)

text \<open>Preserving the raw event.\<close>

lemma cal_raw_text:
  "\<exists>t. canonical_json_text (PyDict (calendar_raw day_manifest (closed_validated\<lparr>vs_metadata := []\<rparr>))) = Inr t \<and> encodable t"
proof -
  have d: "iso_date 719164 = u ''1970-01-02''"
    by code_simp
  show ?thesis
    by (simp add: canonical_json_text_def calendar_raw_def Let_def closed_validated_def day_manifest_def d dumps_str_def escape_char_def)
qed

lemma cal_jsonb: "jsonb_fields (calendar_raw day_manifest (closed_validated\<lparr>vs_metadata := []\<rparr>)) =
    Inr (calendar_raw day_manifest (closed_validated\<lparr>vs_metadata := []\<rparr>))"
proof -
  have d: "iso_date 719164 = u ''1970-01-02''"
    by code_simp
  show ?thesis
    by (simp add: calendar_raw_def Let_def closed_validated_def day_manifest_def d)
qed

abbreviation plain_closed :: validated_calendar_session where
  "plain_closed \<equiv> closed_validated\<lparr>vs_metadata := []\<rparr>"

lemma closed_day_date: "vs_trading_date plain_closed = 719164"
  by (simp add: closed_validated_def)

definition cal_event :: raw_event where
  "cal_event = \<lparr>ingested_at = 100, raw_event_id = 1, event_batch_id = 1, event_feed_id = 4,
     source_record_key = Some (calendar_source_record_key day_manifest plain_closed), source_event_time_text = None,
     source_date_text = Some (iso_date 719164), source_sequence = None, observed_at = None,
     event_payload_sha256 = replicate 64 48, raw_payload = calendar_raw day_manifest plain_closed, validation_status = ACCEPTED,
     validation_errors = []\<rparr>"

definition cal_months :: raw_event_table where
  "cal_months = \<lparr>raw_events = [], next_event_id = 1, event_months = [month_of_date (utc_date 100)]\<rparr>"

definition cal_audited :: "trading_session list \<Rightarrow> ingestion_db" where
  "cal_audited ss = (cal_started ss)\<lparr>db_events := cal_months\<lparr>raw_events := [cal_event], next_event_id := 2\<rparr>\<rparr>"

lemma cal_month: "ensure_event_month 100 (cal_started ss) = Inr ((cal_started ss)\<lparr>db_events := cal_months\<rparr>, ())"
  by (simp add: ensure_event_month_def on_events_def ensure_month_partition_def require_aware_datetime_def Let_def cal_started_def
      cal_db_def empty_events_def cal_months_def)

lemma cal_audit: "audit_body cal_env cal_batch day_manifest 100 [plain_closed] (cal_started ss) = Inr (cal_audited ss, ())"
proof -
  obtain t where t: "canonical_json_text (PyDict (calendar_raw day_manifest plain_closed)) = Inr t" "encodable t"
    using cal_raw_text by blast
  have digest: "sha256_json cal_env (PyDict (calendar_raw day_manifest plain_closed)) = Inr (replicate 64 48)"
    using t by (simp add: sha256_json_def cal_env_def utf8_encode_def encodable_def)
  have payload: "cast_object (calendar_raw day_manifest plain_closed) = Inr (calendar_raw day_manifest plain_closed)"
    using t cal_jsonb by (simp add: cast_object_def cast_jsonb_def)
  have errors: "cast_array [] = Inr []"
    by (simp add: cast_array_def cast_jsonb_def canonical_json_text_def encodable_def)
  have digits: "require_sha256 (replicate 64 48) = Inr ()"
    by (simp add: require_sha256_def is_sha256_def list_all_iff)
  have exist: "batch_exists ((cal_started ss)\<lparr>db_events := cal_months\<rparr>) 1" "feed_exists ((cal_started ss)\<lparr>db_events := cal_months\<rparr>) 4"
    by (simp_all add: batch_exists_def get_by_id_def feed_exists_def cal_started_def cal_db_def cal_catalog_def cal_feed_def cal_batch_def)
  have "insert_session_event cal_env cal_batch cal_feed day_manifest 100 plain_closed ((cal_started ss)\<lparr>db_events := cal_months\<rparr>) =
      Inr (cal_audited ss, cal_event)"
    using exist closed_day_date
    by (simp add: insert_session_event_def digest db_bind_def db_lift_def on_events_def insert_response_record_def payload errors digits
        require_aware_datetime_def require_aware_option_def Let_def cal_audited_def cal_event_def cal_months_def cal_feed_def
        cal_batch_def del: u_Cons)
  then show ?thesis
    using cal_month [of ss] cal_lookups(2) [of ss]
    by (simp add: audit_body_def db_bind_def db_read_def db_return_def cal_started_def cal_db_def)
qed

text \<open>Writing the session: into an empty table, and against the row that differs.\<close>

lemma closed_expected: "expected_session 2 plain_closed = Inr closed_row"
  by (simp add: expected_session_def metadata_value_def closed_row_def closed_validated_def)

lemma cal_ensure:
  "ensure_session 2 plain_closed (cal_catalog []) = Inr (cal_catalog [closed_row], closed_row, True)"
  "ensure_session 2 plain_closed (cal_catalog [other_row]) =
     Inl (CalendarConflictError (u ''Conflicting existing session '' @ iso_date 719164 @ u '': settlement_date''))"
proof -
  have "get_session 2 719164 (u ''REGULAR'') (cal_catalog []) = Inr None"
    "get_session 2 719164 (u ''REGULAR'') (cal_catalog [other_row]) = Inr (Some other_row)"
    by (simp_all add: get_session_def one_or_none_def cal_catalog_def session_key_def other_row_def closed_row_def)
  moreover have "vs_trading_date plain_closed = 719164" "vs_session_code plain_closed = u ''REGULAR''"
    by (simp_all add: closed_validated_def)
  moreover have "insert_session closed_row (cal_catalog []) = Inr (cal_catalog [closed_row], closed_row)"
    by (simp add: insert_session_def session_check_def closed_row_def cal_catalog_def cal_venue_def)
  moreover have "session_differences other_row closed_row = [''settlement_date'']"
    by (simp add: session_differences_def other_row_def closed_row_def py_json_eq.simps)
  ultimately show "ensure_session 2 plain_closed (cal_catalog []) = Inr (cal_catalog [closed_row], closed_row, True)"
    "ensure_session 2 plain_closed (cal_catalog [other_row]) =
     Inl (CalendarConflictError (u ''Conflicting existing session '' @ iso_date 719164 @ u '': settlement_date''))"
    by (simp_all add: ensure_session_def closed_expected Let_def del: u_Cons) simp
qed

definition cal_finished :: ingestion_batch where
  "cal_finished = cal_batch\<lparr>batch_status := SUCCEEDED, finished_at := Some 100, received_row_count := 1, accepted_row_count := 1,
     batch_payload_sha256 := Some (replicate 64 48),
     batch_metadata := jsonb_concat (calendar_metadata day_manifest) (calendar_metadata day_manifest)\<rparr>"

definition cal_imported :: ingestion_db where
  "cal_imported = (cal_audited [])\<lparr>db_catalog := cal_catalog [closed_row],
     db_batches := \<lparr>batches = [cal_finished], next_batch_id = 2\<rparr>\<rparr>"

lemma cal_session: "session_body cal_env cal_batch (closed_day []) (cal_audited []) = Inr (cal_imported, (0, 1, 0), 100)"
  using cal_ensure(1) cal_lookups
  by (simp add: session_body_def closed_day_def day_loaded_def Let_def db_bind_def db_read_def acquire_session_locks_def
      db_return_def on_catalog_def on_batches_def cal_audited_def cal_started_def cal_db_def count_session_def
      finalize_batch_def TERMINAL_STATUSES_def validate_counts_def require_aware_option_def require_aware_datetime_def
      execute_running_transition_def finalize_row_def set_payload_def char_n_def set_watermark_def patch_metadata_def
      batch_row_in_range_def batch_row_ok_def in_bigint_def cal_env_def cal_batch_def cal_finished_def cal_imported_def
      closed_validated_def del: u_Cons)

lemma cal_conflict:
  "session_body cal_env cal_batch (closed_day []) (cal_audited [other_row]) =
     Inl (CalendarConflictError (u ''Conflicting existing session '' @ iso_date 719164 @ u '': settlement_date''))"
  using cal_ensure(2) cal_lookups
  by (simp add: session_body_def closed_day_def day_loaded_def Let_def db_bind_def db_read_def acquire_session_locks_def
      db_return_def on_catalog_def cal_audited_def cal_started_def cal_db_def del: u_Cons)

lemma cal_conflict_recorded: "\<exists>db b. conflict_body cal_env cal_batch (closed_day []) message (cal_audited ss) = Inr (db, b)"
  by (simp add: conflict_body_def closed_day_def day_loaded_def Let_def on_batches_def cal_audited_def cal_started_def
      finalize_batch_def TERMINAL_STATUSES_def validate_counts_def require_aware_option_def require_aware_datetime_def
      execute_running_transition_def finalize_row_def set_payload_def set_watermark_def patch_metadata_def
      batch_row_in_range_def batch_row_ok_def in_bigint_def cal_env_def cal_batch_def del: u_Cons)

lemma cal_audit_day: "audit_step_of cal_env (closed_day []) cal_batch (cal_started ss) = Inr (cal_audited ss, ())"
  using cal_audit by (simp add: closed_day_def day_loaded_def cal_env_def)

lemma cal_start_day: "batch_step_of cal_env (closed_day md) (Some (u ''r'')) (cal_db ss) = Inr (cal_started ss, cal_batch, True)"
  using cal_start cal_lookups(6) by (simp add: closed_day_def day_loaded_def cal_env_def del: u_Cons)

lemma cal_import:
  "import_calendar cal_env (closed_day []) (Some (u ''r'')) (cal_db []) =
     (Inr (imported_result cal_batch (closed_day []) 100 ((0, 1, 0), 100)), cal_imported)"
proof -
  have "cal_clock cal_env ImportStart = 100" "\<And>st. \<not> cal_outage cal_env st" by (simp_all add: cal_env_def)
  then show ?thesis
    using cal_start_day [of "[]" "[]"] cal_audit_day [of "[]"] cal_session
    by (simp add: import_calendar_def Let_def calendar_transaction_def in_unit_of_work_def and_then_def write_calendar_def del: u_Cons)
qed

lemma cal_import_conflict:
  "\<exists>db. import_calendar cal_env (closed_day []) (Some (u ''r'')) (cal_db [other_row]) =
     (Inl (CalendarConflictError (u ''Conflicting existing session '' @ iso_date 719164 @ u '': settlement_date'')), db) \<and>
     db_batches db \<noteq> db_batches (cal_db [other_row])"
proof -
  let ?message = "u ''Conflicting existing session '' @ iso_date 719164 @ u '': settlement_date''"
  obtain db b where d: "conflict_body cal_env cal_batch (closed_day []) ?message (cal_audited [other_row]) = Inr (db, b)"
    using cal_conflict_recorded by blast
  have "cal_clock cal_env ImportStart = 100" "\<And>st. \<not> cal_outage cal_env st" by (simp_all add: cal_env_def)
  then have "import_calendar cal_env (closed_day []) (Some (u ''r'')) (cal_db [other_row]) = (Inl (CalendarConflictError ?message), db)"
    using cal_start_day [of "[]" "[other_row]"] cal_audit_day [of "[other_row]"] cal_conflict d
    by (simp add: import_calendar_def Let_def calendar_transaction_def in_unit_of_work_def and_then_def write_calendar_def del: u_Cons)
  moreover have "db_batches db \<noteq> db_batches (cal_db [other_row])"
    using conflict_body_facts(3) [OF d] by (auto simp: cal_db_def empty_batches_def)
  ultimately show ?thesis by blast
qed

text \<open>A session whose metadata has a number with a fraction.\<close>

definition float_metadata :: json_row where
  "float_metadata = [(u ''x'', binary_floats (PyDec (Dec False 15 (- 1))))]"

lemma cal_import_float:
  "\<exists>db. import_calendar cal_env (closed_day float_metadata) (Some (u ''r'')) (cal_db []) =
     (Inl (AppTypeError ''unsupported raw JSON value type''), db) \<and> db \<noteq> cal_db []"
proof -
  let ?v = "closed_validated\<lparr>vs_metadata := float_metadata\<rparr>"
  have "sha256_json cal_env (PyDict (calendar_raw day_manifest ?v)) = Inl (AppTypeError ''unsupported raw JSON value type'')"
    by (simp add: sha256_json_def canonical_json_text_def calendar_raw_def Let_def float_metadata_def closed_validated_def)
  then have "audit_step_of cal_env (closed_day float_metadata) cal_batch (cal_started []) =
      Inl (AppTypeError ''unsupported raw JSON value type'')"
    using cal_month [of "[]"] cal_lookups(2) [of "[]"]
    by (simp add: closed_day_def day_loaded_def audit_body_def db_bind_def db_read_def cal_env_def insert_session_event_def
        db_lift_def cal_started_def cal_db_def)
  moreover have "cal_clock cal_env ImportStart = 100" "\<And>st. \<not> cal_outage cal_env st" by (simp_all add: cal_env_def)
  ultimately have "import_calendar cal_env (closed_day float_metadata) (Some (u ''r'')) (cal_db []) =
     (Inl (AppTypeError ''unsupported raw JSON value type''), cal_started [])"
    using cal_start_day [of float_metadata "[]"]
    by (simp add: import_calendar_def Let_def calendar_transaction_def in_unit_of_work_def and_then_def del: u_Cons)
  then show ?thesis
    by (auto simp: cal_started_def cal_db_def empty_batches_def)
qed

subsection \<open>The properties on them\<close>

theorem imported_sessions_stay_witness:
  "\<exists>s. get_session 2 719164 (u ''REGULAR'') (db_catalog cal_imported) = Inr (Some s) \<and> \<not> is_trading_day s"
proof -
  have "session_inv (db_catalog (cal_db []))" by (simp add: session_inv_def cal_db_def cal_catalog_def)
  moreover have "\<not> import_idempotent_replay (imported_result cal_batch (closed_day []) 100 ((0, 1, 0), 100))"
    by (simp add: imported_result_def Let_def)
  moreover have "plain_closed \<in> set (validated_sessions (closed_day []))" by (simp add: closed_day_def)
  ultimately have "\<exists>w s. get_venue_by_code (manifest_venue_code (calendar_of (closed_day []))) (db_catalog (cal_db [])) = Inr w \<and>
      get_session (venue_id w) (vs_trading_date plain_closed) (vs_session_code plain_closed) (db_catalog cal_imported) = Inr (Some s) \<and>
      is_trading_day s = vs_is_trading_day plain_closed"
    using imported_sessions_stay [OF _ cal_import _ rtranclp.rtrancl_refl] by blast
  moreover have "calendar_of (closed_day []) = day_manifest" "db_catalog (cal_db []) = cal_catalog []"
    by (simp_all add: closed_day_def day_loaded_def cal_db_def)
  ultimately show ?thesis
    using cal_lookups(1,5) by (simp add: closed_validated_def del: u_Cons)
qed

theorem conflict_is_recorded_witness:
  "\<exists>db b. import_calendar cal_env (closed_day []) (Some (u ''r'')) (cal_db [other_row]) =
      (Inl (CalendarConflictError (u ''Conflicting existing session '' @ iso_date 719164 @ u '': settlement_date'')), db) \<and>
    b \<in> set (batches (db_batches db)) \<and> batch_status b = FAILED \<and> rejected_row_count b = 1"
proof -
  obtain db where db: "import_calendar cal_env (closed_day []) (Some (u ''r'')) (cal_db [other_row]) =
      (Inl (CalendarConflictError (u ''Conflicting existing session '' @ iso_date 719164 @ u '': settlement_date'')), db)"
    "db_batches db \<noteq> db_batches (cal_db [other_row])"
    using cal_import_conflict by blast
  then have "\<exists>b. b \<in> set (batches (db_batches db)) \<and> batch_status b = FAILED \<and>
      rejected_row_count b = int (length (validated_sessions (closed_day [])))"
    using conflict_is_recorded [OF db(1)] by blast
  then show ?thesis using db(1) by (auto simp: closed_day_def)
qed

theorem abandoned_import_blocks_request_witness:
  "\<exists>db. import_calendar cal_env (closed_day []) (Some (u ''r'')) db =
     (Inl (CalendarConflictError (u ''calendar request_id is already running'')), db)"
proof -
  obtain db where db: "import_calendar cal_env (closed_day float_metadata) (Some (u ''r'')) (cal_db []) =
      (Inl (AppTypeError ''unsupported raw JSON value type''), db)" "db \<noteq> cal_db []"
    using cal_import_float by blast
  have "calendar_of (closed_day md) = day_manifest" for md by (simp add: closed_day_def day_loaded_def)
  then show ?thesis
    using abandoned_import_blocks_request [OF db(1) is_conflict_simps(2) db(2), of "closed_day []" cal_env "Some (u ''r'')"]
    by (auto simp: cal_env_def simp del: u_Cons)
qed

end
