(* ===== verification/Spec2Isabelle.thy ===== *)
theory Spec2Isabelle
  imports Backtest_Orders Canonical_Value Redaction Ingestion_Example Run_Example Calendar_Example
begin

text \<open>
  A verification development of bisfin, a Python program that collects daily market data, keeps
  it with the times at which it became available, and replays trading strategies on it. All paths
  below are under \<^verbatim>\<open>src/src/bisfin/\<close>.

  \<^bold>\<open>The program.\<close> A service asks the BrsApi provider for the daily candles of one symbol, preserves
  every received row as raw evidence, validates it, resolves it to an instrument and a trading
  session of the catalog, and appends a revision of the daily bar when its values changed
  (\<^verbatim>\<open>ingestion/service.py\<close>). The trading sessions come from calendar files, which are validated and imported before
  (\<^verbatim>\<open>calendar/\<close>). Everything is kept in PostgreSQL through repositories
  (\<^verbatim>\<open>repositories/\<close>), each run in three transactions of a unit of work
  (\<^verbatim>\<open>db/unit_of_work.py\<close>). A bar revision carries the instant at which it became public and the one
  at which the system had it; point-in-time reads use only what was available by a cutoff. The
  simulator (\<^verbatim>\<open>backtest/engine.py\<close>) walks a list of such bars, decides with a moving-average
  crossover on what is visible, and fills orders on later bars. The bars come from a snapshot that was frozen to files
  (\<^verbatim>\<open>snapshots/\<close>) and is verified before every run; the backtest service (\<^verbatim>\<open>backtest/service.py\<close>) queues a run, simulates
  it and writes its ledger in one transaction.

  \<^bold>\<open>The theories.\<close>
  \<^item> \<^verbatim>\<open>Prelude\<close>: results (\<^verbatim>\<open>error + value\<close>), Python strings as lists of code points, insertion-ordered
    dictionaries, civil dates, timestamps in microseconds, shared list lemmas.
  \<^item> \<^verbatim>\<open>Py_Decimal\<close>: \<^verbatim>\<open>decimal.Decimal\<close> under the default context (28 digits, half-even), its value as
    a rational, and the rounding lemmas of the accounting proofs.
  \<^item> \<^verbatim>\<open>Serialization\<close>, \<^verbatim>\<open>Json_Loads\<close>: \<^verbatim>\<open>snapshots/serialization.py\<close> with JSON and UTF-8 written out, and
    the decoder of \<^verbatim>\<open>json.loads\<close>; loading inverts printing.
  \<^item> \<^verbatim>\<open>Backtest_Contracts\<close>, \<^verbatim>\<open>Backtest_Selector\<close>, \<^verbatim>\<open>Backtest_Accounting\<close>, \<^verbatim>\<open>Backtest_Strategy\<close>,
    \<^verbatim>\<open>Backtest_Engine\<close>: the modules of \<^verbatim>\<open>backtest/\<close> of the same names.
    \<^verbatim>\<open>Backtest_Engine_Inv\<close> holds the invariants of the event loop, \<^verbatim>\<open>Backtest_Example\<close> concrete runs
    and \<^verbatim>\<open>Backtest_Simulation\<close> the properties of a whole run: it ends, it decides once on every bar,
    it never looks ahead, its ledger replays, and its cash stays non-negative when costs are below the
    notional. \<^verbatim>\<open>Backtest_Orders\<close> follows every order to its fill, its refusal or its loss.
  \<^item> \<^verbatim>\<open>Db_Core\<close>, \<^verbatim>\<open>Redaction\<close>: \<^verbatim>\<open>db/errors.py\<close>, \<^verbatim>\<open>db/transaction.py\<close>, \<^verbatim>\<open>db/unit_of_work.py\<close>. The unit of
    work is a state machine over a committed and a working database; a block of the services
    refines one atomic step.
  \<^item> \<^verbatim>\<open>Ingestion_Store\<close>: the batch and raw-event tables with \<^verbatim>\<open>ingestion_batch_repository.py\<close> and
    \<^verbatim>\<open>raw_event_repository.py\<close>; step relations of the tables, their invariants, finality of terminal
    batches, append-only evidence.
  \<^item> \<^verbatim>\<open>Catalog_Store\<close>: the catalog tables and the reads of \<^verbatim>\<open>data_feed_repository.py\<close> and
    \<^verbatim>\<open>instrument_repository.py\<close>; temporal identifiers resolve unambiguously.
  \<^item> \<^verbatim>\<open>Bar_Store\<close>: bar series and revisions with \<^verbatim>\<open>bar_writer_repository.py\<close>, \<^verbatim>\<open>bar_repository.py\<close> and
    \<^verbatim>\<open>snapshot_bar_repository.py\<close>, on columns rounded to \<^verbatim>\<open>NUMERIC(38,18)\<close>.
  \<^item> \<^verbatim>\<open>Brsapi_Normalization\<close>, \<^verbatim>\<open>Brsapi_Parser\<close>: the parser of provider responses, with row validation and
    the duplicate policy, and its reference definition row by row.
  \<^item> \<^verbatim>\<open>Ingestion_Service\<close>: \<^verbatim>\<open>ingestion/service.py\<close> over all of the above as operations on one database
    record. \<^verbatim>\<open>Ingestion_Safety\<close> proves what a run preserves and accounts for, through locales that lift
    a relation between databases from single repository calls to transactions and runs;
    \<^verbatim>\<open>Ingestion_Example\<close> carries a run through on a small database.

  \<^item> \<^verbatim>\<open>Canonical_Text\<close>: JSON lines, line splitting, and that canonical bytes determine what they print;
    \<^verbatim>\<open>Canonical_Value\<close>: what reading the canonical bytes of a value gives back.
  \<^item> \<^verbatim>\<open>Snapshot_Store\<close>: \<^verbatim>\<open>snapshots/contracts.py\<close>, \<^verbatim>\<open>snapshots/manifest.py\<close> and
    \<^verbatim>\<open>repositories/snapshot_repository.py\<close>; a finished snapshot is final, and a specification hash identifies its
    request.
  \<^item> \<^verbatim>\<open>Snapshot_Artifacts\<close>, \<^verbatim>\<open>Snapshot_Rows\<close>: \<^verbatim>\<open>snapshots/artifacts.py\<close> on a file system, \<^verbatim>\<open>file:\<close> URIs, and
    \<^verbatim>\<open>backtest/snapshot_data.py\<close>, which reads a component back; the frozen rows answer point-in-time questions as
    the database does.
  \<^item> \<^verbatim>\<open>Snapshot_Builder\<close>, \<^verbatim>\<open>Snapshot_Verifier\<close>: \<^verbatim>\<open>snapshots/builder.py\<close> and \<^verbatim>\<open>snapshots/verifier.py\<close>.
    \<^verbatim>\<open>Snapshot_Safety\<close> follows a build from its rows to the published files and shows that it verifies;
    \<^verbatim>\<open>Snapshot_Lifecycle\<close> has failures, replays and tampering; \<^verbatim>\<open>Snapshot_Example\<close> a concrete build.

  \<^item> \<^verbatim>\<open>Run_Manifest\<close>: \<^verbatim>\<open>backtest/manifest.py\<close>, and the errors of the backtest service.
  \<^item> \<^verbatim>\<open>Run_Store\<close>, \<^verbatim>\<open>Run_Ledger\<close>: \<^verbatim>\<open>backtest_run_repository.py\<close> and \<^verbatim>\<open>backtest_ledger_repository.py\<close> with the rows of
    \<^verbatim>\<open>db/backtest_tables.py\<close>. Every insert has the constraints of its table and the triggers that compare a bar with
    the series of the run and its cutoff. \<^verbatim>\<open>Run_Ledger_Inv\<close> shows what \<open>persist\<close> leaves in the tables, \<^verbatim>\<open>Run_Cash\<close>
    bounds the rounding of the cash ledger.
  \<^item> \<^verbatim>\<open>Run_Service\<close>: \<^verbatim>\<open>backtest/service.py\<close> and \<^verbatim>\<open>backtest/results.py\<close> on files, catalog, run tables and ledger; each of
    the transactions may find no connection, lose its commit, or be applied without the service learning of it.
    \<^verbatim>\<open>Run_Safety\<close> takes the transactions as the steps of a relation, shows that a run is a sequence of steps
    (lemma \<open>run_document_steps\<close>), and what holds along every sequence; \<^verbatim>\<open>Run_Example\<close> carries a run through.

  \<^item> \<^verbatim>\<open>Calendar_Zone\<close>: time zones as their transitions, and the instants at which the clocks of a zone show a local time
    (\<^verbatim>\<open>_to_utc\<close> of \<^verbatim>\<open>calendar/manifest.py\<close>). \<^verbatim>\<open>Calendar_Manifest\<close>: the rest of \<^verbatim>\<open>calendar/manifest.py\<close>, from the bytes
    of a file to the validated sessions with their instants.
  \<^item> \<^verbatim>\<open>Calendar_Import\<close>: \<^verbatim>\<open>calendar/importer.py\<close>, \<^verbatim>\<open>calendar/results.py\<close>, \<^verbatim>\<open>calendar/errors.py\<close>,
    \<^verbatim>\<open>trading_calendar_repository.py\<close> and the two lookups of \<^verbatim>\<open>catalog_writer_repository.py\<close> the import calls, on the
    database record of the ingestion. \<^verbatim>\<open>Calendar_Safety\<close> follows an import through its transactions (rule
    \<open>import_cases\<close>): all of its sessions or none, what it wrote stays, conflicts are recorded, and which
    errors leave the batch open; \<^verbatim>\<open>Calendar_Example\<close> has a concrete file and catalog.

  \<^bold>\<open>Parameters.\<close> SHA-256, the Unicode tables (normalization, decimal digits, alphanumerics, spaces),
  the Jalali calendar, the JSON-mode dump and the validation and conversions of pydantic models, the time zone database, the HTTP response, the clock,
  fresh identifiers, the failures of file-system calls, text collation, database outages, lost commits and the hash of
  the strategy's source are arguments of the definitions that use them.

  \<^bold>\<open>Fuel.\<close> \<^verbatim>\<open>sim_loop\<close> runs on fuel that is proved to be enough for every input; the JSON decoder takes
  the length of its text as fuel, which the round trip shows to be enough. Every other loop is a
  total recursive function.

  \<^bold>\<open>Not modelled.\<close> The HTTP client, command line, settings, logging and engine construction (input and output);
  typing-only protocols; the provisioning of the catalog (\<^verbatim>\<open>catalog/\<close> and the rest of
  \<^verbatim>\<open>repositories/catalog_writer_repository.py\<close>), which fills the other tables that everything else only reads; loading a
  snapshot or backtest manifest from disk and the JSON schemas; a unit of work whose connection or commit raises, and the refusal
  of NUL characters in the metadata of a batch. Two transactions of the backtest
  service that run at the same time are ordered by the lock on the row of the run and by the constraints of the tables;
  their interleaving inside one transaction has no model.
\<close>

end
